(* ===== verification/Prelude.thy ===== *)
theory Prelude
  imports Main "HOL-Library.AList" "HOL-Library.Char_ord" "HOL-Library.List_Lexorder"
begin

text \<open>
  Shared vocabulary of the development: the types that every component uses (identifiers,
  instants, durations), Go's byte strings and the functions of package strings the code calls,
  int64 arithmetic with its wrap-around, Go maps as association lists with distinct keys, and
  the collections of lemmas the component theories extend.

  Identifiers are natural numbers (\<open>uuid.Nil\<close> is 0); instants and durations are nanosecond
  counts (the zero time is 0). Strings are byte strings; \<open>TrimSpace\<close> and \<open>ToLower\<close> treat the
  ASCII range, which is what the code feeds them.
\<close>

named_theorems entity_simps \<open>projections of the entity records\<close>
named_theorems errcode_simps \<open>how the error constructors answer errors.As and errors.Is\<close>
named_theorems step_defs \<open>definitions of the state changing operations\<close>

type_synonym uuid = nat
type_synonym instant = int
type_synonym duration = int

abbreviation (input) uuid_nil :: uuid where "uuid_nil \<equiv> 0"

abbreviation (input) millisecond :: duration where "millisecond \<equiv> 1000000"
abbreviation (input) second :: duration where "second \<equiv> 1000000000"
abbreviation (input) minute :: duration where "minute \<equiv> 60000000000"

section \<open>int64 arithmetic\<close>

definition wrap64 :: "int \<Rightarrow> int" where
  "wrap64 x = (x + 2 ^ 63) mod 2 ^ 64 - 2 ^ 63"

lemma wrap64_id [simp]: "- (2 ^ 63) \<le> x \<Longrightarrow> x < 2 ^ 63 \<Longrightarrow> wrap64 x = x"
  by (simp add: wrap64_def)

lemma wrap64_range: "- (2 ^ 63) \<le> wrap64 x \<and> wrap64 x < 2 ^ 63"
proof -
  have "0 \<le> (x + 2 ^ 63) mod 2 ^ 64" "(x + 2 ^ 63) mod 2 ^ 64 < 2 ^ 64" by simp_all
  then show ?thesis by (simp add: wrap64_def)
qed

section \<open>Package strings\<close>

definition has_prefix :: "string \<Rightarrow> string \<Rightarrow> bool" where
  "has_prefix p s \<longleftrightarrow> take (length p) s = p"

definition has_suffix :: "string \<Rightarrow> string \<Rightarrow> bool" where
  "has_suffix p s \<longleftrightarrow> length p \<le> length s \<and> drop (length s - length p) s = p"

definition trim_prefix :: "string \<Rightarrow> string \<Rightarrow> string" where
  "trim_prefix p s = (if has_prefix p s then drop (length p) s else s)"

fun contains :: "string \<Rightarrow> string \<Rightarrow> bool" where
  "contains needle [] = (needle = [])"
| "contains needle (c # cs) = (has_prefix needle (c # cs) \<or> contains needle cs)"

definition is_space :: "char \<Rightarrow> bool" where
  "is_space c \<longleftrightarrow> c \<in> set [CHR '' '', CHR 0x09, CHR 0x0A, CHR 0x0B, CHR 0x0C, CHR 0x0D]"

definition trim_space :: "string \<Rightarrow> string" where
  "trim_space s = rev (dropWhile is_space (rev (dropWhile is_space s)))"

definition lower_char :: "char \<Rightarrow> char" where
  "lower_char c = (if 65 \<le> (of_char c :: nat) \<and> (of_char c :: nat) \<le> 90
                   then char_of ((of_char c :: nat) + 32) else c)"

definition to_lower :: "string \<Rightarrow> string" where
  "to_lower s = map lower_char s"

lemma has_prefix_append [simp]: "has_prefix p (p @ s)"
  by (simp add: has_prefix_def)

lemma has_prefix_iff: "has_prefix p s \<longleftrightarrow> (\<exists>t. s = p @ t)"
  by (metis append_take_drop_id has_prefix_append has_prefix_def)

lemma has_suffix_append [simp]: "has_suffix p (s @ p)"
  by (simp add: has_suffix_def)

lemma has_suffix_iff: "has_suffix p s \<longleftrightarrow> (\<exists>t. s = t @ p)"
proof
  assume "has_suffix p s"
  then have "s = take (length s - length p) s @ p"
    by (metis append_take_drop_id has_suffix_def)
  then show "\<exists>t. s = t @ p" by blast
qed auto

lemma trim_prefix_append [simp]: "trim_prefix p (p @ s) = s"
  by (simp add: trim_prefix_def)

lemma dropWhile_idem: "dropWhile P (dropWhile P xs) = dropWhile P xs"
  by (induction xs) auto

lemma dropWhile_hd: "dropWhile P xs = [] \<or> \<not> P (hd (dropWhile P xs))"
  by (induction xs) auto

lemma trim_space_noop:
  "s = [] \<or> \<not> is_space (hd s) \<and> \<not> is_space (last s) \<Longrightarrow> trim_space s = s"
proof -
  assume a: "s = [] \<or> \<not> is_space (hd s) \<and> \<not> is_space (last s)"
  then have "dropWhile is_space s = s" by (cases s) auto
  moreover have "dropWhile is_space (rev s) = rev s"
    using a by (cases s rule: rev_cases) auto
  ultimately show ?thesis by (simp add: trim_space_def)
qed

lemma trim_space_idem [simp]: "trim_space (trim_space s) = trim_space s"
proof -
  define a b where "a = dropWhile is_space s" and "b = dropWhile is_space (rev a)"
  have hb: "b = [] \<or> \<not> is_space (hd b)" unfolding b_def by (rule dropWhile_hd)
  have ha: "a = [] \<or> \<not> is_space (hd a)" unfolding a_def by (rule dropWhile_hd)
  obtain us where "rev a = us @ b"
    unfolding b_def by (metis takeWhile_dropWhile_id)
  then have "a = rev b @ rev us" by (metis rev_append rev_rev_ident)
  then have "b \<noteq> [] \<Longrightarrow> hd a = hd (rev b) \<and> a \<noteq> []" by (cases "rev b") auto
  with ha hb have "rev b = [] \<or> \<not> is_space (hd (rev b)) \<and> \<not> is_space (last (rev b))"
    by (metis last_rev rev.simps(1))
  then have "trim_space (rev b) = rev b" by (rule trim_space_noop)
  then show ?thesis by (simp add: trim_space_def a_def b_def)
qed

section \<open>Go maps\<close>

text \<open>
  A Go map is an association list with distinct keys; the order of the list is one order in
  which a \<open>range\<close> may visit it, so a statement about every such list covers every order.
\<close>

type_synonym ('k, 'v) gomap = "('k \<times> 'v) list"

abbreviation wf_map :: "('k, 'v) gomap \<Rightarrow> bool" where
  "wf_map m \<equiv> distinct (map fst m)"

abbreviation keys :: "('k, 'v) gomap \<Rightarrow> 'k set" where
  "keys m \<equiv> fst ` set m"

lemma keys_dom: "keys m = dom (map_of m)"
  by (simp add: dom_map_of_conv_image_fst)

lemma map_of_update [simp]: "map_of (AList.update k v m) = (map_of m)(k \<mapsto> v)"
  by (rule AList.update_conv')

lemma map_of_delete [simp]: "map_of (AList.delete k m) = (map_of m)(k := None)"
  by (rule AList.delete_conv')

lemma wf_update [simp, intro]: "wf_map m \<Longrightarrow> wf_map (AList.update k v m)"
  by (rule AList.distinct_update)

lemma wf_delete [simp, intro]: "wf_map m \<Longrightarrow> wf_map (AList.delete k m)"
  by (rule AList.distinct_delete)

lemma wf_filter [simp, intro]: "wf_map m \<Longrightarrow> wf_map (filter P m)"
  by (induction m) auto

lemma keys_update [simp]: "keys (AList.update k v m) = insert k (keys m)"
  by (simp add: AList.dom_update)

lemma keys_delete [simp]: "keys (AList.delete k m) = keys m - {k}"
  by (metis delete_keys set_map set_removeAll)

lemma update_fresh: "k \<notin> keys m \<Longrightarrow> AList.update k v m = m @ [(k, v)]"
  by (induction m) auto

lemma length_update_fresh: "k \<notin> keys m \<Longrightarrow> length (AList.update k v m) = Suc (length m)"
  by (simp add: update_fresh)

lemma length_update_old: "k \<in> keys m \<Longrightarrow> length (AList.update k v m) = length m"
  by (induction m) auto

lemma length_delete: "wf_map m \<Longrightarrow> length (AList.delete k m) = length m - (if k \<in> keys m then 1 else 0)"
proof (induction m)
  case (Cons a m)
  then show ?case by (cases a) (auto simp: AList.delete_eq filter_id_conv Suc_diff_le image_iff
        dest: length_pos_if_in_set)
qed simp

lemma map_of_in_set: "map_of m k = Some v \<Longrightarrow> (k, v) \<in> set m"
  by (rule map_of_SomeD)

lemma in_set_map_of: "wf_map m \<Longrightarrow> (k, v) \<in> set m \<longleftrightarrow> map_of m k = Some v"
  by (metis map_of_eq_Some_iff)

lemma map_of_None_keys: "map_of m k = None \<longleftrightarrow> k \<notin> keys m"
  by (rule map_of_eq_None_iff)

lemma map_of_filter_key: "map_of (filter (\<lambda>(k, v). P k) m) k = (if P k then map_of m k else None)"
  by (induction m) auto

lemma map_of_map_values: "map_of (map (\<lambda>(k, v). (k, f k v)) m) k = map_option (f k) (map_of m k)"
  by (induction m) auto

lemma keys_map_values [simp]: "map fst (map (\<lambda>(k, v). (k, f k v)) m) = map fst m"
  by (induction m) auto

text \<open>A map all of whose entries satisfy a predicate.\<close>

definition entries :: "('k \<Rightarrow> 'v \<Rightarrow> bool) \<Rightarrow> ('k, 'v) gomap \<Rightarrow> bool" where
  "entries P m \<longleftrightarrow> wf_map m \<and> (\<forall>(k, v) \<in> set m. P k v)"

lemma entries_Nil [simp]: "entries P []"
  by (simp add: entries_def)

lemma entries_Cons [simp]: "entries P ((k, v) # m) \<longleftrightarrow> k \<notin> keys m \<and> P k v \<and> entries P m"
  by (auto simp: entries_def)

lemma entries_wf: "entries P m \<Longrightarrow> wf_map m"
  by (simp add: entries_def)

lemma entries_lookup: "entries P m \<Longrightarrow> map_of m k = Some v \<Longrightarrow> P k v"
  by (auto simp: entries_def dest: map_of_SomeD)

lemma set_update_subset: "set (AList.update k v m) \<subseteq> insert (k, v) (set m)"
  by (induction m) auto

lemma entries_update: "entries P m \<Longrightarrow> P k v \<Longrightarrow> entries P (AList.update k v m)"
  using set_update_subset[of k v m] by (auto simp: entries_def)

lemma entries_delete: "entries P m \<Longrightarrow> entries P (AList.delete k m)"
  by (auto simp: entries_def AList.delete_eq)

lemma entries_mono: "entries P m \<Longrightarrow> (\<And>k v. (k, v) \<in> set m \<Longrightarrow> P k v \<Longrightarrow> Q k v) \<Longrightarrow> entries Q m"
  by (auto simp: entries_def)

lemma entries_map_values: "entries P m \<Longrightarrow> (\<And>k v. P k v \<Longrightarrow> Q k (f k v)) \<Longrightarrow> entries Q (map (\<lambda>(k, v). (k, f k v)) m)"
  unfolding entries_def keys_map_values by auto

lemma keys_same: "map fst m' = map fst m \<Longrightarrow> keys m' = keys m"
  by (metis set_map)

lemma find_Some_mem: "find P xs = Some x \<Longrightarrow> x \<in> set xs \<and> P x"
  by (induction xs) (auto split: if_splits)

lemma find_exists: "x \<in> set xs \<Longrightarrow> P x \<Longrightarrow> \<exists>y. find P xs = Some y"
  by (induction xs) auto

lemma find_append_fresh: "(\<forall>x \<in> set xs. \<not> P x) \<Longrightarrow> find P (xs @ ys) = find P ys"
  by (induction xs) auto

lemma find_map_invariant:
  "(\<And>x. P (g x) = P x) \<Longrightarrow> find P (map g xs) = map_option g (find P xs)"
  by (induction xs) auto

lemma find_distinct_key:
  "distinct (map key rows) \<Longrightarrow> r \<in> set rows \<Longrightarrow> find (\<lambda>x. key x = key r) rows = Some r"
proof (induction rows)
  case (Cons a rows)
  then show ?case by (auto simp: image_iff)
qed simp

end
