(* ===== verification/Cerrors.thy ===== *)
theory Cerrors
  imports Prelude
begin

text \<open>
  Package \<open>internal/pkg/cerrors\<close> and the Go error values it travels with. An error is a tree:
  \<open>AppError\<close> is \<open>*cerrors.AppError\<close> (its \<open>Err\<close> field is the optional child), \<open>Wrapped\<close> is
  \<open>fmt.Errorf\<close> with a \<open>%w\<close>, \<open>Joined\<close> is \<open>errors.Join\<close>, and the leaves are the sentinel and
  driver errors the code tests for. \<open>as_app_error\<close> and \<open>err_is\<close> walk the tree the way
  \<open>errors.As\<close> and \<open>errors.Is\<close> do: the node itself, then its children from left to right.
\<close>

datatype code =
    CodeNotFound | CodeAlreadyExists | CodeInvalidInput | CodeUnauthorized | CodeForbidden
  | CodeInternal | CodeConflict | CodeRateLimited | CodeUnavailable

datatype error =
    AppError code string "error option"
  | Wrapped string error
  | Joined error error
  | RedisNil
  | Canceled
  | DeadlineExceeded
  | NetError bool string
  | PgError string string
  | PlainError string

fun code_text :: "code \<Rightarrow> string" where
  "code_text CodeNotFound = ''NOT_FOUND''"
| "code_text CodeAlreadyExists = ''ALREADY_EXISTS''"
| "code_text CodeInvalidInput = ''INVALID_INPUT''"
| "code_text CodeUnauthorized = ''UNAUTHORIZED''"
| "code_text CodeForbidden = ''FORBIDDEN''"
| "code_text CodeInternal = ''INTERNAL''"
| "code_text CodeConflict = ''CONFLICT''"
| "code_text CodeRateLimited = ''RATE_LIMITED''"
| "code_text CodeUnavailable = ''UNAVAILABLE''"

fun error_text :: "error \<Rightarrow> string" where
  "error_text (AppError c m None) = code_text c @ '': '' @ m"
| "error_text (AppError c m (Some e)) = code_text c @ '': '' @ m @ '': '' @ error_text e"
| "error_text (Wrapped m e) = m @ '': '' @ error_text e"
| "error_text (Joined a b) = error_text a @ [CHR 0x0A] @ error_text b"
| "error_text RedisNil = ''redis: nil''"
| "error_text Canceled = ''context canceled''"
| "error_text DeadlineExceeded = ''context deadline exceeded''"
| "error_text (NetError t m) = m"
| "error_text (PgError c m) = m"
| "error_text (PlainError m) = m"

fun http_status :: "code \<Rightarrow> nat" where
  "http_status CodeNotFound = 404"
| "http_status CodeAlreadyExists = 409"
| "http_status CodeConflict = 409"
| "http_status CodeInvalidInput = 400"
| "http_status CodeUnauthorized = 401"
| "http_status CodeForbidden = 403"
| "http_status CodeRateLimited = 429"
| "http_status CodeUnavailable = 503"
| "http_status CodeInternal = 500"

definition not_found :: "string \<Rightarrow> error" where
  "not_found m = AppError CodeNotFound m None"
definition already_exists :: "string \<Rightarrow> error" where
  "already_exists m = AppError CodeAlreadyExists m None"
definition invalid_input :: "string \<Rightarrow> error" where
  "invalid_input m = AppError CodeInvalidInput m None"
definition unauthorized :: "string \<Rightarrow> error" where
  "unauthorized m = AppError CodeUnauthorized m None"
definition forbidden :: "string \<Rightarrow> error" where
  "forbidden m = AppError CodeForbidden m None"
definition internal_err :: "string \<Rightarrow> error \<Rightarrow> error" where
  "internal_err m e = AppError CodeInternal m (Some e)"
definition conflict :: "string \<Rightarrow> error" where
  "conflict m = AppError CodeConflict m None"
definition unavailable :: "string \<Rightarrow> error" where
  "unavailable m = AppError CodeUnavailable m None"

fun as_app_error :: "error \<Rightarrow> (code \<times> string \<times> error option) option" where
  "as_app_error (AppError c m e) = Some (c, m, e)"
| "as_app_error (Wrapped m e) = as_app_error e"
| "as_app_error (Joined a b) =
     (case as_app_error a of Some r \<Rightarrow> Some r | None \<Rightarrow> as_app_error b)"
| "as_app_error _ = None"

definition app_code :: "error \<Rightarrow> code option" where
  "app_code e = map_option fst (as_app_error e)"

fun err_is :: "error \<Rightarrow> error \<Rightarrow> bool" where
  "err_is t (AppError c m None) \<longleftrightarrow> t = AppError c m None"
| "err_is t (AppError c m (Some e)) \<longleftrightarrow> t = AppError c m (Some e) \<or> err_is t e"
| "err_is t (Wrapped m e) \<longleftrightarrow> t = Wrapped m e \<or> err_is t e"
| "err_is t (Joined a b) \<longleftrightarrow> t = Joined a b \<or> err_is t a \<or> err_is t b"
| "err_is t e \<longleftrightarrow> t = e"

text \<open>\<open>errors.As\<close> for the driver errors: the first PgError (its code) and the first net.Error
  (its Timeout answer) of the tree. The deadline error of package context is a net.Error too.\<close>

fun as_pg_code :: "error \<Rightarrow> string option" where
  "as_pg_code (AppError c m None) = None"
| "as_pg_code (AppError c m (Some e)) = as_pg_code e"
| "as_pg_code (Wrapped m e) = as_pg_code e"
| "as_pg_code (Joined a b) = (case as_pg_code a of Some r \<Rightarrow> Some r | None \<Rightarrow> as_pg_code b)"
| "as_pg_code (PgError c m) = Some c"
| "as_pg_code _ = None"

fun as_net_timeout :: "error \<Rightarrow> bool option" where
  "as_net_timeout (AppError c m None) = None"
| "as_net_timeout (AppError c m (Some e)) = as_net_timeout e"
| "as_net_timeout (Wrapped m e) = as_net_timeout e"
| "as_net_timeout (Joined a b) =
     (case as_net_timeout a of Some r \<Rightarrow> Some r | None \<Rightarrow> as_net_timeout b)"
| "as_net_timeout (NetError t m) = Some t"
| "as_net_timeout DeadlineExceeded = Some True"
| "as_net_timeout _ = None"

lemma app_code_ctors [simp, errcode_simps]:
  "app_code (not_found m) = Some CodeNotFound"
  "app_code (already_exists m) = Some CodeAlreadyExists"
  "app_code (invalid_input m) = Some CodeInvalidInput"
  "app_code (unauthorized m) = Some CodeUnauthorized"
  "app_code (forbidden m) = Some CodeForbidden"
  "app_code (internal_err m e) = Some CodeInternal"
  "app_code (conflict m) = Some CodeConflict"
  "app_code (unavailable m) = Some CodeUnavailable"
  by (simp_all add: app_code_def not_found_def already_exists_def invalid_input_def
      unauthorized_def forbidden_def internal_err_def conflict_def unavailable_def)

lemma app_code_AppError [simp]: "app_code (AppError c m e) = Some c"
  by (simp add: app_code_def)

lemma app_code_Wrapped [simp]: "app_code (Wrapped m e) = app_code e"
  by (simp add: app_code_def)

lemma app_code_leaf [simp]:
  "app_code RedisNil = None" "app_code Canceled = None" "app_code DeadlineExceeded = None"
  "app_code (NetError t m) = None" "app_code (PgError c m) = None" "app_code (PlainError m) = None"
  by (simp_all add: app_code_def)

section \<open>Results\<close>

text \<open>Go's \<open>(T, error)\<close> is a sum with the error on the left; \<open>error\<close> alone is an option.\<close>

type_synonym 'a result = "error + 'a"

abbreviation Err :: "error \<Rightarrow> 'a result" where "Err \<equiv> Inl"
abbreviation Ok :: "'a \<Rightarrow> 'a result" where "Ok \<equiv> Inr"

definition result_bind :: "'a result \<Rightarrow> ('a \<Rightarrow> 'b result) \<Rightarrow> 'b result" where
  "result_bind r f = (case r of Err e \<Rightarrow> Err e | Ok x \<Rightarrow> f x)"

lemma result_bind_simps [simp]:
  "result_bind (Err e) f = Err e" "result_bind (Ok x) f = f x"
  by (simp_all add: result_bind_def)

lemma result_bind_Ok: "result_bind r f = Ok y \<longleftrightarrow> (\<exists>x. r = Ok x \<and> f x = Ok y)"
  by (cases r) auto

section \<open>Package pagination\<close>

definition default_limit :: int where "default_limit = 50"
definition max_limit :: int where "max_limit = 100"

record page_params =
  pp_cursor :: uuid
  pp_limit :: int
  pp_offset :: int

definition normalize_params :: "page_params \<Rightarrow> page_params" where
  "normalize_params p =
     (let l = (if pp_limit p \<le> 0 then default_limit else pp_limit p)
      in p\<lparr>pp_limit := (if l > max_limit then max_limit else l)\<rparr>)"

lemma normalize_limit_range:
  "1 \<le> pp_limit (normalize_params p) \<and> pp_limit (normalize_params p) \<le> 100"
  by (auto simp: normalize_params_def Let_def default_limit_def max_limit_def)

lemma normalize_cursor [simp]: "pp_cursor (normalize_params p) = pp_cursor p"
  by (simp add: normalize_params_def Let_def)

lemma normalize_idem: "normalize_params (normalize_params p) = normalize_params p"
  by (simp add: normalize_params_def Let_def default_limit_def max_limit_def)

end
