(* ===== verification/Entities.thy ===== *)
theory Entities
  imports Cerrors
begin

text \<open>
  The domain entities of \<open>internal/domain/entity\<close> the modelled services work on. String enums
  become datatypes; the last constructor of an enum that the code switches on with a
  \<open>default\<close> branch carries any other string stored in the database.
\<close>

datatype workspace_role = RoleOwner | RoleAdmin | RoleMember | RoleGuest | RoleOther string

fun role_text :: "workspace_role \<Rightarrow> string" where
  "role_text RoleOwner = ''owner''"
| "role_text RoleAdmin = ''admin''"
| "role_text RoleMember = ''member''"
| "role_text RoleGuest = ''guest''"
| "role_text (RoleOther s) = s"

record workspace_member =
  wm_id :: uuid
  wm_workspace :: uuid
  wm_user :: uuid
  wm_role :: workspace_role
  wm_joined_at :: instant

record role_definition_row =
  rd_id :: uuid
  rd_workspace :: uuid
  rd_name :: string
  rd_base_role :: workspace_role
  rd_permissions :: "string list"
  rd_system :: bool
  rd_created_at :: instant
  rd_updated_at :: instant

record role_assignment =
  ra_id :: uuid
  ra_workspace :: uuid
  ra_user :: uuid
  ra_role :: uuid
  ra_assigned_by :: "uuid option"
  ra_assigned_at :: instant

datatype channel_type = ChPublic | ChPrivate | ChDM | ChGroupDM | ChMeeting | ChOther string

record channel =
  ch_id :: uuid
  ch_workspace :: uuid
  ch_name :: string
  ch_topic :: string
  ch_type :: channel_type
  ch_created_by :: uuid
  ch_archived :: bool
  ch_created_at :: instant
  ch_updated_at :: instant

datatype channel_role = ChRoleOwner | ChRoleAdmin | ChRoleMember

record channel_member =
  cm_id :: uuid
  cm_channel :: uuid
  cm_user :: uuid
  cm_role :: channel_role
  cm_muted_until :: "instant option"
  cm_last_read_at :: instant
  cm_joined_at :: instant

record guest_grant =
  gg_id :: uuid
  gg_invite :: uuid
  gg_workspace :: uuid
  gg_user :: uuid
  gg_channels :: "uuid list"
  gg_expires_at :: instant
  gg_created_at :: instant

record channel_grant =
  cg_id :: uuid
  cg_channel :: uuid
  cg_workspace :: uuid
  cg_user :: uuid
  cg_source_user :: uuid
  cg_remote_workspace :: uuid
  cg_allow_calls :: bool
  cg_created_at :: instant

datatype connection_status =
  ConnPending | ConnActive | ConnPaused | ConnRevoked

datatype directory_visibility = DirNone | DirBasic | DirDirectory | DirEmpty | DirOther string

datatype contact_policy =
  ContactNone | ContactRoleBased | ContactMutualAllow | ContactOpen | ContactEmpty | ContactOther string

record connection_policy =
  cp_directory :: directory_visibility
  cp_contact :: contact_policy
  cp_source_roles :: "workspace_role list"
  cp_target_roles :: "workspace_role list"
  cp_shared_channels :: bool
  cp_shared_calls :: bool
  cp_expires_at :: "instant option"

record workspace_connection =
  wc_id :: uuid
  wc_source :: uuid
  wc_target :: uuid
  wc_status :: connection_status
  wc_policy :: connection_policy
  wc_created_by :: uuid
  wc_approved_by :: "uuid option"
  wc_created_at :: instant
  wc_updated_at :: instant

text \<open>\<open>GuestAccessGrant.IsActive\<close> and \<open>GuestAccessGrant.AllowsChannel\<close>.\<close>

definition grant_is_active :: "guest_grant \<Rightarrow> instant \<Rightarrow> bool" where
  "grant_is_active g now \<longleftrightarrow> \<not> now > gg_expires_at g"

fun channel_listed :: "uuid list \<Rightarrow> uuid \<Rightarrow> bool" where
  "channel_listed [] c = False"
| "channel_listed (a # as) c = (if a = c then True else channel_listed as c)"

definition allows_channel :: "uuid list \<Rightarrow> uuid \<Rightarrow> bool" where
  "allows_channel channels c = (if channels = [] then True else channel_listed channels c)"

lemma channel_listed_iff [simp]: "channel_listed cs c \<longleftrightarrow> c \<in> set cs"
  by (induction cs) auto

lemma allows_channel_iff: "allows_channel cs c \<longleftrightarrow> cs = [] \<or> c \<in> set cs"
  by (simp add: allows_channel_def)

end
