(* ===== verification/Tables.thy ===== *)
theory Tables
  imports Entities
begin

text \<open>
  The PostgreSQL repositories of \<open>internal/repository/postgres\<close> behind the access control
  components: workspace members, role definitions and assignments, channels and their members,
  guest and collaboration grants, workspace connections. A table is the list of its rows;
  \<open>db_fault\<close> says which statement the driver fails, with which error, so every error branch of
  the repositories is live. The unique constraints of \<open>migrations/\<close> are the invariant
  \<open>db_ok\<close>. Foreign keys and CHECK constraints are not modelled: a violation is a driver error.
\<close>

record db =
  db_members :: "workspace_member list"
  db_role_defs :: "role_definition_row list"
  db_role_assigns :: "role_assignment list"
  db_channels :: "channel list"
  db_channel_members :: "channel_member list"
  db_guest_grants :: "guest_grant list"
  db_channel_grants :: "channel_grant list"
  db_connections :: "workspace_connection list"
  db_fault :: "string \<Rightarrow> error option"

definition empty_db :: db where
  "empty_db = \<lparr>db_members = [], db_role_defs = [], db_role_assigns = [], db_channels = [],
     db_channel_members = [], db_guest_grants = [], db_channel_grants = [], db_connections = [],
     db_fault = (\<lambda>_. None)\<rparr>"

section \<open>Statements\<close>

definition unique_violation :: error where
  "unique_violation = PgError ''23505'' ''duplicate key value violates unique constraint''"

definition exec_insert :: "error option \<Rightarrow> bool \<Rightarrow> error option" where
  "exec_insert fault dup =
     (case fault of Some e \<Rightarrow> Some e | None \<Rightarrow> if dup then Some unique_violation else None)"

text \<open>The error an INSERT (or an UPDATE under a unique constraint) turns into.\<close>

definition insert_error :: "string \<Rightarrow> string \<Rightarrow> error \<Rightarrow> error" where
  "insert_error exists_msg wrap_msg e =
     (if as_pg_code e = Some ''23505'' then already_exists exists_msg else Wrapped wrap_msg e)"

definition query_row :: "error option \<Rightarrow> string \<Rightarrow> string \<Rightarrow> ('r \<Rightarrow> bool) \<Rightarrow> 'r list \<Rightarrow> 'r result" where
  "query_row fault missing_msg wrap_msg P rows =
     (case fault of Some e \<Rightarrow> Err (Wrapped wrap_msg e)
      | None \<Rightarrow> (case find P rows of None \<Rightarrow> Err (not_found missing_msg) | Some r \<Rightarrow> Ok r))"

definition query_rows :: "error option \<Rightarrow> string \<Rightarrow> 'r list \<Rightarrow> 'r list result" where
  "query_rows fault wrap_msg rows =
     (case fault of Some e \<Rightarrow> Err (Wrapped wrap_msg e) | None \<Rightarrow> Ok rows)"

definition update_rows :: "('r \<Rightarrow> bool) \<Rightarrow> ('r \<Rightarrow> 'r) \<Rightarrow> 'r list \<Rightarrow> 'r list" where
  "update_rows P f rows = map (\<lambda>r. if P r then f r else r) rows"

text \<open>The error of an UPDATE or DELETE: a driver error, or no row affected.\<close>

definition exec_affected :: "error option \<Rightarrow> string \<Rightarrow> string \<Rightarrow> ('r \<Rightarrow> bool) \<Rightarrow> 'r list \<Rightarrow> error option" where
  "exec_affected fault missing_msg wrap_msg P rows =
     (case fault of Some e \<Rightarrow> Some (Wrapped wrap_msg e)
      | None \<Rightarrow> if list_ex P rows then None else Some (not_found missing_msg))"

lemma query_row_Ok: "query_row fl mm wm P rows = Ok r \<longleftrightarrow> fl = None \<and> find P rows = Some r"
  by (auto simp: query_row_def split: option.splits)

lemma query_row_member: "query_row fl mm wm P rows = Ok r \<Longrightarrow> r \<in> set rows \<and> P r"
  by (auto simp: query_row_Ok dest: find_Some_mem)

lemma query_row_not_found:
  "query_row None mm wm P rows = Err (not_found mm) \<longleftrightarrow> (\<forall>r \<in> set rows. \<not> P r)"
  by (auto simp: query_row_def find_None_iff split: option.splits dest: find_Some_mem)

lemma query_rows_Ok [simp]: "query_rows fl wm rows = Ok rs \<longleftrightarrow> fl = None \<and> rs = rows"
  by (auto simp: query_rows_def split: option.splits)

lemma query_rows_Err: "query_rows fl wm rows = Err e \<longleftrightarrow> (\<exists>f. fl = Some f \<and> e = Wrapped wm f)"
  by (auto simp: query_rows_def split: option.splits)

lemma map_update_rows:
  "(\<And>r. P r \<Longrightarrow> g (f r) = g r) \<Longrightarrow> map g (update_rows P f rows) = map g rows"
  by (simp add: update_rows_def)

lemma distinct_map_filter [intro]: "distinct (map f xs) \<Longrightarrow> distinct (map f (filter P xs))"
  by (rule distinct_map_filter)

section \<open>Workspace members (workspace.go)\<close>

definition pg_add_member :: "db \<Rightarrow> workspace_member \<Rightarrow> db \<times> error option" where
  "pg_add_member d m =
     (case exec_insert (db_fault d ''add workspace member'')
             (list_ex (\<lambda>r. wm_workspace r = wm_workspace m \<and> wm_user r = wm_user m
                         \<or> wm_id r = wm_id m) (db_members d)) of
        Some e \<Rightarrow> (d, Some (insert_error ''member already exists in workspace''
                              ''postgres: add workspace member'' e))
      | None \<Rightarrow> (d\<lparr>db_members := db_members d @ [m]\<rparr>, None))"

definition pg_get_member :: "db \<Rightarrow> uuid \<Rightarrow> uuid \<Rightarrow> workspace_member result" where
  "pg_get_member d w u =
     query_row (db_fault d ''get workspace member'') ''workspace member not found''
       ''postgres: get workspace member'' (\<lambda>r. wm_workspace r = w \<and> wm_user r = u) (db_members d)"

definition pg_update_member_role :: "db \<Rightarrow> uuid \<Rightarrow> uuid \<Rightarrow> workspace_role \<Rightarrow> db \<times> error option" where
  "pg_update_member_role d w u role =
     (let P = (\<lambda>r. wm_workspace r = w \<and> wm_user r = u) in
      case exec_affected (db_fault d ''update workspace member role'') ''workspace member not found''
             ''postgres: update workspace member role'' P (db_members d) of
        Some e \<Rightarrow> (d, Some e)
      | None \<Rightarrow> (d\<lparr>db_members := update_rows P (\<lambda>r. r\<lparr>wm_role := role\<rparr>) (db_members d)\<rparr>, None))"

definition pg_remove_member :: "db \<Rightarrow> uuid \<Rightarrow> uuid \<Rightarrow> db \<times> error option" where
  "pg_remove_member d w u =
     (let P = (\<lambda>r. wm_workspace r = w \<and> wm_user r = u) in
      case exec_affected (db_fault d ''remove workspace member'') ''workspace member not found''
             ''postgres: remove workspace member'' P (db_members d) of
        Some e \<Rightarrow> (d, Some e)
      | None \<Rightarrow> (d\<lparr>db_members := filter (\<lambda>r. \<not> P r) (db_members d)\<rparr>, None))"

section \<open>Role definitions and assignments (workspace\_role.go)\<close>

definition pg_create_role_def :: "db \<Rightarrow> role_definition_row \<Rightarrow> db \<times> error option" where
  "pg_create_role_def d role =
     (case exec_insert (db_fault d ''create workspace role definition'')
             (list_ex (\<lambda>r. rd_workspace r = rd_workspace role \<and> rd_name r = rd_name role
                         \<or> rd_id r = rd_id role) (db_role_defs d)) of
        Some e \<Rightarrow> (d, Some (insert_error ''workspace role definition already exists''
                              ''postgres: create workspace role definition'' e))
      | None \<Rightarrow> (d\<lparr>db_role_defs := db_role_defs d @ [role]\<rparr>, None))"

definition pg_get_role_def :: "db \<Rightarrow> uuid \<Rightarrow> uuid \<Rightarrow> role_definition_row result" where
  "pg_get_role_def d w i =
     query_row (db_fault d ''get workspace role definition'') ''workspace role definition not found''
       ''postgres: get workspace role definition'' (\<lambda>r. rd_workspace r = w \<and> rd_id r = i) (db_role_defs d)"

definition order_role_defs :: "role_definition_row list \<Rightarrow> role_definition_row list" where
  "order_role_defs rows =
     sort_key (\<lambda>r. if rd_system r then (0::nat) else 1) (sort_key rd_name rows)"

definition pg_list_role_defs :: "db \<Rightarrow> uuid \<Rightarrow> role_definition_row list result" where
  "pg_list_role_defs d w =
     query_rows (db_fault d ''list workspace role definitions'')
       ''postgres: list workspace role definitions''
       (order_role_defs (filter (\<lambda>r. rd_workspace r = w) (db_role_defs d)))"

definition pg_update_role_def :: "db \<Rightarrow> role_definition_row \<Rightarrow> db \<times> error option" where
  "pg_update_role_def d role =
     (let P = (\<lambda>r. rd_workspace r = rd_workspace role \<and> rd_id r = rd_id role);
          clash = list_ex P (db_role_defs d) \<and>
                  list_ex (\<lambda>r. \<not> P r \<and> rd_workspace r = rd_workspace role \<and> rd_name r = rd_name role)
                    (db_role_defs d) in
      case exec_insert (db_fault d ''update workspace role definition'') clash of
        Some e \<Rightarrow> (d, Some (insert_error ''workspace role definition already exists''
                              ''postgres: update workspace role definition'' e))
      | None \<Rightarrow>
          if list_ex P (db_role_defs d)
          then (d\<lparr>db_role_defs := update_rows P (\<lambda>r. r\<lparr>rd_name := rd_name role,
                    rd_base_role := rd_base_role role, rd_permissions := rd_permissions role,
                    rd_updated_at := rd_updated_at role\<rparr>) (db_role_defs d)\<rparr>, None)
          else (d, Some (not_found ''workspace role definition not found'')))"

definition pg_delete_role_def :: "db \<Rightarrow> uuid \<Rightarrow> uuid \<Rightarrow> db \<times> error option" where
  "pg_delete_role_def d w i =
     (let P = (\<lambda>r. rd_workspace r = w \<and> rd_id r = i) in
      case exec_affected (db_fault d ''delete workspace role definition'')
             ''workspace role definition not found'' ''postgres: delete workspace role definition''
             P (db_role_defs d) of
        Some e \<Rightarrow> (d, Some e)
      | None \<Rightarrow> (d\<lparr>db_role_defs := filter (\<lambda>r. \<not> P r) (db_role_defs d),
                   db_role_assigns := filter (\<lambda>a. ra_role a \<noteq> i) (db_role_assigns d)\<rparr>, None))"

definition pg_assign_role :: "db \<Rightarrow> role_assignment \<Rightarrow> db \<times> error option" where
  "pg_assign_role d a =
     (case exec_insert (db_fault d ''assign workspace role'')
             (list_ex (\<lambda>r. ra_workspace r = ra_workspace a \<and> ra_user r = ra_user a \<and> ra_role r = ra_role a
                         \<or> ra_id r = ra_id a) (db_role_assigns d)) of
        Some e \<Rightarrow> (d, Some (insert_error ''workspace role is already assigned to member''
                              ''postgres: assign workspace role'' e))
      | None \<Rightarrow> (d\<lparr>db_role_assigns := db_role_assigns d @ [a]\<rparr>, None))"

definition pg_unassign_role :: "db \<Rightarrow> uuid \<Rightarrow> uuid \<Rightarrow> uuid \<Rightarrow> db \<times> error option" where
  "pg_unassign_role d w u i =
     (let P = (\<lambda>r. ra_workspace r = w \<and> ra_user r = u \<and> ra_role r = i) in
      case exec_affected (db_fault d ''unassign workspace role'') ''workspace role assignment not found''
             ''postgres: unassign workspace role'' P (db_role_assigns d) of
        Some e \<Rightarrow> (d, Some e)
      | None \<Rightarrow> (d\<lparr>db_role_assigns := filter (\<lambda>r. \<not> P r) (db_role_assigns d)\<rparr>, None))"

definition pg_list_assigned :: "db \<Rightarrow> uuid \<Rightarrow> uuid \<Rightarrow> role_definition_row list result" where
  "pg_list_assigned d w u =
     query_rows (db_fault d ''list assigned workspace role definitions'')
       ''postgres: list assigned workspace role definitions''
       (order_role_defs (concat (map (\<lambda>a. filter (\<lambda>r. rd_workspace r = ra_workspace a \<and> rd_id r = ra_role a)
                                        (db_role_defs d))
          (filter (\<lambda>a. ra_workspace a = w \<and> ra_user a = u) (db_role_assigns d)))))"

section \<open>Channels and their members (channel.go)\<close>

definition pg_create_channel :: "db \<Rightarrow> channel \<Rightarrow> db \<times> error option" where
  "pg_create_channel d c =
     (case exec_insert (db_fault d ''create channel'') (list_ex (\<lambda>r. ch_id r = ch_id c) (db_channels d)) of
        Some e \<Rightarrow> (d, Some (insert_error ''channel already exists'' ''postgres: create channel'' e))
      | None \<Rightarrow> (d\<lparr>db_channels := db_channels d @ [c]\<rparr>, None))"

definition pg_get_channel :: "db \<Rightarrow> uuid \<Rightarrow> channel result" where
  "pg_get_channel d i =
     query_row (db_fault d ''get channel by id'') ''channel not found'' ''postgres: get channel by id''
       (\<lambda>r. ch_id r = i) (db_channels d)"

text \<open>\<open>ORDER BY id DESC LIMIT n+1\<close>, then the extra row trimmed.\<close>

definition pg_list_channels :: "db \<Rightarrow> uuid \<Rightarrow> page_params \<Rightarrow> channel list result" where
  "pg_list_channels d w p0 =
     (let p = normalize_params p0;
          rows = filter (\<lambda>c. ch_workspace c = w \<and> (pp_cursor p \<noteq> uuid_nil \<longrightarrow> ch_id c < pp_cursor p)
                            \<and> ch_type c \<noteq> ChMeeting) (db_channels d);
          fetched = take (nat (pp_limit p + 1)) (rev (sort_key ch_id rows))
      in query_rows (db_fault d ''list channels by workspace'') ''postgres: list channels by workspace''
           (if int (length fetched) > pp_limit p then take (nat (pp_limit p)) fetched else fetched))"

definition pg_list_user_channels :: "db \<Rightarrow> uuid \<Rightarrow> uuid \<Rightarrow> channel list result" where
  "pg_list_user_channels d w u =
     query_rows (db_fault d ''list channels by user'') ''postgres: list channels by user''
       (sort_key ch_name (concat (map (\<lambda>c. map (\<lambda>_. c)
            (filter (\<lambda>m. cm_channel m = ch_id c \<and> cm_user m = u) (db_channel_members d)))
          (filter (\<lambda>c. ch_workspace c = w \<and> ch_type c \<noteq> ChMeeting) (db_channels d)))))"

definition pg_archive_channel :: "db \<Rightarrow> uuid \<Rightarrow> instant \<Rightarrow> db \<times> error option" where
  "pg_archive_channel d i now =
     (let P = (\<lambda>r. ch_id r = i) in
      case exec_affected (db_fault d ''archive channel'') ''channel not found'' ''postgres: archive channel''
             P (db_channels d) of
        Some e \<Rightarrow> (d, Some e)
      | None \<Rightarrow> (d\<lparr>db_channels := update_rows P (\<lambda>r. r\<lparr>ch_archived := True, ch_updated_at := now\<rparr>)
                                   (db_channels d)\<rparr>, None))"

definition pg_add_channel_member :: "db \<Rightarrow> channel_member \<Rightarrow> db \<times> error option" where
  "pg_add_channel_member d m =
     (case exec_insert (db_fault d ''add channel member'')
             (list_ex (\<lambda>r. cm_channel r = cm_channel m \<and> cm_user r = cm_user m \<or> cm_id r = cm_id m)
               (db_channel_members d)) of
        Some e \<Rightarrow> (d, Some (insert_error ''member already exists in channel''
                              ''postgres: add channel member'' e))
      | None \<Rightarrow> (d\<lparr>db_channel_members := db_channel_members d @ [m]\<rparr>, None))"

definition pg_get_channel_member :: "db \<Rightarrow> uuid \<Rightarrow> uuid \<Rightarrow> channel_member result" where
  "pg_get_channel_member d c u =
     query_row (db_fault d ''get channel member'') ''channel member not found''
       ''postgres: get channel member'' (\<lambda>r. cm_channel r = c \<and> cm_user r = u) (db_channel_members d)"

definition pg_list_channel_members :: "db \<Rightarrow> uuid \<Rightarrow> channel_member list result" where
  "pg_list_channel_members d c =
     query_rows (db_fault d ''list channel members'') ''postgres: list channel members''
       (sort_key cm_joined_at (filter (\<lambda>m. cm_channel m = c) (db_channel_members d)))"

definition pg_remove_channel_member :: "db \<Rightarrow> uuid \<Rightarrow> uuid \<Rightarrow> db \<times> error option" where
  "pg_remove_channel_member d c u =
     (let P = (\<lambda>r. cm_channel r = c \<and> cm_user r = u) in
      case exec_affected (db_fault d ''remove channel member'') ''channel member not found''
             ''postgres: remove channel member'' P (db_channel_members d) of
        Some e \<Rightarrow> (d, Some e)
      | None \<Rightarrow> (d\<lparr>db_channel_members := filter (\<lambda>r. \<not> P r) (db_channel_members d)\<rparr>, None))"

definition pg_get_dm_channel :: "db \<Rightarrow> uuid \<Rightarrow> uuid \<Rightarrow> uuid \<Rightarrow> channel result" where
  "pg_get_dm_channel d w a b =
     query_row (db_fault d ''get dm channel'') ''dm channel not found'' ''postgres: get dm channel''
       (\<lambda>c. ch_workspace c = w \<and> ch_type c = ChDM
          \<and> list_ex (\<lambda>m. cm_channel m = ch_id c \<and> cm_user m = a) (db_channel_members d)
          \<and> list_ex (\<lambda>m. cm_channel m = ch_id c \<and> cm_user m = b) (db_channel_members d))
       (db_channels d)"

section \<open>Guest and collaboration grants, workspace connections\<close>

definition pg_create_guest_grant :: "db \<Rightarrow> guest_grant \<Rightarrow> db \<times> error option" where
  "pg_create_guest_grant d g =
     (case exec_insert (db_fault d ''create guest access grant'')
             (list_ex (\<lambda>r. gg_invite r = gg_invite g \<and> gg_user r = gg_user g \<or> gg_id r = gg_id g)
               (db_guest_grants d)) of
        Some e \<Rightarrow> (d, Some (insert_error ''guest access grant already exists''
                              ''postgres: create guest access grant'' e))
      | None \<Rightarrow> (d\<lparr>db_guest_grants := db_guest_grants d @ [g]\<rparr>, None))"

definition pg_list_active_grants :: "db \<Rightarrow> uuid \<Rightarrow> uuid \<Rightarrow> instant \<Rightarrow> guest_grant list result" where
  "pg_list_active_grants d u w now =
     query_rows (db_fault d ''list guest access grants'') ''postgres: list guest access grants''
       (rev (sort_key gg_created_at
          (filter (\<lambda>g. gg_user g = u \<and> gg_workspace g = w \<and> gg_expires_at g > now) (db_guest_grants d))))"

definition pg_create_channel_grant :: "db \<Rightarrow> channel_grant \<Rightarrow> db \<times> error option" where
  "pg_create_channel_grant d g =
     (case exec_insert (db_fault d ''create channel access grant'')
             (list_ex (\<lambda>r. cg_channel r = cg_channel g \<and> cg_user r = cg_user g \<or> cg_id r = cg_id g)
               (db_channel_grants d)) of
        Some e \<Rightarrow> (d, Some (insert_error ''channel access grant already exists''
                              ''postgres: create channel access grant'' e))
      | None \<Rightarrow> (d\<lparr>db_channel_grants := db_channel_grants d @ [g]\<rparr>, None))"

definition pg_get_channel_grant :: "db \<Rightarrow> uuid \<Rightarrow> uuid \<Rightarrow> channel_grant result" where
  "pg_get_channel_grant d c u =
     query_row (db_fault d ''get channel access grant'') ''channel access grant not found''
       ''postgres: get channel access grant'' (\<lambda>g. cg_channel g = c \<and> cg_user g = u) (db_channel_grants d)"

definition pg_list_channel_grants :: "db \<Rightarrow> uuid \<Rightarrow> channel_grant list result" where
  "pg_list_channel_grants d c =
     query_rows (db_fault d ''list channel access grants'') ''postgres: list channel access grants''
       (sort_key cg_created_at (filter (\<lambda>g. cg_channel g = c) (db_channel_grants d)))"

definition pg_create_connection :: "db \<Rightarrow> workspace_connection \<Rightarrow> db \<times> error option" where
  "pg_create_connection d c =
     (case exec_insert (db_fault d ''create workspace connection'')
             (list_ex (\<lambda>r. wc_source r = wc_source c \<and> wc_target r = wc_target c \<or> wc_id r = wc_id c)
               (db_connections d)) of
        Some e \<Rightarrow> (d, Some (insert_error ''workspace connection already exists''
                              ''postgres: create workspace connection'' e))
      | None \<Rightarrow> (d\<lparr>db_connections := db_connections d @ [c]\<rparr>, None))"

definition pg_get_connection :: "db \<Rightarrow> uuid \<Rightarrow> uuid \<Rightarrow> workspace_connection result" where
  "pg_get_connection d s t =
     query_row (db_fault d ''get workspace connection'') ''workspace connection not found''
       ''postgres: scan workspace connection'' (\<lambda>c. wc_source c = s \<and> wc_target c = t) (db_connections d)"

definition pg_update_connection_policy :: "db \<Rightarrow> uuid \<Rightarrow> connection_policy \<Rightarrow> db \<times> error option" where
  "pg_update_connection_policy d i pol =
     (let P = (\<lambda>c. wc_id c = i) in
      case exec_affected (db_fault d ''update workspace connection policy'')
             ''workspace connection not found'' ''postgres: update workspace connection policy''
             P (db_connections d) of
        Some e \<Rightarrow> (d, Some e)
      | None \<Rightarrow> (d\<lparr>db_connections := update_rows P (\<lambda>c. c\<lparr>wc_policy := pol\<rparr>) (db_connections d)\<rparr>, None))"

definition pg_update_connection_status ::
  "db \<Rightarrow> uuid \<Rightarrow> connection_status \<Rightarrow> uuid option \<Rightarrow> db \<times> error option" where
  "pg_update_connection_status d i st approved =
     (let P = (\<lambda>c. wc_id c = i) in
      case exec_affected (db_fault d ''update workspace connection status'')
             ''workspace connection not found'' ''postgres: update workspace connection status''
             P (db_connections d) of
        Some e \<Rightarrow> (d, Some e)
      | None \<Rightarrow> (d\<lparr>db_connections := update_rows P (\<lambda>c. c\<lparr>wc_status := st, wc_approved_by := approved\<rparr>)
                                     (db_connections d)\<rparr>, None))"

section \<open>The unique constraints\<close>

definition db_ok :: "db \<Rightarrow> bool" where
  "db_ok d \<longleftrightarrow>
     distinct (map wm_id (db_members d)) \<and>
     distinct (map (\<lambda>r. (wm_workspace r, wm_user r)) (db_members d)) \<and>
     distinct (map rd_id (db_role_defs d)) \<and>
     distinct (map (\<lambda>r. (rd_workspace r, rd_name r)) (db_role_defs d)) \<and>
     distinct (map (\<lambda>r. (ra_workspace r, ra_user r, ra_role r)) (db_role_assigns d)) \<and>
     distinct (map ch_id (db_channels d)) \<and>
     distinct (map (\<lambda>r. (cm_channel r, cm_user r)) (db_channel_members d)) \<and>
     distinct (map (\<lambda>r. (gg_invite r, gg_user r)) (db_guest_grants d)) \<and>
     distinct (map (\<lambda>r. (cg_channel r, cg_user r)) (db_channel_grants d)) \<and>
     distinct (map wc_id (db_connections d)) \<and>
     distinct (map (\<lambda>r. (wc_source r, wc_target r)) (db_connections d))"

lemma exec_insert_None: "exec_insert fl dup = None \<longleftrightarrow> fl = None \<and> \<not> dup"
  by (auto simp: exec_insert_def split: option.splits)

lemma exec_affected_None: "exec_affected fl mm wm P rows = None \<longleftrightarrow> fl = None \<and> (\<exists>r \<in> set rows. P r)"
  by (auto simp: exec_affected_def list_ex_iff split: option.splits)

text \<open>The statements a write of the repositories can be.\<close>

datatype db_write =
    WAddMember workspace_member
  | WUpdateMemberRole uuid uuid workspace_role
  | WRemoveMember uuid uuid
  | WCreateRoleDef role_definition_row
  | WUpdateRoleDef role_definition_row
  | WDeleteRoleDef uuid uuid
  | WAssignRole role_assignment
  | WUnassignRole uuid uuid uuid
  | WCreateChannel channel
  | WArchiveChannel uuid instant
  | WAddChannelMember channel_member
  | WRemoveChannelMember uuid uuid
  | WCreateGuestGrant guest_grant
  | WCreateChannelGrant channel_grant
  | WCreateConnection workspace_connection
  | WUpdateConnectionPolicy uuid connection_policy
  | WUpdateConnectionStatus uuid connection_status "uuid option"

fun pg_write :: "db \<Rightarrow> db_write \<Rightarrow> db \<times> error option" where
  "pg_write d (WAddMember m) = pg_add_member d m"
| "pg_write d (WUpdateMemberRole w u r) = pg_update_member_role d w u r"
| "pg_write d (WRemoveMember w u) = pg_remove_member d w u"
| "pg_write d (WCreateRoleDef r) = pg_create_role_def d r"
| "pg_write d (WUpdateRoleDef r) = pg_update_role_def d r"
| "pg_write d (WDeleteRoleDef w i) = pg_delete_role_def d w i"
| "pg_write d (WAssignRole a) = pg_assign_role d a"
| "pg_write d (WUnassignRole w u i) = pg_unassign_role d w u i"
| "pg_write d (WCreateChannel c) = pg_create_channel d c"
| "pg_write d (WArchiveChannel i now) = pg_archive_channel d i now"
| "pg_write d (WAddChannelMember m) = pg_add_channel_member d m"
| "pg_write d (WRemoveChannelMember c u) = pg_remove_channel_member d c u"
| "pg_write d (WCreateGuestGrant g) = pg_create_guest_grant d g"
| "pg_write d (WCreateChannelGrant g) = pg_create_channel_grant d g"
| "pg_write d (WCreateConnection c) = pg_create_connection d c"
| "pg_write d (WUpdateConnectionPolicy i p) = pg_update_connection_policy d i p"
| "pg_write d (WUpdateConnectionStatus i s a) = pg_update_connection_status d i s a"

lemmas pg_write_defs =
  pg_add_member_def pg_update_member_role_def pg_remove_member_def pg_create_role_def_def
  pg_update_role_def_def pg_delete_role_def_def pg_assign_role_def pg_unassign_role_def
  pg_create_channel_def pg_archive_channel_def pg_add_channel_member_def
  pg_remove_channel_member_def pg_create_guest_grant_def pg_create_channel_grant_def
  pg_create_connection_def pg_update_connection_policy_def pg_update_connection_status_def

lemma distinct_update_one:
  assumes "distinct (map g rows)" "distinct (map key rows)"
    and "\<And>r r'. P r \<Longrightarrow> P r' \<Longrightarrow> key r = key r'"
    and "\<And>r. P r \<Longrightarrow> g (f r) = v" and "\<forall>r \<in> set rows. \<not> P r \<longrightarrow> g r \<noteq> v"
  shows "distinct (map g (update_rows P f rows))"
  using assms(1,2,5)
proof (induction rows)
  case (Cons a rows)
  show ?case
  proof (cases "P a")
    case True
    have "\<not> P r" if "r \<in> set rows" for r
      using Cons.prems(2) assms(3)[OF True] that by (auto simp: image_iff)
    then have "update_rows P f rows = rows" by (auto simp: update_rows_def intro: map_idI)
    moreover have "g (f a) \<notin> g ` set rows"
      using Cons.prems(3) \<open>\<And>r. r \<in> set rows \<Longrightarrow> \<not> P r\<close> assms(4)[OF True] by (metis image_iff list.set_intros(2))
    ultimately show ?thesis using Cons.prems(1) True by (simp add: update_rows_def)
  next
    case False
    have "g a \<notin> g ` set (update_rows P f rows)"
      using Cons.prems(1,3) False assms(4) by (auto simp: update_rows_def)
    moreover have "distinct (map g (update_rows P f rows))" using Cons by simp
    moreover have "update_rows P f (a # rows) = a # update_rows P f rows"
      using False by (simp add: update_rows_def)
    ultimately show ?thesis by simp
  qed
qed (simp add: update_rows_def)

lemma pg_write_error_unchanged: "snd (pg_write d w) = Some e \<Longrightarrow> fst (pg_write d w) = d"
  by (cases w) (auto simp: pg_write_defs Let_def split: option.splits if_splits)

lemma db_ok_role_update: "db_ok d \<Longrightarrow> db_ok (fst (pg_update_role_def d role))"
  unfolding pg_update_role_def_def db_ok_def Let_def
  by (auto simp: exec_insert_None map_update_rows list_ex_iff split: option.splits
      intro!: distinct_update_one [where key = rd_id and v = "(rd_workspace role, rd_name role)"])

lemma pg_write_db_ok: "db_ok d \<Longrightarrow> db_ok (fst (pg_write d w))"
proof (cases w)
  case (WUpdateRoleDef role)
  assume "db_ok d"
  then show ?thesis by (simp add: WUpdateRoleDef db_ok_role_update)
qed (auto simp: pg_write_defs db_ok_def Let_def exec_insert_None map_update_rows list_ex_iff
       split: option.splits)

end
