(* ===== verification/Rbac.thy ===== *)
theory Rbac
  imports Tables
begin

text \<open>
  Package \<open>internal/security/rbac\<close>: the permission constants, the default permissions of the
  base roles, custom role definitions and their merge (rbac.go), and the checker that resolves a
  member's effective role from the membership and role repositories (checker.go). A permission
  is its string, as in the code, since stored role definitions are parsed from strings. The
  checker's repositories are parameters; the locale \<open>membership_reads\<close> states what it relies on
  and is interpreted on the PostgreSQL model.
\<close>

type_synonym permission = string

definition PermissionWorkspaceManage :: permission where "PermissionWorkspaceManage = ''workspace.manage''"
definition PermissionWorkspaceSettings :: permission where "PermissionWorkspaceSettings = ''workspace.settings.manage''"
definition PermissionMemberRead :: permission where "PermissionMemberRead = ''member.read''"
definition PermissionMemberInvite :: permission where "PermissionMemberInvite = ''member.invite''"
definition PermissionMemberManage :: permission where "PermissionMemberManage = ''member.manage''"
definition PermissionChannelCreate :: permission where "PermissionChannelCreate = ''channel.create''"
definition PermissionChannelManage :: permission where "PermissionChannelManage = ''channel.manage''"
definition PermissionMessageSend :: permission where "PermissionMessageSend = ''message.send''"
definition PermissionMessageModerate :: permission where "PermissionMessageModerate = ''message.moderate''"
definition PermissionCallStart :: permission where "PermissionCallStart = ''call.start''"
definition PermissionCallModerate :: permission where "PermissionCallModerate = ''call.moderate''"
definition PermissionRecordingStart :: permission where "PermissionRecordingStart = ''recording.start''"
definition PermissionRecordingRead :: permission where "PermissionRecordingRead = ''recording.read''"
definition PermissionFileUpload :: permission where "PermissionFileUpload = ''file.upload''"
definition PermissionFileDownload :: permission where "PermissionFileDownload = ''file.download''"
definition PermissionFileManage :: permission where "PermissionFileManage = ''file.manage''"
definition PermissionMarketplaceManage :: permission where "PermissionMarketplaceManage = ''marketplace.manage''"
definition PermissionAIUse :: permission where "PermissionAIUse = ''ai.use''"
definition PermissionTelephonyUse :: permission where "PermissionTelephonyUse = ''telephony.use''"
definition PermissionWhiteLabelManage :: permission where "PermissionWhiteLabelManage = ''white_label.manage''"
definition PermissionCollaborationManage :: permission where "PermissionCollaborationManage = ''collaboration.manage''"
definition PermissionDirectoryReadShared :: permission where "PermissionDirectoryReadShared = ''directory.shared.read''"
definition PermissionDirectMessageShared :: permission where "PermissionDirectMessageShared = ''direct_message.shared.start''"
definition PermissionCrossWorkspaceInvite :: permission where "PermissionCrossWorkspaceInvite = ''workspace.external.invite''"

lemmas permission_defs =
  PermissionWorkspaceManage_def PermissionWorkspaceSettings_def PermissionMemberRead_def
  PermissionMemberInvite_def PermissionMemberManage_def PermissionChannelCreate_def
  PermissionChannelManage_def PermissionMessageSend_def PermissionMessageModerate_def
  PermissionCallStart_def PermissionCallModerate_def PermissionRecordingStart_def
  PermissionRecordingRead_def PermissionFileUpload_def PermissionFileDownload_def
  PermissionFileManage_def PermissionMarketplaceManage_def PermissionAIUse_def
  PermissionTelephonyUse_def PermissionWhiteLabelManage_def PermissionCollaborationManage_def
  PermissionDirectoryReadShared_def PermissionDirectMessageShared_def PermissionCrossWorkspaceInvite_def

record role_definition =
  role_name :: string
  role_base :: workspace_role
  role_permissions :: "(permission, bool) gomap"

definition role_has :: "role_definition \<Rightarrow> permission \<Rightarrow> bool" where
  "role_has r p = (case map_of (role_permissions r) p of None \<Rightarrow> False | Some b \<Rightarrow> b)"

section \<open>Default permissions\<close>

definition admin_permissions :: "permission list" where
  "admin_permissions =
     [PermissionWorkspaceSettings, PermissionMemberRead, PermissionMemberInvite,
      PermissionMemberManage, PermissionChannelCreate, PermissionChannelManage,
      PermissionMessageSend, PermissionMessageModerate, PermissionCallStart,
      PermissionCallModerate, PermissionRecordingStart, PermissionRecordingRead,
      PermissionFileUpload, PermissionFileDownload, PermissionFileManage,
      PermissionMarketplaceManage, PermissionAIUse, PermissionTelephonyUse,
      PermissionCollaborationManage, PermissionDirectoryReadShared,
      PermissionDirectMessageShared, PermissionCrossWorkspaceInvite]"

definition set_all_true :: "permission list \<Rightarrow> (permission, bool) gomap \<Rightarrow> (permission, bool) gomap" where
  "set_all_true ps m = fold (\<lambda>p m. AList.update p True m) ps m"

definition member_permissions :: "(permission, bool) gomap" where
  "member_permissions =
     [(PermissionMemberRead, True), (PermissionChannelCreate, True), (PermissionMessageSend, True),
      (PermissionCallStart, True), (PermissionRecordingRead, True), (PermissionFileUpload, True),
      (PermissionFileDownload, True), (PermissionAIUse, True), (PermissionDirectoryReadShared, True),
      (PermissionDirectMessageShared, True)]"

fun default_workspace_permissions :: "workspace_role \<Rightarrow> (permission, bool) gomap" where
  "default_workspace_permissions RoleOwner =
     AList.update PermissionWhiteLabelManage True
       (AList.update PermissionWorkspaceManage True (set_all_true admin_permissions member_permissions))"
| "default_workspace_permissions RoleAdmin = set_all_true admin_permissions member_permissions"
| "default_workspace_permissions RoleMember = member_permissions"
| "default_workspace_permissions RoleGuest =
     [(PermissionMemberRead, True), (PermissionMessageSend, True), (PermissionCallStart, True),
      (PermissionRecordingRead, True), (PermissionFileUpload, True), (PermissionFileDownload, True)]"
| "default_workspace_permissions (RoleOther s) = []"

definition default_workspace_role :: "workspace_role \<Rightarrow> role_definition" where
  "default_workspace_role role =
     \<lparr>role_name = role_text role, role_base = role,
      role_permissions = default_workspace_permissions role\<rparr>"

definition rbac_has :: "workspace_role \<Rightarrow> permission \<Rightarrow> bool" where
  "rbac_has role p = role_has (default_workspace_role role) p"

definition declared_permissions :: "permission list" where
  "declared_permissions =
     [PermissionWorkspaceManage, PermissionWorkspaceSettings, PermissionMemberRead,
      PermissionMemberInvite, PermissionMemberManage, PermissionChannelCreate,
      PermissionChannelManage, PermissionMessageSend, PermissionMessageModerate,
      PermissionCallStart, PermissionCallModerate, PermissionRecordingStart,
      PermissionRecordingRead, PermissionFileUpload, PermissionFileDownload,
      PermissionFileManage, PermissionMarketplaceManage, PermissionAIUse,
      PermissionTelephonyUse, PermissionWhiteLabelManage, PermissionCollaborationManage,
      PermissionDirectoryReadShared, PermissionDirectMessageShared,
      PermissionCrossWorkspaceInvite]"

definition all_permissions :: "permission list" where
  "all_permissions = sort declared_permissions"

section \<open>Parsing\<close>

fun find_permission :: "permission list \<Rightarrow> permission \<Rightarrow> permission option" where
  "find_permission [] p = None"
| "find_permission (c # cs) p = (if c = p then Some p else find_permission cs p)"

definition parse_permission :: "string \<Rightarrow> permission option" where
  "parse_permission raw = find_permission all_permissions (trim_space raw)"

text \<open>The loop of \<open>NormalizePermissionStrings\<close>: \<open>seen\<close> is the set of keys, \<open>acc\<close> the slice.\<close>

fun normalize_loop :: "string list \<Rightarrow> string list \<Rightarrow> string list \<Rightarrow> string list result" where
  "normalize_loop [] seen acc = Ok acc"
| "normalize_loop (v # vs) seen acc =
     (case parse_permission v of
        None \<Rightarrow> Err (PlainError (''invalid permission: '' @ v))
      | Some key \<Rightarrow> if key \<in> set seen then normalize_loop vs seen acc
                    else normalize_loop vs (key # seen) (acc @ [key]))"

definition normalize_permission_strings :: "string list \<Rightarrow> string list result" where
  "normalize_permission_strings raw = result_bind (normalize_loop raw [] []) (\<lambda>ps. Ok (sort ps))"

fun entity_permissions :: "string list \<Rightarrow> (permission, bool) gomap \<Rightarrow> (permission, bool) gomap result" where
  "entity_permissions [] m = Ok m"
| "entity_permissions (raw # rs) m =
     (case parse_permission raw of
        None \<Rightarrow> Err (PlainError (''invalid permission in stored role definition: '' @ raw))
      | Some p \<Rightarrow> entity_permissions rs (AList.update p True m))"

definition role_definition_from_entity :: "role_definition_row \<Rightarrow> role_definition result" where
  "role_definition_from_entity row =
     result_bind (entity_permissions (rd_permissions row) [])
       (\<lambda>m. Ok \<lparr>role_name = rd_name row, role_base = rd_base_role row, role_permissions = m\<rparr>)"

definition merge_overlay :: "role_definition \<Rightarrow> (permission, bool) gomap \<Rightarrow> (permission, bool) gomap" where
  "merge_overlay overlay m =
     fold (\<lambda>(p, allowed) m. if allowed then AList.update p True m else m) (role_permissions overlay) m"

definition merge_roles :: "role_definition \<Rightarrow> role_definition list \<Rightarrow> role_definition" where
  "merge_roles base overlays =
     \<lparr>role_name = role_name base, role_base = role_base base,
      role_permissions = fold merge_overlay overlays
        (fold (\<lambda>(p, allowed) m. AList.update p allowed m) (role_permissions base) [])\<rparr>"

section \<open>The checker\<close>

type_synonym get_member_fn = "uuid \<Rightarrow> uuid \<Rightarrow> workspace_member result"
type_synonym list_assigned_fn = "uuid \<Rightarrow> uuid \<Rightarrow> role_definition_row list result"

fun apply_definitions ::
  "workspace_role \<Rightarrow> role_definition_row list \<Rightarrow> role_definition \<Rightarrow> role_definition result" where
  "apply_definitions base [] eff = Ok eff"
| "apply_definitions base (d # ds) eff =
     (if rd_base_role d \<noteq> base then apply_definitions base ds eff
      else case role_definition_from_entity d of
             Err e \<Rightarrow> Err (internal_err ''failed to resolve workspace permissions'' (Wrapped ''role'' e))
           | Ok overlay \<Rightarrow> apply_definitions base ds (merge_roles eff [overlay]))"

definition resolve :: "get_member_fn \<Rightarrow> list_assigned_fn option \<Rightarrow> uuid \<Rightarrow> uuid \<Rightarrow> role_definition result" where
  "resolve get_member roles w u =
     (case get_member w u of
        Err e \<Rightarrow> if app_code e = Some CodeNotFound
                 then Err (forbidden ''user is not a workspace member'')
                 else Err (internal_err ''failed to verify workspace membership'' e)
      | Ok member \<Rightarrow>
          (let eff = default_workspace_role (wm_role member) in
           case roles of
             None \<Rightarrow> Ok eff
           | Some list_assigned \<Rightarrow>
               (case list_assigned w u of
                  Err e \<Rightarrow> Err (internal_err ''failed to load assigned workspace roles'' e)
                | Ok ds \<Rightarrow> apply_definitions (wm_role member) ds eff)))"

definition has_permission ::
  "get_member_fn \<Rightarrow> list_assigned_fn option \<Rightarrow> uuid \<Rightarrow> uuid \<Rightarrow> permission \<Rightarrow> bool result" where
  "has_permission get_member roles w u p =
     result_bind (resolve get_member roles w u) (\<lambda>r. Ok (role_has r p))"

definition require ::
  "get_member_fn \<Rightarrow> list_assigned_fn option \<Rightarrow> uuid \<Rightarrow> uuid \<Rightarrow> permission \<Rightarrow> error option" where
  "require get_member roles w u p =
     (case has_permission get_member roles w u p of
        Err e \<Rightarrow> Some e
      | Ok allowed \<Rightarrow> if allowed then None
                      else Some (forbidden ''workspace role does not have required permission''))"

definition effective_base_role :: "workspace_member option \<Rightarrow> workspace_role" where
  "effective_base_role m = (case m of None \<Rightarrow> RoleOther '''' | Some m \<Rightarrow> wm_role m)"

section \<open>Facts about permission maps\<close>

definition wf_role :: "role_definition \<Rightarrow> bool" where
  "wf_role r \<longleftrightarrow> wf_map (role_permissions r)"

lemma role_has_iff: "role_has r p \<longleftrightarrow> map_of (role_permissions r) p = Some True"
  by (auto simp: role_has_def split: option.splits)

lemma map_of_set_all_true:
  "map_of (set_all_true ps m) p = (if p \<in> set ps then Some True else map_of m p)"
  by (induction ps arbitrary: m) (auto simp: set_all_true_def)

lemma wf_set_all_true: "wf_map m \<Longrightarrow> wf_map (set_all_true ps m)"
  by (induction ps arbitrary: m) (auto simp: set_all_true_def)

lemma map_of_copy:
  "wf_map b \<Longrightarrow> map_of (fold (\<lambda>(p, a) m. AList.update p a m) b m) p =
     (case map_of b p of None \<Rightarrow> map_of m p | Some a \<Rightarrow> Some a)"
proof (induction b arbitrary: m)
  case (Cons x b)
  obtain q a where x: "x = (q, a)" by (cases x)
  with Cons.prems have "map_of b q = None" "wf_map b" by (simp_all add: map_of_None_keys)
  with Cons.IH[of "AList.update q a m"] x show ?case
    by (cases "p = q"; cases "map_of b p") (simp_all del: map_of_eq_Some_iff)
qed simp

lemma wf_copy: "wf_map m \<Longrightarrow> wf_map (fold (\<lambda>(p, a) m. AList.update p a m) b m)"
  by (induction b arbitrary: m) auto

lemma map_of_merge_overlay_aux:
  "map_of (fold (\<lambda>(p, allowed) m. if allowed then AList.update p True m else m) ps m) p =
     (if (p, True) \<in> set ps then Some True else map_of m p)"
proof (induction ps arbitrary: m)
  case (Cons x ps)
  obtain q a where "x = (q, a)" by (cases x)
  with Cons show ?case by (cases a) simp_all
qed simp

lemma wf_merge_overlay: "wf_map m \<Longrightarrow> wf_map (merge_overlay ov m)"
proof -
  have "wf_map m \<Longrightarrow> wf_map (fold (\<lambda>(p, allowed) m. if allowed then AList.update p True m else m) ps m)" for ps
    by (induction ps arbitrary: m) auto
  then show "wf_map m \<Longrightarrow> wf_map (merge_overlay ov m)" by (simp add: merge_overlay_def)
qed

lemma map_of_merge_overlay:
  "wf_role ov \<Longrightarrow> map_of (merge_overlay ov m) p = (if role_has ov p then Some True else map_of m p)"
  by (simp add: merge_overlay_def map_of_merge_overlay_aux role_has_iff wf_role_def)

lemma map_of_merge_overlays:
  "\<forall>ov \<in> set ovs. wf_role ov \<Longrightarrow>
   map_of (fold merge_overlay ovs m) p = (if \<exists>ov \<in> set ovs. role_has ov p then Some True else map_of m p)"
proof (induction ovs arbitrary: m)
  case (Cons ov ovs)
  then show ?case
    by (cases "role_has ov p") (simp_all add: map_of_merge_overlay del: map_of_eq_Some_iff)
qed simp

lemma role_has_merge:
  assumes "wf_role base" "\<forall>ov \<in> set ovs. wf_role ov"
  shows "role_has (merge_roles base ovs) p \<longleftrightarrow> role_has base p \<or> (\<exists>ov \<in> set ovs. role_has ov p)"
proof -
  let ?c = "fold (\<lambda>(p, a) m. AList.update p a m) (role_permissions base) []"
  have wf: "wf_map (role_permissions base)" using assms(1) by (simp only: wf_role_def)
  have c: "map_of ?c p = map_of (role_permissions base) p"
    unfolding map_of_copy[OF wf] by (cases "map_of (role_permissions base) p") simp_all
  have "map_of (role_permissions (merge_roles base ovs)) p = map_of (fold merge_overlay ovs ?c) p"
    unfolding merge_roles_def by (simp only: role_definition.simps)
  also have "\<dots> = (if \<exists>ov \<in> set ovs. role_has ov p then Some True else map_of (role_permissions base) p)"
    unfolding map_of_merge_overlays[OF assms(2)] c by (rule refl)
  finally show ?thesis by (auto simp only: role_has_iff[of "merge_roles base ovs"] role_has_iff[of base] split: if_splits)
qed

lemma wf_merge [simp]: "wf_role (merge_roles base ovs)"
proof -
  have "wf_map m \<Longrightarrow> wf_map (fold merge_overlay ovs m)" for m
    by (induction ovs arbitrary: m) (auto simp: wf_merge_overlay)
  then show ?thesis by (simp add: wf_role_def merge_roles_def wf_copy)
qed

lemma wf_default [simp]: "wf_role (default_workspace_role role)"
proof -
  have "wf_map member_permissions"
    by (simp add: member_permissions_def permission_defs)
  then show ?thesis
    by (cases role) (simp_all add: wf_role_def default_workspace_role_def wf_set_all_true permission_defs)
qed

section \<open>Facts about parsing\<close>

lemma find_permission_iff: "find_permission cs p = (if p \<in> set cs then Some p else None)"
  by (induction cs) auto

lemma set_all_permissions [simp]: "set all_permissions = set declared_permissions"
  by (simp add: all_permissions_def)

lemma parse_permission_iff:
  "parse_permission raw = Some p \<longleftrightarrow> p = trim_space raw \<and> p \<in> set declared_permissions"
  by (auto simp: parse_permission_def find_permission_iff)

lemma parse_permission_None:
  "parse_permission raw = None \<longleftrightarrow> trim_space raw \<notin> set declared_permissions"
  by (auto simp: parse_permission_def find_permission_iff)

lemma distinct_declared: "distinct declared_permissions"
  by code_simp

lemma trim_declared: "p \<in> set declared_permissions \<Longrightarrow> trim_space p = p"
proof -
  have "list_all (\<lambda>p. p \<noteq> [] \<and> \<not> is_space (hd p) \<and> \<not> is_space (last p)) declared_permissions"
    by code_simp
  then show "p \<in> set declared_permissions \<Longrightarrow> trim_space p = p"
    by (auto simp: list_all_iff intro: trim_space_noop)
qed

lemma normalize_loop_Ok:
  assumes "normalize_loop vs seen acc = Ok out" "set seen = set acc" "distinct acc"
  shows "distinct out \<and> set out = set acc \<union> trim_space ` set vs \<and>
         (\<forall>v \<in> set vs. trim_space v \<in> set declared_permissions)"
  using assms
proof (induction vs arbitrary: seen acc)
  case (Cons v vs)
  from Cons.prems(1) obtain key where key: "parse_permission v = Some key"
    by (cases "parse_permission v") auto
  then have k: "key = trim_space v" "key \<in> set declared_permissions" by (auto simp: parse_permission_iff)
  show ?case
  proof (cases "key \<in> set seen")
    case True
    with Cons.prems key have "normalize_loop vs seen acc = Ok out" by simp
    from Cons.IH[OF this Cons.prems(2,3)] True k Cons.prems(2) show ?thesis by auto
  next
    case False
    with Cons.prems key have "normalize_loop vs (key # seen) (acc @ [key]) = Ok out" by simp
    from Cons.IH[OF this] False k Cons.prems(2,3) show ?thesis by auto
  qed
qed simp

lemma normalize_loop_total:
  "\<forall>v \<in> set vs. trim_space v \<in> set declared_permissions \<Longrightarrow> \<exists>out. normalize_loop vs seen acc = Ok out"
proof (induction vs arbitrary: seen acc)
  case (Cons v vs)
  then have "parse_permission v = Some (trim_space v)" by (simp add: parse_permission_iff)
  with Cons show ?case by simp
qed simp

lemma entity_permissions_Ok:
  "entity_permissions raws m = Ok m' \<longleftrightarrow>
     (\<forall>raw \<in> set raws. trim_space raw \<in> set declared_permissions) \<and>
     m' = set_all_true (map trim_space raws) m"
proof (induction raws arbitrary: m)
  case (Cons raw raws)
  then show ?case
    by (auto simp: parse_permission_iff parse_permission_None set_all_true_def split: option.splits)
qed (auto simp: set_all_true_def)

lemma role_definition_from_entity_Ok:
  "role_definition_from_entity row = Ok r \<Longrightarrow>
     wf_role r \<and> (\<forall>p. role_has r p \<longleftrightarrow> p \<in> trim_space ` set (rd_permissions row))"
  by (auto simp: role_definition_from_entity_def result_bind_Ok entity_permissions_Ok wf_role_def
        wf_set_all_true role_has_iff map_of_set_all_true split: if_splits)

lemma role_definition_from_entity_total:
  "(\<exists>r. role_definition_from_entity row = Ok r) \<longleftrightarrow>
   (\<forall>raw \<in> set (rd_permissions row). trim_space raw \<in> set declared_permissions)"
  by (auto simp: role_definition_from_entity_def result_bind_Ok entity_permissions_Ok)

section \<open>Facts about resolution\<close>

definition grants :: "workspace_role \<Rightarrow> role_definition_row list \<Rightarrow> permission \<Rightarrow> bool" where
  "grants base ds p \<longleftrightarrow> list_ex (\<lambda>d. rd_base_role d = base \<and> p \<in> trim_space ` set (rd_permissions d)) ds"

lemma apply_definitions_Ok:
  assumes "apply_definitions base ds eff = Ok r" "wf_role eff"
  shows "wf_role r \<and> (\<forall>p. role_has r p \<longleftrightarrow> role_has eff p \<or> grants base ds p)"
  using assms
proof (induction ds arbitrary: eff)
  case (Cons d ds)
  show ?case
  proof (cases "rd_base_role d = base")
    case False
    with Cons show ?thesis by (auto simp: grants_def)
  next
    case True
    with Cons.prems obtain ov where ov: "role_definition_from_entity d = Ok ov"
      by (auto split: sum.splits)
    with Cons.prems True have "apply_definitions base ds (merge_roles eff [ov]) = Ok r" by simp
    from Cons.IH[OF this] ov True Cons.prems(2) show ?thesis
      by (auto simp: role_has_merge grants_def dest!: role_definition_from_entity_Ok)
  qed
qed (simp add: grants_def)

lemma apply_definitions_total:
  "(\<exists>r. apply_definitions base ds eff = Ok r) \<longleftrightarrow>
   (\<forall>d \<in> set ds. rd_base_role d = base \<longrightarrow>
      (\<forall>raw \<in> set (rd_permissions d). trim_space raw \<in> set declared_permissions))"
proof (induction ds arbitrary: eff)
  case (Cons d ds)
  then show ?case
    using role_definition_from_entity_total[of d]
    by (cases "role_definition_from_entity d") auto
qed simp

lemma resolve_Ok:
  assumes "resolve get_member roles w u = Ok r"
  obtains m where "get_member w u = Ok m"
    and "\<And>p. role_has r p \<longleftrightarrow> rbac_has (wm_role m) p \<or>
               (\<exists>la ds. roles = Some la \<and> la w u = Ok ds \<and> grants (wm_role m) ds p)"
proof -
  from assms obtain m where m: "get_member w u = Ok m"
    by (auto simp: resolve_def split: sum.splits if_splits)
  show ?thesis
  proof (cases roles)
    case None
    with assms m show ?thesis by (intro that[OF m]) (auto simp: resolve_def rbac_has_def Let_def)
  next
    case (Some la)
    with assms m obtain ds where ds: "la w u = Ok ds"
        and ap: "apply_definitions (wm_role m) ds (default_workspace_role (wm_role m)) = Ok r"
      by (auto simp: resolve_def Let_def split: sum.splits)
    from apply_definitions_Ok[OF ap] Some ds show ?thesis
      by (intro that[OF m]) (auto simp: rbac_has_def)
  qed
qed

lemma require_None_iff:
  "require get_member roles w u p = None \<longleftrightarrow>
     (\<exists>r. resolve get_member roles w u = Ok r \<and> role_has r p)"
  by (auto simp: require_def has_permission_def result_bind_def split: sum.splits)

section \<open>The repositories the checker reads\<close>

text \<open>
  What the checker relies on: a membership row carries the workspace and user it was asked for,
  and the assigned definitions belong to the workspace asked for.
\<close>

locale membership_reads =
  fixes get_member :: "uuid \<Rightarrow> uuid \<Rightarrow> workspace_member result"
    and list_assigned :: "uuid \<Rightarrow> uuid \<Rightarrow> role_definition_row list result"
  assumes member_key: "get_member w u = Ok m \<Longrightarrow> wm_workspace m = w \<and> wm_user m = u"
    and assigned_scope: "list_assigned w u = Ok ds \<Longrightarrow> d \<in> set ds \<Longrightarrow> rd_workspace d = w"
begin

lemma require_scope:
  assumes "require get_member (Some list_assigned) w u p = None"
  obtains m where "get_member w u = Ok m" "wm_workspace m = w" "wm_user m = u"
    and "rbac_has (wm_role m) p \<or>
         (\<exists>ds d. list_assigned w u = Ok ds \<and> d \<in> set ds \<and> rd_workspace d = w \<and>
                 rd_base_role d = wm_role m \<and> p \<in> trim_space ` set (rd_permissions d))"
proof -
  from assms obtain r where r: "resolve get_member (Some list_assigned) w u = Ok r" "role_has r p"
    by (auto simp: require_None_iff)
  obtain m where m: "get_member w u = Ok m"
    and p: "\<And>p. role_has r p \<longleftrightarrow> rbac_has (wm_role m) p \<or>
       (\<exists>la ds. Some list_assigned = Some la \<and> la w u = Ok ds \<and> grants (wm_role m) ds p)"
    by (rule resolve_Ok[OF r(1)]) blast
  from m member_key have "wm_workspace m = w" "wm_user m = u" by blast+
  moreover have "rbac_has (wm_role m) p \<or>
         (\<exists>ds d. list_assigned w u = Ok ds \<and> d \<in> set ds \<and> rd_workspace d = w \<and>
                 rd_base_role d = wm_role m \<and> p \<in> trim_space ` set (rd_permissions d))"
    using r(2) p assigned_scope unfolding grants_def list_ex_iff by blast
  ultimately show ?thesis by (rule that[OF m])
qed

lemma require_needs_membership:
  assumes "get_member w u = Err e"
  shows "require get_member roles w u p =
     Some (if app_code e = Some CodeNotFound then forbidden ''user is not a workspace member''
           else internal_err ''failed to verify workspace membership'' e)"
  using assms by (simp add: require_def has_permission_def resolve_def)

end

lemma pg_list_assigned_mem:
  assumes "pg_list_assigned d w u = Ok ds" "row \<in> set ds"
  shows "row \<in> set (db_role_defs d) \<and> rd_workspace row = w \<and>
    (\<exists>a \<in> set (db_role_assigns d). ra_workspace a = w \<and> ra_user a = u \<and> ra_role a = rd_id row)"
  using assms by (auto simp: pg_list_assigned_def order_role_defs_def)

interpretation pg_membership: membership_reads "pg_get_member d" "pg_list_assigned d" for d
proof unfold_locales
  show "pg_get_member d w u = Ok m \<Longrightarrow> wm_workspace m = w \<and> wm_user m = u" for w u m
    by (auto simp: pg_get_member_def dest!: query_row_member)
  show "pg_list_assigned d w u = Ok ds \<Longrightarrow> row \<in> set ds \<Longrightarrow> rd_workspace row = w" for w u ds row
    by (auto dest: pg_list_assigned_mem)
qed

section \<open>Properties\<close>

lemma rbac_has_guest: "rbac_has RoleGuest p \<longleftrightarrow>
    p \<in> set [PermissionMemberRead, PermissionMessageSend, PermissionCallStart,
             PermissionRecordingRead, PermissionFileUpload, PermissionFileDownload]"
  by (auto simp: rbac_has_def role_has_iff default_workspace_role_def split: if_splits)

lemma rbac_has_member: "rbac_has RoleMember p \<longleftrightarrow> p \<in> fst ` set member_permissions"
  by (auto simp: rbac_has_def role_has_iff default_workspace_role_def member_permissions_def split: if_splits)

lemma map_of_member: "map_of member_permissions p = Some True \<longleftrightarrow> p \<in> fst ` set member_permissions"
  by (auto simp: member_permissions_def split: if_splits)

lemma rbac_has_admin: "rbac_has RoleAdmin p \<longleftrightarrow> p \<in> set admin_permissions \<union> fst ` set member_permissions"
  by (simp add: rbac_has_def role_has_iff default_workspace_role_def map_of_set_all_true map_of_member
      del: map_of_eq_Some_iff)

lemma rbac_has_owner: "rbac_has RoleOwner p \<longleftrightarrow> p \<in> set declared_permissions"
  by (auto simp: rbac_has_def role_has_iff default_workspace_role_def map_of_set_all_true map_of_member
      declared_permissions_def admin_permissions_def member_permissions_def simp del: map_of_eq_Some_iff)

lemma rbac_has_other: "\<not> rbac_has (RoleOther s) p"
  by (simp add: rbac_has_def role_has_iff default_workspace_role_def)

text \<open>The default permissions form a strict chain guest, member, admin, owner; the owner holds
  exactly the declared permissions, and a role string that is none of the four holds nothing.\<close>

theorem default_role_hierarchy:
  "{p. rbac_has RoleGuest p} \<subset> {p. rbac_has RoleMember p} \<and>
   {p. rbac_has RoleMember p} \<subset> {p. rbac_has RoleAdmin p} \<and>
   {p. rbac_has RoleAdmin p} \<subset> {p. rbac_has RoleOwner p} \<and>
   {p. rbac_has RoleOwner p} = set all_permissions \<and>
   {p. rbac_has (RoleOther s) p} = {}"
proof (intro conjI)
  show "{p. rbac_has RoleGuest p} \<subset> {p. rbac_has RoleMember p}"
    by (rule psubsetI, force simp: rbac_has_guest rbac_has_member member_permissions_def)
       (simp add: set_eq_iff, rule exI[of _ PermissionAIUse],
        unfold rbac_has_guest rbac_has_member, code_simp)
  show "{p. rbac_has RoleMember p} \<subset> {p. rbac_has RoleAdmin p}"
    by (rule psubsetI, force simp: rbac_has_admin rbac_has_member)
       (simp add: set_eq_iff, rule exI[of _ PermissionMemberManage],
        unfold rbac_has_admin rbac_has_member, code_simp)
  show "{p. rbac_has RoleAdmin p} \<subset> {p. rbac_has RoleOwner p}"
    by (rule psubsetI, force simp: rbac_has_admin rbac_has_owner member_permissions_def
          admin_permissions_def declared_permissions_def)
       (simp add: set_eq_iff, rule exI[of _ PermissionWorkspaceManage],
        unfold rbac_has_admin rbac_has_owner, code_simp)
qed (simp_all add: rbac_has_owner rbac_has_other)

text \<open>\<open>NormalizePermissionStrings\<close> is a validation followed by a sort of the set: it fails on
  the first string that is no permission once trimmed, and otherwise returns the permissions
  named by its argument in increasing order, each once.\<close>

lemma normalize_permission_strings_spec:
  "normalize_permission_strings raw =
     (case find (\<lambda>v. trim_space v \<notin> set all_permissions) raw of
        Some v \<Rightarrow> Err (PlainError (''invalid permission: '' @ v))
      | None \<Rightarrow> Ok (sorted_list_of_set (trim_space ` set raw)))"
proof (cases "find (\<lambda>v. trim_space v \<notin> set all_permissions) raw")
  case None
  then have valid: "\<forall>v \<in> set raw. trim_space v \<in> set declared_permissions"
    by (auto simp: find_None_iff)
  from normalize_loop_total[OF this] obtain out where out: "normalize_loop raw [] [] = Ok out" by blast
  from normalize_loop_Ok[OF out] have "distinct out" "set out = trim_space ` set raw" by simp_all
  then have "sort out = sorted_list_of_set (trim_space ` set raw)"
    by (metis sorted_list_of_set_sort_remdups distinct_remdups_id)
  with None out show ?thesis by (simp add: normalize_permission_strings_def)
next
  case (Some v)
  have "normalize_loop vs seen acc = Err (PlainError (''invalid permission: '' @ v))"
    if "find (\<lambda>v. trim_space v \<notin> set all_permissions) vs = Some v" for vs seen acc
    using that
    by (induction vs arbitrary: seen acc)
       (auto simp: parse_permission_iff parse_permission_None split: option.splits if_splits)
  with Some show ?thesis by (simp add: normalize_permission_strings_def)
qed

text \<open>The effective permissions of a member are those of its base role together with those of
  the assigned definitions made for that base role, and the resolution succeeds exactly when
  those definitions parse: a definition made for another base role never counts.\<close>

lemma resolve_effective_permissions:
  assumes "get_member w u = Ok m" "list_assigned w u = Ok ds"
    and "\<forall>d \<in> set ds. rd_base_role d = wm_role m \<longrightarrow>
           (\<forall>raw \<in> set (rd_permissions d). trim_space raw \<in> set all_permissions)"
  shows "\<exists>r. resolve get_member (Some list_assigned) w u = Ok r \<and>
     (\<forall>p. role_has r p \<longleftrightarrow> rbac_has (wm_role m) p \<or>
        (\<exists>d \<in> set ds. rd_base_role d = wm_role m \<and> p \<in> trim_space ` set (rd_permissions d)))"
proof -
  from assms(3) obtain r where r: "apply_definitions (wm_role m) ds (default_workspace_role (wm_role m)) = Ok r"
    using apply_definitions_total[of "wm_role m" ds "default_workspace_role (wm_role m)"] by auto
  from apply_definitions_Ok[OF r] r assms(1,2) show ?thesis
    by (auto simp: resolve_def Let_def rbac_has_def grants_def list_ex_iff)
qed

lemma resolve_effective_permissions_witness:
  "let m = \<lparr>wm_id = 1, wm_workspace = 7, wm_user = 3, wm_role = RoleMember, wm_joined_at = 0\<rparr>;
       d1 = \<lparr>rd_id = 5, rd_workspace = 7, rd_name = ''mod'', rd_base_role = RoleMember,
             rd_permissions = ['' call.moderate ''], rd_system = False, rd_created_at = 0, rd_updated_at = 0\<rparr>;
       d2 = d1\<lparr>rd_id := 6, rd_name := ''old'', rd_base_role := RoleAdmin, rd_permissions := [''file.manage'']\<rparr>
   in \<exists>r. resolve (\<lambda>w u. Ok m) (Some (\<lambda>w u. Ok [d1, d2])) 7 3 = Ok r \<and>
          role_has r ''call.moderate'' \<and> \<not> role_has r ''file.manage''"
proof -
  let ?m = "\<lparr>wm_id = 1, wm_workspace = 7, wm_user = 3, wm_role = RoleMember, wm_joined_at = 0\<rparr>"
  let ?d1 = "\<lparr>rd_id = 5, rd_workspace = 7, rd_name = ''mod'', rd_base_role = RoleMember,
             rd_permissions = ['' call.moderate ''], rd_system = False, rd_created_at = 0, rd_updated_at = 0\<rparr>"
  let ?d2 = "?d1\<lparr>rd_id := 6, rd_name := ''old'', rd_base_role := RoleAdmin, rd_permissions := [''file.manage'']\<rparr>"
  have t: "trim_space '' call.moderate '' = ''call.moderate''"
    by (simp add: trim_space_def is_space_def)
  have "\<exists>r. resolve (\<lambda>w u. Ok ?m) (Some (\<lambda>w u. Ok [?d1, ?d2])) 7 3 = Ok r \<and>
     (\<forall>p. role_has r p \<longleftrightarrow> rbac_has (wm_role ?m) p \<or>
        (\<exists>d \<in> set [?d1, ?d2]. rd_base_role d = wm_role ?m \<and> p \<in> trim_space ` set (rd_permissions d)))"
    by (rule resolve_effective_permissions) (simp_all add: t, code_simp)
  moreover have "''file.manage'' \<notin> fst ` set member_permissions" by code_simp
  ultimately show ?thesis
    by (auto simp: Let_def t rbac_has_member)
qed

text \<open>C24: over the PostgreSQL repositories a permission check that passes is backed by a membership
  row of that very workspace and user, and by the defaults of its role or by a definition of the
  same workspace, made for that role, that an assignment row links to the user.\<close>

theorem permission_backed_by_rows:
  assumes "require (pg_get_member d) (Some (pg_list_assigned d)) w u p = None"
  shows "\<exists>m \<in> set (db_members d). wm_workspace m = w \<and> wm_user m = u \<and>
     (rbac_has (wm_role m) p \<or>
      (\<exists>rd \<in> set (db_role_defs d). \<exists>a \<in> set (db_role_assigns d).
         rd_workspace rd = w \<and> rd_base_role rd = wm_role m \<and> p \<in> trim_space ` set (rd_permissions rd) \<and>
         ra_workspace a = w \<and> ra_user a = u \<and> ra_role a = rd_id rd))"
proof -
  from pg_membership.require_scope[OF assms] obtain m where m: "pg_get_member d w u = Ok m"
      "wm_workspace m = w" "wm_user m = u"
    and p: "rbac_has (wm_role m) p \<or>
         (\<exists>ds rd. pg_list_assigned d w u = Ok ds \<and> rd \<in> set ds \<and> rd_workspace rd = w \<and>
                 rd_base_role rd = wm_role m \<and> p \<in> trim_space ` set (rd_permissions rd))" by metis
  have "m \<in> set (db_members d)" using m(1) by (auto simp: pg_get_member_def dest!: query_row_member)
  with m(2,3) p show ?thesis by (fastforce dest: pg_list_assigned_mem)
qed

definition sample_db :: db where
  "sample_db = empty_db\<lparr>
     db_members := [\<lparr>wm_id = 1, wm_workspace = 7, wm_user = 3, wm_role = RoleAdmin, wm_joined_at = 0\<rparr>,
                    \<lparr>wm_id = 2, wm_workspace = 7, wm_user = 4, wm_role = RoleGuest, wm_joined_at = 0\<rparr>]\<rparr>"

theorem permission_backed_by_rows_witness:
  "require (pg_get_member sample_db) (Some (pg_list_assigned sample_db)) 7 3 PermissionMemberManage = None \<and>
   (\<exists>m \<in> set (db_members sample_db). wm_workspace m = 7 \<and> wm_user m = 3)"
proof -
  have r: "require (pg_get_member sample_db) (Some (pg_list_assigned sample_db)) 7 3 PermissionMemberManage = None"
    by (simp add: require_None_iff resolve_def pg_get_member_def query_row_def sample_db_def empty_db_def
        pg_list_assigned_def query_rows_def order_role_defs_def Let_def rbac_has_admin admin_permissions_def
        flip: rbac_has_def)
  with permission_backed_by_rows[OF r] show ?thesis by blast
qed

text \<open>Removing a member takes every permission away: once the row is deleted, every check for
  that workspace and user is refused as forbidden.\<close>

lemma removed_member_has_no_permission:
  assumes "pg_remove_member d w u = (d', None)" "db_fault d' ''get workspace member'' = None"
  shows "require (pg_get_member d') roles w u p = Some (forbidden ''user is not a workspace member'')"
proof -
  have "pg_get_member d' w u = Err (not_found ''workspace member not found'')"
    using assms by (auto simp: pg_remove_member_def Let_def pg_get_member_def query_row_not_found split: option.splits)
  from pg_membership.require_needs_membership[OF this] show ?thesis by simp
qed

lemma removed_member_has_no_permission_witness:
  "let d' = fst (pg_remove_member sample_db 7 3) in
   require (pg_get_member d') (Some (pg_list_assigned d')) 7 3 PermissionMemberManage
     = Some (forbidden ''user is not a workspace member'')"
  unfolding Let_def
  by (rule removed_member_has_no_permission [where d = sample_db])
     (simp_all add: pg_remove_member_def exec_affected_def sample_db_def empty_db_def Let_def)

end
