(* ===== verification/Collaboration.thy ===== *)
theory Collaboration
  imports Rbac
begin

text \<open>
  Cross-workspace collaboration: the connection policy of
  \<open>internal/domain/entity/workspace_collaboration.go\<close> and the service of
  \<open>internal/service/collaboration/service.go\<close>. Reads go through the functions the service is
  given (membership rows, connections), the two writes change the database of \<open>Tables\<close>;
  \<open>now\<close> stands for \<open>time.Now().UTC()\<close> and the fresh identifier is an argument.
\<close>

section \<open>The policy\<close>

fun role_allowed_loop :: "workspace_role \<Rightarrow> workspace_role list \<Rightarrow> bool" where
  "role_allowed_loop role [] = False"
| "role_allowed_loop role (c # cs) = (if role = c then True else role_allowed_loop role cs)"

definition role_allowed :: "workspace_role \<Rightarrow> workspace_role list \<Rightarrow> bool" where
  "role_allowed role allowed = (if length allowed = 0 then False else role_allowed_loop role allowed)"

definition can_view_directory :: "connection_policy \<Rightarrow> bool" where
  "can_view_directory p \<longleftrightarrow> cp_directory p = DirBasic \<or> cp_directory p = DirDirectory"

definition can_contact :: "connection_policy \<Rightarrow> workspace_role \<Rightarrow> workspace_role \<Rightarrow> bool" where
  "can_contact p source_role target_role =
     (case cp_contact p of
        ContactOpen \<Rightarrow> True
      | ContactRoleBased \<Rightarrow> role_allowed source_role (cp_source_roles p) \<and>
                           role_allowed target_role (cp_target_roles p)
      | ContactMutualAllow \<Rightarrow> False
      | ContactNone \<Rightarrow> False
      | ContactEmpty \<Rightarrow> False
      | ContactOther s \<Rightarrow> False)"

definition validate_policy :: "connection_policy \<Rightarrow> error option" where
  "validate_policy p =
     (if (case cp_directory p of DirOther s \<Rightarrow> True | _ \<Rightarrow> False)
      then Some (invalid_input ''invalid directory visibility'')
      else if (case cp_contact p of ContactOther s \<Rightarrow> True | _ \<Rightarrow> False)
      then Some (invalid_input ''invalid contact policy'')
      else if cp_contact p = ContactRoleBased \<and> (length (cp_source_roles p) = 0 \<or> length (cp_target_roles p) = 0)
      then Some (invalid_input ''role-based contact policy requires source and target roles'')
      else None)"

section \<open>Authorisation\<close>

type_synonym get_connection_fn = "uuid \<Rightarrow> uuid \<Rightarrow> workspace_connection result"
type_synonym require_fn = "uuid \<Rightarrow> uuid \<Rightarrow> permission \<Rightarrow> error option"

definition active_connection :: "get_connection_fn \<Rightarrow> instant \<Rightarrow> uuid \<Rightarrow> uuid \<Rightarrow> workspace_connection result" where
  "active_connection get_connection now s t =
     (case get_connection s t of
        Err e \<Rightarrow> Err (forbidden ''workspace connection is not active'')
      | Ok c \<Rightarrow>
          if wc_status c \<noteq> ConnActive then Err (forbidden ''workspace connection is not active'')
          else (case cp_expires_at (wc_policy c) of
                  Some exp \<Rightarrow> if \<not> exp > now then Err (forbidden ''workspace connection has expired'') else Ok c
                | None \<Rightarrow> Ok c))"

definition authorize_contact ::
  "get_member_fn \<Rightarrow> workspace_connection \<Rightarrow> uuid \<Rightarrow> uuid \<Rightarrow> uuid \<Rightarrow> uuid \<Rightarrow> error option" where
  "authorize_contact get_member c s t su tu =
     (case get_member s su of
        Err e \<Rightarrow> Some (forbidden ''source user is not a workspace member'')
      | Ok sm \<Rightarrow>
          (case get_member t tu of
             Err e \<Rightarrow> Some (forbidden ''target user is not a workspace member'')
           | Ok tm \<Rightarrow>
               if \<not> can_contact (wc_policy c) (wm_role sm) (wm_role tm)
               then Some (forbidden ''cross-workspace contact is not permitted by policy'')
               else None))"

definition can_contact_users ::
  "get_member_fn \<Rightarrow> get_connection_fn \<Rightarrow> instant \<Rightarrow> uuid \<Rightarrow> uuid \<Rightarrow> uuid \<Rightarrow> uuid \<Rightarrow> error option" where
  "can_contact_users get_member get_connection now s t su tu =
     (case active_connection get_connection now s t of
        Err e \<Rightarrow> Some e
      | Ok c \<Rightarrow> authorize_contact get_member c s t su tu)"

definition can_share_channel ::
  "get_member_fn \<Rightarrow> get_connection_fn \<Rightarrow> instant \<Rightarrow> uuid \<Rightarrow> uuid \<Rightarrow> uuid \<Rightarrow> uuid \<Rightarrow> error option" where
  "can_share_channel get_member get_connection now s t su tu =
     (case active_connection get_connection now s t of
        Err e \<Rightarrow> Some e
      | Ok c \<Rightarrow> if \<not> cp_shared_channels (wc_policy c)
                then Some (forbidden ''workspace connection does not allow shared channels'')
                else authorize_contact get_member c s t su tu)"

definition can_share_call ::
  "get_member_fn \<Rightarrow> get_connection_fn \<Rightarrow> instant \<Rightarrow> uuid \<Rightarrow> uuid \<Rightarrow> uuid \<Rightarrow> uuid \<Rightarrow> error option" where
  "can_share_call get_member get_connection now s t su tu =
     (case active_connection get_connection now s t of
        Err e \<Rightarrow> Some e
      | Ok c \<Rightarrow> if \<not> cp_shared_calls (wc_policy c)
                then Some (forbidden ''workspace connection does not allow shared calls'')
                else authorize_contact get_member c s t su tu)"

definition require_permission ::
  "require_fn option \<Rightarrow> get_member_fn \<Rightarrow> uuid \<Rightarrow> uuid \<Rightarrow> permission \<Rightarrow> error option" where
  "require_permission permissions get_member w u p =
     (case permissions of
        Some req \<Rightarrow> req w u p
      | None \<Rightarrow>
          (case get_member w u of
             Err e \<Rightarrow> Some (forbidden ''user is not a workspace member'')
           | Ok m \<Rightarrow> if \<not> rbac_has (wm_role m) p
                     then Some (forbidden ''workspace role does not have required permission'')
                     else None))"

section \<open>The life of a connection\<close>

definition request_connection ::
  "require_fn option \<Rightarrow> db \<Rightarrow> uuid \<Rightarrow> instant \<Rightarrow> uuid \<Rightarrow> uuid \<Rightarrow> uuid \<Rightarrow> connection_policy
   \<Rightarrow> db \<times> workspace_connection result" where
  "request_connection permissions d new_id now s t actor pol =
     (if s = t then (d, Err (invalid_input ''cannot connect a workspace to itself''))
      else case require_permission permissions (pg_get_member d) s actor PermissionCollaborationManage of
        Some e \<Rightarrow> (d, Err e)
      | None \<Rightarrow>
          (case validate_policy pol of
             Some e \<Rightarrow> (d, Err e)
           | None \<Rightarrow>
               (let c = \<lparr>wc_id = new_id, wc_source = s, wc_target = t, wc_status = ConnPending,
                         wc_policy = pol, wc_created_by = actor, wc_approved_by = None,
                         wc_created_at = now, wc_updated_at = now\<rparr> in
                case pg_create_connection d c of
                  (d', Some e) \<Rightarrow> (d', Err (internal_err ''failed to create workspace connection'' e))
                | (d', None) \<Rightarrow> (d', Ok c))))"

definition approve_connection ::
  "require_fn option \<Rightarrow> db \<Rightarrow> uuid \<Rightarrow> uuid \<Rightarrow> uuid \<Rightarrow> db \<times> error option" where
  "approve_connection permissions d s t actor =
     (case require_permission permissions (pg_get_member d) t actor PermissionCollaborationManage of
        Some e \<Rightarrow> (d, Some e)
      | None \<Rightarrow>
          (case pg_get_connection d s t of
             Err e \<Rightarrow> (d, Some (not_found ''workspace connection not found''))
           | Ok c \<Rightarrow>
               if wc_status c \<noteq> ConnPending
               then (d, Some (conflict ''workspace connection is not pending''))
               else pg_update_connection_status d (wc_id c) ConnActive (Some actor)))"

section \<open>Facts\<close>

lemma role_allowed_iff [simp]: "role_allowed r allowed \<longleftrightarrow> r \<in> set allowed"
proof -
  have "role_allowed_loop r cs \<longleftrightarrow> r \<in> set cs" for cs by (induction cs) auto
  then show ?thesis by (auto simp: role_allowed_def)
qed

lemma active_connection_Ok:
  "active_connection gc now s t = Ok c \<longleftrightarrow>
     gc s t = Ok c \<and> wc_status c = ConnActive \<and>
     (\<forall>exp. cp_expires_at (wc_policy c) = Some exp \<longrightarrow> now < exp)"
  by (auto simp: active_connection_def split: sum.splits option.splits if_splits)

lemma authorize_contact_None:
  "authorize_contact gm c s t su tu = None \<longleftrightarrow>
     (\<exists>sm tm. gm s su = Ok sm \<and> gm t tu = Ok tm \<and> can_contact (wc_policy c) (wm_role sm) (wm_role tm))"
  by (auto simp: authorize_contact_def split: sum.splits)

lemma authorize_contact_forbids:
  "authorize_contact gm c s t su tu = Some e \<Longrightarrow> app_code e = Some CodeForbidden"
  by (auto simp: authorize_contact_def split: sum.splits if_splits)

lemma active_connection_forbids:
  "active_connection gc now s t = Err e \<Longrightarrow> app_code e = Some CodeForbidden"
  by (auto simp: active_connection_def split: sum.splits option.splits if_splits)

lemma can_share_channel_None:
  "can_share_channel gm gc now s t su tu = None \<longleftrightarrow>
     (\<exists>c. active_connection gc now s t = Ok c \<and> cp_shared_channels (wc_policy c) \<and>
          authorize_contact gm c s t su tu = None)"
  by (auto simp: can_share_channel_def split: sum.splits)

lemma can_share_call_None:
  "can_share_call gm gc now s t su tu = None \<longleftrightarrow>
     (\<exists>c. active_connection gc now s t = Ok c \<and> cp_shared_calls (wc_policy c) \<and>
          authorize_contact gm c s t su tu = None)"
  by (auto simp: can_share_call_def split: sum.splits)

lemma can_share_forbids:
  "can_share_channel gm gc now s t su tu = Some e \<Longrightarrow> app_code e = Some CodeForbidden"
  "can_share_call gm gc now s t su tu = Some e \<Longrightarrow> app_code e = Some CodeForbidden"
  by (auto simp: can_share_channel_def can_share_call_def authorize_contact_forbids active_connection_forbids
      split: sum.splits if_splits)

lemma pg_get_connection_Ok:
  "pg_get_connection d s t = Ok c \<Longrightarrow> c \<in> set (db_connections d) \<and> wc_source c = s \<and> wc_target c = t"
  by (auto simp: pg_get_connection_def dest!: query_row_member)

lemma validate_policy_None:
  "validate_policy p = None \<longleftrightarrow>
     (\<nexists>x. cp_directory p = DirOther x) \<and> (\<nexists>x. cp_contact p = ContactOther x) \<and>
     (cp_contact p = ContactRoleBased \<longrightarrow> cp_source_roles p \<noteq> [] \<and> cp_target_roles p \<noteq> [])"
  by (auto simp: validate_policy_def split: directory_visibility.splits contact_policy.splits)

section \<open>Properties\<close>

text \<open>Over the PostgreSQL rows, two users of two workspaces may contact each other exactly when
  the ordered pair has an active, unexpired connection, both are members, and its policy is open
  or lists both roles; mutual\_allow and none never let anyone through.\<close>

lemma contact_characterisation:
  "can_contact_users (pg_get_member d) (pg_get_connection d) now s t su tu = None \<longleftrightarrow>
   (\<exists>c sm tm. pg_get_connection d s t = Ok c \<and> wc_status c = ConnActive \<and>
      (cp_expires_at (wc_policy c) = None \<or> now < the (cp_expires_at (wc_policy c))) \<and>
      pg_get_member d s su = Ok sm \<and> pg_get_member d t tu = Ok tm \<and>
      (cp_contact (wc_policy c) = ContactOpen \<or>
       cp_contact (wc_policy c) = ContactRoleBased \<and>
         wm_role sm \<in> set (cp_source_roles (wc_policy c)) \<and> wm_role tm \<in> set (cp_target_roles (wc_policy c))))"
proof -
  have allow: "can_contact p a b \<longleftrightarrow> cp_contact p = ContactOpen \<or>
      cp_contact p = ContactRoleBased \<and> a \<in> set (cp_source_roles p) \<and> b \<in> set (cp_target_roles p)" for p a b
    by (auto simp: can_contact_def split: contact_policy.splits)
  have live: "(\<forall>exp. x = Some exp \<longrightarrow> now < exp) \<longleftrightarrow> x = None \<or> now < the x" for x
    by (cases x) auto
  have "can_contact_users (pg_get_member d) (pg_get_connection d) now s t su tu = None \<longleftrightarrow>
     (\<exists>c. active_connection (pg_get_connection d) now s t = Ok c \<and>
          authorize_contact (pg_get_member d) c s t su tu = None)"
    by (auto simp: can_contact_users_def split: sum.splits)
  then show ?thesis
    by (simp only: active_connection_Ok authorize_contact_None allow live) blast
qed

text \<open>A requested connection goes live only through the other side: after a successful request the
  pair's connection is pending and authorises nobody, and the approval that makes it active
  needs the collaboration permission in the target workspace.\<close>

lemma request_is_inert_until_approved:
  assumes "request_connection perms d i now s t actor pol = (d', Ok c)"
    and "db_fault d ''get workspace connection'' = None"
  shows "s \<noteq> t \<and> validate_policy pol = None \<and> pg_get_connection d' s t = Ok c \<and> wc_status c = ConnPending \<and>
    can_contact_users gm (pg_get_connection d') now' s t su tu = Some (forbidden ''workspace connection is not active'')"
proof -
  from assms(1) have st: "s \<noteq> t" "validate_policy pol = None"
    by (auto simp: request_connection_def split: if_splits option.splits)
  from assms(1) have c: "c = \<lparr>wc_id = i, wc_source = s, wc_target = t, wc_status = ConnPending,
                         wc_policy = pol, wc_created_by = actor, wc_approved_by = None,
                         wc_created_at = now, wc_updated_at = now\<rparr>"
    and ins: "pg_create_connection d c = (d', None)"
    by (auto simp: request_connection_def Let_def split: if_splits option.splits prod.splits)
  from ins have d': "d' = d\<lparr>db_connections := db_connections d @ [c]\<rparr>"
    and fresh: "\<forall>r \<in> set (db_connections d). \<not> (wc_source r = s \<and> wc_target r = t)"
    by (auto simp: pg_create_connection_def exec_insert_None list_ex_iff c split: option.splits)
  have "find (\<lambda>c. wc_source c = s \<and> wc_target c = t) (db_connections d @ [c]) = Some c"
    using fresh c by (simp add: find_append_fresh)
  then have "pg_get_connection d' s t = Ok c"
    using assms(2) by (simp add: d' pg_get_connection_def query_row_Ok)
  with st c show ?thesis
    by (simp add: can_contact_users_def active_connection_def)
qed

lemma request_is_inert_until_approved_witness:
  "\<exists>d' c. request_connection None sample_db 9 100 7 8 3
        \<lparr>cp_directory = DirBasic, cp_contact = ContactOpen, cp_source_roles = [], cp_target_roles = [],
         cp_shared_channels = True, cp_shared_calls = False, cp_expires_at = None\<rparr> = (d', Ok c) \<and>
     can_contact_users (pg_get_member d') (pg_get_connection d') 200 7 8 3 5
       = Some (forbidden ''workspace connection is not active'')"
proof -
  let ?p = "\<lparr>cp_directory = DirBasic, cp_contact = ContactOpen, cp_source_roles = [], cp_target_roles = [],
         cp_shared_channels = True, cp_shared_calls = False, cp_expires_at = None\<rparr>"
  obtain d' c where r: "request_connection None sample_db 9 100 7 8 3 ?p = (d', Ok c)"
    by (simp add: request_connection_def require_permission_def pg_get_member_def query_row_def sample_db_def
        empty_db_def rbac_has_admin admin_permissions_def validate_policy_def pg_create_connection_def
        exec_insert_def Let_def)
  have "db_fault sample_db ''get workspace connection'' = None" by (simp add: sample_db_def empty_db_def)
  from request_is_inert_until_approved[OF r this] r show ?thesis by blast
qed

text \<open>An approval that succeeds was made by a holder of the collaboration permission of the target
  workspace, on a pending connection of the pair, and leaves it active with the approver recorded;
  one that fails changes nothing.\<close>

lemma approve_connection_effect:
  assumes "approve_connection perms d s t actor = (d', r)"
  shows "(r \<noteq> None \<longrightarrow> d' = d) \<and>
    (r = None \<longrightarrow> require_permission perms (pg_get_member d) t actor PermissionCollaborationManage = None \<and>
       (\<exists>c. pg_get_connection d s t = Ok c \<and> wc_status c = ConnPending \<and>
            pg_get_connection d' s t = Ok (c\<lparr>wc_status := ConnActive, wc_approved_by := Some actor\<rparr>)))"
proof (cases r)
  case (Some e)
  have same: "x = d" if "pg_update_connection_status d i st a = (x, Some e')" for x i st a e'
    using pg_write_error_unchanged[of d "WUpdateConnectionStatus i st a"] that by simp
  from assms(1) Some show ?thesis
    by (auto simp: approve_connection_def split: option.splits sum.splits if_splits dest: same)
next
  case None
  with assms(1) obtain c where perm: "require_permission perms (pg_get_member d) t actor PermissionCollaborationManage = None"
    and c: "pg_get_connection d s t = Ok c" "wc_status c = ConnPending"
    and upd: "pg_update_connection_status d (wc_id c) ConnActive (Some actor) = (d', None)"
    by (auto simp: approve_connection_def split: option.splits sum.splits if_splits)
  let ?f = "\<lambda>c. c\<lparr>wc_status := ConnActive, wc_approved_by := Some actor\<rparr>"
  let ?P = "\<lambda>c. wc_source c = s \<and> wc_target c = t"
  from c have cin: "c \<in> set (db_connections d)" "?P c" by (auto dest: pg_get_connection_Ok)
  have found: "db_fault d ''get workspace connection'' = None" "find ?P (db_connections d) = Some c"
    using c by (simp_all add: pg_get_connection_def query_row_Ok)
  have "find ?P (update_rows (\<lambda>r. wc_id r = wc_id c) ?f (db_connections d)) = Some (?f c)"
    using found unfolding update_rows_def by (subst find_map_invariant) auto
  moreover have "d' = d\<lparr>db_connections := update_rows (\<lambda>r. wc_id r = wc_id c) ?f (db_connections d)\<rparr>"
    using upd by (auto simp: pg_update_connection_status_def Let_def split: option.splits)
  ultimately have "pg_get_connection d' s t = Ok (?f c)"
    using found by (simp add: pg_get_connection_def query_row_Ok)
  with None perm c show ?thesis by blast
qed

definition pending_sample :: workspace_connection where
  "pending_sample = \<lparr>wc_id = 9, wc_source = 7, wc_target = 8, wc_status = ConnPending,
     wc_policy = \<lparr>cp_directory = DirBasic, cp_contact = ContactOpen, cp_source_roles = [], cp_target_roles = [],
         cp_shared_channels = True, cp_shared_calls = False, cp_expires_at = None\<rparr>,
     wc_created_by = 3, wc_approved_by = None, wc_created_at = 0, wc_updated_at = 0\<rparr>"

lemma approve_connection_effect_witness:
  "\<exists>d'. approve_connection (Some (\<lambda>w u p. None)) (sample_db\<lparr>db_connections := [pending_sample]\<rparr>) 7 8 5 = (d', None) \<and>
     (\<exists>c. pg_get_connection d' 7 8
       = Ok (c\<lparr>wc_status := ConnActive, wc_approved_by := Some 5\<rparr>))"
proof -
  obtain d' where r: "approve_connection (Some (\<lambda>w u p. None)) (sample_db\<lparr>db_connections := [pending_sample]\<rparr>) 7 8 5
      = (d', None)"
    by (simp add: approve_connection_def require_permission_def pg_get_connection_def query_row_def sample_db_def
        empty_db_def pending_sample_def pg_update_connection_status_def exec_affected_def Let_def)
  from approve_connection_effect[OF r] r show ?thesis by blast
qed

end
