(* ===== verification/Access.thy ===== *)
theory Access
  imports Collaboration
begin

text \<open>
  Who may enter a channel: the guest grants of \<open>internal/security/guestaccess/checker.go\<close>, the
  collaboration grants of \<open>internal/security/collabaccess/checker.go\<close> and the access policy that
  combines them with workspace and channel membership,
  \<open>internal/security/accesspolicy/checker.go\<close>. The checkers' repositories are fields of
  \<open>access_deps\<close>; \<open>pg_access\<close> wires them to the PostgreSQL model the way the program does.
\<close>

section \<open>Guest grants\<close>

type_synonym list_grants_fn = "uuid \<Rightarrow> uuid \<Rightarrow> instant \<Rightarrow> guest_grant list result"

definition active_grants :: "list_grants_fn option \<Rightarrow> instant \<Rightarrow> uuid \<Rightarrow> uuid \<Rightarrow> uuid list list result" where
  "active_grants reader now w u =
     (case reader of
        None \<Rightarrow> Ok []
      | Some list \<Rightarrow>
          (case list u w now of
             Err e \<Rightarrow> (case as_app_error e of
                         Some (c, m, i) \<Rightarrow> Err (AppError c m i)
                       | None \<Rightarrow> Err (internal_err ''failed to load guest access grants'' e))
           | Ok gs \<Rightarrow> Ok (map gg_channels gs)))"

definition has_workspace_access :: "list_grants_fn option \<Rightarrow> instant \<Rightarrow> uuid \<Rightarrow> uuid \<Rightarrow> bool result" where
  "has_workspace_access reader now w u =
     result_bind (active_grants reader now w u) (\<lambda>gs. Ok (length gs > 0))"

fun any_grant_allows :: "uuid list list \<Rightarrow> uuid \<Rightarrow> bool" where
  "any_grant_allows [] c = False"
| "any_grant_allows (g # gs) c = (if allows_channel g c then True else any_grant_allows gs c)"

definition has_channel_access ::
  "list_grants_fn option \<Rightarrow> instant \<Rightarrow> uuid \<Rightarrow> uuid \<Rightarrow> uuid \<Rightarrow> bool result" where
  "has_channel_access reader now w c u =
     result_bind (active_grants reader now w u) (\<lambda>gs. Ok (any_grant_allows gs c))"

lemma any_grant_allows_iff: "any_grant_allows gs c \<longleftrightarrow> (\<exists>g \<in> set gs. allows_channel g c)"
  by (induction gs c rule: any_grant_allows.induct) auto

section \<open>Collaboration grants\<close>

record collab_decision =
  cd_managed :: bool
  cd_allowed :: bool

definition unmanaged :: collab_decision where
  "unmanaged = \<lparr>cd_managed = False, cd_allowed = False\<rparr>"

text \<open>The checker's two collaborators; the share checks are \<open>can_share_channel\<close> and
  \<open>can_share_call\<close> of the collaboration service.\<close>

record collab_deps =
  cl_grants :: "uuid \<Rightarrow> channel_grant list result"
  cl_share_channel :: "uuid \<Rightarrow> uuid \<Rightarrow> uuid \<Rightarrow> uuid \<Rightarrow> error option"
  cl_share_call :: "uuid \<Rightarrow> uuid \<Rightarrow> uuid \<Rightarrow> uuid \<Rightarrow> error option"

fun authorize_grants :: "collab_deps \<Rightarrow> uuid \<Rightarrow> bool \<Rightarrow> channel_grant list \<Rightarrow> collab_decision result" where
  "authorize_grants deps u calls [] = Ok \<lparr>cd_managed = True, cd_allowed = False\<rparr>"
| "authorize_grants deps u calls (g # gs) =
     (if u \<noteq> cg_user g \<and> u \<noteq> cg_source_user g then authorize_grants deps u calls gs
      else if calls \<and> \<not> cg_allow_calls g then authorize_grants deps u calls gs
      else case (if calls
                 then cl_share_call deps (cg_workspace g) (cg_remote_workspace g) (cg_source_user g) (cg_user g)
                 else cl_share_channel deps (cg_workspace g) (cg_remote_workspace g) (cg_source_user g) (cg_user g)) of
        None \<Rightarrow> Ok \<lparr>cd_managed = True, cd_allowed = True\<rparr>
      | Some e \<Rightarrow>
          if app_code e = Some CodeForbidden \<or> app_code e = Some CodeNotFound
          then authorize_grants deps u calls gs
          else Err e)"

definition collab_authorize :: "collab_deps option \<Rightarrow> uuid \<Rightarrow> uuid \<Rightarrow> bool \<Rightarrow> collab_decision result" where
  "collab_authorize d channel u calls =
     (case d of
        None \<Rightarrow> Ok unmanaged
      | Some deps \<Rightarrow>
          (case cl_grants deps channel of
             Err e \<Rightarrow> Err (internal_err ''failed to verify collaboration access'' e)
           | Ok gs \<Rightarrow> if length gs = 0 then Ok unmanaged else authorize_grants deps u calls gs))"

lemma authorize_grants_allowed:
  "authorize_grants deps u calls gs = Ok dec \<Longrightarrow> cd_allowed dec \<Longrightarrow>
   \<exists>g \<in> set gs. (u = cg_user g \<or> u = cg_source_user g) \<and> (calls \<longrightarrow> cg_allow_calls g) \<and>
     (if calls then cl_share_call deps else cl_share_channel deps)
        (cg_workspace g) (cg_remote_workspace g) (cg_source_user g) (cg_user g) = None"
  by (induction deps u calls gs rule: authorize_grants.induct) (auto split: if_splits option.splits)

lemma authorize_grants_managed: "authorize_grants deps u calls gs = Ok dec \<Longrightarrow> cd_managed dec"
  by (induction deps u calls gs rule: authorize_grants.induct) (auto split: if_splits option.splits)

section \<open>The access policy\<close>

datatype subject = SubjectMember | SubjectGuest | SubjectCollaborator
datatype capability = CapabilityView | CapabilityParticipate | CapabilityOther string

record channel_decision =
  dc_subject :: subject
  dc_channel :: channel
  dc_workspace_member :: "workspace_member option"
  dc_channel_member :: "channel_member option"

record access_deps =
  ad_get_member :: "get_member_fn option"
  ad_get_channel :: "uuid \<Rightarrow> channel result"
  ad_get_channel_member :: "uuid \<Rightarrow> uuid \<Rightarrow> channel_member result"
  ad_list_user :: "uuid \<Rightarrow> uuid \<Rightarrow> channel list result"
  ad_list_page :: "uuid \<Rightarrow> page_params \<Rightarrow> channel list result"
  ad_guest_workspace :: "(uuid \<Rightarrow> uuid \<Rightarrow> bool result) option"
  ad_guest_channel :: "(uuid \<Rightarrow> uuid \<Rightarrow> uuid \<Rightarrow> bool result) option"
  ad_collab :: "(uuid \<Rightarrow> uuid \<Rightarrow> collab_decision result) option"

definition ap_workspace_member :: "access_deps \<Rightarrow> uuid \<Rightarrow> uuid \<Rightarrow> workspace_member result" where
  "ap_workspace_member c w u =
     (case ad_get_member c of
        None \<Rightarrow> Err (forbidden ''workspace access is not configured'')
      | Some get \<Rightarrow>
          (case get w u of
             Ok m \<Rightarrow> Ok m
           | Err e \<Rightarrow> if app_code e = Some CodeNotFound
                      then Err (forbidden ''user is not a workspace member'')
                      else Err (internal_err ''failed to verify workspace membership'' e)))"

definition workspace_access :: "access_deps option \<Rightarrow> uuid \<Rightarrow> uuid \<Rightarrow> subject result" where
  "workspace_access chk w u =
     (case chk of
        None \<Rightarrow> Err (forbidden ''workspace access is not configured'')
      | Some c \<Rightarrow>
          (case ap_workspace_member c w u of
             Ok m \<Rightarrow> Ok SubjectMember
           | Err e \<Rightarrow>
               if app_code e \<noteq> Some CodeForbidden then Err e
               else (case ad_guest_workspace c of
                       None \<Rightarrow> Err (forbidden ''user does not have access to this workspace'')
                     | Some guest \<Rightarrow>
                         (case guest w u of
                            Err ge \<Rightarrow> Err ge
                          | Ok allowed \<Rightarrow>
                              if allowed then Ok SubjectGuest
                              else Err (forbidden ''user does not have access to this workspace'')))))"

definition authorize_collaboration :: "access_deps \<Rightarrow> uuid \<Rightarrow> uuid \<Rightarrow> bool result" where
  "authorize_collaboration c channel u =
     (case ad_collab c of
        None \<Rightarrow> Ok True
      | Some collab \<Rightarrow>
          (case collab channel u of
             Err e \<Rightarrow> Err e
           | Ok dec \<Rightarrow> if \<not> cd_managed dec then Ok True else Ok (cd_allowed dec)))"

definition is_dm :: "channel \<Rightarrow> bool" where
  "is_dm ch \<longleftrightarrow> ch_type ch = ChDM \<or> ch_type ch = ChGroupDM"

definition decision_for_member ::
  "access_deps \<Rightarrow> channel \<Rightarrow> workspace_member \<Rightarrow> uuid \<Rightarrow> capability \<Rightarrow> channel_decision result" where
  "decision_for_member c ch m u cap =
     result_bind
       (case ad_get_channel_member c (ch_id ch) u of
          Ok cm \<Rightarrow> Ok (Some cm)
        | Err e \<Rightarrow> if app_code e \<noteq> Some CodeNotFound
                   then Err (internal_err ''failed to verify channel membership'' e)
                   else Ok None)
       (\<lambda>cm.
          let dec = \<lparr>dc_subject = SubjectMember, dc_channel = ch,
                     dc_workspace_member = Some m, dc_channel_member = cm\<rparr> in
          if ch_type ch = ChPublic then
            (if cap = CapabilityParticipate \<and> cm = None
             then Err (forbidden ''user is not a member of this channel'')
             else Ok dec)
          else if ch_type ch = ChPrivate \<or> ch_type ch = ChDM \<or> ch_type ch = ChGroupDM \<or> ch_type ch = ChMeeting then
            (if cm = None then Err (forbidden ''you do not have access to this channel'')
             else if is_dm ch then
               (case authorize_collaboration c (ch_id ch) u of
                  Err e \<Rightarrow> Err e
                | Ok allowed \<Rightarrow>
                    if \<not> allowed then Err (forbidden ''you do not have access to this collaboration channel'')
                    else Ok dec)
             else Ok dec)
          else Err (forbidden ''unsupported channel type''))"

definition decision_for_collaborator :: "access_deps \<Rightarrow> channel \<Rightarrow> uuid \<Rightarrow> channel_decision result" where
  "decision_for_collaborator c ch u =
     (if ch_type ch \<noteq> ChDM \<and> ch_type ch \<noteq> ChGroupDM
      then Err (forbidden ''you do not have access to this channel'')
      else case ad_get_channel_member c (ch_id ch) u of
        Err e \<Rightarrow> if app_code e = Some CodeNotFound
                 then Err (forbidden ''you do not have access to this channel'')
                 else Err (internal_err ''failed to verify channel membership'' e)
      | Ok cm \<Rightarrow>
          (case authorize_collaboration c (ch_id ch) u of
             Err e \<Rightarrow> Err e
           | Ok allowed \<Rightarrow>
               if \<not> allowed then Err (forbidden ''you do not have access to this collaboration channel'')
               else Ok \<lparr>dc_subject = SubjectCollaborator, dc_channel = ch,
                        dc_workspace_member = None, dc_channel_member = Some cm\<rparr>))"

definition access_channel ::
  "access_deps option \<Rightarrow> uuid \<Rightarrow> uuid \<Rightarrow> capability \<Rightarrow> channel_decision result" where
  "access_channel chk channel_id u cap =
     (case chk of
        None \<Rightarrow> Err (forbidden ''channel access is not configured'')
      | Some c \<Rightarrow>
          (case ad_get_channel c channel_id of
             Err e \<Rightarrow> if app_code e = Some CodeNotFound then Err (not_found ''channel not found'')
                      else Err (internal_err ''failed to get channel'' e)
           | Ok ch \<Rightarrow>
               if ch_archived ch then Err (forbidden ''channel is archived'')
               else case ap_workspace_member c (ch_workspace ch) u of
                 Ok m \<Rightarrow> decision_for_member c ch m u cap
               | Err me \<Rightarrow>
                   if app_code me \<noteq> Some CodeForbidden then Err me
                   else (case (case ad_guest_channel c of
                                 None \<Rightarrow> Ok False
                               | Some guest \<Rightarrow> guest (ch_workspace ch) (ch_id ch) u) of
                           Err e \<Rightarrow> Err e
                         | Ok allowed \<Rightarrow>
                             if allowed
                             then Ok \<lparr>dc_subject = SubjectGuest, dc_channel = ch,
                                      dc_workspace_member = None, dc_channel_member = None\<rparr>
                             else decision_for_collaborator c ch u)))"

section \<open>Listing the channels a user may enter\<close>

fun dedupe_loop :: "uuid set \<Rightarrow> channel list \<Rightarrow> channel list" where
  "dedupe_loop seen [] = []"
| "dedupe_loop seen (c # cs) =
     (if ch_id c \<in> seen then dedupe_loop seen cs else c # dedupe_loop (insert (ch_id c) seen) cs)"

definition dedupe_channels :: "channel list \<Rightarrow> channel list" where
  "dedupe_channels cs = (if length cs = 0 then [] else dedupe_loop {} cs)"

text \<open>The participating member's branch keeps every channel whose check succeeds and drops the
  others, whatever their error.\<close>

fun filter_participating :: "access_deps \<Rightarrow> uuid \<Rightarrow> capability \<Rightarrow> channel list \<Rightarrow> channel list" where
  "filter_participating c u cap [] = []"
| "filter_participating c u cap (ch # chs) =
     (case access_channel (Some c) (ch_id ch) u cap of
        Ok dec \<Rightarrow> dc_channel dec # filter_participating c u cap chs
      | Err e \<Rightarrow> filter_participating c u cap chs)"

fun check_page :: "access_deps \<Rightarrow> uuid \<Rightarrow> capability \<Rightarrow> channel list \<Rightarrow> channel list \<Rightarrow> channel list result" where
  "check_page c u cap [] acc = Ok acc"
| "check_page c u cap (ch # chs) acc =
     (case access_channel (Some c) (ch_id ch) u cap of
        Ok dec \<Rightarrow> check_page c u cap chs (acc @ [dc_channel dec])
      | Err e \<Rightarrow> if app_code e = Some CodeForbidden \<or> app_code e = Some CodeNotFound
                 then check_page c u cap chs acc else Err e)"

text \<open>The paging loop ends when a page is shorter than 200; nothing in it bounds the number of
  pages, so not returning is the value \<open>None\<close>.\<close>

partial_function (option) list_loop ::
  "access_deps \<Rightarrow> uuid \<Rightarrow> uuid \<Rightarrow> capability \<Rightarrow> uuid \<Rightarrow> channel list \<Rightarrow> channel list result option" where
  "list_loop c w u cap cursor acc =
     (case ad_list_page c w \<lparr>pp_cursor = cursor, pp_limit = 200, pp_offset = 0\<rparr> of
        Err e \<Rightarrow> Some (Err (internal_err ''failed to list workspace channels'' e))
      | Ok page \<Rightarrow>
          (case check_page c u cap page acc of
             Err e \<Rightarrow> Some (Err e)
           | Ok acc' \<Rightarrow>
               if length page < 200 then Some (Ok (dedupe_channels acc'))
               else list_loop c w u cap (ch_id (last page)) acc'))"

definition list_channels ::
  "access_deps option \<Rightarrow> uuid \<Rightarrow> uuid \<Rightarrow> capability \<Rightarrow> channel list result option" where
  "list_channels chk w u cap =
     (case chk of
        None \<Rightarrow> Some (Err (forbidden ''channel access is not configured''))
      | Some c \<Rightarrow>
          (case (if cap = CapabilityParticipate then ap_workspace_member c w u
                 else Err (forbidden ''not asked'')) of
             Ok m \<Rightarrow>
               (case ad_list_user c w u of
                  Err e \<Rightarrow> Some (Err (internal_err ''failed to list user channels'' e))
                | Ok chs \<Rightarrow> Some (Ok (dedupe_channels (filter_participating c u cap chs))))
           | Err e \<Rightarrow> list_loop c w u cap uuid_nil []))"

section \<open>Wiring to the PostgreSQL model\<close>

definition pg_collab :: "db \<Rightarrow> instant \<Rightarrow> collab_deps" where
  "pg_collab d now = \<lparr>cl_grants = pg_list_channel_grants d,
     cl_share_channel = can_share_channel (pg_get_member d) (pg_get_connection d) now,
     cl_share_call = can_share_call (pg_get_member d) (pg_get_connection d) now\<rparr>"

definition pg_access :: "db \<Rightarrow> instant \<Rightarrow> access_deps" where
  "pg_access d now = \<lparr>ad_get_member = Some (pg_get_member d), ad_get_channel = pg_get_channel d,
     ad_get_channel_member = pg_get_channel_member d, ad_list_user = pg_list_user_channels d,
     ad_list_page = pg_list_channels d,
     ad_guest_workspace = Some (has_workspace_access (Some (pg_list_active_grants d)) now),
     ad_guest_channel = Some (has_channel_access (Some (pg_list_active_grants d)) now),
     ad_collab = Some (\<lambda>ch u. collab_authorize (Some (pg_collab d now)) ch u False)\<rparr>"

section \<open>What the paging loop relies on\<close>

text \<open>The listing contract of the channel repository: whatever limit is asked for, a page is what
  the normalised limit allows, of the asked workspace, and below the cursor.\<close>

locale channel_pages =
  fixes list_page :: "uuid \<Rightarrow> page_params \<Rightarrow> channel list result"
  assumes page_limit: "list_page w p = Ok cs \<Longrightarrow> int (length cs) \<le> pp_limit (normalize_params p)"
    and page_scope: "list_page w p = Ok cs \<Longrightarrow> c \<in> set cs \<Longrightarrow> ch_workspace c = w"
    and page_cursor: "list_page w p = Ok cs \<Longrightarrow> c \<in> set cs \<Longrightarrow> pp_cursor p \<noteq> uuid_nil \<Longrightarrow> ch_id c < pp_cursor p"
begin

lemma page_never_full: "list_page w p = Ok cs \<Longrightarrow> length cs < 200"
  using page_limit[of w p cs] normalize_limit_range[of p] by linarith

lemma loop_one_page:
  assumes "ad_list_page c = list_page"
  shows "list_loop c w u cap cursor acc =
    Some (case list_page w \<lparr>pp_cursor = cursor, pp_limit = 200, pp_offset = 0\<rparr> of
            Err e \<Rightarrow> Err (internal_err ''failed to list workspace channels'' e)
          | Ok page \<Rightarrow> result_bind (check_page c u cap page acc) (\<lambda>cs. Ok (dedupe_channels cs)))"
proof (cases "list_page w \<lparr>pp_cursor = cursor, pp_limit = 200, pp_offset = 0\<rparr>")
  case (Inr page)
  with assms page_never_full[OF Inr] show ?thesis by (subst list_loop.simps) (simp split: sum.split)
qed (use assms in \<open>subst list_loop.simps, simp\<close>)

lemma page_at_most_100: "list_page w p = Ok cs \<Longrightarrow> length cs \<le> 100"
  using page_limit[of w p cs] normalize_limit_range[of p] by linarith

end

interpretation pg_pages: channel_pages "pg_list_channels d" for d
proof unfold_locales
  fix w p cs
  assume *: "pg_list_channels d w p = Ok cs"
  show "int (length cs) \<le> pp_limit (normalize_params p)"
    using * normalize_limit_range[of p] by (auto simp: pg_list_channels_def Let_def)
  show "ch_workspace c = w" if "c \<in> set cs" for c
    using * that by (auto simp: pg_list_channels_def Let_def split: if_splits dest!: in_set_takeD)
  show "ch_id c < pp_cursor p" if "c \<in> set cs" "pp_cursor p \<noteq> uuid_nil" for c
    using * that by (auto simp: pg_list_channels_def Let_def split: if_splits dest!: in_set_takeD)
qed

section \<open>Facts\<close>

lemma dedupe_loop_props:
  "distinct (map ch_id (dedupe_loop seen cs)) \<and> ch_id ` set (dedupe_loop seen cs) = ch_id ` set cs - seen
   \<and> set (dedupe_loop seen cs) \<subseteq> set cs \<and> length (dedupe_loop seen cs) \<le> length cs"
proof (induction seen cs rule: dedupe_loop.induct)
  case (2 seen c cs)
  then show ?case by (cases "ch_id c \<in> seen") auto
qed simp

lemma dedupe_channels_props:
  "distinct (map ch_id (dedupe_channels cs))" "ch_id ` set (dedupe_channels cs) = ch_id ` set cs"
  "set (dedupe_channels cs) \<subseteq> set cs" "length (dedupe_channels cs) \<le> length cs"
  using dedupe_loop_props[of "{}" cs] by (auto simp: dedupe_channels_def)

lemma dedupe_channels_set:
  assumes "inj_on ch_id (set cs)" shows "set (dedupe_channels cs) = set cs"
  using dedupe_channels_props[of cs] assms by (metis inj_on_image_eq_iff subset_refl)

lemma decision_for_member_channel:
  "decision_for_member c ch m u cap = Ok dec \<Longrightarrow> dc_channel dec = ch"
  by (auto simp: decision_for_member_def result_bind_def Let_def split: sum.splits if_splits)

lemma decision_for_collaborator_channel:
  "decision_for_collaborator c ch u = Ok dec \<Longrightarrow> dc_channel dec = ch"
  by (auto simp: decision_for_collaborator_def split: sum.splits if_splits)

lemma access_channel_channel:
  "access_channel (Some c) i u cap = Ok dec \<Longrightarrow> ad_get_channel c i = Ok (dc_channel dec)"
  by (auto simp: access_channel_def split: sum.splits option.splits if_splits
      dest: decision_for_member_channel decision_for_collaborator_channel)

lemma check_page_Ok:
  "check_page c u cap chs acc = Ok r \<Longrightarrow>
   r = acc @ concat (map (\<lambda>ch. case access_channel (Some c) (ch_id ch) u cap of
                               Ok dec \<Rightarrow> [dc_channel dec] | Err e \<Rightarrow> []) chs)"
  by (induction c u cap chs acc rule: check_page.induct) (auto split: sum.splits if_splits)

lemma length_concat_unit: "(\<And>x. length (f x) \<le> 1) \<Longrightarrow> length (concat (map f xs)) \<le> length xs"
proof (induction xs)
  case (Cons a xs)
  from Cons.IH[OF Cons.prems] Cons.prems[of a] show ?case by simp
qed simp

lemma check_page_length: "check_page c u cap chs [] = Ok r \<Longrightarrow> length r \<le> length chs"
  by (drule check_page_Ok) (auto intro!: length_concat_unit split: sum.splits)

lemma check_page_mem:
  assumes "check_page c u cap chs [] = Ok r"
  shows "x \<in> set r \<longleftrightarrow> (\<exists>ch \<in> set chs. \<exists>dec. access_channel (Some c) (ch_id ch) u cap = Ok dec \<and> x = dc_channel dec)"
  using check_page_Ok[OF assms] by (auto split: sum.splits) force+

lemma filter_participating_mem:
  "x \<in> set (filter_participating c u cap chs) \<longleftrightarrow>
    (\<exists>ch \<in> set chs. \<exists>dec. access_channel (Some c) (ch_id ch) u cap = Ok dec \<and> x = dc_channel dec)"
  by (induction c u cap chs rule: filter_participating.induct) (auto split: sum.splits)

section \<open>What entering a channel means\<close>

text \<open>The promise of the access policy, stated over the rows alone.\<close>

definition is_member_row :: "db \<Rightarrow> uuid \<Rightarrow> uuid \<Rightarrow> bool" where
  "is_member_row d w u \<longleftrightarrow> (\<exists>m \<in> set (db_members d). wm_workspace m = w \<and> wm_user m = u)"

definition in_channel_row :: "db \<Rightarrow> uuid \<Rightarrow> uuid \<Rightarrow> bool" where
  "in_channel_row d ch u \<longleftrightarrow> (\<exists>m \<in> set (db_channel_members d). cm_channel m = ch \<and> cm_user m = u)"

definition guest_row :: "db \<Rightarrow> instant \<Rightarrow> uuid \<Rightarrow> uuid \<Rightarrow> uuid \<Rightarrow> bool" where
  "guest_row d now w ch u \<longleftrightarrow>
     (\<exists>g \<in> set (db_guest_grants d). gg_user g = u \<and> gg_workspace g = w \<and> now < gg_expires_at g \<and>
        (gg_channels g = [] \<or> ch \<in> set (gg_channels g)))"

definition collab_row :: "db \<Rightarrow> instant \<Rightarrow> uuid \<Rightarrow> uuid \<Rightarrow> bool" where
  "collab_row d now ch u \<longleftrightarrow>
     (\<forall>g \<in> set (db_channel_grants d). cg_channel g \<noteq> ch) \<or>
     (\<exists>g \<in> set (db_channel_grants d). cg_channel g = ch \<and> (u = cg_user g \<or> u = cg_source_user g) \<and>
        can_share_channel (pg_get_member d) (pg_get_connection d) now (cg_workspace g) (cg_remote_workspace g)
          (cg_source_user g) (cg_user g) = None)"

definition channel_entry :: "db \<Rightarrow> instant \<Rightarrow> channel \<Rightarrow> uuid \<Rightarrow> capability \<Rightarrow> subject option" where
  "channel_entry d now ch u cap =
     (if ch_archived ch then None
      else if is_member_row d (ch_workspace ch) u then
        (if (ch_type ch = ChPublic \<and> (cap = CapabilityParticipate \<longrightarrow> in_channel_row d (ch_id ch) u)) \<or>
            (ch_type ch \<in> {ChPrivate, ChDM, ChGroupDM, ChMeeting} \<and> in_channel_row d (ch_id ch) u \<and>
             (is_dm ch \<longrightarrow> collab_row d now (ch_id ch) u))
         then Some SubjectMember else None)
      else if guest_row d now (ch_workspace ch) (ch_id ch) u then Some SubjectGuest
      else if is_dm ch \<and> in_channel_row d (ch_id ch) u \<and> collab_row d now (ch_id ch) u
      then Some SubjectCollaborator else None)"

definition no_faults :: "db \<Rightarrow> bool" where
  "no_faults d \<longleftrightarrow> db_fault d = (\<lambda>_. None)"

lemma query_row_live:
  "if \<exists>r \<in> set rows. P r then \<exists>r. query_row None mm wm P rows = Ok r
   else query_row None mm wm P rows = Err (not_found mm)"
proof (cases "find P rows")
  case None
  moreover from None have "\<not> (\<exists>r \<in> set rows. P r)" by (simp add: find_None_iff)
  ultimately show ?thesis by (simp add: query_row_def)
next
  case (Some r)
  with find_Some_mem[OF Some] show ?thesis by (auto simp: query_row_def)
qed

lemma pg_member_cases:
  "no_faults d \<Longrightarrow> if is_member_row d w u then \<exists>m. pg_get_member d w u = Ok m
     else pg_get_member d w u = Err (not_found ''workspace member not found'')"
  using query_row_live[of "db_members d" "\<lambda>r. wm_workspace r = w \<and> wm_user r = u"
      "''workspace member not found''" "''postgres: get workspace member''"]
  by (simp add: no_faults_def pg_get_member_def is_member_row_def)

lemma pg_channel_member_cases:
  "no_faults d \<Longrightarrow> if in_channel_row d c u then \<exists>m. pg_get_channel_member d c u = Ok m
     else pg_get_channel_member d c u = Err (not_found ''channel member not found'')"
  using query_row_live[of "db_channel_members d" "\<lambda>r. cm_channel r = c \<and> cm_user r = u"
      "''channel member not found''" "''postgres: get channel member''"]
  by (simp add: no_faults_def pg_get_channel_member_def in_channel_row_def)

lemma pg_workspace_member_cases:
  assumes "no_faults d"
  shows "if is_member_row d w u then \<exists>m. ap_workspace_member (pg_access d now) w u = Ok m
     else ap_workspace_member (pg_access d now) w u = Err (forbidden ''user is not a workspace member'')"
  using pg_member_cases[OF assms, of w u] by (auto simp: ap_workspace_member_def pg_access_def)

lemma pg_guest_channel:
  assumes "no_faults d"
  shows "has_channel_access (Some (pg_list_active_grants d)) now w c u = Ok (guest_row d now w c u)"
  using assms by (auto simp: no_faults_def has_channel_access_def active_grants_def pg_list_active_grants_def
      query_rows_def any_grant_allows_iff allows_channel_iff guest_row_def)

lemma authorize_grants_pg:
  assumes "no_faults d"
  shows "authorize_grants (pg_collab d now) u False gs = Ok \<lparr>cd_managed = True, cd_allowed =
     (\<exists>g \<in> set gs. (u = cg_user g \<or> u = cg_source_user g) \<and>
        can_share_channel (pg_get_member d) (pg_get_connection d) now (cg_workspace g) (cg_remote_workspace g)
          (cg_source_user g) (cg_user g) = None)\<rparr>"
proof (induction gs)
  case (Cons g gs)
  let ?share = "can_share_channel (pg_get_member d) (pg_get_connection d) now (cg_workspace g)
      (cg_remote_workspace g) (cg_source_user g) (cg_user g)"
  show ?case
  proof (cases ?share)
    case (Some e)
    then have "app_code e = Some CodeForbidden" by (rule can_share_forbids)
    with Some Cons show ?thesis by (auto simp: pg_collab_def)
  qed (use Cons in \<open>auto simp: pg_collab_def\<close>)
qed simp

lemma pg_authorize_collaboration:
  assumes "no_faults d"
  shows "authorize_collaboration (pg_access d now) ch u = Ok (collab_row d now ch u)"
proof -
  let ?gs = "sort_key cg_created_at (filter (\<lambda>g. cg_channel g = ch) (db_channel_grants d))"
  have gs: "cl_grants (pg_collab d now) ch = Ok ?gs"
    using assms by (simp add: pg_collab_def pg_list_channel_grants_def no_faults_def)
  show ?thesis
  proof (cases "filter (\<lambda>g. cg_channel g = ch) (db_channel_grants d) = []")
    case True
    then have "?gs = []" by simp
    with True gs show ?thesis
      by (simp add: authorize_collaboration_def pg_access_def collab_authorize_def unmanaged_def
          collab_row_def filter_empty_conv)
  next
    case False
    then have "length ?gs \<noteq> 0" by simp
    with False gs show ?thesis
      by (auto simp: authorize_collaboration_def pg_access_def collab_authorize_def
          authorize_grants_pg[OF assms] collab_row_def filter_empty_conv)
  qed
qed

section \<open>Properties\<close>

text \<open>C1: on a database that answers, the layered checks of the access policy admit a user to a
  channel exactly when, and as the subject, the rows say: workspace members by channel type and
  channel membership, then guests by an unexpired grant, then direct-message collaborators by
  their channel membership and the collaboration policy. Every other request is an error.\<close>

theorem channel_access_refines_rows:
  assumes "no_faults d" "pg_get_channel d i = Ok ch"
  shows "(case access_channel (Some (pg_access d now)) i u cap of
            Ok dec \<Rightarrow> Some (dc_subject dec) | Err e \<Rightarrow> None) = channel_entry d now ch u cap"
proof -
  let ?c = "pg_access d now"
  have get: "ad_get_channel ?c i = Ok ch" using assms(2) by (simp add: pg_access_def)
  note member = pg_workspace_member_cases[OF assms(1), of "ch_workspace ch" u now]
  note row = pg_channel_member_cases[OF assms(1), of "ch_id ch" u]
  have cm: "ad_get_channel_member ?c = pg_get_channel_member d" by (simp add: pg_access_def)
  note collab = pg_authorize_collaboration[OF assms(1), of now "ch_id ch" u]
  have as_member: "(case decision_for_member ?c ch m u cap of Ok dec \<Rightarrow> Some (dc_subject dec) | Err e \<Rightarrow> None) =
      (if (ch_type ch = ChPublic \<and> (cap = CapabilityParticipate \<longrightarrow> in_channel_row d (ch_id ch) u)) \<or>
          (ch_type ch \<in> {ChPrivate, ChDM, ChGroupDM, ChMeeting} \<and> in_channel_row d (ch_id ch) u \<and>
           (is_dm ch \<longrightarrow> collab_row d now (ch_id ch) u)) then Some SubjectMember else None)" for m
    using row by (cases "in_channel_row d (ch_id ch) u"; cases "ch_type ch")
      (auto simp: decision_for_member_def cm collab is_dm_def)
  have as_collab: "(case decision_for_collaborator ?c ch u of Ok dec \<Rightarrow> Some (dc_subject dec) | Err e \<Rightarrow> None) =
      (if is_dm ch \<and> in_channel_row d (ch_id ch) u \<and> collab_row d now (ch_id ch) u
       then Some SubjectCollaborator else None)"
    using row by (cases "in_channel_row d (ch_id ch) u")
      (auto simp: decision_for_collaborator_def cm collab is_dm_def)
  have guest: "ad_guest_channel ?c = Some (has_channel_access (Some (pg_list_active_grants d)) now)"
    by (simp add: pg_access_def)
  show ?thesis
  proof (cases "is_member_row d (ch_workspace ch) u")
    case True
    with member get as_member show ?thesis
      by (auto simp: access_channel_def channel_entry_def)
  next
    case False
    with member get as_collab show ?thesis
      by (simp add: access_channel_def channel_entry_def guest pg_guest_channel[OF assms(1)])
  qed
qed

definition access_sample :: db where
  "access_sample = sample_db\<lparr>
     db_channels := [\<lparr>ch_id = 30, ch_workspace = 7, ch_name = ''ops'', ch_topic = [], ch_type = ChPrivate,
        ch_created_by = 3, ch_archived = False, ch_created_at = 0, ch_updated_at = 0\<rparr>],
     db_guest_grants := [\<lparr>gg_id = 40, gg_invite = 41, gg_workspace = 7, gg_user = 6, gg_channels = [],
        gg_expires_at = 500, gg_created_at = 0\<rparr>]\<rparr>"

text \<open>The sample is also the guest finding: a grant that lists no channel admits its user to a
  private channel of the workspace.\<close>

theorem channel_access_refines_rows_witness:
  "\<exists>ch. pg_get_channel access_sample 30 = Ok ch \<and> ch_type ch = ChPrivate \<and>
     (case access_channel (Some (pg_access access_sample 100)) 30 6 CapabilityParticipate of
        Ok dec \<Rightarrow> Some (dc_subject dec) | Err e \<Rightarrow> None) = Some SubjectGuest"
proof -
  obtain ch where ch: "pg_get_channel access_sample 30 = Ok ch" "ch_type ch = ChPrivate"
      "ch_archived ch = False" "ch_workspace ch = 7" "ch_id ch = 30"
    by (simp add: access_sample_def sample_db_def empty_db_def pg_get_channel_def query_row_def)
  have nf: "no_faults access_sample"
    by (simp add: no_faults_def access_sample_def sample_db_def empty_db_def)
  have "channel_entry access_sample 100 ch 6 CapabilityParticipate = Some SubjectGuest"
    using ch by (simp add: channel_entry_def is_member_row_def guest_row_def access_sample_def sample_db_def empty_db_def)
  with channel_access_refines_rows[OF nf ch(1), of 100 6 CapabilityParticipate] ch show ?thesis by auto
qed

text \<open>C25: listing by paging always returns, in one round: the repository clamps the requested 200
  rows to 100, so the loop's exit test holds at once and no more than 100 channels are ever
  listed; each is listed once, belongs to the workspace, and is one the user may enter.\<close>

theorem list_channels_one_clamped_page:
  assumes "cap = CapabilityParticipate \<longrightarrow> (\<exists>e. pg_get_member d w u = Err e)"
  shows "\<exists>r. list_channels (Some (pg_access d now)) w u cap = Some r \<and>
    (\<forall>cs. r = Ok cs \<longrightarrow> length cs \<le> 100 \<and> distinct (map ch_id cs) \<and>
       (\<forall>ch \<in> set cs. \<exists>dec. access_channel (Some (pg_access d now)) (ch_id ch) u cap = Ok dec \<and> dc_channel dec = ch))"
proof -
  let ?c = "pg_access d now"
  let ?p = "\<lparr>pp_cursor = uuid_nil, pp_limit = 200, pp_offset = 0\<rparr>"
  let ?r = "case pg_list_channels d w ?p of
            Err e \<Rightarrow> Err (internal_err ''failed to list workspace channels'' e)
          | Ok page \<Rightarrow> result_bind (check_page ?c u cap page []) (\<lambda>cs. Ok (dedupe_channels cs))"
  have "\<exists>e. (if cap = CapabilityParticipate then ap_workspace_member ?c w u else Err (forbidden ''not asked'')) = Err e"
    using assms by (auto simp: ap_workspace_member_def pg_access_def)
  moreover have "list_loop ?c w u cap uuid_nil [] = Some ?r"
    by (rule pg_pages.loop_one_page) (simp add: pg_access_def)
  ultimately have "list_channels (Some ?c) w u cap = Some ?r"
    by (auto simp: list_channels_def)
  moreover have "length cs \<le> 100 \<and> distinct (map ch_id cs) \<and>
       (\<forall>ch \<in> set cs. \<exists>dec. access_channel (Some ?c) (ch_id ch) u cap = Ok dec \<and> dc_channel dec = ch)"
    if r: "?r = Ok cs" for cs
  proof -
    from r obtain page acc where page: "pg_list_channels d w ?p = Ok page"
      and acc: "check_page ?c u cap page [] = Ok acc" and cs: "cs = dedupe_channels acc"
      by (auto simp: result_bind_Ok split: sum.splits)
    have "length cs \<le> 100"
      using dedupe_channels_props(4)[of acc] check_page_length[OF acc] pg_pages.page_at_most_100[OF page] cs by simp
    moreover have "\<exists>dec. access_channel (Some ?c) (ch_id ch) u cap = Ok dec \<and> dc_channel dec = ch"
      if "ch \<in> set cs" for ch
    proof -
      from that cs dedupe_channels_props(3)[of acc] have "ch \<in> set acc" by auto
      then obtain i dec where dec: "access_channel (Some ?c) i u cap = Ok dec" "ch = dc_channel dec"
        using check_page_mem[OF acc] by auto
      then have "pg_get_channel d i = Ok ch"
        using access_channel_channel[OF dec(1)] by (simp add: pg_access_def)
      then have "ch_id ch = i" by (auto simp: pg_get_channel_def dest!: query_row_member)
      with dec show ?thesis by auto
    qed
    ultimately show ?thesis using dedupe_channels_props(1)[of acc] cs by simp
  qed
  ultimately show ?thesis by blast
qed

theorem list_channels_one_clamped_page_witness:
  "\<exists>r. list_channels (Some (pg_access access_sample 100)) 7 6 CapabilityView = Some r \<and>
    (\<forall>cs. r = Ok cs \<longrightarrow> length cs \<le> 100)"
  using list_channels_one_clamped_page[of CapabilityView access_sample 7 6 100] by auto

end
