(* ===== verification/Reliability.thy ===== *)
theory Reliability
  imports Cerrors
begin

text \<open>
  Package \<open>internal/platform/reliability\<close>: the retry policy (policy.go), the pressure signals
  (pressure.go) and the restart back-off of \<open>Supervise\<close>. An attempt is a run of the caller's
  function, numbered from 1; what the context answers after attempt \<open>n\<close> and during the wait that
  follows it are parameters, so that a cancelled caller is covered. Durations are int64.
\<close>

record policy =
  p_timeout :: duration
  p_max_attempts :: int
  p_retry_backoff :: duration
  p_max_backoff :: duration

definition policy_normalized :: "policy \<Rightarrow> policy" where
  "policy_normalized p0 =
     (let p1 = (if p_timeout p0 \<le> 0 then p0\<lparr>p_timeout := 5 * second\<rparr> else p0);
          p2 = (if p_max_attempts p1 \<le> 0 then p1\<lparr>p_max_attempts := 1\<rparr> else p1);
          p3 = (if p_retry_backoff p2 \<le> 0 then p2\<lparr>p_retry_backoff := 200 * millisecond\<rparr> else p2)
      in if p_max_backoff p3 \<le> 0 then p3\<lparr>p_max_backoff := 5 * second\<rparr> else p3)"

section \<open>ShouldRetry\<close>

definition retryable_pg_codes :: "string list" where
  "retryable_pg_codes = [''40001'', ''40P01'', ''55P03'', ''53300'', ''57P03'']"

definition retry_by_message :: "error \<Rightarrow> bool" where
  "retry_by_message err =
     (let msg = to_lower (error_text err) in
      if contains ''timeout'' msg then True
      else contains ''connection reset'' msg \<or> contains ''broken pipe'' msg \<or>
           contains ''too many clients'' msg \<or> contains ''pool timeout'' msg \<or>
           contains ''readonly'' msg \<or> contains ''tryagain'' msg \<or> contains ''loading'' msg)"

definition should_retry :: "error option \<Rightarrow> bool" where
  "should_retry oerr =
     (case oerr of None \<Rightarrow> False
      | Some err \<Rightarrow>
          if err_is RedisNil err \<or> err_is Canceled err then False
          else if err_is DeadlineExceeded err then True
          else if as_net_timeout err = Some True then True
          else (case as_pg_code err of
                  Some c \<Rightarrow> if c \<in> set retryable_pg_codes then True else retry_by_message err
                | None \<Rightarrow> retry_by_message err))"

section \<open>Back-off\<close>

text \<open>The loop \<open>for i := 1; i < attempt; i++\<close>, with the iterations left as the recursion.\<close>

fun backoff_loop :: "nat \<Rightarrow> duration \<Rightarrow> duration \<Rightarrow> duration" where
  "backoff_loop 0 delay cap = delay"
| "backoff_loop (Suc n) delay cap =
     (let delay' = wrap64 (delay * 2)
      in if delay' \<ge> cap then cap else backoff_loop n delay' cap)"

definition backoff_for_attempt :: "policy \<Rightarrow> int \<Rightarrow> duration" where
  "backoff_for_attempt p attempt = backoff_loop (nat (attempt - 1)) (p_retry_backoff p) (p_max_backoff p)"

section \<open>Do and DoValue\<close>

text \<open>
  \<open>sleep\<close> models \<open>Sleep(ctx, delay)\<close>: nothing to wait for when the delay is not positive,
  otherwise the context's error if it is done before the timer fires.
\<close>

definition sleep :: "(duration \<Rightarrow> error option) \<Rightarrow> duration \<Rightarrow> error option" where
  "sleep ctx_done_within delay = (if delay \<le> 0 then None else ctx_done_within delay)"

record 'a retry_run =
  rr_result :: "'a result"
  rr_calls :: nat
  rr_delays :: "duration list"

text \<open>
  The loop of \<open>DoValue\<close> from attempt \<open>n\<close>, with \<open>left\<close> the attempts still allowed by
  \<open>MaxAttempts\<close>. \<open>fn n\<close> is the outcome of the \<open>n\<close>-th call, \<open>ctx_err n\<close> is \<open>ctx.Err()\<close> after
  it, \<open>ctx_done n\<close> the answer of the wait after it. The run records the calls and the waits.
\<close>

fun do_loop ::
  "policy \<Rightarrow> (nat \<Rightarrow> 'a result) \<Rightarrow> (nat \<Rightarrow> error option) \<Rightarrow> (nat \<Rightarrow> duration \<Rightarrow> error option)
   \<Rightarrow> nat \<Rightarrow> nat \<Rightarrow> duration list \<Rightarrow> error \<Rightarrow> 'a retry_run" where
  "do_loop p fn ctx_err ctx_done n 0 ds last_err = \<lparr>rr_result = Err last_err, rr_calls = n - 1, rr_delays = ds\<rparr>"
| "do_loop p fn ctx_err ctx_done n (Suc left) ds last_err =
     (case fn n of
        Ok v \<Rightarrow> \<lparr>rr_result = Ok v, rr_calls = n, rr_delays = ds\<rparr>
      | Err err \<Rightarrow>
          if \<not> should_retry (Some err) \<or> left = 0 \<or> ctx_err n \<noteq> None
          then \<lparr>rr_result = Err err, rr_calls = n, rr_delays = ds\<rparr>
          else (let delay = backoff_for_attempt p (int n) in
                case sleep (ctx_done n) delay of
                  Some se \<Rightarrow> \<lparr>rr_result = Err (Joined err se), rr_calls = n, rr_delays = ds @ [delay]\<rparr>
                | None \<Rightarrow> do_loop p fn ctx_err ctx_done (Suc n) left (ds @ [delay]) err))"

definition do_value ::
  "policy \<Rightarrow> (nat \<Rightarrow> 'a result) \<Rightarrow> (nat \<Rightarrow> error option) \<Rightarrow> (nat \<Rightarrow> duration \<Rightarrow> error option)
   \<Rightarrow> 'a retry_run" where
  "do_value p0 fn ctx_err ctx_done =
     (let p = policy_normalized p0
      in do_loop p fn ctx_err ctx_done 1 (nat (p_max_attempts p)) [] (PlainError []))"

text \<open>
  The same loop for a call that changes state: the state is threaded through the attempts, and the
  context answers from the state the attempt left. \<open>do_state\<close> is \<open>DoValue\<close>; \<open>do_effect\<close>
  is \<open>Do\<close>, whose function only returns an error.
\<close>

fun do_state_loop ::
  "policy \<Rightarrow> ('s \<Rightarrow> 's \<times> 'a result) \<Rightarrow> ('s \<Rightarrow> error option) \<Rightarrow> ('s \<Rightarrow> duration \<Rightarrow> error option)
   \<Rightarrow> nat \<Rightarrow> nat \<Rightarrow> error \<Rightarrow> 's \<Rightarrow> 's \<times> 'a result" where
  "do_state_loop p fn ctx_err ctx_done n 0 last_err s = (s, Err last_err)"
| "do_state_loop p fn ctx_err ctx_done n (Suc left) last_err s =
     (case fn s of
        (s', Ok v) \<Rightarrow> (s', Ok v)
      | (s', Err err) \<Rightarrow>
          if \<not> should_retry (Some err) \<or> left = 0 \<or> ctx_err s' \<noteq> None then (s', Err err)
          else (case sleep (ctx_done s') (backoff_for_attempt p (int n)) of
                  Some se \<Rightarrow> (s', Err (Joined err se))
                | None \<Rightarrow> do_state_loop p fn ctx_err ctx_done (Suc n) left err s'))"

definition do_state ::
  "policy \<Rightarrow> ('s \<Rightarrow> 's \<times> 'a result) \<Rightarrow> ('s \<Rightarrow> error option) \<Rightarrow> ('s \<Rightarrow> duration \<Rightarrow> error option)
   \<Rightarrow> 's \<Rightarrow> 's \<times> 'a result" where
  "do_state p0 fn ctx_err ctx_done s =
     (let p = policy_normalized p0
      in do_state_loop p fn ctx_err ctx_done 1 (nat (p_max_attempts p)) (PlainError []) s)"

definition do_effect ::
  "policy \<Rightarrow> ('s \<Rightarrow> 's \<times> error option) \<Rightarrow> ('s \<Rightarrow> error option) \<Rightarrow> ('s \<Rightarrow> duration \<Rightarrow> error option)
   \<Rightarrow> 's \<Rightarrow> 's \<times> error option" where
  "do_effect p fn ctx_err ctx_done s =
     (case do_state p (\<lambda>s. case fn s of (s', None) \<Rightarrow> (s', Ok ()) | (s', Some e) \<Rightarrow> (s', Err e)) ctx_err ctx_done s of
        (s', Ok u) \<Rightarrow> (s', None)
      | (s', Err e) \<Rightarrow> (s', Some e))"

section \<open>Supervise and the pressure signals\<close>

fun supervise_loop :: "nat \<Rightarrow> duration \<Rightarrow> duration" where
  "supervise_loop 0 delay = delay"
| "supervise_loop (Suc n) delay =
     (if delay < 30 * second then supervise_loop n (wrap64 (delay * 2)) else delay)"

definition supervise_delay :: "int \<Rightarrow> duration" where
  "supervise_delay attempt =
     (let delay = supervise_loop (nat (attempt - 1)) second
      in if delay > 30 * second then 30 * second else delay)"

record pressure =
  pr_saturated :: bool
  pr_queued_waiters :: int

text \<open>
  \<open>PostgresPressure\<close> compares \<open>acquired / maxConns\<close> with 0.85 and \<open>RedisPressure\<close>
  \<open>TotalConns / poolSize\<close> with 0.9; the model compares the cross products, without the
  rounding of the float64 quotient.
\<close>

definition postgres_pressure :: "(int \<times> int \<times> int) option \<Rightarrow> pressure" where
  "postgres_pressure stat =
     (case stat of None \<Rightarrow> \<lparr>pr_saturated = False, pr_queued_waiters = 0\<rparr>
      | Some (max_conns, acquired, empty_acquires) \<Rightarrow>
          \<lparr>pr_saturated = (max_conns > 0 \<and> 100 * acquired \<ge> 85 * max_conns),
           pr_queued_waiters = empty_acquires\<rparr>)"

definition redis_pressure :: "(int \<times> int) option \<Rightarrow> int \<Rightarrow> pressure" where
  "redis_pressure stat pool_size =
     (case stat of None \<Rightarrow> \<lparr>pr_saturated = False, pr_queued_waiters = 0\<rparr>
      | Some (total_conns, timeouts) \<Rightarrow>
          \<lparr>pr_saturated = (timeouts > 0 \<or> (pool_size > 0 \<and> 10 * total_conns \<ge> 9 * pool_size)),
           pr_queued_waiters = timeouts\<rparr>)"

section \<open>Facts\<close>

lemma policy_normalized_pos:
  "0 < p_timeout (policy_normalized p)" "1 \<le> p_max_attempts (policy_normalized p)"
  "0 < p_retry_backoff (policy_normalized p)" "0 < p_max_backoff (policy_normalized p)"
  by (auto simp: policy_normalized_def Let_def)

lemma backoff_loop_min:
  assumes "0 < d" "d \<le> cap" "cap < 2 ^ 62"
  shows "backoff_loop n d cap = min cap (d * 2 ^ n)"
  using assms(1,2)
proof (induction n arbitrary: d)
  case (Suc n)
  have w: "wrap64 (d * 2) = d * 2" using Suc.prems assms(3) by simp
  show ?case
  proof (cases "d * 2 \<ge> cap")
    case True
    have "d * 2 \<le> d * 2 * 2 ^ n" using Suc.prems(1) by simp
    with True w show ?thesis by (simp add: min_def mult.assoc)
  next
    case False
    with Suc.IH[of "d * 2"] Suc.prems w show ?thesis by (simp add: mult.assoc)
  qed
qed simp

lemma supervise_loop_below:
  "supervise_loop n (2 ^ k * second) = 2 ^ min (k + n) (max k 5) * second"
proof (induction n arbitrary: k)
  case (Suc n)
  show ?case
  proof (cases "k < 5")
    case True
    then have "k \<in> {0, 1, 2, 3, 4}" by auto
    then have "(2::int) ^ k * second < 30 * second" by auto
    moreover have "wrap64 (2 ^ k * second * 2) = 2 ^ Suc k * second"
      using \<open>k \<in> {0, 1, 2, 3, 4}\<close> by auto
    ultimately show ?thesis using Suc[of "Suc k"] True by (simp add: max_def)
  next
    case False
    then have "(2::int) ^ 5 \<le> 2 ^ k" by (intro power_increasing) auto
    then have "\<not> (2::int) ^ k * second < 30 * second" by simp
    with False show ?thesis by (simp add: max_def min_def)
  qed
qed (simp add: max_def)

text \<open>One attempt either ends the loop or is followed by the next one.\<close>

lemma do_loop_cases:
  obtains (stop) res ds' where
      "do_loop p fn ce cd n (Suc k) ds le = \<lparr>rr_result = res, rr_calls = n, rr_delays = ds'\<rparr>"
      "fn n = res \<or> (\<exists>e se. fn n = Err e \<and> res = Err (Joined e se))"
  | (again) e where "fn n = Err e" "should_retry (Some e)" "ce n = None" "0 < k"
      "do_loop p fn ce cd n (Suc k) ds le =
         do_loop p fn ce cd (Suc n) k (ds @ [backoff_for_attempt p (int n)]) e"
proof (cases "fn n")
  case (Inl e)
  show ?thesis
  proof (cases "\<not> should_retry (Some e) \<or> k = 0 \<or> ce n \<noteq> None")
    case True
    with Inl show ?thesis by (intro stop) auto
  next
    case False
    show ?thesis
    proof (cases "sleep (cd n) (backoff_for_attempt p (int n))")
      case None
      with Inl False show ?thesis by (intro again[of e]) (simp_all add: Let_def)
    next
      case (Some se)
      with Inl False show ?thesis by (intro stop) (auto simp: Let_def)
    qed
  qed
qed (rule stop, auto)

definition retry_outcome :: "(nat \<Rightarrow> 'a result) \<Rightarrow> 'a retry_run \<Rightarrow> bool" where
  "retry_outcome fn r \<longleftrightarrow>
     (case rr_result r of
        Ok v \<Rightarrow> fn (rr_calls r) = Ok v
      | Err e \<Rightarrow> (\<exists>e'. fn (rr_calls r) = Err e' \<and> (e = e' \<or> (\<exists>se. e = Joined e' se))))"

lemma do_loop_calls:
  assumes "0 < k"
  shows "n \<le> rr_calls (do_loop p fn ce cd n k ds le) \<and> rr_calls (do_loop p fn ce cd n k ds le) < n + k"
  using assms
proof (induction k arbitrary: n ds le)
  case (Suc k)
  show ?case
  proof (cases rule: do_loop_cases[of p fn ce cd n k ds le])
    case (again e)
    with Suc.IH[of "Suc n" "ds @ [backoff_for_attempt p (int n)]" e] show ?thesis by simp
  qed simp
qed simp

lemma do_loop_earlier:
  "n \<le> j \<Longrightarrow> j < rr_calls (do_loop p fn ce cd n k ds le) \<Longrightarrow>
     \<exists>e. fn j = Err e \<and> should_retry (Some e) \<and> ce j = None"
proof (induction k arbitrary: n ds le)
  case (Suc k)
  show ?case
  proof (cases rule: do_loop_cases[of p fn ce cd n k ds le])
    case (again e)
    with Suc.IH[of "Suc n" "ds @ [backoff_for_attempt p (int n)]" e] Suc.prems show ?thesis
      by (cases "j = n") simp_all
  qed (use Suc.prems in simp)
qed simp

lemma do_loop_result: "0 < k \<Longrightarrow> retry_outcome fn (do_loop p fn ce cd n k ds le)"
proof (induction k arbitrary: n ds le)
  case (Suc k)
  show ?case
  proof (cases rule: do_loop_cases[of p fn ce cd n k ds le])
    case (stop res ds')
    then show ?thesis by (cases res) (auto simp: retry_outcome_def)
  next
    case (again e)
    with Suc.IH show ?thesis by simp
  qed
qed simp

lemma do_loop_reaches:
  assumes "n \<le> m" "m < n + k" "fn m = Ok v"
    and "\<And>j. n \<le> j \<Longrightarrow> j < m \<Longrightarrow> \<exists>e. fn j = Err e \<and> should_retry (Some e) \<and> ce j = None
              \<and> sleep (cd j) (backoff_for_attempt p (int j)) = None"
  shows "rr_result (do_loop p fn ce cd n k ds le) = Ok v \<and> rr_calls (do_loop p fn ce cd n k ds le) = m"
  using assms
proof (induction k arbitrary: n ds le)
  case (Suc k)
  show ?case
  proof (cases "n = m")
    case False
    with Suc.prems obtain e where "fn n = Err e" "should_retry (Some e)" "ce n = None"
      "sleep (cd n) (backoff_for_attempt p (int n)) = None" using order_le_less by blast
    moreover have "k \<noteq> 0" using Suc.prems False by auto
    ultimately show ?thesis using Suc.IH[of "Suc n"] Suc.prems False by (simp add: Let_def)
  qed (use Suc.prems in simp)
qed simp

text \<open>What the failing calls preserve holds when the retried call gives up, and before the call that
  succeeds. A call that succeeds at once is made once.\<close>

lemma do_state_loop_outcome:
  assumes "do_state_loop p fn ce cd n k le s = (s', r)" "I s"
    and "\<And>s s' e. I s \<Longrightarrow> fn s = (s', Err e) \<Longrightarrow> I s'"
  shows "case r of Ok v \<Rightarrow> \<exists>t. I t \<and> fn t = (s', Ok v) | Err e \<Rightarrow> I s'"
  using assms(1,2)
proof (induction k arbitrary: n le s)
  case (Suc k)
  obtain t q where f: "fn s = (t, q)" by (cases "fn s") auto
  show ?case
  proof (cases q)
    case (Inl e)
    with f Suc.prems assms(3) have t: "I t" by blast
    show ?thesis
    proof (cases "do_state_loop p fn ce cd n (Suc k) le s = do_state_loop p fn ce cd (Suc n) k e t")
      case True
      with Suc t show ?thesis by metis
    next
      case False
      with Suc.prems f Inl have "s' = t \<and> isl r" by (auto split: if_splits option.splits)
      with t show ?thesis by (cases r) auto
    qed
  qed (use Suc.prems f in auto)
qed auto

lemma do_state_outcome:
  assumes "do_state p fn ce cd s = (s', r)" "I s" "\<And>s s' e. I s \<Longrightarrow> fn s = (s', Err e) \<Longrightarrow> I s'"
  shows "case r of Ok v \<Rightarrow> \<exists>t. I t \<and> fn t = (s', Ok v) | Err e \<Rightarrow> I s'"
  using assms(1) unfolding do_state_def Let_def by (rule do_state_loop_outcome[where I = I]) (fact assms(2,3))+

lemma do_state_first_Ok:
  assumes "fn s = (s', Ok v)" shows "do_state p fn ce cd s = (s', Ok v)"
proof -
  obtain k where "nat (p_max_attempts (policy_normalized p)) = Suc k"
    using policy_normalized_pos(2)[of p] by (cases "nat (p_max_attempts (policy_normalized p))") auto
  with assms show ?thesis by (simp add: do_state_def Let_def)
qed

lemma do_state_first_Err:
  assumes "fn s = (s', Err e)" "\<not> should_retry (Some e)" shows "do_state p fn ce cd s = (s', Err e)"
proof -
  obtain k where "nat (p_max_attempts (policy_normalized p)) = Suc k"
    using policy_normalized_pos(2)[of p] by (cases "nat (p_max_attempts (policy_normalized p))") auto
  with assms show ?thesis by (simp add: do_state_def Let_def)
qed

lemma do_effect_first_None: "fn s = (s', None) \<Longrightarrow> do_effect p fn ce cd s = (s', None)"
  by (simp add: do_effect_def do_state_first_Ok[where v = "()"])

lemma do_effect_outcome:
  assumes "do_effect p fn ce cd s = (s', r)" "I s" "\<And>s s' e. I s \<Longrightarrow> fn s = (s', Some e) \<Longrightarrow> I s'"
  shows "case r of None \<Rightarrow> \<exists>t. I t \<and> fn t = (s', None) | Some e \<Rightarrow> I s'"
proof -
  let ?f = "\<lambda>s. case fn s of (s', None) \<Rightarrow> (s', Ok ()) | (s', Some e) \<Rightarrow> (s', Err e)"
  obtain q where q: "do_state p ?f ce cd s = (s', q)" and r: "r = (case q of Ok u \<Rightarrow> None | Err e \<Rightarrow> Some e)"
    using assms(1) by (auto simp: do_effect_def split: prod.splits sum.splits)
  have "case q of Ok v \<Rightarrow> \<exists>t. I t \<and> ?f t = (s', Ok v) | Err e \<Rightarrow> I s'"
    by (rule do_state_outcome[where I = I, OF q assms(2)]) (auto dest: assms(3) split: prod.splits option.splits)
  moreover have "fn t = (s', None)" if "?f t = (s', Ok u)" for t u
    using that by (cases "fn t"; cases "snd (fn t)") auto
  ultimately show ?thesis using r by (cases q) auto
qed

section \<open>Properties\<close>

text \<open>Within int64 range, with a base delay that does not exceed the cap, the delay before retry
  \<open>k\<close> is the capped exponential: the base doubled \<open>k - 1\<close> times, or the cap.\<close>

lemma backoff_capped_exponential:
  assumes "0 < p_retry_backoff p" "p_retry_backoff p \<le> p_max_backoff p" "p_max_backoff p < 2 ^ 62"
  shows "backoff_for_attempt p k = min (p_max_backoff p) (p_retry_backoff p * 2 ^ nat (k - 1))"
  using backoff_loop_min[OF assms] by (simp add: backoff_for_attempt_def)

lemma backoff_capped_exponential_witness:
  "backoff_for_attempt \<lparr>p_timeout = second, p_max_attempts = 5, p_retry_backoff = second,
      p_max_backoff = 5 * second\<rparr> 3 = 4 * second"
  by (subst backoff_capped_exponential) simp_all

text \<open>The cap is not applied before the first doubling: a base delay above \<open>MaxBackoff\<close> is used as
  it is before the first retry, whatever the cap.\<close>

lemma backoff_first_uncapped:
  "backoff_for_attempt p 1 = p_retry_backoff p"
  by (simp add: backoff_for_attempt_def)

text \<open>A supervised worker restarts after 1, 2, 4, 8, 16 and from then on 30 seconds: for every
  restart count the delay is the doubled second capped at 30 seconds, and never overflows.\<close>

theorem supervise_delay_capped:
  "supervise_delay attempt = min (30 * second) (2 ^ nat (attempt - 1) * second)"
proof -
  let ?n = "nat (attempt - 1)"
  have l: "supervise_loop ?n second = 2 ^ min ?n 5 * second"
    using supervise_loop_below[of ?n 0] by simp
  show ?thesis
  proof (cases "?n < 5")
    case True
    then have "?n \<in> {0, 1, 2, 3, 4}" by auto
    then show ?thesis using l by (auto simp: supervise_delay_def Let_def)
  next
    case False
    then have "(2::int) ^ 5 \<le> 2 ^ ?n" by (intro power_increasing) auto
    with False l show ?thesis by (simp add: supervise_delay_def Let_def min_def)
  qed
qed

text \<open>A retried operation is called at least once and at most \<open>MaxAttempts\<close> times; every call but
  the last one failed with a retryable error under a live context; and the result is that of the
  last call, at most joined with the context's error.\<close>

lemma do_value_contract:
  "1 \<le> rr_calls (do_value p fn ce cd) \<and>
   int (rr_calls (do_value p fn ce cd)) \<le> p_max_attempts (policy_normalized p) \<and>
   (\<forall>j \<in> {1..<rr_calls (do_value p fn ce cd)}. \<exists>e. fn j = Err e \<and> should_retry (Some e) \<and> ce j = None) \<and>
   retry_outcome fn (do_value p fn ce cd)"
proof -
  let ?k = "nat (p_max_attempts (policy_normalized p))"
  have k: "0 < ?k" using policy_normalized_pos(2)[of p] by simp
  show ?thesis
    unfolding do_value_def Let_def
    using do_loop_calls[OF k, of 1 "policy_normalized p" fn ce cd "[]" "PlainError []"]
      do_loop_result[OF k, of fn "policy_normalized p" ce cd 1 "[]" "PlainError []"]
      do_loop_earlier[of 1 _ "policy_normalized p" fn ce cd ?k "[]" "PlainError []"]
    by auto
qed

definition flaky :: "nat \<Rightarrow> nat result" where
  "flaky n = (if n = 3 then Ok 42 else Err (Wrapped ''query'' (PgError ''40001'' ''serialization failure'')))"

definition retry_policy :: policy where
  "retry_policy = \<lparr>p_timeout = second, p_max_attempts = 5, p_retry_backoff = second, p_max_backoff = 5 * second\<rparr>"

lemma do_value_contract_witness:
  "\<exists>e. flaky 1 = Err e \<and> should_retry (Some e) \<and> rr_calls (do_value retry_policy flaky (\<lambda>_. None) (\<lambda>_ _. None)) = 3"
proof -
  have c: "rr_calls (do_value retry_policy flaky (\<lambda>_. None) (\<lambda>_ _. None)) = 3" by code_simp
  have "\<forall>j \<in> {1..<rr_calls (do_value retry_policy flaky (\<lambda>_. None) (\<lambda>_ _. None))}.
      \<exists>e. flaky j = Err e \<and> should_retry (Some e) \<and> (None :: error option) = None"
    using do_value_contract[of retry_policy flaky "\<lambda>_. None" "\<lambda>_ _. None"] by blast
  then have "\<exists>e. flaky 1 = Err e \<and> should_retry (Some e)" by (simp add: c)
  with c show ?thesis by blast
qed

text \<open>Retries are not wasted: if the first success would be call \<open>k\<close> within the allowed attempts,
  the earlier failures are retryable and the context survives the waits, the result is that
  success, after exactly \<open>k\<close> calls.\<close>

lemma do_value_reaches_success:
  assumes "1 \<le> k" "int k \<le> p_max_attempts (policy_normalized p)" "fn k = Ok v"
    and "\<And>j. 1 \<le> j \<Longrightarrow> j < k \<Longrightarrow> \<exists>e. fn j = Err e \<and> should_retry (Some e) \<and> ce j = None
              \<and> sleep (cd j) (backoff_for_attempt (policy_normalized p) (int j)) = None"
  shows "rr_result (do_value p fn ce cd) = Ok v \<and> rr_calls (do_value p fn ce cd) = k"
  unfolding do_value_def Let_def using assms
  by (intro do_loop_reaches) auto

lemma do_value_reaches_success_witness:
  "rr_result (do_value retry_policy flaky (\<lambda>_. None) (\<lambda>_ _. None)) = Ok 42"
proof -
  have "\<exists>e. flaky j = Err e \<and> should_retry (Some e)" if "j < 3" for j
    using that by (simp add: flaky_def) code_simp
  then have "rr_result (do_value retry_policy flaky (\<lambda>_. None) (\<lambda>_ _. None)) = Ok 42 \<and>
      rr_calls (do_value retry_policy flaky (\<lambda>_. None) (\<lambda>_ _. None)) = 3"
    by (intro do_value_reaches_success)
       (auto simp: flaky_def sleep_def retry_policy_def policy_normalized_def Let_def)
  then show ?thesis by blast
qed

text \<open>A cancelled request is never retried, whatever else its error carries.\<close>

theorem cancelled_never_retried:
  "\<not> (err_is Canceled e \<and> should_retry (Some e))"
  by (simp add: should_retry_def)

end
