(* ===== verification/Events.thy ===== *)
theory Events
  imports Reliability Entities
begin

text \<open>
  The event envelope of \<open>internal/domain/event/events.go\<close>. The payload is the JSON text it is
  carried as. A marshalled event is the event it encodes: \<open>wire\<close> says whether bytes parse.
  \<open>json.Marshal\<close> refuses a timestamp outside the years 0 to 9999, the only failure an envelope
  whose payload came from JSON can meet; \<open>json.Unmarshal\<close> into a filled struct keeps the field
  of every key that \<open>omitempty\<close> left out.
\<close>

datatype delivery = DeliveryEphemeral | DeliveryBestEffort | DeliveryAtLeastOnce | DeliveryOther string

datatype event_type =
    TypeMessageCreated | TypeMessageUpdated | TypeMessageDeleted | TypeReactionAdded | TypeReactionRemoved
  | TypeMessagePinned | TypeMessageUnpinned | TypeTypingStarted | TypeChannelCreated | TypeChannelUpdated
  | TypeMemberJoined | TypeMemberLeft | TypePresenceChanged | TypeCallStarted | TypeCallUpdated
  | TypeCallEnded | TypeCallParticipantJoined | TypeCallParticipantLeft | TypeCallParticipantUpdated
  | TypeCallQualityAdapted | TypeWaitingRoomJoined | TypeWaitingRoomAdmitted | TypeWaitingRoomRejected
  | TypeBreakoutRoomCreated | TypeBreakoutRoomClosed | TypeBreakoutRoomsAllClosed
  | TypeBreakoutParticipantMoved | TypeBreakoutBroadcast | TypeSignalOffer | TypeSignalAnswer
  | TypeSignalCandidate | TypeOther string

record event =
  ev_id :: uuid
  ev_version :: int
  ev_sequence :: int
  ev_type :: event_type
  ev_subject :: string
  ev_workspace :: uuid
  ev_channel :: uuid
  ev_user :: uuid
  ev_delivery :: delivery
  ev_replayable :: bool
  ev_timestamp :: instant
  ev_payload :: string

record queued_event =
  qe_event :: event
  qe_body :: event
  qe_attempts :: int
  qe_max_attempts :: int

record event_definition =
  df_version :: int
  df_delivery :: delivery
  df_replayable :: bool

definition current_version :: int where "current_version = 1"

definition definition_for_type :: "event_type \<Rightarrow> event_definition" where
  "definition_for_type t =
     (if t \<in> set [TypeTypingStarted, TypeSignalOffer, TypeSignalAnswer, TypeSignalCandidate]
      then \<lparr>df_version = current_version, df_delivery = DeliveryEphemeral, df_replayable = False\<rparr>
      else if t \<in> set [TypePresenceChanged, TypeCallQualityAdapted]
      then \<lparr>df_version = current_version, df_delivery = DeliveryBestEffort, df_replayable = False\<rparr>
      else \<lparr>df_version = current_version, df_delivery = DeliveryAtLeastOnce, df_replayable = True\<rparr>)"

section \<open>JSON\<close>

datatype wire = Malformed string | Encoded event

definition year_in_range :: "instant \<Rightarrow> bool" where
  "year_in_range t \<longleftrightarrow> - 31622400 * second \<le> t \<and> t < 315537897600 * second"

definition json_marshal :: "event \<Rightarrow> event result" where
  "json_marshal evt =
     (if year_in_range (ev_timestamp evt) then Ok evt
      else Err (PlainError ''json: error calling MarshalJSON for type time.Time: year outside of range [0,9999]''))"

definition json_unmarshal_onto :: "event \<Rightarrow> event \<Rightarrow> event" where
  "json_unmarshal_onto target body =
     body\<lparr>ev_sequence := (if ev_sequence body = 0 then ev_sequence target else ev_sequence body),
          ev_subject := (if ev_subject body = [] then ev_subject target else ev_subject body),
          ev_delivery := (if ev_delivery body = DeliveryOther [] then ev_delivery target else ev_delivery body)\<rparr>"

section \<open>Prepare\<close>

text \<open>\<open>new_id\<close> is what \<open>id.New()\<close> would return, \<open>now\<close> what \<open>time.Now().UTC()\<close> would.\<close>

definition stamp :: "uuid \<Rightarrow> instant \<Rightarrow> string \<Rightarrow> event \<Rightarrow> event" where
  "stamp new_id now subject evt =
     (let df = definition_for_type (ev_type evt) in
      evt\<lparr>ev_id := (if ev_id evt = uuid_nil then new_id else ev_id evt),
          ev_version := df_version df, ev_subject := subject, ev_delivery := df_delivery df,
          ev_replayable := df_replayable df,
          ev_timestamp := (if ev_timestamp evt = 0 then now else ev_timestamp evt)\<rparr>)"

definition prepare :: "uuid \<Rightarrow> instant \<Rightarrow> string \<Rightarrow> event \<Rightarrow> (event \<times> event \<times> bool) result" where
  "prepare new_id now subject evt0 =
     (let evt = stamp new_id now subject evt0
      in case json_marshal evt of
           Err e \<Rightarrow> Err e
         | Ok body \<Rightarrow> Ok (evt, body, ev_delivery evt = DeliveryAtLeastOnce))"

lemma stamp_simps [simp]:
  "ev_id (stamp i now s e) = (if ev_id e = 0 then i else ev_id e)"
  "ev_version (stamp i now s e) = df_version (definition_for_type (ev_type e))"
  "ev_sequence (stamp i now s e) = ev_sequence e"
  "ev_type (stamp i now s e) = ev_type e"
  "ev_subject (stamp i now s e) = s"
  "ev_delivery (stamp i now s e) = df_delivery (definition_for_type (ev_type e))"
  "ev_replayable (stamp i now s e) = df_replayable (definition_for_type (ev_type e))"
  "ev_timestamp (stamp i now s e) = (if ev_timestamp e = 0 then now else ev_timestamp e)"
  "ev_payload (stamp i now s e) = ev_payload e"
  by (simp_all add: stamp_def Let_def)

lemma prepare_Ok:
  "prepare i now s e = Ok (evt, body, durable) \<longleftrightarrow>
     evt = stamp i now s e \<and> body = stamp i now s e \<and> year_in_range (ev_timestamp (stamp i now s e)) \<and>
     durable = (df_delivery (definition_for_type (ev_type e)) = DeliveryAtLeastOnce)"
  by (auto simp: prepare_def Let_def json_marshal_def)

lemma stamp_stamp:
  "i \<noteq> 0 \<Longrightarrow> now \<noteq> 0 \<Longrightarrow> stamp j later s (stamp i now s e) = stamp i now s e"
  by (simp add: stamp_def Let_def)

text \<open>Only replayable types are durable.\<close>

lemma durable_iff_replayable:
  "df_delivery (definition_for_type t) = DeliveryAtLeastOnce \<longleftrightarrow> df_replayable (definition_for_type t)"
  by (simp add: definition_for_type_def)

section \<open>Properties\<close>

text \<open>Preparing an event twice changes nothing: an envelope that went out is republished with the
  same identifier, timestamp, classification and body.\<close>

theorem prepare_idempotent:
  assumes "prepare i now subject evt0 = Ok (evt, body, durable)" "i \<noteq> uuid_nil" "now \<noteq> 0"
  shows "prepare j later subject body = Ok (evt, body, durable)"
  using assms by (simp add: prepare_Ok stamp_stamp)

definition sample_event :: event where
  "sample_event = \<lparr>ev_id = 0, ev_version = 0, ev_sequence = 0, ev_type = TypeMessageCreated, ev_subject = [],
     ev_workspace = 7, ev_channel = 30, ev_user = 3, ev_delivery = DeliveryOther [], ev_replayable = False,
     ev_timestamp = 0, ev_payload = ''{}''\<rparr>"

theorem prepare_idempotent_witness:
  "\<exists>evt body. prepare 11 5 ''aloqa.chat.30'' sample_event = Ok (evt, body, True) \<and>
     prepare 12 6 ''aloqa.chat.30'' body = Ok (evt, body, True)"
proof -
  obtain evt body where p: "prepare 11 5 ''aloqa.chat.30'' sample_event = Ok (evt, body, True)"
    by (simp add: prepare_Ok sample_event_def definition_for_type_def year_in_range_def)
  from prepare_idempotent[OF p, of 12 6] p show ?thesis by auto
qed

end
