(* ===== verification/Outbox.thy ===== *)
theory Outbox
  imports Events
begin

text \<open>
  The transactional outbox: the store of \<open>internal/repository/postgres/realtime.go\<close> and the service
  of \<open>internal/service/realtime/service.go\<close> that publishes from it. The store's state is the table
  \<open>realtime_events\<close>, the consumer cursors, the database clock, and the outcomes of the statements
  still to come: each statement may fail with a driver error and takes some time. The service is
  written over the \<open>Store\<close> interface, as in the code; the transport is a parameter, and the
  messages it accepted are recorded.
\<close>

section \<open>The table\<close>

datatype event_status = StPending | StProcessing | StPublished | StFailed | StDead

record outbox_row =
  or_id :: uuid
  or_seq :: int
  or_columns :: event
  or_body :: event
  or_attempts :: int
  or_max_attempts :: int
  or_status :: event_status
  or_available_at :: instant
  or_locked_at :: "instant option"
  or_published_at :: "instant option"
  or_last_error :: string

record consumer_cursor =
  cc_stream :: string
  cc_last_event :: "uuid option"
  cc_last_sequence :: int
  cc_deliveries :: int
  cc_failures :: int
  cc_lag :: int
  cc_status :: string
  cc_last_error :: string
  cc_updated_at :: instant

record outbox =
  ob_rows :: "outbox_row list"
  ob_next_seq :: int
  ob_cursors :: "(string, consumer_cursor) gomap"
  ob_now :: instant
  ob_steps :: "(error option \<times> nat) list"

text \<open>Running a statement: time passes, then it fails or goes through.\<close>

definition next_statement :: "outbox \<Rightarrow> outbox \<times> error option" where
  "next_statement b =
     (case ob_steps b of
        [] \<Rightarrow> (b, None)
      | (fault, dt) # rest \<Rightarrow> (b\<lparr>ob_steps := rest, ob_now := ob_now b + int dt\<rparr>, fault))"

definition exec_update ::
  "string \<Rightarrow> (outbox \<Rightarrow> outbox) \<Rightarrow> outbox \<Rightarrow> outbox \<times> error option" where
  "exec_update wrap_msg upd b =
     (case next_statement b of
        (b', Some e) \<Rightarrow> (b', Some (Wrapped wrap_msg e))
      | (b', None) \<Rightarrow> (upd b', None))"

definition rows_where :: "(outbox_row \<Rightarrow> bool) \<Rightarrow> (outbox_row \<Rightarrow> outbox_row) \<Rightarrow> outbox \<Rightarrow> outbox" where
  "rows_where P f b = b\<lparr>ob_rows := map (\<lambda>r. if P r then f r else r) (ob_rows b)\<rparr>"

definition new_row :: "int \<Rightarrow> event \<Rightarrow> event \<Rightarrow> int \<Rightarrow> outbox_row" where
  "new_row seq evt body max_attempts =
     \<lparr>or_id = ev_id evt, or_seq = seq, or_columns = evt\<lparr>ev_sequence := seq, ev_payload := []\<rparr>, or_body = body,
      or_attempts = 0, or_max_attempts = (if max_attempts \<le> 0 then 8 else max_attempts),
      or_status = StPending, or_available_at = ev_timestamp evt, or_locked_at = None,
      or_published_at = None, or_last_error = []\<rparr>"

definition enqueue :: "event \<Rightarrow> event \<Rightarrow> int \<Rightarrow> outbox \<Rightarrow> outbox \<times> error option" where
  "enqueue evt body max_attempts b =
     (case next_statement b of
        (b', Some e) \<Rightarrow> (b', Some (Wrapped ''postgres: enqueue realtime event'' e))
      | (b', None) \<Rightarrow>
          (let b1 = b'\<lparr>ob_next_seq := ob_next_seq b' + 1\<rparr> in
           if list_ex (\<lambda>r. or_id r = ev_id evt) (ob_rows b')
           then (b1, Some (Wrapped ''postgres: enqueue realtime event''
                   (PgError ''23505'' ''duplicate key value violates unique constraint'')))
           else (b1\<lparr>ob_rows := ob_rows b' @ [new_row (ob_next_seq b') evt body max_attempts]\<rparr>, None)))"

definition claimable :: "instant \<Rightarrow> outbox_row \<Rightarrow> bool" where
  "claimable now r \<longleftrightarrow> or_available_at r \<le> now \<and>
     (or_status r = StPending \<or> or_status r = StFailed \<or>
      or_status r = StProcessing \<and> (case or_locked_at r of None \<Rightarrow> False | Some l \<Rightarrow> l < now - 5 * minute))"

definition queued :: "outbox_row \<Rightarrow> queued_event" where
  "queued r = \<lparr>qe_event = json_unmarshal_onto (or_columns r) (or_body r), qe_body = or_body r,
     qe_attempts = or_attempts r + 1, qe_max_attempts = or_max_attempts r\<rparr>"

definition claim_row :: "instant \<Rightarrow> outbox_row \<Rightarrow> outbox_row" where
  "claim_row now r = r\<lparr>or_status := StProcessing, or_attempts := or_attempts r + 1, or_locked_at := Some now\<rparr>"

definition claimed_rows :: "int \<Rightarrow> instant \<Rightarrow> outbox \<Rightarrow> outbox_row list" where
  "claimed_rows batch now b =
     take (nat (if batch \<le> 0 then 100 else batch)) (sort_key or_seq (filter (claimable now) (ob_rows b)))"

definition claim_pending :: "int \<Rightarrow> outbox \<Rightarrow> outbox \<times> queued_event list result" where
  "claim_pending batch b0 =
     (case next_statement b0 of
        (b1, Some e) \<Rightarrow> (b1, Err (Wrapped ''postgres: begin realtime event claim tx'' e))
      | (b1, None) \<Rightarrow>
      (case next_statement b1 of
        (b2, Some e) \<Rightarrow> (b2, Err (Wrapped ''postgres: query pending realtime events'' e))
      | (b2, None) \<Rightarrow>
          (let now = ob_now b1;
               rows = claimed_rows batch now b2;
               events = map queued rows;
               ids = map (\<lambda>q. ev_id (qe_event q)) events in
           if length ids = 0 then
             (case next_statement b2 of
                (b3, Some e) \<Rightarrow> (b3, Err (Wrapped ''postgres: commit realtime event claim tx'' e))
              | (b3, None) \<Rightarrow> (b3, Ok []))
           else
             (case next_statement b2 of
                (b3, Some e) \<Rightarrow> (b3, Err (Wrapped ''postgres: mark realtime events processing'' e))
              | (b3, None) \<Rightarrow>
              (case next_statement b3 of
                (b4, Some e) \<Rightarrow> (b4, Err (Wrapped ''postgres: commit realtime event claim tx'' e))
              | (b4, None) \<Rightarrow>
                  (rows_where (\<lambda>r. or_id r \<in> set ids)
                     (claim_row now) b4, Ok events))))))"

definition mark_published :: "uuid \<Rightarrow> outbox \<Rightarrow> outbox \<times> error option" where
  "mark_published i =
     exec_update ''postgres: mark realtime event published''
       (\<lambda>b. rows_where (\<lambda>r. or_id r = i)
          (\<lambda>r. r\<lparr>or_status := StPublished, or_published_at := Some (ob_now b), or_locked_at := None,
                 or_available_at := ob_now b, or_last_error := []\<rparr>) b)"

definition mark_failed :: "uuid \<Rightarrow> string \<Rightarrow> instant option \<Rightarrow> bool \<Rightarrow> outbox \<Rightarrow> outbox \<times> error option" where
  "mark_failed i last_error next_retry dead =
     (let status = (if dead then StDead else StFailed) in
      exec_update ''postgres: mark realtime event failed''
        (rows_where (\<lambda>r. or_id r = i)
          (\<lambda>r. r\<lparr>or_status := status, or_last_error := last_error,
                 or_available_at := (case next_retry of Some t \<Rightarrow> t | None \<Rightarrow> or_available_at r),
                 or_locked_at := None\<rparr>)))"

definition replay_subject :: "string \<Rightarrow> string" where
  "replay_subject room =
     (if has_prefix ''channel:'' room then ''aloqa.chat.'' @ trim_prefix ''channel:'' room else room)"

definition replay_room :: "string \<Rightarrow> int \<Rightarrow> int \<Rightarrow> outbox \<Rightarrow> outbox \<times> event list result" where
  "replay_room room0 after limit0 b =
     (let limit = (if limit0 \<le> 0 then 200 else limit0); room = trim_space room0 in
      if room = [] \<or> has_prefix ''aloqa.signal.'' room then (b, Ok [])
      else case next_statement b of
        (b', Some e) \<Rightarrow> (b', Err (Wrapped ''postgres: replay room events'' e))
      | (b', None) \<Rightarrow>
          (b', Ok (map or_body (take (nat limit) (sort_key or_seq
             (filter (\<lambda>r. or_status r = StPublished \<and> ev_replayable (or_columns r) \<and>
                          ev_subject (or_columns r) = replay_subject room \<and> or_seq r > after)
                (ob_rows b')))))))"

definition max_published :: "outbox_row list \<Rightarrow> int" where
  "max_published rows =
     (case map or_seq (filter (\<lambda>r. or_status r = StPublished) rows) of
        [] \<Rightarrow> 0 | s # ss \<Rightarrow> fold max ss s)"

definition update_consumer_cursor ::
  "string \<Rightarrow> string \<Rightarrow> event option \<Rightarrow> bool \<Rightarrow> string \<Rightarrow> string \<Rightarrow> outbox \<Rightarrow> outbox \<times> error option" where
  "update_consumer_cursor name stream oevt success status last_error =
     (let last_seq = (case oevt of Some evt \<Rightarrow> ev_sequence evt | None \<Rightarrow> 0);
          last_id = map_option ev_id oevt;
          deliveries = (if success then 1 else 0);
          failures = (if success then 0 else 1) in
      exec_update ''postgres: update event consumer cursor''
        (\<lambda>b. let top = max_published (ob_rows b) in
          b\<lparr>ob_cursors := AList.update name
              (case map_of (ob_cursors b) name of
                 None \<Rightarrow> \<lparr>cc_stream = stream, cc_last_event = last_id, cc_last_sequence = last_seq,
                          cc_deliveries = deliveries, cc_failures = failures, cc_lag = max (top - last_seq) 0,
                          cc_status = status, cc_last_error = last_error, cc_updated_at = ob_now b\<rparr>
               | Some c \<Rightarrow> \<lparr>cc_stream = stream,
                          cc_last_event = (case last_id of Some i \<Rightarrow> Some i | None \<Rightarrow> cc_last_event c),
                          cc_last_sequence = max (cc_last_sequence c) last_seq,
                          cc_deliveries = cc_deliveries c + deliveries, cc_failures = cc_failures c + failures,
                          cc_lag = max (top - max (cc_last_sequence c) last_seq) 0,
                          cc_status = status, cc_last_error = last_error, cc_updated_at = ob_now b\<rparr>)
              (ob_cursors b)\<rparr>))"

definition stuck :: "instant \<Rightarrow> duration \<Rightarrow> outbox_row \<Rightarrow> bool" where
  "stuck now after r \<longleftrightarrow> or_status r = StProcessing \<and>
     (case or_locked_at r of None \<Rightarrow> False | Some l \<Rightarrow> l < now - (after div second) * second)"

definition reset_stuck_jobs :: "duration \<Rightarrow> outbox \<Rightarrow> outbox \<times> int result" where
  "reset_stuck_jobs after0 b =
     (let after = (if after0 \<le> 0 then 5 * minute else after0) in
      case next_statement b of
        (b', Some e) \<Rightarrow> (b', Err (Wrapped ''postgres: reset stuck realtime jobs'' e))
      | (b', None) \<Rightarrow>
          (rows_where (stuck (ob_now b') after) (\<lambda>r. r\<lparr>or_status := StPending, or_locked_at := None\<rparr>) b',
           Ok (int (length (filter (stuck (ob_now b') after) (ob_rows b'))))))"

record queue_stats =
  qs_pending :: nat
  qs_processing :: nat
  qs_failed :: nat
  qs_dead :: nat
  qs_published :: nat

definition queue_stats_of :: "outbox \<Rightarrow> outbox \<times> queue_stats result" where
  "queue_stats_of b =
     (let count = (\<lambda>b st. length (filter (\<lambda>r. or_status r = st) (ob_rows b))) in
      case next_statement b of
        (b', Some e) \<Rightarrow> (b', Err (Wrapped ''postgres: realtime queue stats'' e))
      | (b', None) \<Rightarrow> (b', Ok \<lparr>qs_pending = count b' StPending, qs_processing = count b' StProcessing,
                               qs_failed = count b' StFailed, qs_dead = count b' StDead,
                               qs_published = count b' StPublished\<rparr>))"

section \<open>The invariant of the table\<close>

definition row_ok :: "int \<Rightarrow> outbox_row \<Rightarrow> bool" where
  "row_ok next_seq r \<longleftrightarrow>
     ev_id (or_body r) = or_id r \<and> ev_sequence (or_columns r) = or_seq r \<and>
     0 < or_seq r \<and> or_seq r < next_seq \<and> 0 \<le> or_attempts r \<and> 0 < or_max_attempts r \<and>
     (or_status r = StProcessing \<longleftrightarrow> or_locked_at r \<noteq> None) \<and>
     (or_status r = StPublished \<longrightarrow> or_published_at r \<noteq> None)"

definition outbox_ok :: "outbox \<Rightarrow> bool" where
  "outbox_ok b \<longleftrightarrow> distinct (map or_id (ob_rows b)) \<and> distinct (map or_seq (ob_rows b)) \<and>
     (\<forall>r \<in> set (ob_rows b). row_ok (ob_next_seq b) r) \<and> 0 < ob_next_seq b \<and> wf_map (ob_cursors b)"

definition reliable :: "outbox \<Rightarrow> bool" where
  "reliable b \<longleftrightarrow> (\<forall>(fault, dt) \<in> set (ob_steps b). fault = None)"

definition event_status_of :: "outbox \<Rightarrow> uuid \<Rightarrow> event_status option" where
  "event_status_of b i = map_option or_status (find (\<lambda>r. or_id r = i) (ob_rows b))"

lemma next_statement_cases:
  assumes "next_statement b = (b', f)"
  shows "ob_rows b' = ob_rows b" "ob_next_seq b' = ob_next_seq b" "ob_cursors b' = ob_cursors b"
    "ob_now b \<le> ob_now b'" "outbox_ok b' = outbox_ok b" "event_status_of b' = event_status_of b"
    "reliable b \<Longrightarrow> reliable b' \<and> f = None"
  using assms by (auto simp: next_statement_def outbox_ok_def event_status_of_def fun_eq_iff reliable_def
      split: list.splits)

lemma rows_where_sel [simp]:
  "ob_next_seq (rows_where P f b) = ob_next_seq b" "ob_cursors (rows_where P f b) = ob_cursors b"
  "ob_steps (rows_where P f b) = ob_steps b" "ob_now (rows_where P f b) = ob_now b"
  "reliable (rows_where P f b) = reliable b"
  by (simp_all add: rows_where_def reliable_def)

text \<open>An update of some rows that keeps identifiers and sequence numbers.\<close>

lemma rows_where_ok:
  assumes "outbox_ok b" "\<And>r. or_id (f r) = or_id r" "\<And>r. or_seq (f r) = or_seq r"
    and "\<And>r. row_ok (ob_next_seq b) r \<Longrightarrow> row_ok (ob_next_seq b) (f r)"
  shows "outbox_ok (rows_where P f b)"
proof -
  have "map or_id (ob_rows (rows_where P f b)) = map or_id (ob_rows b)"
    "map or_seq (ob_rows (rows_where P f b)) = map or_seq (ob_rows b)"
    using assms(2,3) by (simp_all add: rows_where_def)
  with assms(1,4) show ?thesis by (auto simp: outbox_ok_def) (auto simp: rows_where_def)
qed

lemma rows_where_status:
  assumes "\<And>r. or_id (f r) = or_id r" "\<And>r. P r \<longleftrightarrow> or_id r \<in> ids" "\<And>r. or_status (f r) = st"
  shows "event_status_of (rows_where P f b) i =
    (if i \<in> ids \<and> event_status_of b i \<noteq> None then Some st else event_status_of b i)"
proof -
  let ?g = "\<lambda>r. if P r then f r else r"
  have "find (\<lambda>r. or_id r = i) (map ?g (ob_rows b)) = map_option ?g (find (\<lambda>r. or_id r = i) (ob_rows b))"
    by (rule find_map_invariant) (simp add: assms(1))
  then show ?thesis
    by (cases "find (\<lambda>r. or_id r = i) (ob_rows b)")
       (auto simp: event_status_of_def rows_where_def assms dest: find_Some_mem)
qed

lemma mark_published_cases:
  assumes "mark_published i b = (b', q)"
  shows "outbox_ok b \<Longrightarrow> outbox_ok b'" "reliable b \<Longrightarrow> reliable b' \<and> q = None"
    "q = Some e \<Longrightarrow> event_status_of b' = event_status_of b"
    "q = None \<Longrightarrow> event_status_of b' j =
       (if j = i \<and> event_status_of b j \<noteq> None then Some StPublished else event_status_of b j)"
proof -
  obtain x f where x: "next_statement b = (x, f)" by fastforce
  note nx = next_statement_cases[OF x]
  let ?u = "rows_where (\<lambda>r. or_id r = i)
          (\<lambda>r. r\<lparr>or_status := StPublished, or_published_at := Some (ob_now x), or_locked_at := None,
                 or_available_at := ob_now x, or_last_error := []\<rparr>) x"
  have b': "b' = (if f = None then ?u else x)" "q = map_option (Wrapped ''postgres: mark realtime event published'') f"
    using assms x by (auto simp: mark_published_def exec_update_def split: option.splits)
  show "outbox_ok b'" if "outbox_ok b"
    using that nx(5) by (auto simp: b' row_ok_def intro!: rows_where_ok)
  show "reliable b' \<and> q = None" if "reliable b" using nx(7)[OF that] by (simp add: b')
  show "event_status_of b' = event_status_of b" if "q = Some e" using that nx(6) by (auto simp: b')
  show "event_status_of b' j = (if j = i \<and> event_status_of b j \<noteq> None then Some StPublished else event_status_of b j)"
    if "q = None" using that nx(6) by (auto simp: b' rows_where_status[where ids = "{i}" and st = StPublished])
qed

lemma mark_failed_cases:
  assumes "mark_failed i m t d b = (b', q)"
  shows "outbox_ok b \<Longrightarrow> outbox_ok b'" "reliable b \<Longrightarrow> reliable b' \<and> q = None"
    "q = Some e \<Longrightarrow> event_status_of b' = event_status_of b"
    "q = None \<Longrightarrow> event_status_of b' j =
       (if j = i \<and> event_status_of b j \<noteq> None then Some (if d then StDead else StFailed) else event_status_of b j)"
proof -
  obtain x f where x: "next_statement b = (x, f)" by fastforce
  note nx = next_statement_cases[OF x]
  let ?st = "if d then StDead else StFailed"
  let ?u = "rows_where (\<lambda>r. or_id r = i)
          (\<lambda>r. r\<lparr>or_status := ?st, or_last_error := m,
                 or_available_at := (case t of Some t \<Rightarrow> t | None \<Rightarrow> or_available_at r), or_locked_at := None\<rparr>) x"
  have b': "b' = (if f = None then ?u else x)" "q = map_option (Wrapped ''postgres: mark realtime event failed'') f"
    using assms x by (auto simp: mark_failed_def exec_update_def split: option.splits)
  show "outbox_ok b'" if "outbox_ok b"
    using that nx(5) by (auto simp: b' row_ok_def intro!: rows_where_ok)
  show "reliable b' \<and> q = None" if "reliable b" using nx(7)[OF that] by (simp add: b')
  show "event_status_of b' = event_status_of b" if "q = Some e" using that nx(6) by (auto simp: b')
  show "event_status_of b' j = (if j = i \<and> event_status_of b j \<noteq> None then Some ?st else event_status_of b j)"
    if "q = None" using that nx(6) by (auto simp: b' rows_where_status[where ids = "{i}" and st = ?st])
qed

lemma cursor_cases:
  assumes "update_consumer_cursor name stream oevt success st le b = (b', q)"
  shows "outbox_ok b \<Longrightarrow> outbox_ok b'" "reliable b \<Longrightarrow> reliable b'" "event_status_of b' = event_status_of b"
    "ob_rows b' = ob_rows b"
proof -
  obtain x f where x: "next_statement b = (x, f)" by fastforce
  note nx = next_statement_cases[OF x]
  from assms x obtain cs where b': "b' = x \<or> b' = x\<lparr>ob_cursors := cs\<rparr> \<and> (\<exists>c. cs = AList.update name c (ob_cursors x))"
    by (auto simp: update_consumer_cursor_def exec_update_def Let_def split: option.splits)
  show "outbox_ok b'" if "outbox_ok b" using b' that nx(5) by (auto simp: outbox_ok_def)
  show "reliable b'" if "reliable b" using b' nx(7)[OF that] by (auto simp: reliable_def)
  show "event_status_of b' = event_status_of b" "ob_rows b' = ob_rows b"
    using b' nx(1,6) by (auto simp: event_status_of_def fun_eq_iff)
qed

text \<open>A claim either leaves the table as it was, or takes the claimable rows of lowest sequence.\<close>

lemma claim_pending_cases:
  assumes "claim_pending n b = (b', r)"
  obtains (failed) e where "r = Err e" "ob_rows b' = ob_rows b" "outbox_ok b' = outbox_ok b"
      "event_status_of b' = event_status_of b" "\<not> reliable b"
  | (claimed) c now where "r = Ok (map queued (claimed_rows n now b))" "ob_now b \<le> now"
      "ob_rows c = ob_rows b" "outbox_ok c = outbox_ok b" "event_status_of c = event_status_of b"
      "ob_next_seq c = ob_next_seq b" "reliable b \<Longrightarrow> reliable c"
      "b' = rows_where (\<lambda>r. or_id r \<in> set (map (\<lambda>q. ev_id (qe_event q)) (map queued (claimed_rows n now b))))
              (claim_row now) c"
proof -
  obtain b1 f1 where s1: "next_statement b = (b1, f1)" by fastforce
  obtain b2 f2 where s2: "next_statement b1 = (b2, f2)" by fastforce
  obtain b3 f3 where s3: "next_statement b2 = (b3, f3)" by fastforce
  obtain b4 f4 where s4: "next_statement b3 = (b4, f4)" by fastforce
  note n1 = next_statement_cases[OF s1] and n2 = next_statement_cases[OF s2]
    and n3 = next_statement_cases[OF s3] and n4 = next_statement_cases[OF s4]
  have rows: "claimed_rows n (ob_now b1) b2 = claimed_rows n (ob_now b1) b"
    by (simp add: claimed_rows_def n1 n2)
  have now: "ob_now b \<le> ob_now b1" using n1(4) by simp
  note sim = s1 s2 s3 s4 claim_pending_def Let_def
  show thesis
  proof (cases "f1 = None \<and> f2 = None \<and> f3 = None \<and> (claimed_rows n (ob_now b1) b = [] \<or> f4 = None)")
    case True
    show thesis
    proof (cases "claimed_rows n (ob_now b1) b = []")
      case True': True
      with True assms have "b' = b3" "r = Ok []" by (simp_all add: sim rows)
      moreover have "rows_where (\<lambda>r. r \<in> {}) f b3 = b3" for f by (simp add: rows_where_def)
      ultimately show thesis using True' now n1 n2 n3
        by (intro claimed[of "ob_now b1" b3]) (auto simp: rows_where_def)
    next
      case False
      with True assms show thesis using now n1 n2 n3 n4
        by (intro claimed[of "ob_now b1" b4]) (auto simp: sim rows)
    qed
  next
    case False
    with assms obtain e where "r = Err e" "b' \<in> {b1, b2, b3, b4}"
      by (auto simp: sim rows split: if_splits option.splits)
    moreover have "\<not> reliable b" using False n1(7) n2(7) n3(7) n4(7) by auto
    ultimately show thesis using n1 n2 n3 n4 by (intro failed) auto
  qed
qed

lemma claim_job_ids:
  assumes "outbox_ok b"
  shows "map (\<lambda>q. ev_id (qe_event q)) (map queued (claimed_rows n now b)) = map or_id (claimed_rows n now b)"
    and "set (claimed_rows n now b) \<subseteq> set (filter (claimable now) (ob_rows b))"
    and "distinct (map or_id (claimed_rows n now b))"
proof -
  show sub: "set (claimed_rows n now b) \<subseteq> set (filter (claimable now) (ob_rows b))"
    by (auto simp: claimed_rows_def dest!: in_set_takeD)
  with assms show "map (\<lambda>q. ev_id (qe_event q)) (map queued (claimed_rows n now b)) = map or_id (claimed_rows n now b)"
    by (auto simp: queued_def json_unmarshal_onto_def outbox_ok_def row_ok_def)
  have "distinct (map or_id (sort_key or_seq (filter (claimable now) (ob_rows b))))"
    using assms by (auto simp: outbox_ok_def distinct_map inj_on_def)
  then show "distinct (map or_id (claimed_rows n now b))"
    unfolding claimed_rows_def by (metis distinct_take take_map)
qed

lemma event_status_row:
  assumes "outbox_ok b" "r \<in> set (ob_rows b)" shows "event_status_of b (or_id r) = Some (or_status r)"
proof -
  have "find (\<lambda>x. or_id x = or_id r) (ob_rows b) = Some r"
    using assms by (auto simp: outbox_ok_def intro: find_distinct_key)
  then show ?thesis by (simp add: event_status_of_def)
qed

lemma claim_pending_effect:
  assumes "claim_pending n b = (b', r)"
  shows "outbox_ok b \<Longrightarrow> outbox_ok b'" "reliable b \<Longrightarrow> reliable b' \<and> \<not> isl r"
    "r = Err e \<Longrightarrow> event_status_of b' = event_status_of b"
  using assms
proof (atomize (full), cases rule: claim_pending_cases)
  case (claimed c now)
  have "outbox_ok b'" if "outbox_ok b"
    unfolding claimed(8) using that claimed(4)
    by (intro rows_where_ok) (auto simp: claim_row_def row_ok_def)
  with claimed show "(outbox_ok b \<longrightarrow> outbox_ok b') \<and> (reliable b \<longrightarrow> reliable b' \<and> \<not> isl r) \<and>
     (r = Err e \<longrightarrow> event_status_of b' = event_status_of b)" by simp
qed auto

lemma claim_pending_jobs:
  assumes "claim_pending n b = (b', Ok jobs)" "outbox_ok b"
  shows "distinct (map (\<lambda>q. ev_id (qe_event q)) jobs)"
    and "q \<in> set jobs \<Longrightarrow> event_status_of b (ev_id (qe_event q)) \<in> {Some StPending, Some StFailed, Some StProcessing}"
    and "event_status_of b' i =
       (if i \<in> (\<lambda>q. ev_id (qe_event q)) ` set jobs then Some StProcessing else event_status_of b i)"
proof -
  let ?id = "\<lambda>q. ev_id (qe_event q)"
  from assms(1) obtain c now where jobs: "jobs = map queued (claimed_rows n now b)"
    and c: "event_status_of c = event_status_of b"
    and b': "b' = rows_where (\<lambda>r. or_id r \<in> set (map ?id (map queued (claimed_rows n now b)))) (claim_row now) c"
    by (cases rule: claim_pending_cases) auto
  note ids = claim_job_ids[OF assms(2), of n now]
  have idset: "?id ` set jobs = or_id ` set (claimed_rows n now b)"
    using arg_cong[OF ids(1), of set] by (simp add: jobs image_image)
  show "distinct (map ?id jobs)" using ids by (simp add: jobs del: map_map)
  have st: "\<exists>r. i = or_id r \<and> claimable now r \<and> event_status_of b i = Some (or_status r)"
    if "i \<in> ?id ` set jobs" for i
    using that ids(2) event_status_row[OF assms(2)] unfolding idset by auto
  show "event_status_of b (?id q) \<in> {Some StPending, Some StFailed, Some StProcessing}" if "q \<in> set jobs"
  proof -
    from st[of "?id q"] that obtain r where "claimable now r" "event_status_of b (?id q) = Some (or_status r)" by auto
    then show ?thesis by (auto simp: claimable_def)
  qed
  have "event_status_of b' i = (if i \<in> or_id ` set (claimed_rows n now b) \<and> event_status_of c i \<noteq> None
      then Some StProcessing else event_status_of c i)"
    unfolding b' by (rule rows_where_status) (use ids(1) in \<open>auto simp: claim_row_def simp del: map_map\<close>)
  with st show "event_status_of b' i = (if i \<in> ?id ` set jobs then Some StProcessing else event_status_of b i)"
    unfolding idset c by (cases "i \<in> or_id ` set (claimed_rows n now b)") auto
qed

lemma enqueue_cases:
  assumes "enqueue evt body m b = (b', q)"
  shows "outbox_ok b \<Longrightarrow> ev_id body = ev_id evt \<Longrightarrow> outbox_ok b'"
    and "q = None \<longleftrightarrow> (\<exists>dt rest. ob_steps b = [] \<or> ob_steps b = (None, dt) # rest) \<and> ev_id evt \<notin> or_id ` set (ob_rows b)"
    and "q = None \<Longrightarrow> \<exists>r. ob_rows b' = ob_rows b @ [r] \<and> or_id r = ev_id evt \<and> or_body r = body \<and>
           or_status r = StPending \<and> or_seq r = ob_next_seq b"
    and "q \<noteq> None \<Longrightarrow> ob_rows b' = ob_rows b"
proof -
  obtain x f where x: "next_statement b = (x, f)" by fastforce
  note nx = next_statement_cases[OF x]
  have dup: "list_ex (\<lambda>r. or_id r = ev_id evt) rows \<longleftrightarrow> ev_id evt \<in> or_id ` set rows" for rows
    by (metis (mono_tags, lifting) image_iff list_ex_iff)
  show "outbox_ok b'" if "outbox_ok b" "ev_id body = ev_id evt"
  proof -
    have ok: "outbox_ok x" using that(1) nx(5) by simp
    then have mono: "\<And>r. r \<in> set (ob_rows x) \<Longrightarrow> row_ok (ob_next_seq x + 1) r" "0 < ob_next_seq x"
      "ob_next_seq x \<notin> or_seq ` set (ob_rows x)"
      by (fastforce simp: outbox_ok_def row_ok_def)+
    have dist: "distinct (map or_id (ob_rows x))" "distinct (map or_seq (ob_rows x))" "wf_map (ob_cursors x)"
      using ok by (auto simp: outbox_ok_def)
    have new: "row_ok (ob_next_seq x + 1) (new_row (ob_next_seq x) evt body m)"
      using mono(2) that(2) by (simp add: row_ok_def new_row_def)
    have sel: "or_id (new_row k evt body m) = ev_id evt" "or_seq (new_row k evt body m) = k" for k
      by (simp_all add: new_row_def)
    show ?thesis
    proof (cases "f = None \<and> ev_id evt \<notin> or_id ` set (ob_rows x)")
      case True
      with assms x have "b' = x\<lparr>ob_next_seq := ob_next_seq x + 1,
          ob_rows := ob_rows x @ [new_row (ob_next_seq x) evt body m]\<rparr>"
        by (simp add: enqueue_def Let_def dup)
      with True mono dist new show ?thesis by (auto simp: outbox_ok_def sel)
    next
      case False
      with assms x have "b' = x \<or> b' = x\<lparr>ob_next_seq := ob_next_seq x + 1\<rparr>"
        by (auto simp: enqueue_def Let_def dup split: option.splits if_splits)
      with ok mono dist show ?thesis by (auto simp: outbox_ok_def)
    qed
  qed
  have fault: "f = None \<longleftrightarrow> (\<exists>dt rest. ob_steps b = [] \<or> ob_steps b = (None, dt) # rest)"
    using x by (auto simp: next_statement_def split: list.splits)
  show "q = None \<longleftrightarrow> (\<exists>dt rest. ob_steps b = [] \<or> ob_steps b = (None, dt) # rest) \<and> ev_id evt \<notin> or_id ` set (ob_rows b)"
    unfolding fault[symmetric] using assms x nx(1)
    by (auto simp: enqueue_def Let_def dup split: option.splits if_splits)
  show "\<exists>r. ob_rows b' = ob_rows b @ [r] \<and> or_id r = ev_id evt \<and> or_body r = body \<and>
           or_status r = StPending \<and> or_seq r = ob_next_seq b" if "q = None"
    using that assms x nx(1,2) by (auto simp: enqueue_def Let_def new_row_def split: option.splits if_splits)
  show "ob_rows b' = ob_rows b" if "q \<noteq> None"
    using that assms x nx(1) by (auto simp: enqueue_def Let_def new_row_def split: option.splits if_splits)
qed

lemma reset_stuck_ok: "outbox_ok b \<Longrightarrow> outbox_ok (fst (reset_stuck_jobs after b))"
proof -
  obtain x f where x: "next_statement b = (x, f)" by fastforce
  note nx = next_statement_cases[OF x]
  assume "outbox_ok b"
  with nx(5) have "outbox_ok x" by simp
  then show ?thesis
    by (auto simp: reset_stuck_jobs_def Let_def x row_ok_def split: option.splits intro!: rows_where_ok)
qed

end
