(* ===== verification/Relay.thy ===== *)
theory Relay
  imports Outbox
begin

text \<open>
  The realtime service of \<open>internal/service/realtime/service.go\<close>: publishing through the outbox or
  straight to the transport, and the worker that claims pending events, hands them to the
  transport and records the outcome. The service is written over the \<open>Store\<close> interface; the
  locale \<open>event_store\<close> is the contract it relies on, interpreted on the table of \<open>Outbox\<close>.
\<close>

section \<open>The Store interface and the service\<close>

record 's store_ops =
  so_enqueue :: "event \<Rightarrow> event \<Rightarrow> int \<Rightarrow> 's \<Rightarrow> 's \<times> error option"
  so_claim :: "int \<Rightarrow> 's \<Rightarrow> 's \<times> queued_event list result"
  so_mark_published :: "uuid \<Rightarrow> 's \<Rightarrow> 's \<times> error option"
  so_mark_failed :: "uuid \<Rightarrow> string \<Rightarrow> instant option \<Rightarrow> bool \<Rightarrow> 's \<Rightarrow> 's \<times> error option"
  so_replay :: "string \<Rightarrow> int \<Rightarrow> int \<Rightarrow> 's \<Rightarrow> 's \<times> event list result"
  so_cursor :: "string \<Rightarrow> string \<Rightarrow> event option \<Rightarrow> bool \<Rightarrow> string \<Rightarrow> string \<Rightarrow> 's \<Rightarrow> 's \<times> error option"
  so_reset :: "duration \<Rightarrow> 's \<Rightarrow> 's \<times> int result"

text \<open>A message for the transport: subject, bytes, message id (nil for none).\<close>

type_synonym message = "string \<times> wire \<times> uuid"

record relay_config =
  rc_batch :: int
  rc_max_attempts :: int
  rc_backoff :: duration
  rc_replay_limit :: int
  rc_consumer :: string
  rc_stream :: string
  rc_timeout :: duration

text \<open>The service and its surroundings: the optional store and transport, the clock, and what the
  context answers to \<open>ctx.Err()\<close> and during a wait. The transport sees the messages it already
  accepted, so any sequence of outcomes is covered.\<close>

record 's relay =
  rl_config :: relay_config
  rl_store :: "'s store_ops option"
  rl_transport :: "('s \<Rightarrow> message list \<Rightarrow> message \<Rightarrow> error option) option"
  rl_clock :: "'s \<Rightarrow> instant"
  rl_ctx_err :: "'s \<Rightarrow> error option"
  rl_ctx_done :: "'s \<Rightarrow> duration \<Rightarrow> error option"

definition new_config :: "relay_config \<Rightarrow> relay_config" where
  "new_config c =
     \<lparr>rc_batch = (if rc_batch c \<le> 0 then 100 else rc_batch c),
      rc_max_attempts = (if rc_max_attempts c \<le> 0 then 8 else rc_max_attempts c),
      rc_backoff = (if rc_backoff c \<le> 0 then 3 * second else rc_backoff c),
      rc_replay_limit = (if rc_replay_limit c \<le> 0 then 200 else rc_replay_limit c),
      rc_consumer = (if rc_consumer c = [] then ''realtime-outbox'' else rc_consumer c),
      rc_stream = (if rc_stream c = [] then ''realtime_events'' else rc_stream c),
      rc_timeout = (if rc_timeout c \<le> 0 then 5 * second else rc_timeout c)\<rparr>"

definition relay_policy :: "relay_config \<Rightarrow> int \<Rightarrow> policy" where
  "relay_policy c n = \<lparr>p_timeout = rc_timeout c, p_max_attempts = n, p_retry_backoff = rc_backoff c,
                       p_max_backoff = 5 * second\<rparr>"

fun retry_delay_loop :: "nat \<Rightarrow> duration \<Rightarrow> duration" where
  "retry_delay_loop 0 delay = delay"
| "retry_delay_loop (Suc n) delay =
     (let d = wrap64 (delay * 2) in if d > minute then minute else retry_delay_loop n d)"

definition next_retry_at :: "relay_config \<Rightarrow> instant \<Rightarrow> int \<Rightarrow> int \<Rightarrow> bool \<Rightarrow> instant option" where
  "next_retry_at c now attempts max_attempts dead =
     (if dead \<or> attempts \<ge> max_attempts then None
      else Some (now + retry_delay_loop (nat (attempts - 1)) (rc_backoff c)))"

definition failure_status :: "bool \<Rightarrow> string" where
  "failure_status dead = (if dead then ''failed'' else ''degraded'')"

section \<open>Publishing\<close>

text \<open>Handing a message to the transport; an accepted message is recorded.\<close>

definition send ::
  "('s \<Rightarrow> message list \<Rightarrow> message \<Rightarrow> error option) \<Rightarrow> message \<Rightarrow> 's \<times> message list \<Rightarrow> ('s \<times> message list) \<times> error option" where
  "send transport msg st =
     (case transport (fst st) (snd st) msg of
        Some e \<Rightarrow> (st, Some e)
      | None \<Rightarrow> ((fst st, snd st @ [msg]), None))"

definition normalize_event ::
  "uuid \<Rightarrow> instant \<Rightarrow> string \<Rightarrow> wire \<Rightarrow> (event \<times> event \<times> bool) result" where
  "normalize_event new_id now subject data =
     (case data of
        Malformed m \<Rightarrow> Err (PlainError ''invalid character looking for beginning of value'')
      | Encoded evt \<Rightarrow> prepare new_id now subject evt)"

definition publish ::
  "'s relay \<Rightarrow> uuid \<Rightarrow> string \<Rightarrow> wire \<Rightarrow> 's \<times> message list \<Rightarrow> ('s \<times> message list) \<times> error option" where
  "publish s new_id subject data st =
     (if rl_transport s = None \<and> rl_store s = None then (st, None)
      else case normalize_event new_id (rl_clock s (fst st)) subject data of
        Err e \<Rightarrow> (case rl_transport s of None \<Rightarrow> (st, Some e) | Some t \<Rightarrow> send t (subject, data, uuid_nil) st)
      | Ok (evt, body, durable) \<Rightarrow>
          if durable then
            (case rl_store s of
               None \<Rightarrow> (st, Some (PlainError ''realtime durable store is not configured''))
             | Some store \<Rightarrow>
                 (let (x, r) = so_enqueue store evt body (rc_max_attempts (rl_config s)) (fst st)
                  in ((x, snd st), r)))
          else (case rl_transport s of
                  None \<Rightarrow> (st, None)
                | Some t \<Rightarrow> send t (subject, Encoded body, ev_id evt) st))"

definition service_replay ::
  "'s relay \<Rightarrow> string \<Rightarrow> int \<Rightarrow> int \<Rightarrow> 's \<Rightarrow> 's \<times> event list result" where
  "service_replay s room after limit st =
     (case rl_store s of
        None \<Rightarrow> (st, Ok [])
      | Some store \<Rightarrow> so_replay store room after (if limit \<le> 0 then rc_replay_limit (rl_config s) else limit) st)"

section \<open>The worker\<close>

record tally =
  ty_processed :: nat
  ty_failed :: nat
  ty_dead :: nat

definition tally_zero :: tally where
  "tally_zero = \<lparr>ty_processed = 0, ty_failed = 0, ty_dead = 0\<rparr>"

text \<open>What happens to an event the transport refused, and to one it accepted.\<close>

definition on_publish_error ::
  "'s relay \<Rightarrow> 's store_ops \<Rightarrow> queued_event \<Rightarrow> error \<Rightarrow> 's \<Rightarrow> 's" where
  "on_publish_error s store job e st =
     (let c = rl_config s;
          dead = qe_attempts job \<ge> qe_max_attempts job;
          st1 = fst (do_effect (relay_policy c 2)
                  (\<lambda>x. so_mark_failed store (ev_id (qe_event job)) (error_text e)
                     (next_retry_at c (rl_clock s x) (qe_attempts job) (qe_max_attempts job) dead) dead x)
                  (rl_ctx_err s) (rl_ctx_done s) st)
      in fst (so_cursor store (rc_consumer c) (rc_stream c) (Some (qe_event job)) False
                (failure_status dead) (error_text e) st1))"

definition on_published ::
  "'s relay \<Rightarrow> 's store_ops \<Rightarrow> queued_event \<Rightarrow> 's \<Rightarrow> 's \<times> error option" where
  "on_published s store job st =
     (let c = rl_config s in
      case do_effect (relay_policy c 2) (so_mark_published store (ev_id (qe_event job)))
             (rl_ctx_err s) (rl_ctx_done s) st of
        (st1, Some e) \<Rightarrow> (st1, Some e)
      | (st1, None) \<Rightarrow>
          (fst (so_cursor store (rc_consumer c) (rc_stream c) (Some (qe_event job)) True ''active'' [] st1), None))"

fun process_jobs ::
  "'s relay \<Rightarrow> 's store_ops \<Rightarrow> ('s \<Rightarrow> message list \<Rightarrow> message \<Rightarrow> error option) \<Rightarrow> queued_event list
   \<Rightarrow> tally \<Rightarrow> 's \<times> message list \<Rightarrow> ('s \<times> message list) \<times> tally \<times> error option" where
  "process_jobs s store t [] n st = (st, n, None)"
| "process_jobs s store t (job # jobs) n st =
     (case send t (ev_subject (qe_event job), Encoded (qe_body job), ev_id (qe_event job)) st of
        (st1, Some e) \<Rightarrow>
          (let dead = qe_attempts job \<ge> qe_max_attempts job in
           process_jobs s store t jobs
             (if dead then n\<lparr>ty_dead := ty_dead n + 1\<rparr> else n\<lparr>ty_failed := ty_failed n + 1\<rparr>)
             (on_publish_error s store job e (fst st1), snd st1))
      | (st1, None) \<Rightarrow>
          (case on_published s store job (fst st1) of
             (x, Some e) \<Rightarrow> ((x, snd st1), n, Some e)
           | (x, None) \<Rightarrow> process_jobs s store t jobs (n\<lparr>ty_processed := ty_processed n + 1\<rparr>) (x, snd st1)))"

definition process_pending ::
  "'s relay \<Rightarrow> 's store_ops \<Rightarrow> ('s \<Rightarrow> message list \<Rightarrow> message \<Rightarrow> error option)
   \<Rightarrow> 's \<times> message list \<Rightarrow> ('s \<times> message list) \<times> tally \<times> error option" where
  "process_pending s store t st =
     (let c = rl_config s in
      case do_state (relay_policy c 2) (so_claim store (rc_batch c)) (rl_ctx_err s) (rl_ctx_done s) (fst st) of
        (x, Err e) \<Rightarrow> ((x, snd st), tally_zero, Some e)
      | (x, Ok jobs) \<Rightarrow> process_jobs s store t jobs tally_zero (x, snd st))"

text \<open>One round of \<open>RunOutboxWorker\<close>: a saturated store skips the batch. The start of the worker
  releases the jobs a crashed worker left behind; its error is only logged.\<close>

definition worker_start :: "'s store_ops \<Rightarrow> 's \<Rightarrow> 's" where
  "worker_start store st = fst (so_reset store (5 * minute) st)"

definition worker_round ::
  "'s relay \<Rightarrow> pressure option \<Rightarrow> 's \<times> message list \<Rightarrow> 's \<times> message list" where
  "worker_round s saturation st =
     (case (rl_store s, rl_transport s) of
        (Some store, Some t) \<Rightarrow>
          if (case saturation of None \<Rightarrow> False | Some p \<Rightarrow> pr_saturated p) then st
          else fst (process_pending s store t st)
      | _ \<Rightarrow> st)"

definition record_consumer ::
  "'s relay \<Rightarrow> string \<Rightarrow> string \<Rightarrow> event option \<Rightarrow> error option option \<Rightarrow> 's \<Rightarrow> 's" where
  "record_consumer s consumer stream evt cause st =
     (case rl_store s of
        None \<Rightarrow> st
      | Some store \<Rightarrow>
          (case cause of
             None \<Rightarrow> fst (so_cursor store consumer stream evt True ''active'' [] st)
           | Some c \<Rightarrow> fst (so_cursor store consumer stream evt False ''degraded''
                              (case c of None \<Rightarrow> [] | Some e \<Rightarrow> error_text e) st)))"

section \<open>The contract of the store\<close>

abbreviation job_id :: "queued_event \<Rightarrow> uuid" where "job_id j \<equiv> ev_id (qe_event j)"
abbreviation message_id :: "message \<Rightarrow> uuid" where "message_id m \<equiv> snd (snd m)"

definition failure_target :: "queued_event \<Rightarrow> event_status" where
  "failure_target job = (if qe_attempts job \<ge> qe_max_attempts job then StDead else StFailed)"

definition with_status :: "uuid \<Rightarrow> event_status \<Rightarrow> (uuid \<Rightarrow> event_status option) \<Rightarrow> uuid \<Rightarrow> event_status option" where
  "with_status i st f j = (if j = i \<and> f i \<noteq> None then Some st else f j)"

text \<open>\<open>ok\<close> is the store's invariant, \<open>status\<close> what it says of an event, and \<open>healthy\<close> that
  no statement is going to fail.\<close>

locale event_store =
  fixes store :: "'s store_ops"
    and ok :: "'s \<Rightarrow> bool"
    and status :: "'s \<Rightarrow> uuid \<Rightarrow> event_status option"
    and healthy :: "'s \<Rightarrow> bool"
  assumes claim_ok: "ok s \<Longrightarrow> so_claim store n s = (s', r) \<Longrightarrow> ok s'"
    and claim_err: "so_claim store n s = (s', Err e) \<Longrightarrow> status s' = status s"
    and claim_jobs: "ok s \<Longrightarrow> so_claim store n s = (s', Ok jobs) \<Longrightarrow> distinct (map job_id jobs) \<and>
          (\<forall>j \<in> set jobs. status s (job_id j) \<in> {Some StPending, Some StFailed, Some StProcessing}) \<and>
          status s' = (\<lambda>i. if i \<in> job_id ` set jobs then Some StProcessing else status s i)"
    and published_ok: "ok s \<Longrightarrow> so_mark_published store i s = (s', q) \<Longrightarrow> ok s'"
    and published_err: "so_mark_published store i s = (s', Some e) \<Longrightarrow> status s' = status s"
    and published_done: "so_mark_published store i s = (s', None) \<Longrightarrow> status s' = with_status i StPublished (status s)"
    and failed_ok: "ok s \<Longrightarrow> so_mark_failed store i m t d s = (s', q) \<Longrightarrow> ok s'"
    and failed_err: "so_mark_failed store i m t d s = (s', Some e) \<Longrightarrow> status s' = status s"
    and failed_done: "so_mark_failed store i m t d s = (s', None) \<Longrightarrow>
          status s' = with_status i (if d then StDead else StFailed) (status s)"
    and cursor_ok: "ok s \<Longrightarrow> so_cursor store a b ev w x y s = (s', q) \<Longrightarrow> ok s'"
    and cursor_status: "so_cursor store a b ev w x y s = (s', q) \<Longrightarrow> status s' = status s"
    and healthy_claim: "healthy s \<Longrightarrow> so_claim store n s = (s', r) \<Longrightarrow> healthy s' \<and> \<not> isl r"
    and healthy_published: "healthy s \<Longrightarrow> so_mark_published store i s = (s', q) \<Longrightarrow> healthy s' \<and> q = None"
    and healthy_failed: "healthy s \<Longrightarrow> so_mark_failed store i m t d s = (s', q) \<Longrightarrow> healthy s' \<and> q = None"
    and healthy_cursor: "healthy s \<Longrightarrow> so_cursor store a b ev w x y s = (s', q) \<Longrightarrow> healthy s'"
begin

lemma cursor_keeps:
  "ok s \<Longrightarrow> ok (fst (so_cursor store a b ev w x y s))"
  "status (fst (so_cursor store a b ev w x y s)) = status s"
  "healthy s \<Longrightarrow> healthy (fst (so_cursor store a b ev w x y s))"
  by (metis cursor_ok cursor_status healthy_cursor prod.collapse)+

lemma refused_effect:
  assumes "ok st"
  shows "ok (on_publish_error rl store job e st)"
    and "status (on_publish_error rl store job e st) = status st \<or>
         status (on_publish_error rl store job e st) = with_status (job_id job) (failure_target job) (status st)"
proof -
  let ?dead = "qe_attempts job \<ge> qe_max_attempts job"
  let ?f = "\<lambda>x. so_mark_failed store (job_id job) (error_text e)
      (next_retry_at (rl_config rl) (rl_clock rl x) (qe_attempts job) (qe_max_attempts job) ?dead) ?dead x"
  obtain x r where x: "do_effect (relay_policy (rl_config rl) 2) ?f (rl_ctx_err rl) (rl_ctx_done rl) st = (x, r)"
    by fastforce
  have out: "case r of None \<Rightarrow> \<exists>t. (ok t \<and> status t = status st) \<and> ?f t = (x, None) | Some e \<Rightarrow> ok x \<and> status x = status st"
    by (rule do_effect_outcome[where I = "\<lambda>y. ok y \<and> status y = status st", OF x])
       (use assms in \<open>auto dest: failed_ok failed_err\<close>)
  then have "ok x \<and> (status x = status st \<or> status x = with_status (job_id job) (failure_target job) (status st))"
    by (auto simp: failure_target_def dest: failed_ok failed_done split: option.splits)
  then show "ok (on_publish_error rl store job e st)"
    and "status (on_publish_error rl store job e st) = status st \<or>
         status (on_publish_error rl store job e st) = with_status (job_id job) (failure_target job) (status st)"
    by (simp_all add: on_publish_error_def Let_def x cursor_keeps)
qed

lemma refused_healthy:
  assumes "healthy st"
  shows "healthy (on_publish_error rl store job e st)"
    and "status (on_publish_error rl store job e st) = with_status (job_id job) (failure_target job) (status st)"
proof -
  let ?dead = "qe_attempts job \<ge> qe_max_attempts job"
  let ?f = "\<lambda>x. so_mark_failed store (job_id job) (error_text e)
      (next_retry_at (rl_config rl) (rl_clock rl x) (qe_attempts job) (qe_max_attempts job) ?dead) ?dead x"
  obtain x r where "?f st = (x, r)" by fastforce
  with healthy_failed[OF assms] have f: "?f st = (x, None)" "healthy x" by blast+
  have "do_effect (relay_policy (rl_config rl) 2) ?f (rl_ctx_err rl) (rl_ctx_done rl) st = (x, None)"
    by (rule do_effect_first_None[where fn = ?f and s = st, OF f(1)])
  moreover have "status x = with_status (job_id job) (failure_target job) (status st)"
    using failed_done[OF f(1)] by (simp add: failure_target_def)
  ultimately show "healthy (on_publish_error rl store job e st)"
    and "status (on_publish_error rl store job e st) = with_status (job_id job) (failure_target job) (status st)"
    using f by (simp_all add: on_publish_error_def Let_def cursor_keeps)
qed

lemma accepted_effect:
  assumes "on_published rl store job st = (x, r)" "ok st"
  shows "ok x" "status x = status st \<or> status x = with_status (job_id job) StPublished (status st)"
proof -
  let ?m = "do_effect (relay_policy (rl_config rl) 2) (so_mark_published store (job_id job)) (rl_ctx_err rl) (rl_ctx_done rl) st"
  obtain y q where y: "?m = (y, q)" by fastforce
  have "case q of None \<Rightarrow> \<exists>t. (ok t \<and> status t = status st) \<and> so_mark_published store (job_id job) t = (y, None)
      | Some e \<Rightarrow> ok y \<and> status y = status st"
    by (rule do_effect_outcome[where I = "\<lambda>y. ok y \<and> status y = status st", OF y])
       (use assms in \<open>auto dest: published_ok published_err\<close>)
  then have "ok y \<and> (status y = status st \<or> status y = with_status (job_id job) StPublished (status st))"
    by (auto dest: published_ok published_done split: option.splits)
  with assms(1) y show "ok x" "status x = status st \<or> status x = with_status (job_id job) StPublished (status st)"
    by (auto simp: on_published_def Let_def cursor_keeps split: option.splits)
qed

lemma accepted_healthy:
  assumes "healthy st"
  obtains x where "on_published rl store job st = (x, None)" "healthy x"
    "status x = with_status (job_id job) StPublished (status st)"
proof -
  obtain y q where "so_mark_published store (job_id job) st = (y, q)" by fastforce
  with healthy_published[OF assms] have y: "so_mark_published store (job_id job) st = (y, None)" "healthy y" by blast+
  note m = do_effect_first_None[where fn = "so_mark_published store (job_id job)", OF y(1)]
  show thesis
    by (rule that[OF _ healthy_cursor[OF y(2) surjective_pairing]])
       (simp_all add: on_published_def Let_def m cursor_keeps published_done[OF y(1)])
qed

lemma process_jobs_sound:
  assumes "process_jobs rl store t jobs n (x, sent) = ((x', sent'), n', r)" "ok x"
  shows "ok x' \<and> (\<exists>new. sent' = sent @ new \<and>
    (\<forall>i. status x' i = Some StPublished \<longrightarrow> status x i = Some StPublished \<or> i \<in> message_id ` set new) \<and>
    (\<forall>i. i \<notin> job_id ` set jobs \<longrightarrow> status x' i = status x i))"
  using assms
proof (induction jobs arbitrary: n x sent)
  case (Cons job jobs)
  let ?msg = "(ev_subject (qe_event job), Encoded (qe_body job), job_id job)"
  show ?case
  proof (cases "t x sent ?msg")
    case None
    obtain y q where y: "on_published rl store job x = (y, q)" by fastforce
    note eff = accepted_effect[OF y Cons.prems(2)]
    show ?thesis
    proof (cases q)
      case (Some e)
      with Cons.prems None y have "x' = y" "sent' = sent @ [?msg]" by (simp_all add: send_def)
      with eff show ?thesis by (intro conjI exI[of _ "[?msg]"]) (auto simp: with_status_def)
    next
      case q: None
      with Cons.prems None y
      have "process_jobs rl store t jobs (n\<lparr>ty_processed := ty_processed n + 1\<rparr>) (y, sent @ [?msg]) = ((x', sent'), n', r)"
        by (simp add: send_def)
      from Cons.IH[OF this eff(1)] obtain new where new: "ok x'" "sent' = (sent @ [?msg]) @ new"
        "\<forall>i. status x' i = Some StPublished \<longrightarrow> status y i = Some StPublished \<or> i \<in> message_id ` set new"
        "\<forall>i. i \<notin> job_id ` set jobs \<longrightarrow> status x' i = status y i" by blast
      have "status y i = Some StPublished \<Longrightarrow> status x i = Some StPublished \<or> i = job_id job"
        "i \<noteq> job_id job \<Longrightarrow> status y i = status x i" for i
        using eff(2) by (auto simp: with_status_def split: if_splits)
      with new show ?thesis by (intro conjI exI[of _ "?msg # new"]) auto
    qed
  next
    case (Some e)
    let ?y = "on_publish_error rl store job e x"
    note eff = refused_effect[OF Cons.prems(2), of rl job e]
    from Cons.prems Some obtain n1 where "process_jobs rl store t jobs n1 (?y, sent) = ((x', sent'), n', r)"
      by (simp add: send_def Let_def)
    from Cons.IH[OF this eff(1)] eff(2) show ?thesis
      by (auto simp: with_status_def failure_target_def split: if_splits)
  qed
qed auto

lemma process_jobs_healthy:
  assumes "process_jobs rl store t jobs n (x, sent) = ((x', sent'), n', r)" "healthy x"
    and "distinct (map job_id jobs)" "\<forall>j \<in> set jobs. status x (job_id j) \<noteq> None"
  shows "r = None \<and> ty_processed n' + ty_failed n' + ty_dead n' =
      ty_processed n + ty_failed n + ty_dead n + length jobs \<and>
    (\<forall>j \<in> set jobs. status x' (job_id j) \<in> {Some StPublished, Some (failure_target j)}) \<and>
    (\<forall>i. i \<notin> job_id ` set jobs \<longrightarrow> status x' i = status x i) \<and>
    ty_processed n' + length sent = ty_processed n + length sent'"
  using assms
proof (induction jobs arbitrary: n x sent)
  case (Cons job jobs)
  let ?msg = "(ev_subject (qe_event job), Encoded (qe_body job), job_id job)"
  from Cons.prems have fresh: "job_id job \<notin> job_id ` set jobs" "status x (job_id job) \<noteq> None"
    and rest: "distinct (map job_id jobs)" "\<forall>j \<in> set jobs. status x (job_id j) \<noteq> None" by auto
  show ?case
  proof (cases "t x sent ?msg")
    case None
    obtain y where y: "on_published rl store job x = (y, None)" "healthy y"
      "status y = with_status (job_id job) StPublished (status x)" by (rule accepted_healthy[OF Cons.prems(2)])
    from Cons.prems(1) None y(1)
    have run: "process_jobs rl store t jobs (n\<lparr>ty_processed := ty_processed n + 1\<rparr>) (y, sent @ [?msg]) = ((x', sent'), n', r)"
      by (simp add: send_def)
    have "\<forall>j \<in> set jobs. status y (job_id j) \<noteq> None" using rest(2) by (simp add: y(3) with_status_def)
    from Cons.IH[OF run y(2) rest(1) this] fresh show ?thesis by (auto simp: y(3) with_status_def)
  next
    case (Some e)
    let ?y = "on_publish_error rl store job e x"
    let ?n = "if qe_attempts job \<ge> qe_max_attempts job then n\<lparr>ty_dead := ty_dead n + 1\<rparr> else n\<lparr>ty_failed := ty_failed n + 1\<rparr>"
    note y = refused_healthy[OF Cons.prems(2), of rl job e]
    from Cons.prems(1) Some have run: "process_jobs rl store t jobs ?n (?y, sent) = ((x', sent'), n', r)"
      by (simp add: send_def Let_def)
    have "\<forall>j \<in> set jobs. status ?y (job_id j) \<noteq> None" using rest(2) by (simp add: y(2) with_status_def)
    from Cons.IH[OF run y(1) rest(1) this] fresh show ?thesis by (auto simp: y(2) with_status_def)
  qed
qed auto

lemma process_pending_sound:
  assumes "process_pending rl store t (x, sent) = ((x', sent'), n, r)" "ok x"
  shows "ok x' \<and> (\<exists>new. sent' = sent @ new \<and>
    (\<forall>i. status x' i = Some StPublished \<longrightarrow> status x i = Some StPublished \<or> i \<in> message_id ` set new) \<and>
    (\<forall>i. status x i = Some StPublished \<longrightarrow> status x' i = Some StPublished))"
proof -
  obtain y q where y: "do_state (relay_policy (rl_config rl) 2) (so_claim store (rc_batch (rl_config rl)))
      (rl_ctx_err rl) (rl_ctx_done rl) x = (y, q)" by fastforce
  have out: "case q of Ok v \<Rightarrow> \<exists>u. (ok u \<and> status u = status x) \<and> so_claim store (rc_batch (rl_config rl)) u = (y, Ok v)
      | Err e \<Rightarrow> ok y \<and> status y = status x"
    by (rule do_state_outcome[where I = "\<lambda>u. ok u \<and> status u = status x", OF y])
       (use assms(2) in \<open>auto dest: claim_ok claim_err\<close>)
  show ?thesis
  proof (cases q)
    case (Inl e)
    with out assms(1) y show ?thesis by (auto simp: process_pending_def)
  next
    case (Inr jobs)
    with out obtain u where u: "ok u" "status u = status x" "so_claim store (rc_batch (rl_config rl)) u = (y, Ok jobs)"
      by auto
    note claimed = claim_jobs[OF u(1,3)]
    from assms(1) y Inr have "process_jobs rl store t jobs tally_zero (y, sent) = ((x', sent'), n, r)"
      by (simp add: process_pending_def)
    from process_jobs_sound[OF this claim_ok[OF u(1,3)]] obtain new where
      new: "ok x'" "sent' = sent @ new"
        "\<And>i. status x' i = Some StPublished \<Longrightarrow> status y i = Some StPublished \<or> i \<in> message_id ` set new"
        "\<And>i. i \<notin> job_id ` set jobs \<Longrightarrow> status x' i = status y i" by blast
    have "status x' i = Some StPublished" if "status x i = Some StPublished" for i
      using claimed u(2) new(4)[of i] that by (cases "i \<in> job_id ` set jobs") auto
    moreover have "status x i = Some StPublished \<or> i \<in> message_id ` set new" if "status x' i = Some StPublished" for i
      using new(3)[OF that] claimed u(2) by (auto split: if_splits)
    ultimately show ?thesis using new(1,2) by blast
  qed
qed

lemma process_pending_healthy:
  assumes "process_pending rl store t (x, sent) = ((x', sent'), n, r)" "ok x" "healthy x"
  shows "\<exists>y jobs. so_claim store (rc_batch (rl_config rl)) x = (y, Ok jobs) \<and> r = None \<and>
    ty_processed n + ty_failed n + ty_dead n = length jobs \<and> length sent' = length sent + ty_processed n \<and>
    (\<forall>j \<in> set jobs. status x' (job_id j) \<in> {Some StPublished, Some (failure_target j)}) \<and>
    (\<forall>i. i \<notin> job_id ` set jobs \<longrightarrow> status x' i = status x i)"
proof -
  obtain y q where "so_claim store (rc_batch (rl_config rl)) x = (y, q)" by fastforce
  moreover from healthy_claim[OF assms(3) this] obtain jobs where "q = Ok jobs" "healthy y" by (cases q) auto
  ultimately have c: "so_claim store (rc_batch (rl_config rl)) x = (y, Ok jobs)" by simp
  note claimed = claim_jobs[OF assms(2) c]
  note first = do_state_first_Ok[where fn = "so_claim store (rc_batch (rl_config rl))" and s = x, OF c]
  from assms(1) first have run: "process_jobs rl store t jobs tally_zero (y, sent) = ((x', sent'), n, r)"
    by (simp add: process_pending_def)
  have "\<forall>j \<in> set jobs. status y (job_id j) \<noteq> None" using claimed by auto
  from process_jobs_healthy[OF run \<open>healthy y\<close> _ this] claimed c show ?thesis
    by (auto simp: tally_zero_def)
qed

end

section \<open>The PostgreSQL store keeps the contract\<close>

definition pg_store :: "outbox store_ops" where
  "pg_store = \<lparr>so_enqueue = enqueue, so_claim = claim_pending, so_mark_published = mark_published,
     so_mark_failed = mark_failed, so_replay = replay_room, so_cursor = update_consumer_cursor,
     so_reset = reset_stuck_jobs\<rparr>"

lemma pg_store_sel [simp]:
  "so_enqueue pg_store = enqueue" "so_claim pg_store = claim_pending"
  "so_mark_published pg_store = mark_published" "so_mark_failed pg_store = mark_failed"
  "so_replay pg_store = replay_room" "so_cursor pg_store = update_consumer_cursor"
  "so_reset pg_store = reset_stuck_jobs"
  by (simp_all add: pg_store_def)

interpretation pg_events: event_store pg_store outbox_ok event_status_of reliable
proof (unfold_locales, unfold pg_store_sel, goal_cases)
  case (1 s n s' r) then show ?case by (blast dest: claim_pending_effect)
next
  case (2 n s s' e) then show ?case by (blast dest: claim_pending_effect)
next
  case (3 s n s' jobs)
  from claim_pending_jobs[OF 3(2,1)] show ?case by (auto simp: fun_eq_iff)
next
  case (4 s i s' q) then show ?case by (blast dest: mark_published_cases)
next
  case (5 i s s' e) then show ?case by (blast dest: mark_published_cases)
next
  case (6 i s s')
  then show ?case by (auto simp: fun_eq_iff with_status_def mark_published_cases(4))
next
  case (7 s i m t d s' q) then show ?case by (blast dest: mark_failed_cases)
next
  case (8 i m t d s s' e) then show ?case by (blast dest: mark_failed_cases)
next
  case (9 i m t d s s')
  then show ?case by (auto simp: fun_eq_iff with_status_def mark_failed_cases(4))
next
  case (10 s a b ev w x y s' q) then show ?case by (blast dest: cursor_cases)
next
  case (11 a b ev w x y s s' q) then show ?case by (blast dest: cursor_cases)
next
  case (12 s n s' r) then show ?case by (blast dest: claim_pending_effect)
next
  case (13 s i s' q) then show ?case by (blast dest: mark_published_cases)
next
  case (14 s i m t d s' q) then show ?case by (blast dest: mark_failed_cases)
next
  case (15 s a b ev w x y s' q) then show ?case by (blast dest: cursor_cases)
qed

section \<open>Histories of the outbox\<close>

text \<open>What happens to the table: the service enqueues prepared events (the publishers leave the
  sequence at zero), workers claim, mark and move their cursors, a starting worker releases stuck
  rows, and time passes with whatever statement outcomes.\<close>

definition empty_outbox :: outbox where
  "empty_outbox = \<lparr>ob_rows = [], ob_next_seq = 1, ob_cursors = [], ob_now = 0, ob_steps = []\<rparr>"

inductive outbox_reachable :: "outbox \<Rightarrow> bool" where
  start: "outbox_reachable empty_outbox"
| environment: "outbox_reachable b \<Longrightarrow> outbox_reachable (b\<lparr>ob_steps := steps, ob_now := t\<rparr>)"
| enqueued: "outbox_reachable b \<Longrightarrow> prepare i now subject evt0 = Ok (evt, body, True) \<Longrightarrow> ev_sequence evt0 = 0
     \<Longrightarrow> outbox_reachable (fst (enqueue evt body m b))"
| claimed: "outbox_reachable b \<Longrightarrow> outbox_reachable (fst (claim_pending n b))"
| published: "outbox_reachable b \<Longrightarrow> outbox_reachable (fst (mark_published i b))"
| failed: "outbox_reachable b \<Longrightarrow> outbox_reachable (fst (mark_failed i e t d b))"
| cursor: "outbox_reachable b \<Longrightarrow> outbox_reachable (fst (update_consumer_cursor c st oe ok s e b))"
| reset: "outbox_reachable b \<Longrightarrow> outbox_reachable (fst (reset_stuck_jobs after b))"

inductive_cases outbox_reachableE: "outbox_reachable b"

lemma rows_where_bodies:
  "(\<And>r. or_body (f r) = or_body r) \<Longrightarrow> or_body ` set (ob_rows (rows_where P f b)) = or_body ` set (ob_rows b)"
proof -
  assume "\<And>r. or_body (f r) = or_body r"
  then have "map or_body (ob_rows (rows_where P f b)) = map or_body (ob_rows b)"
    by (simp add: rows_where_def)
  from arg_cong[OF this, of set] show ?thesis by simp
qed

lemma next_statement_rows: "ob_rows (fst (next_statement b)) = ob_rows b"
  using next_statement_cases(1)[OF surjective_pairing] .

lemma op_bodies:
  "or_body ` set (ob_rows (fst (claim_pending n b))) = or_body ` set (ob_rows b)"
  "or_body ` set (ob_rows (fst (mark_published i b))) = or_body ` set (ob_rows b)"
  "or_body ` set (ob_rows (fst (mark_failed i e t d b))) = or_body ` set (ob_rows b)"
  "or_body ` set (ob_rows (fst (reset_stuck_jobs after b))) = or_body ` set (ob_rows b)"
  "or_body ` set (ob_rows (fst (update_consumer_cursor c st oe ok s x b))) = or_body ` set (ob_rows b)"
proof -
  obtain y r where y: "claim_pending n b = (y, r)" by fastforce
  then show "or_body ` set (ob_rows (fst (claim_pending n b))) = or_body ` set (ob_rows b)"
    by (cases rule: claim_pending_cases) (auto simp: rows_where_bodies claim_row_def y)
  obtain y f where "next_statement b = (y, f)" by fastforce
  note nx = this next_statement_cases(1)[OF this]
  show "or_body ` set (ob_rows (fst (mark_published i b))) = or_body ` set (ob_rows b)"
    "or_body ` set (ob_rows (fst (mark_failed i e t d b))) = or_body ` set (ob_rows b)"
    "or_body ` set (ob_rows (fst (reset_stuck_jobs after b))) = or_body ` set (ob_rows b)"
    using nx by (auto simp: mark_published_def mark_failed_def reset_stuck_jobs_def exec_update_def Let_def
        rows_where_bodies split: option.splits)
  show "or_body ` set (ob_rows (fst (update_consumer_cursor c st oe ok s x b))) = or_body ` set (ob_rows b)"
    by (metis cursor_cases(4) prod.collapse)
qed

lemma reachable_ok: "outbox_reachable b \<Longrightarrow> outbox_ok b \<and> (\<forall>r \<in> set (ob_rows b). ev_sequence (or_body r) = 0)"
proof (induction rule: outbox_reachable.induct)
  case start
  show ?case by (simp add: empty_outbox_def outbox_ok_def)
next
  case (environment b steps t)
  then show ?case by (simp add: outbox_ok_def)
next
  case (enqueued b i now subject evt0 evt body m)
  obtain y q where y: "enqueue evt body m b = (y, q)" by fastforce
  have b: "body = evt" "ev_sequence evt = 0" using enqueued.hyps(2,3) by (simp_all add: prepare_Ok)
  note e = enqueue_cases[OF y]
  have "\<forall>r \<in> set (ob_rows y). ev_sequence (or_body r) = 0"
    using e(3,4) enqueued.IH b by (cases q) fastforce+
  with e(1) enqueued.IH b y show ?case by simp
next
  case (claimed b n)
  have "outbox_ok (fst (claim_pending n b))" using claimed by (metis claim_pending_effect(1) prod.collapse)
  with claimed op_bodies(1)[of n b] show ?case by (metis (no_types, lifting) image_iff)
next
  case (published b i)
  have "outbox_ok (fst (mark_published i b))" using published by (metis mark_published_cases(1) prod.collapse)
  with published op_bodies(2)[of i b] show ?case by (metis (no_types, lifting) image_iff)
next
  case (failed b i e t d)
  have "outbox_ok (fst (mark_failed i e t d b))" using failed by (metis mark_failed_cases(1) prod.collapse)
  with failed op_bodies(3)[of i e t d b] show ?case by (metis (no_types, lifting) image_iff)
next
  case (cursor b c st oe ok s e)
  have "outbox_ok (fst (update_consumer_cursor c st oe ok s e b))"
    using cursor by (metis cursor_cases(1) prod.collapse)
  with cursor op_bodies(5)[of c st oe ok s e b] show ?case by (metis (no_types, lifting) image_iff)
next
  case (reset b after)
  with reset_stuck_ok op_bodies(4)[of after b] show ?case by (metis (no_types, lifting) image_iff)
qed

lemma retry_delay_loop_min:
  assumes "0 < d" "d \<le> minute"
  shows "retry_delay_loop n d = min minute (d * 2 ^ n)"
  using assms
proof (induction n arbitrary: d)
  case (Suc n)
  have w: "wrap64 (d * 2) = d * 2" using Suc.prems by simp
  show ?case
  proof (cases "d * 2 > minute")
    case True
    have "d * 1 \<le> d * 2 ^ n" using Suc.prems(1) by (intro mult_left_mono) auto
    with True have "minute \<le> 2 * (d * 2 ^ n)" by linarith
    then have "minute \<le> d * 2 ^ Suc n" by (simp only: power_Suc mult.left_commute mult.commute)
    with True w show ?thesis by (simp add: min_def del: power_Suc)
  next
    case False
    with Suc.IH[of "d * 2"] Suc.prems w show ?thesis by (simp add: mult.assoc)
  qed
qed simp

section \<open>A sample history\<close>

definition sample_outbox :: outbox where
  "sample_outbox = fst (enqueue (stamp 11 5 ''aloqa.chat.30'' sample_event)
     (stamp 11 5 ''aloqa.chat.30'' sample_event) 8 (empty_outbox\<lparr>ob_now := 10\<rparr>))"

definition sample_relay :: "outbox relay" where
  "sample_relay = \<lparr>rl_config = new_config \<lparr>rc_batch = 0, rc_max_attempts = 0, rc_backoff = 0, rc_replay_limit = 0,
       rc_consumer = [], rc_stream = [], rc_timeout = 0\<rparr>, rl_store = Some pg_store, rl_transport = None,
     rl_clock = ob_now, rl_ctx_err = (\<lambda>_. None), rl_ctx_done = (\<lambda>_ _. None)\<rparr>"

abbreviation accept_all :: "outbox \<Rightarrow> message list \<Rightarrow> message \<Rightarrow> error option" where
  "accept_all \<equiv> (\<lambda>s sent msg. None)"

lemma sample_reachable: "outbox_reachable sample_outbox"
proof -
  have p: "prepare 11 5 ''aloqa.chat.30'' sample_event =
      Ok (stamp 11 5 ''aloqa.chat.30'' sample_event, stamp 11 5 ''aloqa.chat.30'' sample_event, True)"
    by (simp add: prepare_Ok sample_event_def definition_for_type_def year_in_range_def)
  have "outbox_reachable (empty_outbox\<lparr>ob_steps := [], ob_now := 10\<rparr>)"
    by (intro outbox_reachable.intros)
  moreover have "empty_outbox\<lparr>ob_steps := [], ob_now := 10\<rparr> = empty_outbox\<lparr>ob_now := 10\<rparr>" by (simp add: empty_outbox_def)
  moreover have "ev_sequence sample_event = 0" by (simp add: sample_event_def)
  ultimately show ?thesis unfolding sample_outbox_def by (intro outbox_reachable.enqueued[OF _ p]) simp_all
qed

lemma sample_ok: "outbox_ok sample_outbox" "reliable sample_outbox"
  using reachable_ok[OF sample_reachable] by (simp, code_simp)

section \<open>Properties\<close>

text \<open>C2: at least once, never less: whatever the store, the transport and the clock do to a batch, an
  event ends up published only if it was published before or the transport accepted its message
  in this batch; published events stay published, and the table stays well formed.\<close>

theorem published_only_after_transport:
  assumes "process_pending rl pg_store t (b, sent) = ((b', sent'), n, r)" "outbox_ok b"
  shows "outbox_ok b' \<and> (\<exists>new. sent' = sent @ new \<and>
    (\<forall>i. event_status_of b' i = Some StPublished \<longrightarrow>
         event_status_of b i = Some StPublished \<or> i \<in> message_id ` set new) \<and>
    (\<forall>i. event_status_of b i = Some StPublished \<longrightarrow> event_status_of b' i = Some StPublished))"
  by (rule pg_events.process_pending_sound[OF assms])

theorem published_only_after_transport_witness:
  "\<exists>b' sent' n r. process_pending sample_relay pg_store accept_all (sample_outbox, []) = ((b', sent'), n, r) \<and>
     outbox_ok b' \<and> event_status_of b' 11 = Some StPublished \<and> 11 \<in> message_id ` set sent'"
proof -
  obtain b' sent' n r where p: "process_pending sample_relay pg_store accept_all (sample_outbox, []) = ((b', sent'), n, r)"
    by (metis prod.collapse)
  have "event_status_of (fst (fst (process_pending sample_relay pg_store accept_all (sample_outbox, [])))) 11 = Some StPublished"
    by code_simp
  then have st: "event_status_of b' 11 = Some StPublished" by (simp add: p)
  moreover have "event_status_of sample_outbox 11 = Some StPending" by code_simp
  ultimately show ?thesis using published_only_after_transport[OF p sample_ok(1)] p by auto
qed

text \<open>When the database answers, a batch accounts for everything it claimed: no error is returned,
  the three counters add up to the batch, each claimed event is published or else failed or dead
  according to its attempts, the transport accepted exactly the processed ones, and no other
  event is touched.\<close>

lemma healthy_batch_accounts_for_events:
  assumes "process_pending rl pg_store t (b, sent) = ((b', sent'), n, r)" "outbox_ok b" "reliable b"
  shows "\<exists>c jobs. claim_pending (rc_batch (rl_config rl)) b = (c, Ok jobs) \<and> r = None \<and>
    ty_processed n + ty_failed n + ty_dead n = length jobs \<and> length sent' = length sent + ty_processed n \<and>
    (\<forall>j \<in> set jobs. event_status_of b' (job_id j) \<in> {Some StPublished, Some (failure_target j)}) \<and>
    (\<forall>i. i \<notin> job_id ` set jobs \<longrightarrow> event_status_of b' i = event_status_of b i)"
  using pg_events.process_pending_healthy[OF assms] by simp

lemma healthy_batch_accounts_for_events_witness:
  "\<exists>b' sent' n. process_pending sample_relay pg_store accept_all (sample_outbox, []) = ((b', sent'), n, None) \<and>
     length sent' = ty_processed n"
proof -
  obtain b' sent' n r where p: "process_pending sample_relay pg_store accept_all (sample_outbox, []) = ((b', sent'), n, r)"
    by (metis prod.collapse)
  from healthy_batch_accounts_for_events[OF p sample_ok] p show ?thesis by auto
qed

text \<open>C3: in every history of the table the invariant holds: event identifiers and sequence numbers are
  unique and below the next one, the body carries the row's identifier, exactly the rows in
  processing are locked, and published rows have a publication time.\<close>

theorem outbox_invariant:
  assumes "outbox_reachable b" shows "outbox_ok b"
  using reachable_ok[OF assms] by blast

theorem outbox_invariant_witness: "outbox_ok sample_outbox"
  by (rule outbox_invariant[OF sample_reachable])

text \<open>A claim takes the oldest claimable events: it is bounded by the batch size, in sequence order,
  never contains published or dead events, and leaves behind no claimable event older than one
  it took.\<close>

lemma claim_takes_oldest:
  assumes "claim_pending n b = (b', Ok jobs)" "outbox_ok b" "0 < n"
  shows "\<exists>now rows. jobs = map queued rows \<and> int (length rows) \<le> n \<and> sorted (map or_seq rows) \<and>
    (\<forall>r \<in> set rows. r \<in> set (ob_rows b) \<and> claimable now r \<and> or_status r \<notin> {StPublished, StDead}) \<and>
    (\<forall>r \<in> set (ob_rows b). claimable now r \<longrightarrow> r \<in> set rows \<or> (\<forall>q \<in> set rows. or_seq q \<le> or_seq r))"
proof -
  from assms(1) obtain now where jobs: "jobs = map queued (claimed_rows n now b)"
    by (cases rule: claim_pending_cases) auto
  let ?all = "sort_key or_seq (filter (claimable now) (ob_rows b))"
  let ?rows = "claimed_rows n now b"
  have rows: "?rows = take (nat n) ?all" using assms(3) by (simp add: claimed_rows_def)
  have "sorted (map or_seq ?rows)" unfolding rows take_map[symmetric] by (rule sorted_wrt_take) simp
  moreover have "r \<in> set ?rows \<or> (\<forall>q \<in> set ?rows. or_seq q \<le> or_seq r)" if "r \<in> set (ob_rows b)" "claimable now r" for r
  proof -
    have split: "?rows @ drop (nat n) ?all = ?all" using rows by simp
    have "r \<in> set ?all" using that by simp
    then have "r \<in> set ?rows \<union> set (drop (nat n) ?all)" by (metis split set_append)
    moreover have "sorted (map or_seq (?rows @ drop (nat n) ?all))" unfolding split by simp
    then have "\<forall>q \<in> set ?rows. \<forall>y \<in> set (drop (nat n) ?all). or_seq q \<le> or_seq y"
      by (simp add: sorted_append)
    ultimately show ?thesis by blast
  qed
  ultimately show ?thesis
    using jobs claim_job_ids(2)[OF assms(2), of n now] assms(3)
    by (intro exI[of _ now] exI[of _ ?rows]) (auto simp: rows claimable_def)
qed

lemma claim_takes_oldest_witness:
  "\<exists>b' jobs. claim_pending 10 sample_outbox = (b', Ok jobs) \<and> length jobs = 1 \<and> (\<exists>rows. jobs = map queued rows \<and> sorted (map or_seq rows))"
proof -
  have l: "(case snd (claim_pending 10 sample_outbox) of Ok jobs \<Rightarrow> length jobs = 1 | Err e \<Rightarrow> False)" by code_simp
  then obtain b' jobs where p: "claim_pending 10 sample_outbox = (b', Ok jobs)" "length jobs = 1"
    by (cases "claim_pending 10 sample_outbox"; cases "snd (claim_pending 10 sample_outbox)") auto
  from claim_takes_oldest[OF p(1) sample_ok(1)] p show ?thesis by auto
qed

text \<open>A failed delivery is retried on the capped exponential: with a base delay of at most a
  minute, attempt \<open>k\<close> of an event that may still be retried waits the base doubled \<open>k - 1\<close>
  times or one minute; an exhausted event gets no retry time.\<close>

lemma retry_schedule:
  assumes "0 < rc_backoff c" "rc_backoff c \<le> minute"
  shows "next_retry_at c now k m dead =
    (if dead \<or> k \<ge> m then None else Some (now + min minute (rc_backoff c * 2 ^ nat (k - 1))))"
  by (simp add: next_retry_at_def retry_delay_loop_min[OF assms])

lemma retry_schedule_witness:
  "next_retry_at (rl_config sample_relay) 100 4 8 False = Some (100 + 24 * second)"
  by (subst retry_schedule) (simp_all add: sample_relay_def new_config_def)

text \<open>Replay hands back, in sequence order, the bodies of the published replayable events of the
  room's subject after the cursor, at most \<open>limit\<close> of them. In every history these bodies carry
  sequence zero: the sequence the table assigned never reaches the client that must resume from it.\<close>

lemma replay_in_order_without_sequence:
  assumes "replay_room room after limit b = (b', Ok evs)" "outbox_reachable b"
  shows "(\<forall>e \<in> set evs. ev_sequence e = 0) \<and>
    (\<exists>rows. evs = map or_body rows \<and> set rows \<subseteq> set (ob_rows b) \<and> sorted (map or_seq rows) \<and>
       int (length rows) \<le> (if limit \<le> 0 then 200 else limit) \<and>
       (\<forall>r \<in> set rows. or_status r = StPublished \<and> ev_replayable (or_columns r) \<and> after < or_seq r \<and>
          ev_subject (or_columns r) = replay_subject (trim_space room)))"
proof -
  obtain x f where x: "next_statement b = (x, f)" by fastforce
  note nx = next_statement_cases[OF x]
  let ?P = "\<lambda>r. or_status r = StPublished \<and> ev_replayable (or_columns r) \<and>
      ev_subject (or_columns r) = replay_subject (trim_space room) \<and> or_seq r > after"
  let ?n = "nat (if limit \<le> 0 then 200 else limit)"
  let ?rows = "take ?n (sort_key or_seq (filter ?P (ob_rows b)))"
  from assms(1) x nx(1) have "evs = [] \<or> evs = map or_body ?rows"
    by (auto simp: replay_room_def Let_def split: if_splits option.splits)
  then obtain rows where rows: "evs = map or_body rows" "rows = [] \<or> rows = ?rows" by auto
  have sub: "set rows \<subseteq> {r \<in> set (ob_rows b). ?P r}" using rows(2) by (auto dest!: in_set_takeD)
  have "sorted (map or_seq ?rows)" unfolding take_map[symmetric] by (rule sorted_wrt_take) simp
  then have "sorted (map or_seq rows)" using rows(2) by auto
  moreover have "int (length rows) \<le> (if limit \<le> 0 then 200 else limit)" using rows(2) by auto
  moreover have "\<forall>e \<in> set evs. ev_sequence e = 0" using sub rows(1) reachable_ok[OF assms(2)] by auto
  ultimately show ?thesis using sub rows(1) by (intro conjI exI[of _ rows]) auto
qed

definition published_sample :: outbox where
  "published_sample = fst (mark_published 11 sample_outbox)"

lemma replay_in_order_without_sequence_witness:
  "\<exists>b' evs. replay_room ''channel:30'' 0 200 published_sample = (b', Ok evs) \<and> length evs = 1 \<and>
     (\<forall>e \<in> set evs. ev_sequence e = 0)"
proof -
  have reach: "outbox_reachable published_sample"
    unfolding published_sample_def by (rule outbox_reachable.published[OF sample_reachable])
  have l: "(case snd (replay_room ''channel:30'' 0 200 published_sample) of Ok evs \<Rightarrow> length evs = 1 | Err e \<Rightarrow> False)"
    by code_simp
  then obtain b' evs where p: "replay_room ''channel:30'' 0 200 published_sample = (b', Ok evs)" "length evs = 1"
    by (cases "replay_room ''channel:30'' 0 200 published_sample"; cases "snd (replay_room ''channel:30'' 0 200 published_sample)") auto
  from replay_in_order_without_sequence[OF p(1) reach] p show ?thesis by blast
qed

text \<open>Publishing routes by type: a well-formed event of a durable type becomes one pending row and
  nothing reaches the transport; any other well-formed event is handed to the transport at once and
  never touches the table.\<close>

lemma publish_routes_by_type:
  assumes "rl_store s = Some pg_store" "rl_transport s = Some t"
    and "prepare i (rl_clock s b) subject evt0 = Ok (evt, body, durable)"
    and "publish s i subject (Encoded evt0) (b, sent) = ((b', sent'), r)"
  shows "(durable \<longrightarrow> sent' = sent \<and>
            (r = None \<longrightarrow> (\<exists>row. ob_rows b' = ob_rows b @ [row] \<and> or_id row = ev_id evt \<and> or_body row = body \<and>
                                or_status row = StPending)) \<and> (r \<noteq> None \<longrightarrow> ob_rows b' = ob_rows b)) \<and>
         (\<not> durable \<longrightarrow> b' = b \<and>
            sent' = (if r = None then sent @ [(subject, Encoded body, ev_id evt)] else sent))"
proof (cases durable)
  case True
  obtain x q where x: "enqueue evt body (rc_max_attempts (rl_config s)) b = (x, q)" by fastforce
  with assms True have "b' = x" "sent' = sent" "r = q" by (simp_all add: publish_def normalize_event_def)
  with enqueue_cases(3,4)[OF x] True show ?thesis by blast
next
  case False
  have "publish s i subject (Encoded evt0) (b, sent) = send t (subject, Encoded body, ev_id evt) (b, sent)"
    using False assms(1-3) by (simp add: publish_def normalize_event_def)
  with assms(4) have "send t (subject, Encoded body, ev_id evt) (b, sent) = ((b', sent'), r)" by simp
  with False show ?thesis
    by (cases "t b sent (subject, Encoded body, ev_id evt)") (simp_all add: send_def, blast)
qed

lemma publish_routes_by_type_witness:
  "\<exists>b' row. publish (sample_relay\<lparr>rl_transport := Some accept_all\<rparr>) 12 ''aloqa.chat.30'' (Encoded sample_event)
       (sample_outbox, []) = ((b', []), None) \<and> ob_rows b' = ob_rows sample_outbox @ [row]"
proof -
  let ?s = "sample_relay\<lparr>rl_transport := Some accept_all\<rparr>"
  obtain b' sent' r where p: "publish ?s 12 ''aloqa.chat.30'' (Encoded sample_event) (sample_outbox, []) = ((b', sent'), r)"
    by (metis prod.collapse)
  have prep: "prepare 12 (rl_clock ?s sample_outbox) ''aloqa.chat.30'' sample_event =
      Ok (stamp 12 (rl_clock ?s sample_outbox) ''aloqa.chat.30'' sample_event,
          stamp 12 (rl_clock ?s sample_outbox) ''aloqa.chat.30'' sample_event, True)"
    by code_simp
  have "snd (publish ?s 12 ''aloqa.chat.30'' (Encoded sample_event) (sample_outbox, [])) = None" by code_simp
  then have "r = None" by (simp add: p)
  moreover have "rl_store ?s = Some pg_store" "rl_transport ?s = Some accept_all" by (simp_all add: sample_relay_def)
  ultimately show ?thesis using publish_routes_by_type[OF _ _ prep p] p by auto
qed

end
