(* ===== verification/Hub.thy ===== *)
theory Hub
  imports Events
begin

text \<open>
  The websocket hub of \<open>internal/platform/ws/hub.go\<close> and the subscription state of
  \<open>internal/platform/ws/state.go\<close>. A client object is its fixed fields; the buffered channel
  \<open>Send\<close> and the drop counter, which the hub, the reader and the writer goroutine share, live in
  \<open>hb_conns\<close>, so that a channel the hub has closed is still there for the handler that holds the
  client. The hub's critical sections are atomic steps, as under its mutex. Sending on a closed
  channel panics in Go; such a run is the value \<open>None\<close>.
\<close>

declare map_of_eq_Some_iff [simp del]

definition send_buf_size :: nat where "send_buf_size = 256"
definition max_slow_drops :: int where "max_slow_drops = 5"

record ws_client =
  hc_id :: uuid
  hc_user :: uuid
  hc_session :: string
  hc_resume :: string
  hc_principal :: string
  hc_guest_session :: uuid
  hc_workspace :: uuid
  hc_call :: uuid

record ws_conn =
  cn_buf :: "wire list"
  cn_closed :: bool
  cn_drops :: int

record hub =
  hb_clients :: "(uuid, ws_client) gomap"
  hb_rooms :: "(string, (uuid, bool) gomap) gomap"
  hb_conns :: "uuid \<Rightarrow> ws_conn"

definition new_conn :: ws_conn where
  "new_conn = \<lparr>cn_buf = [], cn_closed = False, cn_drops = 0\<rparr>"

definition new_hub :: hub where
  "new_hub = \<lparr>hb_clients = [], hb_rooms = [], hb_conns = (\<lambda>_. new_conn)\<rparr>"

text \<open>A non-blocking send: \<open>Some True\<close> when buffered, \<open>Some False\<close> when the buffer is full.\<close>

definition chan_send :: "wire \<Rightarrow> ws_conn \<Rightarrow> (ws_conn \<times> bool) option" where
  "chan_send data c =
     (if cn_closed c then None
      else if length (cn_buf c) < send_buf_size then Some (c\<lparr>cn_buf := cn_buf c @ [data]\<rparr>, True)
      else Some (c, False))"

text \<open>The writer goroutine takes the next message.\<close>

definition drain :: "uuid \<Rightarrow> hub \<Rightarrow> hub" where
  "drain i h = h\<lparr>hb_conns := (hb_conns h)(i := (hb_conns h i)\<lparr>cn_buf := tl (cn_buf (hb_conns h i))\<rparr>)\<rparr>"

section \<open>Subscription state\<close>

text \<open>The \<open>SubscriptionStateStore\<close> interface.\<close>

record 's sub_ops =
  ss_add :: "string \<Rightarrow> string \<Rightarrow> 's \<Rightarrow> 's \<times> error option"
  ss_remove :: "string \<Rightarrow> string \<Rightarrow> 's \<Rightarrow> 's \<times> error option"
  ss_list :: "string \<Rightarrow> 's \<Rightarrow> 's \<times> string list result"
  ss_last :: "string \<Rightarrow> string \<Rightarrow> 's \<Rightarrow> 's \<times> int result"
  ss_record :: "string \<Rightarrow> string \<Rightarrow> int \<Rightarrow> 's \<Rightarrow> 's \<times> error option"

text \<open>\<open>StateStore\<close> over Redis: sets and integers with an expiry. Keys of the two kinds have
  different prefixes. Each command may fail and takes some time.\<close>

record redis =
  rd_sets :: "(string, string list \<times> instant option) gomap"
  rd_ints :: "(string, int \<times> instant option) gomap"
  rd_now :: instant
  rd_steps :: "(error option \<times> nat) list"

definition redis_command :: "redis \<Rightarrow> redis \<times> error option" where
  "redis_command r =
     (case rd_steps r of
        [] \<Rightarrow> (r, None)
      | (fault, dt) # rest \<Rightarrow> (r\<lparr>rd_steps := rest, rd_now := rd_now r + int dt\<rparr>, fault))"

definition live :: "instant \<Rightarrow> instant option \<Rightarrow> bool" where
  "live now exp = (case exp of None \<Rightarrow> True | Some t \<Rightarrow> now < t)"

definition redis_members :: "redis \<Rightarrow> string \<Rightarrow> string list" where
  "redis_members r key =
     (case map_of (rd_sets r) key of
        None \<Rightarrow> [] | Some (ms, exp) \<Rightarrow> if live (rd_now r) exp then ms else [])"

definition redis_int :: "redis \<Rightarrow> string \<Rightarrow> int option" where
  "redis_int r key =
     (case map_of (rd_ints r) key of
        None \<Rightarrow> None | Some (v, exp) \<Rightarrow> if live (rd_now r) exp then Some v else None)"

text \<open>\<open>SADD\<close> keeps the expiry of a live set and starts a dead one without expiry.\<close>

definition set_expiry :: "redis \<Rightarrow> string \<Rightarrow> instant option" where
  "set_expiry r key =
     (case map_of (rd_sets r) key of
        Some (ms, exp) \<Rightarrow> if live (rd_now r) exp then exp else None
      | None \<Rightarrow> None)"

definition normalize_resume_key :: "string \<Rightarrow> string" where
  "normalize_resume_key k = trim_space k"

definition subscription_key :: "string \<Rightarrow> string" where
  "subscription_key k = ''ws:subscriptions:'' @ k"

definition delivered_sequence_key :: "string \<Rightarrow> string \<Rightarrow> string" where
  "delivered_sequence_key k room = ''ws:sequence:'' @ k @ '':'' @ room"

definition add_subscription ::
  "duration \<Rightarrow> string \<Rightarrow> string \<Rightarrow> redis \<Rightarrow> redis \<times> error option" where
  "add_subscription ttl resume room r0 =
     (let k = normalize_resume_key resume; key = subscription_key k in
      if k = [] \<or> trim_space room = [] then (r0, None)
      else case redis_command r0 of
        (r1, Some e) \<Rightarrow> (r1, Some (Wrapped (''ws state: sadd '' @ key) e))
      | (r1, None) \<Rightarrow>
          (let ms = redis_members r1 key;
               r2 = r1\<lparr>rd_sets := AList.update key (if room \<in> set ms then ms else ms @ [room], set_expiry r1 key)
                        (rd_sets r1)\<rparr> in
           case redis_command r2 of
             (r3, Some e) \<Rightarrow> (r3, Some (Wrapped (''ws state: expire '' @ key) e))
           | (r3, None) \<Rightarrow>
               (r3\<lparr>rd_sets := AList.update key (redis_members r3 key, Some (rd_now r3 + ttl)) (rd_sets r3)\<rparr>, None)))"

definition remove_subscription :: "string \<Rightarrow> string \<Rightarrow> redis \<Rightarrow> redis \<times> error option" where
  "remove_subscription resume room r0 =
     (let k = normalize_resume_key resume; key = subscription_key k in
      if k = [] \<or> trim_space room = [] then (r0, None)
      else case redis_command r0 of
        (r1, Some e) \<Rightarrow> (r1, Some (Wrapped (''ws state: srem '' @ key) e))
      | (r1, None) \<Rightarrow>
          (case map_of (rd_sets r1) key of
             None \<Rightarrow> (r1, None)
           | Some (ms, exp) \<Rightarrow>
               (r1\<lparr>rd_sets := AList.update key (filter (\<lambda>m. m \<noteq> room) ms, exp) (rd_sets r1)\<rparr>, None)))"

definition list_subscriptions :: "string \<Rightarrow> redis \<Rightarrow> redis \<times> string list result" where
  "list_subscriptions resume r0 =
     (let k = normalize_resume_key resume; key = subscription_key k in
      if k = [] then (r0, Ok [])
      else case redis_command r0 of
        (r1, Some e) \<Rightarrow> (r1, Err (Wrapped (''ws state: smembers '' @ key) e))
      | (r1, None) \<Rightarrow> (r1, Ok (redis_members r1 key)))"

definition last_delivered_sequence :: "string \<Rightarrow> string \<Rightarrow> redis \<Rightarrow> redis \<times> int result" where
  "last_delivered_sequence resume room r0 =
     (let k = normalize_resume_key resume; key = delivered_sequence_key k room in
      if k = [] \<or> trim_space room = [] then (r0, Ok 0)
      else case redis_command r0 of
        (r1, Some e) \<Rightarrow> if e = RedisNil then (r1, Ok 0) else (r1, Err (Wrapped (''ws state: get '' @ key) e))
      | (r1, None) \<Rightarrow> (r1, Ok (case redis_int r1 key of None \<Rightarrow> 0 | Some v \<Rightarrow> v)))"

definition record_delivered_sequence ::
  "duration \<Rightarrow> string \<Rightarrow> string \<Rightarrow> int \<Rightarrow> redis \<Rightarrow> redis \<times> error option" where
  "record_delivered_sequence ttl resume room sequence r0 =
     (let k = normalize_resume_key resume; key = delivered_sequence_key k room in
      if k = [] \<or> trim_space room = [] \<or> sequence \<le> 0 then (r0, None)
      else case redis_command r0 of
        (r1, fault) \<Rightarrow>
          (if fault \<noteq> None \<and> fault \<noteq> Some RedisNil
           then (r1, Some (Wrapped (''ws state: get '' @ key) (the fault)))
           else (let current = (if fault = Some RedisNil then 0
                                else case redis_int r1 key of None \<Rightarrow> 0 | Some v \<Rightarrow> v) in
             if current \<ge> sequence then (r1, None)
             else (case redis_command r1 of
                     (r2, Some e) \<Rightarrow> (r2, Some (Wrapped (''ws state: set '' @ key) e))
                   | (r2, None) \<Rightarrow>
                       (r2\<lparr>rd_ints := AList.update key (sequence, Some (rd_now r2 + ttl)) (rd_ints r2)\<rparr>, None)))))"

section \<open>Hub operations\<close>

record 's ws =
  ws_hub :: hub
  ws_state :: 's

definition add_to_room :: "string \<Rightarrow> uuid \<Rightarrow> hub \<Rightarrow> hub" where
  "add_to_room room i h =
     h\<lparr>hb_rooms := AList.update room
         (AList.update i True (case map_of (hb_rooms h) room of None \<Rightarrow> [] | Some ms \<Rightarrow> ms)) (hb_rooms h)\<rparr>"

text \<open>\<open>uuid_text\<close> is \<open>uuid.UUID.String\<close>.\<close>

definition register_client :: "(uuid \<Rightarrow> string) \<Rightarrow> ws_client \<Rightarrow> hub \<Rightarrow> hub" where
  "register_client uuid_text c h =
     add_to_room (''aloqa.signal.'' @ uuid_text (hc_user c)) (hc_id c)
       (h\<lparr>hb_clients := AList.update (hc_id c) c (hb_clients h)\<rparr>)"

fun drop_member :: "uuid \<Rightarrow> (string, (uuid, bool) gomap) gomap \<Rightarrow> (string, (uuid, bool) gomap) gomap" where
  "drop_member i [] = []"
| "drop_member i ((room, ms) # rs) =
     (let ms' = AList.delete i ms in
      if length ms' = 0 then drop_member i rs else (room, ms') # drop_member i rs)"

definition remove_client :: "uuid \<Rightarrow> hub \<Rightarrow> hub \<times> ws_client option" where
  "remove_client i h =
     (case map_of (hb_clients h) i of
        None \<Rightarrow> (h, None)
      | Some c \<Rightarrow>
          (h\<lparr>hb_clients := AList.delete i (hb_clients h),
             hb_conns := (hb_conns h)(i := (hb_conns h i)\<lparr>cn_closed := True\<rparr>),
             hb_rooms := drop_member i (hb_rooms h)\<rparr>, Some c))"

definition unregister_client :: "uuid \<Rightarrow> hub \<Rightarrow> hub" where
  "unregister_client i h = fst (remove_client i h)"

fun remove_clients :: "uuid list \<Rightarrow> hub \<Rightarrow> hub" where
  "remove_clients [] h = h"
| "remove_clients (i # xs) h = remove_clients xs (fst (remove_client i h))"

definition shutdown_hub :: "hub \<Rightarrow> hub" where
  "shutdown_hub h = remove_clients (map fst (hb_clients h)) h"

definition evict_session :: "string \<Rightarrow> hub \<Rightarrow> hub" where
  "evict_session session h =
     (if session = [] then h
      else remove_clients (map fst (filter (\<lambda>(i, c). hc_session c = session) (hb_clients h))) h)"

text \<open>\<open>Subscribe\<close> and \<open>Unsubscribe\<close> take the parsed client id; errors of the state store are
  logged.\<close>

definition subscribe :: "'s sub_ops option \<Rightarrow> uuid option \<Rightarrow> string \<Rightarrow> 's ws \<Rightarrow> 's ws" where
  "subscribe store client room w =
     (case client of
        None \<Rightarrow> w
      | Some i \<Rightarrow>
          (case map_of (hb_clients (ws_hub w)) i of
             None \<Rightarrow> w
           | Some c \<Rightarrow>
               (let w1 = w\<lparr>ws_hub := add_to_room room i (ws_hub w)\<rparr> in
                case store of
                  None \<Rightarrow> w1
                | Some st \<Rightarrow> w1\<lparr>ws_state := fst (ss_add st (hc_resume c) room (ws_state w1))\<rparr>)))"

definition unsubscribe :: "'s sub_ops option \<Rightarrow> uuid option \<Rightarrow> string \<Rightarrow> 's ws \<Rightarrow> 's ws" where
  "unsubscribe store client room w =
     (case client of
        None \<Rightarrow> w
      | Some i \<Rightarrow>
          (case map_of (hb_rooms (ws_hub w)) room of
             None \<Rightarrow> w
           | Some ms \<Rightarrow>
               (let h = ws_hub w;
                    ms' = AList.delete i ms;
                    h1 = (if length ms' = 0 then h\<lparr>hb_rooms := AList.delete room (hb_rooms h)\<rparr>
                          else h\<lparr>hb_rooms := AList.update room ms' (hb_rooms h)\<rparr>);
                    resume = (case map_of (hb_clients h) i of None \<Rightarrow> [] | Some c \<Rightarrow> hc_resume c);
                    w1 = w\<lparr>ws_hub := h1\<rparr> in
                case store of
                  None \<Rightarrow> w1
                | Some st \<Rightarrow>
                    if resume = [] then w1
                    else w1\<lparr>ws_state := fst (ss_remove st resume room (ws_state w1))\<rparr>)))"

text \<open>The sends of a broadcast, under the read lock: the clients that took the message, and the ones
  whose drop count reached the limit.\<close>

fun deliver_loop ::
  "wire \<Rightarrow> uuid list \<Rightarrow> hub \<Rightarrow> ws_client list \<Rightarrow> uuid list \<Rightarrow> (hub \<times> ws_client list \<times> uuid list) option" where
  "deliver_loop data [] h delivered evict = Some (h, delivered, evict)"
| "deliver_loop data (i # xs) h delivered evict =
     (case map_of (hb_clients h) i of
        None \<Rightarrow> deliver_loop data xs h delivered evict
      | Some c \<Rightarrow>
          (case chan_send data (hb_conns h i) of
             None \<Rightarrow> None
           | Some (cn, sent) \<Rightarrow>
               if sent
               then deliver_loop data xs (h\<lparr>hb_conns := (hb_conns h)(i := cn\<lparr>cn_drops := 0\<rparr>)\<rparr>) (delivered @ [c]) evict
               else (let drops = cn_drops cn + 1;
                         h' = h\<lparr>hb_conns := (hb_conns h)(i := cn\<lparr>cn_drops := drops\<rparr>)\<rparr> in
                     deliver_loop data xs h' delivered
                       (if drops \<ge> max_slow_drops then evict @ [i] else evict))))"

definition record_delivery :: "'s sub_ops option \<Rightarrow> string \<Rightarrow> wire \<Rightarrow> ws_client \<Rightarrow> 's \<Rightarrow> 's" where
  "record_delivery store room data c st =
     (case store of
        None \<Rightarrow> st
      | Some ops \<Rightarrow>
          if hc_resume c = [] then st
          else (case data of
                  Malformed m \<Rightarrow> st
                | Encoded evt \<Rightarrow>
                    if ev_sequence evt \<le> 0 then st
                    else fst (ss_record ops (hc_resume c) (if room = [] then ev_subject evt else room)
                                (ev_sequence evt) st)))"

definition finish_delivery ::
  "'s sub_ops option \<Rightarrow> string \<Rightarrow> wire \<Rightarrow> hub \<times> ws_client list \<times> uuid list \<Rightarrow> 's ws \<Rightarrow> 's ws" where
  "finish_delivery store room data r w =
     (case r of (h, delivered, evict) \<Rightarrow>
        w\<lparr>ws_hub := remove_clients evict h,
          ws_state := fold (record_delivery store room data) delivered (ws_state w)\<rparr>)"

definition broadcast_to_room :: "'s sub_ops option \<Rightarrow> string \<Rightarrow> wire \<Rightarrow> 's ws \<Rightarrow> 's ws option" where
  "broadcast_to_room store room data w =
     (case map_of (hb_rooms (ws_hub w)) room of
        None \<Rightarrow> Some w
      | Some ms \<Rightarrow>
          map_option (\<lambda>r. finish_delivery store room data r w)
            (deliver_loop data (map fst ms) (ws_hub w) [] []))"

definition user_connections :: "uuid \<Rightarrow> uuid \<Rightarrow> hub \<Rightarrow> uuid list" where
  "user_connections workspace user h =
     map fst (filter (\<lambda>(i, c). hc_user c = user \<and> (workspace \<noteq> uuid_nil \<longrightarrow> hc_workspace c = workspace))
       (hb_clients h))"

definition send_to_user :: "'s sub_ops option \<Rightarrow> uuid \<Rightarrow> uuid \<Rightarrow> wire \<Rightarrow> 's ws \<Rightarrow> 's ws option" where
  "send_to_user store workspace user data w =
     map_option (\<lambda>r. finish_delivery store [] data r w)
       (deliver_loop data (user_connections workspace user (ws_hub w)) (ws_hub w) [] [])"

text \<open>A handler's own non-blocking send to its client, outside the hub's lock.\<close>

definition client_push :: "uuid \<Rightarrow> wire \<Rightarrow> hub \<Rightarrow> (hub \<times> bool) option" where
  "client_push i data h =
     map_option (\<lambda>(cn, sent). (h\<lparr>hb_conns := (hb_conns h)(i := cn)\<rparr>, sent)) (chan_send data (hb_conns h i))"

section \<open>The invariant\<close>

text \<open>\<open>over\<close> are the clients whose drop count may have reached the limit while they wait for
  their eviction.\<close>

definition client_ok :: "uuid set \<Rightarrow> hub \<Rightarrow> uuid \<Rightarrow> ws_client \<Rightarrow> bool" where
  "client_ok over h i c \<longleftrightarrow> hc_id c = i \<and> \<not> cn_closed (hb_conns h i) \<and> 0 \<le> cn_drops (hb_conns h i) \<and>
     (i \<notin> over \<longrightarrow> cn_drops (hb_conns h i) < max_slow_drops)"

definition rooms_ok :: "uuid set \<Rightarrow> (string, (uuid, bool) gomap) gomap \<Rightarrow> bool" where
  "rooms_ok ids rs \<longleftrightarrow> wf_map rs \<and>
     (\<forall>room ms. map_of rs room = Some ms \<longrightarrow> ms \<noteq> [] \<and> wf_map ms \<and> keys ms \<subseteq> ids)"

definition hub_inv :: "uuid set \<Rightarrow> hub \<Rightarrow> bool" where
  "hub_inv over h \<longleftrightarrow> wf_map (hb_clients h) \<and> rooms_ok (keys (hb_clients h)) (hb_rooms h) \<and>
     (\<forall>i c. map_of (hb_clients h) i = Some c \<longrightarrow> client_ok over h i c) \<and>
     (\<forall>i. length (cn_buf (hb_conns h i)) \<le> send_buf_size)"

abbreviation hub_ok :: "hub \<Rightarrow> bool" where "hub_ok \<equiv> hub_inv {}"

lemma hub_inv_mono: "hub_inv A h \<Longrightarrow> A \<subseteq> B \<Longrightarrow> hub_inv B h"
  unfolding hub_inv_def client_ok_def by blast

lemma new_hub_ok: "hub_ok new_hub"
  by (simp add: hub_inv_def new_hub_def rooms_ok_def new_conn_def)

lemma add_to_room_sel [simp]:
  "hb_clients (add_to_room room i h) = hb_clients h" "hb_conns (add_to_room room i h) = hb_conns h"
  by (simp_all add: add_to_room_def)

lemma add_to_room_ok:
  assumes "rooms_ok ids (hb_rooms h)" "i \<in> ids"
  shows "rooms_ok ids (hb_rooms (add_to_room room i h))"
proof -
  let ?ms = "case map_of (hb_rooms h) room of None \<Rightarrow> [] | Some ms \<Rightarrow> ms"
  have "wf_map ?ms \<and> keys ?ms \<subseteq> ids"
    using assms(1) by (cases "map_of (hb_rooms h) room") (simp_all add: rooms_ok_def)
  then have "wf_map (AList.update i True ?ms)" "keys (AList.update i True ?ms) \<subseteq> ids"
    using assms(2) by simp_all
  moreover have "AList.update i True ?ms \<noteq> []"
    using keys_update[of i True ?ms] by force
  ultimately show ?thesis
    using assms(1) by (simp add: rooms_ok_def add_to_room_def)
qed

lemma rooms_ok_mono: "rooms_ok A rs \<Longrightarrow> A \<subseteq> B \<Longrightarrow> rooms_ok B rs"
  unfolding rooms_ok_def by blast

lemma register_ok:
  assumes "hub_inv over h" "hc_id c \<notin> keys (hb_clients h)" "hb_conns h (hc_id c) = new_conn"
  shows "hub_inv over (register_client ut c h)"
proof -
  let ?h = "h\<lparr>hb_clients := AList.update (hc_id c) c (hb_clients h)\<rparr>"
  have "rooms_ok (keys (hb_clients h)) (hb_rooms h)" using assms(1) by (simp add: hub_inv_def)
  from rooms_ok_mono[OF this, of "keys (hb_clients ?h)"]
  have "rooms_ok (keys (hb_clients ?h)) (hb_rooms ?h)" by (simp add: subset_insertI)
  then have "rooms_ok (keys (hb_clients ?h)) (hb_rooms (register_client ut c h))"
    unfolding register_client_def by (rule add_to_room_ok) simp
  with assms show ?thesis
    by (simp add: hub_inv_def register_client_def client_ok_def new_conn_def max_slow_drops_def)
qed

lemma drop_member_keys: "keys (drop_member i rs) \<subseteq> keys rs"
  by (induction i rs rule: drop_member.induct) (auto simp: Let_def)

lemma drop_member_lookup:
  "wf_map rs \<Longrightarrow> map_of (drop_member i rs) room =
     (case map_of rs room of None \<Rightarrow> None
      | Some ms \<Rightarrow> if AList.delete i ms = [] then None else Some (AList.delete i ms))"
proof (induction i rs rule: drop_member.induct)
  case (2 i r ms rs)
  have fresh: "r \<notin> keys rs" using 2(3) by simp
  then have "r \<notin> keys (drop_member i rs)" using drop_member_keys[of i rs] by blast
  with fresh have "map_of (drop_member i rs) r = None" "map_of rs r = None" by (simp_all add: map_of_None_keys)
  moreover have "map_of (drop_member i rs) room =
     (case map_of rs room of None \<Rightarrow> None
      | Some ms \<Rightarrow> if AList.delete i ms = [] then None else Some (AList.delete i ms))"
    using 2 by (cases "length (AList.delete i ms) = 0") simp_all
  ultimately show ?case by (simp add: Let_def)
qed simp

lemma drop_member_wf: "wf_map rs \<Longrightarrow> wf_map (drop_member i rs)"
proof (induction i rs rule: drop_member.induct)
  case (2 i r ms rs)
  have "r \<notin> keys (drop_member i rs)" using 2(3) drop_member_keys[of i rs] by auto
  moreover have "wf_map (drop_member i rs)" using 2 by (cases "length (AList.delete i ms) = 0") simp_all
  ultimately show ?case by (simp add: Let_def)
qed simp

lemma drop_member_ok: "rooms_ok ids rs \<Longrightarrow> rooms_ok (ids - {i}) (drop_member i rs)"
proof -
  assume ok: "rooms_ok ids rs"
  then have wf: "wf_map rs" by (simp add: rooms_ok_def)
  show ?thesis
    unfolding rooms_ok_def
  proof (intro conjI allI impI drop_member_wf[OF wf])
    fix room ms assume "map_of (drop_member i rs) room = Some ms"
    then obtain ms0 where "map_of rs room = Some ms0" "ms = AList.delete i ms0" "ms \<noteq> []"
      by (auto simp: drop_member_lookup[OF wf] split: option.splits if_splits)
    with ok show "ms \<noteq> []" "wf_map ms" "keys ms \<subseteq> ids - {i}" by (auto simp: rooms_ok_def)
  qed
qed

lemma remove_client_inv:
  assumes "hub_inv over h" shows "hub_inv (over - {i}) (fst (remove_client i h))"
proof (cases "map_of (hb_clients h) i")
  case None
  have "hub_inv (over - {i}) h"
    unfolding hub_inv_def
  proof (intro conjI allI impI)
    fix j c assume j: "map_of (hb_clients h) j = Some c"
    then have "j \<noteq> i" using None by auto
    with j assms show "client_ok (over - {i}) h j c" by (simp add: hub_inv_def client_ok_def)
  qed (use assms in \<open>simp_all add: hub_inv_def\<close>)
  with None show ?thesis by (simp add: remove_client_def)
next
  case (Some c)
  from assms have "rooms_ok (keys (hb_clients h) - {i}) (drop_member i (hb_rooms h))"
    by (intro drop_member_ok) (simp add: hub_inv_def)
  with assms Some show ?thesis by (simp add: remove_client_def hub_inv_def client_ok_def)
qed

lemma remove_client_sel:
  "hb_conns (fst (remove_client i h)) j =
     (if j = i \<and> i \<in> keys (hb_clients h) then (hb_conns h i)\<lparr>cn_closed := True\<rparr> else hb_conns h j)"
  "keys (hb_clients (fst (remove_client i h))) = keys (hb_clients h) - {i}"
proof (atomize (full), cases "map_of (hb_clients h) i")
  case None
  then have "i \<notin> keys (hb_clients h)" by (simp add: map_of_None_keys)
  with None show "hb_conns (fst (remove_client i h)) j =
     (if j = i \<and> i \<in> keys (hb_clients h) then (hb_conns h i)\<lparr>cn_closed := True\<rparr> else hb_conns h j) \<and>
     keys (hb_clients (fst (remove_client i h))) = keys (hb_clients h) - {i}"
    by (auto simp: remove_client_def)
next
  case (Some c)
  then have "i \<in> keys (hb_clients h)" using map_of_None_keys[of "hb_clients h" i] by auto
  with Some show "hb_conns (fst (remove_client i h)) j =
     (if j = i \<and> i \<in> keys (hb_clients h) then (hb_conns h i)\<lparr>cn_closed := True\<rparr> else hb_conns h j) \<and>
     keys (hb_clients (fst (remove_client i h))) = keys (hb_clients h) - {i}"
    by (simp add: remove_client_def)
qed

lemma remove_clients_inv: "hub_inv over h \<Longrightarrow> hub_inv (over - set xs) (remove_clients xs h)"
proof (induction xs arbitrary: over h)
  case (Cons i xs)
  have "over - set (i # xs) = over - {i} - set xs" by auto
  then show ?case using Cons.IH[OF remove_client_inv[OF Cons.prems, of i]] by (simp only: remove_clients.simps)
qed simp

lemma remove_clients_sel:
  "keys (hb_clients (remove_clients xs h)) = keys (hb_clients h) - set xs"
  "hb_conns (remove_clients xs h) j =
     (if j \<in> set xs \<and> j \<in> keys (hb_clients h) then (hb_conns h j)\<lparr>cn_closed := True\<rparr> else hb_conns h j)"
  by (induction xs arbitrary: h) (auto simp: remove_client_sel)

text \<open>What a broadcast does to one connection.\<close>

definition offer :: "wire \<Rightarrow> ws_conn \<Rightarrow> ws_conn" where
  "offer data c =
     (if length (cn_buf c) < send_buf_size then c\<lparr>cn_buf := cn_buf c @ [data], cn_drops := 0\<rparr>
      else c\<lparr>cn_drops := cn_drops c + 1\<rparr>)"

definition takes :: "hub \<Rightarrow> uuid \<Rightarrow> bool" where
  "takes h i \<longleftrightarrow> i \<in> keys (hb_clients h) \<and> length (cn_buf (hb_conns h i)) < send_buf_size"

definition overflows :: "hub \<Rightarrow> uuid \<Rightarrow> bool" where
  "overflows h i \<longleftrightarrow> i \<in> keys (hb_clients h) \<and> \<not> length (cn_buf (hb_conns h i)) < send_buf_size \<and>
     cn_drops (hb_conns h i) + 1 \<ge> max_slow_drops"

definition offered :: "wire \<Rightarrow> uuid list \<Rightarrow> hub \<Rightarrow> hub" where
  "offered data xs h = h\<lparr>hb_conns := (\<lambda>i. if i \<in> set xs \<and> i \<in> keys (hb_clients h)
     then offer data (hb_conns h i) else hb_conns h i)\<rparr>"

lemma offered_Cons:
  assumes "i \<notin> set xs" "i \<in> keys (hb_clients h)"
  shows "offered data xs (h\<lparr>hb_conns := (hb_conns h)(i := offer data (hb_conns h i))\<rparr>) = offered data (i # xs) h"
proof -
  let ?f = "(hb_conns h)(i := offer data (hb_conns h i))"
  have "(if j \<in> set xs \<and> j \<in> keys (hb_clients h) then offer data (?f j) else ?f j) =
      (if j \<in> set (i # xs) \<and> j \<in> keys (hb_clients h) then offer data (hb_conns h j) else hb_conns h j)" for j
    using assms by (cases "j = i") auto
  then have "(\<lambda>j. if j \<in> set xs \<and> j \<in> keys (hb_clients h) then offer data (?f j) else ?f j) =
      (\<lambda>j. if j \<in> set (i # xs) \<and> j \<in> keys (hb_clients h) then offer data (hb_conns h j) else hb_conns h j)" by blast
  note eq = this
  let ?h = "h\<lparr>hb_conns := ?f\<rparr>"
  have sel: "hb_conns (offered data ys k) = (\<lambda>j. if j \<in> set ys \<and> j \<in> keys (hb_clients k)
      then offer data (hb_conns k j) else hb_conns k j)" for ys k by (simp add: offered_def)
  have "hb_conns ?h = ?f" "hb_clients ?h = hb_clients h" by simp_all
  then have "hb_conns (offered data xs ?h) = hb_conns (offered data (i # xs) h)"
    unfolding sel using eq by presburger
  then show ?thesis by (intro hub.equality) (simp_all add: offered_def)
qed

lemma deliver_loop_spec:
  assumes "distinct xs" "\<And>i. i \<in> set xs \<Longrightarrow> i \<in> keys (hb_clients h) \<Longrightarrow> \<not> cn_closed (hb_conns h i)"
  shows "deliver_loop data xs h del ev =
    Some (offered data xs h, del @ map (\<lambda>i. the (map_of (hb_clients h) i)) (filter (takes h) xs),
          ev @ filter (overflows h) xs)"
  using assms
proof (induction xs arbitrary: h del ev)
  case Nil
  show ?case by (simp add: offered_def)
next
  case (Cons i xs)
  show ?case
  proof (cases "map_of (hb_clients h) i")
    case None
    then have out: "i \<notin> keys (hb_clients h)" by (simp add: map_of_None_keys)
    then have "j \<in> set (i # xs) \<and> j \<in> keys (hb_clients h) \<longleftrightarrow> j \<in> set xs \<and> j \<in> keys (hb_clients h)" for j by auto
    then have "offered data (i # xs) h = offered data xs h" unfolding offered_def by simp
    with Cons out None show ?thesis by (simp add: takes_def overflows_def)
  next
    case (Some c)
    then have "i \<in> keys (hb_clients h)" using map_of_None_keys[of "hb_clients h" i] by auto
    with Cons.prems have i: "i \<in> keys (hb_clients h)" "i \<notin> set xs" "\<not> cn_closed (hb_conns h i)" by auto
    let ?h = "h\<lparr>hb_conns := (hb_conns h)(i := offer data (hb_conns h i))\<rparr>"
    have sel: "hb_conns ?h j = hb_conns h j" "hb_clients ?h = hb_clients h" if "j \<in> set xs" for j
      using that i(2) by auto
    have same: "filter (takes ?h) xs = filter (takes h) xs" "filter (overflows ?h) xs = filter (overflows h) xs"
      unfolding takes_def overflows_def by (rule filter_cong[OF refl]; simp only: sel)+
    have open_: "\<not> cn_closed (hb_conns ?h j)" if "j \<in> set xs" "j \<in> keys (hb_clients ?h)" for j
      using that Cons.prems(2)[of j] i(2) by auto
    have all: "offered data xs ?h = offered data (i # xs) h" by (rule offered_Cons[OF i(2,1)])
    have IH: "deliver_loop data xs ?h d e = Some (offered data (i # xs) h,
        d @ map (\<lambda>i. the (map_of (hb_clients h) i)) (filter (takes h) xs), e @ filter (overflows h) xs)" for d e
      using Cons.IH[of ?h d e, OF _ open_] Cons.prems(1) unfolding same all by simp
    show ?thesis
    proof (cases "length (cn_buf (hb_conns h i)) < send_buf_size")
      case True
      with Some i(1,3) have step: "deliver_loop data (i # xs) h del ev = deliver_loop data xs ?h (del @ [c]) ev"
        by (simp add: chan_send_def offer_def)
      have "takes h i" "\<not> overflows h i" using True i(1) by (simp_all add: takes_def overflows_def)
      with Some show ?thesis unfolding step IH by simp
    next
      case False
      with Some i(1,3) have step: "deliver_loop data (i # xs) h del ev = deliver_loop data xs ?h del
          (if cn_drops (hb_conns h i) + 1 \<ge> max_slow_drops then ev @ [i] else ev)"
        by (simp add: chan_send_def offer_def Let_def)
      have "\<not> takes h i" "overflows h i \<longleftrightarrow> cn_drops (hb_conns h i) + 1 \<ge> max_slow_drops"
        using False i(1) by (simp_all add: takes_def overflows_def)
      with Some show ?thesis unfolding step IH by simp
    qed
  qed
qed

lemma offered_inv:
  assumes "hub_inv over h" shows "hub_inv (over \<union> {i. i \<in> set xs \<and> overflows h i}) (offered data xs h)"
proof -
  have "client_ok (over \<union> {i. i \<in> set xs \<and> overflows h i}) (offered data xs h) i c" if "map_of (hb_clients h) i = Some c" for i c
  proof -
    have "i \<in> keys (hb_clients h)" using that map_of_None_keys[of "hb_clients h" i] by auto
    moreover have "client_ok over h i c" using assms that by (simp add: hub_inv_def)
    ultimately show ?thesis by (auto simp: client_ok_def offered_def offer_def overflows_def max_slow_drops_def)
  qed
  moreover have "length (cn_buf (hb_conns (offered data xs h) i)) \<le> send_buf_size" for i
    using assms by (auto simp: hub_inv_def offered_def offer_def)
  ultimately show ?thesis using assms by (simp add: hub_inv_def offered_def)
qed

text \<open>The hub after a message was offered to the clients \<open>is\<close> and the slow ones were evicted.\<close>

definition after_delivery :: "wire \<Rightarrow> uuid list \<Rightarrow> hub \<Rightarrow> hub" where
  "after_delivery data xs h = remove_clients (filter (overflows h) xs) (offered data xs h)"

lemma after_delivery_ok: "hub_inv over h \<Longrightarrow> hub_inv over (after_delivery data xs h)"
proof -
  assume "hub_inv over h"
  from remove_clients_inv[OF offered_inv[OF this, of xs data], of "filter (overflows h) xs"]
  show ?thesis unfolding after_delivery_def by (rule hub_inv_mono) auto
qed

lemma deliver_ok:
  assumes "hub_inv over h" "distinct xs"
  shows "\<exists>del. deliver_loop data xs h [] [] = Some (offered data xs h, del, filter (overflows h) xs) \<and>
     del = map (\<lambda>i. the (map_of (hb_clients h) i)) (filter (takes h) xs)"
proof -
  have "\<not> cn_closed (hb_conns h i)" if "i \<in> keys (hb_clients h)" for i
  proof -
    from that obtain c where "map_of (hb_clients h) i = Some c" by (metis map_of_None_keys option.exhaust)
    with assms(1) show ?thesis by (simp add: hub_inv_def client_ok_def)
  qed
  with deliver_loop_spec[OF assms(2), of h data "[]" "[]"] show ?thesis by simp
qed

lemma broadcast_hub:
  assumes "hub_inv over (ws_hub w)"
  shows "\<exists>w'. broadcast_to_room store room data w = Some w' \<and>
    ws_hub w' = (case map_of (hb_rooms (ws_hub w)) room of None \<Rightarrow> ws_hub w
                 | Some ms \<Rightarrow> after_delivery data (map fst ms) (ws_hub w))"
proof (cases "map_of (hb_rooms (ws_hub w)) room")
  case (Some ms)
  with assms have "wf_map ms" by (simp add: hub_inv_def rooms_ok_def)
  from deliver_ok[OF assms this, of data] Some show ?thesis
    by (auto simp: broadcast_to_room_def finish_delivery_def after_delivery_def)
qed (simp add: broadcast_to_room_def)

lemma send_to_user_hub:
  assumes "hub_inv over (ws_hub w)"
  shows "\<exists>w'. send_to_user store ws u data w = Some w' \<and>
    ws_hub w' = after_delivery data (user_connections ws u (ws_hub w)) (ws_hub w)"
proof -
  have "distinct (user_connections ws u (ws_hub w))"
    using assms unfolding user_connections_def hub_inv_def by (intro wf_filter) simp
  from deliver_ok[OF assms this, of data] show ?thesis
    by (auto simp: send_to_user_def finish_delivery_def after_delivery_def)
qed

lemma subscribe_ok:
  assumes "hub_inv over (ws_hub w)" shows "hub_inv over (ws_hub (subscribe store client room w))"
proof (cases client)
  case (Some i)
  show ?thesis
  proof (cases "map_of (hb_clients (ws_hub w)) i")
    case None
    with Some assms show ?thesis by (simp add: subscribe_def)
  next
    case (Some c)
    then have "i \<in> keys (hb_clients (ws_hub w))" using map_of_None_keys[of "hb_clients (ws_hub w)" i] by auto
    with assms have "hub_inv over (add_to_room room i (ws_hub w))"
      by (simp add: hub_inv_def client_ok_def add_to_room_ok)
    with Some \<open>client = Some i\<close> show ?thesis by (simp add: subscribe_def Let_def split: option.split)
  qed
qed (use assms in \<open>simp add: subscribe_def\<close>)

lemma rooms_ok_delete: "rooms_ok ids rs \<Longrightarrow> rooms_ok ids (AList.delete room rs)"
  by (simp add: rooms_ok_def)

lemma rooms_ok_update:
  "rooms_ok ids rs \<Longrightarrow> ms \<noteq> [] \<Longrightarrow> wf_map ms \<Longrightarrow> keys ms \<subseteq> ids \<Longrightarrow> rooms_ok ids (AList.update room ms rs)"
  by (simp add: rooms_ok_def)

lemma unsubscribe_ok:
  assumes "hub_inv over (ws_hub w)" shows "hub_inv over (ws_hub (unsubscribe store client room w))"
proof (cases client)
  case (Some i)
  show ?thesis
  proof (cases "map_of (hb_rooms (ws_hub w)) room")
    case None
    with Some assms show ?thesis by (simp add: unsubscribe_def)
  next
    case ms: (Some ms)
    let ?h = "ws_hub w"
    let ?rs = "if length (AList.delete i ms) = 0 then AList.delete room (hb_rooms ?h)
        else AList.update room (AList.delete i ms) (hb_rooms ?h)"
    from assms have rs: "rooms_ok (keys (hb_clients ?h)) (hb_rooms ?h)" by (simp add: hub_inv_def)
    with ms have "wf_map ms" "keys ms \<subseteq> keys (hb_clients ?h)" by (simp_all add: rooms_ok_def)
    then have "wf_map (AList.delete i ms)" "keys (AList.delete i ms) \<subseteq> keys (hb_clients ?h)" by auto
    with rs have "rooms_ok (keys (hb_clients ?h)) ?rs"
      by (cases "AList.delete i ms = []") (simp_all del: keys_delete add: rooms_ok_delete rooms_ok_update)
    with assms have "hub_inv over (?h\<lparr>hb_rooms := ?rs\<rparr>)" by (simp add: hub_inv_def client_ok_def)
    moreover have "ws_hub (unsubscribe store client room w) = ?h\<lparr>hb_rooms := ?rs\<rparr>"
      using Some ms by (simp add: unsubscribe_def Let_def split: option.split)
    ultimately show ?thesis by simp
  qed
qed (use assms in \<open>simp add: unsubscribe_def\<close>)

lemma conn_update_ok:
  assumes "hub_inv over h" "cn_closed cn = cn_closed (hb_conns h i)" "cn_drops cn = cn_drops (hb_conns h i)"
    and "length (cn_buf cn) \<le> send_buf_size"
  shows "hub_inv over (h\<lparr>hb_conns := (hb_conns h)(i := cn)\<rparr>)"
  using assms by (auto simp: hub_inv_def client_ok_def)

lemma client_push_ok: "hub_inv over h \<Longrightarrow> client_push i data h = Some (h', b) \<Longrightarrow> hub_inv over h'"
  by (auto simp: client_push_def chan_send_def send_buf_size_def intro!: conn_update_ok split: if_splits)

lemma drain_ok: "hub_inv over h \<Longrightarrow> hub_inv over (drain i h)"
proof -
  assume ok: "hub_inv over h"
  then have "length (cn_buf (hb_conns h i)) \<le> send_buf_size" by (simp add: hub_inv_def)
  with ok show ?thesis unfolding drain_def by (intro conn_update_ok) simp_all
qed

section \<open>Histories of the hub\<close>

text \<open>The atomic steps of the hub and of the goroutines around it, in any order; a new client has a
  fresh identifier, and the state store may change under the hub at any time. A broadcast or direct send is two
  critical sections: the sends under the read lock, which leave a list of slow clients pending, and
  later their eviction under the write lock.\<close>

inductive hub_reachable :: "'s sub_ops option \<Rightarrow> (uuid \<Rightarrow> string) \<Rightarrow> uuid list list \<Rightarrow> 's ws \<Rightarrow> bool" for store ut where
  start: "hub_reachable store ut [] \<lparr>ws_hub = new_hub, ws_state = st\<rparr>"
| external: "hub_reachable store ut pend w \<Longrightarrow> hub_reachable store ut pend (w\<lparr>ws_state := st\<rparr>)"
| registered: "hub_reachable store ut pend w \<Longrightarrow> hc_id c \<notin> keys (hb_clients (ws_hub w)) \<Longrightarrow>
     hb_conns (ws_hub w) (hc_id c) = new_conn \<Longrightarrow>
     hub_reachable store ut pend (w\<lparr>ws_hub := register_client ut c (ws_hub w)\<rparr>)"
| unregistered: "hub_reachable store ut pend w \<Longrightarrow>
     hub_reachable store ut pend (w\<lparr>ws_hub := unregister_client i (ws_hub w)\<rparr>)"
| evicted: "hub_reachable store ut pend w \<Longrightarrow>
     hub_reachable store ut pend (w\<lparr>ws_hub := evict_session session (ws_hub w)\<rparr>)"
| shut_down: "hub_reachable store ut pend w \<Longrightarrow>
     hub_reachable store ut pend (w\<lparr>ws_hub := shutdown_hub (ws_hub w)\<rparr>)"
| subscribed: "hub_reachable store ut pend w \<Longrightarrow> hub_reachable store ut pend (subscribe store client room w)"
| unsubscribed: "hub_reachable store ut pend w \<Longrightarrow> hub_reachable store ut pend (unsubscribe store client room w)"
| room_sends: "hub_reachable store ut pend w \<Longrightarrow> map_of (hb_rooms (ws_hub w)) room = Some ms \<Longrightarrow>
     deliver_loop data (map fst ms) (ws_hub w) [] [] = Some (h, delivered, slow) \<Longrightarrow>
     hub_reachable store ut (slow # pend) (w\<lparr>ws_hub := h\<rparr>)"
| user_sends: "hub_reachable store ut pend w \<Longrightarrow>
     deliver_loop data (user_connections ws u (ws_hub w)) (ws_hub w) [] [] = Some (h, delivered, slow) \<Longrightarrow>
     hub_reachable store ut (slow # pend) (w\<lparr>ws_hub := h\<rparr>)"
| slow_evicted: "hub_reachable store ut (pend @ slow # pend') w \<Longrightarrow>
     hub_reachable store ut (pend @ pend') (w\<lparr>ws_hub := remove_clients slow (ws_hub w)\<rparr>)"
| pushed: "hub_reachable store ut pend w \<Longrightarrow> client_push i data (ws_hub w) = Some (h, b) \<Longrightarrow>
     hub_reachable store ut pend (w\<lparr>ws_hub := h\<rparr>)"
| drained: "hub_reachable store ut pend w \<Longrightarrow> hub_reachable store ut pend (w\<lparr>ws_hub := drain i (ws_hub w)\<rparr>)"

definition pending_ids :: "uuid list list \<Rightarrow> uuid set" where
  "pending_ids pend = (\<Union>xs \<in> set pend. set xs)"

lemma remove_clients_ok: "hub_inv over h \<Longrightarrow> hub_inv over (remove_clients xs h)"
  by (rule hub_inv_mono[OF remove_clients_inv[of over h xs]]) auto

lemma deliver_step_inv:
  assumes "hub_inv (pending_ids pend) h" "distinct xs" "deliver_loop data xs h [] [] = Some (h', delivered, slow)"
  shows "hub_inv (pending_ids (slow # pend)) h'"
proof -
  from deliver_ok[OF assms(1,2), of data] assms(3) have "h' = offered data xs h" "slow = filter (overflows h) xs" by auto
  moreover from this have "pending_ids pend \<union> {i. i \<in> set xs \<and> overflows h i} = pending_ids (slow # pend)"
    by (auto simp: pending_ids_def)
  ultimately show ?thesis using offered_inv[OF assms(1), of xs data] by simp
qed

lemma user_connections_distinct: "hub_inv over h \<Longrightarrow> distinct (user_connections ws u h)"
  unfolding user_connections_def hub_inv_def by (intro wf_filter) simp

lemma reachable_hub_ok: "hub_reachable store ut pend w \<Longrightarrow> hub_inv (pending_ids pend) (ws_hub w)"
proof (induction rule: hub_reachable.induct)
  case (room_sends pend w room ms data h delivered slow)
  then have "wf_map ms" by (simp add: hub_inv_def rooms_ok_def)
  with deliver_step_inv[OF room_sends.IH _ room_sends.hyps(3)] show ?case by simp
next
  case (user_sends pend w data ws u h delivered slow)
  from deliver_step_inv[OF this(3) user_connections_distinct[OF this(3)] this(2)] show ?case by simp
next
  case (slow_evicted pend slow pend' w)
  have "pending_ids (pend @ slow # pend') - set slow \<subseteq> pending_ids (pend @ pend')" by (auto simp: pending_ids_def)
  from hub_inv_mono[OF remove_clients_inv[OF slow_evicted.IH, of slow] this] show ?case by simp
next
  case (unregistered pend w i)
  show ?case using remove_clients_ok[OF unregistered.IH, of "[i]"] by (simp add: unregister_client_def)
qed (simp_all add: new_hub_ok hub_inv_mono[OF new_hub_ok] register_ok evict_session_def shutdown_hub_def
    remove_clients_ok subscribe_ok unsubscribe_ok client_push_ok drain_ok)

section \<open>Properties\<close>

text \<open>C19: whatever the interleaving of registrations, evictions, subscriptions, sends and writer
  progress: every room member is a registered client, no room is empty, no registered client's
  channel is closed, its buffer is within its capacity, and its drop count is below the limit unless
  its eviction is pending; hence neither a broadcast nor a direct send ever hits a closed channel.\<close>

theorem hub_never_panics:
  assumes "hub_reachable store ut pend w"
  shows "hub_inv (pending_ids pend) (ws_hub w) \<and> broadcast_to_room store room data w \<noteq> None \<and> send_to_user store ws u data w \<noteq> None"
proof -
  have ok: "hub_inv (pending_ids pend) (ws_hub w)" by (rule reachable_hub_ok[OF assms])
  from broadcast_hub[OF ok, of store room data] send_to_user_hub[OF ok, of store ws u data] ok show ?thesis by auto
qed

definition sample_client :: ws_client where
  "sample_client = \<lparr>hc_id = 50, hc_user = 3, hc_session = ''s1'', hc_resume = ''s1'', hc_principal = ''user'',
     hc_guest_session = 0, hc_workspace = 7, hc_call = 0\<rparr>"

definition sample_text :: "uuid \<Rightarrow> string" where "sample_text i = replicate i CHR ''x''"

definition sample_ws :: "unit ws" where
  "sample_ws = \<lparr>ws_hub = register_client sample_text sample_client new_hub, ws_state = ()\<rparr>"

lemma sample_ws_reachable: "hub_reachable None sample_text [] sample_ws"
proof -
  have "hub_reachable None sample_text [] (\<lparr>ws_hub = new_hub, ws_state = ()\<rparr>\<lparr>ws_hub :=
      register_client sample_text sample_client (ws_hub \<lparr>ws_hub = new_hub, ws_state = ()\<rparr>)\<rparr>)"
    by (rule hub_reachable.registered[OF hub_reachable.start]) (simp_all add: new_hub_def)
  then show ?thesis by (simp add: sample_ws_def)
qed

theorem hub_never_panics_witness:
  "broadcast_to_room None ''aloqa.signal.xxx'' (Malformed ''hello'') sample_ws \<noteq> None"
  using hub_never_panics[OF sample_ws_reachable] by blast

text \<open>C20: a broadcast reaches exactly the room: each member with room in its buffer gets the message as
  its newest and its drop count reset; a member with a full buffer only counts one more drop and is
  evicted, its channel closed, exactly when that makes the limit or more; nobody else is affected.\<close>

theorem broadcast_reaches_exactly_the_room:
  assumes "hub_reachable store ut pend w" "map_of (hb_rooms (ws_hub w)) room = Some ms"
  shows "\<exists>w'. broadcast_to_room store room data w = Some w' \<and>
    (\<forall>i. i \<notin> keys ms \<longrightarrow> hb_conns (ws_hub w') i = hb_conns (ws_hub w) i \<and>
         (i \<in> keys (hb_clients (ws_hub w')) \<longleftrightarrow> i \<in> keys (hb_clients (ws_hub w)))) \<and>
    (\<forall>i \<in> keys ms. let cn = hb_conns (ws_hub w) i; full = (length (cn_buf cn) = send_buf_size) in
         (if \<not> full then hb_conns (ws_hub w') i = cn\<lparr>cn_buf := cn_buf cn @ [data], cn_drops := 0\<rparr>
          else hb_conns (ws_hub w') i = cn\<lparr>cn_drops := cn_drops cn + 1, cn_closed := cn_drops cn + 1 \<ge> max_slow_drops\<rparr>) \<and>
         (i \<in> keys (hb_clients (ws_hub w')) \<longleftrightarrow> \<not> (full \<and> cn_drops cn + 1 \<ge> max_slow_drops)))"
proof -
  let ?h = "ws_hub w" and ?xs = "map fst ms"
  have ok: "hub_inv (pending_ids pend) ?h" by (rule reachable_hub_ok[OF assms(1)])
  from broadcast_hub[OF ok, of store room data] assms(2) obtain w' where
    w': "broadcast_to_room store room data w = Some w'" "ws_hub w' = after_delivery data ?xs ?h" by auto
  have mem: "keys ms \<subseteq> keys (hb_clients ?h)" using ok assms(2) by (simp add: hub_inv_def rooms_ok_def)
  have sel: "keys (hb_clients (ws_hub w')) = keys (hb_clients ?h) - {i \<in> keys ms. overflows ?h i}"
    "hb_conns (ws_hub w') i = (if i \<in> keys ms \<and> overflows ?h i then (offer data (hb_conns ?h i))\<lparr>cn_closed := True\<rparr>
       else if i \<in> keys ms then offer data (hb_conns ?h i) else hb_conns ?h i)" for i
    using mem unfolding w'(2) after_delivery_def remove_clients_sel by (auto simp: offered_def)
  have conn: "\<not> cn_closed (hb_conns ?h i)" "length (cn_buf (hb_conns ?h i)) \<le> send_buf_size" if "i \<in> keys ms" for i
  proof -
    from that mem have "i \<in> keys (hb_clients ?h)" by blast
    then obtain c where "map_of (hb_clients ?h) i = Some c" by (metis map_of_None_keys option.exhaust)
    with ok show "\<not> cn_closed (hb_conns ?h i)" "length (cn_buf (hb_conns ?h i)) \<le> send_buf_size" by (simp_all add: hub_inv_def client_ok_def)
  qed
  have over: "overflows ?h i \<longleftrightarrow> length (cn_buf (hb_conns ?h i)) = send_buf_size \<and> cn_drops (hb_conns ?h i) + 1 \<ge> max_slow_drops"
    if "i \<in> keys ms" for i
    using conn[OF that] mem that by (auto simp: overflows_def)
  have "let cn = hb_conns ?h i; full = (length (cn_buf cn) = send_buf_size) in
         (if \<not> full then hb_conns (ws_hub w') i = cn\<lparr>cn_buf := cn_buf cn @ [data], cn_drops := 0\<rparr>
          else hb_conns (ws_hub w') i = cn\<lparr>cn_drops := cn_drops cn + 1, cn_closed := cn_drops cn + 1 \<ge> max_slow_drops\<rparr>) \<and>
         (i \<in> keys (hb_clients (ws_hub w')) \<longleftrightarrow> \<not> (full \<and> cn_drops cn + 1 \<ge> max_slow_drops))"
    if i: "i \<in> keys ms" for i
  proof -
    have "i \<in> keys (hb_clients ?h)" using i mem by blast
    moreover have "length (cn_buf (hb_conns ?h i)) < send_buf_size \<longleftrightarrow> length (cn_buf (hb_conns ?h i)) \<noteq> send_buf_size"
      using conn(2)[OF i] by auto
    ultimately show ?thesis
      using sel(1) sel(2)[of i] conn[OF i] over[OF i] i by (auto simp: Let_def offer_def)
  qed
  with w'(1) sel show ?thesis by (intro exI[of _ w']) auto
qed

theorem broadcast_reaches_exactly_the_room_witness:
  "\<exists>w'. broadcast_to_room None ''aloqa.signal.xxx'' (Malformed ''hello'') sample_ws = Some w' \<and>
     cn_buf (hb_conns (ws_hub w') 50) = [Malformed ''hello'']"
proof -
  have room: "map_of (hb_rooms (ws_hub sample_ws)) ''aloqa.signal.xxx'' = Some [(50, True)]" by code_simp
  have buf: "hb_conns (ws_hub sample_ws) 50 = new_conn"
    by (simp add: sample_ws_def register_client_def new_hub_def)
  from broadcast_reaches_exactly_the_room[OF sample_ws_reachable room, of "Malformed ''hello''"] buf
  show ?thesis by (auto simp: Let_def new_conn_def send_buf_size_def)
qed

end
