(* ===== verification/WsHandler.thy ===== *)
theory WsHandler
  imports Hub
begin

text \<open>
  The websocket handler of \<open>internal/handler/ws/handler.go\<close>: which rooms a client may enter, its
  messages, and the restoration of its subscriptions on reconnect. \<open>uuid.Parse\<close> and
  \<open>uuid.String\<close> belong to a third-party package and are parameters, as are the access checks of
  the chat service and the outcome of the call service's signal forwarding. The locale
  \<open>subscription_store\<close> is the contract the restoration relies on, interpreted on the Redis store.
\<close>

record ws_deps =
  wd_parse :: "string \<Rightarrow> uuid option"
  wd_text :: "uuid \<Rightarrow> string"
  wd_workspace :: "uuid \<Rightarrow> uuid \<Rightarrow> error option"
  wd_channel :: "uuid \<Rightarrow> uuid \<Rightarrow> error option"
  wd_guest_channel :: "uuid \<Rightarrow> uuid \<Rightarrow> uuid \<Rightarrow> uuid \<Rightarrow> error option"
  wd_forward :: "uuid \<Rightarrow> uuid \<Rightarrow> uuid \<Rightarrow> string \<Rightarrow> string \<Rightarrow> error option"

text \<open>The handler: the chat and call services are configured or not; the state store and the
  replayer are optional.\<close>

record 's ws_handler =
  wh_deps :: ws_deps
  wh_chat :: bool
  wh_calls :: bool
  wh_state :: "'s sub_ops option"
  wh_replay :: "(string \<Rightarrow> int \<Rightarrow> int \<Rightarrow> event list result) option"
  wh_replay_limit :: int

definition err_not_allowed :: error where
  "err_not_allowed = PlainError ''feature not supported''"

definition authorize_client_channel :: "'s ws_handler \<Rightarrow> ws_client \<Rightarrow> uuid \<Rightarrow> error option" where
  "authorize_client_channel h c channel =
     (if hc_principal c = ''meeting_guest''
      then wd_guest_channel (wh_deps h) channel (hc_workspace c) (hc_call c) (hc_guest_session c)
      else wd_channel (wh_deps h) channel (hc_user c))"

definition authorize_subscription :: "'s ws_handler \<Rightarrow> ws_client \<Rightarrow> string \<Rightarrow> uuid result" where
  "authorize_subscription h c room =
     (let d = wh_deps h in
      if has_prefix ''aloqa.ws.'' room then
        (if \<not> wh_chat h then Err err_not_allowed
         else case wd_parse d (trim_prefix ''aloqa.ws.'' room) of
           None \<Rightarrow> Err err_not_allowed
         | Some w \<Rightarrow> (case wd_workspace d w (hc_user c) of Some e \<Rightarrow> Err e | None \<Rightarrow> Ok w))
      else if has_prefix ''channel:'' room then
        (if \<not> wh_chat h then Err err_not_allowed
         else case wd_parse d (trim_prefix ''channel:'' room) of
           None \<Rightarrow> Err err_not_allowed
         | Some ch \<Rightarrow> (case authorize_client_channel h c ch of Some e \<Rightarrow> Err e | None \<Rightarrow> Ok uuid_nil))
      else if has_prefix ''aloqa.chat.'' room then
        (if \<not> wh_chat h then Err err_not_allowed
         else case wd_parse d (trim_prefix ''aloqa.chat.'' room) of
           None \<Rightarrow> Err err_not_allowed
         | Some ch \<Rightarrow> (case authorize_client_channel h c ch of Some e \<Rightarrow> Err e | None \<Rightarrow> Ok uuid_nil))
      else if has_prefix ''aloqa.signal.'' room then
        (case wd_parse d (trim_prefix ''aloqa.signal.'' room) of
           None \<Rightarrow> Err err_not_allowed
         | Some u \<Rightarrow> if u \<noteq> hc_user c then Err err_not_allowed else Ok uuid_nil)
      else Err err_not_allowed)"

definition can_subscribe :: "'s ws_handler \<Rightarrow> ws_client \<Rightarrow> string \<Rightarrow> bool" where
  "can_subscribe h c room = (case authorize_subscription h c room of Ok u \<Rightarrow> True | Err e \<Rightarrow> False)"

section \<open>Client messages\<close>

text \<open>A server message, read back as an event: a type, a payload and a timestamp.\<close>

definition server_message :: "event_type \<Rightarrow> string \<Rightarrow> uuid \<Rightarrow> uuid \<Rightarrow> instant \<Rightarrow> wire" where
  "server_message t payload channel user now =
     Encoded \<lparr>ev_id = uuid_nil, ev_version = 0, ev_sequence = 0, ev_type = t, ev_subject = [],
       ev_workspace = uuid_nil, ev_channel = channel, ev_user = user, ev_delivery = DeliveryOther [],
       ev_replayable = False, ev_timestamp = now, ev_payload = payload\<rparr>"

definition send_error :: "ws_client \<Rightarrow> string \<Rightarrow> instant \<Rightarrow> 's ws \<Rightarrow> 's ws option" where
  "send_error c msg now w =
     map_option (\<lambda>(h, sent). w\<lparr>ws_hub := h\<rparr>)
       (client_push (hc_id c) (server_message (TypeOther ''error'') msg uuid_nil uuid_nil now) (ws_hub w))"

text \<open>The payload is what \<open>json.Unmarshal\<close> made of it, \<open>None\<close> when it did not parse.\<close>

definition handle_subscribe ::
  "'s ws_handler \<Rightarrow> ws_client \<Rightarrow> string option \<Rightarrow> instant \<Rightarrow> 's ws \<Rightarrow> 's ws option" where
  "handle_subscribe h c payload now w =
     (case payload of
        None \<Rightarrow> Some w
      | Some room \<Rightarrow>
          (case authorize_subscription h c room of
             Err e \<Rightarrow> send_error c ''not allowed to subscribe to this room'' now w
           | Ok u \<Rightarrow> Some (subscribe (wh_state h) (Some (hc_id c)) room w)))"

definition handle_unsubscribe :: "'s ws_handler \<Rightarrow> ws_client \<Rightarrow> string option \<Rightarrow> 's ws \<Rightarrow> 's ws option" where
  "handle_unsubscribe h c payload w =
     (case payload of None \<Rightarrow> Some w | Some room \<Rightarrow> Some (unsubscribe (wh_state h) (Some (hc_id c)) room w))"

definition handle_typing ::
  "'s ws_handler \<Rightarrow> ws_client \<Rightarrow> string option \<Rightarrow> instant \<Rightarrow> 's ws \<Rightarrow> 's ws option" where
  "handle_typing h c payload now w =
     (case payload of
        None \<Rightarrow> Some w
      | Some channel \<Rightarrow>
          (case wd_parse (wh_deps h) channel of
             None \<Rightarrow> send_error c ''invalid channel_id'' now w
           | Some ch \<Rightarrow>
               if \<not> wh_chat h then send_error c ''websocket service unavailable'' now w
               else (case authorize_client_channel h c ch of
                       Some e \<Rightarrow> send_error c ''you do not have access to this channel'' now w
                     | None \<Rightarrow> broadcast_to_room (wh_state h) (''channel:'' @ channel)
                                 (server_message TypeTypingStarted [] ch (hc_user c) now) w)))"

definition handle_signal ::
  "'s ws_handler \<Rightarrow> ws_client \<Rightarrow> string \<Rightarrow> (string \<times> string \<times> string) option \<Rightarrow> instant \<Rightarrow> 's ws \<Rightarrow> 's ws option" where
  "handle_signal h c sig_type payload now w =
     (case payload of
        None \<Rightarrow> Some w
      | Some (call_text, to_text, body) \<Rightarrow>
          (case wd_parse (wh_deps h) call_text of
             None \<Rightarrow> send_error c ''invalid call_id'' now w
           | Some call_id \<Rightarrow>
               (case wd_parse (wh_deps h) to_text of
                  None \<Rightarrow> send_error c ''invalid to_user'' now w
                | Some to_user \<Rightarrow>
                    if to_user = uuid_nil then send_error c ''invalid to_user'' now w
                    else if \<not> wh_calls h then send_error c ''websocket service unavailable'' now w
                    else (case wd_forward (wh_deps h) call_id (hc_user c) to_user
                                 (trim_prefix ''signal.'' sig_type) body of
                            Some e \<Rightarrow> send_error c ''signal rejected'' now w
                          | None \<Rightarrow> Some w))))"

datatype client_message =
    MsgSubscribe "string option"
  | MsgUnsubscribe "string option"
  | MsgTyping "string option"
  | MsgSignal string "(string \<times> string \<times> string) option"
  | MsgUnknown string

definition handle_message ::
  "'s ws_handler \<Rightarrow> ws_client \<Rightarrow> client_message \<Rightarrow> instant \<Rightarrow> 's ws \<Rightarrow> 's ws option" where
  "handle_message h c msg now w =
     (case msg of
        MsgSubscribe p \<Rightarrow> handle_subscribe h c p now w
      | MsgUnsubscribe p \<Rightarrow> handle_unsubscribe h c p w
      | MsgTyping p \<Rightarrow> handle_typing h c p now w
      | MsgSignal t p \<Rightarrow> handle_signal h c t p now w
      | MsgUnknown t \<Rightarrow> Some w)"

section \<open>Restoring subscriptions\<close>

record restore_tally =
  rt_restored :: nat
  rt_replayed :: nat
  rt_unauthorized :: nat

text \<open>Replaying into the client's buffer stops at the first event that does not fit: \<open>False\<close>.\<close>

fun replay_events :: "uuid \<Rightarrow> event list \<Rightarrow> hub \<Rightarrow> nat \<Rightarrow> (hub \<times> nat \<times> bool) option" where
  "replay_events i [] h n = Some (h, n, True)"
| "replay_events i (evt # evts) h n =
     (case json_marshal evt of
        Err e \<Rightarrow> replay_events i evts h n
      | Ok data \<Rightarrow>
          (case client_push i (Encoded data) h of
             None \<Rightarrow> None
           | Some (h', sent) \<Rightarrow> if sent then replay_events i evts h' (n + 1) else Some (h', n, False)))"

text \<open>The loop over the persisted rooms; the last component says whether it ran to the end.\<close>

fun restore_loop ::
  "'s ws_handler \<Rightarrow> 's sub_ops \<Rightarrow> ws_client \<Rightarrow> string list \<Rightarrow> 's ws \<Rightarrow> restore_tally
   \<Rightarrow> ('s ws \<times> restore_tally \<times> bool) option" where
  "restore_loop h ops c [] w n = Some (w, n, True)"
| "restore_loop h ops c (room # rooms) w n =
     (case authorize_subscription h c room of
        Err e \<Rightarrow>
          restore_loop h ops c rooms (w\<lparr>ws_state := fst (ss_remove ops (hc_resume c) room (ws_state w))\<rparr>)
            (n\<lparr>rt_unauthorized := rt_unauthorized n + 1\<rparr>)
      | Ok u \<Rightarrow>
          (let w1 = subscribe (wh_state h) (Some (hc_id c)) room w;
               n1 = n\<lparr>rt_restored := rt_restored n + 1\<rparr> in
           case wh_replay h of
             None \<Rightarrow> restore_loop h ops c rooms w1 n1
           | Some replay \<Rightarrow>
               (case ss_last ops (hc_resume c) room (ws_state w1) of
                  (st, Err e) \<Rightarrow> restore_loop h ops c rooms (w1\<lparr>ws_state := st\<rparr>) n1
                | (st, Ok seq) \<Rightarrow>
                    (case replay room seq (wh_replay_limit h) of
                       Err e \<Rightarrow> restore_loop h ops c rooms (w1\<lparr>ws_state := st\<rparr>) n1
                     | Ok evts \<Rightarrow>
                         (case replay_events (hc_id c) evts (ws_hub w1) 0 of
                            None \<Rightarrow> None
                          | Some (hub', k, complete) \<Rightarrow>
                              (let w2 = w1\<lparr>ws_hub := hub', ws_state := st\<rparr>;
                                   n2 = n1\<lparr>rt_replayed := rt_replayed n1 + k\<rparr> in
                               if complete then restore_loop h ops c rooms w2 n2
                               else Some (w2, n2, False)))))))"

definition restore_subscriptions ::
  "'s ws_handler \<Rightarrow> ws_client \<Rightarrow> 's ws \<Rightarrow> ('s ws \<times> restore_tally \<times> bool) option" where
  "restore_subscriptions h c w =
     (let zero = \<lparr>rt_restored = 0, rt_replayed = 0, rt_unauthorized = 0\<rparr> in
      case wh_state h of
        None \<Rightarrow> Some (w, zero, True)
      | Some ops \<Rightarrow>
          if hc_resume c = [] then Some (w, zero, True)
          else (case ss_list ops (hc_resume c) (ws_state w) of
                  (st, Err e) \<Rightarrow> Some (w\<lparr>ws_state := st\<rparr>, zero, True)
                | (st, Ok rooms) \<Rightarrow> restore_loop h ops c rooms (w\<lparr>ws_state := st\<rparr>) zero))"

section \<open>Who is in which room\<close>

definition room_members :: "hub \<Rightarrow> string \<Rightarrow> uuid set" where
  "room_members h room = (case map_of (hb_rooms h) room of None \<Rightarrow> {} | Some ms \<Rightarrow> keys ms)"

lemma members_add_to_room:
  "room_members (add_to_room room i h) r = (if r = room then insert i (room_members h r) else room_members h r)"
  by (auto simp: room_members_def add_to_room_def split: option.splits)

lemma members_subscribe:
  "j \<in> room_members (ws_hub (subscribe store (Some i) room w)) r \<Longrightarrow>
     j \<in> room_members (ws_hub w) r \<or> j = i \<and> r = room"
  by (auto simp: subscribe_def Let_def members_add_to_room split: option.splits if_splits)

lemma members_unsubscribe:
  "room_members (ws_hub (unsubscribe store client room w)) r \<subseteq> room_members (ws_hub w) r"
  by (auto simp: unsubscribe_def Let_def room_members_def split: option.splits if_splits)

lemma members_conns [simp]: "room_members (h\<lparr>hb_conns := f\<rparr>) r = room_members h r"
  by (simp add: room_members_def)

lemma members_push: "client_push i data h = Some (h', b) \<Longrightarrow> room_members h' r = room_members h r"
  by (auto simp: client_push_def)

lemma members_send_error: "send_error c m now w = Some w' \<Longrightarrow> room_members (ws_hub w') r = room_members (ws_hub w) r"
proof -
  assume "send_error c m now w = Some w'"
  then obtain a b where "client_push (hc_id c) (server_message (TypeOther ''error'') m uuid_nil uuid_nil now) (ws_hub w) = Some (a, b)"
    "w' = w\<lparr>ws_hub := a\<rparr>" by (auto simp: send_error_def)
  then show ?thesis by (simp add: members_push)
qed

lemma members_drop: "wf_map (hb_rooms h) \<Longrightarrow> room_members (h\<lparr>hb_rooms := drop_member i (hb_rooms h)\<rparr>) r \<subseteq> room_members h r"
  by (auto simp: room_members_def drop_member_lookup split: option.splits if_splits)

lemma members_remove_clients:
  "hub_inv over h \<Longrightarrow> room_members (remove_clients xs h) r \<subseteq> room_members h r"
proof (induction xs arbitrary: over h)
  case (Cons i xs)
  have "wf_map (hb_rooms h)" using Cons.prems by (simp add: hub_inv_def rooms_ok_def)
  then have "room_members (fst (remove_client i h)) r \<subseteq> room_members h r"
    using members_drop[of h i r] by (auto simp: remove_client_def room_members_def split: option.splits)
  with Cons.IH[OF remove_client_inv[OF Cons.prems, of i]] show ?case by simp
qed simp

lemma members_after_delivery:
  assumes "hub_inv over h" shows "room_members (after_delivery data xs h) r \<subseteq> room_members h r"
proof -
  have "room_members (after_delivery data xs h) r \<subseteq> room_members (offered data xs h) r"
    unfolding after_delivery_def by (rule members_remove_clients[OF offered_inv[OF assms]])
  then show ?thesis by (simp add: offered_def)
qed

lemma members_broadcast:
  assumes "hub_inv over (ws_hub w)" "broadcast_to_room store room data w = Some w'"
  shows "hub_inv over (ws_hub w') \<and> room_members (ws_hub w') r \<subseteq> room_members (ws_hub w) r"
proof -
  have "ws_hub w' = (case map_of (hb_rooms (ws_hub w)) room of None \<Rightarrow> ws_hub w
                 | Some ms \<Rightarrow> after_delivery data (map fst ms) (ws_hub w))"
    using broadcast_hub[OF assms(1), of store room data] assms(2) by auto
  with assms(1) members_after_delivery[OF assms(1)] show ?thesis
    by (cases "map_of (hb_rooms (ws_hub w)) room") (simp_all add: after_delivery_ok)
qed

lemma send_error_ok: "hub_inv over (ws_hub w) \<Longrightarrow> send_error c m now w = Some w' \<Longrightarrow> hub_inv over (ws_hub w')"
  by (auto simp: send_error_def dest: client_push_ok)

lemma can_subscribe_Ok: "authorize_subscription h c room = Ok u \<Longrightarrow> can_subscribe h c room"
  by (simp add: can_subscribe_def)

definition entered_only_authorized :: "'s ws_handler \<Rightarrow> ws_client \<Rightarrow> hub \<Rightarrow> hub \<Rightarrow> bool" where
  "entered_only_authorized h c hub hub' \<longleftrightarrow>
     (\<forall>room i. i \<in> room_members hub' room \<longrightarrow>
        i \<in> room_members hub room \<or> i = hc_id c \<and> can_subscribe h c room)"

lemma entered_trans:
  "entered_only_authorized h c a b \<Longrightarrow> entered_only_authorized h c b d \<Longrightarrow> entered_only_authorized h c a d"
  unfolding entered_only_authorized_def by blast

lemma entered_refl: "(\<And>r. room_members hub' r \<subseteq> room_members hub r) \<Longrightarrow> entered_only_authorized h c hub hub'"
  unfolding entered_only_authorized_def by blast

lemma entered_same [simp]: "entered_only_authorized h c hub hub"
  by (rule entered_refl) simp

lemma entered_subscribe:
  "authorize_subscription h c room = Ok u \<Longrightarrow>
   entered_only_authorized h c (ws_hub w) (ws_hub (subscribe store (Some (hc_id c)) room w))"
  unfolding entered_only_authorized_def using can_subscribe_Ok members_subscribe by metis

lemma handle_message_entry:
  assumes "handle_message h c msg now w = Some w'" "hub_inv over (ws_hub w)"
  shows "hub_inv over (ws_hub w') \<and> entered_only_authorized h c (ws_hub w) (ws_hub w')"
proof -
  have err: "hub_inv over (ws_hub v) \<and> entered_only_authorized h c (ws_hub w) (ws_hub v)"
    if "send_error c m now w = Some v" for m v
    using send_error_ok[OF assms(2) that] members_send_error[OF that] by (auto intro!: entered_refl)
  have same: "hub_inv over (ws_hub w) \<and> entered_only_authorized h c (ws_hub w) (ws_hub w)"
    using assms(2) by (auto intro: entered_refl)
  show ?thesis
  proof (cases msg)
    case (MsgSubscribe p)
    with assms err same show ?thesis
      by (auto simp: handle_message_def handle_subscribe_def subscribe_ok entered_subscribe split: option.splits sum.splits)
  next
    case (MsgUnsubscribe p)
    with assms same show ?thesis
      by (auto simp: handle_message_def handle_unsubscribe_def unsubscribe_ok members_unsubscribe
          split: option.splits intro!: entered_refl dest: subsetD[OF members_unsubscribe])
  next
    case (MsgTyping p)
    have bc: "hub_inv over (ws_hub v) \<and> entered_only_authorized h c (ws_hub w) (ws_hub v)"
      if "broadcast_to_room (wh_state h) room data w = Some v" for room data v
      using members_broadcast[OF assms(2) that] by (auto intro: entered_refl)
    from MsgTyping assms show ?thesis
      by (auto simp: handle_message_def handle_typing_def err bc split: option.splits if_splits)
  next
    case (MsgSignal t p)
    with assms show ?thesis
      by (auto simp: handle_message_def handle_signal_def err split: option.splits if_splits)
  qed (use assms same in \<open>auto simp: handle_message_def\<close>)
qed

lemma replay_events_keeps:
  "replay_events i evts h n = Some (h', k, b) \<Longrightarrow> hub_inv over h \<Longrightarrow>
     hub_inv over h' \<and> room_members h' r = room_members h r"
proof (induction i evts h n rule: replay_events.induct)
  case (2 i evt evts h n)
  show ?case
  proof (cases "json_marshal evt")
    case (Inr data)
    with 2(3) obtain h1 sent where p: "client_push i (Encoded data) h = Some (h1, sent)" by (auto split: option.splits)
    with Inr 2 show ?thesis using client_push_ok[OF 2(4) p] members_push[OF p, of r] by (auto split: if_splits)
  qed (use 2 in auto)
qed simp

lemma restore_loop_entry:
  assumes "restore_loop h ops c rooms w n = Some (w', n', b)" "hub_inv over (ws_hub w)"
  shows "hub_inv over (ws_hub w') \<and> entered_only_authorized h c (ws_hub w) (ws_hub w')"
  using assms
proof (induction rooms arbitrary: w n)
  case Nil
  then show ?case by (auto intro: entered_refl)
next
  case (Cons room rooms)
  show ?case
  proof (cases "authorize_subscription h c room")
    case (Inl e)
    let ?v = "w\<lparr>ws_state := fst (ss_remove ops (hc_resume c) room (ws_state w))\<rparr>"
    from Inl Cons.prems(1) have "restore_loop h ops c rooms ?v (n\<lparr>rt_unauthorized := rt_unauthorized n + 1\<rparr>) = Some (w', n', b)"
      by simp
    from Cons.IH[OF this] Cons.prems(2) show ?thesis by simp
  next
    case (Inr u)
    let ?w1 = "subscribe (wh_state h) (Some (hc_id c)) room w"
    have w1: "hub_inv over (ws_hub ?w1)" "entered_only_authorized h c (ws_hub w) (ws_hub ?w1)"
      using subscribe_ok[OF Cons.prems(2)] entered_subscribe[OF Inr] by auto
    have next_: "hub_inv over (ws_hub w') \<and> entered_only_authorized h c (ws_hub w) (ws_hub w')"
      if "restore_loop h ops c rooms v m = Some (w', n', b)" "hub_inv over (ws_hub v)"
        "entered_only_authorized h c (ws_hub ?w1) (ws_hub v)" for v m
      using Cons.IH[OF that(1,2)] w1(2) that(3) entered_trans by metis
    have refl1: "entered_only_authorized h c (ws_hub ?w1) (ws_hub ?w1)" by (auto intro: entered_refl)
    obtain st q where st: "ss_last ops (hc_resume c) room (ws_state ?w1) = (st, q)" by fastforce
    show ?thesis
    proof (cases "\<exists>replay seq evts. wh_replay h = Some replay \<and> q = Ok seq \<and> replay room seq (wh_replay_limit h) = Ok evts")
      case False
      with Cons.prems(1) Inr st obtain v m where "restore_loop h ops c rooms v m = Some (w', n', b)" "ws_hub v = ws_hub ?w1"
        by (auto simp: Let_def split: option.splits sum.splits)
      then show ?thesis using next_ w1 refl1 by metis
    next
      case True
      then obtain replay seq evts where r: "wh_replay h = Some replay" "q = Ok seq"
        "replay room seq (wh_replay_limit h) = Ok evts" by blast
      with Cons.prems(1) Inr st obtain hub' k complete where
        ev: "replay_events (hc_id c) evts (ws_hub ?w1) 0 = Some (hub', k, complete)"
        by (auto simp: Let_def split: option.splits)
      have keep: "hub_inv over hub'" "entered_only_authorized h c (ws_hub ?w1) hub'"
        using replay_events_keeps[OF ev w1(1)] by (auto intro: entered_refl)
      show ?thesis
      proof (cases complete)
        case True
        with Cons.prems(1) Inr st r ev obtain v m where "restore_loop h ops c rooms v m = Some (w', n', b)" "ws_hub v = hub'"
          by (auto simp: Let_def)
        then show ?thesis using next_ keep by metis
      next
        case False
        with Cons.prems(1) Inr st r ev have "ws_hub w' = hub'" by (auto simp: Let_def)
        with keep w1(2) show ?thesis using entered_trans by metis
      qed
    qed
  qed
qed

section \<open>The contract of the state store\<close>

text \<open>\<open>subs s k\<close> are the rooms persisted under a resume key. A write adds at most the room it
  names, a removal that reports no error removes its room, a listing is complete, and a store that
  is \<open>healthy\<close> reports no error. Entries may expire at any time.\<close>

locale subscription_store =
  fixes ops :: "'s sub_ops"
    and subs :: "'s \<Rightarrow> string \<Rightarrow> string set"
    and healthy :: "'s \<Rightarrow> bool"
  assumes add_subs: "ss_add ops k room s = (s', r) \<Longrightarrow> x \<in> subs s' j \<Longrightarrow> x \<in> subs s j \<or> x = room"
    and remove_subs: "ss_remove ops k room s = (s', r) \<Longrightarrow> subs s' j \<subseteq> subs s j"
    and remove_done: "ss_remove ops k room s = (s', None) \<Longrightarrow> room \<in> subs s' k \<Longrightarrow> trim_space room = []"
    and list_subs: "ss_list ops k s = (s', Ok rooms) \<Longrightarrow> subs s' k \<subseteq> set rooms"
    and last_subs: "ss_last ops k room s = (s', q) \<Longrightarrow> subs s' j \<subseteq> subs s j"
    and healthy_add: "healthy s \<Longrightarrow> ss_add ops k room s = (s', r) \<Longrightarrow> healthy s'"
    and healthy_remove: "healthy s \<Longrightarrow> ss_remove ops k room s = (s', r) \<Longrightarrow> healthy s' \<and> r = None"
    and healthy_list: "healthy s \<Longrightarrow> ss_list ops k s = (s', l) \<Longrightarrow> healthy s' \<and> \<not> isl l"
    and healthy_last: "healthy s \<Longrightarrow> ss_last ops k room s = (s', q) \<Longrightarrow> healthy s'"
begin

lemma subscribe_state:
  "healthy (ws_state w) \<Longrightarrow> healthy (ws_state (subscribe (Some ops) i room w))"
  "x \<in> subs (ws_state (subscribe (Some ops) i room w)) j \<Longrightarrow> x \<in> subs (ws_state w) j \<or> x = room"
  using healthy_add[OF _ surjective_pairing] add_subs[OF surjective_pairing]
  by (fastforce simp: subscribe_def Let_def split: option.splits)+

lemma restore_loop_cleans:
  assumes "restore_loop h ops c rooms w n = Some (w', n', True)" "wh_state h = Some ops"
    and "healthy (ws_state w)" "x \<in> subs (ws_state w') (hc_resume c)" "trim_space x \<noteq> []"
    and "\<not> can_subscribe h c x"
  shows "x \<in> subs (ws_state w) (hc_resume c) \<and> x \<notin> set rooms"
  using assms
proof (induction rooms arbitrary: w n)
  case Nil
  then show ?case by simp
next
  case (Cons room rooms)
  let ?k = "hc_resume c"
  show ?case
  proof (cases "authorize_subscription h c room")
    case (Inl e)
    obtain st r where st: "ss_remove ops ?k room (ws_state w) = (st, r)" by fastforce
    with healthy_remove[OF Cons.prems(3)] have r: "r = None" "healthy st" by blast+
    from Cons.prems(1) Inl st
    have "restore_loop h ops c rooms (w\<lparr>ws_state := st\<rparr>) (n\<lparr>rt_unauthorized := rt_unauthorized n + 1\<rparr>) = Some (w', n', True)"
      by simp
    from Cons.IH[OF this Cons.prems(2) _ Cons.prems(4,5,6)] r have "x \<in> subs st ?k" "x \<notin> set rooms" by simp_all
    moreover have "x \<noteq> room" using remove_done[of ?k room "ws_state w" st] st r calculation(1) Cons.prems(5) by auto
    ultimately show ?thesis using remove_subs[OF st, of ?k] by auto
  next
    case (Inr u)
    let ?w1 = "subscribe (wh_state h) (Some (hc_id c)) room w"
    have w1: "healthy (ws_state ?w1)" using subscribe_state(1)[OF Cons.prems(3)] Cons.prems(2) by simp
    have neq: "x \<noteq> room" using Cons.prems(6) can_subscribe_Ok[OF Inr] by auto
    have next_: "x \<in> subs (ws_state w) ?k \<and> x \<notin> set (room # rooms)"
      if "restore_loop h ops c rooms v m = Some (w', n', True)" "healthy (ws_state v)"
         "subs (ws_state v) ?k \<subseteq> subs (ws_state ?w1) ?k" for v m
      using Cons.IH[OF that(1) Cons.prems(2) that(2) Cons.prems(4,5,6)] that(3) neq Cons.prems(2)
        subscribe_state(2)[of x "Some (hc_id c)" room w ?k] by auto
    obtain st q where st: "ss_last ops ?k room (ws_state ?w1) = (st, q)" by fastforce
    note st' = healthy_last[OF w1 st] last_subs[OF st, of ?k]
    from Cons.prems(1) Inr st obtain v m where "restore_loop h ops c rooms v m = Some (w', n', True)"
      "ws_state v = ws_state ?w1 \<or> ws_state v = st"
      by (auto simp: Let_def split: option.splits sum.splits if_splits)
    then show ?thesis using next_ w1 st' by (metis subset_refl)
  qed
qed

lemma restore_cleans:
  assumes "restore_subscriptions h c w = Some (w', n, True)" "wh_state h = Some ops" "hc_resume c \<noteq> []"
    and "healthy (ws_state w)" "x \<in> subs (ws_state w') (hc_resume c)" "trim_space x \<noteq> []"
  shows "can_subscribe h c x"
proof (rule ccontr)
  assume no: "\<not> can_subscribe h c x"
  obtain st l where st: "ss_list ops (hc_resume c) (ws_state w) = (st, l)" by fastforce
  from healthy_list[OF assms(4) st] obtain rooms where l: "l = Ok rooms" "healthy st" by (cases l) auto
  from assms(1-3) st l have "restore_loop h ops c rooms (w\<lparr>ws_state := st\<rparr>)
      \<lparr>rt_restored = 0, rt_replayed = 0, rt_unauthorized = 0\<rparr> = Some (w', n, True)"
    by (simp add: restore_subscriptions_def Let_def)
  from restore_loop_cleans[OF this assms(2) _ assms(5,6) no] l
  have "x \<in> subs st (hc_resume c)" "x \<notin> set rooms" by simp_all
  with list_subs[of "hc_resume c" "ws_state w" st rooms] st l show False by auto
qed

end

section \<open>The Redis store keeps the contract\<close>

definition redis_ops :: "duration \<Rightarrow> redis sub_ops" where
  "redis_ops ttl = \<lparr>ss_add = add_subscription ttl, ss_remove = remove_subscription, ss_list = list_subscriptions,
     ss_last = last_delivered_sequence, ss_record = record_delivered_sequence ttl\<rparr>"

definition redis_subs :: "redis \<Rightarrow> string \<Rightarrow> string set" where
  "redis_subs r k = (let k' = normalize_resume_key k in
     if k' = [] then {} else set (redis_members r (subscription_key k')))"

definition redis_healthy :: "redis \<Rightarrow> bool" where
  "redis_healthy r \<longleftrightarrow> (\<forall>(fault, dt) \<in> set (rd_steps r). fault = None)"

lemma redis_healthy_sets [simp]: "redis_healthy (r\<lparr>rd_sets := x\<rparr>) = redis_healthy r"
  by (simp add: redis_healthy_def)

lemma live_mono: "live t' exp \<Longrightarrow> t \<le> t' \<Longrightarrow> live t exp"
  by (cases exp) (auto simp: live_def)

lemma redis_command_cases:
  assumes "redis_command r = (r', f)"
  shows "set (redis_members r' key) \<subseteq> set (redis_members r key)" "redis_healthy r \<Longrightarrow> redis_healthy r' \<and> f = None"
proof -
  have later: "rd_sets r' = rd_sets r" "rd_now r \<le> rd_now r'"
    using assms by (auto simp: redis_command_def split: list.splits)
  then show "set (redis_members r' key) \<subseteq> set (redis_members r key)"
    by (auto simp: redis_members_def dest: live_mono split: option.splits if_splits)
  show "redis_healthy r' \<and> f = None" if "redis_healthy r"
    using assms that by (auto simp: redis_command_def redis_healthy_def split: list.splits)
qed

lemma redis_members_update:
  "redis_members (r\<lparr>rd_sets := AList.update key (ms, exp) (rd_sets r)\<rparr>) key' =
     (if key' = key then if live (rd_now r) exp then ms else [] else redis_members r key')"
  by (simp add: redis_members_def split: option.split)

lemma subscription_key_inj [simp]: "subscription_key a = subscription_key b \<longleftrightarrow> a = b"
  by (simp add: subscription_key_def)

interpretation redis_state: subscription_store "redis_ops ttl" redis_subs redis_healthy for ttl
proof (unfold_locales, unfold redis_ops_def sub_ops.simps, goal_cases)
  case (1 k room s s' r x j)
  obtain r1 f1 where c1: "redis_command s = (r1, f1)" by fastforce
  let ?key = "subscription_key (normalize_resume_key k)"
  let ?r2 = "r1\<lparr>rd_sets := AList.update ?key (if room \<in> set (redis_members r1 ?key) then redis_members r1 ?key
      else redis_members r1 ?key @ [room], set_expiry r1 ?key) (rd_sets r1)\<rparr>"
  obtain r3 f3 where c3: "redis_command ?r2 = (r3, f3)" by fastforce
  note m1 = redis_command_cases(1)[OF c1] and m3 = redis_command_cases(1)[OF c3]
  have r2: "set (redis_members ?r2 key) \<subseteq> insert room (set (redis_members s key))" for key
    using m1[of key] by (auto simp: redis_members_update split: if_splits)
  have up3: "set (redis_members (r3\<lparr>rd_sets := AList.update ?key (redis_members r3 ?key, e) (rd_sets r3)\<rparr>) key)
      \<subseteq> set (redis_members r3 key)" for key e by (auto simp: redis_members_update)
  have "s' = s \<or> s' = r1 \<or> s' = r3 \<or> (\<exists>e. s' = r3\<lparr>rd_sets := AList.update ?key (redis_members r3 ?key, e) (rd_sets r3)\<rparr>)"
    using 1(1) c1 c3 by (auto simp: add_subscription_def Let_def split: option.splits if_splits)
  then have "set (redis_members s' key) \<subseteq> insert room (set (redis_members s key))" for key
    using m1[of key] m3[of key] r2[of key] up3[of _ key] by blast
  with 1(2) show ?case by (auto simp: redis_subs_def Let_def split: if_splits)
next
  case (2 k room s s' r j)
  obtain r1 f1 where c1: "redis_command s = (r1, f1)" by fastforce
  let ?key = "subscription_key (normalize_resume_key k)"
  have "s' = s \<or> s' = r1 \<or> (\<exists>ms e. map_of (rd_sets r1) ?key = Some (ms, e) \<and>
      s' = r1\<lparr>rd_sets := AList.update ?key (filter (\<lambda>m. m \<noteq> room) ms, e) (rd_sets r1)\<rparr>)"
    using 2 c1 by (auto simp: remove_subscription_def Let_def split: option.splits if_splits)
  then have "set (redis_members s' key) \<subseteq> set (redis_members s key)" for key
  proof (elim disjE exE conjE)
    fix ms e assume "map_of (rd_sets r1) ?key = Some (ms, e)"
      and s': "s' = r1\<lparr>rd_sets := AList.update ?key (filter (\<lambda>m. m \<noteq> room) ms, e) (rd_sets r1)\<rparr>"
    then have "redis_members r1 ?key = (if live (rd_now r1) e then ms else [])" by (simp add: redis_members_def)
    then have "set (redis_members s' key) \<subseteq> set (redis_members r1 key)"
      unfolding s' redis_members_update by auto
    then show ?thesis using redis_command_cases(1)[OF c1, of key] by blast
  qed (use redis_command_cases(1)[OF c1] in auto)
  then show ?case by (auto simp: redis_subs_def Let_def split: if_splits)
next
  case (3 k room s s')
  obtain r1 f1 where c1: "redis_command s = (r1, f1)" by fastforce
  with 3 show ?case
    by (auto simp: remove_subscription_def redis_subs_def Let_def redis_members_def split: option.splits if_splits prod.splits)
next
  case (4 k s s' rooms)
  then show ?case by (auto simp: list_subscriptions_def redis_subs_def Let_def split: option.splits if_splits prod.splits)
next
  case (5 k room s s' q j)
  obtain r1 f1 where c1: "redis_command s = (r1, f1)" by fastforce
  with 5 have "s' = s \<or> s' = r1" by (auto simp: last_delivered_sequence_def Let_def split: option.splits if_splits)
  with redis_command_cases(1)[OF c1] show ?case by (auto simp: redis_subs_def Let_def)
next
  case (6 s k room s' r)
  obtain r1 f1 where c1: "redis_command s = (r1, f1)" by fastforce
  let ?key = "subscription_key (normalize_resume_key k)"
  let ?r2 = "r1\<lparr>rd_sets := AList.update ?key (if room \<in> set (redis_members r1 ?key) then redis_members r1 ?key
      else redis_members r1 ?key @ [room], set_expiry r1 ?key) (rd_sets r1)\<rparr>"
  obtain r3 f3 where c3: "redis_command ?r2 = (r3, f3)" by fastforce
  have "redis_healthy r1" using redis_command_cases(2)[OF c1 6(1)] by simp
  then have "redis_healthy ?r2" by (simp add: redis_healthy_def)
  then have "redis_healthy r3" using redis_command_cases(2)[OF c3] by simp
  with 6 c1 c3 \<open>redis_healthy r1\<close> show ?case
    by (auto simp: add_subscription_def Let_def redis_healthy_def split: option.splits if_splits)
next
  case (7 s k room s' r)
  obtain r1 f1 where c1: "redis_command s = (r1, f1)" by fastforce
  with 7 redis_command_cases(2)[OF c1] show ?case
    by (auto simp: remove_subscription_def Let_def split: option.splits if_splits prod.splits)
next
  case (8 s k s' l)
  obtain r1 f1 where c1: "redis_command s = (r1, f1)" by fastforce
  with 8 redis_command_cases(2)[OF c1] show ?case
    by (auto simp: list_subscriptions_def Let_def split: option.splits if_splits)
next
  case (9 s k room s' q)
  obtain r1 f1 where c1: "redis_command s = (r1, f1)" by fastforce
  with 9 redis_command_cases(2)[OF c1] show ?case
    by (auto simp: last_delivered_sequence_def Let_def split: option.splits if_splits)
qed

section \<open>Properties\<close>

text \<open>C4: a client gets into a room only when authorised: no message it sends, well formed or not, and
  no restoration of persisted subscriptions, puts anyone into a room except the client itself, and
  only into a room the authorisation of that client and room allows. The hub invariant is kept.\<close>

theorem rooms_entered_only_when_authorized:
  assumes "hub_inv over (ws_hub w)"
  shows "(\<forall>msg now w'. handle_message h c msg now w = Some w' \<longrightarrow>
            hub_inv over (ws_hub w') \<and> entered_only_authorized h c (ws_hub w) (ws_hub w')) \<and>
    (\<forall>w' n b. restore_subscriptions h c w = Some (w', n, b) \<longrightarrow>
            hub_inv over (ws_hub w') \<and> entered_only_authorized h c (ws_hub w) (ws_hub w'))"
proof (intro conjI allI impI; (elim conjE)?)
  fix msg now w'
  assume "handle_message h c msg now w = Some w'"
  from handle_message_entry[OF this assms]
  show "hub_inv over (ws_hub w')" "entered_only_authorized h c (ws_hub w) (ws_hub w')" by blast+
next
  fix w' n b
  assume r: "restore_subscriptions h c w = Some (w', n, b)"
  have "hub_inv over (ws_hub w') \<and> entered_only_authorized h c (ws_hub w) (ws_hub w')"
  proof (cases "ws_hub w' = ws_hub w")
    case False
    with r obtain ops st rooms n0 where "restore_loop h ops c rooms (w\<lparr>ws_state := st\<rparr>) n0 = Some (w', n, b)"
      by (auto simp: restore_subscriptions_def Let_def split: option.splits if_splits sum.splits prod.splits)
    from restore_loop_entry[OF this] assms show ?thesis by simp
  qed (use assms in simp)
  then show "hub_inv over (ws_hub w')" "entered_only_authorized h c (ws_hub w) (ws_hub w')" by blast+
qed

definition sample_handler :: "unit ws_handler" where
  "sample_handler = \<lparr>wh_deps = \<lparr>wd_parse = (\<lambda>s. Some (length s)), wd_text = sample_text,
      wd_workspace = (\<lambda>w u. None), wd_channel = (\<lambda>ch u. if ch = 2 then None else Some (forbidden ''no'')),
      wd_guest_channel = (\<lambda>a b c d. None), wd_forward = (\<lambda>a b c d e. None)\<rparr>,
    wh_chat = True, wh_calls = True, wh_state = None, wh_replay = None, wh_replay_limit = 200\<rparr>"

theorem rooms_entered_only_when_authorized_witness:
  "\<exists>w'. handle_message sample_handler sample_client (MsgSubscribe (Some ''channel:xx'')) 9 sample_ws = Some w' \<and>
     room_members (ws_hub w') ''channel:xx'' = {50} \<and>
     entered_only_authorized sample_handler sample_client (ws_hub sample_ws) (ws_hub w')"
proof -
  have auth: "authorize_subscription sample_handler sample_client ''channel:xx'' = Ok 0" by code_simp
  have ok: "hub_inv (pending_ids []) (ws_hub sample_ws)" by (rule reachable_hub_ok[OF sample_ws_reachable])
  let ?w = "subscribe None (Some 50) ''channel:xx'' sample_ws"
  have m: "handle_message sample_handler sample_client (MsgSubscribe (Some ''channel:xx'')) 9 sample_ws = Some ?w"
    using auth by (simp add: handle_message_def handle_subscribe_def sample_handler_def sample_client_def)
  have "room_members (ws_hub ?w) ''channel:xx'' = {50}" by code_simp
  with m rooms_entered_only_when_authorized[OF ok, of sample_handler sample_client] show ?thesis by blast
qed

text \<open>A reconnect cleans up: when the Redis commands go through and the restoration runs to its end,
  every room still persisted under the client's resume key is one this client may enter; rooms it
  lost access to are gone from the store.\<close>

lemma restore_removes_lost_rooms:
  assumes "restore_subscriptions h c w = Some (w', n, True)" "wh_state h = Some (redis_ops ttl)" "hc_resume c \<noteq> []"
    and "redis_healthy (ws_state w)" "x \<in> redis_subs (ws_state w') (hc_resume c)" "trim_space x \<noteq> []"
  shows "can_subscribe h c x"
  by (rule redis_state.restore_cleans[OF assms])

definition redis_sample :: redis where
  "redis_sample = \<lparr>rd_sets = [(''ws:subscriptions:s1'', ([''channel:xx'', ''channel:yyy''], None))], rd_ints = [],
     rd_now = 5, rd_steps = []\<rparr>"

definition redis_handler :: "redis ws_handler" where
  "redis_handler = \<lparr>wh_deps = wh_deps sample_handler, wh_chat = True, wh_calls = True,
     wh_state = Some (redis_ops minute), wh_replay = None, wh_replay_limit = 200\<rparr>"

definition redis_ws :: "redis ws" where
  "redis_ws = \<lparr>ws_hub = register_client sample_text sample_client new_hub, ws_state = redis_sample\<rparr>"

lemma restore_removes_lost_rooms_witness:
  "case restore_subscriptions redis_handler sample_client redis_ws of
     None \<Rightarrow> False
   | Some (w', n, b) \<Rightarrow> rt_restored n = 1 \<and> rt_unauthorized n = 1 \<and>
       (\<forall>x \<in> set [''channel:xx'']. x \<in> redis_subs (ws_state w') ''s1'' \<and> can_subscribe redis_handler sample_client x)"
proof -
  have run: "(case restore_subscriptions redis_handler sample_client redis_ws of None \<Rightarrow> False
     | Some (w', n, b) \<Rightarrow> b \<and> rt_restored n = 1 \<and> rt_unauthorized n = 1 \<and>
         redis_members (ws_state w') (subscription_key ''s1'') = [''channel:xx''])" by code_simp
  then obtain w' n where r: "restore_subscriptions redis_handler sample_client redis_ws = Some (w', n, True)"
    and n: "rt_restored n = 1" "rt_unauthorized n = 1"
      "redis_members (ws_state w') (subscription_key ''s1'') = [''channel:xx'']"
    by (auto split: option.splits)
  have k: "normalize_resume_key ''s1'' = ''s1''" by code_simp
  then have mem: "''channel:xx'' \<in> redis_subs (ws_state w') ''s1''" using n(3) by (simp add: redis_subs_def)
  have "can_subscribe redis_handler sample_client ''channel:xx''"
  proof (rule restore_removes_lost_rooms[OF r])
    show "wh_state redis_handler = Some (redis_ops minute)" by (simp add: redis_handler_def)
    show "hc_resume sample_client \<noteq> []" by (simp add: sample_client_def)
    show "redis_healthy (ws_state redis_ws)" by (simp add: redis_healthy_def redis_ws_def redis_sample_def)
    show "''channel:xx'' \<in> redis_subs (ws_state w') (hc_resume sample_client)" using mem by (simp add: sample_client_def)
    show "trim_space ''channel:xx'' \<noteq> []" by code_simp
  qed
  with r n mem show ?thesis by simp
qed

text \<open>The handler, unlike the hub, can hit a closed channel: after the hub evicted a client whose
  handler is still processing a message, the error reply to that message panics.\<close>

lemma reply_after_eviction_panics:
  "\<exists>w :: unit ws. hub_reachable None sample_text [] w \<and>
     handle_message sample_handler sample_client (MsgSubscribe (Some ''nowhere'')) 9 w = None"
proof -
  let ?w = "sample_ws\<lparr>ws_hub := evict_session ''s1'' (ws_hub sample_ws)\<rparr>"
  have "hub_reachable None sample_text [] ?w" by (rule hub_reachable.evicted[OF sample_ws_reachable])
  moreover have "handle_message sample_handler sample_client (MsgSubscribe (Some ''nowhere'')) 9 ?w = None"
  proof -
    have "authorize_subscription sample_handler sample_client ''nowhere'' = Err err_not_allowed" by code_simp
    moreover have "cn_closed (hb_conns (ws_hub ?w) 50)"
      by (simp add: sample_ws_def evict_session_def register_client_def new_hub_def sample_client_def remove_client_def)
    ultimately show ?thesis
      by (simp add: handle_message_def handle_subscribe_def send_error_def client_push_def chan_send_def sample_client_def)
  qed
  ultimately show ?thesis by blast
qed

end
