(* ===== verification/Simulcast.thy ===== *)
theory Simulcast
  imports Cerrors
begin

text \<open>
  Quality layers and simulcast tracks, \<open>internal/media/sfu/simulcast.go\<close>, and the routers of plain
  tracks, \<open>internal/media/sfu/track.go\<close>. A local track of the WebRTC library is its identity, a
  number; whether the library can make one is an argument. Packet forwarding and the sinks of
  observers are not modelled. \<open>QualityLayer\<close> is a string in the code, since a relay may name any
  layer; \<open>quality_text\<close> reads it back.
\<close>

datatype quality = QualityHigh | QualityMedium | QualityLow | QualityOther string

definition quality_of :: "string \<Rightarrow> quality" where
  "quality_of s = (if s = ''f'' then QualityHigh else if s = ''h'' then QualityMedium
     else if s = ''q'' then QualityLow else QualityOther s)"

fun quality_text :: "quality \<Rightarrow> string" where
  "quality_text QualityHigh = ''f''"
| "quality_text QualityMedium = ''h''"
| "quality_text QualityLow = ''q''"
| "quality_text (QualityOther s) = s"

definition quality_layer_from_rid :: "string \<Rightarrow> quality" where
  "quality_layer_from_rid rid =
     (if rid = ''q'' then QualityLow else if rid = ''h'' then QualityMedium
      else if rid = ''f'' then QualityHigh else QualityHigh)"

definition layer_priority :: "quality \<Rightarrow> quality list" where
  "layer_priority preferred =
     (case preferred of
        QualityHigh \<Rightarrow> [QualityHigh, QualityMedium, QualityLow]
      | QualityMedium \<Rightarrow> [QualityMedium, QualityLow, QualityHigh]
      | QualityLow \<Rightarrow> [QualityLow, QualityMedium, QualityHigh]
      | QualityOther s \<Rightarrow> [QualityHigh, QualityMedium, QualityLow])"

definition err_closed_pipe :: error where
  "err_closed_pipe = PlainError ''io: read/write on closed pipe''"

type_synonym local_track = nat

section \<open>Simulcast tracks\<close>

record simulcast_track =
  sm_stream :: string
  sm_source :: string
  sm_layers :: "(quality, local_track) gomap"
  sm_subs :: "(string, quality) gomap"
  sm_closed :: bool

definition new_simulcast_track :: "string \<Rightarrow> string \<Rightarrow> simulcast_track" where
  "new_simulcast_track stream source =
     \<lparr>sm_stream = stream, sm_source = source, sm_layers = [], sm_subs = [], sm_closed = False\<rparr>"

text \<open>\<open>made\<close> is what \<open>NewTrackLocalStaticRTP\<close> returned.\<close>

definition add_layer :: "quality \<Rightarrow> local_track result \<Rightarrow> simulcast_track \<Rightarrow> simulcast_track \<times> error option" where
  "add_layer q made st =
     (case made of
        Err e \<Rightarrow> (st, Some e)
      | Ok lt \<Rightarrow>
          if sm_closed st then (st, Some err_closed_pipe)
          else (st\<lparr>sm_layers := AList.update q lt (sm_layers st)\<rparr>, None))"

definition add_injected_layer ::
  "quality \<Rightarrow> local_track result \<Rightarrow> simulcast_track \<Rightarrow> simulcast_track \<times> error option" where
  "add_injected_layer q made st =
     (case made of
        Err e \<Rightarrow> (st, Some e)
      | Ok lt \<Rightarrow>
          if sm_closed st then (st, Some err_closed_pipe)
          else if map_of (sm_layers st) q \<noteq> None then (st, None)
          else (st\<lparr>sm_layers := AList.update q lt (sm_layers st)\<rparr>, None))"

definition has_layer :: "quality \<Rightarrow> simulcast_track \<Rightarrow> bool" where
  "has_layer q st \<longleftrightarrow> map_of (sm_layers st) q \<noteq> None"

definition local_track_for_layer :: "quality \<Rightarrow> simulcast_track \<Rightarrow> local_track option" where
  "local_track_for_layer q st = map_of (sm_layers st) q"

fun first_available :: "quality list \<Rightarrow> (quality, local_track) gomap \<Rightarrow> quality option" where
  "first_available [] layers = None"
| "first_available (q # qs) layers = (if map_of layers q \<noteq> None then Some q else first_available qs layers)"

definition best_available_layer :: "quality \<Rightarrow> simulcast_track \<Rightarrow> quality" where
  "best_available_layer preferred st =
     (case first_available (layer_priority preferred) (sm_layers st) of
        Some q \<Rightarrow> q
      | None \<Rightarrow> (case sm_layers st of [] \<Rightarrow> QualityHigh | (q, lt) # rest \<Rightarrow> q))"

definition set_subscriber_layer :: "string \<Rightarrow> quality \<Rightarrow> simulcast_track \<Rightarrow> simulcast_track" where
  "set_subscriber_layer user q st = st\<lparr>sm_subs := AList.update user q (sm_subs st)\<rparr>"

definition subscriber_layer :: "string \<Rightarrow> simulcast_track \<Rightarrow> quality option" where
  "subscriber_layer user st = map_of (sm_subs st) user"

definition remove_layer_subscriber :: "string \<Rightarrow> simulcast_track \<Rightarrow> simulcast_track" where
  "remove_layer_subscriber user st = st\<lparr>sm_subs := AList.delete user (sm_subs st)\<rparr>"

definition available_layers :: "simulcast_track \<Rightarrow> quality list" where
  "available_layers st = map fst (sm_layers st)"

definition close_simulcast :: "simulcast_track \<Rightarrow> simulcast_track" where
  "close_simulcast st = (if sm_closed st then st else st\<lparr>sm_closed := True\<rparr>)"

section \<open>Track routers\<close>

record track_router =
  tr_id :: string
  tr_source :: string
  tr_local :: local_track
  tr_stream :: string
  tr_subs :: "(string, bool) gomap"
  tr_done :: bool

definition new_track_router :: "string \<Rightarrow> string \<Rightarrow> string \<Rightarrow> local_track result \<Rightarrow> track_router result" where
  "new_track_router source track stream made =
     (case made of
        Err e \<Rightarrow> Err e
      | Ok lt \<Rightarrow> Ok \<lparr>tr_id = track, tr_source = source, tr_local = lt, tr_stream = stream, tr_subs = [], tr_done = False\<rparr>)"

definition add_subscriber :: "string \<Rightarrow> track_router \<Rightarrow> track_router" where
  "add_subscriber user tr = tr\<lparr>tr_subs := AList.update user True (tr_subs tr)\<rparr>"

definition remove_subscriber :: "string \<Rightarrow> track_router \<Rightarrow> track_router" where
  "remove_subscriber user tr = tr\<lparr>tr_subs := AList.delete user (tr_subs tr)\<rparr>"

definition close_router :: "track_router \<Rightarrow> track_router" where
  "close_router tr = (if tr_done tr then tr else tr\<lparr>tr_done := True\<rparr>)"

section \<open>Layer selection\<close>

lemma first_available_Some:
  "first_available qs layers = Some q \<Longrightarrow> q \<in> set qs \<and> q \<in> keys layers"
  by (induction qs layers rule: first_available.induct) (auto simp: map_of_None_keys split: if_splits)

lemma first_available_None: "first_available qs layers = None \<longleftrightarrow> set qs \<inter> keys layers = {}"
  by (induction qs layers rule: first_available.induct) (auto simp: map_of_None_keys)

lemma best_available_mem: "sm_layers st \<noteq> [] \<Longrightarrow> best_available_layer q st \<in> keys (sm_layers st)"
  by (cases "first_available (layer_priority q) (sm_layers st)"; cases "sm_layers st")
    (use first_available_Some[of "layer_priority q" "sm_layers st"] in
      \<open>auto simp: best_available_layer_def split: prod.splits\<close>)

lemma best_available_preferred:
  "q \<in> {QualityHigh, QualityMedium, QualityLow} \<Longrightarrow> has_layer q st \<Longrightarrow> best_available_layer q st = q"
  by (auto simp: best_available_layer_def has_layer_def layer_priority_def)

lemma sm_sel [simp]:
  "sm_stream (set_subscriber_layer u q st) = sm_stream st" "sm_source (set_subscriber_layer u q st) = sm_source st"
  "sm_layers (set_subscriber_layer u q st) = sm_layers st" "sm_closed (set_subscriber_layer u q st) = sm_closed st"
  "sm_subs (set_subscriber_layer u q st) = AList.update u q (sm_subs st)"
  "sm_stream (remove_layer_subscriber u st) = sm_stream st" "sm_source (remove_layer_subscriber u st) = sm_source st"
  "sm_layers (remove_layer_subscriber u st) = sm_layers st" "sm_closed (remove_layer_subscriber u st) = sm_closed st"
  "sm_subs (remove_layer_subscriber u st) = AList.delete u (sm_subs st)"
  "sm_stream (new_simulcast_track s p) = s" "sm_source (new_simulcast_track s p) = p"
  "sm_layers (new_simulcast_track s p) = []" "sm_subs (new_simulcast_track s p) = []"
  "sm_closed (new_simulcast_track s p) = False"
  by (simp_all add: set_subscriber_layer_def remove_layer_subscriber_def new_simulcast_track_def)

lemma add_layer_sel:
  assumes "add_layer q made st = (st', r)"
  shows "sm_stream st' = sm_stream st" "sm_source st' = sm_source st" "sm_subs st' = sm_subs st"
    "sm_closed st' = sm_closed st" "r = None \<Longrightarrow> \<exists>lt. made = Ok lt \<and> map_of (sm_layers st') q = Some lt"
    "wf_map (sm_layers st) \<Longrightarrow> wf_map (sm_layers st')"
  using assms by (auto simp: add_layer_def split: sum.splits if_splits)

lemma add_injected_layer_sel:
  assumes "add_injected_layer q made st = (st', r)"
  shows "sm_stream st' = sm_stream st" "sm_source st' = sm_source st" "sm_subs st' = sm_subs st"
    "sm_closed st' = sm_closed st" "wf_map (sm_layers st) \<Longrightarrow> wf_map (sm_layers st')"
  using assms by (auto simp: add_injected_layer_def split: sum.splits if_splits)

lemma tr_sel [simp]:
  "tr_id (add_subscriber u tr) = tr_id tr" "tr_source (add_subscriber u tr) = tr_source tr"
  "tr_local (add_subscriber u tr) = tr_local tr" "tr_done (add_subscriber u tr) = tr_done tr"
  "tr_subs (add_subscriber u tr) = AList.update u True (tr_subs tr)"
  "tr_id (remove_subscriber u tr) = tr_id tr" "tr_source (remove_subscriber u tr) = tr_source tr"
  "tr_local (remove_subscriber u tr) = tr_local tr" "tr_done (remove_subscriber u tr) = tr_done tr"
  "tr_subs (remove_subscriber u tr) = AList.delete u (tr_subs tr)"
  by (simp_all add: add_subscriber_def remove_subscriber_def)

lemma new_track_router_Ok:
  "new_track_router source track stream made = Ok tr \<Longrightarrow>
     tr_id tr = track \<and> tr_source tr = source \<and> made = Ok (tr_local tr) \<and> tr_subs tr = [] \<and> \<not> tr_done tr"
  by (auto simp: new_track_router_def split: sum.splits)

end
