(* ===== verification/Adaptive.thy ===== *)
theory Adaptive
  imports Complex_Main Simulcast
begin

text \<open>
  The adaptive quality controller of \<open>internal/media/sfu/adaptive.go\<close>. A \<open>float64\<close> is a rational and
  its arithmetic is exact: rounding, overflow and the special values of floating point are not
  modelled; the conversion \<open>int(x)\<close> truncates and gives the minimum of int64 out of range, as on
  amd64. \<open>int\<close> arithmetic wraps at 64 bits where samples can reach the bounds. \<open>clock\<close> is
  \<open>time.Now().UTC()\<close>, used for a sample without timestamp.
\<close>

datatype network_grade = GradeExcellent | GradeGood | GradeFair | GradePoor | GradeCritical

record adaptive_options =
  ao_low_min :: int
  ao_medium_min :: int
  ao_high_min :: int
  ao_critical :: int
  ao_up_interval :: duration
  ao_down_interval :: duration
  ao_good_samples :: int
  ao_poor_samples :: int
  ao_alpha :: rat

definition with_defaults :: "adaptive_options \<Rightarrow> adaptive_options" where
  "with_defaults a =
     \<lparr>ao_low_min = (if ao_low_min a \<le> 0 then 180 else ao_low_min a),
      ao_medium_min = (if ao_medium_min a \<le> 0 then 650 else ao_medium_min a),
      ao_high_min = (if ao_high_min a \<le> 0 then 1600 else ao_high_min a),
      ao_critical = (if ao_critical a \<le> 0 then 120 else ao_critical a),
      ao_up_interval = (if ao_up_interval a \<le> 0 then 8 * second else ao_up_interval a),
      ao_down_interval = (if ao_down_interval a \<le> 0 then 1500 * millisecond else ao_down_interval a),
      ao_good_samples = (if ao_good_samples a \<le> 0 then 3 else ao_good_samples a),
      ao_poor_samples = (if ao_poor_samples a \<le> 0 then 1 else ao_poor_samples a),
      ao_alpha = (if ao_alpha a \<le> 0 \<or> ao_alpha a > 1 then 35 / 100 else ao_alpha a)\<rparr>"

record network_sample =
  ns_user :: string
  ns_stream :: string
  ns_available :: int
  ns_observed :: int
  ns_loss :: rat
  ns_rtt :: int
  ns_jitter :: rat
  ns_audio_loss :: rat
  ns_audio_jitter :: rat
  ns_fps :: rat
  ns_dropped :: rat
  ns_decode :: rat
  ns_freeze :: int
  ns_nack :: int
  ns_pli :: int
  ns_device :: string
  ns_low_power :: bool
  ns_screen :: bool
  ns_timestamp :: instant

record adaptive_decision =
  ad_user :: string
  ad_stream :: string
  ad_previous :: quality
  ad_target :: quality
  ad_grade :: network_grade
  ad_changed :: bool
  ad_hold :: bool
  ad_audio_priority :: bool
  ad_suspended :: bool
  ad_sync_mode :: string
  ad_degrade_mode :: string
  ad_max_bitrate :: int
  ad_max_fps :: int
  ad_audio_buffer :: int
  ad_video_buffer :: int
  ad_lip_sync :: int
  ad_bandwidth :: int
  ad_score :: int
  ad_reasons :: "string list"
  ad_decided_at :: instant

record adaptive_state =
  as_initialized :: bool
  as_bandwidth :: rat
  as_loss :: rat
  as_rtt :: rat
  as_jitter :: rat
  as_audio_loss :: rat
  as_audio_jitter :: rat
  as_fps :: rat
  as_dropped :: rat
  as_decode :: rat
  as_last_quality :: quality
  as_last_switch :: instant
  as_good :: int
  as_poor :: int

record adaptive_controller =
  ac_options :: adaptive_options
  ac_state :: "(string, adaptive_state) gomap"

definition new_adaptive_controller :: "adaptive_options \<Rightarrow> adaptive_controller" where
  "new_adaptive_controller opts = \<lparr>ac_options = with_defaults opts, ac_state = []\<rparr>"

definition forget_user :: "string \<Rightarrow> adaptive_controller \<Rightarrow> adaptive_controller" where
  "forget_user user c =
     (let prefix = user @ '':'' in
      c\<lparr>ac_state := filter (\<lambda>(key, st). \<not> has_prefix prefix key) (ac_state c)\<rparr>)"

definition forget_stream :: "string \<Rightarrow> adaptive_controller \<Rightarrow> adaptive_controller" where
  "forget_stream stream c =
     (let suffix = '':'' @ stream in
      c\<lparr>ac_state := filter (\<lambda>(key, st). \<not> has_suffix suffix key) (ac_state c)\<rparr>)"

section \<open>Numbers\<close>

definition go_int :: "rat \<Rightarrow> int" where
  "go_int x =
     (let n = (if x < 0 then - \<lfloor>- x\<rfloor> else \<lfloor>x\<rfloor>) in
      if - (2 ^ 63) \<le> n \<and> n < 2 ^ 63 then n else - (2 ^ 63))"

definition go_round :: "rat \<Rightarrow> rat" where
  "go_round x = (if x < 0 then - of_int \<lfloor>- x + 1 / 2\<rfloor> else of_int \<lfloor>x + 1 / 2\<rfloor>)"

definition ewma :: "rat \<Rightarrow> rat \<Rightarrow> rat \<Rightarrow> rat" where
  "ewma prev nxt alpha = prev * (1 - alpha) + nxt * alpha"

definition min_int :: "int \<Rightarrow> int \<Rightarrow> int" where
  "min_int a b = (if a < b then a else b)"

section \<open>Qualities and grades\<close>

definition quality_rank :: "quality \<Rightarrow> int" where
  "quality_rank q = (case q of QualityLow \<Rightarrow> 1 | QualityMedium \<Rightarrow> 2 | QualityHigh \<Rightarrow> 3 | QualityOther s \<Rightarrow> 3)"

definition min_quality :: "quality \<Rightarrow> quality \<Rightarrow> quality" where
  "min_quality a b = (if quality_rank a \<le> quality_rank b then a else b)"

definition downgrade_quality :: "quality \<Rightarrow> quality" where
  "downgrade_quality q =
     (case q of QualityHigh \<Rightarrow> QualityMedium | QualityMedium \<Rightarrow> QualityLow | QualityLow \<Rightarrow> QualityLow
      | QualityOther s \<Rightarrow> QualityLow)"

definition max_bitrate_for_quality :: "quality \<Rightarrow> adaptive_options \<Rightarrow> int" where
  "max_bitrate_for_quality q opts =
     (case q of
        QualityLow \<Rightarrow> wrap64 (ao_medium_min opts - 1)
      | QualityMedium \<Rightarrow> wrap64 (ao_high_min opts - 1)
      | _ \<Rightarrow> wrap64 (ao_high_min opts * 2))"

definition max_fps_for_quality :: "quality \<Rightarrow> int" where
  "max_fps_for_quality q = (case q of QualityLow \<Rightarrow> 15 | QualityMedium \<Rightarrow> 24 | _ \<Rightarrow> 30)"

definition grade_from_score :: "int \<Rightarrow> network_grade" where
  "grade_from_score score =
     (if score \<ge> 90 then GradeExcellent else if score \<ge> 75 then GradeGood
      else if score \<ge> 55 then GradeFair else if score \<ge> 30 then GradePoor else GradeCritical)"

fun first_allowed :: "quality list \<Rightarrow> quality list \<Rightarrow> quality option" where
  "first_allowed [] allowed = None"
| "first_allowed (q # qs) allowed = (if q \<in> set allowed then Some q else first_allowed qs allowed)"

definition clamp_quality :: "quality \<Rightarrow> quality list \<Rightarrow> quality" where
  "clamp_quality q available =
     (case available of
        [] \<Rightarrow> q
      | a # rest \<Rightarrow> (case first_allowed (layer_priority q) available of Some c \<Rightarrow> c | None \<Rightarrow> a))"

definition cap_for_device :: "quality \<Rightarrow> string \<Rightarrow> bool \<Rightarrow> string list \<Rightarrow> quality \<times> string list" where
  "cap_for_device q device low_power reasons =
     (let normalized = to_lower device in
      if normalized = ''legacy'' then (min_quality q QualityLow, reasons @ [''legacy device cap''])
      else if normalized = ''low'' \<or> low_power
      then (min_quality q QualityMedium, reasons @ [''low device or power mode cap''])
      else (q, reasons))"

definition is_device_constrained :: "string \<Rightarrow> bool \<Rightarrow> bool" where
  "is_device_constrained device low_power =
     (let normalized = to_lower device in normalized = ''legacy'' \<or> normalized = ''low'' \<or> low_power)"

definition video_degrade_mode :: "quality \<Rightarrow> network_sample \<Rightarrow> bool \<Rightarrow> bool \<Rightarrow> string" where
  "video_degrade_mode q sample audio_priority suspend =
     (if suspend then ''suspend_video_until_audio_recovers''
      else if audio_priority then ''audio_first_resolution_and_fps''
      else if ns_screen sample then ''preserve_resolution_lower_fps''
      else if q = QualityLow \<or> q = QualityMedium then ''reduce_resolution_first''
      else ''maintain_quality'')"

definition target_audio_buffer_ms :: "network_grade \<Rightarrow> bool \<Rightarrow> int" where
  "target_audio_buffer_ms grade audio_priority =
     (if audio_priority then 90
      else case grade of GradeCritical \<Rightarrow> 110 | GradePoor \<Rightarrow> 80 | GradeFair \<Rightarrow> 60 | _ \<Rightarrow> 40)"

definition target_video_buffer_ms :: "network_grade \<Rightarrow> bool \<Rightarrow> bool \<Rightarrow> int" where
  "target_video_buffer_ms grade audio_priority suspend =
     (if suspend then 0 else if audio_priority then 150
      else case grade of GradeCritical \<Rightarrow> 180 | GradePoor \<Rightarrow> 140 | GradeFair \<Rightarrow> 100 | _ \<Rightarrow> 60)"

definition lip_sync_window_ms :: "network_grade \<Rightarrow> bool \<Rightarrow> int" where
  "lip_sync_window_ms grade audio_priority =
     (if audio_priority \<or> grade = GradeCritical then 120 else if grade = GradePoor then 100 else 80)"

section \<open>The decision\<close>

definition update_state :: "adaptive_options \<Rightarrow> network_sample \<Rightarrow> adaptive_state \<Rightarrow> adaptive_state" where
  "update_state opts s st =
     (let bw = (if ns_available s \<le> 0 then ns_observed s else ns_available s); alpha = ao_alpha opts in
      if \<not> as_initialized st
      then st\<lparr>as_initialized := True, as_bandwidth := of_int bw, as_loss := ns_loss s, as_rtt := of_int (ns_rtt s),
             as_jitter := ns_jitter s, as_audio_loss := ns_audio_loss s, as_audio_jitter := ns_audio_jitter s,
             as_fps := ns_fps s, as_dropped := ns_dropped s, as_decode := ns_decode s\<rparr>
      else st\<lparr>as_bandwidth := (if bw > 0 then ewma (as_bandwidth st) (of_int bw) alpha else as_bandwidth st),
             as_loss := ewma (as_loss st) (ns_loss s) alpha,
             as_rtt := (if ns_rtt s > 0 then ewma (as_rtt st) (of_int (ns_rtt s)) alpha else as_rtt st),
             as_jitter := ewma (as_jitter st) (ns_jitter s) alpha,
             as_audio_loss := ewma (as_audio_loss st) (ns_audio_loss s) alpha,
             as_audio_jitter := ewma (as_audio_jitter st) (ns_audio_jitter s) alpha,
             as_fps := (if ns_fps s > 0 then ewma (as_fps st) (ns_fps s) alpha else as_fps st),
             as_dropped := ewma (as_dropped st) (ns_dropped s) alpha,
             as_decode := ewma (as_decode st) (ns_decode s) alpha\<rparr>)"

definition stability_score :: "adaptive_state \<Rightarrow> network_sample \<Rightarrow> int" where
  "stability_score st s =
     (let s1 = wrap64 (100 - go_int (as_loss st * 4));
          s2 = wrap64 (s1 - go_int (max 0 (as_rtt st - 120) / 8));
          s3 = wrap64 (s2 - go_int (max 0 (as_jitter st - 20) / 2));
          s4 = wrap64 (s3 - go_int (as_dropped st * 2));
          s5 = wrap64 (s4 - go_int (max 0 (as_decode st - 24) * 2));
          s6 = (if ns_freeze s > 0 then wrap64 (s5 - (15 + ns_freeze s * 4)) else s5);
          s7 = (if ns_pli s > 0 then wrap64 (s6 - ns_pli s * 3) else s6);
          s8 = (if ns_nack s > 0 then wrap64 (s7 - min_int (ns_nack s) 30) else s7)
      in if s8 < 0 then 0 else s8)"

record raw_decision =
  rw_quality :: quality
  rw_grade :: network_grade
  rw_score :: int
  rw_audio_priority :: bool
  rw_suspend :: bool
  rw_bitrate :: int
  rw_fps :: int
  rw_reasons :: "string list"

text \<open>The three blocks of \<open>rawDecision\<close> that choose the quality, with the grade and the reason each adds.\<close>

definition bandwidth_choice ::
  "adaptive_options \<Rightarrow> int \<Rightarrow> network_grade \<Rightarrow> quality \<times> network_grade \<times> string" where
  "bandwidth_choice opts bw grade =
     (if bw > 0 \<and> bw < ao_critical opts then (QualityLow, GradeCritical, ''bandwidth below critical video floor'')
      else if bw > 0 \<and> bw < ao_medium_min opts then (QualityLow, grade, ''bandwidth supports low layer only'')
      else if bw > 0 \<and> bw < ao_high_min opts then (QualityMedium, grade, ''bandwidth supports medium layer'')
      else (QualityHigh, grade, ''bandwidth supports high layer''))"

definition transport_choice ::
  "adaptive_state \<Rightarrow> quality \<times> network_grade \<times> string list \<Rightarrow> quality \<times> network_grade \<times> string list" where
  "transport_choice st c =
     (case c of (q, grade, reasons) \<Rightarrow>
        if as_loss st \<ge> 12 \<or> as_rtt st \<ge> 700 \<or> as_jitter st \<ge> 120
        then (min_quality q QualityLow, GradeCritical, reasons @ [''critical transport health''])
        else if as_loss st \<ge> 5 \<or> as_rtt st \<ge> 400 \<or> as_jitter st \<ge> 70
        then (min_quality q QualityLow, grade, reasons @ [''poor transport health''])
        else if as_loss st \<ge> 2 \<or> as_rtt st \<ge> 220 \<or> as_jitter st \<ge> 40
        then (min_quality q QualityMedium, grade, reasons @ [''moderate transport health''])
        else (q, grade, reasons))"

definition decode_choice ::
  "adaptive_state \<Rightarrow> network_sample \<Rightarrow> quality \<times> string list \<Rightarrow> quality \<times> string list" where
  "decode_choice st s c =
     (case c of (q, reasons) \<Rightarrow>
        if as_dropped st \<ge> 12 \<or> as_decode st \<ge> 45 \<or> ns_freeze s \<ge> 2
        then (downgrade_quality q, reasons @ [''device decode pressure'']) else (q, reasons))"

definition raw_decide :: "adaptive_options \<Rightarrow> adaptive_state \<Rightarrow> network_sample \<Rightarrow> raw_decision" where
  "raw_decide opts st s =
     (let score = stability_score st s;
          audio = (as_audio_loss st \<ge> 4 \<or> as_audio_jitter st \<ge> 55);
          r1 = (if audio then [''audio priority: preserving speech intelligibility''] else []);
          bw = go_int (go_round (as_bandwidth st));
          (q2, g2, why) = bandwidth_choice opts bw (grade_from_score score);
          (q3, g3, r3) = transport_choice st (q2, g2, r1 @ [why]);
          (q4, r4) = decode_choice st s (q3, r3);
          q5 = (if audio then min_quality q4 QualityLow else q4);
          suspend = (bw > 0 \<and> bw < ao_critical opts \<or> as_audio_loss st \<ge> 10 \<or> as_audio_jitter st \<ge> 120);
          r5 = (if suspend then r4 @ [''video suspend recommended until audio recovers''] else r4);
          bitrate = max_bitrate_for_quality q5 opts;
          fps = max_fps_for_quality q5
      in \<lparr>rw_quality = q5, rw_grade = g3, rw_score = score, rw_audio_priority = audio, rw_suspend = suspend,
         rw_bitrate = (if audio \<or> suspend then min_int bitrate (max_bitrate_for_quality QualityLow opts) else bitrate),
         rw_fps = (if audio \<or> suspend then min_int fps 12 else fps), rw_reasons = r5\<rparr>)"

text \<open>The wanted layer, before hysteresis: the first half of \<open>Decide\<close>.\<close>

definition wanted_quality :: "raw_decision \<Rightarrow> network_sample \<Rightarrow> quality list \<Rightarrow> quality \<times> string list" where
  "wanted_quality raw s available =
     (let target = clamp_quality (rw_quality raw) available;
          (capped, reasons) = cap_for_device target (ns_device s) (ns_low_power s) (rw_reasons raw)
      in (if rw_suspend raw then clamp_quality QualityLow available else capped, reasons))"

definition count_streak :: "quality \<Rightarrow> quality \<Rightarrow> adaptive_state \<Rightarrow> adaptive_state" where
  "count_streak target current st =
     (if quality_rank target > quality_rank current then st\<lparr>as_good := as_good st + 1, as_poor := 0\<rparr>
      else if quality_rank target < quality_rank current then st\<lparr>as_poor := as_poor st + 1, as_good := 0\<rparr>
      else st\<lparr>as_good := 0, as_poor := 0\<rparr>)"

text \<open>Hysteresis: the layer to use, whether it was held back, and the reason.\<close>

definition hysteresis ::
  "adaptive_options \<Rightarrow> adaptive_state \<Rightarrow> instant \<Rightarrow> quality \<Rightarrow> quality \<Rightarrow> bool \<Rightarrow> quality \<times> bool \<times> string list" where
  "hysteresis opts st now target current at_once =
     (if quality_rank target > quality_rank current then
        (if as_good st < ao_good_samples opts \<or> now - as_last_switch st < ao_up_interval opts
         then (current, True, [''hysteresis: waiting for stable network before upgrading'']) else (target, False, []))
      else if quality_rank target < quality_rank current \<and> \<not> at_once then
        (if as_poor st < ao_poor_samples opts \<or> now - as_last_switch st < ao_down_interval opts
         then (current, True, [''hysteresis: avoiding short-lived downswitch'']) else (target, False, []))
      else (target, False, []))"

definition fresh_state :: "quality \<Rightarrow> instant \<Rightarrow> adaptive_state" where
  "fresh_state current now =
     \<lparr>as_initialized = False, as_bandwidth = 0, as_loss = 0, as_rtt = 0, as_jitter = 0, as_audio_loss = 0,
      as_audio_jitter = 0, as_fps = 0, as_dropped = 0, as_decode = 0, as_last_quality = current,
      as_last_switch = now, as_good = 0, as_poor = 0\<rparr>"

definition sample_key :: "network_sample \<Rightarrow> string" where
  "sample_key s = ns_user s @ '':'' @ ns_stream s"

definition decide_state ::
  "adaptive_options \<Rightarrow> network_sample \<Rightarrow> quality \<Rightarrow> quality list \<Rightarrow> instant \<Rightarrow> adaptive_state
   \<Rightarrow> adaptive_state \<times> adaptive_decision" where
  "decide_state opts s current available now st0 =
     (let st1 = update_state opts s st0;
          raw = raw_decide opts st1 s;
          (wanted, reasons) = wanted_quality raw s available;
          at_once = (rw_grade raw = GradeCritical \<or> rw_audio_priority raw \<or> rw_suspend raw \<or>
                     is_device_constrained (ns_device s) (ns_low_power s));
          st2 = count_streak wanted current st1;
          (target, hold, why) = hysteresis opts st2 now wanted current at_once;
          changed = (target \<noteq> current);
          st3 = (if changed then st2\<lparr>as_last_switch := now, as_last_quality := target\<rparr> else st2)
      in (st3,
          \<lparr>ad_user = ns_user s, ad_stream = ns_stream s, ad_previous = current, ad_target = target,
           ad_grade = rw_grade raw, ad_changed = changed, ad_hold = hold, ad_audio_priority = rw_audio_priority raw,
           ad_suspended = rw_suspend raw, ad_sync_mode = ''audio_clock_master'',
           ad_degrade_mode = video_degrade_mode target s (rw_audio_priority raw) (rw_suspend raw),
           ad_max_bitrate = rw_bitrate raw, ad_max_fps = rw_fps raw,
           ad_audio_buffer = target_audio_buffer_ms (rw_grade raw) (rw_audio_priority raw),
           ad_video_buffer = target_video_buffer_ms (rw_grade raw) (rw_audio_priority raw) (rw_suspend raw),
           ad_lip_sync = lip_sync_window_ms (rw_grade raw) (rw_audio_priority raw),
           ad_bandwidth = go_int (go_round (as_bandwidth st1)), ad_score = rw_score raw,
           ad_reasons = reasons @ why, ad_decided_at = now\<rparr>))"

definition decide ::
  "network_sample \<Rightarrow> quality \<Rightarrow> quality list \<Rightarrow> instant \<Rightarrow> adaptive_controller \<Rightarrow> adaptive_controller \<times> adaptive_decision" where
  "decide s current0 available clock c =
     (let now = (if ns_timestamp s = 0 then clock else ns_timestamp s);
          current = (if current0 = QualityOther [] then QualityMedium else current0);
          key = sample_key s;
          st0 = (case map_of (ac_state c) key of None \<Rightarrow> fresh_state current now | Some st \<Rightarrow> st);
          (st, d) = decide_state (ac_options c) s current available now st0
      in (c\<lparr>ac_state := AList.update key st (ac_state c)\<rparr>, d))"

section \<open>Layers and ranks\<close>

lemma rank_bounds: "1 \<le> quality_rank q \<and> quality_rank q \<le> 3"
  by (cases q) (simp_all add: quality_rank_def)

lemma rank_low [simp]: "quality_rank QualityLow = 1"
  by (simp add: quality_rank_def)

lemma rank_one: "quality_rank q \<le> 1 \<longleftrightarrow> q = QualityLow"
  by (cases q) (simp_all add: quality_rank_def)

lemma min_quality_low [simp]: "min_quality q QualityLow = QualityLow" "min_quality QualityLow q = QualityLow"
  using rank_bounds[of q] by (auto simp: min_quality_def rank_one)

lemma first_allowed_mem: "first_allowed qs allowed = Some q \<Longrightarrow> q \<in> set allowed"
  by (induction qs allowed rule: first_allowed.induct) (auto split: if_splits)

lemma clamp_mem: "available \<noteq> [] \<Longrightarrow> clamp_quality q available \<in> set available"
  by (auto simp: clamp_quality_def dest: first_allowed_mem split: list.splits option.splits)

lemma clamp_low: "QualityLow \<in> set available \<Longrightarrow> clamp_quality QualityLow available = QualityLow"
  by (cases available) (simp_all add: clamp_quality_def layer_priority_def)

lemma cap_unconstrained: "\<not> is_device_constrained d lp \<Longrightarrow> cap_for_device q d lp rs = (q, rs)"
  by (simp add: is_device_constrained_def cap_for_device_def Let_def)

lemma raw_shape:
  "\<exists>q4. let raw = raw_decide opts st s; low = (rw_audio_priority raw \<or> rw_suspend raw);
       q = (if rw_audio_priority raw then min_quality q4 QualityLow else q4) in
     rw_quality raw = q \<and>
     rw_bitrate raw = (if low then min_int (max_bitrate_for_quality q opts) (max_bitrate_for_quality QualityLow opts)
                       else max_bitrate_for_quality q opts) \<and>
     rw_fps raw = (if low then min_int (max_fps_for_quality q) 12 else max_fps_for_quality q)"
proof -
  let ?bw = "go_int (go_round (as_bandwidth st))"
  obtain q2 g2 why where b: "bandwidth_choice opts ?bw (grade_from_score (stability_score st s)) = (q2, g2, why)"
    by (metis prod_cases3)
  obtain q3 g3 r3 where t: "transport_choice st (q2, g2, (if as_audio_loss st \<ge> 4 \<or> as_audio_jitter st \<ge> 55
      then [''audio priority: preserving speech intelligibility''] else []) @ [why]) = (q3, g3, r3)"
    by (metis prod_cases3)
  obtain q4 r4 where d: "decode_choice st s (q3, r3) = (q4, r4)" by fastforce
  show ?thesis
    by (rule exI[of _ q4], unfold raw_decide_def Let_def b prod.case t d) simp
qed

lemma raw_audio_low: "rw_audio_priority (raw_decide opts st s) \<Longrightarrow> rw_quality (raw_decide opts st s) = QualityLow"
  using raw_shape[of opts st s] by (auto simp: Let_def)

lemma raw_limits:
  assumes "rw_audio_priority (raw_decide opts st s) \<or> rw_suspend (raw_decide opts st s)"
  shows "rw_fps (raw_decide opts st s) = 12"
    "rw_bitrate (raw_decide opts st s) \<le> max_bitrate_for_quality QualityLow opts"
proof -
  have f: "min_int (max_fps_for_quality q) 12 = 12" "min_int a b \<le> b" for q a b
    by (cases q) (simp_all add: min_int_def max_fps_for_quality_def)
  from raw_shape[of opts st s] assms show "rw_fps (raw_decide opts st s) = 12"
    "rw_bitrate (raw_decide opts st s) \<le> max_bitrate_for_quality QualityLow opts" by (auto simp: f Let_def)
qed

lemma wanted_low:
  assumes "rw_audio_priority (raw_decide opts st s) \<or> rw_suspend (raw_decide opts st s)" "QualityLow \<in> set available"
  shows "fst (wanted_quality (raw_decide opts st s) s available) = QualityLow"
proof (cases "rw_suspend (raw_decide opts st s)")
  case True
  then show ?thesis using clamp_low[OF assms(2)] by (simp add: wanted_quality_def Let_def split: prod.splits)
next
  case False
  with assms(1) have "rw_quality (raw_decide opts st s) = QualityLow" using raw_audio_low by blast
  with False clamp_low[OF assms(2)] show ?thesis
    by (simp add: wanted_quality_def Let_def cap_for_device_def split: prod.splits)
qed

lemma wanted_available:
  assumes "available \<noteq> []" "\<not> is_device_constrained (ns_device s) (ns_low_power s)"
  shows "fst (wanted_quality raw s available) \<in> set available"
  using clamp_mem[OF assms(1)] by (simp add: wanted_quality_def Let_def cap_unconstrained[OF assms(2)])

section \<open>One decision\<close>

text \<open>The parts of a decision, named: the measured state, the raw decision, the wanted layer.\<close>

definition measured :: "adaptive_options \<Rightarrow> network_sample \<Rightarrow> quality \<Rightarrow> instant \<Rightarrow> adaptive_state \<Rightarrow> raw_decision" where
  "measured opts s current now st = raw_decide opts (update_state opts s st) s"

definition held_up :: "adaptive_decision \<Rightarrow> bool" where
  "held_up d \<longleftrightarrow> ad_hold d \<and> ad_reasons d \<noteq> [] \<and>
     last (ad_reasons d) = ''hysteresis: waiting for stable network before upgrading''"

definition wants_up :: "adaptive_decision \<Rightarrow> bool" where
  "wants_up d \<longleftrightarrow> quality_rank (ad_target d) > quality_rank (ad_previous d) \<or> held_up d"

lemma update_state_kept:
  "as_good (update_state opts s st) = as_good st" "as_last_switch (update_state opts s st) = as_last_switch st"
  by (simp_all add: update_state_def Let_def)

lemma count_streak_kept: "as_last_switch (count_streak w cur st) = as_last_switch st"
  by (simp add: count_streak_def)

lemma decide_state_shape:
  assumes "decide_state opts s cur av now st0 = (st, d)"
  shows "\<exists>w rs target hold why. let raw = raw_decide opts (update_state opts s st0) s;
      st2 = count_streak w cur (update_state opts s st0);
      at_once = (rw_grade raw = GradeCritical \<or> rw_audio_priority raw \<or> rw_suspend raw \<or>
                     is_device_constrained (ns_device s) (ns_low_power s)) in
    wanted_quality raw s av = (w, rs) \<and> hysteresis opts st2 now w cur at_once = (target, hold, why) \<and>
    ad_target d = target \<and> ad_previous d = cur \<and> ad_hold d = hold \<and> ad_reasons d = rs @ why \<and>
    ad_changed d = (target \<noteq> cur) \<and> ad_decided_at d = now \<and> ad_user d = ns_user s \<and> ad_stream d = ns_stream s \<and>
    ad_audio_priority d = rw_audio_priority raw \<and> ad_suspended d = rw_suspend raw \<and> ad_grade d = rw_grade raw \<and>
    ad_max_fps d = rw_fps raw \<and> ad_max_bitrate d = rw_bitrate raw \<and>
    as_good st = as_good st2 \<and> as_last_switch st = (if target \<noteq> cur then now else as_last_switch st2)"
proof -
  let ?raw = "raw_decide opts (update_state opts s st0) s"
  obtain w rs where w: "wanted_quality ?raw s av = (w, rs)" by fastforce
  let ?o = "rw_grade ?raw = GradeCritical \<or> rw_audio_priority ?raw \<or> rw_suspend ?raw \<or>
                     is_device_constrained (ns_device s) (ns_low_power s)"
  obtain target hold why where h:
    "hysteresis opts (count_streak w cur (update_state opts s st0)) now w cur ?o = (target, hold, why)"
    by (metis prod_cases3)
  have "(st, d) = decide_state opts s cur av now st0" by (rule assms[symmetric])
  note eq = this[unfolded decide_state_def Let_def w prod.case h prod.inject]
  show ?thesis
    by (rule exI[of _ w], rule exI[of _ rs], rule exI[of _ target], rule exI[of _ hold], rule exI[of _ why],
        unfold Let_def w h eq[THEN conjunct1] eq[THEN conjunct2]) simp
qed

section \<open>Histories of decisions\<close>

text \<open>The decisions of a controller, the newest first; forgetting a user or a stream forgets its
  decisions.\<close>

definition decision_key :: "adaptive_decision \<Rightarrow> string" where
  "decision_key d = ad_user d @ '':'' @ ad_stream d"

inductive decision_history :: "adaptive_options \<Rightarrow> adaptive_decision list \<Rightarrow> adaptive_controller \<Rightarrow> bool" for opts where
  start: "decision_history opts [] (new_adaptive_controller opts)"
| decided: "decision_history opts ds c \<Longrightarrow> decide s current available clock c = (c', d) \<Longrightarrow>
     decision_history opts (d # ds) c'"
| user_forgotten: "decision_history opts ds c \<Longrightarrow>
     decision_history opts (filter (\<lambda>d. \<not> has_prefix (user @ '':'') (decision_key d)) ds) (forget_user user c)"
| stream_forgotten: "decision_history opts ds c \<Longrightarrow>
     decision_history opts (filter (\<lambda>d. \<not> has_suffix ('':'' @ stream) (decision_key d)) ds) (forget_stream stream c)"

text \<open>When the layer last changed, or else when the first decision was made.\<close>

definition last_change :: "adaptive_decision list \<Rightarrow> instant" where
  "last_change ds = (case find ad_changed ds of Some d \<Rightarrow> ad_decided_at d | None \<Rightarrow> ad_decided_at (last ds))"

definition history_inv :: "adaptive_options \<Rightarrow> adaptive_decision list \<Rightarrow> adaptive_controller \<Rightarrow> bool" where
  "history_inv opts ds c \<longleftrightarrow> ac_options c = with_defaults opts \<and>
     (\<forall>k. let own = filter (\<lambda>d. decision_key d = k) ds in
        case map_of (ac_state c) k of
          None \<Rightarrow> own = []
        | Some st \<Rightarrow> own \<noteq> [] \<and> as_good st = int (length (takeWhile wants_up own)) \<and>
            as_last_switch st = last_change own)"

lemma history_inv_filter:
  assumes "history_inv opts ds c" "ac_options c' = ac_options c"
    and "\<And>k. map_of (ac_state c') k = (if P k then map_of (ac_state c) k else None)"
  shows "history_inv opts (filter (\<lambda>d. P (decision_key d)) ds) c'"
proof -
  have "filter (\<lambda>d. decision_key d = k) (filter (\<lambda>d. P (decision_key d)) ds) =
      (if P k then filter (\<lambda>d. decision_key d = k) ds else [])" for k
    by (induction ds) auto
  with assms show ?thesis by (auto simp: history_inv_def Let_def split: option.splits)
qed

lemma hysteresis_cases:
  assumes "hysteresis opts st now w cur at_once = (target, hold, why)"
  shows "hold = (target \<noteq> w \<or> hold)" "hold \<Longrightarrow> target = cur \<and> w \<noteq> cur" "\<not> hold \<Longrightarrow> target = w \<and> why = []"
    "at_once \<Longrightarrow> quality_rank w \<le> quality_rank cur \<Longrightarrow> target = w \<and> \<not> hold"
    "hold \<Longrightarrow> why = [''hysteresis: waiting for stable network before upgrading''] \<longleftrightarrow> quality_rank w > quality_rank cur"
    "hold \<Longrightarrow> why \<noteq> []" "hold \<Longrightarrow> length why = 1"
    "quality_rank target > quality_rank cur \<Longrightarrow> w = target \<and> as_good st \<ge> ao_good_samples opts \<and>
       now - as_last_switch st \<ge> ao_up_interval opts"
  using assms by (auto simp: hysteresis_def split: if_splits)

lemma decide_state_wants_up:
  assumes "decide_state opts s cur av now st0 = (st, d)"
  shows "as_good st = (if wants_up d then as_good st0 + 1 else 0)"
    "as_last_switch st = (if ad_changed d then now else as_last_switch st0)"
    "ad_previous d = cur" "ad_decided_at d = now" "decision_key d = sample_key s"
    "quality_rank (ad_target d) > quality_rank cur \<Longrightarrow>
       as_good st \<ge> ao_good_samples opts \<and> now - as_last_switch st0 \<ge> ao_up_interval opts"
    "ad_changed d = (ad_target d \<noteq> cur)"
proof -
  from decide_state_shape[OF assms] obtain w rs target hold why o1 where
    h: "hysteresis opts (count_streak w cur (update_state opts s st0)) now w cur o1 = (target, hold, why)" and
    d: "ad_target d = target" "ad_previous d = cur" "ad_hold d = hold" "ad_reasons d = rs @ why"
      "ad_changed d = (target \<noteq> cur)" "ad_decided_at d = now" "ad_user d = ns_user s" "ad_stream d = ns_stream s"
      "as_good st = as_good (count_streak w cur (update_state opts s st0))"
      "as_last_switch st = (if target \<noteq> cur then now else as_last_switch (count_streak w cur (update_state opts s st0)))"
    unfolding Let_def by blast
  note hc = hysteresis_cases[OF h]
  have up: "wants_up d \<longleftrightarrow> quality_rank w > quality_rank cur"
  proof (cases hold)
    case True
    then obtain x where x: "why = [x]" using hc(7) by (auto simp: length_Suc_conv)
    from True hc(2) have "target = cur" by blast
    then show ?thesis using True d hc(5) x by (simp add: wants_up_def held_up_def)
  qed (use d hc(3) in \<open>simp add: wants_up_def held_up_def\<close>)
  show "as_good st = (if wants_up d then as_good st0 + 1 else 0)"
    unfolding d up by (simp add: count_streak_def update_state_kept)
  show "as_last_switch st = (if ad_changed d then now else as_last_switch st0)"
    unfolding d by (simp add: count_streak_kept update_state_kept)
  show "ad_previous d = cur" "ad_decided_at d = now" "decision_key d = sample_key s" "ad_changed d = (ad_target d \<noteq> cur)"
    using d by (simp_all add: decision_key_def sample_key_def)
  show "as_good st \<ge> ao_good_samples opts \<and> now - as_last_switch st0 \<ge> ao_up_interval opts"
    if "quality_rank (ad_target d) > quality_rank cur"
    using hc(8) that unfolding d count_streak_kept update_state_kept by blast
qed

lemma decide_cases:
  assumes "decide s cur0 av clock c = (c', d)"
  obtains cur now st0 st where "decide_state (ac_options c) s cur av now st0 = (st, d)"
    "c' = c\<lparr>ac_state := AList.update (sample_key s) st (ac_state c)\<rparr>"
    "st0 = (case map_of (ac_state c) (sample_key s) of None \<Rightarrow> fresh_state cur now | Some st \<Rightarrow> st)"
    "cur = (if cur0 = QualityOther [] then QualityMedium else cur0)"
    "now = (if ns_timestamp s = 0 then clock else ns_timestamp s)"
proof -
  let ?cur = "if cur0 = QualityOther [] then QualityMedium else cur0"
  let ?now = "if ns_timestamp s = 0 then clock else ns_timestamp s"
  let ?st0 = "case map_of (ac_state c) (sample_key s) of None \<Rightarrow> fresh_state ?cur ?now | Some st \<Rightarrow> st"
  obtain st d' where r: "decide_state (ac_options c) s ?cur av ?now ?st0 = (st, d')" by fastforce
  with assms have "c' = c\<lparr>ac_state := AList.update (sample_key s) st (ac_state c)\<rparr>" "d' = d"
    by (simp_all only: decide_def Let_def prod.case prod.inject)
  with r show thesis using that by blast
qed

lemma decide_inv:
  assumes inv: "history_inv opts ds c" and r: "decide s cur0 av clock c = (c', d)"
  shows "history_inv opts (d # ds) c'"
proof -
  from decide_cases[OF r] obtain cur now st0 st where
    ds: "decide_state (ac_options c) s cur av now st0 = (st, d)" and
    c': "c' = c\<lparr>ac_state := AList.update (sample_key s) st (ac_state c)\<rparr>" and
    st0: "st0 = (case map_of (ac_state c) (sample_key s) of None \<Rightarrow> fresh_state cur now | Some st \<Rightarrow> st)" by metis
  note e = decide_state_wants_up[OF ds]
  let ?own = "filter (\<lambda>e. decision_key e = sample_key s) ds"
  have own: "as_good st0 = int (length (takeWhile wants_up ?own)) \<and>
      as_last_switch st0 = (if ?own = [] then now else last_change ?own)"
    using inv st0 by (auto simp: history_inv_def Let_def fresh_state_def split: option.splits dest!: spec[of _ "sample_key s"])
  have "as_good st = int (length (takeWhile wants_up (d # ?own)))" using e(1) own by simp
  moreover have "as_last_switch st = last_change (d # ?own)"
    using e(2,4) own unfolding last_change_def by (cases "?own = []"; cases "find ad_changed ?own") auto
  moreover have other: "filter (\<lambda>e. decision_key e = k) (d # ds) = filter (\<lambda>e. decision_key e = k) ds"
    if "k \<noteq> sample_key s" for k using that e(5) by simp
  moreover have "map_of (ac_state c') k = (if k = sample_key s then Some st else map_of (ac_state c) k)" for k
    unfolding c' by simp
  moreover have "ac_options c' = ac_options c" unfolding c' by simp
  ultimately have new: "let own = filter (\<lambda>e. decision_key e = k) (d # ds) in case map_of (ac_state c') k of
      None \<Rightarrow> own = [] | Some st \<Rightarrow> own \<noteq> [] \<and> as_good st = int (length (takeWhile wants_up own)) \<and>
            as_last_switch st = last_change own" for k
    using inv e(5) by (cases "k = sample_key s") (simp_all add: history_inv_def Let_def)
  show ?thesis using new inv \<open>ac_options c' = ac_options c\<close> by (simp only: history_inv_def simp_thms)
qed

lemma forget_inv:
  "history_inv opts ds c \<Longrightarrow>
     history_inv opts (filter (\<lambda>d. \<not> has_prefix (user @ '':'') (decision_key d)) ds) (forget_user user c)"
  "history_inv opts ds c \<Longrightarrow>
     history_inv opts (filter (\<lambda>d. \<not> has_suffix ('':'' @ stream) (decision_key d)) ds) (forget_stream stream c)"
  by (rule history_inv_filter; (assumption | simp add: forget_user_def forget_stream_def Let_def map_of_filter_key))+

lemma history_inv_holds: "decision_history opts ds c \<Longrightarrow> history_inv opts ds c"
proof (induction rule: decision_history.induct)
  case start
  show ?case by (simp add: history_inv_def new_adaptive_controller_def)
qed (blast intro: decide_inv forget_inv)+

lemma default_options_pos: "0 < ao_good_samples (with_defaults o1)" "0 < ao_up_interval (with_defaults o1)"
  by (simp_all add: with_defaults_def)

section \<open>Properties\<close>

text \<open>C23: a layer is raised only on a stable network: whenever a decision raises the layer of a
  subscriber's stream, the decisions before it, as many as \<open>GoodSamplesForUpgrade\<close> asks for less
  the present one, all wanted to raise it, and at least \<open>MinUpswitchInterval\<close> has passed since the
  layer last changed or since the stream's first decision. The very first decision never raises.\<close>

theorem upgrade_needs_stability:
  assumes "decision_history opts ds c" "decide s current available clock c = (c', d)"
    and "quality_rank (ad_target d) > quality_rank (ad_previous d)"
  shows "let own = filter (\<lambda>e. decision_key e = decision_key d) ds;
             needed = nat (ao_good_samples (with_defaults opts)) - 1 in
    own \<noteq> [] \<and> needed \<le> length own \<and> (\<forall>e \<in> set (take needed own). wants_up e) \<and>
    ao_up_interval (with_defaults opts) \<le> ad_decided_at d - last_change own"
proof -
  have inv: "history_inv opts ds c" by (rule history_inv_holds[OF assms(1)])
  then have opts: "ac_options c = with_defaults opts" by (simp add: history_inv_def)
  from decide_cases[OF assms(2)] obtain cur now st0 st where
    ds: "decide_state (ac_options c) s cur available now st0 = (st, d)" and
    st0: "st0 = (case map_of (ac_state c) (sample_key s) of None \<Rightarrow> fresh_state cur now | Some st \<Rightarrow> st)" by metis
  note e = decide_state_wants_up[OF ds]
  let ?own = "filter (\<lambda>x. decision_key x = decision_key d) ds"
  let ?G = "ao_good_samples (with_defaults opts)"
  have up: "as_good st \<ge> ?G" "now - as_last_switch st0 \<ge> ao_up_interval (with_defaults opts)"
    using e(3,6) assms(3) opts by simp_all
  have old: "map_of (ac_state c) (sample_key s) = Some st0"
  proof (cases "map_of (ac_state c) (sample_key s)")
    case None
    then have "as_last_switch st0 = now" using st0 by (simp add: fresh_state_def)
    with up(2) default_options_pos(2)[of opts] show ?thesis by simp
  qed (use st0 in simp)
  with inv e(5) have own: "?own \<noteq> []" "as_good st0 = int (length (takeWhile wants_up ?own))"
    "as_last_switch st0 = last_change ?own"
    by (auto simp: history_inv_def Let_def dest!: spec[of _ "sample_key s"])
  have "as_good st \<le> as_good st0 + 1" using e(1) own(2) by simp
  then have n: "nat ?G - 1 \<le> length (takeWhile wants_up ?own)" using up(1) own(2) by linarith
  then have "take (nat ?G - 1) ?own = take (nat ?G - 1) (takeWhile wants_up ?own)"
    by (metis takeWhile_eq_take take_take min.absorb1)
  then have "\<forall>e \<in> set (take (nat ?G - 1) ?own). wants_up e"
    by (metis in_set_takeD set_takeWhileD)
  moreover have "nat ?G - 1 \<le> length ?own" using n length_takeWhile_le[of wants_up ?own] by linarith
  ultimately show ?thesis using own(1,3) up(2) e(4) by (simp add: Let_def)
qed

definition good_sample :: "instant \<Rightarrow> network_sample" where
  "good_sample t = \<lparr>ns_user = ''u'', ns_stream = ''s'', ns_available = 5000, ns_observed = 0, ns_loss = 0, ns_rtt = 20,
     ns_jitter = 1, ns_audio_loss = 0, ns_audio_jitter = 1, ns_fps = 30, ns_dropped = 0, ns_decode = 5,
     ns_freeze = 0, ns_nack = 0, ns_pli = 0, ns_device = ''high'', ns_low_power = False, ns_screen = False,
     ns_timestamp = t\<rparr>"

definition zero_options :: adaptive_options where
  "zero_options = \<lparr>ao_low_min = 0, ao_medium_min = 0, ao_high_min = 0, ao_critical = 0, ao_up_interval = 0,
     ao_down_interval = 0, ao_good_samples = 0, ao_poor_samples = 0, ao_alpha = 0\<rparr>"

definition both_layers :: "quality list" where "both_layers = [QualityHigh, QualityMedium, QualityLow]"

definition good_run :: "adaptive_controller \<Rightarrow> instant \<Rightarrow> adaptive_controller \<times> adaptive_decision" where
  "good_run c t = decide (good_sample t) QualityMedium both_layers 0 c"

definition after_two :: adaptive_controller where
  "after_two = fst (good_run (fst (good_run (new_adaptive_controller zero_options) second)) (5 * second))"

lemma good_run_history:
  "decision_history opts ds c \<Longrightarrow> decision_history opts (snd (good_run c t) # ds) (fst (good_run c t))"
  by (rule decision_history.decided[of opts ds c "good_sample t" QualityMedium both_layers 0]) (simp_all add: good_run_def)

lemma after_two_history:
  "decision_history zero_options
     [snd (good_run (fst (good_run (new_adaptive_controller zero_options) second)) (5 * second)),
      snd (good_run (new_adaptive_controller zero_options) second)] after_two"
  unfolding after_two_def by (intro good_run_history decision_history.start)

theorem upgrade_needs_stability_witness:
  "ad_target (snd (good_run after_two (9 * second))) = QualityHigh \<and>
   wants_up (snd (good_run (new_adaptive_controller zero_options) second))"
proof -
  let ?d = "snd (good_run after_two (9 * second))"
  let ?ds = "[snd (good_run (fst (good_run (new_adaptive_controller zero_options) second)) (5 * second)),
      snd (good_run (new_adaptive_controller zero_options) second)]"
  have run: "decide (good_sample (9 * second)) QualityMedium both_layers 0 after_two =
      (fst (good_run after_two (9 * second)), ?d)" unfolding good_run_def by simp
  have t: "ad_target ?d = QualityHigh" "ad_previous ?d = QualityMedium" by code_simp+
  have own: "filter (\<lambda>e. decision_key e = decision_key ?d) ?ds = ?ds" by code_simp
  have n: "nat (ao_good_samples (with_defaults zero_options)) - 1 = 2" by code_simp
  from upgrade_needs_stability[OF after_two_history run] t
  have "\<forall>e \<in> set (take 2 ?ds). wants_up e" unfolding own n Let_def by (simp add: quality_rank_def)
  then have "wants_up (snd (good_run (new_adaptive_controller zero_options) second))" by simp
  with t show ?thesis by simp
qed

text \<open>Audio is protected at once: when a decision gives audio priority or suspends video, and the low
  layer exists, it selects the low layer immediately, without waiting out any hysteresis, and limits
  video to 12 frames a second and the low layer's bitrate.\<close>

lemma audio_pressure_forces_low:
  assumes "decide s current available clock c = (c', d)" "ad_audio_priority d \<or> ad_suspended d"
    and "QualityLow \<in> set available"
  shows "ad_target d = QualityLow \<and> \<not> ad_hold d \<and> ad_max_fps d = 12 \<and>
    ad_max_bitrate d \<le> max_bitrate_for_quality QualityLow (ac_options c)"
proof -
  from decide_cases[OF assms(1)] obtain cur now st0 st where
    "decide_state (ac_options c) s cur available now st0 = (st, d)" by metis
  from decide_state_shape[OF this] obtain w rs target hold why where
    w: "wanted_quality (raw_decide (ac_options c) (update_state (ac_options c) s st0) s) s available = (w, rs)" and
    h: "hysteresis (ac_options c) (count_streak w cur (update_state (ac_options c) s st0)) now w cur
        (rw_grade (raw_decide (ac_options c) (update_state (ac_options c) s st0) s) = GradeCritical \<or>
         rw_audio_priority (raw_decide (ac_options c) (update_state (ac_options c) s st0) s) \<or>
         rw_suspend (raw_decide (ac_options c) (update_state (ac_options c) s st0) s) \<or>
         is_device_constrained (ns_device s) (ns_low_power s)) = (target, hold, why)" and
    d: "ad_target d = target" "ad_hold d = hold"
      "ad_audio_priority d = rw_audio_priority (raw_decide (ac_options c) (update_state (ac_options c) s st0) s)"
      "ad_suspended d = rw_suspend (raw_decide (ac_options c) (update_state (ac_options c) s st0) s)"
      "ad_max_fps d = rw_fps (raw_decide (ac_options c) (update_state (ac_options c) s st0) s)"
      "ad_max_bitrate d = rw_bitrate (raw_decide (ac_options c) (update_state (ac_options c) s st0) s)"
    unfolding Let_def by metis
  from assms(2) d have low: "rw_audio_priority (raw_decide (ac_options c) (update_state (ac_options c) s st0) s) \<or>
      rw_suspend (raw_decide (ac_options c) (update_state (ac_options c) s st0) s)" by simp
  have "w = QualityLow" using wanted_low[OF low assms(3)] w by simp
  moreover have "target = w \<and> \<not> hold"
    using hysteresis_cases(4)[OF h] low \<open>w = QualityLow\<close> rank_bounds[of cur] by auto
  ultimately show ?thesis using d raw_limits[OF low] by simp
qed

lemma audio_pressure_forces_low_witness:
  "ad_target (snd (decide ((good_sample 5)\<lparr>ns_audio_loss := 6\<rparr>) QualityHigh both_layers 0
      (new_adaptive_controller zero_options))) = QualityLow"
proof -
  let ?r = "decide ((good_sample 5)\<lparr>ns_audio_loss := 6\<rparr>) QualityHigh both_layers 0 (new_adaptive_controller zero_options)"
  have "ad_audio_priority (snd ?r)" by code_simp
  moreover have "QualityLow \<in> set both_layers" by (simp add: both_layers_def)
  ultimately show ?thesis using audio_pressure_forces_low[of _ _ _ _ _ "fst ?r" "snd ?r"] by (metis prod.collapse)
qed

text \<open>The selected layer exists: for a device without a cap, if the subscriber's layer is one the
  stream has, the decision selects one the stream has; a decision held back keeps the layer, and one
  that is not, changes it exactly when it says so.\<close>

lemma target_layer_exists:
  assumes "decide s current available clock c = (c', d)" "current \<in> set available" "current \<noteq> QualityOther []"
    and "\<not> is_device_constrained (ns_device s) (ns_low_power s)"
  shows "ad_target d \<in> set available \<and> (ad_hold d \<longrightarrow> ad_target d = current) \<and>
    (ad_changed d \<longleftrightarrow> ad_target d \<noteq> current)"
proof -
  from decide_cases[OF assms(1)] assms(3) obtain now st0 st where
    "decide_state (ac_options c) s current available now st0 = (st, d)" by metis
  from decide_state_shape[OF this] obtain w rs target hold why o1 where
    w: "wanted_quality (raw_decide (ac_options c) (update_state (ac_options c) s st0) s) s available = (w, rs)" and
    h: "hysteresis (ac_options c) (count_streak w current (update_state (ac_options c) s st0)) now w current o1 =
        (target, hold, why)" and
    d: "ad_target d = target" "ad_hold d = hold" "ad_changed d = (target \<noteq> current)" unfolding Let_def by metis
  have "available \<noteq> []" using assms(2) by auto
  from wanted_available[OF this assms(4)] w have "w \<in> set available" by (metis fst_conv)
  moreover have "target = w \<or> target = current" "hold \<longrightarrow> target = current"
    using hysteresis_cases(2,3)[OF h] by blast+
  ultimately show ?thesis using assms(2) d by auto
qed

lemma target_layer_exists_witness:
  "ad_target (snd (good_run (new_adaptive_controller zero_options) 5)) \<in> set both_layers"
proof -
  let ?r = "good_run (new_adaptive_controller zero_options) 5"
  have "\<not> is_device_constrained (ns_device (good_sample 5)) (ns_low_power (good_sample 5))" by code_simp
  moreover have "QualityMedium \<in> set both_layers" "QualityMedium \<noteq> QualityOther []" by (simp_all add: both_layers_def)
  moreover have "decide (good_sample 5) QualityMedium both_layers 0 (new_adaptive_controller zero_options) = (fst ?r, snd ?r)"
    by (simp add: good_run_def)
  ultimately show ?thesis using target_layer_exists by blast
qed

text \<open>A device with a cap can be given a layer the stream does not have.\<close>

lemma device_cap_leaves_available:
  "ad_target (snd (decide ((good_sample 5)\<lparr>ns_device := ''legacy''\<rparr>) QualityHigh [QualityHigh] 0
      (new_adaptive_controller zero_options))) = QualityLow"
  by code_simp

end
