(* ===== verification/Room.thy ===== *)
theory Room
  imports Adaptive "HOL-Library.Product_Lexorder"
begin

text \<open>
  The media room of \<open>internal/media/sfu/room.go\<close> and its peers, \<open>internal/media/sfu/peer.go\<close>. What a
  peer's WebRTC connection answers to AddTrack, ReplaceTrack and RemoveTrack is the argument
  \<open>rtc\<close> of every operation; an outgoing sender is the local track it carries. A packet is only its
  effect on the room. Each critical section of the room's lock is one definition and one step of a history. Publishing
  a plain track has two, \<open>can_publish_track\<close> and \<open>publish_track\<close>; a layer of a stream has three, the
  entry of the stream, the layer (under the lock of the stream) and the subscriptions, each with its own definition,
  and the handlers are their compositions without anything in between. A handler keeps the stream object it found: when
  the stream has left the room in the meantime, its last section works on an object the room no longer has.
  Recording and relay observers and their sinks are not modelled; an event is recorded with the section before it.
  \<open>rm_events\<close> are the events handed to the handler.
\<close>

datatype peer_role = PeerRolePresenter | PeerRoleViewer

datatype room_event_type = EventPeerJoined | EventPeerLeft | EventTrackPublished | EventTrackUnpublished

record room_event =
  re_type :: room_event_type
  re_room :: string
  re_user :: string
  re_track :: string
  re_role :: peer_role

record rtc =
  rt_add :: "string \<Rightarrow> local_track \<Rightarrow> error option"
  rt_replace :: "string \<Rightarrow> local_track \<Rightarrow> local_track \<Rightarrow> error option"
  rt_remove :: "string \<Rightarrow> local_track \<Rightarrow> error option"

section \<open>Peers\<close>

record peer =
  pr_user :: string
  pr_role :: peer_role
  pr_closed :: bool
  pr_subs :: "(string, local_track) gomap"

definition new_peer :: "string \<Rightarrow> peer_role \<Rightarrow> peer" where
  "new_peer user role = \<lparr>pr_user = user, pr_role = role, pr_closed = False, pr_subs = []\<rparr>"

definition peer_subscribe :: "rtc \<Rightarrow> peer \<Rightarrow> track_router \<Rightarrow> peer \<times> track_router \<times> error option" where
  "peer_subscribe x p router =
     (if pr_closed p then (p, router, Some (PlainError ''peer is closed''))
      else if map_of (pr_subs p) (tr_id router) \<noteq> None then (p, router, None)
      else case rt_add x (pr_user p) (tr_local router) of
        Some e \<Rightarrow> (p, router, Some e)
      | None \<Rightarrow> (p\<lparr>pr_subs := AList.update (tr_id router) (tr_local router) (pr_subs p)\<rparr>,
                 add_subscriber (pr_user p) router, None))"

definition peer_unsubscribe :: "rtc \<Rightarrow> string \<Rightarrow> peer \<Rightarrow> peer \<times> error option" where
  "peer_unsubscribe x track p =
     (if pr_closed p then (p, None)
      else case map_of (pr_subs p) track of
        None \<Rightarrow> (p, None)
      | Some sender \<Rightarrow>
          (case rt_remove x (pr_user p) sender of
             Some e \<Rightarrow> (p, Some e)
           | None \<Rightarrow> (p\<lparr>pr_subs := AList.delete track (pr_subs p)\<rparr>, None)))"

definition peer_close :: "peer \<Rightarrow> peer" where
  "peer_close p = (if pr_closed p then p else p\<lparr>pr_closed := True, pr_subs := []\<rparr>)"

section \<open>The room\<close>

record room_options =
  ro_presenters :: int
  ro_viewers :: int
  ro_tracks :: int
  ro_simulcast :: bool
  ro_recording :: bool
  ro_adaptive :: adaptive_options

record room =
  rm_id :: string
  rm_options :: room_options
  rm_presenters :: "(string, peer) gomap"
  rm_viewers :: "(string, peer) gomap"
  rm_tracks :: "(string, track_router) gomap"
  rm_simulcast :: "(string, simulcast_track) gomap"
  rm_adaptive :: adaptive_controller
  rm_closed :: bool
  rm_events :: "room_event list"

definition default_max_presenters :: int where "default_max_presenters = 50"
definition default_max_viewers :: int where "default_max_viewers = 10000"
definition default_max_tracks :: int where "default_max_tracks = 8"

definition new_room :: "string \<Rightarrow> room_options \<Rightarrow> room" where
  "new_room i opts0 =
     (let opts = opts0\<lparr>ro_presenters := (if ro_presenters opts0 \<le> 0 then default_max_presenters else ro_presenters opts0),
            ro_viewers := (if ro_viewers opts0 \<le> 0 then default_max_viewers else ro_viewers opts0),
            ro_tracks := (if ro_tracks opts0 \<le> 0 then default_max_tracks else ro_tracks opts0)\<rparr> in
      \<lparr>rm_id = i, rm_options = opts, rm_presenters = [], rm_viewers = [], rm_tracks = [], rm_simulcast = [],
       rm_adaptive = new_adaptive_controller (ro_adaptive opts), rm_closed = False, rm_events = []\<rparr>)"

definition emit_event :: "room_event \<Rightarrow> room \<Rightarrow> room" where
  "emit_event evt r = r\<lparr>rm_events := rm_events r @ [evt]\<rparr>"

definition find_peer :: "string \<Rightarrow> room \<Rightarrow> (peer \<times> peer_role) option" where
  "find_peer user r =
     (case map_of (rm_presenters r) user of
        Some p \<Rightarrow> Some (p, PeerRolePresenter)
      | None \<Rightarrow> (case map_of (rm_viewers r) user of Some p \<Rightarrow> Some (p, PeerRoleViewer) | None \<Rightarrow> None))"

definition peer_count :: "room \<Rightarrow> nat \<times> nat" where
  "peer_count r = (length (rm_presenters r), length (rm_viewers r))"

definition subscribe_to_simulcast ::
  "rtc \<Rightarrow> quality \<Rightarrow> peer \<Rightarrow> simulcast_track \<Rightarrow> peer \<times> simulcast_track \<times> error option" where
  "subscribe_to_simulcast x q p st =
     (case local_track_for_layer q st of
        None \<Rightarrow> (p, st, Some (PlainError (''layer '' @ quality_text q @ '' not available'')))
      | Some lt \<Rightarrow>
          (case rt_add x (pr_user p) lt of
             Some e \<Rightarrow> (p, st, Some e)
           | None \<Rightarrow> (p\<lparr>pr_subs := AList.update (sm_stream st) lt (pr_subs p)\<rparr>,
                      set_subscriber_layer (pr_user p) q st, None)))"

text \<open>A newcomer's subscriptions to what is there.\<close>

fun subscribe_tracks ::
  "rtc \<Rightarrow> peer \<Rightarrow> (string, track_router) gomap \<Rightarrow> peer \<times> (string, track_router) gomap" where
  "subscribe_tracks x p [] = (p, [])"
| "subscribe_tracks x p ((i, router) # rest) =
     (if pr_role p = PeerRolePresenter \<and> tr_source router = pr_user p
      then (let (p', rest') = subscribe_tracks x p rest in (p', (i, router) # rest'))
      else (let (p1, router', err) = peer_subscribe x p router;
                (p', rest') = subscribe_tracks x p1 rest in (p', (i, router') # rest')))"

fun subscribe_simulcasts ::
  "rtc \<Rightarrow> quality \<Rightarrow> peer \<Rightarrow> (string, simulcast_track) gomap \<Rightarrow> peer \<times> (string, simulcast_track) gomap" where
  "subscribe_simulcasts x q p [] = (p, [])"
| "subscribe_simulcasts x q p ((i, st) # rest) =
     (if pr_role p = PeerRolePresenter \<and> sm_source st = pr_user p
      then (let (p', rest') = subscribe_simulcasts x q p rest in (p', (i, st) # rest'))
      else (let (p1, st', err) = subscribe_to_simulcast x (best_available_layer q st) p st;
                (p', rest') = subscribe_simulcasts x q p1 rest in (p', (i, st') # rest')))"

definition subscribe_to_existing :: "rtc \<Rightarrow> peer \<Rightarrow> room \<Rightarrow> peer \<times> room" where
  "subscribe_to_existing x p r =
     (let (p1, trs) = subscribe_tracks x p (rm_tracks r);
          quality = (if pr_role p = PeerRolePresenter then QualityHigh else QualityMedium);
          (p2, sts) = subscribe_simulcasts x quality p1 (rm_simulcast r)
      in (p2, r\<lparr>rm_tracks := trs, rm_simulcast := sts\<rparr>))"

definition add_presenter :: "rtc \<Rightarrow> string \<Rightarrow> room \<Rightarrow> room \<times> peer result" where
  "add_presenter x user r =
     (if rm_closed r then (r, Err (PlainError ''room is closed''))
      else if map_of (rm_presenters r) user \<noteq> None
      then (r, Err (PlainError (''presenter '' @ user @ '' already in room '' @ rm_id r)))
      else if map_of (rm_viewers r) user \<noteq> None
      then (r, Err (PlainError (''user '' @ user @ '' already in room '' @ rm_id r @ '' as viewer'')))
      else if int (length (rm_presenters r)) \<ge> ro_presenters (rm_options r)
      then (r, Err (PlainError (''room '' @ rm_id r @ '' has reached the presenter limit'')))
      else (let (p, r1) = subscribe_to_existing x (new_peer user PeerRolePresenter) r;
                r2 = r1\<lparr>rm_presenters := AList.update user p (rm_presenters r1)\<rparr>
            in (emit_event \<lparr>re_type = EventPeerJoined, re_room = rm_id r, re_user = user, re_track = [],
                  re_role = PeerRolePresenter\<rparr> r2, Ok p)))"

definition add_viewer :: "rtc \<Rightarrow> string \<Rightarrow> room \<Rightarrow> room \<times> peer result" where
  "add_viewer x user r =
     (if rm_closed r then (r, Err (PlainError ''room is closed''))
      else if map_of (rm_viewers r) user \<noteq> None
      then (r, Err (PlainError (''viewer '' @ user @ '' already in room '' @ rm_id r)))
      else if map_of (rm_presenters r) user \<noteq> None
      then (r, Err (PlainError (''user '' @ user @ '' already in room '' @ rm_id r @ '' as presenter'')))
      else if int (length (rm_viewers r)) \<ge> ro_viewers (rm_options r)
      then (r, Err (PlainError (''room '' @ rm_id r @ '' has reached the viewer limit'')))
      else (let (p, r1) = subscribe_to_existing x (new_peer user PeerRoleViewer) r;
                r2 = r1\<lparr>rm_viewers := AList.update user p (rm_viewers r1)\<rparr>
            in (emit_event \<lparr>re_type = EventPeerJoined, re_room = rm_id r, re_user = user, re_track = [],
                  re_role = PeerRoleViewer\<rparr> r2, Ok p)))"

definition unsubscribe_all :: "rtc \<Rightarrow> string \<Rightarrow> (string, peer) gomap \<Rightarrow> (string, peer) gomap" where
  "unsubscribe_all x track ps = map (\<lambda>(u, p). (u, fst (peer_unsubscribe x track p))) ps"

definition unpublished :: "string \<Rightarrow> string \<Rightarrow> room \<Rightarrow> room_event" where
  "unpublished user track r = \<lparr>re_type = EventTrackUnpublished, re_room = rm_id r, re_user = user, re_track = track,
     re_role = PeerRolePresenter\<rparr>"

text \<open>The two loops of \<open>removePresenterTracksLocked\<close>, over the tracks there are when they start.\<close>

fun remove_tracks_loop :: "rtc \<Rightarrow> string \<Rightarrow> (string, track_router) gomap \<Rightarrow> room \<Rightarrow> room" where
  "remove_tracks_loop x user [] r = r"
| "remove_tracks_loop x user ((i, router) # rest) r =
     (if tr_source router \<noteq> user then remove_tracks_loop x user rest r
      else remove_tracks_loop x user rest
        (emit_event (unpublished user i r)
          (r\<lparr>rm_tracks := AList.delete i (rm_tracks r),
             rm_presenters := unsubscribe_all x i (rm_presenters r),
             rm_viewers := unsubscribe_all x i (rm_viewers r)\<rparr>)))"

fun remove_simulcasts_loop :: "rtc \<Rightarrow> string \<Rightarrow> (string, simulcast_track) gomap \<Rightarrow> room \<Rightarrow> room" where
  "remove_simulcasts_loop x user [] r = r"
| "remove_simulcasts_loop x user ((i, st) # rest) r =
     (if sm_source st \<noteq> user then remove_simulcasts_loop x user rest r
      else remove_simulcasts_loop x user rest
        (emit_event (unpublished user i r)
          (r\<lparr>rm_simulcast := AList.delete i (rm_simulcast r), rm_adaptive := forget_stream i (rm_adaptive r),
             rm_presenters := unsubscribe_all x i (rm_presenters r),
             rm_viewers := unsubscribe_all x i (rm_viewers r)\<rparr>)))"

definition remove_presenter_tracks :: "rtc \<Rightarrow> string \<Rightarrow> room \<Rightarrow> room" where
  "remove_presenter_tracks x user r =
     (let r1 = remove_tracks_loop x user (rm_tracks r) r in remove_simulcasts_loop x user (rm_simulcast r1) r1)"

definition remove_viewer_subscriptions :: "string \<Rightarrow> room \<Rightarrow> room" where
  "remove_viewer_subscriptions user r =
     r\<lparr>rm_tracks := map (\<lambda>(i, tr). (i, remove_subscriber user tr)) (rm_tracks r),
       rm_simulcast := map (\<lambda>(i, st). (i, remove_layer_subscriber user st)) (rm_simulcast r)\<rparr>"

definition remove_peer :: "rtc \<Rightarrow> string \<Rightarrow> room \<Rightarrow> room" where
  "remove_peer x user r =
     (if rm_closed r then r
      else case find_peer user r of
        None \<Rightarrow> r
      | Some (p, role) \<Rightarrow>
          (let r1 = (case role of
                       PeerRolePresenter \<Rightarrow>
                         remove_presenter_tracks x user (r\<lparr>rm_presenters := AList.delete user (rm_presenters r)\<rparr>)
                     | PeerRoleViewer \<Rightarrow>
                         remove_viewer_subscriptions user (r\<lparr>rm_viewers := AList.delete user (rm_viewers r)\<rparr>));
               r2 = r1\<lparr>rm_adaptive := forget_user user (rm_adaptive r1)\<rparr>
           in emit_event \<lparr>re_type = EventPeerLeft, re_room = rm_id r, re_user = user, re_track = [], re_role = role\<rparr> r2))"

definition room_close :: "room \<Rightarrow> room" where
  "room_close r =
     (if rm_closed r then r
      else r\<lparr>rm_closed := True, rm_presenters := [], rm_viewers := [], rm_tracks := [], rm_simulcast := []\<rparr>)"

section \<open>Publishing\<close>

definition publisher_track_count :: "string \<Rightarrow> room \<Rightarrow> int" where
  "publisher_track_count user r =
     int (length (filter (\<lambda>(i, tr). tr_source tr = user) (rm_tracks r))) +
     int (length (filter (\<lambda>(i, st). sm_source st = user) (rm_simulcast r)))"

definition can_publish_track :: "string \<Rightarrow> string \<Rightarrow> room \<Rightarrow> bool" where
  "can_publish_track user track r =
     (if ro_tracks (rm_options r) \<le> 0 then True
      else if (case map_of (rm_tracks r) track of None \<Rightarrow> False | Some tr \<Rightarrow> tr_source tr = user) then True
      else if (case map_of (rm_simulcast r) track of None \<Rightarrow> False | Some st \<Rightarrow> sm_source st = user) then True
      else publisher_track_count user r < ro_tracks (rm_options r))"

text \<open>Subscribing everybody but the source to a new track.\<close>

fun subscribe_all ::
  "rtc \<Rightarrow> string option \<Rightarrow> (string, peer) gomap \<Rightarrow> track_router \<Rightarrow> (string, peer) gomap \<times> track_router" where
  "subscribe_all x skip [] router = ([], router)"
| "subscribe_all x skip ((u, p) # rest) router =
     (if skip = Some u
      then (let (ps, router') = subscribe_all x skip rest router in ((u, p) # ps, router'))
      else (let (p', router1, err) = peer_subscribe x p router;
                (ps, router') = subscribe_all x skip rest router1 in ((u, p') # ps, router')))"

fun subscribe_all_simulcast ::
  "rtc \<Rightarrow> string option \<Rightarrow> quality \<Rightarrow> (string, peer) gomap \<Rightarrow> simulcast_track \<Rightarrow> (string, peer) gomap \<times> simulcast_track" where
  "subscribe_all_simulcast x skip q [] st = ([], st)"
| "subscribe_all_simulcast x skip q ((u, p) # rest) st =
     (if skip = Some u
      then (let (ps, st') = subscribe_all_simulcast x skip q rest st in ((u, p) # ps, st'))
      else (let (p', st1, err) = subscribe_to_simulcast x q p st;
                (ps, st') = subscribe_all_simulcast x skip q rest st1 in ((u, p') # ps, st')))"

definition forward_track :: "rtc \<Rightarrow> string \<Rightarrow> track_router \<Rightarrow> room \<Rightarrow> room" where
  "forward_track x source router r =
     (let (ps, router1) = subscribe_all x (Some source) (rm_presenters r) router;
          (vs, router2) = subscribe_all x None (rm_viewers r) router1
      in r\<lparr>rm_tracks := AList.update (tr_id router) router2 (rm_tracks r), rm_presenters := ps, rm_viewers := vs\<rparr>)"

definition forward_simulcast :: "rtc \<Rightarrow> string \<Rightarrow> quality \<Rightarrow> simulcast_track \<Rightarrow> room \<Rightarrow> room" where
  "forward_simulcast x source q st r =
     (let (ps, st1) = subscribe_all_simulcast x (Some source) q (rm_presenters r) st;
          (vs, st2) = subscribe_all_simulcast x None q (rm_viewers r) st1
      in r\<lparr>rm_simulcast := AList.update (sm_stream st) st2 (rm_simulcast r), rm_presenters := ps, rm_viewers := vs\<rparr>)"

definition published :: "string \<Rightarrow> string \<Rightarrow> room \<Rightarrow> room_event" where
  "published user track r = \<lparr>re_type = EventTrackPublished, re_room = rm_id r, re_user = user, re_track = track,
     re_role = PeerRolePresenter\<rparr>"

text \<open>The second critical section of a plain track, after the limit was checked.\<close>

definition publish_track :: "rtc \<Rightarrow> string \<Rightarrow> track_router \<Rightarrow> room \<Rightarrow> room" where
  "publish_track x user router r =
     (if rm_closed r then r
      else (let r1 = forward_track x user router r in emit_event (published user (tr_id router) r1) r1))"

text \<open>The sections of a simulcast layer. First: the stream is found or entered; \<open>None\<close> if the layer is
  refused, otherwise whether the stream is new.\<close>

definition claim_stream :: "string \<Rightarrow> string \<Rightarrow> room \<Rightarrow> room \<times> bool option" where
  "claim_stream user stream r =
     (if rm_closed r then (r, None)
      else if map_of (rm_simulcast r) stream \<noteq> None then (r, Some False)
      else if \<not> can_publish_track user stream r then (r, None)
      else (r\<lparr>rm_simulcast := AList.update stream (new_simulcast_track stream user) (rm_simulcast r)\<rparr>, Some True))"

text \<open>Second: the layer. A stream that left the room was closed, so nothing is added to it.\<close>

definition add_stream_layer :: "string \<Rightarrow> quality \<Rightarrow> local_track result \<Rightarrow> room \<Rightarrow> room \<times> error option" where
  "add_stream_layer stream q made r =
     (case map_of (rm_simulcast r) stream of
        None \<Rightarrow> (r, Some (case made of Err e \<Rightarrow> e | Ok lt \<Rightarrow> err_closed_pipe))
      | Some st \<Rightarrow>
          (case add_layer q made st of (st', e) \<Rightarrow> (r\<lparr>rm_simulcast := AList.update stream st' (rm_simulcast r)\<rparr>, e)))"

text \<open>Third: everybody but the source is subscribed to the stream object the handler holds, whether the room still
  has it or not.\<close>

definition forward_stream :: "rtc \<Rightarrow> string \<Rightarrow> quality \<Rightarrow> simulcast_track \<Rightarrow> bool \<Rightarrow> room \<Rightarrow> room" where
  "forward_stream x source q st current r =
     (let r1 = forward_simulcast x source q st r in if current then r1 else r1\<lparr>rm_simulcast := rm_simulcast r\<rparr>)"

definition announce_stream :: "rtc \<Rightarrow> string \<Rightarrow> quality \<Rightarrow> simulcast_track \<Rightarrow> bool \<Rightarrow> room \<Rightarrow> room" where
  "announce_stream x user q st current r =
     (let r1 = forward_stream x user q st current r in emit_event (published user (sm_stream st) r1) r1)"

definition handle_simulcast_track ::
  "rtc \<Rightarrow> string \<Rightarrow> string \<Rightarrow> string \<Rightarrow> local_track result \<Rightarrow> room \<Rightarrow> room" where
  "handle_simulcast_track x user stream rid made r =
     (let q = quality_layer_from_rid rid in
      case claim_stream user stream r of
        (r1, None) \<Rightarrow> r1
      | (r1, Some created) \<Rightarrow>
          (case add_stream_layer stream q made r1 of
             (r2, Some e) \<Rightarrow> r2
           | (r2, None) \<Rightarrow>
               if created
               then (case map_of (rm_simulcast r2) stream of Some st \<Rightarrow> announce_stream x user q st True r2 | None \<Rightarrow> r2)
               else r2))"

definition handle_new_track ::
  "rtc \<Rightarrow> string \<Rightarrow> string \<Rightarrow> string \<Rightarrow> string \<Rightarrow> local_track result \<Rightarrow> room \<Rightarrow> room" where
  "handle_new_track x user track stream rid made r =
     (if rid \<noteq> [] then handle_simulcast_track x user stream rid made r
      else if \<not> can_publish_track user track r then r
      else case new_track_router user track stream made of
        Err e \<Rightarrow> r
      | Ok router \<Rightarrow> publish_track x user router r)"

section \<open>Relayed packets\<close>

record relay_track =
  rd_track :: string
  rd_stream :: string
  rd_source :: string
  rd_layer :: string

definition relay_defaults :: "relay_track \<Rightarrow> relay_track" where
  "relay_defaults d0 =
     (let d1 = (if rd_stream d0 = [] then d0\<lparr>rd_stream := rd_track d0\<rparr> else d0);
          d2 = (if rd_track d1 = [] then d1\<lparr>rd_track := rd_stream d1\<rparr> else d1)
      in if rd_source d2 = [] then d2\<lparr>rd_source := ''relay''\<rparr> else d2)"

definition inject_relay_track ::
  "rtc \<Rightarrow> relay_track \<Rightarrow> local_track result \<Rightarrow> error option \<Rightarrow> room \<Rightarrow> room \<times> error option" where
  "inject_relay_track x d made write r =
     (case map_of (rm_tracks r) (rd_track d) of
        Some router \<Rightarrow> (r, write)
      | None \<Rightarrow>
          (case new_track_router (rd_source d) (rd_track d) (rd_stream d) made of
             Err e \<Rightarrow> (r, Some e)
           | Ok router \<Rightarrow> (forward_track x (rd_source d) router r, write)))"

text \<open>The sections of a relayed layer: the stream with the answers whether it is new and has the layer, the layer,
  and the subscriptions if the layer is there.\<close>

definition claim_relay_stream :: "relay_track \<Rightarrow> quality \<Rightarrow> room \<Rightarrow> room \<times> bool \<times> bool" where
  "claim_relay_stream d q r =
     (case map_of (rm_simulcast r) (rd_stream d) of
        Some st \<Rightarrow> (r, False, has_layer q st)
      | None \<Rightarrow>
          (let st = new_simulcast_track (rd_stream d) (rd_source d) in
           (r\<lparr>rm_simulcast := AList.update (rd_stream d) st (rm_simulcast r)\<rparr>, True, has_layer q st)))"

definition add_relay_layer :: "string \<Rightarrow> quality \<Rightarrow> local_track result \<Rightarrow> room \<Rightarrow> room \<times> error option" where
  "add_relay_layer stream q made r =
     (case map_of (rm_simulcast r) stream of
        None \<Rightarrow> (r, Some (case made of Err e \<Rightarrow> e | Ok lt \<Rightarrow> err_closed_pipe))
      | Some st \<Rightarrow>
          (case add_injected_layer q made st of
             (st', e) \<Rightarrow> (r\<lparr>rm_simulcast := AList.update stream st' (rm_simulcast r)\<rparr>, e)))"

definition inject_relay_simulcast ::
  "rtc \<Rightarrow> relay_track \<Rightarrow> local_track result \<Rightarrow> error option \<Rightarrow> room \<Rightarrow> room \<times> error option" where
  "inject_relay_simulcast x d made write r =
     (let q = (if rd_layer d = [] then QualityHigh else quality_of (rd_layer d)) in
      case claim_relay_stream d q r of
        (r1, created, present) \<Rightarrow>
          if present then (r1, write)
          else (case add_relay_layer (rd_stream d) q made r1 of
                  (r2, Some e) \<Rightarrow> (r2, Some e)
                | (r2, None) \<Rightarrow>
                    (case map_of (rm_simulcast r2) (rd_stream d) of
                       Some st \<Rightarrow> if created \<and> has_layer q st then forward_stream x (rd_source d) q st True r2 else r2
                     | None \<Rightarrow> r2, write)))"

definition inject_relay_packet ::
  "rtc \<Rightarrow> relay_track \<Rightarrow> bool \<Rightarrow> local_track result \<Rightarrow> error option \<Rightarrow> room \<Rightarrow> room \<times> error option" where
  "inject_relay_packet x d0 packet made write r =
     (if \<not> packet then (r, None)
      else (let d = relay_defaults d0 in
            if rd_layer d \<noteq> [] then inject_relay_simulcast x d made write r
            else inject_relay_track x d made write r))"

section \<open>Quality\<close>

definition update_peer :: "string \<Rightarrow> peer_role \<Rightarrow> peer \<Rightarrow> room \<Rightarrow> room" where
  "update_peer user role p r =
     (case role of
        PeerRolePresenter \<Rightarrow> r\<lparr>rm_presenters := AList.update user p (rm_presenters r)\<rparr>
      | PeerRoleViewer \<Rightarrow> r\<lparr>rm_viewers := AList.update user p (rm_viewers r)\<rparr>)"

definition set_subscriber_quality :: "rtc \<Rightarrow> string \<Rightarrow> string \<Rightarrow> quality \<Rightarrow> room \<Rightarrow> room \<times> error option" where
  "set_subscriber_quality x user stream q r =
     (case map_of (rm_simulcast r) stream of
        None \<Rightarrow> (r, Some (PlainError (''simulcast track '' @ stream @ '' not found'')))
      | Some st \<Rightarrow>
          (let actual = best_available_layer q st in
           if subscriber_layer user st = Some actual then (r, None)
           else (case find_peer user r of
             None \<Rightarrow> (r, Some (PlainError (''peer '' @ user @ '' not found'')))
           | Some (p, role) \<Rightarrow>
               (case local_track_for_layer actual st of
                  None \<Rightarrow> (r, Some (PlainError (''layer '' @ quality_text actual @ '' not available for stream '' @ stream)))
                | Some lt \<Rightarrow>
                    (let switched = update_peer user role (p\<lparr>pr_subs := AList.update stream lt (pr_subs p)\<rparr>)
                           (r\<lparr>rm_simulcast := AList.update stream (set_subscriber_layer user actual st) (rm_simulcast r)\<rparr>) in
                     case map_of (pr_subs p) stream of
                       Some sender \<Rightarrow>
                         (case rt_replace x user sender lt of
                            Some e \<Rightarrow> (r, Some (Wrapped (''replace track for layer '' @ quality_text actual) e))
                          | None \<Rightarrow> (switched, None))
                     | None \<Rightarrow>
                         (case rt_add x user lt of
                            Some e \<Rightarrow> (r, Some (Wrapped (''add track for layer '' @ quality_text actual) e))
                          | None \<Rightarrow> (switched, None)))))))"

definition plan_subscriber_adaptation ::
  "network_sample \<Rightarrow> instant \<Rightarrow> room \<Rightarrow> room \<times> adaptive_decision result" where
  "plan_subscriber_adaptation s clock r =
     (if ns_user s = [] then (r, Err (PlainError ''user_id is required''))
      else (let stream = (if ns_stream s = [] \<and> length (rm_simulcast r) = 1 then fst (hd (rm_simulcast r)) else ns_stream s) in
            case map_of (rm_simulcast r) stream of
              None \<Rightarrow> (r, Err (PlainError (''simulcast track '' @ stream @ '' not found'')))
            | Some st \<Rightarrow>
                (case find_peer (ns_user s) r of
                   None \<Rightarrow> (r, Err (PlainError (''peer '' @ ns_user s @ '' not found'')))
                 | Some p \<Rightarrow>
                     (let current = (case subscriber_layer (ns_user s) st of None \<Rightarrow> QualityMedium | Some q \<Rightarrow> q);
                          (c, d) = decide (s\<lparr>ns_stream := stream\<rparr>) current (available_layers st) clock (rm_adaptive r)
                      in (r\<lparr>rm_adaptive := c\<rparr>, Ok d)))))"

definition apply_adaptive_decision :: "rtc \<Rightarrow> adaptive_decision \<Rightarrow> room \<Rightarrow> room \<times> error option" where
  "apply_adaptive_decision x d r =
     (if ad_stream d = [] \<or> ad_user d = [] then (r, Some (PlainError ''user_id and stream_id are required''))
      else if \<not> ad_changed d \<and> \<not> ad_suspended d then (r, None)
      else set_subscriber_quality x (ad_user d) (ad_stream d) (ad_target d) r)"

definition adapt_subscriber :: "rtc \<Rightarrow> network_sample \<Rightarrow> instant \<Rightarrow> room \<Rightarrow> room \<times> (adaptive_decision option \<times> error option)" where
  "adapt_subscriber x s clock r =
     (case plan_subscriber_adaptation s clock r of
        (r1, Err e) \<Rightarrow> (r1, None, Some e)
      | (r1, Ok d) \<Rightarrow> (case apply_adaptive_decision x d r1 of (r2, err) \<Rightarrow> (r2, Some d, err)))"

definition looks_like_screen_share :: "string \<Rightarrow> bool" where
  "looks_like_screen_share stream =
     (let normalized = to_lower (trim_space stream) in
      if normalized = [] then False
      else contains ''screen'' normalized \<or> contains ''share'' normalized \<or> contains ''display'' normalized \<or>
           contains ''present'' normalized)"

record stream_target =
  tg_stream :: string
  tg_source :: string
  tg_current :: quality
  tg_available :: "quality list"
  tg_screen :: bool

definition subscriber_targets :: "string \<Rightarrow> room \<Rightarrow> stream_target list" where
  "subscriber_targets user r =
     sort_key (\<lambda>t. (\<not> tg_screen t, tg_stream t))
       (concat (map (\<lambda>(i, st). case subscriber_layer user st of
            None \<Rightarrow> []
          | Some q \<Rightarrow> [\<lparr>tg_stream = i, tg_source = sm_source st, tg_current = q, tg_available = available_layers st,
                        tg_screen = looks_like_screen_share i\<rparr>]) (rm_simulcast r)))"

section \<open>The invariant\<close>

definition peer_ok :: "peer_role \<Rightarrow> string \<Rightarrow> peer \<Rightarrow> bool" where
  "peer_ok role u p \<longleftrightarrow> pr_user p = u \<and> pr_role p = role \<and> \<not> pr_closed p \<and> wf_map (pr_subs p)"

text \<open>A source is subscribed to its own plain track only where it has come back as a viewer.\<close>

definition router_ok :: "string set \<Rightarrow> string \<Rightarrow> track_router \<Rightarrow> bool" where
  "router_ok vs i tr \<longleftrightarrow> tr_id tr = i \<and> \<not> tr_done tr \<and> wf_map (tr_subs tr) \<and>
     (tr_source tr \<in> keys (tr_subs tr) \<longrightarrow> tr_source tr \<in> vs)"

definition sim_ok :: "string \<Rightarrow> simulcast_track \<Rightarrow> bool" where
  "sim_ok i st \<longleftrightarrow> sm_stream st = i \<and> \<not> sm_closed st \<and> wf_map (sm_layers st) \<and> wf_map (sm_subs st)"

definition options_ok :: "room_options \<Rightarrow> bool" where
  "options_ok opts \<longleftrightarrow> 0 < ro_presenters opts \<and> 0 < ro_viewers opts \<and> 0 < ro_tracks opts"

definition seats_ok :: "room_options \<Rightarrow> (string, peer) gomap \<Rightarrow> (string, peer) gomap \<Rightarrow> bool" where
  "seats_ok opts ps vs \<longleftrightarrow> entries (peer_ok PeerRolePresenter) ps \<and> entries (peer_ok PeerRoleViewer) vs \<and>
     keys ps \<inter> keys vs = {} \<and> int (length ps) \<le> ro_presenters opts \<and> int (length vs) \<le> ro_viewers opts"

definition room_ok :: "room \<Rightarrow> bool" where
  "room_ok r \<longleftrightarrow> options_ok (rm_options r) \<and> seats_ok (rm_options r) (rm_presenters r) (rm_viewers r) \<and>
     entries (router_ok (keys (rm_viewers r))) (rm_tracks r) \<and> entries sim_ok (rm_simulcast r) \<and>
     (rm_closed r \<longrightarrow> rm_presenters r = [] \<and> rm_viewers r = [])"

lemma router_ok_mono: "router_ok vs i tr \<Longrightarrow> vs \<subseteq> vs' \<Longrightarrow> router_ok vs' i tr"
  by (auto simp: router_ok_def)

lemma emit_event_sel [simp]:
  "rm_id (emit_event e r) = rm_id r" "rm_options (emit_event e r) = rm_options r"
  "rm_presenters (emit_event e r) = rm_presenters r" "rm_viewers (emit_event e r) = rm_viewers r"
  "rm_tracks (emit_event e r) = rm_tracks r" "rm_simulcast (emit_event e r) = rm_simulcast r"
  "rm_adaptive (emit_event e r) = rm_adaptive r" "rm_closed (emit_event e r) = rm_closed r"
  "rm_events (emit_event e r) = rm_events r @ [e]"
  by (simp_all add: emit_event_def)

lemma room_ok_emit [simp]: "room_ok (emit_event e r) = room_ok r"
  by (simp add: room_ok_def)

lemma room_ok_adaptive [simp]: "room_ok (r\<lparr>rm_adaptive := c\<rparr>) = room_ok r"
  by (simp add: room_ok_def)

lemma new_room_ok: "room_ok (new_room i opts)"
  by (simp add: new_room_def room_ok_def options_ok_def seats_ok_def Let_def default_max_presenters_def
      default_max_viewers_def default_max_tracks_def)

section \<open>Subscriptions\<close>

lemma peer_subscribe_sel:
  assumes "peer_subscribe x p tr = (p', tr', e)"
  shows "peer_ok role u p \<Longrightarrow> peer_ok role u p'" "pr_user p' = pr_user p" "pr_role p' = pr_role p"
    "tr_id tr' = tr_id tr" "tr_source tr' = tr_source tr" "tr_local tr' = tr_local tr" "tr_done tr' = tr_done tr"
    "wf_map (tr_subs tr) \<Longrightarrow> wf_map (tr_subs tr')" "keys (tr_subs tr') \<subseteq> insert (pr_user p) (keys (tr_subs tr))"
proof -
  have "tr_subs tr' = tr_subs tr \<or> tr_subs tr' = AList.update (pr_user p) True (tr_subs tr)"
    using assms by (auto simp: peer_subscribe_def split: if_splits option.splits)
  then show "keys (tr_subs tr') \<subseteq> insert (pr_user p) (keys (tr_subs tr))"
    by (metis keys_update order_refl subset_insertI)
qed (use assms in \<open>auto simp: peer_subscribe_def peer_ok_def split: if_splits option.splits\<close>)

lemma subscribe_to_simulcast_sel:
  assumes "subscribe_to_simulcast x q p st = (p', st', e)"
  shows "peer_ok role u p \<Longrightarrow> peer_ok role u p'" "pr_user p' = pr_user p" "pr_role p' = pr_role p"
    "sm_stream st' = sm_stream st" "sm_source st' = sm_source st" "sm_layers st' = sm_layers st"
    "sm_closed st' = sm_closed st" "wf_map (sm_subs st) \<Longrightarrow> wf_map (sm_subs st')"
  using assms by (auto simp: subscribe_to_simulcast_def peer_ok_def split: if_splits option.splits)

lemma subscribe_tracks_ok:
  assumes "subscribe_tracks x p trs = (p', trs')" "peer_ok role u p" "entries (router_ok vs) trs"
    and "role = PeerRoleViewer \<Longrightarrow> u \<in> vs"
  shows "peer_ok role u p' \<and> entries (router_ok vs) trs' \<and> map fst trs' = map fst trs"
  using assms
proof (induction x p trs arbitrary: p' trs' rule: subscribe_tracks.induct)
  case (2 x p i tr rest)
  show ?case
  proof (cases "pr_role p = PeerRolePresenter \<and> tr_source tr = pr_user p")
    case True
    with 2(3) obtain q rest' where r: "subscribe_tracks x p rest = (q, rest')" "p' = q" "trs' = (i, tr) # rest'"
      by (auto split: prod.splits)
    with 2(1)[OF True r(1) 2(4) _ 2(6)] 2(5) show ?thesis by (auto dest: keys_same)
  next
    case False
    obtain p1 tr1 e where s: "peer_subscribe x p tr = (p1, tr1, e)" by (metis prod_cases3)
    note sel = peer_subscribe_sel[OF s]
    from False 2(3) s obtain q rest' where r: "subscribe_tracks x p1 rest = (q, rest')" "p' = q" "trs' = (i, tr1) # rest'"
      by (auto split: prod.splits)
    from 2(2)[OF False s[symmetric] refl refl r(1) sel(1)[OF 2(4)] _ 2(6)] 2(5)
    have IH: "peer_ok role u p' \<and> entries (router_ok vs) rest' \<and> map fst rest' = map fst rest" using r by simp
    have "router_ok vs i tr" "i \<notin> keys rest" using 2(5) by simp_all
    moreover have "tr_source tr = u \<longrightarrow> u \<in> vs"
      using False 2(4,6) by (cases "pr_role p") (auto simp: peer_ok_def)
    ultimately have "router_ok vs i tr1"
      using sel 2(4) by (auto simp: router_ok_def peer_ok_def)
    with IH r \<open>i \<notin> keys rest\<close> show ?thesis by (auto dest: keys_same)
  qed
qed simp

lemma subscribe_simulcasts_ok:
  assumes "subscribe_simulcasts x q p sts = (p', sts')" "peer_ok role u p" "entries sim_ok sts"
  shows "peer_ok role u p' \<and> entries sim_ok sts' \<and> map fst sts' = map fst sts"
  using assms
proof (induction x q p sts arbitrary: p' sts' rule: subscribe_simulcasts.induct)
  case (2 x q p i st rest)
  show ?case
  proof (cases "pr_role p = PeerRolePresenter \<and> sm_source st = pr_user p")
    case True
    with 2(3) obtain p2 rest' where r: "subscribe_simulcasts x q p rest = (p2, rest')" "p' = p2" "sts' = (i, st) # rest'"
      by (auto split: prod.splits)
    with 2(1)[OF True r(1) 2(4)] 2(5) show ?thesis by (auto dest: keys_same)
  next
    case False
    obtain p1 st1 e where s: "subscribe_to_simulcast x (best_available_layer q st) p st = (p1, st1, e)" by (metis prod_cases3)
    note sel = subscribe_to_simulcast_sel[OF s]
    from False 2(3) s obtain p2 rest' where r: "subscribe_simulcasts x q p1 rest = (p2, rest')" "p' = p2" "sts' = (i, st1) # rest'"
      by (auto split: prod.splits)
    from 2(2)[OF False s[symmetric] refl refl r(1) sel(1)[OF 2(4)]] 2(5) r
    have IH: "peer_ok role u p' \<and> entries sim_ok rest' \<and> map fst rest' = map fst rest" by simp
    moreover have "sim_ok i st1" "i \<notin> keys rest" using 2(5) sel by (simp_all add: sim_ok_def)
    ultimately show ?thesis using r by (auto dest: keys_same)
  qed
qed simp

lemma subscribe_all_ok:
  assumes "subscribe_all x skip ps tr = (ps', tr')" "entries (peer_ok role) ps" "wf_map (tr_subs tr)"
  shows "entries (peer_ok role) ps' \<and> map fst ps' = map fst ps \<and> tr_id tr' = tr_id tr \<and> tr_source tr' = tr_source tr \<and>
    tr_done tr' = tr_done tr \<and> wf_map (tr_subs tr') \<and>
    keys (tr_subs tr') \<subseteq> keys (tr_subs tr) \<union> {u \<in> keys ps. skip \<noteq> Some u}"
  using assms
proof (induction x skip ps tr arbitrary: ps' tr' rule: subscribe_all.induct)
  case (2 x skip u p rest tr)
  show ?case
  proof (cases "skip = Some u")
    case True
    with 2(3) obtain rest' where r: "subscribe_all x skip rest tr = (rest', tr')" "ps' = (u, p) # rest'"
      by (auto split: prod.splits)
    from 2(1)[OF True r(1)] 2(4,5) r(2) show ?thesis by (auto dest: keys_same)
  next
    case False
    obtain p1 tr1 e where s: "peer_subscribe x p tr = (p1, tr1, e)" by (metis prod_cases3)
    note sel = peer_subscribe_sel[OF s]
    from False 2(3) s obtain rest' where r: "subscribe_all x skip rest tr1 = (rest', tr')" "ps' = (u, p1) # rest'"
      by (auto split: prod.splits)
    have u: "peer_ok role u p" "u \<notin> keys rest" using 2(4) by simp_all
    then have "pr_user p = u" by (simp add: peer_ok_def)
    from 2(2)[OF False s[symmetric] refl refl r(1)] 2(4) sel(8)[OF 2(5)]
    have "entries (peer_ok role) rest' \<and> map fst rest' = map fst rest \<and> tr_id tr' = tr_id tr1 \<and>
        tr_source tr' = tr_source tr1 \<and> tr_done tr' = tr_done tr1 \<and> wf_map (tr_subs tr') \<and>
        keys (tr_subs tr') \<subseteq> keys (tr_subs tr1) \<union> {u \<in> keys rest. skip \<noteq> Some u}" by simp
    note IH = this
    have sub: "A \<subseteq> T1 \<union> {v \<in> R. skip \<noteq> Some v} \<Longrightarrow> T1 \<subseteq> insert u T \<Longrightarrow> A \<subseteq> T \<union> {v \<in> insert u R. skip \<noteq> Some v}"
      for A T1 T R using False by blast
    have "keys (tr_subs tr') \<subseteq> keys (tr_subs tr) \<union> {v \<in> insert u (keys rest). skip \<noteq> Some v}"
      by (rule sub[OF IH[THEN conjunct2, THEN conjunct2, THEN conjunct2, THEN conjunct2, THEN conjunct2, THEN conjunct2]
            sel(9)[unfolded \<open>pr_user p = u\<close>]])
    moreover have "keys rest' = keys rest" by (rule keys_same[OF IH[THEN conjunct2, THEN conjunct1]])
    ultimately show ?thesis using IH sel(1)[OF u(1)] sel(4,5,7) u(2) r(2) by simp
  qed
qed simp

lemma subscribe_all_simulcast_ok:
  assumes "subscribe_all_simulcast x skip q ps st = (ps', st')" "entries (peer_ok role) ps" "wf_map (sm_subs st)"
  shows "entries (peer_ok role) ps' \<and> map fst ps' = map fst ps \<and> sm_stream st' = sm_stream st \<and>
    sm_source st' = sm_source st \<and> sm_closed st' = sm_closed st \<and> sm_layers st' = sm_layers st \<and> wf_map (sm_subs st')"
  using assms
proof (induction x skip q ps st arbitrary: ps' st' rule: subscribe_all_simulcast.induct)
  case (2 x skip q u p rest st)
  show ?case
  proof (cases "skip = Some u")
    case True
    with 2(3) obtain rest' where r: "subscribe_all_simulcast x skip q rest st = (rest', st')" "ps' = (u, p) # rest'"
      by (auto split: prod.splits)
    from 2(1)[OF True r(1)] 2(4,5) r(2) show ?thesis by (auto dest: keys_same)
  next
    case False
    obtain p1 st1 e where s: "subscribe_to_simulcast x q p st = (p1, st1, e)" by (metis prod_cases3)
    note sel = subscribe_to_simulcast_sel[OF s]
    from False 2(3) s obtain rest' where r: "subscribe_all_simulcast x skip q rest st1 = (rest', st')" "ps' = (u, p1) # rest'"
      by (auto split: prod.splits)
    have u: "peer_ok role u p" "u \<notin> keys rest" using 2(4) by simp_all
    from 2(2)[OF False s[symmetric] refl refl r(1)] 2(4) sel(8)[OF 2(5)]
    have "entries (peer_ok role) rest' \<and> map fst rest' = map fst rest \<and> sm_stream st' = sm_stream st1 \<and>
      sm_source st' = sm_source st1 \<and> sm_closed st' = sm_closed st1 \<and> sm_layers st' = sm_layers st1 \<and> wf_map (sm_subs st')"
      by simp
    with sel(1)[OF u(1)] sel(4-7) u(2) r(2) show ?thesis by (auto dest: keys_same)
  qed
qed simp

section \<open>Every operation keeps the invariant\<close>

lemma seats_ok_same:
  "seats_ok opts ps vs \<Longrightarrow> entries (peer_ok PeerRolePresenter) ps' \<Longrightarrow> entries (peer_ok PeerRoleViewer) vs' \<Longrightarrow>
     map fst ps' = map fst ps \<Longrightarrow> map fst vs' = map fst vs \<Longrightarrow> seats_ok opts ps' vs'"
proof -
  assume a: "seats_ok opts ps vs" "entries (peer_ok PeerRolePresenter) ps'" "entries (peer_ok PeerRoleViewer) vs'"
    "map fst ps' = map fst ps" "map fst vs' = map fst vs"
  have "keys ps' = keys ps" "keys vs' = keys vs" "length ps' = length ps" "length vs' = length vs"
    by (rule keys_same[OF a(4)], rule keys_same[OF a(5)], rule map_eq_imp_length_eq[OF a(4)],
        rule map_eq_imp_length_eq[OF a(5)])
  with a(1-3) show ?thesis by (simp add: seats_ok_def)
qed

lemma room_okI:
  assumes "room_ok r" "rm_options r' = rm_options r" "rm_closed r' = rm_closed r"
    and "entries (peer_ok PeerRolePresenter) (rm_presenters r')" "entries (peer_ok PeerRoleViewer) (rm_viewers r')"
    and "map fst (rm_presenters r') = map fst (rm_presenters r)" "map fst (rm_viewers r') = map fst (rm_viewers r)"
    and "entries (router_ok (keys (rm_viewers r))) (rm_tracks r')" "entries sim_ok (rm_simulcast r')"
  shows "room_ok r'"
proof -
  have "keys (rm_viewers r') = keys (rm_viewers r)" by (rule keys_same[OF assms(7)])
  moreover have "seats_ok (rm_options r) (rm_presenters r') (rm_viewers r')"
    by (rule seats_ok_same[OF _ assms(4-7)]) (use assms(1) in \<open>simp add: room_ok_def\<close>)
  moreover have "rm_closed r \<longrightarrow> rm_presenters r' = [] \<and> rm_viewers r' = []"
    using assms(1,6,7) by (auto simp: room_ok_def)
  ultimately show ?thesis using assms(1-3,8,9) by (simp add: room_ok_def)
qed

lemma room_ok_parts:
  assumes "room_ok r"
  shows "entries (peer_ok PeerRolePresenter) (rm_presenters r)" "entries (peer_ok PeerRoleViewer) (rm_viewers r)"
    "entries (router_ok (keys (rm_viewers r))) (rm_tracks r)" "entries sim_ok (rm_simulcast r)"
    "keys (rm_presenters r) \<inter> keys (rm_viewers r) = {}"
  using assms by (simp_all add: room_ok_def seats_ok_def)

lemma subscribe_to_existing_ok:
  assumes "subscribe_to_existing x p r = (p', r')" "room_ok r" "peer_ok role u p"
    "entries (router_ok vs) (rm_tracks r)" "role = PeerRoleViewer \<Longrightarrow> u \<in> vs"
  shows "peer_ok role u p' \<and> entries (router_ok vs) (rm_tracks r') \<and> entries sim_ok (rm_simulcast r') \<and>
    (\<exists>trs sts. r' = r\<lparr>rm_tracks := trs, rm_simulcast := sts\<rparr>)"
proof -
  obtain p1 trs where t: "subscribe_tracks x p (rm_tracks r) = (p1, trs)" by fastforce
  let ?q = "if pr_role p = PeerRolePresenter then QualityHigh else QualityMedium"
  obtain p2 sts where s: "subscribe_simulcasts x ?q p1 (rm_simulcast r) = (p2, sts)" by fastforce
  from subscribe_tracks_ok[OF t assms(3-5)] have t': "peer_ok role u p1" "entries (router_ok vs) trs" by simp_all
  from subscribe_simulcasts_ok[OF s t'(1) room_ok_parts(4)[OF assms(2)]] have s': "peer_ok role u p2" "entries sim_ok sts" by simp_all
  from assms(1) have "p' = p2" "r' = r\<lparr>rm_tracks := trs, rm_simulcast := sts\<rparr>"
    by (simp_all add: subscribe_to_existing_def Let_def t s)
  with t' s' show ?thesis by auto
qed

lemma new_peer_ok: "peer_ok role u (new_peer u role)"
  by (simp add: peer_ok_def new_peer_def)

lemma add_presenter_ok:
  assumes "room_ok r" shows "room_ok (fst (add_presenter x u r))"
proof (cases "rm_closed r \<or> map_of (rm_presenters r) u \<noteq> None \<or> map_of (rm_viewers r) u \<noteq> None \<or>
    int (length (rm_presenters r)) \<ge> ro_presenters (rm_options r)")
  case True
  then have "fst (add_presenter x u r) = r" by (auto simp: add_presenter_def)
  with assms show ?thesis by simp
next
  case False
  obtain p r1 where s: "subscribe_to_existing x (new_peer u PeerRolePresenter) r = (p, r1)" by fastforce
  from subscribe_to_existing_ok[OF s assms new_peer_ok room_ok_parts(3)[OF assms]]
  obtain trs sts where p: "peer_ok PeerRolePresenter u p" "r1 = r\<lparr>rm_tracks := trs, rm_simulcast := sts\<rparr>"
    "entries (router_ok (keys (rm_viewers r))) trs" "entries sim_ok sts" by auto
  let ?ps = "AList.update u p (rm_presenters r)"
  have new: "u \<notin> keys (rm_presenters r)" "u \<notin> keys (rm_viewers r)" using False by (auto simp: map_of_None_keys)
  have "seats_ok (rm_options r) ?ps (rm_viewers r)"
    using assms False new p(1) by (auto simp: room_ok_def seats_ok_def length_update_fresh intro: entries_update)
  with assms p False have "room_ok (r1\<lparr>rm_presenters := ?ps\<rparr>)" by (simp add: room_ok_def)
  moreover have "fst (add_presenter x u r) = emit_event \<lparr>re_type = EventPeerJoined, re_room = rm_id r, re_user = u,
      re_track = [], re_role = PeerRolePresenter\<rparr> (r1\<lparr>rm_presenters := ?ps\<rparr>)"
    using False s p(2) by (simp add: add_presenter_def Let_def)
  ultimately show ?thesis by simp
qed

lemma add_viewer_ok:
  assumes "room_ok r" shows "room_ok (fst (add_viewer x u r))"
proof (cases "rm_closed r \<or> map_of (rm_viewers r) u \<noteq> None \<or> map_of (rm_presenters r) u \<noteq> None \<or>
    int (length (rm_viewers r)) \<ge> ro_viewers (rm_options r)")
  case True
  then have "fst (add_viewer x u r) = r" by (auto simp: add_viewer_def)
  with assms show ?thesis by simp
next
  case False
  obtain p r1 where s: "subscribe_to_existing x (new_peer u PeerRoleViewer) r = (p, r1)" by fastforce
  have wide: "entries (router_ok (insert u (keys (rm_viewers r)))) (rm_tracks r)"
    by (rule entries_mono[OF room_ok_parts(3)[OF assms]]) (auto intro: router_ok_mono)
  from subscribe_to_existing_ok[OF s assms new_peer_ok wide]
  obtain trs sts where p: "peer_ok PeerRoleViewer u p" "r1 = r\<lparr>rm_tracks := trs, rm_simulcast := sts\<rparr>"
    "entries (router_ok (insert u (keys (rm_viewers r)))) trs" "entries sim_ok sts" by auto
  let ?vs = "AList.update u p (rm_viewers r)"
  have new: "u \<notin> keys (rm_presenters r)" "u \<notin> keys (rm_viewers r)" using False by (auto simp: map_of_None_keys)
  have "seats_ok (rm_options r) (rm_presenters r) ?vs"
    using assms False new p(1) by (auto simp: room_ok_def seats_ok_def length_update_fresh intro: entries_update)
  with assms p False have "room_ok (r1\<lparr>rm_viewers := ?vs\<rparr>)" by (simp add: room_ok_def)
  moreover have "fst (add_viewer x u r) = emit_event \<lparr>re_type = EventPeerJoined, re_room = rm_id r, re_user = u,
      re_track = [], re_role = PeerRoleViewer\<rparr> (r1\<lparr>rm_viewers := ?vs\<rparr>)"
    using False s p(2) by (simp add: add_viewer_def Let_def)
  ultimately show ?thesis by simp
qed

lemma peer_unsubscribe_ok: "peer_ok role u p \<Longrightarrow> peer_ok role u (fst (peer_unsubscribe x t p))"
  by (auto simp: peer_unsubscribe_def peer_ok_def split: option.split)

lemma unsubscribe_all_ok:
  "entries (peer_ok role) ps \<Longrightarrow> entries (peer_ok role) (unsubscribe_all x t ps)"
  "map fst (unsubscribe_all x t ps) = map fst ps"
  unfolding unsubscribe_all_def keys_map_values by (auto intro: entries_map_values peer_unsubscribe_ok)

lemma remove_tracks_loop_ok: "room_ok r \<Longrightarrow> room_ok (remove_tracks_loop x u trs r)"
proof (induction x u trs r rule: remove_tracks_loop.induct)
  case (2 x u i tr rest r)
  let ?r = "r\<lparr>rm_tracks := AList.delete i (rm_tracks r), rm_presenters := unsubscribe_all x i (rm_presenters r),
             rm_viewers := unsubscribe_all x i (rm_viewers r)\<rparr>"
  have "room_ok ?r"
    using 2(3) by (rule room_okI) (simp_all add: unsubscribe_all_ok room_ok_parts[OF 2(3)] entries_delete)
  with 2 show ?case by simp
qed simp

lemma remove_simulcasts_loop_ok: "room_ok r \<Longrightarrow> room_ok (remove_simulcasts_loop x u sts r)"
proof (induction x u sts r rule: remove_simulcasts_loop.induct)
  case (2 x u i st rest r)
  let ?r = "r\<lparr>rm_simulcast := AList.delete i (rm_simulcast r), rm_adaptive := forget_stream i (rm_adaptive r),
             rm_presenters := unsubscribe_all x i (rm_presenters r),
             rm_viewers := unsubscribe_all x i (rm_viewers r)\<rparr>"
  have "room_ok ?r"
    using 2(3) by (rule room_okI) (simp_all add: unsubscribe_all_ok room_ok_parts[OF 2(3)] entries_delete)
  with 2 show ?case by simp
qed simp

lemma length_delete_le: "length (AList.delete k m) \<le> length m"
  by (simp add: AList.delete_eq)

lemma remove_peer_ok:
  assumes "room_ok r" shows "room_ok (remove_peer x u r)"
proof (cases "rm_closed r \<or> find_peer u r = None")
  case True
  with assms show ?thesis by (auto simp: remove_peer_def split: option.split)
next
  case False
  then obtain p role where p: "find_peer u r = Some (p, role)" by fastforce
  show ?thesis
  proof (cases role)
    case PeerRolePresenter
    let ?r = "r\<lparr>rm_presenters := AList.delete u (rm_presenters r)\<rparr>"
    have "seats_ok (rm_options r) (AList.delete u (rm_presenters r)) (rm_viewers r)"
      using assms order_trans[OF zle_int[THEN iffD2, OF length_delete_le]]
      by (auto simp: room_ok_def seats_ok_def intro: entries_delete)
    with assms False have "room_ok ?r" by (simp add: room_ok_def)
    then have "room_ok (remove_presenter_tracks x u ?r)"
      by (simp add: remove_presenter_tracks_def Let_def remove_tracks_loop_ok remove_simulcasts_loop_ok)
    with False p PeerRolePresenter show ?thesis by (simp add: remove_peer_def Let_def)
  next
    case PeerRoleViewer
    let ?vs = "AList.delete u (rm_viewers r)"
    let ?r = "remove_viewer_subscriptions u (r\<lparr>rm_viewers := ?vs\<rparr>)"
    have "seats_ok (rm_options r) (rm_presenters r) ?vs"
      using assms order_trans[OF zle_int[THEN iffD2, OF length_delete_le]]
      by (auto simp: room_ok_def seats_ok_def intro: entries_delete)
    moreover have "router_ok (keys ?vs) i (remove_subscriber u tr)" if "router_ok (keys (rm_viewers r)) i tr" for i tr
      using that by (simp add: router_ok_def)
    then have "entries (router_ok (keys ?vs)) (map (\<lambda>(i, tr). (i, remove_subscriber u tr)) (rm_tracks r))"
      by (rule entries_map_values[OF room_ok_parts(3)[OF assms]])
    moreover have "entries sim_ok (map (\<lambda>(i, st). (i, remove_layer_subscriber u st)) (rm_simulcast r))"
      by (rule entries_map_values[OF room_ok_parts(4)[OF assms]]) (simp add: sim_ok_def)
    ultimately have "room_ok ?r" using assms False by (simp add: room_ok_def remove_viewer_subscriptions_def)
    with False p PeerRoleViewer show ?thesis by (simp add: remove_peer_def Let_def)
  qed
qed

lemma room_close_ok: "room_ok r \<Longrightarrow> room_ok (room_close r)"
  by (auto simp: room_close_def room_ok_def seats_ok_def options_ok_def)

lemma forward_track_ok:
  assumes "room_ok r" "new_track_router source track stream made = Ok router"
  shows "room_ok (forward_track x source router r)"
proof -
  obtain ps tr1 where p: "subscribe_all x (Some source) (rm_presenters r) router = (ps, tr1)" by fastforce
  obtain vs tr2 where v: "subscribe_all x None (rm_viewers r) tr1 = (vs, tr2)" by fastforce
  note new = new_track_router_Ok[OF assms(2)]
  note sp = subscribe_all_ok[OF p room_ok_parts(1)[OF assms(1)]]
  note sv = subscribe_all_ok[OF v room_ok_parts(2)[OF assms(1)]]
  have w: "wf_map (tr_subs router)" using new by simp
  have "tr_source tr2 = source" "tr_id tr2 = tr_id router" "\<not> tr_done tr2" "wf_map (tr_subs tr2)"
    using sp[OF w] sv new by simp_all
  moreover have "source \<in> keys (tr_subs tr2) \<longrightarrow> source \<in> keys (rm_viewers r)"
  proof -
    have "keys (tr_subs tr1) \<subseteq> {u \<in> keys (rm_presenters r). Some source \<noteq> Some u}" using sp[OF w] new by simp
    moreover have "keys (tr_subs tr2) \<subseteq> keys (tr_subs tr1) \<union> keys (rm_viewers r)" using sp[OF w] sv by simp
    moreover have "A \<subseteq> {u \<in> P. Some source \<noteq> Some u} \<Longrightarrow> B \<subseteq> A \<union> V \<Longrightarrow> source \<in> B \<longrightarrow> source \<in> V"
      for A B P V :: "string set" by blast
    ultimately show ?thesis by metis
  qed
  ultimately have "router_ok (keys (rm_viewers r)) (tr_id router) tr2" by (simp add: router_ok_def)
  then show ?thesis
    unfolding forward_track_def p v Let_def prod.case
    by (intro room_okI[OF assms(1)]) (use sp[OF w] sv room_ok_parts[OF assms(1)] in \<open>simp_all add: entries_update\<close>)
qed

lemma forward_simulcast_ok:
  assumes "room_ok r" "sim_ok (sm_stream st) st"
  shows "room_ok (forward_simulcast x source q st r)"
proof -
  obtain ps st1 where p: "subscribe_all_simulcast x (Some source) q (rm_presenters r) st = (ps, st1)" by fastforce
  obtain vs st2 where v: "subscribe_all_simulcast x None q (rm_viewers r) st1 = (vs, st2)" by fastforce
  have w: "wf_map (sm_subs st)" using assms(2) by (simp add: sim_ok_def)
  note sp = subscribe_all_simulcast_ok[OF p room_ok_parts(1)[OF assms(1)] w]
  note sv = subscribe_all_simulcast_ok[OF v room_ok_parts(2)[OF assms(1)]]
  have "sim_ok (sm_stream st) st2" using sp sv assms(2) by (simp add: sim_ok_def)
  then show ?thesis
    unfolding forward_simulcast_def p v Let_def prod.case
    by (intro room_okI[OF assms(1)]) (use sp sv room_ok_parts[OF assms(1)] in \<open>simp_all add: entries_update\<close>)
qed

lemma room_ok_simulcast: "room_ok r \<Longrightarrow> entries sim_ok sts \<Longrightarrow> room_ok (r\<lparr>rm_simulcast := sts\<rparr>)"
  by (simp add: room_ok_def)

lemma publish_track_ok:
  "room_ok r \<Longrightarrow> new_track_router u track stream made = Ok router \<Longrightarrow> room_ok (publish_track x u router r)"
  by (simp add: publish_track_def Let_def forward_track_ok)

lemma add_layer_sim_ok: "sim_ok i st \<Longrightarrow> add_layer q made st = (st', e) \<Longrightarrow> sim_ok i st'"
  using add_layer_sel[of q made st st' e] by (simp add: sim_ok_def)

lemma add_injected_layer_sim_ok: "sim_ok i st \<Longrightarrow> add_injected_layer q made st = (st', e) \<Longrightarrow> sim_ok i st'"
  using add_injected_layer_sel[of q made st st' e] by (simp add: sim_ok_def)

lemma new_simulcast_ok: "sim_ok i (new_simulcast_track i u)"
  by (simp add: sim_ok_def)

lemma claim_stream_ok: "room_ok r \<Longrightarrow> room_ok (fst (claim_stream u stream r))"
  by (simp add: claim_stream_def room_ok_simulcast entries_update room_ok_parts(4) new_simulcast_ok)

lemma add_stream_layer_ok:
  assumes "room_ok r" shows "room_ok (fst (add_stream_layer stream q made r))"
proof (cases "map_of (rm_simulcast r) stream")
  case (Some st)
  obtain st' e where a: "add_layer q made st = (st', e)" by fastforce
  have "sim_ok stream st'" by (rule add_layer_sim_ok[OF entries_lookup[OF room_ok_parts(4)[OF assms] Some] a])
  with Some a assms show ?thesis by (simp add: add_stream_layer_def room_ok_simulcast entries_update room_ok_parts(4))
qed (use assms in \<open>simp add: add_stream_layer_def\<close>)

lemma claim_relay_stream_ok: "room_ok r \<Longrightarrow> room_ok (fst (claim_relay_stream d q r))"
  by (auto simp: claim_relay_stream_def Let_def split: option.split
      intro!: room_ok_simulcast entries_update room_ok_parts(4) new_simulcast_ok)

lemma add_relay_layer_ok:
  assumes "room_ok r" shows "room_ok (fst (add_relay_layer stream q made r))"
proof (cases "map_of (rm_simulcast r) stream")
  case (Some st)
  obtain st' e where a: "add_injected_layer q made st = (st', e)" by fastforce
  have "sim_ok stream st'" by (rule add_injected_layer_sim_ok[OF entries_lookup[OF room_ok_parts(4)[OF assms] Some] a])
  with Some a assms show ?thesis by (simp add: add_relay_layer_def room_ok_simulcast entries_update room_ok_parts(4))
qed (use assms in \<open>simp add: add_relay_layer_def\<close>)

text \<open>A stream object of an earlier state of the room, for the section that no longer finds it there.\<close>

lemma forward_stream_ok:
  assumes "room_ok r" "wf_map (sm_subs st)" "current \<Longrightarrow> sim_ok (sm_stream st) st"
  shows "room_ok (forward_stream x source q st current r)"
proof (cases current)
  case True
  then show ?thesis using forward_simulcast_ok[OF assms(1) assms(3)] by (simp add: forward_stream_def)
next
  case False
  obtain ps st1 where p: "subscribe_all_simulcast x (Some source) q (rm_presenters r) st = (ps, st1)" by fastforce
  obtain vs st2 where v: "subscribe_all_simulcast x None q (rm_viewers r) st1 = (vs, st2)" by fastforce
  note sp = subscribe_all_simulcast_ok[OF p room_ok_parts(1)[OF assms(1)] assms(2)]
  note sv = subscribe_all_simulcast_ok[OF v room_ok_parts(2)[OF assms(1)]]
  show ?thesis
    using False unfolding forward_stream_def forward_simulcast_def p v Let_def prod.case
    by (intro room_okI[OF assms(1)]) (use sp sv room_ok_parts[OF assms(1)] in simp_all)
qed

lemma room_stream_ok: "room_ok r \<Longrightarrow> map_of (rm_simulcast r) i = Some st \<Longrightarrow> sim_ok (sm_stream st) st \<and> wf_map (sm_subs st)"
  using entries_lookup[OF room_ok_parts(4), of r i st] by (simp add: sim_ok_def)

lemma announce_stream_ok: "room_ok (forward_stream x u q st current r) \<Longrightarrow> room_ok (announce_stream x u q st current r)"
  by (simp add: announce_stream_def Let_def)

lemma inject_relay_track_ok:
  assumes "room_ok r" shows "room_ok (fst (inject_relay_track x d made write r))"
  using assms forward_track_ok[OF assms] by (auto simp: inject_relay_track_def split: option.split sum.split)

lemma find_peer_SomeD:
  "find_peer u r = Some (p, role) \<Longrightarrow>
     role = PeerRolePresenter \<and> map_of (rm_presenters r) u = Some p \<or>
     role = PeerRoleViewer \<and> map_of (rm_viewers r) u = Some p \<and> map_of (rm_presenters r) u = None"
  by (auto simp: find_peer_def split: option.splits)

lemma find_peer_simulcast [simp]: "find_peer u (r\<lparr>rm_simulcast := sts\<rparr>) = find_peer u r"
  by (simp add: find_peer_def cong: option.case_cong)

lemma update_old_keys: "map_of m u = Some p \<Longrightarrow> map fst (AList.update u p' m) = map fst m"
  by (induction m) auto

lemma update_peer_ok:
  assumes "room_ok r" "find_peer u r = Some (p, role)" "peer_ok role u p \<Longrightarrow> peer_ok role u p'"
  shows "room_ok (update_peer u role p' r)"
proof -
  from find_peer_SomeD[OF assms(2)] show ?thesis
  proof (elim disjE conjE)
    assume a: "role = PeerRolePresenter" "map_of (rm_presenters r) u = Some p"
    have "peer_ok role u p'" using assms(3) entries_lookup[OF room_ok_parts(1)[OF assms(1)] a(2)] a(1) by simp
    with a show ?thesis unfolding update_peer_def
      by (auto intro!: room_okI[OF assms(1)] simp: update_old_keys entries_update room_ok_parts[OF assms(1)])
  next
    assume a: "role = PeerRoleViewer" "map_of (rm_viewers r) u = Some p"
    have "peer_ok role u p'" using assms(3) entries_lookup[OF room_ok_parts(2)[OF assms(1)] a(2)] a(1) by simp
    with a show ?thesis unfolding update_peer_def
      by (auto intro!: room_okI[OF assms(1)] simp: update_old_keys entries_update room_ok_parts[OF assms(1)])
  qed
qed

lemma set_subscriber_quality_cases:
  assumes "set_subscriber_quality x u stream q r = (r', e)" "r' \<noteq> r"
  obtains st p role lt where "map_of (rm_simulcast r) stream = Some st" "find_peer u r = Some (p, role)"
    "map_of (sm_layers st) (best_available_layer q st) = Some lt" "e = None"
    "r' = update_peer u role (p\<lparr>pr_subs := AList.update stream lt (pr_subs p)\<rparr>)
       (r\<lparr>rm_simulcast := AList.update stream (set_subscriber_layer u (best_available_layer q st) st) (rm_simulcast r)\<rparr>)"
  using assms by (auto simp: set_subscriber_quality_def Let_def local_track_for_layer_def split: option.splits if_splits)

lemma set_subscriber_quality_ok:
  assumes "room_ok r" shows "room_ok (fst (set_subscriber_quality x u stream q r))"
proof (cases "fst (set_subscriber_quality x u stream q r) = r")
  case False
  obtain r' e where s: "set_subscriber_quality x u stream q r = (r', e)" by fastforce
  with False have "r' \<noteq> r" by simp
  from set_subscriber_quality_cases[OF s this] obtain st p role lt where
    st: "map_of (rm_simulcast r) stream = Some st" "find_peer u r = Some (p, role)"
    and r': "r' = update_peer u role (p\<lparr>pr_subs := AList.update stream lt (pr_subs p)\<rparr>)
       (r\<lparr>rm_simulcast := AList.update stream (set_subscriber_layer u (best_available_layer q st) st) (rm_simulcast r)\<rparr>)"
    by metis
  let ?r = "r\<lparr>rm_simulcast := AList.update stream (set_subscriber_layer u (best_available_layer q st) st) (rm_simulcast r)\<rparr>"
  have "sim_ok stream (set_subscriber_layer u (best_available_layer q st) st)"
    using entries_lookup[OF room_ok_parts(4)[OF assms] st(1)] by (simp add: sim_ok_def)
  then have "room_ok ?r" by (intro room_ok_simulcast assms entries_update room_ok_parts(4))
  moreover have "find_peer u ?r = Some (p, role)" using st(2) by simp
  ultimately have "room_ok r'" unfolding r' by (rule update_peer_ok) (simp add: peer_ok_def)
  with s show ?thesis by simp
qed (use assms in simp)

lemma plan_ok: "room_ok r \<Longrightarrow> room_ok (fst (plan_subscriber_adaptation s clock r))"
  by (auto simp: plan_subscriber_adaptation_def Let_def split: option.split prod.split)

lemma apply_decision_ok: "room_ok r \<Longrightarrow> room_ok (fst (apply_adaptive_decision x d r))"
  by (simp add: apply_adaptive_decision_def set_subscriber_quality_ok)

section \<open>Histories of a room\<close>

text \<open>Every critical section in any order, with any answers: so the sections of concurrent handlers interleave freely. The
  last section of a handler is given the stream object it holds, which the room has (\<open>stream_announced\<close>,
  \<open>relay_stream_forwarded\<close>) or had in an earlier state (\<open>lost_stream_announced\<close>,
  \<open>lost_stream_forwarded\<close>).\<close>

inductive room_reachable :: "room \<Rightarrow> bool" where
  created: "room_reachable (new_room i opts)"
| presenter_added: "room_reachable r \<Longrightarrow> room_reachable (fst (add_presenter x u r))"
| viewer_added: "room_reachable r \<Longrightarrow> room_reachable (fst (add_viewer x u r))"
| peer_removed: "room_reachable r \<Longrightarrow> room_reachable (remove_peer x u r)"
| track_published: "room_reachable r \<Longrightarrow> new_track_router u track stream made = Ok router \<Longrightarrow>
     room_reachable (publish_track x u router r)"
| stream_claimed: "room_reachable r \<Longrightarrow> room_reachable (fst (claim_stream u stream r))"
| layer_added: "room_reachable r \<Longrightarrow> room_reachable (fst (add_stream_layer stream q made r))"
| stream_announced: "room_reachable r \<Longrightarrow> map_of (rm_simulcast r) stream = Some st \<Longrightarrow>
     room_reachable (announce_stream x u q st True r)"
| lost_stream_announced: "room_reachable r \<Longrightarrow> room_reachable r0 \<Longrightarrow> map_of (rm_simulcast r0) stream = Some st \<Longrightarrow>
     room_reachable (announce_stream x u q st False r)"
| track_relayed: "room_reachable r \<Longrightarrow> room_reachable (fst (inject_relay_track x d made write r))"
| relay_stream_claimed: "room_reachable r \<Longrightarrow> room_reachable (fst (claim_relay_stream d q r))"
| relay_layer_added: "room_reachable r \<Longrightarrow> room_reachable (fst (add_relay_layer stream q made r))"
| relay_stream_forwarded: "room_reachable r \<Longrightarrow> map_of (rm_simulcast r) stream = Some st \<Longrightarrow>
     room_reachable (forward_stream x u q st True r)"
| lost_stream_forwarded: "room_reachable r \<Longrightarrow> room_reachable r0 \<Longrightarrow> map_of (rm_simulcast r0) stream = Some st \<Longrightarrow>
     room_reachable (forward_stream x u q st False r)"
| quality_set: "room_reachable r \<Longrightarrow> room_reachable (fst (set_subscriber_quality x u stream q r))"
| adaptation_planned: "room_reachable r \<Longrightarrow> room_reachable (fst (plan_subscriber_adaptation s clock r))"
| closed: "room_reachable r \<Longrightarrow> room_reachable (room_close r)"

lemma reachable_room_ok: "room_reachable r \<Longrightarrow> room_ok r"
proof (induction rule: room_reachable.induct)
  case (stream_announced r stream st x u q)
  then show ?case using room_stream_ok by (intro announce_stream_ok forward_stream_ok) blast+
next
  case (lost_stream_announced r r0 stream st x u q)
  then show ?case using room_stream_ok by (intro announce_stream_ok forward_stream_ok) blast+
next
  case (relay_stream_forwarded r stream st x u q)
  then show ?case using room_stream_ok by (intro forward_stream_ok) blast+
next
  case (lost_stream_forwarded r r0 stream st x u q)
  then show ?case using room_stream_ok by (intro forward_stream_ok) blast+
qed (simp_all add: new_room_ok add_presenter_ok add_viewer_ok remove_peer_ok publish_track_ok claim_stream_ok
      add_stream_layer_ok inject_relay_track_ok claim_relay_stream_ok add_relay_layer_ok set_subscriber_quality_ok
      plan_ok room_close_ok)

text \<open>The handlers, run without interruption, are histories of their sections.\<close>

lemma layer_published:
  assumes "room_reachable r" shows "room_reachable (handle_simulcast_track x u stream rid made r)"
proof -
  let ?q = "quality_layer_from_rid rid"
  obtain r1 c where 1: "claim_stream u stream r = (r1, c)" by fastforce
  obtain r2 e where 2: "add_stream_layer stream ?q made r1 = (r2, e)" by fastforce
  have r1: "room_reachable r1" using room_reachable.stream_claimed[OF assms, of u stream] 1 by simp
  then have r2: "room_reachable r2" using room_reachable.layer_added[of r1 stream ?q made] 2 by simp
  show ?thesis
    using r1 r2 room_reachable.stream_announced[OF r2]
    by (auto simp: handle_simulcast_track_def Let_def 1 2 split: option.split)
qed

lemma packet_relayed:
  assumes "room_reachable r" shows "room_reachable (fst (inject_relay_packet x d pk made write r))"
proof -
  have sim: "room_reachable (fst (inject_relay_simulcast x d made write r))" for d
  proof -
    let ?q = "if rd_layer d = [] then QualityHigh else quality_of (rd_layer d)"
    obtain r1 c p where 1: "claim_relay_stream d ?q r = (r1, c, p)" by (metis prod_cases3)
    obtain r2 e where 2: "add_relay_layer (rd_stream d) ?q made r1 = (r2, e)" by fastforce
    have r1: "room_reachable r1" using room_reachable.relay_stream_claimed[OF assms, of d ?q] 1 by simp
    then have r2: "room_reachable r2" using room_reachable.relay_layer_added[of r1 "rd_stream d" ?q made] 2 by simp
    show ?thesis
      using r1 r2 room_reachable.relay_stream_forwarded[OF r2]
      by (auto simp: inject_relay_simulcast_def Let_def 1[simplified] 2[simplified] split: option.split)
  qed
  then show ?thesis using assms room_reachable.track_relayed[OF assms] by (simp add: inject_relay_packet_def Let_def)
qed

end
