(* ===== verification/RoomSpec.thy ===== *)
theory RoomSpec
  imports Room
begin

text \<open>
  What the operations of \<open>Room\<close> do, in closed form, and the room's properties: the departure of a
  presenter, the subscriptions of a newcomer, a quality switch, the track limit, and the weaknesses of
  \<open>internal/media/sfu/room.go\<close>.
\<close>

section \<open>What the operations do\<close>

text \<open>A peer's subscriptions without those to given tracks, except the ones whose sender its connection does not
  remove.\<close>

definition drop_subs :: "rtc \<Rightarrow> string set \<Rightarrow> peer \<Rightarrow> peer" where
  "drop_subs x ids p =
     p\<lparr>pr_subs := filter (\<lambda>e. fst e \<notin> ids \<or> rt_remove x (pr_user p) (snd e) \<noteq> None) (pr_subs p)\<rparr>"

definition drop_all :: "rtc \<Rightarrow> string set \<Rightarrow> (string, peer) gomap \<Rightarrow> (string, peer) gomap" where
  "drop_all x ids ps = map (\<lambda>(v, p). (v, drop_subs x ids p)) ps"

definition accepts :: "rtc \<Rightarrow> bool" where
  "accepts x \<longleftrightarrow> (\<forall>v lt. rt_add x v lt = None)"

lemma drop_all_empty [simp]: "drop_all x {} ps = ps"
  by (induction ps) (auto simp: drop_all_def drop_subs_def case_prod_beta)

lemma drop_subs_twice: "drop_subs x A (drop_subs x B p) = drop_subs x (A \<union> B) p"
proof -
  let ?keep = "\<lambda>C e. fst e \<notin> C \<or> rt_remove x (pr_user p) (snd e) \<noteq> None"
  have "filter (?keep A) (filter (?keep B) (pr_subs p)) = filter (?keep (A \<union> B)) (pr_subs p)"
    unfolding filter_filter by (rule filter_cong) auto
  then show ?thesis by (simp add: drop_subs_def)
qed

lemma drop_all_insert: "drop_all x A (drop_all x B ps) = drop_all x (A \<union> B) ps"
  by (simp add: drop_all_def case_prod_beta drop_subs_twice)

lemma unsubscribe_drops:
  "entries (peer_ok role) ps \<Longrightarrow> unsubscribe_all x t ps = drop_all x {t} ps"
proof (induction ps)
  case (Cons a ps)
  obtain v p where a: "a = (v, p)" by fastforce
  have ok: "\<not> pr_closed p" "wf_map (pr_subs p)" using Cons.prems a by (simp_all add: peer_ok_def)
  have only: "snd e = lt" if "map_of (pr_subs p) t = Some lt" "e \<in> set (pr_subs p)" "fst e = t" for e lt
    using that in_set_map_of[OF ok(2), of t "snd e"] by (cases e) simp
  have "fst (peer_unsubscribe x t p) = drop_subs x {t} p"
  proof (cases "map_of (pr_subs p) t")
    case None
    then have "filter (\<lambda>e. fst e \<notin> {t} \<or> rt_remove x (pr_user p) (snd e) \<noteq> None) (pr_subs p) = pr_subs p"
      by (auto simp: filter_id_conv map_of_eq_None_iff image_iff)
    with None show ?thesis by (simp add: peer_unsubscribe_def drop_subs_def)
  next
    case (Some lt)
    show ?thesis
    proof (cases "rt_remove x (pr_user p) lt")
      case None
      have "AList.delete t (pr_subs p) = filter (\<lambda>e. fst e \<notin> {t} \<or> rt_remove x (pr_user p) (snd e) \<noteq> None) (pr_subs p)"
        unfolding AList.delete_eq by (rule filter_cong[OF refl]) (use only[OF Some] None in auto)
      with Some None ok show ?thesis by (simp add: peer_unsubscribe_def drop_subs_def)
    next
      case (Some e)
      have "filter (\<lambda>e. fst e \<notin> {t} \<or> rt_remove x (pr_user p) (snd e) \<noteq> None) (pr_subs p) = pr_subs p"
        unfolding filter_id_conv using only[OF \<open>map_of (pr_subs p) t = Some lt\<close>] Some by auto
      with Some \<open>map_of (pr_subs p) t = Some lt\<close> ok show ?thesis by (simp add: peer_unsubscribe_def drop_subs_def)
    qed
  qed
  with Cons a show ?case by (simp add: unsubscribe_all_def drop_all_def)
qed (simp add: unsubscribe_all_def drop_all_def)

lemma drop_all_ok: "entries (peer_ok role) ps \<Longrightarrow> entries (peer_ok role) (drop_all x ids ps)"
  unfolding drop_all_def by (erule entries_map_values) (simp add: peer_ok_def drop_subs_def)

lemma remove_tracks_loop_spec:
  assumes "entries (peer_ok PeerRolePresenter) (rm_presenters r)" "entries (peer_ok PeerRoleViewer) (rm_viewers r)"
  shows "let ids = {i. \<exists>tr. (i, tr) \<in> set trs \<and> tr_source tr = u}; r' = remove_tracks_loop x u trs r in
    (\<forall>i. map_of (rm_tracks r') i = (if i \<in> ids then None else map_of (rm_tracks r) i)) \<and>
    rm_presenters r' = drop_all x ids (rm_presenters r) \<and> rm_viewers r' = drop_all x ids (rm_viewers r) \<and>
    rm_simulcast r' = rm_simulcast r"
  using assms
proof (induction trs arbitrary: r)
  case (Cons a trs)
  obtain i tr where a: "a = (i, tr)" by fastforce
  show ?case
  proof (cases "tr_source tr = u")
    case False
    then have "{j. \<exists>t. (j, t) \<in> set (a # trs) \<and> tr_source t = u} = {j. \<exists>t. (j, t) \<in> set trs \<and> tr_source t = u}"
      using a by auto
    with False a Cons.IH[OF Cons.prems] show ?thesis by simp
  next
    case True
    let ?r = "emit_event (unpublished u i r) (r\<lparr>rm_tracks := AList.delete i (rm_tracks r),
             rm_presenters := unsubscribe_all x i (rm_presenters r), rm_viewers := unsubscribe_all x i (rm_viewers r)\<rparr>)"
    have sel: "rm_presenters ?r = drop_all x {i} (rm_presenters r)" "rm_viewers ?r = drop_all x {i} (rm_viewers r)"
      "rm_tracks ?r = AList.delete i (rm_tracks r)" "rm_simulcast ?r = rm_simulcast r"
      using unsubscribe_drops[OF Cons.prems(1)] unsubscribe_drops[OF Cons.prems(2)] by simp_all
    have ids: "{j. \<exists>t. (j, t) \<in> set (a # trs) \<and> tr_source t = u} = insert i {j. \<exists>t. (j, t) \<in> set trs \<and> tr_source t = u}"
      using a True by auto
    define D where "D = {j. \<exists>t. (j, t) \<in> set trs \<and> tr_source t = u}"
    have step: "remove_tracks_loop x u (a # trs) r = remove_tracks_loop x u trs ?r" using a True by simp
    have "entries (peer_ok PeerRolePresenter) (rm_presenters ?r)" "entries (peer_ok PeerRoleViewer) (rm_viewers ?r)"
      unfolding sel by (simp_all add: drop_all_ok Cons.prems)
    note IH = Cons.IH[OF this, unfolded Let_def sel drop_all_insert, folded D_def]
    have "D \<union> {i} = insert i D" by simp
    with IH show ?thesis unfolding step ids Let_def D_def[symmetric] by simp
  qed
qed simp

lemma remove_simulcasts_loop_spec:
  assumes "entries (peer_ok PeerRolePresenter) (rm_presenters r)" "entries (peer_ok PeerRoleViewer) (rm_viewers r)"
  shows "let ids = {i. \<exists>st. (i, st) \<in> set sts \<and> sm_source st = u}; r' = remove_simulcasts_loop x u sts r in
    (\<forall>i. map_of (rm_simulcast r') i = (if i \<in> ids then None else map_of (rm_simulcast r) i)) \<and>
    rm_presenters r' = drop_all x ids (rm_presenters r) \<and> rm_viewers r' = drop_all x ids (rm_viewers r) \<and>
    rm_tracks r' = rm_tracks r"
  using assms
proof (induction sts arbitrary: r)
  case (Cons a sts)
  obtain i st where a: "a = (i, st)" by fastforce
  show ?case
  proof (cases "sm_source st = u")
    case False
    then have "{j. \<exists>t. (j, t) \<in> set (a # sts) \<and> sm_source t = u} = {j. \<exists>t. (j, t) \<in> set sts \<and> sm_source t = u}"
      using a by auto
    with False a Cons.IH[OF Cons.prems] show ?thesis by simp
  next
    case True
    let ?r = "emit_event (unpublished u i r) (r\<lparr>rm_simulcast := AList.delete i (rm_simulcast r),
             rm_adaptive := forget_stream i (rm_adaptive r),
             rm_presenters := unsubscribe_all x i (rm_presenters r), rm_viewers := unsubscribe_all x i (rm_viewers r)\<rparr>)"
    have sel: "rm_presenters ?r = drop_all x {i} (rm_presenters r)" "rm_viewers ?r = drop_all x {i} (rm_viewers r)"
      "rm_simulcast ?r = AList.delete i (rm_simulcast r)" "rm_tracks ?r = rm_tracks r"
      using unsubscribe_drops[OF Cons.prems(1)] unsubscribe_drops[OF Cons.prems(2)] by simp_all
    have ids: "{j. \<exists>t. (j, t) \<in> set (a # sts) \<and> sm_source t = u} = insert i {j. \<exists>t. (j, t) \<in> set sts \<and> sm_source t = u}"
      using a True by auto
    define D where "D = {j. \<exists>t. (j, t) \<in> set sts \<and> sm_source t = u}"
    have step: "remove_simulcasts_loop x u (a # sts) r = remove_simulcasts_loop x u sts ?r" using a True by simp
    have "entries (peer_ok PeerRolePresenter) (rm_presenters ?r)" "entries (peer_ok PeerRoleViewer) (rm_viewers ?r)"
      unfolding sel by (simp_all add: drop_all_ok Cons.prems)
    note IH = Cons.IH[OF this, unfolded Let_def sel drop_all_insert, folded D_def]
    have "D \<union> {i} = insert i D" by simp
    with IH show ?thesis unfolding step ids Let_def D_def[symmetric] by simp
  qed
qed simp

text \<open>The identifiers of a user's tracks and streams.\<close>

definition owned_tracks :: "string \<Rightarrow> room \<Rightarrow> string set" where
  "owned_tracks u r = {i. \<exists>tr. map_of (rm_tracks r) i = Some tr \<and> tr_source tr = u}"

definition owned_streams :: "string \<Rightarrow> room \<Rightarrow> string set" where
  "owned_streams u r = {i. \<exists>st. map_of (rm_simulcast r) i = Some st \<and> sm_source st = u}"

lemma owned_in_set:
  "wf_map (rm_tracks r) \<Longrightarrow> {i. \<exists>tr. (i, tr) \<in> set (rm_tracks r) \<and> tr_source tr = u} = owned_tracks u r"
  "wf_map (rm_simulcast r) \<Longrightarrow> {i. \<exists>st. (i, st) \<in> set (rm_simulcast r) \<and> sm_source st = u} = owned_streams u r"
  by (simp_all only: owned_tracks_def owned_streams_def in_set_map_of)

lemma remove_presenter_tracks_spec:
  assumes "room_ok r"
  shows "let gone = owned_tracks u r \<union> owned_streams u r; r' = remove_presenter_tracks x u r in
    (\<forall>i. map_of (rm_tracks r') i = (if i \<in> owned_tracks u r then None else map_of (rm_tracks r) i)) \<and>
    (\<forall>i. map_of (rm_simulcast r') i = (if i \<in> owned_streams u r then None else map_of (rm_simulcast r) i)) \<and>
    rm_presenters r' = drop_all x gone (rm_presenters r) \<and> rm_viewers r' = drop_all x gone (rm_viewers r)"
proof -
  note parts = room_ok_parts[OF assms(1)]
  let ?r1 = "remove_tracks_loop x u (rm_tracks r) r"
  have wf: "wf_map (rm_tracks r)" "wf_map (rm_simulcast r)" using parts(3,4) entries_wf by blast+
  note s1 = remove_tracks_loop_spec[OF parts(1,2), where x = x and u = u and trs = "rm_tracks r", unfolded Let_def owned_in_set(1)[OF wf(1)]]
  note t1 = s1[THEN conjunct1] and ps1 = s1[THEN conjunct2, THEN conjunct1]
    and vs1 = s1[THEN conjunct2, THEN conjunct2, THEN conjunct1] and sim = s1[THEN conjunct2, THEN conjunct2, THEN conjunct2]
  have p1: "entries (peer_ok PeerRolePresenter) (rm_presenters ?r1)" "entries (peer_ok PeerRoleViewer) (rm_viewers ?r1)"
    unfolding ps1 vs1 by (rule drop_all_ok[OF parts(1)], rule drop_all_ok[OF parts(2)])
  note s2 = remove_simulcasts_loop_spec[OF p1, where x = x and u = u and sts = "rm_simulcast r", unfolded Let_def owned_in_set(2)[OF wf(2)]]
  note t2 = s2[THEN conjunct1] and ps2 = s2[THEN conjunct2, THEN conjunct1]
    and vs2 = s2[THEN conjunct2, THEN conjunct2, THEN conjunct1] and tr2 = s2[THEN conjunct2, THEN conjunct2, THEN conjunct2]
  have un: "owned_streams u r \<union> owned_tracks u r = owned_tracks u r \<union> owned_streams u r" by (rule Un_commute)
  show ?thesis
    unfolding remove_presenter_tracks_def Let_def sim ps2 vs2 tr2 ps1 vs1 drop_all_insert un
    using t1 t2[unfolded sim] by blast
qed

text \<open>What a newcomer receives when the connection accepts every track.\<close>

abbreviation (input) own_track :: "peer \<Rightarrow> string \<Rightarrow> bool" where
  "own_track p source \<equiv> pr_role p = PeerRolePresenter \<and> source = pr_user p"

lemma subscribe_tracks_spec:
  assumes "accepts x" "\<not> pr_closed p" "wf_map trs" "\<And>i tr. (i, tr) \<in> set trs \<Longrightarrow> tr_id tr = i"
    and "keys (pr_subs p) \<inter> keys trs = {}"
  shows "subscribe_tracks x p trs =
    (p\<lparr>pr_subs := pr_subs p @ map (\<lambda>e. (fst e, tr_local (snd e))) (filter (\<lambda>e. \<not> own_track p (tr_source (snd e))) trs)\<rparr>,
     map (\<lambda>e. (fst e, if own_track p (tr_source (snd e)) then snd e else add_subscriber (pr_user p) (snd e))) trs)"
  using assms(2-)
proof (induction trs arbitrary: p)
  case (Cons a trs)
  obtain i tr where a: "a = (i, tr)" by fastforce
  have id: "tr_id tr = i" and fresh: "i \<notin> keys (pr_subs p)" "i \<notin> keys trs" using Cons.prems a by auto
  have rest: "wf_map trs" "\<And>j t. (j, t) \<in> set trs \<Longrightarrow> tr_id t = j" using Cons.prems by auto
  show ?case
  proof (cases "own_track p (tr_source tr)")
    case True
    moreover have "keys (pr_subs p) \<inter> keys trs = {}" using Cons.prems(4) by auto
    ultimately show ?thesis using Cons.IH[OF Cons.prems(1) rest] a by simp
  next
    case False
    let ?p = "p\<lparr>pr_subs := pr_subs p @ [(i, tr_local tr)]\<rparr>"
    have "map_of (pr_subs p) i = None" using fresh(1) by (simp add: map_of_None_keys)
    with assms(1) Cons.prems(1) id fresh(1)
    have s: "peer_subscribe x p tr = (?p, add_subscriber (pr_user p) tr, None)"
      by (simp add: peer_subscribe_def accepts_def update_fresh)
    have "keys (pr_subs ?p) \<inter> keys trs = {}" using Cons.prems(4) fresh(2) by auto
    with Cons.IH[OF _ rest, of ?p] Cons.prems(1) have
      "subscribe_tracks x ?p trs = (?p\<lparr>pr_subs := pr_subs ?p @ map (\<lambda>e. (fst e, tr_local (snd e)))
          (filter (\<lambda>e. \<not> own_track p (tr_source (snd e))) trs)\<rparr>,
         map (\<lambda>e. (fst e, if own_track p (tr_source (snd e)) then snd e else add_subscriber (pr_user p) (snd e))) trs)" by simp
    with False a s show ?thesis by auto
  qed
qed simp

lemma best_layer_local:
  "local_track_for_layer (best_available_layer q st) st = None \<longleftrightarrow> sm_layers st = []"
proof (cases "sm_layers st = []")
  case False
  from best_available_mem[OF this, of q] False show ?thesis by (simp add: local_track_for_layer_def map_of_None_keys)
qed (simp add: local_track_for_layer_def)

lemma subscribe_simulcasts_spec:
  assumes "accepts x" "wf_map sts" "\<And>i st. (i, st) \<in> set sts \<Longrightarrow> sm_stream st = i"
  shows "\<exists>subs. subscribe_simulcasts x q p sts =
    (p\<lparr>pr_subs := subs\<rparr>,
     map (\<lambda>e. (fst e, if own_track p (sm_source (snd e)) \<or> sm_layers (snd e) = [] then snd e
                       else set_subscriber_layer (pr_user p) (best_available_layer q (snd e)) (snd e))) sts) \<and>
    (\<forall>i. map_of subs i = (case map_of sts i of
        Some st \<Rightarrow> if own_track p (sm_source st) \<or> sm_layers st = [] then map_of (pr_subs p) i
                   else local_track_for_layer (best_available_layer q st) st
      | None \<Rightarrow> map_of (pr_subs p) i))"
  using assms(2-)
proof (induction sts arbitrary: p)
  case Nil
  show ?case by (rule exI[of _ "pr_subs p"]) simp
next
  case (Cons a sts)
  obtain i st where a: "a = (i, st)" by fastforce
  have id: "sm_stream st = i" and fresh: "map_of sts i = None" using Cons.prems a by (auto simp: map_of_None_keys)
  have rest: "wf_map sts" "\<And>j t. (j, t) \<in> set sts \<Longrightarrow> sm_stream t = j" using Cons.prems by auto
  show ?case
  proof (cases "own_track p (sm_source st)")
    case True
    from Cons.IH[OF rest, of p] obtain subs where s: "subscribe_simulcasts x q p sts = (p\<lparr>pr_subs := subs\<rparr>,
       map (\<lambda>e. (fst e, if own_track p (sm_source (snd e)) \<or> sm_layers (snd e) = [] then snd e
                       else set_subscriber_layer (pr_user p) (best_available_layer q (snd e)) (snd e))) sts)"
      "\<forall>i. map_of subs i = (case map_of sts i of
        Some st \<Rightarrow> if own_track p (sm_source st) \<or> sm_layers st = [] then map_of (pr_subs p) i
                   else local_track_for_layer (best_available_layer q st) st
      | None \<Rightarrow> map_of (pr_subs p) i)" by blast
    show ?thesis by (rule exI[of _ subs]) (use True a s fresh in simp)
  next
    case False
    let ?b = "best_available_layer q st"
    define p1 where "p1 = (case local_track_for_layer ?b st of None \<Rightarrow> p
        | Some lt \<Rightarrow> p\<lparr>pr_subs := AList.update i lt (pr_subs p)\<rparr>)"
    define st1 where "st1 = (if sm_layers st = [] then st else set_subscriber_layer (pr_user p) ?b st)"
    have sub: "\<exists>e. subscribe_to_simulcast x ?b p st = (p1, st1, e)"
      using assms(1) id best_layer_local[of q st] unfolding p1_def st1_def accepts_def subscribe_to_simulcast_def
      by (cases "local_track_for_layer ?b st") auto
    have p1: "pr_user p1 = pr_user p" "pr_role p1 = pr_role p" "\<And>s. p1\<lparr>pr_subs := s\<rparr> = p\<lparr>pr_subs := s\<rparr>"
      "\<And>j. map_of (pr_subs p1) j = (if j = i \<and> sm_layers st \<noteq> [] then local_track_for_layer ?b st else map_of (pr_subs p) j)"
      using best_layer_local[of q st] by (auto simp: p1_def split: option.splits)
    from Cons.IH[OF rest, of p1] obtain subs where s: "subscribe_simulcasts x q p1 sts = (p1\<lparr>pr_subs := subs\<rparr>,
       map (\<lambda>e. (fst e, if own_track p (sm_source (snd e)) \<or> sm_layers (snd e) = [] then snd e
                       else set_subscriber_layer (pr_user p) (best_available_layer q (snd e)) (snd e))) sts)"
      "\<forall>j. map_of subs j = (case map_of sts j of
        Some st \<Rightarrow> if own_track p (sm_source st) \<or> sm_layers st = [] then map_of (pr_subs p1) j
                   else local_track_for_layer (best_available_layer q st) st
      | None \<Rightarrow> map_of (pr_subs p1) j)" unfolding p1 by blast
    have run: "subscribe_simulcasts x q p (a # sts) = (p\<lparr>pr_subs := subs\<rparr>, (i, st1) #
       map (\<lambda>e. (fst e, if own_track p (sm_source (snd e)) \<or> sm_layers (snd e) = [] then snd e
                       else set_subscriber_layer (pr_user p) (best_available_layer q (snd e)) (snd e))) sts)"
      using False a sub s(1) p1(3) by auto
    have "map_of subs j = (case map_of (a # sts) j of
        Some st \<Rightarrow> if own_track p (sm_source st) \<or> sm_layers st = [] then map_of (pr_subs p) j
                   else local_track_for_layer (best_available_layer q st) st
      | None \<Rightarrow> map_of (pr_subs p) j)" for j
    proof (cases "j = i")
      case True
      then show ?thesis using \<open>\<not> own_track p (sm_source st)\<close> a s(2)[rule_format, of j] fresh p1(4)[of j] by auto
    next
      case False
      then show ?thesis using a s(2)[rule_format, of j] p1(4)[of j] by (cases "map_of sts j") simp_all
    qed
    note m = this
    have st1: "st1 = (if own_track p (sm_source st) \<or> sm_layers st = [] then st
        else set_subscriber_layer (pr_user p) (best_available_layer q st) st)" using False by (auto simp: st1_def)
    show ?thesis by (rule exI[of _ subs], unfold run) (use m in \<open>simp only: a st1 list.map fst_conv snd_conv simp_thms\<close>)
  qed
qed

lemma map_of_map_fst: "map_of (map (\<lambda>e. (fst e, f (snd e))) m) k = map_option f (map_of m k)"
  by (induction m) auto

lemma map_of_filter_snd:
  "wf_map m \<Longrightarrow> map_of (filter (\<lambda>e. P (snd e)) m) k = (case map_of m k of Some v \<Rightarrow> if P v then Some v else None | None \<Rightarrow> None)"
  by (induction m) (auto simp: map_of_None_keys split: option.split)

definition foreign :: "peer_role \<Rightarrow> string \<Rightarrow> string \<Rightarrow> bool" where
  "foreign role user source \<longleftrightarrow> \<not> (role = PeerRolePresenter \<and> source = user)"

definition default_quality :: "peer_role \<Rightarrow> quality" where
  "default_quality role = (if role = PeerRolePresenter then QualityHigh else QualityMedium)"

lemma newcomer_spec:
  assumes "accepts x" "room_ok r" "subscribe_to_existing x (new_peer u role) r = (p, r')"
  shows "(\<forall>i. map_of (pr_subs p) i =
      (case map_of (rm_simulcast r) i of
         Some st \<Rightarrow> if foreign role u (sm_source st) \<and> sm_layers st \<noteq> []
                    then local_track_for_layer (best_available_layer (default_quality role) st) st
                    else (case map_of (rm_tracks r) i of Some tr \<Rightarrow> if foreign role u (tr_source tr) then Some (tr_local tr) else None | None \<Rightarrow> None)
       | None \<Rightarrow> (case map_of (rm_tracks r) i of Some tr \<Rightarrow> if foreign role u (tr_source tr) then Some (tr_local tr) else None | None \<Rightarrow> None))) \<and>
    rm_presenters r' = rm_presenters r \<and> rm_viewers r' = rm_viewers r \<and> pr_user p = u \<and> pr_role p = role"
proof -
  note parts = room_ok_parts[OF assms(2)]
  have wf: "wf_map (rm_tracks r)" "wf_map (rm_simulcast r)" using parts(3,4) entries_wf by blast+
  have ids: "\<And>i tr. (i, tr) \<in> set (rm_tracks r) \<Longrightarrow> tr_id tr = i" "\<And>i st. (i, st) \<in> set (rm_simulcast r) \<Longrightarrow> sm_stream st = i"
    using parts(3,4) by (auto simp: entries_def router_ok_def sim_ok_def)
  let ?p = "new_peer u role"
  have p: "\<not> pr_closed ?p" "pr_subs ?p = []" "pr_user ?p = u" "pr_role ?p = role" by (simp_all add: new_peer_def)
  define p1 where "p1 = ?p\<lparr>pr_subs := map (\<lambda>e. (fst e, tr_local (snd e)))
      (filter (\<lambda>e. \<not> own_track ?p (tr_source (snd e))) (rm_tracks r))\<rparr>"
  have t: "\<exists>trs. subscribe_tracks x ?p (rm_tracks r) = (p1, trs)"
    using subscribe_tracks_spec[OF assms(1) p(1) wf(1) ids(1)] p(2) by (simp add: p1_def)
  then obtain trs where t: "subscribe_tracks x ?p (rm_tracks r) = (p1, trs)" by blast
  have p1: "pr_user p1 = u" "pr_role p1 = role" by (simp_all add: p1_def p)
  have plain: "map_of (pr_subs p1) i = (case map_of (rm_tracks r) i of
      Some tr \<Rightarrow> if foreign role u (tr_source tr) then Some (tr_local tr) else None | None \<Rightarrow> None)" for i
    using map_of_filter_snd[OF wf(1), of "\<lambda>tr. \<not> own_track ?p (tr_source tr)" i]
    by (simp add: p1_def map_of_map_fst foreign_def p split: option.splits)
  from subscribe_simulcasts_spec[OF assms(1) wf(2) ids(2), of "default_quality role" p1] obtain subs sts where
    s: "subscribe_simulcasts x (default_quality role) p1 (rm_simulcast r) = (p1\<lparr>pr_subs := subs\<rparr>, sts)" and
    subs: "\<forall>i. map_of subs i = (case map_of (rm_simulcast r) i of
        Some st \<Rightarrow> if own_track p1 (sm_source st) \<or> sm_layers st = [] then map_of (pr_subs p1) i
                   else local_track_for_layer (best_available_layer (default_quality role) st) st
      | None \<Rightarrow> map_of (pr_subs p1) i)" by blast
  have "p = p1\<lparr>pr_subs := subs\<rparr>" "r' = r\<lparr>rm_tracks := trs, rm_simulcast := sts\<rparr>"
    using assms(3) t s p(4) by (simp_all add: subscribe_to_existing_def default_quality_def)
  with subs plain p1 show ?thesis by (auto simp: foreign_def split: option.split)
qed

section \<open>Properties\<close>

text \<open>C21: whatever happens in a room, with the critical sections of its operations in whatever order and with whatever
  answers of the connections: nobody is presenter and viewer at once, neither group exceeds its limit, every peer,
  track and stream is filed under its own name, no peer and no track or stream in the room is closed, a presenter is
  never subscribed to its own plain track, and a closed room has no peers. (A track need not belong to a presenter
  who is there: a layer joins any stream, and a presenter may leave before its track is published.)\<close>

theorem room_invariant:
  assumes "room_reachable r"
  shows "room_ok r \<and> keys (rm_presenters r) \<inter> keys (rm_viewers r) = {} \<and>
    int (length (rm_presenters r)) \<le> ro_presenters (rm_options r) \<and>
    int (length (rm_viewers r)) \<le> ro_viewers (rm_options r) \<and>
    (\<forall>i tr. map_of (rm_tracks r) i = Some tr \<and> tr_source tr \<in> keys (rm_presenters r) \<longrightarrow>
        tr_source tr \<notin> keys (tr_subs tr))"
proof -
  have ok: "room_ok r" by (rule reachable_room_ok[OF assms])
  have seats: "keys (rm_presenters r) \<inter> keys (rm_viewers r) = {}"
    "int (length (rm_presenters r)) \<le> ro_presenters (rm_options r)"
    "int (length (rm_viewers r)) \<le> ro_viewers (rm_options r)"
    using ok by (simp_all add: room_ok_def seats_ok_def)
  have "tr_source tr \<notin> keys (tr_subs tr)" if "map_of (rm_tracks r) i = Some tr" "tr_source tr \<in> keys (rm_presenters r)" for i tr
    using entries_lookup[OF room_ok_parts(3)[OF ok] that(1)] that(2) seats(1) unfolding router_ok_def by blast
  with ok seats show ?thesis by blast
qed

definition sample_options :: room_options where
  "sample_options = \<lparr>ro_presenters = 2, ro_viewers = 3, ro_tracks = 1, ro_simulcast = True, ro_recording = False,
     ro_adaptive = zero_options\<rparr>"

definition all_ok :: rtc where
  "all_ok = \<lparr>rt_add = (\<lambda>u lt. None), rt_replace = (\<lambda>u a b. None), rt_remove = (\<lambda>u lt. None)\<rparr>"

definition sample_room :: room where
  "sample_room = fst (add_viewer all_ok ''v'' (fst (add_presenter all_ok ''a''
     (new_room ''r'' sample_options))))"

lemma sample_room_reachable: "room_reachable sample_room"
  unfolding sample_room_def by (intro room_reachable.intros)

definition mic :: track_router where
  "mic = \<lparr>tr_id = ''mic'', tr_source = ''a'', tr_local = 7, tr_stream = ''s'', tr_subs = [], tr_done = False\<rparr>"

lemma mic_new: "new_track_router ''a'' ''mic'' ''s'' (Ok 7) = Ok mic"
  by (simp add: new_track_router_def mic_def)

definition live_room :: room where
  "live_room = publish_track all_ok ''a'' mic sample_room"

lemma live_room_reachable: "room_reachable live_room"
  unfolding live_room_def by (rule room_reachable.track_published[OF sample_room_reachable mic_new])

theorem room_invariant_witness:
  "room_ok live_room \<and> map_of (rm_tracks live_room) ''mic'' \<noteq> None"
proof -
  have "map_of (rm_tracks live_room) ''mic'' \<noteq> None" by code_simp
  with room_invariant[OF live_room_reachable] show ?thesis by blast
qed

text \<open>C22: what a presenter's departure does, whatever the connections answer: it removes the presenter and exactly
  its tracks and streams; every other peer loses exactly its subscriptions to them, except those whose sender its
  connection fails to remove (\<open>Unsubscribe\<close> keeps them and the failure is only logged), and nothing else of
  anybody changes.\<close>

theorem presenter_leave_cleans_up:
  assumes "room_reachable r" "\<not> rm_closed r" "map_of (rm_presenters r) u = Some p"
  shows "let gone = owned_tracks u r \<union> owned_streams u r; r' = remove_peer x u r in
    rm_presenters r' = drop_all x gone (AList.delete u (rm_presenters r)) \<and>
    rm_viewers r' = drop_all x gone (rm_viewers r) \<and> u \<notin> keys (rm_presenters r') \<and>
    (\<forall>i. map_of (rm_tracks r') i = (if i \<in> owned_tracks u r then None else map_of (rm_tracks r) i)) \<and>
    (\<forall>i. map_of (rm_simulcast r') i = (if i \<in> owned_streams u r then None else map_of (rm_simulcast r) i))"
proof -
  have ok: "room_ok r" by (rule reachable_room_ok[OF assms(1)])
  let ?r = "r\<lparr>rm_presenters := AList.delete u (rm_presenters r)\<rparr>"
  have "seats_ok (rm_options r) (AList.delete u (rm_presenters r)) (rm_viewers r)"
    using ok order_trans[OF zle_int[THEN iffD2, OF length_delete_le]]
    by (auto simp: room_ok_def seats_ok_def intro: entries_delete)
  with ok assms(2) have ok': "room_ok ?r" by (simp add: room_ok_def)
  have own: "owned_tracks u ?r = owned_tracks u r" "owned_streams u ?r = owned_streams u r"
    by (simp_all add: owned_tracks_def owned_streams_def)
  define r1 where "r1 = remove_presenter_tracks x u ?r"
  note s = remove_presenter_tracks_spec[OF ok', where x = x and u = u, unfolded Let_def own, folded r1_def]
  have f: "find_peer u r = Some (p, PeerRolePresenter)" using assms(3) by (simp add: find_peer_def)
  have r': "rm_presenters (remove_peer x u r) = rm_presenters r1" "rm_viewers (remove_peer x u r) = rm_viewers r1"
    "rm_tracks (remove_peer x u r) = rm_tracks r1" "rm_simulcast (remove_peer x u r) = rm_simulcast r1"
    using assms(2) f by (simp_all add: remove_peer_def r1_def[symmetric] Let_def)
  have "keys (drop_all x ids ps) = keys ps" for ids ps
    unfolding drop_all_def by (rule keys_same) (rule keys_map_values)
  with s show ?thesis unfolding Let_def r' by simp
qed

text \<open>Connections that do not remove anything from the viewer.\<close>

definition stubborn :: rtc where
  "stubborn = all_ok\<lparr>rt_remove := (\<lambda>u lt. if u = ''v'' then Some err_closed_pipe else None)\<rparr>"

theorem presenter_leave_cleans_up_witness:
  "owned_tracks ''a'' live_room = {''mic''} \<and> map_of (rm_tracks (remove_peer all_ok ''a'' live_room)) ''mic'' = None \<and>
   rm_viewers (remove_peer all_ok ''a'' live_room) = drop_all all_ok {''mic''} (rm_viewers live_room) \<and>
   rm_viewers (remove_peer stubborn ''a'' live_room) = drop_all stubborn {''mic''} (rm_viewers live_room)"
proof -
  have c: "map_of (rm_presenters live_room) ''a'' \<noteq> None" "\<not> rm_closed live_room" "rm_simulcast live_room = []" by code_simp+
  then obtain p where p: "map_of (rm_presenters live_room) ''a'' = Some p" by blast
  have "map (\<lambda>(i, tr). (i, tr_source tr)) (rm_tracks live_room) = [(''mic'', ''a'')]" by code_simp
  then obtain tr where "rm_tracks live_room = [(''mic'', tr)]" "tr_source tr = ''a''" by auto
  then have own: "owned_tracks ''a'' live_room = {''mic''}" "owned_streams ''a'' live_room = {}"
    using c(3) by (auto simp: owned_tracks_def owned_streams_def)
  show ?thesis
    using own presenter_leave_cleans_up[OF live_room_reachable c(2) p, of all_ok]
      presenter_leave_cleans_up[OF live_room_reachable c(2) p, of stubborn] by (simp add: Let_def)
qed

text \<open>A viewer whose connection did not remove the sender counts as subscribed for good: a track published later under the
  same identifier does not reach it.\<close>

lemma stuck_subscription:
  "let r = publish_track all_ok ''a'' (mic\<lparr>tr_local := 9\<rparr>)
       (fst (add_presenter all_ok ''a'' (remove_peer stubborn ''a'' live_room)))
   in map_option tr_local (map_of (rm_tracks r) ''mic'') = Some 9 \<and>
      map (\<lambda>(u, p). map_of (pr_subs p) ''mic'') (rm_viewers r) = [Some 7]"
  by code_simp

text \<open>A newcomer is admitted exactly when the room is open, it is not there yet and its group has a
  seat; when its connection accepts tracks, it is then subscribed to exactly the tracks of the others
  and, of each of their streams that has a layer, to the best layer up to its default quality (where a
  stream and a track share an identifier, to the stream); the other peers are untouched.\<close>

lemma join_subscribes_to_everyone:
  assumes "room_reachable r" "accepts x"
    and "(case role of PeerRolePresenter \<Rightarrow> add_presenter x u r | PeerRoleViewer \<Rightarrow> add_viewer x u r) = (r', res)"
  shows "(case res of
      Err e \<Rightarrow> r' = r \<and> (rm_closed r \<or> find_peer u r \<noteq> None \<or>
        (case role of PeerRolePresenter \<Rightarrow> ro_presenters (rm_options r) \<le> int (length (rm_presenters r))
                    | PeerRoleViewer \<Rightarrow> ro_viewers (rm_options r) \<le> int (length (rm_viewers r))))
    | Ok p \<Rightarrow> find_peer u r = None \<and> find_peer u r' = Some (p, role) \<and>
        (\<forall>v. v \<noteq> u \<longrightarrow> find_peer v r' = find_peer v r) \<and>
        (\<forall>i. map_of (pr_subs p) i =
          (let plain = (case map_of (rm_tracks r) i of
                 Some tr \<Rightarrow> if foreign role u (tr_source tr) then Some (tr_local tr) else None | None \<Rightarrow> None) in
           case map_of (rm_simulcast r) i of
             Some st \<Rightarrow> if foreign role u (sm_source st) \<and> sm_layers st \<noteq> []
                        then local_track_for_layer (best_available_layer (default_quality role) st) st else plain
           | None \<Rightarrow> plain)))"
proof -
  have ok: "room_ok r" by (rule reachable_room_ok[OF assms(1)])
  obtain p r1 where s: "subscribe_to_existing x (new_peer u role) r = (p, r1)" by fastforce
  note spec = newcomer_spec[OF assms(2) ok s]
  show ?thesis
  proof (cases role)
    case PeerRolePresenter
    show ?thesis
    proof (cases "rm_closed r \<or> map_of (rm_presenters r) u \<noteq> None \<or> map_of (rm_viewers r) u \<noteq> None \<or>
        int (length (rm_presenters r)) \<ge> ro_presenters (rm_options r)")
      case True
      with PeerRolePresenter assms(3) show ?thesis
        by (auto simp: add_presenter_def find_peer_def split: option.splits if_splits)
    next
      case False
      with PeerRolePresenter assms(3) s have "res = Ok p"
        "r' = emit_event \<lparr>re_type = EventPeerJoined, re_room = rm_id r, re_user = u, re_track = [], re_role = PeerRolePresenter\<rparr>
           (r1\<lparr>rm_presenters := AList.update u p (rm_presenters r1)\<rparr>)"
        by (simp_all add: add_presenter_def Let_def)
      then show ?thesis using spec False PeerRolePresenter by (auto simp: find_peer_def Let_def split: option.split)
    qed
  next
    case PeerRoleViewer
    show ?thesis
    proof (cases "rm_closed r \<or> map_of (rm_viewers r) u \<noteq> None \<or> map_of (rm_presenters r) u \<noteq> None \<or>
        int (length (rm_viewers r)) \<ge> ro_viewers (rm_options r)")
      case True
      with PeerRoleViewer assms(3) show ?thesis
        by (auto simp: add_viewer_def find_peer_def split: option.splits if_splits)
    next
      case False
      with PeerRoleViewer assms(3) s have "res = Ok p"
        "r' = emit_event \<lparr>re_type = EventPeerJoined, re_room = rm_id r, re_user = u, re_track = [], re_role = PeerRoleViewer\<rparr>
           (r1\<lparr>rm_viewers := AList.update u p (rm_viewers r1)\<rparr>)"
        by (simp_all add: add_viewer_def Let_def)
      then show ?thesis using spec False PeerRoleViewer by (auto simp: find_peer_def Let_def split: option.split)
    qed
  qed
qed

lemma join_subscribes_to_everyone_witness:
  "case add_viewer all_ok ''w'' live_room of (r', res) \<Rightarrow>
     (case res of Err e \<Rightarrow> False | Ok p \<Rightarrow> map_of (pr_subs p) ''mic'' = Some 7)"
proof -
  obtain r' res where run: "add_viewer all_ok ''w'' live_room = (r', res)" by fastforce
  have ok: "case snd (add_viewer all_ok ''w'' live_room) of Err e \<Rightarrow> False | Ok p \<Rightarrow> True" by code_simp
  with run obtain p where p: "res = Ok p" by (cases res) auto
  have trs: "map (\<lambda>(i, tr). (i, tr_source tr, tr_local tr)) (rm_tracks live_room) = [(''mic'', ''a'', 7)]"
    "rm_simulcast live_room = []" by code_simp+
  then obtain tr where tr: "rm_tracks live_room = [(''mic'', tr)]" "tr_source tr = ''a''" "tr_local tr = 7" by auto
  have acc: "accepts all_ok" by (simp add: accepts_def all_ok_def)
  from join_subscribes_to_everyone[OF live_room_reachable acc, where role = PeerRoleViewer and u = "''w''" and r' = r' and res = res] run p trs(2) tr
  have "map_of (pr_subs p) ''mic'' = Some 7" by (simp add: foreign_def Let_def)
  with run p show ?thesis by simp
qed

text \<open>A quality switch does what it says: when \<open>SetSubscriberQuality\<close> succeeds, the subscriber is
  recorded on the best layer the stream has for the request (the requested one if it is there), and if
  that is a change, its sender for the stream carries that layer's local track; the layers, the other
  subscribers of the stream, the other streams, the tracks and the other peers stay as they were. When
  it fails, nothing changes.\<close>

lemma quality_switch_effect:
  assumes "set_subscriber_quality x u stream q r = (r', res)"
  shows "(res \<noteq> None \<longrightarrow> r' = r) \<and>
    (res = None \<longrightarrow> (\<exists>st st'. map_of (rm_simulcast r) stream = Some st \<and> map_of (rm_simulcast r') stream = Some st' \<and>
       subscriber_layer u st' = Some (best_available_layer q st) \<and> sm_layers st' = sm_layers st \<and>
       (\<forall>v. v \<noteq> u \<longrightarrow> subscriber_layer v st' = subscriber_layer v st) \<and>
       (r' \<noteq> r \<longrightarrow> (\<exists>p role. find_peer u r' = Some (p, role) \<and> map_of (pr_subs p) stream \<noteq> None \<and>
          map_of (pr_subs p) stream = local_track_for_layer (best_available_layer q st) st)))) \<and>
    (\<forall>i. i \<noteq> stream \<longrightarrow> map_of (rm_simulcast r') i = map_of (rm_simulcast r) i) \<and>
    (\<forall>v. v \<noteq> u \<longrightarrow> find_peer v r' = find_peer v r) \<and> rm_tracks r' = rm_tracks r"
proof (cases "r' = r")
  case True
  have "res = None \<longrightarrow> (\<exists>st. map_of (rm_simulcast r) stream = Some st \<and>
      subscriber_layer u st = Some (best_available_layer q st))"
  proof
    assume "res = None"
    with assms consider st where "map_of (rm_simulcast r) stream = Some st" "subscriber_layer u st = Some (best_available_layer q st)"
      | st p role where "map_of (rm_simulcast r) stream = Some st" "r' = update_peer u role p
           (r\<lparr>rm_simulcast := AList.update stream (set_subscriber_layer u (best_available_layer q st) st) (rm_simulcast r)\<rparr>)"
      by (auto simp: set_subscriber_quality_def Let_def split: option.splits if_splits)
    then show "\<exists>st. map_of (rm_simulcast r) stream = Some st \<and> subscriber_layer u st = Some (best_available_layer q st)"
    proof cases
      case (2 st p role)
      have "rm_simulcast (update_peer u role p s) = rm_simulcast s" for s
        by (cases role) (simp_all add: update_peer_def)
      with 2 True have "rm_simulcast r = AList.update stream (set_subscriber_layer u (best_available_layer q st) st) (rm_simulcast r)"
        by (metis room.select_convs(6) room.update_convs(6) room.surjective)
      then have "map_of (rm_simulcast r) stream = Some (set_subscriber_layer u (best_available_layer q st) st)"
        by (metis fun_upd_same map_of_update)
      with 2(1) show ?thesis by (metis fun_upd_same map_of_update option.inject sm_sel(5) subscriber_layer_def)
    qed blast
  qed
  with True show ?thesis by auto
next
  case False
  from set_subscriber_quality_cases[OF assms False] obtain st p role lt where
    st: "map_of (rm_simulcast r) stream = Some st" "find_peer u r = Some (p, role)"
      "map_of (sm_layers st) (best_available_layer q st) = Some lt" "res = None"
    and r': "r' = update_peer u role (p\<lparr>pr_subs := AList.update stream lt (pr_subs p)\<rparr>)
       (r\<lparr>rm_simulcast := AList.update stream (set_subscriber_layer u (best_available_layer q st) st) (rm_simulcast r)\<rparr>)"
    by metis
  from find_peer_SomeD[OF st(2)]
  have f: "find_peer u r' = Some (p\<lparr>pr_subs := AList.update stream lt (pr_subs p)\<rparr>, role)"
    "\<And>v. v \<noteq> u \<Longrightarrow> find_peer v r' = find_peer v r"
    unfolding r' by (auto simp: find_peer_def update_peer_def split: option.split)
  have sel: "rm_simulcast r' = AList.update stream (set_subscriber_layer u (best_available_layer q st) st) (rm_simulcast r)"
    "rm_tracks r' = rm_tracks r"
    unfolding r' by (cases role; simp add: update_peer_def)+
  show ?thesis
    using st f sel by (auto simp: subscriber_layer_def local_track_for_layer_def)
qed

definition camera_room :: room where
  "camera_room = handle_simulcast_track all_ok ''a'' ''cam'' ''h'' (Ok 9)
     (handle_simulcast_track all_ok ''a'' ''cam'' ''f'' (Ok 8) sample_room)"

lemma quality_switch_effect_witness:
  "case set_subscriber_quality all_ok ''v'' ''cam'' QualityMedium camera_room of (r', res) \<Rightarrow>
     res = None \<and> r' \<noteq> camera_room \<and> map_option (\<lambda>(p, role). map_of (pr_subs p) ''cam'') (find_peer ''v'' r') = Some (Some 9)"
proof -
  obtain r' res where run: "set_subscriber_quality all_ok ''v'' ''cam'' QualityMedium camera_room = (r', res)" by fastforce
  let ?run = "set_subscriber_quality all_ok ''v'' ''cam'' QualityMedium camera_room"
  have res: "snd ?run = None" by code_simp
  have old: "map_option (\<lambda>(p, role). map_of (pr_subs p) ''cam'') (find_peer ''v'' camera_room) = Some (Some 8)"
    "map_option (\<lambda>(p, role). map_of (pr_subs p) ''cam'') (find_peer ''v'' (fst ?run)) = Some (Some 9)" by code_simp+
  then have "fst ?run \<noteq> camera_room" by auto
  with run res have r: "res = None" "r' \<noteq> camera_room" by auto
  have best: "map_option (\<lambda>st. local_track_for_layer (best_available_layer QualityMedium st) st)
      (map_of (rm_simulcast camera_room) ''cam'') = Some (Some 9)" by code_simp
  obtain st where st: "map_of (rm_simulcast camera_room) ''cam'' = Some st"
    "r' \<noteq> camera_room \<longrightarrow> (\<exists>p role. find_peer ''v'' r' = Some (p, role) \<and> map_of (pr_subs p) ''cam'' \<noteq> None \<and>
       map_of (pr_subs p) ''cam'' = local_track_for_layer (best_available_layer QualityMedium st) st)"
    using mp[OF quality_switch_effect[OF run, THEN conjunct2, THEN conjunct1] r(1)] by (elim exE conjE)
  from mp[OF st(2) r(2)] obtain p role where "find_peer ''v'' r' = Some (p, role)"
    "map_of (pr_subs p) ''cam'' = local_track_for_layer (best_available_layer QualityMedium st) st" by (elim exE conjE)
  with best st(1) have "map_option (\<lambda>(p, role). map_of (pr_subs p) ''cam'') (find_peer ''v'' r') = Some (Some 9)" by simp
  with r show ?thesis unfolding run by simp
qed

text \<open>Distinct identifiers a user publishes under.\<close>

definition owned_ids :: "string \<Rightarrow> room \<Rightarrow> string set" where
  "owned_ids u r = owned_tracks u r \<union> owned_streams u r"

lemma owned_count: "finite (owned_ids u r)" "int (card (owned_ids u r)) \<le> publisher_track_count u r"
proof -
  let ?T = "filter (\<lambda>(i, tr). tr_source tr = u) (rm_tracks r)" and ?S = "filter (\<lambda>(i, st). sm_source st = u) (rm_simulcast r)"
  have sub: "owned_ids u r \<subseteq> set (map fst ?T @ map fst ?S)"
    by (force simp: owned_ids_def owned_tracks_def owned_streams_def dest: map_of_SomeD)
  then show "finite (owned_ids u r)" by (rule finite_subset) simp
  have "card (owned_ids u r) \<le> card (set (map fst ?T @ map fst ?S))" by (rule card_mono[OF _ sub]) simp
  also have "\<dots> \<le> length (map fst ?T @ map fst ?S)" by (rule card_length)
  finally show "int (card (owned_ids u r)) \<le> publisher_track_count u r" by (simp add: publisher_track_count_def)
qed

lemma publish_allowed:
  assumes "can_publish_track u i r" "0 < ro_tracks (rm_options r)" "int (card (owned_ids u r)) \<le> ro_tracks (rm_options r)"
  shows "int (card (insert i (owned_ids u r))) \<le> ro_tracks (rm_options r)"
proof (cases "i \<in> owned_ids u r")
  case True
  then show ?thesis using assms(3) by (simp add: insert_absorb)
next
  case False
  then have "publisher_track_count u r < ro_tracks (rm_options r)"
    using assms(1,2) by (auto simp: can_publish_track_def owned_ids_def owned_tracks_def owned_streams_def split: if_splits option.splits)
  with owned_count[of u r] False show ?thesis by simp
qed

lemma forward_track_sel:
  assumes "room_ok r" "new_track_router source track stream made = Ok router"
  shows "\<exists>tr. rm_tracks (forward_track x source router r) = AList.update track tr (rm_tracks r) \<and> tr_source tr = source"
    "rm_simulcast (forward_track x source router r) = rm_simulcast r" "rm_options (forward_track x source router r) = rm_options r"
proof -
  obtain ps tr1 where p: "subscribe_all x (Some source) (rm_presenters r) router = (ps, tr1)" by fastforce
  obtain vs tr2 where v: "subscribe_all x None (rm_viewers r) tr1 = (vs, tr2)" by fastforce
  note new = new_track_router_Ok[OF assms(2)]
  have "tr_source tr2 = source"
    using subscribe_all_ok[OF p room_ok_parts(1)[OF assms(1)]] subscribe_all_ok[OF v room_ok_parts(2)[OF assms(1)]] new by simp
  with new show "\<exists>tr. rm_tracks (forward_track x source router r) = AList.update track tr (rm_tracks r) \<and> tr_source tr = source"
    "rm_simulcast (forward_track x source router r) = rm_simulcast r" "rm_options (forward_track x source router r) = rm_options r"
    by (auto simp: forward_track_def p v)
qed

lemma forward_simulcast_sel:
  assumes "room_ok r" "wf_map (sm_subs st)"
  shows "\<exists>st'. rm_simulcast (forward_simulcast x source q st r) = AList.update (sm_stream st) st' (rm_simulcast r) \<and>
      sm_source st' = sm_source st"
    "rm_tracks (forward_simulcast x source q st r) = rm_tracks r" "rm_options (forward_simulcast x source q st r) = rm_options r"
proof -
  obtain ps st1 where p: "subscribe_all_simulcast x (Some source) q (rm_presenters r) st = (ps, st1)" by fastforce
  obtain vs st2 where v: "subscribe_all_simulcast x None q (rm_viewers r) st1 = (vs, st2)" by fastforce
  have "sm_source st2 = sm_source st"
    using subscribe_all_simulcast_ok[OF p room_ok_parts(1)[OF assms(1)] assms(2)]
      subscribe_all_simulcast_ok[OF v room_ok_parts(2)[OF assms(1)]] by simp
  then show "\<exists>st'. rm_simulcast (forward_simulcast x source q st r) = AList.update (sm_stream st) st' (rm_simulcast r) \<and>
      sm_source st' = sm_source st"
    "rm_tracks (forward_simulcast x source q st r) = rm_tracks r" "rm_options (forward_simulcast x source q st r) = rm_options r"
    by (auto simp: forward_simulcast_def p v)
qed

lemma handle_new_track_owned:
  assumes "room_ok r"
  shows "(handle_new_track x u track stream rid made r = r \<or>
      (\<exists>i. can_publish_track u i r \<and> owned_ids u (handle_new_track x u track stream rid made r) \<subseteq> insert i (owned_ids u r)) \<or>
      owned_ids u (handle_new_track x u track stream rid made r) \<subseteq> owned_ids u r) \<and>
    (\<forall>v. v \<noteq> u \<longrightarrow> owned_ids v (handle_new_track x u track stream rid made r) \<subseteq> owned_ids v r) \<and>
    rm_options (handle_new_track x u track stream rid made r) = rm_options r"
proof (cases "rid = []")
  case True
  show ?thesis
  proof (cases "can_publish_track u track r \<and> \<not> rm_closed r")
    case False
    then have "handle_new_track x u track stream rid made r = r"
      using True by (auto simp: handle_new_track_def publish_track_def split: sum.split)
    then show ?thesis by simp
  next
    case can: True
    show ?thesis
    proof (cases "new_track_router u track stream made")
      case (Inl e)
      with True can show ?thesis by (simp add: handle_new_track_def)
    next
      case (Inr router)
      from forward_track_sel[OF assms Inr, of x] obtain tr where tr:
        "rm_tracks (forward_track x u router r) = AList.update track tr (rm_tracks r)" "tr_source tr = u" by blast
      let ?r = "handle_new_track x u track stream rid made r"
      have "rm_tracks ?r = AList.update track tr (rm_tracks r)" "rm_simulcast ?r = rm_simulcast r" "rm_options ?r = rm_options r"
        using True can Inr tr forward_track_sel(2,3)[OF assms Inr, of x]
        by (simp_all add: handle_new_track_def publish_track_def Let_def)
      then have "owned_ids u ?r \<subseteq> insert track (owned_ids u r)" "\<forall>v. v \<noteq> u \<longrightarrow> owned_ids v ?r \<subseteq> owned_ids v r"
        "rm_options ?r = rm_options r"
        using tr(2) by (auto simp: owned_ids_def owned_tracks_def owned_streams_def split: if_splits)
      with can show ?thesis by blast
    qed
  qed
next
  case False
  then have h: "handle_new_track x u track stream rid made r = handle_simulcast_track x u stream rid made r"
    by (simp add: handle_new_track_def)
  let ?q = "quality_layer_from_rid rid" and ?r = "handle_simulcast_track x u stream rid made r"
  show ?thesis
  proof (cases "map_of (rm_simulcast r) stream")
    case (Some st)
    obtain st' e where a: "add_layer ?q made st = (st', e)" by fastforce
    have "sm_source st' = sm_source st" using add_layer_sel(2)[OF a] .
    moreover have "?r = r \<or> (rm_tracks ?r = rm_tracks r \<and> rm_options ?r = rm_options r \<and>
        rm_simulcast ?r = AList.update stream st' (rm_simulcast r))"
      using Some a by (cases e) (simp_all add: handle_simulcast_track_def Let_def claim_stream_def add_stream_layer_def)
    ultimately have "owned_ids v ?r = owned_ids v r" "rm_options ?r = rm_options r" for v
      using Some by (auto simp: owned_ids_def owned_tracks_def owned_streams_def split: if_splits)
    then show ?thesis unfolding h by simp
  next
    case None
    show ?thesis
    proof (cases "can_publish_track u stream r \<and> \<not> rm_closed r")
      case False
      then have "?r = r" using None by (auto simp: handle_simulcast_track_def Let_def claim_stream_def)
      then show ?thesis unfolding h by simp
    next
      case can: True
      let ?new = "new_simulcast_track stream u"
      let ?r1 = "r\<lparr>rm_simulcast := AList.update stream ?new (rm_simulcast r)\<rparr>"
      obtain st e where a: "add_layer ?q made ?new = (st, e)" by fastforce
      let ?r2 = "?r1\<lparr>rm_simulcast := AList.update stream st (rm_simulcast ?r1)\<rparr>"
      have st: "sm_stream st = stream" "sm_source st = u" "wf_map (sm_subs st)" using add_layer_sel(1-3)[OF a] by simp_all
      have r1: "room_ok ?r1" by (intro room_ok_simulcast assms entries_update room_ok_parts(4) new_simulcast_ok)
      have r2: "room_ok ?r2"
        by (intro room_ok_simulcast r1 entries_update room_ok_parts(4) add_layer_sim_ok[OF new_simulcast_ok a])
      from forward_simulcast_sel[OF r2 st(3), of x u ?q] obtain st' where st':
        "rm_simulcast (forward_simulcast x u ?q st ?r2) = AList.update stream st' (rm_simulcast ?r2)" "sm_source st' = u"
        unfolding st by blast
      have claim: "claim_stream u stream r = (?r1, Some True)" "add_stream_layer stream ?q made ?r1 = (?r2, e)"
        using None can a by (simp_all add: claim_stream_def add_stream_layer_def)
      have "?r = (if e = None then announce_stream x u ?q st True ?r2 else ?r2)"
        unfolding handle_simulcast_track_def Let_def claim prod.case option.case if_True by (cases e) simp_all
      then have "\<exists>st''. map_of (rm_simulcast ?r) = (map_of (rm_simulcast r))(stream \<mapsto> st'') \<and> sm_source st'' = u \<and>
          rm_tracks ?r = rm_tracks r \<and> rm_options ?r = rm_options r"
        using st st' forward_simulcast_sel(2,3)[OF r2 st(3), of x u ?q]
        by (cases e) (auto simp: announce_stream_def forward_stream_def Let_def map_of_update)
      then have "owned_ids u ?r \<subseteq> insert stream (owned_ids u r)" "\<forall>v. v \<noteq> u \<longrightarrow> owned_ids v ?r \<subseteq> owned_ids v r"
        "rm_options ?r = rm_options r"
        by (auto simp: owned_ids_def owned_tracks_def owned_streams_def split: if_splits)
      with can show ?thesis unfolding h by blast
    qed
  qed
qed

text \<open>The track limit holds for tracks handled one after the other: handling a new track, plain or a
  simulcast layer, keeps every user within \<open>MaxTracksPerPresenter\<close> distinct identifiers.\<close>

lemma publish_respects_limit:
  assumes "room_reachable r" "\<And>v. int (card (owned_ids v r)) \<le> ro_tracks (rm_options r)"
  shows "int (card (owned_ids v (handle_new_track x u track stream rid made r))) \<le>
    ro_tracks (rm_options (handle_new_track x u track stream rid made r))"
proof -
  have ok: "room_ok r" by (rule reachable_room_ok[OF assms(1)])
  let ?r = "handle_new_track x u track stream rid made r"
  note h = handle_new_track_owned[OF ok, of x u track stream rid made]
  have pos: "0 < ro_tracks (rm_options r)" using ok by (simp add: room_ok_def options_ok_def)
  have mono: "A \<subseteq> B \<Longrightarrow> finite B \<Longrightarrow> int (card B) \<le> n \<Longrightarrow> int (card A) \<le> n" for A B :: "string set" and n
    using card_mono[of B A] by simp
  have "int (card (owned_ids v ?r)) \<le> ro_tracks (rm_options r)"
  proof (cases "v = u")
    case False
    with h mono[OF _ owned_count(1) assms(2)] show ?thesis by blast
  next
    case True
    from h consider "?r = r" | i where "can_publish_track u i r" "owned_ids u ?r \<subseteq> insert i (owned_ids u r)"
      | "owned_ids u ?r \<subseteq> owned_ids u r" by blast
    then show ?thesis
    proof cases
      case 1
      then show ?thesis using assms(2) by simp
    next
      case (2 i)
      then show ?thesis unfolding True
        by (intro mono[OF 2(2) _ publish_allowed[OF 2(1) pos assms(2)]]) (simp add: owned_count)
    next
      case 3
      then show ?thesis unfolding True by (intro mono[OF 3 owned_count(1) assms(2)])
    qed
  qed
  with h show ?thesis by simp
qed

lemma publish_respects_limit_witness:
  "int (card (owned_ids ''a'' (handle_new_track all_ok ''a'' ''mic2'' ''s'' [] (Ok 8) sample_room))) \<le> 1"
proof -
  have e: "rm_tracks sample_room = []" "rm_simulcast sample_room = []" "ro_tracks (rm_options sample_room) = 1" by code_simp+
  then have "owned_ids v sample_room = {}" for v by (simp add: owned_ids_def owned_tracks_def owned_streams_def)
  then have "int (card (owned_ids v sample_room)) \<le> ro_tracks (rm_options sample_room)" for v using e by simp
  note p = publish_respects_limit[OF sample_room_reachable this, of "''a''" all_ok "''a''" "''mic2''" "''s''" "[]" "Ok 8"]
  have "ro_tracks (rm_options (handle_new_track all_ok ''a'' ''mic2'' ''s'' [] (Ok 8) sample_room)) = 1" by code_simp
  with p show ?thesis by simp
qed

text \<open>The limit is checked outside the critical section that adds the track: two tracks of one
  presenter whose checks both precede the two insertions leave it above the limit.\<close>

lemma publish_limit_race:
  "\<exists>r a b. room_reachable r \<and> new_track_router ''a'' ''t1'' ''s'' (Ok 1) = Ok a \<and> new_track_router ''a'' ''t2'' ''s'' (Ok 2) = Ok b \<and>
     can_publish_track ''a'' ''t1'' r \<and> can_publish_track ''a'' ''t2'' r \<and>
     publisher_track_count ''a'' (publish_track all_ok ''a'' b (publish_track all_ok ''a'' a r)) > ro_tracks (rm_options r)"
proof -
  let ?a = "\<lparr>tr_id = ''t1'', tr_source = ''a'', tr_local = 1, tr_stream = ''s'', tr_subs = [], tr_done = False\<rparr> :: track_router"
  let ?b = "\<lparr>tr_id = ''t2'', tr_source = ''a'', tr_local = 2, tr_stream = ''s'', tr_subs = [], tr_done = False\<rparr> :: track_router"
  have "can_publish_track ''a'' ''t1'' sample_room" "can_publish_track ''a'' ''t2'' sample_room"
    "publisher_track_count ''a'' (publish_track all_ok ''a'' ?b (publish_track all_ok ''a'' ?a sample_room)) > ro_tracks (rm_options sample_room)"
    by code_simp+
  with sample_room_reachable show ?thesis
    by (intro exI[of _ sample_room] exI[of _ ?a] exI[of _ ?b]) (simp add: new_track_router_def)
qed

text \<open>Two weaknesses the model shows. A relayed packet puts a track into a room that is closed; and
  when the first layer of a stream fails, the peers are never subscribed to the layers that follow.\<close>

lemma relay_enters_closed_room:
  "\<exists>r. room_reachable r \<and> rm_closed r \<and> rm_tracks r \<noteq> []"
proof -
  let ?d = "\<lparr>rd_track = ''t'', rd_stream = ''t'', rd_source = ''x'', rd_layer = []\<rparr>"
  let ?r = "fst (inject_relay_packet all_ok ?d True (Ok 1) None (room_close sample_room))"
  have "room_reachable ?r" by (intro packet_relayed room_reachable.closed sample_room_reachable)
  moreover have "rm_closed ?r" "length (rm_tracks ?r) = 1" by code_simp+
  then have "rm_closed ?r" "rm_tracks ?r \<noteq> []" by auto
  ultimately show ?thesis by blast
qed

lemma failed_first_layer_hides_stream:
  "rm_viewers (handle_simulcast_track all_ok ''a'' ''cam'' ''h'' (Ok 9)
     (handle_simulcast_track all_ok ''a'' ''cam'' ''f'' (Err err_closed_pipe) sample_room)) = rm_viewers sample_room"
  by code_simp


text \<open>The presenter leaves between the second and the third section of his layer: the viewer is subscribed to a stream
  the room no longer has.\<close>

lemma lost_stream_subscription:
  "let r1 = fst (add_stream_layer ''cam'' QualityHigh (Ok 8) (fst (claim_stream ''a'' ''cam'' sample_room)));
       r2 = remove_peer all_ok ''a'' r1;
       r3 = announce_stream all_ok ''a'' QualityHigh (the (map_of (rm_simulcast r1) ''cam'')) False r2
   in rm_simulcast r3 = [] \<and> map (\<lambda>(u, p). map_of (pr_subs p) ''cam'') (rm_viewers r3) = [Some 8]"
  by code_simp

end
