(* ===== verification/Sfu.thy ===== *)
theory Sfu
  imports RoomSpec
begin

text \<open>
  The registry of rooms of a media node, \<open>internal/media/sfu/sfu.go\<close>: creation under the node's limit,
  lookup, closing, statistics, shutdown. The WebRTC engine \<open>NewSFU\<close> configures belongs to the library
  and is not modelled. A room taken out of the registry is closed; what its holders see of it is
  \<open>Room.room_close\<close>.
\<close>

record sfu =
  sf_max_rooms :: int
  sf_rooms :: "(string, room) gomap"

record sfu_stats =
  st_rooms :: nat
  st_presenters :: nat
  st_viewers :: nat
  st_tracks :: nat
  st_simulcast :: nat

definition new_sfu :: "int \<Rightarrow> sfu" where
  "new_sfu max_rooms = \<lparr>sf_max_rooms = max_rooms, sf_rooms = []\<rparr>"

definition create_room :: "string \<Rightarrow> room_options \<Rightarrow> sfu \<Rightarrow> sfu \<times> room result" where
  "create_room i opts s =
     (if map_of (sf_rooms s) i \<noteq> None then (s, Err (PlainError (''room '' @ i @ '' already exists'')))
      else if sf_max_rooms s > 0 \<and> int (length (sf_rooms s)) \<ge> sf_max_rooms s
      then (s, Err (PlainError ''node has reached the room limit''))
      else (let room = new_room i opts in (s\<lparr>sf_rooms := AList.update i room (sf_rooms s)\<rparr>, Ok room)))"

definition get_room :: "string \<Rightarrow> sfu \<Rightarrow> room option" where
  "get_room i s = map_of (sf_rooms s) i"

text \<open>The registry after \<open>CloseRoom\<close>, and the room it closed.\<close>

definition close_room :: "string \<Rightarrow> sfu \<Rightarrow> sfu \<times> room option" where
  "close_room i s =
     (case map_of (sf_rooms s) i of
        None \<Rightarrow> (s, None)
      | Some room \<Rightarrow> (s\<lparr>sf_rooms := AList.delete i (sf_rooms s)\<rparr>, Some (room_close room)))"

fun stats_loop :: "(string, room) gomap \<Rightarrow> sfu_stats \<Rightarrow> sfu_stats" where
  "stats_loop [] st = st"
| "stats_loop ((i, room) # rest) st =
     (let (p, v) = peer_count room in
      stats_loop rest
        (st\<lparr>st_presenters := st_presenters st + p, st_viewers := st_viewers st + v,
           st_tracks := st_tracks st + length (rm_tracks room),
           st_simulcast := st_simulcast st + length (rm_simulcast room)\<rparr>))"

definition sfu_stats_of :: "sfu \<Rightarrow> sfu_stats" where
  "sfu_stats_of s =
     stats_loop (sf_rooms s)
       \<lparr>st_rooms = length (sf_rooms s), st_presenters = 0, st_viewers = 0, st_tracks = 0, st_simulcast = 0\<rparr>"

definition close_sfu :: "sfu \<Rightarrow> sfu \<times> (string, room) gomap" where
  "close_sfu s = (s\<lparr>sf_rooms := []\<rparr>, map (\<lambda>(i, room). (i, room_close room)) (sf_rooms s))"

text \<open>A room operation on the room with an identifier, through the pointer the registry holds.\<close>

definition with_room :: "string \<Rightarrow> (room \<Rightarrow> room) \<Rightarrow> sfu \<Rightarrow> sfu" where
  "with_room i f s =
     (case map_of (sf_rooms s) i of None \<Rightarrow> s | Some room \<Rightarrow> s\<lparr>sf_rooms := AList.update i (f room) (sf_rooms s)\<rparr>)"

text \<open>The histories of a node: its registry operations, and any room operations.\<close>

inductive sfu_reachable :: "int \<Rightarrow> sfu \<Rightarrow> bool" for limit where
  started: "sfu_reachable limit (new_sfu limit)"
| room_created: "sfu_reachable limit s \<Longrightarrow> sfu_reachable limit (fst (create_room i opts s))"
| room_closed: "sfu_reachable limit s \<Longrightarrow> sfu_reachable limit (fst (close_room i s))"
| room_used: "sfu_reachable limit s \<Longrightarrow> (\<And>r. room_reachable r \<Longrightarrow> room_reachable (f r) \<and> rm_id (f r) = rm_id r) \<Longrightarrow>
     sfu_reachable limit (with_room i f s)"
| shut_down: "sfu_reachable limit s \<Longrightarrow> sfu_reachable limit (fst (close_sfu s))"

definition sfu_ok :: "int \<Rightarrow> sfu \<Rightarrow> bool" where
  "sfu_ok limit s \<longleftrightarrow> sf_max_rooms s = limit \<and> (limit > 0 \<longrightarrow> int (length (sf_rooms s)) \<le> limit) \<and>
     entries (\<lambda>i room. rm_id room = i \<and> room_reachable room) (sf_rooms s)"

lemma with_room_ok:
  assumes "sfu_ok limit s" "\<And>r. room_reachable r \<Longrightarrow> room_reachable (f r) \<and> rm_id (f r) = rm_id r"
  shows "sfu_ok limit (with_room i f s)"
proof (cases "map_of (sf_rooms s) i")
  case (Some room)
  have "rm_id room = i \<and> room_reachable room"
    by (rule entries_lookup[OF _ Some]) (use assms(1) in \<open>simp add: sfu_ok_def\<close>)
  moreover have "length (AList.update i (f room) (sf_rooms s)) = length (sf_rooms s)"
    by (rule length_update_old) (use Some in \<open>auto dest: map_of_SomeD intro: rev_image_eqI\<close>)
  ultimately show ?thesis
    using assms Some by (simp add: with_room_def sfu_ok_def entries_update)
qed (use assms in \<open>simp add: with_room_def\<close>)

lemma rm_id_new_room: "rm_id (new_room i opts) = i"
  by (simp add: new_room_def Let_def)

lemma create_room_ok:
  assumes "sfu_ok limit s"
  shows "sfu_ok limit (fst (create_room i opts s))"
proof (cases "map_of (sf_rooms s) i = None \<and> \<not> (sf_max_rooms s > 0 \<and> int (length (sf_rooms s)) \<ge> sf_max_rooms s)")
  case True
  moreover have "entries (\<lambda>j r. rm_id r = j \<and> room_reachable r) (AList.update i (new_room i opts) (sf_rooms s))"
    using assms by (intro entries_update) (simp_all add: sfu_ok_def rm_id_new_room room_reachable.created)
  moreover have "length (AList.update i (new_room i opts) (sf_rooms s)) = Suc (length (sf_rooms s))"
    by (rule length_update_fresh) (use True in \<open>simp add: map_of_None_keys\<close>)
  ultimately show ?thesis using assms by (auto simp: create_room_def sfu_ok_def Let_def)
qed (use assms in \<open>auto simp: create_room_def Let_def split: option.split\<close>)

lemma close_room_ok: "sfu_ok limit s \<Longrightarrow> sfu_ok limit (fst (close_room i s))"
  using length_delete_le[of i "sf_rooms s"]
  by (auto simp: close_room_def sfu_ok_def intro: entries_delete split: option.split)

lemma reachable_sfu_ok: "sfu_reachable limit s \<Longrightarrow> sfu_ok limit s"
  by (induction rule: sfu_reachable.induct)
    (simp_all add: create_room_ok close_room_ok with_room_ok, simp_all add: sfu_ok_def new_sfu_def close_sfu_def)

lemma stats_loop_sums:
  "st_rooms (stats_loop rs st) = st_rooms st \<and>
   st_presenters (stats_loop rs st) = st_presenters st + (\<Sum>(i, r) \<leftarrow> rs. length (rm_presenters r)) \<and>
   st_viewers (stats_loop rs st) = st_viewers st + (\<Sum>(i, r) \<leftarrow> rs. length (rm_viewers r)) \<and>
   st_tracks (stats_loop rs st) = st_tracks st + (\<Sum>(i, r) \<leftarrow> rs. length (rm_tracks r)) \<and>
   st_simulcast (stats_loop rs st) = st_simulcast st + (\<Sum>(i, r) \<leftarrow> rs. length (rm_simulcast r))"
  by (induction rs st rule: stats_loop.induct) (simp_all add: peer_count_def)

section \<open>Property\<close>

text \<open>A node never holds more rooms than its limit, files each room under its identifier, and every
  room it holds keeps the room invariant; its statistics are the sums over those rooms.\<close>

lemma node_rooms_bounded:
  assumes "sfu_reachable limit s"
  shows "(limit > 0 \<longrightarrow> int (length (sf_rooms s)) \<le> limit) \<and>
    (\<forall>i room. get_room i s = Some room \<longrightarrow> rm_id room = i \<and> room_ok room) \<and>
    st_rooms (sfu_stats_of s) = length (sf_rooms s) \<and>
    st_presenters (sfu_stats_of s) = (\<Sum>(i, r) \<leftarrow> sf_rooms s. length (rm_presenters r)) \<and>
    st_viewers (sfu_stats_of s) = (\<Sum>(i, r) \<leftarrow> sf_rooms s. length (rm_viewers r)) \<and>
    st_tracks (sfu_stats_of s) = (\<Sum>(i, r) \<leftarrow> sf_rooms s. length (rm_tracks r)) \<and>
    st_simulcast (sfu_stats_of s) = (\<Sum>(i, r) \<leftarrow> sf_rooms s. length (rm_simulcast r))"
proof -
  have ok: "sfu_ok limit s" by (rule reachable_sfu_ok[OF assms])
  have "rm_id room = i \<and> room_ok room" if "get_room i s = Some room" for i room
    using entries_lookup[of _ "sf_rooms s" i room] ok that reachable_room_ok
    by (auto simp: sfu_ok_def get_room_def)
  with ok show ?thesis using stats_loop_sums[of "sf_rooms s"] by (simp add: sfu_stats_of_def sfu_ok_def)
qed

lemma node_rooms_bounded_witness:
  "st_rooms (sfu_stats_of (fst (create_room ''r2'' sample_options (fst (create_room ''r'' sample_options (new_sfu 1)))))) = 1"
proof -
  let ?s = "fst (create_room ''r2'' sample_options (fst (create_room ''r'' sample_options (new_sfu 1))))"
  have "sfu_reachable 1 ?s" by (intro sfu_reachable.intros)
  from node_rooms_bounded[OF this] have "st_rooms (sfu_stats_of ?s) = length (sf_rooms ?s)" by blast
  moreover have "length (sf_rooms ?s) = 1" by code_simp
  ultimately show ?thesis by simp
qed

end
