(* ===== verification/Steps.thy ===== *)
theory Steps
  imports Cerrors
begin

text \<open>
  Stateful code as functions of the world: an action takes the world, answers with the world it leaves
  and a result, and stops at the first error the way a Go handler returns early. Reads and checks are
  functions of the world; \<open>from_read\<close> and \<open>check\<close> make them actions. \<open>run_simps\<close> says when an action
  succeeds, \<open>run_errs\<close> when it fails, \<open>and_then_exec\<close> how it goes on after a part that cannot fail.
\<close>

named_theorems run_simps \<open>when an action succeeds\<close>

type_synonym ('w, 'a) action = "'w \<Rightarrow> 'w \<times> 'a result"

section \<open>Building actions\<close>

definition return :: "'a \<Rightarrow> ('w, 'a) action" where
  "return x w = (w, Ok x)"

definition fail :: "error \<Rightarrow> ('w, 'a) action" where
  "fail e w = (w, Err e)"

definition and_then :: "('w, 'a) action \<Rightarrow> ('a \<Rightarrow> ('w, 'b) action) \<Rightarrow> ('w, 'b) action" where
  "and_then m f w = (case m w of (w', Err e) \<Rightarrow> (w', Err e) | (w', Ok x) \<Rightarrow> f x w')"

text \<open>An error returned in another form, and an error only logged; \<open>attempt\<close> goes on either way.\<close>

definition map_err :: "(error \<Rightarrow> error) \<Rightarrow> ('w, 'a) action \<Rightarrow> ('w, 'a) action" where
  "map_err g m w = (case m w of (w', Err e) \<Rightarrow> (w', Err (g e)) | (w', Ok x) \<Rightarrow> (w', Ok x))"

definition ignore_err :: "('w, unit) action \<Rightarrow> ('w, unit) action" where
  "ignore_err m w = (fst (m w), Ok ())"

definition attempt :: "('w, 'a) action \<Rightarrow> ('w, 'a option) action" where
  "attempt m w = (case m w of (w', Err e) \<Rightarrow> (w', Ok None) | (w', Ok x) \<Rightarrow> (w', Ok (Some x)))"

definition guard :: "bool \<Rightarrow> error \<Rightarrow> ('w, unit) action" where
  "guard b e = (if b then fail e else return ())"

definition from_read :: "('w \<Rightarrow> 'a result) \<Rightarrow> ('w, 'a) action" where
  "from_read f w = (w, f w)"

definition check :: "('w \<Rightarrow> error option) \<Rightarrow> ('w, unit) action" where
  "check f w = (w, case f w of None \<Rightarrow> Ok () | Some e \<Rightarrow> Err e)"

text \<open>How a missing row is reported; any other error becomes an internal one.\<close>

definition missing_or :: "error \<Rightarrow> string \<Rightarrow> error \<Rightarrow> error" where
  "missing_or missing msg e = (if app_code e = Some CodeNotFound then missing else internal_err msg e)"

text \<open>
  \<open>TxManager.WithinTx\<close>: what the driver answers to \<open>BEGIN\<close> and \<open>COMMIT\<close>, and the world as a rollback leaves
  it (\<open>restore before after\<close>).
\<close>

definition transaction ::
  "('w \<Rightarrow> error option) \<Rightarrow> ('w \<Rightarrow> error option) \<Rightarrow> ('w \<Rightarrow> 'w \<Rightarrow> 'w) \<Rightarrow> ('w, 'a) action \<Rightarrow> ('w, 'a) action" where
  "transaction begin_fault commit_fault restore fn w =
     (case begin_fault w of
        Some e \<Rightarrow> (w, Err (Wrapped ''postgres: begin transaction'' e))
      | None \<Rightarrow>
          (case fn w of
             (w', Err e) \<Rightarrow> (restore w w', Err e)
           | (w', Ok x) \<Rightarrow>
               (case commit_fault w of
                  Some e \<Rightarrow> (restore w w', Err (Wrapped ''postgres: commit transaction'' e))
                | None \<Rightarrow> (w', Ok x))))"

section \<open>Successful runs\<close>

lemma and_then_Ok [run_simps]:
  "and_then m f w = (w', Ok y) \<longleftrightarrow> (\<exists>x w1. m w = (w1, Ok x) \<and> f x w1 = (w', Ok y))"
  by (auto simp: and_then_def split: prod.splits sum.splits)

lemma map_err_Ok [run_simps]: "map_err g m w = (w', Ok x) \<longleftrightarrow> m w = (w', Ok x)"
  by (auto simp: map_err_def split: prod.splits sum.splits)

lemma return_Ok [run_simps]: "return x w = (w', r) \<longleftrightarrow> w' = w \<and> r = Ok x"
  by (auto simp: return_def)

lemma fail_Ok [run_simps]: "fail e w = (w', r) \<longleftrightarrow> w' = w \<and> r = Err e"
  by (auto simp: fail_def)

lemma guard_Ok [run_simps]: "guard b e w = (w', Ok x) \<longleftrightarrow> \<not> b \<and> w' = w"
  by (auto simp: guard_def return_def fail_def)

lemma check_Ok [run_simps]: "check f w = (w', Ok x) \<longleftrightarrow> f w = None \<and> w' = w"
  by (auto simp: check_def split: option.splits)

lemma from_read_Ok [run_simps]: "from_read f w = (w', r) \<longleftrightarrow> w' = w \<and> f w = r"
  by (auto simp: from_read_def)

lemma ignore_err_Ok [run_simps]: "ignore_err m w = (w', r) \<longleftrightarrow> w' = fst (m w) \<and> r = Ok ()"
  by (auto simp: ignore_err_def)

lemma transaction_Ok:
  "transaction b c rst m w = (w', Ok x) \<longleftrightarrow> b w = None \<and> m w = (w', Ok x) \<and> c w = None"
  by (auto simp: transaction_def split: prod.splits sum.splits option.splits)

text \<open>A transaction that fails leaves the world as it was or rolled back.\<close>

lemma transaction_Err:
  "transaction b c rst m w = (w', Err e) \<Longrightarrow> w' = w \<or> w' = rst w (fst (m w))"
  by (auto simp: transaction_def split: prod.splits sum.splits option.splits)

section \<open>Failing runs\<close>

lemma and_then_Err:
  "and_then m f w = (w', Err e) \<longleftrightarrow>
     m w = (w', Err e) \<or> (\<exists>x w1. m w = (w1, Ok x) \<and> f x w1 = (w', Err e))"
  by (auto simp: and_then_def split: prod.splits sum.splits)

lemma map_err_Err: "map_err g m w = (w', Err e) \<longleftrightarrow> (\<exists>e'. m w = (w', Err e') \<and> e = g e')"
  by (auto simp: map_err_def split: prod.splits sum.splits)

lemma check_Err: "check f w = (w', Err e) \<longleftrightarrow> w' = w \<and> f w = Some e"
  by (auto simp: check_def split: option.splits)

lemma guard_Err: "guard b x w = (w', Err e) \<longleftrightarrow> b \<and> w' = w \<and> e = x"
  by (auto simp: guard_def return_def fail_def)

lemmas run_errs = and_then_Err map_err_Err check_Err guard_Err

section \<open>Running the head of a handler\<close>

named_theorems step_exec \<open>running the head of a handler\<close>

lemma exec_check [step_exec]:
  "and_then (check f) g w = (case f w of Some e \<Rightarrow> (w, Err e) | None \<Rightarrow> g () w)"
  by (simp add: and_then_def check_def split: option.split)

lemma exec_read [step_exec]:
  "and_then (from_read f) g w = (case f w of Err e \<Rightarrow> (w, Err e) | Ok x \<Rightarrow> g x w)"
  by (simp add: and_then_def from_read_def split: sum.split)

lemma exec_guard [step_exec]: "and_then (guard b e) g w = (if b then (w, Err e) else g () w)"
  by (simp add: and_then_def guard_def fail_def return_def)

lemma exec_map_read [step_exec]:
  "and_then (map_err h (from_read f)) g w = (case f w of Err e \<Rightarrow> (w, Err (h e)) | Ok x \<Rightarrow> g x w)"
  by (simp add: and_then_def from_read_def map_err_def split: sum.split)

end
