(* ===== verification/CallTables.thy ===== *)
theory CallTables
  imports Tables
begin

text \<open>
  The entities of \<open>internal/domain/entity/call.go\<close> and the tables behind them, with the statements of
  \<open>internal/repository/postgres/call.go\<close> and \<open>breakout_room.go\<close>. \<open>ct_fault\<close> says which statement the
  driver fails on which row, so that a loop over rows can fail on some of them. The partial unique
  indexes and the principal check of \<open>migrations/026\<close> are enforced on insertion; \<open>calls_ok\<close> says what
  they guarantee. A guest's \<open>user_id\<close> is NULL in the table and \<open>uuid.Nil\<close> in the entity.
\<close>

section \<open>Entities\<close>

datatype call_type =
  CallTypeOneToOne | CallTypeGroup | CallTypeMeeting | CallTypeWebinar | CallTypeSelector | CallTypeOther string

datatype call_status = CallStatusRinging | CallStatusActive | CallStatusEnded

datatype call_access_mode = CallAccessModeDM | CallAccessModeChannel | CallAccessModeLink | CallAccessModeWebinar

datatype call_role =
  CallRoleHost | CallRoleCoHost | CallRolePresenter | CallRoleParticipant | CallRoleViewer | CallRoleOther string

datatype participant_status =
  ParticipantInvited | ParticipantWaiting | ParticipantJoining | ParticipantConnected | ParticipantDisconnected

datatype principal_type = PrincipalEmpty | PrincipalUser | PrincipalGuest | PrincipalOther string

record call_settings =
  se_waiting_room :: bool
  se_mute_on_join :: bool
  se_recording :: bool
  se_screen_sharing :: bool
  se_chat :: bool
  se_breakout_rooms :: bool
  se_locked :: bool
  se_max_participants :: int
  se_e2ee :: bool
  se_watermark :: bool

record call =
  ca_id :: uuid
  ca_workspace :: uuid
  ca_channel :: "uuid option"
  ca_meeting_channel :: "uuid option"
  ca_type :: call_type
  ca_access_mode :: call_access_mode
  ca_status :: call_status
  ca_title :: string
  ca_created_by :: uuid
  ca_settings :: call_settings
  ca_started_at :: "instant option"
  ca_ended_at :: "instant option"
  ca_created_at :: instant

record call_participant =
  pa_id :: uuid
  pa_call :: uuid
  pa_principal :: principal_type
  pa_user :: uuid
  pa_guest :: "uuid option"
  pa_name :: string
  pa_breakout :: "uuid option"
  pa_role :: call_role
  pa_status :: participant_status
  pa_audio_muted :: bool
  pa_video_muted :: bool
  pa_screen_sharing :: bool
  pa_joined_at :: "instant option"
  pa_left_at :: "instant option"

datatype breakout_status = BreakoutActive | BreakoutClosed

record breakout_room =
  br_id :: uuid
  br_call :: uuid
  br_name :: string
  br_created_by :: uuid
  br_time_limit :: "int option"
  br_status :: breakout_status
  br_created_at :: instant
  br_closed_at :: "instant option"

record call_tables =
  ct_calls :: "call list"
  ct_participants :: "call_participant list"
  ct_breakouts :: "breakout_room list"
  ct_fault :: "string \<Rightarrow> uuid \<Rightarrow> error option"

section \<open>Calls\<close>

definition pg_create_call :: "call \<Rightarrow> call_tables \<Rightarrow> call_tables \<times> error option" where
  "pg_create_call c t =
     (case exec_insert (ct_fault t ''create call'' (ca_id c)) (list_ex (\<lambda>r. ca_id r = ca_id c) (ct_calls t)) of
        Some e \<Rightarrow> (t, Some (Wrapped ''postgres: create call'' e))
      | None \<Rightarrow> (t\<lparr>ct_calls := ct_calls t @ [c]\<rparr>, None))"

definition pg_get_call :: "call_tables \<Rightarrow> uuid \<Rightarrow> call result" where
  "pg_get_call t i =
     query_row (ct_fault t ''get call by id'' i) ''call not found'' ''postgres: get call by id''
       (\<lambda>r. ca_id r = i) (ct_calls t)"

definition pg_list_active_calls :: "call_tables \<Rightarrow> uuid \<Rightarrow> call list result" where
  "pg_list_active_calls t w =
     query_rows (ct_fault t ''list active calls'' w) ''postgres: list active calls''
       (rev (sort_key ca_created_at (filter (\<lambda>c. ca_workspace c = w \<and> ca_status c \<noteq> CallStatusEnded) (ct_calls t))))"

definition update_call ::
  "string \<Rightarrow> uuid \<Rightarrow> (call \<Rightarrow> call) \<Rightarrow> call_tables \<Rightarrow> call_tables \<times> error option" where
  "update_call what i f t =
     (case exec_affected (ct_fault t what i) ''call not found'' (''postgres: '' @ what)
             (\<lambda>r. ca_id r = i) (ct_calls t) of
        Some e \<Rightarrow> (t, Some e)
      | None \<Rightarrow> (t\<lparr>ct_calls := update_rows (\<lambda>r. ca_id r = i) f (ct_calls t)\<rparr>, None))"

definition pg_update_call_settings :: "uuid \<Rightarrow> call_settings \<Rightarrow> call_tables \<Rightarrow> call_tables \<times> error option" where
  "pg_update_call_settings i s = update_call ''update call settings'' i (\<lambda>r. r\<lparr>ca_settings := s\<rparr>)"

definition pg_update_call_status :: "uuid \<Rightarrow> call_status \<Rightarrow> call_tables \<Rightarrow> call_tables \<times> error option" where
  "pg_update_call_status i s = update_call ''update call status'' i (\<lambda>r. r\<lparr>ca_status := s\<rparr>)"

definition pg_end_call :: "uuid \<Rightarrow> instant \<Rightarrow> call_tables \<Rightarrow> call_tables \<times> error option" where
  "pg_end_call i now = update_call ''end call'' i (\<lambda>r. r\<lparr>ca_status := CallStatusEnded, ca_ended_at := Some now\<rparr>)"

section \<open>Participants\<close>

definition normalize_participant_principal :: "call_participant \<Rightarrow> call_participant" where
  "normalize_participant_principal p =
     (let k = (if pa_principal p = PrincipalEmpty
               then (if pa_guest p \<noteq> None then PrincipalGuest else PrincipalUser) else pa_principal p) in
      p\<lparr>pa_principal := k, pa_user := (if k = PrincipalGuest then uuid_nil else pa_user p)\<rparr>)"

definition participant_user_id_value :: "call_participant \<Rightarrow> uuid option" where
  "participant_user_id_value p =
     (if pa_principal p = PrincipalGuest \<or> pa_user p = uuid_nil then None else Some (pa_user p))"

definition participant_guest_session_id_value :: "call_participant \<Rightarrow> uuid option" where
  "participant_guest_session_id_value p = (if pa_principal p \<noteq> PrincipalGuest then None else pa_guest p)"

text \<open>The row an INSERT stores, and the CHECK and the partial unique indexes it must pass.\<close>

definition participant_row :: "call_participant \<Rightarrow> call_participant" where
  "participant_row p =
     p\<lparr>pa_user := (case participant_user_id_value p of None \<Rightarrow> uuid_nil | Some u \<Rightarrow> u),
       pa_guest := participant_guest_session_id_value p, pa_breakout := None\<rparr>"

definition principal_check :: "call_participant \<Rightarrow> bool" where
  "principal_check p \<longleftrightarrow>
     pa_principal p = PrincipalUser \<and> pa_user p \<noteq> uuid_nil \<and> pa_guest p = None \<or>
     pa_principal p = PrincipalGuest \<and> pa_user p = uuid_nil \<and> pa_guest p \<noteq> None"

definition participant_clash :: "call_participant \<Rightarrow> call_participant \<Rightarrow> bool" where
  "participant_clash p r \<longleftrightarrow>
     pa_id r = pa_id p \<or>
     pa_call r = pa_call p \<and> pa_principal r = pa_principal p \<and>
       (pa_principal p = PrincipalUser \<and> pa_user r = pa_user p \<or> pa_principal p = PrincipalGuest \<and> pa_guest r = pa_guest p)"

definition insert_participant :: "call_participant \<Rightarrow> call_tables \<Rightarrow> call_tables \<times> error option" where
  "insert_participant p t =
     (if \<not> principal_check p
      then (t, Some (PgError ''23514'' ''new row violates check constraint call_participants_principal_check''))
      else if list_ex (participant_clash p) (ct_participants t) then (t, Some unique_violation)
      else (t\<lparr>ct_participants := ct_participants t @ [p]\<rparr>, None))"

definition pg_add_participant :: "call_participant \<Rightarrow> call_tables \<Rightarrow> call_tables \<times> error option" where
  "pg_add_participant p0 t =
     (let p = normalize_participant_principal p0 in
      case (case ct_fault t ''add call participant'' (pa_id p) of
              Some e \<Rightarrow> (t, Some e) | None \<Rightarrow> insert_participant (participant_row p) t) of
        (t', None) \<Rightarrow> (t', None)
      | (t', Some e) \<Rightarrow> (t', Some (insert_error ''participant already in call'' ''postgres: add call participant'' e)))"

definition active_participant :: "call_participant \<Rightarrow> bool" where
  "active_participant p \<longleftrightarrow> pa_status p = ParticipantJoining \<or> pa_status p = ParticipantConnected"

definition active_count :: "uuid \<Rightarrow> call_tables \<Rightarrow> int" where
  "active_count i t = int (length (filter (\<lambda>p. pa_call p = i \<and> active_participant p) (ct_participants t)))"

definition pg_add_participant_if_capacity ::
  "call_participant \<Rightarrow> int \<Rightarrow> call_tables \<Rightarrow> call_tables \<times> error option" where
  "pg_add_participant_if_capacity p0 max_participants t =
     (let p = normalize_participant_principal p0 in
      case ct_fault t ''add call participant'' (pa_id p) of
        Some e \<Rightarrow> (t, Some (insert_error ''participant already in call'' ''postgres: add participant with capacity check'' e))
      | None \<Rightarrow>
          if \<not> active_count (pa_call p) t < max_participants
          then (t, Some (forbidden ''call has reached maximum participant capacity''))
          else (case insert_participant (participant_row p) t of
                  (t', None) \<Rightarrow> (t', None)
                | (t', Some e) \<Rightarrow>
                    (t', Some (insert_error ''participant already in call'' ''postgres: add participant with capacity check'' e))))"

definition is_user :: "uuid \<Rightarrow> uuid \<Rightarrow> call_participant \<Rightarrow> bool" where
  "is_user i u p \<longleftrightarrow> pa_call p = i \<and> pa_user p = u \<and> pa_principal p = PrincipalUser"

definition is_guest :: "uuid \<Rightarrow> uuid \<Rightarrow> call_participant \<Rightarrow> bool" where
  "is_guest i g p \<longleftrightarrow> pa_call p = i \<and> pa_guest p = Some g \<and> pa_principal p = PrincipalGuest"

definition pg_get_participant :: "call_tables \<Rightarrow> uuid \<Rightarrow> uuid \<Rightarrow> call_participant result" where
  "pg_get_participant t i u =
     query_row (ct_fault t ''get call participant'' u) ''call participant not found''
       ''postgres: get call participant'' (is_user i u) (ct_participants t)"

definition pg_get_guest_participant :: "call_tables \<Rightarrow> uuid \<Rightarrow> uuid \<Rightarrow> call_participant result" where
  "pg_get_guest_participant t i g =
     query_row (ct_fault t ''get guest call participant'' g) ''call participant not found''
       ''postgres: get guest call participant'' (is_guest i g) (ct_participants t)"

text \<open>\<open>ORDER BY joined_at\<close>: ascending, the rows without one last.\<close>

definition order_by_joined :: "call_participant list \<Rightarrow> call_participant list" where
  "order_by_joined ps =
     sort_key (\<lambda>p. if pa_joined_at p = None then (1::nat) else 0)
       (sort_key (\<lambda>p. case pa_joined_at p of None \<Rightarrow> 0 | Some t \<Rightarrow> t) ps)"

definition pg_list_participants :: "call_tables \<Rightarrow> uuid \<Rightarrow> call_participant list result" where
  "pg_list_participants t i =
     query_rows (ct_fault t ''list call participants'' i) ''postgres: list call participants''
       (order_by_joined (filter (\<lambda>p. pa_call p = i) (ct_participants t)))"

definition update_participant ::
  "string \<Rightarrow> uuid \<Rightarrow> (call_participant \<Rightarrow> call_participant) \<Rightarrow> call_tables \<Rightarrow> call_tables \<times> error option" where
  "update_participant what i f t =
     (case exec_affected (ct_fault t what i) ''call participant not found'' (''postgres: '' @ what)
             (\<lambda>r. pa_id r = i) (ct_participants t) of
        Some e \<Rightarrow> (t, Some e)
      | None \<Rightarrow> (t\<lparr>ct_participants := update_rows (\<lambda>r. pa_id r = i) f (ct_participants t)\<rparr>, None))"

definition pg_update_participant_status ::
  "uuid \<Rightarrow> participant_status \<Rightarrow> call_tables \<Rightarrow> call_tables \<times> error option" where
  "pg_update_participant_status i s = update_participant ''update participant status'' i (\<lambda>r. r\<lparr>pa_status := s\<rparr>)"

definition pg_update_participant_role :: "uuid \<Rightarrow> call_role \<Rightarrow> call_tables \<Rightarrow> call_tables \<times> error option" where
  "pg_update_participant_role i role = update_participant ''update participant role'' i (\<lambda>r. r\<lparr>pa_role := role\<rparr>)"

definition pg_update_participant_media ::
  "uuid \<Rightarrow> bool \<Rightarrow> bool \<Rightarrow> bool \<Rightarrow> call_tables \<Rightarrow> call_tables \<times> error option" where
  "pg_update_participant_media i audio video screen =
     update_participant ''update participant media'' i
       (\<lambda>r. r\<lparr>pa_audio_muted := audio, pa_video_muted := video, pa_screen_sharing := screen\<rparr>)"

definition delete_participants ::
  "error option \<Rightarrow> string \<Rightarrow> (call_participant \<Rightarrow> bool) \<Rightarrow> call_tables \<Rightarrow> call_tables \<times> error option" where
  "delete_participants fault msg P t =
     (case exec_affected fault ''call participant not found'' msg P (ct_participants t) of
        Some e \<Rightarrow> (t, Some e)
      | None \<Rightarrow> (t\<lparr>ct_participants := filter (\<lambda>r. \<not> P r) (ct_participants t)\<rparr>, None))"

definition pg_remove_participant :: "uuid \<Rightarrow> uuid \<Rightarrow> call_tables \<Rightarrow> call_tables \<times> error option" where
  "pg_remove_participant i u t =
     delete_participants (ct_fault t ''remove call participant'' u) ''postgres: remove call participant''
       (\<lambda>r. pa_call r = i \<and> pa_user r = u \<and> pa_principal r \<noteq> PrincipalGuest) t"

definition pg_remove_participant_by_id :: "uuid \<Rightarrow> call_tables \<Rightarrow> call_tables \<times> error option" where
  "pg_remove_participant_by_id i t =
     delete_participants (ct_fault t ''remove call participant by id'' i) ''postgres: remove call participant by id''
       (\<lambda>r. pa_id r = i) t"

section \<open>Breakout rooms\<close>

definition pg_create_breakout :: "breakout_room \<Rightarrow> call_tables \<Rightarrow> call_tables \<times> error option" where
  "pg_create_breakout r t =
     (case exec_insert (ct_fault t ''create breakout room'' (br_id r)) (list_ex (\<lambda>x. br_id x = br_id r) (ct_breakouts t)) of
        Some e \<Rightarrow> (t, Some (Wrapped ''postgres: create breakout room'' e))
      | None \<Rightarrow> (t\<lparr>ct_breakouts := ct_breakouts t @ [r\<lparr>br_closed_at := None\<rparr>]\<rparr>, None))"

definition pg_get_breakout :: "call_tables \<Rightarrow> uuid \<Rightarrow> breakout_room result" where
  "pg_get_breakout t i =
     query_row (ct_fault t ''get breakout room'' i) ''breakout room not found'' ''postgres: get breakout room''
       (\<lambda>r. br_id r = i) (ct_breakouts t)"

definition pg_list_breakouts :: "call_tables \<Rightarrow> uuid \<Rightarrow> breakout_room list result" where
  "pg_list_breakouts t i =
     query_rows (ct_fault t ''list breakout rooms'' i) ''postgres: list breakout rooms''
       (sort_key br_created_at (filter (\<lambda>r. br_call r = i) (ct_breakouts t)))"

definition closed_room :: "instant \<Rightarrow> breakout_room \<Rightarrow> breakout_room" where
  "closed_room now r = r\<lparr>br_status := BreakoutClosed, br_closed_at := Some now\<rparr>"

definition pg_close_breakout :: "uuid \<Rightarrow> instant \<Rightarrow> call_tables \<Rightarrow> call_tables \<times> error option" where
  "pg_close_breakout i now t =
     (let P = (\<lambda>r. br_id r = i \<and> br_status r = BreakoutActive) in
      case exec_affected (ct_fault t ''close breakout room'' i) ''breakout room not found or already closed''
             ''postgres: close breakout room'' P (ct_breakouts t) of
        Some e \<Rightarrow> (t, Some e)
      | None \<Rightarrow> (t\<lparr>ct_breakouts := update_rows P (closed_room now) (ct_breakouts t)\<rparr>, None))"

definition pg_close_all_breakouts :: "uuid \<Rightarrow> instant \<Rightarrow> call_tables \<Rightarrow> call_tables \<times> error option" where
  "pg_close_all_breakouts i now t =
     (case ct_fault t ''close all breakout rooms'' i of
        Some e \<Rightarrow> (t, Some (Wrapped ''postgres: close all breakout rooms'' e))
      | None \<Rightarrow>
          (t\<lparr>ct_breakouts := update_rows (\<lambda>r. br_call r = i \<and> br_status r = BreakoutActive) (closed_room now)
               (ct_breakouts t)\<rparr>, None))"

definition set_breakout ::
  "error option \<Rightarrow> string \<Rightarrow> string \<Rightarrow> (call_participant \<Rightarrow> bool) \<Rightarrow> uuid option \<Rightarrow> call_tables \<Rightarrow> call_tables \<times> error option" where
  "set_breakout fault missing msg P b t =
     (case exec_affected fault missing msg P (ct_participants t) of
        Some e \<Rightarrow> (t, Some e)
      | None \<Rightarrow> (t\<lparr>ct_participants := update_rows P (\<lambda>r. r\<lparr>pa_breakout := b\<rparr>) (ct_participants t)\<rparr>, None))"

definition pg_assign_participant :: "uuid \<Rightarrow> uuid \<Rightarrow> uuid \<Rightarrow> call_tables \<Rightarrow> call_tables \<times> error option" where
  "pg_assign_participant i u b t =
     set_breakout (ct_fault t ''assign participant'' u) ''active participant not found in call''
       ''postgres: assign participant to breakout room''
       (\<lambda>r. pa_call r = i \<and> pa_user r = u \<and> pa_principal r \<noteq> PrincipalGuest \<and> active_participant r) (Some b) t"

definition pg_unassign_participant :: "uuid \<Rightarrow> uuid \<Rightarrow> call_tables \<Rightarrow> call_tables \<times> error option" where
  "pg_unassign_participant i u t =
     set_breakout (ct_fault t ''unassign participant'' u) ''participant not found in call''
       ''postgres: unassign participant from breakout room''
       (\<lambda>r. pa_call r = i \<and> pa_user r = u \<and> pa_principal r \<noteq> PrincipalGuest) None t"

definition pg_unassign_all :: "uuid \<Rightarrow> call_tables \<Rightarrow> call_tables \<times> error option" where
  "pg_unassign_all b t =
     (case ct_fault t ''unassign all participants'' b of
        Some e \<Rightarrow> (t, Some (Wrapped ''postgres: unassign all participants from breakout room'' e))
      | None \<Rightarrow>
          (t\<lparr>ct_participants := update_rows (\<lambda>r. pa_breakout r = Some b) (\<lambda>r. r\<lparr>pa_breakout := None\<rparr>)
               (ct_participants t)\<rparr>, None))"

definition pg_list_breakout_participants :: "call_tables \<Rightarrow> uuid \<Rightarrow> call_participant list result" where
  "pg_list_breakout_participants t b =
     query_rows (ct_fault t ''list breakout room participants'' b) ''postgres: list breakout room participants''
       (order_by_joined (filter (\<lambda>r. pa_breakout r = Some b \<and> active_participant r) (ct_participants t)))"

end
