(* ===== verification/CallService.thy ===== *)
theory CallService
  imports Steps CallTables Access Outbox Sfu
begin

text \<open>
  What every operation of the call service (\<open>internal/service/call\<close>) stands on: the world it works in
  (tables, outbox, messages handed to the publisher, media rooms), its configuration and collaborators,
  transactions, events, access checks and call policy.

  An operation is a function from the world to the world and a result. Reads and checks are functions of
  the world; \<open>from_read\<close> makes one a step. Identifiers of \<open>id.New()\<close> come from a counter, so they never
  repeat; the clock stands still within an operation.
\<close>

section \<open>World and steps\<close>

record call_world =
  cw_db :: db
  cw_tables :: call_tables
  cw_outbox :: outbox
  cw_published :: "(string \<times> event) list"
  cw_sfu :: sfu
  cw_now :: instant
  cw_next_id :: uuid

type_synonym 'a step = "(call_world, 'a) action"

definition statement :: "(call_tables \<Rightarrow> call_tables \<times> error option) \<Rightarrow> unit step" where
  "statement f w =
     (case f (cw_tables w) of (t, e) \<Rightarrow> (w\<lparr>cw_tables := t\<rparr>, case e of None \<Rightarrow> Ok () | Some e \<Rightarrow> Err e))"

definition db_statement :: "(db \<Rightarrow> db \<times> error option) \<Rightarrow> unit step" where
  "db_statement f w =
     (case f (cw_db w) of (d, e) \<Rightarrow> (w\<lparr>cw_db := d\<rparr>, case e of None \<Rightarrow> Ok () | Some e \<Rightarrow> Err e))"

definition new_id :: "uuid step" where
  "new_id w = (w\<lparr>cw_next_id := cw_next_id w + 1\<rparr>, Ok (cw_next_id w))"

definition clock :: "instant step" where
  "clock w = (w, Ok (cw_now w))"

definition with_sfu :: "(sfu \<Rightarrow> sfu) \<Rightarrow> unit step" where
  "with_sfu f w = (w\<lparr>cw_sfu := f (cw_sfu w)\<rparr>, Ok ())"

section \<open>Transactions (postgres/tx.go)\<close>

definition rolled_back :: "call_world \<Rightarrow> call_world \<Rightarrow> call_world" where
  "rolled_back w w' =
     w'\<lparr>cw_db := cw_db w, cw_tables := cw_tables w,
        cw_outbox := (cw_outbox w')\<lparr>ob_rows := ob_rows (cw_outbox w), ob_cursors := ob_cursors (cw_outbox w)\<rparr>\<rparr>"

definition within_tx :: "'a step \<Rightarrow> 'a step" where
  "within_tx = transaction (\<lambda>w. ct_fault (cw_tables w) ''begin transaction'' 0)
     (\<lambda>w. ct_fault (cw_tables w) ''commit transaction'' 0) rolled_back"

section \<open>The service and its collaborators\<close>

datatype media_routing_mode = RoutingStickyEdge | RoutingRegionalEdge
datatype media_fanout = FanoutSingleNode | FanoutRegionalCascade | FanoutWebinarEdges
datatype media_overflow = OverflowReject | OverflowRegionalMove | OverflowWebinarEdge
datatype screen_share_priority = ScreenShareBalanced | ScreenShareProtected

record media_call_policy =
  mp_max_participants :: int
  mp_max_presenters :: int
  mp_max_viewers :: int
  mp_routing :: media_routing_mode
  mp_fanout :: media_fanout
  mp_overflow :: media_overflow
  mp_screen_share :: screen_share_priority
  mp_turn :: string
  mp_sticky :: bool

record media_config =
  mc_max_presenters :: int
  mc_max_viewers :: int
  mc_max_screen_shares :: int
  mc_max_tracks :: int
  mc_default_webinar_presenters :: int
  mc_adaptive :: adaptive_options

text \<open>The control plane answers where a call's media runs: the node of a placement.\<close>

record control_plane =
  cp_policy_for_call :: "call \<Rightarrow> media_call_policy"
  cp_ensure_placement :: "call \<Rightarrow> room_options \<Rightarrow> string result"
  cp_is_local_node :: "string \<Rightarrow> bool"

text \<open>What the access checks read, at an instant.\<close>

record call_access =
  cx_get_member :: "uuid \<Rightarrow> uuid \<Rightarrow> workspace_member result"
  cx_get_channel :: "uuid \<Rightarrow> channel result"
  cx_get_channel_member :: "uuid \<Rightarrow> uuid \<Rightarrow> channel_member result"
  cx_guest_workspace :: "(uuid \<Rightarrow> uuid \<Rightarrow> bool result) option"
  cx_guest_channel :: "(uuid \<Rightarrow> uuid \<Rightarrow> uuid \<Rightarrow> bool result) option"
  cx_collab :: "(uuid \<Rightarrow> uuid \<Rightarrow> collab_decision result) option"

definition pg_call_access :: "db \<Rightarrow> instant \<Rightarrow> call_access" where
  "pg_call_access d now = \<lparr>cx_get_member = pg_get_member d, cx_get_channel = pg_get_channel d,
     cx_get_channel_member = pg_get_channel_member d,
     cx_guest_workspace = Some (has_workspace_access (Some (pg_list_active_grants d)) now),
     cx_guest_channel = Some (has_channel_access (Some (pg_list_active_grants d)) now),
     cx_collab = Some (\<lambda>ch u. collab_authorize (Some (pg_collab d now)) ch u True)\<rparr>"

record call_service =
  sv_access :: "db \<Rightarrow> instant \<Rightarrow> call_access"
  sv_tx :: bool
  sv_max_attempts :: int
  sv_control :: "control_plane option"
  sv_media :: media_config
  sv_uuid_text :: "uuid \<Rightarrow> string"
  sv_call_json :: "call \<Rightarrow> string"
  sv_participant_json :: "uuid \<Rightarrow> call_participant \<Rightarrow> string"
  sv_signal_json :: "uuid \<Rightarrow> uuid \<Rightarrow> uuid \<Rightarrow> string \<Rightarrow> string"

definition access_of :: "call_service \<Rightarrow> call_world \<Rightarrow> call_access" where
  "access_of s w = sv_access s (cw_db w) (cw_now w)"

section \<open>Events\<close>

definition blank_event :: "event_type \<Rightarrow> uuid \<Rightarrow> uuid \<Rightarrow> uuid \<Rightarrow> instant \<Rightarrow> string \<Rightarrow> event" where
  "blank_event ty workspace channel user now payload =
     \<lparr>ev_id = uuid_nil, ev_version = 0, ev_sequence = 0, ev_type = ty, ev_subject = [], ev_workspace = workspace,
      ev_channel = channel, ev_user = user, ev_delivery = DeliveryOther [], ev_replayable = False,
      ev_timestamp = now, ev_payload = payload\<rparr>"

definition do_publish :: "event_type \<Rightarrow> string \<Rightarrow> uuid \<Rightarrow> uuid \<Rightarrow> uuid \<Rightarrow> string \<Rightarrow> unit step" where
  "do_publish ty subject workspace channel user payload =
     and_then new_id (\<lambda>i w.
       (case json_marshal ((blank_event ty workspace channel user (cw_now w) payload)\<lparr>ev_id := i\<rparr>) of
          Err e \<Rightarrow> (w, Ok ())
        | Ok evt \<Rightarrow> (w\<lparr>cw_published := cw_published w @ [(subject, evt)]\<rparr>, Ok ())))"

definition enqueue_realtime_tx ::
  "call_service \<Rightarrow> event_type \<Rightarrow> string \<Rightarrow> uuid \<Rightarrow> uuid \<Rightarrow> uuid \<Rightarrow> string \<Rightarrow> unit step" where
  "enqueue_realtime_tx s ty subject workspace channel user payload =
     and_then new_id (\<lambda>i w.
       (case prepare i (cw_now w) subject (blank_event ty workspace channel user (cw_now w) payload) of
          Err e \<Rightarrow> (w, Err e)
        | Ok (evt, body, durable) \<Rightarrow>
            (case enqueue evt body (sv_max_attempts s) (cw_outbox w) of
               (b, e) \<Rightarrow> (w\<lparr>cw_outbox := b\<rparr>, case e of None \<Rightarrow> Ok () | Some e \<Rightarrow> Err e))))"

definition call_subject :: "call_service \<Rightarrow> call \<Rightarrow> string" where
  "call_subject s c = ''aloqa.ws.'' @ sv_uuid_text s (ca_workspace c)"

definition call_channel_id :: "call \<Rightarrow> uuid" where
  "call_channel_id c = (case ca_channel c of None \<Rightarrow> uuid_nil | Some ch \<Rightarrow> ch)"

definition publish_call_event :: "call_service \<Rightarrow> event_type \<Rightarrow> call \<Rightarrow> uuid \<Rightarrow> unit step" where
  "publish_call_event s ty c user =
     do_publish ty (call_subject s c) (ca_workspace c) (call_channel_id c) user (sv_call_json s c)"

definition publish_participant_event :: "call_service \<Rightarrow> event_type \<Rightarrow> call \<Rightarrow> call_participant \<Rightarrow> unit step" where
  "publish_participant_event s ty c p =
     do_publish ty (call_subject s c) (ca_workspace c) (call_channel_id c) (pa_user p)
       (sv_participant_json s (ca_id c) p)"

definition enqueue_call_event_tx :: "call_service \<Rightarrow> event_type \<Rightarrow> call \<Rightarrow> uuid \<Rightarrow> unit step" where
  "enqueue_call_event_tx s ty c user =
     enqueue_realtime_tx s ty (call_subject s c) (ca_workspace c) (call_channel_id c) user (sv_call_json s c)"

definition enqueue_participant_event_tx :: "call_service \<Rightarrow> event_type \<Rightarrow> call \<Rightarrow> call_participant \<Rightarrow> unit step" where
  "enqueue_participant_event_tx s ty c p =
     enqueue_realtime_tx s ty (call_subject s c) (ca_workspace c) (call_channel_id c) (pa_user p)
       (sv_participant_json s (ca_id c) p)"

section \<open>Access\<close>

definition require_workspace_member :: "call_access \<Rightarrow> uuid \<Rightarrow> uuid \<Rightarrow> error option" where
  "require_workspace_member x workspace user =
     (case cx_get_member x workspace user of
        Ok m \<Rightarrow> None
      | Err e \<Rightarrow> Some (missing_or (forbidden ''user is not a member of this workspace'')
                          ''failed to verify workspace membership'' e))"

definition can_access_workspace_content :: "call_access \<Rightarrow> uuid \<Rightarrow> uuid \<Rightarrow> error option" where
  "can_access_workspace_content x workspace user =
     (if require_workspace_member x workspace user = None then None
      else case cx_guest_workspace x of
        None \<Rightarrow> Some (forbidden ''user does not have access to this workspace'')
      | Some guest \<Rightarrow>
          (case guest workspace user of
             Err e \<Rightarrow> Some e
           | Ok allowed \<Rightarrow>
               if allowed then None else Some (forbidden ''user does not have access to this workspace'')))"

definition ensure_collaboration_channel_access :: "call_access \<Rightarrow> channel \<Rightarrow> uuid \<Rightarrow> bool result" where
  "ensure_collaboration_channel_access x ch user =
     (if ch_type ch \<noteq> ChDM \<and> ch_type ch \<noteq> ChGroupDM then Ok True
      else case cx_collab x of
        None \<Rightarrow> Ok True
      | Some authorize \<Rightarrow>
          (case authorize (ch_id ch) user of
             Err e \<Rightarrow> Err e
           | Ok d \<Rightarrow> Ok (if cd_managed d then cd_allowed d else True)))"

definition no_channel_access :: error where
  "no_channel_access = forbidden ''you do not have access to this channel''"

definition direct_channel_access :: "call_access \<Rightarrow> channel \<Rightarrow> uuid \<Rightarrow> error option" where
  "direct_channel_access x ch user =
     (if ch_type ch = ChDM \<or> ch_type ch = ChGroupDM then
        (case cx_get_channel_member x (ch_id ch) user of
           Ok m \<Rightarrow>
             (case ensure_collaboration_channel_access x ch user of
                Err e \<Rightarrow> Some e
              | Ok allowed \<Rightarrow> if allowed then None else Some no_channel_access)
         | Err e \<Rightarrow> Some (missing_or no_channel_access ''failed to check channel membership'' e))
      else Some no_channel_access)"

definition require_channel_access :: "call_access \<Rightarrow> channel \<Rightarrow> uuid \<Rightarrow> error option" where
  "require_channel_access x ch user =
     (if require_workspace_member x (ch_workspace ch) user = None then
        (if ch_type ch = ChPublic then None
         else case cx_get_channel_member x (ch_id ch) user of
           Err e \<Rightarrow> Some (missing_or no_channel_access ''failed to check channel membership'' e)
         | Ok m \<Rightarrow>
             (case ensure_collaboration_channel_access x ch user of
                Err e \<Rightarrow> Some e
              | Ok allowed \<Rightarrow>
                  if allowed then None
                  else Some (forbidden ''you do not have access to this collaboration channel'')))
      else case cx_guest_channel x of
        None \<Rightarrow> direct_channel_access x ch user
      | Some guest \<Rightarrow>
          (case guest (ch_workspace ch) (ch_id ch) user of
             Err e \<Rightarrow> Some e
           | Ok allowed \<Rightarrow> if allowed then None else direct_channel_access x ch user))"

definition wrap_call_error :: "error \<Rightarrow> error" where
  "wrap_call_error = missing_or (not_found ''call not found'') ''failed to get call''"

definition get_call_for_workspace :: "call_tables \<Rightarrow> uuid \<Rightarrow> uuid \<Rightarrow> call result" where
  "get_call_for_workspace t workspace i =
     (case pg_get_call t i of
        Err e \<Rightarrow> Err (wrap_call_error e)
      | Ok c \<Rightarrow> if ca_workspace c \<noteq> workspace then Err (not_found ''call not found'') else Ok c)"

definition require_call_access :: "call_service \<Rightarrow> uuid \<Rightarrow> uuid \<Rightarrow> uuid \<Rightarrow> call_world \<Rightarrow> call result" where
  "require_call_access s workspace i user w =
     result_bind (get_call_for_workspace (cw_tables w) workspace i) (\<lambda>c.
       (case ca_channel c of
          Some chid \<Rightarrow>
            (case cx_get_channel (access_of s w) chid of
               Err e \<Rightarrow> Err (internal_err ''failed to get channel'' e)
             | Ok ch \<Rightarrow>
                 (case require_channel_access (access_of s w) ch user of Some e \<Rightarrow> Err e | None \<Rightarrow> Ok c))
        | None \<Rightarrow>
            (case can_access_workspace_content (access_of s w) (ca_workspace c) user of
               Some e \<Rightarrow> Err e
             | None \<Rightarrow> Ok c)))"

definition require_guest_call_access :: "uuid \<Rightarrow> uuid \<Rightarrow> uuid \<Rightarrow> call_tables \<Rightarrow> (call \<times> call_participant) result" where
  "require_guest_call_access workspace i guest t =
     result_bind (get_call_for_workspace t workspace i) (\<lambda>c.
       (case pg_get_guest_participant t i guest of
          Err e \<Rightarrow> Err (missing_or (forbidden ''meeting guest is not a participant in this call'')
                          ''failed to verify meeting guest participant'' e)
        | Ok p \<Rightarrow>
            if pa_status p = ParticipantDisconnected
            then Err (forbidden ''meeting guest is no longer connected to this call'') else Ok (c, p)))"

definition require_host_or_co_host :: "uuid \<Rightarrow> uuid \<Rightarrow> call_tables \<Rightarrow> error option" where
  "require_host_or_co_host i user t =
     (case pg_get_participant t i user of
        Err e \<Rightarrow> Some (missing_or (forbidden ''user is not a participant in this call'')
                          ''failed to verify participant role'' e)
      | Ok p \<Rightarrow>
          if pa_role p \<noteq> CallRoleHost \<and> pa_role p \<noteq> CallRoleCoHost
          then Some (forbidden ''only host or co-host can perform this action'') else None)"

section \<open>Participant targets\<close>

record participant_target =
  pt_principal :: principal_type
  pt_user :: uuid
  pt_guest :: uuid

definition normalize_target :: "participant_target \<Rightarrow> participant_target result" where
  "normalize_target t0 =
     result_bind
       (if pt_principal t0 = PrincipalEmpty then
          (if pt_user t0 \<noteq> uuid_nil \<and> pt_guest t0 = uuid_nil then Ok (t0\<lparr>pt_principal := PrincipalUser\<rparr>)
           else if pt_user t0 = uuid_nil \<and> pt_guest t0 \<noteq> uuid_nil then Ok (t0\<lparr>pt_principal := PrincipalGuest\<rparr>)
           else Err (invalid_input ''participant target must include exactly one user_id or guest_session_id''))
        else Ok t0)
       (\<lambda>t. (case pt_principal t of
          PrincipalUser \<Rightarrow>
            if pt_user t = uuid_nil \<or> pt_guest t \<noteq> uuid_nil
            then Err (invalid_input ''user participant target requires only user_id'') else Ok t
        | PrincipalGuest \<Rightarrow>
            if pt_guest t = uuid_nil \<or> pt_user t \<noteq> uuid_nil
            then Err (invalid_input ''guest participant target requires only guest_session_id'') else Ok t
        | _ \<Rightarrow> Err (invalid_input ''invalid participant target type'')))"

definition get_participant_by_target :: "uuid \<Rightarrow> participant_target \<Rightarrow> call_tables \<Rightarrow> call_participant result" where
  "get_participant_by_target i target0 t =
     result_bind (normalize_target target0) (\<lambda>target.
       (case pt_principal target of
          PrincipalUser \<Rightarrow> pg_get_participant t i (pt_user target)
        | PrincipalGuest \<Rightarrow> pg_get_guest_participant t i (pt_guest target)
        | _ \<Rightarrow> Err (invalid_input ''invalid participant target type'')))"

text \<open>How the handlers report a target they cannot get.\<close>

definition target_error :: "string \<Rightarrow> error \<Rightarrow> error" where
  "target_error msg e =
     (case as_app_error e of
        Some (c, m, inner) \<Rightarrow> if c = CodeNotFound then not_found ''participant not found'' else AppError c m inner
      | None \<Rightarrow> internal_err msg e)"

section \<open>Settings and policy\<close>

definition validate_call_settings :: "call_type \<Rightarrow> call_settings \<Rightarrow> error option" where
  "validate_call_settings ty se =
     (if ty \<notin> set [CallTypeOneToOne, CallTypeGroup, CallTypeMeeting, CallTypeWebinar, CallTypeSelector]
      then Some (invalid_input ''invalid call type'')
      else if se_max_participants se < 0 then Some (invalid_input ''max_participants cannot be negative'')
      else None)"

definition is_webinar :: "call_type \<Rightarrow> bool" where
  "is_webinar ty \<longleftrightarrow> ty = CallTypeWebinar \<or> ty = CallTypeSelector"

definition default_participant_cap :: "media_config \<Rightarrow> call_type \<Rightarrow> int" where
  "default_participant_cap mc ty =
     (case ty of
        CallTypeOneToOne \<Rightarrow> 2
      | CallTypeGroup \<Rightarrow> 32
      | CallTypeMeeting \<Rightarrow> 500
      | CallTypeWebinar \<Rightarrow> mc_max_viewers mc
      | CallTypeSelector \<Rightarrow> mc_max_viewers mc
      | CallTypeOther x \<Rightarrow> 500)"

definition call_policy :: "call_service \<Rightarrow> call \<Rightarrow> media_call_policy" where
  "call_policy s c =
     (case sv_control s of
        Some control \<Rightarrow> cp_policy_for_call control c
      | None \<Rightarrow>
          (let mc = sv_media s;
               asked = se_max_participants (ca_settings c);
               cap = (if asked \<le> 0 then default_participant_cap mc (ca_type c) else asked);
               policy = \<lparr>mp_max_participants = cap, mp_max_presenters = mc_max_presenters mc,
                 mp_max_viewers = mc_max_viewers mc, mp_routing = RoutingStickyEdge, mp_fanout = FanoutSingleNode,
                 mp_overflow = OverflowReject, mp_screen_share = ScreenShareBalanced,
                 mp_turn = ''regional_turn_pool'', mp_sticky = True\<rparr> in
           if is_webinar (ca_type c)
           then policy\<lparr>mp_max_presenters := mc_default_webinar_presenters mc, mp_max_viewers := cap,
                  mp_fanout := FanoutRegionalCascade, mp_overflow := OverflowWebinarEdge,
                  mp_screen_share := ScreenShareProtected\<rparr>
           else policy))"

definition effective_participant_cap :: "call_service \<Rightarrow> call \<Rightarrow> int" where
  "effective_participant_cap s c =
     (if mp_max_participants (call_policy s c) > 0 then mp_max_participants (call_policy s c)
      else se_max_participants (ca_settings c))"

definition infer_call_access_mode :: "call_type \<Rightarrow> uuid option \<Rightarrow> call_access_mode" where
  "infer_call_access_mode ty channel =
     (case ty of
        CallTypeOneToOne \<Rightarrow> CallAccessModeDM
      | CallTypeGroup \<Rightarrow> CallAccessModeDM
      | CallTypeWebinar \<Rightarrow> CallAccessModeWebinar
      | CallTypeSelector \<Rightarrow> CallAccessModeWebinar
      | _ \<Rightarrow> if channel \<noteq> None then CallAccessModeChannel else CallAccessModeLink)"

definition room_options_for :: "call_service \<Rightarrow> call \<Rightarrow> room_options" where
  "room_options_for s c =
     (let mc = sv_media s; p = call_policy s c;
          presenters = (if mp_max_presenters p \<le> 0 then default_max_presenters else mp_max_presenters p);
          presenters' = (if mc_max_presenters mc > 0 \<and> presenters > mc_max_presenters mc
                         then mc_max_presenters mc else presenters);
          viewers = (if mc_max_viewers mc > 0 \<and> (mp_max_viewers p = 0 \<or> mp_max_viewers p > mc_max_viewers mc)
                     then mc_max_viewers mc else mp_max_viewers p) in
      \<lparr>ro_presenters = presenters', ro_viewers = viewers, ro_tracks = mc_max_tracks mc, ro_simulcast = True,
       ro_recording = se_recording (ca_settings c), ro_adaptive = mc_adaptive mc\<rparr>)"

definition ensure_media_placement :: "call_service \<Rightarrow> call \<Rightarrow> string option result" where
  "ensure_media_placement s c =
     (case sv_control s of
        None \<Rightarrow> Ok None
      | Some control \<Rightarrow> result_bind (cp_ensure_placement control c (room_options_for s c)) (\<lambda>node. Ok (Some node)))"

definition should_serve_placement_locally :: "call_service \<Rightarrow> string option \<Rightarrow> bool" where
  "should_serve_placement_locally s placement =
     (case (placement, sv_control s) of
        (Some node, Some control) \<Rightarrow> cp_is_local_node control node
      | _ \<Rightarrow> True)"

end
