(* ===== verification/Calls.thy ===== *)
theory Calls
  imports CallService
begin

text \<open>
  The operations of the call service, \<open>internal/service/call/service.go\<close>: starting, joining, the waiting
  room, leaving and ending, media state, roles, removal, settings, quality and signalling. The program
  runs with a transaction manager (\<open>sv_tx\<close>); the branches without one are modelled too. The media
  server and the breakout repository are always present, as in \<open>cmd/server/main.go\<close>.
\<close>

section \<open>Media rooms\<close>

definition breakout_sfu_room_id :: "call_service \<Rightarrow> uuid \<Rightarrow> uuid \<Rightarrow> string" where
  "breakout_sfu_room_id s i room = sv_uuid_text s i @ '':breakout:'' @ sv_uuid_text s room"

definition close_sfu_room :: "string \<Rightarrow> unit step" where
  "close_sfu_room name = with_sfu (\<lambda>x. fst (close_room name x))"

fun close_breakout_sfu_loop :: "call_service \<Rightarrow> uuid \<Rightarrow> breakout_room list \<Rightarrow> unit step" where
  "close_breakout_sfu_loop s i [] = return ()"
| "close_breakout_sfu_loop s i (r # rs) =
     (if br_status r \<noteq> BreakoutActive then close_breakout_sfu_loop s i rs
      else and_then (close_sfu_room (breakout_sfu_room_id s i (br_id r))) (\<lambda>_. close_breakout_sfu_loop s i rs))"

definition close_all_breakout_sfu_rooms :: "call_service \<Rightarrow> uuid \<Rightarrow> unit step" where
  "close_all_breakout_sfu_rooms s i =
     ignore_err (and_then (from_read (\<lambda>w. pg_list_breakouts (cw_tables w) i)) (\<lambda>rooms.
       and_then (close_breakout_sfu_loop s i rooms) (\<lambda>_.
       and_then clock (\<lambda>now. statement (pg_close_all_breakouts i now)))))"

section \<open>Starting\<close>

definition add_participant_with_optional_capacity ::
  "call_participant \<Rightarrow> int \<Rightarrow> call_tables \<Rightarrow> call_tables \<times> error option" where
  "add_participant_with_optional_capacity p cap t =
     (if cap > 0 then
        (case pg_add_participant_if_capacity p cap t of
           (t', Some e) \<Rightarrow>
             (t', Some (if app_code e = Some CodeForbidden
                        then conflict ''call has reached maximum participant capacity'' else e))
         | (t', None) \<Rightarrow> (t', None))
      else pg_add_participant p t)"

definition linked_channel_check :: "call_service \<Rightarrow> uuid \<Rightarrow> uuid \<Rightarrow> uuid option \<Rightarrow> call_world \<Rightarrow> error option" where
  "linked_channel_check s workspace user channel w =
     (case channel of
        None \<Rightarrow> None
      | Some chid \<Rightarrow>
          (case cx_get_channel (access_of s w) chid of
             Err e \<Rightarrow> Some (missing_or (not_found ''channel not found'') ''failed to get channel'' e)
           | Ok ch \<Rightarrow>
               if ch_workspace ch \<noteq> workspace then Some (not_found ''channel not found'')
               else require_channel_access (access_of s w) ch user))"

definition meeting_channel_for :: "call_service \<Rightarrow> uuid \<Rightarrow> uuid \<Rightarrow> uuid \<Rightarrow> uuid \<Rightarrow> instant \<Rightarrow> channel" where
  "meeting_channel_for s i workspace user call_id now =
     \<lparr>ch_id = i, ch_workspace = workspace, ch_name = ''meeting-'' @ sv_uuid_text s call_id,
      ch_topic = ''Hidden meeting chat thread'', ch_type = ChMeeting, ch_created_by = user,
      ch_archived = False, ch_created_at = now, ch_updated_at = now\<rparr>"

definition new_call ::
  "uuid \<Rightarrow> uuid \<Rightarrow> uuid \<Rightarrow> call_type \<Rightarrow> string \<Rightarrow> uuid option \<Rightarrow> uuid \<Rightarrow> call_settings \<Rightarrow> instant \<Rightarrow> call" where
  "new_call i workspace user ty title channel meeting settings now =
     \<lparr>ca_id = i, ca_workspace = workspace, ca_channel = channel, ca_meeting_channel = Some meeting, ca_type = ty,
      ca_access_mode = infer_call_access_mode ty channel, ca_status = CallStatusRinging, ca_title = title,
      ca_created_by = user, ca_settings = settings, ca_started_at = Some now, ca_ended_at = None,
      ca_created_at = now\<rparr>"

definition new_participant :: "uuid \<Rightarrow> uuid \<Rightarrow> uuid \<Rightarrow> call_role \<Rightarrow> participant_status \<Rightarrow> bool \<Rightarrow> instant \<Rightarrow> call_participant" where
  "new_participant i call_id user role status muted now =
     \<lparr>pa_id = i, pa_call = call_id, pa_principal = PrincipalEmpty, pa_user = user, pa_guest = None, pa_name = [],
      pa_breakout = None, pa_role = role, pa_status = status, pa_audio_muted = muted, pa_video_muted = False,
      pa_screen_sharing = False, pa_joined_at = Some now, pa_left_at = None\<rparr>"

definition meeting_owner :: "uuid \<Rightarrow> uuid \<Rightarrow> uuid \<Rightarrow> instant \<Rightarrow> channel_member" where
  "meeting_owner i channel user now =
     \<lparr>cm_id = i, cm_channel = channel, cm_user = user, cm_role = ChRoleOwner, cm_muted_until = None,
      cm_last_read_at = now, cm_joined_at = now\<rparr>"

definition store_call :: "call_service \<Rightarrow> channel \<Rightarrow> channel_member \<Rightarrow> call \<Rightarrow> call_participant \<Rightarrow> unit step" where
  "store_call s ch owner c host =
     (if sv_tx s then
        map_err (internal_err ''failed to create call'') (within_tx
          (and_then (db_statement (\<lambda>d. pg_create_channel d ch)) (\<lambda>_.
           and_then (db_statement (\<lambda>d. pg_add_channel_member d owner)) (\<lambda>_.
           and_then (statement (pg_create_call c)) (\<lambda>_.
           and_then (statement (add_participant_with_optional_capacity host (effective_participant_cap s c))) (\<lambda>_.
           enqueue_call_event_tx s TypeCallStarted c (ca_created_by c)))))))
      else
        and_then (map_err (internal_err ''failed to create meeting chat'') (db_statement (\<lambda>d. pg_create_channel d ch))) (\<lambda>_.
        and_then (map_err (internal_err ''failed to create meeting chat'') (db_statement (\<lambda>d. pg_add_channel_member d owner))) (\<lambda>_.
        and_then (map_err (internal_err ''failed to create call'') (statement (pg_create_call c))) (\<lambda>_.
        and_then (map_err (internal_err ''failed to add host participant'') (statement (pg_add_participant host))) (\<lambda>_.
        publish_call_event s TypeCallStarted c (ca_created_by c))))))"

definition open_call_room :: "call_service \<Rightarrow> call \<Rightarrow> unit step" where
  "open_call_room s c =
     (let placement = (case ensure_media_placement s c of Ok p \<Rightarrow> p | Err e \<Rightarrow> None) in
      if should_serve_placement_locally s placement
      then with_sfu (\<lambda>x. fst (create_room (sv_uuid_text s (ca_id c)) (room_options_for s c) x))
      else return ())"

definition start_call ::
  "call_service \<Rightarrow> uuid \<Rightarrow> uuid \<Rightarrow> call_type \<Rightarrow> string \<Rightarrow> uuid option \<Rightarrow> call_settings \<Rightarrow> call step" where
  "start_call s workspace user ty title channel settings =
     and_then (check (\<lambda>_. validate_call_settings ty settings)) (\<lambda>_.
     and_then (check (\<lambda>w. require_workspace_member (access_of s w) workspace user)) (\<lambda>_.
     and_then (check (linked_channel_check s workspace user channel)) (\<lambda>_.
     and_then new_id (\<lambda>chid. and_then new_id (\<lambda>_. and_then new_id (\<lambda>cid.
     and_then new_id (\<lambda>pid. and_then new_id (\<lambda>mid. and_then clock (\<lambda>now.
       (let c = new_call cid workspace user ty title channel chid settings now in
        and_then (store_call s (meeting_channel_for s chid workspace user cid now) (meeting_owner mid chid user now)
                    c (new_participant pid cid user CallRoleHost ParticipantConnected False now)) (\<lambda>_.
        and_then (open_call_room s c) (\<lambda>_. return c))))))))))))"

section \<open>Joining\<close>

definition existing_participant :: "uuid \<Rightarrow> uuid \<Rightarrow> call_tables \<Rightarrow> call_participant option result" where
  "existing_participant i user t =
     (case pg_get_participant t i user of
        Ok p \<Rightarrow> Ok (Some p)
      | Err e \<Rightarrow> if app_code e = Some CodeNotFound then Ok None
                 else Err (internal_err ''failed to check existing participant'' e))"

definition rejoin_call :: "call_service \<Rightarrow> call \<Rightarrow> call_participant \<Rightarrow> call_participant step" where
  "rejoin_call s c p0 =
     (let p = p0\<lparr>pa_status := ParticipantConnected\<rparr>;
          connect = statement (pg_update_participant_status (pa_id p0) ParticipantConnected) in
      if sv_tx s then
        and_then (map_err (internal_err ''failed to update participant status'')
          (within_tx (and_then connect (\<lambda>_. enqueue_participant_event_tx s TypeCallParticipantJoined c p)))) (\<lambda>_.
        and_then clock (\<lambda>now. return (p\<lparr>pa_joined_at := Some now\<rparr>)))
      else
        and_then (map_err (internal_err ''failed to update participant status'') connect) (\<lambda>_. and_then clock (\<lambda>now.
          (let p' = p\<lparr>pa_joined_at := Some now\<rparr> in
           and_then (publish_participant_event s TypeCallParticipantJoined c p') (\<lambda>_. return p')))))"

definition capacity_check :: "call_service \<Rightarrow> call \<Rightarrow> call_world \<Rightarrow> error option" where
  "capacity_check s c w =
     (let cap = effective_participant_cap s c in
      if cap > 0 then
        (case pg_list_participants (cw_tables w) (ca_id c) of
           Err e \<Rightarrow> Some (internal_err ''failed to check call capacity'' e)
         | Ok ps \<Rightarrow>
             if int (length (filter active_participant ps)) \<ge> cap
             then Some (conflict ''call has reached maximum participant capacity'') else None)
      else None)"

definition joiner_role :: "call \<Rightarrow> call_role" where
  "joiner_role c = (if is_webinar (ca_type c) then CallRoleViewer else CallRoleParticipant)"

definition joiner_status :: "call \<Rightarrow> participant_status" where
  "joiner_status c = (if se_waiting_room (ca_settings c) then ParticipantWaiting else ParticipantConnected)"

definition join_new_tx :: "call_service \<Rightarrow> call \<Rightarrow> call_participant \<Rightarrow> unit step" where
  "join_new_tx s c p =
     (let p' = normalize_participant_principal p in
      map_err (\<lambda>e. if app_code e = Some CodeConflict then e else internal_err ''failed to add participant'' e) (within_tx
        (and_then (statement (pg_add_participant p)) (\<lambda>_.
         if pa_status p = ParticipantWaiting then enqueue_participant_event_tx s TypeWaitingRoomJoined c p'
         else
           and_then (if ca_status c = CallStatusRinging
                     then statement (pg_update_call_status (ca_id c) CallStatusActive) else return ()) (\<lambda>_.
           enqueue_participant_event_tx s TypeCallParticipantJoined c p')))))"

definition join_new_plain :: "call_service \<Rightarrow> call \<Rightarrow> call_participant \<Rightarrow> unit step" where
  "join_new_plain s c p =
     (let p' = normalize_participant_principal p in
      and_then (map_err (\<lambda>e. if app_code e = Some CodeForbidden
                             then conflict ''call has reached maximum participant capacity''
                             else internal_err ''failed to add participant'' e)
        (statement (add_participant_with_optional_capacity p (effective_participant_cap s c)))) (\<lambda>_.
      if pa_status p = ParticipantWaiting then publish_participant_event s TypeWaitingRoomJoined c p'
      else
        and_then (if ca_status c = CallStatusRinging
                  then ignore_err (statement (pg_update_call_status (ca_id c) CallStatusActive)) else return ()) (\<lambda>_.
        publish_participant_event s TypeCallParticipantJoined c p')))"

definition join_new :: "call_service \<Rightarrow> call \<Rightarrow> uuid \<Rightarrow> call_participant step" where
  "join_new s c user =
     and_then (guard (se_locked (ca_settings c)) (forbidden ''call is locked'')) (\<lambda>_.
     and_then (check (capacity_check s c)) (\<lambda>_.
     and_then new_id (\<lambda>pid. and_then clock (\<lambda>now.
       (let p = new_participant pid (ca_id c) user (joiner_role c) (joiner_status c)
                  (se_mute_on_join (ca_settings c)) now in
        and_then (if sv_tx s then join_new_tx s c p else join_new_plain s c p)
          (\<lambda>_. return (normalize_participant_principal p)))))))"

definition join_call :: "call_service \<Rightarrow> uuid \<Rightarrow> uuid \<Rightarrow> uuid \<Rightarrow> call_participant step" where
  "join_call s workspace i user =
     and_then (from_read (require_call_access s workspace i user)) (\<lambda>c.
     and_then (guard (ca_status c = CallStatusEnded) (forbidden ''call has already ended'')) (\<lambda>_.
     and_then (from_read (\<lambda>w. existing_participant i user (cw_tables w))) (\<lambda>existing.
     (case existing of Some p \<Rightarrow> rejoin_call s c p | None \<Rightarrow> join_new s c user))))"

section \<open>The waiting room\<close>

text \<open>The checks a host action starts with: access, then the role.\<close>

definition host_action :: "call_service \<Rightarrow> uuid \<Rightarrow> uuid \<Rightarrow> uuid \<Rightarrow> call step" where
  "host_action s workspace i user =
     and_then (from_read (require_call_access s workspace i user)) (\<lambda>c.
     and_then (check (\<lambda>w. require_host_or_co_host i user (cw_tables w))) (\<lambda>_. return c))"

definition target_participant :: "string \<Rightarrow> uuid \<Rightarrow> participant_target \<Rightarrow> call_participant step" where
  "target_participant msg i target =
     map_err (target_error msg) (from_read (\<lambda>w. get_participant_by_target i target (cw_tables w)))"

definition activate_call :: "call \<Rightarrow> unit step" where
  "activate_call c =
     (if ca_status c = CallStatusRinging
      then map_err (internal_err ''failed to activate call'') (statement (pg_update_call_status (ca_id c) CallStatusActive))
      else return ())"

definition waiting_target :: "uuid \<Rightarrow> participant_target \<Rightarrow> call_participant step" where
  "waiting_target i target =
     and_then (target_participant ''failed to get participant'' i target) (\<lambda>p.
     and_then (guard (pa_status p \<noteq> ParticipantWaiting) (conflict ''participant is not in the waiting room'')) (\<lambda>_.
     return p))"

definition admit_participant :: "call_service \<Rightarrow> uuid \<Rightarrow> uuid \<Rightarrow> uuid \<Rightarrow> participant_target \<Rightarrow> unit step" where
  "admit_participant s workspace i user target =
     and_then (host_action s workspace i user) (\<lambda>c.
     and_then (waiting_target i target) (\<lambda>p.
     and_then (map_err (internal_err ''failed to admit participant'')
                 (statement (pg_update_participant_status (pa_id p) ParticipantConnected))) (\<lambda>_.
     and_then (publish_participant_event s TypeWaitingRoomAdmitted c (p\<lparr>pa_status := ParticipantConnected\<rparr>)) (\<lambda>_.
     activate_call c))))"

fun admit_loop :: "call_service \<Rightarrow> call \<Rightarrow> call_participant list \<Rightarrow> unit step" where
  "admit_loop s c [] = return ()"
| "admit_loop s c (p # ps) =
     (if pa_status p \<noteq> ParticipantWaiting then admit_loop s c ps
      else and_then (ignore_err
             (and_then (statement (pg_update_participant_status (pa_id p) ParticipantConnected)) (\<lambda>_.
              publish_participant_event s TypeWaitingRoomAdmitted c (p\<lparr>pa_status := ParticipantConnected\<rparr>))))
           (\<lambda>_. admit_loop s c ps))"

definition list_of_call :: "uuid \<Rightarrow> call_participant list step" where
  "list_of_call i =
     map_err (internal_err ''failed to list participants'') (from_read (\<lambda>w. pg_list_participants (cw_tables w) i))"

definition admit_all :: "call_service \<Rightarrow> uuid \<Rightarrow> uuid \<Rightarrow> uuid \<Rightarrow> unit step" where
  "admit_all s workspace i user =
     and_then (host_action s workspace i user) (\<lambda>c.
     and_then (list_of_call i) (\<lambda>ps.
     and_then (admit_loop s c ps) (\<lambda>_. activate_call c)))"

definition reject_participant :: "call_service \<Rightarrow> uuid \<Rightarrow> uuid \<Rightarrow> uuid \<Rightarrow> participant_target \<Rightarrow> unit step" where
  "reject_participant s workspace i user target =
     and_then (host_action s workspace i user) (\<lambda>c.
     and_then (waiting_target i target) (\<lambda>p.
     and_then (map_err (internal_err ''failed to reject participant'') (statement (pg_remove_participant_by_id (pa_id p)))) (\<lambda>_.
     publish_participant_event s TypeWaitingRoomRejected c (p\<lparr>pa_status := ParticipantDisconnected\<rparr>))))"

definition list_waiting :: "call_service \<Rightarrow> uuid \<Rightarrow> uuid \<Rightarrow> uuid \<Rightarrow> call_participant list step" where
  "list_waiting s workspace i user =
     and_then (host_action s workspace i user) (\<lambda>_.
     and_then (list_of_call i) (\<lambda>ps. return (filter (\<lambda>p. pa_status p = ParticipantWaiting) ps)))"

section \<open>Leaving and ending\<close>

definition own_participant :: "error \<Rightarrow> uuid \<Rightarrow> uuid \<Rightarrow> call_participant step" where
  "own_participant missing i user =
     map_err (missing_or missing ''failed to get participant'') (from_read (\<lambda>w. pg_get_participant (cw_tables w) i user))"

definition disconnect :: "call_participant \<Rightarrow> unit step" where
  "disconnect p = statement (pg_update_participant_status (pa_id p) ParticipantDisconnected)"

definition ended :: "call \<Rightarrow> call" where
  "ended c = c\<lparr>ca_status := CallStatusEnded\<rparr>"

definition end_now :: "uuid \<Rightarrow> unit step" where
  "end_now i = and_then clock (\<lambda>now. statement (pg_end_call i now))"

text \<open>Both branches say whether the call ended with the departure.\<close>

definition leave_tx :: "call_service \<Rightarrow> call \<Rightarrow> uuid \<Rightarrow> call_participant \<Rightarrow> bool step" where
  "leave_tx s c user p =
     map_err (internal_err ''failed to update participant status'') (within_tx
       (and_then (disconnect p) (\<lambda>_.
        and_then (enqueue_participant_event_tx s TypeCallParticipantLeft c (p\<lparr>pa_status := ParticipantDisconnected\<rparr>)) (\<lambda>_.
        and_then (from_read (\<lambda>w. pg_list_participants (cw_tables w) (ca_id c))) (\<lambda>ps.
        if \<not> list_ex (\<lambda>q. pa_id q \<noteq> pa_id p \<and> active_participant q) ps \<and> ca_status c \<noteq> CallStatusEnded
        then and_then (end_now (ca_id c)) (\<lambda>_.
             and_then (enqueue_call_event_tx s TypeCallEnded (ended c) user) (\<lambda>_. return True))
        else return False)))))"

definition leave_plain :: "call_service \<Rightarrow> call \<Rightarrow> uuid \<Rightarrow> call_participant \<Rightarrow> bool step" where
  "leave_plain s c user p =
     and_then (map_err (internal_err ''failed to update participant status'') (disconnect p)) (\<lambda>_.
     and_then (publish_participant_event s TypeCallParticipantLeft c (p\<lparr>pa_status := ParticipantDisconnected\<rparr>)) (\<lambda>_.
     and_then (attempt (from_read (\<lambda>w. pg_list_participants (cw_tables w) (ca_id c)))) (\<lambda>listed.
     (case listed of
        None \<Rightarrow> return False
      | Some ps \<Rightarrow>
          if \<not> list_ex active_participant ps \<and> ca_status c \<noteq> CallStatusEnded then
            and_then (attempt (end_now (ca_id c))) (\<lambda>over.
              if over = None then return False
              else and_then (publish_call_event s TypeCallEnded (ended c) user) (\<lambda>_. return True))
          else return False))))"

definition close_call_rooms :: "call_service \<Rightarrow> uuid \<Rightarrow> unit step" where
  "close_call_rooms s i = and_then (close_all_breakout_sfu_rooms s i) (\<lambda>_. close_sfu_room (sv_uuid_text s i))"

definition leave_call :: "call_service \<Rightarrow> uuid \<Rightarrow> uuid \<Rightarrow> uuid \<Rightarrow> unit step" where
  "leave_call s workspace i user =
     and_then (from_read (require_call_access s workspace i user)) (\<lambda>c.
     and_then (own_participant (not_found ''participant not found in this call'') i user) (\<lambda>p.
     and_then (if sv_tx s then leave_tx s c user p else leave_plain s c user p) (\<lambda>auto_ended.
     if auto_ended then close_call_rooms s i else return ())))"

definition end_call :: "call_service \<Rightarrow> uuid \<Rightarrow> uuid \<Rightarrow> uuid \<Rightarrow> unit step" where
  "end_call s workspace i user =
     and_then (from_read (require_call_access s workspace i user)) (\<lambda>c.
     and_then (guard (ca_status c = CallStatusEnded) (conflict ''call has already ended'')) (\<lambda>_.
     and_then (own_participant (forbidden ''user is not a participant in this call'') i user) (\<lambda>p.
     and_then (guard (pa_role p \<noteq> CallRoleHost \<and> pa_role p \<noteq> CallRoleCoHost)
                 (forbidden ''only host or co-host can end a call'')) (\<lambda>_.
     and_then (if sv_tx s
               then map_err (internal_err ''failed to end call'')
                      (within_tx (and_then (end_now i) (\<lambda>_. enqueue_call_event_tx s TypeCallEnded (ended c) user)))
               else and_then (map_err (internal_err ''failed to end call'') (end_now i)) (\<lambda>_.
                      publish_call_event s TypeCallEnded (ended c) user)) (\<lambda>_.
     close_call_rooms s i)))))"

section \<open>Reading\<close>

definition get_call_for_guest :: "uuid \<Rightarrow> uuid \<Rightarrow> uuid \<Rightarrow> call step" where
  "get_call_for_guest workspace i guest =
     from_read (\<lambda>w. result_bind (require_guest_call_access workspace i guest (cw_tables w)) (\<lambda>(c, p). Ok c))"

definition list_active_calls :: "call_service \<Rightarrow> uuid \<Rightarrow> uuid \<Rightarrow> call list step" where
  "list_active_calls s workspace user =
     and_then (check (\<lambda>w. require_workspace_member (access_of s w) workspace user)) (\<lambda>_.
     map_err (internal_err ''failed to list active calls'') (from_read (\<lambda>w. pg_list_active_calls (cw_tables w) workspace)))"

definition get_participants :: "call_service \<Rightarrow> uuid \<Rightarrow> uuid \<Rightarrow> uuid \<Rightarrow> call_participant list step" where
  "get_participants s workspace i user =
     and_then (from_read (require_call_access s workspace i user)) (\<lambda>_. list_of_call i)"

definition get_participants_for_guest :: "uuid \<Rightarrow> uuid \<Rightarrow> uuid \<Rightarrow> call_participant list step" where
  "get_participants_for_guest workspace i guest =
     and_then (from_read (\<lambda>w. require_guest_call_access workspace i guest (cw_tables w))) (\<lambda>_. list_of_call i)"

section \<open>Media state\<close>

definition patched :: "bool option \<Rightarrow> bool \<Rightarrow> bool" where
  "patched patch old = (case patch of None \<Rightarrow> old | Some b \<Rightarrow> b)"

definition screen_share_limit :: "call_service \<Rightarrow> int" where
  "screen_share_limit s = (if mc_max_screen_shares (sv_media s) \<le> 0 then 1 else mc_max_screen_shares (sv_media s))"

definition sharing :: "call_participant \<Rightarrow> bool" where
  "sharing p \<longleftrightarrow> pa_screen_sharing p \<and> pa_status p = ParticipantConnected"

definition check_screen_share_capacity :: "call_service \<Rightarrow> uuid \<Rightarrow> uuid \<Rightarrow> call_world \<Rightarrow> error option" where
  "check_screen_share_capacity s i current w =
     (case pg_list_participants (cw_tables w) i of
        Err e \<Rightarrow> Some (internal_err ''failed to check screen share capacity'' e)
      | Ok ps \<Rightarrow>
          if int (length (filter (\<lambda>p. pa_id p \<noteq> current \<and> sharing p) ps)) \<ge> screen_share_limit s
          then Some (conflict ''screen share limit reached for this call'') else None)"

text \<open>Storing a media state and announcing it.\<close>

definition set_media ::
  "call_service \<Rightarrow> string \<Rightarrow> call \<Rightarrow> call_participant \<Rightarrow> bool \<Rightarrow> bool \<Rightarrow> bool \<Rightarrow> unit step" where
  "set_media s msg c p audio video screen =
     and_then (map_err (internal_err msg) (statement (pg_update_participant_media (pa_id p) audio video screen))) (\<lambda>_.
     publish_participant_event s TypeCallParticipantUpdated c
       (p\<lparr>pa_audio_muted := audio, pa_video_muted := video, pa_screen_sharing := screen\<rparr>))"

definition update_media ::
  "call_service \<Rightarrow> uuid \<Rightarrow> uuid \<Rightarrow> uuid \<Rightarrow> bool option \<Rightarrow> bool option \<Rightarrow> bool option \<Rightarrow> unit step" where
  "update_media s workspace i user audio video screen =
     and_then (from_read (require_call_access s workspace i user)) (\<lambda>c.
     and_then (guard (ca_status c = CallStatusEnded) (forbidden ''call has already ended'')) (\<lambda>_.
     and_then (guard (screen = Some True \<and> \<not> se_screen_sharing (ca_settings c))
                 (forbidden ''screen sharing is disabled for this call'')) (\<lambda>_.
     and_then (own_participant (not_found ''participant not found in this call'') i user) (\<lambda>p.
       (let next_audio = patched audio (pa_audio_muted p);
            next_video = patched video (pa_video_muted p);
            next_screen = patched screen (pa_screen_sharing p) in
        and_then (guard (pa_role p = CallRoleViewer \<and> (\<not> next_audio \<or> \<not> next_video \<or> next_screen))
                    (forbidden ''viewers cannot publish media'')) (\<lambda>_.
        and_then (if screen = Some True \<and> \<not> pa_screen_sharing p
                  then check (check_screen_share_capacity s i (pa_id p)) else return ()) (\<lambda>_.
        set_media s ''failed to update media state'' c p next_audio next_video next_screen)))))))"

section \<open>Host controls\<close>

definition actor_participant :: "uuid \<Rightarrow> uuid \<Rightarrow> call_participant step" where
  "actor_participant i user =
     map_err (missing_or (forbidden ''actor is not a participant'') ''failed to get actor participant'')
       (from_read (\<lambda>w. pg_get_participant (cw_tables w) i user))"

text \<open>What every host control checks first: access, a live call, and who acts.\<close>

definition may_control :: "call_participant \<Rightarrow> bool" where
  "may_control p \<longleftrightarrow> pa_role p = CallRoleHost \<or> pa_role p = CallRoleCoHost"

definition live_call :: "call_service \<Rightarrow> uuid \<Rightarrow> uuid \<Rightarrow> uuid \<Rightarrow> call step" where
  "live_call s workspace i user =
     and_then (from_read (require_call_access s workspace i user)) (\<lambda>c.
     and_then (guard (ca_status c = CallStatusEnded) (forbidden ''call has already ended'')) (\<lambda>_. return c))"

definition controlling_actor :: "uuid \<Rightarrow> uuid \<Rightarrow> string \<Rightarrow> call_participant step" where
  "controlling_actor i user what =
     and_then (actor_participant i user) (\<lambda>a.
     and_then (guard (\<not> may_control a) (forbidden (''only host or co-host can '' @ what))) (\<lambda>_. return a))"

definition validate_assignable_role :: "call_type \<Rightarrow> call_role \<Rightarrow> error option" where
  "validate_assignable_role ty role =
     (if role \<in> set [CallRoleHost, CallRoleCoHost, CallRolePresenter, CallRoleParticipant] then None
      else if role = CallRoleViewer
      then (if \<not> is_webinar ty
            then Some (invalid_input ''viewer role is only valid for webinars and selector calls'') else None)
      else Some (invalid_input ''invalid call role''))"

definition role_change_check :: "call_participant \<Rightarrow> call_participant \<Rightarrow> call_role \<Rightarrow> error option" where
  "role_change_check actor target role =
     (if pa_role target = CallRoleHost \<and> pa_id target \<noteq> pa_id actor
      then Some (forbidden ''host role cannot be changed by another participant'')
      else if pa_role actor = CallRoleCoHost \<and> (role = CallRoleHost \<or> role = CallRoleCoHost)
      then Some (forbidden ''co-hosts cannot assign host or co-host roles'')
      else if pa_id actor = pa_id target \<and> pa_role actor = CallRoleHost \<and> role \<noteq> CallRoleHost
      then Some (forbidden ''host cannot demote themselves'')
      else None)"

definition update_participant_role ::
  "call_service \<Rightarrow> uuid \<Rightarrow> uuid \<Rightarrow> uuid \<Rightarrow> participant_target \<Rightarrow> call_role \<Rightarrow> unit step" where
  "update_participant_role s workspace i actor_user target role =
     and_then (live_call s workspace i actor_user) (\<lambda>c.
     and_then (check (\<lambda>_. validate_assignable_role (ca_type c) role)) (\<lambda>_.
     and_then (controlling_actor i actor_user ''change participant roles'') (\<lambda>actor.
     and_then (target_participant ''failed to get target participant'' i target) (\<lambda>p.
     and_then (check (\<lambda>_. role_change_check actor p role)) (\<lambda>_.
     and_then (map_err (internal_err ''failed to update participant role'')
                 (statement (pg_update_participant_role (pa_id p) role))) (\<lambda>_.
     if role = CallRoleViewer
     then set_media s ''failed to disable viewer media'' c (p\<lparr>pa_role := role\<rparr>) True True False
     else publish_participant_event s TypeCallParticipantUpdated c (p\<lparr>pa_role := role\<rparr>)))))))"

definition mute_patch_check :: "bool option \<Rightarrow> bool option \<Rightarrow> bool option \<Rightarrow> error option" where
  "mute_patch_check audio video screen =
     (if audio = None \<and> video = None \<and> screen = None then Some (invalid_input ''at least one media control is required'')
      else if audio = Some False then Some (invalid_input ''host controls cannot force-unmute participant audio'')
      else if video = Some False then Some (invalid_input ''host controls cannot force-unmute participant video'')
      else if screen = Some True then Some (invalid_input ''host controls cannot start participant screen sharing'')
      else None)"

definition mute_participant ::
  "call_service \<Rightarrow> uuid \<Rightarrow> uuid \<Rightarrow> uuid \<Rightarrow> participant_target \<Rightarrow> bool option \<Rightarrow> bool option \<Rightarrow> bool option \<Rightarrow> unit step" where
  "mute_participant s workspace i actor_user target audio video screen =
     and_then (live_call s workspace i actor_user) (\<lambda>c.
     and_then (controlling_actor i actor_user ''mute participants'') (\<lambda>_.
     and_then (check (\<lambda>_. mute_patch_check audio video screen)) (\<lambda>_.
     and_then (target_participant ''failed to get target participant'' i target) (\<lambda>p.
     set_media s ''failed to update participant media'' c p (patched audio (pa_audio_muted p))
       (patched video (pa_video_muted p)) (patched screen (pa_screen_sharing p))))))"

definition removal_check :: "call_participant \<Rightarrow> call_participant \<Rightarrow> error option" where
  "removal_check actor target =
     (if pa_id target = pa_id actor then Some (forbidden ''use leave call to remove yourself'')
      else if pa_role target = CallRoleHost then Some (forbidden ''host cannot be removed'')
      else if pa_role actor = CallRoleCoHost \<and> pa_role target = CallRoleCoHost
      then Some (forbidden ''co-hosts cannot remove other co-hosts'')
      else None)"

definition remove_call_participant :: "call_service \<Rightarrow> uuid \<Rightarrow> uuid \<Rightarrow> uuid \<Rightarrow> participant_target \<Rightarrow> unit step" where
  "remove_call_participant s workspace i actor_user target =
     and_then (live_call s workspace i actor_user) (\<lambda>c.
     and_then (controlling_actor i actor_user ''remove participants'') (\<lambda>actor.
     and_then (target_participant ''failed to get target participant'' i target) (\<lambda>p.
     and_then (check (\<lambda>_. removal_check actor p)) (\<lambda>_.
     and_then (map_err (internal_err ''failed to remove participant'') (statement (pg_remove_participant_by_id (pa_id p)))) (\<lambda>_.
     publish_participant_event s TypeCallParticipantLeft c (p\<lparr>pa_status := ParticipantDisconnected\<rparr>))))))"

record settings_patch =
  sp_locked :: "bool option"
  sp_waiting_room :: "bool option"
  sp_mute_on_join :: "bool option"
  sp_screen_sharing :: "bool option"
  sp_chat :: "bool option"
  sp_breakout_rooms :: "bool option"

definition apply_patch :: "settings_patch \<Rightarrow> call_settings \<Rightarrow> call_settings" where
  "apply_patch sp se =
     se\<lparr>se_locked := patched (sp_locked sp) (se_locked se),
        se_waiting_room := patched (sp_waiting_room sp) (se_waiting_room se),
        se_mute_on_join := patched (sp_mute_on_join sp) (se_mute_on_join se),
        se_screen_sharing := patched (sp_screen_sharing sp) (se_screen_sharing se),
        se_chat := patched (sp_chat sp) (se_chat se),
        se_breakout_rooms := patched (sp_breakout_rooms sp) (se_breakout_rooms se)\<rparr>"

definition update_settings :: "call_service \<Rightarrow> uuid \<Rightarrow> uuid \<Rightarrow> uuid \<Rightarrow> settings_patch \<Rightarrow> call step" where
  "update_settings s workspace i actor_user sp =
     and_then (live_call s workspace i actor_user) (\<lambda>c.
     and_then (check (\<lambda>w. require_host_or_co_host i actor_user (cw_tables w))) (\<lambda>_.
       (let settings = apply_patch sp (ca_settings c); c' = c\<lparr>ca_settings := settings\<rparr> in
        and_then (check (\<lambda>_. validate_call_settings (ca_type c) settings)) (\<lambda>_.
        and_then (map_err (internal_err ''failed to update call settings'') (statement (pg_update_call_settings i settings))) (\<lambda>_.
        and_then (publish_call_event s TypeCallUpdated c' actor_user) (\<lambda>_. return c'))))))"

section \<open>Quality and signalling\<close>

definition set_quality :: "call_service \<Rightarrow> rtc \<Rightarrow> uuid \<Rightarrow> uuid \<Rightarrow> uuid \<Rightarrow> string \<Rightarrow> string \<Rightarrow> unit step" where
  "set_quality s g workspace i user stream q =
     and_then (live_call s workspace i user) (\<lambda>_.
     and_then (own_participant (forbidden ''user is not a participant in this call'') i user) (\<lambda>_ w.
     (case get_room (sv_uuid_text s i) (cw_sfu w) of
        None \<Rightarrow> (w, Err (not_found ''media room not found''))
      | Some room \<Rightarrow>
          (case set_subscriber_quality g (sv_uuid_text s user) stream (quality_layer_from_rid q) room of
             (room', e) \<Rightarrow>
               (w\<lparr>cw_sfu := with_room (sv_uuid_text s i) (\<lambda>_. room') (cw_sfu w)\<rparr>,
                case e of None \<Rightarrow> Ok () | Some e \<Rightarrow> Err (internal_err ''failed to set quality'' e))))))"

definition signal_type :: "string \<Rightarrow> event_type result" where
  "signal_type ty =
     (if ty = ''offer'' then Ok TypeSignalOffer
      else if ty = ''answer'' then Ok TypeSignalAnswer
      else if ty = ''candidate'' then Ok TypeSignalCandidate
      else Err (invalid_input (''unknown signal type: '' @ ty)))"

definition forward_signal :: "call_service \<Rightarrow> uuid \<Rightarrow> uuid \<Rightarrow> uuid \<Rightarrow> string \<Rightarrow> string \<Rightarrow> unit step" where
  "forward_signal s i from to ty payload =
     and_then (map_err (missing_or (not_found ''call not found'') ''failed to get call'')
                 (from_read (\<lambda>w. pg_get_call (cw_tables w) i))) (\<lambda>c.
     and_then (guard (ca_status c = CallStatusEnded) (forbidden ''call has already ended'')) (\<lambda>_.
     and_then (map_err (missing_or (forbidden ''sender is not a participant in this call'') ''failed to verify sender'')
                 (from_read (\<lambda>w. pg_get_participant (cw_tables w) i from))) (\<lambda>_.
     and_then (map_err (missing_or (not_found ''recipient is not a participant in this call'') ''failed to verify recipient'')
                 (from_read (\<lambda>w. pg_get_participant (cw_tables w) i to))) (\<lambda>_.
     and_then (from_read (\<lambda>_. signal_type ty)) (\<lambda>evt_type.
     do_publish evt_type (''aloqa.signal.'' @ sv_uuid_text s to) (ca_workspace c) uuid_nil from
       (sv_signal_json s i from to payload))))))"

end
