(* ===== verification/Breakouts.thy ===== *)
theory Breakouts
  imports Calls
begin

text \<open>
  Breakout rooms of a call, \<open>internal/service/call/breakout.go\<close>: creation, joining and returning, closing,
  announcements. A peer's departure from a media room is \<open>Room.remove_peer\<close> under the answers \<open>g\<close> of
  WebRTC.
\<close>

definition breakout_call :: "uuid \<Rightarrow> call step" where
  "breakout_call i = map_err wrap_call_error (from_read (\<lambda>w. pg_get_call (cw_tables w) i))"

definition publish_breakout_event :: "call_service \<Rightarrow> event_type \<Rightarrow> call \<Rightarrow> string \<Rightarrow> unit step" where
  "publish_breakout_event s ty c payload =
     do_publish ty (call_subject s c) (ca_workspace c) (call_channel_id c) (ca_created_by c) payload"

text \<open>The JSON of the breakout payloads is a parameter, like that of the other payloads.\<close>

record breakout_json =
  bj_room :: "uuid \<Rightarrow> breakout_room \<Rightarrow> string"
  bj_moved :: "uuid \<Rightarrow> uuid \<Rightarrow> uuid option \<Rightarrow> string"
  bj_all_closed :: "uuid \<Rightarrow> string"
  bj_broadcast :: "uuid \<Rightarrow> uuid \<Rightarrow> string \<Rightarrow> string"

section \<open>Creating\<close>

record breakout_input =
  bi_name :: string
  bi_time_limit :: "int option"

definition breakout_room_options :: "call \<Rightarrow> room_options" where
  "breakout_room_options c =
     \<lparr>ro_presenters = se_max_participants (ca_settings c), ro_viewers = 0, ro_tracks = 0, ro_simulcast = False,
      ro_recording = False,
      ro_adaptive = zero_options\<rparr>"

definition create_breakout ::
  "call_service \<Rightarrow> breakout_json \<Rightarrow> call \<Rightarrow> uuid \<Rightarrow> instant \<Rightarrow> breakout_input \<Rightarrow> breakout_room step" where
  "create_breakout s j c user now inp =
     and_then (guard (bi_name inp = []) (invalid_input ''breakout room name is required'')) (\<lambda>_.
     and_then new_id (\<lambda>rid.
       (let room = \<lparr>br_id = rid, br_call = ca_id c, br_name = bi_name inp, br_created_by = user,
                    br_time_limit = bi_time_limit inp, br_status = BreakoutActive, br_created_at = now,
                    br_closed_at = None\<rparr> in
        and_then (map_err (internal_err ''failed to create breakout room'') (statement (pg_create_breakout room))) (\<lambda>_.
        and_then (with_sfu (\<lambda>x. fst (create_room (breakout_sfu_room_id s (ca_id c) rid) (breakout_room_options c) x))) (\<lambda>_.
        and_then (publish_breakout_event s TypeBreakoutRoomCreated c (bj_room j (ca_id c) room)) (\<lambda>_.
        return room))))))"

fun create_breakouts_loop ::
  "call_service \<Rightarrow> breakout_json \<Rightarrow> call \<Rightarrow> uuid \<Rightarrow> instant \<Rightarrow> breakout_input list \<Rightarrow> breakout_room list \<Rightarrow> breakout_room list step" where
  "create_breakouts_loop s j c user now [] rooms = return rooms"
| "create_breakouts_loop s j c user now (inp # rest) rooms =
     and_then (create_breakout s j c user now inp) (\<lambda>room. create_breakouts_loop s j c user now rest (rooms @ [room]))"

definition create_breakout_rooms ::
  "call_service \<Rightarrow> breakout_json \<Rightarrow> uuid \<Rightarrow> uuid \<Rightarrow> breakout_input list \<Rightarrow> breakout_room list step" where
  "create_breakout_rooms s j i user inputs =
     and_then (breakout_call i) (\<lambda>c.
     and_then (guard (ca_status c \<noteq> CallStatusActive)
                 (forbidden ''breakout rooms can only be created in an active call'')) (\<lambda>_.
     and_then (guard (\<not> se_breakout_rooms (ca_settings c))
                 (forbidden ''breakout rooms are not enabled for this call'')) (\<lambda>_.
     and_then (check (\<lambda>w. require_host_or_co_host i user (cw_tables w))) (\<lambda>_.
     and_then (guard (length inputs = 0) (invalid_input ''at least one breakout room is required'')) (\<lambda>_.
     and_then clock (\<lambda>now. create_breakouts_loop s j c user now inputs []))))))"

definition list_breakout_rooms :: "uuid \<Rightarrow> breakout_room list step" where
  "list_breakout_rooms i =
     and_then (breakout_call i) (\<lambda>_.
     map_err (internal_err ''failed to list breakout rooms'') (from_read (\<lambda>w. pg_list_breakouts (cw_tables w) i)))"

section \<open>Moving\<close>

definition get_breakout :: "uuid \<Rightarrow> breakout_room step" where
  "get_breakout b =
     map_err (missing_or (not_found ''breakout room not found'') ''failed to get breakout room'')
       (from_read (\<lambda>w. pg_get_breakout (cw_tables w) b))"

definition breakout_of_call :: "uuid \<Rightarrow> uuid \<Rightarrow> breakout_room step" where
  "breakout_of_call i b =
     and_then (get_breakout b) (\<lambda>room.
     and_then (guard (br_call room \<noteq> i) (forbidden ''breakout room does not belong to this call'')) (\<lambda>_. return room))"

definition leave_sfu_room :: "call_service \<Rightarrow> rtc \<Rightarrow> string \<Rightarrow> uuid \<Rightarrow> unit step" where
  "leave_sfu_room s g name user = with_sfu (with_room name (remove_peer g (sv_uuid_text s user)))"

definition join_breakout_room :: "call_service \<Rightarrow> rtc \<Rightarrow> breakout_json \<Rightarrow> uuid \<Rightarrow> uuid \<Rightarrow> uuid \<Rightarrow> unit step" where
  "join_breakout_room s g j i user b =
     and_then (breakout_call i) (\<lambda>c.
     and_then (guard (ca_status c \<noteq> CallStatusActive) (forbidden ''call is not active'')) (\<lambda>_.
     and_then (breakout_of_call i b) (\<lambda>room.
     and_then (guard (br_status room \<noteq> BreakoutActive) (forbidden ''breakout room is closed'')) (\<lambda>_.
     and_then (own_participant (forbidden ''user is not a participant in this call'') i user) (\<lambda>p.
     and_then (guard (pa_status p \<noteq> ParticipantConnected) (forbidden ''participant is not connected'')) (\<lambda>_.
     and_then (leave_sfu_room s g (case pa_breakout p of Some old \<Rightarrow> breakout_sfu_room_id s i old
                                   | None \<Rightarrow> sv_uuid_text s i) user) (\<lambda>_.
     and_then (map_err (internal_err ''failed to join breakout room'') (statement (pg_assign_participant i user b))) (\<lambda>_.
     publish_breakout_event s TypeBreakoutParticipantMoved c (bj_moved j i user (Some b))))))))))"

definition return_to_main_room :: "call_service \<Rightarrow> rtc \<Rightarrow> breakout_json \<Rightarrow> uuid \<Rightarrow> uuid \<Rightarrow> unit step" where
  "return_to_main_room s g j i user =
     and_then (breakout_call i) (\<lambda>c.
     and_then (own_participant (forbidden ''user is not a participant in this call'') i user) (\<lambda>p.
     (case pa_breakout p of
        None \<Rightarrow> fail (conflict ''participant is already in the main room'')
      | Some old \<Rightarrow>
          and_then (leave_sfu_room s g (breakout_sfu_room_id s i old) user) (\<lambda>_.
          and_then (map_err (internal_err ''failed to return to main room'') (statement (pg_unassign_participant i user))) (\<lambda>_.
          publish_breakout_event s TypeBreakoutParticipantMoved c (bj_moved j i user None))))))"

section \<open>Closing\<close>

definition close_breakout_room :: "call_service \<Rightarrow> breakout_json \<Rightarrow> uuid \<Rightarrow> uuid \<Rightarrow> uuid \<Rightarrow> unit step" where
  "close_breakout_room s j i user b =
     and_then (breakout_call i) (\<lambda>c.
     and_then (check (\<lambda>w. require_host_or_co_host i user (cw_tables w))) (\<lambda>_.
     and_then (breakout_of_call i b) (\<lambda>room.
     and_then (guard (br_status room \<noteq> BreakoutActive) (conflict ''breakout room is already closed'')) (\<lambda>_.
     and_then (ignore_err (statement (pg_unassign_all b))) (\<lambda>_.
     and_then (close_sfu_room (breakout_sfu_room_id s i b)) (\<lambda>_.
     and_then (map_err (internal_err ''failed to close breakout room'')
                 (and_then clock (\<lambda>now. statement (pg_close_breakout b now)))) (\<lambda>_.
     publish_breakout_event s TypeBreakoutRoomClosed c (bj_room j i room))))))))"

fun close_breakouts_loop :: "call_service \<Rightarrow> uuid \<Rightarrow> breakout_room list \<Rightarrow> unit step" where
  "close_breakouts_loop s i [] = return ()"
| "close_breakouts_loop s i (r # rs) =
     (if br_status r \<noteq> BreakoutActive then close_breakouts_loop s i rs
      else
        and_then (ignore_err (statement (pg_unassign_all (br_id r)))) (\<lambda>_.
        and_then (close_sfu_room (breakout_sfu_room_id s i (br_id r))) (\<lambda>_.
        close_breakouts_loop s i rs)))"

definition close_all_breakout_rooms :: "call_service \<Rightarrow> breakout_json \<Rightarrow> uuid \<Rightarrow> uuid \<Rightarrow> unit step" where
  "close_all_breakout_rooms s j i user =
     and_then (breakout_call i) (\<lambda>c.
     and_then (check (\<lambda>w. require_host_or_co_host i user (cw_tables w))) (\<lambda>_.
     and_then (map_err (internal_err ''failed to list breakout rooms'')
                 (from_read (\<lambda>w. pg_list_breakouts (cw_tables w) i))) (\<lambda>rooms.
     and_then (close_breakouts_loop s i rooms) (\<lambda>_.
     and_then (map_err (internal_err ''failed to close all breakout rooms'')
                 (and_then clock (\<lambda>now. statement (pg_close_all_breakouts i now)))) (\<lambda>_.
     publish_breakout_event s TypeBreakoutRoomsAllClosed c (bj_all_closed j i))))))"

section \<open>Announcements and listing\<close>

definition broadcast_to_breakout_rooms :: "call_service \<Rightarrow> breakout_json \<Rightarrow> uuid \<Rightarrow> uuid \<Rightarrow> string \<Rightarrow> unit step" where
  "broadcast_to_breakout_rooms s j i user message =
     and_then (breakout_call i) (\<lambda>c.
     and_then (check (\<lambda>w. require_host_or_co_host i user (cw_tables w))) (\<lambda>_.
     and_then (guard (message = []) (invalid_input ''message is required'')) (\<lambda>_.
     publish_breakout_event s TypeBreakoutBroadcast c (bj_broadcast j i user message))))"

definition list_breakout_room_participants :: "uuid \<Rightarrow> uuid \<Rightarrow> call_participant list step" where
  "list_breakout_room_participants i b =
     and_then (breakout_of_call i b) (\<lambda>_.
     map_err (internal_err ''failed to list participants'')
       (from_read (\<lambda>w. pg_list_breakout_participants (cw_tables w) b)))"

end
