(* ===== verification/CallRuns.thy ===== *)
theory CallRuns
  imports Breakouts
begin

text \<open>
  Reasoning about the steps of the call service: when a composed step succeeds (\<open>run_simps\<close>), what a
  step keeps of the tables (\<open>keeps_rules\<close>), and what each statement does to them.
\<close>

named_theorems keeps_rules \<open>what the building blocks keep\<close>

section \<open>Successful runs\<close>

lemma statement_Ok [run_simps]:
  "statement f w = (w', Ok x) \<longleftrightarrow> (\<exists>t. f (cw_tables w) = (t, None) \<and> w' = w\<lparr>cw_tables := t\<rparr>)"
  by (auto simp: statement_def split: prod.splits option.splits)

lemma db_statement_Ok [run_simps]:
  "db_statement f w = (w', Ok x) \<longleftrightarrow> (\<exists>d. f (cw_db w) = (d, None) \<and> w' = w\<lparr>cw_db := d\<rparr>)"
  by (auto simp: db_statement_def split: prod.splits option.splits)

lemma new_id_Ok [run_simps]:
  "new_id w = (w', r) \<longleftrightarrow> w' = w\<lparr>cw_next_id := cw_next_id w + 1\<rparr> \<and> r = Ok (cw_next_id w)"
  by (auto simp: new_id_def)

lemma with_sfu_Ok [run_simps]: "with_sfu f w = (w', r) \<longleftrightarrow> w' = w\<lparr>cw_sfu := f (cw_sfu w)\<rparr> \<and> r = Ok ()"
  by (auto simp: with_sfu_def)

lemma clock_Ok [run_simps]: "clock w = (w', r) \<longleftrightarrow> w' = w \<and> r = Ok (cw_now w)"
  by (auto simp: clock_def)

lemma within_tx_Ok [run_simps]:
  "within_tx m w = (w', Ok x) \<longleftrightarrow>
     ct_fault (cw_tables w) ''begin transaction'' 0 = None \<and> m w = (w', Ok x) \<and>
     ct_fault (cw_tables w) ''commit transaction'' 0 = None"
  by (simp add: within_tx_def transaction_Ok)

lemma within_tx_Err:
  "within_tx m w = (w', Err e) \<Longrightarrow> w' = w \<or> w' = rolled_back w (fst (m w))"
  unfolding within_tx_def by (rule transaction_Err)

lemma rolled_back_sel [simp]:
  "cw_db (rolled_back w w') = cw_db w" "cw_tables (rolled_back w w') = cw_tables w"
  "ob_rows (cw_outbox (rolled_back w w')) = ob_rows (cw_outbox w)"
  by (simp_all add: rolled_back_def)

section \<open>What every step keeps of the tables\<close>

definition keeps :: "(call_tables \<Rightarrow> bool) \<Rightarrow> 'a step \<Rightarrow> bool" where
  "keeps I m \<longleftrightarrow> (\<forall>w. I (cw_tables w) \<longrightarrow> I (cw_tables (fst (m w))))"

text \<open>A statement that fails changes nothing.\<close>

definition honest :: "(call_tables \<Rightarrow> call_tables \<times> error option) \<Rightarrow> bool" where
  "honest f \<longleftrightarrow> (\<forall>t t' e. f t = (t', Some e) \<longrightarrow> t' = t)"

text \<open>What is known of the value a step went on with is available to the rest.\<close>

lemma keeps_and_then [keeps_rules]:
  assumes "keeps I m" "\<And>x w w'. I (cw_tables w) \<Longrightarrow> m w = (w', Ok x) \<Longrightarrow> keeps I (f x)"
  shows "keeps I (and_then m f)"
  unfolding keeps_def
proof (intro allI impI)
  fix w :: call_world assume i: "I (cw_tables w)"
  have "I (cw_tables (fst (m w)))" using assms(1) i by (simp add: keeps_def)
  then show "I (cw_tables (fst (and_then m f w)))"
    using assms(2)[OF i] by (cases "m w"; cases "snd (m w)") (auto simp: and_then_def keeps_def)
qed

lemma keeps_map_err [keeps_rules]: "keeps I m \<Longrightarrow> keeps I (map_err g m)"
  unfolding keeps_def map_err_def by (auto split: prod.split sum.split)

lemma keeps_ignore_err [keeps_rules]: "keeps I m \<Longrightarrow> keeps I (ignore_err m)"
  by (simp add: keeps_def ignore_err_def)

lemma keeps_attempt [keeps_rules]: "keeps I m \<Longrightarrow> keeps I (attempt m)"
  unfolding keeps_def attempt_def by (auto split: prod.split sum.split)

lemma keeps_within_tx [keeps_rules]: "keeps I m \<Longrightarrow> keeps I (within_tx m)"
  unfolding keeps_def within_tx_def transaction_def by (auto split: prod.split sum.split option.split)

lemma keeps_quiet [keeps_rules]:
  "keeps I (return x)" "keeps I (fail e)" "keeps I (guard b e)" "keeps I (check f)" "keeps I (from_read r)" "keeps I new_id"
  "keeps I (db_statement d)" "keeps I (with_sfu h)" "keeps I clock"
  by (simp_all add: keeps_def return_def fail_def guard_def check_def from_read_def new_id_def db_statement_def
      with_sfu_def clock_def split: prod.split)

lemma keeps_do_publish [keeps_rules]: "keeps I (do_publish ty subject workspace channel user payload)"
  unfolding do_publish_def
  by (rule keeps_and_then[OF keeps_quiet(6)]) (simp add: keeps_def split: sum.split)

lemma keeps_enqueue [keeps_rules]: "keeps I (enqueue_realtime_tx s ty subject workspace channel user payload)"
  unfolding enqueue_realtime_tx_def
  by (rule keeps_and_then[OF keeps_quiet(6)]) (simp add: keeps_def split: sum.split prod.split)

lemma keeps_events [keeps_rules]:
  "keeps I (publish_call_event s ty c user)" "keeps I (publish_participant_event s ty c p)"
  "keeps I (enqueue_call_event_tx s ty c user)" "keeps I (enqueue_participant_event_tx s ty c p)"
  "keeps I (publish_breakout_event s ty c payload)"
  unfolding publish_call_event_def publish_participant_event_def enqueue_call_event_tx_def
    enqueue_participant_event_tx_def publish_breakout_event_def
  by (intro keeps_rules)+

lemma keeps_statement:
  "honest f \<Longrightarrow> (\<And>t t'. I t \<Longrightarrow> f t = (t', None) \<Longrightarrow> I t') \<Longrightarrow> keeps I (statement f)"
  unfolding keeps_def honest_def statement_def by (fastforce split: prod.split option.split)

lemma keeps_if: "(b \<Longrightarrow> keeps I m) \<Longrightarrow> (\<not> b \<Longrightarrow> keeps I n) \<Longrightarrow> keeps I (if b then m else n)"
  by simp

lemma keeps_run: "keeps I m \<Longrightarrow> I (cw_tables w) \<Longrightarrow> m w = (w', r) \<Longrightarrow> I (cw_tables w')"
  by (metis fst_conv keeps_def)

section \<open>The statements\<close>

lemma update_call_None:
  "update_call what i f t = (t', None) \<Longrightarrow> t' = t\<lparr>ct_calls := update_rows (\<lambda>r. ca_id r = i) f (ct_calls t)\<rparr>"
  by (auto simp: update_call_def split: option.splits)

lemma update_participant_None:
  "update_participant what i f t = (t', None) \<Longrightarrow>
     t' = t\<lparr>ct_participants := update_rows (\<lambda>r. pa_id r = i) f (ct_participants t)\<rparr>"
  by (auto simp: update_participant_def split: option.splits)

lemma delete_participants_None:
  "delete_participants fl msg P t = (t', None) \<Longrightarrow>
     t' = t\<lparr>ct_participants := filter (\<lambda>r. \<not> P r) (ct_participants t)\<rparr>"
  by (auto simp: delete_participants_def split: option.splits)

lemma set_breakout_None:
  "set_breakout fl m1 m2 P b t = (t', None) \<Longrightarrow>
     t' = t\<lparr>ct_participants := update_rows P (\<lambda>r. r\<lparr>pa_breakout := b\<rparr>) (ct_participants t)\<rparr>"
  by (auto simp: set_breakout_def split: option.splits)

definition inserted :: "call_participant \<Rightarrow> call_participant" where
  "inserted p = participant_row (normalize_participant_principal p)"

lemma insert_participant_None:
  "insert_participant p t = (t', None) \<longleftrightarrow>
     principal_check p \<and> \<not> list_ex (participant_clash p) (ct_participants t) \<and>
     t' = t\<lparr>ct_participants := ct_participants t @ [p]\<rparr>"
  by (auto simp: insert_participant_def)

lemma add_participant_None:
  "pg_add_participant p t = (t', None) \<Longrightarrow> insert_participant (inserted p) t = (t', None)"
  by (auto simp: pg_add_participant_def inserted_def Let_def split: option.splits prod.splits)

lemma add_if_capacity_None:
  "pg_add_participant_if_capacity p n t = (t', None) \<Longrightarrow>
     insert_participant (inserted p) t = (t', None) \<and> active_count (pa_call p) t < n"
  by (auto simp: pg_add_participant_if_capacity_def inserted_def Let_def normalize_participant_principal_def
      split: option.splits prod.splits if_splits)

lemma add_optional_None:
  "add_participant_with_optional_capacity p n t = (t', None) \<Longrightarrow> insert_participant (inserted p) t = (t', None)"
  using add_if_capacity_None[of p n t t'] add_participant_None[of p t t']
  by (auto simp: add_participant_with_optional_capacity_def split: if_splits prod.splits option.splits)

lemma honest_statements [simp]:
  "honest (pg_create_call c)" "honest (pg_update_call_settings i se)" "honest (pg_update_call_status i st)"
  "honest (pg_end_call i now)" "honest (pg_add_participant p)" "honest (pg_add_participant_if_capacity p n)"
  "honest (add_participant_with_optional_capacity p n)"
  "honest (pg_update_participant_status i ps)" "honest (pg_update_participant_role i role)"
  "honest (pg_update_participant_media i a v sc)" "honest (pg_remove_participant i u)"
  "honest (pg_remove_participant_by_id i)" "honest (pg_create_breakout b)" "honest (pg_close_breakout i now)"
  "honest (pg_close_all_breakouts i now)" "honest (pg_assign_participant i u x)" "honest (pg_unassign_participant i u)"
  "honest (pg_unassign_all x)"
proof -
  have ins: "t' = t" if "insert_participant p t = (t', Some e)" for p t t' e
    using that by (auto simp: insert_participant_def split: if_splits)
  show add: "honest (pg_add_participant p)"
    unfolding honest_def pg_add_participant_def Let_def by (auto split: option.splits prod.splits dest: ins)
  show cap: "honest (pg_add_participant_if_capacity p n)"
    unfolding honest_def pg_add_participant_if_capacity_def Let_def
    by (auto split: option.splits prod.splits if_splits dest: ins)
  show "honest (add_participant_with_optional_capacity p n)"
    using add cap unfolding honest_def add_participant_with_optional_capacity_def
    by (auto split: prod.splits option.splits)
qed (auto simp: honest_def pg_create_call_def pg_update_call_settings_def pg_update_call_status_def pg_end_call_def
    update_call_def pg_update_participant_status_def pg_update_participant_role_def pg_update_participant_media_def
    update_participant_def pg_remove_participant_def pg_remove_participant_by_id_def delete_participants_def
    pg_create_breakout_def pg_close_breakout_def pg_close_all_breakouts_def pg_assign_participant_def
    pg_unassign_participant_def set_breakout_def pg_unassign_all_def Let_def split: option.splits)

text \<open>What a predicate on the tables has to stand for a statement to keep it.\<close>

lemma keeps_create_call:
  "(\<And>t. I t \<Longrightarrow> \<forall>r \<in> set (ct_calls t). ca_id r \<noteq> ca_id c \<Longrightarrow> I (t\<lparr>ct_calls := ct_calls t @ [c]\<rparr>)) \<Longrightarrow>
     keeps I (statement (pg_create_call c))"
  by (rule keeps_statement, simp) (auto simp: pg_create_call_def exec_insert_None list_ex_iff split: option.splits)

lemma keeps_call_settings:
  "(\<And>t. I t \<Longrightarrow> I (t\<lparr>ct_calls := update_rows (\<lambda>r. ca_id r = i) (\<lambda>r. r\<lparr>ca_settings := se\<rparr>) (ct_calls t)\<rparr>)) \<Longrightarrow>
     keeps I (statement (pg_update_call_settings i se))"
  by (rule keeps_statement, simp) (auto simp: pg_update_call_settings_def dest!: update_call_None)

lemma keeps_call_status:
  "(\<And>t. I t \<Longrightarrow> I (t\<lparr>ct_calls := update_rows (\<lambda>r. ca_id r = i) (\<lambda>r. r\<lparr>ca_status := st\<rparr>) (ct_calls t)\<rparr>)) \<Longrightarrow>
     keeps I (statement (pg_update_call_status i st))"
  by (rule keeps_statement, simp) (auto simp: pg_update_call_status_def dest!: update_call_None)

lemma keeps_end_call:
  "(\<And>t. I t \<Longrightarrow> I (t\<lparr>ct_calls := update_rows (\<lambda>r. ca_id r = i) (\<lambda>r. r\<lparr>ca_status := CallStatusEnded, ca_ended_at := Some now\<rparr>) (ct_calls t)\<rparr>)) \<Longrightarrow>
     keeps I (statement (pg_end_call i now))"
  by (rule keeps_statement, simp) (auto simp: pg_end_call_def dest!: update_call_None)

lemma keeps_add_participant:
  "(\<And>t t'. I t \<Longrightarrow> insert_participant (inserted p) t = (t', None) \<Longrightarrow> I t') \<Longrightarrow>
     keeps I (statement (pg_add_participant p))"
  by (rule keeps_statement, simp) (auto dest!: add_participant_None)

lemma keeps_add_optional:
  "(\<And>t t'. I t \<Longrightarrow> insert_participant (inserted p) t = (t', None) \<Longrightarrow> I t') \<Longrightarrow>
     keeps I (statement (add_participant_with_optional_capacity p n))"
  by (rule keeps_statement, simp) (auto dest!: add_optional_None)

lemma keeps_participant_status:
  "(\<And>t. I t \<Longrightarrow> I (t\<lparr>ct_participants := update_rows (\<lambda>r. pa_id r = i) (\<lambda>r. r\<lparr>pa_status := st\<rparr>) (ct_participants t)\<rparr>)) \<Longrightarrow>
     keeps I (statement (pg_update_participant_status i st))"
  by (rule keeps_statement, simp) (auto simp: pg_update_participant_status_def dest!: update_participant_None)

lemma keeps_participant_role:
  "(\<And>t. I t \<Longrightarrow> I (t\<lparr>ct_participants := update_rows (\<lambda>r. pa_id r = i) (\<lambda>r. r\<lparr>pa_role := role\<rparr>) (ct_participants t)\<rparr>)) \<Longrightarrow>
     keeps I (statement (pg_update_participant_role i role))"
  by (rule keeps_statement, simp) (auto simp: pg_update_participant_role_def dest!: update_participant_None)

lemma keeps_participant_media:
  "(\<And>t. I t \<Longrightarrow> I (t\<lparr>ct_participants := update_rows (\<lambda>r. pa_id r = i) (\<lambda>r. r\<lparr>pa_audio_muted := a, pa_video_muted := v, pa_screen_sharing := sc\<rparr>) (ct_participants t)\<rparr>)) \<Longrightarrow>
     keeps I (statement (pg_update_participant_media i a v sc))"
  by (rule keeps_statement, simp) (auto simp: pg_update_participant_media_def dest!: update_participant_None)

lemma keeps_remove_participant:
  "(\<And>t. I t \<Longrightarrow> I (t\<lparr>ct_participants := filter (\<lambda>r. pa_id r \<noteq> i) (ct_participants t)\<rparr>)) \<Longrightarrow>
     keeps I (statement (pg_remove_participant_by_id i))"
  by (rule keeps_statement, simp) (auto simp: pg_remove_participant_by_id_def dest!: delete_participants_None)

lemma keeps_assign:
  "(\<And>t P b. I t \<Longrightarrow> I (t\<lparr>ct_participants := update_rows P (\<lambda>r. r\<lparr>pa_breakout := b\<rparr>) (ct_participants t)\<rparr>)) \<Longrightarrow>
     keeps I (statement (pg_assign_participant i u x))"
  by (rule keeps_statement, simp) (auto simp: pg_assign_participant_def dest!: set_breakout_None)

lemma keeps_unassign:
  "(\<And>t P b. I t \<Longrightarrow> I (t\<lparr>ct_participants := update_rows P (\<lambda>r. r\<lparr>pa_breakout := b\<rparr>) (ct_participants t)\<rparr>)) \<Longrightarrow>
     keeps I (statement (pg_unassign_participant i u))"
  by (rule keeps_statement, simp) (auto simp: pg_unassign_participant_def dest!: set_breakout_None)

lemma keeps_unassign_all:
  "(\<And>t P b. I t \<Longrightarrow> I (t\<lparr>ct_participants := update_rows P (\<lambda>r. r\<lparr>pa_breakout := b\<rparr>) (ct_participants t)\<rparr>)) \<Longrightarrow>
     keeps I (statement (pg_unassign_all x))"
  by (rule keeps_statement, simp) (auto simp: pg_unassign_all_def split: option.splits)

lemma keeps_create_breakout:
  "(\<And>t. I t \<Longrightarrow> \<forall>r \<in> set (ct_breakouts t). br_id r \<noteq> br_id b \<Longrightarrow> I (t\<lparr>ct_breakouts := ct_breakouts t @ [b\<lparr>br_closed_at := None\<rparr>]\<rparr>)) \<Longrightarrow>
     keeps I (statement (pg_create_breakout b))"
  by (rule keeps_statement, simp) (auto simp: pg_create_breakout_def exec_insert_None list_ex_iff split: option.splits)

lemma keeps_close_breakout:
  "(\<And>t P. I t \<Longrightarrow> I (t\<lparr>ct_breakouts := update_rows P (closed_room now) (ct_breakouts t)\<rparr>)) \<Longrightarrow>
     keeps I (statement (pg_close_breakout i now))"
  by (rule keeps_statement, simp) (auto simp: pg_close_breakout_def Let_def split: option.splits)

lemma keeps_close_breakouts:
  "(\<And>t P. I t \<Longrightarrow> I (t\<lparr>ct_breakouts := update_rows P (closed_room now) (ct_breakouts t)\<rparr>)) \<Longrightarrow>
     keeps I (statement (pg_close_all_breakouts i now))"
  by (rule keeps_statement, simp) (auto simp: pg_close_all_breakouts_def split: option.splits)

lemmas keeps_statements =
  keeps_create_call keeps_call_settings keeps_call_status keeps_end_call keeps_add_participant keeps_add_optional
  keeps_participant_status keeps_participant_role keeps_participant_media keeps_remove_participant keeps_assign
  keeps_unassign keeps_unassign_all keeps_create_breakout keeps_close_breakout keeps_close_breakouts

end
