(* ===== verification/CallLaws.thy ===== *)
theory CallLaws
  imports CallRuns
begin

text \<open>
  The contract a predicate on the call tables has to meet to survive the call service, stated over the
  statements under exactly the circumstances the handlers execute them in, and the proof that it then
  survives every handler.
\<close>

lemma get_call_for_workspace_Ok:
  "get_call_for_workspace t workspace i = Ok c \<longleftrightarrow> pg_get_call t i = Ok c \<and> ca_workspace c = workspace"
  by (auto simp: get_call_for_workspace_def split: sum.splits)

lemma require_call_access_Ok:
  "require_call_access s workspace i user w = Ok c \<Longrightarrow>
     pg_get_call (cw_tables w) i = Ok c \<and> ca_workspace c = workspace"
proof -
  assume "require_call_access s workspace i user w = Ok c"
  then obtain x where x: "pg_get_call (cw_tables w) i = Ok x" "ca_workspace x = workspace"
    and "(case ca_channel x of
        Some chid \<Rightarrow>
          (case cx_get_channel (access_of s w) chid of
             Err e \<Rightarrow> Err (internal_err ''failed to get channel'' e)
           | Ok ch \<Rightarrow> (case require_channel_access (access_of s w) ch user of Some e \<Rightarrow> Err e | None \<Rightarrow> Ok x))
      | None \<Rightarrow>
          (case can_access_workspace_content (access_of s w) (ca_workspace x) user of
             Some e \<Rightarrow> Err e | None \<Rightarrow> Ok x)) = Ok c"
    by (auto simp: require_call_access_def result_bind_Ok get_call_for_workspace_Ok)
  then have "x = c" by (cases "ca_channel x") (auto split: option.split_asm sum.split_asm)
  with x show ?thesis by simp
qed

lemma pg_get_call_Ok: "pg_get_call t i = Ok c \<Longrightarrow> c \<in> set (ct_calls t) \<and> ca_id c = i"
  unfolding pg_get_call_def by (rule query_row_member)

lemma pg_get_participant_Ok:
  "pg_get_participant t i u = Ok p \<Longrightarrow> p \<in> set (ct_participants t) \<and> is_user i u p"
  unfolding pg_get_participant_def by (rule query_row_member)

lemma pg_get_guest_participant_Ok:
  "pg_get_guest_participant t i g = Ok p \<Longrightarrow> p \<in> set (ct_participants t) \<and> is_guest i g p"
  unfolding pg_get_guest_participant_def by (rule query_row_member)

lemma get_participant_by_target_Ok:
  "get_participant_by_target i target t = Ok p \<Longrightarrow> p \<in> set (ct_participants t) \<and> pa_call p = i"
proof -
  assume "get_participant_by_target i target t = Ok p"
  then obtain x :: participant_target where "(case pt_principal x of
        PrincipalUser \<Rightarrow> pg_get_participant t i (pt_user x)
      | PrincipalGuest \<Rightarrow> pg_get_guest_participant t i (pt_guest x)
      | _ \<Rightarrow> Err (invalid_input ''invalid participant target type'')) = Ok p"
    by (auto simp: get_participant_by_target_def result_bind_Ok)
  then show ?thesis
    by (cases "pt_principal x") (auto simp: is_user_def is_guest_def dest: pg_get_participant_Ok pg_get_guest_participant_Ok)
qed

text \<open>When the phases of a handler succeed.\<close>

lemma host_action_Ok:
  "host_action s workspace i user w = (w', Ok c) \<Longrightarrow> w' = w \<and> pg_get_call (cw_tables w) i = Ok c"
  by (auto simp: host_action_def run_simps dest: require_call_access_Ok)

lemma live_call_Ok:
  "live_call s workspace i user w = (w', Ok c) \<Longrightarrow>
     w' = w \<and> pg_get_call (cw_tables w) i = Ok c \<and> ca_status c \<noteq> CallStatusEnded"
  by (auto simp: live_call_def run_simps dest: require_call_access_Ok)

lemma own_participant_Ok:
  "own_participant e i user w = (w', Ok p) \<Longrightarrow> w' = w \<and> p \<in> set (ct_participants (cw_tables w)) \<and> is_user i user p"
  by (auto simp: own_participant_def run_simps dest: pg_get_participant_Ok)

lemma controlling_actor_Ok:
  "controlling_actor i user what w = (w', Ok a) \<Longrightarrow>
     w' = w \<and> a \<in> set (ct_participants (cw_tables w)) \<and> is_user i user a \<and> may_control a"
  by (auto simp: controlling_actor_def actor_participant_def run_simps dest: pg_get_participant_Ok)

lemma target_participant_Ok:
  "target_participant msg i target w = (w', Ok p) \<Longrightarrow>
     w' = w \<and> p \<in> set (ct_participants (cw_tables w)) \<and> pa_call p = i"
  by (auto simp: target_participant_def run_simps dest: get_participant_by_target_Ok)

lemma waiting_target_Ok:
  "waiting_target i target w = (w', Ok p) \<Longrightarrow>
     w' = w \<and> p \<in> set (ct_participants (cw_tables w)) \<and> pa_status p = ParticipantWaiting"
  by (auto simp: waiting_target_def run_simps dest: target_participant_Ok)

section \<open>The contract\<close>

locale call_law =
  fixes I :: "call_tables \<Rightarrow> bool"
  assumes settings: "I t \<Longrightarrow> pg_get_call t i = Ok c \<Longrightarrow> ca_status c \<noteq> CallStatusEnded \<Longrightarrow>
      keeps I (statement (pg_update_call_settings i se))"
    and activate: "I t \<Longrightarrow> pg_get_call t i = Ok c \<Longrightarrow> ca_status c = CallStatusRinging \<Longrightarrow>
      keeps I (statement (pg_update_call_status i CallStatusActive))"
    and ending: "I t \<Longrightarrow> pg_get_call t i = Ok c \<Longrightarrow> ca_status c \<noteq> CallStatusEnded \<Longrightarrow>
      keeps I (statement (pg_end_call i now))"
    and joining: "pa_role p \<noteq> CallRoleHost \<Longrightarrow> keeps I (statement (pg_add_participant p))"
      "pa_role p \<noteq> CallRoleHost \<Longrightarrow> keeps I (statement (add_participant_with_optional_capacity p n))"
    and status: "st \<noteq> ParticipantWaiting \<Longrightarrow> keeps I (statement (pg_update_participant_status k st))"
    and media: "keeps I (statement (pg_update_participant_media k a v sc))"
    and removal: "I t \<Longrightarrow> q \<in> set (ct_participants t) \<Longrightarrow> pa_role q \<noteq> CallRoleHost \<or> pa_status q = ParticipantWaiting \<Longrightarrow>
      keeps I (statement (pg_remove_participant_by_id (pa_id q)))"
    and rooms: "keeps I (statement (pg_create_breakout b))" "keeps I (statement (pg_close_breakout k now))"
      "keeps I (statement (pg_close_all_breakouts k now))"
    and moving: "keeps I (statement (pg_assign_participant i u x))" "keeps I (statement (pg_unassign_participant i u))"
      "keeps I (statement (pg_unassign_all x))"
begin

lemma close_loop_kept: "keeps I (close_breakout_sfu_loop s i rs)"
  by (induction rs) (auto simp: close_sfu_room_def intro!: keeps_rules)

lemma close_call_rooms_kept: "keeps I (close_call_rooms s i)"
  unfolding close_call_rooms_def close_all_breakout_sfu_rooms_def close_sfu_room_def
  by (intro keeps_rules close_loop_kept rooms)

lemma activate_kept:
  "I t \<Longrightarrow> pg_get_call t i = Ok c \<Longrightarrow> keeps I (activate_call c)"
  using activate[of t i c] pg_get_call_Ok[of t i c] unfolding activate_call_def by (auto intro!: keeps_rules)

lemma set_media_kept: "keeps I (set_media s msg c p a v sc)"
  unfolding set_media_def by (intro keeps_rules media)

lemma rejoin_kept: "keeps I (rejoin_call s c p)"
  unfolding rejoin_call_def Let_def by (intro keeps_rules keeps_if status) simp_all

lemma joiner_not_host:
  "pa_role (new_participant k i u (joiner_role c) st m now) \<noteq> CallRoleHost"
  by (simp add: new_participant_def joiner_role_def)

lemma join_kept: "keeps I (join_call s workspace i user)"
proof -
  have new: "keeps I (join_new s c user)" if "I t" "pg_get_call t (ca_id c) = Ok c" for t c
  proof -
    have act: "ca_status c = CallStatusRinging \<Longrightarrow> keeps I (statement (pg_update_call_status (ca_id c) CallStatusActive))"
      using activate that by simp
    show ?thesis
      unfolding join_new_def join_new_tx_def join_new_plain_def Let_def
      by (intro keeps_rules keeps_if joining joiner_not_host act)
  qed
  show ?thesis
    unfolding join_call_def
    by (intro keeps_rules; simp only: run_simps)
      (auto intro: rejoin_kept new dest!: require_call_access_Ok dest: pg_get_call_Ok split: option.split)
qed

lemma admit_loop_kept: "keeps I (admit_loop s c ps)"
  by (induction ps) (auto intro!: keeps_rules status)

lemma waiting_room_kept:
  "keeps I (admit_participant s workspace i user target)"
  "keeps I (admit_all s workspace i user)"
  "keeps I (reject_participant s workspace i user target)"
proof -
  have quiet: "keeps I (host_action s workspace i user)" "keeps I (waiting_target i target)" "keeps I (list_of_call i)"
    unfolding host_action_def waiting_target_def target_participant_def list_of_call_def by (intro keeps_rules)+
  show "keeps I (admit_participant s workspace i user target)"
    unfolding admit_participant_def
    by (intro keeps_rules quiet status) (auto dest!: host_action_Ok intro: activate_kept)
  show "keeps I (admit_all s workspace i user)"
    unfolding admit_all_def
    by (intro keeps_rules quiet admit_loop_kept) (auto dest!: host_action_Ok intro: activate_kept)
  show "keeps I (reject_participant s workspace i user target)"
    unfolding reject_participant_def
    by (intro keeps_rules quiet) (auto dest!: waiting_target_Ok intro: removal)
qed

lemma leave_kept: "keeps I (leave_call s workspace i user)"
proof -
  have stop: "keeps I (end_now (ca_id c))" if "I t" "pg_get_call t (ca_id c) = Ok c" "ca_status c \<noteq> CallStatusEnded" for t c
    unfolding end_now_def by (intro keeps_rules ending[OF that])
  have "keeps I (leave_tx s c user p) \<and> keeps I (leave_plain s c user p)"
    if "I t" "pg_get_call t (ca_id c) = Ok c" for t c p
    unfolding leave_tx_def leave_plain_def disconnect_def
    by (intro conjI keeps_rules status; (simp; fail)?)
      (auto intro!: keeps_rules keeps_if stop[OF that] split: option.split)
  then show ?thesis
    unfolding leave_call_def own_participant_def
    by (intro keeps_rules keeps_if close_call_rooms_kept) (auto simp: run_simps dest!: require_call_access_Ok dest: pg_get_call_Ok)
qed

lemma end_kept: "keeps I (end_call s workspace i user)"
  unfolding end_call_def own_participant_def end_now_def
  by (intro keeps_rules keeps_if close_call_rooms_kept)
    (auto simp: run_simps dest!: require_call_access_Ok intro: ending)

lemma media_kept:
  "keeps I (update_media s workspace i user a v sc)"
  "keeps I (mute_participant s workspace i user target a v sc)"
  unfolding update_media_def mute_participant_def own_participant_def live_call_def controlling_actor_def
    actor_participant_def target_participant_def Let_def
  by - (intro keeps_rules keeps_if set_media_kept)+

lemma role_kept:
  assumes "\<And>t a t' q. I t \<Longrightarrow> a \<in> set (ct_participants t) \<Longrightarrow> is_user i user a \<Longrightarrow> may_control a \<Longrightarrow> I t' \<Longrightarrow>
      q \<in> set (ct_participants t') \<Longrightarrow> role_change_check a q role = None \<Longrightarrow>
      keeps I (statement (pg_update_participant_role (pa_id q) role))"
  shows "keeps I (update_participant_role s workspace i user target role)"
proof -
  have quiet: "keeps I (live_call s workspace i user)" "keeps I (controlling_actor i user what)"
    "keeps I (target_participant msg i target)" for what msg
    unfolding live_call_def controlling_actor_def actor_participant_def target_participant_def
    by (intro keeps_rules)+
  show ?thesis
    unfolding update_participant_role_def
    by (intro keeps_rules keeps_if quiet set_media_kept)
      (auto simp: run_simps intro: assms dest!: target_participant_Ok controlling_actor_Ok)
qed

lemma remove_kept: "keeps I (remove_call_participant s workspace i user target)"
proof -
  have quiet: "keeps I (live_call s workspace i user)" "keeps I (controlling_actor i user what)"
    "keeps I (target_participant msg i target)" for what msg
    unfolding live_call_def controlling_actor_def actor_participant_def target_participant_def
    by (intro keeps_rules)+
  show ?thesis
    unfolding remove_call_participant_def
    by (intro keeps_rules quiet)
      (auto simp: run_simps removal_check_def intro: removal dest!: target_participant_Ok split: if_split_asm)
qed

lemma settings_kept: "keeps I (update_settings s workspace i user sp)"
proof -
  have quiet: "keeps I (live_call s workspace i user)"
    unfolding live_call_def by (intro keeps_rules)
  show ?thesis
    unfolding update_settings_def Let_def
    by (intro keeps_rules quiet) (auto dest!: live_call_Ok intro: settings)
qed

lemma quality_kept: "keeps I (set_quality s g workspace i user stream q)"
proof -
  have quiet: "keeps I (live_call s workspace i user)" "keeps I (own_participant e i user)" for e
    unfolding live_call_def own_participant_def by (intro keeps_rules)+
  show ?thesis
    unfolding set_quality_def
    by (intro keeps_rules quiet) (simp add: keeps_def split: option.split prod.split)
qed

lemma signal_kept: "keeps I (forward_signal s i from to ty payload)"
  unfolding forward_signal_def by (intro keeps_rules)

lemma create_loop_kept: "keeps I (create_breakouts_loop s j c user now inputs acc)"
  by (induction inputs arbitrary: acc)
    (auto simp: create_breakout_def Let_def intro!: keeps_rules rooms)

lemma close_breakouts_loop_kept: "keeps I (close_breakouts_loop s i rs)"
  by (induction rs) (auto simp: close_sfu_room_def intro!: keeps_rules moving)

lemma breakouts_kept:
  "keeps I (create_breakout_rooms s j i user inputs)"
  "keeps I (join_breakout_room s g j i user b)"
  "keeps I (return_to_main_room s g j i user)"
  "keeps I (close_breakout_room s j i user b)"
  "keeps I (close_all_breakout_rooms s j i user)"
  "keeps I (broadcast_to_breakout_rooms s j i user m)"
proof -
  have quiet: "keeps I (breakout_call i)" "keeps I (breakout_of_call i b)" "keeps I (own_participant e i user)"
    "keeps I (leave_sfu_room s g name user)" "keeps I (close_sfu_room name)" for e name
    unfolding breakout_call_def breakout_of_call_def get_breakout_def own_participant_def leave_sfu_room_def
      close_sfu_room_def by (intro keeps_rules)+
  show "keeps I (create_breakout_rooms s j i user inputs)"
    unfolding create_breakout_rooms_def by (intro keeps_rules quiet create_loop_kept)
  show "keeps I (join_breakout_room s g j i user b)"
    unfolding join_breakout_room_def by (intro keeps_rules quiet moving)
  show "keeps I (return_to_main_room s g j i user)"
    unfolding return_to_main_room_def
    by (intro keeps_rules quiet) (auto intro!: keeps_rules quiet moving split: option.split)
  show "keeps I (close_breakout_room s j i user b)"
    unfolding close_breakout_room_def by (intro keeps_rules quiet moving rooms)
  show "keeps I (close_all_breakout_rooms s j i user)"
    unfolding close_all_breakout_rooms_def by (intro keeps_rules quiet close_breakouts_loop_kept rooms)
  show "keeps I (broadcast_to_breakout_rooms s j i user m)"
    unfolding broadcast_to_breakout_rooms_def by (intro keeps_rules quiet)
qed

end

text \<open>A predicate that also stands new calls with their host, and every permitted change of role.\<close>

locale full_call_law = call_law +
  assumes founding: "keeps I (statement (pg_create_call c))"
    and hosting: "keeps I (statement (pg_add_participant p))"
      "keeps I (statement (add_participant_with_optional_capacity p n))"
    and assigning: "I t \<Longrightarrow> a \<in> set (ct_participants t) \<Longrightarrow> may_control a \<Longrightarrow> I t' \<Longrightarrow> q \<in> set (ct_participants t') \<Longrightarrow>
      role_change_check a q role = None \<Longrightarrow> keeps I (statement (pg_update_participant_role (pa_id q) role))"
begin

lemma start_kept: "keeps I (start_call s workspace user ty title channel se)"
proof -
  have "keeps I (store_call s ch owner c host)" for ch owner c host
    unfolding store_call_def by (intro keeps_rules keeps_if founding hosting)
  moreover have "keeps I (open_call_room s c)" for c
    unfolding open_call_room_def Let_def by (intro keeps_rules keeps_if)
  ultimately show ?thesis
    unfolding start_call_def Let_def by (intro keeps_rules)
qed

lemma any_role_kept: "keeps I (update_participant_role s workspace i user target role)"
  by (rule role_kept) (rule assigning)

end

end
