(* ===== verification/CallSpec.thy ===== *)
theory CallSpec
  imports CallLaws
begin

text \<open>
  What the call service guarantees: its operations as one type, the well-formedness of its tables along
  every history, and the properties of calls, hosts, the waiting room, departures and media.
\<close>

section \<open>Operations\<close>

datatype call_op =
    OpStart uuid uuid call_type string "uuid option" call_settings
  | OpJoin uuid uuid uuid
  | OpAdmit uuid uuid uuid participant_target
  | OpAdmitAll uuid uuid uuid
  | OpReject uuid uuid uuid participant_target
  | OpLeave uuid uuid uuid
  | OpEnd uuid uuid uuid
  | OpMedia uuid uuid uuid "bool option" "bool option" "bool option"
  | OpRole uuid uuid uuid participant_target call_role
  | OpMute uuid uuid uuid participant_target "bool option" "bool option" "bool option"
  | OpRemove uuid uuid uuid participant_target
  | OpSettings uuid uuid uuid settings_patch
  | OpQuality uuid uuid uuid string string
  | OpSignal uuid uuid uuid string string
  | OpBreakoutsCreate uuid uuid "breakout_input list"
  | OpBreakoutJoin uuid uuid uuid
  | OpBreakoutReturn uuid uuid
  | OpBreakoutClose uuid uuid uuid
  | OpBreakoutsClose uuid uuid
  | OpBreakoutsBroadcast uuid uuid string

text \<open>The answer of an operation without its value.\<close>

definition void :: "'a step \<Rightarrow> unit step" where
  "void m = and_then m (\<lambda>_. return ())"

fun run_op :: "call_service \<Rightarrow> rtc \<Rightarrow> breakout_json \<Rightarrow> call_op \<Rightarrow> unit step" where
  "run_op s g j (OpStart w u ty title ch se) = void (start_call s w u ty title ch se)"
| "run_op s g j (OpJoin w i u) = void (join_call s w i u)"
| "run_op s g j (OpAdmit w i u t) = admit_participant s w i u t"
| "run_op s g j (OpAdmitAll w i u) = admit_all s w i u"
| "run_op s g j (OpReject w i u t) = reject_participant s w i u t"
| "run_op s g j (OpLeave w i u) = leave_call s w i u"
| "run_op s g j (OpEnd w i u) = end_call s w i u"
| "run_op s g j (OpMedia w i u a v sc) = update_media s w i u a v sc"
| "run_op s g j (OpRole w i u t r) = update_participant_role s w i u t r"
| "run_op s g j (OpMute w i u t a v sc) = mute_participant s w i u t a v sc"
| "run_op s g j (OpRemove w i u t) = remove_call_participant s w i u t"
| "run_op s g j (OpSettings w i u sp) = void (update_settings s w i u sp)"
| "run_op s g j (OpQuality w i u st q) = set_quality s g w i u st q"
| "run_op s g j (OpSignal i from to ty payload) = forward_signal s i from to ty payload"
| "run_op s g j (OpBreakoutsCreate i u inputs) = void (create_breakout_rooms s j i u inputs)"
| "run_op s g j (OpBreakoutJoin i u b) = join_breakout_room s g j i u b"
| "run_op s g j (OpBreakoutReturn i u) = return_to_main_room s g j i u"
| "run_op s g j (OpBreakoutClose i u b) = close_breakout_room s j i u b"
| "run_op s g j (OpBreakoutsClose i u) = close_all_breakout_rooms s j i u"
| "run_op s g j (OpBreakoutsBroadcast i u m) = broadcast_to_breakout_rooms s j i u m"

section \<open>Well-formed tables\<close>

definition principal_key :: "call_participant \<Rightarrow> uuid \<times> principal_type \<times> uuid \<times> uuid option" where
  "principal_key p = (pa_call p, pa_principal p, pa_user p, pa_guest p)"

definition tables_ok :: "call_tables \<Rightarrow> bool" where
  "tables_ok t \<longleftrightarrow>
     distinct (map ca_id (ct_calls t)) \<and> distinct (map pa_id (ct_participants t)) \<and>
     distinct (map br_id (ct_breakouts t)) \<and> distinct (map principal_key (ct_participants t)) \<and>
     (\<forall>p \<in> set (ct_participants t). principal_check p)"

lemma tables_ok_insert:
  assumes "tables_ok t" "insert_participant p t = (t', None)" shows "tables_ok t'"
proof -
  have p: "principal_check p" and fresh: "\<forall>r \<in> set (ct_participants t). \<not> participant_clash p r"
    and t': "t' = t\<lparr>ct_participants := ct_participants t @ [p]\<rparr>"
    using assms(2) by (auto simp: insert_participant_None list_ex_iff)
  have "principal_key p \<notin> principal_key ` set (ct_participants t)"
    using p fresh by (auto simp: principal_key_def participant_clash_def principal_check_def)
  moreover have "pa_id p \<notin> pa_id ` set (ct_participants t)"
    using fresh by (auto simp: participant_clash_def)
  ultimately show ?thesis using assms(1) p t' by (simp add: tables_ok_def)
qed

lemma tables_ok_rows:
  assumes "tables_ok t" "\<And>r. pa_id (f r) = pa_id r \<and> principal_key (f r) = principal_key r"
  shows "tables_ok (t\<lparr>ct_participants := update_rows P f (ct_participants t)\<rparr>)"
proof -
  have "principal_check (f r) = principal_check r" for r
    using assms(2)[of r] by (simp add: principal_check_def principal_key_def)
  moreover have "map pa_id (update_rows P f (ct_participants t)) = map pa_id (ct_participants t)"
    "map principal_key (update_rows P f (ct_participants t)) = map principal_key (ct_participants t)"
    using assms(2) by (simp_all add: map_update_rows)
  moreover have "\<forall>p \<in> set (update_rows P f (ct_participants t)). principal_check p"
    using assms(1) \<open>\<And>r. principal_check (f r) = principal_check r\<close> by (auto simp: tables_ok_def update_rows_def)
  ultimately show ?thesis using assms(1) by (simp add: tables_ok_def)
qed

lemma tables_ok_filter:
  "tables_ok t \<Longrightarrow> tables_ok (t\<lparr>ct_participants := filter P (ct_participants t)\<rparr>)"
  by (auto simp: tables_ok_def)

lemma tables_ok_calls:
  "tables_ok t \<Longrightarrow> (\<And>r. ca_id (f r) = ca_id r) \<Longrightarrow> tables_ok (t\<lparr>ct_calls := update_rows P f (ct_calls t)\<rparr>)"
  by (simp add: tables_ok_def map_update_rows)

lemma tables_ok_breakouts:
  "tables_ok t \<Longrightarrow> (\<And>r. br_id (f r) = br_id r) \<Longrightarrow> tables_ok (t\<lparr>ct_breakouts := update_rows P f (ct_breakouts t)\<rparr>)"
  by (simp add: tables_ok_def map_update_rows)

lemma tables_ok_statements [keeps_rules]:
  "keeps tables_ok (statement (pg_create_call c))"
  "keeps tables_ok (statement (pg_update_call_settings i se))"
  "keeps tables_ok (statement (pg_update_call_status i st))"
  "keeps tables_ok (statement (pg_end_call i now))"
  "keeps tables_ok (statement (pg_add_participant p))"
  "keeps tables_ok (statement (add_participant_with_optional_capacity p n))"
  "keeps tables_ok (statement (pg_update_participant_status i ps))"
  "keeps tables_ok (statement (pg_update_participant_role i role))"
  "keeps tables_ok (statement (pg_update_participant_media i a v sc))"
  "keeps tables_ok (statement (pg_remove_participant_by_id i))"
  "keeps tables_ok (statement (pg_create_breakout b))"
  "keeps tables_ok (statement (pg_close_breakout i now))"
  "keeps tables_ok (statement (pg_close_all_breakouts i now))"
  "keeps tables_ok (statement (pg_assign_participant i u x))"
  "keeps tables_ok (statement (pg_unassign_participant i u))"
  "keeps tables_ok (statement (pg_unassign_all x))"
  by - (rule keeps_statements;
      (rule tables_ok_rows tables_ok_filter tables_ok_calls tables_ok_breakouts, assumption, simp add: principal_key_def closed_room_def
       | rule tables_ok_filter, assumption
       | erule tables_ok_insert, assumption
       | auto simp: tables_ok_def; fail))+

interpretation tables: full_call_law tables_ok
  by unfold_locales (rule keeps_rules)+

section \<open>Histories\<close>

text \<open>Between operations anything outside the call tables may change, the outcomes of statements included.\<close>

inductive call_step :: "call_service \<Rightarrow> rtc \<Rightarrow> breakout_json \<Rightarrow> call_world \<Rightarrow> call_world \<Rightarrow> bool" for s g j where
  operation: "call_step s g j w (fst (run_op s g j op w))"
| environment: "ct_calls (cw_tables w') = ct_calls (cw_tables w) \<Longrightarrow>
     ct_participants (cw_tables w') = ct_participants (cw_tables w) \<Longrightarrow>
     ct_breakouts (cw_tables w') = ct_breakouts (cw_tables w) \<Longrightarrow> call_step s g j w w'"

abbreviation call_history :: "call_service \<Rightarrow> rtc \<Rightarrow> breakout_json \<Rightarrow> call_world \<Rightarrow> call_world \<Rightarrow> bool" where
  "call_history s g j \<equiv> (call_step s g j)\<^sup>*\<^sup>*"

context full_call_law begin

lemma void_kept: "keeps I m \<Longrightarrow> keeps I (void m)"
  unfolding void_def by (intro keeps_rules)

lemma op_kept: "keeps I (run_op s g j op)"
  by (cases op) (simp_all add: void_kept start_kept join_kept waiting_room_kept leave_kept end_kept media_kept
      any_role_kept remove_kept settings_kept quality_kept signal_kept breakouts_kept)

lemma history_kept:
  assumes "\<And>t t'. ct_calls t' = ct_calls t \<Longrightarrow> ct_participants t' = ct_participants t \<Longrightarrow>
      ct_breakouts t' = ct_breakouts t \<Longrightarrow> I t \<Longrightarrow> I t'"
  shows "call_history s g j w w' \<Longrightarrow> I (cw_tables w) \<Longrightarrow> I (cw_tables w')"
proof (induction rule: rtranclp_induct)
  case (step w1 w2)
  then have i: "I (cw_tables w1)" by blast
  from step.hyps(2) show ?case
  proof cases
    case (operation op)
    then show ?thesis using op_kept[of s g j op] i by (simp add: keeps_def)
  next
    case environment
    from assms[OF this i] show ?thesis .
  qed
qed

end

section \<open>Ended calls\<close>

definition ended_row :: "call \<Rightarrow> call_tables \<Rightarrow> bool" where
  "ended_row c t \<longleftrightarrow>
     ca_status c = CallStatusEnded \<longrightarrow> c \<in> set (ct_calls t) \<and> distinct (map ca_id (ct_calls t))"

lemma ended_row_read:
  "ended_row c t \<Longrightarrow> pg_get_call t i = Ok c' \<Longrightarrow> ca_status c = CallStatusEnded \<Longrightarrow> i = ca_id c \<Longrightarrow> c' = c"
proof -
  assume a: "ended_row c t" "pg_get_call t i = Ok c'" "ca_status c = CallStatusEnded" "i = ca_id c"
  then have "inj_on ca_id (set (ct_calls t))" "c \<in> set (ct_calls t)" by (simp_all add: ended_row_def distinct_map)
  with pg_get_call_Ok[OF a(2)] a(4) show "c' = c" by (auto dest: inj_onD)
qed

lemma ended_row_update:
  assumes "ended_row c t" "ca_status c = CallStatusEnded \<longrightarrow> i \<noteq> ca_id c" "\<And>r. ca_id (f r) = ca_id r"
  shows "ended_row c (t\<lparr>ct_calls := update_rows (\<lambda>r. ca_id r = i) f (ct_calls t)\<rparr>)"
  using assms by (auto simp: ended_row_def map_update_rows) (force simp: update_rows_def)

lemma ended_row_same: "ct_calls t' = ct_calls t \<Longrightarrow> ended_row c t \<Longrightarrow> ended_row c t'"
  by (simp add: ended_row_def)

interpretation ended: full_call_law "ended_row c" for c
proof unfold_locales
  fix t i c' assume t: "ended_row c t" "pg_get_call t i = Ok c'"
  have other: "ca_status c' \<noteq> CallStatusEnded \<Longrightarrow> ca_status c = CallStatusEnded \<longrightarrow> i \<noteq> ca_id c"
    using ended_row_read[OF t] by auto
  show "keeps (ended_row c) (statement (pg_update_call_settings i se))" if "ca_status c' \<noteq> CallStatusEnded" for se
    by (rule keeps_call_settings, erule ended_row_update[OF _ other[OF that]]) simp
  show "keeps (ended_row c) (statement (pg_update_call_status i CallStatusActive))" if "ca_status c' = CallStatusRinging"
    by (rule keeps_call_status, erule ended_row_update[OF _ other]) (simp_all add: that)
  show "keeps (ended_row c) (statement (pg_end_call i now))" if "ca_status c' \<noteq> CallStatusEnded" for now
    by (rule keeps_end_call, erule ended_row_update[OF _ other[OF that]]) simp
next
  show "keeps (ended_row c) (statement (pg_create_call c'))" for c'
    by (rule keeps_create_call) (auto simp: ended_row_def)
qed (rule keeps_statements, simp add: ended_row_def insert_participant_None,
    (clarsimp simp: ended_row_def insert_participant_None)?)+

section \<open>Hosts\<close>

definition presiding :: "call_participant \<Rightarrow> bool" where
  "presiding p \<longleftrightarrow> pa_role p = CallRoleHost \<and> pa_status p \<noteq> ParticipantWaiting"

definition host_row :: "uuid \<Rightarrow> call_tables \<Rightarrow> bool" where
  "host_row h t \<longleftrightarrow>
     distinct (map pa_id (ct_participants t)) \<and> (\<exists>p \<in> set (ct_participants t). pa_id p = h \<and> presiding p)"

lemma host_row_read:
  "host_row h t \<Longrightarrow> q \<in> set (ct_participants t) \<Longrightarrow> pa_id q = h \<Longrightarrow> presiding q"
  unfolding host_row_def distinct_map by (metis inj_onD)

lemma host_row_update:
  assumes "host_row h t" "\<And>r. pa_id (f r) = pa_id r" "\<And>r. P r \<Longrightarrow> pa_id r = h \<Longrightarrow> presiding r \<Longrightarrow> presiding (f r)"
  shows "host_row h (t\<lparr>ct_participants := update_rows P f (ct_participants t)\<rparr>)"
proof -
  from assms(1) obtain p where p: "p \<in> set (ct_participants t)" "pa_id p = h" "presiding p" by (auto simp: host_row_def)
  let ?p = "if P p then f p else p"
  have "?p \<in> set (update_rows P f (ct_participants t))" using p(1) by (auto simp: update_rows_def)
  moreover have "pa_id ?p = h" "presiding ?p" using p assms(2,3) by auto
  ultimately show ?thesis using assms(1,2) by (auto simp: host_row_def map_update_rows)
qed

lemma host_row_remove: "host_row h t \<Longrightarrow> k \<noteq> h \<Longrightarrow> host_row h (t\<lparr>ct_participants := filter (\<lambda>r. pa_id r \<noteq> k) (ct_participants t)\<rparr>)"
  by (auto simp: host_row_def)

lemma host_row_insert: "host_row h t \<Longrightarrow> insert_participant p t = (t', None) \<Longrightarrow> host_row h t'"
  by (auto simp: host_row_def insert_participant_None participant_clash_def list_ex_iff)

interpretation hosts: full_call_law "host_row h" for h
proof unfold_locales
  show "keeps (host_row h) (statement (pg_update_participant_status k st))" if "st \<noteq> ParticipantWaiting" for k st
    by (rule keeps_participant_status, erule host_row_update) (use that in \<open>simp_all add: presiding_def\<close>)
  show "keeps (host_row h) (statement (pg_update_participant_media k a v sc))" for k a v sc
    by (rule keeps_participant_media, erule host_row_update) (simp_all add: presiding_def)
  show "keeps (host_row h) (statement (pg_remove_participant_by_id (pa_id q)))"
    if "host_row h t" "q \<in> set (ct_participants t)" "pa_role q \<noteq> CallRoleHost \<or> pa_status q = ParticipantWaiting" for t q
    by (rule keeps_remove_participant, erule host_row_remove) (use host_row_read[OF that(1,2)] that(3) in \<open>auto simp: presiding_def\<close>)
  show "keeps (host_row h) (statement (pg_update_participant_role (pa_id q) role))"
    if t: "host_row h t" "a \<in> set (ct_participants t)" "may_control a" and t': "host_row h t'" "q \<in> set (ct_participants t')"
      and ok: "role_change_check a q role = None" for t a t' q role
  proof (rule keeps_participant_role, erule host_row_update)
    fix r assume "pa_id r = pa_id q" "pa_id r = h" "presiding r"
    moreover have "pa_id q = h \<Longrightarrow> role = CallRoleHost"
      using host_row_read[OF t'] host_row_read[OF t(1,2)] ok by (auto simp: role_change_check_def presiding_def split: if_split_asm)
    ultimately show "presiding (r\<lparr>pa_role := role\<rparr>)" by (simp add: presiding_def)
  qed simp
  show "keeps (host_row h) (statement (pg_assign_participant i u x))" for i u x
    by (rule keeps_assign, erule host_row_update) (simp_all add: presiding_def)
  show "keeps (host_row h) (statement (pg_unassign_participant i u))" for i u
    by (rule keeps_unassign, erule host_row_update) (simp_all add: presiding_def)
  show "keeps (host_row h) (statement (pg_unassign_all x))" for x
    by (rule keeps_unassign_all, erule host_row_update) (simp_all add: presiding_def)
qed (rule keeps_statements, (erule (1) host_row_insert | simp add: host_row_def))+

text \<open>No new hosts but those of a set, or of some users.\<close>

definition host_mark :: "call_participant \<Rightarrow> uuid \<times> uuid \<times> principal_type \<times> uuid \<times> uuid option" where
  "host_mark p = (pa_id p, principal_key p)"

definition host_marks :: "call_tables \<Rightarrow> (uuid \<times> uuid \<times> principal_type \<times> uuid \<times> uuid option) set" where
  "host_marks t = host_mark ` {p \<in> set (ct_participants t). pa_role p = CallRoleHost}"

definition hosts_within ::
  "(uuid \<times> uuid \<times> principal_type \<times> uuid \<times> uuid option) set \<Rightarrow> uuid set \<Rightarrow> call_tables \<Rightarrow> bool" where
  "hosts_within H U t \<longleftrightarrow>
     (\<forall>p \<in> set (ct_participants t). pa_role p = CallRoleHost \<longrightarrow> host_mark p \<in> H \<or> pa_user p \<in> U)"

lemma hosts_within_update:
  "hosts_within H U t \<Longrightarrow> (\<And>r. host_mark (f r) = host_mark r \<and> pa_user (f r) = pa_user r) \<Longrightarrow>
   (\<And>r. P r \<Longrightarrow> pa_role (f r) = CallRoleHost \<Longrightarrow> pa_role r = CallRoleHost) \<Longrightarrow>
   hosts_within H U (t\<lparr>ct_participants := update_rows P f (ct_participants t)\<rparr>)"
  by (auto simp: hosts_within_def update_rows_def)

lemma inserted_sel [simp]:
  "pa_role (inserted p) = pa_role p" "pa_id (inserted p) = pa_id p" "pa_call (inserted p) = pa_call p"
  "pa_status (inserted p) = pa_status p"
  by (simp_all add: inserted_def participant_row_def normalize_participant_principal_def Let_def)

interpretation no_new_hosts: call_law "hosts_within H U" for H U
proof unfold_locales
  show "keeps (hosts_within H U) (statement (pg_update_participant_status k st))" for k st
    by (rule keeps_participant_status, erule hosts_within_update) (simp_all add: host_mark_def principal_key_def)
  show "keeps (hosts_within H U) (statement (pg_update_participant_media k a v sc))" for k a v sc
    by (rule keeps_participant_media, erule hosts_within_update) (simp_all add: host_mark_def principal_key_def)
  show "keeps (hosts_within H U) (statement (pg_assign_participant i u x))" for i u x
    by (rule keeps_assign, erule hosts_within_update) (simp_all add: host_mark_def principal_key_def)
  show "keeps (hosts_within H U) (statement (pg_unassign_participant i u))" for i u
    by (rule keeps_unassign, erule hosts_within_update) (simp_all add: host_mark_def principal_key_def)
  show "keeps (hosts_within H U) (statement (pg_unassign_all x))" for x
    by (rule keeps_unassign_all, erule hosts_within_update) (simp_all add: host_mark_def principal_key_def)
qed (rule keeps_statements, auto simp: hosts_within_def insert_participant_None)+

lemma host_insert_kept:
  assumes "pa_user (inserted p) \<in> U"
  shows "keeps (hosts_within H U) (statement (pg_add_participant p))"
    "keeps (hosts_within H U) (statement (add_participant_with_optional_capacity p n))"
  by - (rule keeps_statements, use assms in \<open>auto simp: hosts_within_def insert_participant_None\<close>)+

lemma new_participant_user [simp]: "pa_user (inserted (new_participant k i u role st m now)) = u"
  by (simp add: inserted_def new_participant_def participant_row_def normalize_participant_principal_def
      participant_user_id_value_def Let_def)

lemma start_hosts: "keeps (hosts_within H {u}) (start_call s workspace u ty title channel se)"
proof -
  have "keeps (hosts_within H {u}) (statement (pg_create_call c))" for c
    by (rule keeps_create_call) (simp add: hosts_within_def)
  then have "keeps (hosts_within H {u}) (store_call s ch owner c (new_participant k i u role st m now))"
    for ch owner c k i role st m now
    unfolding store_call_def by (intro keeps_rules keeps_if host_insert_kept) simp_all
  moreover have "keeps (hosts_within H {u}) (open_call_room s c)" for c
    unfolding open_call_room_def Let_def by (intro keeps_rules keeps_if)
  ultimately show ?thesis
    unfolding start_call_def Let_def by (intro keeps_rules)
qed

lemma role_hosts:
  assumes "role = CallRoleHost \<Longrightarrow> \<forall>k g. (k, i, PrincipalUser, u, g) \<notin> H"
  shows "keeps (hosts_within H {}) (update_participant_role s workspace i u target role)"
proof (rule no_new_hosts.role_kept)
  fix t a t' q
  assume a: "hosts_within H {} t" "a \<in> set (ct_participants t)" "is_user i u a" "may_control a"
    and ok: "role_change_check a q role = None"
  have "role \<noteq> CallRoleHost"
  proof
    assume h: "role = CallRoleHost"
    then have "pa_role a = CallRoleHost" using a(4) ok by (auto simp: may_control_def role_change_check_def split: if_split_asm)
    then have "host_mark a \<in> H" using a(1,2) by (auto simp: hosts_within_def)
    then show False using a(3) assms[OF h] by (auto simp: host_mark_def principal_key_def is_user_def)
  qed
  then show "keeps (hosts_within H {}) (statement (pg_update_participant_role (pa_id q) role))"
    by (intro keeps_participant_role, elim hosts_within_update) (simp_all add: host_mark_def principal_key_def)
qed

end
