(* ===== verification/CallProps.thy ===== *)
theory CallProps
  imports CallSpec Relay
begin

text \<open>
  The properties of the call service: well-formed tables, final endings, who presides, what starting,
  joining and leaving do, and who may share media or signal.
\<close>

section \<open>Well-formed histories\<close>

lemma distinct_key_filter:
  assumes "distinct (map key xs)" "\<And>x y. P x \<Longrightarrow> P y \<Longrightarrow> key x = key y"
  shows "length (filter P xs) \<le> 1"
  using assms(1)
proof (induction xs)
  case (Cons a xs)
  have "\<not> P x" if "P a" "x \<in> set xs" for x
  proof
    assume "P x"
    then have "key a = key x" using assms(2) that(1) by blast
    then have "key a \<in> key ` set xs" using that(2) by (metis imageI)
    with Cons.prems show False by simp
  qed
  then have "P a \<Longrightarrow> filter P xs = []" by (simp add: filter_empty_conv)
  with Cons show ?case by simp
qed simp

text \<open>Whatever operations run, in whatever order and with whatever statement failures, the call
  tables stay well-formed: identifiers are unique, every participant is exactly a user or exactly a
  guest, and a call never has two rows for one user or for one guest.\<close>

lemma call_tables_well_formed:
  assumes "call_history s g j w w'" "tables_ok (cw_tables w)"
  shows "tables_ok (cw_tables w') \<and>
    (\<forall>p \<in> set (ct_participants (cw_tables w')). principal_check p) \<and>
    length (filter (is_user i u) (ct_participants (cw_tables w'))) \<le> 1 \<and>
    length (filter (is_guest i v) (ct_participants (cw_tables w'))) \<le> 1"
proof -
  have ok: "tables_ok (cw_tables w')"
    using tables.history_kept[OF _ assms] by (simp add: tables_ok_def)
  let ?ps = "ct_participants (cw_tables w')"
  have check: "\<forall>p \<in> set ?ps. principal_check p" and d: "distinct (map principal_key ?ps)"
    using ok by (simp_all add: tables_ok_def)
  have "length (filter (\<lambda>p. is_user i u p \<and> principal_check p) ?ps) \<le> 1"
    by (rule distinct_key_filter[OF d]) (auto simp: is_user_def principal_check_def principal_key_def)
  moreover have "length (filter (\<lambda>p. is_guest i v p \<and> principal_check p) ?ps) \<le> 1"
    by (rule distinct_key_filter[OF d]) (auto simp: is_guest_def principal_check_def principal_key_def)
  moreover have "filter (\<lambda>p. is_user i u p \<and> principal_check p) ?ps = filter (is_user i u) ?ps"
    "filter (\<lambda>p. is_guest i v p \<and> principal_check p) ?ps = filter (is_guest i v) ?ps"
    using check by (auto intro: filter_cong)
  ultimately show ?thesis using ok check by simp
qed

section \<open>A sample service\<close>

definition sample_service :: call_service where
  "sample_service = \<lparr>sv_access = pg_call_access, sv_tx = True, sv_max_attempts = 8, sv_control = None,
     sv_media = \<lparr>mc_max_presenters = 50, mc_max_viewers = 1000, mc_max_screen_shares = 1, mc_max_tracks = 8,
       mc_default_webinar_presenters = 50, mc_adaptive = zero_options\<rparr>,
     sv_uuid_text = (\<lambda>i. replicate i CHR ''x''), sv_call_json = (\<lambda>_. ''{}''), sv_participant_json = (\<lambda>_ _. ''{}''),
     sv_signal_json = (\<lambda>_ _ _ _. ''{}'')\<rparr>"

definition sample_json :: breakout_json where
  "sample_json = \<lparr>bj_room = (\<lambda>_ _. ''{}''), bj_moved = (\<lambda>_ _ _. ''{}''), bj_all_closed = (\<lambda>_. ''{}''),
     bj_broadcast = (\<lambda>_ _ _. ''{}'')\<rparr>"

text \<open>Users 10 and 11 are members of workspace 1.\<close>

definition sample_world :: call_world where
  "sample_world = \<lparr>cw_db = empty_db\<lparr>db_members :=
       [\<lparr>wm_id = 1, wm_workspace = 1, wm_user = 10, wm_role = RoleMember, wm_joined_at = 0\<rparr>,
        \<lparr>wm_id = 2, wm_workspace = 1, wm_user = 11, wm_role = RoleMember, wm_joined_at = 0\<rparr>]\<rparr>,
     cw_tables = \<lparr>ct_calls = [], ct_participants = [], ct_breakouts = [], ct_fault = (\<lambda>_ _. None)\<rparr>,
     cw_outbox = empty_outbox, cw_published = [], cw_sfu = new_sfu 10, cw_now = second, cw_next_id = 100\<rparr>"

definition plain_settings :: call_settings where
  "plain_settings = \<lparr>se_waiting_room = False, se_mute_on_join = False, se_recording = False, se_screen_sharing = True,
     se_chat = True, se_breakout_rooms = False, se_locked = False, se_max_participants = 0, se_e2ee = False,
     se_watermark = False\<rparr>"

definition run_ops :: "call_op list \<Rightarrow> call_world \<Rightarrow> call_world" where
  "run_ops ops w = fold (\<lambda>op w. fst (run_op sample_service all_ok sample_json op w)) ops w"

text \<open>A meeting: started by user 10 as call 102, then joined by user 11.\<close>

definition started_world :: call_world where
  "started_world = run_ops [OpStart 1 10 CallTypeMeeting ''m'' None plain_settings] sample_world"

definition joined_world :: call_world where
  "joined_world = run_ops [OpJoin 1 102 11] started_world"

lemma run_ops_history: "call_history sample_service all_ok sample_json w (run_ops ops w)"
proof (induction ops arbitrary: w)
  case (Cons op ops)
  have "call_step sample_service all_ok sample_json w (fst (run_op sample_service all_ok sample_json op w))"
    by (rule call_step.operation)
  with Cons[of "fst (run_op sample_service all_ok sample_json op w)"] show ?case by (simp add: run_ops_def)
qed (simp add: run_ops_def)

lemma sample_tables_ok: "tables_ok (cw_tables sample_world)"
  by (simp add: sample_world_def tables_ok_def)

lemma joined_history: "call_history sample_service all_ok sample_json sample_world joined_world"
  unfolding joined_world_def started_world_def using run_ops_history[of sample_world] run_ops_history
  by (meson rtranclp_trans)

lemma joined_tables_ok: "tables_ok (cw_tables joined_world)"
  using tables.history_kept[OF _ joined_history sample_tables_ok] by (simp add: tables_ok_def)

lemma call_tables_well_formed_witness:
  "tables_ok (cw_tables joined_world) \<and> length (ct_participants (cw_tables joined_world)) = 2 \<and>
   length (filter (is_user 102 11) (ct_participants (cw_tables joined_world))) \<le> 1"
proof -
  have "length (ct_participants (cw_tables joined_world)) = 2" by code_simp
  then show ?thesis using call_tables_well_formed[OF joined_history sample_tables_ok] by blast
qed

section \<open>Endings are final\<close>

text \<open>C8: a call that has ended stays as it ended through every later history: the very row remains,
  with its status, end time and settings, and nobody can join the call any more.\<close>

theorem ended_calls_final:
  assumes "call_history s g j w w'" "tables_ok (cw_tables w)"
    and "c \<in> set (ct_calls (cw_tables w))" "ca_status c = CallStatusEnded"
  shows "c \<in> set (ct_calls (cw_tables w')) \<and> (\<nexists>p. snd (join_call s workspace (ca_id c) user w') = Ok p)"
proof -
  have "ended_row c (cw_tables w)" using assms(2,3) by (simp add: ended_row_def tables_ok_def)
  then have e: "ended_row c (cw_tables w')"
    by (rule ended.history_kept[OF _ assms(1), rotated]) (simp add: ended_row_def)
  have "join_call s workspace (ca_id c) user w' \<noteq> (w'', Ok p)" for w'' p
    using ended_row_read[OF e] assms(4) by (auto simp: join_call_def run_simps dest!: require_call_access_Ok)
  then show ?thesis
    using e assms(4) by (cases "join_call s workspace (ca_id c) user w'") (auto simp: ended_row_def)
qed

definition ended_world :: call_world where
  "ended_world = run_ops [OpEnd 1 102 10] joined_world"

theorem ended_calls_final_witness:
  "length (filter (\<lambda>c. ca_status c = CallStatusEnded) (ct_calls (cw_tables ended_world))) = 1 \<and>
   snd (run_op sample_service all_ok sample_json (OpJoin 1 102 11) ended_world) \<noteq> Ok () \<and>
   (\<nexists>p. snd (join_call sample_service 1 102 11 (run_ops [OpLeave 1 102 11] ended_world)) = Ok p)"
proof -
  have n: "length (filter (\<lambda>c. ca_status c = CallStatusEnded) (ct_calls (cw_tables ended_world))) = 1"
    "\<exists>c \<in> set (ct_calls (cw_tables ended_world)). ca_status c = CallStatusEnded"
    "\<forall>c \<in> set (ct_calls (cw_tables ended_world)). ca_id c = 102" by code_simp+
  then obtain c where c: "c \<in> set (ct_calls (cw_tables ended_world))" "ca_status c = CallStatusEnded"
    by blast
  have ok: "tables_ok (cw_tables ended_world)"
    unfolding ended_world_def using tables.history_kept[OF _ run_ops_history joined_tables_ok] by (simp add: tables_ok_def)
  from ended_calls_final[OF run_ops_history[of ended_world "[OpLeave 1 102 11]"] ok c, of 1 11]
  have "\<nexists>p. snd (join_call sample_service 1 102 11 (run_ops [OpLeave 1 102 11] ended_world)) = Ok p"
    using n(3) c(1) by simp
  moreover have "snd (run_op sample_service all_ok sample_json (OpJoin 1 102 11) ended_world) \<noteq> Ok ()" by code_simp
  ultimately show ?thesis using n(1) by blast
qed

section \<open>Who presides\<close>

lemma void_keeps: "keeps I m \<Longrightarrow> keeps I (void m)"
  unfolding void_def by (intro keeps_rules)

lemmas host_free_ops =
  void_keeps no_new_hosts.join_kept no_new_hosts.waiting_room_kept no_new_hosts.leave_kept no_new_hosts.end_kept
  no_new_hosts.media_kept no_new_hosts.remove_kept no_new_hosts.settings_kept no_new_hosts.quality_kept
  no_new_hosts.signal_kept no_new_hosts.breakouts_kept

lemma member_host_mark: "(k, i, PrincipalUser, u, v) \<in> host_marks t \<Longrightarrow>
   \<exists>a \<in> set (ct_participants t). is_user i u a \<and> pa_role a = CallRoleHost"
  by (auto simp: host_marks_def host_mark_def principal_key_def is_user_def)

lemma new_host_origin:
  assumes "keeps (hosts_within (host_marks t) U) m" "cw_tables w = t"
    and "p \<in> set (ct_participants (cw_tables (fst (m w))))" "pa_role p = CallRoleHost"
  shows "(\<exists>q \<in> set (ct_participants t). pa_id q = pa_id p \<and> pa_role q = CallRoleHost) \<or> pa_user p \<in> U"
proof -
  have "hosts_within (host_marks t) U t" by (simp add: hosts_within_def host_marks_def)
  then have "hosts_within (host_marks t) U (cw_tables (fst (m w)))" using assms(1,2) by (simp add: keeps_def)
  then have "host_mark p \<in> host_marks t \<or> pa_user p \<in> U" using assms(3,4) by (simp add: hosts_within_def)
  then show ?thesis by (auto simp: host_marks_def host_mark_def)
qed

text \<open>C7: the host of a call is safe and exclusive: no operation demotes or removes a host who is not in
  the waiting room, and a participant is a host only by having been one, by having started the call, or
  because a participant who is a host gave the role away; co-hosts, members and guests never can.\<close>

theorem host_authority:
  assumes "tables_ok (cw_tables w)" "w' = fst (run_op s g j op w)"
  shows "(\<forall>p \<in> set (ct_participants (cw_tables w)). presiding p \<longrightarrow>
      (\<exists>p' \<in> set (ct_participants (cw_tables w')). pa_id p' = pa_id p \<and> presiding p')) \<and>
    (\<forall>p' \<in> set (ct_participants (cw_tables w')). pa_role p' = CallRoleHost \<longrightarrow>
      (\<exists>p \<in> set (ct_participants (cw_tables w)). pa_id p = pa_id p' \<and> pa_role p = CallRoleHost) \<or>
      (\<exists>k ty title ch se. op = OpStart k (pa_user p') ty title ch se) \<or>
      (\<exists>k i u target. op = OpRole k i u target CallRoleHost \<and>
         (\<exists>a \<in> set (ct_participants (cw_tables w)). is_user i u a \<and> pa_role a = CallRoleHost)))"
proof (intro conjI ballI impI)
  fix p assume "p \<in> set (ct_participants (cw_tables w))" "presiding p"
  then have "host_row (pa_id p) (cw_tables w)" using assms(1) by (auto simp: host_row_def tables_ok_def)
  then have "host_row (pa_id p) (cw_tables w')"
    using hosts.op_kept[of "pa_id p" s g j op] assms(2) by (simp add: keeps_def)
  then show "\<exists>p' \<in> set (ct_participants (cw_tables w')). pa_id p' = pa_id p \<and> presiding p'"
    by (simp add: host_row_def)
next
  fix p' assume p': "p' \<in> set (ct_participants (cw_tables w'))" "pa_role p' = CallRoleHost"
  let ?t = "cw_tables w"
  have by_keeping: "\<exists>p \<in> set (ct_participants ?t). pa_id p = pa_id p' \<and> pa_role p = CallRoleHost"
    if "keeps (hosts_within (host_marks ?t) {}) (run_op s g j op)"
    using new_host_origin[OF that refl, of p'] p' assms(2) by auto
  show "(\<exists>p \<in> set (ct_participants ?t). pa_id p = pa_id p' \<and> pa_role p = CallRoleHost) \<or>
      (\<exists>k ty title ch se. op = OpStart k (pa_user p') ty title ch se) \<or>
      (\<exists>k i u target. op = OpRole k i u target CallRoleHost \<and>
         (\<exists>a \<in> set (ct_participants ?t). is_user i u a \<and> pa_role a = CallRoleHost))"
  proof (cases op)
    case (OpStart k u ty title ch se)
    have "keeps (hosts_within (host_marks ?t) {u}) (run_op s g j op)"
      unfolding OpStart run_op.simps void_def by (intro keeps_rules start_hosts)
    from new_host_origin[OF this refl, of p'] p' assms(2) OpStart show ?thesis by auto
  next
    case (OpRole k i u target role)
    show ?thesis
    proof (cases "role = CallRoleHost \<and> (\<exists>x v. (x, i, PrincipalUser, u, v) \<in> host_marks ?t)")
      case True
      with OpRole show ?thesis by (auto dest: member_host_mark)
    next
      case False
      then have "keeps (hosts_within (host_marks ?t) {}) (run_op s g j op)"
        unfolding OpRole run_op.simps by (intro role_hosts) blast
      with by_keeping show ?thesis by blast
    qed
  qed (rule disjI1, rule by_keeping, simp add: host_free_ops)+
qed

definition user_target :: "uuid \<Rightarrow> participant_target" where
  "user_target u = \<lparr>pt_principal = PrincipalUser, pt_user = u, pt_guest = uuid_nil\<rparr>"

theorem host_authority_witness:
  "\<exists>p' \<in> set (ct_participants (cw_tables (fst (run_op sample_service all_ok sample_json
      (OpRemove 1 102 10 (user_target 11)) joined_world)))). pa_role p' = CallRoleHost \<and> presiding p'"
proof -
  have "\<exists>p \<in> set (ct_participants (cw_tables joined_world)). presiding p" by code_simp
  then obtain p where "p \<in> set (ct_participants (cw_tables joined_world))" "presiding p" by blast
  with host_authority[OF joined_tables_ok refl, of sample_service all_ok sample_json "OpRemove 1 102 10 (user_target 11)"]
  show ?thesis by (auto simp: presiding_def)
qed

section \<open>Starting a call\<close>

lemma enqueue_realtime_Ok:
  assumes "enqueue_realtime_tx s ty subject workspace channel user payload w = (w', Ok x)"
  shows "\<exists>row. ob_rows (cw_outbox w') = ob_rows (cw_outbox w) @ [row] \<and> ev_type (or_body row) = ty \<and>
      ev_subject (or_body row) = subject \<and> ev_payload (or_body row) = payload \<and> or_status row = StPending \<and>
      cw_db w' = cw_db w \<and> cw_tables w' = cw_tables w \<and> cw_sfu w' = cw_sfu w \<and> cw_now w' = cw_now w \<and>
      cw_published w' = cw_published w"
proof -
  obtain evt body d where p: "prepare (cw_next_id w) (cw_now w) subject
        (blank_event ty workspace channel user (cw_now w) payload) = Ok (evt, body, d)"
    and q: "\<exists>b. enqueue evt body (sv_max_attempts s) (cw_outbox w) = (b, None) \<and>
        w' = w\<lparr>cw_next_id := cw_next_id w + 1, cw_outbox := b\<rparr>"
    using assms by (auto simp: enqueue_realtime_tx_def run_simps split: sum.splits prod.splits option.splits)
  from p have "ev_type body = ty" "ev_subject body = subject" "ev_payload body = payload"
    by (auto simp: prepare_Ok blank_event_def)
  moreover from q obtain b where "enqueue evt body (sv_max_attempts s) (cw_outbox w) = (b, None)"
    "w' = w\<lparr>cw_next_id := cw_next_id w + 1, cw_outbox := b\<rparr>" by blast
  ultimately show ?thesis
    using next_statement_rows[of "cw_outbox w"]
    by (auto simp: enqueue_def new_row_def Let_def split: prod.splits option.splits if_splits)
qed

definition untouched :: "call_world \<Rightarrow> call_world \<Rightarrow> bool" where
  "untouched w w' \<longleftrightarrow> cw_tables w' = cw_tables w \<and> cw_db w' = cw_db w \<and>
     ob_rows (cw_outbox w') = ob_rows (cw_outbox w) \<and> cw_published w' = cw_published w \<and> cw_sfu w' = cw_sfu w"

lemma enqueue_published: "cw_published (fst (enqueue_realtime_tx s ty subject workspace channel user payload w)) = cw_published w \<and>
   cw_sfu (fst (enqueue_realtime_tx s ty subject workspace channel user payload w)) = cw_sfu w"
  by (simp add: enqueue_realtime_tx_def and_then_def new_id_def split: sum.split prod.split)

definition silent :: "'a step \<Rightarrow> bool" where
  "silent m \<longleftrightarrow> (\<forall>w. cw_published (fst (m w)) = cw_published w \<and> cw_sfu (fst (m w)) = cw_sfu w)"

lemma silent_rules:
  "silent m \<Longrightarrow> (\<And>x. silent (f x)) \<Longrightarrow> silent (and_then m f)"
  "silent (statement h)" "silent (db_statement d)" "silent (return x)" "silent (enqueue_realtime_tx s ty sb ws ch u pl)"
  "silent (from_read rd)" "silent clock" "silent new_id" "silent (check k)" "silent (guard b e)"
proof -
  assume "silent m" "\<And>x. silent (f x)"
  then show "silent (and_then m f)" unfolding silent_def and_then_def by (auto split: prod.split sum.split) (metis fst_conv)+
qed (simp_all add: silent_def statement_def db_statement_def return_def enqueue_published from_read_def clock_def new_id_def
  check_def guard_def fail_def split: prod.split)

lemma within_tx_Err_untouched:
  assumes "silent m" "within_tx m w = (w', Err e)" shows "untouched w w'"
proof -
  have "cw_published (fst (m w)) = cw_published w" "cw_sfu (fst (m w)) = cw_sfu w" using assms(1) by (simp_all add: silent_def)
  then show ?thesis
    using assms(2) by (auto simp: untouched_def within_tx_def transaction_def rolled_back_def split: option.splits prod.splits sum.splits)
qed

lemma store_call_cases:
  assumes "sv_tx s" "store_call s ch owner c host w = (w', r)"
  shows "case r of
      Err e \<Rightarrow> untouched w w'
    | Ok _ \<Rightarrow> ct_calls (cw_tables w') = ct_calls (cw_tables w) @ [c] \<and>
        ct_participants (cw_tables w') = ct_participants (cw_tables w) @ [inserted host] \<and>
        db_channels (cw_db w') = db_channels (cw_db w) @ [ch] \<and>
        db_channel_members (cw_db w') = db_channel_members (cw_db w) @ [owner] \<and>
        (\<exists>row. ob_rows (cw_outbox w') = ob_rows (cw_outbox w) @ [row] \<and> ev_type (or_body row) = TypeCallStarted)"
proof (cases r)
  case (Inl e)
  with assms obtain e' where "within_tx (and_then (db_statement (\<lambda>d. pg_create_channel d ch)) (\<lambda>_.
           and_then (db_statement (\<lambda>d. pg_add_channel_member d owner)) (\<lambda>_.
           and_then (statement (pg_create_call c)) (\<lambda>_.
           and_then (statement (add_participant_with_optional_capacity host (effective_participant_cap s c))) (\<lambda>_.
           enqueue_call_event_tx s TypeCallStarted c (ca_created_by c)))))) w = (w', Err e')"
    by (auto simp: store_call_def map_err_Err)
  then have "untouched w w'"
    by (rule within_tx_Err_untouched[rotated]) (unfold enqueue_call_event_tx_def, intro silent_rules)
  with Inl show ?thesis by simp
next
  case (Inr x)
  with assms obtain d1 d2 t1 t2 where d: "pg_create_channel (cw_db w) ch = (d1, None)" "pg_add_channel_member d1 owner = (d2, None)"
    and t: "pg_create_call c (cw_tables w) = (t1, None)"
      "add_participant_with_optional_capacity host (effective_participant_cap s c) t1 = (t2, None)"
    and e: "enqueue_call_event_tx s TypeCallStarted c (ca_created_by c) (w\<lparr>cw_db := d2, cw_tables := t2\<rparr>) = (w', Ok x)"
    by (auto simp: store_call_def run_simps)
  have "db_channels d2 = db_channels (cw_db w) @ [ch]" "db_channel_members d2 = db_channel_members (cw_db w) @ [owner]"
    using d by (auto simp: pg_create_channel_def pg_add_channel_member_def split: option.splits)
  moreover have "ct_calls t2 = ct_calls (cw_tables w) @ [c]" "ct_participants t2 = ct_participants (cw_tables w) @ [inserted host]"
    using t(1) add_optional_None[OF t(2)] by (auto simp: pg_create_call_def insert_participant_None split: option.splits)
  moreover note enqueue_realtime_Ok[OF e[unfolded enqueue_call_event_tx_def]]
  ultimately show ?thesis using Inr by auto
qed

text \<open>How a composed step goes on after a step that cannot fail, or fails at once.\<close>

lemma and_then_exec:
  "and_then (check f) g w = (case f w of Some e \<Rightarrow> (w, Err e) | None \<Rightarrow> g () w)"
  "and_then (guard b e) g w = (if b then (w, Err e) else g () w)"
  "and_then new_id h w = h (cw_next_id w) (w\<lparr>cw_next_id := Suc (cw_next_id w)\<rparr>)"
  "and_then clock k w = k (cw_now w) w"
  "and_then (return x) q w = q x w"
  by (simp_all add: and_then_def check_def guard_def new_id_def clock_def return_def fail_def split: option.split)

lemma inserted_new_participant:
  "inserted (new_participant k i u role st m now) = (new_participant k i u role st m now)\<lparr>pa_principal := PrincipalUser\<rparr>"
  by (simp add: inserted_def new_participant_def participant_row_def normalize_participant_principal_def
      participant_user_id_value_def participant_guest_session_id_value_def Let_def)

lemma new_participant_sel [simp]:
  "pa_call (new_participant k i u role st m now) = i" "pa_role (new_participant k i u role st m now) = role"
  "pa_status (new_participant k i u role st m now) = st" "pa_id (new_participant k i u role st m now) = k"
  "pa_audio_muted (new_participant k i u role st m now) = m"
  "pa_principal (inserted (new_participant k i u role st m now)) = PrincipalUser"
  by (simp_all add: inserted_new_participant) (simp_all add: new_participant_def)

text \<open>The run of \<open>start_call\<close> once its checks and identifiers are through.\<close>

definition call_started :: "call_world \<Rightarrow> uuid \<Rightarrow> uuid \<Rightarrow> call_type \<Rightarrow> string \<Rightarrow> uuid option \<Rightarrow> call_settings \<Rightarrow> call" where
  "call_started w workspace user ty title channel settings =
     new_call (Suc (Suc (cw_next_id w))) workspace user ty title channel (cw_next_id w) settings (cw_now w)"

definition storing :: "call_service \<Rightarrow> uuid \<Rightarrow> uuid \<Rightarrow> call \<Rightarrow> call_world \<Rightarrow> call_world \<times> unit result" where
  "storing s workspace user c w =
     store_call s (meeting_channel_for s (cw_next_id w) workspace user (ca_id c) (cw_now w))
       (meeting_owner (Suc (Suc (Suc (Suc (cw_next_id w))))) (cw_next_id w) user (cw_now w)) c
       (new_participant (Suc (Suc (Suc (cw_next_id w)))) (ca_id c) user CallRoleHost ParticipantConnected False (cw_now w))
       (w\<lparr>cw_next_id := Suc (Suc (Suc (Suc (Suc (cw_next_id w)))))\<rparr>)"

lemma start_call_run:
  assumes "c = call_started w workspace user ty title channel settings"
  shows "start_call s workspace user ty title channel settings w =
    (case validate_call_settings ty settings of
       Some e \<Rightarrow> (w, Err e)
     | None \<Rightarrow>
         (case require_workspace_member (access_of s w) workspace user of
            Some e \<Rightarrow> (w, Err e)
          | None \<Rightarrow>
              (case linked_channel_check s workspace user channel w of
                 Some e \<Rightarrow> (w, Err e)
               | None \<Rightarrow>
                   (case storing s workspace user c w of
                      (w1, Err e) \<Rightarrow> (w1, Err e)
                    | (w1, Ok _) \<Rightarrow> (fst (open_call_room s c w1), Ok c)))))"
proof -
  have room: "and_then (open_call_room s c) (\<lambda>_. return c) v = (fst (open_call_room s c v), Ok c)" for v
    by (simp add: open_call_room_def Let_def with_sfu_def return_def and_then_def)
  have ids: "ca_id c = Suc (Suc (cw_next_id w))" by (simp add: assms call_started_def new_call_def)
  have "and_then m (\<lambda>_. and_then (open_call_room s c) (\<lambda>_. return c)) v =
      (case m v of (w1, Err e) \<Rightarrow> (w1, Err e) | (w1, Ok _) \<Rightarrow> (fst (open_call_room s c w1), Ok c))" for m :: "unit step" and v
    by (subst and_then_def) (simp only: room)
  then show ?thesis
    by (simp add: start_call_def and_then_exec Let_def storing_def ids assms[unfolded call_started_def, symmetric]
        split: option.split)
qed

text \<open>C6: starting a call is all or nothing. When it succeeds, exactly one ringing call of the caller's,
  its hidden chat channel with the caller as owner, the caller as connected host and one
  \<open>call.started\<close> event are stored; when it fails, no table, no event and no media room has changed.\<close>

theorem start_call_all_or_nothing:
  assumes "sv_tx s" "start_call s workspace user ty title channel settings w = (w', r)"
  shows "case r of
      Err e \<Rightarrow> untouched w w'
    | Ok c \<Rightarrow> validate_call_settings ty settings = None \<and>
        ca_status c = CallStatusRinging \<and> ca_created_by c = user \<and> ca_workspace c = workspace \<and> ca_settings c = settings \<and>
        ct_calls (cw_tables w') = ct_calls (cw_tables w) @ [c] \<and>
        (\<exists>p ch owner row.
          ct_participants (cw_tables w') = ct_participants (cw_tables w) @ [p] \<and> is_user (ca_id c) user p \<and>
          pa_role p = CallRoleHost \<and> pa_status p = ParticipantConnected \<and>
          db_channels (cw_db w') = db_channels (cw_db w) @ [ch] \<and> ca_meeting_channel c = Some (ch_id ch) \<and>
          ch_type ch = ChMeeting \<and>
          db_channel_members (cw_db w') = db_channel_members (cw_db w) @ [owner] \<and> cm_channel owner = ch_id ch \<and>
          cm_user owner = user \<and> cm_role owner = ChRoleOwner \<and>
          ob_rows (cw_outbox w') = ob_rows (cw_outbox w) @ [row] \<and> ev_type (or_body row) = TypeCallStarted)"
proof -
  let ?c = "call_started w workspace user ty title channel settings"
  have room: "cw_tables (fst (open_call_room s c v)) = cw_tables v" "cw_db (fst (open_call_room s c v)) = cw_db v"
    "cw_outbox (fst (open_call_room s c v)) = cw_outbox v" for c v
    by (simp_all add: open_call_room_def Let_def with_sfu_def return_def)
  obtain w1 st where run: "storing s workspace user ?c w = (w1, st)" by fastforce
  note kept = store_call_cases[OF assms(1) run[unfolded storing_def]]
  show ?thesis
  proof (cases r)
    case (Inl e)
    then have "w' = w \<or> w' = w1 \<and> (\<exists>e'. st = Err e')"
      using assms(2) by (auto simp: start_call_run[OF refl] run split: option.splits sum.splits)
    with kept Inl show ?thesis by (auto simp: untouched_def)
  next
    case (Inr c)
    then have "validate_call_settings ty settings = None" "c = ?c" "st = Ok ()" "w' = fst (open_call_room s ?c w1)"
      using assms(2) by (auto simp: start_call_run[OF refl] run split: option.splits sum.splits)
    with kept Inr show ?thesis
      by (auto simp: room call_started_def new_call_def meeting_channel_for_def meeting_owner_def is_user_def)
  qed
qed

theorem start_call_all_or_nothing_witness:
  "case start_call sample_service 1 10 CallTypeMeeting ''m'' None plain_settings sample_world of
     (w', Err e) \<Rightarrow> False
   | (w', Ok c) \<Rightarrow> ct_calls (cw_tables w') = [c] \<and> ca_created_by c = 10 \<and> ca_status c = CallStatusRinging"
proof -
  let ?run = "start_call sample_service 1 10 CallTypeMeeting ''m'' None plain_settings sample_world"
  have "\<not> isl (snd ?run)" "sv_tx sample_service" "ct_calls (cw_tables sample_world) = []" by code_simp+
  then show ?thesis using start_call_all_or_nothing[of sample_service, OF _ prod.collapse[of ?run, symmetric]]
    by (cases ?run; cases "snd ?run") auto
qed

end
