(* ===== verification/CallEffects.thy ===== *)
theory CallEffects
  imports CallProps
begin

text \<open>
  What the operations of a call do to its tables: joining, leaving, the media state of a participant and
  the signals between participants.
\<close>

section \<open>Joining\<close>

definition announced :: "call_world \<Rightarrow> call_world \<Rightarrow> event_type \<Rightarrow> bool" where
  "announced w w' ty \<longleftrightarrow>
     (\<exists>row. ob_rows (cw_outbox w') = ob_rows (cw_outbox w) @ [row] \<and> ev_type (or_body row) = ty \<and> or_status row = StPending)"

lemma enqueue_participant_announced:
  "enqueue_participant_event_tx s ty c p w = (w', Ok x) \<Longrightarrow>
     announced w w' ty \<and> cw_db w' = cw_db w \<and> cw_tables w' = cw_tables w \<and> cw_sfu w' = cw_sfu w \<and> cw_now w' = cw_now w"
  unfolding enqueue_participant_event_tx_def by (drule enqueue_realtime_Ok) (auto simp: announced_def)

lemma enqueue_call_announced:
  "enqueue_call_event_tx s ty c u w = (w', Ok x) \<Longrightarrow>
     announced w w' ty \<and> cw_db w' = cw_db w \<and> cw_tables w' = cw_tables w \<and> cw_sfu w' = cw_sfu w \<and> cw_now w' = cw_now w"
  unfolding enqueue_call_event_tx_def by (drule enqueue_realtime_Ok) (auto simp: announced_def)

lemma announced_tables [simp]: "announced (w\<lparr>cw_tables := t\<rparr>) w' ty = announced w w' ty"
  "announced (w\<lparr>cw_next_id := n\<rparr>) w' ty = announced w w' ty"
  by (simp_all add: announced_def)

text \<open>The rows of a call after one participant's status, or the call's own, has been set.\<close>

definition with_status :: "uuid \<Rightarrow> participant_status \<Rightarrow> call_participant list \<Rightarrow> call_participant list" where
  "with_status k st = update_rows (\<lambda>r. pa_id r = k) (\<lambda>r. r\<lparr>pa_status := st\<rparr>)"

lemma status_set:
  "statement (pg_update_participant_status k st) w = (w', Ok x) \<Longrightarrow>
     w' = w\<lparr>cw_tables := (cw_tables w)\<lparr>ct_participants := with_status k st (ct_participants (cw_tables w))\<rparr>\<rparr>"
  by (auto simp: run_simps pg_update_participant_status_def with_status_def dest!: update_participant_None)

lemma existing_participant_Some:
  "existing_participant i user t = Ok (Some p) \<Longrightarrow> find (is_user i user) (ct_participants t) = Some p"
  by (auto simp: existing_participant_def pg_get_participant_def query_row_Ok split: sum.splits if_splits)

lemma in_tx:
  "map_err f (within_tx m) w = (w', Ok x) \<Longrightarrow> m w = (w', Ok x)"
  by (simp add: run_simps)

lemma rejoin_run:
  assumes "sv_tx s" "rejoin_call s c p w = (w', Ok q)"
  shows "ct_participants (cw_tables w') = with_status (pa_id p) ParticipantConnected (ct_participants (cw_tables w)) \<and>
    ct_calls (cw_tables w') = ct_calls (cw_tables w) \<and> announced w w' TypeCallParticipantJoined"
proof -
  from assms obtain w1 x where tx: "within_tx (and_then (statement (pg_update_participant_status (pa_id p) ParticipantConnected))
        (\<lambda>_. enqueue_participant_event_tx s TypeCallParticipantJoined c (p\<lparr>pa_status := ParticipantConnected\<rparr>))) w = (w1, Ok x)"
    and "w' = w1"
    by (auto simp: rejoin_call_def Let_def and_then_Ok map_err_Ok clock_Ok return_Ok)
  then show ?thesis
    by (auto simp: within_tx_Ok and_then_Ok dest!: status_set enqueue_participant_announced)
qed

lemma capacity_check_None:
  assumes "capacity_check s c w = None" "effective_participant_cap s c > 0"
  shows "active_count (ca_id c) (cw_tables w) < effective_participant_cap s c"
proof -
  have len: "length (filter active_participant (order_by_joined ps)) = length (filter active_participant ps)" for ps
    by (simp add: order_by_joined_def filter_sort)
  show ?thesis
    using assms by (auto simp: capacity_check_def Let_def pg_list_participants_def active_count_def query_rows_def len conj_commute
        split: if_splits sum.splits option.splits)
qed

lemma fresh_user:
  assumes "insert_participant (inserted (new_participant k i user role st m now)) t = (t', None)"
  shows "find (is_user i user) (ct_participants t) = None"
    and "is_user i user (inserted (new_participant k i user role st m now))"
proof -
  show "is_user i user (inserted (new_participant k i user role st m now))"
    by (simp add: is_user_def inserted_new_participant) (simp add: new_participant_def)
  show "find (is_user i user) (ct_participants t) = None"
    using assms by (auto simp: insert_participant_None participant_clash_def list_ex_iff find_None_iff is_user_def
        inserted_new_participant) (auto simp: new_participant_def)
qed


definition with_call_status :: "uuid \<Rightarrow> call_status \<Rightarrow> call list \<Rightarrow> call list" where
  "with_call_status i st = update_rows (\<lambda>r. ca_id r = i) (\<lambda>r. r\<lparr>ca_status := st\<rparr>)"

lemma call_status_set:
  "statement (pg_update_call_status i st) w = (w', Ok x) \<Longrightarrow>
     w' = w\<lparr>cw_tables := (cw_tables w)\<lparr>ct_calls := with_call_status i st (ct_calls (cw_tables w))\<rparr>\<rparr>"
  by (auto simp: run_simps pg_update_call_status_def with_call_status_def dest!: update_call_None)

text \<open>The row a newcomer gets.\<close>

definition newcomer :: "call \<Rightarrow> uuid \<Rightarrow> call_participant \<Rightarrow> bool" where
  "newcomer c user p \<longleftrightarrow>
     is_user (ca_id c) user p \<and> pa_role p = joiner_role c \<and> pa_status p = joiner_status c \<and>
     pa_audio_muted p = se_mute_on_join (ca_settings c) \<and> \<not> pa_screen_sharing p"

text \<open>What a newcomer's arrival does to the status of the call, and what it announces.\<close>

definition after_arrival :: "call \<Rightarrow> call list \<Rightarrow> call list" where
  "after_arrival c cs =
     (if joiner_status c \<noteq> ParticipantWaiting \<and> ca_status c = CallStatusRinging
      then with_call_status (ca_id c) CallStatusActive cs else cs)"

definition arrival_event :: "call \<Rightarrow> event_type" where
  "arrival_event c = (if joiner_status c = ParticipantWaiting then TypeWaitingRoomJoined else TypeCallParticipantJoined)"

lemma join_new_run:
  assumes "sv_tx s" "join_new s c user w = (w', Ok q)"
  shows "\<not> se_locked (ca_settings c) \<and> capacity_check s c w = None \<and>
    find (is_user (ca_id c) user) (ct_participants (cw_tables w)) = None \<and>
    (\<exists>p. ct_participants (cw_tables w') = ct_participants (cw_tables w) @ [p] \<and> newcomer c user p) \<and>
    ct_calls (cw_tables w') = after_arrival c (ct_calls (cw_tables w)) \<and> announced w w' (arrival_event c)"
proof -
  let ?p = "new_participant (cw_next_id w) (ca_id c) user (joiner_role c) (joiner_status c) (se_mute_on_join (ca_settings c)) (cw_now w)"
  let ?v = "w\<lparr>cw_next_id := Suc (cw_next_id w)\<rparr>"
  from assms have pre: "\<not> se_locked (ca_settings c)" "capacity_check s c w = None"
    and run: "join_new_tx s c ?p ?v = (w', Ok ())"
    by (auto simp: join_new_def Let_def run_simps)
  from run obtain t where t: "insert_participant (inserted ?p) (cw_tables w) = (t, None)"
    and rest: "(if pa_status ?p = ParticipantWaiting
         then enqueue_participant_event_tx s TypeWaitingRoomJoined c (normalize_participant_principal ?p)
         else and_then (if ca_status c = CallStatusRinging
                     then statement (pg_update_call_status (ca_id c) CallStatusActive) else return ()) (\<lambda>_.
           enqueue_participant_event_tx s TypeCallParticipantJoined c (normalize_participant_principal ?p)))
       (?v\<lparr>cw_tables := t\<rparr>) = (w', Ok ())"
    by (auto simp: join_new_tx_def Let_def map_err_Ok within_tx_Ok and_then_Ok statement_Ok dest!: add_participant_None)
  have "newcomer c user (inserted ?p)"
    using fresh_user(2)[OF t] by (simp add: newcomer_def inserted_new_participant) (simp add: new_participant_def)
  moreover have "t = (cw_tables w)\<lparr>ct_participants := ct_participants (cw_tables w) @ [inserted ?p]\<rparr>"
    using t by (simp add: insert_participant_None)
  moreover have "ct_participants (cw_tables w') = ct_participants t \<and> ct_calls (cw_tables w') = after_arrival c (ct_calls t) \<and>
      announced w w' (arrival_event c)"
    using rest by (auto simp: after_arrival_def arrival_event_def and_then_Ok return_Ok split: if_splits
        dest!: call_status_set enqueue_participant_announced)
  ultimately show ?thesis using pre fresh_user(1)[OF t] by auto
qed

text \<open>C5: who gets into a call, and how. A join that succeeds needs access and a call that has not ended. A
  user with a row in the call is set to connected, whatever the row said before (waiting, disconnected), and
  whatever the lock, the capacity and the waiting room say now. A user without one is admitted only to an
  unlocked call below its capacity, as viewer of a webinar and participant otherwise, waiting when the
  waiting room is on and connected otherwise; a first connected arrival makes a ringing call active. Exactly
  one event is stored, and no other row changes.\<close>

theorem join_call_admission:
  assumes "sv_tx s" "join_call s workspace i user w = (w', Ok q)"
  shows "\<exists>c. require_call_access s workspace i user w = Ok c \<and> c \<in> set (ct_calls (cw_tables w)) \<and> ca_id c = i \<and>
    ca_status c \<noteq> CallStatusEnded \<and>
    (case find (is_user i user) (ct_participants (cw_tables w)) of
       Some p \<Rightarrow>
         ct_participants (cw_tables w') = with_status (pa_id p) ParticipantConnected (ct_participants (cw_tables w)) \<and>
         ct_calls (cw_tables w') = ct_calls (cw_tables w) \<and> announced w w' TypeCallParticipantJoined
     | None \<Rightarrow>
         \<not> se_locked (ca_settings c) \<and>
         (effective_participant_cap s c > 0 \<longrightarrow> active_count i (cw_tables w) < effective_participant_cap s c) \<and>
         (\<exists>p. ct_participants (cw_tables w') = ct_participants (cw_tables w) @ [p] \<and> newcomer c user p) \<and>
         ct_calls (cw_tables w') = after_arrival c (ct_calls (cw_tables w)) \<and> announced w w' (arrival_event c))"
proof -
  from assms(2) obtain c existing where c: "require_call_access s workspace i user w = Ok c" "ca_status c \<noteq> CallStatusEnded"
    and e: "existing_participant i user (cw_tables w) = Ok existing"
    and run: "(case existing of Some p \<Rightarrow> rejoin_call s c p | None \<Rightarrow> join_new s c user) w = (w', Ok q)"
    by (auto simp: join_call_def run_simps)
  from require_call_access_Ok[OF c(1)] have i: "c \<in> set (ct_calls (cw_tables w))" "ca_id c = i"
    by (auto dest: pg_get_call_Ok)
  show ?thesis
  proof (cases existing)
    case None
    with run have "join_new s c user w = (w', Ok q)" by simp
    from join_new_run[OF assms(1) this] c i show ?thesis by (auto dest: capacity_check_None)
  next
    case (Some p)
    with run have "rejoin_call s c p w = (w', Ok q)" by simp
    from rejoin_run[OF assms(1) this] existing_participant_Some e Some c i show ?thesis by auto
  qed
qed

text \<open>A user waiting in a locked meeting lets himself in.\<close>

definition guarded_world :: call_world where
  "guarded_world = run_ops [OpStart 1 10 CallTypeMeeting ''m'' None (plain_settings\<lparr>se_waiting_room := True\<rparr>), OpJoin 1 102 11,
     OpSettings 1 102 10 \<lparr>sp_locked = Some True, sp_waiting_room = None, sp_mute_on_join = None, sp_screen_sharing = None,
       sp_chat = None, sp_breakout_rooms = None\<rparr>] sample_world"

theorem join_call_admission_witness:
  "list_ex (\<lambda>p. is_user 102 11 p \<and> pa_status p = ParticipantWaiting) (ct_participants (cw_tables guarded_world)) \<and>
   list_all (\<lambda>c. se_locked (ca_settings c)) (ct_calls (cw_tables guarded_world)) \<and>
   ct_participants (cw_tables (fst (join_call sample_service 1 102 11 guarded_world))) =
     with_status 106 ParticipantConnected (ct_participants (cw_tables guarded_world))"
proof -
  let ?run = "join_call sample_service 1 102 11 guarded_world"
  have ok: "\<not> isl (snd ?run)" "sv_tx sample_service"
    "list_ex (\<lambda>p. is_user 102 11 p \<and> pa_status p = ParticipantWaiting) (ct_participants (cw_tables guarded_world))"
    "list_all (\<lambda>c. se_locked (ca_settings c)) (ct_calls (cw_tables guarded_world))"
    "map_option pa_id (find (is_user 102 11) (ct_participants (cw_tables guarded_world))) = Some 106" by code_simp+
  obtain w' q where "?run = (w', Ok q)" using ok(1) by (cases ?run; cases "snd ?run") auto
  from join_call_admission[OF ok(2) this] ok(3-5) this show ?thesis by auto
qed

section \<open>Leaving\<close>

definition others_active :: "uuid \<Rightarrow> call_participant \<Rightarrow> call_participant list \<Rightarrow> bool" where
  "others_active i p ps \<longleftrightarrow> (\<exists>q \<in> set ps. pa_call q = i \<and> pa_id q \<noteq> pa_id p \<and> active_participant q)"

lemma end_set:
  "end_now i w = (w', Ok x) \<Longrightarrow>
     w' = w\<lparr>cw_tables := (cw_tables w)\<lparr>ct_calls := update_rows (\<lambda>r. ca_id r = i)
       (\<lambda>r. r\<lparr>ca_status := CallStatusEnded, ca_ended_at := Some (cw_now w)\<rparr>) (ct_calls (cw_tables w))\<rparr>\<rparr>"
  by (auto simp: end_now_def run_simps pg_end_call_def dest!: update_call_None)

lemma close_loop_sfu: "\<exists>x. close_breakout_sfu_loop s i rs w = (w\<lparr>cw_sfu := x\<rparr>, Ok ())"
proof (induction rs arbitrary: w)
  case (Cons r rs)
  show ?case
  proof (cases "br_status r = BreakoutActive")
    case True
    obtain x where "close_sfu_room (breakout_sfu_room_id s i (br_id r)) w = (w\<lparr>cw_sfu := x\<rparr>, Ok ())"
      by (simp add: close_sfu_room_def with_sfu_def)
    then show ?thesis using True Cons.IH[of "w\<lparr>cw_sfu := x\<rparr>"] by (auto simp: and_then_def)
  qed (use Cons in simp)
qed (simp add: return_def, metis (full_types) call_world.surjective call_world.update_convs(5))

text \<open>Closing the rooms of a call touches its breakout rooms and the media server only.\<close>

lemma close_all_run:
  "\<exists>x bs. close_all_breakout_sfu_rooms s i w = (w\<lparr>cw_sfu := x, cw_tables := (cw_tables w)\<lparr>ct_breakouts := bs\<rparr>\<rparr>, Ok ())"
proof -
  show ?thesis
  proof (cases "pg_list_breakouts (cw_tables w) i")
    case (Inl e)
    then have "close_all_breakout_sfu_rooms s i w = (w, Ok ())"
      by (simp add: close_all_breakout_sfu_rooms_def ignore_err_def and_then_def from_read_def)
    then show ?thesis by (simp, intro exI[of _ "cw_sfu w"] exI[of _ "ct_breakouts (cw_tables w)"], simp)
  next
    case (Inr rooms)
    obtain x where "close_breakout_sfu_loop s i rooms w = (w\<lparr>cw_sfu := x\<rparr>, Ok ())" using close_loop_sfu by blast
    moreover obtain bs where "fst (pg_close_all_breakouts i (cw_now w) (cw_tables w)) = (cw_tables w)\<lparr>ct_breakouts := bs\<rparr>"
    proof (cases "fst (pg_close_all_breakouts i (cw_now w) (cw_tables w)) = cw_tables w")
      case True
      then show ?thesis using that[of "ct_breakouts (cw_tables w)"] by simp
    next
      case False
      then show ?thesis by (auto simp: pg_close_all_breakouts_def split: option.splits intro: that)
    qed
    ultimately have "close_all_breakout_sfu_rooms s i w = (w\<lparr>cw_sfu := x, cw_tables := (cw_tables w)\<lparr>ct_breakouts := bs\<rparr>\<rparr>, Ok ())"
      using Inr by (auto simp: close_all_breakout_sfu_rooms_def ignore_err_def and_then_def from_read_def clock_def
          statement_def split: prod.split)
    then show ?thesis by blast
  qed
qed

lemma close_call_rooms_effect:
  assumes "close_call_rooms s i w = (w', r)"
  shows "ct_calls (cw_tables w') = ct_calls (cw_tables w) \<and> ct_participants (cw_tables w') = ct_participants (cw_tables w) \<and>
    cw_outbox w' = cw_outbox w \<and> r = Ok ()"
    and "get_room (sv_uuid_text s i) (cw_sfu w') = None"
proof -
  obtain x bs where "close_all_breakout_sfu_rooms s i w = (w\<lparr>cw_sfu := x, cw_tables := (cw_tables w)\<lparr>ct_breakouts := bs\<rparr>\<rparr>, Ok ())"
    using close_all_run by blast
  then have run: "w' = w\<lparr>cw_sfu := fst (close_room (sv_uuid_text s i) x), cw_tables := (cw_tables w)\<lparr>ct_breakouts := bs\<rparr>\<rparr>" "r = Ok ()"
    using assms by (auto simp: close_call_rooms_def close_sfu_room_def and_then_def with_sfu_def)
  then show "ct_calls (cw_tables w') = ct_calls (cw_tables w) \<and> ct_participants (cw_tables w') = ct_participants (cw_tables w) \<and>
    cw_outbox w' = cw_outbox w \<and> r = Ok ()" by simp
  show "get_room (sv_uuid_text s i) (cw_sfu w') = None"
    by (auto simp: run close_room_def get_room_def delete_conv' split: option.split)
qed

lemma leave_tx_run:
  assumes "leave_tx s c user p w = (w', Ok over)"
  shows "ct_participants (cw_tables w') = with_status (pa_id p) ParticipantDisconnected (ct_participants (cw_tables w)) \<and>
    over = (\<not> others_active (ca_id c) p (ct_participants (cw_tables w)) \<and>
            ca_status c \<noteq> CallStatusEnded) \<and>
    ct_calls (cw_tables w') = (if over then update_rows (\<lambda>r. ca_id r = ca_id c)
       (\<lambda>r. r\<lparr>ca_status := CallStatusEnded, ca_ended_at := Some (cw_now w)\<rparr>) (ct_calls (cw_tables w))
       else ct_calls (cw_tables w)) \<and>
    cw_sfu w' = cw_sfu w \<and>
    map (\<lambda>r. ev_type (or_body r)) (ob_rows (cw_outbox w')) =
      map (\<lambda>r. ev_type (or_body r)) (ob_rows (cw_outbox w)) @ TypeCallParticipantLeft # (if over then [TypeCallEnded] else [])"
proof -
  let ?ps = "with_status (pa_id p) ParticipantDisconnected (ct_participants (cw_tables w))"
  let ?last = "\<not> list_ex (\<lambda>q. pa_id q \<noteq> pa_id p \<and> active_participant q) (order_by_joined (filter (\<lambda>q. pa_call q = ca_id c) ?ps)) \<and>
      ca_status c \<noteq> CallStatusEnded"
  from assms obtain w2 where w2: "cw_tables w2 = (cw_tables w)\<lparr>ct_participants := ?ps\<rparr>" "cw_sfu w2 = cw_sfu w" "cw_now w2 = cw_now w"
      "announced w w2 TypeCallParticipantLeft"
    and rest: "(if ?last then and_then (end_now (ca_id c)) (\<lambda>_.
             and_then (enqueue_call_event_tx s TypeCallEnded (ended c) user) (\<lambda>_. return True))
        else return False) w2 = (w', Ok over)"
  proof -
    let ?v = "w\<lparr>cw_tables := (cw_tables w)\<lparr>ct_participants := ?ps\<rparr>\<rparr>"
    from assms obtain w2 where e: "enqueue_participant_event_tx s TypeCallParticipantLeft c (p\<lparr>pa_status := ParticipantDisconnected\<rparr>) ?v = (w2, Ok ())"
      and rest: "(if \<not> list_ex (\<lambda>q. pa_id q \<noteq> pa_id p \<and> active_participant q)
              (order_by_joined (filter (\<lambda>q. pa_call q = ca_id c) (ct_participants (cw_tables w2)))) \<and> ca_status c \<noteq> CallStatusEnded
          then and_then (end_now (ca_id c)) (\<lambda>_.
             and_then (enqueue_call_event_tx s TypeCallEnded (ended c) user) (\<lambda>_. return True))
          else return False) w2 = (w', Ok over)"
      by (auto simp: leave_tx_def map_err_Ok within_tx_Ok and_then_Ok disconnect_def from_read_Ok pg_list_participants_def
          dest!: status_set)
    show thesis by (rule that[of w2]) (use enqueue_participant_announced[OF e] rest in simp_all)
  qed
  have last: "?last = (\<not> others_active (ca_id c) p (ct_participants (cw_tables w)) \<and> ca_status c \<noteq> CallStatusEnded)"
    by (auto simp: others_active_def list_ex_iff order_by_joined_def with_status_def update_rows_def)
  have types: "announced v v' ty \<Longrightarrow> map (\<lambda>r. ev_type (or_body r)) (ob_rows (cw_outbox v')) =
      map (\<lambda>r. ev_type (or_body r)) (ob_rows (cw_outbox v)) @ [ty]" for v v' ty
    by (auto simp: announced_def)
  show ?thesis
  proof (cases ?last)
    case True
    with rest obtain v where "end_now (ca_id c) w2 = (v, Ok ())" "enqueue_call_event_tx s TypeCallEnded (ended c) user v = (w', Ok ())" over
      by (auto simp: and_then_Ok return_Ok)
    then show ?thesis using w2 types[OF w2(4)] True
      by (auto simp: last dest!: end_set enqueue_call_announced types)
  next
    case False
    with rest have "w' = w2" "\<not> over" by (auto simp: return_Ok)
    then show ?thesis using w2 types[OF w2(4)] False by (auto simp: last)
  qed
qed

text \<open>C16: what leaving does. The caller, a participant of a call he may access, is set to disconnected and
  no other participant changes. If another participant of the call is joining or connected, or the call had
  ended, that is all, with one \<open>participant_left\<close> event; otherwise the call ends now, a \<open>call.ended\<close> event
  follows, and the call has no media room any more.\<close>

theorem leave_call_effect:
  assumes "sv_tx s" "leave_call s workspace i user w = (w', Ok x)"
  shows "\<exists>c p. require_call_access s workspace i user w = Ok c \<and> p \<in> set (ct_participants (cw_tables w)) \<and> is_user i user p \<and>
    ct_participants (cw_tables w') = with_status (pa_id p) ParticipantDisconnected (ct_participants (cw_tables w)) \<and>
    (if others_active i p (ct_participants (cw_tables w)) \<or> ca_status c = CallStatusEnded
     then ct_calls (cw_tables w') = ct_calls (cw_tables w) \<and> cw_sfu w' = cw_sfu w \<and>
       map (\<lambda>r. ev_type (or_body r)) (ob_rows (cw_outbox w')) =
         map (\<lambda>r. ev_type (or_body r)) (ob_rows (cw_outbox w)) @ [TypeCallParticipantLeft]
     else ct_calls (cw_tables w') = update_rows (\<lambda>r. ca_id r = i)
            (\<lambda>r. r\<lparr>ca_status := CallStatusEnded, ca_ended_at := Some (cw_now w)\<rparr>) (ct_calls (cw_tables w)) \<and>
       get_room (sv_uuid_text s i) (cw_sfu w') = None \<and>
       map (\<lambda>r. ev_type (or_body r)) (ob_rows (cw_outbox w')) =
         map (\<lambda>r. ev_type (or_body r)) (ob_rows (cw_outbox w)) @ [TypeCallParticipantLeft, TypeCallEnded])"
proof -
  from assms obtain c p over w1 where c: "require_call_access s workspace i user w = Ok c"
    and p: "p \<in> set (ct_participants (cw_tables w))" "is_user i user p"
    and tx: "leave_tx s c user p w = (w1, Ok over)"
    and close: "(if over then close_call_rooms s i else return ()) w1 = (w', Ok x)"
    by (auto simp: leave_call_def and_then_Ok from_read_Ok dest!: own_participant_Ok)
  have i: "ca_id c = i" using require_call_access_Ok[OF c] by (auto dest: pg_get_call_Ok)
  note left = leave_tx_run[OF tx]
  show ?thesis
  proof (cases over)
    case True
    with close have "close_call_rooms s i w1 = (w', Ok x)" by simp
    from close_call_rooms_effect[OF this] left True c p i show ?thesis by auto
  next
    case False
    with close have "w' = w1" by (simp add: return_Ok)
    with left False c p i show ?thesis by auto
  qed
qed

text \<open>The guest of a meeting leaves: the meeting goes on.\<close>

theorem leave_call_effect_witness:
  "ct_calls (cw_tables (fst (leave_call sample_service 1 102 11 joined_world))) = ct_calls (cw_tables joined_world) \<and>
   map pa_status (ct_participants (cw_tables (fst (leave_call sample_service 1 102 11 joined_world)))) =
     [ParticipantConnected, ParticipantDisconnected]"
proof -
  let ?run = "leave_call sample_service 1 102 11 joined_world"
  have r: "sv_tx sample_service" "snd ?run = Ok ()"
    "list_all (\<lambda>p. is_user 102 11 p \<longrightarrow> pa_id p \<noteq> 103) (ct_participants (cw_tables joined_world))"
    "list_ex (\<lambda>q. pa_id q = 103 \<and> pa_call q = 102 \<and> active_participant q) (ct_participants (cw_tables joined_world))"
    "map pa_status (ct_participants (cw_tables (fst ?run))) = [ParticipantConnected, ParticipantDisconnected]" by code_simp+
  have "?run = (fst ?run, Ok ())" using r(2) by (simp add: prod_eq_iff)
  note effect = leave_call_effect[OF r(1) this]
  have "others_active 102 p (ct_participants (cw_tables joined_world))"
    if "p \<in> set (ct_participants (cw_tables joined_world))" "is_user 102 11 p" for p
    using that r(3,4) by (auto simp: others_active_def list_all_iff list_ex_iff)
  with effect r(5) show ?thesis by (auto simp del: One_nat_def)
qed

section \<open>Messages handed to the publisher\<close>

definition message :: "event_type \<Rightarrow> uuid \<Rightarrow> uuid \<Rightarrow> uuid \<Rightarrow> string \<Rightarrow> call_world \<Rightarrow> event" where
  "message ty workspace channel user payload w =
     (blank_event ty workspace channel user (cw_now w) payload)\<lparr>ev_id := cw_next_id w\<rparr>"

lemma do_publish_run:
  "do_publish ty subject workspace channel user payload w =
     (w\<lparr>cw_next_id := Suc (cw_next_id w), cw_published :=
          (if year_in_range (cw_now w) then cw_published w @ [(subject, message ty workspace channel user payload w)]
           else cw_published w)\<rparr>, Ok ())"
  by (simp add: do_publish_def and_then_def new_id_def json_marshal_def message_def blank_event_def)

lemma set_media_run:
  assumes "set_media s msg c p a v sc w = (w', Ok x)"
  shows "cw_tables w' = (cw_tables w)\<lparr>ct_participants := update_rows (\<lambda>r. pa_id r = pa_id p)
      (\<lambda>r. r\<lparr>pa_audio_muted := a, pa_video_muted := v, pa_screen_sharing := sc\<rparr>) (ct_participants (cw_tables w))\<rparr>"
  using assms
  by (auto simp: set_media_def and_then_Ok map_err_Ok statement_Ok pg_update_participant_media_def publish_participant_event_def
      do_publish_run dest!: update_participant_None)

section \<open>Media state\<close>

text \<open>C18: what a participant may make of his own media. A successful update changes the media fields of the
  caller's row in a call he may access and that has not ended, and nothing else in the call tables: fields
  left out keep their value, a viewer ends muted, without video and without sharing, and turning sharing on needs the
  call to allow it and fewer other connected sharers than the limit.\<close>

theorem update_media_effect:
  assumes "update_media s workspace i user audio video screen w = (w', Ok x)"
  shows "\<exists>c p. require_call_access s workspace i user w = Ok c \<and> ca_status c \<noteq> CallStatusEnded \<and>
    p \<in> set (ct_participants (cw_tables w)) \<and> is_user i user p \<and>
    cw_tables w' = (cw_tables w)\<lparr>ct_participants := update_rows (\<lambda>r. pa_id r = pa_id p)
      (\<lambda>r. r\<lparr>pa_audio_muted := patched audio (pa_audio_muted p), pa_video_muted := patched video (pa_video_muted p),
            pa_screen_sharing := patched screen (pa_screen_sharing p)\<rparr>) (ct_participants (cw_tables w))\<rparr> \<and>
    (pa_role p = CallRoleViewer \<longrightarrow> patched audio (pa_audio_muted p) \<and> patched video (pa_video_muted p) \<and>
       \<not> patched screen (pa_screen_sharing p)) \<and>
    (patched screen (pa_screen_sharing p) \<and> \<not> pa_screen_sharing p \<longrightarrow>
       se_screen_sharing (ca_settings c) \<and>
       int (length (filter (\<lambda>q. pa_call q = i \<and> pa_id q \<noteq> pa_id p \<and> sharing q) (ct_participants (cw_tables w)))) < screen_share_limit s)"
proof -
  from assms obtain c p where c: "require_call_access s workspace i user w = Ok c" "ca_status c \<noteq> CallStatusEnded"
      "\<not> (screen = Some True \<and> \<not> se_screen_sharing (ca_settings c))"
    and own: "own_participant (not_found ''participant not found in this call'') i user w = (w, Ok p)"
    and rest: "and_then (guard (pa_role p = CallRoleViewer \<and> (\<not> patched audio (pa_audio_muted p) \<or>
             \<not> patched video (pa_video_muted p) \<or> patched screen (pa_screen_sharing p)))
           (forbidden ''viewers cannot publish media'')) (\<lambda>_.
        and_then (if screen = Some True \<and> \<not> pa_screen_sharing p
                  then check (check_screen_share_capacity s i (pa_id p)) else return ()) (\<lambda>_.
        set_media s ''failed to update media state'' c p (patched audio (pa_audio_muted p)) (patched video (pa_video_muted p))
          (patched screen (pa_screen_sharing p)))) w = (w', Ok x)"
    by (auto simp: update_media_def Let_def and_then_Ok[of _ "\<lambda>_. and_then _ _"] and_then_Ok[of "own_participant _ _ _"]
        and_then_Ok[of "from_read _"] from_read_Ok guard_Ok own_participant_Ok dest: own_participant_Ok)
  have p: "p \<in> set (ct_participants (cw_tables w))" "is_user i user p" using own_participant_Ok[OF own] by simp_all
  from rest obtain u where v: "\<not> (pa_role p = CallRoleViewer \<and> (\<not> patched audio (pa_audio_muted p) \<or>
             \<not> patched video (pa_video_muted p) \<or> patched screen (pa_screen_sharing p)))"
    and cap: "(if screen = Some True \<and> \<not> pa_screen_sharing p
                  then check (check_screen_share_capacity s i (pa_id p)) else return ()) w = (w, Ok u)"
    and run: "set_media s ''failed to update media state'' c p (patched audio (pa_audio_muted p)) (patched video (pa_video_muted p))
          (patched screen (pa_screen_sharing p)) w = (w', Ok x)"
    by (auto simp: and_then_Ok guard_Ok check_Ok return_Ok split: if_splits)
  have len: "length (filter P (order_by_joined ps)) = length (filter P ps)" for P ps
    by (simp add: order_by_joined_def filter_sort)
  have share: "patched screen (pa_screen_sharing p) \<and> \<not> pa_screen_sharing p \<Longrightarrow> screen = Some True"
    by (auto simp: patched_def split: option.splits)
  have limit: "screen = Some True \<and> \<not> pa_screen_sharing p \<Longrightarrow>
      int (length (filter (\<lambda>q. pa_call q = i \<and> pa_id q \<noteq> pa_id p \<and> sharing q) (ct_participants (cw_tables w)))) < screen_share_limit s"
    using cap by (auto simp: check_Ok check_screen_share_capacity_def pg_list_participants_def query_rows_def len conj_commute
        split: sum.splits if_splits option.splits)
  note set_media_run[OF run]
  with c p v share limit show ?thesis by blast
qed

text \<open>The host shares his screen.\<close>

theorem update_media_effect_witness:
  "map pa_screen_sharing (ct_participants (cw_tables (fst (update_media sample_service 1 102 10 None None (Some True) joined_world)))) =
     [True, False] \<and>
   ct_calls (cw_tables (fst (update_media sample_service 1 102 10 None None (Some True) joined_world))) = ct_calls (cw_tables joined_world)"
proof -
  let ?run = "update_media sample_service 1 102 10 None None (Some True) joined_world"
  have r: "snd ?run = Ok ()" "map pa_screen_sharing (ct_participants (cw_tables (fst ?run))) = [True, False]" by code_simp+
  have "?run = (fst ?run, Ok ())" using r(1) by (simp add: prod_eq_iff)
  from update_media_effect[OF this] r(2) show ?thesis by auto
qed

section \<open>Signalling\<close>

text \<open>A signal reaches one user of the same live call. If forwarding succeeds, the call exists and has not
  ended, sender and recipient both have a row in it, and exactly one message of the matching type has been
  handed to the transport, on the subject of the recipient and from the sender; if it fails, none has.\<close>

lemma forward_signal_between_participants:
  assumes "year_in_range (cw_now w)"
  shows "case forward_signal s i sender recipient ty payload w of
     (w', Err e) \<Rightarrow> cw_published w' = cw_published w
   | (w', Ok x) \<Rightarrow>
       (\<exists>c p q m. c \<in> set (ct_calls (cw_tables w)) \<and> ca_id c = i \<and> ca_status c \<noteq> CallStatusEnded \<and>
         p \<in> set (ct_participants (cw_tables w)) \<and> is_user i sender p \<and> q \<in> set (ct_participants (cw_tables w)) \<and> is_user i recipient q \<and>
         cw_published w' = cw_published w @ [(''aloqa.signal.'' @ sv_uuid_text s recipient, m)] \<and> signal_type ty = Ok (ev_type m) \<and>
         ev_user m = sender \<and> ev_workspace m = ca_workspace c)"
proof -
  have parts: "pg_get_participant (cw_tables w) i u = Ok p \<Longrightarrow> p \<in> set (ct_participants (cw_tables w)) \<and> is_user i u p" for u p
    by (rule pg_get_participant_Ok)
  show ?thesis
    using assms
    by (auto simp: forward_signal_def and_then_def map_err_def from_read_def guard_def fail_def return_def do_publish_run
        message_def blank_event_def split: sum.split if_splits prod.split dest: pg_get_call_Ok parts)
qed

text \<open>The host offers a connection to the participant.\<close>

lemma forward_signal_between_participants_witness:
  "map fst (cw_published (fst (forward_signal sample_service 102 10 11 ''offer'' ''{}'' joined_world))) =
     [''aloqa.signal.'' @ replicate 11 CHR ''x''] \<and>
   (\<exists>p \<in> set (ct_participants (cw_tables joined_world)). is_user 102 11 p)"
proof -
  let ?run = "forward_signal sample_service 102 10 11 ''offer'' ''{}'' joined_world"
  have r: "year_in_range (cw_now joined_world)" "\<not> isl (snd ?run)" "cw_published joined_world = []"
    "sv_uuid_text sample_service 11 = replicate 11 CHR ''x''" by code_simp+
  obtain w' x where run: "?run = (w', Ok x)" using r(2) by (cases ?run; cases "snd ?run") auto
  from forward_signal_between_participants[OF r(1), where s = sample_service and i = 102 and sender = 10 and recipient = 11 and ty = "''offer''" and payload = "''{}''"] r(3,4) run
  show ?thesis by auto
qed

end
