(* ===== verification/Cursors.thy ===== *)
theory Cursors
  imports Cerrors
begin

text \<open>
  Page cursors, \<open>internal/pkg/pagination/pagination.go\<close>: a UUID as 24 characters of base64 with the URL
  alphabet and padding. The codec is Go's \<open>base64.URLEncoding\<close>: decoding skips line breaks anywhere,
  insists on padding, ends at the first padded group and, not being strict, ignores the unused bits
  before the padding. A UUID is a number; its 16 bytes are its big-endian digits.
\<close>

section \<open>Bytes of a UUID\<close>

definition uuid_bytes :: "uuid \<Rightarrow> nat list" where
  "uuid_bytes i = map (\<lambda>k. i div 256 ^ (15 - k) mod 256) [0..<16]"

definition bytes_value :: "nat list \<Rightarrow> nat" where
  "bytes_value bs = fold (\<lambda>b v. v * 256 + b) bs 0"

definition uuid_from_bytes :: "nat list \<Rightarrow> uuid result" where
  "uuid_from_bytes bs =
     (if length bs \<noteq> 16 then Err (PlainError ''invalid UUID'') else Ok (bytes_value bs))"

section \<open>base64\<close>

definition alphabet :: string where
  "alphabet = ''ABCDEFGHIJKLMNOPQRSTUVWXYZabcdefghijklmnopqrstuvwxyz0123456789-_''"

definition digit64 :: "nat \<Rightarrow> char" where
  "digit64 n = alphabet ! (n mod 64)"

fun index_of :: "'a \<Rightarrow> 'a list \<Rightarrow> nat option" where
  "index_of x [] = None"
| "index_of x (y # ys) = (if x = y then Some 0 else map_option Suc (index_of x ys))"

definition value64 :: "char \<Rightarrow> nat option" where
  "value64 c = index_of c alphabet"

fun encode64 :: "nat list \<Rightarrow> string" where
  "encode64 [] = []"
| "encode64 [a] = [digit64 (a div 4), digit64 (a mod 4 * 16), CHR ''='', CHR ''='']"
| "encode64 [a, b] = [digit64 (a div 4), digit64 (a mod 4 * 16 + b div 16), digit64 (b mod 16 * 4), CHR ''='']"
| "encode64 (a # b # c # bs) =
     digit64 (a div 4) # digit64 (a mod 4 * 16 + b div 16) # digit64 (b mod 16 * 4 + c div 64) # digit64 (c mod 64) #
     encode64 bs"

definition corrupt :: error where
  "corrupt = PlainError ''illegal base64 data''"

fun decode_groups :: "string \<Rightarrow> nat list result" where
  "decode_groups [] = Ok []"
| "decode_groups (w # x # y # z # rest) =
     (case (value64 w, value64 x) of
        (Some a, Some b) \<Rightarrow>
          if y = CHR ''='' then
            (if z = CHR ''='' \<and> rest = [] then Ok [a * 4 + b div 16] else Err corrupt)
          else (case value64 y of
             None \<Rightarrow> Err corrupt
           | Some c \<Rightarrow>
               if z = CHR ''='' then
                 (if rest = [] then Ok [a * 4 + b div 16, b mod 16 * 16 + c div 4] else Err corrupt)
               else (case value64 z of
                  None \<Rightarrow> Err corrupt
                | Some d \<Rightarrow>
                    result_bind (decode_groups rest) (\<lambda>bs.
                      Ok ((a * 4 + b div 16) # (b mod 16 * 16 + c div 4) # (c mod 4 * 64 + d) # bs))))
      | _ \<Rightarrow> Err corrupt)"
| "decode_groups _ = Err corrupt"

definition decode64 :: "string \<Rightarrow> nat list result" where
  "decode64 s = decode_groups (filter (\<lambda>c. c \<noteq> CHR 0x0A \<and> c \<noteq> CHR 0x0D) s)"

section \<open>Cursors\<close>

definition encode_cursor :: "uuid \<Rightarrow> string" where
  "encode_cursor i = (if i = uuid_nil then [] else encode64 (uuid_bytes i))"

definition decode_cursor :: "string \<Rightarrow> uuid result" where
  "decode_cursor s = (if s = [] then Ok uuid_nil else result_bind (decode64 s) uuid_from_bytes)"

text \<open>A page of results.\<close>

record 'a page =
  pg_items :: "'a list"
  pg_next :: string
  pg_more :: bool

section \<open>Round trip\<close>

lemma value_digit: "n < 64 \<Longrightarrow> value64 (digit64 n) = Some n"
proof -
  have "\<forall>n \<in> set [0..<64]. value64 (digit64 n) = Some n" by code_simp
  then show "n < 64 \<Longrightarrow> value64 (digit64 n) = Some n" by simp
qed

lemma digit_plain: "digit64 n \<noteq> CHR ''=''" "digit64 n \<noteq> CHR 0x0A" "digit64 n \<noteq> CHR 0x0D"
proof -
  have "\<forall>n \<in> set [0..<64]. digit64 n \<noteq> CHR ''='' \<and> digit64 n \<noteq> CHR 0x0A \<and> digit64 n \<noteq> CHR 0x0D" by code_simp
  moreover have "n mod 64 \<in> set [0..<64]" "digit64 n = digit64 (n mod 64)" by (simp_all add: digit64_def)
  ultimately show "digit64 n \<noteq> CHR ''=''" "digit64 n \<noteq> CHR 0x0A" "digit64 n \<noteq> CHR 0x0D" by metis+
qed

lemma encode_no_breaks: "filter (\<lambda>c. c \<noteq> CHR 0x0A \<and> c \<noteq> CHR 0x0D) (encode64 bs) = encode64 bs"
  by (induction bs rule: encode64.induct) (simp_all add: digit_plain)

lemma packed: "y < n \<Longrightarrow> (x * n + y) div n = (x :: nat)" "y < n \<Longrightarrow> (x * n + y) mod n = (y :: nat)"
  by simp_all

lemma packed_bytes:
  assumes "a < 256" "b < 256" "c < (256 :: nat)"
  shows "a div 4 * 4 + (a mod 4 * 16 + b div 16) div 16 = a"
    "(a mod 4 * 16 + b div 16) mod 16 * 16 + (b mod 16 * 4 + c div 64) div 4 = b"
    "(b mod 16 * 4 + c div 64) mod 4 * 64 + c mod 64 = c"
    "(a mod 4 * 16 + b div 16) mod 16 * 16 + b mod 16 * 4 div 4 = b"
    "a div 4 < 64" "a mod 4 * 16 + b div 16 < 64" "b mod 16 * 4 + c div 64 < 64" "b mod 16 * 4 < 64" "a mod 4 * 16 < 64"
proof -
  have small: "b div 16 < 16" "c div 64 < 4" "a mod 4 < 4" "b mod 16 < 16" "a div 4 < 64" using assms by auto
  show "a div 4 * 4 + (a mod 4 * 16 + b div 16) div 16 = a" by (simp only: packed(1)[OF small(1)]) simp
  show "(a mod 4 * 16 + b div 16) mod 16 * 16 + (b mod 16 * 4 + c div 64) div 4 = b"
    by (simp only: packed(2)[OF small(1)] packed(1)[OF small(2)]) simp
  show "(b mod 16 * 4 + c div 64) mod 4 * 64 + c mod 64 = c" by (simp only: packed(2)[OF small(2)]) simp
  show "(a mod 4 * 16 + b div 16) mod 16 * 16 + b mod 16 * 4 div 4 = b" by (simp only: packed(2)[OF small(1)]) simp
  show "a div 4 < 64" "a mod 4 * 16 + b div 16 < 64" "b mod 16 * 4 + c div 64 < 64" "b mod 16 * 4 < 64" "a mod 4 * 16 < 64"
    using small by linarith+
qed

text \<open>A whole group of three bytes goes through the codec.\<close>

lemma decode_group:
  assumes "a < 256" "b < 256" "c < 256"
  shows "decode_groups (encode64 (a # b # c # bs)) = result_bind (decode_groups (encode64 bs)) (\<lambda>r. Ok (a # b # c # r))"
  using packed_bytes[OF assms] by (simp add: digit_plain value_digit)

lemma decode_pair:
  assumes "a < 256" "b < 256"
  shows "decode_groups (encode64 [a, b]) = Ok [a, b]"
  using packed_bytes[OF assms, of 0] by (simp add: digit_plain value_digit)

lemma decode_single:
  assumes "a < 256"
  shows "decode_groups (encode64 [a]) = Ok [a]"
  using packed_bytes[OF assms, of 0 0] by (simp add: digit_plain value_digit)

lemma decode_encode64: "\<forall>b \<in> set bs. b < 256 \<Longrightarrow> decode64 (encode64 bs) = Ok bs"
proof -
  assume "\<forall>b \<in> set bs. b < 256"
  then have "decode_groups (encode64 bs) = Ok bs"
  proof (induction bs rule: encode64.induct)
    case (2 a)
    then show ?case using decode_single[of a] by simp
  next
    case (3 a b)
    then show ?case using decode_pair[of a b] by simp
  next
    case (4 a b c bs)
    then show ?case using decode_group[of a b c bs] by simp
  qed simp
  then show ?thesis by (simp add: decode64_def encode_no_breaks)
qed

lemma digits_value:
  "bytes_value (map (\<lambda>k. i div 256 ^ (n - 1 - k) mod 256) [0..<n]) = i mod 256 ^ n"
proof (induction n arbitrary: i)
  case (Suc n)
  have "map (\<lambda>k. i div 256 ^ (n - k) mod 256) [0..<n] = map (\<lambda>k. i div 256 div 256 ^ (n - 1 - k) mod 256) [0..<n]"
  proof (rule map_cong)
    fix k assume "k \<in> set [0..<n]"
    then have "n - k = Suc (n - 1 - k)" by auto
    then show "i div 256 ^ (n - k) mod 256 = i div 256 div 256 ^ (n - 1 - k) mod 256"
      by (simp add: div_mult2_eq)
  qed simp
  then have "bytes_value (map (\<lambda>k. i div 256 ^ (n - k) mod 256) [0..<Suc n]) = (i div 256 mod 256 ^ n) * 256 + i mod 256"
    using Suc[of "i div 256"] by (simp add: bytes_value_def del: map_eq_conv)
  also have "\<dots> = i mod 256 ^ Suc n" by (simp add: mod_mult2_eq)
  finally show ?case by simp
qed (simp add: bytes_value_def)

lemma uuid_bytes_value: "i < 2 ^ 128 \<Longrightarrow> uuid_from_bytes (uuid_bytes i) = Ok i"
  using digits_value[of i 16] by (simp add: uuid_from_bytes_def uuid_bytes_def)

lemma decode_encode: "k < 2 ^ 128 \<Longrightarrow> decode_cursor (encode_cursor k) = Ok k"
proof (cases "k = 0")
  case False
  assume k: "k < 2 ^ 128"
  have ne: "encode64 (uuid_bytes k) \<noteq> []" by (simp add: uuid_bytes_def upt_rec)
  have "\<forall>b \<in> set (uuid_bytes k). b < 256" by (auto simp: uuid_bytes_def)
  with decode_encode64 uuid_bytes_value[OF k] ne False show ?thesis
    by (simp add: decode_cursor_def encode_cursor_def)
qed (simp add: decode_cursor_def encode_cursor_def)

text \<open>A cursor handed to a client reads back as the identifier it was made from, for every UUID, the
  nil one included; so two pages never get the same cursor.\<close>

lemma cursor_round_trip:
  assumes "i < 2 ^ 128"
  shows "decode_cursor (encode_cursor i) = Ok i \<and>
    (\<forall>j < 2 ^ 128. encode_cursor j = encode_cursor i \<longrightarrow> j = i)"
  using decode_encode[OF assms] decode_encode by (metis sum.inject(2))

lemma cursor_round_trip_witness:
  "decode_cursor (encode_cursor 2125923475918395872345) = Ok 2125923475918395872345 \<and>
   length (encode_cursor 2125923475918395872345) = 24"
proof -
  have "length (encode64 (uuid_bytes i)) = 24" for i by (simp add: uuid_bytes_def upt_rec)
  then have "length (encode_cursor 2125923475918395872345) = 24" by (simp add: encode_cursor_def)
  moreover have "(2125923475918395872345 :: nat) < 2 ^ 128" by simp
  from cursor_round_trip[OF this] have "decode_cursor (encode_cursor 2125923475918395872345) = Ok 2125923475918395872345" by (rule conjunct1)
  ultimately show ?thesis by blast
qed

end
