(* ===== verification/MessageTables.thy ===== *)
theory MessageTables
  imports Tables
begin

text \<open>
  Messages, reactions, attachments and read states: the entities of \<open>internal/domain/entity/message.go\<close> and
  \<open>channel_access_state.go\<close> and the statements of \<open>internal/repository/postgres/message.go\<close>,
  \<open>channel_access_state.go\<close> and the two updates of \<open>channel.go\<close> that messaging uses. \<open>mt_fault\<close> says which
  statement the driver fails on which row. The sender checks and the partial unique indexes of
  \<open>migrations/026\<close> and \<open>027\<close> are enforced on insertion; a NULL \<open>user_id\<close> of a message is \<open>uuid.Nil\<close> in the
  entity. The profile of the author that the listings join is not part of the model.
\<close>

section \<open>Entities\<close>

datatype message_type = MessageText | MessageSystem | MessageFile

datatype sender_type = SenderEmpty | SenderUser | SenderGuest | SenderOther string

record message =
  ms_id :: uuid
  ms_channel :: uuid
  ms_sender :: sender_type
  ms_user :: uuid
  ms_guest :: "uuid option"
  ms_name :: string
  ms_parent :: "uuid option"
  ms_content :: string
  ms_type :: message_type
  ms_edited :: bool
  ms_edited_at :: "instant option"
  ms_pinned :: bool
  ms_pinned_by :: "uuid option"
  ms_pinned_at :: "instant option"
  ms_created_at :: instant
  ms_updated_at :: instant
  ms_deleted_at :: "instant option"

record reaction =
  rn_id :: uuid
  rn_message :: uuid
  rn_reactor :: sender_type
  rn_user :: "uuid option"
  rn_guest :: "uuid option"
  rn_name :: string
  rn_emoji :: string
  rn_created_at :: instant

record attachment =
  at_id :: uuid
  at_message :: uuid
  at_name :: string
  at_size :: int
  at_mime :: string
  at_path :: string
  at_url :: string
  at_created_at :: instant

record channel_access_state =
  cs_channel :: uuid
  cs_user :: uuid
  cs_last_read_at :: instant
  cs_created_at :: instant
  cs_updated_at :: instant

record message_tables =
  mt_messages :: "message list"
  mt_reactions :: "reaction list"
  mt_attachments :: "attachment list"
  mt_states :: "channel_access_state list"
  mt_fault :: "string \<Rightarrow> uuid \<Rightarrow> error option"

section \<open>Messages\<close>

definition normalize_message_sender :: "message \<Rightarrow> message" where
  "normalize_message_sender m =
     (let k = (if ms_sender m = SenderEmpty then (if ms_guest m \<noteq> None then SenderGuest else SenderUser)
               else ms_sender m) in
      m\<lparr>ms_sender := k, ms_user := (if k = SenderGuest then uuid_nil else ms_user m)\<rparr>)"

definition message_user_id_value :: "message \<Rightarrow> uuid option" where
  "message_user_id_value m = (if ms_sender m = SenderGuest \<or> ms_user m = uuid_nil then None else Some (ms_user m))"

definition message_guest_session_id_value :: "message \<Rightarrow> uuid option" where
  "message_guest_session_id_value m = (if ms_sender m \<noteq> SenderGuest then None else ms_guest m)"

text \<open>The row an INSERT stores, and the CHECK it must pass.\<close>

definition message_row :: "message \<Rightarrow> message" where
  "message_row m =
     m\<lparr>ms_user := (case message_user_id_value m of None \<Rightarrow> uuid_nil | Some u \<Rightarrow> u),
       ms_guest := message_guest_session_id_value m\<rparr>"

definition sender_check :: "sender_type \<Rightarrow> uuid option \<Rightarrow> uuid option \<Rightarrow> bool" where
  "sender_check k user guest \<longleftrightarrow>
     k = SenderUser \<and> user \<noteq> None \<and> guest = None \<or> k = SenderGuest \<and> user = None \<and> guest \<noteq> None"

definition check_violation :: "string \<Rightarrow> error" where
  "check_violation c = PgError ''23514'' (''new row violates check constraint '' @ c)"

definition pg_create_message :: "message \<Rightarrow> message_tables \<Rightarrow> message_tables \<times> error option" where
  "pg_create_message m0 t =
     (let m = normalize_message_sender m0; wrap = Wrapped ''postgres: create message'' in
      case mt_fault t ''create message'' (ms_id m) of
        Some e \<Rightarrow> (t, Some (wrap e))
      | None \<Rightarrow>
          if \<not> sender_check (ms_sender m) (message_user_id_value m) (message_guest_session_id_value m)
          then (t, Some (wrap (check_violation ''messages_sender_check'')))
          else if list_ex (\<lambda>r. ms_id r = ms_id m) (mt_messages t) then (t, Some (wrap unique_violation))
          else (t\<lparr>mt_messages := mt_messages t @ [message_row m]\<rparr>, None))"

definition scan_message :: "message \<Rightarrow> message" where
  "scan_message r = (if ms_sender r = SenderEmpty then r\<lparr>ms_sender := SenderUser\<rparr> else r)"

definition scanned :: "message list result \<Rightarrow> message list result" where
  "scanned q = result_bind q (\<lambda>rs. Ok (map scan_message rs))"

definition pg_get_message :: "message_tables \<Rightarrow> uuid \<Rightarrow> message result" where
  "pg_get_message t i =
     result_bind (query_row (mt_fault t ''get message by id'' i) ''message not found'' ''postgres: get message by id''
       (\<lambda>r. ms_id r = i) (mt_messages t)) (\<lambda>r. Ok (scan_message r))"

text \<open>A listing by descending identifier: the cursor, \<open>LIMIT n+1\<close>, and the extra row trimmed.\<close>

definition message_listing :: "(message \<Rightarrow> bool) \<Rightarrow> page_params \<Rightarrow> message_tables \<Rightarrow> message list" where
  "message_listing P p t =
     (let rows = filter (\<lambda>m. P m \<and> (pp_cursor p \<noteq> uuid_nil \<longrightarrow> ms_id m < pp_cursor p) \<and> ms_deleted_at m = None)
                   (mt_messages t);
          fetched = take (nat (pp_limit p + 1)) (rev (sort_key ms_id rows)) in
      if int (length fetched) > pp_limit p then take (nat (pp_limit p)) fetched else fetched)"

definition pg_list_by_channel :: "message_tables \<Rightarrow> uuid \<Rightarrow> page_params \<Rightarrow> message list result" where
  "pg_list_by_channel t c p =
     scanned (query_rows (mt_fault t ''list messages by channel'' c) ''postgres: list messages by channel''
       (message_listing (\<lambda>m. ms_channel m = c) (normalize_params p) t))"

definition pg_list_thread_replies :: "message_tables \<Rightarrow> uuid \<Rightarrow> page_params \<Rightarrow> message list result" where
  "pg_list_thread_replies t parent p =
     scanned (query_rows (mt_fault t ''list thread replies'' parent) ''postgres: list thread replies''
       (message_listing (\<lambda>m. ms_parent m = Some parent) (normalize_params p) t))"

text \<open>An UPDATE of a live message; the trigger on the table sets \<open>updated_at\<close>.\<close>

definition live_message :: "uuid \<Rightarrow> message \<Rightarrow> bool" where
  "live_message i m \<longleftrightarrow> ms_id m = i \<and> ms_deleted_at m = None"

definition update_message ::
  "string \<Rightarrow> uuid \<Rightarrow> instant \<Rightarrow> (message \<Rightarrow> message) \<Rightarrow> message_tables \<Rightarrow> message_tables \<times> error option" where
  "update_message what i now f t =
     (case exec_affected (mt_fault t what i) ''message not found'' (''postgres: '' @ what) (live_message i) (mt_messages t) of
        Some e \<Rightarrow> (t, Some e)
      | None \<Rightarrow>
          (t\<lparr>mt_messages := update_rows (live_message i) (\<lambda>r. (f r)\<lparr>ms_updated_at := now\<rparr>) (mt_messages t)\<rparr>, None))"

definition pg_update_message :: "message \<Rightarrow> instant \<Rightarrow> message_tables \<Rightarrow> message_tables \<times> error option" where
  "pg_update_message m now =
     update_message ''update message'' (ms_id m) now
       (\<lambda>r. r\<lparr>ms_content := ms_content m, ms_edited := True, ms_edited_at := Some now\<rparr>)"

definition pg_soft_delete :: "uuid \<Rightarrow> instant \<Rightarrow> message_tables \<Rightarrow> message_tables \<times> error option" where
  "pg_soft_delete i now = update_message ''soft delete message'' i now (\<lambda>r. r\<lparr>ms_deleted_at := Some now\<rparr>)"

definition pg_pin :: "uuid \<Rightarrow> uuid \<Rightarrow> instant \<Rightarrow> message_tables \<Rightarrow> message_tables \<times> error option" where
  "pg_pin i user now =
     update_message ''pin message'' i now
       (\<lambda>r. r\<lparr>ms_pinned := True, ms_pinned_by := Some user, ms_pinned_at := Some now\<rparr>)"

definition pg_unpin :: "uuid \<Rightarrow> instant \<Rightarrow> message_tables \<Rightarrow> message_tables \<times> error option" where
  "pg_unpin i now =
     update_message ''unpin message'' i now
       (\<lambda>r. r\<lparr>ms_pinned := False, ms_pinned_by := None, ms_pinned_at := None\<rparr>)"

text \<open>\<open>ORDER BY pinned_at DESC\<close>: descending, the rows without one first.\<close>

definition order_by_pinned :: "message list \<Rightarrow> message list" where
  "order_by_pinned ms =
     rev (sort_key (\<lambda>m. if ms_pinned_at m = None then (1::nat) else 0)
       (sort_key (\<lambda>m. case ms_pinned_at m of None \<Rightarrow> 0 | Some t \<Rightarrow> t) ms))"

definition pg_list_pinned :: "message_tables \<Rightarrow> uuid \<Rightarrow> message list result" where
  "pg_list_pinned t c =
     scanned (query_rows (mt_fault t ''list pinned messages'' c) ''postgres: list pinned messages''
       (order_by_pinned (filter (\<lambda>m. ms_channel m = c \<and> ms_pinned m \<and> ms_deleted_at m = None) (mt_messages t))))"

section \<open>Reactions\<close>

definition normalize_reaction_sender :: "reaction \<Rightarrow> reaction" where
  "normalize_reaction_sender r =
     (let k = (if rn_reactor r = SenderEmpty then (if rn_guest r \<noteq> None then SenderGuest else SenderUser)
               else rn_reactor r) in
      case k of
        SenderGuest \<Rightarrow> r\<lparr>rn_reactor := k, rn_user := None\<rparr>
      | SenderUser \<Rightarrow> r\<lparr>rn_reactor := k, rn_guest := None, rn_name := []\<rparr>
      | _ \<Rightarrow> r\<lparr>rn_reactor := k\<rparr>)"

definition reaction_user_id_value :: "reaction \<Rightarrow> uuid option" where
  "reaction_user_id_value r = (if rn_reactor r \<noteq> SenderUser then None else rn_user r)"

definition reaction_guest_session_id_value :: "reaction \<Rightarrow> uuid option" where
  "reaction_guest_session_id_value r = (if rn_reactor r \<noteq> SenderGuest then None else rn_guest r)"

definition reaction_row :: "reaction \<Rightarrow> reaction" where
  "reaction_row r = r\<lparr>rn_user := reaction_user_id_value r, rn_guest := reaction_guest_session_id_value r\<rparr>"

definition reaction_clash :: "reaction \<Rightarrow> reaction \<Rightarrow> bool" where
  "reaction_clash r x \<longleftrightarrow>
     rn_id x = rn_id r \<or>
     rn_message x = rn_message r \<and> rn_emoji x = rn_emoji r \<and> rn_reactor x = rn_reactor r \<and>
       (rn_reactor r = SenderUser \<and> rn_user x = rn_user r \<or> rn_reactor r = SenderGuest \<and> rn_guest x = rn_guest r)"

definition pg_add_reaction :: "reaction \<Rightarrow> message_tables \<Rightarrow> message_tables \<times> error option" where
  "pg_add_reaction r0 t =
     (let r = reaction_row (normalize_reaction_sender r0);
          err = insert_error ''reaction already exists'' ''postgres: add reaction'' in
      case mt_fault t ''add reaction'' (rn_id r) of
        Some e \<Rightarrow> (t, Some (err e))
      | None \<Rightarrow>
          if \<not> sender_check (rn_reactor r) (rn_user r) (rn_guest r)
          then (t, Some (err (check_violation ''reactions_sender_check'')))
          else if list_ex (reaction_clash r) (mt_reactions t) then (t, Some (err unique_violation))
          else (t\<lparr>mt_reactions := mt_reactions t @ [r]\<rparr>, None))"

definition delete_reactions ::
  "error option \<Rightarrow> string \<Rightarrow> (reaction \<Rightarrow> bool) \<Rightarrow> message_tables \<Rightarrow> message_tables \<times> error option" where
  "delete_reactions fault msg P t =
     (case exec_affected fault ''reaction not found'' msg P (mt_reactions t) of
        Some e \<Rightarrow> (t, Some e)
      | None \<Rightarrow> (t\<lparr>mt_reactions := filter (\<lambda>r. \<not> P r) (mt_reactions t)\<rparr>, None))"

definition user_reaction :: "uuid \<Rightarrow> uuid \<Rightarrow> string \<Rightarrow> reaction \<Rightarrow> bool" where
  "user_reaction i user emoji r \<longleftrightarrow>
     rn_message r = i \<and> rn_reactor r = SenderUser \<and> rn_user r = Some user \<and> rn_emoji r = emoji"

definition guest_reaction :: "uuid \<Rightarrow> uuid \<Rightarrow> string \<Rightarrow> reaction \<Rightarrow> bool" where
  "guest_reaction i guest emoji r \<longleftrightarrow>
     rn_message r = i \<and> rn_reactor r = SenderGuest \<and> rn_guest r = Some guest \<and> rn_emoji r = emoji"

definition pg_remove_reaction :: "uuid \<Rightarrow> uuid \<Rightarrow> string \<Rightarrow> message_tables \<Rightarrow> message_tables \<times> error option" where
  "pg_remove_reaction i user emoji t =
     delete_reactions (mt_fault t ''remove reaction'' i) ''postgres: remove reaction'' (user_reaction i user emoji) t"

definition pg_remove_reaction_by_guest ::
  "uuid \<Rightarrow> uuid \<Rightarrow> string \<Rightarrow> message_tables \<Rightarrow> message_tables \<times> error option" where
  "pg_remove_reaction_by_guest i guest emoji t =
     delete_reactions (mt_fault t ''remove guest reaction'' i) ''postgres: remove guest reaction''
       (guest_reaction i guest emoji) t"

definition pg_list_reactions :: "message_tables \<Rightarrow> uuid \<Rightarrow> reaction list result" where
  "pg_list_reactions t i =
     query_rows (mt_fault t ''list reactions'' i) ''postgres: list reactions''
       (sort_key rn_created_at (filter (\<lambda>r. rn_message r = i) (mt_reactions t)))"

section \<open>Attachments\<close>

definition pg_create_attachment :: "attachment \<Rightarrow> message_tables \<Rightarrow> message_tables \<times> error option" where
  "pg_create_attachment a t =
     (let wrap = Wrapped ''postgres: create attachment'' in
      case mt_fault t ''create attachment'' (at_id a) of
        Some e \<Rightarrow> (t, Some (wrap e))
      | None \<Rightarrow>
          if at_size a \<le> 0 then (t, Some (wrap (check_violation ''attachments_file_size_positive'')))
          else if list_ex (\<lambda>r. at_id r = at_id a \<or> at_path r = at_path a) (mt_attachments t)
          then (t, Some (wrap unique_violation))
          else (t\<lparr>mt_attachments := mt_attachments t @ [a\<lparr>at_url := []\<rparr>]\<rparr>, None))"

definition pg_delete_attachment :: "uuid \<Rightarrow> message_tables \<Rightarrow> message_tables \<times> error option" where
  "pg_delete_attachment i t =
     (case exec_affected (mt_fault t ''delete attachment'' i) ''attachment not found'' ''postgres: delete attachment''
             (\<lambda>r. at_id r = i) (mt_attachments t) of
        Some e \<Rightarrow> (t, Some e)
      | None \<Rightarrow> (t\<lparr>mt_attachments := filter (\<lambda>r. at_id r \<noteq> i) (mt_attachments t)\<rparr>, None))"

definition with_url :: "attachment \<Rightarrow> attachment" where
  "with_url a = a\<lparr>at_url := ''/files/'' @ at_path a\<rparr>"

definition pg_get_attachment_by_path :: "message_tables \<Rightarrow> string \<Rightarrow> attachment result" where
  "pg_get_attachment_by_path t path =
     result_bind (query_row (mt_fault t (''get attachment by storage path '' @ path) uuid_nil) ''attachment not found''
       ''postgres: get attachment by storage path'' (\<lambda>r. at_path r = path) (mt_attachments t)) (\<lambda>a. Ok (with_url a))"

definition pg_list_attachments :: "message_tables \<Rightarrow> uuid \<Rightarrow> attachment list result" where
  "pg_list_attachments t i =
     result_bind (query_rows (mt_fault t ''list attachments'' i) ''postgres: list attachments''
       (sort_key at_created_at (filter (\<lambda>a. at_message a = i) (mt_attachments t)))) (\<lambda>as. Ok (map with_url as))"

section \<open>Unread messages\<close>

definition unread_by :: "uuid \<Rightarrow> uuid \<Rightarrow> instant \<Rightarrow> message \<Rightarrow> bool" where
  "unread_by c user since m \<longleftrightarrow>
     ms_channel m = c \<and> (ms_sender m \<noteq> SenderUser \<or> ms_user m = uuid_nil \<or> ms_user m \<noteq> user) \<and>
     ms_created_at m > since \<and> ms_deleted_at m = None"

definition unread_count :: "message_tables \<Rightarrow> uuid \<Rightarrow> uuid \<Rightarrow> instant \<Rightarrow> int" where
  "unread_count t c user since = int (length (filter (unread_by c user since) (mt_messages t)))"

definition pg_count_unread :: "message_tables \<Rightarrow> uuid \<Rightarrow> uuid \<Rightarrow> instant \<Rightarrow> int result" where
  "pg_count_unread t c user since =
     (case mt_fault t ''count unread'' c of
        Some e \<Rightarrow> Err (Wrapped ''postgres: count unread'' e)
      | None \<Rightarrow> Ok (unread_count t c user since))"

record unread_summary =
  us_channel :: uuid
  us_last_read_at :: instant
  us_unread :: int

definition pg_batch_unread :: "message_tables \<Rightarrow> db \<Rightarrow> uuid \<Rightarrow> uuid \<Rightarrow> unread_summary list result" where
  "pg_batch_unread t d w user =
     query_rows (mt_fault t ''batch unread counts'' w) ''postgres: batch unread counts''
       (map (\<lambda>m. \<lparr>us_channel = cm_channel m, us_last_read_at = cm_last_read_at m,
                  us_unread = unread_count t (cm_channel m) user (cm_last_read_at m)\<rparr>)
          (filter (\<lambda>m. cm_user m = user \<and> list_ex (\<lambda>c. ch_id c = cm_channel m \<and> ch_workspace c = w) (db_channels d))
             (db_channel_members d)))"

definition pg_count_thread_replies :: "message_tables \<Rightarrow> uuid \<Rightarrow> int result" where
  "pg_count_thread_replies t parent =
     (case mt_fault t ''count thread replies'' parent of
        Some e \<Rightarrow> Err (Wrapped ''postgres: count thread replies'' e)
      | None \<Rightarrow> Ok (int (length (filter (\<lambda>m. ms_parent m = Some parent \<and> ms_deleted_at m = None) (mt_messages t)))))"

section \<open>Read states\<close>

definition pg_get_state :: "message_tables \<Rightarrow> uuid \<Rightarrow> uuid \<Rightarrow> channel_access_state result" where
  "pg_get_state t c user =
     query_row (mt_fault t ''get channel access state'' c) ''channel access state not found''
       ''postgres: get channel access state'' (\<lambda>s. cs_channel s = c \<and> cs_user s = user) (mt_states t)"

definition pg_upsert_state ::
  "channel_access_state \<Rightarrow> instant \<Rightarrow> message_tables \<Rightarrow> message_tables \<times> error option" where
  "pg_upsert_state s0 now t =
     (let s = s0\<lparr>cs_created_at := (if cs_created_at s0 = 0 then now else cs_created_at s0), cs_updated_at := now,
                 cs_last_read_at := (if cs_last_read_at s0 = 0 then now else cs_last_read_at s0)\<rparr>;
          P = (\<lambda>r. cs_channel r = cs_channel s \<and> cs_user r = cs_user s) in
      case mt_fault t ''upsert channel access state'' (cs_channel s) of
        Some e \<Rightarrow> (t, Some (Wrapped ''postgres: upsert channel access state'' e))
      | None \<Rightarrow>
          (t\<lparr>mt_states :=
               (if list_ex P (mt_states t)
                then update_rows P (\<lambda>r. r\<lparr>cs_last_read_at := cs_last_read_at s, cs_updated_at := now\<rparr>) (mt_states t)
                else mt_states t @ [s])\<rparr>, None))"

section \<open>Channels: rename and read marks\<close>

definition pg_update_channel :: "channel \<Rightarrow> instant \<Rightarrow> db \<Rightarrow> db \<times> error option" where
  "pg_update_channel c now d =
     (let P = (\<lambda>r. ch_id r = ch_id c) in
      case db_fault d ''update channel'' of
        Some e \<Rightarrow> (d, Some (insert_error ''channel name already exists'' ''postgres: update channel'' e))
      | None \<Rightarrow>
          if \<not> list_ex P (db_channels d) then (d, Some (not_found ''channel not found''))
          else (d\<lparr>db_channels :=
                    update_rows P (\<lambda>r. r\<lparr>ch_name := ch_name c, ch_topic := ch_topic c, ch_updated_at := now\<rparr>)
                      (db_channels d)\<rparr>, None))"

definition pg_update_last_read :: "uuid \<Rightarrow> uuid \<Rightarrow> instant \<Rightarrow> db \<Rightarrow> db \<times> error option" where
  "pg_update_last_read c user now d =
     (let P = (\<lambda>r. cm_channel r = c \<and> cm_user r = user) in
      case exec_affected (db_fault d ''update last read'') ''channel member not found'' ''postgres: update last read''
             P (db_channel_members d) of
        Some e \<Rightarrow> (d, Some e)
      | None \<Rightarrow> (d\<lparr>db_channel_members := update_rows P (\<lambda>r. r\<lparr>cm_last_read_at := now\<rparr>) (db_channel_members d)\<rparr>, None))"

lemma pg_update_channel_ok: "db_ok d \<Longrightarrow> db_ok (fst (pg_update_channel c now d))"
  by (auto simp: pg_update_channel_def db_ok_def Let_def map_update_rows split: option.splits)

lemma pg_update_last_read_ok: "db_ok d \<Longrightarrow> db_ok (fst (pg_update_last_read c user now d))"
  by (auto simp: pg_update_last_read_def db_ok_def Let_def map_update_rows split: option.splits)

end
