(* ===== verification/SearchQueue.thy ===== *)
theory SearchQueue
  imports MessageTables Reliability
begin

text \<open>
  The search index and its queue, \<open>internal/repository/postgres/search.go\<close>: jobs enqueued by the services,
  the worker that claims them and applies them to the index, and the rebuilding of a workspace's index. Like
  the outbox, the store carries the database clock and the outcomes of the statements still to come: each may
  fail with a driver error and takes some time. \<open>uuid.New\<close> is a counter; a document's \<open>tsvector\<close> is the call
  of \<open>to_tsvector\<close> that PostgreSQL evaluates. Metadata are the maps themselves, which JSON carries unchanged;
  the users table, of which only a few columns are read, is an argument of the rebuilding. The unique
  constraint on resources and the checks of \<open>migrations/025\<close> on attempts are enforced.
\<close>

section \<open>Documents, jobs and the store\<close>

datatype resource_type = ResMessage | ResFile | ResChannel | ResUser | ResOther string
datatype meta_value = MetaText string | MetaFlag bool
type_synonym metadata = "(string \<times> meta_value) list"
type_synonym resource = "uuid \<times> resource_type \<times> uuid"

record document =
  sd_workspace :: uuid
  sd_resource :: uuid
  sd_channel :: "uuid option"
  sd_type :: resource_type
  sd_title :: string
  sd_content :: string
  sd_metadata :: metadata
  sd_created_at :: instant
  sd_updated_at :: instant

datatype job_operation = JobUpsert | JobDelete | JobOther string
datatype job_status = JobPending | JobProcessing | JobFailed | JobProcessed | JobDead

record search_job =
  sj_id :: uuid
  sj_operation :: job_operation
  sj_doc :: document
  sj_available_at :: instant
  sj_locked_at :: "instant option"
  sj_processed_at :: "instant option"
  sj_attempts :: int
  sj_max_attempts :: int
  sj_status :: job_status
  sj_last_error :: "string option"

datatype tsvector = ToTsvector string string

record index_row =
  ix_id :: uuid
  ix_doc :: document
  ix_tsv :: tsvector

record search_store =
  sq_jobs :: "search_job list"
  sq_index :: "index_row list"
  sq_now :: instant
  sq_steps :: "(error option \<times> nat) list"
  sq_next_id :: uuid

record search_repo =
  sr_text_config :: string
  sr_max_attempts :: int
  sr_retry_backoff :: duration
  sr_timeout :: duration
  sr_ctx_err :: "search_store \<Rightarrow> error option"
  sr_ctx_done :: "search_store \<Rightarrow> duration \<Rightarrow> error option"
  sr_uuid_text :: "uuid \<Rightarrow> string"

definition search_text_char :: "char \<Rightarrow> bool" where
  "search_text_char c \<longleftrightarrow> CHR ''a'' \<le> c \<and> c \<le> CHR ''z'' \<or> c = CHR ''_''"

definition normalize_search_text_config :: "string \<Rightarrow> string" where
  "normalize_search_text_config v0 =
     (let v = to_lower (trim_space v0) in
      if v = [] then ''simple'' else if \<not> list_all search_text_char v then ''simple'' else v)"

definition new_search_repo :: "search_repo \<Rightarrow> search_repo" where
  "new_search_repo c =
     c\<lparr>sr_text_config := normalize_search_text_config (sr_text_config c),
       sr_max_attempts := (if sr_max_attempts c \<le> 0 then 8 else sr_max_attempts c),
       sr_retry_backoff := (if sr_retry_backoff c \<le> 0 then 5 * second else sr_retry_backoff c),
       sr_timeout := (if sr_timeout c \<le> 0 then 5 * second else sr_timeout c)\<rparr>"

definition resource_of :: "document \<Rightarrow> resource" where
  "resource_of d = (sd_workspace d, sd_type d, sd_resource d)"

abbreviation job_resource :: "search_job \<Rightarrow> resource" where "job_resource j \<equiv> resource_of (sj_doc j)"
abbreviation row_resource :: "index_row \<Rightarrow> resource" where "row_resource r \<equiv> resource_of (ix_doc r)"

section \<open>Statements\<close>

definition next_step :: "search_store \<Rightarrow> search_store \<times> error option" where
  "next_step s =
     (case sq_steps s of
        [] \<Rightarrow> (s, None)
      | (fault, dt) # rest \<Rightarrow> (s\<lparr>sq_steps := rest, sq_now := sq_now s + int dt\<rparr>, fault))"

definition search_exec ::
  "string \<Rightarrow> (search_store \<Rightarrow> search_store) \<Rightarrow> search_store \<Rightarrow> search_store \<times> error option" where
  "search_exec msg upd s =
     (case next_step s of (s', Some e) \<Rightarrow> (s', Some (Wrapped msg e)) | (s', None) \<Rightarrow> (upd s', None))"

definition then_exec ::
  "('s \<Rightarrow> 's \<times> error option) \<Rightarrow> ('s \<Rightarrow> 's \<times> error option) \<Rightarrow> 's \<Rightarrow> 's \<times> error option" where
  "then_exec f g s = (case f s of (s', Some e) \<Rightarrow> (s', Some e) | (s', None) \<Rightarrow> g s')"

definition jobs_where :: "(search_job \<Rightarrow> bool) \<Rightarrow> (search_job \<Rightarrow> search_job) \<Rightarrow> search_store \<Rightarrow> search_store" where
  "jobs_where P f s = s\<lparr>sq_jobs := update_rows P f (sq_jobs s)\<rparr>"

definition known_resource_type :: "resource_type \<Rightarrow> bool" where
  "known_resource_type t \<longleftrightarrow> (case t of ResOther x \<Rightarrow> False | _ \<Rightarrow> True)"

text \<open>\<open>INSERT ... ON CONFLICT (workspace_id, resource_type, resource_id) DO UPDATE\<close> on the jobs.\<close>

definition enqueue_job ::
  "string \<Rightarrow> (search_store \<Rightarrow> search_job) \<Rightarrow> (search_job \<Rightarrow> search_job \<Rightarrow> search_job) \<Rightarrow> search_store
   \<Rightarrow> search_store \<times> error option" where
  "enqueue_job msg job on_conflict s0 =
     (let s = s0\<lparr>sq_next_id := sq_next_id s0 + 1\<rparr> in
      case next_step s of
        (s', Some e) \<Rightarrow> (s', Some (Wrapped msg e))
      | (s', None) \<Rightarrow>
          (let j = (job s')\<lparr>sj_id := sq_next_id s0\<rparr>; P = (\<lambda>r. job_resource r = job_resource j) in
           if \<not> known_resource_type (sd_type (sj_doc j))
           then (s', Some (Wrapped msg (check_violation ''search_index_jobs_resource_type_check'')))
           else if list_ex P (sq_jobs s') then (jobs_where P (on_conflict j) s', None)
           else (s'\<lparr>sq_jobs := sq_jobs s' @ [j]\<rparr>, None)))"

definition new_job :: "search_repo \<Rightarrow> job_operation \<Rightarrow> document \<Rightarrow> search_store \<Rightarrow> search_job" where
  "new_job r op d s =
     \<lparr>sj_id = uuid_nil, sj_operation = op, sj_doc = d, sj_available_at = sq_now s, sj_locked_at = None,
      sj_processed_at = None, sj_attempts = 0, sj_max_attempts = sr_max_attempts r, sj_status = JobPending,
      sj_last_error = None\<rparr>"

definition enqueue_upsert :: "search_repo \<Rightarrow> document \<Rightarrow> search_store \<Rightarrow> search_store \<times> error option" where
  "enqueue_upsert r d =
     enqueue_job ''postgres: enqueue search upsert'' (new_job r JobUpsert d) (\<lambda>j old. j\<lparr>sj_id := sj_id old\<rparr>)"

definition deleted_document :: "uuid \<Rightarrow> resource_type \<Rightarrow> uuid \<Rightarrow> instant \<Rightarrow> document" where
  "deleted_document w ty i now =
     \<lparr>sd_workspace = w, sd_resource = i, sd_channel = None, sd_type = ty, sd_title = [], sd_content = [],
      sd_metadata = [], sd_created_at = now, sd_updated_at = now\<rparr>"

definition enqueue_delete ::
  "search_repo \<Rightarrow> uuid \<Rightarrow> resource_type \<Rightarrow> uuid \<Rightarrow> search_store \<Rightarrow> search_store \<times> error option" where
  "enqueue_delete r w ty i =
     enqueue_job ''postgres: enqueue search delete'' (\<lambda>s. new_job r JobDelete (deleted_document w ty i (sq_now s)) s)
       (\<lambda>j old. j\<lparr>sj_id := sj_id old, sj_doc := (sj_doc j)\<lparr>sd_created_at := sd_created_at (sj_doc old)\<rparr>\<rparr>)"

section \<open>The worker\<close>

definition claimable_job :: "instant \<Rightarrow> search_job \<Rightarrow> bool" where
  "claimable_job now j \<longleftrightarrow> sj_available_at j \<le> now \<and>
     (sj_status j = JobPending \<or> sj_status j = JobFailed \<or>
      sj_status j = JobProcessing \<and> (case sj_locked_at j of None \<Rightarrow> False | Some l \<Rightarrow> l < now - 5 * minute))"

definition claim_batch :: "int \<Rightarrow> instant \<Rightarrow> search_job list \<Rightarrow> search_job list" where
  "claim_batch batch now jobs =
     take (nat batch)
       (sort_key sj_available_at (sort_key (\<lambda>j. sd_created_at (sj_doc j)) (filter (claimable_job now) jobs)))"

definition claimed_job :: "instant \<Rightarrow> search_job \<Rightarrow> search_job" where
  "claimed_job now j =
     j\<lparr>sj_status := JobProcessing, sj_locked_at := Some now, sj_processed_at := None,
       sj_doc := (sj_doc j)\<lparr>sd_updated_at := now\<rparr>, sj_attempts := sj_attempts j + 1\<rparr>"

fun mark_claimed :: "instant \<Rightarrow> search_job list \<Rightarrow> search_store \<Rightarrow> search_store \<times> error option" where
  "mark_claimed now [] s = (s, None)"
| "mark_claimed now (j # js) s =
     (case next_step s of
        (s', Some e) \<Rightarrow> (s', Some (Wrapped ''postgres: claim search job'' e))
      | (s', None) \<Rightarrow>
          if list_ex (\<lambda>r. sj_id r = sj_id j \<and> sj_attempts r + 1 > sj_max_attempts r) (sq_jobs s')
          then (s', Some (Wrapped ''postgres: claim search job'' (check_violation ''search_index_jobs_attempts_bounded'')))
          else mark_claimed now js (jobs_where (\<lambda>r. sj_id r = sj_id j) (claimed_job now) s'))"

text \<open>The jobs handed to the worker are the rows as they were read, counted as one more attempt.\<close>

definition claim_pending_jobs :: "int \<Rightarrow> search_store \<Rightarrow> search_store \<times> search_job list result" where
  "claim_pending_jobs batch s0 =
     (case next_step s0 of
        (s1, Some e) \<Rightarrow> (s1, Err (Wrapped ''postgres: begin search job claim tx'' e))
      | (s1, None) \<Rightarrow>
      (case next_step s1 of
        (s2, Some e) \<Rightarrow> (s2, Err (Wrapped ''postgres: query pending search jobs'' e))
      | (s2, None) \<Rightarrow>
          (let jobs = claim_batch batch (sq_now s1) (sq_jobs s2) in
           case mark_claimed (sq_now s1) jobs s2 of
             (s3, Some e) \<Rightarrow> (s3\<lparr>sq_jobs := sq_jobs s2\<rparr>, Err e)
           | (s3, None) \<Rightarrow>
               (case next_step s3 of
                  (s4, Some e) \<Rightarrow>
                    (s4\<lparr>sq_jobs := sq_jobs s2\<rparr>, Err (Wrapped ''postgres: commit search job claim tx'' e))
                | (s4, None) \<Rightarrow> (s4, Ok (map (\<lambda>j. j\<lparr>sj_attempts := sj_attempts j + 1\<rparr>) jobs))))))"

definition sql_trim :: "string \<Rightarrow> string" where
  "sql_trim s = rev (dropWhile (\<lambda>c. c = CHR '' '') (rev (dropWhile (\<lambda>c. c = CHR '' '') s)))"

definition index_document :: "search_repo \<Rightarrow> document \<Rightarrow> index_row" where
  "index_document r d =
     \<lparr>ix_id = uuid_nil, ix_doc = d,
      ix_tsv = ToTsvector (sr_text_config r) (sql_trim (sd_title d @ '' '' @ sd_content d))\<rparr>"

definition upsert_document :: "search_repo \<Rightarrow> document \<Rightarrow> search_store \<Rightarrow> search_store \<times> error option" where
  "upsert_document r d s0 =
     search_exec ''postgres: upsert search document''
       (\<lambda>s. let x = (index_document r d)\<lparr>ix_id := sq_next_id s0\<rparr>; P = (\<lambda>y. row_resource y = resource_of d) in
          s\<lparr>sq_index :=
              (if list_ex P (sq_index s) then update_rows P (\<lambda>y. x\<lparr>ix_id := ix_id y\<rparr>) (sq_index s)
               else sq_index s @ [x])\<rparr>)
       (s0\<lparr>sq_next_id := sq_next_id s0 + 1\<rparr>)"

definition delete_document :: "resource \<Rightarrow> search_store \<Rightarrow> search_store \<times> error option" where
  "delete_document k =
     search_exec ''postgres: delete search document''
       (\<lambda>s. s\<lparr>sq_index := filter (\<lambda>y. row_resource y \<noteq> k) (sq_index s)\<rparr>)"

definition apply_job :: "search_repo \<Rightarrow> search_job \<Rightarrow> search_store \<Rightarrow> search_store \<times> error option" where
  "apply_job r j =
     (case sj_operation j of
        JobUpsert \<Rightarrow> upsert_document r (sj_doc j)
      | JobDelete \<Rightarrow> delete_document (job_resource j)
      | JobOther x \<Rightarrow> (\<lambda>s. (s, Some (invalid_input ''unsupported search job operation''))))"

definition complete_job :: "uuid \<Rightarrow> search_store \<Rightarrow> search_store \<times> error option" where
  "complete_job i =
     search_exec ''postgres: mark search job processed''
       (\<lambda>s. jobs_where (\<lambda>r. sj_id r = i)
          (\<lambda>r. r\<lparr>sj_status := JobProcessed, sj_processed_at := Some (sq_now s), sj_locked_at := None,
                 sj_doc := (sj_doc r)\<lparr>sd_updated_at := sq_now s\<rparr>, sj_last_error := None\<rparr>) s)"

fun search_delay_loop :: "nat \<Rightarrow> duration \<Rightarrow> duration" where
  "search_delay_loop 0 delay = delay"
| "search_delay_loop (Suc n) delay =
     (let d = wrap64 (delay * 2) in if d > 60 * minute then 60 * minute else search_delay_loop n d)"

definition search_retry_delay :: "search_repo \<Rightarrow> int \<Rightarrow> duration" where
  "search_retry_delay r attempt =
     (if attempt \<le> 1 then sr_retry_backoff r else search_delay_loop (nat (attempt - 1)) (sr_retry_backoff r))"

definition milliseconds :: "duration \<Rightarrow> int" where
  "milliseconds d = (if d < 0 then - ((- d) div 1000000) else d div 1000000)"

definition truncate_text :: "string \<Rightarrow> int \<Rightarrow> string" where
  "truncate_text v n = (if n \<le> 0 \<or> int (length v) \<le> n then v else take (nat n) v)"

definition fail_job :: "search_repo \<Rightarrow> search_job \<Rightarrow> job_status \<Rightarrow> error \<Rightarrow> search_store \<Rightarrow> search_store \<times> error option" where
  "fail_job r j status cause s0 =
     (if status \<noteq> JobFailed \<and> status \<noteq> JobDead then (s0, Some (invalid_input ''invalid search failure status''))
      else let delay = (if status = JobFailed then search_retry_delay r (sj_attempts j) else 0) in
        search_exec ''postgres: update failed search job''
          (\<lambda>s. jobs_where (\<lambda>x. sj_id x = sj_id j)
             (\<lambda>x. x\<lparr>sj_status := status, sj_available_at := sq_now s + milliseconds delay * 1000000, sj_locked_at := None,
                    sj_processed_at := None, sj_doc := (sj_doc x)\<lparr>sd_updated_at := sq_now s\<rparr>,
                    sj_last_error := Some (truncate_text (error_text cause) 2048)\<rparr>) s) s0)"

definition search_policy :: "search_repo \<Rightarrow> int \<Rightarrow> policy" where
  "search_policy r n = \<lparr>p_timeout = sr_timeout r, p_max_attempts = n, p_retry_backoff = sr_retry_backoff r,
                        p_max_backoff = 5 * second\<rparr>"

record batch_tally =
  bt_processed :: nat
  bt_failed :: nat
  bt_dead :: nat

fun apply_jobs ::
  "search_repo \<Rightarrow> search_job list \<Rightarrow> batch_tally \<Rightarrow> search_store \<Rightarrow> search_store \<times> batch_tally \<times> error option" where
  "apply_jobs r [] n s = (s, n, None)"
| "apply_jobs r (j # js) n s =
     (case do_effect (search_policy r 2) (apply_job r j) (sr_ctx_err r) (sr_ctx_done r) s of
        (s1, Some e) \<Rightarrow>
          (let dead = sj_attempts j \<ge> sj_max_attempts j;
               s2 = fst (do_effect (search_policy r 2) (fail_job r j (if dead then JobDead else JobFailed) e)
                      (sr_ctx_err r) (sr_ctx_done r) s1) in
           apply_jobs r js
             (if dead then n\<lparr>bt_dead := bt_dead n + 1\<rparr> else n\<lparr>bt_failed := bt_failed n + 1\<rparr>) s2)
      | (s1, None) \<Rightarrow>
          (case do_effect (search_policy r 2) (complete_job (sj_id j)) (sr_ctx_err r) (sr_ctx_done r) s1 of
             (s2, Some e) \<Rightarrow> (s2, n, Some e)
           | (s2, None) \<Rightarrow> apply_jobs r js (n\<lparr>bt_processed := bt_processed n + 1\<rparr>) s2))"

definition no_tally :: batch_tally where
  "no_tally = \<lparr>bt_processed = 0, bt_failed = 0, bt_dead = 0\<rparr>"

definition process_pending_jobs ::
  "search_repo \<Rightarrow> int \<Rightarrow> search_store \<Rightarrow> search_store \<times> batch_tally \<times> error option" where
  "process_pending_jobs r batch s =
     (case do_state (search_policy r 2) (claim_pending_jobs batch) (sr_ctx_err r) (sr_ctx_done r) s of
        (s', Err e) \<Rightarrow> (s', no_tally, Some e)
      | (s', Ok jobs) \<Rightarrow> apply_jobs r jobs no_tally s')"

text \<open>One round of \<open>RunWorker\<close>: a saturated pool skips the batch.\<close>

definition search_worker_round :: "search_repo \<Rightarrow> pressure \<Rightarrow> int \<Rightarrow> search_store \<Rightarrow> search_store" where
  "search_worker_round r p batch s =
     (if pr_saturated p then s else fst (process_pending_jobs r (if batch \<le> 0 then 100 else batch) s))"

section \<open>Rebuilding a workspace's index\<close>

record user_row =
  ur_id :: uuid
  ur_name :: string
  ur_email :: string
  ur_active :: bool
  ur_updated_at :: instant

record corpus =
  co_db :: db
  co_messages :: message_tables
  co_users :: "user_row list"

definition plain_document :: "uuid \<Rightarrow> resource_type \<Rightarrow> uuid \<Rightarrow> uuid option \<Rightarrow> string \<Rightarrow> string \<Rightarrow> instant \<Rightarrow> instant \<Rightarrow> document" where
  "plain_document w ty i channel title content created updated =
     \<lparr>sd_workspace = w, sd_resource = i, sd_channel = channel, sd_type = ty, sd_title = title, sd_content = content,
      sd_metadata = [], sd_created_at = created, sd_updated_at = updated\<rparr>"

definition open_channel :: "corpus \<Rightarrow> uuid \<Rightarrow> uuid \<Rightarrow> bool" where
  "open_channel c w i \<longleftrightarrow> list_ex (\<lambda>ch. ch_id ch = i \<and> ch_workspace ch = w \<and> \<not> ch_archived ch) (db_channels (co_db c))"

definition channel_document :: "channel \<Rightarrow> document" where
  "channel_document ch =
     plain_document (ch_workspace ch) ResChannel (ch_id ch) (Some (ch_id ch)) (ch_name ch)
       (trim_space (ch_name ch @ '' '' @ ch_topic ch)) (ch_created_at ch) (ch_updated_at ch)"

definition channel_documents :: "corpus \<Rightarrow> uuid \<Rightarrow> document list" where
  "channel_documents c w =
     map channel_document (filter (\<lambda>ch. ch_workspace ch = w \<and> \<not> ch_archived ch) (db_channels (co_db c)))"

definition indexed_message :: "corpus \<Rightarrow> uuid \<Rightarrow> message \<Rightarrow> bool" where
  "indexed_message c w m \<longleftrightarrow> open_channel c w (ms_channel m) \<and> ms_deleted_at m = None"

definition message_documents :: "corpus \<Rightarrow> uuid \<Rightarrow> document list" where
  "message_documents c w =
     map (\<lambda>m. plain_document w ResMessage (ms_id m) (Some (ms_channel m)) [] (ms_content m) (ms_created_at m) (ms_updated_at m))
       (filter (indexed_message c w) (mt_messages (co_messages c)))"

definition file_documents :: "search_repo \<Rightarrow> corpus \<Rightarrow> uuid \<Rightarrow> document list" where
  "file_documents r c w =
     concat (map (\<lambda>a. map (\<lambda>m. (plain_document w ResFile (at_id a) (Some (ms_channel m)) (at_name a)
            (trim_space (at_name a @ '' '' @ at_mime a)) (at_created_at a) (at_created_at a))
            \<lparr>sd_metadata := [(''message_id'', MetaText (sr_uuid_text r (at_message a))), (''mime_type'', MetaText (at_mime a))]\<rparr>)
          (filter (\<lambda>m. ms_id m = at_message a \<and> indexed_message c w m) (mt_messages (co_messages c))))
       (mt_attachments (co_messages c)))"

definition user_documents :: "corpus \<Rightarrow> uuid \<Rightarrow> document list" where
  "user_documents c w =
     concat (map (\<lambda>m. map (\<lambda>u. (plain_document w ResUser (ur_id u) None (ur_name u)
            (trim_space (ur_name u @ '' '' @ ur_email u)) (wm_joined_at m) (ur_updated_at u))
            \<lparr>sd_metadata := [(''email'', MetaText (ur_email u))]\<rparr>)
          (filter (\<lambda>u. ur_id u = wm_user m \<and> ur_active u) (co_users c)))
       (filter (\<lambda>m. wm_workspace m = w) (db_members (co_db c))))"

fun upsert_documents :: "search_repo \<Rightarrow> document list \<Rightarrow> search_store \<Rightarrow> search_store \<times> error option" where
  "upsert_documents r [] s = (s, None)"
| "upsert_documents r (d # ds) s =
     (case upsert_document r d s of (s', Some e) \<Rightarrow> (s', Some e) | (s', None) \<Rightarrow> upsert_documents r ds s')"

definition reindex_rows :: "search_repo \<Rightarrow> string \<Rightarrow> document list \<Rightarrow> search_store \<Rightarrow> search_store \<times> error option" where
  "reindex_rows r what ds =
     then_exec (search_exec (''postgres: list '' @ what @ '' for search reindex'') id) (upsert_documents r ds)"

definition reset_workspace :: "uuid \<Rightarrow> search_store \<Rightarrow> search_store \<times> error option" where
  "reset_workspace w s0 =
     (case then_exec (search_exec ''postgres: begin search reindex tx'' id)
           (then_exec (search_exec ''postgres: clear search jobs for reindex''
              (\<lambda>s. s\<lparr>sq_jobs := filter (\<lambda>j. sd_workspace (sj_doc j) \<noteq> w) (sq_jobs s)\<rparr>))
           (then_exec (search_exec ''postgres: clear search index for reindex''
              (\<lambda>s. s\<lparr>sq_index := filter (\<lambda>y. sd_workspace (ix_doc y) \<noteq> w) (sq_index s)\<rparr>))
            (search_exec ''postgres: commit search reindex reset'' id))) s0 of
        (s, None) \<Rightarrow> (s, None)
      | (s, Some e) \<Rightarrow> (s\<lparr>sq_jobs := sq_jobs s0, sq_index := sq_index s0\<rparr>, Some e))"

definition reindex_workspace :: "search_repo \<Rightarrow> corpus \<Rightarrow> uuid \<Rightarrow> search_store \<Rightarrow> search_store \<times> error option" where
  "reindex_workspace r c w =
     then_exec (reset_workspace w)
       (then_exec (reindex_rows r ''channels'' (channel_documents c w))
          (then_exec (reindex_rows r ''messages'' (message_documents c w))
             (then_exec (reindex_rows r ''files'' (file_documents r c w))
                (reindex_rows r ''users'' (user_documents c w)))))"

fun reindex_each :: "search_repo \<Rightarrow> corpus \<Rightarrow> uuid list \<Rightarrow> search_store \<Rightarrow> search_store \<times> error option" where
  "reindex_each r c [] s = (s, None)"
| "reindex_each r c (w # ws) s =
     (case reindex_workspace r c w s of (s', Some e) \<Rightarrow> (s', Some e) | (s', None) \<Rightarrow> reindex_each r c ws s')"

definition reindex_all :: "search_repo \<Rightarrow> corpus \<Rightarrow> uuid list \<Rightarrow> search_store \<Rightarrow> search_store \<times> error option" where
  "reindex_all r c workspaces =
     then_exec (search_exec ''postgres: list workspaces for search reindex'' id) (reindex_each r c workspaces)"

end
