(* ===== verification/SearchProps.thy ===== *)
theory SearchProps
  imports SearchQueue
begin

text \<open>
  What the search queue guarantees: its constraints along every history, the effect of a batch on the index,
  the rebuilding of a workspace, and a batch that can never be claimed.
\<close>

section \<open>The constraints of the store\<close>

fun known_operation :: "job_operation \<Rightarrow> bool" where
  "known_operation (JobOther x) = False"
| "known_operation JobUpsert = True"
| "known_operation JobDelete = True"

definition job_ok :: "search_job \<Rightarrow> bool" where
  "job_ok j \<longleftrightarrow> known_operation (sj_operation j) \<and>
     0 \<le> sj_attempts j \<and> sj_attempts j \<le> sj_max_attempts j \<and> 1 \<le> sj_max_attempts j \<and>
     (sj_status j = JobProcessing \<longleftrightarrow> sj_locked_at j \<noteq> None) \<and>
     (sj_status j = JobProcessed \<longrightarrow> sj_processed_at j \<noteq> None)"

definition search_ok :: "search_store \<Rightarrow> bool" where
  "search_ok s \<longleftrightarrow>
     distinct (map sj_id (sq_jobs s)) \<and> (\<forall>j \<in> set (sq_jobs s). sj_id j < sq_next_id s \<and> job_ok j) \<and>
     distinct (map job_resource (sq_jobs s)) \<and> distinct (map row_resource (sq_index s))"

definition keeps_search :: "(search_store \<Rightarrow> search_store \<times> 'e) \<Rightarrow> bool" where
  "keeps_search f \<longleftrightarrow> (\<forall>s. search_ok s \<longrightarrow> search_ok (fst (f s)))"

named_theorems search_rules \<open>what the statements of the search store keep\<close>

lemma next_step_sel:
  assumes "next_step s = (s', e)"
  shows "sq_jobs s' = sq_jobs s" "sq_index s' = sq_index s" "sq_next_id s' = sq_next_id s" "search_ok s' = search_ok s"
    "sq_now s \<le> sq_now s'"
  using assms by (auto simp: next_step_def search_ok_def split: list.splits)

lemma keeps_exec [search_rules]:
  assumes "\<And>s. search_ok s \<Longrightarrow> search_ok (upd s)"
  shows "keeps_search (search_exec msg upd)"
  using assms by (auto simp: keeps_search_def search_exec_def next_step_sel(4) split: prod.splits option.splits)

lemma keeps_then [search_rules]:
  "keeps_search f \<Longrightarrow> keeps_search g \<Longrightarrow> keeps_search (then_exec f g)"
  unfolding keeps_search_def then_exec_def by (auto split: prod.splits option.splits)

lemma jobs_where_ok:
  assumes "search_ok s" "\<And>j. job_resource (f j) = job_resource j" "\<And>j. sj_id (f j) = sj_id j"
    and "\<And>j. j \<in> set (sq_jobs s) \<Longrightarrow> P j \<Longrightarrow> job_ok j \<Longrightarrow> job_ok (f j)"
  shows "search_ok (jobs_where P f s)"
proof -
  have "map sj_id (update_rows P f (sq_jobs s)) = map sj_id (sq_jobs s)"
    "map job_resource (update_rows P f (sq_jobs s)) = map job_resource (sq_jobs s)"
    using assms(2,3) by (simp_all add: map_update_rows)
  moreover have "\<forall>j \<in> set (update_rows P f (sq_jobs s)). sj_id j < sq_next_id s \<and> job_ok j"
    using assms by (auto simp: update_rows_def search_ok_def)
  ultimately show ?thesis using assms(1) by (simp add: search_ok_def jobs_where_def)
qed

lemma resource_sel [simp]: "resource_of (d\<lparr>sd_created_at := a\<rparr>) = resource_of d" "resource_of (d\<lparr>sd_updated_at := a\<rparr>) = resource_of d"
  by (simp_all add: resource_of_def)

lemma find_update_rows:
  assumes "\<And>x. P x \<Longrightarrow> key (f x) = key x"
  shows "find (\<lambda>x. key x = k) (update_rows P f rows) = map_option (\<lambda>x. if P x then f x else x) (find (\<lambda>x. key x = k) rows)"
  using assms by (induction rows) (auto simp: update_rows_def)

lemma keeps_enqueue_job:
  assumes "\<And>s. job_ok (job s)" "\<And>s i old. job_ok (oc ((job s)\<lparr>sj_id := i\<rparr>) old)"
    and "\<And>j old. sj_id (oc j old) = sj_id old" "\<And>j old. job_resource (oc j old) = job_resource j"
  shows "keeps_search (enqueue_job msg job oc)"
  unfolding keeps_search_def
proof (intro allI impI)
  fix s0 assume ok: "search_ok s0"
  define s where "s = s0\<lparr>sq_next_id := sq_next_id s0 + 1\<rparr>"
  obtain s' e where st: "next_step s = (s', e)" by fastforce
  have ok': "search_ok s'" "sq_next_id s' = sq_next_id s0 + 1" "sq_jobs s' = sq_jobs s0" "sq_index s' = sq_index s0"
    using ok next_step_sel[OF st] by (auto simp: s_def search_ok_def)
  define j where "j = (job s')\<lparr>sj_id := sq_next_id s0\<rparr>"
  have upd: "search_ok (jobs_where (\<lambda>r. job_resource r = job_resource j) (oc j) s')"
  proof -
    let ?P = "\<lambda>r. job_resource r = job_resource j"
    have "map sj_id (update_rows ?P (oc j) (sq_jobs s')) = map sj_id (sq_jobs s')"
      "map job_resource (update_rows ?P (oc j) (sq_jobs s')) = map job_resource (sq_jobs s')"
      using assms(3,4) by (auto intro!: map_update_rows)
    moreover have "\<forall>x \<in> set (update_rows ?P (oc j) (sq_jobs s')). sj_id x < sq_next_id s' \<and> job_ok x"
      using ok' assms(2,3) by (auto simp: update_rows_def search_ok_def j_def)
    ultimately show ?thesis using ok'(1) by (simp add: search_ok_def jobs_where_def)
  qed
  have new: "search_ok (s'\<lparr>sq_jobs := sq_jobs s' @ [j]\<rparr>)" if "\<not> list_ex (\<lambda>r. job_resource r = job_resource j) (sq_jobs s')"
  proof -
    have "job_ok j" using assms(1)[of s'] by (simp add: j_def job_ok_def)
    moreover have "sq_next_id s0 \<notin> sj_id ` set (sq_jobs s0)" using ok by (auto simp: search_ok_def)
    ultimately show ?thesis using ok' that ok by (auto simp: search_ok_def list_ex_iff j_def)
  qed
  show "search_ok (fst (enqueue_job msg job oc s0))"
    unfolding enqueue_job_def Let_def s_def[symmetric] j_def[symmetric]
    using ok'(1) upd[unfolded j_def] new[unfolded j_def] by (auto simp: st split: option.splits)
qed

lemma keeps_enqueues [search_rules]:
  assumes "1 \<le> sr_max_attempts r"
  shows "keeps_search (enqueue_upsert r d)" "keeps_search (enqueue_delete r w ty i)"
  unfolding enqueue_upsert_def enqueue_delete_def
  by (rule keeps_enqueue_job; use assms in \<open>simp add: job_ok_def new_job_def resource_of_def deleted_document_def\<close>)+

lemma mark_claimed_keeps: "search_ok s \<Longrightarrow> search_ok (fst (mark_claimed now js s))"
proof (induction js arbitrary: s)
  case (Cons j js)
  obtain s' e where st: "next_step s = (s', e)" by fastforce
  have ok: "search_ok s'" using Cons.prems next_step_sel(4)[OF st] by simp
  show ?case
  proof (cases "e = None \<and> \<not> list_ex (\<lambda>r. sj_id r = sj_id j \<and> sj_attempts r + 1 > sj_max_attempts r) (sq_jobs s')")
    case True
    then have "search_ok (jobs_where (\<lambda>r. sj_id r = sj_id j) (claimed_job now) s')"
      using ok by (intro jobs_where_ok) (auto simp: claimed_job_def job_ok_def list_ex_iff not_less)
    then show ?thesis using True Cons.IH st by simp
  next
    case False
    then show ?thesis using ok st by (auto split: option.splits)
  qed
qed simp

lemma mark_claimed_sel:
  "sq_index (fst (mark_claimed now js s)) = sq_index s \<and> sq_next_id (fst (mark_claimed now js s)) = sq_next_id s"
proof (induction js arbitrary: s)
  case (Cons j js)
  obtain s' e where st: "next_step s = (s', e)" by fastforce
  show ?case using Cons.IH[of "jobs_where (\<lambda>r. sj_id r = sj_id j) (claimed_job now) s'"] next_step_sel[OF st] st
    by (auto simp: jobs_where_def split: option.splits)
qed simp

lemma restored_ok:
  assumes "search_ok s2" "sq_index s = sq_index s2" "sq_next_id s = sq_next_id s2"
  shows "search_ok (s\<lparr>sq_jobs := sq_jobs s2\<rparr>)"
  using assms by (simp add: search_ok_def)

lemma keeps_claim [search_rules]: "keeps_search (claim_pending_jobs batch)"
  unfolding keeps_search_def
proof (intro allI impI)
  fix s0 assume ok: "search_ok s0"
  obtain s1 e1 where s1: "next_step s0 = (s1, e1)" by fastforce
  obtain s2 e2 where s2: "next_step s1 = (s2, e2)" by fastforce
  obtain s3 e3 where s3: "mark_claimed (sq_now s1) (claim_batch batch (sq_now s1) (sq_jobs s2)) s2 = (s3, e3)" by fastforce
  obtain s4 e4 where s4: "next_step s3 = (s4, e4)" by fastforce
  have ok2: "search_ok s1" "search_ok s2" using ok next_step_sel(4)[OF s1] next_step_sel(4)[OF s2] by simp_all
  have ok3: "search_ok s3" using mark_claimed_keeps[OF ok2(2)] s3 by (metis fst_conv)
  have sel3: "sq_index s3 = sq_index s2 \<and> sq_next_id s3 = sq_next_id s2" using mark_claimed_sel s3 by (metis fst_conv)
  have sel4: "sq_index s4 = sq_index s2" "sq_next_id s4 = sq_next_id s2" using sel3 next_step_sel[OF s4] by simp_all
  have ok4: "search_ok s4" using ok3 next_step_sel(4)[OF s4] by simp
  show "search_ok (fst (claim_pending_jobs batch s0))"
    using s1 s2 s3 s4 ok2 ok4 restored_ok[OF ok2(2)] sel3 sel4
    by (auto simp: claim_pending_jobs_def Let_def split: option.splits)
qed

lemma keeps_upsert_document [search_rules]: "keeps_search (upsert_document r d)"
  unfolding keeps_search_def upsert_document_def
proof (intro allI impI)
  fix s0 assume ok: "search_ok s0"
  let ?s = "s0\<lparr>sq_next_id := sq_next_id s0 + 1\<rparr>"
  let ?x = "(index_document r d)\<lparr>ix_id := sq_next_id s0\<rparr>" and ?P = "\<lambda>y. row_resource y = resource_of d"
  have "keeps_search (search_exec ''postgres: upsert search document'' (\<lambda>s. s\<lparr>sq_index :=
       (if list_ex ?P (sq_index s) then update_rows ?P (\<lambda>y. ?x\<lparr>ix_id := ix_id y\<rparr>) (sq_index s) else sq_index s @ [?x])\<rparr>))"
  proof (rule keeps_exec)
    fix s assume s: "search_ok s"
    have "map row_resource (update_rows ?P (\<lambda>y. ?x\<lparr>ix_id := ix_id y\<rparr>) (sq_index s)) = map row_resource (sq_index s)"
      by (rule map_update_rows) (simp add: index_document_def)
    then show "search_ok (s\<lparr>sq_index :=
       (if list_ex ?P (sq_index s) then update_rows ?P (\<lambda>y. ?x\<lparr>ix_id := ix_id y\<rparr>) (sq_index s) else sq_index s @ [?x])\<rparr>)"
      using s by (auto simp: search_ok_def list_ex_iff index_document_def)
  qed
  moreover have "search_ok ?s" using ok by (auto simp: search_ok_def)
  ultimately show "search_ok (fst (search_exec ''postgres: upsert search document''
       (\<lambda>s. let x = ?x; P = ?P in s\<lparr>sq_index :=
              (if list_ex P (sq_index s) then update_rows P (\<lambda>y. x\<lparr>ix_id := ix_id y\<rparr>) (sq_index s) else sq_index s @ [x])\<rparr>) ?s))"
    by (simp add: keeps_search_def Let_def)
qed

lemma keeps_delete_document [search_rules]: "keeps_search (delete_document k)"
  unfolding delete_document_def by (rule keeps_exec) (auto simp: search_ok_def)

lemma keeps_apply_job [search_rules]: "keeps_search (apply_job r j)"
  using keeps_upsert_document[of r "sj_doc j"] keeps_delete_document[of "job_resource j"]
  by (cases "sj_operation j") (simp_all add: apply_job_def keeps_search_def)

lemma keeps_complete_job [search_rules]: "keeps_search (complete_job i)"
  unfolding complete_job_def by (rule keeps_exec) (auto intro!: jobs_where_ok simp: job_ok_def)

lemma keeps_fail_job [search_rules]: "keeps_search (fail_job r j st e)"
proof (cases "st = JobFailed \<or> st = JobDead")
  case True
  have "keeps_search (search_exec ''postgres: update failed search job''
          (\<lambda>s. jobs_where (\<lambda>x. sj_id x = sj_id j)
             (\<lambda>x. x\<lparr>sj_status := st, sj_available_at := sq_now s + d, sj_locked_at := None,
                    sj_processed_at := None, sj_doc := (sj_doc x)\<lparr>sd_updated_at := sq_now s\<rparr>,
                    sj_last_error := Some m\<rparr>) s))" for d m
    using True by (intro keeps_exec jobs_where_ok) (auto simp: job_ok_def)
  then show ?thesis using True by (auto simp: keeps_search_def fail_job_def Let_def)
next
  case False
  then show ?thesis by (simp add: keeps_search_def fail_job_def)
qed

lemma keeps_effect [search_rules]: "keeps_search f \<Longrightarrow> keeps_search (do_effect p f ce cd)"
  unfolding keeps_search_def
proof (intro allI impI)
  fix s assume f: "\<forall>s. search_ok s \<longrightarrow> search_ok (fst (f s))" and s: "search_ok s"
  obtain s' r where r: "do_effect p f ce cd s = (s', r)" by fastforce
  have "case r of None \<Rightarrow> \<exists>t. search_ok t \<and> f t = (s', None) | Some e \<Rightarrow> search_ok s'"
    by (rule do_effect_outcome[where I = search_ok, OF r s]) (use f in \<open>metis fst_conv\<close>)
  moreover have "search_ok s'" if "search_ok t" "f t = (s', None)" for t using f that by (metis fst_conv)
  ultimately have "search_ok s'" by (cases r) auto
  then show "search_ok (fst (do_effect p f ce cd s))" by (simp add: r)
qed

lemma keeps_state [search_rules]: "keeps_search f \<Longrightarrow> keeps_search (do_state p f ce cd)"
  unfolding keeps_search_def
proof (intro allI impI)
  fix s assume f: "\<forall>s. search_ok s \<longrightarrow> search_ok (fst (f s))" and s: "search_ok s"
  obtain s' r where r: "do_state p f ce cd s = (s', r)" by fastforce
  have "case r of Ok v \<Rightarrow> \<exists>t. search_ok t \<and> f t = (s', Ok v) | Err e \<Rightarrow> search_ok s'"
    by (rule do_state_outcome[where I = search_ok, OF r s]) (use f in \<open>metis fst_conv\<close>)
  moreover have "search_ok s'" if "search_ok t" "f t = (s', Ok v)" for t v using f that by (metis fst_conv)
  ultimately have "search_ok s'" by (cases r) auto
  then show "search_ok (fst (do_state p f ce cd s))" by (simp add: r)
qed

lemma keeps_apply_jobs: "search_ok s \<Longrightarrow> search_ok (fst (apply_jobs r js n s))"
proof (induction js arbitrary: n s)
  case (Cons j js)
  have ap: "search_ok (fst (do_effect p (apply_job r j) ce cd s))" for p ce cd
    using keeps_effect[OF keeps_apply_job] Cons.prems by (simp add: keeps_search_def)
  have rest: "search_ok t \<Longrightarrow> search_ok (fst (do_effect p (complete_job i) ce cd t))"
    "search_ok t \<Longrightarrow> search_ok (fst (do_effect p (fail_job r j st e) ce cd t))" for p ce cd i st e t
    using keeps_effect[OF keeps_complete_job] keeps_effect[OF keeps_fail_job] by (simp_all add: keeps_search_def)
  show ?case using ap[of "search_policy r 2" "sr_ctx_err r" "sr_ctx_done r"] rest Cons.IH
    by (auto simp: Let_def split: prod.splits option.splits) (metis fst_conv)+
qed simp

lemma keeps_process [search_rules]: "keeps_search (process_pending_jobs r batch)"
  unfolding keeps_search_def
proof (intro allI impI)
  fix s assume "search_ok s"
  then have "search_ok (fst (do_state (search_policy r 2) (claim_pending_jobs batch) (sr_ctx_err r) (sr_ctx_done r) s))"
    using keeps_state[OF keeps_claim] by (simp add: keeps_search_def)
  then show "search_ok (fst (process_pending_jobs r batch s))"
    by (auto simp: process_pending_jobs_def keeps_apply_jobs split: prod.splits sum.splits)
qed

lemma keeps_upserts [search_rules]: "keeps_search (upsert_documents r ds)"
  unfolding keeps_search_def
proof (intro allI impI)
  fix s assume "search_ok s" then show "search_ok (fst (upsert_documents r ds s))"
  proof (induction ds arbitrary: s)
    case (Cons d ds)
    have "search_ok (fst (upsert_document r d s))" using keeps_upsert_document Cons.prems by (simp add: keeps_search_def)
    then show ?case using Cons.IH by (auto split: prod.splits option.splits)
  qed simp
qed

lemma keeps_reset [search_rules]: "keeps_search (reset_workspace w)"
  unfolding keeps_search_def
proof (intro allI impI)
  fix s0 assume ok: "search_ok s0"
  let ?chain = "then_exec (search_exec ''postgres: begin search reindex tx'' id)
           (then_exec (search_exec ''postgres: clear search jobs for reindex''
              (\<lambda>s. s\<lparr>sq_jobs := filter (\<lambda>j. sd_workspace (sj_doc j) \<noteq> w) (sq_jobs s)\<rparr>))
           (then_exec (search_exec ''postgres: clear search index for reindex''
              (\<lambda>s. s\<lparr>sq_index := filter (\<lambda>y. sd_workspace (ix_doc y) \<noteq> w) (sq_index s)\<rparr>))
            (search_exec ''postgres: commit search reindex reset'' id)))"
  have "keeps_search ?chain" by (intro search_rules) (auto simp: search_ok_def)
  then have "search_ok (fst (?chain s0))" using ok by (simp add: keeps_search_def)
  moreover have "sq_next_id (fst (?chain s0)) = sq_next_id s0"
    by (simp add: then_exec_def search_exec_def split: prod.splits option.splits)
       (auto dest!: next_step_sel(3))
  ultimately show "search_ok (fst (reset_workspace w s0))"
    using ok by (auto simp: reset_workspace_def search_ok_def split: prod.splits option.splits)
qed

lemma keeps_reindex [search_rules]: "keeps_search (reindex_workspace r c w)"
  unfolding reindex_workspace_def reindex_rows_def by (intro search_rules) simp_all

section \<open>Histories\<close>

datatype search_op =
    SopUpsert document
  | SopDelete uuid resource_type uuid
  | SopProcess int
  | SopClaim int
  | SopApply search_job
  | SopComplete uuid
  | SopFail search_job job_status error
  | SopReindex corpus uuid

fun search_step :: "search_repo \<Rightarrow> search_op \<Rightarrow> search_store \<Rightarrow> search_store" where
  "search_step r (SopUpsert d) s = fst (enqueue_upsert r d s)"
| "search_step r (SopDelete w ty i) s = fst (enqueue_delete r w ty i s)"
| "search_step r (SopProcess n) s = fst (process_pending_jobs r n s)"
| "search_step r (SopClaim n) s = fst (claim_pending_jobs n s)"
| "search_step r (SopApply j) s = fst (apply_job r j s)"
| "search_step r (SopComplete i) s = fst (complete_job i s)"
| "search_step r (SopFail j st e) s = fst (fail_job r j st e s)"
| "search_step r (SopReindex c w) s = fst (reindex_workspace r c w s)"

definition empty_search :: "instant \<Rightarrow> (error option \<times> nat) list \<Rightarrow> search_store" where
  "empty_search now steps = \<lparr>sq_jobs = [], sq_index = [], sq_now = now, sq_steps = steps, sq_next_id = 1\<rparr>"

lemma search_step_ok: "1 \<le> sr_max_attempts r \<Longrightarrow> search_ok s \<Longrightarrow> search_ok (search_step r x s)"
  using search_rules by (cases x) (simp_all add: keeps_search_def)

text \<open>C27: whatever the services enqueue, the workers do in any order and overlap, and whatever statements
  fail, the search store keeps its constraints: one job and one document per resource of a workspace, attempts
  within their bound, and a lock held exactly by the jobs in processing.\<close>

theorem search_queue_invariant:
  "search_ok (fold (search_step (new_search_repo r)) history (empty_search now steps))"
proof -
  have "1 \<le> sr_max_attempts (new_search_repo r)" by (simp add: new_search_repo_def)
  then have "search_ok s \<Longrightarrow> search_ok (fold (search_step (new_search_repo r)) history s)" for s
    by (induction history arbitrary: s) (simp_all add: search_step_ok)
  moreover have "search_ok (empty_search now steps)" by (simp add: empty_search_def search_ok_def)
  ultimately show ?thesis by blast
qed

section \<open>A batch over a healthy database\<close>

definition quiet :: "search_store \<Rightarrow> bool" where
  "quiet s \<longleftrightarrow> list_all (\<lambda>(fault, dt). fault = None) (sq_steps s)"

definition found_index :: "search_store \<Rightarrow> resource \<Rightarrow> (document \<times> tsvector) option" where
  "found_index s k = map_option (\<lambda>y. (ix_doc y, ix_tsv y)) (find (\<lambda>y. row_resource y = k) (sq_index s))"

definition found_job :: "search_store \<Rightarrow> uuid \<Rightarrow> search_job option" where
  "found_job s i = find (\<lambda>j. sj_id j = i) (sq_jobs s)"

definition indexed :: "search_repo \<Rightarrow> document \<Rightarrow> document \<times> tsvector" where
  "indexed r d = (ix_doc (index_document r d), ix_tsv (index_document r d))"

definition applied :: "search_repo \<Rightarrow> search_job \<Rightarrow> (document \<times> tsvector) option" where
  "applied r j = (if sj_operation j = JobUpsert then Some (indexed r (sj_doc j)) else None)"

lemma quiet_step:
  assumes "quiet s"
  obtains s' where "next_step s = (s', None)" "quiet s'" "sq_jobs s' = sq_jobs s" "sq_index s' = sq_index s"
    "sq_next_id s' = sq_next_id s" "sq_now s \<le> sq_now s'"
proof -
  obtain s' e where st: "next_step s = (s', e)" by fastforce
  have "e = None \<and> quiet s'" using st assms by (auto simp: next_step_def quiet_def split: list.splits)
  then show ?thesis using st next_step_sel[OF st] by (intro that) auto
qed

lemma quiet_sel [simp]:
  "quiet (s\<lparr>sq_jobs := a\<rparr>) = quiet s" "quiet (s\<lparr>sq_index := b\<rparr>) = quiet s" "quiet (s\<lparr>sq_next_id := i\<rparr>) = quiet s"
  "quiet (jobs_where P f s) = quiet s"
  by (simp_all add: quiet_def jobs_where_def)

lemma quiet_exec:
  assumes "quiet s"
  obtains s' where "search_exec msg upd s = (upd s', None)" "quiet s'" "sq_jobs s' = sq_jobs s"
    "sq_index s' = sq_index s" "sq_next_id s' = sq_next_id s"
proof -
  obtain s' where "next_step s = (s', None)" "quiet s'" "sq_jobs s' = sq_jobs s" "sq_index s' = sq_index s"
    "sq_next_id s' = sq_next_id s" by (rule quiet_step[OF assms]) blast
  then show ?thesis by (intro that[of s']) (simp_all add: search_exec_def)
qed

lemma find_append_cases: "find P (xs @ ys) = (case find P xs of None \<Rightarrow> find P ys | Some x \<Rightarrow> Some x)"
  by (induction xs) auto

lemma upsert_document_quiet:
  assumes "quiet s"
  obtains s' where "upsert_document r d s = (s', None)" "quiet s'" "sq_jobs s' = sq_jobs s"
    "\<And>k. found_index s' k = (if k = resource_of d then Some (indexed r d) else found_index s k)"
proof -
  let ?s = "s\<lparr>sq_next_id := sq_next_id s + 1\<rparr>" and ?P = "\<lambda>y. row_resource y = resource_of d"
  define x where "x = (index_document r d)\<lparr>ix_id := sq_next_id s\<rparr>"
  define upd where "upd = (\<lambda>s :: search_store. s\<lparr>sq_index :=
      (if list_ex ?P (sq_index s) then update_rows ?P (\<lambda>y. x\<lparr>ix_id := ix_id y\<rparr>) (sq_index s) else sq_index s @ [x])\<rparr>)"
  have qs: "quiet ?s" using assms by simp
  obtain t where t: "search_exec ''postgres: upsert search document'' upd ?s = (upd t, None)" "quiet t"
    "sq_jobs t = sq_jobs ?s" "sq_index t = sq_index ?s"
    using quiet_exec[OF qs, where msg = "''postgres: upsert search document''" and upd = upd] by blast
  have run: "upsert_document r d s = (upd t, None)"
    using t(1) unfolding upsert_document_def Let_def upd_def x_def .
  have xr: "row_resource x = resource_of d" by (simp add: x_def index_document_def)
  have "found_index (upd t) k = (if k = resource_of d then Some (indexed r d) else found_index s k)" for k
  proof (cases "list_ex ?P (sq_index s)")
    case True
    have "find (\<lambda>y. row_resource y = k) (update_rows ?P (\<lambda>y. x\<lparr>ix_id := ix_id y\<rparr>) (sq_index s)) =
        map_option (\<lambda>y. if ?P y then x\<lparr>ix_id := ix_id y\<rparr> else y) (find (\<lambda>y. row_resource y = k) (sq_index s))"
      by (rule find_update_rows) (simp add: xr)
    moreover obtain y where "find ?P (sq_index s) = Some y" using True find_exists by (metis list_ex_iff)
    ultimately show ?thesis using True t(4) xr
      by (cases "find (\<lambda>y. row_resource y = k) (sq_index s)")
        (auto simp: upd_def found_index_def indexed_def x_def dest: find_Some_mem)
  next
    case False
    then have "find ?P (sq_index s) = None" by (auto simp: find_None_iff list_ex_iff)
    then show ?thesis using False t(4) xr
      by (cases "find (\<lambda>y. row_resource y = k) (sq_index s)")
         (auto simp: upd_def found_index_def indexed_def x_def find_append_cases)
  qed
  moreover have "quiet (upd t)" "sq_jobs (upd t) = sq_jobs s" using t(2,3) by (simp_all add: upd_def)
  ultimately show ?thesis by (intro that[OF run])
qed

lemma delete_document_quiet:
  assumes "quiet s"
  obtains s' where "delete_document k s = (s', None)" "quiet s'" "sq_jobs s' = sq_jobs s"
    "\<And>x. found_index s' x = (if x = k then None else found_index s x)"
proof -
  define upd where "upd = (\<lambda>s :: search_store. s\<lparr>sq_index := filter (\<lambda>y. row_resource y \<noteq> k) (sq_index s)\<rparr>)"
  obtain t where t: "search_exec ''postgres: delete search document'' upd s = (upd t, None)" "quiet t"
    "sq_jobs t = sq_jobs s" "sq_index t = sq_index s"
    using quiet_exec[OF assms, where msg = "''postgres: delete search document''" and upd = upd] by blast
  have "find (\<lambda>y. row_resource y = x) (filter (\<lambda>y. row_resource y \<noteq> k) ys) =
      (if x = k then None else find (\<lambda>y. row_resource y = x) ys)" for x and ys :: "index_row list"
    by (induction ys) auto
  then show ?thesis using t by (intro that[of "upd t"]) (simp_all add: delete_document_def upd_def found_index_def)
qed

lemma apply_job_quiet:
  assumes "quiet s" "known_operation (sj_operation j)"
  obtains s' where "apply_job r j s = (s', None)" "quiet s'" "sq_jobs s' = sq_jobs s"
    "\<And>k. found_index s' k = (if k = job_resource j then applied r j else found_index s k)"
proof (cases "sj_operation j")
  case JobUpsert
  obtain s' where "upsert_document r (sj_doc j) s = (s', None)" "quiet s'" "sq_jobs s' = sq_jobs s"
    "\<And>k. found_index s' k = (if k = job_resource j then Some (indexed r (sj_doc j)) else found_index s k)"
    by (rule upsert_document_quiet[OF assms(1)]) blast
  with JobUpsert show ?thesis by (intro that[of s']) (simp_all add: apply_job_def applied_def)
next
  case JobDelete
  obtain s' where "delete_document (job_resource j) s = (s', None)" "quiet s'" "sq_jobs s' = sq_jobs s"
    "\<And>k. found_index s' k = (if k = job_resource j then None else found_index s k)"
    by (rule delete_document_quiet[OF assms(1)]) blast
  with JobDelete show ?thesis by (intro that[of s']) (simp_all add: apply_job_def applied_def)
qed (use assms(2) in simp)

lemma complete_job_quiet:
  assumes "quiet s"
  obtains s' f where "complete_job i s = (s', None)" "quiet s'" "sq_index s' = sq_index s"
    "\<And>j. found_job s' j = (if j = i then map_option f (found_job s j) else found_job s j)"
    "\<And>j. sj_status (f j) = JobProcessed"
proof -
  define f where "f now = (\<lambda>r :: search_job. r\<lparr>sj_status := JobProcessed, sj_processed_at := Some now, sj_locked_at := None,
                 sj_doc := (sj_doc r)\<lparr>sd_updated_at := now\<rparr>, sj_last_error := None\<rparr>)" for now
  define upd where "upd = (\<lambda>s :: search_store. jobs_where (\<lambda>r. sj_id r = i) (f (sq_now s)) s)"
  obtain t where t: "search_exec ''postgres: mark search job processed'' upd s = (upd t, None)" "quiet t"
    "sq_jobs t = sq_jobs s" "sq_index t = sq_index s"
    using quiet_exec[OF assms, where msg = "''postgres: mark search job processed''" and upd = upd] by blast
  have "find (\<lambda>x. sj_id x = j) (update_rows (\<lambda>x. sj_id x = i) (f now) rows) =
      map_option (\<lambda>x. if sj_id x = i then f now x else x) (find (\<lambda>x. sj_id x = j) rows)" for j now rows
    by (rule find_update_rows) (simp add: f_def)
  then have "found_job (upd t) j = (if j = i then map_option (f (sq_now t)) (found_job s j) else found_job s j)" for j
    using t(3) by (cases "find (\<lambda>x. sj_id x = j) (sq_jobs s)")
      (auto simp: upd_def jobs_where_def found_job_def dest: find_Some_mem)
  then show ?thesis using t
    by (intro that[of "upd t" "f (sq_now t)"])
      (simp_all add: complete_job_def upd_def f_def jobs_where_def)
qed

text \<open>What a run of the worker's loop leaves of the jobs and of the index.\<close>

definition status_of :: "search_store \<Rightarrow> uuid \<Rightarrow> job_status option" where
  "status_of s i = map_option sj_status (found_job s i)"

lemma apply_jobs_quiet:
  assumes "quiet s" "\<forall>j \<in> set js. known_operation (sj_operation j) \<and> found_job s (sj_id j) \<noteq> None"
  obtains s' where "apply_jobs r js n s = (s', n\<lparr>bt_processed := bt_processed n + length js\<rparr>, None)" "quiet s'"
    "\<And>k. found_index s' k = (case find (\<lambda>j. job_resource j = k) (rev js) of Some j \<Rightarrow> applied r j | None \<Rightarrow> found_index s k)"
    "\<And>i. status_of s' i = (if i \<in> sj_id ` set js then Some JobProcessed else status_of s i)"
    "\<And>i. i \<notin> sj_id ` set js \<Longrightarrow> found_job s' i = found_job s i"
  using assms
proof (induction js arbitrary: s n thesis)
  case Nil
  then show ?case by (intro Nil.prems(1)[of s]) simp_all
next
  case (Cons j js)
  obtain s1 where s1: "apply_job r j s = (s1, None)" "quiet s1" "sq_jobs s1 = sq_jobs s"
    "\<And>k. found_index s1 k = (if k = job_resource j then applied r j else found_index s k)"
    using apply_job_quiet[of s j r] Cons.prems(2,3) by auto
  obtain s2 f where s2: "complete_job (sj_id j) s1 = (s2, None)" "quiet s2" "sq_index s2 = sq_index s1"
    "\<And>i. found_job s2 i = (if i = sj_id j then map_option f (found_job s1 i) else found_job s1 i)"
    "\<And>x. sj_status (f x) = JobProcessed"
    by (rule complete_job_quiet[OF s1(2)]) blast
  have fj: "found_job s1 i = found_job s i" for i using s1(3) by (simp add: found_job_def)
  have pre: "\<forall>x \<in> set js. known_operation (sj_operation x) \<and> found_job s2 (sj_id x) \<noteq> None"
    using Cons.prems(3) s2(4) fj by auto
  obtain s' where s': "apply_jobs r js (n\<lparr>bt_processed := bt_processed n + 1\<rparr>) s2 =
      (s', (n\<lparr>bt_processed := bt_processed n + 1\<rparr>)\<lparr>bt_processed := bt_processed (n\<lparr>bt_processed := bt_processed n + 1\<rparr>) + length js\<rparr>, None)"
    "quiet s'"
    "\<And>k. found_index s' k = (case find (\<lambda>j. job_resource j = k) (rev js) of Some j \<Rightarrow> applied r j | None \<Rightarrow> found_index s2 k)"
    "\<And>i. status_of s' i = (if i \<in> sj_id ` set js then Some JobProcessed else status_of s2 i)"
    "\<And>i. i \<notin> sj_id ` set js \<Longrightarrow> found_job s' i = found_job s2 i"
    using Cons.IH[OF _ s2(2) pre, of "n\<lparr>bt_processed := bt_processed n + 1\<rparr>"] by metis
  have run: "apply_jobs r (j # js) n s = (s', n\<lparr>bt_processed := bt_processed n + length (j # js)\<rparr>, None)"
    using do_effect_first_None[of "apply_job r j" s s1, OF s1(1)] do_effect_first_None[of "complete_job (sj_id j)" s1 s2, OF s2(1)] s'(1)
    by simp
  have fi: "found_index s2 k = (if k = job_resource j then applied r j else found_index s k)" for k
    using s1(4) s2(3) by (simp add: found_index_def)
  have st: "status_of s2 i = (if i = sj_id j then Some JobProcessed else status_of s i)" for i
    using s2(4,5) fj Cons.prems(3) by (auto simp: status_of_def)
  show ?case
  proof (rule Cons.prems(1)[OF run s'(2)])
    show "found_index s' k = (case find (\<lambda>j. job_resource j = k) (rev (j # js)) of Some j \<Rightarrow> applied r j | None \<Rightarrow> found_index s k)" for k
      using s'(3)[of k] fi[of k] by (auto simp: find_append_cases split: option.splits)
    show "status_of s' i = (if i \<in> sj_id ` set (j # js) then Some JobProcessed else status_of s i)" for i
      using s'(4)[of i] st[of i] by auto
    show "i \<notin> sj_id ` set (j # js) \<Longrightarrow> found_job s' i = found_job s i" for i using s'(5)[of i] s2(4)[of i] fj[of i] by auto
  qed
qed

section \<open>Claiming\<close>

definition attempts_left :: "search_job list \<Rightarrow> uuid \<Rightarrow> bool" where
  "attempts_left jobs i \<longleftrightarrow> list_all (\<lambda>j. sj_id j = i \<longrightarrow> sj_attempts j < sj_max_attempts j) jobs"

lemma mark_claimed_quiet:
  assumes "quiet s" "distinct (map sj_id js)" "\<forall>j \<in> set js. attempts_left (sq_jobs s) (sj_id j)"
  obtains s' where "mark_claimed now js s = (s', None)" "quiet s'" "sq_index s' = sq_index s"
    "\<And>i. found_job s' i = (if i \<in> sj_id ` set js then map_option (claimed_job now) (found_job s i) else found_job s i)"
  using assms
proof (induction js arbitrary: s thesis)
  case Nil
  then show ?case by (intro Nil.prems(1)[of s]) simp_all
next
  case (Cons j js)
  obtain s1 where s1: "next_step s = (s1, None)" "quiet s1" "sq_jobs s1 = sq_jobs s" "sq_index s1 = sq_index s"
    by (rule quiet_step[OF Cons.prems(2)]) blast
  define s2 where "s2 = jobs_where (\<lambda>r. sj_id r = sj_id j) (claimed_job now) s1"
  have fine: "\<not> list_ex (\<lambda>r. sj_id r = sj_id j \<and> sj_attempts r + 1 > sj_max_attempts r) (sq_jobs s1)"
    using Cons.prems(4) s1(3) by (auto simp: attempts_left_def list_all_iff list_ex_iff)
  have f2: "found_job s2 i = (if i = sj_id j then map_option (claimed_job now) (found_job s i) else found_job s i)" for i
  proof -
    have "found_job s2 i = map_option (\<lambda>x. if sj_id x = sj_id j then claimed_job now x else x) (found_job s i)"
      unfolding found_job_def s2_def jobs_where_def using s1(3)
      by (simp add: find_update_rows claimed_job_def)
    then show ?thesis by (cases "found_job s i") (auto simp: found_job_def dest: find_Some_mem)
  qed
  have left: "\<forall>x \<in> set js. attempts_left (sq_jobs s2) (sj_id x)"
    using Cons.prems(3,4) s1(3) unfolding s2_def jobs_where_def update_rows_def attempts_left_def list_all_iff
    by (auto simp: claimed_job_def)
  have q2: "quiet s2" using s1(2) by (simp add: s2_def)
  obtain s' where s': "mark_claimed now js s2 = (s', None)" "quiet s'" "sq_index s' = sq_index s2"
    "\<And>i. found_job s' i = (if i \<in> sj_id ` set js then map_option (claimed_job now) (found_job s2 i) else found_job s2 i)"
    using Cons.IH[OF _ q2 _ left] Cons.prems(3) by auto
  show ?case
  proof (rule Cons.prems(1))
    show "mark_claimed now (j # js) s = (s', None)" using s1(1) fine s'(1) by (simp add: s2_def)
    show "quiet s'" by (rule s'(2))
    show "sq_index s' = sq_index s" using s'(3) s1(4) by (simp add: s2_def jobs_where_def)
    show "found_job s' i = (if i \<in> sj_id ` set (j # js) then map_option (claimed_job now) (found_job s i) else found_job s i)" for i
      using s'(4)[of i] f2[of i] Cons.prems(3) by auto
  qed
qed

lemma set_claim_batch: "j \<in> set (claim_batch n now jobs) \<Longrightarrow> j \<in> set jobs \<and> claimable_job now j"
  by (auto simp: claim_batch_def dest!: in_set_takeD)

lemma distinct_take_sort:
  "distinct (map key jobs) \<Longrightarrow> distinct (map key (take n (sort_key f (sort_key g (filter P jobs)))))"
proof -
  assume "distinct (map key jobs)"
  then have "inj_on key (set jobs)" "distinct jobs" by (auto simp: distinct_map)
  then have "distinct (map key (sort_key f (sort_key g (filter P jobs))))"
    by (auto simp: distinct_map intro: inj_on_subset)
  then show ?thesis by (metis distinct_take take_map)
qed

lemma claim_batch_distinct:
  "search_ok s \<Longrightarrow> distinct (map sj_id (claim_batch n now (sq_jobs s))) \<and> distinct (map job_resource (claim_batch n now (sq_jobs s)))"
  by (simp add: claim_batch_def search_ok_def distinct_take_sort)

lemma found_job_member: "search_ok s \<Longrightarrow> j \<in> set (sq_jobs s) \<Longrightarrow> found_job s (sj_id j) = Some j"
  by (simp add: found_job_def search_ok_def find_distinct_key)

lemma attempts_left_member:
  assumes "search_ok s" "j \<in> set (sq_jobs s)" "sj_attempts j < sj_max_attempts j"
  shows "attempts_left (sq_jobs s) (sj_id j)"
  using assms by (auto simp: attempts_left_def list_all_iff search_ok_def distinct_map dest: inj_onD)

text \<open>The instant a transaction that starts now sees.\<close>

definition claim_time :: "search_store \<Rightarrow> instant" where
  "claim_time s = sq_now (fst (next_step s))"

abbreviation next_batch :: "int \<Rightarrow> search_store \<Rightarrow> search_job list" where
  "next_batch n s \<equiv> claim_batch n (claim_time s) (sq_jobs s)"

lemma claim_quiet:
  assumes "quiet s" "search_ok s" "\<forall>j \<in> set (next_batch n s). sj_attempts j < sj_max_attempts j"
  obtains s' where
    "claim_pending_jobs n s = (s', Ok (map (\<lambda>j. j\<lparr>sj_attempts := sj_attempts j + 1\<rparr>) (next_batch n s)))"
    "quiet s'" "sq_index s' = sq_index s"
    "\<And>i. found_job s' i = (if i \<in> sj_id ` set (next_batch n s)
          then map_option (claimed_job (claim_time s)) (found_job s i) else found_job s i)"
proof -
  obtain s1 where s1: "next_step s = (s1, None)" "quiet s1" "sq_jobs s1 = sq_jobs s" "sq_index s1 = sq_index s"
    by (rule quiet_step[OF assms(1)]) blast
  obtain s2 where s2: "next_step s1 = (s2, None)" "quiet s2" "sq_jobs s2 = sq_jobs s" "sq_index s2 = sq_index s"
    using quiet_step[OF s1(2)] s1(3,4) by metis
  have now: "claim_time s = sq_now s1" by (simp add: claim_time_def s1)
  let ?b = "next_batch n s"
  have d: "distinct (map sj_id ?b)" using claim_batch_distinct[OF assms(2)] by blast
  have left: "\<forall>j \<in> set ?b. attempts_left (sq_jobs s2) (sj_id j)"
    using assms attempts_left_member set_claim_batch s2(3) by fastforce
  obtain s3 where s3: "mark_claimed (claim_time s) ?b s2 = (s3, None)" "quiet s3" "sq_index s3 = sq_index s2"
    "\<And>i. found_job s3 i = (if i \<in> sj_id ` set ?b then map_option (claimed_job (claim_time s)) (found_job s2 i) else found_job s2 i)"
    using mark_claimed_quiet[OF s2(2) d left, of "claim_time s"] by metis
  obtain s4 where s4: "next_step s3 = (s4, None)" "quiet s4" "sq_jobs s4 = sq_jobs s3" "sq_index s4 = sq_index s3"
    by (rule quiet_step[OF s3(2)]) blast
  show ?thesis
  proof (rule that[of s4])
    show "claim_pending_jobs n s = (s4, Ok (map (\<lambda>j. j\<lparr>sj_attempts := sj_attempts j + 1\<rparr>) ?b))"
      using s1(1) s2(1,3) s3(1) s4(1) now by (simp add: claim_pending_jobs_def Let_def)
    show "quiet s4" "sq_index s4 = sq_index s" using s4(2,4) s3(3) s2(4) by simp_all
    show "found_job s4 i = (if i \<in> sj_id ` set ?b then map_option (claimed_job (claim_time s)) (found_job s i) else found_job s i)" for i
      using s3(4)[of i] s4(3) s2(3) by (simp add: found_job_def)
  qed
qed

text \<open>Over a database that answers, a batch of the indexing worker claims the oldest claimable jobs, and
  when none of them is out of attempts it leaves, for every claimed resource, exactly the document of its
  job in the index (none after a deletion), marks these jobs processed, counts them, and touches no other
  document and no other job.\<close>

lemma search_batch_applied:
  assumes "search_ok s" "quiet s" "\<forall>j \<in> set (next_batch n s). sj_attempts j < sj_max_attempts j"
    and "process_pending_jobs r n s = (s', tally, e)"
  shows "e = None \<and> tally = \<lparr>bt_processed = length (next_batch n s), bt_failed = 0, bt_dead = 0\<rparr> \<and>
    (\<forall>j \<in> set (next_batch n s). found_index s' (job_resource j) = applied r j \<and> status_of s' (sj_id j) = Some JobProcessed) \<and>
    (\<forall>k. k \<notin> job_resource ` set (next_batch n s) \<longrightarrow> found_index s' k = found_index s k) \<and>
    (\<forall>i. i \<notin> sj_id ` set (next_batch n s) \<longrightarrow> found_job s' i = found_job s i)"
proof -
  let ?b = "next_batch n s" and ?bump = "\<lambda>j. j\<lparr>sj_attempts := sj_attempts j + 1\<rparr>"
  obtain s1 where s1: "claim_pending_jobs n s = (s1, Ok (map ?bump ?b))" "quiet s1" "sq_index s1 = sq_index s"
    "\<And>i. found_job s1 i = (if i \<in> sj_id ` set ?b then map_option (claimed_job (claim_time s)) (found_job s i) else found_job s i)"
    by (rule claim_quiet[OF assms(2,1,3)]) blast
  have member: "j \<in> set (sq_jobs s)" "known_operation (sj_operation j)" "found_job s (sj_id j) = Some j" if "j \<in> set ?b" for j
    using that set_claim_batch found_job_member assms(1) by (fastforce simp: search_ok_def job_ok_def)+
  define js where "js = map ?bump ?b"
  have pre: "\<forall>j \<in> set js. known_operation (sj_operation j) \<and> found_job s1 (sj_id j) \<noteq> None"
    using member(2,3) s1(4) by (auto simp: js_def)
  have ids: "sj_id ` set js = sj_id ` set ?b" by (simp add: image_image js_def)
  obtain s2 where s2: "apply_jobs r js no_tally s1 = (s2, no_tally\<lparr>bt_processed := bt_processed no_tally + length js\<rparr>, None)"
    "\<And>k. found_index s2 k = (case find (\<lambda>j. job_resource j = k) (rev js) of Some j \<Rightarrow> applied r j | None \<Rightarrow> found_index s1 k)"
    "\<And>i. status_of s2 i = (if i \<in> sj_id ` set js then Some JobProcessed else status_of s1 i)"
    "\<And>i. i \<notin> sj_id ` set js \<Longrightarrow> found_job s2 i = found_job s1 i"
    by (rule apply_jobs_quiet[OF s1(2) pre, of r no_tally]) blast
  have run: "process_pending_jobs r n s = (s2, no_tally\<lparr>bt_processed := bt_processed no_tally + length ?b\<rparr>, None)"
    using do_state_first_Ok[of "claim_pending_jobs n" s s1, OF s1(1)] s2(1) by (simp add: process_pending_jobs_def js_def)
  have dr: "distinct (map job_resource (rev js))"
    using claim_batch_distinct[OF assms(1), of n "claim_time s"] by (simp add: rev_map[symmetric] comp_def js_def)
  have hit: "found_index s2 (job_resource j) = applied r j" if "j \<in> set ?b" for j
  proof -
    have "find (\<lambda>x. job_resource x = job_resource (?bump j)) (rev js) = Some (?bump j)"
      by (rule find_distinct_key[OF dr]) (use that in \<open>simp add: js_def\<close>)
    then show ?thesis using s2(2)[of "job_resource j"] by (simp add: applied_def)
  qed
  have miss: "found_index s2 k = found_index s k" if "k \<notin> job_resource ` set ?b" for k
  proof -
    have "find (\<lambda>x. job_resource x = k) (rev js) = None" using that by (auto simp: find_None_iff js_def)
    then show ?thesis using s2(2)[of k] s1(3) by (simp add: found_index_def)
  qed
  have done_st: "status_of s2 (sj_id j) = Some JobProcessed" if "j \<in> set ?b" for j
    using s2(3)[of "sj_id j"] that ids by auto
  have other: "found_job s2 i = found_job s i" if "i \<notin> sj_id ` set ?b" for i
    using s2(4)[of i] s1(4)[of i] that ids by simp
  show ?thesis using assms(4) run hit miss done_st other by (simp add: no_tally_def)
qed

definition sample_document :: document where
  "sample_document = plain_document 1 ResMessage 7 (Some 2) [] ''hello'' 5 5"

definition sample_repo :: search_repo where
  "sample_repo = new_search_repo \<lparr>sr_text_config = [], sr_max_attempts = 2, sr_retry_backoff = 0, sr_timeout = 0,
     sr_ctx_err = (\<lambda>s. None), sr_ctx_done = (\<lambda>s d. None), sr_uuid_text = (\<lambda>i. [])\<rparr>"

definition sample_store :: search_store where
  "sample_store = fst (enqueue_upsert sample_repo sample_document (empty_search 10 []))"

lemma search_batch_applied_witness:
  "snd (process_pending_jobs sample_repo 100 sample_store) = (\<lparr>bt_processed = 1, bt_failed = 0, bt_dead = 0\<rparr>, None) \<and>
   found_index (fst (process_pending_jobs sample_repo 100 sample_store)) (1, ResMessage, 7) =
     Some (indexed sample_repo sample_document)"
proof -
  have ok: "search_ok sample_store" "quiet sample_store" "length (next_batch 100 sample_store) = 1"
    "\<forall>j \<in> set (next_batch 100 sample_store). sj_attempts j < sj_max_attempts j \<and> job_resource j = (1, ResMessage, 7) \<and>
      sj_operation j = JobUpsert \<and> sj_doc j = sample_document"
    by code_simp+
  obtain s' t e where run: "process_pending_jobs sample_repo 100 sample_store = (s', t, e)" by (metis prod_cases3)
  obtain j where j: "j \<in> set (next_batch 100 sample_store)" using ok(3) by (metis length_0_conv list.set_sel(1) zero_neq_one)
  show ?thesis using search_batch_applied[OF ok(1,2) _ run] ok(3,4) j run
    by (simp add: applied_def) (metis (no_types, lifting))
qed

lemma length_filter_mono: "(\<And>x. P x \<Longrightarrow> Q x) \<Longrightarrow> length (filter P xs) \<le> length (filter Q xs)"
  by (induction xs) (auto intro: le_SucI)

section \<open>A job that blocks the queue\<close>

lemma take_sort_member:
  assumes "x \<in> set xs" "length (filter (\<lambda>y. f y \<le> f x) xs) \<le> n"
  shows "x \<in> set (take n (sort_key f xs))"
proof -
  let ?P = "\<lambda>y. f y \<le> f x" and ?ys = "sort_key f xs"
  have "takeWhile ?P ?ys = filter ?P ?ys"
  proof (rule takeWhile_eq_filter)
    fix y assume "y \<in> set (dropWhile ?P ?ys)"
    moreover have "sorted (map f (dropWhile ?P ?ys))" by (metis dropWhile_eq_drop drop_map sorted_sort_key sorted_wrt_drop)
    moreover have "dropWhile ?P ?ys \<noteq> [] \<Longrightarrow> \<not> ?P (hd (dropWhile ?P ?ys))" by (rule hd_dropWhile)
    ultimately show "\<not> ?P y" by (cases "dropWhile ?P ?ys") fastforce+
  qed
  moreover have "length (filter ?P ?ys) \<le> n" using assms(2) by (simp add: filter_sort)
  moreover have "x \<in> set (filter ?P ?ys)" using assms(1) by simp
  ultimately show ?thesis by (metis set_take_subset_set_take subsetD takeWhile_eq_take)
qed

text \<open>A job abandoned by a worker on its last attempt, with fewer jobs before it than a batch takes.\<close>

definition blocks :: "int \<Rightarrow> search_store \<Rightarrow> search_job \<Rightarrow> bool" where
  "blocks n s j \<longleftrightarrow>
     j \<in> set (sq_jobs s) \<and> sj_status j = JobProcessing \<and> sj_attempts j = sj_max_attempts j \<and>
     (case sj_locked_at j of None \<Rightarrow> False | Some l \<Rightarrow> l < sq_now s - 5 * minute) \<and> sj_available_at j \<le> sq_now s \<and>
     int (length (filter (\<lambda>x. sj_available_at x \<le> sj_available_at j) (sq_jobs s))) \<le> n"

definition out_of_attempts :: error where
  "out_of_attempts = Wrapped ''postgres: claim search job'' (check_violation ''search_index_jobs_attempts_bounded'')"

lemma out_of_attempts_final: "\<not> should_retry (Some out_of_attempts)"
  by code_simp

lemma mark_claimed_blocked:
  assumes "quiet s" "distinct (map sj_id js)" "j \<in> set js" "j \<in> set (sq_jobs s)" "sj_attempts j = sj_max_attempts j"
  obtains s' where "mark_claimed now js s = (s', Some out_of_attempts)" "quiet s'" "sq_index s' = sq_index s" "sq_now s \<le> sq_now s'"
  using assms
proof (induction js arbitrary: s thesis)
  case (Cons a js)
  obtain s1 where s1: "next_step s = (s1, None)" "quiet s1" "sq_jobs s1 = sq_jobs s" "sq_index s1 = sq_index s" "sq_now s \<le> sq_now s1"
    by (rule quiet_step[OF Cons.prems(2)]) blast
  show ?case
  proof (cases "list_ex (\<lambda>r. sj_id r = sj_id a \<and> sj_attempts r + 1 > sj_max_attempts r) (sq_jobs s1)")
    case True
    then show ?thesis using s1 by (intro Cons.prems(1)[of s1]) (simp_all add: out_of_attempts_def)
  next
    case False
    then have "sj_id a \<noteq> sj_id j" using Cons.prems(5,6) s1(3) by (auto simp: list_ex_iff)
    then have j: "j \<in> set js" using Cons.prems(4) by auto
    define s2 where "s2 = jobs_where (\<lambda>r. sj_id r = sj_id a) (claimed_job now) s1"
    have s2: "quiet s2" "j \<in> set (sq_jobs s2)" "sq_index s2 = sq_index s" "sq_now s \<le> sq_now s2"
      using s1 Cons.prems(5) \<open>sj_id a \<noteq> sj_id j\<close> unfolding s2_def jobs_where_def update_rows_def
      by (auto simp: quiet_def image_iff intro!: bexI[of _ j])
    obtain s' where s': "mark_claimed now js s2 = (s', Some out_of_attempts)" "quiet s'" "sq_index s' = sq_index s2" "sq_now s2 \<le> sq_now s'"
      by (rule Cons.IH[OF _ s2(1) _ j s2(2) Cons.prems(6)]) (use Cons.prems(3) in auto)
    show ?thesis using s1(1) False s' s2 by (intro Cons.prems(1)[of s']) (simp_all add: s2_def)
  qed
qed simp

lemma blocked_batch:
  assumes "search_ok s" "quiet s" "blocks n s j"
  obtains s' where "process_pending_jobs r n s = (s', no_tally, Some out_of_attempts)" "quiet s'"
    "sq_jobs s' = sq_jobs s" "sq_index s' = sq_index s" "sq_now s \<le> sq_now s'"
proof -
  obtain s1 where s1: "next_step s = (s1, None)" "quiet s1" "sq_jobs s1 = sq_jobs s" "sq_index s1 = sq_index s" "sq_now s \<le> sq_now s1"
    by (rule quiet_step[OF assms(2)]) blast
  obtain s2 where s2: "next_step s1 = (s2, None)" "quiet s2" "sq_jobs s2 = sq_jobs s1" "sq_index s2 = sq_index s1" "sq_now s1 \<le> sq_now s2"
    by (rule quiet_step[OF s1(2)]) blast
  have b: "j \<in> set (sq_jobs s)" "sj_attempts j = sj_max_attempts j" "claimable_job (sq_now s1) j"
    "int (length (filter (\<lambda>x. sj_available_at x \<le> sj_available_at j) (sq_jobs s))) \<le> n"
    using assms(3) s1(5) by (auto simp: blocks_def claimable_job_def split: option.splits)
  let ?js = "claim_batch n (sq_now s1) (sq_jobs s)"
  have "j \<in> set ?js"
  proof -
    let ?xs = "sort_key (\<lambda>j. sd_created_at (sj_doc j)) (filter (claimable_job (sq_now s1)) (sq_jobs s))"
    let ?P = "\<lambda>x. sj_available_at x \<le> sj_available_at j"
    have "length (filter ?P ?xs) = length (filter (\<lambda>x. claimable_job (sq_now s1) x \<and> ?P x) (sq_jobs s))"
      by (simp add: filter_sort)
    also have "\<dots> \<le> length (filter ?P (sq_jobs s))" by (rule length_filter_mono) simp
    finally have "length (filter ?P ?xs) \<le> nat n" using b(4) by linarith
    then show ?thesis unfolding claim_batch_def using b(1,3) by (intro take_sort_member) simp_all
  qed
  then obtain s3 where s3: "mark_claimed (sq_now s1) ?js s2 = (s3, Some out_of_attempts)" "quiet s3"
    "sq_index s3 = sq_index s2" "sq_now s2 \<le> sq_now s3"
    using mark_claimed_blocked[OF s2(2) _ _ _ b(2), of ?js "sq_now s1"] claim_batch_distinct[OF assms(1)] b(1) s1(3) s2(3)
    by metis
  have claim: "claim_pending_jobs n s = (s3\<lparr>sq_jobs := sq_jobs s2\<rparr>, Err out_of_attempts)"
    using s1(1,3) s2(1,3) s3(1) by (simp add: claim_pending_jobs_def Let_def)
  have "do_state (search_policy r 2) (claim_pending_jobs n) (sr_ctx_err r) (sr_ctx_done r) s =
      (s3\<lparr>sq_jobs := sq_jobs s2\<rparr>, Err out_of_attempts)"
    by (rule do_state_first_Err[where fn = "claim_pending_jobs n" and s = s, OF claim out_of_attempts_final])
  then show ?thesis using s1 s2 s3
    by (intro that[of "s3\<lparr>sq_jobs := sq_jobs s2\<rparr>"]) (simp_all add: process_pending_jobs_def)
qed

text \<open>C29: a job that a worker abandoned on its last attempt is still claimed, and its claim breaks the bound
  on attempts: while it is among the oldest jobs, every later batch of the worker fails as a whole, however
  often it runs and although no statement of the database fails otherwise, and nothing is indexed any more.\<close>

theorem abandoned_job_blocks_queue:
  assumes "search_ok s" "quiet s" "blocks n s j"
    and "s' = ((\<lambda>s. fst (process_pending_jobs r n s)) ^^ k) s"
  shows "sq_jobs s' = sq_jobs s \<and> sq_index s' = sq_index s \<and> snd (process_pending_jobs r n s') = (no_tally, Some out_of_attempts)"
proof -
  have inv: "search_ok s' \<and> quiet s' \<and> sq_jobs s' = sq_jobs s \<and> sq_index s' = sq_index s \<and> sq_now s \<le> sq_now s'"
    unfolding assms(4)
  proof (induction k)
    case (Suc k)
    let ?t = "((\<lambda>s. fst (process_pending_jobs r n s)) ^^ k) s"
    have bl: "blocks n ?t j" using Suc assms(3) by (auto simp: blocks_def split: option.splits)
    obtain u where u: "process_pending_jobs r n ?t = (u, no_tally, Some out_of_attempts)" "quiet u"
      "sq_jobs u = sq_jobs ?t" "sq_index u = sq_index ?t" "sq_now ?t \<le> sq_now u"
      using blocked_batch[OF _ _ bl] Suc by blast
    moreover have "search_ok u" using keeps_process Suc u(1) by (metis fst_conv keeps_search_def)
    ultimately show ?case using Suc by simp
  qed (use assms in simp)
  then have "blocks n s' j" using assms(3) by (auto simp: blocks_def split: option.splits)
  with inv show ?thesis by (metis blocked_batch snd_conv)
qed

definition abandoned_job :: search_job where
  "abandoned_job = (new_job sample_repo JobUpsert sample_document (empty_search 10 []))\<lparr>sj_attempts := 2,
     sj_status := JobProcessing, sj_locked_at := Some 11\<rparr>"

definition blocked_store :: search_store where
  "blocked_store = (empty_search 1000000000000 [])\<lparr>sq_jobs := [abandoned_job]\<rparr>"

theorem abandoned_job_blocks_queue_witness:
  "snd (process_pending_jobs sample_repo 100 (((\<lambda>s. fst (process_pending_jobs sample_repo 100 s)) ^^ 7) blocked_store)) =
     (no_tally, Some out_of_attempts)"
proof -
  have "search_ok blocked_store" "quiet blocked_store" "blocks 100 blocked_store abandoned_job" by code_simp+
  from abandoned_job_blocks_queue[OF this refl] show ?thesis by blast
qed

text \<open>A change enqueued while a worker holds the job of the same resource is lost: the worker completes the
  row under its identifier, and the index keeps the old content with nothing left to claim.\<close>

lemma update_during_processing_lost:
  "let s1 = fst (claim_pending_jobs 100 sample_store);
       s2 = fst (enqueue_upsert sample_repo (sample_document\<lparr>sd_content := ''hello again''\<rparr>) s1);
       s3 = fst (apply_job sample_repo (hd (sq_jobs sample_store)) s2);
       s4 = fst (complete_job 1 s3) in
   filter (claimable_job (sq_now s4)) (sq_jobs s4) = [] \<and>
   map (\<lambda>y. sd_content (ix_doc y)) (sq_index s4) = [''hello'']"
  by code_simp

section \<open>Rebuilding an index\<close>

text \<open>What a part of the rebuilding adds to the index; it leaves the jobs alone.\<close>

definition adds :: "search_repo \<Rightarrow> document list \<Rightarrow> (search_store \<Rightarrow> search_store \<times> error option) \<Rightarrow> bool" where
  "adds r ds f \<longleftrightarrow> (\<forall>s. quiet s \<longrightarrow> (\<exists>s'. f s = (s', None) \<and> quiet s' \<and> sq_jobs s' = sq_jobs s \<and>
     (\<forall>k. found_index s' k = (case find (\<lambda>d. resource_of d = k) (rev ds) of
        Some d \<Rightarrow> Some (indexed r d) | None \<Rightarrow> found_index s k))))"

lemma adds_then:
  assumes "adds r ds f" "adds r es g"
  shows "adds r (ds @ es) (then_exec f g)"
  unfolding adds_def
proof (intro allI impI)
  fix s assume "quiet s"
  then obtain s1 where s1: "f s = (s1, None)" "quiet s1" "sq_jobs s1 = sq_jobs s"
    "\<And>k. found_index s1 k = (case find (\<lambda>d. resource_of d = k) (rev ds) of Some d \<Rightarrow> Some (indexed r d) | None \<Rightarrow> found_index s k)"
    using assms(1) unfolding adds_def by blast
  obtain s2 where s2: "g s1 = (s2, None)" "quiet s2" "sq_jobs s2 = sq_jobs s1"
    "\<And>k. found_index s2 k = (case find (\<lambda>d. resource_of d = k) (rev es) of Some d \<Rightarrow> Some (indexed r d) | None \<Rightarrow> found_index s1 k)"
    using assms(2) s1(2) unfolding adds_def by blast
  have "found_index s2 k = (case find (\<lambda>d. resource_of d = k) (rev (ds @ es)) of Some d \<Rightarrow> Some (indexed r d) | None \<Rightarrow> found_index s k)" for k
    using s1(4)[of k] s2(4)[of k] by (simp add: find_append_cases split: option.splits)
  then show "\<exists>s'. then_exec f g s = (s', None) \<and> quiet s' \<and> sq_jobs s' = sq_jobs s \<and>
     (\<forall>k. found_index s' k = (case find (\<lambda>d. resource_of d = k) (rev (ds @ es)) of
        Some d \<Rightarrow> Some (indexed r d) | None \<Rightarrow> found_index s k))"
    using s1 s2 by (intro exI[of _ s2]) (simp add: then_exec_def)
qed

lemma adds_upserts: "adds r ds (upsert_documents r ds)"
proof (induction ds)
  case Nil
  then show ?case by (auto simp: adds_def)
next
  case (Cons d ds)
  have one: "adds r [d] (upsert_document r d)"
    unfolding adds_def
  proof (intro allI impI)
    fix s assume "quiet s"
    then obtain s' where "upsert_document r d s = (s', None)" "quiet s'" "sq_jobs s' = sq_jobs s"
      "\<And>k. found_index s' k = (if k = resource_of d then Some (indexed r d) else found_index s k)"
      by (rule upsert_document_quiet) blast
    then show "\<exists>s'. upsert_document r d s = (s', None) \<and> quiet s' \<and> sq_jobs s' = sq_jobs s \<and>
      (\<forall>k. found_index s' k = (case find (\<lambda>d. resource_of d = k) (rev [d]) of
        Some d \<Rightarrow> Some (indexed r d) | None \<Rightarrow> found_index s k))"
      by (intro exI[of _ s']) auto
  qed
  have "upsert_documents r (d # ds) = then_exec (upsert_document r d) (upsert_documents r ds)"
    by (rule ext) (simp add: then_exec_def)
  then show ?case using adds_then[OF one Cons.IH] by simp
qed

lemma adds_rows: "adds r ds (reindex_rows r what ds)"
proof -
  have "adds r [] (search_exec msg id)" for msg
    unfolding adds_def
  proof (intro allI impI)
    fix s assume q: "quiet s"
    obtain s' where "search_exec msg id s = (id s', None)" "quiet s'" "sq_jobs s' = sq_jobs s" "sq_index s' = sq_index s"
      using quiet_exec[OF q, where msg = msg and upd = id] by blast
    then show "\<exists>s'. search_exec msg id s = (s', None) \<and> quiet s' \<and> sq_jobs s' = sq_jobs s \<and>
      (\<forall>k. found_index s' k = (case find (\<lambda>d. resource_of d = k) (rev []) of
        Some d \<Rightarrow> Some (indexed r d) | None \<Rightarrow> found_index s k))"
      by (intro exI[of _ s']) (simp add: found_index_def)
  qed
  from adds_then[OF this adds_upserts] show ?thesis unfolding reindex_rows_def by simp
qed

lemma reset_quiet:
  assumes "quiet s"
  obtains s' where "reset_workspace w s = (s', None)" "quiet s'"
    "sq_jobs s' = filter (\<lambda>j. sd_workspace (sj_doc j) \<noteq> w) (sq_jobs s)"
    "\<And>k. found_index s' k = (if fst k = w then None else found_index s k)"
proof -
  define cj where "cj = (\<lambda>s :: search_store. s\<lparr>sq_jobs := filter (\<lambda>j. sd_workspace (sj_doc j) \<noteq> w) (sq_jobs s)\<rparr>)"
  define ci where "ci = (\<lambda>s :: search_store. s\<lparr>sq_index := filter (\<lambda>y. sd_workspace (ix_doc y) \<noteq> w) (sq_index s)\<rparr>)"
  obtain s1 where s1: "search_exec ''postgres: begin search reindex tx'' id s = (id s1, None)" "quiet s1"
    "sq_jobs s1 = sq_jobs s" "sq_index s1 = sq_index s"
    using quiet_exec[OF assms, where msg = "''postgres: begin search reindex tx''" and upd = id] by blast
  obtain s2 where s2: "search_exec ''postgres: clear search jobs for reindex'' cj s1 = (cj s2, None)" "quiet s2"
    "sq_jobs s2 = sq_jobs s1" "sq_index s2 = sq_index s1"
    using quiet_exec[OF s1(2), where msg = "''postgres: clear search jobs for reindex''" and upd = cj] by blast
  have q2: "quiet (cj s2)" using s2(2) by (simp add: cj_def)
  obtain s3 where s3: "search_exec ''postgres: clear search index for reindex'' ci (cj s2) = (ci s3, None)" "quiet s3"
    "sq_jobs s3 = sq_jobs (cj s2)" "sq_index s3 = sq_index (cj s2)"
    using quiet_exec[OF q2, where msg = "''postgres: clear search index for reindex''" and upd = ci] by blast
  have q3: "quiet (ci s3)" using s3(2) by (simp add: ci_def)
  obtain s4 where s4: "search_exec ''postgres: commit search reindex reset'' id (ci s3) = (id s4, None)" "quiet s4"
    "sq_jobs s4 = sq_jobs (ci s3)" "sq_index s4 = sq_index (ci s3)"
    using quiet_exec[OF q3, where msg = "''postgres: commit search reindex reset''" and upd = id] by blast
  have run: "reset_workspace w s = (s4, None)"
    unfolding reset_workspace_def cj_def[symmetric] ci_def[symmetric] using s1(1) s2(1) s3(1) s4(1) by (simp add: then_exec_def)
  have "find (\<lambda>y. row_resource y = k) (filter (\<lambda>y. sd_workspace (ix_doc y) \<noteq> w) ys) =
      (if fst k = w then None else find (\<lambda>y. row_resource y = k) ys)" for k and ys :: "index_row list"
    by (induction ys) (auto simp: resource_of_def)
  then show ?thesis using s1 s2 s3 s4
    by (intro that[OF run]) (simp_all add: cj_def ci_def found_index_def)
qed

text \<open>What a workspace's index is to hold: its open channels, their live messages with the files attached to
  them, and its active members.\<close>

definition searchable :: "corpus \<Rightarrow> uuid \<Rightarrow> resource_type \<Rightarrow> uuid \<Rightarrow> bool" where
  "searchable c w ty i \<longleftrightarrow>
     (case ty of
        ResChannel \<Rightarrow> open_channel c w i
      | ResMessage \<Rightarrow> list_ex (\<lambda>m. ms_id m = i \<and> ms_deleted_at m = None \<and> open_channel c w (ms_channel m)) (mt_messages (co_messages c))
      | ResFile \<Rightarrow> list_ex (\<lambda>a. at_id a = i \<and> list_ex (\<lambda>m. ms_id m = at_message a \<and> ms_deleted_at m = None \<and>
            open_channel c w (ms_channel m)) (mt_messages (co_messages c))) (mt_attachments (co_messages c))
      | ResUser \<Rightarrow> list_ex (\<lambda>m. wm_workspace m = w \<and> wm_user m = i) (db_members (co_db c)) \<and>
            list_ex (\<lambda>u. ur_id u = i \<and> ur_active u) (co_users c)
      | ResOther x \<Rightarrow> False)"

definition workspace_documents :: "search_repo \<Rightarrow> corpus \<Rightarrow> uuid \<Rightarrow> document list" where
  "workspace_documents r c w =
     channel_documents c w @ message_documents c w @ file_documents r c w @ user_documents c w"

lemma documents_searchable:
  "k \<in> resource_of ` set (workspace_documents r c w) \<longleftrightarrow> fst k = w \<and> searchable c w (fst (snd k)) (snd (snd k))"
proof -
  obtain v ty i where k: "k = (v, ty, i)" by (metis prod_cases3)
  have ch: "k \<in> resource_of ` set (channel_documents c w) \<longleftrightarrow> v = w \<and> ty = ResChannel \<and> open_channel c w i"
    unfolding k by (auto simp: channel_documents_def channel_document_def plain_document_def resource_of_def image_iff
        open_channel_def list_ex_iff)
  have ms: "k \<in> resource_of ` set (message_documents c w) \<longleftrightarrow> v = w \<and> ty = ResMessage \<and> searchable c w ResMessage i"
    unfolding k by (auto simp: message_documents_def plain_document_def resource_of_def image_iff indexed_message_def
        searchable_def list_ex_iff)
  have fl: "k \<in> resource_of ` set (file_documents r c w) \<longleftrightarrow> v = w \<and> ty = ResFile \<and> searchable c w ResFile i"
    unfolding k by (auto simp: file_documents_def plain_document_def resource_of_def image_iff indexed_message_def
        searchable_def list_ex_iff)
  have us: "k \<in> resource_of ` set (user_documents c w) \<longleftrightarrow> v = w \<and> ty = ResUser \<and> searchable c w ResUser i"
    unfolding k by (auto simp: user_documents_def plain_document_def resource_of_def image_iff searchable_def list_ex_iff)
  have "k \<in> resource_of ` set (workspace_documents r c w) \<longleftrightarrow>
      k \<in> resource_of ` set (channel_documents c w) \<or> k \<in> resource_of ` set (message_documents c w) \<or>
      k \<in> resource_of ` set (file_documents r c w) \<or> k \<in> resource_of ` set (user_documents c w)"
    by (simp only: workspace_documents_def set_append image_Un Un_iff)
  then show ?thesis unfolding ch ms fl us by (cases ty) (auto simp: k searchable_def)
qed

lemma message_document_of:
  assumes "d \<in> set (workspace_documents r c w)" "sd_type d = ResMessage"
  shows "\<exists>m' \<in> set (mt_messages (co_messages c)). ms_id m' = sd_resource d \<and> sd_content d = ms_content m'"
  using assms by (auto simp: workspace_documents_def channel_documents_def channel_document_def message_documents_def
      file_documents_def user_documents_def plain_document_def)

text \<open>C28: a rebuilding of a workspace's index over a database that answers every statement (\<open>quiet s\<close>) drops its queued jobs and leaves in
  the index, of that workspace, exactly its open channels, their live messages and the files attached to
  those, and its active members, each with its present content; other workspaces keep their documents and
  their jobs.\<close>

theorem reindex_workspace_exact:
  assumes "quiet s" "reindex_workspace r c w s = (s', e)"
  shows "e = None \<and> sq_jobs s' = filter (\<lambda>j. sd_workspace (sj_doc j) \<noteq> w) (sq_jobs s) \<and>
    (\<forall>v ty i. found_index s' (v, ty, i) \<noteq> None \<longleftrightarrow>
       (if v = w then searchable c w ty i else found_index s (v, ty, i) \<noteq> None)) \<and>
    (\<forall>v ty i. v \<noteq> w \<longrightarrow> found_index s' (v, ty, i) = found_index s (v, ty, i)) \<and>
    (\<forall>m. m \<in> set (mt_messages (co_messages c)) \<and> distinct (map ms_id (mt_messages (co_messages c))) \<and> indexed_message c w m \<longrightarrow>
       map_option (sd_content \<circ> fst) (found_index s' (w, ResMessage, ms_id m)) = Some (ms_content m))"
proof -
  obtain s1 where s1: "reset_workspace w s = (s1, None)" "quiet s1"
    "sq_jobs s1 = filter (\<lambda>j. sd_workspace (sj_doc j) \<noteq> w) (sq_jobs s)"
    "\<And>k. found_index s1 k = (if fst k = w then None else found_index s k)"
    by (rule reset_quiet[OF assms(1)]) blast
  let ?ds = "workspace_documents r c w"
  define rebuild where "rebuild = then_exec (reindex_rows r ''channels'' (channel_documents c w))
    (then_exec (reindex_rows r ''messages'' (message_documents c w))
      (then_exec (reindex_rows r ''files'' (file_documents r c w)) (reindex_rows r ''users'' (user_documents c w))))"
  have "adds r ?ds rebuild" unfolding workspace_documents_def rebuild_def by (intro adds_then adds_rows)
  then obtain s2 where s2: "rebuild s1 = (s2, None)" "sq_jobs s2 = sq_jobs s1"
    "\<And>k. found_index s2 k = (case find (\<lambda>d. resource_of d = k) (rev ?ds) of Some d \<Rightarrow> Some (indexed r d) | None \<Rightarrow> found_index s1 k)"
    using s1(2) unfolding adds_def by blast
  have run: "reindex_workspace r c w s = (s2, None)"
    using s1(1) s2(1) by (simp add: reindex_workspace_def rebuild_def then_exec_def)
  have hit: "find (\<lambda>d. resource_of d = k) (rev ?ds) = None \<longleftrightarrow> \<not> (fst k = w \<and> searchable c w (fst (snd k)) (snd (snd k)))" for k
    using documents_searchable[of k r c w] by (auto simp: find_None_iff)
  have there: "found_index s2 (v, ty, i) \<noteq> None \<longleftrightarrow> (if v = w then searchable c w ty i else found_index s (v, ty, i) \<noteq> None)" for v ty i
    using s2(3)[of "(v, ty, i)"] hit[of "(v, ty, i)"] s1(4)[of "(v, ty, i)"] by (auto split: option.splits)
  have other: "v \<noteq> w \<Longrightarrow> found_index s2 (v, ty, i) = found_index s (v, ty, i)" for v ty i
    using s2(3)[of "(v, ty, i)"] hit[of "(v, ty, i)"] s1(4)[of "(v, ty, i)"] by (auto split: option.splits)
  have content: "map_option (sd_content \<circ> fst) (found_index s2 (w, ResMessage, ms_id m)) = Some (ms_content m)"
    if m: "m \<in> set (mt_messages (co_messages c))" "distinct (map ms_id (mt_messages (co_messages c)))" "indexed_message c w m" for m
  proof -
    have "searchable c w ResMessage (ms_id m)" using m by (auto simp: searchable_def list_ex_iff indexed_message_def)
    then obtain d where d: "find (\<lambda>d. resource_of d = (w, ResMessage, ms_id m)) (rev ?ds) = Some d"
      using hit[of "(w, ResMessage, ms_id m)"] by auto
    then have "d \<in> set ?ds" "sd_type d = ResMessage" "sd_resource d = ms_id m"
      by (auto simp: resource_of_def dest: find_Some_mem)
    then obtain m' where "m' \<in> set (mt_messages (co_messages c))" "ms_id m' = ms_id m" "sd_content d = ms_content m'"
      using message_document_of by metis
    moreover then have "m' = m" using m by (auto simp: distinct_map dest: inj_onD)
    ultimately show ?thesis using s2(3)[of "(w, ResMessage, ms_id m)"] d by (simp add: indexed_def index_document_def)
  qed
  show ?thesis using assms(2) run s2(2) s1(3) there other content by auto
qed

text \<open>The open channel 2 holds the deleted message 7, the message 8 and its file 9.\<close>

definition small_corpus :: corpus where
  "small_corpus =
     (let m = \<lparr>ms_id = 7, ms_channel = 2, ms_sender = SenderUser, ms_user = 3, ms_guest = None, ms_name = [], ms_parent = None,
           ms_content = ''hello'', ms_type = MessageText, ms_edited = False, ms_edited_at = None, ms_pinned = False, ms_pinned_by = None,
           ms_pinned_at = None, ms_created_at = 5, ms_updated_at = 5, ms_deleted_at = Some 6\<rparr> in
      \<lparr>co_db = empty_db\<lparr>db_channels := [\<lparr>ch_id = 2, ch_workspace = 1, ch_name = ''general'', ch_topic = [], ch_type = ChPublic,
         ch_created_by = 3, ch_archived = False, ch_created_at = 4, ch_updated_at = 4\<rparr>]\<rparr>,
       co_messages = \<lparr>mt_messages = [m, m\<lparr>ms_id := 8, ms_content := ''hi'', ms_deleted_at := None\<rparr>], mt_reactions = [],
         mt_attachments = [\<lparr>at_id = 9, at_message = 8, at_name = ''plan'', at_size = 1, at_mime = ''text/plain'', at_path = ''p'', at_url = [],
           at_created_at = 6\<rparr>],
         mt_states = [], mt_fault = (\<lambda>s i. None)\<rparr>, co_users = []\<rparr>)"

theorem reindex_workspace_exact_witness:
  "let s = fst (reindex_workspace sample_repo small_corpus 1 sample_store) in
   sq_jobs sample_store \<noteq> [] \<and> sq_jobs s = [] \<and> found_index s (1, ResChannel, 2) \<noteq> None \<and> found_index s (1, ResMessage, 7) = None \<and>
   map_option (sd_content \<circ> fst) (found_index s (1, ResMessage, 8)) = Some ''hi'' \<and> found_index s (1, ResFile, 9) \<noteq> None"
proof -
  obtain s' e where run: "reindex_workspace sample_repo small_corpus 1 sample_store = (s', e)" by fastforce
  let ?m = "mt_messages (co_messages small_corpus) ! 1"
  have q: "quiet sample_store" "filter (\<lambda>j. sd_workspace (sj_doc j) \<noteq> 1) (sq_jobs sample_store) = []" "sq_jobs sample_store \<noteq> []"
    by code_simp+
  have rows: "\<not> searchable small_corpus 1 ResMessage 7" "searchable small_corpus 1 ResChannel 2" "searchable small_corpus 1 ResFile 9"
    by code_simp+
  have m: "distinct (map ms_id (mt_messages (co_messages small_corpus)))" "indexed_message small_corpus 1 ?m" "ms_id ?m = 8"
    "ms_content ?m = ''hi''" "1 < length (mt_messages (co_messages small_corpus))"
    by code_simp+
  note th = reindex_workspace_exact[OF q(1) run]
  have "sq_jobs s' = []" using conjunct1[OF conjunct2[OF th]] q(2) by (rule trans)
  moreover have "found_index s' (1, ResMessage, 7) = None" "found_index s' (1, ResChannel, 2) \<noteq> None" "found_index s' (1, ResFile, 9) \<noteq> None"
    using conjunct1[OF conjunct2[OF conjunct2[OF th]]] rows by metis+
  moreover have "map_option (sd_content \<circ> fst) (found_index s' (1, ResMessage, 8)) = Some ''hi''"
    using conjunct2[OF conjunct2[OF conjunct2[OF conjunct2[OF th]]]] m nth_mem[OF m(5)] by metis
  ultimately show ?thesis using q(3) by (simp add: run del: One_nat_def)
qed

end
