(* ===== verification/SearchService.thy ===== *)
theory SearchService
  imports Complex_Main Steps SearchProps Access
begin

text \<open>
  Searching: the query of \<open>internal/repository/postgres/search.go\<close> and the service of
  \<open>internal/service/search/service.go\<close> around it. What full text search answers (whether a \<open>tsvector\<close>
  matches, its rank, a headline) is PostgreSQL's, the record \<open>text_search\<close>; the joins and the conditions on
  what a user may see are the query's. Scores are rational. Loading the accessible channels pages through the
  access policy, which may not return in the model: then \<open>None\<close>. Queries are only logged in the audit log.
\<close>

section \<open>Parameters and results\<close>

record search_result =
  rs_type :: resource_type
  rs_id :: uuid
  rs_workspace :: uuid
  rs_channel :: "uuid option"
  rs_title :: string
  rs_snippet :: string
  rs_score :: rat
  rs_created_at :: instant
  rs_updated_at :: instant

record search_results =
  fr_results :: "search_result list"
  fr_total :: int
  fr_next :: int

record search_params =
  sp_query :: string
  sp_workspace :: uuid
  sp_channel :: "uuid option"
  sp_user :: "uuid option"
  sp_type :: string
  sp_from :: "instant option"
  sp_to :: "instant option"
  sp_limit :: int
  sp_offset :: int
  sp_accessible :: "uuid list"
  sp_allow_users :: bool

fun resource_type_text :: "resource_type \<Rightarrow> string" where
  "resource_type_text ResMessage = ''message''"
| "resource_type_text ResFile = ''file''"
| "resource_type_text ResChannel = ''channel''"
| "resource_type_text ResUser = ''user''"
| "resource_type_text (ResOther x) = x"

section \<open>The query\<close>

record text_search =
  tx_matches :: "string \<Rightarrow> tsvector \<Rightarrow> string \<Rightarrow> bool"
  tx_rank :: "string \<Rightarrow> tsvector \<Rightarrow> string \<Rightarrow> rat"
  tx_headline :: "string \<Rightarrow> string \<Rightarrow> string \<Rightarrow> string"

text \<open>Characters of UTF-8 text: \<open>LEFT\<close>, and the wildcards of \<open>LIKE\<close>.\<close>

definition continuation_byte :: "char \<Rightarrow> bool" where
  "continuation_byte c \<longleftrightarrow> CHR 0x80 \<le> c \<and> c \<le> CHR 0xBF"

fun utf8_left :: "nat \<Rightarrow> string \<Rightarrow> string" where
  "utf8_left n [] = []"
| "utf8_left n (c # s) =
     (if continuation_byte c then c # utf8_left n s
      else case n of 0 \<Rightarrow> [] | Suc k \<Rightarrow> c # utf8_left k s)"

lemma length_dropWhile_tl [termination_simp]: "length (dropWhile P s) < Suc (length s)"
  using length_dropWhile_le[of P s] by simp

function sql_like :: "string \<Rightarrow> string \<Rightarrow> bool" where
  "sql_like [] s \<longleftrightarrow> s = []"
| "sql_like (c # p) s \<longleftrightarrow>
     (if c = CHR ''%'' then sql_like p s \<or> (case s of [] \<Rightarrow> False | x # s' \<Rightarrow> sql_like (c # p) s')
      else case s of
        [] \<Rightarrow> False
      | x # s' \<Rightarrow>
          if c = CHR ''_'' then sql_like p (dropWhile continuation_byte s')
          else if c = CHR 0x5C then (case p of [] \<Rightarrow> False | c' # p' \<Rightarrow> x = c' \<and> sql_like p' s')
          else x = c \<and> sql_like p s')"
  by pat_completeness auto
termination by (relation "measure (\<lambda>(p, s). length p + length s)") (auto simp: less_Suc_eq_le intro: le_SucI length_dropWhile_le)

definition ilike :: "string \<Rightarrow> string \<Rightarrow> bool" where
  "ilike v pat = sql_like (to_lower pat) (to_lower v)"

text \<open>The rows a document joins with.\<close>

definition joined_message :: "corpus \<Rightarrow> document \<Rightarrow> message option" where
  "joined_message c d =
     (if sd_type d = ResMessage then find (\<lambda>m. ms_id m = sd_resource d) (mt_messages (co_messages c)) else None)"

definition joined_file :: "corpus \<Rightarrow> document \<Rightarrow> (attachment \<times> message) option" where
  "joined_file c d =
     (if sd_type d \<noteq> ResFile then None
      else case find (\<lambda>a. at_id a = sd_resource d) (mt_attachments (co_messages c)) of
        None \<Rightarrow> None
      | Some a \<Rightarrow> map_option (Pair a) (find (\<lambda>m. ms_id m = at_message a) (mt_messages (co_messages c))))"

definition joined_channel :: "corpus \<Rightarrow> document \<Rightarrow> channel option" where
  "joined_channel c d =
     (case sd_type d of
        ResMessage \<Rightarrow> Option.bind (joined_message c d) (\<lambda>m. find (\<lambda>x. ch_id x = ms_channel m) (db_channels (co_db c)))
      | ResFile \<Rightarrow> Option.bind (joined_file c d) (\<lambda>(a, m). find (\<lambda>x. ch_id x = ms_channel m) (db_channels (co_db c)))
      | ResChannel \<Rightarrow> find (\<lambda>x. ch_id x = sd_resource d) (db_channels (co_db c))
      | _ \<Rightarrow> None)"

definition readable_channel :: "search_params \<Rightarrow> channel option \<Rightarrow> bool" where
  "readable_channel p oc \<longleftrightarrow>
     (case oc of None \<Rightarrow> False | Some ch \<Rightarrow> \<not> ch_archived ch \<and> ch_id ch \<in> set (sp_accessible p))"

definition visible_document :: "corpus \<Rightarrow> search_params \<Rightarrow> document \<Rightarrow> bool" where
  "visible_document c p d \<longleftrightarrow>
     (case sd_type d of
        ResMessage \<Rightarrow>
          (case joined_message c d of None \<Rightarrow> False | Some m \<Rightarrow> ms_deleted_at m = None \<and> readable_channel p (joined_channel c d))
      | ResFile \<Rightarrow>
          (case joined_file c d of None \<Rightarrow> False | Some (a, m) \<Rightarrow> ms_deleted_at m = None \<and> readable_channel p (joined_channel c d))
      | ResChannel \<Rightarrow> readable_channel p (joined_channel c d)
      | ResUser \<Rightarrow>
          list_ex (\<lambda>u. ur_id u = sd_resource d \<and> ur_active u) (co_users c) \<and> sp_allow_users p \<and>
          list_ex (\<lambda>m. wm_workspace m = sd_workspace d \<and> wm_user m = sd_resource d) (db_members (co_db c))
      | ResOther x \<Rightarrow> False)"

definition matches_params :: "search_params \<Rightarrow> document \<Rightarrow> bool" where
  "matches_params p d \<longleftrightarrow>
     sd_workspace d = sp_workspace p \<and>
     (case sp_channel p of None \<Rightarrow> True | Some i \<Rightarrow> sd_channel d = Some i) \<and>
     (trim_space (sp_type p) = [] \<or> resource_type_text (sd_type d) = trim_space (sp_type p)) \<and>
     (case sp_from p of None \<Rightarrow> True | Some t \<Rightarrow> t \<le> sd_created_at d) \<and>
     (case sp_to p of None \<Rightarrow> True | Some t \<Rightarrow> sd_created_at d \<le> t)"

definition title_bonus :: "string \<Rightarrow> string \<Rightarrow> rat" where
  "title_bonus title q =
     (if to_lower title = to_lower q then 14 / 10 else if ilike title (''%'' @ q @ ''%'') then 4 / 10 else 0)"

definition type_bonus :: "resource_type \<Rightarrow> rat" where
  "type_bonus ty = (if ty = ResChannel then 1 / 10 else if ty = ResFile then 5 / 100 else 0)"

definition ranked_result :: "search_repo \<Rightarrow> text_search \<Rightarrow> corpus \<Rightarrow> string \<Rightarrow> index_row \<Rightarrow> search_result" where
  "ranked_result r tx c q y =
     (let d = ix_doc y; cfg = sr_text_config r; body = sql_trim (sd_title d @ '' '' @ sd_content d) in
      \<lparr>rs_type = sd_type d, rs_id = sd_resource d, rs_workspace = sd_workspace d,
       rs_channel = (if sd_type d = ResUser then None else map_option ch_id (joined_channel c d)),
       rs_title = (if sd_title d \<noteq> [] then sd_title d
                   else if sd_type d = ResMessage then utf8_left 80 (sd_content d) else []),
       rs_snippet = tx_headline tx cfg (if body = [] then sd_content d else body) q,
       rs_score = tx_rank tx cfg (ix_tsv y) q + title_bonus (sd_title d) q + type_bonus (sd_type d),
       rs_created_at = sd_created_at d, rs_updated_at = sd_updated_at d\<rparr>)"

definition by_rank :: "search_result list \<Rightarrow> search_result list" where
  "by_rank rs = rev (sort_key rs_score (sort_key rs_updated_at (sort_key rs_created_at rs)))"

definition ranked_rows :: "search_repo \<Rightarrow> text_search \<Rightarrow> corpus \<Rightarrow> search_store \<Rightarrow> search_params \<Rightarrow> search_result list" where
  "ranked_rows r tx c s p =
     (let q = trim_space (sp_query p) in
      by_rank (map (ranked_result r tx c q)
        (filter (\<lambda>y. matches_params p (ix_doc y) \<and> tx_matches tx (sr_text_config r) (ix_tsv y) q \<and> visible_document c p (ix_doc y))
           (sq_index s))))"

definition pg_search ::
  "search_repo \<Rightarrow> text_search \<Rightarrow> corpus \<Rightarrow> error option \<Rightarrow> search_store \<Rightarrow> search_params \<Rightarrow> search_results result" where
  "pg_search r tx c fault s p =
     (case fault of
        Some e \<Rightarrow> Err (Wrapped ''postgres: search query'' e)
      | None \<Rightarrow>
          if sp_limit p < 0 then Err (Wrapped ''postgres: search query'' (PgError ''2201W'' ''LIMIT must not be negative''))
          else if sp_offset p < 0
          then Err (Wrapped ''postgres: search query'' (PgError ''2201X'' ''OFFSET must not be negative''))
          else
            (let rows = ranked_rows r tx c s p;
                 results = take (nat (sp_limit p)) (drop (nat (sp_offset p)) rows);
                 total = (if results = [] then 0 else int (length rows)) in
             Ok \<lparr>fr_results = results, fr_total = total,
                 fr_next = (if sp_offset p + int (length results) < total then sp_offset p + int (length results) else 0)\<rparr>))"

section \<open>The audit log\<close>

datatype audit_value = AuditText string | AuditInt int | AuditTime instant | AuditBool bool

record audit_entry =
  ae_id :: uuid
  ae_workspace :: uuid
  ae_actor :: uuid
  ae_action :: string
  ae_target_type :: string
  ae_target :: string
  ae_metadata :: "(string \<times> audit_value) list"
  ae_created_at :: instant

record audit_log =
  al_entries :: "audit_entry list"
  al_fault :: "error option"

definition pg_create_audit :: "audit_entry \<Rightarrow> audit_log \<Rightarrow> audit_log \<times> error option" where
  "pg_create_audit a l =
     (case exec_insert (al_fault l) (list_ex (\<lambda>x. ae_id x = ae_id a) (al_entries l)) of
        Some e \<Rightarrow> (l, Some (Wrapped ''postgres: create audit entry'' e))
      | None \<Rightarrow> (l\<lparr>al_entries := al_entries l @ [a]\<rparr>, None))"

section \<open>The service\<close>

record search_service =
  ss_searcher :: "(search_params \<Rightarrow> search_results result) option"
  ss_access :: "access_deps option"
  ss_get_member :: "uuid \<Rightarrow> uuid \<Rightarrow> workspace_member result"
  ss_get_channel :: "uuid \<Rightarrow> channel result"
  ss_get_channel_member :: "uuid \<Rightarrow> uuid \<Rightarrow> channel_member result"
  ss_audit :: bool
  ss_uuid_text :: "uuid \<Rightarrow> string"

definition search_workspace_member :: "search_service \<Rightarrow> uuid \<Rightarrow> uuid \<Rightarrow> error option" where
  "search_workspace_member s w u =
     (case ss_get_member s w u of
        Ok m \<Rightarrow> None
      | Err e \<Rightarrow> Some (missing_or (forbidden ''user is not a member of this workspace'')
                          ''failed to verify workspace membership'' e))"

definition search_channel_access :: "search_service \<Rightarrow> uuid \<Rightarrow> uuid \<Rightarrow> error option" where
  "search_channel_access s channel u =
     (case ss_get_channel s channel of
        Err e \<Rightarrow> Some (missing_or (not_found ''channel not found'') ''failed to get channel'' e)
      | Ok ch \<Rightarrow>
          (case search_workspace_member s (ch_workspace ch) u of
             Some e \<Rightarrow> Some e
           | None \<Rightarrow>
               if ch_type ch = ChPublic then None
               else (case ss_get_channel_member s (ch_id ch) u of
                  Ok m \<Rightarrow> None
                | Err e \<Rightarrow> Some (missing_or (forbidden ''you do not have access to this channel'')
                                    ''failed to verify channel membership'' e))))"

text \<open>What the access policy adds to the parameters before the search, and what it refuses.\<close>

definition scope_channels :: "access_deps \<Rightarrow> search_params \<Rightarrow> uuid \<Rightarrow> search_params result option" where
  "scope_channels a p u =
     (case list_channels (Some a) (sp_workspace p) u CapabilityView of
        None \<Rightarrow> None
      | Some (Err e) \<Rightarrow> Some (Err e)
      | Some (Ok chs) \<Rightarrow>
          Some (let p' = p\<lparr>sp_accessible := map ch_id chs\<rparr> in
            if sp_accessible p' = [] \<and> \<not> sp_allow_users p'
            then Err (forbidden ''user does not have access to this workspace'')
            else (case sp_channel p' of
                None \<Rightarrow> Ok p'
              | Some i \<Rightarrow> (case access_channel (Some a) i u CapabilityView of Err e \<Rightarrow> Err e | Ok d \<Rightarrow> Ok p'))))"

definition scoped_params :: "search_service \<Rightarrow> search_params \<Rightarrow> uuid \<Rightarrow> search_params result option" where
  "scoped_params s p u =
     (case ss_access s of
        Some a \<Rightarrow>
          (case workspace_access (Some a) (sp_workspace p) u of
             Err e \<Rightarrow> if app_code e \<noteq> Some CodeForbidden then Some (Err e) else scope_channels a p u
           | Ok sj \<Rightarrow> scope_channels a (p\<lparr>sp_allow_users := sj = SubjectMember\<rparr>) u)
      | None \<Rightarrow>
          Some (case search_workspace_member s (sp_workspace p) u of
             Some e \<Rightarrow> Err e
           | None \<Rightarrow>
               (case sp_channel p of
                  None \<Rightarrow> Ok p
                | Some i \<Rightarrow> (case search_channel_access s i u of Some e \<Rightarrow> Err e | None \<Rightarrow> Ok p))))"

definition channel_result_allowed :: "search_service \<Rightarrow> uuid \<Rightarrow> uuid \<Rightarrow> bool" where
  "channel_result_allowed s i u \<longleftrightarrow>
     (case ss_access s of
        Some a \<Rightarrow> (case access_channel (Some a) i u CapabilityView of Ok d \<Rightarrow> True | Err e \<Rightarrow> False)
      | None \<Rightarrow> search_channel_access s i u = None)"

definition user_result_allowed :: "search_service \<Rightarrow> uuid \<Rightarrow> uuid \<Rightarrow> bool" where
  "user_result_allowed s w u \<longleftrightarrow>
     (case ss_access s of
        Some a \<Rightarrow> (case workspace_access (Some a) w u of Ok sj \<Rightarrow> sj = SubjectMember | Err e \<Rightarrow> False)
      | None \<Rightarrow> search_workspace_member s w u = None)"

fun filter_authorized_results :: "search_service \<Rightarrow> uuid \<Rightarrow> search_result list \<Rightarrow> search_result list" where
  "filter_authorized_results s u [] = []"
| "filter_authorized_results s u (x # xs) =
     (case rs_type x of
        ResUser \<Rightarrow>
          if user_result_allowed s (rs_workspace x) u then x # filter_authorized_results s u xs
          else filter_authorized_results s u xs
      | ResOther ty \<Rightarrow> filter_authorized_results s u xs
      | _ \<Rightarrow>
          (case rs_channel x of
             None \<Rightarrow> filter_authorized_results s u xs
           | Some i \<Rightarrow>
               if channel_result_allowed s i u then x # filter_authorized_results s u xs
               else filter_authorized_results s u xs))"

definition search_audit_entry :: "search_service \<Rightarrow> search_params \<Rightarrow> uuid \<Rightarrow> int \<Rightarrow> uuid \<Rightarrow> instant \<Rightarrow> audit_entry" where
  "search_audit_entry s p u count i now =
     (let q = trim_space (sp_query p) in
      \<lparr>ae_id = i, ae_workspace = sp_workspace p, ae_actor = u, ae_action = ''search.performed'', ae_target_type = ''search'', ae_target = [],
       ae_metadata =
         [(''query'', AuditText (if length q > 512 then take 512 q else q)), (''type'', AuditText (sp_type p)),
          (''limit'', AuditInt (sp_limit p)), (''offset'', AuditInt (sp_offset p)), (''result_count'', AuditInt count)] @
         (case sp_channel p of None \<Rightarrow> [] | Some c \<Rightarrow> [(''channel_id'', AuditText (ss_uuid_text s c))]) @
         (case sp_from p of None \<Rightarrow> [] | Some t \<Rightarrow> [(''date_from'', AuditTime t)]) @
         (case sp_to p of None \<Rightarrow> [] | Some t \<Rightarrow> [(''date_to'', AuditTime t)]),
       ae_created_at = now\<rparr>)"

definition log_search :: "search_service \<Rightarrow> search_params \<Rightarrow> uuid \<Rightarrow> int \<Rightarrow> uuid \<Rightarrow> instant \<Rightarrow> audit_log \<Rightarrow> audit_log" where
  "log_search s p u count i now l =
     (if \<not> ss_audit s then l else fst (pg_create_audit (search_audit_entry s p u count i now) l))"

definition trimmed_results :: "search_service \<Rightarrow> search_params \<Rightarrow> uuid \<Rightarrow> search_results \<Rightarrow> search_results" where
  "trimmed_results s p u r0 =
     (let found = filter_authorized_results s u (fr_results r0); n = int (length found);
          total = (if fr_total r0 < n \<or> n < sp_limit p then sp_offset p + n else fr_total r0) in
      \<lparr>fr_results = found, fr_total = total,
       fr_next = (if fr_next r0 > 0 \<and> fr_next r0 \<ge> total then 0 else fr_next r0)\<rparr>)"

definition search :: "search_service \<Rightarrow> search_params \<Rightarrow> uuid \<Rightarrow> instant \<Rightarrow> audit_log \<Rightarrow> (audit_log \<times> search_results result) option" where
  "search s p0 i now l =
     (case ss_searcher s of
        None \<Rightarrow> Some (l, Ok \<lparr>fr_results = [], fr_total = 0, fr_next = 0\<rparr>)
      | Some searcher \<Rightarrow>
          (let p = p0\<lparr>sp_limit := (if sp_limit p0 \<le> 0 then 20 else sp_limit p0)\<rparr> in
           case sp_user p of
             None \<Rightarrow> Some (l, Err (unauthorized ''user context is required''))
           | Some u \<Rightarrow>
               (case scoped_params s p u of
                  None \<Rightarrow> None
                | Some (Err e) \<Rightarrow> Some (l, Err e)
                | Some (Ok q) \<Rightarrow>
                    (case searcher q of
                       Err e \<Rightarrow> Some (l, Err e)
                     | Ok r0 \<Rightarrow>
                         (let r = trimmed_results s q u r0 in
                          Some (log_search s q u (int (length (fr_results r))) i now l, Ok r))))))"

section \<open>Indexing requests\<close>

definition index_message ::
  "search_repo \<Rightarrow> uuid \<Rightarrow> uuid \<Rightarrow> uuid \<Rightarrow> string \<Rightarrow> instant \<Rightarrow> search_store \<Rightarrow> search_store \<times> error option" where
  "index_message r w channel i content created =
     enqueue_upsert r (plain_document w ResMessage i (Some channel) [] content created created)"

definition delete_message_index :: "search_repo \<Rightarrow> uuid \<Rightarrow> uuid \<Rightarrow> search_store \<Rightarrow> search_store \<times> error option" where
  "delete_message_index r w i = enqueue_delete r w ResMessage i"

definition index_file ::
  "search_repo \<Rightarrow> uuid \<Rightarrow> uuid \<Rightarrow> uuid \<Rightarrow> uuid \<Rightarrow> string \<Rightarrow> string \<Rightarrow> instant \<Rightarrow> search_store \<Rightarrow> search_store \<times> error option" where
  "index_file r w channel i msg name mime created =
     enqueue_upsert r ((plain_document w ResFile i (Some channel) name (trim_space (name @ '' '' @ mime)) created created)
       \<lparr>sd_metadata := [(''message_id'', MetaText (sr_uuid_text r msg)), (''mime_type'', MetaText mime)]\<rparr>)"

definition delete_file_index :: "search_repo \<Rightarrow> uuid \<Rightarrow> uuid \<Rightarrow> search_store \<Rightarrow> search_store \<times> error option" where
  "delete_file_index r w i = enqueue_delete r w ResFile i"

definition index_channel ::
  "search_repo \<Rightarrow> uuid \<Rightarrow> uuid \<Rightarrow> string \<Rightarrow> string \<Rightarrow> instant \<Rightarrow> instant \<Rightarrow> search_store \<Rightarrow> search_store \<times> error option" where
  "index_channel r w i name topic created updated =
     enqueue_upsert r (plain_document w ResChannel i (Some i) name (trim_space (name @ '' '' @ topic)) created updated)"

definition delete_channel_index :: "search_repo \<Rightarrow> uuid \<Rightarrow> uuid \<Rightarrow> search_store \<Rightarrow> search_store \<times> error option" where
  "delete_channel_index r w i = enqueue_delete r w ResChannel i"

definition index_user ::
  "search_repo \<Rightarrow> uuid \<Rightarrow> uuid \<Rightarrow> string \<Rightarrow> string \<Rightarrow> instant \<Rightarrow> instant \<Rightarrow> search_store \<Rightarrow> search_store \<times> error option" where
  "index_user r w u name email created updated =
     enqueue_upsert r ((plain_document w ResUser u None name (trim_space (name @ '' '' @ email)) created updated)
       \<lparr>sd_metadata := [(''email'', MetaText email)]\<rparr>)"

definition delete_user_from_workspace :: "search_repo \<Rightarrow> uuid \<Rightarrow> uuid \<Rightarrow> search_store \<Rightarrow> search_store \<times> error option" where
  "delete_user_from_workspace r w u = enqueue_delete r w ResUser u"

section \<open>What a search reveals\<close>

lemma filter_authorized_mem:
  "x \<in> set (filter_authorized_results s u xs) \<Longrightarrow> x \<in> set xs \<and>
     (case rs_type x of
        ResUser \<Rightarrow> user_result_allowed s (rs_workspace x) u
      | ResOther ty \<Rightarrow> False
      | _ \<Rightarrow> (\<exists>i. rs_channel x = Some i \<and> channel_result_allowed s i u))"
  by (induction xs) (auto split: resource_type.splits option.splits if_splits)

lemma set_by_rank [simp]: "set (by_rank rs) = set rs"
  by (simp add: by_rank_def)

lemma pg_search_mem:
  assumes "pg_search r tx c fault st p = Ok found" "x \<in> set (fr_results found)"
  obtains y where "y \<in> set (sq_index st)" "matches_params p (ix_doc y)" "visible_document c p (ix_doc y)"
    "x = ranked_result r tx c (trim_space (sp_query p)) y"
proof -
  have "fr_results found = take (nat (sp_limit p)) (drop (nat (sp_offset p)) (ranked_rows r tx c st p))"
    using assms(1) by (auto simp: pg_search_def Let_def split: option.splits if_splits)
  then have "x \<in> set (ranked_rows r tx c st p)"
    using assms(2) in_set_takeD in_set_dropD by metis
  then show ?thesis by (auto simp: ranked_rows_def Let_def intro: that)
qed

lemma scoped_workspace: "scoped_params s p u = Some (Ok q) \<Longrightarrow> sp_workspace q = sp_workspace p"
  by (auto simp: scoped_params_def scope_channels_def Let_def split: option.splits sum.splits if_splits)

text \<open>C26: whatever the index holds, a search through the access policy reveals to a user only results of the
  workspace asked for: live messages, and files of live messages, in channels that the policy lets him view,
  such channels themselves, and active members, these only if he is a member.\<close>

theorem search_reveals_only_viewable:
  assumes "search s p i now l = Some (l', Ok found)" "x \<in> set (fr_results found)" "sp_user p = Some u"
    and "ss_searcher s = Some (pg_search r tx c fault st)" "ss_access s = Some a"
  shows "rs_workspace x = sp_workspace p \<and>
    (case rs_type x of
       ResMessage \<Rightarrow> \<exists>m \<in> set (mt_messages (co_messages c)). ms_id m = rs_id x \<and> ms_deleted_at m = None \<and>
         (\<exists>d. access_channel (Some a) (ms_channel m) u CapabilityView = Ok d)
     | ResFile \<Rightarrow> \<exists>f \<in> set (mt_attachments (co_messages c)). at_id f = rs_id x \<and>
         (\<exists>m \<in> set (mt_messages (co_messages c)). ms_id m = at_message f \<and> ms_deleted_at m = None \<and>
           (\<exists>d. access_channel (Some a) (ms_channel m) u CapabilityView = Ok d))
     | ResChannel \<Rightarrow> \<exists>d. access_channel (Some a) (rs_id x) u CapabilityView = Ok d
     | ResUser \<Rightarrow> workspace_access (Some a) (sp_workspace p) u = Ok SubjectMember \<and>
         (\<exists>v \<in> set (co_users c). ur_id v = rs_id x \<and> ur_active v) \<and>
         (\<exists>m \<in> set (db_members (co_db c)). wm_workspace m = sp_workspace p \<and> wm_user m = rs_id x)
     | ResOther ty \<Rightarrow> False)"
proof -
  let ?p = "p\<lparr>sp_limit := (if sp_limit p \<le> 0 then 20 else sp_limit p)\<rparr>"
  obtain q r0 where q: "scoped_params s ?p u = Some (Ok q)" "pg_search r tx c fault st q = Ok r0"
    and found: "fr_results found = filter_authorized_results s u (fr_results r0)"
    using assms(1,3,4) by (auto simp: search_def Let_def trimmed_results_def split: option.splits sum.splits)
  have w: "sp_workspace q = sp_workspace p" using scoped_workspace[OF q(1)] by simp
  note ok = filter_authorized_mem[of x s u "fr_results r0"]
  have x0: "x \<in> set (fr_results r0)" using ok assms(2) found by simp
  obtain y where y: "matches_params q (ix_doc y)" "visible_document c q (ix_doc y)"
    "x = ranked_result r tx c (trim_space (sp_query q)) y"
    by (rule pg_search_mem[OF q(2) x0])
  have sel: "rs_type x = sd_type (ix_doc y)" "rs_id x = sd_resource (ix_doc y)" "rs_workspace x = sd_workspace (ix_doc y)"
    "rs_channel x = (if sd_type (ix_doc y) = ResUser then None else map_option ch_id (joined_channel c (ix_doc y)))"
    by (simp_all add: y(3) ranked_result_def Let_def)
  have allowed: "channel_result_allowed s j u \<longleftrightarrow> (\<exists>d. access_channel (Some a) j u CapabilityView = Ok d)" for j
    using assms(5) by (auto simp: channel_result_allowed_def split: sum.splits)
  have member: "user_result_allowed s v u \<longleftrightarrow> workspace_access (Some a) v u = Ok SubjectMember" for v
    using assms(5) by (auto simp: user_result_allowed_def split: sum.splits)
  have ws: "rs_workspace x = sp_workspace p" using y(1) sel(3) w by (simp add: matches_params_def)
  show ?thesis
  proof (cases "sd_type (ix_doc y)")
    case ResMessage
    then show ?thesis using y(2) sel ok assms(2) found ws allowed
      by (auto simp: visible_document_def joined_message_def joined_channel_def readable_channel_def
          split: option.splits dest!: find_Some_mem)
  next
    case ResFile
    then show ?thesis using y(2) sel ok assms(2) found ws allowed
      by (auto simp: visible_document_def joined_file_def joined_channel_def readable_channel_def
          split: option.splits dest!: find_Some_mem) blast
  next
    case ResChannel
    then show ?thesis using y(2) sel ok assms(2) found ws allowed
      by (auto simp: visible_document_def joined_channel_def readable_channel_def
          split: option.splits dest!: find_Some_mem)
  next
    case ResUser
    then show ?thesis using y(2) sel ok assms(2) found ws member by (auto simp: visible_document_def list_ex_iff)
  next
    case (ResOther ty)
    then show ?thesis using y(2) by (simp add: visible_document_def)
  qed
qed

definition sample_message :: message where
  "sample_message = \<lparr>ms_id = 7, ms_channel = 2, ms_sender = SenderUser, ms_user = 9, ms_guest = None, ms_name = [],
     ms_parent = None, ms_content = ''hello'', ms_type = MessageText, ms_edited = False, ms_edited_at = None,
     ms_pinned = False, ms_pinned_by = None, ms_pinned_at = None, ms_created_at = 5, ms_updated_at = 5, ms_deleted_at = None\<rparr>"

definition sample_search_db :: db where
  "sample_search_db = empty_db\<lparr>
     db_members := [\<lparr>wm_id = 3, wm_workspace = 1, wm_user = 9, wm_role = RoleMember, wm_joined_at = 1\<rparr>],
     db_channels := [\<lparr>ch_id = 2, ch_workspace = 1, ch_name = ''general'', ch_topic = [], ch_type = ChPublic, ch_created_by = 9,
       ch_archived = False, ch_created_at = 1, ch_updated_at = 1\<rparr>]\<rparr>"

definition sample_corpus :: corpus where
  "sample_corpus = \<lparr>co_db = sample_search_db, co_messages = \<lparr>mt_messages = [sample_message], mt_reactions = [],
     mt_attachments = [], mt_states = [], mt_fault = (\<lambda>s i. None)\<rparr>, co_users = []\<rparr>"

definition sample_index :: search_store where
  "sample_index = fst (process_pending_jobs sample_repo 100 sample_store)"

definition sample_text_search :: text_search where
  "sample_text_search = \<lparr>tx_matches = (\<lambda>c v q. True), tx_rank = (\<lambda>c v q. 0), tx_headline = (\<lambda>c b q. b)\<rparr>"

definition sample_search_service :: search_service where
  "sample_search_service = \<lparr>ss_searcher = Some (pg_search sample_repo sample_text_search sample_corpus None sample_index),
     ss_access = Some (pg_access sample_search_db 20), ss_get_member = pg_get_member sample_search_db,
     ss_get_channel = pg_get_channel sample_search_db, ss_get_channel_member = pg_get_channel_member sample_search_db,
     ss_audit = True, ss_uuid_text = (\<lambda>i. [])\<rparr>"

definition sample_params :: search_params where
  "sample_params = \<lparr>sp_query = ''hello'', sp_workspace = 1, sp_channel = None, sp_user = Some 9, sp_type = [],
     sp_from = None, sp_to = None, sp_limit = 10, sp_offset = 0, sp_accessible = [], sp_allow_users = False\<rparr>"

definition sample_search :: "(audit_log \<times> search_results result) option" where
  "sample_search = search sample_search_service sample_params 50 20 \<lparr>al_entries = [], al_fault = None\<rparr>"

declare list_loop.simps [code]

lemma sample_search_run:
  "map_option (\<lambda>(l, q). (map ae_actor (al_entries l), result_bind q (\<lambda>f. Ok (map (\<lambda>x. (rs_type x, rs_id x)) (fr_results f))))) sample_search =
     Some ([9], Ok [(ResMessage, 7)])"
  by code_simp

theorem search_reveals_only_viewable_witness:
  "\<exists>d. access_channel (Some (pg_access sample_search_db 20)) 2 9 CapabilityView = Ok d"
proof -
  obtain l q where lq: "sample_search = Some (l, q)" using sample_search_run by (cases sample_search) auto
  have "result_bind q (\<lambda>f. Ok (map (\<lambda>x. (rs_type x, rs_id x)) (fr_results f))) = Ok [(ResMessage, 7)]"
    using sample_search_run unfolding lq option.map case_prod_conv by blast
  then obtain f where f: "q = Ok f" "map (\<lambda>x. (rs_type x, rs_id x)) (fr_results f) = [(ResMessage, 7)]"
    by (cases q) (simp_all add: result_bind_def)
  note run = lq[unfolded f(1)]
  from f(2) obtain x where x: "x \<in> set (fr_results f)" "rs_type x = ResMessage" "rs_id x = 7"
    by (cases "fr_results f") auto
  have "sp_user sample_params = Some 9" "ss_access sample_search_service = Some (pg_access sample_search_db 20)"
    "ss_searcher sample_search_service = Some (pg_search sample_repo sample_text_search sample_corpus None sample_index)"
    by (simp_all add: sample_params_def sample_search_service_def)
  from search_reveals_only_viewable[OF run[unfolded sample_search_def] x(1) this(1,3,2)] x(2,3)
  obtain m where "m \<in> set (mt_messages (co_messages sample_corpus))" "\<exists>d. access_channel (Some (pg_access sample_search_db 20)) (ms_channel m) 9 CapabilityView = Ok d"
    by auto
  then show ?thesis by (simp add: sample_corpus_def sample_message_def)
qed

end
