(* ===== verification/ChatService.thy ===== *)
theory ChatService
  imports SearchService Outbox CallTables Cursors
begin

text \<open>
  What every operation of the chat service (\<open>internal/service/chat/service.go\<close>) stands on: the world it works
  in, its configuration and collaborators, transactions, events, search requests, input validation and access
  checks for users and for meeting guests.

  The world holds the tables of channels, calls and messages, the search queue, the outbox and the messages
  handed to the publisher. Identifiers come from a counter, the clock stands still within an operation. The
  third-party validator is a parameter, as is the JSON of payloads.
\<close>

section \<open>World and steps\<close>

record chat_world =
  hw_db :: db
  hw_calls :: call_tables
  hw_messages :: message_tables
  hw_search :: search_store
  hw_outbox :: outbox
  hw_published :: "(string \<times> event) list"
  hw_now :: instant
  hw_next_id :: uuid

type_synonym 'a chat_step = "(chat_world, 'a) action"

definition unit_result :: "error option \<Rightarrow> unit result" where
  "unit_result e = (case e of None \<Rightarrow> Ok () | Some x \<Rightarrow> Err x)"

lemma unit_result_Ok [simp]: "unit_result e = Ok x \<longleftrightarrow> e = None"
  by (simp add: unit_result_def split: option.split)

lemma unit_result_Err [simp]: "unit_result e = Err x \<longleftrightarrow> e = Some x"
  by (simp add: unit_result_def split: option.split)

definition chat_db :: "(db \<Rightarrow> db \<times> error option) \<Rightarrow> unit chat_step" where
  "chat_db f w = (case f (hw_db w) of (d, e) \<Rightarrow> (w\<lparr>hw_db := d\<rparr>, unit_result e))"

definition chat_messages :: "(message_tables \<Rightarrow> message_tables \<times> error option) \<Rightarrow> unit chat_step" where
  "chat_messages f w = (case f (hw_messages w) of (t, e) \<Rightarrow> (w\<lparr>hw_messages := t\<rparr>, unit_result e))"

definition chat_search :: "(search_store \<Rightarrow> search_store \<times> error option) \<Rightarrow> unit chat_step" where
  "chat_search f w = (case f (hw_search w) of (t, e) \<Rightarrow> (w\<lparr>hw_search := t\<rparr>, unit_result e))"

definition chat_outbox :: "(outbox \<Rightarrow> outbox \<times> error option) \<Rightarrow> unit chat_step" where
  "chat_outbox f w = (case f (hw_outbox w) of (b, e) \<Rightarrow> (w\<lparr>hw_outbox := b\<rparr>, unit_result e))"

definition chat_new_id :: "uuid chat_step" where
  "chat_new_id w = (w\<lparr>hw_next_id := hw_next_id w + 1\<rparr>, Ok (hw_next_id w))"

definition chat_clock :: "instant chat_step" where
  "chat_clock w = (w, Ok (hw_now w))"

definition chat_rolled_back :: "chat_world \<Rightarrow> chat_world \<Rightarrow> chat_world" where
  "chat_rolled_back w w' =
     w'\<lparr>hw_db := hw_db w, hw_messages := hw_messages w,
        hw_search := (hw_search w')\<lparr>sq_jobs := sq_jobs (hw_search w), sq_index := sq_index (hw_search w)\<rparr>,
        hw_outbox := (hw_outbox w')\<lparr>ob_rows := ob_rows (hw_outbox w), ob_cursors := ob_cursors (hw_outbox w)\<rparr>\<rparr>"

definition chat_tx :: "'a chat_step \<Rightarrow> 'a chat_step" where
  "chat_tx = transaction (\<lambda>w. db_fault (hw_db w) ''begin transaction'') (\<lambda>w. db_fault (hw_db w) ''commit transaction'')
     chat_rolled_back"

section \<open>The service and its collaborators\<close>

text \<open>The scope of a transaction: which repositories it was configured with.\<close>

record tx_scope =
  sc_channels :: bool
  sc_messages :: bool
  sc_grants :: bool
  sc_search :: "search_repo option"
  sc_realtime :: "int option"

record reaction_payload =
  rp_message :: uuid
  rp_channel :: uuid
  rp_reactor :: sender_type
  rp_user :: "uuid option"
  rp_guest :: "uuid option"
  rp_name :: string
  rp_emoji :: string

datatype chat_payload =
    ChannelPayload channel
  | MessagePayload message
  | ReactionPayload reaction_payload
  | PinPayload uuid uuid uuid
  | MemberPayload uuid uuid

type_synonym validator = "(string \<times> string \<times> string) list \<Rightarrow> (string \<times> string) list"

record chat_service =
  hs_access :: "(db \<Rightarrow> instant \<Rightarrow> access_deps) option"
  hs_guests :: "(db \<Rightarrow> instant \<Rightarrow> uuid \<Rightarrow> uuid \<Rightarrow> uuid \<Rightarrow> bool result) option"
  hs_collab :: "(db \<Rightarrow> instant \<Rightarrow> uuid \<Rightarrow> uuid \<Rightarrow> collab_decision result) option"
  hs_contacts :: "(db \<Rightarrow> instant \<Rightarrow> uuid \<Rightarrow> uuid \<Rightarrow> uuid \<Rightarrow> uuid \<Rightarrow> error option) option"
  hs_grants :: bool
  hs_read_states :: bool
  hs_calls :: bool
  hs_search :: "search_repo option"
  hs_tx :: "tx_scope option"
  hs_validator :: validator
  hs_uuid_text :: "uuid \<Rightarrow> string"
  hs_json :: "chat_payload \<Rightarrow> string"

definition chat_policy :: "chat_service \<Rightarrow> chat_world \<Rightarrow> access_deps option" where
  "chat_policy s w = map_option (\<lambda>a. a (hw_db w) (hw_now w)) (hs_access s)"

section \<open>Validation\<close>

fun join_text :: "string \<Rightarrow> string list \<Rightarrow> string" where
  "join_text sep [] = []"
| "join_text sep [x] = x"
| "join_text sep (x # y # xs) = x @ sep @ join_text sep (y # xs)"

text \<open>\<open>validate.Struct\<close> (\<open>internal/pkg/validate\<close>); a field is its name, its tag and its value.\<close>

definition validate_struct :: "validator \<Rightarrow> (string \<times> string \<times> string) list \<Rightarrow> error option" where
  "validate_struct v fs =
     (if v fs = [] then None
      else Some (invalid_input (join_text ''; '' (map (\<lambda>(f, t). f @ '': failed on '' @ [CHR 0x27] @ t @ [CHR 0x27]) (v fs)))))"

definition create_channel_input :: "string \<Rightarrow> string \<Rightarrow> (string \<times> string \<times> string) list" where
  "create_channel_input name topic = [(''Name'', ''required,min=1,max=80'', name), (''Topic'', ''max=250'', topic)]"

definition send_message_input :: "string \<Rightarrow> (string \<times> string \<times> string) list" where
  "send_message_input content = [(''Content'', ''required,min=1,max=40000'', content)]"

text \<open>The length of the rune that a string starts with, if it is valid UTF-8 (package utf8).\<close>

definition byte_in :: "nat \<Rightarrow> nat \<Rightarrow> char \<Rightarrow> bool" where
  "byte_in lo hi c \<longleftrightarrow> lo \<le> of_char c \<and> of_char c \<le> hi"

definition rune_size :: "string \<Rightarrow> nat option" where
  "rune_size s =
     (let tail = byte_in 0x80 0xBF in
      case s of
        [] \<Rightarrow> None
      | a # r \<Rightarrow>
          if byte_in 0 0x7F a then Some 1
          else if byte_in 0xC2 0xDF a then (case r of b # _ \<Rightarrow> if tail b then Some 2 else None | [] \<Rightarrow> None)
          else if byte_in 0xE0 0xEF a then
            (case r of
               b # c # _ \<Rightarrow>
                 if byte_in (if byte_in 0xE0 0xE0 a then 0xA0 else 0x80) (if byte_in 0xED 0xED a then 0x9F else 0xBF) b \<and> tail c
                 then Some 3 else None
             | _ \<Rightarrow> None)
          else if byte_in 0xF0 0xF4 a then
            (case r of
               b # c # d # _ \<Rightarrow>
                 if byte_in (if byte_in 0xF0 0xF0 a then 0x90 else 0x80) (if byte_in 0xF4 0xF4 a then 0x8F else 0xBF) b
                    \<and> tail c \<and> tail d
                 then Some 4 else None
             | _ \<Rightarrow> None)
          else None)"

lemma rune_size_pos: "rune_size s = Some n \<Longrightarrow> 0 < n \<and> n \<le> length s"
  by (auto simp: rune_size_def Let_def split: list.splits if_splits)

function valid_utf8 :: "string \<Rightarrow> bool" where
  "valid_utf8 s \<longleftrightarrow> s = [] \<or> (case rune_size s of None \<Rightarrow> False | Some n \<Rightarrow> valid_utf8 (drop n s))"
  by pat_completeness auto
termination by (relation "measure length") (auto dest: rune_size_pos)

declare valid_utf8.simps [simp del]

definition validate_emoji :: "string \<Rightarrow> error option" where
  "validate_emoji emoji =
     (if emoji = [] then Some (invalid_input ''emoji is required'')
      else if length emoji > 32 then Some (invalid_input ''emoji must be at most 32 bytes'')
      else if \<not> valid_utf8 emoji then Some (invalid_input ''emoji must be valid UTF-8'')
      else None)"

section \<open>Events\<close>

definition chat_event :: "event_type \<Rightarrow> uuid \<Rightarrow> uuid \<Rightarrow> uuid \<Rightarrow> instant \<Rightarrow> string \<Rightarrow> event" where
  "chat_event ty workspace channel user now payload =
     \<lparr>ev_id = uuid_nil, ev_version = 0, ev_sequence = 0, ev_type = ty, ev_subject = [], ev_workspace = workspace,
      ev_channel = channel, ev_user = user, ev_delivery = DeliveryOther [], ev_replayable = False,
      ev_timestamp = now, ev_payload = payload\<rparr>"

definition chat_publish ::
  "chat_service \<Rightarrow> event_type \<Rightarrow> string \<Rightarrow> uuid \<Rightarrow> uuid \<Rightarrow> uuid \<Rightarrow> chat_payload \<Rightarrow> unit chat_step" where
  "chat_publish s ty subject workspace channel user payload =
     and_then chat_new_id (\<lambda>i w.
       (case json_marshal ((chat_event ty workspace channel user (hw_now w) (hs_json s payload))\<lparr>ev_id := i\<rparr>) of
          Err e \<Rightarrow> (w, Ok ())
        | Ok evt \<Rightarrow> (w\<lparr>hw_published := hw_published w @ [(subject, evt)]\<rparr>, Ok ())))"

definition chat_subject :: "chat_service \<Rightarrow> uuid \<Rightarrow> string" where
  "chat_subject s channel = ''aloqa.chat.'' @ hs_uuid_text s channel"

definition workspace_subject :: "chat_service \<Rightarrow> uuid \<Rightarrow> string" where
  "workspace_subject s workspace = ''aloqa.ws.'' @ hs_uuid_text s workspace"

definition publish_event ::
  "chat_service \<Rightarrow> event_type \<Rightarrow> uuid \<Rightarrow> uuid \<Rightarrow> uuid \<Rightarrow> chat_payload \<Rightarrow> unit chat_step" where
  "publish_event s ty workspace channel user payload =
     chat_publish s ty (chat_subject s channel) workspace channel user payload"

definition publish_to_workspace ::
  "chat_service \<Rightarrow> event_type \<Rightarrow> uuid \<Rightarrow> uuid \<Rightarrow> uuid \<Rightarrow> chat_payload \<Rightarrow> unit chat_step" where
  "publish_to_workspace s ty workspace channel user payload =
     chat_publish s ty (workspace_subject s workspace) workspace channel user payload"

definition enqueue_event_tx ::
  "chat_service \<Rightarrow> tx_scope \<Rightarrow> event_type \<Rightarrow> string \<Rightarrow> uuid \<Rightarrow> uuid \<Rightarrow> uuid \<Rightarrow> chat_payload \<Rightarrow> unit chat_step" where
  "enqueue_event_tx s sc ty subject workspace channel user payload =
     and_then chat_new_id (\<lambda>i.
     and_then chat_clock (\<lambda>now.
     and_then (from_read (\<lambda>w. prepare i now subject (chat_event ty workspace channel user now (hs_json s payload))))
       (\<lambda>(evt, body, durable).
     (case sc_realtime sc of
        None \<Rightarrow> return ()
      | Some max_attempts \<Rightarrow> chat_outbox (enqueue evt body max_attempts)))))"

section \<open>Search requests\<close>

text \<open>Outside a transaction a failure is only logged; inside it aborts.\<close>

definition request_search :: "chat_service \<Rightarrow> (search_repo \<Rightarrow> search_store \<Rightarrow> search_store \<times> error option) \<Rightarrow> unit chat_step" where
  "request_search s f = (case hs_search s of None \<Rightarrow> return () | Some r \<Rightarrow> ignore_err (chat_search (f r)))"

definition tx_search :: "tx_scope \<Rightarrow> (search_repo \<Rightarrow> search_store \<Rightarrow> search_store \<times> error option) \<Rightarrow> unit chat_step" where
  "tx_search sc f = (case sc_search sc of None \<Rightarrow> return () | Some r \<Rightarrow> chat_search (f r))"

definition enqueue_message_search_tx :: "tx_scope \<Rightarrow> uuid \<Rightarrow> uuid \<Rightarrow> message \<Rightarrow> unit chat_step" where
  "enqueue_message_search_tx sc workspace channel m =
     tx_search sc (\<lambda>r. enqueue_upsert r
       (plain_document workspace ResMessage (ms_id m) (Some channel) [] (ms_content m) (ms_created_at m) (ms_updated_at m)))"

fun channel_type_text :: "channel_type \<Rightarrow> string" where
  "channel_type_text ChPublic = ''public''"
| "channel_type_text ChPrivate = ''private''"
| "channel_type_text ChDM = ''dm''"
| "channel_type_text ChGroupDM = ''group_dm''"
| "channel_type_text ChMeeting = ''meeting''"
| "channel_type_text (ChOther x) = x"

definition enqueue_channel_search_tx :: "tx_scope \<Rightarrow> channel \<Rightarrow> unit chat_step" where
  "enqueue_channel_search_tx sc ch =
     tx_search sc (\<lambda>r. enqueue_upsert r
       ((plain_document (ch_workspace ch) ResChannel (ch_id ch) (Some (ch_id ch)) (ch_name ch) (ch_topic ch)
           (ch_created_at ch) (ch_updated_at ch))
        \<lparr>sd_metadata := [(''type'', MetaText (channel_type_text (ch_type ch))), (''archived'', MetaFlag (ch_archived ch))]\<rparr>))"

definition enqueue_message_delete_search_tx :: "tx_scope \<Rightarrow> uuid \<Rightarrow> uuid \<Rightarrow> unit chat_step" where
  "enqueue_message_delete_search_tx sc workspace i = tx_search sc (\<lambda>r. enqueue_delete r workspace ResMessage i)"

definition enqueue_file_delete_search_tx :: "tx_scope \<Rightarrow> uuid \<Rightarrow> uuid \<Rightarrow> unit chat_step" where
  "enqueue_file_delete_search_tx sc workspace i = tx_search sc (\<lambda>r. enqueue_delete r workspace ResFile i)"

section \<open>Access of users\<close>

definition chat_workspace_access :: "uuid \<Rightarrow> uuid \<Rightarrow> chat_world \<Rightarrow> error option" where
  "chat_workspace_access workspace user w =
     (case pg_get_member (hw_db w) workspace user of
        Ok m \<Rightarrow> None
      | Err e \<Rightarrow> Some (missing_or (forbidden ''user is not a member of this workspace'')
                          ''failed to verify workspace membership'' e))"

definition chat_collaboration_access :: "chat_service \<Rightarrow> channel \<Rightarrow> uuid \<Rightarrow> chat_world \<Rightarrow> bool result" where
  "chat_collaboration_access s ch user w =
     (if ch_type ch \<noteq> ChDM \<and> ch_type ch \<noteq> ChGroupDM then Ok True
      else case hs_collab s of
        None \<Rightarrow> Ok True
      | Some authorize \<Rightarrow>
          (case authorize (hw_db w) (hw_now w) (ch_id ch) user of
             Err e \<Rightarrow> Err e
           | Ok d \<Rightarrow> if \<not> cd_managed d then Ok True else Ok (cd_allowed d)))"

definition no_chat_access :: error where
  "no_chat_access = forbidden ''you do not have access to this channel''"

definition member_channel :: "chat_service \<Rightarrow> channel \<Rightarrow> uuid \<Rightarrow> chat_world \<Rightarrow> channel result" where
  "member_channel s ch user w =
     result_bind
       (if ch_type ch = ChPublic then Ok ()
        else case pg_get_channel_member (hw_db w) (ch_id ch) user of
          Ok m \<Rightarrow> Ok ()
        | Err e \<Rightarrow> Err (missing_or no_chat_access ''failed to check channel membership'' e))
       (\<lambda>_. result_bind (chat_collaboration_access s ch user w) (\<lambda>allowed.
         if allowed then Ok ch else Err (forbidden ''you do not have access to this collaboration channel'')))"

definition outsider_channel :: "chat_service \<Rightarrow> channel \<Rightarrow> uuid \<Rightarrow> chat_world \<Rightarrow> channel result" where
  "outsider_channel s ch user w =
     (if ch_type ch = ChDM \<or> ch_type ch = ChGroupDM then
        (case pg_get_channel_member (hw_db w) (ch_id ch) user of
           Ok m \<Rightarrow>
             result_bind (chat_collaboration_access s ch user w) (\<lambda>allowed. if allowed then Ok ch else Err no_chat_access)
         | Err e \<Rightarrow> Err (missing_or no_chat_access ''failed to check channel membership'' e))
      else Err no_chat_access)"

definition get_accessible_channel :: "chat_service \<Rightarrow> uuid \<Rightarrow> uuid \<Rightarrow> chat_world \<Rightarrow> channel result" where
  "get_accessible_channel s channel user w =
     (case chat_policy s w of
        Some a \<Rightarrow> result_bind (access_channel (Some a) channel user CapabilityView) (\<lambda>d. Ok (dc_channel d))
      | None \<Rightarrow>
          (case pg_get_channel (hw_db w) channel of
             Err e \<Rightarrow> Err (missing_or (not_found ''channel not found'') ''failed to get channel'' e)
           | Ok ch \<Rightarrow>
               if chat_workspace_access (ch_workspace ch) user w = None then member_channel s ch user w
               else (case hs_guests s of
                  None \<Rightarrow> outsider_channel s ch user w
                | Some guest \<Rightarrow>
                    result_bind (guest (hw_db w) (hw_now w) (ch_workspace ch) channel user) (\<lambda>allowed.
                      if allowed then Ok ch else outsider_channel s ch user w))))"

definition can_access_channel :: "chat_service \<Rightarrow> uuid \<Rightarrow> uuid \<Rightarrow> chat_world \<Rightarrow> error option" where
  "can_access_channel s channel user w =
     (case get_accessible_channel s channel user w of Ok ch \<Rightarrow> None | Err e \<Rightarrow> Some e)"

definition authorize_channel :: "chat_service \<Rightarrow> uuid \<Rightarrow> uuid \<Rightarrow> capability \<Rightarrow> chat_world \<Rightarrow> channel_decision result" where
  "authorize_channel s channel user cap w =
     (case chat_policy s w of
        Some a \<Rightarrow> access_channel (Some a) channel user cap
      | None \<Rightarrow>
          result_bind (get_accessible_channel s channel user w) (\<lambda>ch.
            (case pg_get_channel_member (hw_db w) channel user of
               Ok m \<Rightarrow> Ok \<lparr>dc_subject = SubjectMember, dc_channel = ch, dc_workspace_member = None, dc_channel_member = Some m\<rparr>
             | Err e \<Rightarrow>
                 if cap = CapabilityParticipate
                 then Err (missing_or (forbidden ''user is not a member of this channel'') ''failed to check membership'' e)
                 else Ok \<lparr>dc_subject = SubjectMember, dc_channel = ch, dc_workspace_member = None, dc_channel_member = None\<rparr>)))"

definition live_chat_message :: "uuid \<Rightarrow> chat_world \<Rightarrow> message result" where
  "live_chat_message i w =
     (case pg_get_message (hw_messages w) i of
        Err e \<Rightarrow> Err (missing_or (not_found ''message not found'') ''failed to get message'' e)
      | Ok m \<Rightarrow> if ms_deleted_at m \<noteq> None then Err (not_found ''message has been deleted'') else Ok m)"

definition require_message_access ::
  "chat_service \<Rightarrow> uuid \<Rightarrow> uuid \<Rightarrow> capability \<Rightarrow> chat_world \<Rightarrow> (message \<times> channel) result" where
  "require_message_access s i user cap w =
     result_bind (live_chat_message i w) (\<lambda>m.
     result_bind (authorize_channel s (ms_channel m) user cap w) (\<lambda>d. Ok (m, dc_channel d)))"

definition require_own_message ::
  "chat_service \<Rightarrow> uuid \<Rightarrow> uuid \<Rightarrow> capability \<Rightarrow> chat_world \<Rightarrow> (message \<times> channel) result" where
  "require_own_message s i user cap w =
     result_bind (require_message_access s i user cap w) (\<lambda>(m, ch).
       if ms_user m \<noteq> user then Err (forbidden ''can only modify your own messages'') else Ok (m, ch))"

section \<open>Access of meeting guests\<close>

definition authorize_meeting_guest_channel ::
  "chat_service \<Rightarrow> uuid \<Rightarrow> uuid \<Rightarrow> uuid \<Rightarrow> uuid \<Rightarrow> chat_world \<Rightarrow> (channel \<times> call_participant) result" where
  "authorize_meeting_guest_channel s channel workspace call guest w =
     (if \<not> hs_calls s then Err (unavailable ''meeting chat guest access is not configured'')
      else result_bind (pg_get_call (hw_calls w) call) (\<lambda>c.
        if ca_workspace c \<noteq> workspace \<or> ca_meeting_channel c \<noteq> Some channel
        then Err (forbidden ''meeting guest token is not valid for this chat'')
        else if ca_status c = CallStatusEnded then Err (forbidden ''meeting has ended'')
        else (case pg_get_guest_participant (hw_calls w) call guest of
            Err e \<Rightarrow> Err (missing_or (forbidden ''meeting guest is not a participant in this call'')
                            ''failed to verify meeting guest participant'' e)
          | Ok p \<Rightarrow>
              if pa_status p \<noteq> ParticipantConnected then Err (forbidden ''meeting guest is not connected'')
              else result_bind (pg_get_channel (hw_db w) channel) (\<lambda>ch.
                if ch_workspace ch \<noteq> workspace \<or> ch_type ch \<noteq> ChMeeting
                then Err (forbidden ''meeting guest token is not valid for this chat'') else Ok (ch, p)))))"

definition can_access_meeting_channel_for_guest ::
  "chat_service \<Rightarrow> uuid \<Rightarrow> uuid \<Rightarrow> uuid \<Rightarrow> uuid \<Rightarrow> chat_world \<Rightarrow> error option" where
  "can_access_meeting_channel_for_guest s channel workspace call guest w =
     (case authorize_meeting_guest_channel s channel workspace call guest w of Ok x \<Rightarrow> None | Err e \<Rightarrow> Some e)"

definition require_guest_message_access ::
  "chat_service \<Rightarrow> uuid \<Rightarrow> uuid \<Rightarrow> uuid \<Rightarrow> uuid \<Rightarrow> chat_world \<Rightarrow> (message \<times> channel \<times> call_participant) result" where
  "require_guest_message_access s i workspace call guest w =
     result_bind (live_chat_message i w) (\<lambda>m.
     result_bind (authorize_meeting_guest_channel s (ms_channel m) workspace call guest w) (\<lambda>(ch, p). Ok (m, ch, p)))"

definition require_own_guest_message ::
  "chat_service \<Rightarrow> uuid \<Rightarrow> uuid \<Rightarrow> uuid \<Rightarrow> uuid \<Rightarrow> chat_world \<Rightarrow> (message \<times> channel) result" where
  "require_own_guest_message s i workspace call guest w =
     result_bind (require_guest_message_access s i workspace call guest w) (\<lambda>(m, ch, p).
       if ms_sender m \<noteq> SenderGuest \<or> ms_guest m \<noteq> Some guest
       then Err (forbidden ''can only modify your own messages'') else Ok (m, ch))"

end
