(* ===== verification/Chat.thy ===== *)
theory Chat
  imports ChatService
begin

text \<open>
  The operations of \<open>internal/service/chat/service.go\<close>: channels, messages of users and of meeting guests,
  reactions, pins, direct messages and read marks. A failing transaction is reported as an internal error by
  most of them, whatever its cause; updating and joining pass a coded error on.
\<close>

section \<open>Channels\<close>

definition new_channel :: "uuid \<Rightarrow> uuid \<Rightarrow> string \<Rightarrow> string \<Rightarrow> channel_type \<Rightarrow> uuid \<Rightarrow> instant \<Rightarrow> channel" where
  "new_channel i workspace name topic ty user now =
     \<lparr>ch_id = i, ch_workspace = workspace, ch_name = name, ch_topic = topic, ch_type = ty, ch_created_by = user,
      ch_archived = False, ch_created_at = now, ch_updated_at = now\<rparr>"

definition new_channel_member :: "uuid \<Rightarrow> uuid \<Rightarrow> uuid \<Rightarrow> channel_role \<Rightarrow> instant \<Rightarrow> channel_member" where
  "new_channel_member i channel user role now =
     \<lparr>cm_id = i, cm_channel = channel, cm_user = user, cm_role = role, cm_muted_until = None, cm_last_read_at = now,
      cm_joined_at = now\<rparr>"

definition channels_in_scope :: "tx_scope \<Rightarrow> unit chat_step" where
  "channels_in_scope sc = guard (\<not> sc_channels sc) (unavailable ''channel transaction scope is not configured'')"

definition messages_in_scope :: "tx_scope \<Rightarrow> unit chat_step" where
  "messages_in_scope sc = guard (\<not> sc_messages sc) (unavailable ''message transaction scope is not configured'')"

text \<open>\<open>cerrors.AsAppError\<close> of the error, or an internal error.\<close>

definition coded_or :: "string \<Rightarrow> error \<Rightarrow> error" where
  "coded_or msg e = (case as_app_error e of Some (c, m, inner) \<Rightarrow> AppError c m inner | None \<Rightarrow> internal_err msg e)"

definition request_channel_index :: "chat_service \<Rightarrow> channel \<Rightarrow> unit chat_step" where
  "request_channel_index s ch =
     request_search s (\<lambda>r. index_channel r (ch_workspace ch) (ch_id ch) (ch_name ch) (ch_topic ch) (ch_created_at ch) (ch_updated_at ch))"

definition store_channel :: "chat_service \<Rightarrow> channel \<Rightarrow> channel_member \<Rightarrow> unit chat_step" where
  "store_channel s ch m =
     (case hs_tx s of
        Some sc \<Rightarrow>
          map_err (internal_err ''failed to create channel'') (chat_tx
            (and_then (channels_in_scope sc) (\<lambda>_.
             and_then (chat_db (\<lambda>d. pg_create_channel d ch)) (\<lambda>_.
             and_then (chat_db (\<lambda>d. pg_add_channel_member d m)) (\<lambda>_.
             and_then (enqueue_channel_search_tx sc ch) (\<lambda>_.
             enqueue_event_tx s sc TypeChannelCreated (chat_subject s (ch_id ch)) (ch_workspace ch) (ch_id ch)
               (ch_created_by ch) (ChannelPayload ch)))))))
      | None \<Rightarrow>
          and_then (map_err (internal_err ''failed to create channel'') (chat_db (\<lambda>d. pg_create_channel d ch))) (\<lambda>_.
          and_then (map_err (internal_err ''failed to add channel owner'') (chat_db (\<lambda>d. pg_add_channel_member d m))) (\<lambda>_.
          and_then (request_channel_index s ch) (\<lambda>_.
          publish_event s TypeChannelCreated (ch_workspace ch) (ch_id ch) (ch_created_by ch) (ChannelPayload ch)))))"

definition create_channel :: "chat_service \<Rightarrow> uuid \<Rightarrow> uuid \<Rightarrow> string \<Rightarrow> string \<Rightarrow> channel_type \<Rightarrow> channel chat_step" where
  "create_channel s workspace user name topic ty =
     and_then (check (\<lambda>_. validate_struct (hs_validator s) (create_channel_input name topic))) (\<lambda>_.
     and_then (guard (ty = ChMeeting) (invalid_input ''meeting channels are created by calls'')) (\<lambda>_.
     and_then (check (chat_workspace_access workspace user)) (\<lambda>_.
     and_then chat_clock (\<lambda>now.
     and_then chat_new_id (\<lambda>i.
     and_then chat_new_id (\<lambda>j.
     and_then (store_channel s (new_channel i workspace name topic ty user now) (new_channel_member j i user ChRoleOwner now)) (\<lambda>_.
     return (new_channel i workspace name topic ty user now))))))))"

definition may_update_channel :: "channel \<Rightarrow> uuid \<Rightarrow> chat_world \<Rightarrow> error option" where
  "may_update_channel ch user w =
     (case pg_get_channel_member (hw_db w) (ch_id ch) user of
        Err e \<Rightarrow> Some (missing_or (forbidden ''user is not a member of this channel'') ''failed to verify channel membership'' e)
      | Ok m \<Rightarrow>
          if cm_role m \<noteq> ChRoleOwner \<and> cm_role m \<noteq> ChRoleAdmin then
            (case pg_get_member (hw_db w) (ch_workspace ch) user of
               Err e \<Rightarrow> Some (internal_err ''failed to verify workspace membership'' e)
             | Ok wm \<Rightarrow>
                 if wm_role wm \<noteq> RoleOwner \<and> wm_role wm \<noteq> RoleAdmin
                 then Some (forbidden ''insufficient permission to update channel'') else None)
          else None)"

text \<open>The repository stamps the channel it is given, so what is indexed, announced and returned is stamped too.\<close>

definition store_channel_update :: "chat_service \<Rightarrow> channel \<Rightarrow> instant \<Rightarrow> uuid \<Rightarrow> channel chat_step" where
  "store_channel_update s ch0 now user =
     (let ch = ch0\<lparr>ch_updated_at := now\<rparr> in
      and_then (map_err (coded_or ''failed to update channel'')
        (case hs_tx s of
           Some sc \<Rightarrow> chat_tx
             (and_then (channels_in_scope sc) (\<lambda>_.
              and_then (chat_db (pg_update_channel ch0 now)) (\<lambda>_.
              and_then (enqueue_channel_search_tx sc ch) (\<lambda>_.
              enqueue_event_tx s sc TypeChannelUpdated (chat_subject s (ch_id ch)) (ch_workspace ch) (ch_id ch) user
                (ChannelPayload ch)))))
         | None \<Rightarrow>
             and_then (chat_db (pg_update_channel ch0 now)) (\<lambda>_.
             and_then (request_channel_index s ch) (\<lambda>_.
             publish_event s TypeChannelUpdated (ch_workspace ch) (ch_id ch) user (ChannelPayload ch))))) (\<lambda>_.
      return ch))"

definition update_channel :: "chat_service \<Rightarrow> uuid \<Rightarrow> uuid \<Rightarrow> string \<Rightarrow> string \<Rightarrow> channel chat_step" where
  "update_channel s channel user name topic =
     and_then (check (\<lambda>_. validate_struct (hs_validator s) (create_channel_input name topic))) (\<lambda>_.
     and_then (from_read (get_accessible_channel s channel user)) (\<lambda>ch.
     and_then (guard (ch_type ch = ChDM) (forbidden ''direct messages cannot be renamed'')) (\<lambda>_.
     and_then (guard (ch_archived ch) (forbidden ''cannot update an archived channel'')) (\<lambda>_.
     and_then (check (may_update_channel ch user)) (\<lambda>_.
     and_then chat_clock (\<lambda>now.
     store_channel_update s (ch\<lparr>ch_name := name, ch_topic := topic\<rparr>) now user))))))"

definition get_channel :: "chat_service \<Rightarrow> uuid \<Rightarrow> uuid \<Rightarrow> chat_world \<Rightarrow> channel result" where
  "get_channel s channel user = get_accessible_channel s channel user"

text \<open>Through the access policy the listing may not return: then \<open>None\<close>.\<close>

definition chat_list_channels :: "chat_service \<Rightarrow> uuid \<Rightarrow> uuid \<Rightarrow> chat_world \<Rightarrow> channel list result option" where
  "chat_list_channels s workspace user w =
     (case chat_policy s w of
        Some a \<Rightarrow> list_channels (Some a) workspace user CapabilityView
      | None \<Rightarrow>
          Some (case pg_list_user_channels (hw_db w) workspace user of
             Err e \<Rightarrow> Err (internal_err ''failed to list channels'' e)
           | Ok chs \<Rightarrow> Ok chs))"

definition joinable_channel :: "uuid \<Rightarrow> uuid \<Rightarrow> chat_world \<Rightarrow> channel result" where
  "joinable_channel channel user w =
     (case pg_get_channel (hw_db w) channel of
        Err e \<Rightarrow> Err (missing_or (not_found ''channel not found'') ''failed to get channel'' e)
      | Ok ch \<Rightarrow>
          if ch_type ch \<noteq> ChPublic then Err (forbidden ''can only join public channels'')
          else (case chat_workspace_access (ch_workspace ch) user w of
             Some e \<Rightarrow> Err e
           | None \<Rightarrow>
               if ch_archived ch then Err (forbidden ''cannot join an archived channel'')
               else (case pg_get_channel_member (hw_db w) channel user of
                  Ok m \<Rightarrow> Err (already_exists ''user is already a member of this channel'')
                | Err e \<Rightarrow>
                    if app_code e \<noteq> Some CodeNotFound then Err (internal_err ''failed to check channel membership'' e)
                    else Ok ch)))"

definition join_channel :: "chat_service \<Rightarrow> uuid \<Rightarrow> uuid \<Rightarrow> unit chat_step" where
  "join_channel s channel user =
     and_then (from_read (joinable_channel channel user)) (\<lambda>ch.
     and_then chat_clock (\<lambda>now.
     and_then chat_new_id (\<lambda>i.
     (case hs_tx s of
        Some sc \<Rightarrow>
          map_err (coded_or ''failed to add channel member'') (chat_tx
            (and_then (channels_in_scope sc) (\<lambda>_.
             and_then (chat_db (\<lambda>d. pg_add_channel_member d (new_channel_member i channel user ChRoleMember now))) (\<lambda>_.
             enqueue_event_tx s sc TypeMemberJoined (chat_subject s channel) (ch_workspace ch) channel user
               (MemberPayload channel user)))))
      | None \<Rightarrow>
          and_then (map_err (internal_err ''failed to add channel member'')
            (chat_db (\<lambda>d. pg_add_channel_member d (new_channel_member i channel user ChRoleMember now)))) (\<lambda>_.
          publish_event s TypeMemberJoined (ch_workspace ch) channel user (MemberPayload channel user))))))"

definition leave_error :: "error \<Rightarrow> error" where
  "leave_error = missing_or (not_found ''user is not a member of this channel'') ''failed to remove channel member''"

definition leave_channel :: "chat_service \<Rightarrow> uuid \<Rightarrow> uuid \<Rightarrow> unit chat_step" where
  "leave_channel s channel user =
     and_then (map_err (missing_or (not_found ''channel not found'') ''failed to get channel'')
       (from_read (\<lambda>w. pg_get_channel (hw_db w) channel))) (\<lambda>ch.
     (case hs_tx s of
        Some sc \<Rightarrow>
          map_err leave_error (chat_tx
            (and_then (channels_in_scope sc) (\<lambda>_.
             and_then (chat_db (\<lambda>d. pg_remove_channel_member d channel user)) (\<lambda>_.
             enqueue_event_tx s sc TypeMemberLeft (chat_subject s channel) (ch_workspace ch) channel user
               (MemberPayload channel user)))))
      | None \<Rightarrow>
          and_then (map_err leave_error (chat_db (\<lambda>d. pg_remove_channel_member d channel user))) (\<lambda>_.
          publish_event s TypeMemberLeft (ch_workspace ch) channel user (MemberPayload channel user))))"

section \<open>Sending\<close>

definition check_parent :: "uuid option \<Rightarrow> uuid \<Rightarrow> chat_world \<Rightarrow> error option" where
  "check_parent parent channel w =
     (case parent of
        None \<Rightarrow> None
      | Some i \<Rightarrow>
          (case pg_get_message (hw_messages w) i of
             Err e \<Rightarrow> Some (missing_or (not_found ''parent message not found'') ''failed to get parent message'' e)
           | Ok p \<Rightarrow>
               if ms_channel p \<noteq> channel then Some (invalid_input ''parent message does not belong to this channel'') else None))"

definition new_message :: "uuid \<Rightarrow> uuid \<Rightarrow> uuid \<Rightarrow> uuid option \<Rightarrow> string \<Rightarrow> instant \<Rightarrow> message" where
  "new_message i channel user parent content now =
     \<lparr>ms_id = i, ms_channel = channel, ms_sender = SenderEmpty, ms_user = user, ms_guest = None, ms_name = [],
      ms_parent = parent, ms_content = content, ms_type = MessageText, ms_edited = False, ms_edited_at = None,
      ms_pinned = False, ms_pinned_by = None, ms_pinned_at = None, ms_created_at = now, ms_updated_at = now,
      ms_deleted_at = None\<rparr>"

definition request_message_index :: "chat_service \<Rightarrow> uuid \<Rightarrow> message \<Rightarrow> unit chat_step" where
  "request_message_index s workspace m =
     request_search s (\<lambda>r. index_message r workspace (ms_channel m) (ms_id m) (ms_content m) (ms_created_at m))"

definition announce_message :: "chat_service \<Rightarrow> uuid \<Rightarrow> uuid \<Rightarrow> message \<Rightarrow> unit chat_step" where
  "announce_message s workspace user m =
     and_then (publish_event s TypeMessageCreated workspace (ms_channel m) user (MessagePayload m)) (\<lambda>_.
     publish_to_workspace s TypeMessageCreated workspace (ms_channel m) user (MessagePayload m))"

text \<open>\<open>MessageRepo.Create\<close> completes the sender of the message it is given, which the code then goes on with.\<close>

definition store_message :: "chat_service \<Rightarrow> uuid \<Rightarrow> uuid \<Rightarrow> message \<Rightarrow> message chat_step" where
  "store_message s workspace user m0 =
     (let m = normalize_message_sender m0 in
      and_then
       (case hs_tx s of
          Some sc \<Rightarrow>
            map_err (internal_err ''failed to create message'') (chat_tx
              (and_then (messages_in_scope sc) (\<lambda>_.
               and_then (chat_messages (pg_create_message m0)) (\<lambda>_.
               and_then (enqueue_message_search_tx sc workspace (ms_channel m) m) (\<lambda>_.
               and_then (enqueue_event_tx s sc TypeMessageCreated (chat_subject s (ms_channel m)) workspace (ms_channel m) user
                   (MessagePayload m)) (\<lambda>_.
               enqueue_event_tx s sc TypeMessageCreated (workspace_subject s workspace) workspace (ms_channel m) user
                   (MessagePayload m)))))))
        | None \<Rightarrow>
            and_then (map_err (internal_err ''failed to create message'') (chat_messages (pg_create_message m0))) (\<lambda>_.
            and_then (request_message_index s workspace m) (\<lambda>_.
            announce_message s workspace user m))) (\<lambda>_.
      return m))"

definition send_message :: "chat_service \<Rightarrow> uuid \<Rightarrow> uuid \<Rightarrow> string \<Rightarrow> uuid option \<Rightarrow> message chat_step" where
  "send_message s channel user content parent =
     and_then (check (\<lambda>_. validate_struct (hs_validator s) (send_message_input content))) (\<lambda>_.
     and_then (from_read (authorize_channel s channel user CapabilityParticipate)) (\<lambda>d.
     and_then (guard (ch_archived (dc_channel d)) (forbidden ''cannot send messages to an archived channel'')) (\<lambda>_.
     and_then (check (check_parent parent channel)) (\<lambda>_.
     and_then chat_clock (\<lambda>now.
     and_then chat_new_id (\<lambda>i.
     store_message s (ch_workspace (dc_channel d)) user (new_message i channel user parent content now)))))))"

definition guest_name :: "call_participant \<Rightarrow> string" where
  "guest_name p = (if pa_name p = [] then ''Meeting guest'' else pa_name p)"

definition send_meeting_guest_message ::
  "chat_service \<Rightarrow> uuid \<Rightarrow> uuid \<Rightarrow> uuid \<Rightarrow> uuid \<Rightarrow> string \<Rightarrow> uuid option \<Rightarrow> message chat_step" where
  "send_meeting_guest_message s channel workspace call guest content parent =
     and_then (check (\<lambda>_. validate_struct (hs_validator s) (send_message_input content))) (\<lambda>_.
     and_then (from_read (authorize_meeting_guest_channel s channel workspace call guest)) (\<lambda>(ch, p).
     and_then (guard (ch_archived ch) (forbidden ''cannot send messages to an archived channel'')) (\<lambda>_.
     and_then (check (check_parent parent channel)) (\<lambda>_.
     and_then chat_clock (\<lambda>now.
     and_then chat_new_id (\<lambda>i.
     (let m0 = (new_message i channel uuid_nil parent content now)
                 \<lparr>ms_sender := SenderGuest, ms_guest := Some guest, ms_name := guest_name p\<rparr>;
          m = normalize_message_sender m0 in
      and_then (map_err (internal_err ''failed to create message'') (chat_messages (pg_create_message m0))) (\<lambda>_.
      and_then (request_message_index s (ch_workspace ch) m) (\<lambda>_.
      and_then (announce_message s (ch_workspace ch) guest m) (\<lambda>_.
      return m))))))))))"

section \<open>Reading\<close>

definition build_message_page :: "message list \<Rightarrow> int \<Rightarrow> message page" where
  "build_message_page ms limit =
     (let more = int (length ms) > limit; shown = (if more then take (nat limit) ms else ms) in
      \<lparr>pg_items = shown,
       pg_next = (if more \<and> length shown > 0 then encode_cursor (ms_id (last shown)) else []),
       pg_more = more\<rparr>)"

definition fetch_one_more :: "page_params \<Rightarrow> page_params" where
  "fetch_one_more p = \<lparr>pp_cursor = pp_cursor p, pp_limit = pp_limit p + 1, pp_offset = 0\<rparr>"

definition message_page :: "uuid \<Rightarrow> page_params \<Rightarrow> chat_world \<Rightarrow> message page result" where
  "message_page channel p w =
     (case pg_list_by_channel (hw_messages w) channel (fetch_one_more p) of
        Err e \<Rightarrow> Err (internal_err ''failed to list messages'' e)
      | Ok ms \<Rightarrow> Ok (build_message_page ms (pp_limit p)))"

definition replies_page :: "uuid \<Rightarrow> page_params \<Rightarrow> chat_world \<Rightarrow> message page result" where
  "replies_page parent p w =
     (case pg_list_thread_replies (hw_messages w) parent (fetch_one_more p) of
        Err e \<Rightarrow> Err (internal_err ''failed to list thread replies'' e)
      | Ok ms \<Rightarrow> Ok (build_message_page ms (pp_limit p)))"

definition get_messages :: "chat_service \<Rightarrow> uuid \<Rightarrow> uuid \<Rightarrow> page_params \<Rightarrow> chat_world \<Rightarrow> message page result" where
  "get_messages s channel user p w =
     result_bind (get_accessible_channel s channel user w) (\<lambda>_. message_page channel (normalize_params p) w)"

definition get_messages_for_meeting_guest ::
  "chat_service \<Rightarrow> uuid \<Rightarrow> uuid \<Rightarrow> uuid \<Rightarrow> uuid \<Rightarrow> page_params \<Rightarrow> chat_world \<Rightarrow> message page result" where
  "get_messages_for_meeting_guest s channel workspace call guest p w =
     result_bind (authorize_meeting_guest_channel s channel workspace call guest w) (\<lambda>_.
       message_page channel (normalize_params p) w)"

definition get_thread_replies :: "chat_service \<Rightarrow> uuid \<Rightarrow> uuid \<Rightarrow> page_params \<Rightarrow> chat_world \<Rightarrow> message page result" where
  "get_thread_replies s parent user p w =
     result_bind (require_message_access s parent user CapabilityView w) (\<lambda>_. replies_page parent (normalize_params p) w)"

definition get_thread_replies_for_meeting_guest ::
  "chat_service \<Rightarrow> uuid \<Rightarrow> uuid \<Rightarrow> uuid \<Rightarrow> uuid \<Rightarrow> page_params \<Rightarrow> chat_world \<Rightarrow> message page result" where
  "get_thread_replies_for_meeting_guest s parent workspace call guest p w =
     result_bind (live_chat_message parent w) (\<lambda>m.
     result_bind (authorize_meeting_guest_channel s (ms_channel m) workspace call guest w) (\<lambda>_.
       replies_page parent (normalize_params p) w))"

section \<open>Editing and deleting\<close>

definition edited_message :: "message \<Rightarrow> string \<Rightarrow> instant \<Rightarrow> message" where
  "edited_message m content now = m\<lparr>ms_content := content, ms_edited := True, ms_edited_at := Some now, ms_updated_at := now\<rparr>"

definition edit_message :: "chat_service \<Rightarrow> uuid \<Rightarrow> uuid \<Rightarrow> string \<Rightarrow> message chat_step" where
  "edit_message s i user content =
     and_then (check (\<lambda>_. validate_struct (hs_validator s) (send_message_input content))) (\<lambda>_.
     and_then (from_read (require_own_message s i user CapabilityParticipate)) (\<lambda>(m0, ch).
     and_then chat_clock (\<lambda>now.
     (let m = edited_message m0 content now; workspace = ch_workspace ch in
      and_then
       (case hs_tx s of
          Some sc \<Rightarrow>
            map_err (internal_err ''failed to update message'') (chat_tx
              (and_then (messages_in_scope sc) (\<lambda>_.
               and_then (chat_messages (pg_update_message m now)) (\<lambda>_.
               and_then (if workspace \<noteq> uuid_nil then enqueue_message_search_tx sc workspace (ms_channel m) m else return ()) (\<lambda>_.
               enqueue_event_tx s sc TypeMessageUpdated (chat_subject s (ms_channel m)) workspace (ms_channel m) user
                 (MessagePayload m))))))
        | None \<Rightarrow>
            and_then (map_err (internal_err ''failed to update message'') (chat_messages (pg_update_message m now))) (\<lambda>_.
            and_then (if workspace = uuid_nil then return () else request_message_index s workspace m) (\<lambda>_.
            publish_event s TypeMessageUpdated workspace (ms_channel m) user (MessagePayload m)))) (\<lambda>_.
      return m)))))"

definition edit_meeting_guest_message ::
  "chat_service \<Rightarrow> uuid \<Rightarrow> uuid \<Rightarrow> uuid \<Rightarrow> uuid \<Rightarrow> string \<Rightarrow> message chat_step" where
  "edit_meeting_guest_message s i workspace call guest content =
     and_then (check (\<lambda>_. validate_struct (hs_validator s) (send_message_input content))) (\<lambda>_.
     and_then (from_read (require_own_guest_message s i workspace call guest)) (\<lambda>(m0, ch).
     and_then chat_clock (\<lambda>now.
     (let m = edited_message m0 content now in
      and_then (map_err (internal_err ''failed to update message'') (chat_messages (pg_update_message m now))) (\<lambda>_.
      and_then (request_message_index s (ch_workspace ch) m) (\<lambda>_.
      and_then (publish_event s TypeMessageUpdated (ch_workspace ch) (ms_channel m) guest (MessagePayload m)) (\<lambda>_.
      return m)))))))"

fun delete_files_tx :: "tx_scope \<Rightarrow> uuid \<Rightarrow> attachment list \<Rightarrow> unit chat_step" where
  "delete_files_tx sc workspace [] = return ()"
| "delete_files_tx sc workspace (a # as) =
     and_then (enqueue_file_delete_search_tx sc workspace (at_id a)) (\<lambda>_. delete_files_tx sc workspace as)"

fun delete_files :: "chat_service \<Rightarrow> uuid \<Rightarrow> attachment list \<Rightarrow> unit chat_step" where
  "delete_files s workspace [] = return ()"
| "delete_files s workspace (a # as) =
     and_then (request_search s (\<lambda>r. delete_file_index r workspace (at_id a))) (\<lambda>_. delete_files s workspace as)"

definition unindex_message_tx :: "tx_scope \<Rightarrow> uuid \<Rightarrow> uuid \<Rightarrow> unit chat_step" where
  "unindex_message_tx sc workspace i =
     (if workspace = uuid_nil then return ()
      else and_then (enqueue_message_delete_search_tx sc workspace i) (\<lambda>_.
           and_then (from_read (\<lambda>w. pg_list_attachments (hw_messages w) i)) (\<lambda>as.
           delete_files_tx sc workspace as)))"

definition unindex_message :: "chat_service \<Rightarrow> uuid \<Rightarrow> uuid \<Rightarrow> unit chat_step" where
  "unindex_message s workspace i =
     (if workspace = uuid_nil then return ()
      else and_then (request_search s (\<lambda>r. delete_message_index r workspace i)) (\<lambda>_.
           and_then (attempt (from_read (\<lambda>w. pg_list_attachments (hw_messages w) i))) (\<lambda>found.
           (case found of None \<Rightarrow> return () | Some as \<Rightarrow> delete_files s workspace as))))"

definition delete_message :: "chat_service \<Rightarrow> uuid \<Rightarrow> uuid \<Rightarrow> unit chat_step" where
  "delete_message s i user =
     and_then (from_read (require_own_message s i user CapabilityParticipate)) (\<lambda>(m, ch).
     and_then chat_clock (\<lambda>now.
     (case hs_tx s of
        Some sc \<Rightarrow>
          map_err (internal_err ''failed to delete message'') (chat_tx
            (and_then (messages_in_scope sc) (\<lambda>_.
             and_then (chat_messages (pg_soft_delete i now)) (\<lambda>_.
             and_then (unindex_message_tx sc (ch_workspace ch) i) (\<lambda>_.
             enqueue_event_tx s sc TypeMessageDeleted (chat_subject s (ms_channel m)) (ch_workspace ch) (ms_channel m) user
               (MessagePayload m))))))
      | None \<Rightarrow>
          and_then (map_err (internal_err ''failed to delete message'') (chat_messages (pg_soft_delete i now))) (\<lambda>_.
          and_then (unindex_message s (ch_workspace ch) i) (\<lambda>_.
          publish_event s TypeMessageDeleted (ch_workspace ch) (ms_channel m) user (MessagePayload m))))))"

definition delete_meeting_guest_message :: "chat_service \<Rightarrow> uuid \<Rightarrow> uuid \<Rightarrow> uuid \<Rightarrow> uuid \<Rightarrow> unit chat_step" where
  "delete_meeting_guest_message s i workspace call guest =
     and_then (from_read (require_own_guest_message s i workspace call guest)) (\<lambda>(m, ch).
     and_then chat_clock (\<lambda>now.
     and_then (map_err (internal_err ''failed to delete message'') (chat_messages (pg_soft_delete i now))) (\<lambda>_.
     and_then (request_search s (\<lambda>r. delete_message_index r (ch_workspace ch) i)) (\<lambda>_.
     publish_event s TypeMessageDeleted (ch_workspace ch) (ms_channel m) guest (MessagePayload m)))))"

section \<open>Reactions\<close>

definition user_reaction_payload :: "uuid \<Rightarrow> uuid \<Rightarrow> uuid \<Rightarrow> string \<Rightarrow> chat_payload" where
  "user_reaction_payload i channel user emoji =
     ReactionPayload \<lparr>rp_message = i, rp_channel = channel, rp_reactor = SenderUser, rp_user = Some user, rp_guest = None,
       rp_name = [], rp_emoji = emoji\<rparr>"

definition guest_reaction_payload :: "uuid \<Rightarrow> uuid \<Rightarrow> uuid \<Rightarrow> string \<Rightarrow> string \<Rightarrow> chat_payload" where
  "guest_reaction_payload i channel guest name emoji =
     ReactionPayload \<lparr>rp_message = i, rp_channel = channel, rp_reactor = SenderGuest, rp_user = None, rp_guest = Some guest,
       rp_name = name, rp_emoji = emoji\<rparr>"

definition add_reaction :: "chat_service \<Rightarrow> uuid \<Rightarrow> uuid \<Rightarrow> string \<Rightarrow> unit chat_step" where
  "add_reaction s i user emoji =
     and_then (check (\<lambda>_. validate_emoji emoji)) (\<lambda>_.
     and_then (from_read (require_message_access s i user CapabilityParticipate)) (\<lambda>(m, ch).
     and_then chat_clock (\<lambda>now.
     and_then chat_new_id (\<lambda>j.
     and_then (map_err (internal_err ''failed to add reaction'') (chat_messages (pg_add_reaction
       \<lparr>rn_id = j, rn_message = i, rn_reactor = SenderUser, rn_user = Some user, rn_guest = None, rn_name = [],
        rn_emoji = emoji, rn_created_at = now\<rparr>))) (\<lambda>_.
     publish_event s TypeReactionAdded (ch_workspace ch) (ms_channel m) user
       (user_reaction_payload i (ms_channel m) user emoji))))))"

definition remove_reaction :: "chat_service \<Rightarrow> uuid \<Rightarrow> uuid \<Rightarrow> string \<Rightarrow> unit chat_step" where
  "remove_reaction s i user emoji =
     and_then (from_read (require_message_access s i user CapabilityParticipate)) (\<lambda>(m, ch).
     and_then (map_err (internal_err ''failed to remove reaction'') (chat_messages (pg_remove_reaction i user emoji))) (\<lambda>_.
     publish_event s TypeReactionRemoved (ch_workspace ch) (ms_channel m) user
       (user_reaction_payload i (ms_channel m) user emoji)))"

definition add_meeting_guest_reaction :: "chat_service \<Rightarrow> uuid \<Rightarrow> uuid \<Rightarrow> uuid \<Rightarrow> uuid \<Rightarrow> string \<Rightarrow> unit chat_step" where
  "add_meeting_guest_reaction s i workspace call guest emoji =
     and_then (check (\<lambda>_. validate_emoji emoji)) (\<lambda>_.
     and_then (from_read (require_guest_message_access s i workspace call guest)) (\<lambda>(m, ch, p).
     and_then chat_clock (\<lambda>now.
     and_then chat_new_id (\<lambda>j.
     and_then (map_err (internal_err ''failed to add reaction'') (chat_messages (pg_add_reaction
       \<lparr>rn_id = j, rn_message = i, rn_reactor = SenderGuest, rn_user = None, rn_guest = Some guest, rn_name = guest_name p,
        rn_emoji = emoji, rn_created_at = now\<rparr>))) (\<lambda>_.
     publish_event s TypeReactionAdded (ch_workspace ch) (ms_channel m) guest
       (guest_reaction_payload i (ms_channel m) guest (guest_name p) emoji))))))"

definition remove_meeting_guest_reaction :: "chat_service \<Rightarrow> uuid \<Rightarrow> uuid \<Rightarrow> uuid \<Rightarrow> uuid \<Rightarrow> string \<Rightarrow> unit chat_step" where
  "remove_meeting_guest_reaction s i workspace call guest emoji =
     and_then (check (\<lambda>_. validate_emoji emoji)) (\<lambda>_.
     and_then (from_read (require_guest_message_access s i workspace call guest)) (\<lambda>(m, ch, p).
     and_then (map_err (internal_err ''failed to remove reaction'') (chat_messages (pg_remove_reaction_by_guest i guest emoji))) (\<lambda>_.
     publish_event s TypeReactionRemoved (ch_workspace ch) (ms_channel m) guest
       (guest_reaction_payload i (ms_channel m) guest [] emoji))))"

section \<open>Pins\<close>

text \<open>The message is read without a check of its own: a deleted one passes, and its pin is reported before the
  access check.\<close>

definition any_chat_message :: "uuid \<Rightarrow> message chat_step" where
  "any_chat_message i =
     map_err (missing_or (not_found ''message not found'') ''failed to get message'')
       (from_read (\<lambda>w. pg_get_message (hw_messages w) i))"

definition publish_pin :: "chat_service \<Rightarrow> event_type \<Rightarrow> message \<Rightarrow> uuid \<Rightarrow> uuid \<Rightarrow> unit chat_step" where
  "publish_pin s ty m i user w =
     (let workspace = (case pg_get_channel (hw_db w) (ms_channel m) of Ok ch \<Rightarrow> ch_workspace ch | Err e \<Rightarrow> uuid_nil) in
      publish_event s ty workspace (ms_channel m) user (PinPayload i (ms_channel m) user) w)"

definition pin_message :: "chat_service \<Rightarrow> uuid \<Rightarrow> uuid \<Rightarrow> unit chat_step" where
  "pin_message s i user =
     and_then (any_chat_message i) (\<lambda>m.
     and_then (guard (ms_pinned m) (already_exists ''message is already pinned'')) (\<lambda>_.
     and_then (from_read (authorize_channel s (ms_channel m) user CapabilityParticipate)) (\<lambda>_.
     and_then chat_clock (\<lambda>now.
     and_then (map_err (internal_err ''failed to pin message'') (chat_messages (pg_pin i user now))) (\<lambda>_.
     publish_pin s TypeMessagePinned m i user)))))"

definition unpin_message :: "chat_service \<Rightarrow> uuid \<Rightarrow> uuid \<Rightarrow> unit chat_step" where
  "unpin_message s i user =
     and_then (any_chat_message i) (\<lambda>m.
     and_then (guard (\<not> ms_pinned m) (invalid_input ''message is not pinned'')) (\<lambda>_.
     and_then (from_read (authorize_channel s (ms_channel m) user CapabilityParticipate)) (\<lambda>_.
     and_then chat_clock (\<lambda>now.
     and_then (map_err (internal_err ''failed to unpin message'') (chat_messages (pg_unpin i now))) (\<lambda>_.
     publish_pin s TypeMessageUnpinned m i user)))))"

section \<open>Direct messages\<close>

definition new_channel_grant :: "uuid \<Rightarrow> uuid \<Rightarrow> uuid \<Rightarrow> uuid \<Rightarrow> uuid \<Rightarrow> uuid \<Rightarrow> bool \<Rightarrow> instant \<Rightarrow> channel_grant" where
  "new_channel_grant i channel workspace remote source target calls now =
     \<lparr>cg_id = i, cg_channel = channel, cg_workspace = workspace, cg_user = target, cg_source_user = source,
      cg_remote_workspace = remote, cg_allow_calls = calls, cg_created_at = now\<rparr>"

definition ensure_channel_access_grant :: "uuid \<Rightarrow> uuid \<Rightarrow> uuid \<Rightarrow> uuid \<Rightarrow> uuid \<Rightarrow> bool \<Rightarrow> unit chat_step" where
  "ensure_channel_access_grant channel workspace remote source target calls w =
     (case pg_get_channel_grant (hw_db w) channel target of
        Ok g \<Rightarrow> (w, Ok ())
      | Err e \<Rightarrow>
          if app_code e \<noteq> Some CodeNotFound then (w, Err (internal_err ''failed to verify collaboration access'' e))
          else and_then chat_new_id (\<lambda>i.
               map_err (internal_err ''failed to create collaboration access'')
                 (chat_db (\<lambda>d. pg_create_channel_grant d (new_channel_grant i channel workspace remote source target calls (hw_now w))))) w)"

definition ensure_channel_access_grant_tx ::
  "tx_scope \<Rightarrow> uuid \<Rightarrow> uuid \<Rightarrow> uuid \<Rightarrow> uuid \<Rightarrow> uuid \<Rightarrow> bool \<Rightarrow> unit chat_step" where
  "ensure_channel_access_grant_tx sc channel workspace remote source target calls w =
     (if \<not> sc_grants sc then ensure_channel_access_grant channel workspace remote source target calls w
      else case pg_get_channel_grant (hw_db w) channel target of
        Ok g \<Rightarrow> (w, Ok ())
      | Err e \<Rightarrow>
          if app_code e \<noteq> Some CodeNotFound then (w, Err e)
          else and_then chat_new_id (\<lambda>i.
               chat_db (\<lambda>d. pg_create_channel_grant d (new_channel_grant i channel workspace remote source target calls (hw_now w)))) w)"

text \<open>Who may write to whom: both are members of the workspace, or the connection of the two workspaces lets
  channels be shared between them.\<close>

definition remote_workspace :: "uuid \<Rightarrow> uuid option \<Rightarrow> uuid" where
  "remote_workspace workspace target =
     (case target of None \<Rightarrow> workspace | Some t \<Rightarrow> if t = uuid_nil then workspace else t)"

definition may_open_dm :: "chat_service \<Rightarrow> uuid \<Rightarrow> uuid \<Rightarrow> uuid \<Rightarrow> uuid \<Rightarrow> chat_world \<Rightarrow> error option" where
  "may_open_dm s workspace remote a b w =
     (case chat_workspace_access workspace a w of
        Some e \<Rightarrow> Some e
      | None \<Rightarrow>
          if remote = workspace then
            (if chat_workspace_access workspace b w = None then None
             else Some (forbidden ''target user is not a member of this workspace''))
          else if chat_workspace_access remote b w \<noteq> None
          then Some (forbidden ''target user is not a member of the target workspace'')
          else (case hs_contacts s of
             None \<Rightarrow> Some (unavailable ''cross-workspace collaboration is unavailable'')
           | Some share \<Rightarrow>
               if \<not> hs_grants s then Some (unavailable ''cross-workspace collaboration is unavailable'')
               else share (hw_db w) (hw_now w) workspace remote a b))"

definition find_dm :: "uuid \<Rightarrow> uuid \<Rightarrow> uuid \<Rightarrow> chat_world \<Rightarrow> channel option result" where
  "find_dm workspace a b w =
     (case pg_get_dm_channel (hw_db w) workspace a b of
        Ok ch \<Rightarrow> Ok (Some ch)
      | Err e \<Rightarrow> if app_code e \<noteq> Some CodeNotFound then Err (internal_err ''failed to look up DM channel'' e) else Ok None)"

fun add_members :: "channel_member list \<Rightarrow> unit chat_step" where
  "add_members [] = return ()"
| "add_members (m # ms) = and_then (chat_db (\<lambda>d. pg_add_channel_member d m)) (\<lambda>_. add_members ms)"

definition store_dm :: "chat_service \<Rightarrow> channel \<Rightarrow> channel_member list \<Rightarrow> uuid \<Rightarrow> uuid \<Rightarrow> uuid \<Rightarrow> unit chat_step" where
  "store_dm s ch members remote a b =
     (let workspace = ch_workspace ch; cross = (remote \<noteq> workspace) in
      case hs_tx s of
        Some sc \<Rightarrow>
          map_err (internal_err ''failed to create DM channel'') (chat_tx
            (and_then (channels_in_scope sc) (\<lambda>_.
             and_then (chat_db (\<lambda>d. pg_create_channel d ch)) (\<lambda>_.
             and_then (add_members members) (\<lambda>_.
             and_then (if cross then ensure_channel_access_grant_tx sc (ch_id ch) workspace remote a b True else return ()) (\<lambda>_.
             enqueue_channel_search_tx sc ch))))))
      | None \<Rightarrow>
          and_then (map_err (internal_err ''failed to create DM channel'') (chat_db (\<lambda>d. pg_create_channel d ch))) (\<lambda>_.
          and_then (map_err (internal_err ''failed to add DM member'') (add_members members)) (\<lambda>_.
          and_then (if cross then ensure_channel_access_grant (ch_id ch) workspace remote a b True else return ()) (\<lambda>_.
          request_channel_index s ch))))"

definition get_or_create_dm :: "chat_service \<Rightarrow> uuid \<Rightarrow> uuid \<Rightarrow> uuid \<Rightarrow> uuid option \<Rightarrow> channel chat_step" where
  "get_or_create_dm s workspace a b target =
     (let remote = remote_workspace workspace target in
      and_then (guard (a = b) (invalid_input ''cannot create a DM with yourself'')) (\<lambda>_.
      and_then (check (may_open_dm s workspace remote a b)) (\<lambda>_.
      and_then (from_read (find_dm workspace a b)) (\<lambda>found.
      (case found of
         Some ch \<Rightarrow>
           and_then (if remote \<noteq> workspace then ensure_channel_access_grant (ch_id ch) workspace remote a b True else return ()) (\<lambda>_.
           return ch)
       | None \<Rightarrow>
           and_then chat_clock (\<lambda>now.
           and_then chat_new_id (\<lambda>i.
           and_then chat_new_id (\<lambda>j.
           and_then chat_new_id (\<lambda>k.
           (let ch = new_channel i workspace [] [] ChDM a now in
            and_then (store_dm s ch [new_channel_member j i a ChRoleMember now, new_channel_member k i b ChRoleMember now]
              remote a b) (\<lambda>_.
            return ch)))))))))))"

section \<open>Read marks\<close>

definition update_last_read :: "chat_service \<Rightarrow> channel_decision \<Rightarrow> uuid \<Rightarrow> unit chat_step" where
  "update_last_read s d user =
     and_then chat_clock (\<lambda>now.
       if dc_subject d = SubjectMember \<and> dc_channel_member d \<noteq> None
       then chat_db (pg_update_last_read (ch_id (dc_channel d)) user now)
       else if \<not> hs_read_states s then return ()
       else chat_messages (pg_upsert_state
         \<lparr>cs_channel = ch_id (dc_channel d), cs_user = user, cs_last_read_at = now, cs_created_at = 0, cs_updated_at = 0\<rparr> now))"

definition mark_read :: "chat_service \<Rightarrow> uuid \<Rightarrow> uuid \<Rightarrow> unit chat_step" where
  "mark_read s channel user =
     and_then (from_read (authorize_channel s channel user CapabilityParticipate)) (\<lambda>d.
     map_err (internal_err ''failed to mark as read'') (update_last_read s d user))"

definition last_read_at :: "chat_service \<Rightarrow> uuid \<Rightarrow> uuid \<Rightarrow> chat_world \<Rightarrow> instant result" where
  "last_read_at s channel user w =
     (case pg_get_channel_member (hw_db w) channel user of
        Ok m \<Rightarrow> Ok (cm_last_read_at m)
      | Err e \<Rightarrow>
          if app_code e \<noteq> Some CodeNotFound then Err e
          else if \<not> hs_read_states s then Ok 0
          else (case pg_get_state (hw_messages w) channel user of
             Ok st \<Rightarrow> Ok (cs_last_read_at st)
           | Err e2 \<Rightarrow> if app_code e2 = Some CodeNotFound then Ok 0 else Err e2))"

record unread_channel =
  un_channel :: uuid
  un_count :: int
  un_last_read_at :: instant

definition unread_of :: "chat_service \<Rightarrow> unread_summary list \<Rightarrow> uuid \<Rightarrow> chat_world \<Rightarrow> uuid \<Rightarrow> unread_channel option" where
  "unread_of s summaries user w c =
     (case find (\<lambda>x. us_channel x = c) (rev summaries) of
        Some x \<Rightarrow>
          if us_unread x > 0 then Some \<lparr>un_channel = c, un_count = us_unread x, un_last_read_at = us_last_read_at x\<rparr> else None
      | None \<Rightarrow>
          (case last_read_at s c user w of
             Err e \<Rightarrow> None
           | Ok since \<Rightarrow>
               (case pg_count_unread (hw_messages w) c user since of
                  Err e \<Rightarrow> None
                | Ok n \<Rightarrow> if n > 0 then Some \<lparr>un_channel = c, un_count = n, un_last_read_at = since\<rparr> else None)))"

definition list_channels_for_unread :: "chat_service \<Rightarrow> uuid \<Rightarrow> uuid \<Rightarrow> chat_world \<Rightarrow> channel list result option" where
  "list_channels_for_unread s workspace user w =
     (case chat_policy s w of
        Some a \<Rightarrow> list_channels (Some a) workspace user CapabilityParticipate
      | None \<Rightarrow> chat_list_channels s workspace user w)"

definition get_unread_counts :: "chat_service \<Rightarrow> uuid \<Rightarrow> uuid \<Rightarrow> chat_world \<Rightarrow> unread_channel list result option" where
  "get_unread_counts s workspace user w =
     (case list_channels_for_unread s workspace user w of
        None \<Rightarrow> None
      | Some (Err e) \<Rightarrow> Some (Err e)
      | Some (Ok chs) \<Rightarrow>
          Some (case pg_batch_unread (hw_messages w) (hw_db w) workspace user of
             Err e \<Rightarrow> Err (internal_err ''failed to count unread'' e)
           | Ok summaries \<Rightarrow> Ok (List.map_filter (\<lambda>ch. unread_of s summaries user w (ch_id ch)) chs)))"

end
