(* ===== verification/ChatRuns.thy ===== *)
theory ChatRuns
  imports Chat
begin

text \<open>
  What a run of a chat operation does. \<open>chat_exec\<close> executes the reads and checks at the head of a handler;
  \<open>fixed\<close> says what a step leaves alone, \<open>one_change\<close> that it applies at most one given statement to the
  message tables, whatever fails on the way. \<open>message_effect\<close> puts these together: an operation of the
  service either leaves the messages as they were or has passed its access check and applied its statement.
\<close>

named_theorems chat_exec \<open>running the head of a handler\<close>
named_theorems fixed_rules \<open>what the building blocks leave alone\<close>
named_theorems change_rules \<open>steps that apply at most one statement\<close>

section \<open>Running a handler\<close>

lemmas [chat_exec] = exec_check exec_read exec_guard exec_map_read

lemma exec_clock [chat_exec]: "and_then chat_clock g w = g (hw_now w) w"
  by (simp add: and_then_def chat_clock_def)

lemma exec_new_id [chat_exec]: "and_then chat_new_id g w = g (hw_next_id w) (w\<lparr>hw_next_id := hw_next_id w + 1\<rparr>)"
  by (simp add: and_then_def chat_new_id_def)

lemma chat_statement_Ok [run_simps]:
  "chat_db f w = (w', Ok x) \<longleftrightarrow> (\<exists>d. f (hw_db w) = (d, None) \<and> w' = w\<lparr>hw_db := d\<rparr>)"
  "chat_messages g w = (w', Ok x) \<longleftrightarrow> (\<exists>t. g (hw_messages w) = (t, None) \<and> w' = w\<lparr>hw_messages := t\<rparr>)"
  "chat_search h w = (w', Ok x) \<longleftrightarrow> (\<exists>t. h (hw_search w) = (t, None) \<and> w' = w\<lparr>hw_search := t\<rparr>)"
  "chat_outbox k w = (w', Ok x) \<longleftrightarrow> (\<exists>b. k (hw_outbox w) = (b, None) \<and> w' = w\<lparr>hw_outbox := b\<rparr>)"
  by (auto simp: chat_db_def chat_messages_def chat_search_def chat_outbox_def split: prod.splits)

lemma chat_new_id_Ok [run_simps]:
  "chat_new_id w = (w', r) \<longleftrightarrow> w' = w\<lparr>hw_next_id := hw_next_id w + 1\<rparr> \<and> r = Ok (hw_next_id w)"
  by (auto simp: chat_new_id_def)

lemma chat_clock_Ok [run_simps]: "chat_clock w = (w', r) \<longleftrightarrow> w' = w \<and> r = Ok (hw_now w)"
  by (auto simp: chat_clock_def)

lemma chat_tx_Ok [run_simps]:
  "chat_tx m w = (w', Ok x) \<longleftrightarrow>
     db_fault (hw_db w) ''begin transaction'' = None \<and> m w = (w', Ok x) \<and> db_fault (hw_db w) ''commit transaction'' = None"
  by (simp add: chat_tx_def transaction_Ok)

lemma chat_tx_Err: "chat_tx m w = (w', Err e) \<Longrightarrow> w' = w \<or> w' = chat_rolled_back w (fst (m w))"
  unfolding chat_tx_def by (rule transaction_Err)

section \<open>What a step leaves alone\<close>

definition fixed :: "(chat_world \<Rightarrow> 'g) \<Rightarrow> 'a chat_step \<Rightarrow> bool" where
  "fixed g m \<longleftrightarrow> (\<forall>w. g (fst (m w)) = g w)"

lemma fixed_run: "fixed g m \<Longrightarrow> m w = (w', r) \<Longrightarrow> g w' = g w"
  by (metis fixed_def fst_conv)

text \<open>Parts of the world that requests, events and identifiers do not touch and a rollback restores.\<close>

definition core :: "(chat_world \<Rightarrow> 'g) \<Rightarrow> bool" where
  "core g \<longleftrightarrow>
     (\<forall>w x. g (w\<lparr>hw_search := x\<rparr>) = g w) \<and> (\<forall>w x. g (w\<lparr>hw_outbox := x\<rparr>) = g w) \<and>
     (\<forall>w x. g (w\<lparr>hw_published := x\<rparr>) = g w) \<and> (\<forall>w x. g (w\<lparr>hw_next_id := x\<rparr>) = g w) \<and>
     (\<forall>w w'. g w' = g w \<longrightarrow> g (chat_rolled_back w w') = g w)"

lemma core_parts [simp]: "core hw_db" "core hw_calls" "core hw_messages" "core hw_now"
  by (simp_all add: core_def chat_rolled_back_def)

lemma fixed_and_then [fixed_rules]:
  assumes "fixed g m" "\<And>x. fixed g (f x)"
  shows "fixed g (and_then m f)"
  unfolding fixed_def
proof
  fix w
  obtain w1 r where "m w = (w1, r)" by fastforce
  then show "g (fst (and_then m f w)) = g w"
    using assms by (cases r) (auto simp: and_then_def fixed_def dest: spec[of _ w])
qed

lemma fixed_wrap [fixed_rules]:
  "fixed g m \<Longrightarrow> fixed g (map_err h m)" "fixed g n \<Longrightarrow> fixed g (ignore_err n)" "fixed g k \<Longrightarrow> fixed g (attempt k)"
  unfolding fixed_def[of g "map_err h m"] fixed_def[of g "ignore_err n"] fixed_def[of g "attempt k"] map_err_def ignore_err_def attempt_def
  by (auto split: prod.split sum.split dest: fixed_run) (simp add: fixed_def)

lemma fixed_quiet [fixed_rules]:
  "fixed g (return x)" "fixed g (fail e)" "fixed g (guard b e)" "fixed g (check f)" "fixed g (from_read r)"
  "fixed g chat_clock"
  by (simp_all add: fixed_def return_def fail_def guard_def check_def from_read_def chat_clock_def)

lemma fixed_core [fixed_rules]:
  assumes "core g"
  shows "fixed g chat_new_id" "fixed g (chat_search f)" "fixed g (chat_outbox k)"
  using assms by (auto simp: fixed_def core_def chat_new_id_def chat_search_def chat_outbox_def split: prod.split)

lemma fixed_db [fixed_rules]: "fixed hw_messages (chat_db f)" "fixed hw_calls (chat_db f)" "fixed hw_now (chat_db f)"
  by (simp_all add: fixed_def chat_db_def split: prod.split)

lemma fixed_messages [fixed_rules]: "fixed hw_db (chat_messages f)" "fixed hw_calls (chat_messages f)" "fixed hw_now (chat_messages f)"
  by (simp_all add: fixed_def chat_messages_def split: prod.split)

lemma fixed_tx [fixed_rules]:
  assumes "core g" "fixed g m" shows "fixed g (chat_tx m)"
  unfolding fixed_def
proof
  fix w
  obtain w1 r where r: "chat_tx m w = (w1, r)" by fastforce
  show "g (fst (chat_tx m w)) = g w"
  proof (cases r)
    case (Inl e)
    then have "w1 = w \<or> w1 = chat_rolled_back w (fst (m w))" using chat_tx_Err r by blast
    moreover have "g (fst (m w)) = g w" using assms(2) by (simp add: fixed_def)
    ultimately show ?thesis using assms(1) r by (auto simp: core_def)
  next
    case (Inr x)
    then have "m w = (w1, Ok x)" using r by (simp add: chat_tx_Ok)
    then show ?thesis using fixed_run[OF assms(2)] r by simp
  qed
qed

lemma fixed_if [fixed_rules]: "fixed g m \<Longrightarrow> fixed g n \<Longrightarrow> fixed g (if b then m else n)"
  by simp

lemma fixed_publish [fixed_rules]:
  assumes "core g" shows "fixed g (chat_publish s ty subject workspace channel user payload)"
  unfolding chat_publish_def
  by (rule fixed_and_then[OF fixed_core(1)[OF assms]]) (use assms in \<open>simp add: fixed_def core_def split: sum.split\<close>)

lemma fixed_events [fixed_rules]:
  assumes "core g"
  shows "fixed g (publish_event s ty workspace channel user payload)"
    "fixed g (publish_to_workspace s ty workspace channel user payload)"
    "fixed g (enqueue_event_tx s sc ty subject workspace channel user payload)"
    "fixed g (request_search s f)" "fixed g (tx_search sc f)"
  unfolding publish_event_def publish_to_workspace_def enqueue_event_tx_def request_search_def tx_search_def
  using assms by (auto intro!: fixed_rules split: option.split prod.split)

lemma fixed_search [fixed_rules]:
  assumes "core g"
  shows "fixed g (enqueue_message_search_tx sc workspace channel m)" "fixed g (enqueue_channel_search_tx sc ch)"
    "fixed g (enqueue_message_delete_search_tx sc workspace i)" "fixed g (enqueue_file_delete_search_tx sc workspace i)"
    "fixed g (request_channel_index s ch)" "fixed g (request_message_index s workspace m)"
    "fixed g (announce_message s workspace user m)" "fixed g (channels_in_scope sc)" "fixed g (messages_in_scope sc)"
  unfolding enqueue_message_search_tx_def enqueue_channel_search_tx_def enqueue_message_delete_search_tx_def
    enqueue_file_delete_search_tx_def request_channel_index_def request_message_index_def announce_message_def
    channels_in_scope_def messages_in_scope_def
  using assms by (auto intro!: fixed_rules)

lemma fixed_delete_files [fixed_rules]:
  assumes "core g" shows "fixed g (delete_files_tx sc workspace as)" "fixed g (delete_files s workspace as)"
  by (induction as) (use assms in \<open>auto intro!: fixed_rules\<close>)

lemma fixed_unindex [fixed_rules]:
  assumes "core g" shows "fixed g (unindex_message_tx sc workspace i)" "fixed g (unindex_message s workspace i)"
  unfolding unindex_message_tx_def unindex_message_def
  using assms by (auto intro!: fixed_rules split: option.split)

lemma fixed_add_members [fixed_rules]: "fixed hw_messages (add_members ms)"
  by (induction ms) (auto intro!: fixed_rules)

lemma fixed_publish_pin [fixed_rules]: "core g \<Longrightarrow> fixed g (publish_pin s ty m i user)"
  using fixed_events(1)[of g s ty _ _ user] by (simp add: fixed_def publish_pin_def Let_def)

lemma fixed_grant [fixed_rules]:
  "fixed hw_messages (ensure_channel_access_grant channel workspace remote source target calls)"
  unfolding fixed_def ensure_channel_access_grant_def
  by (auto simp: chat_exec chat_db_def map_err_def split: sum.split prod.split)

lemma fixed_grant_tx [fixed_rules]:
  "fixed hw_messages (ensure_channel_access_grant_tx sc channel workspace remote source target calls)"
  using fixed_grant[of channel workspace remote source target calls]
  unfolding fixed_def ensure_channel_access_grant_tx_def
  by (auto simp: chat_exec chat_db_def split: sum.split prod.split)

section \<open>At most one statement\<close>

definition may_change :: "(message_tables \<Rightarrow> message_tables \<times> error option) \<Rightarrow> 'a chat_step \<Rightarrow> bool" where
  "may_change f m \<longleftrightarrow> (\<forall>w w' r. m w = (w', r) \<longrightarrow>
     f (hw_messages w) = (hw_messages w', None) \<or> hw_messages w' = hw_messages w \<and> (\<exists>e. r = Err e))"

definition honest_messages :: "(message_tables \<Rightarrow> message_tables \<times> error option) \<Rightarrow> bool" where
  "honest_messages f \<longleftrightarrow> (\<forall>t t' e. f t = (t', Some e) \<longrightarrow> t' = t)"

lemma honest_chat_statements [simp]:
  "honest_messages (pg_create_message m)" "honest_messages (pg_update_message m now)"
  "honest_messages (pg_soft_delete i now)" "honest_messages (pg_pin i u now)" "honest_messages (pg_unpin i now)"
  "honest_messages (pg_add_reaction r)" "honest_messages (pg_remove_reaction i u emoji)"
  "honest_messages (pg_remove_reaction_by_guest i u emoji)" "honest_messages (pg_upsert_state st now)"
  by (auto simp: honest_messages_def pg_create_message_def pg_update_message_def pg_soft_delete_def pg_pin_def pg_unpin_def
      update_message_def pg_add_reaction_def pg_remove_reaction_def pg_remove_reaction_by_guest_def delete_reactions_def
      pg_upsert_state_def Let_def split: option.splits if_splits)

lemma may_change_statement [change_rules]: "honest_messages f \<Longrightarrow> may_change f (chat_messages f)"
  by (auto simp: may_change_def chat_messages_def honest_messages_def unit_result_def split: prod.splits option.splits)

lemma may_change_wrap [change_rules]: "may_change f m \<Longrightarrow> may_change f (map_err h m)"
  unfolding may_change_def map_err_def by (force split: prod.splits sum.splits)

lemma may_change_before [change_rules]:
  assumes "fixed hw_messages m" "\<And>x. may_change f (g x)" shows "may_change f (and_then m g)"
  unfolding may_change_def
proof (intro allI impI)
  fix w w' r assume run: "and_then m g w = (w', r)"
  obtain w1 r1 where m: "m w = (w1, r1)" by fastforce
  have same: "hw_messages w1 = hw_messages w" using fixed_run[OF assms(1) m] .
  show "f (hw_messages w) = (hw_messages w', None) \<or> hw_messages w' = hw_messages w \<and> (\<exists>e. r = Err e)"
  proof (cases r1)
    case (Inl e)
    then show ?thesis using run m same by (auto simp: and_then_def)
  next
    case (Inr x)
    then have "g x w1 = (w', r)" using run m by (simp add: and_then_def)
    then show ?thesis using assms(2)[of x] same unfolding may_change_def by metis
  qed
qed

text \<open>What follows a change must be unable to fail, or be undone with it.\<close>

definition steady :: "'a chat_step \<Rightarrow> bool" where
  "steady m \<longleftrightarrow> (\<forall>w. \<exists>w' x. m w = (w', Ok x))"

definition changes :: "(message_tables \<Rightarrow> message_tables \<times> error option) \<Rightarrow> 'a chat_step \<Rightarrow> bool" where
  "changes f m \<longleftrightarrow> (\<forall>w w' x. m w = (w', Ok x) \<longrightarrow> f (hw_messages w) = (hw_messages w', None))"

lemma may_change_changes: "may_change f m \<Longrightarrow> changes f m"
  unfolding may_change_def changes_def by blast

lemma changes_after [change_rules]:
  assumes "changes f m" "\<And>x. fixed hw_messages (g x)" shows "changes f (and_then m g)"
  unfolding changes_def
proof (intro allI impI)
  fix w w' x assume "and_then m g w = (w', Ok x)"
  then obtain y w1 where "m w = (w1, Ok y)" "g y w1 = (w', Ok x)" by (auto simp: and_then_Ok)
  then show "f (hw_messages w) = (hw_messages w', None)"
    using assms(1) fixed_run[OF assms(2)] by (auto simp: changes_def)
qed

lemma changes_before [change_rules]:
  assumes "fixed hw_messages m" "\<And>x. changes f (g x)" shows "changes f (and_then m g)"
  unfolding changes_def
proof (intro allI impI)
  fix w w' x assume "and_then m g w = (w', Ok x)"
  then obtain y w1 where "m w = (w1, Ok y)" "g y w1 = (w', Ok x)" by (auto simp: and_then_Ok)
  then show "f (hw_messages w) = (hw_messages w', None)"
    using assms(2) fixed_run[OF assms(1)] by (metis changes_def)
qed

lemma may_change_after [change_rules]:
  assumes "may_change f m" "\<And>x. fixed hw_messages (g x)" "\<And>x. steady (g x)" shows "may_change f (and_then m g)"
  unfolding may_change_def
proof (intro allI impI)
  fix w w' r assume run: "and_then m g w = (w', r)"
  obtain w1 r1 where m: "m w = (w1, r1)" by fastforce
  show "f (hw_messages w) = (hw_messages w', None) \<or> hw_messages w' = hw_messages w \<and> (\<exists>e. r = Err e)"
  proof (cases r1)
    case (Inl e)
    then show ?thesis using run m assms(1) by (auto simp: and_then_def may_change_def)
  next
    case (Inr x)
    then have g: "g x w1 = (w', r)" using run m by (simp add: and_then_def)
    have "f (hw_messages w) = (hw_messages w1, None)" using assms(1) m Inr by (auto simp: may_change_def)
    then show ?thesis using fixed_run[OF assms(2) g] by simp
  qed
qed

lemma may_change_tx [change_rules]:
  assumes "changes f m" shows "may_change f (chat_tx m)"
  unfolding may_change_def
proof (intro allI impI)
  fix w w' r assume run: "chat_tx m w = (w', r)"
  show "f (hw_messages w) = (hw_messages w', None) \<or> hw_messages w' = hw_messages w \<and> (\<exists>e. r = Err e)"
  proof (cases r)
    case (Inl e)
    then have "hw_messages w' = hw_messages w" using chat_tx_Err run by (fastforce simp: chat_rolled_back_def)
    then show ?thesis using Inl by blast
  next
    case (Inr x)
    then show ?thesis using run assms by (auto simp: chat_tx_Ok changes_def)
  qed
qed

lemma steady_steps [change_rules]:
  "steady (return x)" "steady (publish_event s ty workspace channel user payload)"
  "steady (publish_to_workspace s ty workspace channel user payload)" "steady (request_search s f)"
  by (auto simp: steady_def return_def publish_event_def publish_to_workspace_def chat_publish_def chat_exec request_search_def
      ignore_err_def split: option.split sum.split)

lemma steady_and_then [change_rules]:
  assumes "steady m" "\<And>x. steady (g x)" shows "steady (and_then m g)"
  unfolding steady_def
proof
  fix w
  obtain w1 x where "m w = (w1, Ok x)" using assms(1) unfolding steady_def by blast
  moreover obtain w2 y where "g x w1 = (w2, Ok y)" using assms(2) unfolding steady_def by blast
  ultimately show "\<exists>w' z. and_then m g w = (w', Ok z)" by (simp add: and_then_def)
qed

lemma steady_if [change_rules]: "steady m \<Longrightarrow> steady n \<Longrightarrow> steady (if b then m else n)"
  by simp

lemma steady_attempt [change_rules]: "steady (attempt m)"
  by (auto simp: steady_def attempt_def split: prod.split sum.split)

lemma steady_delete_files [change_rules]: "steady (delete_files s workspace as)"
  by (induction as) (auto intro!: change_rules)

lemma steady_requests [change_rules]:
  "steady (request_channel_index s ch)" "steady (request_message_index s workspace m)"
  "steady (announce_message s workspace user m)" "steady (unindex_message s workspace i)"
  unfolding request_channel_index_def request_message_index_def announce_message_def unindex_message_def
  by (auto intro!: change_rules split: option.split)

lemma steady_pin [change_rules]: "steady (publish_pin s ty m i user)"
  unfolding steady_def publish_pin_def Let_def
  using steady_steps(2) by (fastforce simp: steady_def)

end
