(* ===== verification/ChatSpec.thy ===== *)
theory ChatSpec
  imports ChatRuns
begin

text \<open>
  Histories of the chat service and what holds along them. \<open>allowed_statement\<close> is the abstract specification:
  the one statement on the message tables that an operation may execute in a world, if its access checks
  pass there. \<open>chat_refines\<close>: whatever fails, an operation executes that statement or none.
\<close>

section \<open>Operations\<close>

datatype chat_op =
    OpCreateChannel uuid uuid string string channel_type
  | OpUpdateChannel uuid uuid string string
  | OpJoinChannel uuid uuid
  | OpLeaveChannel uuid uuid
  | OpSendMessage uuid uuid string "uuid option"
  | OpSendGuestMessage uuid uuid uuid uuid string "uuid option"
  | OpEditMessage uuid uuid string
  | OpEditGuestMessage uuid uuid uuid uuid string
  | OpDeleteMessage uuid uuid
  | OpDeleteGuestMessage uuid uuid uuid uuid
  | OpAddReaction uuid uuid string
  | OpRemoveReaction uuid uuid string
  | OpAddGuestReaction uuid uuid uuid uuid string
  | OpRemoveGuestReaction uuid uuid uuid uuid string
  | OpPinMessage uuid uuid
  | OpUnpinMessage uuid uuid
  | OpGetOrCreateDM uuid uuid uuid "uuid option"
  | OpMarkRead uuid uuid

fun run_chat :: "chat_service \<Rightarrow> chat_op \<Rightarrow> chat_world \<Rightarrow> chat_world" where
  "run_chat s (OpCreateChannel ws u name topic ty) w = fst (create_channel s ws u name topic ty w)"
| "run_chat s (OpUpdateChannel c u name topic) w = fst (update_channel s c u name topic w)"
| "run_chat s (OpJoinChannel c u) w = fst (join_channel s c u w)"
| "run_chat s (OpLeaveChannel c u) w = fst (leave_channel s c u w)"
| "run_chat s (OpSendMessage c u content parent) w = fst (send_message s c u content parent w)"
| "run_chat s (OpSendGuestMessage c ws call g content parent) w = fst (send_meeting_guest_message s c ws call g content parent w)"
| "run_chat s (OpEditMessage i u content) w = fst (edit_message s i u content w)"
| "run_chat s (OpEditGuestMessage i ws call g content) w = fst (edit_meeting_guest_message s i ws call g content w)"
| "run_chat s (OpDeleteMessage i u) w = fst (delete_message s i u w)"
| "run_chat s (OpDeleteGuestMessage i ws call g) w = fst (delete_meeting_guest_message s i ws call g w)"
| "run_chat s (OpAddReaction i u emoji) w = fst (add_reaction s i u emoji w)"
| "run_chat s (OpRemoveReaction i u emoji) w = fst (remove_reaction s i u emoji w)"
| "run_chat s (OpAddGuestReaction i ws call g emoji) w = fst (add_meeting_guest_reaction s i ws call g emoji w)"
| "run_chat s (OpRemoveGuestReaction i ws call g emoji) w = fst (remove_meeting_guest_reaction s i ws call g emoji w)"
| "run_chat s (OpPinMessage i u) w = fst (pin_message s i u w)"
| "run_chat s (OpUnpinMessage i u) w = fst (unpin_message s i u w)"
| "run_chat s (OpGetOrCreateDM ws a b target) w = fst (get_or_create_dm s ws a b target w)"
| "run_chat s (OpMarkRead c u) w = fst (mark_read s c u w)"

section \<open>The specification\<close>

type_synonym message_statement = "message_tables \<Rightarrow> message_tables \<times> error option"

definition when_ok :: "'a result \<Rightarrow> ('a \<Rightarrow> 'b option) \<Rightarrow> 'b option" where
  "when_ok r f = (case r of Err e \<Rightarrow> None | Ok x \<Rightarrow> f x)"

definition guest_message :: "uuid \<Rightarrow> uuid \<Rightarrow> uuid \<Rightarrow> call_participant \<Rightarrow> uuid option \<Rightarrow> string \<Rightarrow> instant \<Rightarrow> message" where
  "guest_message i channel guest p parent content now =
     (new_message i channel uuid_nil parent content now)\<lparr>ms_sender := SenderGuest, ms_guest := Some guest, ms_name := guest_name p\<rparr>"

definition new_reaction :: "uuid \<Rightarrow> uuid \<Rightarrow> sender_type \<Rightarrow> uuid option \<Rightarrow> uuid option \<Rightarrow> string \<Rightarrow> string \<Rightarrow> instant \<Rightarrow> reaction" where
  "new_reaction j i k u g name emoji now =
     \<lparr>rn_id = j, rn_message = i, rn_reactor = k, rn_user = u, rn_guest = g, rn_name = name, rn_emoji = emoji, rn_created_at = now\<rparr>"

fun allowed_statement :: "chat_service \<Rightarrow> chat_op \<Rightarrow> chat_world \<Rightarrow> message_statement option" where
  "allowed_statement s (OpSendMessage c u content parent) w =
     when_ok (authorize_channel s c u CapabilityParticipate w) (\<lambda>d.
       if ch_archived (dc_channel d) \<or> check_parent parent c w \<noteq> None then None
       else Some (pg_create_message (new_message (hw_next_id w) c u parent content (hw_now w))))"
| "allowed_statement s (OpSendGuestMessage c ws call g content parent) w =
     when_ok (authorize_meeting_guest_channel s c ws call g w) (\<lambda>(ch, p).
       if ch_archived ch \<or> check_parent parent c w \<noteq> None then None
       else Some (pg_create_message (guest_message (hw_next_id w) c g p parent content (hw_now w))))"
| "allowed_statement s (OpEditMessage i u content) w =
     when_ok (require_own_message s i u CapabilityParticipate w) (\<lambda>(m, ch).
       Some (pg_update_message (edited_message m content (hw_now w)) (hw_now w)))"
| "allowed_statement s (OpEditGuestMessage i ws call g content) w =
     when_ok (require_own_guest_message s i ws call g w) (\<lambda>(m, ch).
       Some (pg_update_message (edited_message m content (hw_now w)) (hw_now w)))"
| "allowed_statement s (OpDeleteMessage i u) w =
     when_ok (require_own_message s i u CapabilityParticipate w) (\<lambda>x. Some (pg_soft_delete i (hw_now w)))"
| "allowed_statement s (OpDeleteGuestMessage i ws call g) w =
     when_ok (require_own_guest_message s i ws call g w) (\<lambda>x. Some (pg_soft_delete i (hw_now w)))"
| "allowed_statement s (OpAddReaction i u emoji) w =
     when_ok (require_message_access s i u CapabilityParticipate w) (\<lambda>x.
       Some (pg_add_reaction (new_reaction (hw_next_id w) i SenderUser (Some u) None [] emoji (hw_now w))))"
| "allowed_statement s (OpRemoveReaction i u emoji) w =
     when_ok (require_message_access s i u CapabilityParticipate w) (\<lambda>x. Some (pg_remove_reaction i u emoji))"
| "allowed_statement s (OpAddGuestReaction i ws call g emoji) w =
     when_ok (require_guest_message_access s i ws call g w) (\<lambda>(m, ch, p).
       Some (pg_add_reaction (new_reaction (hw_next_id w) i SenderGuest None (Some g) (guest_name p) emoji (hw_now w))))"
| "allowed_statement s (OpRemoveGuestReaction i ws call g emoji) w =
     when_ok (require_guest_message_access s i ws call g w) (\<lambda>x. Some (pg_remove_reaction_by_guest i g emoji))"
| "allowed_statement s (OpPinMessage i u) w =
     when_ok (pg_get_message (hw_messages w) i) (\<lambda>m.
     when_ok (authorize_channel s (ms_channel m) u CapabilityParticipate w) (\<lambda>d.
       if ms_pinned m then None else Some (pg_pin i u (hw_now w))))"
| "allowed_statement s (OpUnpinMessage i u) w =
     when_ok (pg_get_message (hw_messages w) i) (\<lambda>m.
     when_ok (authorize_channel s (ms_channel m) u CapabilityParticipate w) (\<lambda>d.
       if ms_pinned m then Some (pg_unpin i (hw_now w)) else None))"
| "allowed_statement s (OpMarkRead c u) w =
     when_ok (authorize_channel s c u CapabilityParticipate w) (\<lambda>d.
       if dc_subject d = SubjectMember \<and> dc_channel_member d \<noteq> None \<or> \<not> hs_read_states s then None
       else Some (pg_upsert_state \<lparr>cs_channel = ch_id (dc_channel d), cs_user = u, cs_last_read_at = hw_now w,
              cs_created_at = 0, cs_updated_at = 0\<rparr> (hw_now w)))"
| "allowed_statement s _ w = None"

definition refined :: "message_statement option \<Rightarrow> message_tables \<Rightarrow> message_tables \<Rightarrow> bool" where
  "refined sp t t' \<longleftrightarrow> t' = t \<or> (\<exists>f. sp = Some f \<and> f t = (t', None))"

lemma refined_same [simp]: "refined sp t t"
  by (simp add: refined_def)

lemma refined_change: "may_change f m \<Longrightarrow> sp = Some f \<Longrightarrow> hw_messages w = t \<Longrightarrow> refined sp t (hw_messages (fst (m w)))"
  unfolding may_change_def refined_def by (metis prod.collapse)

lemma refined_fixed: "fixed hw_messages m \<Longrightarrow> hw_messages w = t \<Longrightarrow> refined sp t (hw_messages (fst (m w)))"
  by (simp add: fixed_def refined_def)

lemma when_ok_Ok [simp]: "when_ok (Ok x) f = f x" "when_ok (Err e) f = None"
  by (simp_all add: when_ok_def)

section \<open>The operations on channels leave the messages alone\<close>

lemma fixed_channel_ops:
  "fixed hw_messages (create_channel s ws u name topic ty)" "fixed hw_messages (update_channel s c u name topic)"
  "fixed hw_messages (join_channel s c u)" "fixed hw_messages (leave_channel s c u)"
  unfolding create_channel_def store_channel_def update_channel_def store_channel_update_def Let_def join_channel_def leave_channel_def
  by (auto intro!: fixed_rules split: option.split)

lemma fixed_dm: "fixed hw_messages (get_or_create_dm s ws a b target)"
  unfolding get_or_create_dm_def store_dm_def Let_def
  by (auto intro!: fixed_rules split: option.split)

section \<open>The operations on messages\<close>

lemma change_in_tx:
  assumes "fixed hw_messages pre" "honest_messages f" "\<And>x. fixed hw_messages (post x)"
  shows "may_change f (map_err h (chat_tx (and_then pre (\<lambda>_. and_then (chat_messages f) post))))"
  using assms
  by (intro may_change_wrap may_change_tx changes_before changes_after may_change_changes[OF may_change_statement])

lemma change_directly:
  assumes "honest_messages f" "\<And>x. fixed hw_messages (post x)" "\<And>x. steady (post x)"
  shows "may_change f (and_then (map_err h (chat_messages f)) post)"
  using assms by (intro may_change_after may_change_wrap may_change_statement)

lemma steady_return: "\<And>x. steady (return (g x))" by (rule steady_steps)

lemma may_change_store:
  "may_change (pg_create_message m) (store_message s ws u m)"
proof -
  have "may_change (pg_create_message m) (and_then (case hs_tx s of
      Some sc \<Rightarrow> map_err h (chat_tx (and_then (messages_in_scope sc) (\<lambda>_. and_then (chat_messages (pg_create_message m)) (\<lambda>_.
        and_then (enqueue_message_search_tx sc ws c n) (\<lambda>_. and_then (enqueue_event_tx s sc ty1 sj1 ws c u p1) (\<lambda>_.
          enqueue_event_tx s sc ty2 sj2 ws c u p2))))))
    | None \<Rightarrow> and_then (map_err h (chat_messages (pg_create_message m))) (\<lambda>_.
        and_then (request_message_index s ws n) (\<lambda>_. announce_message s ws u n))) (\<lambda>_. return n))"
    for h c n ty1 sj1 p1 ty2 sj2 p2
    by (rule may_change_after)
      (cases "hs_tx s"; auto intro!: change_in_tx change_directly fixed_rules steady_and_then steady_requests steady_steps)+
  then show ?thesis unfolding store_message_def Let_def .
qed

lemma refines_send: "refined (allowed_statement s (OpSendMessage c u content parent) w) (hw_messages w)
    (hw_messages (fst (send_message s c u content parent w)))"
  unfolding send_message_def chat_exec
  by (auto split: option.split sum.split intro!: refined_change[OF may_change_store])

lemma may_change_return: "may_change f m \<Longrightarrow> may_change f (and_then m (\<lambda>_. return x))"
  by (rule may_change_after) (auto intro!: fixed_rules steady_steps)

lemma may_change_cases:
  "(hs = None \<Longrightarrow> may_change f m) \<Longrightarrow> (\<And>sc. hs = Some sc \<Longrightarrow> may_change f (k sc)) \<Longrightarrow>
   may_change f (case hs of None \<Rightarrow> m | Some sc \<Rightarrow> k sc)"
  by (cases hs) auto

lemmas one_statement_rules =
  may_change_return may_change_cases change_in_tx change_directly honest_chat_statements fixed_rules steady_and_then steady_if
  steady_requests steady_steps steady_pin core_parts

lemma refines_send_guest:
  "refined (allowed_statement s (OpSendGuestMessage c ws call g content parent) w) (hw_messages w)
    (hw_messages (fst (send_meeting_guest_message s c ws call g content parent w)))"
  unfolding send_meeting_guest_message_def chat_exec Let_def
  by (auto split: option.split sum.split prod.split simp: guest_message_def intro!: refined_change one_statement_rules)

lemma refines_edit: "refined (allowed_statement s (OpEditMessage i u content) w) (hw_messages w)
    (hw_messages (fst (edit_message s i u content w)))"
proof -
  obtain now k where n: "hw_now w = now" "hw_next_id w = k" by blast
  show ?thesis unfolding edit_message_def chat_exec Let_def n
    by (auto simp: n split: option.split sum.split prod.split intro!: refined_change one_statement_rules)
qed

lemma refines_edit_guest: "refined (allowed_statement s (OpEditGuestMessage i ws call g content) w) (hw_messages w)
    (hw_messages (fst (edit_meeting_guest_message s i ws call g content w)))"
proof -
  obtain now k where n: "hw_now w = now" "hw_next_id w = k" by blast
  show ?thesis unfolding edit_meeting_guest_message_def chat_exec Let_def n
    by (auto simp: n split: option.split sum.split prod.split intro!: refined_change one_statement_rules)
qed

lemma refines_delete: "refined (allowed_statement s (OpDeleteMessage i u) w) (hw_messages w)
    (hw_messages (fst (delete_message s i u w)))"
proof -
  obtain now k where n: "hw_now w = now" "hw_next_id w = k" by blast
  show ?thesis unfolding delete_message_def chat_exec Let_def n
    by (auto simp: n split: option.split sum.split prod.split intro!: refined_change one_statement_rules)
qed

lemma refines_delete_guest: "refined (allowed_statement s (OpDeleteGuestMessage i ws call g) w) (hw_messages w)
    (hw_messages (fst (delete_meeting_guest_message s i ws call g w)))"
proof -
  obtain now k where n: "hw_now w = now" "hw_next_id w = k" by blast
  show ?thesis unfolding delete_meeting_guest_message_def chat_exec Let_def n
    by (auto simp: n split: option.split sum.split prod.split intro!: refined_change one_statement_rules)
qed

lemma refines_add_reaction: "refined (allowed_statement s (OpAddReaction i u emoji) w) (hw_messages w) (hw_messages (fst (add_reaction s i u emoji w)))"
proof -
  obtain now k where n: "hw_now w = now" "hw_next_id w = k" by blast
  show ?thesis unfolding add_reaction_def chat_exec Let_def n new_reaction_def[symmetric]
    by (auto simp: n split: option.split sum.split prod.split intro!: refined_change one_statement_rules)
qed

lemma refines_remove_reaction: "refined (allowed_statement s (OpRemoveReaction i u emoji) w) (hw_messages w) (hw_messages (fst (remove_reaction s i u emoji w)))"
proof -
  obtain now k where n: "hw_now w = now" "hw_next_id w = k" by blast
  show ?thesis unfolding remove_reaction_def chat_exec Let_def n
    by (auto simp: n split: option.split sum.split prod.split intro!: refined_change one_statement_rules)
qed

lemma refines_add_guest_reaction: "refined (allowed_statement s (OpAddGuestReaction i ws call g emoji) w) (hw_messages w)
     (hw_messages (fst (add_meeting_guest_reaction s i ws call g emoji w)))"
proof -
  obtain now k where n: "hw_now w = now" "hw_next_id w = k" by blast
  show ?thesis unfolding add_meeting_guest_reaction_def chat_exec Let_def n new_reaction_def[symmetric]
    by (auto simp: n split: option.split sum.split prod.split intro!: refined_change one_statement_rules)
qed

lemma refines_remove_guest_reaction: "refined (allowed_statement s (OpRemoveGuestReaction i ws call g emoji) w) (hw_messages w)
     (hw_messages (fst (remove_meeting_guest_reaction s i ws call g emoji w)))"
proof -
  obtain now k where n: "hw_now w = now" "hw_next_id w = k" by blast
  show ?thesis unfolding remove_meeting_guest_reaction_def chat_exec Let_def n
    by (auto simp: n split: option.split sum.split prod.split intro!: refined_change one_statement_rules)
qed

lemma refines_pin: "refined (allowed_statement s (OpPinMessage i u) w) (hw_messages w) (hw_messages (fst (pin_message s i u w)))"
proof -
  obtain now k where n: "hw_now w = now" "hw_next_id w = k" by blast
  show ?thesis unfolding pin_message_def any_chat_message_def chat_exec Let_def n
    by (auto simp: n split: option.split sum.split prod.split intro!: refined_change one_statement_rules)
qed

lemma refines_unpin: "refined (allowed_statement s (OpUnpinMessage i u) w) (hw_messages w) (hw_messages (fst (unpin_message s i u w)))"
proof -
  obtain now k where n: "hw_now w = now" "hw_next_id w = k" by blast
  show ?thesis unfolding unpin_message_def any_chat_message_def chat_exec Let_def n
    by (auto simp: n split: option.split sum.split prod.split intro!: refined_change one_statement_rules)
qed

lemma upsert_honest: "pg_upsert_state st now t = (t', Some e) \<Longrightarrow> t' = t"
  using honest_chat_statements(9)[of st now] by (simp add: honest_messages_def)

lemma refines_mark_read:
  "refined (allowed_statement s (OpMarkRead c u) w) (hw_messages w) (hw_messages (fst (mark_read s c u w)))"
  unfolding mark_read_def update_last_read_def chat_exec
  by (auto simp: map_err_def exec_clock chat_db_def chat_messages_def return_def refined_def unit_result_def
      split: option.split sum.split prod.split dest: upsert_honest)

lemma chat_refines: "refined (allowed_statement s op w) (hw_messages w) (hw_messages (run_chat s op w))"
proof (cases op)
  case (OpCreateChannel ws u name topic ty)
  then show ?thesis using fixed_channel_ops(1)[of s ws u name topic ty] by (simp add: fixed_def)
next
  case (OpUpdateChannel c u name topic)
  then show ?thesis using fixed_channel_ops(2)[of s c u name topic] by (simp add: fixed_def)
next
  case (OpJoinChannel c u)
  then show ?thesis using fixed_channel_ops(3)[of s c u] by (simp add: fixed_def)
next
  case (OpLeaveChannel c u)
  then show ?thesis using fixed_channel_ops(4)[of s c u] by (simp add: fixed_def)
next
  case (OpGetOrCreateDM ws a b target)
  then show ?thesis using fixed_dm[of s ws a b target] by (simp add: fixed_def)
qed (simp_all only: run_chat.simps refines_send refines_send_guest refines_edit refines_edit_guest refines_delete
    refines_delete_guest refines_add_reaction refines_remove_reaction refines_add_guest_reaction
    refines_remove_guest_reaction refines_pin refines_unpin refines_mark_read)

section \<open>What a statement does to the rows\<close>

lemma create_message_None:
  "pg_create_message m t = (t', None) \<Longrightarrow>
     let n = normalize_message_sender m in
     sender_check (ms_sender n) (message_user_id_value n) (message_guest_session_id_value n) \<and>
     (\<forall>r \<in> set (mt_messages t). ms_id r \<noteq> ms_id m) \<and> t' = t\<lparr>mt_messages := mt_messages t @ [message_row n]\<rparr>"
  by (auto simp: pg_create_message_def Let_def list_ex_iff normalize_message_sender_def split: option.splits if_splits)

lemma update_message_None:
  "update_message what i now f t = (t', None) \<Longrightarrow>
     t' = t\<lparr>mt_messages := update_rows (live_message i) (\<lambda>r. (f r)\<lparr>ms_updated_at := now\<rparr>) (mt_messages t)\<rparr>"
  by (auto simp: update_message_def split: option.splits)

lemma add_reaction_None:
  "pg_add_reaction r t = (t', None) \<Longrightarrow>
     let n = reaction_row (normalize_reaction_sender r) in
     sender_check (rn_reactor n) (rn_user n) (rn_guest n) \<and> (\<forall>x \<in> set (mt_reactions t). \<not> reaction_clash n x) \<and>
     t' = t\<lparr>mt_reactions := mt_reactions t @ [n]\<rparr>"
  by (auto simp: pg_add_reaction_def Let_def list_ex_iff split: option.splits if_splits)

lemma delete_reactions_None:
  "delete_reactions fl msg P t = (t', None) \<Longrightarrow> t' = t\<lparr>mt_reactions := filter (\<lambda>r. \<not> P r) (mt_reactions t)\<rparr>"
  by (auto simp: delete_reactions_def split: option.splits)

lemma upsert_state_None:
  "pg_upsert_state st now t = (t', None) \<Longrightarrow> mt_messages t' = mt_messages t \<and> mt_reactions t' = mt_reactions t"
  by (auto simp: pg_upsert_state_def Let_def split: option.splits)

end
