(* ===== verification/ChatProps.thy ===== *)
theory ChatProps
  imports ChatSpec
begin

text \<open>
  What holds along every history of the chat service: the message tables stay well-formed, only authors
  change or delete their messages, meeting guests stay in the chat of their live meeting. Then what single
  operations achieve: sending is all or nothing, pages are consecutive segments of a channel, a direct
  message channel is found again, and a channel marked as read has no unread messages.
\<close>

section \<open>Well-formed message tables\<close>

definition sender_row :: "message \<Rightarrow> bool" where
  "sender_row m \<longleftrightarrow>
     ms_sender m = SenderUser \<and> ms_user m \<noteq> uuid_nil \<and> ms_guest m = None \<or>
     ms_sender m = SenderGuest \<and> ms_user m = uuid_nil \<and> ms_guest m \<noteq> None"

definition reaction_key :: "reaction \<Rightarrow> uuid \<times> string \<times> sender_type \<times> uuid option \<times> uuid option" where
  "reaction_key r = (rn_message r, rn_emoji r, rn_reactor r, rn_user r, rn_guest r)"

text \<open>A reply comes after the message it answers, which is of the same channel.\<close>

definition parent_ok :: "message list \<Rightarrow> message \<Rightarrow> bool" where
  "parent_ok seen m \<longleftrightarrow>
     (case ms_parent m of None \<Rightarrow> True | Some p \<Rightarrow> list_ex (\<lambda>q. ms_id q = p \<and> ms_channel q = ms_channel m) seen)"

fun parents_from :: "message list \<Rightarrow> message list \<Rightarrow> bool" where
  "parents_from seen [] \<longleftrightarrow> True"
| "parents_from seen (m # ms) \<longleftrightarrow> parent_ok seen m \<and> parents_from (seen @ [m]) ms"

definition messages_ok :: "message_tables \<Rightarrow> bool" where
  "messages_ok t \<longleftrightarrow>
     distinct (map ms_id (mt_messages t)) \<and> list_all sender_row (mt_messages t) \<and> parents_from [] (mt_messages t) \<and>
     distinct (map rn_id (mt_reactions t)) \<and> distinct (map reaction_key (mt_reactions t)) \<and>
     list_all (\<lambda>r. sender_check (rn_reactor r) (rn_user r) (rn_guest r) \<and>
                   list_ex (\<lambda>m. ms_id m = rn_message r) (mt_messages t)) (mt_reactions t)"

lemma parents_from_append:
  "parents_from seen (xs @ ys) \<longleftrightarrow> parents_from seen xs \<and> parents_from (seen @ xs) ys"
  by (induction xs arbitrary: seen) auto

lemma parents_from_map:
  assumes "\<And>m. ms_id (g m) = ms_id m" "\<And>m. ms_channel (g m) = ms_channel m" "\<And>m. ms_parent (g m) = ms_parent m"
  shows "parents_from (map g seen) (map g ms) = parents_from seen ms"
proof (induction ms arbitrary: seen)
  case (Cons m ms)
  have "parent_ok (map g seen) (g m) = parent_ok seen m"
    by (simp add: parent_ok_def assms list_ex_iff split: option.split)
  then show ?case using Cons[of "seen @ [m]"] by simp
qed simp

lemma messages_ok_update:
  assumes "messages_ok t"
    and "\<And>m. ms_id (f m) = ms_id m" "\<And>m. ms_channel (f m) = ms_channel m" "\<And>m. ms_parent (f m) = ms_parent m"
    and "\<And>m. ms_sender (f m) = ms_sender m" "\<And>m. ms_user (f m) = ms_user m" "\<And>m. ms_guest (f m) = ms_guest m"
  shows "messages_ok (t\<lparr>mt_messages := update_rows P (\<lambda>r. (f r)\<lparr>ms_updated_at := now\<rparr>) (mt_messages t)\<rparr>)"
proof -
  define g where "g = (\<lambda>r. if P r then (f r)\<lparr>ms_updated_at := now\<rparr> else r)"
  have g: "ms_id (g m) = ms_id m" "ms_channel (g m) = ms_channel m" "ms_parent (g m) = ms_parent m"
    "ms_sender (g m) = ms_sender m" "ms_user (g m) = ms_user m" "ms_guest (g m) = ms_guest m" for m
    using assms by (simp_all add: g_def)
  have "ms_id \<circ> g = ms_id" by (auto simp: g)
  moreover have "sender_row (g m) = sender_row m" for m by (simp add: sender_row_def g)
  moreover have "parents_from [] (map g ms) = parents_from [] ms" for ms
    using parents_from_map[of g "[]" ms] g by simp
  moreover have "list_ex (\<lambda>m. ms_id m = i) (map g ms) = list_ex (\<lambda>m. ms_id m = i) ms" for i ms
    by (simp add: list_ex_iff g)
  ultimately show ?thesis
    using assms(1) by (simp add: messages_ok_def update_rows_def g_def[symmetric] list_all_iff)
qed

lemma messages_ok_create:
  assumes ok: "messages_ok t" and run: "pg_create_message m t = (t', None)"
    and parent: "parent_ok (mt_messages t) m"
  shows "messages_ok t'"
proof -
  define n where "n = normalize_message_sender m"
  have n: "sender_check (ms_sender n) (message_user_id_value n) (message_guest_session_id_value n)"
    "\<forall>r \<in> set (mt_messages t). ms_id r \<noteq> ms_id m" "t' = t\<lparr>mt_messages := mt_messages t @ [message_row n]\<rparr>"
    using create_message_None[OF run] by (simp_all add: n_def Let_def)
  have same: "ms_id (message_row n) = ms_id m" "ms_channel (message_row n) = ms_channel m" "ms_parent (message_row n) = ms_parent m"
    by (simp_all add: message_row_def n_def normalize_message_sender_def Let_def)
  have "sender_row (message_row n)"
    using n(1) by (auto simp: sender_row_def sender_check_def message_row_def message_user_id_value_def
        message_guest_session_id_value_def split: if_splits option.splits)
  moreover have "parent_ok (mt_messages t) (message_row n)"
    using parent by (auto simp: parent_ok_def same split: option.splits)
  ultimately show ?thesis
    using ok n(2,3) same by (auto simp: messages_ok_def parents_from_append list_all_iff)
qed

lemma reaction_row_clash:
  assumes "sender_check (rn_reactor r) (rn_user r) (rn_guest r)" "reaction_key x = reaction_key r"
  shows "reaction_clash r x"
  using assms by (auto simp: reaction_clash_def reaction_key_def sender_check_def)

lemma messages_ok_react:
  assumes "messages_ok t" "pg_add_reaction r t = (t', None)" "list_ex (\<lambda>m. ms_id m = rn_message r) (mt_messages t)"
  shows "messages_ok t'"
proof -
  define n where "n = reaction_row (normalize_reaction_sender r)"
  have n: "sender_check (rn_reactor n) (rn_user n) (rn_guest n)" "\<forall>x \<in> set (mt_reactions t). \<not> reaction_clash n x"
    "t' = t\<lparr>mt_reactions := mt_reactions t @ [n]\<rparr>"
    using add_reaction_None[OF assms(2)] by (simp_all add: n_def Let_def)
  have "rn_message n = rn_message r"
    by (simp add: n_def reaction_row_def normalize_reaction_sender_def Let_def split: sender_type.split)
  moreover have "rn_id n \<noteq> rn_id x \<and> reaction_key n \<noteq> reaction_key x" if "x \<in> set (mt_reactions t)" for x
    using n(2) that reaction_row_clash[OF n(1), of x] by (auto simp: reaction_clash_def)
  ultimately show ?thesis
    using assms(1,3) n(1,3) by (auto simp: messages_ok_def)
qed

lemma messages_ok_unreact: "messages_ok t \<Longrightarrow> delete_reactions fl msg P t = (t', None) \<Longrightarrow> messages_ok t'"
  by (drule delete_reactions_None) (auto simp: messages_ok_def distinct_map_filter list_all_iff)

lemma messages_ok_same: "messages_ok t \<Longrightarrow> mt_messages t' = mt_messages t \<Longrightarrow> mt_reactions t' = mt_reactions t \<Longrightarrow> messages_ok t'"
  by (simp add: messages_ok_def)

lemma check_parent_ok: "check_parent parent c w = None \<Longrightarrow> ms_parent m = parent \<Longrightarrow> ms_channel m = c \<Longrightarrow> parent_ok (mt_messages (hw_messages w)) m"
  by (auto simp: check_parent_def parent_ok_def pg_get_message_def result_bind_def scan_message_def list_ex_iff
      dest!: query_row_member split: option.splits sum.splits if_splits)

lemma get_message_row:
  "pg_get_message t i = Ok m \<Longrightarrow> \<exists>r \<in> set (mt_messages t). ms_id r = i \<and> m = scan_message r"
  by (auto simp: pg_get_message_def result_bind_def dest!: query_row_member split: sum.splits)

lemma allowed_message_row:
  "live_chat_message i w = Ok m \<Longrightarrow> \<exists>r \<in> set (mt_messages (hw_messages w)). ms_id r = i \<and> m = scan_message r \<and> ms_deleted_at r = None"
  by (auto simp: live_chat_message_def scan_message_def dest!: get_message_row split: sum.splits if_splits)

text \<open>The checks of the messages an operation works on lead to a live message.\<close>

lemma access_live:
  "require_message_access s i u cap w = Ok (m, ch) \<Longrightarrow>
     live_chat_message i w = Ok m \<and> (\<exists>d. authorize_channel s (ms_channel m) u cap w = Ok d \<and> ch = dc_channel d)"
  by (auto simp: require_message_access_def result_bind_Ok)

lemma own_live:
  "require_own_message s i u cap w = Ok (m, ch) \<Longrightarrow>
     live_chat_message i w = Ok m \<and> ms_user m = u \<and> (\<exists>d. authorize_channel s (ms_channel m) u cap w = Ok d \<and> ch = dc_channel d)"
  by (auto simp: require_own_message_def result_bind_Ok dest!: access_live split: if_splits)

lemma guest_live:
  "require_guest_message_access s i ws call g w = Ok (m, ch, p) \<Longrightarrow>
     live_chat_message i w = Ok m \<and> authorize_meeting_guest_channel s (ms_channel m) ws call g w = Ok (ch, p)"
  by (auto simp: require_guest_message_access_def result_bind_Ok)

lemma own_guest_live:
  "require_own_guest_message s i ws call g w = Ok (m, ch) \<Longrightarrow>
     live_chat_message i w = Ok m \<and> ms_sender m = SenderGuest \<and> ms_guest m = Some g \<and>
     (\<exists>p. authorize_meeting_guest_channel s (ms_channel m) ws call g w = Ok (ch, p))"
  by (auto simp: require_own_guest_message_def result_bind_Ok dest!: guest_live split: if_splits)

lemma live_exists: "live_chat_message i w = Ok m \<Longrightarrow> list_ex (\<lambda>m. ms_id m = i) (mt_messages (hw_messages w))"
  by (auto simp: list_ex_iff dest!: allowed_message_row)

lemma when_ok_Some: "when_ok r f = Some y \<longleftrightarrow> (\<exists>x. r = Ok x \<and> f x = Some y)"
  by (auto simp: when_ok_def split: sum.splits)

lemma messages_ok_update_message:
  assumes "messages_ok t" "update_message what i now f t = (t', None)"
    and "\<And>m. ms_id (f m) = ms_id m" "\<And>m. ms_channel (f m) = ms_channel m" "\<And>m. ms_parent (f m) = ms_parent m"
    and "\<And>m. ms_sender (f m) = ms_sender m" "\<And>m. ms_user (f m) = ms_user m" "\<And>m. ms_guest (f m) = ms_guest m"
  shows "messages_ok t'"
  unfolding update_message_None[OF assms(2)] by (rule messages_ok_update) (use assms in auto)

lemma messages_ok_updates:
  assumes "messages_ok t"
  shows "pg_update_message m now t = (t', None) \<Longrightarrow> messages_ok t'" "pg_soft_delete i now t = (t', None) \<Longrightarrow> messages_ok t'"
    "pg_pin i u now t = (t', None) \<Longrightarrow> messages_ok t'" "pg_unpin i now t = (t', None) \<Longrightarrow> messages_ok t'"
    "pg_remove_reaction i u emoji t = (t', None) \<Longrightarrow> messages_ok t'"
    "pg_remove_reaction_by_guest i u emoji t = (t', None) \<Longrightarrow> messages_ok t'"
  unfolding pg_update_message_def pg_soft_delete_def pg_pin_def pg_unpin_def pg_remove_reaction_def pg_remove_reaction_by_guest_def
  by ((erule messages_ok_update_message[OF assms] messages_ok_unreact[OF assms]; simp)+)

lemma messages_ok_allowed:
  assumes "messages_ok (hw_messages w)" "allowed_statement s op w = Some f" "f (hw_messages w) = (t', None)"
  shows "messages_ok t'"
proof (cases op)
  case (OpSendMessage c u content parent)
  then show ?thesis using assms
    by (auto simp: when_ok_Some new_message_def split: if_splits intro!: messages_ok_create[OF assms(1)] check_parent_ok)
next
  case (OpSendGuestMessage c ws call g content parent)
  then show ?thesis using assms
    by (auto simp: when_ok_Some guest_message_def new_message_def split: if_splits intro!: messages_ok_create[OF assms(1)] check_parent_ok)
next
  case (OpAddReaction i u emoji)
  then show ?thesis using assms
    by (auto simp: when_ok_Some new_reaction_def intro!: messages_ok_react[OF assms(1)] dest!: access_live live_exists)
next
  case (OpAddGuestReaction i ws call g emoji)
  then show ?thesis using assms
    by (auto simp: when_ok_Some new_reaction_def intro!: messages_ok_react[OF assms(1)] dest!: guest_live live_exists)
next
  case (OpMarkRead c u)
  then show ?thesis using assms
    by (auto simp: when_ok_Some split: if_splits dest!: upsert_state_None intro: messages_ok_same[OF assms(1)])
qed (use assms in \<open>auto simp: when_ok_Some split: if_splits intro: messages_ok_updates[OF assms(1)]\<close>)

section \<open>Histories\<close>

text \<open>Between the operations of the service anything may happen to the rest of the world: calls, channels, the
  clock, the queue and the faults to come.\<close>

inductive chat_history :: "chat_service \<Rightarrow> chat_world \<Rightarrow> bool" for s where
  history_start: "mt_messages (hw_messages w) = [] \<Longrightarrow> mt_reactions (hw_messages w) = [] \<Longrightarrow> chat_history s w"
| history_op: "chat_history s w \<Longrightarrow> chat_history s (run_chat s op w)"
| history_env: "chat_history s w \<Longrightarrow> mt_messages (hw_messages w') = mt_messages (hw_messages w) \<Longrightarrow>
    mt_reactions (hw_messages w') = mt_reactions (hw_messages w) \<Longrightarrow> chat_history s w'"

lemma history_messages_ok: "chat_history s w \<Longrightarrow> messages_ok (hw_messages w)"
proof (induction rule: chat_history.induct)
  case (history_op w op)
  show ?case using chat_refines[of s op w] history_op.IH messages_ok_allowed[OF history_op.IH]
    by (auto simp: refined_def)
qed (auto simp: messages_ok_def)

text \<open>C31: whatever requests the chat service served, with whatever faults, the message tables are well-formed:
  identifiers are unique, every message comes from exactly a user or a guest, a reply comes after the message it
  answers and in the same channel, nobody reacts twice to a message with the same emoji, and every reaction is
  to an existing message.\<close>

theorem messages_well_formed:
  assumes "chat_history s w"
  shows "messages_ok (hw_messages w)"
  using assms by (rule history_messages_ok)

section \<open>Authors\<close>

text \<open>The operation edits or deletes the message, on behalf of its author who may act in its channel.\<close>

fun author_acts :: "chat_service \<Rightarrow> chat_op \<Rightarrow> chat_world \<Rightarrow> message \<Rightarrow> bool" where
  "author_acts s (OpEditMessage i u content) w m \<longleftrightarrow>
     i = ms_id m \<and> u = ms_user m \<and> (\<exists>d. authorize_channel s (ms_channel m) u CapabilityParticipate w = Ok d)"
| "author_acts s (OpDeleteMessage i u) w m \<longleftrightarrow>
     i = ms_id m \<and> u = ms_user m \<and> (\<exists>d. authorize_channel s (ms_channel m) u CapabilityParticipate w = Ok d)"
| "author_acts s (OpEditGuestMessage i ws call g content) w m \<longleftrightarrow>
     i = ms_id m \<and> Some g = ms_guest m \<and> (\<exists>x. authorize_meeting_guest_channel s (ms_channel m) ws call g w = Ok x)"
| "author_acts s (OpDeleteGuestMessage i ws call g) w m \<longleftrightarrow>
     i = ms_id m \<and> Some g = ms_guest m \<and> (\<exists>x. authorize_meeting_guest_channel s (ms_channel m) ws call g w = Ok x)"
| "author_acts s _ w m \<longleftrightarrow> False"

definition same_identity :: "message \<Rightarrow> message \<Rightarrow> bool" where
  "same_identity m m' \<longleftrightarrow>
     ms_id m' = ms_id m \<and> ms_channel m' = ms_channel m \<and> ms_sender m' = ms_sender m \<and> ms_user m' = ms_user m \<and>
     ms_guest m' = ms_guest m \<and> ms_name m' = ms_name m \<and> ms_parent m' = ms_parent m \<and> ms_created_at m' = ms_created_at m"

definition same_text :: "message \<Rightarrow> message \<Rightarrow> bool" where
  "same_text m m' \<longleftrightarrow> ms_content m' = ms_content m \<and> ms_edited m' = ms_edited m \<and> ms_deleted_at m' = ms_deleted_at m"

lemma scanned_row: "messages_ok t \<Longrightarrow> r \<in> set (mt_messages t) \<Longrightarrow> scan_message r = r"
  by (auto simp: messages_ok_def list_all_iff sender_row_def scan_message_def)

lemma live_row:
  assumes "messages_ok (hw_messages w)" "live_chat_message i w = Ok m0"
  shows "m0 \<in> set (mt_messages (hw_messages w)) \<and> ms_id m0 = i"
  using allowed_message_row[OF assms(2)] scanned_row[OF assms(1)] by auto

lemma same_row:
  assumes "messages_ok t" "m \<in> set (mt_messages t)" "m' \<in> set (mt_messages t)" "ms_id m = ms_id m'"
  shows "m = m'"
  using assms by (auto simp: messages_ok_def distinct_map dest: inj_onD)

lemma updated_row:
  assumes "update_message what i now f t = (t', None)" "m \<in> set (mt_messages t)"
  shows "(if live_message i m then (f m)\<lparr>ms_updated_at := now\<rparr> else m) \<in> set (mt_messages t')"
  using assms(2) by (simp add: update_message_None[OF assms(1)] update_rows_def)

lemma message_survives:
  assumes ok: "messages_ok (hw_messages w)" and m: "m \<in> set (mt_messages (hw_messages w))"
    and f: "allowed_statement s op w = Some f" "f (hw_messages w) = (t', None)"
  shows "\<exists>m' \<in> set (mt_messages t'). same_identity m m' \<and> (same_text m m' \<or> ms_deleted_at m = None \<and> author_acts s op w m)"
proof -
  note edit = updated_row[OF _ m]
  have own: "live_chat_message i w = Ok m0 \<Longrightarrow> ms_id m = i \<Longrightarrow> m0 = m" for i m0
    using live_row[OF ok] same_row[OF ok] m by metis
  show ?thesis
  proof (cases op)
    case (OpEditMessage i u content)
    then obtain m0 ch where a: "require_own_message s i u CapabilityParticipate w = Ok (m0, ch)"
      and g: "pg_update_message (edited_message m0 content (hw_now w)) (hw_now w) (hw_messages w) = (t', None)"
      using f by (auto simp: when_ok_Some)
    have "ms_id m0 = i" using own_live[OF a] live_row[OF ok] by blast
    moreover have "m0 = m" if "ms_id m = i" using own_live[OF a] own that by blast
    ultimately have "author_acts s op w m" if "ms_id m = ms_id m0" using own_live[OF a] that OpEditMessage by auto
    then show ?thesis
      by (intro bexI[OF _ edit[OF g[unfolded pg_update_message_def]]]) (auto simp: live_message_def edited_message_def same_identity_def same_text_def)
  next
    case (OpEditGuestMessage i ws call gu content)
    then obtain m0 ch where a: "require_own_guest_message s i ws call gu w = Ok (m0, ch)"
      and g: "pg_update_message (edited_message m0 content (hw_now w)) (hw_now w) (hw_messages w) = (t', None)"
      using f by (auto simp: when_ok_Some)
    have "ms_id m0 = i" using own_guest_live[OF a] live_row[OF ok] by blast
    moreover have "m0 = m" if "ms_id m = i" using own_guest_live[OF a] own that by blast
    ultimately have "author_acts s op w m" if "ms_id m = ms_id m0" using own_guest_live[OF a] that OpEditGuestMessage by auto
    then show ?thesis
      by (intro bexI[OF _ edit[OF g[unfolded pg_update_message_def]]]) (auto simp: live_message_def edited_message_def same_identity_def same_text_def)
  next
    case (OpDeleteMessage i u)
    then obtain m0 ch where a: "require_own_message s i u CapabilityParticipate w = Ok (m0, ch)"
      and g: "pg_soft_delete i (hw_now w) (hw_messages w) = (t', None)"
      using f by (auto simp: when_ok_Some)
    have "m0 = m" if "ms_id m = i" using own_live[OF a] own that by blast
    then have "author_acts s op w m" if "ms_id m = i" using own_live[OF a] that OpDeleteMessage by auto
    then show ?thesis
      by (intro bexI[OF _ edit[OF g[unfolded pg_soft_delete_def]]]) (auto simp: live_message_def same_identity_def same_text_def)
  next
    case (OpDeleteGuestMessage i ws call gu)
    then obtain m0 ch where a: "require_own_guest_message s i ws call gu w = Ok (m0, ch)"
      and g: "pg_soft_delete i (hw_now w) (hw_messages w) = (t', None)"
      using f by (auto simp: when_ok_Some)
    have "m0 = m" if "ms_id m = i" using own_guest_live[OF a] own that by blast
    then have "author_acts s op w m" if "ms_id m = i" using own_guest_live[OF a] that OpDeleteGuestMessage by auto
    then show ?thesis
      by (intro bexI[OF _ edit[OF g[unfolded pg_soft_delete_def]]]) (auto simp: live_message_def same_identity_def same_text_def)
  next
    case (OpPinMessage i u)
    then have g: "pg_pin i u (hw_now w) (hw_messages w) = (t', None)"
      using f by (auto simp: when_ok_Some split: if_splits)
    then show ?thesis by (intro bexI[OF _ edit[OF g[unfolded pg_pin_def]]]) (auto simp: same_identity_def same_text_def)
  next
    case (OpUnpinMessage i u)
    then have g: "pg_unpin i (hw_now w) (hw_messages w) = (t', None)"
      using f by (auto simp: when_ok_Some split: if_splits)
    then show ?thesis by (intro bexI[OF _ edit[OF g[unfolded pg_unpin_def]]]) (auto simp: same_identity_def same_text_def)
  qed (use f m in \<open>auto simp: when_ok_Some pg_remove_reaction_def pg_remove_reaction_by_guest_def Let_def
      same_identity_def same_text_def split: if_splits dest!: create_message_None add_reaction_None delete_reactions_None
      upsert_state_None intro!: bexI[of _ m]\<close>)
qed

text \<open>C30: only its author changes or deletes a message, and only where he may still take part in its channel:
  across an operation of the service every message keeps its identity, and its text and deletion mark too unless
  the message was live and the operation is an edit or a deletion of it by its author.\<close>

theorem only_authors_change_messages:
  assumes "chat_history s w" "m \<in> set (mt_messages (hw_messages w))"
  shows "\<exists>m' \<in> set (mt_messages (hw_messages (run_chat s op w))).
    same_identity m m' \<and> (same_text m m' \<or> ms_deleted_at m = None \<and> author_acts s op w m)"
  using chat_refines[of s op w] message_survives[OF history_messages_ok[OF assms(1)] assms(2)] assms(2)
  by (auto simp: refined_def same_identity_def same_text_def)

section \<open>Meeting guests\<close>

fun guest_request :: "chat_op \<Rightarrow> (uuid \<times> uuid \<times> uuid) option" where
  "guest_request (OpSendGuestMessage c ws call g content parent) = Some (ws, call, g)"
| "guest_request (OpEditGuestMessage i ws call g content) = Some (ws, call, g)"
| "guest_request (OpDeleteGuestMessage i ws call g) = Some (ws, call, g)"
| "guest_request (OpAddGuestReaction i ws call g emoji) = Some (ws, call, g)"
| "guest_request (OpRemoveGuestReaction i ws call g emoji) = Some (ws, call, g)"
| "guest_request _ = None"

text \<open>The guest is connected to a live call of the workspace, whose chat is the channel.\<close>

definition guest_in_meeting :: "call_tables \<Rightarrow> uuid \<Rightarrow> uuid \<Rightarrow> uuid \<Rightarrow> uuid \<Rightarrow> bool" where
  "guest_in_meeting t ws call g chan \<longleftrightarrow>
     list_ex (\<lambda>c. ca_id c = call \<and> ca_workspace c = ws \<and> ca_meeting_channel c = Some chan \<and> ca_status c \<noteq> CallStatusEnded)
       (ct_calls t) \<and>
     list_ex (\<lambda>p. is_guest call g p \<and> pa_status p = ParticipantConnected) (ct_participants t)"

lemma guest_authorized:
  "authorize_meeting_guest_channel s chan ws call g w = Ok (ch, p) \<Longrightarrow> guest_in_meeting (hw_calls w) ws call g chan"
  unfolding authorize_meeting_guest_channel_def
  by (auto simp: result_bind_Ok guest_in_meeting_def list_ex_iff pg_get_call_def pg_get_guest_participant_def
      split: if_splits sum.splits dest!: query_row_member)

definition changed :: "'a list \<Rightarrow> 'a list \<Rightarrow> 'a set" where
  "changed xs ys = (set ys - set xs) \<union> (set xs - set ys)"

lemma changed_update:
  assumes "update_message what i now f t = (t', None)" "x \<in> changed (mt_messages t) (mt_messages t')"
  shows "(\<exists>m \<in> set (mt_messages t). live_message i m \<and> (x = m \<or> x = (f m)\<lparr>ms_updated_at := now\<rparr>))"
  using assms(2) unfolding update_message_None[OF assms(1)]
  by (auto simp: changed_def update_rows_def image_iff split: if_splits)

lemma update_keeps_reactions: "update_message what i now f t = (t', None) \<Longrightarrow> mt_reactions t' = mt_reactions t"
  by (drule update_message_None) simp

lemma own_guest_update:
  assumes ok: "messages_ok (hw_messages w)" and a: "require_own_guest_message s i ws call g w = Ok (m, ch)"
    and r: "update_message what i now f (hw_messages w) = (t', None)"
    and f: "\<And>m. ms_channel (f m) = ms_channel m" "\<And>m. ms_guest (f m) = ms_guest m"
  shows "guest_in_meeting (hw_calls w) ws call g (ms_channel m) \<and> mt_reactions t' = mt_reactions (hw_messages w) \<and>
    (\<forall>x \<in> changed (mt_messages (hw_messages w)) (mt_messages t'). ms_channel x = ms_channel m \<and> ms_guest x = Some g)"
proof -
  note o = own_guest_live[OF a]
  have m: "m \<in> set (mt_messages (hw_messages w))" "ms_guest m = Some g" "ms_id m = i" using live_row[OF ok] o by blast+
  have one: "y = m" if "y \<in> set (mt_messages (hw_messages w))" "live_message i y" for y
    using same_row[OF ok that(1) m(1)] that(2) m(3) by (simp add: live_message_def)
  have "ms_channel x = ms_channel m \<and> ms_guest x = Some g"
    if x: "x \<in> changed (mt_messages (hw_messages w)) (mt_messages t')" for x
  proof -
    obtain y where y: "y \<in> set (mt_messages (hw_messages w))" "live_message i y" "x = y \<or> x = (f y)\<lparr>ms_updated_at := now\<rparr>"
      using changed_update[OF r x] by blast
    have "y = m" using one[OF y(1,2)] .
    then show ?thesis using y(3) f m(2) by auto
  qed
  then show ?thesis using guest_authorized o update_keeps_reactions[OF r] by blast
qed

lemma unchanged [simp]: "changed xs xs = {}"
  by (simp add: changed_def)

text \<open>C32: a meeting guest acts only in the chat of his live meeting and only on what is his: if an operation
  in the name of a guest changes the message tables at all, the guest is connected to that call, which has not
  ended, and every message that appears, changes or disappears is his and in the chat of the call, as is every
  reaction, which is to a message of that chat.\<close>

theorem guests_confined_to_meeting:
  assumes "chat_history s w" "guest_request op = Some (ws, call, g)"
    and "hw_messages (run_chat s op w) \<noteq> hw_messages w"
  shows "\<exists>chan. guest_in_meeting (hw_calls w) ws call g chan \<and>
    (\<forall>m \<in> changed (mt_messages (hw_messages w)) (mt_messages (hw_messages (run_chat s op w))).
       ms_channel m = chan \<and> ms_guest m = Some g) \<and>
    (\<forall>r \<in> changed (mt_reactions (hw_messages w)) (mt_reactions (hw_messages (run_chat s op w))).
       rn_guest r = Some g \<and> (\<exists>m \<in> set (mt_messages (hw_messages w)). ms_id m = rn_message r \<and> ms_channel m = chan))"
proof -
  define t' where "t' = hw_messages (run_chat s op w)"
  note ok = history_messages_ok[OF assms(1)]
  obtain f where f: "allowed_statement s op w = Some f" "f (hw_messages w) = (t', None)"
    using chat_refines[of s op w] assms(3) by (auto simp: refined_def t'_def)
  have "\<exists>chan. guest_in_meeting (hw_calls w) ws call g chan \<and>
    (\<forall>m \<in> changed (mt_messages (hw_messages w)) (mt_messages t'). ms_channel m = chan \<and> ms_guest m = Some g) \<and>
    (\<forall>r \<in> changed (mt_reactions (hw_messages w)) (mt_reactions t').
       rn_guest r = Some g \<and> (\<exists>m \<in> set (mt_messages (hw_messages w)). ms_id m = rn_message r \<and> ms_channel m = chan))"
    using assms(2)
  proof (cases op)
    case (OpSendGuestMessage c ws' call' g' content parent)
    then obtain ch p where a: "authorize_meeting_guest_channel s c ws call g w = Ok (ch, p)"
      and r: "pg_create_message (guest_message (hw_next_id w) c g p parent content (hw_now w)) (hw_messages w) = (t', None)"
      using f assms(2) by (auto simp: when_ok_Some split: if_splits)
    have "t' = (hw_messages w)\<lparr>mt_messages := mt_messages (hw_messages w) @
        [message_row (normalize_message_sender (guest_message (hw_next_id w) c g p parent content (hw_now w)))]\<rparr>"
      using create_message_None[OF r] by (simp add: Let_def)
    then show ?thesis using guest_authorized[OF a]
      by (auto simp: changed_def guest_message_def new_message_def normalize_message_sender_def message_row_def
          message_guest_session_id_value_def intro!: exI[of _ c])
  next
    case (OpEditGuestMessage i ws' call' g' content)
    then obtain m ch where a: "require_own_guest_message s i ws call g w = Ok (m, ch)"
      and r: "pg_update_message (edited_message m content (hw_now w)) (hw_now w) (hw_messages w) = (t', None)"
      using f assms(2) by (auto simp: when_ok_Some)
    have "ms_id m = i" using live_row[OF ok] own_guest_live[OF a] by blast
    then have r': "update_message ''update message'' i (hw_now w)
        (\<lambda>r. r\<lparr>ms_content := content, ms_edited := True, ms_edited_at := Some (hw_now w)\<rparr>) (hw_messages w) = (t', None)"
      using r by (simp add: pg_update_message_def edited_message_def)
    show ?thesis using own_guest_update[OF ok a r'] by (intro exI[of _ "ms_channel m"]) simp
  next
    case (OpDeleteGuestMessage i ws' call' g')
    then obtain m ch where a: "require_own_guest_message s i ws call g w = Ok (m, ch)"
      and r: "pg_soft_delete i (hw_now w) (hw_messages w) = (t', None)"
      using f assms(2) by (auto simp: when_ok_Some)
    show ?thesis using own_guest_update[OF ok a r[unfolded pg_soft_delete_def]]
      by (intro exI[of _ "ms_channel m"]) simp
  next
    case (OpAddGuestReaction i ws' call' g' emoji)
    then obtain m ch p where a: "require_guest_message_access s i ws call g w = Ok (m, ch, p)"
      and r: "pg_add_reaction (new_reaction (hw_next_id w) i SenderGuest None (Some g) (guest_name p) emoji (hw_now w))
        (hw_messages w) = (t', None)"
      using f assms(2) by (auto simp: when_ok_Some)
    note o = guest_live[OF a]
    have m: "m \<in> set (mt_messages (hw_messages w))" "ms_id m = i" using live_row[OF ok] o by blast+
    show ?thesis using m o guest_authorized add_reaction_None[OF r]
      by (intro exI[of _ "ms_channel m"])
        (auto simp: Let_def changed_def new_reaction_def normalize_reaction_sender_def reaction_row_def reaction_guest_session_id_value_def)
  next
    case (OpRemoveGuestReaction i ws' call' g' emoji)
    then obtain m ch p where a: "require_guest_message_access s i ws call g w = Ok (m, ch, p)"
      and r: "pg_remove_reaction_by_guest i g emoji (hw_messages w) = (t', None)"
      using f assms(2) by (auto simp: when_ok_Some)
    note o = guest_live[OF a]
    have m: "m \<in> set (mt_messages (hw_messages w))" "ms_id m = i" using live_row[OF ok] o by blast+
    show ?thesis using m o guest_authorized delete_reactions_None[OF r[unfolded pg_remove_reaction_by_guest_def]]
      by (intro exI[of _ "ms_channel m"]) (auto simp: changed_def guest_reaction_def)
  qed simp_all
  then show ?thesis by (simp add: t'_def)
qed

section \<open>A workspace, its chat and a meeting\<close>

definition chat_sample_service :: chat_service where
  "chat_sample_service =
     \<lparr>hs_access = Some pg_access, hs_guests = None, hs_collab = None,
      hs_contacts = Some (\<lambda>d now. can_share_channel (pg_get_member d) (pg_get_connection d) now), hs_grants = True,
      hs_read_states = True, hs_calls = True, hs_search = Some sample_repo,
      hs_tx = Some \<lparr>sc_channels = True, sc_messages = True, sc_grants = True, sc_search = Some sample_repo, sc_realtime = Some 8\<rparr>,
      hs_validator = (\<lambda>_. []), hs_uuid_text = (\<lambda>_. []), hs_json = (\<lambda>_. ''{}'')\<rparr>"

definition chat_sample_db :: db where
  "chat_sample_db = empty_db\<lparr>
     db_members := [\<lparr>wm_id = 1, wm_workspace = 7, wm_user = 3, wm_role = RoleMember, wm_joined_at = 0\<rparr>,
       \<lparr>wm_id = 2, wm_workspace = 7, wm_user = 4, wm_role = RoleMember, wm_joined_at = 0\<rparr>],
     db_channels := [\<lparr>ch_id = 30, ch_workspace = 7, ch_name = ''ops'', ch_topic = [], ch_type = ChPublic, ch_created_by = 3,
         ch_archived = False, ch_created_at = 0, ch_updated_at = 0\<rparr>,
       \<lparr>ch_id = 31, ch_workspace = 7, ch_name = ''call'', ch_topic = [], ch_type = ChMeeting, ch_created_by = 3,
         ch_archived = False, ch_created_at = 0, ch_updated_at = 0\<rparr>],
     db_channel_members := [\<lparr>cm_id = 5, cm_channel = 30, cm_user = 3, cm_role = ChRoleOwner, cm_muted_until = None,
         cm_last_read_at = 0, cm_joined_at = 0\<rparr>]\<rparr>"

definition chat_sample_calls :: call_tables where
  "chat_sample_calls =
     \<lparr>ct_calls = [\<lparr>ca_id = 50, ca_workspace = 7, ca_channel = None, ca_meeting_channel = Some 31, ca_type = CallTypeMeeting,
         ca_access_mode = CallAccessModeLink, ca_status = CallStatusActive, ca_title = [], ca_created_by = 3,
         ca_settings = \<lparr>se_waiting_room = False, se_mute_on_join = False, se_recording = False, se_screen_sharing = True,
           se_chat = True, se_breakout_rooms = False, se_locked = False, se_max_participants = 0, se_e2ee = False,
           se_watermark = False\<rparr>, ca_started_at = Some 0, ca_ended_at = None, ca_created_at = 0\<rparr>],
      ct_participants = [\<lparr>pa_id = 51, pa_call = 50, pa_principal = PrincipalGuest, pa_user = 0, pa_guest = Some 60,
         pa_name = ''Ann'', pa_breakout = None, pa_role = CallRoleViewer, pa_status = ParticipantConnected, pa_audio_muted = True,
         pa_video_muted = True, pa_screen_sharing = False, pa_joined_at = Some 0, pa_left_at = None\<rparr>],
      ct_breakouts = [], ct_fault = (\<lambda>_ _. None)\<rparr>"

definition chat_sample :: chat_world where
  "chat_sample =
     \<lparr>hw_db = chat_sample_db, hw_calls = chat_sample_calls,
      hw_messages = \<lparr>mt_messages = [], mt_reactions = [], mt_attachments = [], mt_states = [], mt_fault = (\<lambda>_ _. None)\<rparr>,
      hw_search = empty_search 10 [], hw_outbox = \<lparr>ob_rows = [], ob_next_seq = 1, ob_cursors = [], ob_now = 10, ob_steps = []\<rparr>,
      hw_published = [], hw_now = 10, hw_next_id = 100\<rparr>"

text \<open>A member writes, and a guest of the meeting answers in its chat.\<close>

definition chat_sample_talk :: chat_world where
  "chat_sample_talk =
     run_chat chat_sample_service (OpSendGuestMessage 31 7 50 60 ''hello'' None)
       (run_chat chat_sample_service (OpSendMessage 30 3 ''hi'' None) chat_sample)"

lemma chat_sample_history: "chat_history chat_sample_service chat_sample_talk"
  unfolding chat_sample_talk_def by (intro history_op history_start) (simp_all add: chat_sample_def)

theorem messages_well_formed_witness:
  "map ms_channel (mt_messages (hw_messages chat_sample_talk)) = [30, 31] \<and> messages_ok (hw_messages chat_sample_talk)"
proof
  show "map ms_channel (mt_messages (hw_messages chat_sample_talk)) = [30, 31]" by code_simp
  show "messages_ok (hw_messages chat_sample_talk)" by (rule messages_well_formed[OF chat_sample_history])
qed

theorem only_authors_change_messages_witness:
  "\<exists>m \<in> set (mt_messages (hw_messages chat_sample_talk)). \<exists>m' \<in> set (mt_messages (hw_messages
      (run_chat chat_sample_service (OpDeleteMessage (ms_id m) 4) chat_sample_talk))). ms_user m = 3 \<and> same_text m m'"
proof -
  have "\<exists>m \<in> set (mt_messages (hw_messages chat_sample_talk)). ms_user m = 3"
    by code_simp
  then obtain m where m: "m \<in> set (mt_messages (hw_messages chat_sample_talk))" "ms_user m = 3" by blast
  from only_authors_change_messages[OF chat_sample_history m(1), of "OpDeleteMessage (ms_id m) 4"] m show ?thesis by fastforce
qed

theorem guests_confined_to_meeting_witness:
  "\<exists>chan. guest_in_meeting (hw_calls (run_chat chat_sample_service (OpSendMessage 30 3 ''hi'' None) chat_sample)) 7 50 60 chan"
proof -
  let ?w = "run_chat chat_sample_service (OpSendMessage 30 3 ''hi'' None) chat_sample"
  have h: "chat_history chat_sample_service ?w" by (intro history_op history_start) (simp_all add: chat_sample_def)
  have "length (mt_messages (hw_messages chat_sample_talk)) \<noteq> length (mt_messages (hw_messages ?w))"
    by code_simp
  then have d: "hw_messages (run_chat chat_sample_service (OpSendGuestMessage 31 7 50 60 ''hello'' None) ?w) \<noteq> hw_messages ?w"
    unfolding chat_sample_talk_def by metis
  have "guest_request (OpSendGuestMessage 31 7 50 60 ''hello'' None) = Some (7, 50, 60)" by simp
  from guests_confined_to_meeting[OF h this d]
  obtain chan where "guest_in_meeting (hw_calls ?w) 7 50 60 chan" by blast
  then show ?thesis by blast
qed

end
