(* ===== verification/ChatEffects.thy ===== *)
theory ChatEffects
  imports ChatProps
begin

text \<open>
  What single operations of the chat service achieve: the pages of a channel are consecutive segments of its
  live messages, sending a message is all or nothing, a direct message channel is found again, and marking a
  channel as read leaves no unread messages.
\<close>

section \<open>Pages of messages\<close>

text \<open>The live messages of a channel below a cursor, newest first.\<close>

definition channel_messages :: "message_tables \<Rightarrow> uuid \<Rightarrow> uuid \<Rightarrow> message list" where
  "channel_messages t c cursor =
     rev (sort_key ms_id (filter (\<lambda>m. ms_channel m = c \<and> (cursor \<noteq> uuid_nil \<longrightarrow> ms_id m < cursor) \<and> ms_deleted_at m = None)
       (mt_messages t)))"

lemma listing_channel:
  "message_listing (\<lambda>m. ms_channel m = c) p t = take (nat (pp_limit p)) (channel_messages t c (pp_cursor p))" if "0 \<le> pp_limit p"
proof -
  let ?L = "channel_messages t c (pp_cursor p)"
  have "message_listing (\<lambda>m. ms_channel m = c) p t =
    (if int (length (take (nat (pp_limit p + 1)) ?L)) > pp_limit p then take (nat (pp_limit p)) (take (nat (pp_limit p + 1)) ?L)
     else take (nat (pp_limit p + 1)) ?L)"
    by (simp add: message_listing_def channel_messages_def Let_def conj_assoc)
  moreover have "nat (pp_limit p) \<le> nat (pp_limit p + 1)" using that by simp
  ultimately show ?thesis using that by (auto simp: min_def)
qed

lemma channel_messages_rows: "set (channel_messages t c cursor) \<subseteq> set (mt_messages t)"
  by (auto simp: channel_messages_def)

lemma channel_messages_below:
  assumes "distinct (map ms_id (mt_messages t))" "k < length (channel_messages t c cursor)"
    and "x = channel_messages t c cursor ! k" "ms_id x \<noteq> uuid_nil"
  shows "channel_messages t c (ms_id x) = drop (Suc k) (channel_messages t c cursor)"
proof -
  let ?L = "channel_messages t c cursor"
  let ?P = "\<lambda>m. ms_channel m = c \<and> (cursor \<noteq> uuid_nil \<longrightarrow> ms_id m < cursor) \<and> ms_deleted_at m = None"
  have "x \<in> set ?L" using assms(2,3) by simp
  then have x: "cursor \<noteq> uuid_nil \<Longrightarrow> ms_id x < cursor" by (auto simp: channel_messages_def)
  have "distinct (map ms_id (filter ?P (mt_messages t)))" using assms(1) by (rule distinct_map_filter)
  then have "sorted_wrt (<) (map ms_id (sort_key ms_id (filter ?P (mt_messages t))))"
    by (simp add: strict_sorted_iff distinct_map)
  then have s: "sorted_wrt (\<lambda>a b. ms_id b < ms_id a) ?L"
    by (simp add: channel_messages_def sorted_wrt_rev sorted_wrt_map)
  have split: "?L = take k ?L @ x # drop (Suc k) ?L" using assms(2,3) by (simp add: id_take_nth_drop)
  have s': "sorted_wrt (\<lambda>a b. ms_id b < ms_id a) (take k ?L @ x # drop (Suc k) ?L)" using s split by metis
  have "channel_messages t c (ms_id x) = filter (\<lambda>m. ms_id m < ms_id x) ?L"
    using x assms(4)
    by (auto simp: channel_messages_def rev_filter[symmetric] filter_sort intro!: arg_cong[of _ _ "sort_key ms_id"] filter_cong)
  also have "\<dots> = filter (\<lambda>m. ms_id m < ms_id x) (take k ?L) @ filter (\<lambda>m. ms_id m < ms_id x) (drop (Suc k) ?L)"
    by (subst split) simp
  also have "filter (\<lambda>m. ms_id m < ms_id x) (take k ?L) = []"
    using s' by (auto simp: sorted_wrt_append filter_empty_conv)
  also have "filter (\<lambda>m. ms_id m < ms_id x) (drop (Suc k) ?L) = drop (Suc k) ?L"
    using s' by (auto simp: sorted_wrt_append filter_id_conv)
  finally show ?thesis by simp
qed

lemma scanned_rows: "messages_ok t \<Longrightarrow> set xs \<subseteq> set (mt_messages t) \<Longrightarrow> map scan_message xs = xs"
  using scanned_row by (auto intro!: map_idI)

lemma fetch_one_more_limit:
  assumes "1 \<le> pp_limit q" "pp_limit q \<le> 100"
  shows "pp_limit (normalize_params (fetch_one_more q)) = min (pp_limit q + 1) 100"
    "pp_cursor (normalize_params (fetch_one_more q)) = pp_cursor q"
  using assms by (auto simp: normalize_params_def fetch_one_more_def Let_def max_limit_def)

lemma fetched_page:
  assumes "messages_ok (hw_messages w)" "message_page c (normalize_params p) w = Ok page"
  shows "\<exists>n. int n = min (pp_limit (normalize_params p) + 1) 100 \<and>
    page = build_message_page (take n (channel_messages (hw_messages w) c (pp_cursor p))) (pp_limit (normalize_params p))"
proof -
  let ?l = "pp_limit (normalize_params p)"
  let ?q = "normalize_params (fetch_one_more (normalize_params p))"
  have l: "1 \<le> ?l" "?l \<le> 100" using normalize_limit_range by blast+
  have q: "pp_limit ?q = min (?l + 1) 100" "pp_cursor ?q = pp_cursor p"
    using fetch_one_more_limit[OF l] by simp_all
  have "message_listing (\<lambda>m. ms_channel m = c) ?q (hw_messages w) =
      take (nat (pp_limit ?q)) (channel_messages (hw_messages w) c (pp_cursor p))"
    using listing_channel[of ?q c] q l by simp
  moreover have "set (take k (channel_messages (hw_messages w) c cur)) \<subseteq> set (mt_messages (hw_messages w))" for k cur
    using channel_messages_rows[of "hw_messages w" c cur] set_take_subset by fast
  ultimately have "page = build_message_page (take (nat (pp_limit ?q)) (channel_messages (hw_messages w) c (pp_cursor p))) ?l"
    using assms(2) scanned_rows[OF assms(1)]
    by (auto simp: message_page_def pg_list_by_channel_def scanned_def result_bind_def query_rows_def split: option.splits)
  then show ?thesis using q l by (intro exI[of _ "nat (pp_limit ?q)"]) simp
qed

lemma message_page_segment:
  assumes "chat_history s w" "get_messages s c u p w = Ok page"
    and "\<forall>m \<in> set (mt_messages (hw_messages w)). ms_id m \<noteq> uuid_nil \<and> ms_id m < 2 ^ 128"
  defines "limit \<equiv> nat (pp_limit (normalize_params p))"
    and "found \<equiv> channel_messages (hw_messages w) c (pp_cursor p)"
  shows "pg_items page = take limit found \<and>
    (pg_more page \<longleftrightarrow> limit < 100 \<and> limit < length found) \<and>
    (pg_more page \<longrightarrow> (\<exists>next. decode_cursor (pg_next page) = Ok next \<and>
       channel_messages (hw_messages w) c next = drop limit found)) \<and>
    (\<not> pg_more page \<longrightarrow> pg_next page = [])"
proof -
  note ok = history_messages_ok[OF assms(1)]
  have l: "1 \<le> limit" "limit \<le> 100" "int limit = pp_limit (normalize_params p)"
    using normalize_limit_range[of p] by (auto simp: limit_def)
  obtain n where n: "int n = min (int limit + 1) 100" "page = build_message_page (take n found) (int limit)"
    using fetched_page[OF ok, of c p page] assms(2) l(3) by (auto simp: get_messages_def result_bind_Ok found_def)
  have nn: "n = (if limit < 100 then Suc limit else 100)" using n(1) l by (auto simp: min_def split: if_splits)
  have more: "pg_more page \<longleftrightarrow> limit < 100 \<and> limit < length found"
    using n(2) nn l(1,2) by (auto simp: build_message_page_def Let_def)
  have items: "pg_items page = take limit found"
    using n(2) nn l(1,2) by (auto simp: build_message_page_def Let_def min_def)
  have next_page: "\<exists>next. decode_cursor (pg_next page) = Ok next \<and> channel_messages (hw_messages w) c next = drop limit found"
    if m: "pg_more page"
  proof -
    let ?x = "found ! (limit - 1)"
    have k: "limit - 1 < length found" "Suc (limit - 1) = limit" using m more l by auto
    have "?x \<in> set (mt_messages (hw_messages w))" 
      using nth_mem[OF k(1)] channel_messages_rows[of "hw_messages w" c "pp_cursor p"] unfolding found_def by blast
    then have x: "ms_id ?x \<noteq> uuid_nil" "ms_id ?x < 2 ^ 128" using assms(3) by blast+
    have ne: "take limit found \<noteq> []" using k l by auto
    have "length (take limit found) = limit" using k by simp
    then have "last (take limit found) = ?x" using last_conv_nth[OF ne] k(2) by simp
    then have "pg_next page = encode_cursor (ms_id ?x)"
      using m more ne n(2) nn by (simp add: build_message_page_def Let_def min_def)
    moreover have "channel_messages (hw_messages w) c (ms_id ?x) = drop limit found"
      using channel_messages_below[of "hw_messages w" "limit - 1" c "pp_cursor p" ?x] ok k x by (simp add: messages_ok_def found_def)
    ultimately show ?thesis using decode_encode[OF x(2)] by simp
  qed
  moreover have "\<not> pg_more page \<Longrightarrow> pg_next page = []" using n(2) by (auto simp: build_message_page_def Let_def split: if_splits)
  ultimately show ?thesis using items more by blast
qed

text \<open>C17: reading a channel page by page. After any history, a page holds the newest live messages of the channel below
  the cursor it was asked for, at most the (normalised) limit of them and newest first. For a limit below 100 it says truthfully
  whether there are more, and its next cursor leads to exactly the messages that follow, so that pages neither skip nor
  repeat a message. A page of 100 never says that there are more, however many there are: the listing clamps the 101 rows asked
  for to 100, and the rest is out of reach.\<close>

theorem message_pages_are_segments:
  assumes "chat_history s w" "get_messages s c u p w = Ok page"
    and "\<forall>m \<in> set (mt_messages (hw_messages w)). ms_id m \<noteq> uuid_nil \<and> ms_id m < 2 ^ 128"
  shows "let limit = nat (pp_limit (normalize_params p)); found = channel_messages (hw_messages w) c (pp_cursor p) in
    pg_items page = take limit found \<and>
    (pg_more page \<longleftrightarrow> limit < 100 \<and> limit < length found) \<and>
    (pg_more page \<longrightarrow> (\<exists>next. decode_cursor (pg_next page) = Ok next \<and>
       channel_messages (hw_messages w) c next = drop limit found)) \<and>
    (\<not> pg_more page \<longrightarrow> pg_next page = [])"
  unfolding Let_def by (rule message_page_segment[OF assms])

theorem message_pages_are_segments_witness:
  "\<exists>page. get_messages chat_sample_service 30 3 \<lparr>pp_cursor = 0, pp_limit = 10, pp_offset = 0\<rparr> chat_sample_talk = Ok page \<and>
     pg_items page = take 10 (channel_messages (hw_messages chat_sample_talk) 30 0)"
proof -
  let ?p = "\<lparr>pp_cursor = 0, pp_limit = 10, pp_offset = 0\<rparr>"
  have "case get_messages chat_sample_service 30 3 ?p chat_sample_talk of Ok page \<Rightarrow> True | Err e \<Rightarrow> False" by code_simp
  then obtain page where g: "get_messages chat_sample_service 30 3 ?p chat_sample_talk = Ok page" by (auto split: sum.splits)
  have ids: "\<forall>m \<in> set (mt_messages (hw_messages chat_sample_talk)). ms_id m \<noteq> uuid_nil \<and> ms_id m < 2 ^ 128"
  proof -
    have "map ms_id (mt_messages (hw_messages chat_sample_talk)) = [100, 103]" by code_simp
    then have "ms_id ` set (mt_messages (hw_messages chat_sample_talk)) = {100, 103}" by (metis list.set(1,2) set_map)
    then have "ms_id m \<in> {100, 103}" if "m \<in> set (mt_messages (hw_messages chat_sample_talk))" for m using that by blast
    then show ?thesis by fastforce
  qed
  have l: "nat (pp_limit (normalize_params ?p)) = 10"
    by (simp add: normalize_params_def default_limit_def max_limit_def)
  from message_pages_are_segments[OF chat_sample_history g ids] g l show ?thesis by (auto simp: Let_def)
qed

section \<open>Sending\<close>

lemma tx_message_search_Ok:
  assumes "enqueue_message_search_tx sc ws c m w = (w', Ok ())"
  shows "hw_messages w' = hw_messages w \<and> hw_outbox w' = hw_outbox w \<and> hw_published w' = hw_published w \<and> hw_now w' = hw_now w \<and>
    hw_next_id w' = hw_next_id w \<and>
    (\<forall>r. sc_search sc = Some r \<longrightarrow> enqueue_upsert r (plain_document ws ResMessage (ms_id m) (Some c) [] (ms_content m)
       (ms_created_at m) (ms_updated_at m)) (hw_search w) = (hw_search w', None))"
  using assms by (auto simp: enqueue_message_search_tx_def tx_search_def run_simps split: option.splits)

text \<open>An event filed in the outbox is the row of its type, subject and payload.\<close>

definition filed_event :: "outbox_row \<Rightarrow> event_type \<Rightarrow> string \<Rightarrow> uuid \<Rightarrow> uuid \<Rightarrow> uuid \<Rightarrow> string \<Rightarrow> bool" where
  "filed_event r ty subject ws channel user payload \<longleftrightarrow>
     or_status r = StPending \<and> ev_type (or_body r) = ty \<and> ev_subject (or_body r) = subject \<and> ev_workspace (or_body r) = ws \<and>
     ev_channel (or_body r) = channel \<and> ev_user (or_body r) = user \<and> ev_payload (or_body r) = payload"

lemma enqueue_event_tx_Ok:
  assumes "enqueue_event_tx s sc ty subject ws c u payload w = (w', Ok ())"
  shows "hw_messages w' = hw_messages w \<and> hw_search w' = hw_search w \<and> hw_published w' = hw_published w \<and> hw_now w' = hw_now w \<and>
    (\<forall>n. sc_realtime sc = Some n \<longrightarrow>
       (\<exists>r. ob_rows (hw_outbox w') = ob_rows (hw_outbox w) @ [r] \<and> filed_event r ty subject ws c u (hs_json s payload)))"
proof -
  obtain b where p: "prepare (hw_next_id w) (hw_now w) subject (chat_event ty ws c u (hw_now w) (hs_json s payload)) = Ok b"
    using assms by (auto simp: enqueue_event_tx_def chat_exec split: sum.splits)
  obtain evt body durable where b: "b = (evt, body, durable)" by (cases b)
  have body: "body = stamp (hw_next_id w) (hw_now w) subject (chat_event ty ws c u (hw_now w) (hs_json s payload))"
    using p b by (simp add: prepare_Ok)
  show ?thesis
  proof (cases "sc_realtime sc")
    case None
    then show ?thesis using assms p b by (auto simp: enqueue_event_tx_def chat_exec return_def)
  next
    case (Some n)
    then obtain ob where e: "enqueue evt body n (hw_outbox w) = (ob, None)"
      and w': "w' = w\<lparr>hw_next_id := hw_next_id w + 1, hw_outbox := ob\<rparr>"
      using assms p b by (auto simp: enqueue_event_tx_def chat_exec run_simps)
    obtain r where "ob_rows ob = ob_rows (hw_outbox w) @ [r]" "or_body r = body" "or_status r = StPending"
      using enqueue_cases(3)[OF e] by auto
    then show ?thesis using Some w' body by (auto simp: filed_event_def chat_event_def stamp_def Let_def)
  qed
qed

lemma rolled_back_parts [simp]:
  "hw_messages (chat_rolled_back w w') = hw_messages w" "hw_db (chat_rolled_back w w') = hw_db w"
  "sq_jobs (hw_search (chat_rolled_back w w')) = sq_jobs (hw_search w)"
  "ob_rows (hw_outbox (chat_rolled_back w w')) = ob_rows (hw_outbox w)"
  by (simp_all add: chat_rolled_back_def)

lemma enqueue_upsert_job:
  assumes "enqueue_upsert r d st = (st', None)"
  shows "\<exists>j \<in> set (sq_jobs st'). sj_doc j = d \<and> sj_operation j = JobUpsert \<and> sj_status j = JobPending"
proof -
  obtain st1 where st1: "next_step (st\<lparr>sq_next_id := sq_next_id st + 1\<rparr>) = (st1, None)"
    using assms by (auto simp: enqueue_upsert_def enqueue_job_def Let_def split: prod.splits option.splits)
  define j where "j = (new_job r JobUpsert d st1)\<lparr>sj_id := sq_next_id st\<rparr>"
  have j: "sj_doc j = d" "sj_operation j = JobUpsert" "sj_status j = JobPending" by (simp_all add: j_def new_job_def)
  have st': "st' = (if list_ex (\<lambda>r. job_resource r = job_resource j) (sq_jobs st1)
      then jobs_where (\<lambda>r. job_resource r = job_resource j) (\<lambda>old. j\<lparr>sj_id := sj_id old\<rparr>) st1 else st1\<lparr>sq_jobs := sq_jobs st1 @ [j]\<rparr>)"
    using assms st1 by (auto simp: enqueue_upsert_def enqueue_job_def Let_def j_def[symmetric] split: if_splits)
  show ?thesis
  proof (cases "list_ex (\<lambda>r. job_resource r = job_resource j) (sq_jobs st1)")
    case True
    then obtain x where x: "x \<in> set (sq_jobs st1)" "job_resource x = job_resource j" by (auto simp: list_ex_iff)
    then have "j\<lparr>sj_id := sj_id x\<rparr> \<in> set (sq_jobs st')"
      using True st' by (auto simp: jobs_where_def update_rows_def image_iff intro!: bexI[of _ x])
    then show ?thesis using j by (intro bexI[of _ "j\<lparr>sj_id := sj_id x\<rparr>"]) auto
  next
    case False
    then show ?thesis using j st' by auto
  qed
qed

definition send_body :: "chat_service \<Rightarrow> tx_scope \<Rightarrow> uuid \<Rightarrow> uuid \<Rightarrow> message \<Rightarrow> unit chat_step" where
  "send_body s sc ws u m0 =
     (let m = normalize_message_sender m0 in
      and_then (messages_in_scope sc) (\<lambda>_.
      and_then (chat_messages (pg_create_message m0)) (\<lambda>_.
      and_then (enqueue_message_search_tx sc ws (ms_channel m) m) (\<lambda>_.
      and_then (enqueue_event_tx s sc TypeMessageCreated (chat_subject s (ms_channel m)) ws (ms_channel m) u (MessagePayload m)) (\<lambda>_.
      enqueue_event_tx s sc TypeMessageCreated (workspace_subject s ws) ws (ms_channel m) u (MessagePayload m))))))"

lemma store_message_tx:
  "hs_tx s = Some sc \<Longrightarrow> store_message s ws u m0 =
     and_then (map_err (internal_err ''failed to create message'') (chat_tx (send_body s sc ws u m0))) (\<lambda>_. return (normalize_message_sender m0))"
  by (simp add: store_message_def send_body_def Let_def)

lemma fixed_published:
  "fixed hw_published (messages_in_scope sc)" "fixed hw_published (chat_messages f)"
  "fixed hw_published (enqueue_message_search_tx sc ws c m)" "fixed hw_published (enqueue_event_tx s sc ty subject ws c u payload)"
  by (auto simp: fixed_def messages_in_scope_def guard_def fail_def return_def chat_messages_def enqueue_message_search_tx_def tx_search_def
      chat_search_def enqueue_event_tx_def chat_exec chat_outbox_def split: prod.split option.split sum.split)

lemma fixed_send_body: "fixed hw_published (send_body s sc ws u m)"
  unfolding send_body_def Let_def by (intro fixed_and_then fixed_published)

lemma user_message_row:
  assumes "sender_check (ms_sender n) (message_user_id_value n) (message_guest_session_id_value n)" "n = normalize_message_sender m"
    "ms_guest m = None" "ms_sender m = SenderEmpty"
  shows "message_row n = n \<and> ms_sender n = SenderUser \<and> ms_user n = ms_user m"
proof -
  have n: "ms_sender n = SenderUser" "ms_guest n = None" "ms_user n = ms_user m"
    using assms(2-4) by (simp_all add: normalize_message_sender_def)
  then have "ms_user n \<noteq> uuid_nil"
    using assms(1) by (auto simp: sender_check_def message_user_id_value_def split: if_splits)
  then have "message_row n = n" using n by (simp add: message_row_def message_user_id_value_def message_guest_session_id_value_def)
  then show ?thesis using n by blast
qed

text \<open>C33: sending a message is all or nothing: if it succeeds, the sender may take part in the channel, which is not
  archived, the message answered is in it, and together the message is stored as the last row, its document is
  queued for the search index and two events with it are filed in the outbox, one for the channel and one for the
  workspace; if it fails, at whatever statement, neither message nor request nor event remains. Nothing is
  published beside the outbox.\<close>

theorem send_message_all_or_nothing:
  assumes "send_message s c u content parent w = (w', r)" "hs_tx s = Some sc"
  shows "hw_published w' = hw_published w \<and> (case r of
      Err e \<Rightarrow> hw_messages w' = hw_messages w \<and> sq_jobs (hw_search w') = sq_jobs (hw_search w) \<and>
        ob_rows (hw_outbox w') = ob_rows (hw_outbox w)
    | Ok m \<Rightarrow> \<exists>d ws. authorize_channel s c u CapabilityParticipate w = Ok d \<and> \<not> ch_archived (dc_channel d) \<and>
        ws = ch_workspace (dc_channel d) \<and> check_parent parent c w = None \<and>
        ms_channel m = c \<and> ms_user m = u \<and> ms_sender m = SenderUser \<and> ms_parent m = parent \<and> ms_content m = content \<and>
        mt_messages (hw_messages w') = mt_messages (hw_messages w) @ [m] \<and>
        (\<forall>q. sc_search sc = Some q \<longrightarrow> (\<exists>j \<in> set (sq_jobs (hw_search w')). sj_operation j = JobUpsert \<and> sj_status j = JobPending \<and>
           sj_doc j = plain_document ws ResMessage (ms_id m) (Some c) [] content (hw_now w) (hw_now w))) \<and>
        (\<forall>n. sc_realtime sc = Some n \<longrightarrow> (\<exists>a b. ob_rows (hw_outbox w') = ob_rows (hw_outbox w) @ [a, b] \<and>
           filed_event a TypeMessageCreated (chat_subject s c) ws c u (hs_json s (MessagePayload m)) \<and>
           filed_event b TypeMessageCreated (workspace_subject s ws) ws c u (hs_json s (MessagePayload m)))))"
proof (cases "validate_struct (hs_validator s) (send_message_input content) = None \<and>
    (\<exists>d. authorize_channel s c u CapabilityParticipate w = Ok d \<and> \<not> ch_archived (dc_channel d)) \<and> check_parent parent c w = None")
  case False
  then have "\<exists>e. r = Err e \<and> w' = w" using assms(1)
    by (auto simp: send_message_def chat_exec split: option.splits sum.splits if_splits)
  then show ?thesis by auto
next
  case True
  then obtain d where d: "authorize_channel s c u CapabilityParticipate w = Ok d" "\<not> ch_archived (dc_channel d)" by blast
  define ws where "ws = ch_workspace (dc_channel d)"
  define m0 where "m0 = new_message (hw_next_id w) c u parent content (hw_now w)"
  define m where "m = normalize_message_sender m0"
  define w1 where "w1 = w\<lparr>hw_next_id := hw_next_id w + 1\<rparr>"
  have run: "store_message s ws u m0 w1 = (w', r)"
    using assms(1) True d by (simp add: send_message_def chat_exec ws_def m0_def w1_def)
  have m: "ms_id m = hw_next_id w" "ms_channel m = c" "ms_user m = u" "ms_parent m = parent" "ms_content m = content"
    "ms_created_at m = hw_now w" "ms_updated_at m = hw_now w"
    by (simp_all add: m_def m0_def normalize_message_sender_def new_message_def Let_def)
  show ?thesis
  proof (cases r)
    case (Inl e)
    then obtain e' where t: "chat_tx (send_body s sc ws u m0) w1 = (w', Err e')"
      using run by (auto simp: store_message_tx[OF assms(2)] run_errs return_def)
    have "hw_published (fst (send_body s sc ws u m0 w1)) = hw_published w1" using fixed_send_body by (simp add: fixed_def)
    then show ?thesis using chat_tx_Err[OF t] Inl by (auto simp: w1_def chat_rolled_back_def)
  next
    case (Inr x)
    then have b: "send_body s sc ws u m0 w1 = (w', Ok ())" and x: "x = m"
      using run by (auto simp: store_message_tx[OF assms(2)] run_simps m_def)
    obtain t w3 w4 where t: "pg_create_message m0 (hw_messages w1) = (t, None)"
      and s3: "enqueue_message_search_tx sc ws c m (w1\<lparr>hw_messages := t\<rparr>) = (w3, Ok ())"
      and s4: "enqueue_event_tx s sc TypeMessageCreated (chat_subject s c) ws c u (MessagePayload m) w3 = (w4, Ok ())"
      and s5: "enqueue_event_tx s sc TypeMessageCreated (workspace_subject s ws) ws c u (MessagePayload m) w4 = (w', Ok ())"
      using b m(2) by (auto simp: send_body_def Let_def m_def[symmetric] messages_in_scope_def run_simps)
    note e3 = tx_message_search_Ok[OF s3] and e4 = enqueue_event_tx_Ok[OF s4] and e5 = enqueue_event_tx_Ok[OF s5]
    have c: "sender_check (ms_sender m) (message_user_id_value m) (message_guest_session_id_value m)"
      "t = (hw_messages w1)\<lparr>mt_messages := mt_messages (hw_messages w1) @ [message_row m]\<rparr>"
      using create_message_None[OF t] by (simp_all add: m_def Let_def)
    have u: "message_row m = m" "ms_sender m = SenderUser"
      using user_message_row[OF c(1) m_def] by (simp_all add: m0_def new_message_def)
    have "mt_messages (hw_messages w') = mt_messages (hw_messages w) @ [m]" using e3 e4 e5 c(2) u(1) by (simp add: w1_def)
    moreover have "\<forall>q. sc_search sc = Some q \<longrightarrow> (\<exists>j \<in> set (sq_jobs (hw_search w')). sj_operation j = JobUpsert \<and> sj_status j = JobPending \<and>
           sj_doc j = plain_document ws ResMessage (ms_id m) (Some c) [] content (hw_now w) (hw_now w))"
      using e3 e4 e5 m enqueue_upsert_job by fastforce
    moreover have "\<forall>n. sc_realtime sc = Some n \<longrightarrow> (\<exists>a b. ob_rows (hw_outbox w') = ob_rows (hw_outbox w) @ [a, b] \<and>
           filed_event a TypeMessageCreated (chat_subject s c) ws c u (hs_json s (MessagePayload m)) \<and>
           filed_event b TypeMessageCreated (workspace_subject s ws) ws c u (hs_json s (MessagePayload m)))"
      using e3 e4 e5 by (fastforce simp: w1_def)
    moreover have "hw_published w' = hw_published w" using e3 e4 e5 by (simp add: w1_def)
    ultimately show ?thesis using d True m u x Inr by (auto simp: ws_def)
  qed
qed

theorem send_message_all_or_nothing_witness:
  "\<exists>w' m. send_message chat_sample_service 30 3 ''hi'' None chat_sample = (w', Ok m) \<and>
     mt_messages (hw_messages w') = [m] \<and> hw_published w' = []"
proof -
  obtain w' r where run: "send_message chat_sample_service 30 3 ''hi'' None chat_sample = (w', r)" by fastforce
  have "case snd (send_message chat_sample_service 30 3 ''hi'' None chat_sample) of Ok m \<Rightarrow> True | Err e \<Rightarrow> False" by code_simp
  then obtain m where r: "r = Ok m" using run by (auto split: sum.splits)
  have "hs_tx chat_sample_service = Some \<lparr>sc_channels = True, sc_messages = True, sc_grants = True, sc_search = Some sample_repo,
      sc_realtime = Some 8\<rparr>" by (simp add: chat_sample_service_def)
  from send_message_all_or_nothing[OF run this] r run show ?thesis by (auto simp: chat_sample_def)
qed

section \<open>Direct messages\<close>

lemma dm_symmetric: "pg_get_dm_channel d ws a b = pg_get_dm_channel d ws b a"
  unfolding pg_get_dm_channel_def by (rule arg_cong[of _ _ "\<lambda>P. query_row _ _ _ P _"]) auto

lemma found_dm: "find_dm ws a b w = Ok (Some ch) \<longleftrightarrow> pg_get_dm_channel (hw_db w) ws a b = Ok ch"
  by (auto simp: find_dm_def split: sum.splits if_splits)

lemma add_members_Ok:
  "add_members ms w = (w', Ok ()) \<Longrightarrow>
     w' = w\<lparr>hw_db := (hw_db w)\<lparr>db_channel_members := db_channel_members (hw_db w) @ ms\<rparr>\<rparr>"
proof (induction ms arbitrary: w)
  case (Cons m ms)
  then obtain d where d: "pg_add_channel_member (hw_db w) m = (d, None)" and r: "add_members ms (w\<lparr>hw_db := d\<rparr>) = (w', Ok ())"
    by (auto simp: run_simps)
  have "d = (hw_db w)\<lparr>db_channel_members := db_channel_members (hw_db w) @ [m]\<rparr>"
    using d by (auto simp: pg_add_channel_member_def split: option.splits)
  then show ?case using Cons.IH[OF r] by simp
qed (simp add: return_def)

lemma grant_ensured:
  assumes "ensure_channel_access_grant channel ws remote a b calls w = (w', Ok ())"
    and "db_fault (hw_db w) ''get channel access grant'' = None"
  shows "(\<exists>g. pg_get_channel_grant (hw_db w') channel b = Ok g) \<and>
    (\<exists>gs. hw_db w' = (hw_db w)\<lparr>db_channel_grants := gs\<rparr>) \<and> hw_now w' = hw_now w"
proof (cases "pg_get_channel_grant (hw_db w) channel b")
  case (Inr g)
  then have "w' = w" using assms by (simp add: ensure_channel_access_grant_def)
  moreover have "hw_db w = (hw_db w)\<lparr>db_channel_grants := db_channel_grants (hw_db w)\<rparr>" by simp
  ultimately show ?thesis using Inr by blast
next
  case (Inl e)
  define g where "g = new_channel_grant (hw_next_id w) channel ws remote a b calls (hw_now w)"
  obtain d where d: "pg_create_channel_grant (hw_db w) g = (d, None)"
    and w': "w' = w\<lparr>hw_next_id := hw_next_id w + 1, hw_db := d\<rparr>"
    using assms(1) Inl by (auto simp: ensure_channel_access_grant_def chat_exec run_simps g_def split: if_splits)
  have d': "d = (hw_db w)\<lparr>db_channel_grants := db_channel_grants (hw_db w) @ [g]\<rparr>"
    using d by (auto simp: pg_create_channel_grant_def split: option.splits)
  have "\<exists>x. find (\<lambda>g. cg_channel g = channel \<and> cg_user g = b) (db_channel_grants (hw_db w) @ [g]) = Some x"
    by (rule find_exists[of g]) (simp_all add: g_def new_channel_grant_def)
  then show ?thesis using w' d' assms(2) by (auto simp: pg_get_channel_grant_def query_row_def)
qed

lemma grant_tx_Ok:
  "ensure_channel_access_grant_tx sc channel ws remote a b calls w = (w', Ok ()) \<Longrightarrow>
   ensure_channel_access_grant channel ws remote a b calls w = (w', Ok ())"
  by (auto simp: ensure_channel_access_grant_tx_def ensure_channel_access_grant_def chat_exec map_err_Ok split: if_splits sum.splits)

text \<open>What both ways of storing a new direct message channel leave in the database.\<close>

lemma store_dm_Ok:
  assumes "store_dm s ch members remote a b w = (w', Ok ())" "db_fault (hw_db w) ''get channel access grant'' = None"
  shows "(\<forall>x \<in> set (db_channels (hw_db w)). ch_id x \<noteq> ch_id ch) \<and>
    db_channels (hw_db w') = db_channels (hw_db w) @ [ch] \<and>
    db_channel_members (hw_db w') = db_channel_members (hw_db w) @ members \<and> db_fault (hw_db w') = db_fault (hw_db w) \<and>
    (remote \<noteq> ch_workspace ch \<longrightarrow> (\<exists>g. pg_get_channel_grant (hw_db w') (ch_id ch) b = Ok g))"
proof -
  obtain w1 d w2 w3 where d: "pg_create_channel (hw_db w1) ch = (d, None)" "hw_db w1 = hw_db w"
    and m: "add_members members (w1\<lparr>hw_db := d\<rparr>) = (w2, Ok ())"
    and g: "(if remote \<noteq> ch_workspace ch then ensure_channel_access_grant (ch_id ch) (ch_workspace ch) remote a b True else return ()) w2 = (w3, Ok ())"
    and w': "hw_db w' = hw_db w3"
  proof (cases "hs_tx s")
    case None
    then obtain d w2 w3 where d: "pg_create_channel (hw_db w) ch = (d, None)"
      and m: "add_members members (w\<lparr>hw_db := d\<rparr>) = (w2, Ok ())"
      and g: "(if remote \<noteq> ch_workspace ch then ensure_channel_access_grant (ch_id ch) (ch_workspace ch) remote a b True else return ()) w2 = (w3, Ok ())"
      and q: "request_channel_index s ch w3 = (w', Ok ())"
      using assms(1) by (auto simp: store_dm_def Let_def run_simps)
    have "hw_db w' = hw_db w3" using fixed_run[OF fixed_search(5)[OF core_parts(1)] q] .
    then show ?thesis using that[OF d _ m g] by simp
  next
    case (Some sc)
    then obtain d w2 w3 where d: "pg_create_channel (hw_db w) ch = (d, None)"
      and m: "add_members members (w\<lparr>hw_db := d\<rparr>) = (w2, Ok ())"
      and g: "(if remote \<noteq> ch_workspace ch then ensure_channel_access_grant_tx sc (ch_id ch) (ch_workspace ch) remote a b True else return ()) w2 = (w3, Ok ())"
      and q: "enqueue_channel_search_tx sc ch w3 = (w', Ok ())"
      using assms(1) by (auto simp: store_dm_def Let_def run_simps channels_in_scope_def)
    have "hw_db w' = hw_db w3" using fixed_run[OF fixed_search(2)[OF core_parts(1)] q] .
    moreover have "(if remote \<noteq> ch_workspace ch then ensure_channel_access_grant (ch_id ch) (ch_workspace ch) remote a b True else return ()) w2 = (w3, Ok ())"
      using g grant_tx_Ok by (cases "remote = ch_workspace ch") simp_all
    ultimately show ?thesis using that[OF d _ m] by simp
  qed
  have d': "d = (hw_db w)\<lparr>db_channels := db_channels (hw_db w) @ [ch]\<rparr>" "\<forall>x \<in> set (db_channels (hw_db w)). ch_id x \<noteq> ch_id ch"
    using d by (auto simp: pg_create_channel_def exec_insert_def list_ex_iff split: option.splits if_splits)
  have w2: "hw_db w2 = d\<lparr>db_channel_members := db_channel_members d @ members\<rparr>" using add_members_Ok[OF m] by simp
  have f: "db_fault (hw_db w2) ''get channel access grant'' = None" using assms(2) d'(1) w2 by simp
  show ?thesis
  proof (cases "remote = ch_workspace ch")
    case True
    then show ?thesis using g d' w2 w' by (simp add: return_def)
  next
    case False
    then have "ensure_channel_access_grant (ch_id ch) (ch_workspace ch) remote a b True w2 = (w3, Ok ())" using g by simp
    from grant_ensured[OF this f] show ?thesis using d' w2 w' by auto
  qed
qed

lemma new_dm_found:
  assumes "pg_get_dm_channel d ws a b = Err e" "db_fault d ''get dm channel'' = None"
    and "db_channels d' = db_channels d @ [ch]" "db_channel_members d' = db_channel_members d @ [ma, mb]" "db_fault d' = db_fault d"
    and "\<forall>x \<in> set (db_channels d). ch_id x \<noteq> ch_id ch" "ch_workspace ch = ws" "ch_type ch = ChDM"
    and "cm_channel ma = ch_id ch" "cm_user ma = a" "cm_channel mb = ch_id ch" "cm_user mb = b"
  shows "pg_get_dm_channel d' ws a b = Ok ch"
proof -
  let ?P = "\<lambda>d c. ch_workspace c = ws \<and> ch_type c = ChDM \<and> list_ex (\<lambda>m. cm_channel m = ch_id c \<and> cm_user m = a) (db_channel_members d)
    \<and> list_ex (\<lambda>m. cm_channel m = ch_id c \<and> cm_user m = b) (db_channel_members d)"
  have "find (?P d) (db_channels d) = None"
    using assms(1,2) by (auto simp: pg_get_dm_channel_def query_row_def split: option.splits)
  then have "\<forall>x \<in> set (db_channels d). \<not> ?P d x" by (simp add: find_None_iff)
  then have "\<forall>x \<in> set (db_channels d). \<not> ?P d' x" using assms(4,6,9,11) by auto
  then have "find (?P d') (db_channels d @ [ch]) = find (?P d') [ch]" by (rule find_append_fresh)
  also have "\<dots> = Some ch" using assms by simp
  finally show ?thesis using assms(2,3,5) by (simp add: pg_get_dm_channel_def query_row_def)
qed

lemma dm_after:
  assumes run: "get_or_create_dm s ws a b target w = (w1, Ok ch)"
    and live: "db_fault (hw_db w) ''get dm channel'' = None" "db_fault (hw_db w) ''get channel access grant'' = None"
  shows "a \<noteq> b \<and> pg_get_dm_channel (hw_db w1) ws a b = Ok ch \<and>
    (remote_workspace ws target \<noteq> ws \<longrightarrow> (\<exists>g. pg_get_channel_grant (hw_db w1) (ch_id ch) b = Ok g))"
proof -
  let ?remote = "remote_workspace ws target"
  obtain found where ab: "a \<noteq> b" and found: "find_dm ws a b w = Ok found"
    using run by (auto simp: get_or_create_dm_def Let_def chat_exec split: if_splits option.splits sum.splits)
  show ?thesis
  proof (cases found)
    case (Some c)
    have q: "pg_get_dm_channel (hw_db w) ws a b = Ok c" using found Some found_dm by simp
    have r: "(if ?remote \<noteq> ws then ensure_channel_access_grant (ch_id c) ws ?remote a b True else return ()) w = (w1, Ok ())" and c: "c = ch"
      using run found Some by (auto simp: get_or_create_dm_def Let_def chat_exec run_simps split: if_splits option.splits)
    show ?thesis
    proof (cases "?remote = ws")
      case True
      then show ?thesis using r q c ab by (simp add: return_def)
    next
      case False
      then have "ensure_channel_access_grant (ch_id c) ws ?remote a b True w = (w1, Ok ())" using r by simp
      from grant_ensured[OF this live(2)] show ?thesis using q c ab by (auto simp: pg_get_dm_channel_def)
    qed
  next
    case None
    let ?ch = "new_channel (hw_next_id w) ws [] [] ChDM a (hw_now w)"
    let ?ma = "new_channel_member (Suc (hw_next_id w)) (hw_next_id w) a ChRoleMember (hw_now w)"
    let ?mb = "new_channel_member (Suc (Suc (hw_next_id w))) (hw_next_id w) b ChRoleMember (hw_now w)"
    obtain e where e: "pg_get_dm_channel (hw_db w) ws a b = Err e"
      using found None by (auto simp: find_dm_def split: sum.splits)
    obtain w0 where r: "store_dm s ?ch [?ma, ?mb] ?remote a b w0 = (w1, Ok ())" and w0: "hw_db w0 = hw_db w" and ch: "ch = ?ch"
      using run found None by (auto simp: get_or_create_dm_def Let_def chat_exec run_simps split: if_splits option.splits)
    note st = store_dm_Ok[OF r, unfolded w0, OF live(2)]
    have "pg_get_dm_channel (hw_db w1) ws a b = Ok ?ch"
      by (rule new_dm_found[OF e live(1)]) (use st in \<open>auto simp: new_channel_def new_channel_member_def\<close>)
    then show ?thesis using st ch ab by (simp add: new_channel_def)
  qed
qed

lemma dm_again:
  assumes "a \<noteq> b" "find_dm ws a b w = Ok (Some ch)" "may_open_dm s ws (remote_workspace ws target) a b w = None"
    and "remote_workspace ws target \<noteq> ws \<Longrightarrow> \<exists>g. pg_get_channel_grant (hw_db w) (ch_id ch) b = Ok g"
  shows "get_or_create_dm s ws a b target w = (w, Ok ch)"
proof -
  define grant where "grant = (if remote_workspace ws target \<noteq> ws
    then ensure_channel_access_grant (ch_id ch) ws (remote_workspace ws target) a b True else return ())"
  have "grant w = (w, Ok ())"
    using assms(4) by (auto simp: grant_def ensure_channel_access_grant_def return_def)
  then have "and_then grant (\<lambda>_. return ch) w = (w, Ok ch)" by (simp add: and_then_def return_def)
  then show ?thesis using assms(1-3) by (simp add: get_or_create_dm_def Let_def chat_exec grant_def)
qed

text \<open>A direct message channel is found again: once a user has been given the channel with another, asking again
  for as long as the two may write to each other, by either of them when they share the workspace, gives the same channel and changes
  nothing; when they are of different workspaces the other one holds a grant for it.\<close>

lemma dm_channel_found_again:
  assumes "get_or_create_dm s ws a b target w = (w1, Ok ch)"
    and "db_fault (hw_db w) ''get dm channel'' = None" "db_fault (hw_db w) ''get channel access grant'' = None"
    and "hw_db w2 = hw_db w1"
  shows "(may_open_dm s ws (remote_workspace ws target) a b w2 = None \<longrightarrow> get_or_create_dm s ws a b target w2 = (w2, Ok ch)) \<and>
    (remote_workspace ws target = ws \<and> may_open_dm s ws ws b a w2 = None \<longrightarrow> get_or_create_dm s ws b a None w2 = (w2, Ok ch)) \<and>
    (remote_workspace ws target \<noteq> ws \<longrightarrow> (\<exists>g. pg_get_channel_grant (hw_db w1) (ch_id ch) b = Ok g))"
proof -
  note after = dm_after[OF assms(1-3)]
  have f: "find_dm ws a b w2 = Ok (Some ch)" "find_dm ws b a w2 = Ok (Some ch)"
    using after assms(4) found_dm dm_symmetric by metis+
  show ?thesis using after f assms(4) dm_again[OF _ f(1)] dm_again[OF _ f(2), of s None] by (auto simp: remote_workspace_def)
qed

lemma dm_channel_found_again_witness:
  "\<exists>w1 ch. get_or_create_dm chat_sample_service 7 3 4 None chat_sample = (w1, Ok ch) \<and>
     get_or_create_dm chat_sample_service 7 4 3 None w1 = (w1, Ok ch)"
proof -
  obtain w1 r where run: "get_or_create_dm chat_sample_service 7 3 4 None chat_sample = (w1, r)" by fastforce
  have "case get_or_create_dm chat_sample_service 7 3 4 None chat_sample of
      (w1, Ok ch) \<Rightarrow> may_open_dm chat_sample_service 7 7 4 3 w1 = None | (w1, Err e) \<Rightarrow> False" by code_simp
  then obtain ch where ch: "r = Ok ch" "may_open_dm chat_sample_service 7 7 4 3 w1 = None" using run by (auto split: sum.splits)
  have "db_fault (hw_db chat_sample) ''get dm channel'' = None" "db_fault (hw_db chat_sample) ''get channel access grant'' = None"
    by (simp_all add: chat_sample_def chat_sample_db_def empty_db_def)
  from dm_channel_found_again[OF run[unfolded ch(1)] this refl] run ch show ?thesis by (auto simp: remote_workspace_def)
qed

section \<open>Read marks\<close>

lemma update_rows_mem: "x \<in> set rows \<Longrightarrow> P x \<Longrightarrow> f x \<in> set (update_rows P f rows)"
  by (force simp: update_rows_def)

lemma update_rows_from: "y \<in> set (update_rows P f rows) \<Longrightarrow> \<exists>x \<in> set rows. y = (if P x then f x else x)"
  by (auto simp: update_rows_def)

lemma none_unread: "\<forall>m \<in> set (mt_messages t). ms_created_at m \<le> now \<Longrightarrow> unread_count t c u now = 0"
  by (auto simp: unread_count_def unread_by_def filter_empty_conv)

lemma unread_of_channel: "unread_of s bat u w c = Some x \<Longrightarrow> un_channel x = c"
  by (auto simp: unread_of_def split: option.splits sum.splits if_splits)

lemma not_counted:
  assumes "\<And>bat. pg_batch_unread (hw_messages w) (hw_db w) ws u = Ok bat \<Longrightarrow> unread_of s bat u w c = None"
    and "get_unread_counts s ws u w = Some (Ok us)"
  shows "c \<notin> un_channel ` set us"
proof -
  obtain chs where chs: "list_channels_for_unread s ws u w = Some (Ok chs)"
    using assms(2) by (auto simp: get_unread_counts_def split: option.splits sum.splits)
  obtain bat where b: "pg_batch_unread (hw_messages w) (hw_db w) ws u = Ok bat"
    using assms(2) chs by (auto simp: get_unread_counts_def split: sum.splits)
  have us: "us = List.map_filter (\<lambda>ch. unread_of s bat u w (ch_id ch)) chs"
    using assms(2) chs b by (simp add: get_unread_counts_def)
  have "un_channel x \<noteq> c" if "x \<in> set us" for x
  proof -
    have "\<exists>k. unread_of s bat u w k = Some x" using that us by (auto simp: List.map_filter_def)
    then obtain k where "unread_of s bat u w k = Some x" by blast
    then show ?thesis using assms(1)[OF b] unread_of_channel by force
  qed
  then show ?thesis by blast
qed

text \<open>The last reading that the count of a member starts from is the one of his row.\<close>

lemma batch_rows:
  assumes "pg_batch_unread t d ws u = Ok bat" "x \<in> set bat"
  shows "\<exists>m \<in> set (db_channel_members d). cm_user m = u \<and> cm_channel m = us_channel x \<and>
    us_unread x = unread_count t (us_channel x) u (cm_last_read_at m)"
  using assms by (fastforce simp: pg_batch_unread_def query_rows_def split: option.splits)

lemma nothing_unread:
  assumes all: "\<forall>m \<in> set (mt_messages (hw_messages w)). ms_created_at m \<le> now"
    and rows: "\<forall>m \<in> set (db_channel_members (hw_db w)). cm_channel m = c \<and> cm_user m = u \<longrightarrow> cm_last_read_at m = now"
    and last: "\<And>since. last_read_at s c u w = Ok since \<Longrightarrow> since = now"
    and b: "pg_batch_unread (hw_messages w) (hw_db w) ws u = Ok bat"
  shows "unread_of s bat u w c = None"
proof (cases "find (\<lambda>x. us_channel x = c) (rev bat)")
  case None
  then show ?thesis using last none_unread[OF all] by (auto simp: unread_of_def pg_count_unread_def split: sum.splits option.splits)
next
  case (Some x)
  then have x: "x \<in> set bat" "us_channel x = c" using find_Some_mem by fastforce+
  have "us_unread x = 0" using batch_rows[OF b x(1)] rows x(2) none_unread[OF all] by auto
  then show ?thesis using Some by (simp add: unread_of_def)
qed

lemma decision_channel:
  assumes "hs_access s = Some pg_access" "authorize_channel s c u cap w = Ok d"
  shows "ch_id (dc_channel d) = c"
proof -
  have "access_channel (Some (pg_access (hw_db w) (hw_now w))) c u cap = Ok d"
    using assms by (simp add: authorize_channel_def chat_policy_def)
  then have "pg_get_channel (hw_db w) c = Ok (dc_channel d)" using access_channel_channel by (fastforce simp: pg_access_def)
  then show ?thesis by (auto simp: pg_get_channel_def dest!: query_row_member)
qed

lemma decision_member:
  assumes "hs_access s = Some pg_access" "authorize_channel s c u CapabilityParticipate w = Ok d" "dc_subject d \<noteq> SubjectGuest"
  shows "\<exists>m. dc_channel_member d = Some m \<and> pg_get_channel_member (hw_db w) c u = Ok m"
proof -
  have a: "access_channel (Some (pg_access (hw_db w) (hw_now w))) c u CapabilityParticipate = Ok d"
    using assms by (simp add: authorize_channel_def chat_policy_def)
  have "ch_id (dc_channel d) = c" using decision_channel[OF assms(1,2)] .
  then show ?thesis using a assms(3)
    by (auto simp: access_channel_def decision_for_member_def decision_for_collaborator_def result_bind_def pg_access_def Let_def
        split: sum.splits if_splits option.splits)
qed

lemma marked_state:
  assumes "pg_upsert_state \<lparr>cs_channel = c, cs_user = u, cs_last_read_at = now, cs_created_at = 0, cs_updated_at = 0\<rparr> now t = (t', None)"
  shows "mt_messages t' = mt_messages t \<and> mt_fault t' = mt_fault t \<and>
    (mt_fault t ''get channel access state'' c = None \<longrightarrow> (\<exists>st. pg_get_state t' c u = Ok st \<and> cs_last_read_at st = now))"
proof -
  let ?P = "\<lambda>r. cs_channel r = c \<and> cs_user r = u"
  obtain s1 where s1: "cs_channel s1 = c" "cs_user s1 = u" "cs_last_read_at s1 = now"
    and t': "t' = t\<lparr>mt_states := (if list_ex ?P (mt_states t)
        then update_rows ?P (\<lambda>r. r\<lparr>cs_last_read_at := now, cs_updated_at := now\<rparr>) (mt_states t) else mt_states t @ [s1])\<rparr>"
    using assms that[of "\<lparr>cs_channel = c, cs_user = u, cs_last_read_at = now, cs_created_at = now, cs_updated_at = now\<rparr>"]
    by (auto simp: pg_upsert_state_def Let_def split: option.splits if_splits)
  have "\<exists>x \<in> set (mt_states t'). ?P x"
  proof (cases "list_ex ?P (mt_states t)")
    case True
    then obtain r where r: "r \<in> set (mt_states t)" "?P r" by (auto simp: list_ex_iff)
    show ?thesis using True t' r update_rows_mem[of r "mt_states t" ?P "\<lambda>r. r\<lparr>cs_last_read_at := now, cs_updated_at := now\<rparr>"]
      by (intro bexI[of _ "r\<lparr>cs_last_read_at := now, cs_updated_at := now\<rparr>"]) simp_all
  next
    case False
    then show ?thesis using t' s1 by simp
  qed
  then obtain x where x: "x \<in> set (mt_states t')" "?P x" by blast
  then obtain st where st: "find ?P (mt_states t') = Some st" using find_exists[of x _ ?P] by blast
  then have "st \<in> set (mt_states t')" "?P st" by (auto dest: find_Some_mem)
  then have "cs_last_read_at st = now"
  proof (cases "list_ex ?P (mt_states t)")
    case True
    then have "mt_states t' = update_rows ?P (\<lambda>r. r\<lparr>cs_last_read_at := now, cs_updated_at := now\<rparr>) (mt_states t)"
      unfolding t' by simp
    then show ?thesis using \<open>st \<in> set (mt_states t')\<close> \<open>?P st\<close> by (auto dest!: update_rows_from split: if_splits)
  next
    case False
    then have "mt_states t' = mt_states t @ [s1]" unfolding t' by simp
    then show ?thesis using \<open>st \<in> set (mt_states t')\<close> \<open>?P st\<close> False s1(3) by (auto simp: list_ex_iff)
  qed
  then show ?thesis using t' st by (simp add: pg_get_state_def query_row_def)
qed

text \<open>Once a channel is marked as read by a member, its messages up to now are no longer counted as unread for
  him; for a guest who has no row among the members of the channel neither, his mark being kept apart. For a
  collaborator of another workspace marking does not count: his mark is stored apart too, but the count starts from
  his row among the members, which stays as it was.\<close>

lemma mark_read_effect:
  assumes "mark_read s c u w = (w', Ok ())" "hs_access s = Some pg_access" "hs_read_states s"
    and "authorize_channel s c u CapabilityParticipate w = Ok d"
    and "\<forall>m \<in> set (mt_messages (hw_messages w)). ms_created_at m \<le> hw_now w"
  shows "(dc_subject d = SubjectMember \<longrightarrow> (\<forall>ws us. get_unread_counts s ws u w' = Some (Ok us) \<longrightarrow> c \<notin> un_channel ` set us)) \<and>
    (dc_subject d = SubjectGuest \<and> mt_fault (hw_messages w) ''get channel access state'' c = None \<and>
     (\<forall>m \<in> set (db_channel_members (hw_db w)). \<not> (cm_channel m = c \<and> cm_user m = u)) \<longrightarrow>
       (\<forall>ws us. get_unread_counts s ws u w' = Some (Ok us) \<longrightarrow> c \<notin> un_channel ` set us)) \<and>
    (dc_subject d = SubjectCollaborator \<longrightarrow> last_read_at s c u w' = last_read_at s c u w \<and>
       (\<forall>ws. pg_batch_unread (hw_messages w') (hw_db w') ws u = pg_batch_unread (hw_messages w) (hw_db w) ws u))"
proof -
  let ?now = "hw_now w"
  note c = decision_channel[OF assms(2,4)]
  have run: "update_last_read s d u w = (w', Ok ())"
    using assms(1,4) by (auto simp: mark_read_def chat_exec map_err_Ok)
  have member: "c \<notin> un_channel ` set us"
    if sub: "dc_subject d = SubjectMember" and us: "get_unread_counts s ws u w' = Some (Ok us)" for ws us
  proof -
    obtain m where m: "dc_channel_member d = Some m" "pg_get_channel_member (hw_db w) c u = Ok m"
      using decision_member[OF assms(2,4)] sub by auto
    let ?P = "\<lambda>r. cm_channel r = c \<and> cm_user r = u"
    have w': "w' = w\<lparr>hw_db := (hw_db w)\<lparr>db_channel_members :=
        update_rows ?P (\<lambda>r. r\<lparr>cm_last_read_at := ?now\<rparr>) (db_channel_members (hw_db w))\<rparr>\<rparr>"
      using run sub m c by (auto simp: update_last_read_def chat_exec run_simps pg_update_last_read_def Let_def split: option.splits)
    have dbm: "db_channel_members (hw_db w') = update_rows ?P (\<lambda>r. r\<lparr>cm_last_read_at := ?now\<rparr>) (db_channel_members (hw_db w))"
      and same: "hw_messages w' = hw_messages w" "db_fault (hw_db w') = db_fault (hw_db w)" unfolding w' by simp_all
    have rows: "\<forall>r \<in> set (db_channel_members (hw_db w')). ?P r \<longrightarrow> cm_last_read_at r = ?now"
      unfolding dbm by (auto dest!: update_rows_from split: if_splits)
    have "m \<in> set (db_channel_members (hw_db w)) \<and> ?P m"
      using m(2) by (auto simp: pg_get_channel_member_def dest!: query_row_member)
    then have "m\<lparr>cm_last_read_at := ?now\<rparr> \<in> set (db_channel_members (hw_db w')) \<and> ?P (m\<lparr>cm_last_read_at := ?now\<rparr>)"
      using update_rows_mem[of m _ ?P "\<lambda>r. r\<lparr>cm_last_read_at := ?now\<rparr>"] unfolding dbm by simp
    then have "\<exists>r \<in> set (db_channel_members (hw_db w')). ?P r" by blast
    then obtain r where r: "find ?P (db_channel_members (hw_db w')) = Some r" using find_exists[of _ _ ?P] by blast
    have "db_fault (hw_db w') ''get channel member'' = None"
      using m(2) by (auto simp: same(2) pg_get_channel_member_def query_row_def split: option.splits)
    then have g: "pg_get_channel_member (hw_db w') c u = Ok r" using r by (simp add: pg_get_channel_member_def query_row_def)
    then have "cm_last_read_at r = ?now" using rows find_Some_mem[OF r] by blast
    then have last: "last_read_at s c u w' = Ok since \<Longrightarrow> since = ?now" for since using g by (simp add: last_read_at_def)
    have all: "\<forall>m \<in> set (mt_messages (hw_messages w')). ms_created_at m \<le> ?now" using assms(5) same(1) by simp
    show ?thesis by (rule not_counted[OF nothing_unread[OF all rows last] us])
  qed
  have state: "pg_upsert_state \<lparr>cs_channel = c, cs_user = u, cs_last_read_at = ?now, cs_created_at = 0, cs_updated_at = 0\<rparr> ?now
      (hw_messages w) = (hw_messages w', None) \<and> hw_db w' = hw_db w" if "dc_subject d \<noteq> SubjectMember"
    using run that assms(3) c by (auto simp: update_last_read_def chat_exec run_simps)
  have guest: "c \<notin> un_channel ` set us"
    if sub: "dc_subject d = SubjectGuest" "mt_fault (hw_messages w) ''get channel access state'' c = None"
      and none: "\<forall>m \<in> set (db_channel_members (hw_db w)). \<not> (cm_channel m = c \<and> cm_user m = u)"
      and us: "get_unread_counts s ws u w' = Some (Ok us)" for ws us
  proof -
    have st: "pg_upsert_state \<lparr>cs_channel = c, cs_user = u, cs_last_read_at = ?now, cs_created_at = 0, cs_updated_at = 0\<rparr> ?now
      (hw_messages w) = (hw_messages w', None)" "hw_db w' = hw_db w" using state sub(1) by auto
    obtain x where "pg_get_state (hw_messages w') c u = Ok x" "cs_last_read_at x = ?now"
      using marked_state[OF st(1)] sub(2) by blast
    moreover have "pg_get_channel_member (hw_db w') c u \<noteq> Ok m" for m
      using none st(2) by (auto simp: pg_get_channel_member_def dest!: query_row_member)
    ultimately have last: "last_read_at s c u w' = Ok since \<Longrightarrow> since = ?now" for since
      using assms(3) by (auto simp: last_read_at_def split: sum.splits if_splits)
    have rows: "\<forall>m \<in> set (db_channel_members (hw_db w')). cm_channel m = c \<and> cm_user m = u \<longrightarrow> cm_last_read_at m = ?now"
      using none st(2) by auto
    have all: "\<forall>m \<in> set (mt_messages (hw_messages w')). ms_created_at m \<le> ?now"
      using assms(5) marked_state[OF st(1)] by simp
    show ?thesis by (rule not_counted[OF nothing_unread[OF all rows last] us])
  qed
  have "last_read_at s c u w' = last_read_at s c u w \<and>
       (\<forall>ws. pg_batch_unread (hw_messages w') (hw_db w') ws u = pg_batch_unread (hw_messages w) (hw_db w) ws u)"
    if sub: "dc_subject d = SubjectCollaborator"
  proof -
    obtain m where "pg_get_channel_member (hw_db w) c u = Ok m" using decision_member[OF assms(2,4)] sub by auto
    moreover have "mt_messages (hw_messages w') = mt_messages (hw_messages w)" "mt_fault (hw_messages w') = mt_fault (hw_messages w)" "hw_db w' = hw_db w"
      using state sub marked_state[of c u ?now "hw_messages w" "hw_messages w'"] by auto
    ultimately show ?thesis by (simp add: last_read_at_def pg_batch_unread_def unread_count_def)
  qed
  then show ?thesis using member guest by blast
qed

lemma mark_read_effect_witness:
  "\<exists>w' us. mark_read chat_sample_service 30 3 chat_sample_talk = (w', Ok ()) \<and>
     get_unread_counts chat_sample_service 7 3 w' = Some (Ok us) \<and> 30 \<notin> un_channel ` set us"
proof -
  obtain w' where run: "mark_read chat_sample_service 30 3 chat_sample_talk = (w', snd (mark_read chat_sample_service 30 3 chat_sample_talk))"
    by (metis surj_pair snd_conv)
  have "snd (mark_read chat_sample_service 30 3 chat_sample_talk) = Ok () \<and>
    (case authorize_channel chat_sample_service 30 3 CapabilityParticipate chat_sample_talk of
       Ok d \<Rightarrow> dc_subject d = SubjectMember | Err e \<Rightarrow> False) \<and>
    list_all (\<lambda>m. ms_created_at m \<le> hw_now chat_sample_talk) (mt_messages (hw_messages chat_sample_talk)) \<and>
    (case get_unread_counts chat_sample_service 7 3 (fst (mark_read chat_sample_service 30 3 chat_sample_talk)) of
       Some (Ok us) \<Rightarrow> True | _ \<Rightarrow> False)"
    by code_simp
  then obtain d us where ok: "snd (mark_read chat_sample_service 30 3 chat_sample_talk) = Ok ()"
    and d: "authorize_channel chat_sample_service 30 3 CapabilityParticipate chat_sample_talk = Ok d" "dc_subject d = SubjectMember"
    and all: "\<forall>m \<in> set (mt_messages (hw_messages chat_sample_talk)). ms_created_at m \<le> hw_now chat_sample_talk"
    and us: "get_unread_counts chat_sample_service 7 3 (fst (mark_read chat_sample_service 30 3 chat_sample_talk)) = Some (Ok us)"
    by (auto simp: list_all_iff split: sum.splits option.splits) (metis sumE)
  have "hs_access chat_sample_service = Some pg_access" "hs_read_states chat_sample_service"
    by (simp_all add: chat_sample_service_def)
  from mark_read_effect[OF run[unfolded ok] this d(1) all] d(2) us run show ?thesis by (metis fst_conv ok)
qed

end
