(* ===== verification/AccountTables.thy ===== *)
theory AccountTables
  imports Tables
begin

text \<open>
  Users, workspaces and guest invites (\<open>internal/domain/entity/user.go\<close>, \<open>workspace.go\<close>, \<open>guest.go\<close>) with the
  statements of \<open>internal/repository/postgres/user.go\<close>, \<open>workspace.go\<close> and \<open>guest.go\<close>. Members and grants are
  the tables of \<open>db\<close>; \<open>ut_fault\<close> says which statement on the tables here the driver fails.
\<close>

section \<open>Entities\<close>

datatype user_status = UserActive | UserSuspended | UserDeactivated

record user =
  acc_id :: uuid
  acc_email :: string
  acc_name :: string
  acc_avatar :: string
  acc_hash :: string
  acc_status :: user_status
  acc_locale :: string
  acc_created_at :: instant
  acc_updated_at :: instant

datatype workspace_kind = KindPersonal | KindOrganization | KindEmpty

record workspace =
  wsp_id :: uuid
  wsp_name :: string
  wsp_slug :: string
  wsp_kind :: workspace_kind
  wsp_avatar :: string
  wsp_created_by :: uuid
  wsp_created_at :: instant
  wsp_updated_at :: instant

datatype invite_status = InviteActive | InviteUsed | InviteExpired | InviteRevoked

record guest_invite =
  inv_id :: uuid
  inv_workspace :: uuid
  inv_created_by :: uuid
  inv_token :: string
  inv_email :: string
  inv_channels :: "uuid list"
  inv_max_uses :: int
  inv_use_count :: int
  inv_status :: invite_status
  inv_expires_at :: instant
  inv_created_at :: instant

definition invite_is_valid :: "guest_invite \<Rightarrow> instant \<Rightarrow> bool" where
  "invite_is_valid g now =
     (if inv_status g \<noteq> InviteActive then False
      else if now > inv_expires_at g then False
      else if inv_max_uses g > 0 \<and> inv_use_count g \<ge> inv_max_uses g then False
      else True)"

record account_tables =
  ut_users :: "user list"
  ut_workspaces :: "workspace list"
  ut_invites :: "guest_invite list"
  ut_fault :: "string \<Rightarrow> error option"

definition no_accounts :: account_tables where
  "no_accounts = \<lparr>ut_users = [], ut_workspaces = [], ut_invites = [], ut_fault = (\<lambda>_. None)\<rparr>"

section \<open>Users (user.go)\<close>

definition pg_create_user :: "user \<Rightarrow> account_tables \<Rightarrow> account_tables \<times> error option" where
  "pg_create_user u t =
     (case exec_insert (ut_fault t ''create user'')
             (list_ex (\<lambda>r. acc_id r = acc_id u \<or> acc_email r = acc_email u) (ut_users t)) of
        Some e \<Rightarrow> (t, Some (insert_error ''user already exists'' ''postgres: create user'' e))
      | None \<Rightarrow> (t\<lparr>ut_users := ut_users t @ [u]\<rparr>, None))"

definition pg_get_user :: "uuid \<Rightarrow> account_tables \<Rightarrow> user result" where
  "pg_get_user i t =
     query_row (ut_fault t ''get user by id'') ''user not found'' ''postgres: get user by id''
       (\<lambda>r. acc_id r = i) (ut_users t)"

definition pg_get_user_by_email :: "string \<Rightarrow> account_tables \<Rightarrow> user result" where
  "pg_get_user_by_email email t =
     query_row (ut_fault t ''get user by email'') ''user not found'' ''postgres: get user by email''
       (\<lambda>r. acc_email r = email) (ut_users t)"

text \<open>The statement names four columns; the locale is not among them.\<close>

definition pg_update_user :: "user \<Rightarrow> instant \<Rightarrow> account_tables \<Rightarrow> account_tables \<times> error option" where
  "pg_update_user u now t =
     (let P = (\<lambda>r. acc_id r = acc_id u) in
      case exec_affected (ut_fault t ''update user'') ''user not found'' ''postgres: update user'' P (ut_users t) of
        Some e \<Rightarrow> (t, Some e)
      | None \<Rightarrow>
          (t\<lparr>ut_users := update_rows P (\<lambda>r. r\<lparr>acc_name := acc_name u, acc_avatar := acc_avatar u,
                 acc_status := acc_status u, acc_updated_at := now\<rparr>) (ut_users t)\<rparr>, None))"

section \<open>Workspaces (workspace.go)\<close>

text \<open>The kind is not a column.\<close>

definition workspace_row :: "workspace \<Rightarrow> workspace" where
  "workspace_row ws = ws\<lparr>wsp_kind := KindEmpty\<rparr>"

definition workspace_clash :: "workspace \<Rightarrow> account_tables \<Rightarrow> bool" where
  "workspace_clash ws t = list_ex (\<lambda>r. wsp_id r = wsp_id ws \<or> wsp_slug r = wsp_slug ws) (ut_workspaces t)"

definition pg_create_workspace :: "workspace \<Rightarrow> account_tables \<Rightarrow> account_tables \<times> error option" where
  "pg_create_workspace ws t =
     (case exec_insert (ut_fault t ''create workspace'') (workspace_clash ws t) of
        Some e \<Rightarrow> (t, Some (insert_error ''workspace already exists'' ''postgres: create workspace'' e))
      | None \<Rightarrow> (t\<lparr>ut_workspaces := ut_workspaces t @ [workspace_row ws]\<rparr>, None))"

text \<open>\<open>CreateWithOwner\<close> runs both inserts in a transaction of its own, which any failure rolls back.\<close>

definition pg_create_with_owner ::
  "workspace \<Rightarrow> workspace_member \<Rightarrow> db \<Rightarrow> account_tables \<Rightarrow> (db \<times> account_tables) \<times> error option" where
  "pg_create_with_owner ws owner d t =
     (case ut_fault t ''begin create workspace'' of
        Some e \<Rightarrow> ((d, t), Some (Wrapped ''postgres: begin create workspace tx'' e))
      | None \<Rightarrow>
          (case exec_insert (ut_fault t ''create workspace in tx'') (workspace_clash ws t) of
             Some e \<Rightarrow> ((d, t), Some (insert_error ''workspace already exists'' ''postgres: create workspace in tx'' e))
           | None \<Rightarrow>
               (case exec_insert (ut_fault t ''create workspace owner in tx'')
                       (list_ex (\<lambda>r. wm_workspace r = wm_workspace owner \<and> wm_user r = wm_user owner
                                   \<or> wm_id r = wm_id owner) (db_members d)) of
                  Some e \<Rightarrow> ((d, t), Some (Wrapped ''postgres: create workspace owner in tx'' e))
                | None \<Rightarrow>
                    (case ut_fault t ''commit create workspace'' of
                       Some e \<Rightarrow> ((d, t), Some (Wrapped ''postgres: commit create workspace tx'' e))
                     | None \<Rightarrow>
                         ((d\<lparr>db_members := db_members d @ [owner]\<rparr>,
                           t\<lparr>ut_workspaces := ut_workspaces t @ [workspace_row ws]\<rparr>), None)))))"

definition pg_get_workspace :: "uuid \<Rightarrow> account_tables \<Rightarrow> workspace result" where
  "pg_get_workspace i t =
     query_row (ut_fault t ''get workspace by id'') ''workspace not found'' ''postgres: get workspace by id''
       (\<lambda>r. wsp_id r = i) (ut_workspaces t)"

definition pg_get_workspace_by_slug :: "string \<Rightarrow> account_tables \<Rightarrow> workspace result" where
  "pg_get_workspace_by_slug slug t =
     query_row (ut_fault t ''get workspace by slug'') ''workspace not found'' ''postgres: get workspace by slug''
       (\<lambda>r. wsp_slug r = slug) (ut_workspaces t)"

definition pg_list_workspaces :: "uuid \<Rightarrow> db \<Rightarrow> account_tables \<Rightarrow> workspace list result" where
  "pg_list_workspaces u d t =
     query_rows (ut_fault t ''list workspaces by user'') ''postgres: list workspaces by user''
       (sort_key wsp_name (concat (map (\<lambda>w. map (\<lambda>_. w)
           (filter (\<lambda>m. wm_workspace m = wsp_id w \<and> wm_user m = u) (db_members d))) (ut_workspaces t))))"

definition pg_update_workspace :: "workspace \<Rightarrow> instant \<Rightarrow> account_tables \<Rightarrow> account_tables \<times> error option" where
  "pg_update_workspace ws now t =
     (let P = (\<lambda>r. wsp_id r = wsp_id ws);
          clash = list_ex P (ut_workspaces t) \<and>
                  list_ex (\<lambda>r. \<not> P r \<and> wsp_slug r = wsp_slug ws) (ut_workspaces t) in
      case exec_insert (ut_fault t ''update workspace'') clash of
        Some e \<Rightarrow> (t, Some (insert_error ''workspace slug already exists'' ''postgres: update workspace'' e))
      | None \<Rightarrow>
          if list_ex P (ut_workspaces t)
          then (t\<lparr>ut_workspaces := update_rows P (\<lambda>r. r\<lparr>wsp_name := wsp_name ws, wsp_slug := wsp_slug ws,
                    wsp_avatar := wsp_avatar ws, wsp_updated_at := now\<rparr>) (ut_workspaces t)\<rparr>, None)
          else (t, Some (not_found ''workspace not found'')))"

text \<open>Members with their users, newest first; one row more than the limit is fetched and trimmed.\<close>

definition pg_list_members :: "uuid \<Rightarrow> page_params \<Rightarrow> db \<Rightarrow> account_tables \<Rightarrow> (workspace_member \<times> user) list result" where
  "pg_list_members w p0 d t =
     (let p = normalize_params p0;
          rows = filter (\<lambda>m. wm_workspace m = w \<and> (pp_cursor p \<noteq> uuid_nil \<longrightarrow> wm_id m < pp_cursor p)) (db_members d);
          joined = concat (map (\<lambda>m. map (\<lambda>u. (m, u)) (filter (\<lambda>u. acc_id u = wm_user m) (ut_users t)))
                       (rev (sort_key wm_id rows)));
          fetched = take (nat (pp_limit p + 1)) joined
      in query_rows (ut_fault t ''list workspace members'') ''postgres: list workspace members''
           (if int (length fetched) > pp_limit p then take (nat (pp_limit p)) fetched else fetched))"

section \<open>Guest invites (guest.go)\<close>

definition pg_create_invite :: "guest_invite \<Rightarrow> account_tables \<Rightarrow> account_tables \<times> error option" where
  "pg_create_invite g t =
     (case exec_insert (ut_fault t ''create guest invite'')
             (list_ex (\<lambda>r. inv_id r = inv_id g \<or> inv_token r = inv_token g) (ut_invites t)) of
        Some e \<Rightarrow> (t, Some (Wrapped ''postgres: create guest invite'' e))
      | None \<Rightarrow> (t\<lparr>ut_invites := ut_invites t @ [g]\<rparr>, None))"

definition pg_get_invite_by_token :: "string \<Rightarrow> account_tables \<Rightarrow> guest_invite result" where
  "pg_get_invite_by_token token t =
     query_row (ut_fault t ''get guest invite'') ''invite not found'' ''postgres: get guest invite''
       (\<lambda>r. inv_token r = token) (ut_invites t)"

definition pg_get_invite :: "uuid \<Rightarrow> account_tables \<Rightarrow> guest_invite result" where
  "pg_get_invite i t =
     query_row (ut_fault t ''get guest invite'') ''invite not found'' ''postgres: get guest invite''
       (\<lambda>r. inv_id r = i) (ut_invites t)"

definition usable_invite :: "uuid \<Rightarrow> guest_invite \<Rightarrow> bool" where
  "usable_invite i r \<longleftrightarrow> inv_id r = i \<and> inv_use_count r < inv_max_uses r \<and> inv_status r = InviteActive"

definition pg_increment_use_count :: "uuid \<Rightarrow> account_tables \<Rightarrow> account_tables \<times> error option" where
  "pg_increment_use_count i t =
     (case ut_fault t ''increment invite use count'' of
        Some e \<Rightarrow> (t, Some (Wrapped ''postgres: increment invite use count'' e))
      | None \<Rightarrow>
          if list_ex (usable_invite i) (ut_invites t)
          then (t\<lparr>ut_invites := update_rows (usable_invite i) (\<lambda>r. r\<lparr>inv_use_count := inv_use_count r + 1\<rparr>) (ut_invites t)\<rparr>, None)
          else (t, Some (forbidden ''invite has reached its maximum number of uses or is no longer active'')))"

definition pg_revoke_invite :: "uuid \<Rightarrow> account_tables \<Rightarrow> account_tables \<times> error option" where
  "pg_revoke_invite i t =
     (let P = (\<lambda>r. inv_id r = i) in
      case exec_affected (ut_fault t ''revoke guest invite'') ''invite not found'' ''postgres: revoke guest invite''
             P (ut_invites t) of
        Some e \<Rightarrow> (t, Some e)
      | None \<Rightarrow> (t\<lparr>ut_invites := update_rows P (\<lambda>r. r\<lparr>inv_status := InviteRevoked\<rparr>) (ut_invites t)\<rparr>, None))"

definition pg_list_invites :: "uuid \<Rightarrow> account_tables \<Rightarrow> guest_invite list result" where
  "pg_list_invites w t =
     query_rows (ut_fault t ''list guest invites'') ''postgres: list guest invites''
       (rev (sort_key inv_created_at (filter (\<lambda>r. inv_workspace r = w) (ut_invites t))))"

end
