(* ===== verification/Sessions.thy ===== *)
theory Sessions
  imports Steps
begin

text \<open>
  The session manager of \<open>internal/service/auth/session.go\<close> over Redis. Three families of keys, kept apart by
  their prefixes in the code, are three maps here: \<open>session:\<close> (the session as JSON), \<open>refresh:\<close> (the hash of a
  refresh token to the session identifier) and \<open>user_sessions:\<close> (the identifiers of a user's sessions). A key
  with an expiry is not seen once the clock has passed it.

  Every round trip to Redis takes the next outcome of the script \<open>ky_steps\<close>: \<open>None\<close>, or \<open>Some (n, e)\<close>: the
  connection fails with \<open>e\<close> after the first \<open>n\<close> commands of the pipeline have been applied. Encoding a session
  as JSON does not fail and reads back as the same session; \<open>Garbled\<close> stands for any other stored text. The
  clock stands still within an operation.
\<close>

section \<open>Keys\<close>

record session_row =
  ses_id :: string
  ses_user :: string
  ses_hash :: string
  ses_device :: string
  ses_ip :: string
  ses_created :: instant
  ses_expires :: instant
  ses_active :: instant

record session =
  se_id :: string
  se_user :: string
  se_refresh_token :: string
  se_device :: string
  se_ip :: string
  se_created_at :: instant
  se_expires_at :: instant
  se_last_active_at :: instant

definition to_session :: "session_row \<Rightarrow> session" where
  "to_session r =
     \<lparr>se_id = ses_id r, se_user = ses_user r, se_refresh_token = [], se_device = ses_device r, se_ip = ses_ip r,
      se_created_at = ses_created r, se_expires_at = ses_expires r, se_last_active_at = ses_active r\<rparr>"

datatype stored_session = Stored session_row | Garbled string

record session_revoked_event =
  sre_session :: string
  sre_user :: uuid
  sre_timestamp :: instant

record session_keys =
  ky_sessions :: "string \<Rightarrow> (stored_session \<times> instant option) option"
  ky_refresh :: "string \<Rightarrow> (string \<times> instant option) option"
  ky_users :: "string \<Rightarrow> string list"
  ky_pending :: "string list"
  ky_revoked :: "session_revoked_event list"
  ky_steps :: "(nat \<times> error) option list"
  ky_now :: instant
  ky_next_id :: uuid
  ky_draws :: nat

text \<open>
  The manager. Randomness, SHA-256, the text of a UUID and its parsing are parameters, as is the order in which
  \<open>SMEMBERS\<close> lists a set and the answer of the publisher behind the notifier.
\<close>

record session_manager =
  sm_max :: int
  sm_ttl :: duration
  sm_notifier :: "(session_revoked_event \<Rightarrow> error option) option"
  sm_random :: "nat \<Rightarrow> string result"
  sm_sha256 :: "string \<Rightarrow> string"
  sm_uuid_text :: "uuid \<Rightarrow> string"
  sm_uuid_parse :: "string \<Rightarrow> uuid result"
  sm_members :: "string list \<Rightarrow> string list"

definition new_session_manager :: "int \<Rightarrow> duration \<Rightarrow> session_manager \<Rightarrow> session_manager" where
  "new_session_manager limit ttl sm = sm\<lparr>sm_max := if limit \<le> 0 then 5 else limit, sm_ttl := ttl, sm_notifier := None\<rparr>"

definition set_notifier :: "(session_revoked_event \<Rightarrow> error option) \<Rightarrow> session_manager \<Rightarrow> session_manager" where
  "set_notifier f sm = sm\<lparr>sm_notifier := Some f\<rparr>"

type_synonym 'a key_step = "(session_keys, 'a) action"

section \<open>Round trips\<close>

definition key_outcome :: "session_keys \<Rightarrow> (nat \<times> error) option" where
  "key_outcome k = (case ky_steps k of [] \<Rightarrow> None | x # _ \<Rightarrow> x)"

definition advance :: "session_keys \<Rightarrow> session_keys" where
  "advance k = k\<lparr>ky_steps := tl (ky_steps k)\<rparr>"

fun unexpired :: "instant \<Rightarrow> ('v \<times> instant option) option \<Rightarrow> 'v option" where
  "unexpired now None = None"
| "unexpired now (Some (v, None)) = Some v"
| "unexpired now (Some (v, Some t)) = (if now \<le> t then Some v else None)"

definition live_session :: "string \<Rightarrow> session_keys \<Rightarrow> stored_session option" where
  "live_session i k = unexpired (ky_now k) (ky_sessions k i)"

definition live_refresh :: "string \<Rightarrow> session_keys \<Rightarrow> string option" where
  "live_refresh h k = unexpired (ky_now k) (ky_refresh k h)"

definition key_get :: "(session_keys \<Rightarrow> 'v option) \<Rightarrow> 'v key_step" where
  "key_get f k =
     (case key_outcome k of
        Some (n, e) \<Rightarrow> (advance k, Err e)
      | None \<Rightarrow> (advance k, case f k of None \<Rightarrow> Err RedisNil | Some v \<Rightarrow> Ok v))"

definition key_members :: "session_manager \<Rightarrow> string \<Rightarrow> string list key_step" where
  "key_members sm u k =
     (case key_outcome k of
        Some (n, e) \<Rightarrow> (advance k, Err e)
      | None \<Rightarrow> (advance k, Ok (sm_members sm (ky_users k u))))"

fun apply_commands :: "(session_keys \<Rightarrow> session_keys) list \<Rightarrow> session_keys \<Rightarrow> session_keys" where
  "apply_commands [] k = k"
| "apply_commands (c # cs) k = apply_commands cs (c k)"

definition key_exec :: "(session_keys \<Rightarrow> session_keys) list \<Rightarrow> unit key_step" where
  "key_exec cs k =
     (case key_outcome k of
        Some (n, e) \<Rightarrow> (apply_commands (take n cs) (advance k), Err e)
      | None \<Rightarrow> (apply_commands cs (advance k), Ok ()))"

text \<open>Commands. A time to live that is not positive leaves the key without expiry.\<close>

definition expiry :: "session_keys \<Rightarrow> duration \<Rightarrow> instant option" where
  "expiry k ttl = (if 0 < ttl then Some (ky_now k + ttl) else None)"

definition set_session :: "string \<Rightarrow> session_row \<Rightarrow> duration \<Rightarrow> session_keys \<Rightarrow> session_keys" where
  "set_session i row ttl k = k\<lparr>ky_sessions := (ky_sessions k)(i \<mapsto> (Stored row, expiry k ttl))\<rparr>"

definition del_session :: "string \<Rightarrow> session_keys \<Rightarrow> session_keys" where
  "del_session i k = k\<lparr>ky_sessions := (ky_sessions k)(i := None)\<rparr>"

definition set_refresh :: "string \<Rightarrow> string \<Rightarrow> duration \<Rightarrow> session_keys \<Rightarrow> session_keys" where
  "set_refresh h i ttl k = k\<lparr>ky_refresh := (ky_refresh k)(h \<mapsto> (i, expiry k ttl))\<rparr>"

definition del_refresh :: "string \<Rightarrow> session_keys \<Rightarrow> session_keys" where
  "del_refresh h k = k\<lparr>ky_refresh := (ky_refresh k)(h := None)\<rparr>"

definition sadd :: "string \<Rightarrow> string \<Rightarrow> session_keys \<Rightarrow> session_keys" where
  "sadd u i k = k\<lparr>ky_users := (ky_users k)(u := if i \<in> set (ky_users k u) then ky_users k u else ky_users k u @ [i])\<rparr>"

definition srem :: "string \<Rightarrow> string \<Rightarrow> session_keys \<Rightarrow> session_keys" where
  "srem u i k = k\<lparr>ky_users := (ky_users k)(u := filter (\<lambda>x. x \<noteq> i) (ky_users k u))\<rparr>"

definition del_user_set :: "string \<Rightarrow> session_keys \<Rightarrow> session_keys" where
  "del_user_set u k = k\<lparr>ky_users := (ky_users k)(u := [])\<rparr>"

fun unmarshal_session :: "stored_session \<Rightarrow> session_row result" where
  "unmarshal_session (Stored row) = Ok row"
| "unmarshal_session (Garbled m) = Err (PlainError m)"

section \<open>Tokens\<close>

definition hex_digit :: "nat \<Rightarrow> char" where
  "hex_digit n = (''0123456789abcdef'' ! n)"

fun hex_encode :: "string \<Rightarrow> string" where
  "hex_encode [] = []"
| "hex_encode (c # cs) = hex_digit (of_char c div 16) # hex_digit (of_char c mod 16) # hex_encode cs"

definition hash_token :: "session_manager \<Rightarrow> string \<Rightarrow> string" where
  "hash_token sm token = hex_encode (sm_sha256 sm token)"

definition generate_refresh_token :: "session_manager \<Rightarrow> (string \<times> string) key_step" where
  "generate_refresh_token sm k =
     (k\<lparr>ky_draws := ky_draws k + 1\<rparr>,
      case sm_random sm (ky_draws k) of
        Err e \<Rightarrow> Err (Wrapped ''generate random bytes'' e)
      | Ok b \<Rightarrow> Ok (hex_encode b, hash_token sm (hex_encode b)))"

definition new_session_id :: "session_manager \<Rightarrow> string key_step" where
  "new_session_id sm k = (k\<lparr>ky_next_id := ky_next_id k + 1\<rparr>, Ok (sm_uuid_text sm (ky_next_id k)))"

definition session_clock :: "instant key_step" where
  "session_clock k = (k, Ok (ky_now k))"

section \<open>Revocation\<close>

text \<open>\<open>PubSubSessionNotifier.SessionRevoked\<close>; \<open>Revoke\<close> only logs its failure.\<close>

definition session_revoked :: "(session_revoked_event \<Rightarrow> error option) \<Rightarrow> string \<Rightarrow> uuid \<Rightarrow> unit key_step" where
  "session_revoked publish i u k =
     (if i = [] \<or> u = uuid_nil then (k, Ok ())
      else let e = \<lparr>sre_session = i, sre_user = u, sre_timestamp = ky_now k\<rparr> in
        (case publish e of
           Some err \<Rightarrow> (k, Err (Wrapped ''publish session revoked event'' err))
         | None \<Rightarrow> (k\<lparr>ky_revoked := ky_revoked k @ [e]\<rparr>, Ok ())))"

definition notify_revoked :: "session_manager \<Rightarrow> string \<Rightarrow> string \<Rightarrow> unit key_step" where
  "notify_revoked sm i user =
     (case sm_notifier sm of
        None \<Rightarrow> return ()
      | Some publish \<Rightarrow>
          (case sm_uuid_parse sm user of
             Err e \<Rightarrow> return ()
           | Ok u \<Rightarrow> ignore_err (session_revoked publish i u)))"

text \<open>\<open>Revoke\<close> in two parts: the lookup, and what it does to the session it found.\<close>

definition revoke_found :: "session_manager \<Rightarrow> string \<Rightarrow> session_row \<Rightarrow> unit key_step" where
  "revoke_found sm i row =
     and_then (map_err (Wrapped ''revoke session in redis'')
       (key_exec [del_session i, del_refresh (ses_hash row), srem (ses_user row) i])) (\<lambda>_.
     notify_revoked sm i (ses_user row))"

definition revoke :: "session_manager \<Rightarrow> string \<Rightarrow> unit key_step" where
  "revoke sm i k =
     (case key_get (live_session i) k of
        (k1, Err e) \<Rightarrow> (k1, if e = RedisNil then Ok () else Err (Wrapped ''lookup session for revocation'' e))
      | (k1, Ok v) \<Rightarrow>
          (and_then (map_err (Wrapped ''unmarshal session'') (from_read (\<lambda>_. unmarshal_session v))) (revoke_found sm i)) k1)"

fun revoke_each :: "session_manager \<Rightarrow> string list \<Rightarrow> unit key_step" where
  "revoke_each sm [] = return ()"
| "revoke_each sm (i # ids) = and_then (ignore_err (revoke sm i)) (\<lambda>_. revoke_each sm ids)"

definition revoke_all_user_sessions :: "session_manager \<Rightarrow> string \<Rightarrow> unit key_step" where
  "revoke_all_user_sessions sm u =
     and_then (map_err (Wrapped ''list user sessions'') (key_members sm u)) (\<lambda>ids.
     and_then (revoke_each sm ids) (\<lambda>_.
     map_err (Wrapped ''delete user session set'') (key_exec [del_user_set u])))"

section \<open>Creation\<close>

text \<open>The sessions of a user that can be read, with their creation times; expired ones leave the set.\<close>

fun load_sessions :: "string \<Rightarrow> string list \<Rightarrow> (string \<times> instant) list key_step" where
  "load_sessions u [] = return []"
| "load_sessions u (i # ids) = (\<lambda>k.
     (case key_get (live_session i) k of
        (k1, Err e) \<Rightarrow>
          if e = RedisNil then load_sessions u ids (fst (key_exec [srem u i] k1)) else load_sessions u ids k1
      | (k1, Ok v) \<Rightarrow>
          (case unmarshal_session v of
             Err e \<Rightarrow> load_sessions u ids k1
           | Ok row \<Rightarrow> and_then (load_sessions u ids) (\<lambda>xs. return ((i, ses_created row) # xs)) k1)))"

text \<open>\<open>sort.Slice\<close> may order equal times in any way; so does the order in which Redis lists the set.\<close>

definition enforce_max_sessions :: "session_manager \<Rightarrow> string \<Rightarrow> unit key_step" where
  "enforce_max_sessions sm u =
     and_then (map_err (Wrapped ''list user sessions'') (key_members sm u)) (\<lambda>ids.
     if int (length ids) \<le> sm_max sm then return ()
     else and_then (load_sessions u ids) (\<lambda>loaded.
       if int (length loaded) \<le> sm_max sm then return ()
       else revoke_each sm (map fst (take (nat (int (length loaded) - sm_max sm)) (sort_key snd loaded)))))"

definition new_session_row :: "session_manager \<Rightarrow> string \<Rightarrow> string \<Rightarrow> string \<Rightarrow> string \<Rightarrow> string \<Rightarrow> instant \<Rightarrow> session_row" where
  "new_session_row sm i user hash device ip now =
     \<lparr>ses_id = i, ses_user = user, ses_hash = hash, ses_device = device, ses_ip = ip, ses_created = now,
      ses_expires = now + sm_ttl sm, ses_active = now\<rparr>"

definition create_session :: "session_manager \<Rightarrow> string \<Rightarrow> string \<Rightarrow> string \<Rightarrow> (session \<times> string) key_step" where
  "create_session sm user device ip =
     and_then (map_err (Wrapped ''generate refresh token'') (generate_refresh_token sm)) (\<lambda>(token, hash).
     and_then session_clock (\<lambda>now.
     and_then (new_session_id sm) (\<lambda>i.
     let row = new_session_row sm i user hash device ip now in
     and_then (map_err (Wrapped ''store session in redis'')
       (key_exec [set_session i row (sm_ttl sm), set_refresh hash i (sm_ttl sm), sadd user i])) (\<lambda>_.
     and_then (ignore_err (enforce_max_sessions sm user)) (\<lambda>_.
     return (to_session row, token))))))"

section \<open>Refresh tokens\<close>

text \<open>The time left, as \<open>time.Until\<close> reads it.\<close>

definition time_left :: "session_row \<Rightarrow> instant \<Rightarrow> duration" where
  "time_left row now = ses_expires row - now"

definition named_missing :: "string \<Rightarrow> string \<Rightarrow> error \<Rightarrow> error" where
  "named_missing missing msg e = (if e = RedisNil then PlainError missing else Wrapped msg e)"

definition validate_refresh_token :: "session_manager \<Rightarrow> string \<Rightarrow> session key_step" where
  "validate_refresh_token sm token =
     and_then (map_err (named_missing ''refresh token not found or expired'' ''lookup refresh token'')
       (key_get (live_refresh (hash_token sm token)))) (\<lambda>i.
     and_then (map_err (named_missing ''session not found or expired'' ''lookup session'') (key_get (live_session i))) (\<lambda>v.
     and_then (map_err (Wrapped ''unmarshal session'') (from_read (\<lambda>_. unmarshal_session v))) (\<lambda>row.
     and_then session_clock (\<lambda>now.
     if now > ses_expires row
     then and_then (ignore_err (revoke sm i)) (\<lambda>_. fail (PlainError ''session expired''))
     else let row' = row\<lparr>ses_active := now\<rparr> in
       and_then (if 0 < time_left row' now
                 then map_err (Wrapped ''touch session'') (key_exec [set_session i row' (time_left row' now)])
                 else return ()) (\<lambda>_.
       return (to_session row'))))))"

definition rotate_refresh_token :: "session_manager \<Rightarrow> string \<Rightarrow> string key_step" where
  "rotate_refresh_token sm i =
     and_then (map_err (Wrapped ''lookup session'') (key_get (live_session i))) (\<lambda>v.
     and_then (map_err (Wrapped ''unmarshal session'') (from_read (\<lambda>_. unmarshal_session v))) (\<lambda>row.
     and_then (map_err (Wrapped ''generate new refresh token'') (generate_refresh_token sm)) (\<lambda>(token, hash).
     and_then session_clock (\<lambda>now.
     let row' = row\<lparr>ses_hash := hash, ses_active := now\<rparr> in
     and_then (guard (time_left row' now \<le> 0) (PlainError ''session expired'')) (\<lambda>_.
     and_then (map_err (Wrapped ''rotate refresh token in redis'')
       (key_exec [del_refresh (ses_hash row), set_session i row' (time_left row' now),
                  set_refresh hash i (time_left row' now)])) (\<lambda>_.
     return token))))))"

section \<open>Reading and touching\<close>

fun list_sessions_loop :: "session_manager \<Rightarrow> string \<Rightarrow> string list \<Rightarrow> session list key_step" where
  "list_sessions_loop sm u [] = return []"
| "list_sessions_loop sm u (i # ids) = (\<lambda>k.
     (case key_get (live_session i) k of
        (k1, Err e) \<Rightarrow>
          if e = RedisNil then list_sessions_loop sm u ids (fst (key_exec [srem u i] k1)) else list_sessions_loop sm u ids k1
      | (k1, Ok v) \<Rightarrow>
          (case unmarshal_session v of
             Err e \<Rightarrow> list_sessions_loop sm u ids k1
           | Ok row \<Rightarrow>
               if ky_now k1 > ses_expires row then list_sessions_loop sm u ids (fst (revoke sm i k1))
               else and_then (list_sessions_loop sm u ids) (\<lambda>xs. return (to_session row # xs)) k1)))"

definition list_user_sessions :: "session_manager \<Rightarrow> string \<Rightarrow> session list key_step" where
  "list_user_sessions sm u =
     and_then (map_err (Wrapped ''list user sessions'') (key_members sm u)) (\<lambda>ids.
     and_then (list_sessions_loop sm u ids) (\<lambda>xs.
     return (sort_key (\<lambda>s. - se_last_active_at s) xs)))"

definition is_session_valid :: "string \<Rightarrow> bool key_step" where
  "is_session_valid i k =
     (case key_get (live_session i) k of
        (k1, Err e) \<Rightarrow> (k1, if e = RedisNil then Ok False else Err (Wrapped ''check session validity'' e))
      | (k1, Ok v) \<Rightarrow>
          (k1, case unmarshal_session v of
             Err e \<Rightarrow> Err (Wrapped ''unmarshal session'' e)
           | Ok row \<Rightarrow> Ok (\<not> ky_now k1 > ses_expires row)))"

definition touch_session :: "string \<Rightarrow> unit key_step" where
  "touch_session i =
     and_then (map_err (Wrapped ''lookup session for touch'') (key_get (live_session i))) (\<lambda>v.
     and_then (map_err (Wrapped ''unmarshal session'') (from_read (\<lambda>_. unmarshal_session v))) (\<lambda>row.
     and_then session_clock (\<lambda>now.
     let row' = row\<lparr>ses_active := now\<rparr> in
     and_then (guard (time_left row' now \<le> 0) (PlainError ''session expired'')) (\<lambda>_.
     key_exec [set_session i row' (time_left row' now)]))))"

definition defer_touch :: "string \<Rightarrow> session_keys \<Rightarrow> session_keys" where
  "defer_touch i k = k\<lparr>ky_pending := if i \<in> set (ky_pending k) then ky_pending k else ky_pending k @ [i]\<rparr>"

text \<open>
  \<open>flushTouches\<close>: the pending identifiers are taken, their sessions read in one pipeline and written back in
  another. The two halves are separate steps: requests run between them.
\<close>

definition flush_read :: "session_keys \<Rightarrow> session_keys \<times> (string \<times> stored_session option) list" where
  "flush_read k =
     (let ids = ky_pending k; k0 = k\<lparr>ky_pending := []\<rparr> in
      if ids = [] then (k0, [])
      else case key_outcome k0 of
        Some (n, e) \<Rightarrow>
          if e \<noteq> RedisNil then (foldl (\<lambda>s i. defer_touch i s) (advance k0) ids, [])
          else (advance k0, map (\<lambda>i. (i, live_session i k0)) ids)
      | None \<Rightarrow> (advance k0, map (\<lambda>i. (i, live_session i k0)) ids))"

fun touched :: "instant \<Rightarrow> string \<times> stored_session option \<Rightarrow> (session_keys \<Rightarrow> session_keys) list" where
  "touched now (i, Some (Stored row)) =
     (if time_left row now \<le> 0 then [] else [set_session i (row\<lparr>ses_active := now\<rparr>) (time_left row now)])"
| "touched now (i, _) = []"

definition flush_write :: "(string \<times> stored_session option) list \<Rightarrow> session_keys \<Rightarrow> session_keys" where
  "flush_write got k =
     (let cs = concat (map (touched (ky_now k)) got) in
      if cs = [] then k else fst (key_exec cs k))"

definition flush_touches :: "session_keys \<Rightarrow> session_keys" where
  "flush_touches k = (case flush_read k of (k1, got) \<Rightarrow> flush_write got k1)"

end
