(* ===== verification/Auth.thy ===== *)
theory Auth
  imports AccountTables Sessions SearchService ChatService
begin

text \<open>
  The authentication service (\<open>internal/service/auth/service.go\<close>): registration, profiles, workspaces, login,
  refresh, logout and the validation of access tokens, with the HTTP middleware that calls it
  (\<open>internal/middleware/auth.go\<close>). The world holds the accounts, the membership tables, the session keys and the
  search queue; the clock is the one of the session keys.

  bcrypt, JSON web tokens and the validator are libraries and parameters of the model, as are the Unicode classes
  of runes beyond ASCII. The token library signs and parses payloads: its own registered claims, with dates in whole
  seconds, and the private claims of the code as a JSON object; what the structs of the code make of that object, tag
  by tag, is translated here. \<open>jwt_parse\<close> is given the callback that chooses the key, as in the code. The
  private claims are texts, numbers or null; other JSON values are left out.
\<close>

section \<open>World and service\<close>

record auth_world =
  aw_db :: db
  aw_accounts :: account_tables
  aw_keys :: session_keys
  aw_search :: search_store
  aw_next_id :: uuid

type_synonym 'a auth_step = "(auth_world, 'a) action"

datatype rune_class = RuneUpper | RuneLower | RuneDigit | RuneSpecial | RunePlain

datatype json_value = JText string | JNumber int | JNull

record jwt_payload =
  jp_subject :: string
  jp_issued_at :: "int option"
  jp_expires_at :: "int option"
  jp_not_before :: "int option"
  jp_private :: "(string \<times> json_value) list"

record token_claims =
  tc_subject :: string
  tc_session :: string
  tc_kind :: string
  tc_guest_session :: string
  tc_workspace :: string
  tc_call :: string

record jwt_header =
  jh_hmac :: bool
  jh_alg :: string

record auth_service =
  av_sessions :: session_manager
  av_secret :: string
  av_access_ttl :: duration
  av_search :: "search_repo option"
  av_validator :: validator
  av_rune_class :: "nat \<Rightarrow> rune_class"
  av_bcrypt :: "string \<Rightarrow> string result"
  av_compare :: "string \<Rightarrow> string \<Rightarrow> error option"
  av_numeric_date :: "instant \<Rightarrow> int"
  av_jwt_sign :: "string \<Rightarrow> jwt_payload \<Rightarrow> string result"
  av_jwt_parse :: "(jwt_header \<Rightarrow> string result) \<Rightarrow> instant \<Rightarrow> string \<Rightarrow> (bool \<times> jwt_payload) result"

definition new_auth_service :: "duration \<Rightarrow> duration \<Rightarrow> auth_service \<Rightarrow> auth_service" where
  "new_auth_service access refresh s =
     s\<lparr>av_sessions := new_session_manager 5 refresh (av_sessions s), av_access_ttl := access\<rparr>"

definition auth_accounts :: "(account_tables \<Rightarrow> account_tables \<times> error option) \<Rightarrow> unit auth_step" where
  "auth_accounts f w = (case f (aw_accounts w) of (t, e) \<Rightarrow> (w\<lparr>aw_accounts := t\<rparr>, unit_result e))"

definition auth_db :: "(db \<Rightarrow> db \<times> error option) \<Rightarrow> unit auth_step" where
  "auth_db f w = (case f (aw_db w) of (d, e) \<Rightarrow> (w\<lparr>aw_db := d\<rparr>, unit_result e))"

definition auth_keys :: "'a key_step \<Rightarrow> 'a auth_step" where
  "auth_keys m w = (case m (aw_keys w) of (k, r) \<Rightarrow> (w\<lparr>aw_keys := k\<rparr>, r))"

definition auth_new_id :: "uuid auth_step" where
  "auth_new_id w = (w\<lparr>aw_next_id := aw_next_id w + 1\<rparr>, Ok (aw_next_id w))"

definition auth_clock :: "instant auth_step" where
  "auth_clock w = (w, Ok (ky_now (aw_keys w)))"

definition auth_search :: "auth_service \<Rightarrow> (search_repo \<Rightarrow> search_store \<Rightarrow> search_store \<times> error option) \<Rightarrow> unit auth_step" where
  "auth_search s f w =
     (case av_search s of
        None \<Rightarrow> (w, Ok ())
      | Some r \<Rightarrow> (w\<lparr>aw_search := fst (f r (aw_search w))\<rparr>, Ok ()))"

section \<open>Passwords\<close>

text \<open>The runes of a string; an invalid byte is read as the replacement character.\<close>

definition rune_value :: "string \<Rightarrow> nat" where
  "rune_value s =
     (case map of_char s of
        [a] \<Rightarrow> a
      | [a, b] \<Rightarrow> (a - 0xC0) * 64 + (b - 0x80)
      | [a, b, c] \<Rightarrow> (a - 0xE0) * 4096 + (b - 0x80) * 64 + (c - 0x80)
      | [a, b, c, d] \<Rightarrow> (a - 0xF0) * 262144 + (b - 0x80) * 4096 + (c - 0x80) * 64 + (d - 0x80)
      | _ \<Rightarrow> 0xFFFD)"

function runes :: "string \<Rightarrow> nat list" where
  "runes s =
     (if s = [] then []
      else case rune_size s of
        None \<Rightarrow> 0xFFFD # runes (tl s)
      | Some n \<Rightarrow> rune_value (take n s) # runes (drop n s))"
  by pat_completeness auto
termination by (relation "measure length") (auto dest: rune_size_pos)

declare runes.simps [simp del]

definition rune_class_of :: "auth_service \<Rightarrow> nat \<Rightarrow> rune_class" where
  "rune_class_of s r =
     (if 65 \<le> r \<and> r \<le> 90 then RuneUpper
      else if 97 \<le> r \<and> r \<le> 122 then RuneLower
      else if 48 \<le> r \<and> r \<le> 57 then RuneDigit
      else if 33 \<le> r \<and> r \<le> 126 then RuneSpecial
      else if r < 128 then RunePlain
      else av_rune_class s r)"

definition validate_password_policy :: "auth_service \<Rightarrow> string \<Rightarrow> error option" where
  "validate_password_policy s password =
     (let classes = map (rune_class_of s) (runes password) in
      if length password < 8 then Some (invalid_input ''password must be at least 8 characters'')
      else if length password > 128 then Some (invalid_input ''password must be at most 128 characters'')
      else if RuneUpper \<notin> set classes then Some (invalid_input ''password must contain at least one uppercase letter'')
      else if RuneLower \<notin> set classes then Some (invalid_input ''password must contain at least one lowercase letter'')
      else if RuneDigit \<notin> set classes then Some (invalid_input ''password must contain at least one digit'')
      else if RuneSpecial \<notin> set classes then Some (invalid_input ''password must contain at least one special character'')
      else None)"

definition pre_hash :: "auth_service \<Rightarrow> string \<Rightarrow> string" where
  "pre_hash s password = hex_encode (sm_sha256 (av_sessions s) password)"

definition hash_password :: "auth_service \<Rightarrow> string \<Rightarrow> string result" where
  "hash_password s password = av_bcrypt s (pre_hash s password)"

definition verify_password :: "auth_service \<Rightarrow> string \<Rightarrow> string \<Rightarrow> error option" where
  "verify_password s password stored = av_compare s stored (pre_hash s password)"

section \<open>Registration and profiles\<close>

definition register_input :: "string \<Rightarrow> string \<Rightarrow> string \<Rightarrow> (string \<times> string \<times> string) list" where
  "register_input email password name =
     [(''Email'', ''required,email,max=255'', email), (''Password'', ''required,min=8,max=128'', password),
      (''DisplayName'', ''required,min=1,max=100'', name)]"

definition login_input :: "string \<Rightarrow> string \<Rightarrow> (string \<times> string \<times> string) list" where
  "login_input email password = [(''Email'', ''required,email'', email), (''Password'', ''required'', password)]"

text \<open>The user with an address, if there is one; any error but a missing row ends the request.\<close>

definition existing_user :: "string \<Rightarrow> string \<Rightarrow> auth_world \<Rightarrow> user option result" where
  "existing_user msg email w =
     (case pg_get_user_by_email email (aw_accounts w) of
        Ok u \<Rightarrow> Ok (Some u)
      | Err e \<Rightarrow> if app_code e = Some CodeNotFound then Ok None else Err (internal_err msg e))"

definition new_user :: "uuid \<Rightarrow> string \<Rightarrow> string \<Rightarrow> string \<Rightarrow> instant \<Rightarrow> user" where
  "new_user i email name hash now =
     \<lparr>acc_id = i, acc_email = email, acc_name = name, acc_avatar = [], acc_hash = hash, acc_status = UserActive,
      acc_locale = ''en'', acc_created_at = now, acc_updated_at = now\<rparr>"

definition register :: "auth_service \<Rightarrow> string \<Rightarrow> string \<Rightarrow> string \<Rightarrow> user auth_step" where
  "register s email password name =
     and_then (check (\<lambda>_. validate_struct (av_validator s) (register_input email password name))) (\<lambda>_.
     and_then (check (\<lambda>_. validate_password_policy s password)) (\<lambda>_.
     and_then (from_read (existing_user ''failed to check existing user'' email)) (\<lambda>existing.
     and_then (guard (existing \<noteq> None) (already_exists ''user with this email already exists'')) (\<lambda>_.
     and_then (map_err (internal_err ''failed to hash password'') (from_read (\<lambda>_. hash_password s password))) (\<lambda>hash.
     and_then auth_clock (\<lambda>now.
     and_then auth_new_id (\<lambda>i.
     and_then (map_err (internal_err ''failed to create user'') (auth_accounts (pg_create_user (new_user i email name hash now)))) (\<lambda>_.
     return (new_user i email name hash now)))))))))"

definition get_user :: "uuid \<Rightarrow> auth_world \<Rightarrow> user result" where
  "get_user i w =
     (case pg_get_user i (aw_accounts w) of
        Ok u \<Rightarrow> Ok u
      | Err e \<Rightarrow> Err (missing_or (not_found ''user not found'') ''failed to fetch user'' e))"

record profile_input =
  pi_name :: "string option"
  pi_avatar :: "string option"
  pi_locale :: "string option"

definition apply_name :: "string option \<Rightarrow> user \<Rightarrow> user result" where
  "apply_name x u =
     (case x of
        None \<Rightarrow> Ok u
      | Some n \<Rightarrow>
          if trim_space n = [] then Err (invalid_input ''display_name cannot be empty'')
          else if length (trim_space n) > 100 then Err (invalid_input ''display_name must be at most 100 characters'')
          else Ok (u\<lparr>acc_name := trim_space n\<rparr>))"

definition apply_avatar :: "string option \<Rightarrow> user \<Rightarrow> user result" where
  "apply_avatar x u =
     (case x of
        None \<Rightarrow> Ok u
      | Some a \<Rightarrow>
          if length (trim_space a) > 2048 then Err (invalid_input ''avatar_url must be at most 2048 characters'')
          else Ok (u\<lparr>acc_avatar := trim_space a\<rparr>))"

definition apply_locale :: "string option \<Rightarrow> user \<Rightarrow> user result" where
  "apply_locale x u =
     (case x of
        None \<Rightarrow> Ok u
      | Some l \<Rightarrow>
          if length (trim_space l) < 2 \<or> length (trim_space l) > 16
          then Err (invalid_input ''locale must be between 2 and 16 characters'')
          else Ok (u\<lparr>acc_locale := trim_space l\<rparr>))"

fun reindex_user :: "auth_service \<Rightarrow> user \<Rightarrow> workspace list \<Rightarrow> unit auth_step" where
  "reindex_user s u [] = return ()"
| "reindex_user s u (w # ws) =
     and_then (auth_search s (\<lambda>r. index_user r (wsp_id w) (acc_id u) (acc_name u) (acc_email u) (acc_created_at u) (acc_updated_at u)))
       (\<lambda>_. reindex_user s u ws)"

definition update_profile :: "auth_service \<Rightarrow> uuid \<Rightarrow> profile_input \<Rightarrow> user auth_step" where
  "update_profile s i input =
     and_then (guard (pi_name input = None \<and> pi_avatar input = None \<and> pi_locale input = None)
       (invalid_input ''at least one profile field must be provided'')) (\<lambda>_.
     and_then (from_read (get_user i)) (\<lambda>u0.
     and_then (from_read (\<lambda>_. result_bind (apply_name (pi_name input) u0) (\<lambda>u1.
                result_bind (apply_avatar (pi_avatar input) u1) (apply_locale (pi_locale input))))) (\<lambda>u1.
     and_then auth_clock (\<lambda>now.
     let u = u1\<lparr>acc_updated_at := now\<rparr> in
     and_then (map_err (internal_err ''failed to update user profile'') (auth_accounts (pg_update_user u now))) (\<lambda>_.
     and_then
       (if av_search s = None then return ()
        else (\<lambda>w. case pg_list_workspaces i (aw_db w) (aw_accounts w) of
                Err e \<Rightarrow> (w, Ok ())
              | Ok ws \<Rightarrow> reindex_user s u ws w)) (\<lambda>_.
     return u))))))"

section \<open>Workspaces\<close>

record workspace_input =
  wi_name :: string
  wi_slug :: string
  wi_avatar :: string

fun slug_loop :: "string \<Rightarrow> bool \<Rightarrow> string \<Rightarrow> string" where
  "slug_loop out hyphen [] = out"
| "slug_loop out hyphen (c # cs) =
     (if CHR ''a'' \<le> c \<and> c \<le> CHR ''z'' \<or> CHR ''0'' \<le> c \<and> c \<le> CHR ''9'' then slug_loop (out @ [c]) False cs
      else if out = [] \<or> hyphen then slug_loop out hyphen cs
      else slug_loop (out @ [CHR ''-'']) True cs)"

definition trim_hyphens :: "string \<Rightarrow> string" where
  "trim_hyphens s = rev (dropWhile (\<lambda>c. c = CHR ''-'') (rev (dropWhile (\<lambda>c. c = CHR ''-'') s)))"

definition slugify :: "string \<Rightarrow> string" where
  "slugify value = trim_hyphens (slug_loop [] False (to_lower (trim_space value)))"

definition slug_base :: "string \<Rightarrow> string" where
  "slug_base raw =
     (let b1 = slugify raw;
          b2 = (if b1 = [] then ''workspace'' else b1);
          b3 = (if length b2 > 80 then trim_hyphens (take 80 b2) else b2)
      in if b3 = [] then ''workspace'' else b3)"

text \<open>\<open>fmt.Sprintf\<close> with \<open>%d\<close>, for the numbers of attempts.\<close>

fun decimal :: "nat \<Rightarrow> string" where
  "decimal n = (if n < 10 then [char_of (48 + n)] else decimal (n div 10) @ [char_of (48 + n mod 10)])"

declare decimal.simps [simp del]

definition slug_candidate :: "string \<Rightarrow> nat \<Rightarrow> string" where
  "slug_candidate base n =
     (let c = base @ ''-'' @ decimal n in if length c > 80 then trim_hyphens (take 80 c) else c)"

text \<open>The attempts from \<open>i\<close> on, of which \<open>left\<close> remain.\<close>

fun slug_attempts :: "account_tables \<Rightarrow> string \<Rightarrow> nat \<Rightarrow> nat \<Rightarrow> string \<Rightarrow> string result" where
  "slug_attempts t base 0 i candidate = Err (conflict ''unable to generate a unique workspace slug'')"
| "slug_attempts t base (Suc left) i candidate =
     (case pg_get_workspace_by_slug candidate t of
        Ok w \<Rightarrow> slug_attempts t base left (i + 1) (slug_candidate base (i + 1))
      | Err e \<Rightarrow>
          if app_code e = Some CodeNotFound then Ok candidate
          else Err (internal_err ''failed to verify workspace slug'' e))"

definition unique_workspace_slug :: "string \<Rightarrow> auth_world \<Rightarrow> string result" where
  "unique_workspace_slug raw w = slug_attempts (aw_accounts w) (slug_base raw) 25 1 (slug_base raw)"

definition personal_workspace_slug :: "auth_service \<Rightarrow> uuid \<Rightarrow> string" where
  "personal_workspace_slug s u = ''personal-'' @ filter (\<lambda>c. c \<noteq> CHR ''-'') (sm_uuid_text (av_sessions s) u)"

definition workspace_kind_of :: "auth_service \<Rightarrow> uuid \<Rightarrow> workspace \<Rightarrow> workspace_kind" where
  "workspace_kind_of s u w =
     (if wsp_slug w = personal_workspace_slug s u \<and> wsp_created_by w = u then KindPersonal else KindOrganization)"

definition create_with_owner :: "workspace \<Rightarrow> workspace_member \<Rightarrow> unit auth_step" where
  "create_with_owner ws owner w =
     (case pg_create_with_owner ws owner (aw_db w) (aw_accounts w) of
        ((d, t), e) \<Rightarrow> (w\<lparr>aw_db := d, aw_accounts := t\<rparr>, unit_result e))"

definition coded_error :: "string \<Rightarrow> error \<Rightarrow> error" where
  "coded_error msg e = (case as_app_error e of Some (c, m, inner) \<Rightarrow> AppError c m inner | None \<Rightarrow> internal_err msg e)"

text \<open>The workspace repository offers \<open>CreateWithOwner\<close>, so the two separate statements of the other branch do not run.\<close>

definition create_workspace_with_kind :: "auth_service \<Rightarrow> user \<Rightarrow> workspace_input \<Rightarrow> workspace_kind \<Rightarrow> workspace auth_step" where
  "create_workspace_with_kind s u input kind0 =
     (let kind = (if kind0 = KindEmpty then KindOrganization else kind0);
          name = trim_space (wi_name input);
          base = (if trim_space (wi_slug input) = [] then name else trim_space (wi_slug input)) in
      and_then (guard (name = []) (invalid_input ''name is required'')) (\<lambda>_.
      and_then (from_read (unique_workspace_slug base)) (\<lambda>slug.
      and_then auth_clock (\<lambda>now.
      and_then auth_new_id (\<lambda>i.
      and_then auth_new_id (\<lambda>j.
      let ws = \<lparr>wsp_id = i, wsp_name = name, wsp_slug = slug, wsp_kind = kind, wsp_avatar = trim_space (wi_avatar input),
                wsp_created_by = acc_id u, wsp_created_at = now, wsp_updated_at = now\<rparr>;
          owner = \<lparr>wm_id = j, wm_workspace = i, wm_user = acc_id u, wm_role = RoleOwner, wm_joined_at = now\<rparr> in
      and_then (map_err (coded_error ''failed to create workspace'') (create_with_owner ws owner)) (\<lambda>_.
      and_then (auth_search s (\<lambda>r. index_user r i (acc_id u) (acc_name u) (acc_email u) (acc_created_at u) (acc_updated_at u))) (\<lambda>_.
      return ws))))))))"

definition active_user :: "uuid \<Rightarrow> user auth_step" where
  "active_user i =
     and_then (from_read (get_user i)) (\<lambda>u.
     and_then (guard (acc_status u \<noteq> UserActive) (forbidden ''account is not active'')) (\<lambda>_. return u))"

definition restore_membership :: "uuid \<Rightarrow> uuid \<Rightarrow> unit auth_step" where
  "restore_membership i u w =
     (case pg_get_member (aw_db w) i u of
        Ok m \<Rightarrow> (w, Ok ())
      | Err e \<Rightarrow>
          if app_code e = Some CodeNotFound then
            and_then auth_new_id (\<lambda>j.
            and_then auth_clock (\<lambda>now.
            map_err (internal_err ''failed to restore personal workspace membership'')
              (auth_db (\<lambda>d. pg_add_member d \<lparr>wm_id = j, wm_workspace = i, wm_user = u, wm_role = RoleOwner, wm_joined_at = now\<rparr>)))) w
          else (w, Err (internal_err ''failed to verify personal workspace membership'' e)))"

definition get_or_create_personal_workspace :: "auth_service \<Rightarrow> uuid \<Rightarrow> workspace auth_step" where
  "get_or_create_personal_workspace s i =
     and_then (active_user i) (\<lambda>u w.
       (case pg_get_workspace_by_slug (personal_workspace_slug s i) (aw_accounts w) of
          Ok ws \<Rightarrow> and_then (restore_membership (wsp_id ws) i) (\<lambda>_. return (ws\<lparr>wsp_kind := KindPersonal\<rparr>)) w
        | Err e \<Rightarrow>
            if app_code e = Some CodeNotFound then
              create_workspace_with_kind s u
                \<lparr>wi_name = acc_name u @ [CHR 0x27] @ ''s Space'', wi_slug = personal_workspace_slug s i, wi_avatar = []\<rparr> KindPersonal w
            else (w, Err (internal_err ''failed to fetch personal workspace'' e))))"

definition get_or_create_personal_workspace_id :: "auth_service \<Rightarrow> uuid \<Rightarrow> uuid auth_step" where
  "get_or_create_personal_workspace_id s i = and_then (get_or_create_personal_workspace s i) (\<lambda>ws. return (wsp_id ws))"

definition create_workspace_input :: "workspace_input \<Rightarrow> (string \<times> string \<times> string) list" where
  "create_workspace_input input =
     [(''Name'', ''required,min=1,max=120'', wi_name input), (''Slug'', ''omitempty,min=3,max=80'', wi_slug input),
      (''AvatarURL'', ''omitempty,max=2048'', wi_avatar input)]"

definition create_workspace :: "auth_service \<Rightarrow> uuid \<Rightarrow> workspace_input \<Rightarrow> workspace auth_step" where
  "create_workspace s i input =
     and_then (check (\<lambda>_. validate_struct (av_validator s) (create_workspace_input input))) (\<lambda>_.
     and_then (active_user i) (\<lambda>u. create_workspace_with_kind s u input KindOrganization))"

definition list_workspaces :: "auth_service \<Rightarrow> uuid \<Rightarrow> workspace list auth_step" where
  "list_workspaces s i =
     and_then (from_read (get_user i)) (\<lambda>_.
     and_then (get_or_create_personal_workspace s i) (\<lambda>_.
     and_then (map_err (internal_err ''failed to list workspaces'')
       (from_read (\<lambda>w. pg_list_workspaces i (aw_db w) (aw_accounts w)))) (\<lambda>ws.
     return (map (\<lambda>w. w\<lparr>wsp_kind := workspace_kind_of s i w\<rparr>) ws))))"

definition get_workspace :: "auth_service \<Rightarrow> uuid \<Rightarrow> uuid \<Rightarrow> workspace auth_step" where
  "get_workspace s i u =
     and_then (map_err (missing_or (forbidden ''user is not a member of this workspace'') ''failed to verify workspace membership'')
       (from_read (\<lambda>w. pg_get_member (aw_db w) i u))) (\<lambda>_.
     and_then (map_err (missing_or (not_found ''workspace not found'') ''failed to fetch workspace'')
       (from_read (\<lambda>w. pg_get_workspace i (aw_accounts w)))) (\<lambda>ws.
     return (ws\<lparr>wsp_kind := workspace_kind_of s u ws\<rparr>)))"

section \<open>Access tokens\<close>

text \<open>How \<open>encoding/json\<close> fills a field of text: the last key that equals its tag up to the case of letters counts, null
  leaves the field alone and a number is an error.\<close>

fun text_field :: "string \<Rightarrow> string \<Rightarrow> (string \<times> json_value) list \<Rightarrow> string result" where
  "text_field tag x [] = Ok x"
| "text_field tag x ((k, v) # obj) =
     (if to_lower k \<noteq> tag then text_field tag x obj
      else case v of
        JText y \<Rightarrow> text_field tag y obj
      | JNull \<Rightarrow> text_field tag x obj
      | JNumber n \<Rightarrow> Err (PlainError (''cannot unmarshal number into field '' @ tag)))"

text \<open>The private claims of \<open>tokenClaims\<close>, as \<open>generateToken\<close> writes them.\<close>

definition access_payload :: "(instant \<Rightarrow> int) \<Rightarrow> string \<Rightarrow> string \<Rightarrow> instant \<Rightarrow> instant \<Rightarrow> jwt_payload" where
  "access_payload date user session issued expires =
     \<lparr>jp_subject = user, jp_issued_at = Some (date issued), jp_expires_at = Some (date expires),
      jp_not_before = None, jp_private = [(''sid'', JText session)]\<rparr>"

text \<open>Reading a payload back: into \<open>tokenClaims\<close>, and into \<open>principalClaims\<close>.\<close>

definition access_claims :: "jwt_payload \<Rightarrow> (string \<times> string) result" where
  "access_claims p = result_bind (text_field ''sid'' [] (jp_private p)) (\<lambda>session. Ok (jp_subject p, session))"

definition principal_claims :: "jwt_payload \<Rightarrow> token_claims result" where
  "principal_claims p =
     result_bind (text_field ''sid'' [] (jp_private p)) (\<lambda>session.
     result_bind (text_field ''kind'' [] (jp_private p)) (\<lambda>kind.
     result_bind (text_field ''guest_session_id'' [] (jp_private p)) (\<lambda>guest.
     result_bind (text_field ''workspace_id'' [] (jp_private p)) (\<lambda>workspace.
     result_bind (text_field ''call_id'' [] (jp_private p)) (\<lambda>c.
     Ok \<lparr>tc_subject = jp_subject p, tc_session = session, tc_kind = kind, tc_guest_session = guest,
         tc_workspace = workspace, tc_call = c\<rparr>)))))"

definition generate_token :: "auth_service \<Rightarrow> uuid \<Rightarrow> string \<Rightarrow> auth_world \<Rightarrow> string result" where
  "generate_token s u session w =
     (let now = ky_now (aw_keys w) in
      case av_jwt_sign s (av_secret s)
             (access_payload (av_numeric_date s) (sm_uuid_text (av_sessions s) u) session now (now + av_access_ttl s)) of
        Err e \<Rightarrow> Err (Wrapped ''sign token'' e)
      | Ok t \<Rightarrow> Ok t)"

text \<open>The callback that hands out the key: HMAC with SHA-256 and nothing else.\<close>

definition token_key :: "auth_service \<Rightarrow> jwt_header \<Rightarrow> string result" where
  "token_key s h =
     (if \<not> jh_hmac h then Err (PlainError (''unexpected signing method: '' @ jh_alg h))
      else if jh_alg h \<noteq> ''HS256'' then Err (PlainError (''unexpected signing algorithm: '' @ jh_alg h))
      else Ok (av_secret s))"

text \<open>\<open>jwt.ParseWithClaims\<close> into a struct of the code: the library verifies the token, and a payload that does not fit
  the struct is an error like any other.\<close>

definition parse_with_claims :: "auth_service \<Rightarrow> (jwt_payload \<Rightarrow> 'c result) \<Rightarrow> string \<Rightarrow> auth_world \<Rightarrow> 'c result" where
  "parse_with_claims s decode token w =
     (case av_jwt_parse s (token_key s) (ky_now (aw_keys w)) token of
        Err e \<Rightarrow> Err (Wrapped ''invalid token'' e)
      | Ok (valid, payload) \<Rightarrow>
          (case decode payload of
             Err e \<Rightarrow> Err (Wrapped ''invalid token'' e)
           | Ok claims \<Rightarrow> if \<not> valid then Err (PlainError ''invalid token'') else Ok claims))"

definition parse_principal_token :: "auth_service \<Rightarrow> string \<Rightarrow> auth_world \<Rightarrow> token_claims result" where
  "parse_principal_token s = parse_with_claims s principal_claims"

definition parse_token :: "auth_service \<Rightarrow> string \<Rightarrow> auth_world \<Rightarrow> (uuid \<times> string) result" where
  "parse_token s token w =
     result_bind (parse_with_claims s access_claims token w) (\<lambda>(subject, session).
       (case sm_uuid_parse (av_sessions s) subject of
          Err e \<Rightarrow> Err (Wrapped ''invalid user ID in token subject'' e)
        | Ok u \<Rightarrow>
            if session = [] then Err (PlainError ''missing session ID in token'')
            else Ok (u, session)))"

section \<open>Login and logout\<close>

record login_result =
  lr_access :: string
  lr_refresh :: string
  lr_session :: string
  lr_expires_in :: int

text \<open>\<open>int(ttl.Seconds())\<close> truncates towards zero.\<close>

definition whole_seconds :: "duration \<Rightarrow> int" where
  "whole_seconds d = (if d < 0 then - (- d div second) else d div second)"

text \<open>A session with its tokens; if no access token can be signed the session is revoked again.\<close>

definition open_session_for :: "auth_service \<Rightarrow> user \<Rightarrow> string \<Rightarrow> string \<Rightarrow> login_result auth_step" where
  "open_session_for s u device ip =
     and_then (map_err (internal_err ''failed to create session'')
       (auth_keys (create_session (av_sessions s) (sm_uuid_text (av_sessions s) (acc_id u)) device ip))) (\<lambda>(session, refresh) w.
       (case generate_token s (acc_id u) (se_id session) w of
          Err e \<Rightarrow> (fst (auth_keys (revoke (av_sessions s) (se_id session)) w), Err (internal_err ''failed to generate access token'' e))
        | Ok access \<Rightarrow>
            (w, Ok \<lparr>lr_access = access, lr_refresh = refresh, lr_session = se_id session,
                    lr_expires_in = whole_seconds (av_access_ttl s)\<rparr>)))"

definition bad_credentials :: error where
  "bad_credentials = unauthorized ''invalid email or password''"

definition login :: "auth_service \<Rightarrow> string \<Rightarrow> string \<Rightarrow> string \<Rightarrow> string \<Rightarrow> login_result auth_step" where
  "login s email password device ip =
     and_then (check (\<lambda>_. validate_struct (av_validator s) (login_input email password))) (\<lambda>_.
     and_then (map_err (missing_or bad_credentials ''failed to fetch user'')
       (from_read (\<lambda>w. pg_get_user_by_email email (aw_accounts w)))) (\<lambda>u.
     and_then (guard (acc_status u \<noteq> UserActive) (forbidden ''account is not active'')) (\<lambda>_.
     and_then (guard (verify_password s password (acc_hash u) \<noteq> None) bad_credentials) (\<lambda>_.
     open_session_for s u device ip))))"

definition create_session_for_user :: "auth_service \<Rightarrow> uuid \<Rightarrow> string \<Rightarrow> string \<Rightarrow> login_result auth_step" where
  "create_session_for_user s i device ip =
     and_then (active_user i) (\<lambda>u. open_session_for s u device ip)"

definition refresh_token :: "auth_service \<Rightarrow> string \<Rightarrow> login_result auth_step" where
  "refresh_token s token =
     and_then (map_err (\<lambda>_. unauthorized ''invalid refresh token'')
       (auth_keys (validate_refresh_token (av_sessions s) token))) (\<lambda>session.
     and_then (map_err (internal_err ''invalid user ID in session'')
       (from_read (\<lambda>_. sm_uuid_parse (av_sessions s) (se_user session)))) (\<lambda>i.
     and_then (map_err (missing_or (unauthorized ''user not found'') ''failed to fetch user'')
       (from_read (\<lambda>w. pg_get_user i (aw_accounts w)))) (\<lambda>u.
     and_then (guard (acc_status u \<noteq> UserActive) (forbidden ''account is not active'')) (\<lambda>_.
     and_then (map_err (internal_err ''failed to rotate refresh token'')
       (auth_keys (rotate_refresh_token (av_sessions s) (se_id session)))) (\<lambda>fresh.
     and_then (map_err (internal_err ''failed to generate access token'') (from_read (generate_token s i (se_id session)))) (\<lambda>access.
     return \<lparr>lr_access = access, lr_refresh = fresh, lr_session = se_id session,
             lr_expires_in = whole_seconds (av_access_ttl s)\<rparr>))))))"

definition logout :: "auth_service \<Rightarrow> string \<Rightarrow> unit auth_step" where
  "logout s i = map_err (internal_err ''failed to revoke session'') (auth_keys (revoke (av_sessions s) i))"

definition logout_all :: "auth_service \<Rightarrow> string \<Rightarrow> unit auth_step" where
  "logout_all s u = map_err (internal_err ''failed to revoke sessions'') (auth_keys (revoke_all_user_sessions (av_sessions s) u))"

definition list_sessions :: "auth_service \<Rightarrow> string \<Rightarrow> session list auth_step" where
  "list_sessions s u = map_err (internal_err ''failed to list sessions'') (auth_keys (list_user_sessions (av_sessions s) u))"

section \<open>Principals\<close>

datatype principal =
    UserPrincipal uuid string
  | MeetingGuestPrincipal uuid uuid uuid

text \<open>The session behind a token: valid, or the reason for the refusal. The touch is left to the worker.\<close>

definition accept_session :: "string \<Rightarrow> unit auth_step" where
  "accept_session i =
     and_then (map_err (\<lambda>_. unauthorized ''session validation failed'') (auth_keys (is_session_valid i))) (\<lambda>valid.
     and_then (guard (\<not> valid) (unauthorized ''session revoked or expired'')) (\<lambda>_ w.
     (w\<lparr>aw_keys := defer_touch i (aw_keys w)\<rparr>, Ok ())))"

definition validate_token :: "auth_service \<Rightarrow> string \<Rightarrow> (uuid \<times> string) auth_step" where
  "validate_token s token =
     and_then (map_err (\<lambda>_. unauthorized ''invalid token'') (from_read (parse_token s token))) (\<lambda>(u, i).
     and_then (accept_session i) (\<lambda>_. return (u, i)))"

definition guest_principal :: "auth_service \<Rightarrow> token_claims \<Rightarrow> principal result" where
  "guest_principal s claims =
     (case sm_uuid_parse (av_sessions s) (tc_guest_session claims) of
        Err e \<Rightarrow> Err (unauthorized ''invalid guest session'')
      | Ok g \<Rightarrow>
          (case sm_uuid_parse (av_sessions s) (tc_workspace claims) of
             Err e \<Rightarrow> Err (unauthorized ''invalid guest workspace'')
           | Ok w \<Rightarrow>
               (case sm_uuid_parse (av_sessions s) (tc_call claims) of
                  Err e \<Rightarrow> Err (unauthorized ''invalid guest call'')
                | Ok c \<Rightarrow> Ok (MeetingGuestPrincipal g w c))))"

definition validate_principal_token :: "auth_service \<Rightarrow> string \<Rightarrow> principal auth_step" where
  "validate_principal_token s token =
     and_then (map_err (\<lambda>_. unauthorized ''invalid token'') (from_read (parse_principal_token s token))) (\<lambda>claims.
     if tc_kind claims = ''meeting_guest'' then from_read (\<lambda>_. guest_principal s claims)
     else
       and_then (map_err (\<lambda>_. unauthorized ''invalid user'')
         (from_read (\<lambda>_. sm_uuid_parse (av_sessions s) (tc_subject claims)))) (\<lambda>u.
       and_then (guard (tc_session claims = []) (unauthorized ''missing session'')) (\<lambda>_.
       and_then (accept_session (tc_session claims)) (\<lambda>_.
       return (UserPrincipal u (tc_session claims))))))"

section \<open>The middleware (internal/middleware/auth.go)\<close>

record http_request =
  hr_authorization :: string
  hr_upgrade :: string
  hr_connection :: string
  hr_token_query :: string

fun split_commas :: "string \<Rightarrow> string list" where
  "split_commas [] = [[]]"
| "split_commas (c # cs) =
     (if c = CHR '','' then [] # split_commas cs
      else case split_commas cs of [] \<Rightarrow> [[c]] | x # xs \<Rightarrow> (c # x) # xs)"

definition is_websocket_upgrade :: "http_request \<Rightarrow> bool" where
  "is_websocket_upgrade r \<longleftrightarrow>
     to_lower (hr_upgrade r) = ''websocket'' \<and>
     list_ex (\<lambda>v. to_lower (trim_space v) = ''upgrade'') (split_commas (hr_connection r))"

definition request_token :: "http_request \<Rightarrow> string result" where
  "request_token r =
     (if hr_authorization r \<noteq> [] then
        (if \<not> has_prefix ''Bearer '' (hr_authorization r) \<or> trim_prefix ''Bearer '' (hr_authorization r) = []
         then Err (unauthorized ''invalid authorization format'')
         else Ok (trim_prefix ''Bearer '' (hr_authorization r)))
      else if is_websocket_upgrade r then
        (if trim_space (hr_token_query r) = [] then Err (unauthorized ''missing authorization header'')
         else Ok (trim_space (hr_token_query r)))
      else Err (unauthorized ''missing authorization header''))"

text \<open>The authentication service validates principals, so that interface is the one the middleware finds.\<close>

definition authenticate :: "auth_service \<Rightarrow> http_request \<Rightarrow> principal auth_step" where
  "authenticate s r =
     and_then (from_read (\<lambda>_. request_token r)) (\<lambda>token.
     map_err (\<lambda>_. unauthorized ''invalid or expired token'') (validate_principal_token s token))"

end
