(* ===== verification/Meetings.thy ===== *)
theory Meetings
  imports Auth Cursors CallRuns
begin

text \<open>
  Meeting guests: the invite links and guest sessions of \<open>internal/domain/entity/meeting_guest.go\<close>, the tables of
  \<open>migrations/026\<close> with the statements of \<open>internal/repository/postgres/meeting.go\<close>, and the service in
  \<open>internal/service/meeting/service.go\<close>, which lets somebody without an account into a call.

  The service has its repositories (the branches for a service that is not configured are left out). It runs no
  transaction: each statement stands when a later one fails. Random bytes, bcrypt, SHA-256 and the signing of
  tokens are parameters. The CHECK on display names is implied by the checks of \<open>Join\<close> and is not repeated.
\<close>

section \<open>Entities and tables\<close>

datatype meeting_invite_status =
  MeetingInviteActive | MeetingInviteRevoked | MeetingInviteExpired | MeetingInviteFull

record meeting_invite_link =
  il_id :: uuid
  il_workspace :: uuid
  il_call :: uuid
  il_token_hash :: string
  il_passcode_hash :: string
  il_max_uses :: int
  il_use_count :: int
  il_role :: call_role
  il_expires_at :: instant
  il_revoked_at :: "instant option"
  il_created_by :: uuid
  il_created_at :: instant
  il_last_used_at :: "instant option"
  il_raw_token :: string

record meeting_guest_session =
  mg_id :: uuid
  mg_workspace :: uuid
  mg_call :: uuid
  mg_invite :: uuid
  mg_name :: string
  mg_role :: call_role
  mg_token_hash :: string
  mg_expires_at :: instant
  mg_revoked_at :: "instant option"
  mg_created_at :: instant
  mg_last_seen_at :: "instant option"

record meeting_invite_preflight =
  pf_status :: meeting_invite_status
  pf_workspace :: uuid
  pf_call :: uuid
  pf_channel :: "uuid option"
  pf_title :: string
  pf_call_type :: call_type
  pf_access_mode :: call_access_mode
  pf_passcode_required :: bool
  pf_expires_at :: instant

record meeting_tables =
  ml_links :: "meeting_invite_link list"
  ml_sessions :: "meeting_guest_session list"
  ml_fault :: "string \<Rightarrow> error option"

text \<open>An \<open>integer\<close> column holds 32 bits.\<close>

definition fits_int4 :: "int \<Rightarrow> bool" where
  "fits_int4 n \<longleftrightarrow> - (2 ^ 31) \<le> n \<and> n < 2 ^ 31"

text \<open>The raw token is not a column.\<close>

definition pg_create_link :: "meeting_invite_link \<Rightarrow> meeting_tables \<Rightarrow> meeting_tables \<times> error option" where
  "pg_create_link l t =
     (let clash = list_ex (\<lambda>r. il_id r = il_id l \<or> il_token_hash r = il_token_hash l) (ml_links t);
          outcome = (if \<not> fits_int4 (il_max_uses l) then Some (PlainError ''max_uses is greater than maximum value for int4'')
                     else exec_insert (ml_fault t ''create meeting invite link'') clash) in
      case outcome of
        Some e \<Rightarrow> (t, Some (Wrapped ''postgres: create meeting invite link'' e))
      | None \<Rightarrow> (t\<lparr>ml_links := ml_links t @ [l\<lparr>il_raw_token := []\<rparr>]\<rparr>, None))"

definition pg_get_link_by_token :: "string \<Rightarrow> meeting_tables \<Rightarrow> meeting_invite_link result" where
  "pg_get_link_by_token h t =
     query_row (ml_fault t ''get meeting invite link by token'') ''meeting invite not found''
       ''postgres: scan meeting invite link'' (\<lambda>r. il_token_hash r = h) (ml_links t)"

definition pg_get_link :: "uuid \<Rightarrow> uuid \<Rightarrow> meeting_tables \<Rightarrow> meeting_invite_link result" where
  "pg_get_link workspace i t =
     query_row (ml_fault t ''get meeting invite link'') ''meeting invite not found''
       ''postgres: scan meeting invite link'' (\<lambda>r. il_workspace r = workspace \<and> il_id r = i) (ml_links t)"

definition update_link ::
  "string \<Rightarrow> (meeting_invite_link \<Rightarrow> bool) \<Rightarrow> (meeting_invite_link \<Rightarrow> meeting_invite_link) \<Rightarrow>
     meeting_tables \<Rightarrow> meeting_tables \<times> error option" where
  "update_link what P f t =
     (case exec_affected (ml_fault t what) ''meeting invite not found'' (''postgres: '' @ what) P (ml_links t) of
        Some e \<Rightarrow> (t, Some e)
      | None \<Rightarrow> (t\<lparr>ml_links := update_rows P f (ml_links t)\<rparr>, None))"

definition pg_use_link :: "uuid \<Rightarrow> instant \<Rightarrow> meeting_tables \<Rightarrow> meeting_tables \<times> error option" where
  "pg_use_link i now =
     update_link ''increment meeting invite use count'' (\<lambda>r. il_id r = i)
       (\<lambda>r. r\<lparr>il_use_count := il_use_count r + 1, il_last_used_at := Some now\<rparr>)"

definition pg_revoke_link :: "uuid \<Rightarrow> uuid \<Rightarrow> instant \<Rightarrow> meeting_tables \<Rightarrow> meeting_tables \<times> error option" where
  "pg_revoke_link workspace i now =
     update_link ''revoke meeting invite link'' (\<lambda>r. il_workspace r = workspace \<and> il_id r = i)
       (\<lambda>r. r\<lparr>il_revoked_at := (if il_revoked_at r = None then Some now else il_revoked_at r)\<rparr>)"

definition pg_create_guest_session :: "meeting_guest_session \<Rightarrow> meeting_tables \<Rightarrow> meeting_tables \<times> error option" where
  "pg_create_guest_session g t =
     (case exec_insert (ml_fault t ''create meeting guest session'')
             (list_ex (\<lambda>r. mg_id r = mg_id g \<or> mg_token_hash r = mg_token_hash g) (ml_sessions t)) of
        Some e \<Rightarrow> (t, Some (Wrapped ''postgres: create meeting guest session'' e))
      | None \<Rightarrow> (t\<lparr>ml_sessions := ml_sessions t @ [g]\<rparr>, None))"

section \<open>World and service\<close>

record meeting_world =
  mw_calls :: call_tables
  mw_meetings :: meeting_tables
  mw_now :: instant
  mw_next_id :: uuid
  mw_draws :: nat

type_synonym 'a meeting_step = "(meeting_world, 'a) action"

record meeting_service =
  mv_secret :: string
  mv_token_ttl :: duration
  mv_random :: "nat \<Rightarrow> nat list result"
  mv_sha256 :: "string \<Rightarrow> string"
  mv_bcrypt :: "string \<Rightarrow> string result"
  mv_compare :: "string \<Rightarrow> string \<Rightarrow> error option"
  mv_uuid_text :: "uuid \<Rightarrow> string"
  mv_numeric_date :: "instant \<Rightarrow> int"
  mv_jwt_sign :: "string \<Rightarrow> jwt_payload \<Rightarrow> string result"

abbreviation (input) hour :: duration where "hour \<equiv> 3600000000000"

definition new_meeting_service :: "string \<Rightarrow> duration \<Rightarrow> meeting_service \<Rightarrow> meeting_service" where
  "new_meeting_service secret ttl s =
     s\<lparr>mv_secret := secret, mv_token_ttl := (if ttl \<le> 0 then 4 * hour else ttl)\<rparr>"

definition meeting_statement :: "(meeting_tables \<Rightarrow> meeting_tables \<times> error option) \<Rightarrow> unit meeting_step" where
  "meeting_statement f w = (case f (mw_meetings w) of (t, e) \<Rightarrow> (w\<lparr>mw_meetings := t\<rparr>, unit_result e))"

definition meeting_calls :: "(call_tables \<Rightarrow> call_tables \<times> error option) \<Rightarrow> unit meeting_step" where
  "meeting_calls f w = (case f (mw_calls w) of (t, e) \<Rightarrow> (w\<lparr>mw_calls := t\<rparr>, unit_result e))"

definition meeting_new_id :: "uuid meeting_step" where
  "meeting_new_id w = (w\<lparr>mw_next_id := mw_next_id w + 1\<rparr>, Ok (mw_next_id w))"

definition meeting_clock :: "instant meeting_step" where
  "meeting_clock w = (w, Ok (mw_now w))"

section \<open>Tokens\<close>

definition link_hash :: "meeting_service \<Rightarrow> string \<Rightarrow> string" where
  "link_hash s token = hex_encode (mv_sha256 s (trim_space token))"

text \<open>Unpadded base64 of fresh random bytes, with its hash.\<close>

definition raw_url_encode :: "nat list \<Rightarrow> string" where
  "raw_url_encode bs = takeWhile (\<lambda>c. c \<noteq> CHR ''='') (encode64 bs)"

definition opaque_token :: "meeting_service \<Rightarrow> (string \<times> string) meeting_step" where
  "opaque_token s w =
     (w\<lparr>mw_draws := mw_draws w + 1\<rparr>,
      case mv_random s (mw_draws w) of
        Err e \<Rightarrow> Err (Wrapped ''generate token'' e)
      | Ok b \<Rightarrow> Ok (raw_url_encode b, link_hash s (raw_url_encode b)))"

definition min_time :: "instant \<Rightarrow> instant \<Rightarrow> instant" where
  "min_time a b = (if a < b then a else b)"

fun call_role_text :: "call_role \<Rightarrow> string" where
  "call_role_text CallRoleHost = ''host''"
| "call_role_text CallRoleCoHost = ''co_host''"
| "call_role_text CallRolePresenter = ''presenter''"
| "call_role_text CallRoleParticipant = ''participant''"
| "call_role_text CallRoleViewer = ''viewer''"
| "call_role_text (CallRoleOther s) = s"

text \<open>The private claims of \<open>guestTokenClaims\<close>, under its JSON tags.\<close>

definition guest_claims :: "string \<Rightarrow> string \<Rightarrow> string \<Rightarrow> call_role \<Rightarrow> string \<Rightarrow> (string \<times> json_value) list" where
  "guest_claims session workspace c role hash =
     [(''kind'', JText ''meeting_guest''), (''guest_session_id'', JText session), (''workspace_id'', JText workspace),
      (''call_id'', JText c), (''role'', JText (call_role_text role)), (''token_hash'', JText hash)]"

definition sign_guest_token :: "meeting_service \<Rightarrow> meeting_guest_session \<Rightarrow> string \<Rightarrow> instant \<Rightarrow> meeting_world \<Rightarrow> string result" where
  "sign_guest_token s g raw expires w =
     mv_jwt_sign s (mv_secret s)
       \<lparr>jp_subject = mv_uuid_text s (mg_id g), jp_issued_at = Some (mv_numeric_date s (mw_now w)),
        jp_expires_at = Some (mv_numeric_date s expires), jp_not_before = None,
        jp_private = guest_claims (mv_uuid_text s (mg_id g)) (mv_uuid_text s (mg_workspace g)) (mv_uuid_text s (mg_call g))
          (mg_role g) (link_hash s raw)\<rparr>"

section \<open>Invite links\<close>

definition require_host_like :: "uuid \<Rightarrow> uuid \<Rightarrow> call \<Rightarrow> meeting_world \<Rightarrow> error option" where
  "require_host_like i actor c w =
     (if ca_created_by c = actor then None
      else case pg_get_participant (mw_calls w) i actor of
        Err e \<Rightarrow> Some (forbidden ''only meeting hosts can manage invite links'')
      | Ok p \<Rightarrow>
          if pa_role p \<noteq> CallRoleHost \<and> pa_role p \<noteq> CallRoleCoHost
          then Some (forbidden ''only meeting hosts can manage invite links'') else None)"

definition link_status :: "meeting_invite_link \<Rightarrow> call \<Rightarrow> instant \<Rightarrow> meeting_invite_status" where
  "link_status l c now =
     (if il_revoked_at l \<noteq> None then MeetingInviteRevoked
      else if now > il_expires_at l \<or> ca_status c = CallStatusEnded then MeetingInviteExpired
      else if il_max_uses l > 0 \<and> il_use_count l \<ge> il_max_uses l then MeetingInviteFull
      else MeetingInviteActive)"

record link_input =
  li_passcode :: string
  li_max_uses :: int
  li_ttl_hours :: int
  li_role :: "call_role option"

text \<open>An empty role of the request is \<open>None\<close>.\<close>

definition default_guest_role :: "call_role option \<Rightarrow> call \<Rightarrow> call_role" where
  "default_guest_role role c =
     (case role of
        Some r \<Rightarrow> r
      | None \<Rightarrow> if ca_access_mode c = CallAccessModeWebinar then CallRoleViewer else CallRoleParticipant)"

definition guest_role :: "call_role \<Rightarrow> bool" where
  "guest_role r \<longleftrightarrow> r = CallRoleParticipant \<or> r = CallRoleViewer \<or> r = CallRolePresenter"

definition secured_passcode :: "meeting_service \<Rightarrow> string \<Rightarrow> string result" where
  "secured_passcode s passcode =
     (if trim_space passcode = [] then Ok []
      else case mv_bcrypt s passcode of Err e \<Rightarrow> Err (internal_err ''failed to secure invite passcode'' e) | Ok h \<Rightarrow> Ok h)"

text \<open>\<open>time.Duration(ttlHours) * time.Hour\<close> wraps around.\<close>

definition link_ttl :: "int \<Rightarrow> duration" where
  "link_ttl hours = wrap64 ((if hours \<le> 0 then 72 else hours) * hour)"

definition create_invite_link :: "meeting_service \<Rightarrow> uuid \<Rightarrow> uuid \<Rightarrow> uuid \<Rightarrow> link_input \<Rightarrow> meeting_invite_link meeting_step" where
  "create_invite_link s workspace i actor input =
     and_then (from_read (\<lambda>w. pg_get_call (mw_calls w) i)) (\<lambda>c.
     and_then (guard (ca_workspace c \<noteq> workspace) (not_found ''call not found'')) (\<lambda>_.
     and_then (guard (ca_status c = CallStatusEnded) (forbidden ''cannot invite guests to an ended meeting'')) (\<lambda>_.
     and_then (check (require_host_like i actor c)) (\<lambda>_.
     and_then (map_err (internal_err ''failed to generate invite token'') (opaque_token s)) (\<lambda>(raw, hash).
     and_then (from_read (\<lambda>_. secured_passcode s (li_passcode input))) (\<lambda>passcode.
     let role = default_guest_role (li_role input) c in
     and_then (guard (\<not> guest_role role) (invalid_input ''default guest role must be participant, viewer, or presenter'')) (\<lambda>_.
     and_then meeting_clock (\<lambda>now.
     and_then meeting_new_id (\<lambda>j.
     let l = \<lparr>il_id = j, il_workspace = workspace, il_call = i, il_token_hash = hash, il_passcode_hash = passcode,
              il_max_uses = (if li_max_uses input \<le> 0 then 100 else li_max_uses input), il_use_count = 0, il_role = role,
              il_expires_at = now + link_ttl (li_ttl_hours input), il_revoked_at = None, il_created_by = actor,
              il_created_at = now, il_last_used_at = None, il_raw_token = raw\<rparr> in
     and_then (map_err (internal_err ''failed to create meeting invite'') (meeting_statement (pg_create_link l))) (\<lambda>_.
     return l))))))))))"

definition active_invite_and_call :: "meeting_service \<Rightarrow> string \<Rightarrow> meeting_world \<Rightarrow> (meeting_invite_link \<times> call) result" where
  "active_invite_and_call s token w =
     result_bind (pg_get_link_by_token (link_hash s token) (mw_meetings w)) (\<lambda>l.
     result_bind (pg_get_call (mw_calls w) (il_call l)) (\<lambda>c. Ok (l, c)))"

definition preflight :: "meeting_service \<Rightarrow> string \<Rightarrow> meeting_invite_preflight meeting_step" where
  "preflight s token =
     and_then (from_read (active_invite_and_call s token)) (\<lambda>(l, c).
     and_then meeting_clock (\<lambda>now.
     return \<lparr>pf_status = link_status l c now, pf_workspace = il_workspace l, pf_call = il_call l,
             pf_channel = ca_meeting_channel c, pf_title = ca_title c, pf_call_type = ca_type c,
             pf_access_mode = ca_access_mode c, pf_passcode_required = (il_passcode_hash l \<noteq> []),
             pf_expires_at = il_expires_at l\<rparr>))"

definition revoke_invite_link :: "uuid \<Rightarrow> uuid \<Rightarrow> uuid \<Rightarrow> unit meeting_step" where
  "revoke_invite_link workspace j actor =
     and_then (from_read (\<lambda>w. pg_get_link workspace j (mw_meetings w))) (\<lambda>l.
     and_then (from_read (\<lambda>w. pg_get_call (mw_calls w) (il_call l))) (\<lambda>c.
     and_then (check (require_host_like (il_call l) actor c)) (\<lambda>_.
     and_then meeting_clock (\<lambda>now.
     meeting_statement (pg_revoke_link workspace j now)))))"

section \<open>Joining\<close>

definition meeting_participant_cap :: "call \<Rightarrow> int" where
  "meeting_participant_cap c =
     (if se_max_participants (ca_settings c) > 0 then se_max_participants (ca_settings c)
      else case ca_type c of
        CallTypeOneToOne \<Rightarrow> 2
      | CallTypeGroup \<Rightarrow> 32
      | CallTypeMeeting \<Rightarrow> 500
      | CallTypeWebinar \<Rightarrow> 10000
      | CallTypeSelector \<Rightarrow> 10000
      | CallTypeOther x \<Rightarrow> 0)"

definition add_guest_participant :: "call_participant \<Rightarrow> int \<Rightarrow> unit meeting_step" where
  "add_guest_participant p cap =
     (if cap > 0 then
        map_err (\<lambda>e. if app_code e = Some CodeForbidden then conflict ''call has reached maximum participant capacity''
                     else if app_code e = Some CodeAlreadyExists then conflict ''guest is already in this meeting''
                     else internal_err ''failed to add guest participant'' e)
          (meeting_calls (pg_add_participant_if_capacity p cap))
      else
        map_err (\<lambda>e. if app_code e = Some CodeAlreadyExists then conflict ''guest is already in this meeting''
                     else internal_err ''failed to add guest participant'' e)
          (meeting_calls (pg_add_participant p)))"

record join_input =
  ji_name :: string
  ji_passcode :: string

record join_result =
  jr_access :: string
  jr_expires_at :: instant
  jr_session :: uuid
  jr_workspace :: uuid
  jr_call :: uuid
  jr_channel :: "uuid option"
  jr_role :: call_role

text \<open>The invite, its call and the trimmed name, for a request that may join.\<close>

definition admitted_by_link :: "meeting_service \<Rightarrow> string \<Rightarrow> join_input \<Rightarrow> meeting_world \<Rightarrow> (string \<times> meeting_invite_link \<times> call) result" where
  "admitted_by_link s token input w =
     (let name = trim_space (ji_name input) in
      if name = [] then Err (invalid_input ''display name is required'')
      else if length name > 120 then Err (invalid_input ''display name is too long'')
      else result_bind (active_invite_and_call s token w) (\<lambda>(l, c).
        if link_status l c (mw_now w) \<noteq> MeetingInviteActive then Err (forbidden ''meeting invite is not active'')
        else if se_locked (ca_settings c) then Err (forbidden ''meeting is locked'')
        else if il_passcode_hash l \<noteq> [] \<and> mv_compare s (il_passcode_hash l) (ji_passcode input) \<noteq> None
        then Err (unauthorized ''invalid meeting passcode'')
        else Ok (name, l, c)))"

definition guest_session_for :: "meeting_service \<Rightarrow> string \<Rightarrow> meeting_invite_link \<Rightarrow> uuid \<Rightarrow> string \<Rightarrow> instant \<Rightarrow> meeting_guest_session" where
  "guest_session_for s name l i hash now =
     \<lparr>mg_id = i, mg_workspace = il_workspace l, mg_call = il_call l, mg_invite = il_id l, mg_name = name, mg_role = il_role l,
      mg_token_hash = hash, mg_expires_at = min_time (il_expires_at l) (now + mv_token_ttl s), mg_revoked_at = None,
      mg_created_at = now, mg_last_seen_at = None\<rparr>"

definition guest_participant_for :: "meeting_guest_session \<Rightarrow> call \<Rightarrow> uuid \<Rightarrow> instant \<Rightarrow> call_participant" where
  "guest_participant_for g c i now =
     \<lparr>pa_id = i, pa_call = mg_call g, pa_principal = PrincipalGuest, pa_user = uuid_nil, pa_guest = Some (mg_id g),
      pa_name = mg_name g, pa_breakout = None, pa_role = mg_role g,
      pa_status = (if se_waiting_room (ca_settings c) then ParticipantWaiting else ParticipantConnected),
      pa_audio_muted = (se_mute_on_join (ca_settings c) \<or> mg_role g = CallRoleViewer),
      pa_video_muted = (mg_role g = CallRoleViewer), pa_screen_sharing = False, pa_joined_at = Some now, pa_left_at = None\<rparr>"

definition meeting_join :: "meeting_service \<Rightarrow> string \<Rightarrow> join_input \<Rightarrow> join_result meeting_step" where
  "meeting_join s token input =
     and_then (from_read (admitted_by_link s token input)) (\<lambda>(name, l, c).
     and_then (map_err (internal_err ''failed to generate meeting guest token'') (opaque_token s)) (\<lambda>(raw, hash).
     and_then meeting_clock (\<lambda>now.
     and_then meeting_new_id (\<lambda>i.
     let g = guest_session_for s name l i hash now in
     and_then (map_err (internal_err ''failed to create meeting guest session'') (meeting_statement (pg_create_guest_session g))) (\<lambda>_.
     and_then meeting_new_id (\<lambda>j.
     let p = guest_participant_for g c j now in
     and_then (add_guest_participant p (meeting_participant_cap c)) (\<lambda>_.
     and_then (if pa_status p = ParticipantConnected \<and> ca_status c = CallStatusRinging
               then map_err (internal_err ''failed to activate meeting'') (meeting_calls (pg_update_call_status (ca_id c) CallStatusActive))
               else return ()) (\<lambda>_.
     and_then (meeting_statement (pg_use_link (il_id l) now)) (\<lambda>_.
     and_then (map_err (internal_err ''failed to sign meeting guest token'') (from_read (sign_guest_token s g raw (mg_expires_at g)))) (\<lambda>access.
     return \<lparr>jr_access = access, jr_expires_at = mg_expires_at g, jr_session = mg_id g, jr_workspace = mg_workspace g,
             jr_call = mg_call g, jr_channel = ca_meeting_channel c, jr_role = mg_role g\<rparr>))))))))))"

end
