(* ===== verification/SessionSpec.thy ===== *)
theory SessionSpec
  imports Sessions
begin

text \<open>
  What the operations of the session manager may do to the keys, as a step relation: a session is opened under a
  fresh identifier with a freshly drawn token, gets its refresh key, is touched, gets a new token once no refresh
  key leads to it, and sessions and refresh keys are dropped. Every operation, run without interruption and
  whatever round trip fails, is a sequence of such steps; the invariant of the keys and what is dead stays dead
  are proved once for the steps.
\<close>

section \<open>The step relation\<close>

definition drawn_hash :: "session_manager \<Rightarrow> nat \<Rightarrow> string \<Rightarrow> bool" where
  "drawn_hash sm n h \<longleftrightarrow> (\<exists>b. sm_random sm n = Ok b \<and> h = hash_token sm (hex_encode b))"

inductive key_change :: "session_manager \<Rightarrow> session_keys \<Rightarrow> session_keys \<Rightarrow> bool" for sm where
  quiet: "ky_sessions k' = ky_sessions k \<Longrightarrow> ky_refresh k' = ky_refresh k \<Longrightarrow> ky_draws k \<le> ky_draws k' \<Longrightarrow>
     ky_next_id k \<le> ky_next_id k' \<Longrightarrow> ky_now k \<le> ky_now k' \<Longrightarrow> key_change sm k k'"
| drop_session: "ky_sessions k' = (ky_sessions k)(i := None) \<Longrightarrow> ky_refresh k' = ky_refresh k \<Longrightarrow>
     ky_draws k' = ky_draws k \<Longrightarrow> ky_next_id k' = ky_next_id k \<Longrightarrow> ky_now k' = ky_now k \<Longrightarrow> key_change sm k k'"
| drop_refresh: "ky_sessions k' = ky_sessions k \<Longrightarrow> ky_refresh k' = (ky_refresh k)(h := None) \<Longrightarrow>
     ky_draws k' = ky_draws k \<Longrightarrow> ky_next_id k' = ky_next_id k \<Longrightarrow> ky_now k' = ky_now k \<Longrightarrow> key_change sm k k'"
| open_session: "ky_sessions k' = (ky_sessions k)(i \<mapsto> (Stored row, t)) \<Longrightarrow> ky_refresh k' = ky_refresh k \<Longrightarrow>
     i = sm_uuid_text sm (ky_next_id k) \<Longrightarrow> ses_id row = i \<Longrightarrow> drawn_hash sm (ky_draws k) (ses_hash row) \<Longrightarrow>
     ky_draws k' = ky_draws k + 1 \<Longrightarrow> ky_next_id k' = ky_next_id k + 1 \<Longrightarrow> ky_now k' = ky_now k \<Longrightarrow> key_change sm k k'"
| attach: "ky_sessions k' = ky_sessions k \<Longrightarrow> ky_refresh k' = (ky_refresh k)(ses_hash row \<mapsto> (i, t)) \<Longrightarrow>
     ky_sessions k i = Some (Stored row, t') \<Longrightarrow> ky_draws k' = ky_draws k \<Longrightarrow> ky_next_id k' = ky_next_id k \<Longrightarrow>
     ky_now k' = ky_now k \<Longrightarrow> key_change sm k k'"
| touch: "ky_sessions k' = (ky_sessions k)(i \<mapsto> (Stored (row\<lparr>ses_active := a\<rparr>), t)) \<Longrightarrow> ky_refresh k' = ky_refresh k \<Longrightarrow>
     live_session i k = Some (Stored row) \<Longrightarrow> ky_draws k' = ky_draws k \<Longrightarrow> ky_next_id k' = ky_next_id k \<Longrightarrow>
     ky_now k' = ky_now k \<Longrightarrow> key_change sm k k'"
| rehash: "ky_sessions k' = (ky_sessions k)(i \<mapsto> (Stored (row\<lparr>ses_hash := h, ses_active := a\<rparr>), t)) \<Longrightarrow>
     ky_refresh k' = ky_refresh k \<Longrightarrow> live_session i k = Some (Stored row) \<Longrightarrow> drawn_hash sm (ky_draws k) h \<Longrightarrow>
     (\<And>h' x. ky_refresh k h' = Some (i, x) \<Longrightarrow> False) \<Longrightarrow>
     ky_draws k' = ky_draws k + 1 \<Longrightarrow> ky_next_id k' = ky_next_id k \<Longrightarrow> ky_now k' = ky_now k \<Longrightarrow> key_change sm k k'"

abbreviation key_changes :: "session_manager \<Rightarrow> session_keys \<Rightarrow> session_keys \<Rightarrow> bool" where
  "key_changes sm \<equiv> (key_change sm)\<^sup>*\<^sup>*"

lemma unexpired_Some: "unexpired now x = Some v \<Longrightarrow> \<exists>t. x = Some (v, t)"
  by (cases "(now, x)" rule: unexpired.cases) (auto split: if_splits)

lemma unexpired_later: "unexpired now x = None \<Longrightarrow> now \<le> now' \<Longrightarrow> unexpired now' x = None"
  by (cases "(now, x)" rule: unexpired.cases) (auto split: if_splits)

lemma live_session_Some: "live_session i k = Some v \<Longrightarrow> \<exists>t. ky_sessions k i = Some (v, t)"
  unfolding live_session_def by (rule unexpired_Some)

lemma live_refresh_Some: "live_refresh h k = Some i \<Longrightarrow> \<exists>t. ky_refresh k h = Some (i, t)"
  unfolding live_refresh_def by (rule unexpired_Some)

section \<open>The invariant\<close>

definition hash_issued :: "session_manager \<Rightarrow> nat \<Rightarrow> string \<Rightarrow> bool" where
  "hash_issued sm n h \<longleftrightarrow> (\<exists>m < n. drawn_hash sm m h)"

definition id_issued :: "session_manager \<Rightarrow> uuid \<Rightarrow> string \<Rightarrow> bool" where
  "id_issued sm n i \<longleftrightarrow> (\<exists>m < n. i = sm_uuid_text sm m)"

text \<open>No two draws have the same hash, and no two identifiers the same text.\<close>

definition honest_random :: "session_manager \<Rightarrow> bool" where
  "honest_random sm \<longleftrightarrow>
     inj (sm_uuid_text sm) \<and> (\<forall>m n h. drawn_hash sm m h \<and> drawn_hash sm n h \<longrightarrow> m = n)"

definition row_fits :: "session_manager \<Rightarrow> session_keys \<Rightarrow> string \<Rightarrow> session_row \<Rightarrow> bool" where
  "row_fits sm k i row \<longleftrightarrow>
     ses_id row = i \<and> id_issued sm (ky_next_id k) i \<and> hash_issued sm (ky_draws k) (ses_hash row) \<and>
     (\<forall>h t. ky_refresh k h = Some (i, t) \<longrightarrow> h = ses_hash row) \<and>
     (\<forall>j row' t. ky_sessions k j = Some (Stored row', t) \<longrightarrow> ses_hash row' = ses_hash row \<longrightarrow> j = i)"

definition keys_ok :: "session_manager \<Rightarrow> session_keys \<Rightarrow> bool" where
  "keys_ok sm k \<longleftrightarrow>
     (\<forall>i v t. ky_sessions k i = Some (v, t) \<longrightarrow> (\<exists>row. v = Stored row \<and> row_fits sm k i row)) \<and>
     (\<forall>h i t. ky_refresh k h = Some (i, t) \<longrightarrow> hash_issued sm (ky_draws k) h \<and> id_issued sm (ky_next_id k) i)"

lemma issued_mono:
  "id_issued sm n i \<Longrightarrow> n \<le> m \<Longrightarrow> id_issued sm m i" "hash_issued sm n h \<Longrightarrow> n \<le> m \<Longrightarrow> hash_issued sm m h"
  unfolding id_issued_def hash_issued_def using order.strict_trans2[of _ n m] by blast+

lemma drawn_issued: "drawn_hash sm n h \<Longrightarrow> hash_issued sm (Suc n) h"
  by (auto simp: hash_issued_def)

lemma fresh_hash: "honest_random sm \<Longrightarrow> drawn_hash sm n h \<Longrightarrow> \<not> hash_issued sm n h"
  by (auto simp: honest_random_def hash_issued_def)

lemma fresh_session_id: "honest_random sm \<Longrightarrow> \<not> id_issued sm n (sm_uuid_text sm n)"
  by (auto simp: honest_random_def id_issued_def dest: injD)

lemma keys_ok_row: "keys_ok sm k \<Longrightarrow> ky_sessions k i = Some (v, t) \<Longrightarrow> \<exists>row. v = Stored row \<and> row_fits sm k i row"
  by (auto simp: keys_ok_def)

lemma keys_ok_refresh:
  assumes "keys_ok sm k" "ky_refresh k h = Some (i, t)"
  shows "hash_issued sm (ky_draws k) h" "id_issued sm (ky_next_id k) i"
  using assms unfolding keys_ok_def by blast+

lemma row_fits_transfer:
  assumes "row_fits sm k i row" "ky_draws k \<le> ky_draws k'" "ky_next_id k \<le> ky_next_id k'"
    and "\<And>h t. ky_refresh k' h = Some (i, t) \<Longrightarrow> h = ses_hash row"
    and "\<And>j r t. ky_sessions k' j = Some (Stored r, t) \<Longrightarrow> ses_hash r = ses_hash row \<Longrightarrow> j = i"
  shows "row_fits sm k' i row"
  using assms issued_mono unfolding row_fits_def by blast

lemma row_fits_refresh: "row_fits sm k i row \<Longrightarrow> ky_refresh k h = Some (i, t) \<Longrightarrow> h = ses_hash row"
  by (simp add: row_fits_def)

lemma row_fits_hash:
  "row_fits sm k i row \<Longrightarrow> ky_sessions k j = Some (Stored r, t) \<Longrightarrow> ses_hash r = ses_hash row \<Longrightarrow> j = i"
  by (simp add: row_fits_def)

text \<open>The keys stay well-formed if every row fits and every refresh key was there or carries an issued hash.\<close>

lemma keys_okI:
  assumes "keys_ok sm k" "ky_draws k \<le> ky_draws k'" "ky_next_id k \<le> ky_next_id k'"
    and "\<And>i v t. ky_sessions k' i = Some (v, t) \<Longrightarrow> \<exists>row. v = Stored row \<and> row_fits sm k' i row"
    and "\<And>h i t. ky_refresh k' h = Some (i, t) \<Longrightarrow>
      ky_refresh k h = Some (i, t) \<or> hash_issued sm (ky_draws k) h \<and> id_issued sm (ky_next_id k) i"
  shows "keys_ok sm k'"
  unfolding keys_ok_def using assms keys_ok_refresh[OF assms(1)] issued_mono by meson

lemma keys_ok_fewer:
  assumes "keys_ok sm k" "ky_draws k \<le> ky_draws k'" "ky_next_id k \<le> ky_next_id k'"
    and "\<And>i x. ky_sessions k' i = Some x \<Longrightarrow> ky_sessions k i = Some x"
    and "\<And>h x. ky_refresh k' h = Some x \<Longrightarrow> ky_refresh k h = Some x"
  shows "keys_ok sm k'"
proof (rule keys_okI[OF assms(1-3)])
  fix i v t assume "ky_sessions k' i = Some (v, t)"
  then obtain row where r: "v = Stored row" "row_fits sm k i row" using keys_ok_row[OF assms(1)] assms(4) by blast
  have "row_fits sm k' i row"
    using r(2) assms(2,3) by (rule row_fits_transfer) (use r(2) assms(4,5) row_fits_refresh row_fits_hash in blast)+
  then show "\<exists>row. v = Stored row \<and> row_fits sm k' i row" using r by blast
qed (use assms(5) in blast)

text \<open>One session rewritten, opened or touched, with a hash of its own.\<close>

lemma keys_ok_put:
  assumes ok: "keys_ok sm k" and le: "ky_draws k \<le> ky_draws k'" "ky_next_id k \<le> ky_next_id k'"
    and put: "ky_sessions k' = (ky_sessions k)(i \<mapsto> (Stored row, t))" and rf: "ky_refresh k' = ky_refresh k"
    and row: "ses_id row = i" "id_issued sm (ky_next_id k') i" "hash_issued sm (ky_draws k') (ses_hash row)"
    and own: "\<And>h x. ky_refresh k h = Some (i, x) \<Longrightarrow> h = ses_hash row"
    and new: "\<And>j r x. ky_sessions k j = Some (Stored r, x) \<Longrightarrow> j \<noteq> i \<Longrightarrow> ses_hash r \<noteq> ses_hash row"
  shows "keys_ok sm k'"
proof (rule keys_okI[OF ok le])
  fix j v x assume at: "ky_sessions k' j = Some (v, x)"
  show "\<exists>row. v = Stored row \<and> row_fits sm k' j row"
  proof (cases "j = i")
    case True
    then have "v = Stored row" using at put by simp
    moreover have "row_fits sm k' i row"
      using row own new rf put unfolding row_fits_def by (auto split: if_splits)
    ultimately show ?thesis using True by blast
  next
    case False
    then obtain r where r: "v = Stored r" "row_fits sm k j r" "ky_sessions k j = Some (Stored r, x)"
      using at put keys_ok_row[OF ok] by fastforce
    have "row_fits sm k' j r"
    proof (rule row_fits_transfer[OF r(2) le])
      show "\<And>h t. ky_refresh k' h = Some (j, t) \<Longrightarrow> h = ses_hash r" using r(2) rf row_fits_refresh by simp
      show "l = j" if "ky_sessions k' l = Some (Stored r', y)" "ses_hash r' = ses_hash r" for l r' y
        using that put new[OF r(3) False] row_fits_hash[OF r(2), of l r'] by (auto split: if_splits)
    qed
    then show ?thesis using r(1) by blast
  qed
qed (simp add: rf)

lemma key_change_keeps_ok:
  assumes "key_change sm k k'" "keys_ok sm k" "honest_random sm"
  shows "keys_ok sm k'"
  using assms(1)
proof cases
  case quiet
  then show ?thesis by (intro keys_ok_fewer[OF assms(2)]) simp_all
next
  case (drop_session i)
  then show ?thesis by (intro keys_ok_fewer[OF assms(2)]) (simp_all split: if_splits)
next
  case (drop_refresh h)
  then show ?thesis by (intro keys_ok_fewer[OF assms(2)]) (simp_all split: if_splits)
next
  case (open_session i row t)
  have new: "\<not> id_issued sm (ky_next_id k) i" using open_session assms(3) fresh_session_id by blast
  have hash: "\<not> hash_issued sm (ky_draws k) (ses_hash row)" using open_session assms(3) fresh_hash by blast
  have "ky_refresh k h = Some (i, x) \<Longrightarrow> h = ses_hash row" for h x
    using keys_ok_refresh[OF assms(2)] new by blast
  moreover have "ky_sessions k j = Some (Stored r, x) \<Longrightarrow> ses_hash r \<noteq> ses_hash row" for j r x
    using keys_ok_row[OF assms(2), of j] hash by (auto simp: row_fits_def)
  ultimately show ?thesis
    using open_session drawn_issued by (intro keys_ok_put[OF assms(2), of k' i row t]) (auto simp: id_issued_def)
next
  case (attach row i t t')
  have fits: "row_fits sm k i row" using keys_ok_row[OF assms(2) attach(3)] by auto
  show ?thesis
  proof (rule keys_okI[OF assms(2)])
    fix j v x assume "ky_sessions k' j = Some (v, x)"
    then have at: "ky_sessions k j = Some (v, x)" using attach by simp
    then obtain r where r: "v = Stored r" "row_fits sm k j r" using keys_ok_row[OF assms(2)] by blast
    have "row_fits sm k' j r"
      using attach at r(1) by (intro row_fits_transfer[OF r(2)])
        (auto dest: row_fits_refresh[OF r(2)] row_fits_hash[OF r(2)] split: if_splits)
    then show "\<exists>row. v = Stored row \<and> row_fits sm k' j row" using r(1) by blast
  qed (use attach fits in \<open>auto simp: row_fits_def split: if_splits\<close>)
next
  case (touch i a row t)
  have fits: "row_fits sm k i row" using live_session_Some[OF touch(3)] keys_ok_row[OF assms(2)] by blast
  show ?thesis
  proof (rule keys_ok_put[OF assms(2) _ _ touch(1,2)])
    show "ses_hash r \<noteq> ses_hash (row\<lparr>ses_active := a\<rparr>)" if "ky_sessions k j = Some (Stored r, x)" "j \<noteq> i" for j r x
      using row_fits_hash[OF fits that(1)] that(2) by auto
  qed (use touch(4,5) fits in \<open>simp_all add: row_fits_def\<close>)
next
  case (rehash i a h row t)
  have fits: "row_fits sm k i row" using live_session_Some[OF rehash(3)] keys_ok_row[OF assms(2)] by blast
  have hash: "\<not> hash_issued sm (ky_draws k) h" using rehash assms(3) fresh_hash by blast
  show ?thesis
  proof (rule keys_ok_put[OF assms(2) _ _ rehash(1,2)])
    show "ses_hash r \<noteq> ses_hash (row\<lparr>ses_hash := h, ses_active := a\<rparr>)" if "ky_sessions k j = Some (Stored r, x)" for j r x
      using keys_ok_row[OF assms(2) that] hash by (auto simp: row_fits_def)
    show "h' = ses_hash (row\<lparr>ses_hash := h, ses_active := a\<rparr>)" if "ky_refresh k h' = Some (i, x)" for h' x
      using rehash(5) that by blast
  qed (use rehash(4,6,7) fits drawn_issued in \<open>simp_all add: row_fits_def\<close>)
qed

text \<open>A session that is gone and a token that is spent do not come back.\<close>

definition gone_session :: "session_manager \<Rightarrow> string \<Rightarrow> session_keys \<Rightarrow> bool" where
  "gone_session sm i k \<longleftrightarrow> id_issued sm (ky_next_id k) i \<and> live_session i k = None"

definition spent_hash :: "session_manager \<Rightarrow> string \<Rightarrow> session_keys \<Rightarrow> bool" where
  "spent_hash sm h k \<longleftrightarrow>
     hash_issued sm (ky_draws k) h \<and> ky_refresh k h = None \<and>
     (\<forall>i row t. ky_sessions k i = Some (Stored row, t) \<longrightarrow> ses_hash row \<noteq> h)"

lemma key_change_gone:
  assumes "key_change sm k k'" "gone_session sm i k" "honest_random sm"
  shows "gone_session sm i k'"
  using assms(1)
proof cases
  case (open_session j row t)
  have "i \<noteq> j" using open_session(3) assms(2) fresh_session_id[OF assms(3)] by (auto simp: gone_session_def)
  then show ?thesis
    using open_session assms(2) by (auto simp: gone_session_def live_session_def intro: issued_mono)
qed (use assms(2) in \<open>auto simp: gone_session_def live_session_def intro: issued_mono unexpired_later\<close>)

lemma key_change_spent:
  assumes "key_change sm k k'" "spent_hash sm h k" "honest_random sm"
  shows "spent_hash sm h k'"
  using assms(1)
proof cases
  case (open_session j row t)
  then show ?thesis
    using assms(2) fresh_hash[OF assms(3), of "ky_draws k" h] by (auto simp: spent_hash_def intro: issued_mono)
next
  case (touch j a row t)
  then obtain x where "ky_sessions k j = Some (Stored row, x)" using live_session_Some by blast
  then show ?thesis using touch assms(2) by (auto simp: spent_hash_def)
next
  case (rehash j a h' row t)
  then show ?thesis
    using assms(2) fresh_hash[OF assms(3), of "ky_draws k" h] by (auto simp: spent_hash_def intro: issued_mono)
qed (use assms(2) in \<open>auto simp: spent_hash_def intro: issued_mono\<close>)

lemma key_changes_keep:
  assumes "key_changes sm k k'" "honest_random sm"
  shows "keys_ok sm k \<Longrightarrow> keys_ok sm k'" "gone_session sm i k \<Longrightarrow> gone_session sm i k'"
    "spent_hash sm h k \<Longrightarrow> spent_hash sm h k'"
  using assms(1) by (induction rule: rtranclp_induct)
    (auto intro: key_change_keeps_ok key_change_gone key_change_spent assms(2))

section \<open>The operations refine the steps\<close>

named_theorems refine_rules \<open>operations that take only permitted steps\<close>

definition refines :: "session_manager \<Rightarrow> 'a key_step \<Rightarrow> bool" where
  "refines sm m \<longleftrightarrow> (\<forall>k. key_changes sm k (fst (m k)))"

lemma refinesD: "refines sm m \<Longrightarrow> m k = (k', r) \<Longrightarrow> key_changes sm k k'"
  by (metis refines_def fst_conv)

lemma quiet_keys_step:
  "ky_sessions k' = ky_sessions k \<Longrightarrow> ky_refresh k' = ky_refresh k \<Longrightarrow> ky_draws k \<le> ky_draws k' \<Longrightarrow>
   ky_next_id k \<le> ky_next_id k' \<Longrightarrow> ky_now k \<le> ky_now k' \<Longrightarrow> key_changes sm k k'"
  by (rule r_into_rtranclp) (rule quiet)

lemma advance_fields [simp]:
  "ky_sessions (advance k) = ky_sessions k" "ky_refresh (advance k) = ky_refresh k" "ky_users (advance k) = ky_users k"
  "ky_now (advance k) = ky_now k" "ky_draws (advance k) = ky_draws k" "ky_next_id (advance k) = ky_next_id k"
  "ky_revoked (advance k) = ky_revoked k" "ky_pending (advance k) = ky_pending k"
  "live_session i (advance k) = live_session i k" "live_refresh h (advance k) = live_refresh h k"
  by (simp_all add: advance_def live_session_def live_refresh_def)

lemma advance_changes [simp]: "key_changes sm k (advance k)"
  by (rule quiet_keys_step) simp_all

lemma refines_combinators [refine_rules]:
  "refines sm m \<Longrightarrow> (\<And>x. refines sm (f x)) \<Longrightarrow> refines sm (and_then m f)"
  "refines sm m \<Longrightarrow> refines sm (map_err g m)" "refines sm n \<Longrightarrow> refines sm (ignore_err n)"
proof -
  assume m: "refines sm m" and f: "\<And>x. refines sm (f x)"
  have "key_changes sm k (fst (and_then m f k))" for k
  proof -
    obtain k1 r where r: "m k = (k1, r)" by fastforce
    show ?thesis
      using refinesD[OF m r] f r unfolding refines_def
      by (cases r) (auto simp: and_then_def intro: rtranclp_trans)
  qed
  then show "refines sm (and_then m f)" by (simp add: refines_def)
next
  assume "refines sm m" then show "refines sm (map_err g m)"
    unfolding refines_def map_err_def by (auto split: prod.split sum.split dest: spec) (metis fst_conv)+
next
  assume "refines sm n" then show "refines sm (ignore_err n)" by (simp add: refines_def ignore_err_def)
qed

lemma refines_quiet [refine_rules]:
  "refines sm (return x)" "refines sm (fail e)" "refines sm (guard b e)" "refines sm (check f)" "refines sm (from_read g)"
  "refines sm session_clock" "refines sm (key_get h)" "refines sm (key_members sm' u)"
  by (simp_all add: refines_def return_def fail_def guard_def check_def from_read_def session_clock_def key_get_def
      key_members_def split: option.split)

lemma refines_draw [refine_rules]: "refines sm (generate_refresh_token sm')" "refines sm (new_session_id sm')"
  by (auto simp: refines_def generate_refresh_token_def new_session_id_def intro: quiet_keys_step)

definition permitted :: "session_manager \<Rightarrow> (session_keys \<Rightarrow> session_keys) \<Rightarrow> bool" where
  "permitted sm c \<longleftrightarrow> (\<forall>k. key_changes sm k (c k))"

lemma permitted_commands [simp]:
  "permitted sm (del_session i)" "permitted sm (del_refresh h)" "permitted sm (srem u i)" "permitted sm (sadd u i)"
  "permitted sm (del_user_set u)" "permitted sm (defer_touch i)"
proof -
  have "key_change sm k (del_session i k)" "key_change sm k (del_refresh h k)" for k
    by (rule drop_session drop_refresh; simp add: del_session_def del_refresh_def)+
  then show "permitted sm (del_session i)" "permitted sm (del_refresh h)"
    by (auto simp: permitted_def intro: r_into_rtranclp)
qed (auto simp: permitted_def srem_def sadd_def del_user_set_def defer_touch_def intro: quiet_keys_step)

lemma apply_permitted: "\<forall>c \<in> set cs. permitted sm c \<Longrightarrow> key_changes sm k (apply_commands cs k)"
proof (induction cs arbitrary: k)
  case (Cons c cs)
  then have "key_changes sm k (c k)" by (simp add: permitted_def)
  then show ?case using Cons by (auto intro: rtranclp_trans)
qed simp

lemma refines_exec [refine_rules]: "\<forall>c \<in> set cs. permitted sm c \<Longrightarrow> refines sm (key_exec cs)"
  unfolding refines_def key_exec_def
  by (auto split: option.split intro!: converse_rtranclp_into_rtranclp[OF _ apply_permitted] dest: in_set_takeD)
    (auto intro: quiet)

lemma refines_revoke_found [refine_rules]: "refines sm (revoke_found sm' i row)"
proof -
  have n: "refines sm (notify_revoked sm' i u)" for u
    by (auto simp: notify_revoked_def session_revoked_def refines_def ignore_err_def return_def Let_def
        split: option.split sum.split intro: quiet_keys_step)
  show ?thesis unfolding revoke_found_def by (intro refine_rules n) simp
qed

lemma refines_revoke [refine_rules]: "refines sm (revoke sm' i)"
proof -
  have tail: "refines sm (and_then (map_err (Wrapped ''unmarshal session'') (from_read (\<lambda>_. unmarshal_session v))) (revoke_found sm' i))" for v
    by (intro refine_rules)
  show ?thesis
    using tail unfolding refines_def revoke_def key_get_def
    by (auto split: option.split intro: rtranclp_trans[OF advance_changes])
qed

lemma refines_revoke_each [refine_rules]: "refines sm (revoke_each sm' ids)"
  by (induction ids) (auto intro!: refine_rules)

lemma refines_seq:
  assumes "refines sm g"
  shows "key_changes sm k (fst (g (advance k)))" "refines sm f \<Longrightarrow> key_changes sm k (fst (g (fst (f (advance k)))))"
  using assms unfolding refines_def by (meson advance_changes rtranclp_trans)+

lemma refines_load [refine_rules]: "refines sm (load_sessions u ids)"
proof (induction ids)
  case (Cons i ids)
  have srem: "refines sm (key_exec [srem u i])" by (rule refine_rules) simp
  have tail: "refines sm (and_then (load_sessions u ids) (\<lambda>xs. return (y # xs)))" for y
    by (intro refine_rules Cons.IH)
  show ?case
    unfolding refines_def load_sessions.simps key_get_def
    using refines_seq(1)[OF Cons.IH] refines_seq(2)[OF Cons.IH srem] refines_seq(1)[OF tail]
    by (simp split: option.split sum.split)
qed (simp add: refine_rules)

lemma refines_list_sessions [refine_rules]: "refines sm (list_sessions_loop sm' u ids)"
proof (induction ids)
  case (Cons i ids)
  have srem: "refines sm (key_exec [srem u i])" by (rule refine_rules) simp
  have tail: "refines sm (and_then (list_sessions_loop sm' u ids) (\<lambda>xs. return (y # xs)))" for y
    by (intro refine_rules Cons.IH)
  show ?case
    unfolding refines_def list_sessions_loop.simps key_get_def
    using refines_seq(1)[OF Cons.IH] refines_seq(2)[OF Cons.IH srem] refines_seq(2)[OF Cons.IH refines_revoke]
      refines_seq(1)[OF tail]
    by (simp split: option.split sum.split)
qed (simp add: refine_rules)

lemma refines_enforce [refine_rules]: "refines sm (enforce_max_sessions sm' u)"
  unfolding enforce_max_sessions_def by (intro refine_rules) (auto intro!: refine_rules)

lemma refines_simple:
  "refines sm (revoke_all_user_sessions sm' u)" "refines sm (list_user_sessions sm' u)" "refines sm (is_session_valid i)"
  unfolding revoke_all_user_sessions_def list_user_sessions_def
  by (intro refine_rules; simp) (intro refine_rules, auto simp: refines_def is_session_valid_def key_get_def split: option.split)

section \<open>Opening, touching and rotating\<close>

lemma unmarshal_Ok [simp]: "unmarshal_session v = Ok row \<longleftrightarrow> v = Stored row"
  by (cases v) auto

lemma key_get_Ok [run_simps]: "key_get f k = (k', Ok v) \<longleftrightarrow> key_outcome k = None \<and> k' = advance k \<and> f k = Some v"
  by (auto simp: key_get_def split: option.split)

lemma key_exec_fst: "\<exists>n. fst (key_exec cs k) = apply_commands (take n cs) (advance k)"
proof (cases "key_outcome k")
  case None
  then have "fst (key_exec cs k) = apply_commands (take (length cs) cs) (advance k)" by (simp add: key_exec_def)
  then show ?thesis by blast
next
  case (Some x)
  then show ?thesis by (cases x) (auto simp: key_exec_def)
qed

lemma key_exec_Ok [run_simps]:
  "key_exec cs k = (k', Ok x) \<longleftrightarrow> key_outcome k = None \<and> k' = apply_commands cs (advance k)"
  by (auto simp: key_exec_def split: option.split)

text \<open>A pipeline of which a prefix is applied, command by command.\<close>

lemma take_three: "take n [a, b, c] = [] \<or> take n [a, b, c] = [a] \<or> take n [a, b, c] = [a, b] \<or> take n [a, b, c] = [a, b, c]"
  by (auto simp: take_Cons')

lemma apply_open:
  assumes "ky_sessions k0 = ky_sessions k" "ky_refresh k0 = ky_refresh k" "ky_draws k0 = ky_draws k + 1"
    "ky_next_id k0 = ky_next_id k + 1" "ky_now k0 = ky_now k" "i = sm_uuid_text sm (ky_next_id k)" "ses_id row = i"
    "drawn_hash sm (ky_draws k) (ses_hash row)"
  shows "key_changes sm k (apply_commands (take n [set_session i row t, set_refresh (ses_hash row) i t', sadd u i]) k0)"
proof -
  let ?k1 = "set_session i row t k0"
  let ?k2 = "set_refresh (ses_hash row) i t' ?k1"
  have k0: "key_changes sm k k0" using assms(1-5) by (intro quiet_keys_step) simp_all
  have "key_change sm k ?k1"
    using assms by (intro open_session[where i = i and row = row and t = "expiry k0 t"]) (simp_all add: set_session_def)
  then have k1: "key_changes sm k ?k1" by (rule r_into_rtranclp)
  have "key_change sm ?k1 ?k2"
    by (rule attach[where i = i and row = row and t = "expiry ?k1 t'" and t' = "expiry k0 t"])
      (simp_all add: set_session_def set_refresh_def)
  with k1 have k2: "key_changes sm k ?k2" by (rule rtranclp.rtrancl_into_rtrancl)
  have k3: "key_changes sm k (sadd u i ?k2)"
    using k2 permitted_commands(4)[of sm u i] by (auto simp: permitted_def intro: rtranclp_trans)
  show ?thesis
    using take_three[of n "set_session i row t" "set_refresh (ses_hash row) i t'" "sadd u i"] k0 k1 k2 k3 by auto
qed

named_theorems key_runs \<open>running the head of an operation\<close>

lemma run_heads [key_runs]:
  "and_then session_clock g1 k = g1 (ky_now k) k"
  "and_then (new_session_id sm) g2 k = g2 (sm_uuid_text sm (ky_next_id k)) (k\<lparr>ky_next_id := ky_next_id k + 1\<rparr>)"
  "and_then (map_err w (generate_refresh_token sm)) g3 k =
     (case sm_random sm (ky_draws k) of
        Err e \<Rightarrow> (k\<lparr>ky_draws := ky_draws k + 1\<rparr>, Err (w (Wrapped ''generate random bytes'' e)))
      | Ok b \<Rightarrow> g3 (hex_encode b, hash_token sm (hex_encode b)) (k\<lparr>ky_draws := ky_draws k + 1\<rparr>))"
  by (simp_all add: and_then_def session_clock_def new_session_id_def generate_refresh_token_def map_err_def split: sum.split)

lemmas [key_runs] = exec_guard exec_map_read

lemma run_get [key_runs]:
  "and_then (map_err w (key_get f)) g k =
     (case key_outcome k of
        Some (n, e) \<Rightarrow> (advance k, Err (w e))
      | None \<Rightarrow> (case f k of None \<Rightarrow> (advance k, Err (w RedisNil)) | Some v \<Rightarrow> g v (advance k)))"
  by (auto simp: and_then_def map_err_def key_get_def split: option.split)

lemma and_then_changes:
  assumes "key_changes sm k (fst (m k1))" "\<And>x. refines sm (g x)"
  shows "key_changes sm k (fst (and_then m g k1))"
proof -
  obtain k2 r where r: "m k1 = (k2, r)" by fastforce
  have "key_changes sm k2 (fst (g x k2))" for x using assms(2) by (simp add: refines_def)
  then show ?thesis using assms(1) r by (cases r) (auto simp: and_then_def intro: rtranclp_trans)
qed

lemma map_err_fst [simp]: "fst (map_err w m k) = fst (m k)"
  by (simp add: map_err_def split: prod.split sum.split)

lemma create_session_refines: "refines sm (create_session sm u d ip)"
  unfolding refines_def
proof
  fix k
  show "key_changes sm k (fst (create_session sm u d ip k))"
  proof (cases "sm_random sm (ky_draws k)")
    case (Inl e)
    then show ?thesis
      by (auto simp: create_session_def key_runs intro: quiet_keys_step)
  next
    case (Inr b)
    let ?h = "hash_token sm (hex_encode b)" and ?i = "sm_uuid_text sm (ky_next_id k)"
    let ?row = "new_session_row sm ?i u ?h d ip (ky_now k)"
    let ?cs = "[set_session ?i ?row (sm_ttl sm), set_refresh ?h ?i (sm_ttl sm), sadd u ?i]"
    let ?k0 = "k\<lparr>ky_draws := ky_draws k + 1, ky_next_id := ky_next_id k + 1\<rparr>"
    let ?rest = "\<lambda>_. and_then (ignore_err (enforce_max_sessions sm u)) (\<lambda>_. return (to_session ?row, hex_encode b))"
    have run: "create_session sm u d ip k = and_then (map_err (Wrapped ''store session in redis'') (key_exec ?cs)) ?rest ?k0"
      using Inr by (simp add: create_session_def key_runs Let_def)
    obtain n where n: "fst (key_exec ?cs ?k0) = apply_commands (take n ?cs) (advance ?k0)" using key_exec_fst by blast
    have "drawn_hash sm (ky_draws k) ?h" using Inr by (auto simp: drawn_hash_def)
    then have "key_changes sm k (fst (key_exec ?cs ?k0))"
      using apply_open[of "advance ?k0" k ?i sm ?row n "sm_ttl sm" "sm_ttl sm" u] n by (simp add: new_session_row_def)
    moreover have "refines sm (?rest x)" for x by (intro refine_rules)
    ultimately show ?thesis unfolding run by (intro and_then_changes) simp_all
  qed
qed

lemma touch_step:
  assumes "live_session i k = Some (Stored row)"
  shows "key_changes sm k (set_session i (row\<lparr>ses_active := a\<rparr>) ttl k)"
proof (rule r_into_rtranclp)
  show "key_change sm k (set_session i (row\<lparr>ses_active := a\<rparr>) ttl k)"
    by (rule touch[where i = i and row = row and a = a and t = "expiry k ttl"]) (simp_all add: set_session_def assms)
qed

lemma touch_exec:
  assumes "live_session i k = Some (Stored row)"
  shows "key_changes sm k (fst (key_exec [set_session i (row\<lparr>ses_active := a\<rparr>) ttl] k))"
proof -
  obtain n where "fst (key_exec [set_session i (row\<lparr>ses_active := a\<rparr>) ttl] k) =
      apply_commands (take n [set_session i (row\<lparr>ses_active := a\<rparr>) ttl]) (advance k)"
    using key_exec_fst by blast
  moreover have "key_changes sm (advance k) (set_session i (row\<lparr>ses_active := a\<rparr>) ttl (advance k))"
    by (rule touch_step) (simp add: assms)
  ultimately show ?thesis
    by (cases n) (auto intro: rtranclp_trans[OF advance_changes])
qed

lemma validate_refines: "refines sm (validate_refresh_token sm token)"
  unfolding refines_def
proof
  fix k
  show "key_changes sm k (fst (validate_refresh_token sm token k))"
  proof (cases "live_refresh (hash_token sm token) k")
    case None
    then show ?thesis by (simp add: validate_refresh_token_def key_runs split: option.split)
  next
    case (Some i)
    have expired: "refines sm (and_then (ignore_err (revoke sm i)) (\<lambda>_. fail (PlainError ''session expired'') :: session key_step))"
      by (intro refine_rules)
    have two: "key_changes sm k (advance (advance k))" by (rule rtranclp_trans[OF advance_changes advance_changes])
    have stores: "key_changes sm k (fst (and_then (map_err w (key_exec [set_session i (row\<lparr>ses_active := a\<rparr>) ttl])) (\<lambda>_. return y) (advance (advance k))))"
      if at: "live_session i k = Some (Stored row)" for row a ttl w and y :: session
    proof (rule and_then_changes)
      show "key_changes sm k (fst (map_err w (key_exec [set_session i (row\<lparr>ses_active := a\<rparr>) ttl]) (advance (advance k))))"
        using touch_exec[of i "advance (advance k)" row sm a ttl] at by (auto intro: rtranclp_trans[OF two])
    qed (rule refines_quiet)
    have quiet: "and_then (return ()) (\<lambda>_. return y) = return y" for y :: session
      by (rule ext) (simp add: and_then_def return_def)
    show ?thesis
    proof (cases "live_session i k")
      case None
      then show ?thesis using Some two by (simp add: validate_refresh_token_def key_runs split: option.split)
    next
      case (Some v)
      show ?thesis
      proof (cases v)
        case (Stored row)
        have e: "key_changes sm k (fst (and_then (ignore_err (revoke sm i)) (\<lambda>_. fail (PlainError ''session expired'') :: session key_step) (advance (advance k))))"
          using expired unfolding refines_def by (meson two rtranclp_trans)
        show ?thesis
          using e stores[OF Some[unfolded Stored]] Stored Some \<open>live_refresh (hash_token sm token) k = Some i\<close> two
          by (auto simp: validate_refresh_token_def key_runs Let_def quiet return_def split: option.split)
      next
        case (Garbled m)
        then show ?thesis
          using Some \<open>live_refresh (hash_token sm token) k = Some i\<close> two
          by (simp add: validate_refresh_token_def key_runs split: option.split)
      qed
    qed
  qed
qed

lemma touch_refines: "refines sm (touch_session i)"
  unfolding refines_def
proof
  fix k
  show "key_changes sm k (fst (touch_session i k))"
  proof (cases "live_session i k")
    case None
    then show ?thesis by (simp add: touch_session_def key_runs split: option.split)
  next
    case (Some v)
    show ?thesis
    proof (cases v)
      case (Stored row)
      have "key_changes sm k (fst (key_exec [set_session i (row\<lparr>ses_active := a\<rparr>) ttl] (advance k)))" for a ttl
        using touch_exec[of i "advance k" row sm a ttl] Some Stored by (auto intro: rtranclp_trans[OF advance_changes])
      then show ?thesis using Some Stored by (simp add: touch_session_def key_runs Let_def split: option.split)
    qed (use Some in \<open>simp add: touch_session_def key_runs split: option.split\<close>)
  qed
qed

lemma apply_rotate:
  fixes a :: instant
  assumes at: "live_session i k = Some (Stored row)" and ok: "keys_ok sm k" and drawn: "drawn_hash sm (ky_draws k) h"
    and k0: "ky_sessions k0 = ky_sessions k" "ky_refresh k0 = ky_refresh k" "ky_draws k0 = ky_draws k + 1"
      "ky_next_id k0 = ky_next_id k" "ky_now k0 = ky_now k"
  defines "row' \<equiv> row\<lparr>ses_hash := h, ses_active := a\<rparr>"
  shows "key_changes sm k (apply_commands (take n [del_refresh (ses_hash row), set_session i row' ttl, set_refresh h i ttl']) k0)"
proof -
  let ?d = "del_refresh (ses_hash row) k" and ?k1 = "del_refresh (ses_hash row) k0"
  let ?k2 = "set_session i row' ttl ?k1"
  let ?k3 = "set_refresh h i ttl' ?k2"
  have fits: "row_fits sm k i row" using live_session_Some[OF at] keys_ok_row[OF ok] by blast
  have zero: "key_changes sm k k0" using k0 by (intro quiet_keys_step) simp_all
  have d: "key_changes sm k ?d" using permitted_commands(2) by (simp add: permitted_def)
  have k1: "key_changes sm k ?k1"
    using zero permitted_commands(2)[of sm "ses_hash row"] by (auto simp: permitted_def intro: rtranclp_trans)
  have "key_change sm ?d ?k2"
  proof (rule rehash[where i = i and row = row and h = h and a = a and t = "expiry ?k1 ttl"])
    show "False" if "ky_refresh ?d h' = Some (i, x)" for h' x
      using that fits by (auto simp: del_refresh_def row_fits_def split: if_splits)
  qed (use at drawn k0 in \<open>simp_all add: del_refresh_def set_session_def row'_def live_session_def\<close>)
  with d have k2: "key_changes sm k ?k2" by (rule rtranclp.rtrancl_into_rtrancl)
  have "key_change sm ?k2 ?k3"
    by (rule attach[where i = i and row = row' and t = "expiry ?k2 ttl'" and t' = "expiry ?k1 ttl"])
      (simp_all add: set_session_def set_refresh_def row'_def)
  with k2 have k3: "key_changes sm k ?k3" by (rule rtranclp.rtrancl_into_rtrancl)
  show ?thesis
    using take_three[of n "del_refresh (ses_hash row)" "set_session i row' ttl" "set_refresh h i ttl'"] zero k1 k2 k3 by auto
qed

lemma rotate_changes:
  assumes ok: "keys_ok sm k"
  shows "key_changes sm k (fst (rotate_refresh_token sm i k))"
proof (cases "live_session i k")
  case None
  then show ?thesis by (simp add: rotate_refresh_token_def key_runs split: option.split)
next
  case (Some v)
  then obtain t where t: "ky_sessions k i = Some (v, t)" using live_session_Some by blast
  then obtain row where row: "v = Stored row" using keys_ok_row[OF ok] by blast
  let ?k0 = "(advance k)\<lparr>ky_draws := ky_draws k + 1\<rparr>"
  have zero: "key_changes sm k ?k0" by (intro quiet_keys_step) simp_all
  show ?thesis
  proof (cases "key_outcome k = None \<and> \<not> time_left row (ky_now k) \<le> 0 \<and> (\<exists>b. sm_random sm (ky_draws k) = Ok b)")
    case True
    then obtain b where b: "sm_random sm (ky_draws k) = Ok b" by blast
    let ?h = "hash_token sm (hex_encode b)" and ?ttl = "time_left row (ky_now k)"
    let ?cs = "[del_refresh (ses_hash row), set_session i (row\<lparr>ses_hash := ?h, ses_active := ky_now k\<rparr>) ?ttl, set_refresh ?h i ?ttl]"
    obtain n where n: "fst (key_exec ?cs ?k0) = apply_commands (take n ?cs) (advance ?k0)" using key_exec_fst by blast
    have "drawn_hash sm (ky_draws k) ?h" using b by (auto simp: drawn_hash_def)
    then have "key_changes sm k (fst (key_exec ?cs ?k0))"
      using apply_rotate[of i k row sm ?h "advance ?k0" n "ky_now k" ?ttl ?ttl] ok Some row unfolding n by simp
    then have "key_changes sm k (fst (and_then (map_err (Wrapped ''rotate refresh token in redis'') (key_exec ?cs)) (\<lambda>_. return (hex_encode b)) ?k0))"
      by (intro and_then_changes refine_rules) simp
    then show ?thesis using Some row True b
      by (simp add: rotate_refresh_token_def key_runs Let_def time_left_def)
  next
    case False
    then show ?thesis
      using Some row zero
      by (auto simp: rotate_refresh_token_def key_runs Let_def time_left_def split: option.split sum.split)
  qed
qed

end
