(* ===== verification/SessionProps.thy ===== *)
theory SessionProps
  imports SessionSpec
begin

text \<open>
  Histories of the session manager and its properties. Over histories of operations that run one after the other:
  the keys stay well-formed, a rotated refresh token is spent, and a user never keeps more than the allowed number of
  sessions. Over histories in which the commands of concurrent operations interleave: a revoked session stays
  invalid unless an operation was about to write it back. The last section shows what goes wrong between
  interleaved requests.
\<close>

section \<open>Histories\<close>

lemma refines_flush_read: "key_changes sm k (fst (flush_read k))"
proof -
  have requeue: "key_changes sm j (foldl (\<lambda>s i. defer_touch i s) j ids)" for ids j
  proof (induction ids arbitrary: j)
    case (Cons i ids)
    have "key_changes sm j (defer_touch i j)" using permitted_commands(6) by (simp add: permitted_def)
    then show ?case using Cons by (auto intro: rtranclp_trans)
  qed simp
  have "key_changes sm k (advance (k\<lparr>ky_pending := []\<rparr>))" "key_changes sm k (k\<lparr>ky_pending := []\<rparr>)"
    by (auto intro: quiet_keys_step)
  then show ?thesis
    using requeue by (auto simp: flush_read_def Let_def split: option.split intro: rtranclp_trans)
qed

text \<open>What was read and what is there now are the same sessions, up to the time of their last activity.\<close>

definition same_session :: "session_row \<Rightarrow> session_row \<Rightarrow> bool" where
  "same_session row r \<longleftrightarrow> (\<forall>a. row\<lparr>ses_active := a\<rparr> = r\<lparr>ses_active := a\<rparr>)"

lemma same_session_simps [simp]: "same_session r r" "same_session (r\<lparr>ses_active := a\<rparr>) r' = same_session r r'"
  "same_session r (r'\<lparr>ses_active := a\<rparr>) = same_session r r'"
  by (simp_all add: same_session_def)

lemma same_session_trans: "same_session a b \<Longrightarrow> same_session c b \<Longrightarrow> same_session a c"
  by (simp add: same_session_def)

definition current_reads :: "(string \<times> stored_session option) list \<Rightarrow> session_keys \<Rightarrow> bool" where
  "current_reads got k \<longleftrightarrow>
     (\<forall>i row. (i, Some (Stored row)) \<in> set got \<longrightarrow> (\<exists>r. live_session i k = Some (Stored r) \<and> same_session row r))"

lemma current_readsD:
  "current_reads got k \<Longrightarrow> (i, Some (Stored row)) \<in> set got \<Longrightarrow> \<exists>r. live_session i k = Some (Stored r) \<and> same_session row r"
  unfolding current_reads_def by blast

lemma current_reads_set:
  assumes "current_reads got k" "(i, Some (Stored row)) \<in> set got" "0 < ttl"
  shows "key_changes sm k (set_session i (row\<lparr>ses_active := a\<rparr>) ttl k)"
    and "current_reads got (set_session i (row\<lparr>ses_active := a\<rparr>) ttl k)"
proof -
  obtain r where r: "live_session i k = Some (Stored r)" "same_session row r"
    using current_readsD[OF assms(1,2)] by blast
  then show "key_changes sm k (set_session i (row\<lparr>ses_active := a\<rparr>) ttl k)"
    using touch_step by (metis same_session_def)
  have live: "live_session j (set_session i (row\<lparr>ses_active := a\<rparr>) ttl k) =
      (if j = i then Some (Stored (row\<lparr>ses_active := a\<rparr>)) else live_session j k)" for j
    using assms(3) by (simp add: live_session_def set_session_def expiry_def)
  show "current_reads got (set_session i (row\<lparr>ses_active := a\<rparr>) ttl k)"
    unfolding current_reads_def
  proof (intro allI impI)
    fix j row' assume at: "(j, Some (Stored row')) \<in> set got"
    obtain r' where r': "live_session j k = Some (Stored r')" "same_session row' r'"
      using current_readsD[OF assms(1) at] by blast
    show "\<exists>r. live_session j (set_session i (row\<lparr>ses_active := a\<rparr>) ttl k) = Some (Stored r) \<and> same_session row' r"
    proof (cases "j = i")
      case True
      then have "r' = r" using r(1) r'(1) by simp
      then have "same_session row' row" using same_session_trans r(2) r'(2) by blast
      then show ?thesis using live[of j] True by simp
    next
      case False
      then show ?thesis using live[of j] r' by simp
    qed
  qed
qed

lemma apply_touched:
  assumes "current_reads got k" "set xs \<subseteq> set got"
  shows "key_changes sm k (apply_commands (take n (concat (map (touched now) xs))) k)"
  using assms
proof (induction xs arbitrary: k n)
  case (Cons x xs)
  have rest: "key_changes sm k (apply_commands (take m (concat (map (touched now) xs))) k)" for m
    using Cons by simp
  show ?case
  proof (cases "touched now x")
    case Nil
    then show ?thesis using rest by simp
  next
    case (Cons c cs)
    then obtain i row where x: "x = (i, Some (Stored row))" "0 < time_left row now" "cs = []"
        "c = set_session i (row\<lparr>ses_active := now\<rparr>) (time_left row now)"
      by (cases "(now, x)" rule: touched.cases) (auto split: if_splits)
    then have mem: "(i, Some (Stored row)) \<in> set got" using Cons.prems by auto
    note set = current_reads_set[OF Cons.prems(1) mem x(2), where a = now]
    show ?thesis
    proof (cases n)
      case (Suc m)
      have "key_changes sm (c k) (apply_commands (take m (concat (map (touched now) xs))) (c k))"
        using Cons.IH[OF set(2), of m] Cons.prems x(4) by simp
      then show ?thesis using set(1)[of sm] x Suc \<open>touched now x = c # cs\<close> by (auto intro: rtranclp_trans)
    qed simp
  qed
qed simp

lemma flush_changes: "key_changes sm k (flush_touches k)"
proof -
  obtain k1 got where r: "flush_read k = (k1, got)" by fastforce
  have got: "got = [] \<or> got = map (\<lambda>i. (i, live_session i k1)) (ky_pending k)"
    using r by (auto simp: flush_read_def Let_def live_session_def split: if_splits option.splits)
  then have cur: "current_reads got k1" by (auto simp: current_reads_def) (metis same_session_simps(1))
  have "key_changes sm k1 (flush_write got k1)"
  proof (cases "concat (map (touched (ky_now k1)) got) = []")
    case True
    then show ?thesis by (simp add: flush_write_def Let_def)
  next
    case False
    let ?cs = "concat (map (touched (ky_now k1)) got)"
    obtain n where n: "fst (key_exec ?cs k1) = apply_commands (take n ?cs) (advance k1)" using key_exec_fst by blast
    have "current_reads got (advance k1)" using cur by (simp add: current_reads_def)
    from apply_touched[OF this order_refl, of sm n "ky_now k1"] show ?thesis
      using False by (auto simp: flush_write_def Let_def n intro: rtranclp_trans[OF advance_changes])
  qed
  then show ?thesis using refines_flush_read[of sm k] r by (auto simp: flush_touches_def intro: rtranclp_trans)
qed

datatype session_op =
    OpCreate string string string | OpValidate string | OpRotate string | OpRevoke string | OpRevokeAll string
  | OpList string | OpCheck string | OpTouch string | OpDefer string | OpFlush
  | OpTime nat | OpOutcomes "(nat \<times> error) option list"

fun run_session_op :: "session_manager \<Rightarrow> session_op \<Rightarrow> session_keys \<Rightarrow> session_keys" where
  "run_session_op sm (OpCreate u d ip) k = fst (create_session sm u d ip k)"
| "run_session_op sm (OpValidate t) k = fst (validate_refresh_token sm t k)"
| "run_session_op sm (OpRotate i) k = fst (rotate_refresh_token sm i k)"
| "run_session_op sm (OpRevoke i) k = fst (revoke sm i k)"
| "run_session_op sm (OpRevokeAll u) k = fst (revoke_all_user_sessions sm u k)"
| "run_session_op sm (OpList u) k = fst (list_user_sessions sm u k)"
| "run_session_op sm (OpCheck i) k = fst (is_session_valid i k)"
| "run_session_op sm (OpTouch i) k = fst (touch_session i k)"
| "run_session_op sm (OpDefer i) k = defer_touch i k"
| "run_session_op sm OpFlush k = flush_touches k"
| "run_session_op sm (OpTime d) k = k\<lparr>ky_now := ky_now k + int d\<rparr>"
| "run_session_op sm (OpOutcomes xs) k = k\<lparr>ky_steps := xs\<rparr>"

fun run_sessions :: "session_manager \<Rightarrow> session_op list \<Rightarrow> session_keys \<Rightarrow> session_keys" where
  "run_sessions sm [] k = k"
| "run_sessions sm (x # xs) k = run_sessions sm xs (run_session_op sm x k)"

definition no_keys :: session_keys where
  "no_keys = \<lparr>ky_sessions = Map.empty, ky_refresh = Map.empty, ky_users = (\<lambda>_. []), ky_pending = [], ky_revoked = [],
     ky_steps = [], ky_now = 0, ky_next_id = 1, ky_draws = 0\<rparr>"

lemma other_op_changes:
  assumes "\<And>i. x \<noteq> OpRotate i"
  shows "key_changes sm k (run_session_op sm x k)"
proof (cases x)
  case OpFlush
  then show ?thesis using flush_changes by simp
next
  case (OpDefer i)
  then show ?thesis using permitted_commands(6) by (simp add: permitted_def)
qed (use assms create_session_refines validate_refines refines_revoke refines_simple touch_refines in
      \<open>auto simp: refines_def intro: quiet_keys_step\<close>)

lemma run_session_op_changes: "keys_ok sm k \<Longrightarrow> key_changes sm k (run_session_op sm x k)"
  using rotate_changes other_op_changes by (cases "\<exists>i. x = OpRotate i") auto

lemma run_sessions_changes:
  assumes "keys_ok sm k" "honest_random sm"
  shows "key_changes sm k (run_sessions sm xs k)"
  using assms(1)
proof (induction xs arbitrary: k)
  case (Cons x xs)
  have step: "key_changes sm k (run_session_op sm x k)" using run_session_op_changes[OF Cons.prems] .
  show ?case
    using Cons.IH[OF key_changes_keep(1)[OF step assms(2) Cons.prems]] step by (auto intro: rtranclp_trans)
qed simp

lemma no_keys_ok: "keys_ok sm no_keys"
  by (simp add: keys_ok_def no_keys_def)

lemma reachable_keys_ok: "honest_random sm \<Longrightarrow> keys_ok sm (run_sessions sm xs no_keys)"
  using key_changes_keep(1)[OF run_sessions_changes[OF no_keys_ok] _ no_keys_ok] by blast

lemma later_keeps:
  assumes "keys_ok sm k" "honest_random sm"
  shows "gone_session sm i k \<Longrightarrow> gone_session sm i (run_sessions sm xs k)"
    "spent_hash sm h k \<Longrightarrow> spent_hash sm h (run_sessions sm xs k)"
  using key_changes_keep(2,3)[OF run_sessions_changes[OF assms] assms(2)] by blast+

section \<open>A manager for the examples\<close>

definition sample_manager :: session_manager where
  "sample_manager = \<lparr>sm_max = 2, sm_ttl = 1000, sm_notifier = None, sm_random = (\<lambda>n. Ok (replicate n CHR ''r'')),
     sm_sha256 = (\<lambda>t. t), sm_uuid_text = (\<lambda>i. replicate i CHR ''u''), sm_uuid_parse = (\<lambda>t. Ok (length t)),
     sm_members = remdups\<rparr>"

lemma length_hex_encode [simp]: "length (hex_encode s) = 2 * length s"
  by (induction s) auto

lemma sample_honest: "honest_random sample_manager"
proof -
  have "drawn_hash sample_manager n h \<Longrightarrow> length h = 4 * n" for n h
    by (auto simp: drawn_hash_def sample_manager_def hash_token_def)
  note len = this
  have "m = n" if "drawn_hash sample_manager m h" "drawn_hash sample_manager n h" for m n h
    using len[OF that(1)] len[OF that(2)] by linarith
  moreover have "inj (sm_uuid_text sample_manager)"
    by (auto simp: inj_def sample_manager_def)
  ultimately show ?thesis by (auto simp: honest_random_def)
qed

section \<open>Well-formed keys\<close>

text \<open>Whatever the session manager did, with whatever failures of Redis in the middle of whatever pipeline,
  its keys are well-formed: a session is stored under its own identifier with a token hash that was drawn for it
  alone, and a session that is still there is opened by at most one refresh token.\<close>

lemma session_keys_well_formed:
  assumes "honest_random sm"
  shows "keys_ok sm (run_sessions sm xs no_keys) \<and>
    (\<forall>h h' i. live_refresh h (run_sessions sm xs no_keys) = Some i \<longrightarrow>
       live_refresh h' (run_sessions sm xs no_keys) = Some i \<longrightarrow>
       live_session i (run_sessions sm xs no_keys) \<noteq> None \<longrightarrow> h = h')"
proof (intro conjI allI impI)
  let ?k = "run_sessions sm xs no_keys"
  show ok: "keys_ok sm ?k" using reachable_keys_ok[OF assms] .
  fix h h' i assume a: "live_refresh h ?k = Some i" "live_refresh h' ?k = Some i" "live_session i ?k \<noteq> None"
  then obtain v t where "ky_sessions ?k i = Some (v, t)" using live_session_Some by blast
  then obtain row where "row_fits sm ?k i row" using keys_ok_row[OF ok] by blast
  then show "h = h'" using a live_refresh_Some row_fits_refresh by metis
qed

lemma session_keys_well_formed_witness:
  "keys_ok sample_manager (run_sessions sample_manager [OpCreate ''ann'' ''web'' ''::1''] no_keys) \<and>
   (\<exists>h i. live_refresh h (run_sessions sample_manager [OpCreate ''ann'' ''web'' ''::1''] no_keys) = Some i)"
proof -
  have "live_refresh [] (run_sessions sample_manager [OpCreate ''ann'' ''web'' ''::1''] no_keys) = Some ''u''"
    by code_simp
  then show ?thesis
    using session_keys_well_formed[OF sample_honest, of "[OpCreate ''ann'' ''web'' ''::1'']"] by blast
qed

section \<open>Refresh tokens are used once\<close>

lemma validate_Ok:
  assumes ok: "keys_ok sm k" and run: "validate_refresh_token sm token k = (k1, Ok s)"
  obtains row where "live_refresh (hash_token sm token) k = Some (se_id s)" "live_session (se_id s) k = Some (Stored row)"
    "ses_id row = se_id s" "ses_hash row = hash_token sm token" "ses_user row = se_user s"
    "ky_refresh k1 = ky_refresh k" "ky_now k1 = ky_now k" "\<not> ky_now k > ses_expires row"
    "\<exists>a x. ky_sessions k1 (se_id s) = Some (Stored (row\<lparr>ses_active := a\<rparr>), x)"
proof -
  obtain i v where i: "live_refresh (hash_token sm token) k = Some i" "live_session i k = Some v"
    using run by (auto simp: validate_refresh_token_def key_runs split: option.splits)
  then obtain t where t: "ky_sessions k i = Some (v, t)" using live_session_Some by blast
  then obtain row where row: "v = Stored row" "row_fits sm k i row" using keys_ok_row[OF ok] by blast
  then have hash: "ses_hash row = hash_token sm token"
    using i(1) live_refresh_Some row_fits_refresh[OF row(2)] by metis
  let ?row = "row\<lparr>ses_active := ky_now k\<rparr>" and ?ttl = "time_left row (ky_now k)"
  have o: "key_outcome k = None" "key_outcome (advance k) = None"
    using run i(1) by (auto simp: validate_refresh_token_def key_runs split: option.splits)
  have fresh: "\<not> ky_now k > ses_expires row"
    using run i row(1) o by (auto simp: validate_refresh_token_def key_runs run_simps)
  have eq: "validate_refresh_token sm token k =
      and_then (if 0 < ?ttl then map_err (Wrapped ''touch session'') (key_exec [set_session i ?row ?ttl]) else return ())
        (\<lambda>_. return (to_session ?row)) (advance (advance k))"
    using i row(1) o fresh by (simp add: validate_refresh_token_def key_runs Let_def time_left_def)
  have stored: "s = to_session ?row \<and> (k1 = advance (advance k) \<or> k1 = set_session i ?row ?ttl (advance (advance (advance k))))"
    using eq[unfolded run, symmetric] by (cases "0 < ?ttl") (auto simp: run_simps)
  then have id: "se_id s = i" "se_user s = ses_user row" "ses_id row = i"
    using row(2) by (auto simp: to_session_def row_fits_def)
  have "ky_sessions k1 i = Some (Stored (row\<lparr>ses_active := ses_active row\<rparr>), t) \<or>
      ky_sessions k1 i = Some (Stored ?row, expiry (advance (advance (advance k))) ?ttl)"
    using stored t row(1) by (elim conjE disjE) (simp_all add: set_session_def)
  then have there: "\<exists>a x. ky_sessions k1 (se_id s) = Some (Stored (row\<lparr>ses_active := a\<rparr>), x)"
    unfolding id by blast
  have "ky_refresh k1 = ky_refresh k" "ky_now k1 = ky_now k"
    using stored by (elim conjE disjE; simp add: set_session_def)+
  then show ?thesis
    using i row(1) id hash fresh there by (intro that[of row]) simp_all
qed

text \<open>A pipeline that is not cut short.\<close>

lemma run_exec:
  "key_outcome k = None \<Longrightarrow> and_then (map_err w (key_exec cs)) g k = g () (apply_commands cs (advance k))"
  by (simp add: and_then_def map_err_def key_exec_def)

lemma rotate_Ok:
  assumes run: "rotate_refresh_token sm i k = (k', Ok token')"
  obtains row where "live_session i k = Some (Stored row)" "drawn_hash sm (ky_draws k) (hash_token sm token')"
    "0 < time_left row (ky_now k)" "ky_draws k' = ky_draws k + 1" "ky_now k' = ky_now k"
    "ky_refresh k' = (ky_refresh k)(ses_hash row := None, hash_token sm token' := Some (i, Some (ses_expires row)))"
    "ky_sessions k' = (ky_sessions k)(i \<mapsto> (Stored (row\<lparr>ses_hash := hash_token sm token', ses_active := ky_now k\<rparr>), Some (ses_expires row)))"
proof -
  obtain v where v: "live_session i k = Some v" "key_outcome k = None"
    using run by (auto simp: rotate_refresh_token_def key_runs split: option.splits)
  obtain row where row: "v = Stored row" using run v by (cases v) (auto simp: rotate_refresh_token_def key_runs)
  obtain b where b: "sm_random sm (ky_draws k) = Ok b"
    using run v row by (auto simp: rotate_refresh_token_def key_runs split: sum.splits)
  show ?thesis
    using run v row b that[of row]
    by (auto simp: rotate_refresh_token_def key_runs Let_def run_simps time_left_def drawn_hash_def del_refresh_def
        set_session_def set_refresh_def expiry_def split: if_splits)
qed

lemma spent_not_validated:
  assumes "spent_hash sm (hash_token sm token) k"
  shows "\<exists>e. snd (validate_refresh_token sm token k) = Err e"
  using assms by (auto simp: spent_hash_def validate_refresh_token_def key_runs live_refresh_def split: option.split)

text \<open>C11: a refresh token is used once, over histories of operations that run one after the other. Once a
  token has been validated and its session rotated, no later request gets past validation with it, whatever happens in
  between. The token handed out instead opens the session of the same user again at once, if Redis answers. (A flush that
  is between its halves can bring a used token back: \<open>touch_worker_keeps_used_token\<close>.)\<close>

theorem refresh_token_used_once:
  assumes "honest_random sm"
    and "validate_refresh_token sm token (run_sessions sm xs no_keys) = (k1, Ok s)"
    and "rotate_refresh_token sm (se_id s) k1 = (k2, Ok token')"
  shows "(\<forall>ys. \<exists>e. snd (validate_refresh_token sm token (run_sessions sm ys k2)) = Err e) \<and>
    (ky_steps k2 = [] \<longrightarrow> (\<exists>k3 s'. validate_refresh_token sm token' k2 = (k3, Ok s') \<and> se_id s' = se_id s \<and> se_user s' = se_user s))"
proof (intro conjI allI impI)
  let ?k = "run_sessions sm xs no_keys" and ?h = "hash_token sm token" and ?h' = "hash_token sm token'"
  have ok: "keys_ok sm ?k" using reachable_keys_ok[OF assms(1)] .
  obtain row where row: "live_refresh ?h ?k = Some (se_id s)" "live_session (se_id s) ?k = Some (Stored row)"
      "ses_id row = se_id s" "ses_hash row = ?h" "ses_user row = se_user s"
      "ky_refresh k1 = ky_refresh ?k" "ky_now k1 = ky_now ?k" "\<not> ky_now ?k > ses_expires row"
      "\<exists>a x. ky_sessions k1 (se_id s) = Some (Stored (row\<lparr>ses_active := a\<rparr>), x)"
    by (rule validate_Ok[OF ok assms(2)])
  have k1: "key_changes sm ?k k1" using refinesD[OF validate_refines assms(2)] .
  have ok1: "keys_ok sm k1" using key_changes_keep(1)[OF k1 assms(1) ok] .
  have "key_changes sm k1 k2" using rotate_changes[OF ok1, of "se_id s"] unfolding assms(3) fst_conv .
  then have ok2: "keys_ok sm k2" using key_changes_keep(1)[OF _ assms(1) ok1] by blast
  obtain t where refresh1: "ky_refresh k1 ?h = Some (se_id s, t)"
    using live_refresh_Some[OF row(1)] unfolding row(6) by blast
  obtain r where r: "live_session (se_id s) k1 = Some (Stored r)" "drawn_hash sm (ky_draws k1) ?h'"
      "0 < time_left r (ky_now k1)" "ky_draws k2 = ky_draws k1 + 1" "ky_now k2 = ky_now k1"
      "ky_refresh k2 = (ky_refresh k1)(ses_hash r := None, ?h' := Some (se_id s, Some (ses_expires r)))"
      "ky_sessions k2 = (ky_sessions k1)(se_id s \<mapsto>
         (Stored (r\<lparr>ses_hash := ?h', ses_active := ky_now k1\<rparr>), Some (ses_expires r)))"
    by (rule rotate_Ok[OF assms(3)])
  obtain x where x: "ky_sessions k1 (se_id s) = Some (Stored r, x)" using live_session_Some[OF r(1)] by blast
  have fits: "row_fits sm k1 (se_id s) r" using keys_ok_row[OF ok1 x] by blast
  have hash: "ses_hash r = ?h" using row_fits_refresh[OF fits refresh1] by simp
  have issued: "hash_issued sm (ky_draws k1) ?h" using fits hash by (simp add: row_fits_def)
  then have new: "?h' \<noteq> ?h" using fresh_hash[OF assms(1) r(2)] by auto
  have "spent_hash sm ?h k2"
    unfolding spent_hash_def
  proof (intro conjI allI impI)
    show "ses_hash row' \<noteq> ?h" if "ky_sessions k2 j = Some (Stored row', y)" for j row' y
    proof (cases "j = se_id s")
      case True
      then show ?thesis using that r(7) new by auto
    next
      case False
      then show ?thesis using that r(7) row_fits_hash[OF fits, of j row' y] hash by auto
    qed
  qed (use issued r(4,6) hash new issued_mono(2)[OF issued] in auto)
  then show "\<exists>e. snd (validate_refresh_token sm token (run_sessions sm ys k2)) = Err e" for ys
    using spent_not_validated later_keeps(2)[OF ok2 assms(1)] by blast
  assume q: "ky_steps k2 = []"
  obtain a y where "ky_sessions k1 (se_id s) = Some (Stored (row\<lparr>ses_active := a\<rparr>), y)" using row(9) by blast
  then have "r = row\<lparr>ses_active := a\<rparr>" using x by simp
  then have user: "ses_user r = se_user s" using row(5) by simp
  have adv: "advance k2 = k2" "key_outcome k2 = None" using q by (simp_all add: advance_def key_outcome_def)
  have live: "live_refresh ?h' k2 = Some (se_id s)"
      "live_session (se_id s) k2 = Some (Stored (r\<lparr>ses_hash := ?h', ses_active := ky_now k1\<rparr>))"
    using r by (simp_all add: live_refresh_def live_session_def time_left_def)
  have "se_id s = ses_id r" using fits by (simp add: row_fits_def)
  then show "\<exists>k3 s'. validate_refresh_token sm token' k2 = (k3, Ok s') \<and> se_id s' = se_id s \<and> se_user s' = se_user s"
    using live adv user r(3,5)
    by (auto simp: validate_refresh_token_def key_runs Let_def time_left_def run_exec return_def to_session_def)
qed

definition sample_login :: "session_op list" where
  "sample_login = [OpCreate ''ann'' ''web'' ''::1'', OpTime 10]"

theorem refresh_token_used_once_witness:
  "\<exists>k1 s k2 token'.
     validate_refresh_token sample_manager [] (run_sessions sample_manager sample_login no_keys) = (k1, Ok s) \<and>
     rotate_refresh_token sample_manager (se_id s) k1 = (k2, Ok token') \<and> ky_steps k2 = [] \<and>
     (\<forall>ys. \<exists>e. snd (validate_refresh_token sample_manager [] (run_sessions sample_manager ys k2)) = Err e) \<and>
     (\<exists>k3 s'. validate_refresh_token sample_manager token' k2 = (k3, Ok s') \<and> se_id s' = se_id s)"
proof -
  let ?k = "run_sessions sample_manager sample_login no_keys"
  let ?v = "validate_refresh_token sample_manager [] ?k"
  let ?r = "rotate_refresh_token sample_manager ''u'' (fst ?v)"
  have s: "case snd ?v of Ok s \<Rightarrow> se_id s = ''u'' | Err e \<Rightarrow> False" by code_simp
  have r: "snd ?r = Ok ''72''" by code_simp
  have q: "ky_steps (fst ?r) = []" by code_simp
  obtain s where v: "snd ?v = Ok s" "se_id s = ''u''" using s by (auto split: sum.splits)
  have v': "?v = (fst ?v, Ok s)" and r': "rotate_refresh_token sample_manager (se_id s) (fst ?v) = (fst ?r, Ok ''72'')"
    using v r by (metis prod.collapse)+
  from refresh_token_used_once[OF sample_honest v' r'] q v' r' show ?thesis by blast
qed

section \<open>Revoked sessions\<close>

definition real_outcomes :: "session_keys \<Rightarrow> bool" where
  "real_outcomes k \<longleftrightarrow> (\<forall>n. Some (n, RedisNil) \<notin> set (ky_steps k))"


lemma notify_keys: "ky_sessions (fst (notify_revoked sm i u k)) = ky_sessions k \<and> ky_next_id (fst (notify_revoked sm i u k)) = ky_next_id k"
  by (auto simp: notify_revoked_def session_revoked_def ignore_err_def return_def Let_def split: option.split sum.split)

lemma revoke_found_gone:
  assumes "revoke_found sm i row k = (k1, Ok ())" "id_issued sm (ky_next_id k) i"
  shows "gone_session sm i k1"
proof -
  let ?cs = "[del_session i, del_refresh (ses_hash row), srem (ses_user row) i]"
  have "notify_revoked sm i (ses_user row) (apply_commands ?cs (advance k)) = (k1, Ok ())"
    using assms(1) by (auto simp: revoke_found_def run_simps)
  then have "k1 = fst (notify_revoked sm i (ses_user row) (apply_commands ?cs (advance k)))" by simp
  then show ?thesis
    using assms(2) by (simp add: notify_keys gone_session_def live_session_def del_session_def del_refresh_def srem_def)
qed

lemma revoke_gone:
  assumes "revoke sm i k = (k1, Ok ())" "real_outcomes k" "id_issued sm (ky_next_id k) i"
  shows "gone_session sm i k1"
proof (cases "key_outcome k")
  case (Some x)
  obtain n e where x: "x = (n, e)" by fastforce
  then have "Some (n, e) \<in> set (ky_steps k)" using Some by (auto simp: key_outcome_def split: list.splits)
  then have "e \<noteq> RedisNil" using assms(2) by (auto simp: real_outcomes_def)
  then show ?thesis using assms(1) Some x by (simp add: revoke_def key_get_def)
next
  case None
  show ?thesis
  proof (cases "live_session i k")
    case None
    then show ?thesis
      using assms(1,3) \<open>key_outcome k = None\<close> by (auto simp: revoke_def key_get_def gone_session_def)
  next
    case (Some v)
    then obtain row where "revoke_found sm i row (advance k) = (k1, Ok ())"
      using assms(1) \<open>key_outcome k = None\<close>
      by (cases v) (simp_all add: revoke_def key_get_def key_runs)
    then show ?thesis using revoke_found_gone assms(3) by simp
  qed
qed

lemma gone_not_valid: "gone_session sm i k \<Longrightarrow> snd (is_session_valid i k) \<noteq> Ok True"
  by (simp add: gone_session_def is_session_valid_def key_get_def split: option.split)

section \<open>Interleaved requests\<close>

text \<open>
  Requests run at the same time, and the pipelines of go-redis are not transactions: between any two commands of
  an operation other operations may act. What an operation has read of a session, or is about to store as a new
  one, is in flight until it has written it back. The state of a history is the keys with everything in flight;
  its steps are whole operations, the two halves of a flush, the read of a session by an operation that will
  write it back (validation, rotation, touch), a creation that has drawn its token and identifier, a draw of a
  rotation, any single command of any operation, and the end of an operation.
\<close>

type_synonym in_flight = "(string \<times> session_row) list"

fun stored_reads :: "(string \<times> stored_session option) list \<Rightarrow> in_flight" where
  "stored_reads [] = []"
| "stored_reads ((i, Some (Stored row)) # got) = (i, row) # stored_reads got"
| "stored_reads (x # got) = stored_reads got"

inductive session_command :: "in_flight \<Rightarrow> (session_keys \<Rightarrow> session_keys) \<Rightarrow> bool" for F where
  write_back: "(i, row) \<in> set F \<Longrightarrow> session_command F (set_session i (row\<lparr>ses_hash := h, ses_active := a\<rparr>) ttl)"
| remove: "session_command F (del_session i)"
| file_token: "session_command F (set_refresh h i ttl)"
| drop_token: "session_command F (del_refresh h)"
| enlist: "session_command F (sadd u i)"
| unlist: "session_command F (srem u i)"
| drop_list: "session_command F (del_user_set u)"

inductive session_step :: "session_manager \<Rightarrow> session_keys \<times> in_flight \<Rightarrow> session_keys \<times> in_flight \<Rightarrow> bool" for sm where
  operation: "session_step sm (k, F) (run_session_op sm x k, F)"
| flush_begins: "flush_read k = (k', got) \<Longrightarrow> session_step sm (k, F) (k', stored_reads got @ F)"
| flush_ends: "set (stored_reads got) \<subseteq> set F \<Longrightarrow> session_step sm (k, F) (flush_write got k, F)"
| session_read: "live_session i k = Some (Stored row) \<Longrightarrow> session_step sm (k, F) (advance k, (i, row) # F)"
| create_begins: "i = sm_uuid_text sm (ky_next_id k) \<Longrightarrow>
     session_step sm (k, F) (k\<lparr>ky_draws := ky_draws k + 1, ky_next_id := ky_next_id k + 1\<rparr>,
       (i, new_session_row sm i u h d ip (ky_now k)) # F)"
| token_drawn: "session_step sm (k, F) (k\<lparr>ky_draws := ky_draws k + 1\<rparr>, F)"
| session_command: "session_command F c \<Longrightarrow> session_step sm (k, F) (c k, F)"
| operation_ends: "set F' \<subseteq> set F \<Longrightarrow> session_step sm (k, F) (k, F')"

abbreviation session_runs :: "session_manager \<Rightarrow> session_keys \<times> in_flight \<Rightarrow> session_keys \<times> in_flight \<Rightarrow> bool" where
  "session_runs sm \<equiv> (session_step sm)\<^sup>*\<^sup>*"

lemma operations_run: "session_runs sm (k, F) (run_sessions sm xs k, F)"
  by (induction xs arbitrary: k) (auto intro: converse_rtranclp_into_rtranclp operation)

text \<open>Every session is stored under its own identifier, and so is everything in flight. This holds however
  operations interleave, unlike the invariant of the keys: a write-back may restore a hash that was replaced.\<close>

definition own_rows :: "session_keys \<Rightarrow> bool" where
  "own_rows k \<longleftrightarrow> (\<forall>i v t. ky_sessions k i = Some (v, t) \<longrightarrow> (\<exists>row. v = Stored row \<and> ses_id row = i))"

definition own_flight :: "in_flight \<Rightarrow> bool" where
  "own_flight F \<longleftrightarrow> (\<forall>i row. (i, row) \<in> set F \<longrightarrow> ses_id row = i)"

lemma own_rowsD: "own_rows k \<Longrightarrow> live_session i k = Some (Stored row) \<Longrightarrow> ses_id row = i"
  using live_session_Some unfolding own_rows_def by fastforce

lemma own_rows_put:
  "own_rows k \<Longrightarrow> ses_id row = i \<Longrightarrow> ky_sessions k' = (ky_sessions k)(i \<mapsto> (Stored row, t)) \<Longrightarrow> own_rows k'"
  unfolding own_rows_def by (auto split: if_splits)

lemma own_rows_fewer:
  "own_rows k \<Longrightarrow> (\<And>i x. ky_sessions k' i = Some x \<Longrightarrow> ky_sessions k i = Some x) \<Longrightarrow> own_rows k'"
  unfolding own_rows_def by blast

lemma key_change_own: "key_change sm k k' \<Longrightarrow> own_rows k \<Longrightarrow> own_rows k'"
proof (induction rule: key_change.induct)
  case (touch k' k i a row t)
  have "ses_id (row\<lparr>ses_active := a\<rparr>) = i" using own_rowsD[OF touch.prems touch.hyps(3)] by simp
  then show ?case by (rule own_rows_put[OF touch.prems _ touch.hyps(1)])
next
  case (rehash k' k i a h row t)
  have "ses_id (row\<lparr>ses_hash := h, ses_active := a\<rparr>) = i" using own_rowsD[OF rehash.prems rehash.hyps(3)] by simp
  then show ?case by (rule own_rows_put[OF rehash.prems _ rehash.hyps(1)])
next
  case (open_session k' k i row t)
  then show ?case using own_rows_put by blast
qed (auto simp: own_rows_def split: if_splits)

text \<open>What a step keeps: the rows stay under their own identifiers, and a session that is neither live nor in
  flight does not come back.\<close>

definition settled :: "session_manager \<Rightarrow> string \<Rightarrow> session_keys \<Rightarrow> in_flight \<Rightarrow> bool" where
  "settled sm i k F \<longleftrightarrow> gone_session sm i k \<and> i \<notin> fst ` set F"

definition flight_ok :: "session_keys \<times> in_flight \<Rightarrow> bool" where
  "flight_ok st \<longleftrightarrow> own_rows (fst st) \<and> own_flight (snd st)"

definition keeps_gone :: "session_manager \<Rightarrow> in_flight \<Rightarrow> session_keys \<Rightarrow> session_keys \<Rightarrow> bool" where
  "keeps_gone sm F k k' \<longleftrightarrow> (own_rows k \<longrightarrow> own_flight F \<longrightarrow> own_rows k') \<and> (\<forall>i. settled sm i k F \<longrightarrow> settled sm i k' F)"

lemma keeps_gone_refl [simp]: "keeps_gone sm F k k" by (simp add: keeps_gone_def)

lemma keeps_gone_trans: "keeps_gone sm F k k1 \<Longrightarrow> keeps_gone sm F k1 k2 \<Longrightarrow> keeps_gone sm F k k2"
  by (simp add: keeps_gone_def)

lemma keeps_gone_changes:
  assumes "key_changes sm k k'" "honest_random sm"
  shows "keeps_gone sm F k k'"
  using assms(1)
proof (induction rule: rtranclp_induct)
  case (step k1 k2)
  then have "keeps_gone sm F k1 k2"
    using key_change_own key_change_gone[OF _ _ assms(2)] by (auto simp: keeps_gone_def settled_def)
  then show ?case using step.IH keeps_gone_trans by blast
qed simp

lemma keeps_gone_put:
  assumes "(i, row) \<in> set F \<or> live_session i k = Some (Stored row)"
  shows "keeps_gone sm F k (set_session i (row\<lparr>ses_hash := h, ses_active := a\<rparr>) ttl k)"
proof -
  have "own_rows (set_session i (row\<lparr>ses_hash := h, ses_active := a\<rparr>) ttl k)" if "own_rows k" "own_flight F"
  proof (rule own_rows_put[OF that(1)])
    show "ses_id (row\<lparr>ses_hash := h, ses_active := a\<rparr>) = i"
      using assms that own_rowsD by (auto simp: own_flight_def)
  qed (simp add: set_session_def)
  moreover have "settled sm j k F \<longrightarrow> settled sm j (set_session i (row\<lparr>ses_hash := h, ses_active := a\<rparr>) ttl k) F" for j
    using assms by (force simp: settled_def gone_session_def live_session_def set_session_def)
  ultimately show ?thesis by (simp add: keeps_gone_def)
qed

lemma keeps_gone_command:
  assumes "session_command F c" "honest_random sm"
  shows "keeps_gone sm F k (c k)"
  using assms(1)
proof cases
  case (write_back i row h a ttl)
  then show ?thesis using keeps_gone_put by blast
next
  case (file_token h i ttl)
  then show ?thesis
    by (auto simp: keeps_gone_def settled_def gone_session_def live_session_def own_rows_def set_refresh_def)
qed (use permitted_commands keeps_gone_changes[OF _ assms(2)] in \<open>auto simp: permitted_def\<close>)

lemma keeps_gone_rotate:
  assumes "honest_random sm"
  shows "keeps_gone sm F k (fst (rotate_refresh_token sm i k))"
proof (cases "\<exists>row. live_session i k = Some (Stored row) \<and> key_outcome k = None")
  case False
  have "fst (rotate_refresh_token sm i k) = advance k"
  proof (cases "key_outcome k")
    case None
    then show ?thesis
    proof (cases "live_session i k")
      case (Some v)
      then show ?thesis using False None
        by (cases v) (simp_all add: rotate_refresh_token_def key_runs)
    qed (simp add: rotate_refresh_token_def key_runs)
  qed (auto simp: rotate_refresh_token_def key_runs)
  then show ?thesis using keeps_gone_changes[OF advance_changes assms] by simp
next
  case True
  then obtain row where row: "live_session i k = Some (Stored row)" "key_outcome k = None" by blast
  let ?k0 = "(advance k)\<lparr>ky_draws := ky_draws k + 1\<rparr>"
  have zero: "keeps_gone sm F k ?k0" by (intro keeps_gone_changes[OF _ assms] quiet_keys_step) simp_all
  show ?thesis
  proof (cases "\<not> time_left row (ky_now k) \<le> 0 \<and> (\<exists>b. sm_random sm (ky_draws k) = Ok b)")
    case False
    then show ?thesis
      using row zero by (auto simp: rotate_refresh_token_def key_runs Let_def time_left_def split: sum.split)
  next
    case True
    then obtain b where b: "sm_random sm (ky_draws k) = Ok b" by blast
    let ?h = "hash_token sm (hex_encode b)" and ?ttl = "time_left row (ky_now k)"
    let ?cs = "[del_refresh (ses_hash row), set_session i (row\<lparr>ses_hash := ?h, ses_active := ky_now k\<rparr>) ?ttl, set_refresh ?h i ?ttl]"
    obtain n where n: "fst (key_exec ?cs ?k0) = apply_commands (take n ?cs) (advance ?k0)" using key_exec_fst by blast
    have run: "fst (rotate_refresh_token sm i k) = fst (key_exec ?cs ?k0)"
    proof -
      have "rotate_refresh_token sm i k =
          and_then (map_err (Wrapped ''rotate refresh token in redis'') (key_exec ?cs)) (\<lambda>_. return (hex_encode b)) ?k0"
        using row b True by (simp add: rotate_refresh_token_def key_runs Let_def time_left_def)
      then show ?thesis by (simp add: and_then_def map_err_def return_def split: prod.split sum.split)
    qed
    let ?k1 = "del_refresh (ses_hash row) (advance ?k0)"
    have a: "keeps_gone sm F k (advance ?k0)" using keeps_gone_trans[OF zero] keeps_gone_changes[OF advance_changes assms] by blast
    have d: "keeps_gone sm F k ?k1"
      using keeps_gone_trans[OF a] keeps_gone_command[OF drop_token assms] by blast
    have live: "live_session i ?k1 = Some (Stored row)" using row by (simp add: live_session_def del_refresh_def)
    have s: "keeps_gone sm F k (set_session i (row\<lparr>ses_hash := ?h, ses_active := ky_now k\<rparr>) ?ttl ?k1)"
      using keeps_gone_trans[OF d] keeps_gone_put live by blast
    have r: "keeps_gone sm F k (set_refresh ?h i ?ttl (set_session i (row\<lparr>ses_hash := ?h, ses_active := ky_now k\<rparr>) ?ttl ?k1))"
      using keeps_gone_trans[OF s] keeps_gone_command[OF file_token assms] by blast
    show ?thesis
      unfolding run n
      using take_three[of n "del_refresh (ses_hash row)" "set_session i (row\<lparr>ses_hash := ?h, ses_active := ky_now k\<rparr>) ?ttl" "set_refresh ?h i ?ttl"]
        a d s r by auto
  qed
qed

lemma keeps_gone_operation: "honest_random sm \<Longrightarrow> keeps_gone sm F k (run_session_op sm x k)"
proof (cases "\<exists>i. x = OpRotate i")
  case False
  then show "honest_random sm \<Longrightarrow> ?thesis" using keeps_gone_changes[OF other_op_changes] by blast
qed (auto intro: keeps_gone_rotate)

lemma keeps_gone_flush_write:
  assumes "set (stored_reads got) \<subseteq> set F" "honest_random sm"
  shows "keeps_gone sm F k (flush_write got k)"
proof -
  let ?cs = "concat (map (touched (ky_now k)) got)"
  have cmd: "session_command F c" if at: "c \<in> set (touched now x)" and sub: "set (stored_reads [x]) \<subseteq> set F" for c now x
  proof -
    obtain i row where "x = (i, Some (Stored row))" "c = set_session i (row\<lparr>ses_hash := ses_hash row, ses_active := now\<rparr>) (time_left row now)"
      by (cases "(now, x)" rule: touched.cases) (use at in \<open>auto split: if_splits\<close>)
    moreover from this have "session_command F (set_session i (row\<lparr>ses_hash := ses_hash row, ses_active := now\<rparr>) (time_left row now))"
      using sub by (intro write_back) simp
    ultimately show ?thesis by simp
  qed
  have cmds: "\<forall>c \<in> set (concat (map (touched now) got)). session_command F c" for now
    using assms(1)
  proof (induction got rule: stored_reads.induct)
    case (2 i row got)
    then show ?case using cmd[of _ now "(i, Some (Stored row))"] by auto
  qed auto
  have apply_all: "keeps_gone sm F k (apply_commands cs k)" if "\<forall>c \<in> set cs. session_command F c" for cs k
    using that
  proof (induction cs arbitrary: k)
    case (Cons c cs)
    then have "keeps_gone sm F k (c k)" "keeps_gone sm F (c k) (apply_commands cs (c k))"
      using keeps_gone_command[OF _ assms(2)] by simp_all
    then show ?case unfolding apply_commands.simps by (rule keeps_gone_trans)
  qed simp
  obtain n where "fst (key_exec ?cs k) = apply_commands (take n ?cs) (advance k)" using key_exec_fst by blast
  moreover have "keeps_gone sm F (advance k) (apply_commands (take n ?cs) (advance k))"
    using cmds by (intro apply_all) (blast dest: in_set_takeD)
  ultimately have "keeps_gone sm F (advance k) (fst (key_exec ?cs k))" by (simp only:)
  then have "keeps_gone sm F k (fst (key_exec ?cs k))"
    by (rule keeps_gone_trans[OF keeps_gone_changes[OF advance_changes assms(2)]])
  then show ?thesis by (simp add: flush_write_def Let_def)
qed

lemma flush_read_reads:
  assumes "flush_read k = (k', got)" "(i, row) \<in> set (stored_reads got)"
  shows "live_session i k = Some (Stored row)"
proof -
  have mem: "(i, Some (Stored row)) \<in> set got" using assms(2) by (induction got rule: stored_reads.induct) auto
  have "got = [] \<or> got = map (\<lambda>i. (i, live_session i k)) (ky_pending k)"
    using assms(1) by (auto simp: flush_read_def Let_def live_session_def split: if_splits option.splits)
  then show ?thesis using mem by auto
qed

lemma session_step_keeps:
  assumes "session_step sm (k, F) (k', F')" "honest_random sm"
  shows "flight_ok (k, F) \<longrightarrow> flight_ok (k', F')" "settled sm i k F \<Longrightarrow> settled sm i k' F'"
proof -
  have both: "(flight_ok (k, F) \<longrightarrow> flight_ok (k', F')) \<and> (\<forall>i. settled sm i k F \<longrightarrow> settled sm i k' F')"
    using assms(1)
  proof cases
    case (operation x)
    then show ?thesis using keeps_gone_operation[OF assms(2), of F k x] by (simp add: keeps_gone_def flight_ok_def)
  next
    case (flush_begins got)
    then have read: "live_session j k = Some (Stored row)" if "(j, row) \<in> set (stored_reads got)" for j row
      using flush_read_reads that by blast
    have "keeps_gone sm F k k'"
      using refines_flush_read[of sm k] flush_begins(2) keeps_gone_changes[OF _ assms(2)] by simp
    moreover have "own_rows k \<Longrightarrow> own_flight F \<Longrightarrow> own_flight F'"
      using read own_rowsD unfolding own_flight_def flush_begins(1) by auto
    moreover have "settled sm j k F \<Longrightarrow> settled sm j k' F \<Longrightarrow> settled sm j k' F'" for j
      using read unfolding settled_def gone_session_def flush_begins(1) by fastforce
    ultimately show ?thesis by (simp add: keeps_gone_def flight_ok_def)
  next
    case (flush_ends got)
    then show ?thesis using keeps_gone_flush_write[OF _ assms(2), of got F k] by (simp add: keeps_gone_def flight_ok_def)
  next
    case (session_read j row)
    then have "keeps_gone sm F k k'" using keeps_gone_changes[OF advance_changes assms(2)] by simp
    moreover have "own_rows k \<Longrightarrow> own_flight F \<Longrightarrow> own_flight F'"
      using session_read own_rowsD unfolding own_flight_def by auto
    moreover have "settled sm l k F \<Longrightarrow> settled sm l k' F \<Longrightarrow> settled sm l k' F'" for l
      using session_read unfolding settled_def gone_session_def by auto
    ultimately show ?thesis by (simp add: keeps_gone_def flight_ok_def)
  next
    case (create_begins j u h d ip)
    then have "keeps_gone sm F k k'" by (intro keeps_gone_changes[OF _ assms(2)] quiet_keys_step) simp_all
    moreover have "own_flight F \<Longrightarrow> own_flight F'"
      using create_begins unfolding own_flight_def by (auto simp: new_session_row_def)
    moreover have "settled sm l k F \<Longrightarrow> settled sm l k' F \<Longrightarrow> settled sm l k' F'" for l
      using create_begins fresh_session_id[OF assms(2)] unfolding settled_def gone_session_def by auto
    ultimately show ?thesis by (simp add: keeps_gone_def flight_ok_def)
  next
    case token_drawn
    then have "keeps_gone sm F k k'" by (intro keeps_gone_changes[OF _ assms(2)] quiet_keys_step) simp_all
    then show ?thesis using token_drawn by (simp add: keeps_gone_def flight_ok_def)
  next
    case (session_command c)
    then show ?thesis using keeps_gone_command[OF _ assms(2), of F c k] by (simp add: keeps_gone_def flight_ok_def)
  next
    case operation_ends
    then show ?thesis by (auto simp: flight_ok_def own_flight_def settled_def)
  qed
  from both show "flight_ok (k, F) \<longrightarrow> flight_ok (k', F')" by blast
  from both show "settled sm i k F \<Longrightarrow> settled sm i k' F'" by blast
qed

lemma session_runs_keep:
  assumes "session_runs sm st st'" "honest_random sm"
  shows "flight_ok st \<Longrightarrow> flight_ok st'" "settled sm i (fst st) (snd st) \<Longrightarrow> settled sm i (fst st') (snd st')"
  using assms(1) by (induction rule: rtranclp_induct) (metis prod.collapse session_step_keeps[OF _ assms(2)])+

lemma validated_session_live:
  assumes "own_rows k" "snd (validate_refresh_token sm token k) = Ok s"
  shows "live_session (se_id s) k \<noteq> None"
proof -
  let ?h = "hash_token sm token"
  obtain i where i: "live_refresh ?h k = Some i" "key_outcome k = None"
    using assms(2) by (auto simp: validate_refresh_token_def key_runs split: option.splits)
  obtain v where v: "live_session i k = Some v" "key_outcome (advance k) = None"
    using assms(2) i by (auto simp: validate_refresh_token_def key_runs split: option.splits)
  obtain row where row: "v = Stored row" using assms(2) i v by (cases v) (auto simp: validate_refresh_token_def key_runs)
  let ?row = "row\<lparr>ses_active := ky_now k\<rparr>" and ?ttl = "time_left row (ky_now k)"
  have "\<not> ky_now k > ses_expires row"
  proof
    assume "ky_now k > ses_expires row"
    then have "validate_refresh_token sm token k =
        and_then (ignore_err (revoke sm i)) (\<lambda>_. fail (PlainError ''session expired'')) (advance (advance k))"
      using i v row by (simp add: validate_refresh_token_def key_runs)
    then show False using assms(2) by (simp add: and_then_def ignore_err_def fail_def)
  qed
  then have "validate_refresh_token sm token k =
      and_then (if 0 < ?ttl then map_err (Wrapped ''touch session'') (key_exec [set_session i ?row ?ttl]) else return ())
        (\<lambda>_. return (to_session ?row)) (advance (advance k))"
    using i v row by (simp add: validate_refresh_token_def key_runs Let_def time_left_def)
  then have "s = to_session ?row"
    using assms(2) by (auto simp: and_then_def return_def split: prod.splits sum.splits)
  then have "se_id s = ses_id row" by (simp add: to_session_def)
  then show ?thesis using own_rowsD[OF assms(1)] v(1) row by simp
qed



section \<open>The limit of sessions\<close>

definition honest_members :: "session_manager \<Rightarrow> bool" where
  "honest_members sm \<longleftrightarrow> (\<forall>xs. set (sm_members sm xs) = set xs \<and> distinct (sm_members sm xs))"

lemma answering [simp]: "ky_steps k = [] \<Longrightarrow> advance k = k" "ky_steps k = [] \<Longrightarrow> key_outcome k = None"
  by (simp_all add: advance_def key_outcome_def)

text \<open>What a scan of a user's sessions finds, when Redis answers: the live ones; the sessions stay as they are.\<close>

definition found_sessions :: "session_keys \<Rightarrow> string list \<Rightarrow> (string \<times> instant) list" where
  "found_sessions k ids =
     concat (map (\<lambda>i. case live_session i k of Some (Stored row) \<Rightarrow> [(i, ses_created row)] | _ \<Rightarrow> []) ids)"

definition live_ids :: "session_keys \<Rightarrow> string \<Rightarrow> string set" where
  "live_ids k u = {i \<in> set (ky_users k u). live_session i k \<noteq> None}"

lemma found_in: "live_session i k = Some (Stored row) \<Longrightarrow> i \<in> set ids \<Longrightarrow> (i, ses_created row) \<in> set (found_sessions k ids)"
  by (auto simp: found_sessions_def intro!: bexI[of _ i])

lemma found_only: "(i, c) \<in> set (found_sessions k ids) \<Longrightarrow> i \<in> set ids \<and> (\<exists>row. live_session i k = Some (Stored row) \<and> c = ses_created row)"
  by (auto simp: found_sessions_def split: option.splits stored_session.splits) metis

lemma found_fst: "fst ` set (found_sessions k ids) = {i \<in> set ids. \<exists>row. live_session i k = Some (Stored row)}"
proof
  show "fst ` set (found_sessions k ids) \<subseteq> {i \<in> set ids. \<exists>row. live_session i k = Some (Stored row)}"
    by (auto dest!: found_only)
  show "{i \<in> set ids. \<exists>row. live_session i k = Some (Stored row)} \<subseteq> fst ` set (found_sessions k ids)"
  proof
    fix i assume "i \<in> {i \<in> set ids. \<exists>row. live_session i k = Some (Stored row)}"
    then obtain row where "i \<in> set ids" "live_session i k = Some (Stored row)" by blast
    then show "i \<in> fst ` set (found_sessions k ids)" using found_in by force
  qed
qed

lemma found_distinct: "distinct ids \<Longrightarrow> distinct (map fst (found_sessions k ids))"
proof (induction ids)
  case (Cons i ids)
  then have "i \<notin> fst ` set (found_sessions k ids)" using found_only by fastforce
  then show ?case using Cons by (auto simp: found_sessions_def split: option.splits stored_session.splits)
qed (simp add: found_sessions_def)

lemma load_answering:
  assumes "ky_steps k = []" "keys_ok sm k"
  shows "\<exists>f. load_sessions u ids k = (k\<lparr>ky_users := f\<rparr>, Ok (found_sessions k ids)) \<and> live_ids (k\<lparr>ky_users := f\<rparr>) u = live_ids k u"
  using assms
proof (induction ids arbitrary: k)
  case Nil
  have "k = k\<lparr>ky_users := ky_users k\<rparr>" by simp
  then show ?case by (intro exI[of _ "ky_users k"]) (simp add: return_def found_sessions_def)
next
  case (Cons i ids)
  show ?case
  proof (cases "live_session i k")
    case None
    let ?k = "srem u i k"
    have same: "live_session j ?k = live_session j k" for j by (simp add: live_session_def srem_def)
    have ok: "keys_ok sm ?k" using Cons.prems(2) by (simp add: keys_ok_def row_fits_def srem_def)
    have found: "found_sessions ?k ids = found_sessions k (i # ids)"
      unfolding found_sessions_def same using None by simp
    have "ky_steps ?k = []" using Cons.prems by (simp add: srem_def)
    from Cons.IH[OF this ok] obtain f where
      f: "load_sessions u ids ?k = (?k\<lparr>ky_users := f\<rparr>, Ok (found_sessions ?k ids))" "live_ids (?k\<lparr>ky_users := f\<rparr>) u = live_ids ?k u"
      by blast
    have "load_sessions u (i # ids) k = load_sessions u ids ?k"
      using Cons.prems(1) None by (simp add: key_get_def key_exec_def)
    moreover have "live_ids ?k u = live_ids k u" unfolding live_ids_def same using None by (auto simp: srem_def)
    moreover have "?k\<lparr>ky_users := f\<rparr> = k\<lparr>ky_users := f\<rparr>" by (simp add: srem_def)
    ultimately show ?thesis using f found by auto
  next
    case (Some v)
    then obtain row where row: "v = Stored row" using keys_ok_row[OF Cons.prems(2)] live_session_Some by blast
    from Cons.IH[OF Cons.prems] obtain f where
      f: "load_sessions u ids k = (k\<lparr>ky_users := f\<rparr>, Ok (found_sessions k ids))" "live_ids (k\<lparr>ky_users := f\<rparr>) u = live_ids k u"
      by blast
    have "load_sessions u (i # ids) k = (k\<lparr>ky_users := f\<rparr>, Ok ((i, ses_created row) # found_sessions k ids))"
      using Cons.prems(1) Some row f(1) by (simp add: key_get_def and_then_def return_def)
    moreover have "found_sessions k (i # ids) = (i, ses_created row) # found_sessions k ids"
      using Some row by (simp add: found_sessions_def)
    ultimately show ?thesis using f(2) by auto
  qed
qed

lemma notify_quiet:
  "\<exists>k1. notify_revoked sm i u k = (k1, Ok ()) \<and> ky_steps k1 = ky_steps k \<and> ky_now k1 = ky_now k \<and>
     ky_sessions k1 = ky_sessions k \<and> ky_users k1 = ky_users k"
  by (auto simp: notify_revoked_def session_revoked_def ignore_err_def return_def Let_def split: option.split sum.split)

lemma revoke_answering:
  assumes "ky_steps k = []" "keys_ok sm k"
  obtains k1 where "revoke sm i k = (k1, Ok ())" "ky_steps k1 = []" "ky_now k1 = ky_now k"
    "\<And>j. live_session j k1 = (if j = i then None else live_session j k)" "\<And>w. set (ky_users k1 w) \<subseteq> set (ky_users k w)"
proof (cases "live_session i k")
  case None
  then show ?thesis using assms that[of k] by (simp add: revoke_def key_get_def)
next
  case (Some v)
  then obtain row where row: "v = Stored row" using keys_ok_row[OF assms(2)] live_session_Some by blast
  let ?k = "apply_commands [del_session i, del_refresh (ses_hash row), srem (ses_user row) i] k"
  have k: "ky_steps ?k = []" "ky_now ?k = ky_now k" "set (ky_users ?k w) \<subseteq> set (ky_users k w)"
    "ky_sessions ?k = (ky_sessions k)(i := None)" for w
    using assms by (auto simp: del_session_def del_refresh_def srem_def)
  obtain k1 where n: "notify_revoked sm i (ses_user row) ?k = (k1, Ok ())" "ky_steps k1 = ky_steps ?k" "ky_now k1 = ky_now ?k"
      "ky_sessions k1 = ky_sessions ?k" "ky_users k1 = ky_users ?k"
    using notify_quiet by blast
  have "revoke sm i k = notify_revoked sm i (ses_user row) ?k"
    using assms(1) Some row by (simp add: revoke_def revoke_found_def key_get_def key_runs run_exec)
  then show ?thesis
    using n k by (intro that[of k1]) (auto simp: live_session_def)
qed

lemma revoke_each_answering:
  assumes "ky_steps k = []" "keys_ok sm k" "honest_random sm"
  shows "\<exists>k1. revoke_each sm ids k = (k1, Ok ()) \<and> ky_steps k1 = [] \<and>
    (\<forall>j. live_session j k1 = (if j \<in> set ids then None else live_session j k)) \<and> (\<forall>w. set (ky_users k1 w) \<subseteq> set (ky_users k w))"
  using assms(1,2)
proof (induction ids arbitrary: k)
  case (Cons i ids)
  obtain k1 where k1: "revoke sm i k = (k1, Ok ())" "ky_steps k1 = []"
      "\<And>j. live_session j k1 = (if j = i then None else live_session j k)" "\<And>w. set (ky_users k1 w) \<subseteq> set (ky_users k w)"
    using revoke_answering[OF Cons.prems] by metis
  have "keys_ok sm k1" using key_changes_keep(1)[OF refinesD[OF refines_revoke k1(1)] assms(3) Cons.prems(2)] .
  from Cons.IH[OF k1(2) this] obtain k2 where k2: "revoke_each sm ids k1 = (k2, Ok ())" "ky_steps k2 = []"
      "\<forall>j. live_session j k2 = (if j \<in> set ids then None else live_session j k1)" "\<forall>w. set (ky_users k2 w) \<subseteq> set (ky_users k1 w)"
    by blast
  have "revoke_each sm (i # ids) k = (k2, Ok ())" using k1(1) k2(1) by (simp add: and_then_def ignore_err_def)
  moreover have "set (ky_users k2 w) \<subseteq> set (ky_users k w)" for w using k2(4) k1(4) by (meson subset_trans)
  ultimately show ?case using k2(2,3) k1(3) by (intro exI[of _ k2]) simp
qed (simp add: return_def)

lemma sorted_take_drop:
  fixes f :: "'a \<Rightarrow> instant"
  assumes "a \<in> set (take n (sort_key f xs))" "b \<in> set (drop n (sort_key f xs))"
  shows "f a \<le> f b"
proof -
  have "sorted (map f (take n (sort_key f xs)) @ map f (drop n (sort_key f xs)))"
    by (metis append_take_drop_id map_append sorted_sort_key)
  then show ?thesis using assms by (auto simp: sorted_append)
qed

definition created_at :: "session_keys \<Rightarrow> string \<Rightarrow> instant" where
  "created_at k i = (case live_session i k of Some (Stored row) \<Rightarrow> ses_created row | _ \<Rightarrow> 0)"

lemma found_created: "(i, c) \<in> set (found_sessions k ids) \<Longrightarrow> c = created_at k i"
  using found_only[of i c k ids] by (auto simp: created_at_def)

text \<open>Enforcing the limit on a Redis that answers: at most the limit stays, the oldest sessions go first, and a
  session younger than all others is kept.\<close>

lemma enforce_answering:
  assumes quiet: "ky_steps k = []" and ok: "keys_ok sm k" and honest: "honest_random sm" "honest_members sm" and max: "0 < sm_max sm"
  shows "\<exists>k1. enforce_max_sessions sm u k = (k1, Ok ()) \<and> ky_steps k1 = [] \<and> int (card (live_ids k1 u)) \<le> sm_max sm \<and>
    (\<forall>j. live_session j k1 = None \<or> live_session j k1 = live_session j k) \<and>
    (\<forall>j. live_session j k \<noteq> None \<longrightarrow> live_session j k1 = None \<longrightarrow> (\<forall>i \<in> live_ids k1 u. created_at k j \<le> created_at k i)) \<and>
    (\<forall>j \<in> live_ids k u. (\<forall>i \<in> live_ids k u. i \<noteq> j \<longrightarrow> created_at k i < created_at k j) \<longrightarrow> live_session j k1 \<noteq> None)"
proof -
  let ?ids = "sm_members sm (ky_users k u)"
  let ?L = "found_sessions k ?ids"
  have ids: "set ?ids = set (ky_users k u)" "distinct ?ids" using honest(2) by (auto simp: honest_members_def)
  have members: "key_members sm u k = (k, Ok ?ids)" using quiet by (simp add: key_members_def)
  have row: "\<exists>row. live_session i k = Some (Stored row)" if mem: "i \<in> live_ids k u" for i
  proof -
    obtain v where v: "live_session i k = Some v" using mem unfolding live_ids_def by blast
    then show ?thesis using keys_ok_row[OF ok] live_session_Some by blast
  qed
  have fst: "fst ` set ?L = live_ids k u"
    unfolding found_fst ids(1) live_ids_def using row by (auto simp: live_ids_def)
  have card: "card (live_ids k u) \<le> length ?L"
    by (metis fst card_length length_map set_map)
  obtain f where f: "load_sessions u ?ids k = (k\<lparr>ky_users := f\<rparr>, Ok ?L)" "live_ids (k\<lparr>ky_users := f\<rparr>) u = live_ids k u"
    using load_answering[OF quiet ok] by blast
  let ?k = "k\<lparr>ky_users := f\<rparr>"
  have live: "live_session j ?k = live_session j k" for j by (simp add: live_session_def)
  show ?thesis
  proof (cases "int (length ?ids) \<le> sm_max sm \<or> int (length ?L) \<le> sm_max sm")
    case True
    have "card (live_ids k u) \<le> length ?ids"
      using ids by (metis (no_types, lifting) card_length card_mono List.finite_set live_ids_def mem_Collect_eq order_trans subsetI)
    with True card have le: "int (card (live_ids k u)) \<le> sm_max sm" by linarith
    have "enforce_max_sessions sm u k = (k, Ok ()) \<or> enforce_max_sessions sm u k = (?k, Ok ())"
      using True members f(1) by (auto simp: enforce_max_sessions_def and_then_def map_err_def return_def)
    then show ?thesis using le f(2) live quiet by (elim disjE) (auto simp: live_ids_def)
  next
    case False
    define n where "n = nat (int (length ?L) - sm_max sm)"
    let ?S = "sort_key snd ?L"
    have okf: "keys_ok sm ?k" using ok by (simp add: keys_ok_def row_fits_def)
    obtain k1 where k1: "revoke_each sm (map fst (take n ?S)) ?k = (k1, Ok ())" "ky_steps k1 = []"
        "\<And>j. live_session j k1 = (if j \<in> set (map fst (take n ?S)) then None else live_session j k)"
        "\<And>w. set (ky_users k1 w) \<subseteq> set (f w)"
      using revoke_each_answering[OF _ okf honest(1)] quiet unfolding live by fastforce
    have run: "enforce_max_sessions sm u k = (k1, Ok ())"
      using False members f(1) k1(1) by (simp add: enforce_max_sessions_def and_then_def map_err_def n_def)
    have split: "set ?L = set (take n ?S) \<union> set (drop n ?S)"
      by (metis append_take_drop_id set_append set_sort)
    have inL: "live_ids ?k u \<subseteq> fst ` set ?L" using f(2) fst by simp
    have kept: "live_ids k1 u \<subseteq> fst ` set (drop n ?S)"
    proof
      fix i assume i: "i \<in> live_ids k1 u"
      then have "i \<in> live_ids ?k u" "i \<notin> fst ` set (take n ?S)"
        using k1(3,4) live unfolding live_ids_def by (auto split: if_splits)
      then show "i \<in> fst ` set (drop n ?S)" using inL split by fastforce
    qed
    have "length (drop n ?S) = nat (sm_max sm)"
    proof -
      have "length (drop n ?S) = length ?L - n" "sm_max sm < int (length ?L)" using False by simp_all
      then show ?thesis using max unfolding n_def by arith
    qed
    moreover have "card (live_ids k1 u) \<le> card (fst ` set (drop n ?S))" using kept by (simp add: card_mono)
    moreover have "card (fst ` set (drop n ?S)) \<le> length (drop n ?S)"
      by (metis card_length length_map set_map)
    ultimately have le: "int (card (live_ids k1 u)) \<le> sm_max sm" using max by linarith
    have pair: "x \<in> set ?S \<Longrightarrow> snd x = created_at k (fst x)" for x
      using found_created[of "fst x" "snd x" k ?ids] by simp
    have pairs: "x \<in> set (take n ?S) \<Longrightarrow> snd x = created_at k (fst x)" "x \<in> set (drop n ?S) \<Longrightarrow> snd x = created_at k (fst x)" for x
      using pair[OF in_set_takeD] pair[OF in_set_dropD] by blast+
    have order: "created_at k j \<le> created_at k i" if ji: "j \<in> fst ` set (take n ?S)" "i \<in> fst ` set (drop n ?S)" for i j
    proof -
      obtain x y where "x \<in> set (take n ?S)" "y \<in> set (drop n ?S)" "j = fst x" "i = fst y" using ji by blast
      then show ?thesis using sorted_take_drop[of x n snd ?L y] pairs by simp
    qed
    have youngest: "live_session j k1 \<noteq> None"
      if j: "j \<in> live_ids k u" and young: "\<forall>i \<in> live_ids k u. i \<noteq> j \<longrightarrow> created_at k i < created_at k j" for j
    proof (rule ccontr)
      assume "\<not> live_session j k1 \<noteq> None"
      then have jt: "j \<in> fst ` set (take n ?S)" using j k1(3)[of j] by (auto simp: live_ids_def split: if_splits)
      obtain x where x: "x \<in> set (drop n ?S)"
        using \<open>length (drop n ?S) = nat (sm_max sm)\<close> max by (cases "drop n ?S") auto
      have "distinct (map fst ?S)" using found_distinct[OF ids(2)] by (simp add: distinct_map)
      then have "distinct (map fst (take n ?S) @ map fst (drop n ?S))" by (metis append_take_drop_id map_append)
      then have "fst x \<noteq> j" using jt x by auto
      moreover have "fst x \<in> live_ids k u" using x split fst by blast
      moreover have "created_at k j \<le> created_at k (fst x)" using order[OF jt] x by blast
      ultimately show False using young by fastforce
    qed
    have oldest: "created_at k j \<le> created_at k i"
      if gone: "live_session j k \<noteq> None" "live_session j k1 = None" and i: "i \<in> live_ids k1 u" for i j
    proof -
      have "j \<in> fst ` set (take n ?S)" using k1(3)[of j] gone by (simp split: if_splits)
      then show ?thesis using order kept i by blast
    qed
    have "live_session j k1 = None \<or> live_session j k1 = live_session j k" for j using k1(3) by simp
    then show ?thesis using run k1(2) le youngest oldest by blast
  qed
qed

text \<open>C12: the number of sessions of a user is bounded. When Redis answers every command, a session that is created
  leaves on the user's list at most the configured number of live sessions; those given up are the oldest; and the new
  session is among those kept if no other was created at the same instant. A live session that is not on the list
  any more (one that \<open>RevokeAllUserSessions\<close> failed to revoke) is not counted, and when Redis does not answer,
  \<open>Create\<close> succeeds although the limit was not enforced.\<close>

theorem session_limit:
  assumes "honest_random sm" "honest_members sm" "0 < sm_max sm" "0 < sm_ttl sm"
    and "k = run_sessions sm xs no_keys" "ky_steps k = []"
    and "create_session sm u d ip k = (k', Ok (s, token))"
  shows "int (card (live_ids k' u)) \<le> sm_max sm \<and>
    (\<forall>i \<in> live_ids k u - live_ids k' u. live_session i k' = None \<longrightarrow> (\<forall>j \<in> live_ids k' u. created_at k i \<le> created_at k' j)) \<and>
    ((\<forall>i \<in> live_ids k u. created_at k i < ky_now k) \<longrightarrow> live_session (se_id s) k' \<noteq> None)"
proof -
  have ok: "keys_ok sm k" using reachable_keys_ok[OF assms(1)] assms(5) by simp
  obtain b where b: "sm_random sm (ky_draws k) = Ok b"
    using assms(7) by (auto simp: create_session_def key_runs split: sum.splits)
  let ?h = "hash_token sm (hex_encode b)" and ?i = "sm_uuid_text sm (ky_next_id k)"
  let ?row = "new_session_row sm ?i u ?h d ip (ky_now k)"
  let ?cs = "[set_session ?i ?row (sm_ttl sm), set_refresh ?h ?i (sm_ttl sm), sadd u ?i]"
  let ?k0 = "k\<lparr>ky_draws := ky_draws k + 1, ky_next_id := ky_next_id k + 1\<rparr>"
  let ?k1 = "apply_commands ?cs ?k0"
  have quiet: "ky_steps ?k0 = []" using assms(6) by simp
  have run: "create_session sm u d ip k =
      and_then (ignore_err (enforce_max_sessions sm u)) (\<lambda>_. return (to_session ?row, hex_encode b)) ?k1"
    using b quiet by (simp add: create_session_def key_runs Let_def run_exec)
  have "drawn_hash sm (ky_draws k) ?h" using b by (auto simp: drawn_hash_def)
  then have "key_changes sm k (apply_commands (take 3 ?cs) ?k0)"
    using apply_open[of ?k0 k ?i sm ?row 3 "sm_ttl sm" "sm_ttl sm" u] by (simp add: new_session_row_def)
  then have ok1: "keys_ok sm ?k1" using key_changes_keep(1)[OF _ assms(1) ok] by simp
  have "ky_steps ?k1 = []" using quiet by (simp add: set_session_def set_refresh_def sadd_def)
  from enforce_answering[OF this ok1 assms(1-3), of u] obtain k2 where
    k2: "enforce_max_sessions sm u ?k1 = (k2, Ok ())" "int (card (live_ids k2 u)) \<le> sm_max sm"
      "\<forall>j. live_session j k2 = None \<or> live_session j k2 = live_session j ?k1"
      "\<forall>j. live_session j ?k1 \<noteq> None \<longrightarrow> live_session j k2 = None \<longrightarrow> (\<forall>i \<in> live_ids k2 u. created_at ?k1 j \<le> created_at ?k1 i)"
      "\<forall>j \<in> live_ids ?k1 u. (\<forall>i \<in> live_ids ?k1 u. i \<noteq> j \<longrightarrow> created_at ?k1 i < created_at ?k1 j) \<longrightarrow> live_session j k2 \<noteq> None"
    by blast
  have res: "k' = k2" "s = to_session ?row"
    using assms(7) k2(1) unfolding run by (auto simp: and_then_def ignore_err_def return_def)
  have new: "live_session ?i k = None"
    using fresh_session_id[OF assms(1)] keys_ok_row[OF ok] live_session_Some by (metis not_None_eq row_fits_def)
  have live: "live_session j ?k1 = (if j = ?i then Some (Stored ?row) else live_session j k)" for j
    using assms(4) by (simp add: live_session_def set_session_def set_refresh_def sadd_def expiry_def)
  have ids: "live_ids ?k1 u = insert ?i (live_ids k u)"
    unfolding live_ids_def live by (auto simp: set_session_def set_refresh_def sadd_def)
  have created: "created_at ?k1 j = (if j = ?i then ky_now k else created_at k j)" for j
    unfolding created_at_def live by (simp add: new_session_row_def)
  have "created_at k i \<le> created_at k2 j"
    if "i \<in> live_ids k u" "live_session i k2 = None" "j \<in> live_ids k2 u" for i j
  proof -
    have i: "i \<noteq> ?i" "live_session i ?k1 \<noteq> None" using that(1) new live by (auto simp: live_ids_def)
    have "live_session j k2 \<noteq> None" using that(3) by (simp add: live_ids_def)
    with spec[OF k2(3), of j] have "live_session j k2 = live_session j ?k1" by argo
    then have "created_at k2 j = created_at ?k1 j" by (simp add: created_at_def)
    moreover have "created_at ?k1 i \<le> created_at ?k1 j" using k2(4) i(2) that(2,3) by blast
    ultimately show ?thesis using created[of i] i(1) by simp
  qed
  moreover have "live_session ?i k2 \<noteq> None" if "\<forall>i \<in> live_ids k u. created_at k i < ky_now k"
    using k2(5) that ids created by auto
  moreover have "se_id s = ?i" by (simp add: res to_session_def new_session_row_def)
  ultimately show ?thesis using k2(2) res(1) by simp
qed

definition three_logins :: "session_op list" where
  "three_logins = [OpCreate ''ann'' ''web'' ''::1'', OpTime 1, OpCreate ''ann'' ''phone'' ''::1'', OpTime 1]"

theorem session_limit_witness:
  "\<exists>k' s token. create_session sample_manager ''ann'' ''tv'' ''::1'' (run_sessions sample_manager three_logins no_keys) = (k', Ok (s, token)) \<and>
     card (live_ids k' ''ann'') \<le> 2 \<and> live_session (se_id s) k' \<noteq> None"
proof -
  let ?k = "run_sessions sample_manager three_logins no_keys"
  let ?r = "create_session sample_manager ''ann'' ''tv'' ''::1'' ?k"
  have ok: "case snd ?r of Ok (s, token) \<Rightarrow> True | Err e \<Rightarrow> False" by code_simp
  then obtain s token where r: "?r = (fst ?r, Ok (s, token))" by (auto split: sum.splits) (metis prod.collapse)
  have q: "ky_steps ?k = []" and now: "ky_now ?k = 2" and users: "ky_users ?k ''ann'' = [''u'', ''uu'']"
    and created: "created_at ?k ''u'' = 0" "created_at ?k ''uu'' = 1" by code_simp+
  have members: "honest_members sample_manager" by (simp add: honest_members_def sample_manager_def)
  have "0 < sm_max sample_manager" "0 < sm_ttl sample_manager" "sm_max sample_manager = 2" by (simp_all add: sample_manager_def)
  note limit = session_limit[OF sample_honest members this(1,2) refl q r] this(3)
  have "\<forall>i \<in> live_ids ?k ''ann''. created_at ?k i < ky_now ?k"
    using users created now by (auto simp: live_ids_def)
  then show ?thesis using limit r by (metis int_ops(3) of_nat_le_iff of_nat_numeral)
qed

section \<open>What interleaved requests do\<close>

text \<open>
  The touch worker reads the sessions in one pipeline and writes them back in another. A session revoked in
  between is written back and is valid again.
\<close>

lemma touch_worker_revives_session:
  "let k = defer_touch ''u'' (run_sessions sample_manager sample_login no_keys);
       (k1, got) = flush_read k;
       (k2, r) = revoke sample_manager ''u'' k1
   in r = Ok () \<and> snd (is_session_valid ''u'' k2) = Ok False \<and> snd (is_session_valid ''u'' (flush_write got k2)) = Ok True"
  by code_simp

text \<open>
  A session whose token was rotated in between is written back with its old hash. The next rotation then deletes
  the key of the old hash a second time, and the token it replaces stays usable.
\<close>

lemma touch_worker_keeps_used_token:
  "let k = defer_touch ''u'' (run_sessions sample_manager sample_login no_keys);
       (k1, got) = flush_read k;
       (k2, r1) = rotate_refresh_token sample_manager ''u'' k1;
       (k3, r2) = rotate_refresh_token sample_manager ''u'' (flush_write got k2)
   in r1 = Ok ''72'' \<and> r2 = Ok ''7272'' \<and>
      (case snd (validate_refresh_token sample_manager ''72'' k3) of Ok s \<Rightarrow> se_id s = ''u'' | Err e \<Rightarrow> False)"
  by code_simp

text \<open>Two requests that validate the same refresh token before either of them rotates it both get tokens.\<close>

lemma refresh_token_used_twice:
  "let k = run_sessions sample_manager sample_login no_keys;
       (k1, r1) = validate_refresh_token sample_manager [] k;
       (k2, r2) = validate_refresh_token sample_manager [] k1;
       (k3, t1) = rotate_refresh_token sample_manager ''u'' k2;
       (k4, t2) = rotate_refresh_token sample_manager ''u'' k3
   in t1 = Ok ''72'' \<and> t2 = Ok ''7272'' \<and> (case r1 of Ok s \<Rightarrow> se_id s = ''u'' | Err e \<Rightarrow> False) \<and>
      (case r2 of Ok s \<Rightarrow> se_id s = ''u'' | Err e \<Rightarrow> False)"
  by code_simp

text \<open>
  \<open>RevokeAllUserSessions\<close> reports success although the revocation of a session failed, and then forgets the
  session: it stays valid and neither the list nor the limit see it any more.
\<close>

lemma logout_everywhere_leaves_session:
  "let k = (run_sessions sample_manager sample_login no_keys)\<lparr>ky_steps := [None, Some (0, DeadlineExceeded)]\<rparr>;
       (k1, r) = revoke_all_user_sessions sample_manager ''ann'' k
   in r = Ok () \<and> ky_users k1 ''ann'' = [] \<and> snd (is_session_valid ''u'' k1) = Ok True"
  by code_simp

end
