(* ===== verification/AuthProps.thy ===== *)
theory AuthProps
  imports Auth SessionProps
begin

text \<open>
  Properties of the authentication service: who registered can log in and nobody else with another password, an
  accepted request stands on a live session, refreshing spends the old token, and the slugs of workspaces.
\<close>

section \<open>Running the service\<close>

lemma auth_clock_run [step_exec]: "and_then auth_clock g w = g (ky_now (aw_keys w)) w"
  by (simp add: and_then_def auth_clock_def)

lemma auth_new_id_run [step_exec]: "and_then auth_new_id g w = g (aw_next_id w) (w\<lparr>aw_next_id := aw_next_id w + 1\<rparr>)"
  by (simp add: and_then_def auth_new_id_def)

lemma auth_accounts_run:
  "snd (f (aw_accounts w)) = None \<Longrightarrow>
     and_then (map_err g (auth_accounts f)) h w = h () (w\<lparr>aw_accounts := fst (f (aw_accounts w))\<rparr>)"
  by (cases "f (aw_accounts w)") (simp add: and_then_def map_err_def auth_accounts_def unit_result_def)

lemma auth_statement_Ok [run_simps]:
  "auth_accounts f w = (w', Ok x) \<longleftrightarrow> (\<exists>t. f (aw_accounts w) = (t, None) \<and> w' = w\<lparr>aw_accounts := t\<rparr>)"
  "auth_db h w = (w', Ok x) \<longleftrightarrow> (\<exists>d. h (aw_db w) = (d, None) \<and> w' = w\<lparr>aw_db := d\<rparr>)"
  "auth_keys m w = (w', Ok y) \<longleftrightarrow> (\<exists>k. m (aw_keys w) = (k, Ok y) \<and> w' = w\<lparr>aw_keys := k\<rparr>)"
  by (auto simp: auth_accounts_def auth_db_def auth_keys_def split: prod.splits)

section \<open>Registration and login\<close>

text \<open>What bcrypt promises: it reads at most 72 bytes and takes a zero byte for the end of its input, so only among
  inputs of at most 72 bytes without a zero is a hash matched by what it was made from and by nothing else. What
  SHA-256 promises here: 32 bytes.\<close>

definition bcrypt_input :: "string \<Rightarrow> bool" where
  "bcrypt_input p \<longleftrightarrow> length p \<le> 72 \<and> CHR 0x00 \<notin> set p"

definition honest_bcrypt :: "auth_service \<Rightarrow> bool" where
  "honest_bcrypt s \<longleftrightarrow>
     (\<forall>p h q. av_bcrypt s p = Ok h \<longrightarrow> bcrypt_input p \<longrightarrow> bcrypt_input q \<longrightarrow> (av_compare s h q = None \<longleftrightarrow> q = p))"

definition honest_sha256 :: "session_manager \<Rightarrow> bool" where
  "honest_sha256 sm \<longleftrightarrow> (\<forall>x. length (sm_sha256 sm x) = 32)"

lemma hex_digit_inj: "m < 16 \<Longrightarrow> n < 16 \<Longrightarrow> hex_digit m = hex_digit n \<longleftrightarrow> m = n"
  unfolding hex_digit_def by (rule nth_eq_iff_index_eq) simp_all

lemma of_char_div: "(of_char c :: nat) div 16 < 16"
proof -
  have "(of_char c :: nat) < 256" by simp
  then show ?thesis by linarith
qed

text \<open>The hexadecimal text of bytes determines them.\<close>

lemma hex_encode_inj: "hex_encode s = hex_encode t \<longleftrightarrow> s = t"
proof
  show "hex_encode s = hex_encode t \<Longrightarrow> s = t"
  proof (induction s arbitrary: t)
    case Nil
    then show ?case by (cases t) auto
  next
    case (Cons a s)
    then obtain b r where t: "t = b # r" by (cases t) auto
    have "(of_char a :: nat) div 16 = of_char b div 16" "(of_char a :: nat) mod 16 = of_char b mod 16"
      using Cons.prems t hex_digit_inj[OF of_char_div of_char_div, of a b]
        hex_digit_inj[of "of_char a mod 16" "of_char b mod 16"] by auto
    then have "(of_char a :: nat) = of_char b" by (metis div_mult_mod_eq)
    then show ?case using Cons t by simp
  qed
qed simp

lemma hex_digit_ascii: "n < 16 \<Longrightarrow> hex_digit n \<in> set ''0123456789abcdef''"
  unfolding hex_digit_def by (rule nth_mem) simp

lemma hex_encode_ascii: "set (hex_encode s) \<subseteq> set ''0123456789abcdef''"
proof (induction s)
  case (Cons c s)
  then show ?case using hex_digit_ascii[OF of_char_div[of c]] hex_digit_ascii[of "of_char c mod 16"] by simp
qed simp

text \<open>The hexadecimal digest of a password, 64 digits, is an input that bcrypt reads as a whole.\<close>

lemma pre_hash_input: "honest_sha256 (av_sessions s) \<Longrightarrow> bcrypt_input (pre_hash s p)"
  using hex_encode_ascii[of "sm_sha256 (av_sessions s) p"]
  by (auto simp: bcrypt_input_def pre_hash_def honest_sha256_def)

text \<open>What registration leaves: the one new account, found by its address, whose hash is that of the password.\<close>

lemma register_Ok:
  assumes "register s email password name w = (w1, Ok u)" "ut_fault (aw_accounts w) ''get user by email'' = None"
  shows "\<exists>h. hash_password s password = Ok h \<and> validate_password_policy s password = None \<and>
      u = new_user (aw_next_id w) email name h (ky_now (aw_keys w)) \<and>
      w1 = w\<lparr>aw_next_id := aw_next_id w + 1, aw_accounts := (aw_accounts w)\<lparr>ut_users := ut_users (aw_accounts w) @ [u]\<rparr>\<rparr> \<and>
      (\<forall>r \<in> set (ut_users (aw_accounts w)). acc_email r \<noteq> email \<and> acc_id r \<noteq> acc_id u)"
proof -
  have fresh: "existing_user ''failed to check existing user'' email w = Ok None"
    using assms(1) by (auto simp: register_def step_exec split: option.splits sum.splits if_splits)
  then have none: "\<forall>r \<in> set (ut_users (aw_accounts w)). acc_email r \<noteq> email"
    using assms(2) by (auto simp: existing_user_def pg_get_user_by_email_def query_row_def find_None_iff split: sum.splits option.splits if_splits)
  show ?thesis
    using assms(1) fresh none
    by (auto simp: register_def step_exec run_simps pg_create_user_def exec_insert_def list_ex_iff new_user_def
        split: option.splits sum.splits if_splits)
qed

lemma create_session_answers:
  assumes "ky_steps k = []" "sm_random sm (ky_draws k) = Ok b"
  shows "\<exists>k' x. create_session sm u d ip k = (k', Ok x)"
proof -
  have "\<exists>k1 y. create_session sm u d ip k = and_then (ignore_err (enforce_max_sessions sm u)) (\<lambda>_. return y) k1"
    using assms by (simp add: create_session_def key_runs Let_def run_exec) blast
  then show ?thesis by (auto simp: and_then_def ignore_err_def return_def)
qed

lemma open_session_run:
  assumes "create_session (av_sessions s) (sm_uuid_text (av_sessions s) (acc_id u)) device ip (aw_keys w) = (k, Ok (session, refresh))"
    and "generate_token s (acc_id u) (se_id session) (w\<lparr>aw_keys := k\<rparr>) = Ok access"
  shows "\<exists>r. open_session_for s u device ip w = (w\<lparr>aw_keys := k\<rparr>, Ok r) \<and> lr_session r = se_id session \<and>
    lr_refresh r = refresh \<and> lr_access r = access"
  using assms by (simp add: open_session_for_def and_then_def map_err_def auth_keys_def)

text \<open>C13: who registered can log in, and only with the password registered. On a database and a Redis that
  answer, logging in with the address and the password opens a live session of the new account; with a password
  that has another SHA-256 digest, however long the passwords are, the login is refused as unauthorized and nothing
  changes. bcrypt is only trusted with inputs of at most 72 bytes: that the whole password counts is due to the
  digest taken first.\<close>

theorem register_then_login:
  assumes "register s email password name w = (w1, Ok u)" "honest_bcrypt s" "honest_sha256 (av_sessions s)"
    and "ut_fault (aw_accounts w) ''get user by email'' = None"
    and "validate_struct (av_validator s) (login_input email password) = None"
    and "ky_steps (aw_keys w) = []" "sm_random (av_sessions s) (ky_draws (aw_keys w)) = Ok b"
    and "\<And>p. \<exists>t. av_jwt_sign s (av_secret s) p = Ok t"
  shows "(\<exists>w2 r. login s email password device ip w1 = (w2, Ok r)) \<and>
    (\<forall>other. sm_sha256 (av_sessions s) other \<noteq> sm_sha256 (av_sessions s) password \<longrightarrow>
       validate_struct (av_validator s) (login_input email other) = None \<longrightarrow>
       login s email other device ip w1 = (w1, Err (unauthorized ''invalid email or password'')))"
proof -
  obtain h where h: "hash_password s password = Ok h" "u = new_user (aw_next_id w) email name h (ky_now (aw_keys w))"
      "w1 = w\<lparr>aw_next_id := aw_next_id w + 1, aw_accounts := (aw_accounts w)\<lparr>ut_users := ut_users (aw_accounts w) @ [u]\<rparr>\<rparr>"
      "\<forall>r \<in> set (ut_users (aw_accounts w)). acc_email r \<noteq> email \<and> acc_id r \<noteq> acc_id u"
    using register_Ok[OF assms(1,4)] by blast
  have found: "pg_get_user_by_email email (aw_accounts w1) = Ok u"
    using h(2-4) assms(4) by (simp add: pg_get_user_by_email_def query_row_Ok find_append_fresh new_user_def)
  have user: "acc_status u = UserActive" "acc_hash u = h" by (simp_all add: h(2) new_user_def)
  have match: "verify_password s p h = None \<longleftrightarrow> sm_sha256 (av_sessions s) p = sm_sha256 (av_sessions s) password" for p
    using h(1) assms(2) pre_hash_input[OF assms(3)] hex_encode_inj
    by (simp add: honest_bcrypt_def hash_password_def verify_password_def pre_hash_def)
  have keys: "aw_keys w1 = aw_keys w" using h(3) by simp
  have "\<exists>w2 r. login s email password device ip w1 = (w2, Ok r)"
  proof -
    have "\<exists>k x. create_session (av_sessions s) t device ip (aw_keys w) = (k, Ok x)" for t
      using create_session_answers[OF assms(6,7)] .
    then obtain k session refresh where c: "create_session (av_sessions s) (sm_uuid_text (av_sessions s) (acc_id u)) device ip (aw_keys w) = (k, Ok (session, refresh))"
      by fastforce
    obtain access where "generate_token s (acc_id u) (se_id session) (w1\<lparr>aw_keys := k\<rparr>) = Ok access"
      using assms(8) unfolding generate_token_def Let_def by (metis old.sum.simps(6))
    then obtain r where "open_session_for s u device ip w1 = (w1\<lparr>aw_keys := k\<rparr>, Ok r)"
      using open_session_run[of s u device ip w1 k session refresh access] c unfolding keys by blast
    then have "login s email password device ip w1 = (w1\<lparr>aw_keys := k\<rparr>, Ok r)"
      using assms(5) found user match[of password] by (simp add: login_def step_exec)
    then show ?thesis by blast
  qed
  moreover have "login s email other device ip w1 = (w1, Err (unauthorized ''invalid email or password''))"
    if "sm_sha256 (av_sessions s) other \<noteq> sm_sha256 (av_sessions s) password"
      "validate_struct (av_validator s) (login_input email other) = None" for other
    using that found user match[of other] by (simp add: login_def step_exec bad_credentials_def)
  ultimately show ?thesis by blast
qed

definition sample_auth :: auth_service where
  "sample_auth = \<lparr>av_sessions = sample_manager, av_secret = ''k'', av_access_ttl = 500, av_search = None,
     av_validator = (\<lambda>_. []), av_rune_class = (\<lambda>_. RunePlain), av_bcrypt = Ok,
     av_compare = (\<lambda>h q. if h = q then None else Some (PlainError ''mismatch'')),
     av_numeric_date = (\<lambda>t. t div second), av_jwt_sign = (\<lambda>key p. text_field ''sid'' [] (jp_private p)),
     av_jwt_parse = (\<lambda>kf now t. case kf \<lparr>jh_hmac = True, jh_alg = ''HS256''\<rparr> of Err e \<Rightarrow> Err e
        | Ok key \<Rightarrow> Ok (True, access_payload (\<lambda>t. t div second) ''u'' t now (now + second)))\<rparr>"

text \<open>The same with a digest of the length of SHA-256.\<close>

definition digest_auth :: auth_service where
  "digest_auth = sample_auth\<lparr>av_sessions := sample_manager\<lparr>sm_sha256 := (\<lambda>t. take 32 (t @ replicate 32 CHR ''0''))\<rparr>,
     av_jwt_sign := (\<lambda>key p. Ok [])\<rparr>"

definition empty_auth_world :: auth_world where
  "empty_auth_world = \<lparr>aw_db = empty_db, aw_accounts = no_accounts, aw_keys = no_keys,
     aw_search = \<lparr>sq_jobs = [], sq_index = [], sq_now = 0, sq_steps = [], sq_next_id = 1\<rparr>, aw_next_id = 1\<rparr>"

lemma rune_size_ascii: "of_char c < (128::nat) \<Longrightarrow> rune_size (c # cs) = Some 1"
  by (simp add: rune_size_def byte_in_def Let_def)

lemma runes_ascii: "of_char c < (128::nat) \<Longrightarrow> runes (c # cs) = of_char c # runes cs"
  by (subst runes.simps) (simp add: rune_size_ascii rune_value_def)

lemma runes_Nil: "runes [] = []"
  by (simp add: runes.simps)

lemma digest_policy: "validate_password_policy digest_auth ''Secret-1'' = None"
  by (simp add: validate_password_policy_def Let_def runes_ascii runes_Nil rune_class_of_def)

lemma digest_register:
  "\<exists>w1 u. register digest_auth ''a@b'' ''Secret-1'' ''Ann'' empty_auth_world = (w1, Ok u)"
proof -
  have "existing_user ''failed to check existing user'' ''a@b'' empty_auth_world = Ok None"
    by (simp add: existing_user_def pg_get_user_by_email_def query_row_def empty_auth_world_def no_accounts_def not_found_def app_code_def)
  moreover have "validate_struct (av_validator digest_auth) x = None" "hash_password digest_auth p = Ok (pre_hash digest_auth p)" for x p
    by (simp_all add: digest_auth_def sample_auth_def validate_struct_def hash_password_def)
  moreover have "snd (pg_create_user u (aw_accounts empty_auth_world)) = None" for u
    by (simp add: pg_create_user_def exec_insert_def empty_auth_world_def no_accounts_def)
  ultimately show ?thesis
    using digest_policy by (simp add: register_def step_exec auth_accounts_run return_def)
qed

theorem register_then_login_witness:
  "\<exists>w1 u w2 r. register digest_auth ''a@b'' ''Secret-1'' ''Ann'' empty_auth_world = (w1, Ok u) \<and>
     login digest_auth ''a@b'' ''Secret-1'' ''web'' ''::1'' w1 = (w2, Ok r) \<and>
     login digest_auth ''a@b'' ''Secret-2'' ''web'' ''::1'' w1 = (w1, Err (unauthorized ''invalid email or password''))"
proof -
  obtain w1 u where r: "register digest_auth ''a@b'' ''Secret-1'' ''Ann'' empty_auth_world = (w1, Ok u)"
    using digest_register by blast
  have "honest_bcrypt digest_auth" "honest_sha256 (av_sessions digest_auth)"
    by (auto simp: honest_bcrypt_def honest_sha256_def digest_auth_def sample_auth_def min_def)
  from register_then_login[OF r this, where b = "[]" and device = "''web''" and ip = "''::1''"]
  have "(\<exists>w2 r. login digest_auth ''a@b'' ''Secret-1'' ''web'' ''::1'' w1 = (w2, Ok r)) \<and>
     login digest_auth ''a@b'' ''Secret-2'' ''web'' ''::1'' w1 = (w1, Err (unauthorized ''invalid email or password''))"
    by (simp add: empty_auth_world_def no_accounts_def no_keys_def digest_auth_def sample_auth_def sample_manager_def validate_struct_def)
  then show ?thesis using r by blast
qed

section \<open>Workspace slugs\<close>

definition slug_char :: "char \<Rightarrow> bool" where
  "slug_char c \<longleftrightarrow> CHR ''a'' \<le> c \<and> c \<le> CHR ''z'' \<or> CHR ''0'' \<le> c \<and> c \<le> CHR ''9'' \<or> c = CHR ''-''"

text \<open>A well-formed slug: at most 80 lower-case letters, digits and inner hyphens.\<close>

definition well_formed_slug :: "string \<Rightarrow> bool" where
  "well_formed_slug s \<longleftrightarrow>
     s \<noteq> [] \<and> length s \<le> 80 \<and> list_all slug_char s \<and> hd s \<noteq> CHR ''-'' \<and> last s \<noteq> CHR ''-''"

lemma slug_loop_chars: "list_all slug_char out \<Longrightarrow> list_all slug_char (slug_loop out h s)"
  by (induction out h s rule: slug_loop.induct) (auto simp: slug_char_def)

lemma list_all_dropWhile: "list_all P s \<Longrightarrow> list_all P (dropWhile Q s)"
  by (auto simp: list_all_iff dest: set_dropWhileD)

lemma trim_hyphens_chars: "list_all slug_char s \<Longrightarrow> list_all slug_char (trim_hyphens s)"
  unfolding trim_hyphens_def by (simp add: list_all_rev list_all_dropWhile)

lemma trim_hyphens_length: "length (trim_hyphens s) \<le> length s"
  unfolding trim_hyphens_def by (metis le_trans length_dropWhile_le length_rev)

lemma dropWhile_rev_ends:
  assumes "rev (dropWhile P (rev s)) \<noteq> []"
  shows "hd (rev (dropWhile P (rev s))) = hd s \<and> \<not> P (last (rev (dropWhile P (rev s))))"
proof -
  have "s = rev (dropWhile P (rev s)) @ rev (takeWhile P (rev s))"
    by (metis rev_append rev_rev_ident takeWhile_dropWhile_id)
  then have "hd s = hd (rev (dropWhile P (rev s)))" using assms by (metis hd_append2)
  moreover have "\<not> P (hd (dropWhile P (rev s)))" using assms hd_dropWhile[of P "rev s"] by simp
  ultimately show ?thesis using assms by (simp add: last_rev)
qed

lemma trim_hyphens_ends:
  assumes "trim_hyphens s \<noteq> []"
  shows "hd (trim_hyphens s) \<noteq> CHR ''-'' \<and> last (trim_hyphens s) \<noteq> CHR ''-''"
proof -
  let ?d = "dropWhile (\<lambda>c. c = CHR ''-'') s"
  have "?d \<noteq> []"
  proof
    assume "?d = []"
    then show False using assms unfolding trim_hyphens_def by (metis dropWhile.simps(1) rev.simps(1))
  qed
  then have "hd ?d \<noteq> CHR ''-''" using hd_dropWhile[of "\<lambda>c. c = CHR ''-''" s] by simp
  then show ?thesis using dropWhile_rev_ends[of "\<lambda>c. c = CHR ''-''" ?d] assms unfolding trim_hyphens_def by metis
qed

lemma trim_hyphens_nonempty: "s \<noteq> [] \<Longrightarrow> hd s \<noteq> CHR ''-'' \<Longrightarrow> trim_hyphens s \<noteq> []"
  unfolding trim_hyphens_def by (cases s) (auto simp: dropWhile_append dropWhile_eq_Nil_conv)

text \<open>Cut to 80 characters and trimmed, a text that begins well is a slug.\<close>

lemma cut_slug:
  "list_all slug_char s \<Longrightarrow> s \<noteq> [] \<Longrightarrow> hd s \<noteq> CHR ''-'' \<Longrightarrow> well_formed_slug (trim_hyphens (take 80 s))"
  using trim_hyphens_ends[of "take 80 s"] trim_hyphens_nonempty[of "take 80 s"] trim_hyphens_length[of "take 80 s"]
    trim_hyphens_chars[of "take 80 s"]
  by (auto simp: well_formed_slug_def list_all_iff dest: in_set_takeD)

lemma slugify_chars: "list_all slug_char (slugify v)"
  unfolding slugify_def by (simp add: trim_hyphens_chars slug_loop_chars)

lemma default_slug: "well_formed_slug ''workspace''"
  by (simp add: well_formed_slug_def slug_char_def less_eq_char_def)

lemma slug_base_well_formed: "well_formed_slug (slug_base raw)"
proof (cases "slugify raw = []")
  case True
  then show ?thesis using default_slug by (simp add: slug_base_def)
next
  case False
  then have ends: "hd (slugify raw) \<noteq> CHR ''-''" "last (slugify raw) \<noteq> CHR ''-''"
    using trim_hyphens_ends unfolding slugify_def by blast+
  show ?thesis
  proof (cases "length (slugify raw) > 80")
    case True
    then have "well_formed_slug (trim_hyphens (take 80 (slugify raw)))"
      using cut_slug[OF slugify_chars False ends(1)] by simp
    then show ?thesis using True False by (auto simp: slug_base_def Let_def well_formed_slug_def)
  next
    case short: False
    then show ?thesis using False ends slugify_chars by (simp add: slug_base_def Let_def well_formed_slug_def)
  qed
qed

lemma decimal_chars: "decimal n \<noteq> [] \<and> list_all slug_char (decimal n) \<and> last (decimal n) \<noteq> CHR ''-''"
proof (induction n rule: decimal.induct)
  case (1 n)
  have digit: "slug_char (char_of (48 + d)) \<and> char_of (48 + d) \<noteq> CHR ''-''" if "d < (10::nat)" for d
    using that by (auto simp: slug_char_def less_eq_char_def dest!: arg_cong[of _ _ "of_char :: char \<Rightarrow> nat"])
  show ?case
    using 1 digit[of n] digit[of "n mod 10"] by (subst (1 2 3) decimal.simps) auto
qed

lemma slug_candidate_well_formed:
  assumes "well_formed_slug base"
  shows "well_formed_slug (slug_candidate base n)"
proof -
  let ?c = "base @ ''-'' @ decimal n"
  have chars: "list_all slug_char ?c" using assms decimal_chars[of n] by (simp add: well_formed_slug_def slug_char_def)
  moreover have "?c \<noteq> []" "hd ?c \<noteq> CHR ''-''" using assms by (simp_all add: well_formed_slug_def)
  ultimately have "well_formed_slug (trim_hyphens (take 80 ?c))" by (rule cut_slug)
  then show ?thesis
    using chars \<open>hd ?c \<noteq> CHR ''-''\<close> decimal_chars[of n] by (auto simp: slug_candidate_def Let_def well_formed_slug_def)
qed

lemma slug_attempts_Ok:
  "slug_attempts t base left i c = Ok slug \<Longrightarrow> well_formed_slug base \<Longrightarrow> well_formed_slug c \<Longrightarrow>
     well_formed_slug slug \<and> (\<exists>e. pg_get_workspace_by_slug slug t = Err e \<and> app_code e = Some CodeNotFound)"
  by (induction t base left i c rule: slug_attempts.induct) (auto simp: slug_candidate_well_formed split: sum.splits if_splits)

text \<open>A new workspace gets a usable slug: whatever its name, the slug that \<open>uniqueWorkspaceSlug\<close> returns is
  not empty, has at most 80 characters, all of them lower-case letters, digits or hyphens with no hyphen at either
  end, and is the slug of no workspace of the table.\<close>

lemma workspace_slug_fresh:
  assumes "unique_workspace_slug raw w = Ok slug" "ut_fault (aw_accounts w) ''get workspace by slug'' = None"
  shows "well_formed_slug slug \<and> slug \<notin> wsp_slug ` set (ut_workspaces (aw_accounts w))"
  using slug_attempts_Ok[OF assms(1)[unfolded unique_workspace_slug_def] slug_base_well_formed slug_base_well_formed] assms(2)
  by (auto simp: pg_get_workspace_by_slug_def query_row_def find_None_iff split: option.splits)

lemma trim_hyphens_id:
  assumes "s \<noteq> []" "hd s \<noteq> CHR ''-''" "last s \<noteq> CHR ''-''"
  shows "trim_hyphens s = s" "trim_hyphens (s @ ''-'') = s"
proof -
  have front: "dropWhile (\<lambda>c. c = CHR ''-'') (s @ t) = s @ t" for t
    using assms by (simp add: dropWhile_eq_self_iff)
  have rear: "dropWhile (\<lambda>c. c = CHR ''-'') (rev s) = rev s"
    using assms by (simp add: dropWhile_eq_self_iff hd_rev)
  show "trim_hyphens s = s" "trim_hyphens (s @ ''-'') = s"
    using front[of "[]"] front[of "''-''"] rear by (simp_all add: trim_hyphens_def)
qed

definition acme_world :: auth_world where
  "acme_world = empty_auth_world\<lparr>aw_accounts := no_accounts\<lparr>ut_workspaces :=
     [\<lparr>wsp_id = 7, wsp_name = ''Acme'', wsp_slug = ''acme'', wsp_kind = KindOrganization, wsp_avatar = [],
       wsp_created_by = 1, wsp_created_at = 0, wsp_updated_at = 0\<rparr>]\<rparr>\<rparr>"

lemma workspace_slug_fresh_witness:
  "unique_workspace_slug ''  Acme!'' acme_world = Ok ''acme-2'' \<and> well_formed_slug ''acme-2'' \<and>
     ''acme-2'' \<notin> wsp_slug ` set (ut_workspaces (aw_accounts acme_world))"
proof -
  have run: "unique_workspace_slug ''  Acme!'' acme_world = Ok ''acme-2''" by code_simp
  moreover have "ut_fault (aw_accounts acme_world) ''get workspace by slug'' = None"
    by (simp add: acme_world_def no_accounts_def)
  ultimately show ?thesis using workspace_slug_fresh[of "''  Acme!''" acme_world "''acme-2''"] by blast
qed

text \<open>A base of 79 or 80 characters absorbs every suffix: each candidate is the base itself, so a name whose slug is
  that long and taken is refused after 25 equal attempts.\<close>

lemma long_base_candidate:
  assumes "well_formed_slug base" "79 \<le> length base"
  shows "slug_candidate base n = base"
proof -
  have "take 80 (base @ ''-'' @ decimal n) = base @ take (80 - length base) ''-''"
    using assms by (cases "length base = 79") (auto simp: well_formed_slug_def)
  moreover have "trim_hyphens (base @ take k ''-'') = base" for k
    using assms(1) trim_hyphens_id[of base] by (cases k) (simp_all add: well_formed_slug_def)
  moreover have "80 < length (base @ ''-'' @ decimal n)" using assms(2) decimal_chars[of n] by (cases "decimal n") auto
  ultimately show ?thesis by (simp add: slug_candidate_def)
qed

lemma long_taken_slug_conflicts:
  assumes "79 \<le> length (slug_base raw)" "pg_get_workspace_by_slug (slug_base raw) (aw_accounts w) = Ok ws"
  shows "unique_workspace_slug raw w = Err (conflict ''unable to generate a unique workspace slug'')"
proof -
  have "slug_attempts (aw_accounts w) (slug_base raw) left i (slug_base raw)
      = Err (conflict ''unable to generate a unique workspace slug'')" for left i
    by (induction left arbitrary: i) (simp_all add: assms long_base_candidate slug_base_well_formed)
  then show ?thesis by (simp add: unique_workspace_slug_def)
qed

section \<open>Accepted requests\<close>

text \<open>What the token library promises: it accepts a token only if a key the callback returned for its header verifies
  its signature, and only before the expiry in its payload, if there is one. \<open>signed h key t p\<close> stands for the
  check of the signature: the token \<open>t\<close> carries the header \<open>h\<close> and the payload \<open>p\<close> with a signature that
  verifies under \<open>key\<close>.\<close>

definition unexpired_payload :: "instant \<Rightarrow> jwt_payload \<Rightarrow> bool" where
  "unexpired_payload now p \<longleftrightarrow> (case jp_expires_at p of None \<Rightarrow> True | Some x \<Rightarrow> now < x * second)"

definition honest_jwt :: "(jwt_header \<Rightarrow> string \<Rightarrow> string \<Rightarrow> jwt_payload \<Rightarrow> bool) \<Rightarrow> auth_service \<Rightarrow> bool" where
  "honest_jwt signed s \<longleftrightarrow>
     (\<forall>kf now t p. av_jwt_parse s kf now t = Ok (True, p) \<longrightarrow>
        unexpired_payload now p \<and> (\<exists>h key. kf h = Ok key \<and> signed h key t p))"

lemma token_key_Ok: "token_key s h = Ok key \<longleftrightarrow> jh_hmac h \<and> jh_alg h = ''HS256'' \<and> key = av_secret s"
  by (auto simp: token_key_def)

lemma accept_session_Ok:
  "accept_session i w = (w', Ok x) \<longleftrightarrow>
     key_outcome (aw_keys w) = None \<and>
     (\<exists>row. live_session i (aw_keys w) = Some (Stored row) \<and> ky_now (aw_keys w) \<le> ses_expires row) \<and>
     w' = w\<lparr>aw_keys := defer_touch i (advance (aw_keys w))\<rparr>"
proof -
  have valid: "is_session_valid i k = (k1, Ok True) \<longleftrightarrow>
      key_outcome k = None \<and> (\<exists>row. live_session i k = Some (Stored row) \<and> ky_now k \<le> ses_expires row) \<and> k1 = advance k" for k k1
    by (auto simp: is_session_valid_def key_get_def not_less split: option.split sum.split)
  have yes: "(\<exists>x v. P x v \<and> x \<and> Q v) \<longleftrightarrow> (\<exists>v. P True v \<and> Q v)" for P and Q :: "auth_world \<Rightarrow> bool"
    by (metis (full_types))
  show ?thesis by (auto simp: accept_session_def run_simps yes valid)
qed

text \<open>C9: an accepted request stands on a live session: the middleware lets a user through only with a token that
  the secret of the service signed by HMAC-SHA256 and whose expiry, if it carries one, has not passed, whose claims
  name that user and a session and are not those of a meeting guest, and only while Redis answers that this session
  is there and has not run out. Nothing but the pending touch is changed by that.\<close>

theorem access_needs_live_session:
  assumes "honest_jwt signed s" "authenticate s r w = (w', Ok (UserPrincipal u i))"
  shows "\<exists>token payload claims row. request_token r = Ok token \<and>
     signed \<lparr>jh_hmac = True, jh_alg = ''HS256''\<rparr> (av_secret s) token payload \<and>
     unexpired_payload (ky_now (aw_keys w)) payload \<and> principal_claims payload = Ok claims \<and>
     tc_kind claims \<noteq> ''meeting_guest'' \<and> sm_uuid_parse (av_sessions s) (tc_subject claims) = Ok u \<and>
     tc_session claims = i \<and> live_session i (aw_keys w) = Some (Stored row) \<and> ky_now (aw_keys w) \<le> ses_expires row \<and>
     w' = w\<lparr>aw_keys := defer_touch i (advance (aw_keys w))\<rparr>"
proof -
  obtain token where token: "request_token r = Ok token" "validate_principal_token s token w = (w', Ok (UserPrincipal u i))"
    using assms(2) by (auto simp: authenticate_def run_simps)
  obtain claims where claims: "parse_principal_token s token w = Ok claims" "tc_kind claims \<noteq> ''meeting_guest''"
      "sm_uuid_parse (av_sessions s) (tc_subject claims) = Ok u" "tc_session claims = i" "accept_session i w = (w', Ok ())"
  proof -
    obtain c where c: "parse_principal_token s token w = Ok c"
      using token(2) by (auto simp: validate_principal_token_def run_simps)
    moreover have "tc_kind c \<noteq> ''meeting_guest''"
      using token(2) c
      by (auto simp: validate_principal_token_def run_simps guest_principal_def split: sum.splits if_splits)
    ultimately show ?thesis
      using that[of c] token(2) by (auto simp: validate_principal_token_def run_simps)
  qed
  obtain payload where payload: "av_jwt_parse s (token_key s) (ky_now (aw_keys w)) token = Ok (True, payload)"
      "principal_claims payload = Ok claims"
    using claims(1) by (auto simp: parse_principal_token_def parse_with_claims_def split: sum.splits if_splits)
  then obtain h key where h: "token_key s h = Ok key" "signed h key token payload" "unexpired_payload (ky_now (aw_keys w)) payload"
    using assms(1) by (force simp: honest_jwt_def)
  have "h = \<lparr>jh_hmac = True, jh_alg = ''HS256''\<rparr>" "key = av_secret s" using h(1) by (auto simp: token_key_Ok)
  then show ?thesis using token(1) claims(2-5) payload(2) h(2,3) by (auto simp: accept_session_Ok)
qed

text \<open>The tokens that the sample library verifies: those whose text is the session they name.\<close>

definition sample_signed :: "jwt_header \<Rightarrow> string \<Rightarrow> string \<Rightarrow> jwt_payload \<Rightarrow> bool" where
  "sample_signed h key t p \<longleftrightarrow> h = \<lparr>jh_hmac = True, jh_alg = ''HS256''\<rparr> \<and> text_field ''sid'' [] (jp_private p) = Ok t"

theorem access_needs_live_session_witness:
  "\<exists>w' token payload. authenticate sample_auth \<lparr>hr_authorization = ''Bearer u'', hr_upgrade = [], hr_connection = [], hr_token_query = []\<rparr>
       (empty_auth_world\<lparr>aw_keys := run_sessions sample_manager sample_login no_keys\<rparr>) = (w', Ok (UserPrincipal 1 ''u'')) \<and>
     sample_signed \<lparr>jh_hmac = True, jh_alg = ''HS256''\<rparr> ''k'' token payload \<and> unexpired_payload 10 payload"
proof -
  let ?r = "\<lparr>hr_authorization = ''Bearer u'', hr_upgrade = [], hr_connection = [], hr_token_query = []\<rparr>"
  let ?w = "empty_auth_world\<lparr>aw_keys := run_sessions sample_manager sample_login no_keys\<rparr>"
  have "snd (authenticate sample_auth ?r ?w) = Ok (UserPrincipal 1 ''u'')" and now: "ky_now (aw_keys ?w) = 10" by code_simp+
  then have run: "authenticate sample_auth ?r ?w = (fst (authenticate sample_auth ?r ?w), Ok (UserPrincipal 1 ''u''))"
    by (metis prod.collapse)
  have "now < (now div second + 1) * second" for now :: int by simp
  then have "honest_jwt sample_signed sample_auth"
    by (auto simp: honest_jwt_def sample_auth_def sample_signed_def unexpired_payload_def access_payload_def
        to_lower_def lower_char_def split: sum.splits)
  moreover have "av_secret sample_auth = ''k''" by (simp add: sample_auth_def)
  ultimately show ?thesis using access_needs_live_session[OF _ run] run now by metis
qed

end
