(* ===== verification/MeetingProps.thy ===== *)
theory MeetingProps
  imports Meetings AuthProps CallSpec
begin

text \<open>
  Properties of meeting guests: what a successful \<open>Join\<close> does and needs, the invariant of links and guest sessions
  along every history, the token of a guest, and what a failing \<open>Join\<close> leaves behind.
\<close>

section \<open>Successful runs\<close>

lemma meeting_step_Ok [run_simps]:
  "meeting_statement f w = (w', Ok x) \<longleftrightarrow> (\<exists>t. f (mw_meetings w) = (t, None) \<and> w' = w\<lparr>mw_meetings := t\<rparr>)"
  "meeting_calls k w = (w', Ok x) \<longleftrightarrow> (\<exists>t. k (mw_calls w) = (t, None) \<and> w' = w\<lparr>mw_calls := t\<rparr>)"
  "meeting_new_id w = (w', Ok i) \<longleftrightarrow> i = mw_next_id w \<and> w' = w\<lparr>mw_next_id := mw_next_id w + 1\<rparr>"
  "meeting_clock w = (w', Ok now) \<longleftrightarrow> now = mw_now w \<and> w' = w"
  "opaque_token s w = (w', Ok (raw, h)) \<longleftrightarrow> (\<exists>b. mv_random s (mw_draws w) = Ok b \<and> raw = raw_url_encode b) \<and>
     h = link_hash s raw \<and> w' = w\<lparr>mw_draws := mw_draws w + 1\<rparr>"
  by (auto simp: meeting_statement_def meeting_calls_def meeting_new_id_def meeting_clock_def opaque_token_def
      split: prod.splits sum.splits)

lemma link_statements_None:
  "pg_create_link l t = (t', None) \<longleftrightarrow> fits_int4 (il_max_uses l) \<and> ml_fault t ''create meeting invite link'' = None \<and>
     (\<forall>r \<in> set (ml_links t). il_id r \<noteq> il_id l \<and> il_token_hash r \<noteq> il_token_hash l) \<and>
     t' = t\<lparr>ml_links := ml_links t @ [l\<lparr>il_raw_token := []\<rparr>]\<rparr>"
  "pg_create_guest_session g t = (t', None) \<longleftrightarrow> ml_fault t ''create meeting guest session'' = None \<and>
     (\<forall>r \<in> set (ml_sessions t). mg_id r \<noteq> mg_id g \<and> mg_token_hash r \<noteq> mg_token_hash g) \<and>
     t' = t\<lparr>ml_sessions := ml_sessions t @ [g]\<rparr>"
  "update_link what P f t = (t', None) \<longleftrightarrow> ml_fault t what = None \<and> (\<exists>r \<in> set (ml_links t). P r) \<and>
     t' = t\<lparr>ml_links := update_rows P f (ml_links t)\<rparr>"
  by (auto simp: pg_create_link_def pg_create_guest_session_def update_link_def exec_insert_def exec_affected_def Let_def
      list_ex_iff split: option.splits if_splits)

definition used_link :: "uuid \<Rightarrow> instant \<Rightarrow> meeting_invite_link list \<Rightarrow> meeting_invite_link list" where
  "used_link i now = update_rows (\<lambda>r. il_id r = i) (\<lambda>r. r\<lparr>il_use_count := il_use_count r + 1, il_last_used_at := Some now\<rparr>)"

definition activated :: "uuid \<Rightarrow> call list \<Rightarrow> call list" where
  "activated i = update_rows (\<lambda>r. ca_id r = i) (\<lambda>r. r\<lparr>ca_status := CallStatusActive\<rparr>)"

lemma guest_participant_inserted: "inserted (guest_participant_for g c j now) = guest_participant_for g c j now"
  by (simp add: inserted_def participant_row_def normalize_participant_principal_def participant_user_id_value_def
      participant_guest_session_id_value_def guest_participant_for_def)

lemma add_guest_participant_Ok:
  assumes "add_guest_participant (guest_participant_for g c j now) cap w = (w', Ok ())"
  shows "w' = w\<lparr>mw_calls := (mw_calls w)\<lparr>ct_participants := ct_participants (mw_calls w) @ [guest_participant_for g c j now]\<rparr>\<rparr> \<and>
    \<not> list_ex (participant_clash (guest_participant_for g c j now)) (ct_participants (mw_calls w)) \<and>
    (0 < cap \<longrightarrow> active_count (mg_call g) (mw_calls w) < cap)"
proof -
  let ?p = "guest_participant_for g c j now"
  obtain t where t: "w' = w\<lparr>mw_calls := t\<rparr>" "insert_participant ?p (mw_calls w) = (t, None)"
      "0 < cap \<longrightarrow> active_count (pa_call ?p) (mw_calls w) < cap"
    using assms by (auto simp: add_guest_participant_def run_simps guest_participant_inserted
        dest!: add_if_capacity_None add_participant_None split: if_splits)
  then show ?thesis by (simp add: insert_participant_None) (simp add: guest_participant_for_def)
qed

definition admitting :: "meeting_service \<Rightarrow> string \<Rightarrow> join_input \<Rightarrow> meeting_invite_link \<Rightarrow> call \<Rightarrow> meeting_world \<Rightarrow> bool" where
  "admitting s token input l c w \<longleftrightarrow>
     l \<in> set (ml_links (mw_meetings w)) \<and> il_token_hash l = link_hash s token \<and>
     il_revoked_at l = None \<and> mw_now w \<le> il_expires_at l \<and> (0 < il_max_uses l \<longrightarrow> il_use_count l < il_max_uses l) \<and>
     (il_passcode_hash l = [] \<or> mv_compare s (il_passcode_hash l) (ji_passcode input) = None) \<and>
     c \<in> set (ct_calls (mw_calls w)) \<and> ca_id c = il_call l \<and> ca_status c \<noteq> CallStatusEnded \<and> \<not> se_locked (ca_settings c)"

lemma admitted_by_link_Ok:
  assumes "admitted_by_link s token input w = Ok (name, l, c)"
  shows "admitting s token input l c w \<and> name = trim_space (ji_name input) \<and> name \<noteq> [] \<and> length name \<le> 120"
proof -
  have st: "link_status l c now = MeetingInviteActive \<longleftrightarrow> il_revoked_at l = None \<and> now \<le> il_expires_at l \<and>
      ca_status c \<noteq> CallStatusEnded \<and> \<not> (0 < il_max_uses l \<and> il_max_uses l \<le> il_use_count l)" for now
    by (auto simp: link_status_def not_less)
  have "active_invite_and_call s token w = Ok (l, c)" "link_status l c (mw_now w) = MeetingInviteActive"
      "\<not> se_locked (ca_settings c)" "il_passcode_hash l = [] \<or> mv_compare s (il_passcode_hash l) (ji_passcode input) = None"
      "name = trim_space (ji_name input)" "name \<noteq> []" "length name \<le> 120"
    using assms by (auto simp: admitted_by_link_def Let_def result_bind_def split: sum.splits if_splits)
  then show ?thesis
    by (auto simp: admitting_def st active_invite_and_call_def result_bind_def pg_get_link_by_token_def pg_get_call_def
        split: sum.splits dest!: query_row_member)
qed

text \<open>The effect of a guest joining call \<open>c\<close> through link \<open>l\<close>, in closed form.\<close>

definition joined ::
  "meeting_service \<Rightarrow> meeting_invite_link \<Rightarrow> call \<Rightarrow> string \<Rightarrow> string \<Rightarrow> meeting_world \<Rightarrow> meeting_world \<Rightarrow> join_result \<Rightarrow> bool" where
  "joined s l c name raw w w' r \<longleftrightarrow>
     (let g = guest_session_for s name l (mw_next_id w) (link_hash s raw) (mw_now w);
          p = guest_participant_for g c (mw_next_id w + 1) (mw_now w) in
      (\<forall>x \<in> set (ml_sessions (mw_meetings w)). mg_id x \<noteq> mg_id g \<and> mg_token_hash x \<noteq> mg_token_hash g) \<and>
      \<not> list_ex (participant_clash p) (ct_participants (mw_calls w)) \<and>
      (0 < meeting_participant_cap c \<longrightarrow> active_count (mg_call g) (mw_calls w) < meeting_participant_cap c) \<and>
      mw_meetings w' = (mw_meetings w)\<lparr>ml_sessions := ml_sessions (mw_meetings w) @ [g],
         ml_links := used_link (il_id l) (mw_now w) (ml_links (mw_meetings w))\<rparr> \<and>
      mw_calls w' = (mw_calls w)\<lparr>ct_participants := ct_participants (mw_calls w) @ [p],
         ct_calls := (if pa_status p = ParticipantConnected \<and> ca_status c = CallStatusRinging
                      then activated (ca_id c) (ct_calls (mw_calls w)) else ct_calls (mw_calls w))\<rparr> \<and>
      sign_guest_token s g raw (mg_expires_at g) w = Ok (jr_access r) \<and>
      r = \<lparr>jr_access = jr_access r, jr_expires_at = mg_expires_at g, jr_session = mg_id g, jr_workspace = mg_workspace g,
           jr_call = mg_call g, jr_channel = ca_meeting_channel c, jr_role = mg_role g\<rparr>)"

lemma meeting_join_Ok:
  assumes "meeting_join s token input w = (w', Ok r)"
  shows "\<exists>l c raw. admitting s token input l c w \<and> trim_space (ji_name input) \<noteq> [] \<and>
    length (trim_space (ji_name input)) \<le> 120 \<and> joined s l c (trim_space (ji_name input)) raw w w' r"
proof -
  obtain l c where a: "admitted_by_link s token input w = Ok (trim_space (ji_name input), l, c)"
    using assms admitted_by_link_Ok by (fastforce simp: meeting_join_def run_simps)
  obtain raw b where b: "mv_random s (mw_draws w) = Ok b" "raw = raw_url_encode b"
    using assms a by (auto simp: meeting_join_def run_simps)
  let ?g = "guest_session_for s (trim_space (ji_name input)) l (mw_next_id w) (link_hash s raw) (mw_now w)"
  let ?p = "guest_participant_for ?g c (mw_next_id w + 1) (mw_now w)"
  let ?w1 = "w\<lparr>mw_draws := mw_draws w + 1, mw_meetings := (mw_meetings w)\<lparr>ml_sessions := ml_sessions (mw_meetings w) @ [?g]\<rparr>,
      mw_next_id := mw_next_id w + 2\<rparr>"
  let ?on = "pa_status ?p = ParticipantConnected \<and> ca_status c = CallStatusRinging"
  obtain w2 w3 t x where w2: "add_guest_participant ?p (meeting_participant_cap c) ?w1 = (w2, Ok ())"
      and fresh: "\<forall>y \<in> set (ml_sessions (mw_meetings w)). mg_id y \<noteq> mg_id ?g \<and> mg_token_hash y \<noteq> mg_token_hash ?g"
      and w3: "(if ?on then map_err (internal_err ''failed to activate meeting'') (meeting_calls (pg_update_call_status (ca_id c) CallStatusActive))
               else return ()) w2 = (w3, Ok ())"
      and t: "pg_use_link (il_id l) (mw_now w) (mw_meetings w3) = (t, None)" "w' = w3\<lparr>mw_meetings := t\<rparr>"
      and x: "sign_guest_token s ?g raw (mg_expires_at ?g) w' = Ok x"
      and r: "r = \<lparr>jr_access = x, jr_expires_at = mg_expires_at ?g, jr_session = mg_id ?g, jr_workspace = mg_workspace ?g,
                jr_call = mg_call ?g, jr_channel = ca_meeting_channel c, jr_role = mg_role ?g\<rparr>"
    using assms a b by (simp add: meeting_join_def run_simps Let_def link_statements_None) metis
  note added = add_guest_participant_Ok[OF w2]
  have calls: "mw_calls w3 = (mw_calls w)\<lparr>ct_participants := ct_participants (mw_calls w) @ [?p],
          ct_calls := (if ?on then activated (ca_id c) (ct_calls (mw_calls w)) else ct_calls (mw_calls w))\<rparr>"
      and rest: "mw_meetings w3 = mw_meetings ?w1" "mw_now w3 = mw_now w"
    using w3 added by (auto simp: run_simps pg_update_call_status_def activated_def dest!: update_call_None split: if_splits)
  have "t = (mw_meetings ?w1)\<lparr>ml_links := used_link (il_id l) (mw_now w) (ml_links (mw_meetings w))\<rparr>"
    using t(1) rest by (simp add: pg_use_link_def link_statements_None used_link_def)
  moreover have "mg_token_hash ?g = link_hash s raw" "mw_now w' = mw_now w"
    using rest t(2) by (simp_all add: guest_session_for_def)
  ultimately have "joined s l c (trim_space (ji_name input)) raw w w' r"
    using added fresh calls t(2) x r by (simp add: joined_def Let_def sign_guest_token_def)
  then show ?thesis using admitted_by_link_Ok[OF a] by blast
qed

text \<open>C14: what a guest who joins needs and gets. A \<open>Join\<close> succeeds only through a link of the table that is not
  revoked, not expired and not used up, with its passcode, into the live and unlocked call of the link, below its
  capacity. It then stores exactly a guest session with the role of the link that does not outlive it, a guest
  participant with that role, waiting or connected, and one more use of the link, and a ringing call becomes active when
  the guest is connected.\<close>

theorem guest_join_admission:
  assumes "meeting_join s token input w = (w', Ok r)"
  shows "\<exists>l c g p. admitting s token input l c w \<and>
    (0 < meeting_participant_cap c \<longrightarrow> active_count (ca_id c) (mw_calls w) < meeting_participant_cap c) \<and>
    mg_invite g = il_id l \<and> mg_call g = ca_id c \<and> mg_role g = il_role l \<and> mg_name g = trim_space (ji_name input) \<and>
    mg_expires_at g \<le> il_expires_at l \<and> mg_expires_at g \<le> mw_now w + mv_token_ttl s \<and>
    pa_principal p = PrincipalGuest \<and> pa_guest p = Some (mg_id g) \<and> pa_call p = ca_id c \<and> pa_role p = il_role l \<and>
    pa_status p = (if se_waiting_room (ca_settings c) then ParticipantWaiting else ParticipantConnected) \<and>
    (pa_role p = CallRoleViewer \<longrightarrow> pa_audio_muted p \<and> pa_video_muted p) \<and>
    mw_meetings w' = (mw_meetings w)\<lparr>ml_sessions := ml_sessions (mw_meetings w) @ [g],
       ml_links := used_link (il_id l) (mw_now w) (ml_links (mw_meetings w))\<rparr> \<and>
    mw_calls w' = (mw_calls w)\<lparr>ct_participants := ct_participants (mw_calls w) @ [p],
       ct_calls := (if pa_status p = ParticipantConnected \<and> ca_status c = CallStatusRinging
                    then activated (ca_id c) (ct_calls (mw_calls w)) else ct_calls (mw_calls w))\<rparr> \<and>
    jr_session r = mg_id g \<and> jr_role r = il_role l \<and> jr_expires_at r = mg_expires_at g"
proof -
  obtain l c raw where a: "admitting s token input l c w" and j: "joined s l c (trim_space (ji_name input)) raw w w' r"
    using meeting_join_Ok[OF assms] by blast
  let ?g = "guest_session_for s (trim_space (ji_name input)) l (mw_next_id w) (link_hash s raw) (mw_now w)"
  let ?p = "guest_participant_for ?g c (mw_next_id w + 1) (mw_now w)"
  have g: "mg_invite ?g = il_id l" "mg_call ?g = ca_id c" "mg_role ?g = il_role l" "mg_name ?g = trim_space (ji_name input)"
      "mg_expires_at ?g \<le> il_expires_at l" "mg_expires_at ?g \<le> mw_now w + mv_token_ttl s"
    using a by (simp_all add: guest_session_for_def admitting_def min_time_def)
  have p: "pa_principal ?p = PrincipalGuest" "pa_guest ?p = Some (mg_id ?g)" "pa_call ?p = ca_id c" "pa_role ?p = il_role l"
      "pa_status ?p = (if se_waiting_room (ca_settings c) then ParticipantWaiting else ParticipantConnected)"
      "pa_role ?p = CallRoleViewer \<longrightarrow> pa_audio_muted ?p \<and> pa_video_muted ?p"
    using g by (simp_all add: guest_participant_for_def)
  have r: "jr_session r = mg_id ?g" "jr_role r = mg_role ?g" "jr_expires_at r = mg_expires_at ?g"
    using j unfolding joined_def Let_def by (metis join_result.select_convs)+
  show ?thesis
    by (rule exI[of _ l], rule exI[of _ c], rule exI[of _ ?g], rule exI[of _ ?p])
      (use a j g p r in \<open>simp add: joined_def Let_def\<close>)
qed

definition sample_meetings :: meeting_service where
  "sample_meetings = \<lparr>mv_secret = ''k'', mv_token_ttl = 4 * hour, mv_random = (\<lambda>n. Ok [n]), mv_sha256 = (\<lambda>x. x),
     mv_bcrypt = Ok, mv_compare = (\<lambda>h q. if h = q then None else Some (PlainError ''mismatch'')),
     mv_uuid_text = (\<lambda>i. replicate i CHR ''u''), mv_numeric_date = (\<lambda>t. t div second),
     mv_jwt_sign = (\<lambda>key p. Ok (jp_subject p))\<rparr>"

definition standup :: call where
  "standup = \<lparr>ca_id = 5, ca_workspace = 1, ca_channel = None, ca_meeting_channel = Some 6, ca_type = CallTypeMeeting,
     ca_access_mode = CallAccessModeLink, ca_status = CallStatusRinging, ca_title = ''standup'', ca_created_by = 9,
     ca_settings = \<lparr>se_waiting_room = False, se_mute_on_join = True, se_recording = False, se_screen_sharing = True,
       se_chat = True, se_breakout_rooms = False, se_locked = False, se_max_participants = 0, se_e2ee = False,
       se_watermark = False\<rparr>, ca_started_at = None, ca_ended_at = None, ca_created_at = 0\<rparr>"

definition meeting_start :: meeting_world where
  "meeting_start = \<lparr>mw_calls = \<lparr>ct_calls = [standup], ct_participants = [], ct_breakouts = [], ct_fault = (\<lambda>_ _. None)\<rparr>,
     mw_meetings = \<lparr>ml_links = [], ml_sessions = [], ml_fault = (\<lambda>_. None)\<rparr>, mw_now = 10, mw_next_id = 20, mw_draws = 0\<rparr>"

definition invited :: meeting_world where
  "invited = fst (create_invite_link sample_meetings 1 5 9
     \<lparr>li_passcode = ''pw'', li_max_uses = 1, li_ttl_hours = 0, li_role = None\<rparr> meeting_start)"

definition first_token :: string where
  "first_token = raw_url_encode [0]"

definition ann_joins :: join_input where
  "ann_joins = \<lparr>ji_name = '' Ann '', ji_passcode = ''pw''\<rparr>"

theorem guest_join_admission_witness:
  "\<exists>w' r l c. meeting_join sample_meetings first_token ann_joins invited = (w', Ok r) \<and>
     admitting sample_meetings first_token ann_joins l c invited \<and> jr_role r = il_role l \<and> jr_role r = CallRoleParticipant \<and>
     length (ct_participants (mw_calls w')) = 1 \<and> length (ml_sessions (mw_meetings w')) = 1"
proof -
  let ?m = "meeting_join sample_meetings first_token ann_joins invited"
  have run: "case snd ?m of Err e \<Rightarrow> False | Ok r \<Rightarrow> jr_role r = CallRoleParticipant" by code_simp
  have len: "length (ct_participants (mw_calls (fst ?m))) = 1 \<and> length (ml_sessions (mw_meetings (fst ?m))) = 1" by code_simp
  obtain r where r: "snd ?m = Ok r" "jr_role r = CallRoleParticipant"
    using run by (cases "snd ?m") simp_all
  then have ok: "?m = (fst ?m, Ok r)" by (metis prod.collapse)
  obtain l c where "admitting sample_meetings first_token ann_joins l c invited" "jr_role r = il_role l"
    using guest_join_admission[OF ok] by blast
  then show ?thesis using ok r(2) len by blast
qed

section \<open>Histories\<close>

text \<open>What happens to the meeting tables: the operations of the service, and in between anything that the other
  services do to the calls, the passing of time and the next failures of the driver.\<close>

datatype meeting_op =
    OpCreateLink uuid uuid uuid link_input
  | OpGuestJoin string join_input
  | OpRevokeLink uuid uuid uuid
  | OpMeanwhile call_tables instant "string \<Rightarrow> error option"

text \<open>The world after an operation, and the link through which somebody got a token.\<close>

definition used_by :: "join_result \<Rightarrow> meeting_world \<Rightarrow> uuid list" where
  "used_by r w = map mg_invite (filter (\<lambda>g. mg_id g = jr_session r) (ml_sessions (mw_meetings w)))"

fun meeting_do :: "meeting_service \<Rightarrow> meeting_op \<Rightarrow> meeting_world \<Rightarrow> meeting_world \<times> uuid list" where
  "meeting_do s (OpCreateLink ws i actor input) w = (fst (create_invite_link s ws i actor input w), [])"
| "meeting_do s (OpGuestJoin token input) w =
     (case meeting_join s token input w of (w', Err e) \<Rightarrow> (w', []) | (w', Ok r) \<Rightarrow> (w', used_by r w'))"
| "meeting_do s (OpRevokeLink ws j actor) w = (fst (revoke_invite_link ws j actor w), [])"
| "meeting_do s (OpMeanwhile t now f) w =
     (w\<lparr>mw_calls := t, mw_now := now, mw_meetings := (mw_meetings w)\<lparr>ml_fault := f\<rparr>\<rparr>, [])"

fun run_meetings :: "meeting_service \<Rightarrow> meeting_op list \<Rightarrow> meeting_world \<times> uuid list \<Rightarrow> meeting_world \<times> uuid list" where
  "run_meetings s [] x = x"
| "run_meetings s (op # ops) (w, past) = (let (w', used) = meeting_do s op w in run_meetings s ops (w', past @ used))"

definition no_meetings :: "meeting_tables \<Rightarrow> bool" where
  "no_meetings t \<longleftrightarrow> ml_links t = [] \<and> ml_sessions t = []"

section \<open>The tables of links and sessions\<close>

definition link_ok :: "meeting_invite_link \<Rightarrow> bool" where
  "link_ok l \<longleftrightarrow> guest_role (il_role l) \<and> 0 \<le> il_use_count l \<and> il_use_count l \<le> il_max_uses l \<and> 0 < il_max_uses l"

definition session_fits :: "meeting_invite_link \<Rightarrow> meeting_guest_session \<Rightarrow> bool" where
  "session_fits l g \<longleftrightarrow> il_id l = mg_invite g \<and> mg_role g = il_role l \<and> mg_workspace g = il_workspace l \<and>
     mg_call g = il_call l \<and> mg_expires_at g \<le> il_expires_at l"

definition meetings_ok :: "meeting_tables \<Rightarrow> bool" where
  "meetings_ok t \<longleftrightarrow>
     distinct (map il_id (ml_links t)) \<and> distinct (map il_token_hash (ml_links t)) \<and> distinct (map mg_id (ml_sessions t)) \<and>
     (\<forall>l \<in> set (ml_links t). link_ok l) \<and> (\<forall>g \<in> set (ml_sessions t). \<exists>l \<in> set (ml_links t). session_fits l g)"

text \<open>How the tables change. \<open>u\<close> says whether a use of the link is counted.\<close>

inductive meeting_move :: "meeting_tables \<Rightarrow> meeting_tables \<Rightarrow> bool" where
  nothing: "meeting_move t t"
| new_link: "\<lbrakk>\<forall>r \<in> set (ml_links t). il_id r \<noteq> il_id l \<and> il_token_hash r \<noteq> il_token_hash l; link_ok l\<rbrakk> \<Longrightarrow>
     meeting_move t (t\<lparr>ml_links := ml_links t @ [l]\<rparr>)"
| revoked: "meeting_move t (t\<lparr>ml_links := update_rows P (\<lambda>r. r\<lparr>il_revoked_at := h r\<rparr>) (ml_links t)\<rparr>)"
| joins: "\<lbrakk>l \<in> set (ml_links t); session_fits l g; \<forall>x \<in> set (ml_sessions t). mg_id x \<noteq> mg_id g\<rbrakk> \<Longrightarrow>
     meeting_move t (t\<lparr>ml_sessions := ml_sessions t @ [g]\<rparr>)"
| used: "\<lbrakk>l \<in> set (ml_links t); 0 < il_max_uses l \<longrightarrow> il_use_count l < il_max_uses l\<rbrakk> \<Longrightarrow>
     meeting_move t (t\<lparr>ml_links := used_link (il_id l) now (ml_links t)\<rparr>)"

lemma update_rows_set: "x \<in> set (update_rows P f xs) \<longleftrightarrow> (\<exists>r \<in> set xs. x = (if P r then f r else r))"
  by (auto simp: update_rows_def)

lemma update_rows_fits:
  assumes "\<And>l g. session_fits (f l) g = session_fits l g" "\<forall>g \<in> G. \<exists>l \<in> set ls. session_fits l g"
  shows "\<forall>g \<in> G. \<exists>l \<in> set (update_rows P f ls). session_fits l g"
proof
  fix g assume "g \<in> G"
  then obtain l where "l \<in> set ls" "session_fits l g" using assms(2) by blast
  then show "\<exists>l \<in> set (update_rows P f ls). session_fits l g"
    using assms(1) by (intro bexI[of _ "if P l then f l else l"]) (auto simp: update_rows_set)
qed

lemma distinct_key_unique: "distinct (map f xs) \<Longrightarrow> x \<in> set xs \<Longrightarrow> y \<in> set xs \<Longrightarrow> f x = f y \<Longrightarrow> x = y"
  by (meson distinct_map inj_onD)

lemma meeting_move_ok: "meeting_move t t' \<Longrightarrow> meetings_ok t \<Longrightarrow> meetings_ok t'"
proof (induction rule: meeting_move.induct)
  case (new_link t l)
  then show ?case by (force simp: meetings_ok_def)
next
  case (revoked t P h)
  have "session_fits (r\<lparr>il_revoked_at := h r\<rparr>) g = session_fits r g" for r g by (simp add: session_fits_def)
  note fits = update_rows_fits[of "\<lambda>r. r\<lparr>il_revoked_at := h r\<rparr>", OF this, of "set (ml_sessions t)" "ml_links t" P]
  have "\<forall>l \<in> set (update_rows P (\<lambda>r. r\<lparr>il_revoked_at := h r\<rparr>) (ml_links t)). link_ok l"
    using revoked by (auto simp: meetings_ok_def update_rows_set link_ok_def)
  then show ?case using revoked fits by (simp add: meetings_ok_def map_update_rows)
next
  case (joins l t g)
  then show ?case by (auto simp: meetings_ok_def)
next
  case (used l t now)
  let ?f = "\<lambda>r. r\<lparr>il_use_count := il_use_count r + 1, il_last_used_at := Some now\<rparr>"
  have "session_fits (?f r) g = session_fits r g" for r g by (simp add: session_fits_def)
  note fits = update_rows_fits[of ?f, OF this, of "set (ml_sessions t)" "ml_links t" "\<lambda>r. il_id r = il_id l"]
  have fl: "link_ok (?f l)" using used by (auto simp: meetings_ok_def link_ok_def guest_role_def)
  have uniq: "r = l" if "r \<in> set (ml_links t)" "il_id r = il_id l" for r
    using distinct_key_unique[of il_id "ml_links t" r l] that used by (simp add: meetings_ok_def)
  have "link_ok (if il_id r = il_id l then ?f r else r)" if "r \<in> set (ml_links t)" for r
  proof (cases "il_id r = il_id l")
    case True
    then have "r = l" using uniq that by blast
    then show ?thesis using fl by simp
  next
    case False
    then show ?thesis using used(3) that by (simp add: meetings_ok_def)
  qed
  then have "\<forall>r \<in> set (update_rows (\<lambda>r. il_id r = il_id l) ?f (ml_links t)). link_ok r"
    unfolding Ball_def update_rows_set by blast
  then show ?case using used fits by (simp add: meetings_ok_def map_update_rows used_link_def)
qed

section \<open>What an operation leaves behind\<close>

lemma meeting_steps_exec [step_exec]:
  "and_then meeting_clock g w = g (mw_now w) w"
  "and_then meeting_new_id g' w = g' (mw_next_id w) (w\<lparr>mw_next_id := mw_next_id w + 1\<rparr>)"
  "and_then (map_err h (opaque_token s)) g'' w =
     (case mv_random s (mw_draws w) of
        Err e \<Rightarrow> (w\<lparr>mw_draws := mw_draws w + 1\<rparr>, Err (h (Wrapped ''generate token'' e)))
      | Ok b \<Rightarrow> g'' (raw_url_encode b, link_hash s (raw_url_encode b)) (w\<lparr>mw_draws := mw_draws w + 1\<rparr>))"
  "and_then (map_err h (meeting_statement f)) k w =
     (case f (mw_meetings w) of
        (t, None) \<Rightarrow> k () (w\<lparr>mw_meetings := t\<rparr>) | (t, Some e) \<Rightarrow> (w\<lparr>mw_meetings := t\<rparr>, Err (h e)))"
  "and_then (meeting_statement f) k w =
     (case f (mw_meetings w) of
        (t, None) \<Rightarrow> k () (w\<lparr>mw_meetings := t\<rparr>) | (t, Some e) \<Rightarrow> (w\<lparr>mw_meetings := t\<rparr>, Err e))"
  "and_then (map_err h (meeting_calls f')) k w =
     (case f' (mw_calls w) of
        (t, None) \<Rightarrow> k () (w\<lparr>mw_calls := t\<rparr>) | (t, Some e) \<Rightarrow> (w\<lparr>mw_calls := t\<rparr>, Err (h e)))"
  by (simp_all add: and_then_def map_err_def meeting_clock_def meeting_new_id_def opaque_token_def meeting_statement_def
      meeting_calls_def unit_result_def split: sum.split prod.split option.split)

lemma honest_links:
  "pg_create_link l t = (t', Some e) \<Longrightarrow> t' = t"
  "pg_create_guest_session g t = (t', Some e) \<Longrightarrow> t' = t"
  "update_link what P f t = (t', Some e) \<Longrightarrow> t' = t"
  by (auto simp: pg_create_link_def pg_create_guest_session_def update_link_def Let_def split: option.splits)

lemma create_invite_link_moves: "meeting_move (mw_meetings w) (mw_meetings (fst (create_invite_link s ws i actor input w)))"
  "mw_calls (fst (create_invite_link s ws i actor input w)) = mw_calls w"
proof -
  show "mw_calls (fst (create_invite_link s ws i actor input w)) = mw_calls w"
    by (simp add: create_invite_link_def step_exec Let_def return_def split: sum.split option.split prod.split)
  have new: "meeting_move (mw_meetings w) t" if "pg_create_link l (mw_meetings w) = (t, e)" "link_ok l" for l t e
  proof (cases e)
    case None
    then have "t = (mw_meetings w)\<lparr>ml_links := ml_links (mw_meetings w) @ [l\<lparr>il_raw_token := []\<rparr>]\<rparr>"
      "\<forall>r \<in> set (ml_links (mw_meetings w)). il_id r \<noteq> il_id l \<and> il_token_hash r \<noteq> il_token_hash l"
      using that(1) by (simp_all add: link_statements_None)
    then show ?thesis using meeting_move.new_link[of "mw_meetings w" "l\<lparr>il_raw_token := []\<rparr>"] that(2) by (simp add: link_ok_def)
  next
    case (Some x)
    then show ?thesis using honest_links(1) that(1) meeting_move.nothing by blast
  qed
  show "meeting_move (mw_meetings w) (mw_meetings (fst (create_invite_link s ws i actor input w)))"
    by (simp add: create_invite_link_def step_exec Let_def return_def meeting_move.nothing split: sum.split option.split prod.split)
      (auto intro!: new simp: link_ok_def)
qed

lemma add_guest_participant_Err:
  assumes "add_guest_participant p cap w = (w', Err e)" shows "w' = w"
proof -
  have ins: "insert_participant q t = (t', Some x) \<Longrightarrow> t' = t" for q t t' x
    by (auto simp: insert_participant_def split: if_splits)
  have "pg_add_participant_if_capacity p cap t = (t', Some x) \<Longrightarrow> t' = t"
      "pg_add_participant p t = (t', Some x) \<Longrightarrow> t' = t" for t t' x
    by (auto simp: pg_add_participant_if_capacity_def pg_add_participant_def Let_def dest: ins split: option.splits prod.splits if_splits)
  then show ?thesis
    using assms by (auto simp: add_guest_participant_def map_err_def meeting_calls_def unit_result_def
        split: if_splits prod.splits sum.splits option.splits)
qed

lemma exec_activation:
  "and_then (if b then map_err h (meeting_calls f) else return ()) k w =
     (if b then case f (mw_calls w) of
          (t, None) \<Rightarrow> k () (w\<lparr>mw_calls := t\<rparr>) | (t, Some e) \<Rightarrow> (w\<lparr>mw_calls := t\<rparr>, Err (h e))
      else k () w)"
  by (simp add: step_exec) (simp add: and_then_def return_def)

lemma join_tail:
  fixes w i j now f h h' k b
  defines "m \<equiv> and_then (if b then map_err h (meeting_calls (pg_update_call_status i CallStatusActive)) else return ())
      (\<lambda>_. and_then (meeting_statement (pg_use_link j now)) (\<lambda>_. and_then (map_err h' (from_read f)) (\<lambda>a. return (k a))))"
  shows "mw_meetings (fst (m w)) = mw_meetings w \<or>
         mw_meetings (fst (m w)) = (mw_meetings w)\<lparr>ml_links := used_link j now (ml_links (mw_meetings w))\<rparr>" (is ?meetings)
    and "mw_calls (fst (m w)) = mw_calls w \<or>
         mw_calls (fst (m w)) = (mw_calls w)\<lparr>ct_calls := activated i (ct_calls (mw_calls w))\<rparr>" (is ?calls)
proof -
  obtain t e where t: "pg_update_call_status i CallStatusActive (mw_calls w) = (t, e)" by fastforce
  have t': "t = mw_calls w \<or> t = (mw_calls w)\<lparr>ct_calls := activated i (ct_calls (mw_calls w))\<rparr>"
    using t by (auto simp: pg_update_call_status_def update_call_def activated_def split: option.splits)
  have u: "fst (pg_use_link j now x) = x \<or> fst (pg_use_link j now x) = x\<lparr>ml_links := used_link j now (ml_links x)\<rparr>" for x
    by (auto simp: pg_use_link_def update_link_def used_link_def split: option.splits)
  show ?meetings ?calls
    unfolding m_def exec_activation using t t' u[of "mw_meetings w"]
    by (auto simp: step_exec return_def split: prod.splits option.splits sum.splits)
qed

text \<open>A \<open>Join\<close> that got as far as its session: the participant, and then what \<open>join_tail\<close> allows.\<close>

lemma join_from_session:
  fixes s l c w b name
  defines "g \<equiv> guest_session_for s name l (mw_next_id w) (link_hash s (raw_url_encode b)) (mw_now w)"
  defines "p \<equiv> guest_participant_for g c (mw_next_id w + 1) (mw_now w)"
  assumes "admitted_by_link s token input w = Ok (name, l, c)" "mv_random s (mw_draws w) = Ok b"
    and "pg_create_guest_session g (mw_meetings w) = (t, None)"
  obtains tail where
    "meeting_join s token input w = and_then (add_guest_participant p (meeting_participant_cap c)) tail
       (w\<lparr>mw_draws := mw_draws w + 1, mw_meetings := t, mw_next_id := mw_next_id w + 2\<rparr>)"
    "\<And>w2. mw_meetings (fst (tail () w2)) = mw_meetings w2 \<or>
       mw_meetings (fst (tail () w2)) = (mw_meetings w2)\<lparr>ml_links := used_link (il_id l) (mw_now w) (ml_links (mw_meetings w2))\<rparr>"
    "\<And>w2. mw_calls (fst (tail () w2)) = mw_calls w2 \<or>
       mw_calls (fst (tail () w2)) = (mw_calls w2)\<lparr>ct_calls := activated (ca_id c) (ct_calls (mw_calls w2))\<rparr>"
proof -
  obtain tail where tail: "meeting_join s token input w = and_then (add_guest_participant p (meeting_participant_cap c)) tail
         (w\<lparr>mw_draws := mw_draws w + 1, mw_meetings := t, mw_next_id := mw_next_id w + 2\<rparr>)"
      "tail () = and_then (if pa_status p = ParticipantConnected \<and> ca_status c = CallStatusRinging
           then map_err (internal_err ''failed to activate meeting'') (meeting_calls (pg_update_call_status (ca_id c) CallStatusActive))
           else return ()) (\<lambda>_.
         and_then (meeting_statement (pg_use_link (il_id l) (mw_now w))) (\<lambda>_.
         and_then (map_err (internal_err ''failed to sign meeting guest token'') (from_read (sign_guest_token s g (raw_url_encode b) (mg_expires_at g)))) (\<lambda>access.
         return \<lparr>jr_access = access, jr_expires_at = mg_expires_at g, jr_session = mg_id g, jr_workspace = mg_workspace g,
           jr_call = mg_call g, jr_channel = ca_meeting_channel c, jr_role = mg_role g\<rparr>)))"
    using assms(3-5) unfolding p_def g_def by (simp add: meeting_join_def step_exec Let_def)
  show thesis by (rule that[OF tail(1)]; unfold tail(2); rule join_tail)
qed

text \<open>What a \<open>Join\<close> may leave behind: its session, then its participant, then the activated call, then the counted
  use.\<close>

definition joins_partly ::
  "meeting_invite_link \<Rightarrow> call \<Rightarrow> meeting_guest_session \<Rightarrow> call_participant \<Rightarrow> meeting_world \<Rightarrow> meeting_world \<Rightarrow> bool" where
  "joins_partly l c g p w w' \<longleftrightarrow>
     session_fits l g \<and> (\<forall>x \<in> set (ml_sessions (mw_meetings w)). mg_id x \<noteq> mg_id g) \<and>
     pa_principal p = PrincipalGuest \<and> pa_role p = il_role l \<and> principal_check p \<and>
     (mw_meetings w' = (mw_meetings w)\<lparr>ml_sessions := ml_sessions (mw_meetings w) @ [g]\<rparr> \<or>
      mw_meetings w' = (mw_meetings w)\<lparr>ml_sessions := ml_sessions (mw_meetings w) @ [g],
         ml_links := used_link (il_id l) (mw_now w) (ml_links (mw_meetings w))\<rparr>) \<and>
     (mw_calls w' = mw_calls w \<or>
      \<not> list_ex (participant_clash p) (ct_participants (mw_calls w)) \<and>
      (\<exists>cs. (cs = ct_calls (mw_calls w) \<or> cs = activated (ca_id c) (ct_calls (mw_calls w))) \<and>
        mw_calls w' = (mw_calls w)\<lparr>ct_participants := ct_participants (mw_calls w) @ [p], ct_calls := cs\<rparr>))"

lemma meeting_join_leaves:
  "mw_meetings (fst (meeting_join s token input w)) = mw_meetings w \<and> mw_calls (fst (meeting_join s token input w)) = mw_calls w \<or>
   (\<exists>l c g p. admitting s token input l c w \<and> joins_partly l c g p w (fst (meeting_join s token input w)))"
  (is "?same \<or> ?joins")
proof (cases "admitted_by_link s token input w")
  case (Inl e)
  then show ?thesis by (simp add: meeting_join_def step_exec)
next
  case (Inr x)
  then obtain name l c where x: "admitted_by_link s token input w = Ok (name, l, c)" by (cases x) auto
  then have a: "admitting s token input l c w" using admitted_by_link_Ok by blast
  show ?thesis
  proof (cases "mv_random s (mw_draws w)")
    case (Inl e)
    then show ?thesis using x by (simp add: meeting_join_def step_exec)
  next
    case b: (Inr b)
    let ?g = "guest_session_for s name l (mw_next_id w) (link_hash s (raw_url_encode b)) (mw_now w)"
    let ?p = "guest_participant_for ?g c (mw_next_id w + 1) (mw_now w)"
    have fits: "session_fits l ?g" "pa_principal ?p = PrincipalGuest" "pa_role ?p = il_role l" "principal_check ?p"
      by (simp_all add: session_fits_def guest_session_for_def guest_participant_for_def min_time_def principal_check_def)
    obtain t e where t: "pg_create_guest_session ?g (mw_meetings w) = (t, e)" by fastforce
    show ?thesis
    proof (cases e)
      case (Some e')
      then have "t = mw_meetings w" using t honest_links(2) by blast
      then show ?thesis using x b t Some by (simp add: meeting_join_def step_exec Let_def)
    next
      case None
      then have t': "t = (mw_meetings w)\<lparr>ml_sessions := ml_sessions (mw_meetings w) @ [?g]\<rparr>"
          and fresh: "\<forall>y \<in> set (ml_sessions (mw_meetings w)). mg_id y \<noteq> mg_id ?g"
        using t by (simp_all add: link_statements_None)
      let ?w1 = "w\<lparr>mw_draws := mw_draws w + 1, mw_meetings := t, mw_next_id := mw_next_id w + 2\<rparr>"
      obtain tail where run: "meeting_join s token input w = and_then (add_guest_participant ?p (meeting_participant_cap c)) tail ?w1"
        and ends: "\<And>w2. mw_meetings (fst (tail () w2)) = mw_meetings w2 \<or>
            mw_meetings (fst (tail () w2)) = (mw_meetings w2)\<lparr>ml_links := used_link (il_id l) (mw_now w) (ml_links (mw_meetings w2))\<rparr>"
          "\<And>w2. mw_calls (fst (tail () w2)) = mw_calls w2 \<or>
            mw_calls (fst (tail () w2)) = (mw_calls w2)\<lparr>ct_calls := activated (ca_id c) (ct_calls (mw_calls w2))\<rparr>"
        using join_from_session[OF x b t[unfolded None]] by blast
      show ?thesis
      proof (cases "add_guest_participant ?p (meeting_participant_cap c) ?w1")
        case (Pair w2 res)
        show ?thesis
        proof (cases res)
          case (Inl e')
          then have "w2 = ?w1" using add_guest_participant_Err Pair by blast
          then have "fst (meeting_join s token input w) = ?w1" using run Pair Inl by (simp add: and_then_def)
          then have "?joins" using a fits fresh t'
            by (intro exI[of _ l] exI[of _ c] exI[of _ ?g] exI[of _ ?p]) (simp add: joins_partly_def)
          then show ?thesis ..
        next
          case (Inr u)
          note added = add_guest_participant_Ok[OF Pair[unfolded Inr, simplified]]
          have run2: "meeting_join s token input w = tail () w2" using run Pair Inr by (simp add: and_then_def)
          let ?w' = "fst (meeting_join s token input w)"
          have "mw_meetings w2 = t" "mw_calls w2 = (mw_calls w)\<lparr>ct_participants := ct_participants (mw_calls w) @ [?p]\<rparr>"
              "\<not> list_ex (participant_clash ?p) (ct_participants (mw_calls w))"
            using added by simp_all
          note w2 = this
          have "mw_meetings ?w' = (mw_meetings w)\<lparr>ml_sessions := ml_sessions (mw_meetings w) @ [?g]\<rparr> \<or>
              mw_meetings ?w' = (mw_meetings w)\<lparr>ml_sessions := ml_sessions (mw_meetings w) @ [?g],
                ml_links := used_link (il_id l) (mw_now w) (ml_links (mw_meetings w))\<rparr>"
            using ends(1)[of w2] unfolding run2 w2(1) t' by simp
          moreover have "\<exists>cs. (cs = ct_calls (mw_calls w) \<or> cs = activated (ca_id c) (ct_calls (mw_calls w))) \<and>
              mw_calls ?w' = (mw_calls w)\<lparr>ct_participants := ct_participants (mw_calls w) @ [?p], ct_calls := cs\<rparr>"
            using ends(2)[of w2] unfolding run2 w2(2) by (elim disjE) (simp_all, fastforce+)
          ultimately have "?joins" using a fits fresh w2(3) unfolding joins_partly_def by blast
          then show ?thesis ..
        qed
      qed
    qed
  qed
qed

lemma meeting_join_moves:
  "\<exists>t. meeting_move (mw_meetings w) t \<and> meeting_move t (mw_meetings (fst (meeting_join s token input w)))"
proof -
  have two: "\<exists>t. meeting_move t0 t \<and> meeting_move t (t0\<lparr>ml_sessions := ml_sessions t0 @ [g], ml_links := used_link (il_id l) now (ml_links t0)\<rparr>)"
    if "l \<in> set (ml_links t0)" "session_fits l g" "\<forall>x \<in> set (ml_sessions t0). mg_id x \<noteq> mg_id g"
       "0 < il_max_uses l \<longrightarrow> il_use_count l < il_max_uses l" for l g t0 now
    using meeting_move.joins[OF that(1-3)] meeting_move.used[of l "t0\<lparr>ml_sessions := ml_sessions t0 @ [g]\<rparr>" now] that(1,4) by auto
  show ?thesis
  proof (cases "mw_meetings (fst (meeting_join s token input w)) = mw_meetings w")
    case True
    then show ?thesis using meeting_move.nothing by metis
  next
    case False
    then obtain l c g p where "admitting s token input l c w" "joins_partly l c g p w (fst (meeting_join s token input w))"
      using meeting_join_leaves[of s token input w] by blast
    then show ?thesis
      using two[of l "mw_meetings w" g "mw_now w"] meeting_move.joins[of l "mw_meetings w" g] meeting_move.nothing
      unfolding admitting_def joins_partly_def by metis
  qed
qed

lemma revoke_invite_link_moves:
  "meeting_move (mw_meetings w) (mw_meetings (fst (revoke_invite_link ws j actor w))) \<and> mw_calls (fst (revoke_invite_link ws j actor w)) = mw_calls w"
proof -
  have "meeting_move t (fst (pg_revoke_link ws j now t))" for t now
    by (auto simp: pg_revoke_link_def update_link_def meeting_move.nothing meeting_move.revoked split: option.split)
  then show ?thesis
    by (auto simp: revoke_invite_link_def step_exec meeting_statement_def meeting_move.nothing
        split: sum.split option.split prod.split) (metis fst_conv)+
qed

text \<open>The calls after an operation: as before, or with one more guest.\<close>

lemma meeting_do_calls:
  assumes "\<And>t now f. op \<noteq> OpMeanwhile t now f" "meetings_ok (mw_meetings w)" "tables_ok (mw_calls w)"
  shows "tables_ok (mw_calls (fst (meeting_do s op w))) \<and>
    (\<exists>new. ct_participants (mw_calls (fst (meeting_do s op w))) = ct_participants (mw_calls w) @ new \<and>
       (\<forall>p \<in> set new. pa_principal p = PrincipalGuest \<and> guest_role (pa_role p)))"
proof (cases op)
  case (OpCreateLink ws i actor input)
  then show ?thesis using assms(3) create_invite_link_moves(2) by simp
next
  case (OpRevokeLink ws j actor)
  then show ?thesis using assms(3) revoke_invite_link_moves by simp
next
  case (OpMeanwhile t now f)
  then show ?thesis using assms(1) by blast
next
  case (OpGuestJoin token input)
  let ?w' = "fst (meeting_join s token input w)"
  have eq: "fst (meeting_do s op w) = ?w'" using OpGuestJoin by (simp split: prod.split sum.split)
  show ?thesis
  proof (cases "mw_calls ?w' = mw_calls w")
    case True
    then show ?thesis using assms(3) eq by simp
  next
    case False
    then obtain l c g p cs where a: "admitting s token input l c w" and p: "pa_principal p = PrincipalGuest" "pa_role p = il_role l"
      "principal_check p" "\<not> list_ex (participant_clash p) (ct_participants (mw_calls w))"
      "cs = ct_calls (mw_calls w) \<or> cs = activated (ca_id c) (ct_calls (mw_calls w))"
      and w': "mw_calls ?w' = (mw_calls w)\<lparr>ct_participants := ct_participants (mw_calls w) @ [p], ct_calls := cs\<rparr>"
      using meeting_join_leaves[of s token input w] unfolding joins_partly_def by metis
    have "guest_role (pa_role p)" using a p(2) assms(2) by (auto simp: admitting_def meetings_ok_def link_ok_def)
    moreover have "tables_ok ((mw_calls w)\<lparr>ct_participants := ct_participants (mw_calls w) @ [p]\<rparr>)"
      by (rule tables_ok_insert[OF assms(3), of p]) (use p(3,4) in \<open>simp add: insert_participant_None\<close>)
    then have "tables_ok ((mw_calls w)\<lparr>ct_participants := ct_participants (mw_calls w) @ [p], ct_calls := cs\<rparr>)"
      using p(5) unfolding activated_def by (auto simp: tables_ok_def map_update_rows)
    ultimately show ?thesis using eq w' p(1) by simp
  qed
qed

section \<open>The limit of a link\<close>

definition uses_counted :: "meeting_tables \<Rightarrow> uuid list \<Rightarrow> bool" where
  "uses_counted t past \<longleftrightarrow>
     (\<forall>l \<in> set (ml_links t). int (count_list past (il_id l)) \<le> il_use_count l) \<and> set past \<subseteq> il_id ` set (ml_links t)"

lemma update_rows_image: "(\<And>r. k (f r) = k r) \<Longrightarrow> k ` set (update_rows P f xs) = k ` set xs"
  by (metis (mono_tags, lifting) list.set_map map_update_rows)

lemma used_link_rows:
  "r' \<in> set (used_link i now ls) \<Longrightarrow>
     \<exists>r \<in> set ls. il_id r' = il_id r \<and> il_use_count r' = il_use_count r + (if il_id r = i then 1 else 0)"
  "il_id ` set (used_link i now ls) = il_id ` set ls"
proof -
  show "r' \<in> set (used_link i now ls) \<Longrightarrow>
     \<exists>r \<in> set ls. il_id r' = il_id r \<and> il_use_count r' = il_use_count r + (if il_id r = i then 1 else 0)"
    by (auto simp: used_link_def update_rows_set)
  show "il_id ` set (used_link i now ls) = il_id ` set ls"
    unfolding used_link_def by (rule update_rows_image) simp
qed

lemma counted_rows:
  assumes "uses_counted t past" "il_id ` set ls = il_id ` set (ml_links t)" "set extra \<subseteq> il_id ` set ls"
    and "\<And>r'. r' \<in> set ls \<Longrightarrow> \<exists>r \<in> set (ml_links t). il_id r' = il_id r \<and> il_use_count r + int (count_list extra (il_id r)) \<le> il_use_count r'"
    and "ml_links t' = ls"
  shows "uses_counted t' (past @ extra)"
proof -
  have "int (count_list (past @ extra) (il_id r')) \<le> il_use_count r'" if r': "r' \<in> set ls" for r'
  proof -
    obtain r where "r \<in> set (ml_links t)" "il_id r' = il_id r" "il_use_count r + int (count_list extra (il_id r)) \<le> il_use_count r'"
      using assms(4)[OF r'] by blast
    then show ?thesis using assms(1) by (fastforce simp: uses_counted_def)
  qed
  moreover have "set past \<subseteq> il_id ` set ls" using assms(1,2) by (simp add: uses_counted_def)
  ultimately show ?thesis using assms(3,5) by (simp add: uses_counted_def)
qed

lemma meeting_move_counted: "meeting_move t t' \<Longrightarrow> meetings_ok t \<Longrightarrow> uses_counted t past \<Longrightarrow> uses_counted t' past"
proof (induction rule: meeting_move.induct)
  case (new_link t l)
  have "il_id l \<notin> il_id ` set (ml_links t)" using new_link(1) by force
  then have "il_id l \<notin> set past" using new_link by (auto simp: uses_counted_def)
  then show ?case using new_link by (auto simp: uses_counted_def link_ok_def)
next
  case (revoked t P h)
  let ?ls = "update_rows P (\<lambda>r. r\<lparr>il_revoked_at := h r\<rparr>) (ml_links t)"
  have "\<exists>r \<in> set (ml_links t). il_id r' = il_id r \<and> il_use_count r + int (count_list [] (il_id r)) \<le> il_use_count r'"
    if "r' \<in> set ?ls" for r' using that by (auto simp: update_rows_def)
  moreover have "il_id ` set ?ls = il_id ` set (ml_links t)" by (rule update_rows_image) simp
  ultimately show ?case using counted_rows[OF revoked(2), of ?ls "[]"] by simp
next
  case (used l t now)
  let ?ls = "used_link (il_id l) now (ml_links t)"
  have "\<exists>r \<in> set (ml_links t). il_id r' = il_id r \<and> il_use_count r + int (count_list [] (il_id r)) \<le> il_use_count r'"
    if "r' \<in> set ?ls" for r' using used_link_rows(1)[OF that] by auto
  then show ?case using counted_rows[OF used(4), of ?ls "[]"] used_link_rows(2) by simp
qed (auto simp: uses_counted_def)

lemma used_by_fresh:
  assumes "\<forall>x \<in> set xs. mg_id x \<noteq> mg_id g" "ml_sessions (mw_meetings w) = xs @ [g]" "jr_session r = mg_id g"
  shows "used_by r w = [mg_invite g]"
  using assms by (simp add: used_by_def filter_False)

lemma meeting_join_counted:
  assumes "meeting_join s token input w = (w', Ok r)" "meetings_ok (mw_meetings w)" "uses_counted (mw_meetings w) past"
  shows "uses_counted (mw_meetings w') (past @ used_by r w')"
proof -
  obtain l c raw where a: "admitting s token input l c w" and j: "joined s l c (trim_space (ji_name input)) raw w w' r"
    using meeting_join_Ok[OF assms(1)] by blast
  let ?g = "guest_session_for s (trim_space (ji_name input)) l (mw_next_id w) (link_hash s raw) (mw_now w)"
  have fresh: "\<forall>x \<in> set (ml_sessions (mw_meetings w)). mg_id x \<noteq> mg_id ?g"
    and t: "mw_meetings w' = (mw_meetings w)\<lparr>ml_sessions := ml_sessions (mw_meetings w) @ [?g],
         ml_links := used_link (il_id l) (mw_now w) (ml_links (mw_meetings w))\<rparr>"
    using j unfolding joined_def Let_def by blast+
  have "jr_session r = mg_id ?g" using j unfolding joined_def Let_def by (metis join_result.select_convs(3))
  then have "used_by r w' = [il_id l]" using used_by_fresh[OF fresh] t by (simp add: guest_session_for_def)
  moreover have "uses_counted (mw_meetings w') (past @ [il_id l])"
  proof (rule counted_rows[OF assms(3) used_link_rows(2)])
    show "set [il_id l] \<subseteq> il_id ` set (used_link (il_id l) (mw_now w) (ml_links (mw_meetings w)))"
      using a unfolding used_link_rows(2) by (simp add: admitting_def)
    show "\<exists>x \<in> set (ml_links (mw_meetings w)). il_id r' = il_id x \<and> il_use_count x + int (count_list [il_id l] (il_id x)) \<le> il_use_count r'"
      if "r' \<in> set (used_link (il_id l) (mw_now w) (ml_links (mw_meetings w)))" for r'
      using used_link_rows(1)[OF that] by auto
    show "ml_links (mw_meetings w') = used_link (il_id l) (mw_now w) (ml_links (mw_meetings w))" using t by simp
  qed
  ultimately show ?thesis by simp
qed

lemma meeting_do_ok:
  assumes "meetings_ok (mw_meetings w)" "uses_counted (mw_meetings w) past" "meeting_do s op w = (w', used)"
  shows "meetings_ok (mw_meetings w') \<and> uses_counted (mw_meetings w') (past @ used)"
proof (cases op)
  case (OpGuestJoin token input)
  obtain w1 res where m: "meeting_join s token input w = (w1, res)" by fastforce
  then have w': "w' = w1" using assms(3) OpGuestJoin by (auto split: sum.splits)
  obtain t where t: "meeting_move (mw_meetings w) t" "meeting_move t (mw_meetings w1)"
    using meeting_join_moves[of w s token input] m by auto
  note ok = meeting_move_ok[OF t(1) assms(1)]
  show ?thesis
  proof (cases res)
    case (Inl e)
    then have "used = []" using assms(3) OpGuestJoin m by simp
    then show ?thesis
      using meeting_move_ok[OF t(2) ok] meeting_move_counted[OF t(2) ok meeting_move_counted[OF t(1) assms(1,2)]] w' by simp
  next
    case (Inr r)
    then have "used = used_by r w1" using assms(3) OpGuestJoin m by auto
    then show ?thesis using meeting_move_ok[OF t(2) ok] meeting_join_counted[OF m[unfolded Inr] assms(1,2)] w' by simp
  qed
next
  case (OpMeanwhile t now f)
  then show ?thesis using assms by (auto simp: meetings_ok_def uses_counted_def)
qed (use assms create_invite_link_moves(1) revoke_invite_link_moves meeting_move_ok meeting_move_counted in \<open>auto; blast\<close>)+

lemma run_meetings_ok:
  "meetings_ok (mw_meetings w) \<Longrightarrow> uses_counted (mw_meetings w) past \<Longrightarrow> run_meetings s ops (w, past) = (w', past') \<Longrightarrow>
     meetings_ok (mw_meetings w') \<and> uses_counted (mw_meetings w') past'"
proof (induction ops arbitrary: w past)
  case (Cons op ops)
  obtain w1 used where m: "meeting_do s op w = (w1, used)" by fastforce
  have "run_meetings s ops (w1, past @ used) = (w', past')" using Cons.prems(3) m by simp
  then show ?case using Cons.IH meeting_do_ok[OF Cons.prems(1,2) m] by blast
qed simp

text \<open>Along every history of the meeting service, from empty tables, with whatever the other services do to the
  calls in between and whatever statements fail, the tables of links and sessions are well-formed: identifiers and
  tokens are unique, every link and every session has a role of a guest, no session outlives its link, and a link has
  handed out at most as many tokens as its limit of uses.\<close>

lemma meeting_links_invariant:
  assumes "run_meetings s ops (w0, []) = (w, past)" "no_meetings (mw_meetings w0)"
  shows "meetings_ok (mw_meetings w) \<and>
    (\<forall>l \<in> set (ml_links (mw_meetings w)). int (count_list past (il_id l)) \<le> il_max_uses l)"
proof -
  have "meetings_ok (mw_meetings w0)" "uses_counted (mw_meetings w0) []"
    using assms(2) by (simp_all add: no_meetings_def meetings_ok_def uses_counted_def)
  then have ok: "meetings_ok (mw_meetings w)" "uses_counted (mw_meetings w) past" using run_meetings_ok assms(1) by blast+
  then show ?thesis by (force simp: meetings_ok_def uses_counted_def link_ok_def)
qed

text \<open>Ann takes the only use of the link; Bob is refused, and nothing is left of his attempt.\<close>

definition standup_history :: "meeting_op list" where
  "standup_history = [OpCreateLink 1 5 9 \<lparr>li_passcode = ''pw'', li_max_uses = 1, li_ttl_hours = 0, li_role = None\<rparr>,
     OpGuestJoin first_token ann_joins, OpGuestJoin first_token \<lparr>ji_name = ''Bob'', ji_passcode = ''pw''\<rparr>]"

lemma meeting_links_invariant_witness:
  "\<exists>w l. run_meetings sample_meetings standup_history (meeting_start, []) = (w, [20]) \<and> ml_links (mw_meetings w) = [l] \<and>
     link_ok l \<and> int (count_list [20] (il_id l)) \<le> il_max_uses l"
proof -
  let ?x = "run_meetings sample_meetings standup_history (meeting_start, [])"
  have "snd ?x = [20]" by code_simp
  then have run: "?x = (fst ?x, [20])" by (metis prod.collapse)
  have "length (ml_links (mw_meetings (fst ?x))) = 1" by code_simp
  then obtain l where l: "ml_links (mw_meetings (fst ?x)) = [l]" by (auto simp: length_Suc_conv)
  have "no_meetings (mw_meetings meeting_start)" by (simp add: no_meetings_def meeting_start_def)
  from meeting_links_invariant[OF run this] have "link_ok l" "int (count_list [20] (il_id l)) \<le> il_max_uses l"
    unfolding meetings_ok_def l by simp_all
  then show ?thesis using run l by blast
qed

text \<open>The meeting service never makes anybody a host: on well-formed tables each of its operations, successful or
  not, leaves every participant of every call as it is and adds at most guests, whose role is participant, viewer or
  presenter; and the call tables stay well-formed.\<close>

lemma guests_never_host:
  assumes "run_meetings s ops (w0, []) = (w, past)" "no_meetings (mw_meetings w0)" "tables_ok (mw_calls w)"
    and "\<And>t now f. op \<noteq> OpMeanwhile t now f"
  shows "tables_ok (mw_calls (fst (meeting_do s op w))) \<and>
    (\<exists>new. ct_participants (mw_calls (fst (meeting_do s op w))) = ct_participants (mw_calls w) @ new \<and>
       (\<forall>p \<in> set new. pa_principal p = PrincipalGuest \<and> pa_role p \<in> {CallRoleParticipant, CallRoleViewer, CallRolePresenter}))"
proof -
  have "meetings_ok (mw_meetings w0)" "uses_counted (mw_meetings w0) []"
    using assms(2) by (simp_all add: no_meetings_def meetings_ok_def uses_counted_def)
  then have "meetings_ok (mw_meetings w)" using run_meetings_ok assms(1) by blast
  from meeting_do_calls[OF assms(4) this assms(3)] show ?thesis by (auto simp: guest_role_def)
qed

lemma guests_never_host_witness:
  "\<exists>p. ct_participants (mw_calls (fst (meeting_do sample_meetings (OpGuestJoin first_token ann_joins) invited))) = [p] \<and>
     pa_role p \<in> {CallRoleParticipant, CallRoleViewer, CallRolePresenter}"
proof -
  have run: "run_meetings sample_meetings [hd standup_history] (meeting_start, []) = (invited, [])"
    by (simp add: standup_history_def invited_def)
  have start: "no_meetings (mw_meetings meeting_start)" "tables_ok (mw_calls invited)"
    using create_invite_link_moves(2) by (simp_all add: no_meetings_def meeting_start_def invited_def tables_ok_def)
  let ?ps = "ct_participants (mw_calls (fst (meeting_do sample_meetings (OpGuestJoin first_token ann_joins) invited)))"
  have "length ?ps = 1" "ct_participants (mw_calls invited) = []" by code_simp+
  then obtain p where p: "?ps = [p]" by (auto simp: length_Suc_conv)
  then show ?thesis
    using guests_never_host[OF run start, of "OpGuestJoin first_token ann_joins"] \<open>ct_participants (mw_calls invited) = []\<close>
    by (metis append_Nil list.set_intros(1) meeting_op.distinct(9))
qed

section \<open>The token of a guest\<close>

text \<open>What ties the two services together: they share the secret and the text of identifiers is ASCII and parses back.
  Of the token library: a date is cut down to the second, and what was signed with HMAC-SHA256 is accepted under the
  same key, with the payload signed, until the second of the expiry, and refused from then on. This is asked only of
  payloads that survive JSON as they are: ASCII texts under different tags, none of them the tag of a registered claim,
  dates that a floating-point number represents exactly, and no date before which the token does not hold.\<close>

definition registered_claims :: "string set" where
  "registered_claims = {''iss'', ''sub'', ''aud'', ''exp'', ''nbf'', ''iat'', ''jti''}"

definition ascii_text :: "string \<Rightarrow> bool" where
  "ascii_text x \<longleftrightarrow> (\<forall>c \<in> set x. of_char c < (128::nat))"

fun plain_value :: "json_value \<Rightarrow> bool" where
  "plain_value (JText x) = ascii_text x"
| "plain_value (JNumber n) = (\<bar>n\<bar> < 2 ^ 53)"
| "plain_value JNull = True"

definition plain_payload :: "jwt_payload \<Rightarrow> bool" where
  "plain_payload p \<longleftrightarrow>
     ascii_text (jp_subject p) \<and> jp_not_before p = None \<and> distinct (map (to_lower \<circ> fst) (jp_private p)) \<and>
     (\<forall>(tag, v) \<in> set (jp_private p). ascii_text tag \<and> to_lower tag \<notin> registered_claims \<and> plain_value v) \<and>
     (\<forall>n. jp_issued_at p = Some n \<or> jp_expires_at p = Some n \<longrightarrow> \<bar>n\<bar> < 2 ^ 53)"

definition shared_tokens :: "meeting_service \<Rightarrow> auth_service \<Rightarrow> bool" where
  "shared_tokens m a \<longleftrightarrow>
     av_secret a = mv_secret m \<and> (\<forall>t. mv_numeric_date m t = t div second) \<and>
     (\<forall>i. ascii_text (mv_uuid_text m i) \<and> sm_uuid_parse (av_sessions a) (mv_uuid_text m i) = Ok i) \<and>
     (\<forall>kf now t p x key. mv_jwt_sign m key p = Ok t \<longrightarrow> plain_payload p \<longrightarrow> jp_expires_at p = Some x \<longrightarrow>
        kf \<lparr>jh_hmac = True, jh_alg = ''HS256''\<rparr> = Ok key \<longrightarrow>
        t \<noteq> [] \<and> (if now < x * second then av_jwt_parse a kf now t = Ok (True, p) else \<exists>e. av_jwt_parse a kf now t = Err e))"

lemma ascii_hex: "ascii_text (hex_encode s)"
  using hex_encode_ascii[of s] by (auto simp: ascii_text_def)

lemma guest_claims_plain:
  assumes "ascii_text g" "ascii_text w" "ascii_text c" "guest_role role"
  shows "distinct (map (to_lower \<circ> fst) (guest_claims g w c role (hex_encode h)))"
    "(tag, v) \<in> set (guest_claims g w c role (hex_encode h)) \<Longrightarrow> ascii_text tag \<and> to_lower tag \<notin> registered_claims \<and> plain_value v"
proof -
  have low: "to_lower ''kind'' = ''kind''" "to_lower ''guest_session_id'' = ''guest_session_id''" "to_lower ''workspace_id'' = ''workspace_id''"
    "to_lower ''call_id'' = ''call_id''" "to_lower ''role'' = ''role''" "to_lower ''token_hash'' = ''token_hash''"
    by (simp_all add: to_lower_def lower_char_def)
  show "distinct (map (to_lower \<circ> fst) (guest_claims g w c role (hex_encode h)))"
    by (simp add: guest_claims_def low)
  assume "(tag, v) \<in> set (guest_claims g w c role (hex_encode h))"
  then show "ascii_text tag \<and> to_lower tag \<notin> registered_claims \<and> plain_value v"
    using assms ascii_hex[of h]
    by (auto simp: guest_claims_def guest_role_def registered_claims_def low) (auto simp: ascii_text_def)
qed

lemma seconds_exact: "\<bar>t\<bar> < 2 ^ 63 \<Longrightarrow> \<bar>t div second\<bar> < 2 ^ 53"
proof -
  assume t: "\<bar>t\<bar> < 2 ^ 63"
  have "t div second \<le> (2 ^ 63) div second" "(- (2 ^ 63)) div second \<le> t div second"
    by (rule zdiv_mono1; use t in simp)+
  then show ?thesis by (simp add: abs_less_iff)
qed

lemma authenticate_token:
  "request_token q = Ok t \<Longrightarrow>
     authenticate a q v = map_err (\<lambda>_. unauthorized ''invalid or expired token'') (validate_principal_token a t) v"
  by (simp add: authenticate_def step_exec)

text \<open>What the authentication service reads of the private claims that the meeting service wrote.\<close>

lemma guest_claims_read:
  "principal_claims \<lparr>jp_subject = x, jp_issued_at = i, jp_expires_at = e, jp_not_before = n,
     jp_private = guest_claims g w c role h\<rparr> =
   Ok \<lparr>tc_subject = x, tc_session = [], tc_kind = ''meeting_guest'', tc_guest_session = g, tc_workspace = w, tc_call = c\<rparr>"
  by (simp add: principal_claims_def guest_claims_def to_lower_def lower_char_def)

text \<open>C15: the token a guest gets opens the interface as that guest: a request that carries it in its header is
  authenticated as the guest session, workspace and call of the invite and nothing else, without a user, and
  without reading or changing any state, up to the whole second in which the expiry that \<open>Join\<close> reports falls, and
  is refused from that second on. So revoking the link or the session does not stop it, and the token ends up to a
  second before the reported time. The role is one that links give, and the times fit into 64 bits.\<close>

theorem guest_token_accepted:
  assumes "meeting_join m token input w = (w', Ok r)" "shared_tokens m a" "guest_role (jr_role r)"
    and "\<bar>mw_now w\<bar> < 2 ^ 63" "\<bar>jr_expires_at r\<bar> < 2 ^ 63"
  shows "authenticate a (q\<lparr>hr_authorization := ''Bearer '' @ jr_access r\<rparr>) v =
      (v, if ky_now (aw_keys v) < (jr_expires_at r div second) * second
          then Ok (MeetingGuestPrincipal (jr_session r) (jr_workspace r) (jr_call r))
          else Err (unauthorized ''invalid or expired token''))"
proof -
  obtain l c raw where j: "joined m l c (trim_space (ji_name input)) raw w w' r" using meeting_join_Ok[OF assms(1)] by blast
  let ?g = "guest_session_for m (trim_space (ji_name input)) l (mw_next_id w) (link_hash m raw) (mw_now w)"
  have r: "jr_session r = mg_id ?g" "jr_workspace r = mg_workspace ?g" "jr_call r = mg_call ?g" "jr_expires_at r = mg_expires_at ?g"
      "jr_role r = mg_role ?g"
    using j unfolding joined_def Let_def by (metis join_result.select_convs)+
  let ?p = "\<lparr>jp_subject = mv_uuid_text m (mg_id ?g), jp_issued_at = Some (mw_now w div second),
      jp_expires_at = Some (jr_expires_at r div second), jp_not_before = None,
      jp_private = guest_claims (mv_uuid_text m (jr_session r)) (mv_uuid_text m (jr_workspace r)) (mv_uuid_text m (jr_call r))
        (jr_role r) (hex_encode (mv_sha256 m (trim_space raw)))\<rparr>"
  have signed: "mv_jwt_sign m (mv_secret m) ?p = Ok (jr_access r)"
    using j r assms(2) unfolding joined_def Let_def sign_guest_token_def link_hash_def shared_tokens_def by simp
  have key: "token_key a \<lparr>jh_hmac = True, jh_alg = ''HS256''\<rparr> = Ok (mv_secret m)"
    using assms(2) by (simp add: token_key_def shared_tokens_def)
  have uuids: "ascii_text (mv_uuid_text m i)" "sm_uuid_parse (av_sessions a) (mv_uuid_text m i) = Ok i" for i
    using assms(2) by (simp_all add: shared_tokens_def)
  have "plain_payload ?p"
    using guest_claims_plain[OF uuids(1) uuids(1) uuids(1) assms(3)] uuids(1) seconds_exact assms(4,5)
    by (auto simp: plain_payload_def)
  then have lib: "jr_access r \<noteq> []"
      "if ky_now (aw_keys v) < (jr_expires_at r div second) * second
       then av_jwt_parse a (token_key a) (ky_now (aw_keys v)) (jr_access r) = Ok (True, ?p)
       else \<exists>e. av_jwt_parse a (token_key a) (ky_now (aw_keys v)) (jr_access r) = Err e"
    using assms(2) signed key unfolding shared_tokens_def by (metis jwt_payload.select_convs(3))+
  have token: "request_token (q\<lparr>hr_authorization := ''Bearer '' @ jr_access r\<rparr>) = Ok (jr_access r)"
    using lib(1) by (simp add: request_token_def has_prefix_def trim_prefix_def)
  note unfold = map_err_def validate_principal_token_def parse_principal_token_def parse_with_claims_def from_read_def and_then_def
  show ?thesis
  proof (cases "ky_now (aw_keys v) < (jr_expires_at r div second) * second")
    case True
    then have ok: "av_jwt_parse a (token_key a) (ky_now (aw_keys v)) (jr_access r) = Ok (True, ?p)"
      using lib(2) by simp
    show ?thesis
      unfolding authenticate_token[OF token] using ok True uuids(2)
      by (simp add: unfold guest_claims_read guest_principal_def)
  next
    case False
    then obtain e where bad: "av_jwt_parse a (token_key a) (ky_now (aw_keys v)) (jr_access r) = Err e"
      using lib(2) by auto
    show ?thesis unfolding authenticate_token[OF token] using bad False by (simp add: unfold)
  qed
qed

text \<open>Services whose token library knows a single token, that of Ann's session.\<close>

definition ann_payload :: jwt_payload where
  "ann_payload = \<lparr>jp_subject = replicate 21 CHR ''u'', jp_issued_at = Some 0, jp_expires_at = Some (4 * 3600), jp_not_before = None,
     jp_private = guest_claims (replicate 21 CHR ''u'') ''u'' ''uuuuu'' CallRoleParticipant
       (link_hash sample_meetings (raw_url_encode [1]))\<rparr>"

definition token_meetings :: meeting_service where
  "token_meetings = sample_meetings\<lparr>mv_jwt_sign := (\<lambda>key p.
     if key = ''k'' \<and> p = ann_payload then Ok ''ann'' else Err (PlainError ''unknown''))\<rparr>"

definition token_auth :: auth_service where
  "token_auth = sample_auth\<lparr>av_sessions := sample_manager\<lparr>sm_uuid_parse := (\<lambda>t. Ok (length t))\<rparr>,
     av_jwt_parse := (\<lambda>kf now t. case kf \<lparr>jh_hmac = True, jh_alg = ''HS256''\<rparr> of Err e \<Rightarrow> Err e
       | Ok key \<Rightarrow> if key = ''k'' \<and> t = ''ann'' \<and> now < 4 * hour then Ok (True, ann_payload) else Err (PlainError ''refused''))\<rparr>"

theorem guest_token_accepted_witness:
  "let q = \<lparr>hr_authorization = ''Bearer ann'', hr_upgrade = [], hr_connection = [], hr_token_query = []\<rparr> in
   authenticate token_auth q empty_auth_world = (empty_auth_world, Ok (MeetingGuestPrincipal 21 1 5)) \<and>
   snd (authenticate token_auth q (empty_auth_world\<lparr>aw_keys := no_keys\<lparr>ky_now := 4 * hour\<rparr>\<rparr>))
     = Err (unauthorized ''invalid or expired token'')"
proof -
  let ?m = "meeting_join token_meetings first_token ann_joins invited"
  let ?q = "\<lparr>hr_authorization = [], hr_upgrade = [], hr_connection = [], hr_token_query = []\<rparr>"
  let ?r = "\<lparr>jr_access = ''ann'', jr_expires_at = 10 + 4 * hour, jr_session = 21, jr_workspace = 1, jr_call = 5,
       jr_channel = Some 6, jr_role = CallRoleParticipant\<rparr>"
  have "snd ?m = Ok ?r" by code_simp
  then have run: "?m = (fst ?m, Ok ?r)" by (metis prod.collapse)
  have shared: "shared_tokens token_meetings token_auth"
    by (auto simp: shared_tokens_def token_meetings_def token_auth_def sample_meetings_def sample_auth_def ann_payload_def
        ascii_text_def split: if_splits)
  have times: "guest_role (jr_role ?r)" "\<bar>mw_now invited\<bar> < 2 ^ 63" "\<bar>jr_expires_at ?r\<bar> < 2 ^ 63" by code_simp+
  show ?thesis
    using guest_token_accepted[OF run shared times, of ?q empty_auth_world]
      guest_token_accepted[OF run shared times, of ?q "empty_auth_world\<lparr>aw_keys := no_keys\<lparr>ky_now := 4 * hour\<rparr>\<rparr>"]
    by (simp add: Let_def empty_auth_world_def no_keys_def)
qed

section \<open>What goes wrong\<close>

text \<open>A \<open>Join\<close> that fails at its last step leaves its guest connected in the call and the use of the link spent.\<close>

lemma failed_join_leaves_guest:
  "let s = sample_meetings\<lparr>mv_jwt_sign := (\<lambda>key p. Err (PlainError ''no key''))\<rparr>;
       (w, r) = meeting_join s first_token ann_joins invited
   in (case r of Ok x \<Rightarrow> False | Err e \<Rightarrow> True) \<and>
      map pa_status (ct_participants (mw_calls w)) = [ParticipantConnected] \<and> map il_use_count (ml_links (mw_meetings w)) = [1]"
  by code_simp

text \<open>Counting a use does not look at the limit: of two joins that both read the link before either counts, both count.\<close>

lemma use_beyond_limit:
  "let t = mw_meetings (fst (run_meetings sample_meetings standup_history (meeting_start, [])));
       (t', e) = pg_use_link 20 11 t
   in e = None \<and> map il_use_count (ml_links t') = [2] \<and> map il_max_uses (ml_links t') = [1]"
  by code_simp

text \<open>The hours of a link overflow: asking for 2562048 hours makes a link that has long expired.\<close>

lemma link_ttl_overflows: "link_ttl 2562048 < 0"
  by code_simp

end
