(* ===== verification/Guests.thy ===== *)
theory Guests
  imports Auth
begin

text \<open>
  Guest invites (\<open>internal/service/guest/service.go\<close>): creating, redeeming, revoking and listing them. The
  service works in the world of the authentication service, whose \<open>create_session_for_user\<close> is behind its token
  issuer. Without a transaction manager the statements of a redemption run one by one.
\<close>

record guest_service =
  gs_auth :: auth_service
  gs_tokens :: bool
  gs_grants :: bool
  gs_tx :: bool
  gs_random :: "nat \<Rightarrow> string result"

definition guest_rolled_back :: "auth_world \<Rightarrow> auth_world \<Rightarrow> auth_world" where
  "guest_rolled_back w w' = w'\<lparr>aw_db := aw_db w, aw_accounts := aw_accounts w\<rparr>"

definition guest_tx :: "'a auth_step \<Rightarrow> 'a auth_step" where
  "guest_tx = transaction (\<lambda>w. db_fault (aw_db w) ''begin transaction'') (\<lambda>w. db_fault (aw_db w) ''commit transaction'')
     guest_rolled_back"

text \<open>Random bytes are drawn from the same source as those of the session tokens.\<close>

definition guest_token :: "guest_service \<Rightarrow> string auth_step" where
  "guest_token s w =
     (let k = aw_keys w in
      (w\<lparr>aw_keys := k\<lparr>ky_draws := ky_draws k + 1\<rparr>\<rparr>,
       case gs_random s (ky_draws k) of Err e \<Rightarrow> Err (internal_err ''failed to generate invite token'' e) | Ok b \<Rightarrow> Ok (hex_encode b)))"

section \<open>Creating invites\<close>

record invite_input =
  ii_workspace :: uuid
  ii_created_by :: uuid
  ii_email :: string
  ii_channels :: "uuid list"
  ii_max_uses :: int
  ii_ttl :: duration

abbreviation (input) day :: duration where "day \<equiv> 86400000000000"

definition effective_ttl :: "duration \<Rightarrow> duration" where
  "effective_ttl ttl = (let t = (if ttl = 0 then 7 * day else ttl) in if t > 30 * day then 30 * day else t)"

definition effective_uses :: "int \<Rightarrow> int" where
  "effective_uses n = (if n = 0 then 1 else n)"

definition invite_channel_check :: "uuid \<Rightarrow> uuid \<Rightarrow> uuid \<Rightarrow> auth_world \<Rightarrow> error option" where
  "invite_channel_check workspace actor c w =
     (case pg_get_channel (aw_db w) c of
        Err e \<Rightarrow> Some (missing_or (not_found ''invite channel not found'') ''failed to load invite channel'' e)
      | Ok ch \<Rightarrow>
          if ch_workspace ch \<noteq> workspace then Some (forbidden ''invite channel must belong to the workspace'')
          else if ch_archived ch then Some (invalid_input ''cannot invite guests to archived channels'')
          else if ch_type ch = ChDM \<or> ch_type ch = ChGroupDM
          then Some (invalid_input ''guest invites cannot target direct message channels'')
          else if ch_type ch = ChPrivate then
            (case pg_get_channel_member (aw_db w) c actor of
               Ok m \<Rightarrow> None
             | Err e \<Rightarrow> Some (missing_or (forbidden ''you must be a member of private invite channels'')
                                ''failed to verify channel membership'' e))
          else None)"

fun validate_invite_channels :: "uuid \<Rightarrow> uuid \<Rightarrow> uuid list \<Rightarrow> uuid list \<Rightarrow> auth_world \<Rightarrow> error option" where
  "validate_invite_channels workspace actor seen [] w = None"
| "validate_invite_channels workspace actor seen (c # cs) w =
     (if c = uuid_nil then Some (invalid_input ''channel id is required'')
      else if c \<in> set seen then Some (invalid_input ''duplicate invite channel'')
      else case invite_channel_check workspace actor c w of
        Some e \<Rightarrow> Some e
      | None \<Rightarrow> validate_invite_channels workspace actor (c # seen) cs w)"

definition create_invite :: "guest_service \<Rightarrow> invite_input \<Rightarrow> guest_invite auth_step" where
  "create_invite s input =
     and_then (map_err (\<lambda>_. forbidden ''not a workspace member'')
       (from_read (\<lambda>w. pg_get_member (aw_db w) (ii_workspace input) (ii_created_by input)))) (\<lambda>m.
     and_then (guard (wm_role m = RoleGuest) (forbidden ''guests cannot create invites'')) (\<lambda>_.
     and_then (guard (effective_ttl (ii_ttl input) < 0) (invalid_input ''invite ttl must be positive'')) (\<lambda>_.
     and_then (guard (effective_uses (ii_max_uses input) < 0) (invalid_input ''invite max uses must be positive'')) (\<lambda>_.
     and_then (check (validate_invite_channels (ii_workspace input) (ii_created_by input) [] (ii_channels input))) (\<lambda>_.
     and_then (guest_token s) (\<lambda>token.
     and_then auth_clock (\<lambda>now.
     and_then auth_new_id (\<lambda>i.
     let g = \<lparr>inv_id = i, inv_workspace = ii_workspace input, inv_created_by = ii_created_by input, inv_token = token,
              inv_email = ii_email input, inv_channels = ii_channels input, inv_max_uses = effective_uses (ii_max_uses input),
              inv_use_count = 0, inv_status = InviteActive, inv_expires_at = now + effective_ttl (ii_ttl input),
              inv_created_at = now\<rparr> in
     and_then (map_err (internal_err ''failed to create invite'') (auth_accounts (pg_create_invite g))) (\<lambda>_.
     return g)))))))))"

section \<open>Redeeming invites\<close>

record redeem_input =
  ri_token :: string
  ri_email :: string
  ri_name :: string
  ri_device :: string
  ri_ip :: string

record redeem_result =
  rr_user :: user
  rr_workspace :: uuid
  rr_channels :: "uuid list"
  rr_access :: string
  rr_refresh :: string
  rr_expires_in :: int

definition redeem_channel_check :: "uuid \<Rightarrow> uuid \<Rightarrow> auth_world \<Rightarrow> error option" where
  "redeem_channel_check workspace c w =
     (case pg_get_channel (aw_db w) c of
        Err e \<Rightarrow> Some (missing_or (not_found ''invite channel not found'') ''failed to load invite channel'' e)
      | Ok ch \<Rightarrow>
          if ch_workspace ch \<noteq> workspace \<or> ch_archived ch then Some (forbidden ''invite contains an inaccessible channel'')
          else if ch_type ch = ChDM \<or> ch_type ch = ChGroupDM then Some (invalid_input ''invite contains an invalid channel'')
          else None)"

fun validate_redeem_channels :: "uuid \<Rightarrow> uuid list \<Rightarrow> uuid list \<Rightarrow> auth_world \<Rightarrow> error option" where
  "validate_redeem_channels workspace seen [] w = None"
| "validate_redeem_channels workspace seen (c # cs) w =
     (if c = uuid_nil then Some (invalid_input ''invite contains an invalid channel'')
      else if c \<in> set seen then Some (invalid_input ''invite contains duplicate channels'')
      else case redeem_channel_check workspace c w of
        Some e \<Rightarrow> Some e
      | None \<Rightarrow> validate_redeem_channels workspace (c # seen) cs w)"

text \<open>The invite behind the token, if it can be redeemed by this request.\<close>

definition redeemable_invite :: "redeem_input \<Rightarrow> auth_world \<Rightarrow> guest_invite result" where
  "redeemable_invite input w =
     (case pg_get_invite_by_token (ri_token input) (aw_accounts w) of
        Err e \<Rightarrow> Err (not_found ''invalid or expired invite'')
      | Ok g \<Rightarrow>
          if \<not> invite_is_valid g (ky_now (aw_keys w)) then Err (forbidden ''invite is no longer valid'')
          else if inv_email g \<noteq> [] \<and> inv_email g \<noteq> ri_email input
          then Err (forbidden ''this invite is restricted to a specific email'')
          else if ri_name input = [] then Err (invalid_input ''display name is required'')
          else if ri_email input = [] then Err (invalid_input ''email is required'')
          else case validate_redeem_channels (inv_workspace g) [] (inv_channels g) w of Some e \<Rightarrow> Err e | None \<Rightarrow> Ok g)"

text \<open>The account of the guest and whether it is new; a new one is stored at once if there is no transaction.\<close>

definition guest_account :: "guest_service \<Rightarrow> redeem_input \<Rightarrow> guest_invite \<Rightarrow> (user \<times> bool) auth_step" where
  "guest_account s input g =
     and_then (from_read (existing_user ''failed to check existing user'' (ri_email input))) (\<lambda>existing.
     (case existing of
        Some u \<Rightarrow>
          (\<lambda>w. (w, case pg_get_member (aw_db w) (inv_workspace g) (acc_id u) of
             Ok m \<Rightarrow> Err (already_exists ''you are already a member of this workspace'')
           | Err e \<Rightarrow>
               if app_code e \<noteq> Some CodeNotFound then Err (internal_err ''failed to check workspace membership'' e)
               else Ok (u, False)))
      | None \<Rightarrow>
          and_then auth_clock (\<lambda>now.
          and_then auth_new_id (\<lambda>i.
          let u = new_user i (ri_email input) (ri_name input) [] now in
          and_then (if gs_tx s then return ()
                    else map_err (internal_err ''failed to create guest user'') (auth_accounts (pg_create_user u))) (\<lambda>_.
          return (u, True))))))"

definition redeemed_or :: "string \<Rightarrow> error \<Rightarrow> error" where
  "redeemed_or msg e =
     (case as_app_error e of
        Some (c, m, inner) \<Rightarrow> if c = CodeAlreadyExists then AppError c m inner else internal_err msg e
      | None \<Rightarrow> internal_err msg e)"

definition store_redemption :: "guest_service \<Rightarrow> user \<Rightarrow> bool \<Rightarrow> guest_grant \<Rightarrow> unit auth_step" where
  "store_redemption s u created grant =
     (if gs_tx s then
        map_err (redeemed_or ''failed to redeem guest invite'') (guest_tx
          (and_then (if created then auth_accounts (pg_create_user u) else return ()) (\<lambda>_.
           and_then (if gs_grants s then auth_db (\<lambda>d. pg_create_guest_grant d grant) else return ()) (\<lambda>_.
           auth_accounts (pg_increment_use_count (gg_invite grant))))))
      else
        and_then (if gs_grants s
                  then map_err (redeemed_or ''failed to create guest access grant'') (auth_db (\<lambda>d. pg_create_guest_grant d grant))
                  else return ()) (\<lambda>_.
        ignore_err (auth_accounts (pg_increment_use_count (gg_invite grant)))))"

definition redeem_invite :: "guest_service \<Rightarrow> redeem_input \<Rightarrow> redeem_result auth_step" where
  "redeem_invite s input =
     and_then (from_read (redeemable_invite input)) (\<lambda>g.
     and_then (guest_account s input g) (\<lambda>(u, created).
     and_then auth_new_id (\<lambda>i.
     and_then auth_clock (\<lambda>now.
     let grant = \<lparr>gg_id = i, gg_invite = inv_id g, gg_workspace = inv_workspace g, gg_user = acc_id u,
                  gg_channels = inv_channels g, gg_expires_at = inv_expires_at g, gg_created_at = now\<rparr> in
     and_then (store_redemption s u created grant) (\<lambda>_.
     and_then (if gs_tokens s
               then and_then (map_err (internal_err ''failed to create session for guest'')
                      (create_session_for_user (gs_auth s) (acc_id u) (ri_device input) (ri_ip input)))
                      (\<lambda>t. return (lr_access t, lr_refresh t, lr_expires_in t))
               else return ([], [], 0)) (\<lambda>(access, refresh, expires).
     return \<lparr>rr_user = u, rr_workspace = inv_workspace g, rr_channels = inv_channels g, rr_access = access,
             rr_refresh = refresh, rr_expires_in = expires\<rparr>))))))"

section \<open>Revoking and listing\<close>

definition revoke_guest_invite :: "uuid \<Rightarrow> uuid \<Rightarrow> unit auth_step" where
  "revoke_guest_invite i actor =
     and_then (map_err (\<lambda>_. not_found ''invite not found'') (from_read (\<lambda>w. pg_get_invite i (aw_accounts w)))) (\<lambda>g.
     and_then (map_err (\<lambda>_. forbidden ''not a workspace member'')
       (from_read (\<lambda>w. pg_get_member (aw_db w) (inv_workspace g) actor))) (\<lambda>m.
     and_then (guard (wm_role m \<noteq> RoleOwner \<and> wm_role m \<noteq> RoleAdmin) (forbidden ''admin access required to revoke invites'')) (\<lambda>_.
     auth_accounts (pg_revoke_invite i))))"

definition list_guest_invites :: "uuid \<Rightarrow> uuid \<Rightarrow> guest_invite list auth_step" where
  "list_guest_invites workspace actor =
     and_then (map_err (\<lambda>_. forbidden ''not a workspace member'')
       (from_read (\<lambda>w. pg_get_member (aw_db w) workspace actor))) (\<lambda>m.
     and_then (guard (wm_role m = RoleGuest) (forbidden ''guests cannot view invites'')) (\<lambda>_.
     from_read (\<lambda>w. pg_list_invites workspace (aw_accounts w))))"

end
