(* ===== verification/RecordingTables.thy ===== *)
theory RecordingTables
  imports Tables
begin

text \<open>
  Recordings and their artifacts: the entities of \<open>internal/domain/entity/recording.go\<close> and the tables of
  \<open>migrations/004, 015, 022, 025\<close> with the statements of \<open>internal/repository/postgres/recording.go\<close>.

  \<open>rt_steps\<close> says what the driver answers to the next statements, one entry each; when it is empty every
  statement goes through. The CHECK constraints and the trigger on the status of \<open>migrations/025\<close> are part of the
  statements. Metadata are text by key, so that encoding them never fails. \<open>started_by\<close> is kept when a user is
  deleted.
\<close>

section \<open>Entities\<close>

datatype recording_status = RecordingRunning | RecordingProcessing | RecordingReady | RecordingFailed

datatype recording_strategy = StrategyComposite | StrategyPerTrack | StrategyBoth | StrategyOther string

datatype recording_format = FormatWebM | FormatMP4 | FormatBundle

datatype artifact_kind =
  KindAudioTrack | KindVideoTrack | KindScreenTrack | KindComposite | KindTranscript | KindManifest | KindAIManifest |
  KindSessionBundle

datatype storage_tier = TierHot | TierWarm | TierArchive

type_synonym rec_meta = "(string \<times> string) list"

record recording =
  rec_id :: uuid
  rec_call :: uuid
  rec_workspace :: uuid
  rec_started_by :: uuid
  rec_strategy :: recording_strategy
  rec_format :: recording_format
  rec_status :: recording_status
  rec_duration :: "int option"
  rec_file_size :: "int option"
  rec_path :: string
  rec_tier :: storage_tier
  rec_class :: string
  rec_sha256 :: string
  rec_downloadable :: bool
  rec_attempts :: int
  rec_max_attempts :: int
  rec_last_error :: string
  rec_metadata :: rec_meta
  rec_legal_hold :: bool
  rec_started_at :: instant
  rec_stopped_at :: "instant option"
  rec_ready_at :: "instant option"
  rec_next_retry :: "instant option"
  rec_tier_updated :: "instant option"
  rec_expires_at :: "instant option"
  rec_created_at :: instant

record recording_artifact =
  art_id :: uuid
  art_recording :: uuid
  art_workspace :: uuid
  art_kind :: artifact_kind
  art_source_user :: "uuid option"
  art_track :: string
  art_stream :: string
  art_layer :: string
  art_codec :: string
  art_mime :: string
  art_format :: string
  art_path :: string
  art_tier :: storage_tier
  art_class :: string
  art_size :: int
  art_sha256 :: string
  art_packets :: int
  art_duration :: "int option"
  art_downloadable :: bool
  art_metadata :: rec_meta
  art_tier_updated :: "instant option"
  art_created_at :: instant

record recording_tables =
  rt_rows :: "recording list"
  rt_artifacts :: "recording_artifact list"
  rt_steps :: "error option list"

section \<open>Statements\<close>

definition next_answer :: "recording_tables \<Rightarrow> recording_tables \<times> error option" where
  "next_answer t = (case rt_steps t of [] \<Rightarrow> (t, None) | e # es \<Rightarrow> (t\<lparr>rt_steps := es\<rparr>, e))"

text \<open>A query: it fails with the wrapped answer of the driver or reads the tables.\<close>

definition rec_query :: "string \<Rightarrow> (recording_tables \<Rightarrow> 'a result) \<Rightarrow> recording_tables \<Rightarrow> recording_tables \<times> 'a result" where
  "rec_query msg f t =
     (case next_answer t of (t', Some e) \<Rightarrow> (t', Err (Wrapped msg e)) | (t', None) \<Rightarrow> (t', f t'))"

definition first_row :: "string \<Rightarrow> ('r \<Rightarrow> bool) \<Rightarrow> 'r list \<Rightarrow> 'r result" where
  "first_row msg P rows = (case find P rows of None \<Rightarrow> Err (not_found msg) | Some r \<Rightarrow> Ok r)"

text \<open>The CHECK constraints of a row and the trigger on its status.\<close>

definition nonneg :: "int option \<Rightarrow> bool" where
  "nonneg x = (case x of None \<Rightarrow> True | Some n \<Rightarrow> 0 \<le> n)"

definition recording_check :: "recording \<Rightarrow> bool" where
  "recording_check r \<longleftrightarrow>
     nonneg (rec_duration r) \<and> nonneg (rec_file_size r) \<and> 0 \<le> rec_attempts r \<and> 1 \<le> rec_max_attempts r \<and>
     rec_attempts r \<le> rec_max_attempts r \<and> rec_strategy r \<in> {StrategyComposite, StrategyPerTrack, StrategyBoth}"

definition status_transition :: "recording_status \<Rightarrow> recording_status \<Rightarrow> bool" where
  "status_transition old new \<longleftrightarrow>
     old = new \<or>
     old = RecordingRunning \<and> (new = RecordingProcessing \<or> new = RecordingFailed) \<or>
     old = RecordingProcessing \<and> (new = RecordingReady \<or> new = RecordingFailed) \<or>
     old = RecordingFailed \<and> new = RecordingProcessing"

definition update_error :: "recording \<Rightarrow> recording \<Rightarrow> error option" where
  "update_error old new =
     (if \<not> status_transition (rec_status old) (rec_status new) then Some (PgError ''P0001'' ''invalid recording status transition'')
      else if \<not> recording_check new then Some (PgError ''23514'' ''new row violates check constraint'')
      else None)"

fun first_error :: "(recording \<Rightarrow> bool) \<Rightarrow> (recording \<Rightarrow> recording) \<Rightarrow> recording list \<Rightarrow> error option" where
  "first_error P f [] = None"
| "first_error P f (r # rs) =
     (if P r then (case update_error r (f r) of Some e \<Rightarrow> Some e | None \<Rightarrow> first_error P f rs) else first_error P f rs)"

definition update_recording ::
  "string \<Rightarrow> (recording \<Rightarrow> bool) \<Rightarrow> (recording \<Rightarrow> recording) \<Rightarrow> recording_tables \<Rightarrow> recording_tables \<times> unit result" where
  "update_recording msg P f t =
     (case next_answer t of
        (t', Some e) \<Rightarrow> (t', Err (Wrapped msg e))
      | (t', None) \<Rightarrow>
          (case first_error P f (rt_rows t') of
             Some e \<Rightarrow> (t', Err (Wrapped msg e))
           | None \<Rightarrow>
               if list_ex P (rt_rows t') then (t'\<lparr>rt_rows := update_rows P f (rt_rows t')\<rparr>, Ok ())
               else (t', Err (not_found ''recording not found''))))"

text \<open>An UPDATE with RETURNING reads the row back as it left it.\<close>

definition update_returning ::
  "(recording \<Rightarrow> bool) \<Rightarrow> (recording \<Rightarrow> recording) \<Rightarrow> recording_tables \<Rightarrow> recording_tables \<times> recording result" where
  "update_returning P f t =
     (case update_recording ''postgres: scan recording'' P f t of
        (t', Err e) \<Rightarrow> (t', Err e)
      | (t', Ok u) \<Rightarrow> (t', Ok (f (the (find P (rt_rows t))))))"

section \<open>The repository\<close>

definition pg_create_recording :: "recording \<Rightarrow> recording_tables \<Rightarrow> recording_tables \<times> unit result" where
  "pg_create_recording r t =
     (case next_answer t of
        (t', Some e) \<Rightarrow> (t', Err (Wrapped ''postgres: create recording'' e))
      | (t', None) \<Rightarrow>
          if \<not> recording_check r
          then (t', Err (Wrapped ''postgres: create recording'' (PgError ''23514'' ''new row violates check constraint'')))
          else if list_ex (\<lambda>x. rec_id x = rec_id r) (rt_rows t')
          then (t', Err (Wrapped ''postgres: create recording'' unique_violation))
          else (t'\<lparr>rt_rows := rt_rows t' @ [r]\<rparr>, Ok ()))"

definition pg_get_recording :: "uuid \<Rightarrow> recording_tables \<Rightarrow> recording_tables \<times> recording result" where
  "pg_get_recording i = rec_query ''postgres: scan recording'' (\<lambda>t. first_row ''recording not found'' (\<lambda>r. rec_id r = i) (rt_rows t))"

definition pg_list_by_call :: "uuid \<Rightarrow> recording_tables \<Rightarrow> recording_tables \<times> recording list result" where
  "pg_list_by_call c =
     rec_query ''postgres: query recordings'' (\<lambda>t. Ok (sort_key rec_started_at (filter (\<lambda>r. rec_call r = c) (rt_rows t))))"

definition rec_page :: "int \<Rightarrow> int \<Rightarrow> 'r list \<Rightarrow> 'r list" where
  "rec_page limit offset rows = take (nat (if limit \<le> 0 then 50 else limit)) (drop (nat offset) rows)"

definition pg_list_by_workspace :: "uuid \<Rightarrow> int \<Rightarrow> int \<Rightarrow> recording_tables \<Rightarrow> recording_tables \<times> recording list result" where
  "pg_list_by_workspace w limit offset =
     rec_query ''postgres: query recordings''
       (\<lambda>t. Ok (rec_page limit offset (sort_key (\<lambda>r. - rec_created_at r) (filter (\<lambda>r. rec_workspace r = w) (rt_rows t)))))"

text \<open>\<open>ORDER BY stopped_at NULLS FIRST, created_at\<close>.\<close>

definition by_stop :: "recording list \<Rightarrow> recording list" where
  "by_stop rs =
     sort_key (\<lambda>r. if rec_stopped_at r = None then (0::nat) else 1)
       (sort_key (\<lambda>r. case rec_stopped_at r of None \<Rightarrow> 0 | Some x \<Rightarrow> x) (sort_key rec_created_at rs))"

definition pg_list_by_status :: "recording_status \<Rightarrow> int \<Rightarrow> int \<Rightarrow> recording_tables \<Rightarrow> recording_tables \<times> recording list result" where
  "pg_list_by_status st limit offset =
     rec_query ''postgres: query recordings''
       (\<lambda>t. Ok (rec_page limit offset (by_stop (filter (\<lambda>r. rec_status r = st) (rt_rows t)))))"

definition processable :: "instant \<Rightarrow> recording \<Rightarrow> bool" where
  "processable now r \<longleftrightarrow>
     (rec_status r = RecordingProcessing \<or> rec_status r = RecordingFailed) \<and>
     (case rec_next_retry r of None \<Rightarrow> True | Some x \<Rightarrow> x \<le> now) \<and>
     (rec_status r = RecordingProcessing \<or> rec_attempts r < rec_max_attempts r)"

definition retry_order :: "recording \<Rightarrow> instant" where
  "retry_order r =
     (case rec_next_retry r of Some x \<Rightarrow> x
      | None \<Rightarrow> (case rec_stopped_at r of Some x \<Rightarrow> x | None \<Rightarrow> rec_created_at r))"

definition pg_list_processable :: "instant \<Rightarrow> int \<Rightarrow> int \<Rightarrow> recording_tables \<Rightarrow> recording_tables \<times> recording list result" where
  "pg_list_processable now limit offset =
     rec_query ''postgres: query recordings''
       (\<lambda>t. Ok (rec_page limit offset (sort_key retry_order (sort_key rec_created_at (filter (processable now) (rt_rows t))))))"

definition expired_recording :: "instant \<Rightarrow> recording \<Rightarrow> bool" where
  "expired_recording now r \<longleftrightarrow>
     (case rec_expires_at r of None \<Rightarrow> False | Some x \<Rightarrow> x \<le> now) \<and> rec_status r = RecordingReady \<and> \<not> rec_legal_hold r"

definition pg_list_expired :: "instant \<Rightarrow> int \<Rightarrow> int \<Rightarrow> recording_tables \<Rightarrow> recording_tables \<times> recording list result" where
  "pg_list_expired now limit offset =
     rec_query ''postgres: query recordings''
       (\<lambda>t. Ok (rec_page limit offset (sort_key (\<lambda>r. case rec_expires_at r of None \<Rightarrow> 0 | Some x \<Rightarrow> x)
          (filter (expired_recording now) (rt_rows t)))))"

definition pg_update_recording_status :: "uuid \<Rightarrow> recording_status \<Rightarrow> recording_tables \<Rightarrow> recording_tables \<times> unit result" where
  "pg_update_recording_status i st =
     update_recording ''postgres: update recording status'' (\<lambda>r. rec_id r = i) (\<lambda>r. r\<lparr>rec_status := st\<rparr>)"

definition pg_set_ready :: "recording \<Rightarrow> instant \<Rightarrow> recording_tables \<Rightarrow> recording_tables \<times> unit result" where
  "pg_set_ready x now =
     update_recording ''postgres: set recording ready'' (\<lambda>r. rec_id r = rec_id x)
       (\<lambda>r. r\<lparr>rec_status := RecordingReady, rec_format := rec_format x, rec_duration := rec_duration x,
              rec_file_size := rec_file_size x, rec_path := rec_path x, rec_tier := rec_tier x, rec_class := rec_class x,
              rec_sha256 := rec_sha256 x, rec_downloadable := rec_downloadable x, rec_last_error := [],
              rec_metadata := rec_metadata x, rec_ready_at := Some now, rec_tier_updated := rec_tier_updated x,
              rec_next_retry := None\<rparr>)"

definition pg_mark_attempt :: "uuid \<Rightarrow> instant \<Rightarrow> recording_tables \<Rightarrow> recording_tables \<times> recording result" where
  "pg_mark_attempt i now =
     update_returning (\<lambda>r. rec_id r = i)
       (\<lambda>r. r\<lparr>rec_status := RecordingProcessing, rec_attempts := rec_attempts r + 1, rec_next_retry := Some now\<rparr>)"

definition pg_mark_recording_failed :: "uuid \<Rightarrow> string \<Rightarrow> instant option \<Rightarrow> recording_tables \<Rightarrow> recording_tables \<times> unit result" where
  "pg_mark_recording_failed i msg retry =
     update_recording ''postgres: mark recording failed'' (\<lambda>r. rec_id r = i)
       (\<lambda>r. r\<lparr>rec_status := RecordingFailed, rec_last_error := msg, rec_next_retry := retry\<rparr>)"

definition pg_set_legal_hold :: "uuid \<Rightarrow> bool \<Rightarrow> recording_tables \<Rightarrow> recording_tables \<times> unit result" where
  "pg_set_legal_hold i hold =
     update_recording ''postgres: set legal hold'' (\<lambda>r. rec_id r = i) (\<lambda>r. r\<lparr>rec_legal_hold := hold\<rparr>)"

definition pg_update_storage_tier :: "uuid \<Rightarrow> storage_tier \<Rightarrow> string \<Rightarrow> instant \<Rightarrow> recording_tables \<Rightarrow> recording_tables \<times> unit result" where
  "pg_update_storage_tier i tier class now =
     update_recording ''postgres: update recording storage tier'' (\<lambda>r. rec_id r = i)
       (\<lambda>r. r\<lparr>rec_tier := tier, rec_class := class, rec_tier_updated := Some now\<rparr>)"

definition pg_update_artifact_tier ::
  "uuid \<Rightarrow> uuid \<Rightarrow> storage_tier \<Rightarrow> string \<Rightarrow> instant \<Rightarrow> recording_tables \<Rightarrow> recording_tables \<times> unit result" where
  "pg_update_artifact_tier i a tier class now t =
     (let P = (\<lambda>x. art_recording x = i \<and> art_id x = a) in
      case next_answer t of
        (t', Some e) \<Rightarrow> (t', Err (Wrapped ''postgres: update recording artifact storage tier'' e))
      | (t', None) \<Rightarrow>
          if list_ex P (rt_artifacts t')
          then (t'\<lparr>rt_artifacts := update_rows P (\<lambda>x. x\<lparr>art_tier := tier, art_class := class, art_tier_updated := Some now\<rparr>)
                  (rt_artifacts t')\<rparr>, Ok ())
          else (t', Err (not_found ''recording artifact not found'')))"

definition pg_stop_recording :: "uuid \<Rightarrow> instant \<Rightarrow> recording_tables \<Rightarrow> recording_tables \<times> recording result" where
  "pg_stop_recording i now =
     update_returning (\<lambda>r. rec_id r = i \<and> rec_status r = RecordingRunning)
       (\<lambda>r. r\<lparr>rec_status := RecordingProcessing, rec_stopped_at := Some now, rec_next_retry := Some now\<rparr>)"

text \<open>Deleting a recording deletes its artifacts.\<close>

definition pg_delete_recording :: "uuid \<Rightarrow> recording_tables \<Rightarrow> recording_tables \<times> unit result" where
  "pg_delete_recording i t =
     (case next_answer t of
        (t', Some e) \<Rightarrow> (t', Err (Wrapped ''postgres: delete recording'' e))
      | (t', None) \<Rightarrow>
          if list_ex (\<lambda>r. rec_id r = i) (rt_rows t')
          then (t'\<lparr>rt_rows := filter (\<lambda>r. rec_id r \<noteq> i) (rt_rows t'),
                   rt_artifacts := filter (\<lambda>a. art_recording a \<noteq> i) (rt_artifacts t')\<rparr>, Ok ())
          else (t', Err (not_found ''recording not found'')))"

section \<open>Artifacts\<close>

definition artifact_error :: "recording_tables \<Rightarrow> recording_artifact \<Rightarrow> error option" where
  "artifact_error t a =
     (if art_size a < 0 \<or> art_packets a < 0 \<or> \<not> nonneg (art_duration a)
      then Some (PgError ''23514'' ''new row violates check constraint'')
      else if list_ex (\<lambda>x. art_id x = art_id a \<or> art_path x = art_path a) (rt_artifacts t) then Some unique_violation
      else if \<not> list_ex (\<lambda>r. rec_id r = art_recording a) (rt_rows t)
      then Some (PgError ''23503'' ''violates foreign key constraint'')
      else None)"

fun insert_artifacts :: "recording_artifact list \<Rightarrow> recording_tables \<Rightarrow> recording_tables \<times> unit result" where
  "insert_artifacts [] t = (t, Ok ())"
| "insert_artifacts (a # as) t =
     (case next_answer t of
        (t', Some e) \<Rightarrow> (t', Err (Wrapped ''postgres: insert recording artifact'' e))
      | (t', None) \<Rightarrow>
          (case artifact_error t' a of
             Some e \<Rightarrow> (t', Err (Wrapped ''postgres: insert recording artifact'' e))
           | None \<Rightarrow> insert_artifacts as (t'\<lparr>rt_artifacts := rt_artifacts t' @ [a]\<rparr>)))"

definition replace_artifacts_tx :: "uuid \<Rightarrow> recording_artifact list \<Rightarrow> recording_tables \<Rightarrow> recording_tables \<times> unit result" where
  "replace_artifacts_tx i as t =
     (case next_answer t of
        (t', Some e) \<Rightarrow> (t', Err (Wrapped ''postgres: clear recording artifacts'' e))
      | (t', None) \<Rightarrow> insert_artifacts as (t'\<lparr>rt_artifacts := filter (\<lambda>a. art_recording a \<noteq> i) (rt_artifacts t')\<rparr>))"

text \<open>A transaction: the rows of \<open>before\<close> when it fails, with the answers that are left.\<close>

definition rows_of :: "recording_tables \<Rightarrow> recording_tables \<Rightarrow> recording_tables" where
  "rows_of before t = t\<lparr>rt_rows := rt_rows before, rt_artifacts := rt_artifacts before\<rparr>"

definition tables_tx ::
  "string \<Rightarrow> string \<Rightarrow> (recording_tables \<Rightarrow> recording_tables \<times> 'a result) \<Rightarrow> recording_tables \<Rightarrow> recording_tables \<times> 'a result" where
  "tables_tx begin_msg commit_msg f t =
     (case next_answer t of
        (t1, Some e) \<Rightarrow> (t1, Err (Wrapped begin_msg e))
      | (t1, None) \<Rightarrow>
          (case f t1 of
             (t2, Err e) \<Rightarrow> (rows_of t t2, Err e)
           | (t2, Ok x) \<Rightarrow>
               (case next_answer t2 of
                  (t3, Some e) \<Rightarrow> (rows_of t t3, Err (Wrapped commit_msg e))
                | (t3, None) \<Rightarrow> (t3, Ok x))))"

definition pg_replace_artifacts :: "uuid \<Rightarrow> recording_artifact list \<Rightarrow> recording_tables \<Rightarrow> recording_tables \<times> unit result" where
  "pg_replace_artifacts i as =
     tables_tx ''postgres: begin replace recording artifacts tx'' ''postgres: commit replace recording artifacts tx''
       (replace_artifacts_tx i as)"

definition pg_list_artifacts :: "uuid \<Rightarrow> recording_tables \<Rightarrow> recording_tables \<times> recording_artifact list result" where
  "pg_list_artifacts i =
     rec_query ''postgres: list recording artifacts''
       (\<lambda>t. Ok (sort_key art_created_at (sort_key art_id (filter (\<lambda>a. art_recording a = i) (rt_artifacts t)))))"

definition pg_get_artifact :: "uuid \<Rightarrow> uuid \<Rightarrow> recording_tables \<Rightarrow> recording_tables \<times> recording_artifact result" where
  "pg_get_artifact i a =
     rec_query ''postgres: scan recording artifact''
       (\<lambda>t. first_row ''recording artifact not found'' (\<lambda>x. art_recording x = i \<and> art_id x = a) (rt_artifacts t))"

definition storage_usage :: "uuid \<Rightarrow> recording_tables \<Rightarrow> int" where
  "storage_usage w t = sum_list (map art_size (filter (\<lambda>a. art_workspace a = w) (rt_artifacts t)))"

definition pg_storage_usage :: "uuid \<Rightarrow> recording_tables \<Rightarrow> recording_tables \<times> int result" where
  "pg_storage_usage w = rec_query ''postgres: sum workspace recording usage'' (\<lambda>t. Ok (storage_usage w t))"

end
