(* ===== verification/Recordings.thy ===== *)
theory Recordings
  imports RecordingTables CallService SearchService ChatService
begin

text \<open>
  The recording service (\<open>internal/service/recording/service.go\<close>) with the sessions of the capture manager
  (\<open>capture.go\<close>): starting, stopping and reading recordings, and the three workers that process them, delete
  the expired ones and move them between storage tiers.

  The processor, which renders a spool directory with ffmpeg and uploads the results, is a parameter: it may change the
  object store and returns what was rendered. \<open>os_steps\<close> and \<open>cp_steps\<close> are the next answers of the object
  store and of the capture. Reads of calls and members answer by their tables. The clock stands still within an operation.
\<close>

section \<open>World and service\<close>

record object_store =
  os_keys :: "string list"
  os_classes :: "(string, string) gomap"
  os_steps :: "error option list"

record capture_manager =
  cp_sessions :: "uuid list"
  cp_steps :: "error option list"

record hook_event =
  he_workspace :: uuid
  he_actor :: uuid
  he_resource :: uuid
  he_key :: string

record rec_world =
  rw_db :: db
  rw_calls :: call_tables
  rw_recs :: recording_tables
  rw_audit :: audit_log
  rw_objects :: object_store
  rw_capture :: capture_manager
  rw_spools :: "uuid list"
  rw_sfu :: sfu
  rw_hooks :: "hook_event list"
  rw_now :: instant
  rw_next_id :: uuid

type_synonym 'a rec_step = "(rec_world, 'a) action"

text \<open>What the processor returns; its tier is set by the service.\<close>

record processed_recording =
  pr_format :: recording_format
  pr_path :: string
  pr_tier :: storage_tier
  pr_class :: string
  pr_size :: int
  pr_duration :: int
  pr_sha256 :: string
  pr_downloadable :: bool
  pr_metadata :: rec_meta
  pr_artifacts :: "recording_artifact list"

record recording_service =
  re_tx :: bool
  re_audit :: bool
  re_capture :: bool
  re_rooms :: bool
  re_workspaces :: bool
  re_call_access :: "(rec_world \<Rightarrow> uuid \<Rightarrow> uuid \<Rightarrow> uuid \<Rightarrow> error option) option"
  re_tiers :: "(storage_tier \<Rightarrow> string) option"
  re_sign :: "(string \<Rightarrow> string \<Rightarrow> string \<Rightarrow> duration \<Rightarrow> string result) option"
  re_hook :: "(hook_event \<Rightarrow> error option) option"
  re_processor :: "(recording \<Rightarrow> rec_world \<Rightarrow> object_store \<times> processed_recording option result) option"
  re_saturated :: "rec_world \<Rightarrow> bool"
  re_ctx_err :: "rec_world \<Rightarrow> error option"
  re_ctx_done :: "rec_world \<Rightarrow> duration \<Rightarrow> error option"
  re_quota :: int
  re_max_attempts :: int
  re_retry_backoff :: duration
  re_op_timeout :: duration
  re_url_ttl :: duration
  re_retention :: duration
  re_warm_after :: duration
  re_archive_after :: duration
  re_spool_base :: string
  re_uuid_text :: "uuid \<Rightarrow> string"
  re_not_found :: error
  re_not_supported :: error

definition max_duration :: "duration \<Rightarrow> duration \<Rightarrow> duration" where
  "max_duration value fallback = (if value \<le> 0 then fallback else value)"

text \<open>The configured values, with their defaults.\<close>

definition new_recording_service :: "recording_service \<Rightarrow> recording_service" where
  "new_recording_service s =
     s\<lparr>re_max_attempts := (if re_max_attempts s \<le> 0 then 5 else re_max_attempts s),
       re_retry_backoff := (if re_retry_backoff s \<le> 0 then 10 * second else re_retry_backoff s),
       re_op_timeout := max_duration (re_op_timeout s) (15 * second),
       re_url_ttl := max_duration (re_url_ttl s) (15 * minute)\<rparr>"

section \<open>Steps\<close>

definition rec_tables :: "(recording_tables \<Rightarrow> recording_tables \<times> 'a result) \<Rightarrow> 'a rec_step" where
  "rec_tables f w = (case f (rw_recs w) of (t, r) \<Rightarrow> (w\<lparr>rw_recs := t\<rparr>, r))"

definition rec_new_id :: "uuid rec_step" where
  "rec_new_id w = (w\<lparr>rw_next_id := rw_next_id w + 1\<rparr>, Ok (rw_next_id w))"

definition rec_clock :: "instant rec_step" where
  "rec_clock w = (w, Ok (rw_now w))"

definition worker_policy :: "recording_service \<Rightarrow> int \<Rightarrow> policy" where
  "worker_policy s n = \<lparr>p_timeout = re_op_timeout s, p_max_attempts = n, p_retry_backoff = re_retry_backoff s, p_max_backoff = 5 * second\<rparr>"

definition retried :: "recording_service \<Rightarrow> 'a rec_step \<Rightarrow> 'a rec_step" where
  "retried s m = do_state (worker_policy s 2) m (re_ctx_err s) (re_ctx_done s)"

text \<open>A transaction over recordings and audit entries.\<close>

definition rec_rolled_back :: "rec_world \<Rightarrow> rec_world \<Rightarrow> rec_world" where
  "rec_rolled_back w w' =
     w'\<lparr>rw_recs := rows_of (rw_recs w) (rw_recs w'), rw_audit := (rw_audit w')\<lparr>al_entries := al_entries (rw_audit w)\<rparr>\<rparr>"

definition rec_tx :: "'a rec_step \<Rightarrow> 'a rec_step" where
  "rec_tx m w =
     (case next_answer (rw_recs w) of
        (t, Some e) \<Rightarrow> (w\<lparr>rw_recs := t\<rparr>, Err (Wrapped ''postgres: begin transaction'' e))
      | (t, None) \<Rightarrow>
          (case m (w\<lparr>rw_recs := t\<rparr>) of
             (w1, Err e) \<Rightarrow> (rec_rolled_back w w1, Err e)
           | (w1, Ok x) \<Rightarrow>
               (case next_answer (rw_recs w1) of
                  (t1, Some e) \<Rightarrow> (rec_rolled_back w (w1\<lparr>rw_recs := t1\<rparr>), Err (Wrapped ''postgres: commit transaction'' e))
                | (t1, None) \<Rightarrow> (w1\<lparr>rw_recs := t1\<rparr>, Ok x))))"

definition object_op :: "(object_store \<Rightarrow> object_store \<times> 'a result) \<Rightarrow> 'a rec_step" where
  "object_op f w = (case f (rw_objects w) of (x, r) \<Rightarrow> (w\<lparr>rw_objects := x\<rparr>, r))"

definition object_answer :: "object_store \<Rightarrow> object_store \<times> error option" where
  "object_answer x = (case os_steps x of [] \<Rightarrow> (x, None) | e # es \<Rightarrow> (x\<lparr>os_steps := es\<rparr>, e))"

text \<open>\<open>Delete\<close> succeeds for a key that is not there.\<close>

definition delete_object :: "string \<Rightarrow> object_store \<Rightarrow> object_store \<times> unit result" where
  "delete_object key x =
     (case object_answer x of
        (x', Some e) \<Rightarrow> (x', Err e)
      | (x', None) \<Rightarrow> (x'\<lparr>os_keys := filter (\<lambda>k. k \<noteq> key) (os_keys x')\<rparr>, Ok ()))"

definition transition_object :: "error \<Rightarrow> string \<Rightarrow> string \<Rightarrow> object_store \<Rightarrow> object_store \<times> unit result" where
  "transition_object missing key class x =
     (if trim_space class = [] then (x, Ok ())
      else case object_answer x of
        (x', Some e) \<Rightarrow> (x', Err e)
      | (x', None) \<Rightarrow>
          if key \<in> set (os_keys x') then (x'\<lparr>os_classes := AList.update key class (os_classes x')\<rparr>, Ok ())
          else (x', Err missing))"

definition open_object :: "error \<Rightarrow> string \<Rightarrow> object_store \<Rightarrow> object_store \<times> unit result" where
  "open_object missing key x =
     (case object_answer x of
        (x', Some e) \<Rightarrow> (x', Err e)
      | (x', None) \<Rightarrow> if key \<in> set (os_keys x') then (x', Ok ()) else (x', Err missing))"

section \<open>Capture\<close>

definition capture_answer :: "capture_manager \<Rightarrow> capture_manager \<times> error option" where
  "capture_answer c = (case cp_steps c of [] \<Rightarrow> (c, None) | e # es \<Rightarrow> (c\<lparr>cp_steps := es\<rparr>, e))"

text \<open>\<open>CaptureManager.Start\<close> for a room that is there: making the directory and attaching the observer may fail.\<close>

definition capture_start :: "uuid \<Rightarrow> unit rec_step" where
  "capture_start i w =
     (case capture_answer (rw_capture w) of
        (c, Some e) \<Rightarrow> (w\<lparr>rw_capture := c\<rparr>, Err (Wrapped ''create recording work dir'' e))
      | (c, None) \<Rightarrow>
          (let w1 = w\<lparr>rw_spools := List.insert i (rw_spools w)\<rparr> in
           case capture_answer c of
             (c1, Some e) \<Rightarrow> (w1\<lparr>rw_capture := c1\<rparr>, Err (PlainError ''failed to attach recording observer''))
           | (c1, None) \<Rightarrow>
               if i \<in> set (cp_sessions c1)
               then (w1\<lparr>rw_capture := c1\<rparr>, Err (PlainError ''recording capture session already active''))
               else (w1\<lparr>rw_capture := c1\<lparr>cp_sessions := i # cp_sessions c1\<rparr>\<rparr>, Ok ())))"

text \<open>\<open>CaptureManager.Stop\<close> forgets the session before it closes the tracks and writes the state of the spool.\<close>

definition capture_stop :: "uuid \<Rightarrow> unit rec_step" where
  "capture_stop i w =
     (let c = rw_capture w in
      if i \<notin> set (cp_sessions c) then (w, Ok ())
      else case capture_answer (c\<lparr>cp_sessions := filter (\<lambda>x. x \<noteq> i) (cp_sessions c)\<rparr>) of
        (c', e) \<Rightarrow> (w\<lparr>rw_capture := c'\<rparr>, unit_result e))"

definition work_dir :: "recording_service \<Rightarrow> uuid \<Rightarrow> string" where
  "work_dir s i = re_spool_base s @ ''/'' @ re_uuid_text s i"

definition remove_spool :: "recording_service \<Rightarrow> uuid \<Rightarrow> unit rec_step" where
  "remove_spool s i w =
     (if trim_space (re_spool_base s) = [] then w else w\<lparr>rw_spools := filter (\<lambda>x. x \<noteq> i) (rw_spools w)\<rparr>, Ok ())"

section \<open>Audit\<close>

definition rec_audit_entry ::
  "uuid \<Rightarrow> uuid \<Rightarrow> string \<Rightarrow> string \<Rightarrow> string \<Rightarrow> (string \<times> audit_value) list \<Rightarrow> uuid \<Rightarrow> instant \<Rightarrow> audit_entry" where
  "rec_audit_entry workspace actor action ty target meta i now =
     \<lparr>ae_id = i, ae_workspace = workspace, ae_actor = actor, ae_action = action, ae_target_type = ty, ae_target = target,
      ae_metadata = meta, ae_created_at = now\<rparr>"

definition write_audit :: "audit_entry \<Rightarrow> unit rec_step" where
  "write_audit a w = (case pg_create_audit a (rw_audit w) of (l, e) \<Rightarrow> (w\<lparr>rw_audit := l\<rparr>, unit_result e))"

definition create_audit_tx :: "uuid \<Rightarrow> uuid \<Rightarrow> string \<Rightarrow> string \<Rightarrow> string \<Rightarrow> (string \<times> audit_value) list \<Rightarrow> unit rec_step" where
  "create_audit_tx workspace actor action ty target meta =
     and_then rec_new_id (\<lambda>i. and_then rec_clock (\<lambda>now. write_audit (rec_audit_entry workspace actor action ty target meta i now)))"

definition log_audit :: "recording_service \<Rightarrow> uuid \<Rightarrow> uuid \<Rightarrow> string \<Rightarrow> string \<Rightarrow> string \<Rightarrow> (string \<times> audit_value) list \<Rightarrow> unit rec_step" where
  "log_audit s workspace actor action ty target meta =
     (if re_audit s then ignore_err (create_audit_tx workspace actor action ty target meta) else return ())"

section \<open>Access and quota\<close>

definition rec_get_call :: "uuid \<Rightarrow> rec_world \<Rightarrow> call result" where
  "rec_get_call i w = pg_get_call (rw_calls w) i"

definition is_workspace_admin :: "recording_service \<Rightarrow> uuid \<Rightarrow> uuid \<Rightarrow> rec_world \<Rightarrow> bool" where
  "is_workspace_admin s workspace u w \<longleftrightarrow>
     re_workspaces s \<and>
     (case pg_get_member (rw_db w) workspace u of
        Err e \<Rightarrow> False
      | Ok m \<Rightarrow> wm_role m = RoleOwner \<or> wm_role m = RoleAdmin)"

definition recording_view_access :: "recording_service \<Rightarrow> uuid \<Rightarrow> uuid \<Rightarrow> uuid \<Rightarrow> rec_world \<Rightarrow> error option" where
  "recording_view_access s workspace c u w =
     (case re_call_access s of
        Some access \<Rightarrow> access w workspace c u
      | None \<Rightarrow>
          if is_workspace_admin s workspace u w then None
          else case pg_get_participant (rw_calls w) c u of
            Ok p \<Rightarrow> None
          | Err e \<Rightarrow> Some (missing_or (forbidden ''not authorized to view recording'') ''failed to verify recording access'' e))"

definition recording_download_access :: "recording_service \<Rightarrow> recording \<Rightarrow> uuid \<Rightarrow> rec_world \<Rightarrow> error option" where
  "recording_download_access s r u w =
     (case re_call_access s of
        Some access \<Rightarrow> access w (rec_workspace r) (rec_call r) u
      | None \<Rightarrow>
          if is_workspace_admin s (rec_workspace r) u w \<or> rec_started_by r = u then None
          else recording_view_access s (rec_workspace r) (rec_call r) u w)"

definition fetch_recording :: "uuid \<Rightarrow> uuid \<Rightarrow> recording rec_step" where
  "fetch_recording workspace i =
     and_then (map_err (missing_or (not_found ''recording not found'') ''failed to get recording'') (rec_tables (pg_get_recording i))) (\<lambda>r.
     and_then (guard (rec_workspace r \<noteq> workspace) (not_found ''recording not found'')) (\<lambda>_. return r))"

definition visible_recording :: "recording_service \<Rightarrow> uuid \<Rightarrow> uuid \<Rightarrow> uuid \<Rightarrow> recording rec_step" where
  "visible_recording s workspace i u =
     and_then (fetch_recording workspace i) (\<lambda>r.
     and_then (check (recording_view_access s workspace (rec_call r) u)) (\<lambda>_. return r))"

definition rec_host :: "string \<Rightarrow> string \<Rightarrow> uuid \<Rightarrow> uuid \<Rightarrow> rec_world \<Rightarrow> error option" where
  "rec_host missing refused c u w =
     (case pg_get_participant (rw_calls w) c u of
        Err e \<Rightarrow> Some (missing_or (forbidden missing) ''failed to get participant'' e)
      | Ok p \<Rightarrow> if pa_role p \<noteq> CallRoleHost \<and> pa_role p \<noteq> CallRoleCoHost then Some (forbidden refused) else None)"

definition ensure_quota_available :: "recording_service \<Rightarrow> uuid \<Rightarrow> unit rec_step" where
  "ensure_quota_available s workspace =
     (if re_quota s \<le> 0 then return ()
      else and_then (map_err (internal_err ''failed to determine workspace recording usage'') (rec_tables (pg_storage_usage workspace))) (\<lambda>usage.
           guard (usage \<ge> re_quota s) (forbidden ''workspace recording storage quota exceeded'')))"

text \<open>Sizes are added as \<open>int64\<close>.\<close>

fun artifacts_size :: "recording_artifact list \<Rightarrow> int \<Rightarrow> int" where
  "artifacts_size [] n = n"
| "artifacts_size (a # as) n = artifacts_size as (wrap64 (n + art_size a))"

definition ensure_quota_for :: "recording_service \<Rightarrow> uuid \<Rightarrow> recording_artifact list \<Rightarrow> unit rec_step" where
  "ensure_quota_for s workspace as =
     (if re_quota s \<le> 0 then return ()
      else and_then (map_err (internal_err ''failed to determine workspace recording usage'') (rec_tables (pg_storage_usage workspace))) (\<lambda>usage.
           guard (wrap64 (usage + artifacts_size as 0) > re_quota s) (forbidden ''workspace recording storage quota would be exceeded'')))"

section \<open>Starting and stopping\<close>

definition default_storage_class :: "recording_service \<Rightarrow> storage_tier \<Rightarrow> string" where
  "default_storage_class s tier = (case re_tiers s of None \<Rightarrow> [] | Some f \<Rightarrow> f tier)"

definition strategy_text :: "recording_strategy \<Rightarrow> string" where
  "strategy_text x = (case x of StrategyComposite \<Rightarrow> ''composite'' | StrategyPerTrack \<Rightarrow> ''per_track'' | StrategyBoth \<Rightarrow> ''both'' | StrategyOther t \<Rightarrow> t)"

definition new_recording :: "recording_service \<Rightarrow> call \<Rightarrow> uuid \<Rightarrow> recording_strategy \<Rightarrow> uuid \<Rightarrow> instant \<Rightarrow> recording" where
  "new_recording s c u strategy i now =
     \<lparr>rec_id = i, rec_call = ca_id c, rec_workspace = ca_workspace c, rec_started_by = u, rec_strategy = strategy,
      rec_format = FormatBundle, rec_status = RecordingRunning, rec_duration = None, rec_file_size = None, rec_path = [],
      rec_tier = TierHot, rec_class = default_storage_class s TierHot, rec_sha256 = [],
      rec_downloadable = (strategy \<noteq> StrategyPerTrack), rec_attempts = 0, rec_max_attempts = re_max_attempts s,
      rec_last_error = [], rec_metadata = [(''capture_spool_dir'', work_dir s i)], rec_legal_hold = False, rec_started_at = now,
      rec_stopped_at = None, rec_ready_at = None, rec_next_retry = None, rec_tier_updated = None,
      rec_expires_at = (if re_retention s > 0 then Some (now + re_retention s) else None), rec_created_at = now\<rparr>"

definition started_metadata :: "recording_service \<Rightarrow> recording \<Rightarrow> (string \<times> audit_value) list" where
  "started_metadata s r =
     [(''call_id'', AuditText (re_uuid_text s (rec_call r))), (''strategy'', AuditText (strategy_text (rec_strategy r))),
      (''format'', AuditText ''bundle''), (''spool_dir'', AuditText (work_dir s (rec_id r)))]"

text \<open>The row of a recording whose capture runs; if it cannot be stored the capture is stopped again.\<close>

definition store_recording :: "recording_service \<Rightarrow> uuid \<Rightarrow> recording \<Rightarrow> unit rec_step" where
  "store_recording s u r w =
     (let store = rec_tables (pg_create_recording r);
          args = (\<lambda>f. f (rec_workspace r) u ''recording.started'' ''recording'' (re_uuid_text s (rec_id r)) (started_metadata s r)) in
      case (if re_tx s then rec_tx (and_then store (\<lambda>_. args create_audit_tx)) else store) w of
        (w', Err e) \<Rightarrow> (fst (capture_stop (rec_id r) w'), Err (internal_err ''failed to start recording'' e))
      | (w', Ok x) \<Rightarrow> (if re_tx s then return () else args (log_audit s)) w')"

text \<open>An empty strategy is \<open>None\<close>.\<close>

definition start_recording ::
  "recording_service \<Rightarrow> uuid \<Rightarrow> uuid \<Rightarrow> uuid \<Rightarrow> recording_strategy option \<Rightarrow> recording rec_step" where
  "start_recording s workspace i u asked =
     (let strategy = (case asked of None \<Rightarrow> StrategyBoth | Some x \<Rightarrow> x) in
      and_then (map_err (missing_or (not_found ''call not found'') ''failed to get call'') (from_read (rec_get_call i))) (\<lambda>c.
      and_then (guard (ca_workspace c \<noteq> workspace) (not_found ''call not found'')) (\<lambda>_.
      and_then (guard (ca_status c \<noteq> CallStatusActive) (forbidden ''can only record active calls'')) (\<lambda>_.
      and_then (guard (\<not> se_recording (ca_settings c)) (forbidden ''recording is disabled for this call'')) (\<lambda>_.
      and_then (guard (strategy \<notin> {StrategyComposite, StrategyPerTrack, StrategyBoth}) (invalid_input ''invalid recording strategy'')) (\<lambda>_.
      and_then (ensure_quota_available s workspace) (\<lambda>_.
      and_then (check (rec_host ''not a participant in this call'' ''only host or co-host can start recording'' i u)) (\<lambda>_.
      and_then (map_err (internal_err ''failed to check existing recordings'') (rec_tables (pg_list_by_call i))) (\<lambda>existing.
      and_then (guard (list_ex (\<lambda>r. rec_status r = RecordingRunning) existing) (conflict ''call is already being recorded'')) (\<lambda>_.
      and_then (check (\<lambda>w. if re_rooms s \<and> get_room (re_uuid_text s i) (rw_sfu w) \<noteq> None then None
                           else Some (unavailable ''media room is not initialized''))) (\<lambda>_.
      and_then (guard (\<not> re_capture s) (unavailable ''recording capture is not configured'')) (\<lambda>_.
      and_then rec_clock (\<lambda>now.
      and_then rec_new_id (\<lambda>j.
      let r = new_recording s c u strategy j now in
      and_then (map_err (internal_err ''failed to attach recording capture'') (capture_start j)) (\<lambda>_.
      and_then (store_recording s u r) (\<lambda>_. return r))))))))))))))))"

definition stop_recording :: "recording_service \<Rightarrow> uuid \<Rightarrow> uuid \<Rightarrow> uuid \<Rightarrow> unit rec_step" where
  "stop_recording s workspace i u =
     (let args = (\<lambda>f. f workspace u ''recording.stopped'' ''recording'' (re_uuid_text s i) []) in
      and_then (fetch_recording workspace i) (\<lambda>r.
      and_then (guard (rec_status r \<noteq> RecordingRunning) (conflict ''recording is not active'')) (\<lambda>_.
      and_then (check (rec_host ''not a participant'' ''only host or co-host can stop recording'' (rec_call r) u)) (\<lambda>_.
      and_then (if re_capture s then map_err (internal_err ''failed to finalize capture'') (capture_stop i) else return ()) (\<lambda>_.
      and_then rec_clock (\<lambda>now.
      if re_tx s
      then map_err (internal_err ''failed to stop recording'')
             (rec_tx (and_then (rec_tables (pg_stop_recording i now)) (\<lambda>_. args create_audit_tx)))
      else and_then (map_err (internal_err ''failed to stop recording'') (rec_tables (pg_stop_recording i now))) (\<lambda>_.
           args (log_audit s))))))))"

text \<open>What the goroutine of a recording does when its room has closed.\<close>

definition auto_stop_on_room_close :: "recording_service \<Rightarrow> uuid \<Rightarrow> unit rec_step" where
  "auto_stop_on_room_close s i w =
     (if \<not> re_capture s then (w, Ok ())
      else case rec_tables (pg_get_recording i) w of
        (w1, Err e) \<Rightarrow> (w1, Ok ())
      | (w1, Ok r) \<Rightarrow>
          if rec_status r \<noteq> RecordingRunning then (w1, Ok ())
          else case capture_stop i w1 of
            (w2, Err e) \<Rightarrow> (w2, Ok ())
          | (w2, Ok x) \<Rightarrow> (fst (rec_tables (pg_stop_recording i (rw_now w2)) w2), Ok ()))"

section \<open>Reading\<close>

definition get_recording :: "recording_service \<Rightarrow> uuid \<Rightarrow> uuid \<Rightarrow> uuid \<Rightarrow> recording rec_step" where
  "get_recording s workspace i u =
     and_then (visible_recording s workspace i u) (\<lambda>r.
     and_then (log_audit s workspace u ''recording.viewed'' ''recording'' (re_uuid_text s i) []) (\<lambda>_. return r))"

definition list_recordings :: "recording_service \<Rightarrow> uuid \<Rightarrow> uuid \<Rightarrow> uuid \<Rightarrow> recording list rec_step" where
  "list_recordings s workspace c u =
     and_then (map_err (\<lambda>_. not_found ''call not found'') (from_read (rec_get_call c))) (\<lambda>x.
     and_then (guard (ca_workspace x \<noteq> workspace) (not_found ''call not found'')) (\<lambda>_.
     and_then (check (recording_view_access s workspace c u)) (\<lambda>_.
     map_err (internal_err ''failed to list recordings'') (rec_tables (pg_list_by_call c)))))"

definition list_artifacts :: "recording_service \<Rightarrow> uuid \<Rightarrow> uuid \<Rightarrow> uuid \<Rightarrow> recording_artifact list rec_step" where
  "list_artifacts s workspace i u =
     and_then (visible_recording s workspace i u) (\<lambda>r.
     map_err (internal_err ''failed to list recording artifacts'') (rec_tables (pg_list_artifacts (rec_id r))))"

definition downloadable_artifact :: "recording_service \<Rightarrow> uuid \<Rightarrow> uuid \<Rightarrow> uuid \<Rightarrow> uuid \<Rightarrow> recording_artifact rec_step" where
  "downloadable_artifact s workspace i a u =
     and_then (visible_recording s workspace i u) (\<lambda>r.
     and_then (check (recording_download_access s r u)) (\<lambda>_.
     and_then (map_err (missing_or (not_found ''recording artifact not found'') ''failed to get recording artifact'')
       (rec_tables (pg_get_artifact i a))) (\<lambda>x.
     and_then (guard (\<not> art_downloadable x) (forbidden ''artifact is not downloadable'')) (\<lambda>_. return x))))"

definition kind_text :: "artifact_kind \<Rightarrow> string" where
  "kind_text k =
     (case k of KindAudioTrack \<Rightarrow> ''audio_track'' | KindVideoTrack \<Rightarrow> ''video_track'' | KindScreenTrack \<Rightarrow> ''screen_track''
      | KindComposite \<Rightarrow> ''composite_playback'' | KindTranscript \<Rightarrow> ''transcript_audio'' | KindManifest \<Rightarrow> ''manifest''
      | KindAIManifest \<Rightarrow> ''ai_manifest'' | KindSessionBundle \<Rightarrow> ''session_bundle'')"

definition download_metadata :: "recording_service \<Rightarrow> uuid \<Rightarrow> recording_artifact \<Rightarrow> (string \<times> audit_value) list" where
  "download_metadata s i x =
     [(''recording_id'', AuditText (re_uuid_text s i)), (''kind'', AuditText (kind_text (art_kind x))),
      (''format'', AuditText (art_format x))]"

definition download_artifact :: "recording_service \<Rightarrow> uuid \<Rightarrow> uuid \<Rightarrow> uuid \<Rightarrow> uuid \<Rightarrow> recording_artifact rec_step" where
  "download_artifact s workspace i a u =
     and_then (downloadable_artifact s workspace i a u) (\<lambda>x.
     and_then (map_err (\<lambda>e. if err_is (re_not_found s) e then not_found ''recording artifact not found''
                            else internal_err ''failed to open recording artifact'' e)
       (object_op (open_object (re_not_found s) (art_path x)))) (\<lambda>_.
     and_then (log_audit s workspace u ''recording.downloaded'' ''recording_artifact'' (re_uuid_text s (art_id x)) (download_metadata s i x)) (\<lambda>_.
     return x)))"

text \<open>No URL and no artifact if the store cannot sign.\<close>

definition presign_artifact_download ::
  "recording_service \<Rightarrow> uuid \<Rightarrow> uuid \<Rightarrow> uuid \<Rightarrow> uuid \<Rightarrow> (string \<times> recording_artifact option) rec_step" where
  "presign_artifact_download s workspace i a u =
     (case re_sign s of
        None \<Rightarrow> return ([], None)
      | Some sign \<Rightarrow>
          and_then (downloadable_artifact s workspace i a u) (\<lambda>x w.
            (case sign (art_path x) (re_uuid_text s a @ ''.'' @ art_format x) (art_mime x) (re_url_ttl s) of
               Err e \<Rightarrow>
                 if err_is (re_not_supported s) e then (w, Ok ([], None))
                 else (w, Err (internal_err ''failed to sign recording artifact download'' e))
             | Ok url \<Rightarrow>
                 and_then (log_audit s workspace u ''recording.downloaded'' ''recording_artifact'' (re_uuid_text s (art_id x))
                   (download_metadata s i x @ [(''signed_url'', AuditBool True)])) (\<lambda>_. return (url, Some x)) w)))"

definition set_legal_hold :: "uuid \<Rightarrow> bool \<Rightarrow> unit rec_step" where
  "set_legal_hold i hold = map_err (internal_err ''failed to set legal hold'') (rec_tables (pg_set_legal_hold i hold))"

end
