(* ===== verification/RecordingWorkers.thy ===== *)
theory RecordingWorkers
  imports Recordings
begin

text \<open>
  The workers of the recording service: \<open>ProcessPending\<close>, \<open>CleanupExpired\<close> and \<open>TransitionStorageLifecycle\<close> of
  \<open>internal/service/recording/service.go\<close>. The tickers around them only say when they run. A worker is
  given here as it runs when nothing interrupts it; \<open>RecordingProps\<close> takes the cleanup apart into its statements.
\<close>

record maintenance_stats =
  mn_processed :: nat
  mn_failed :: nat
  mn_deleted :: nat
  mn_tiered :: nat

definition no_stats :: maintenance_stats where
  "no_stats = \<lparr>mn_processed = 0, mn_failed = 0, mn_deleted = 0, mn_tiered = 0\<rparr>"

definition batch_limit :: "int \<Rightarrow> int" where
  "batch_limit n = (if n \<le> 0 then 50 else n)"

section \<open>Processing\<close>

text \<open>The loop \<open>for i := 1; i < attempts; i++\<close> with the iterations left.\<close>

fun failure_delay :: "nat \<Rightarrow> duration \<Rightarrow> duration" where
  "failure_delay 0 delay = delay"
| "failure_delay (Suc n) delay =
     (let d = wrap64 (delay * 2) in if d > 3600 * second then 3600 * second else failure_delay n d)"

definition next_processing_retry :: "recording_service \<Rightarrow> recording \<Rightarrow> instant \<Rightarrow> instant option" where
  "next_processing_retry s r now =
     (if rec_attempts r < rec_max_attempts r
      then Some (now + failure_delay (nat (rec_attempts r - 1)) (re_retry_backoff s)) else None)"

definition handle_processing_failure :: "recording_service \<Rightarrow> recording \<Rightarrow> error \<Rightarrow> unit rec_step" where
  "handle_processing_failure s r cause =
     and_then rec_clock (\<lambda>now.
     ignore_err (retried s (rec_tables (pg_mark_recording_failed (rec_id r) (error_text cause) (next_processing_retry s r now)))))"

fun delete_uploaded_loop :: "recording_service \<Rightarrow> string list \<Rightarrow> recording_artifact list \<Rightarrow> unit rec_step" where
  "delete_uploaded_loop s seen [] = return ()"
| "delete_uploaded_loop s seen (a # as) =
     (if art_path a = [] \<or> art_path a \<in> set seen then delete_uploaded_loop s seen as
      else and_then (ignore_err (retried s (object_op (delete_object (art_path a))))) (\<lambda>_.
           delete_uploaded_loop s (art_path a # seen) as))"

definition delete_uploaded :: "recording_service \<Rightarrow> recording_artifact list \<Rightarrow> unit rec_step" where
  "delete_uploaded s as = delete_uploaded_loop s [] as"

definition apply_storage_tier :: "recording_service \<Rightarrow> storage_tier \<Rightarrow> instant \<Rightarrow> processed_recording \<Rightarrow> processed_recording" where
  "apply_storage_tier s tier now p =
     (let class = default_storage_class s tier in
      p\<lparr>pr_tier := tier, pr_class := class,
        pr_artifacts := map (\<lambda>a. a\<lparr>art_tier := tier, art_class := class, art_tier_updated := Some now\<rparr>) (pr_artifacts p)\<rparr>)"

definition ready_recording :: "recording \<Rightarrow> processed_recording \<Rightarrow> instant \<Rightarrow> recording" where
  "ready_recording r p now =
     r\<lparr>rec_format := pr_format p, rec_path := pr_path p, rec_tier := pr_tier p, rec_class := pr_class p,
       rec_sha256 := pr_sha256 p, rec_downloadable := pr_downloadable p, rec_file_size := Some (pr_size p),
       rec_duration := Some (pr_duration p), rec_tier_updated := Some now, rec_metadata := pr_metadata p\<rparr>"

definition finalize_ready :: "recording_service \<Rightarrow> recording \<Rightarrow> recording_artifact list \<Rightarrow> unit rec_step" where
  "finalize_ready s r as w =
     (if re_tx s then
        rec_tx (and_then (rec_tables (replace_artifacts_tx (rec_id r) as)) (\<lambda>_. rec_tables (pg_set_ready r (rw_now w)))) w
      else and_then (rec_tables (pg_replace_artifacts (rec_id r) as)) (\<lambda>_. rec_tables (pg_set_ready r (rw_now w))) w)"

definition dispatch_ready :: "recording_service \<Rightarrow> recording \<Rightarrow> unit rec_step" where
  "dispatch_ready s r w =
     (case re_hook s of
        None \<Rightarrow> (w, Ok ())
      | Some f \<Rightarrow>
          (let e = \<lparr>he_workspace = rec_workspace r, he_actor = rec_started_by r, he_resource = rec_id r,
                    he_key = ''recording.ready:'' @ re_uuid_text s (rec_id r)\<rparr> in
           (w\<lparr>rw_hooks := rw_hooks w @ [e]\<rparr>, unit_result (f e))))"

definition run_processor ::
  "(recording \<Rightarrow> rec_world \<Rightarrow> object_store \<times> processed_recording option result) \<Rightarrow> recording \<Rightarrow> processed_recording option rec_step" where
  "run_processor f r w = (case f r w of (x, res) \<Rightarrow> (w\<lparr>rw_objects := x\<rparr>, res))"

text \<open>An attempt on a recording already marked: \<open>None\<close> when it became ready, otherwise the error that failed it, if
  that error is returned to the caller.\<close>

definition fail_attempt :: "recording_service \<Rightarrow> recording \<Rightarrow> error \<Rightarrow> error option \<Rightarrow> rec_world \<Rightarrow> rec_world \<times> error option option" where
  "fail_attempt s r cause reported w = (fst (handle_processing_failure s r cause w), Some reported)"

definition publish_processed :: "recording_service \<Rightarrow> recording \<Rightarrow> processed_recording \<Rightarrow> rec_world \<Rightarrow> rec_world \<times> error option option" where
  "publish_processed s r p0 w =
     (let p = apply_storage_tier s TierHot (rw_now w) p0;
          r' = ready_recording r p (rw_now w) in
      case retried s (finalize_ready s r' (pr_artifacts p)) w of
        (w1, Err e) \<Rightarrow>
          (let w2 = fst (delete_uploaded s (pr_artifacts p) w1);
               w3 = (if re_tx s then w2 else fst (retried s (rec_tables (pg_replace_artifacts (rec_id r) [])) w2)) in
           fail_attempt s r' e (Some e) w3)
      | (w1, Ok u) \<Rightarrow> (fst (remove_spool s (rec_id r) (fst (dispatch_ready s r' w1))), None))"

definition process_attempt ::
  "recording_service \<Rightarrow> (recording \<Rightarrow> rec_world \<Rightarrow> object_store \<times> processed_recording option result) \<Rightarrow> recording \<Rightarrow>
     rec_world \<Rightarrow> rec_world \<times> error option option" where
  "process_attempt s f r w =
     (case run_processor f r w of
        (w1, Err e) \<Rightarrow> fail_attempt s r e (Some e) w1
      | (w1, Ok None) \<Rightarrow> fail_attempt s r (AppError CodeInternal ''recording processor returned invalid artifact'' None) None w1
      | (w1, Ok (Some p)) \<Rightarrow>
          if pr_path p = [] \<or> pr_size p \<le> 0
          then fail_attempt s r (AppError CodeInternal ''recording processor returned invalid artifact'' None) None w1
          else case ensure_quota_for s (rec_workspace r) (pr_artifacts p) w1 of
            (w2, Err e) \<Rightarrow> fail_attempt s r e (Some e) (fst (delete_uploaded s (pr_artifacts p) w2))
          | (w2, Ok u) \<Rightarrow> publish_processed s r p w2)"

definition or_first :: "error option \<Rightarrow> error option \<Rightarrow> error option" where
  "or_first a b = (case a of None \<Rightarrow> b | Some e \<Rightarrow> Some e)"

fun process_recordings ::
  "recording_service \<Rightarrow> (recording \<Rightarrow> rec_world \<Rightarrow> object_store \<times> processed_recording option result) \<Rightarrow> recording list \<Rightarrow>
     maintenance_stats \<Rightarrow> error option \<Rightarrow> rec_world \<Rightarrow> rec_world \<times> maintenance_stats \<times> error option" where
  "process_recordings s f [] n first w = (w, n, first)"
| "process_recordings s f (r # rs) n first w =
     (case retried s (\<lambda>x. rec_tables (pg_mark_attempt (rec_id r) (rw_now x)) x) w of
        (w1, Err e) \<Rightarrow> process_recordings s f rs (n\<lparr>mn_failed := mn_failed n + 1\<rparr>) (or_first first (Some e)) w1
      | (w1, Ok marked) \<Rightarrow>
          (case process_attempt s f marked w1 of
             (w2, None) \<Rightarrow> process_recordings s f rs (n\<lparr>mn_processed := mn_processed n + 1\<rparr>) first w2
           | (w2, Some e) \<Rightarrow> process_recordings s f rs (n\<lparr>mn_failed := mn_failed n + 1\<rparr>) (or_first first e) w2))"

definition process_pending_recordings :: "recording_service \<Rightarrow> int \<Rightarrow> rec_world \<Rightarrow> rec_world \<times> maintenance_stats \<times> error option" where
  "process_pending_recordings s limit w =
     (case re_processor s of
        None \<Rightarrow> (w, no_stats, Some (unavailable ''recording processor is not configured''))
      | Some f \<Rightarrow>
          if re_saturated s w then (w, no_stats, Some (unavailable ''recording processing backpressure is active''))
          else case retried s (\<lambda>x. rec_tables (pg_list_processable (rw_now x) (batch_limit limit) 0) x) w of
            (w1, Err e) \<Rightarrow> (w1, no_stats, Some (internal_err ''failed to list pending recordings'' e))
          | (w1, Ok rs) \<Rightarrow> process_recordings s f rs no_stats None w1)"

section \<open>Deleting expired recordings\<close>

text \<open>The keys of a recording and its artifacts, each once; Go visits the map in some order, here that of the list.\<close>

definition object_paths :: "recording \<Rightarrow> recording_artifact list \<Rightarrow> string list" where
  "object_paths r as = remdups (filter (\<lambda>k. k \<noteq> []) (rec_path r # map art_path as))"

fun delete_objects :: "recording_service \<Rightarrow> string list \<Rightarrow> unit rec_step" where
  "delete_objects s [] = return ()"
| "delete_objects s (k # ks) = and_then (retried s (object_op (delete_object k))) (\<lambda>_. delete_objects s ks)"

definition cleanup_recording :: "recording_service \<Rightarrow> recording \<Rightarrow> unit rec_step" where
  "cleanup_recording s r =
     and_then (map_err (internal_err ''failed to list recording artifacts for deletion'') (retried s (rec_tables (pg_list_artifacts (rec_id r))))) (\<lambda>as.
     and_then (map_err (internal_err ''failed to delete recording object'') (delete_objects s (object_paths r as))) (\<lambda>_.
     and_then (map_err (internal_err ''failed to delete expired recording metadata'') (retried s (rec_tables (pg_delete_recording (rec_id r))))) (\<lambda>_.
     remove_spool s (rec_id r))))"

fun cleanup_recordings :: "recording_service \<Rightarrow> recording list \<Rightarrow> nat \<Rightarrow> rec_world \<Rightarrow> rec_world \<times> nat \<times> error option" where
  "cleanup_recordings s [] n w = (w, n, None)"
| "cleanup_recordings s (r # rs) n w =
     (case cleanup_recording s r w of
        (w1, Err e) \<Rightarrow> (w1, n, Some e)
      | (w1, Ok u) \<Rightarrow> cleanup_recordings s rs (n + 1) w1)"

definition cleanup_expired :: "recording_service \<Rightarrow> instant \<Rightarrow> int \<Rightarrow> rec_world \<Rightarrow> rec_world \<times> maintenance_stats \<times> error option" where
  "cleanup_expired s now limit w =
     (case retried s (rec_tables (pg_list_expired now (batch_limit limit) 0)) w of
        (w1, Err e) \<Rightarrow> (w1, no_stats, Some (internal_err ''failed to list expired recordings'' e))
      | (w1, Ok rs) \<Rightarrow> (case cleanup_recordings s rs 0 w1 of (w2, n, e) \<Rightarrow> (w2, no_stats\<lparr>mn_deleted := n\<rparr>, e)))"

definition run_maintenance_once :: "recording_service \<Rightarrow> instant \<Rightarrow> int \<Rightarrow> rec_world \<Rightarrow> rec_world \<times> maintenance_stats \<times> error option" where
  "run_maintenance_once s now limit w =
     (case process_pending_recordings s limit w of
        (w1, n, e) \<Rightarrow> (case cleanup_expired s now limit w1 of (w2, m, e') \<Rightarrow> (w2, n\<lparr>mn_deleted := mn_deleted m\<rparr>, or_first e e')))"

section \<open>Storage tiers\<close>

definition target_tier :: "recording_service \<Rightarrow> instant \<Rightarrow> recording \<Rightarrow> storage_tier" where
  "target_tier s now r =
     (let base = (case rec_ready_at r of Some x \<Rightarrow> x
                  | None \<Rightarrow> (case rec_stopped_at r of Some x \<Rightarrow> x | None \<Rightarrow> rec_created_at r));
          age = now - base in
      if re_archive_after s > 0 \<and> age \<ge> re_archive_after s then TierArchive
      else if re_warm_after s > 0 \<and> age \<ge> re_warm_after s then TierWarm
      else TierHot)"

fun transition_objects :: "recording_service \<Rightarrow> string \<Rightarrow> string list \<Rightarrow> string list \<Rightarrow> unit rec_step" where
  "transition_objects s class seen [] = return ()"
| "transition_objects s class seen (k # ks) =
     (if k = [] \<or> k \<in> set seen then transition_objects s class seen ks
      else and_then (retried s (object_op (transition_object (re_not_found s) k class))) (\<lambda>_.
           transition_objects s class (k # seen) ks))"

fun update_artifact_tiers :: "uuid \<Rightarrow> storage_tier \<Rightarrow> string \<Rightarrow> instant \<Rightarrow> recording_artifact list \<Rightarrow> unit rec_step" where
  "update_artifact_tiers i tier class now [] = return ()"
| "update_artifact_tiers i tier class now (a # as) =
     and_then (rec_tables (pg_update_artifact_tier i (art_id a) tier class now)) (\<lambda>_. update_artifact_tiers i tier class now as)"

definition transition_recording_tier :: "recording_service \<Rightarrow> (storage_tier \<Rightarrow> string) \<Rightarrow> recording \<Rightarrow> storage_tier \<Rightarrow> instant \<Rightarrow> unit rec_step" where
  "transition_recording_tier s classes r tier now =
     and_then (retried s (rec_tables (pg_list_artifacts (rec_id r)))) (\<lambda>as.
     and_then (transition_objects s (classes tier) [] (rec_path r # map art_path as)) (\<lambda>_.
     and_then (rec_tables (pg_update_storage_tier (rec_id r) tier (classes tier) now)) (\<lambda>_.
     update_artifact_tiers (rec_id r) tier (classes tier) now as)))"

definition tier_due :: "recording_service \<Rightarrow> instant \<Rightarrow> recording \<Rightarrow> bool" where
  "tier_due s now r \<longleftrightarrow>
     \<not> rec_legal_hold r \<and> (case rec_expires_at r of None \<Rightarrow> True | Some x \<Rightarrow> now < x) \<and> target_tier s now r \<noteq> rec_tier r"

fun transition_recordings ::
  "recording_service \<Rightarrow> (storage_tier \<Rightarrow> string) \<Rightarrow> instant \<Rightarrow> recording list \<Rightarrow> maintenance_stats \<Rightarrow> rec_world \<Rightarrow> rec_world \<times> maintenance_stats" where
  "transition_recordings s classes now [] n w = (w, n)"
| "transition_recordings s classes now (r # rs) n w =
     (if \<not> tier_due s now r then transition_recordings s classes now rs n w
      else case transition_recording_tier s classes r (target_tier s now r) now w of
        (w1, Err e) \<Rightarrow> transition_recordings s classes now rs (n\<lparr>mn_failed := mn_failed n + 1\<rparr>) w1
      | (w1, Ok u) \<Rightarrow> transition_recordings s classes now rs (n\<lparr>mn_tiered := mn_tiered n + 1\<rparr>) w1)"

definition transition_storage_lifecycle :: "recording_service \<Rightarrow> instant \<Rightarrow> int \<Rightarrow> rec_world \<Rightarrow> rec_world \<times> maintenance_stats \<times> error option" where
  "transition_storage_lifecycle s now limit w =
     (case re_tiers s of
        None \<Rightarrow> (w, no_stats, None)
      | Some classes \<Rightarrow>
          (case retried s (rec_tables (pg_list_by_status RecordingReady (batch_limit limit) 0)) w of
             (w1, Err e) \<Rightarrow> (w1, no_stats, Some (internal_err ''failed to list ready recordings for lifecycle transition'' e))
           | (w1, Ok rs) \<Rightarrow> (case transition_recordings s classes now rs no_stats w1 of (w2, n) \<Rightarrow> (w2, n, None))))"

end
