(* ===== verification/RecordingSpec.thy ===== *)
theory RecordingSpec
  imports RecordingWorkers
begin

text \<open>
  What the statements and operations of the recording service may do to the tables: the evolution of a row, the
  invariant of the tables, and for every operation the changes it makes, whatever statements fail and are retried.
\<close>

section \<open>Rows\<close>

definition same_recording :: "recording \<Rightarrow> recording \<Rightarrow> bool" where
  "same_recording r r' \<longleftrightarrow>
     rec_id r' = rec_id r \<and> rec_call r' = rec_call r \<and> rec_workspace r' = rec_workspace r \<and> rec_started_by r' = rec_started_by r \<and>
     rec_strategy r' = rec_strategy r \<and> rec_max_attempts r' = rec_max_attempts r \<and> rec_started_at r' = rec_started_at r \<and>
     rec_expires_at r' = rec_expires_at r \<and> rec_created_at r' = rec_created_at r"

definition fits_ready :: "recording \<Rightarrow> bool" where
  "fits_ready r \<longleftrightarrow>
     rec_path r \<noteq> [] \<and> (case rec_file_size r of None \<Rightarrow> False | Some n \<Rightarrow> 0 < n) \<and> rec_ready_at r \<noteq> None \<and> rec_next_retry r = None"

text \<open>How a row may change at once, its legal hold apart.\<close>

definition row_step :: "recording \<Rightarrow> recording \<Rightarrow> bool" where
  "row_step r r' \<longleftrightarrow>
     same_recording r r' \<and> status_transition (rec_status r) (rec_status r') \<and> recording_check r' \<and> rec_attempts r \<le> rec_attempts r' \<and>
     rec_legal_hold r' = rec_legal_hold r \<and>
     (rec_status r' = RecordingRunning \<longrightarrow> rec_attempts r' = rec_attempts r \<and> rec_stopped_at r' = rec_stopped_at r) \<and>
     (rec_status r' = RecordingReady \<longrightarrow> fits_ready r' \<or> rec_status r = RecordingReady \<and> (fits_ready r \<longrightarrow> fits_ready r'))"

definition rec_row_ok :: "recording \<Rightarrow> bool" where
  "rec_row_ok r \<longleftrightarrow>
     recording_check r \<and> (rec_status r = RecordingReady \<longrightarrow> fits_ready r) \<and>
     (rec_status r = RecordingRunning \<longrightarrow> rec_attempts r = 0 \<and> rec_stopped_at r = None)"

lemma row_step_ok: "row_step r r' \<Longrightarrow> rec_row_ok r \<Longrightarrow> rec_row_ok r'"
  by (auto simp: row_step_def rec_row_ok_def status_transition_def)

lemma row_step_same: "row_step r r' \<Longrightarrow> rec_id r' = rec_id r"
  by (simp add: row_step_def same_recording_def)

definition artifacts_ok :: "recording list \<Rightarrow> recording_artifact list \<Rightarrow> bool" where
  "artifacts_ok rs as \<longleftrightarrow>
     distinct (map art_id as) \<and> distinct (map art_path as) \<and> (\<forall>a \<in> set as. 0 \<le> art_size a \<and> art_recording a \<in> rec_id ` set rs)"

definition recordings_ok :: "recording_tables \<Rightarrow> bool" where
  "recordings_ok t \<longleftrightarrow>
     distinct (map rec_id (rt_rows t)) \<and> (\<forall>r \<in> set (rt_rows t). rec_row_ok r) \<and> artifacts_ok (rt_rows t) (rt_artifacts t)"

section \<open>Changes\<close>

text \<open>The changes that statements make, by what they touch.\<close>

datatype rec_label = LCreate uuid | LAdvance uuid | LHold uuid bool | LDelete uuid | LArtifacts

type_synonym rec_state = "recording list \<times> recording_artifact list"

inductive rec_change :: "rec_label \<Rightarrow> rec_state \<Rightarrow> rec_state \<Rightarrow> bool" where
  create: "rec_row_ok r \<Longrightarrow> rec_id r \<notin> rec_id ` set rs \<Longrightarrow> rec_change (LCreate (rec_id r)) (rs, as) (rs @ [r], as)"
| advance: "(\<And>r. P r \<Longrightarrow> rec_id r = i) \<Longrightarrow> (\<And>r. r \<in> set rs \<Longrightarrow> P r \<Longrightarrow> row_step r (f r)) \<Longrightarrow>
    rec_change (LAdvance i) (rs, as) (update_rows P f rs, as)"
| hold: "rec_change (LHold i h) (rs, as) (update_rows (\<lambda>r. rec_id r = i) (\<lambda>r. r\<lparr>rec_legal_hold := h\<rparr>) rs, as)"
| delete: "rec_change (LDelete i) (rs, as) (filter (\<lambda>r. rec_id r \<noteq> i) rs, filter (\<lambda>a. art_recording a \<noteq> i) as)"
| artifacts: "(artifacts_ok rs as \<Longrightarrow> artifacts_ok rs as') \<Longrightarrow> rec_change LArtifacts (rs, as) (rs, as')"

definition data_ok :: "rec_state \<Rightarrow> bool" where
  "data_ok x \<longleftrightarrow> distinct (map rec_id (fst x)) \<and> (\<forall>r \<in> set (fst x). rec_row_ok r) \<and> artifacts_ok (fst x) (snd x)"

lemma map_update_rows_on: "(\<And>r. r \<in> set rows \<Longrightarrow> P r \<Longrightarrow> g (f r) = g r) \<Longrightarrow> map g (update_rows P f rows) = map g rows"
  by (simp add: update_rows_def)

lemma artifacts_ok_rows: "rec_id ` set rs = rec_id ` set rs' \<Longrightarrow> artifacts_ok rs as = artifacts_ok rs' as"
  by (simp add: artifacts_ok_def)

lemma artifacts_ok_filter: "artifacts_ok rs as \<Longrightarrow> artifacts_ok rs (filter P as)"
  by (auto simp: artifacts_ok_def)

lemma row_hold_ok: "rec_row_ok (r\<lparr>rec_legal_hold := h\<rparr>) = rec_row_ok r"
  by (simp add: rec_row_ok_def recording_check_def fits_ready_def)

lemma data_ok_update:
  assumes "data_ok (rs, as)" "\<And>r. r \<in> set rs \<Longrightarrow> P r \<Longrightarrow> rec_id (f r) = rec_id r \<and> rec_row_ok (f r)"
  shows "data_ok (update_rows P f rs, as)"
proof -
  have m: "map rec_id (update_rows P f rs) = map rec_id rs"
    by (rule map_update_rows_on) (use assms(2) in blast)
  then have i: "rec_id ` set (update_rows P f rs) = rec_id ` set rs" by (metis set_map)
  have "\<forall>r \<in> set (update_rows P f rs). rec_row_ok r" using assms by (auto simp: data_ok_def update_rows_def)
  then show ?thesis using assms(1) m artifacts_ok_rows[OF i] by (simp add: data_ok_def)
qed

lemma change_ok: "rec_change l x y \<Longrightarrow> data_ok x \<Longrightarrow> data_ok y"
proof (induction rule: rec_change.induct)
  case (create r rs as)
  then show ?case by (auto simp: data_ok_def artifacts_ok_def)
next
  case (advance P i rs f as)
  have "rec_id (f r) = rec_id r \<and> rec_row_ok (f r)" if "r \<in> set rs" "P r" for r
  proof -
    have "row_step r (f r)" "rec_row_ok r" using advance that by (auto simp: data_ok_def)
    then show ?thesis using row_step_ok row_step_same by blast
  qed
  then show ?case using advance.prems data_ok_update by blast
next
  case (hold i h rs as)
  then show ?case by (intro data_ok_update) (auto simp: data_ok_def row_hold_ok)
next
  case (delete i rs as)
  then show ?case by (auto simp: data_ok_def artifacts_ok_def)
next
  case (artifacts rs as as')
  then show ?case by (auto simp: data_ok_def)
qed

text \<open>How a row may have changed after any number of changes.\<close>

definition status_later :: "recording_status \<Rightarrow> recording_status \<Rightarrow> bool" where
  "status_later old new \<longleftrightarrow>
     old = RecordingRunning \<or> old = RecordingReady \<and> new = RecordingReady \<or>
     (old = RecordingProcessing \<or> old = RecordingFailed) \<and> new \<noteq> RecordingRunning"

definition row_evolves :: "recording \<Rightarrow> recording \<Rightarrow> bool" where
  "row_evolves r r' \<longleftrightarrow> same_recording r r' \<and> status_later (rec_status r) (rec_status r') \<and> rec_attempts r \<le> rec_attempts r'"

lemma row_evolves_refl [simp]: "row_evolves r r"
  by (cases "rec_status r") (simp_all add: row_evolves_def same_recording_def status_later_def)

lemma row_evolves_trans: "row_evolves r r1 \<Longrightarrow> row_evolves r1 r2 \<Longrightarrow> row_evolves r r2"
  by (auto simp: row_evolves_def same_recording_def status_later_def)

lemma row_step_evolves: "row_step r r' \<Longrightarrow> row_evolves r r' \<and> rec_legal_hold r' = rec_legal_hold r"
  by (cases "rec_status r"; cases "rec_status r'") (simp_all add: row_step_def row_evolves_def status_transition_def status_later_def)

lemma change_origin:
  "rec_change l x y \<Longrightarrow> r' \<in> set (fst y) \<Longrightarrow> (\<exists>r \<in> set (fst x). row_evolves r r') \<or> l = LCreate (rec_id r')"
proof (induction rule: rec_change.induct)
  case (advance P i rs f as)
  then obtain r where r: "r \<in> set rs" "r' = (if P r then f r else r)" by (auto simp: update_rows_def)
  then have "row_evolves r r'" using advance(2)[of r] row_step_evolves[of r "f r"] by auto
  then show ?case unfolding fst_conv using r(1) by blast
next
  case (hold i h rs as)
  have "row_evolves r (r\<lparr>rec_legal_hold := h\<rparr>)" for r
    by (cases "rec_status r") (simp_all add: row_evolves_def same_recording_def status_later_def)
  moreover obtain r where "r \<in> set rs" "r' = r \<or> r' = r\<lparr>rec_legal_hold := h\<rparr>" using hold by (auto simp: update_rows_def split: if_splits)
  ultimately show ?case unfolding fst_conv using row_evolves_refl by blast
next
  case (create r rs as)
  then have "r' \<in> set rs \<or> r' = r" by auto
  then show ?case unfolding fst_conv using row_evolves_refl by blast
next
  case (delete i rs as)
  then have "r' \<in> set rs" by simp
  then show ?case unfolding fst_conv using row_evolves_refl by blast
next
  case (artifacts rs as as')
  then have "r' \<in> set rs" by simp
  then show ?case unfolding fst_conv using row_evolves_refl by blast
qed

lemma change_keeps_held:
  assumes "rec_change l x y" "l \<noteq> LDelete i" "l \<noteq> LHold i False" "r \<in> set (fst x)" "rec_id r = i" "rec_legal_hold r"
  shows "\<exists>r' \<in> set (fst y). rec_id r' = i \<and> rec_legal_hold r'"
  using assms
proof (cases rule: rec_change.cases)
  case (advance P j rs f as)
  then have "P r \<Longrightarrow> row_step r (f r)" using assms(4) by simp
  then have "rec_id (if P r then f r else r) = i" "rec_legal_hold (if P r then f r else r)"
    using assms(5,6) row_step_same row_step_evolves by auto
  moreover have "(if P r then f r else r) \<in> set (fst y)" using advance assms(4) by (simp add: update_rows_def)
  ultimately show ?thesis by blast
next
  case (hold j h rs as)
  let ?g = "if rec_id r = j then r\<lparr>rec_legal_hold := h\<rparr> else r"
  have "?g \<in> set (fst y)" using hold assms(4) by (simp add: update_rows_def)
  moreover have "rec_id ?g = i" "rec_legal_hold ?g" using hold assms by auto
  ultimately show ?thesis by blast
next
  case (delete j rs as)
  then have "r \<in> set (fst y)" using assms by simp
  then show ?thesis using assms by blast
qed (use assms in \<open>auto\<close>)

definition rec_run :: "rec_label set \<Rightarrow> rec_state \<Rightarrow> rec_state \<Rightarrow> bool" where
  "rec_run L = (\<lambda>x y. \<exists>l \<in> L. rec_change l x y)\<^sup>*\<^sup>*"

lemma rec_run_refl [simp]: "rec_run L x x"
  by (simp add: rec_run_def)

lemma rec_run_trans: "rec_run L x y \<Longrightarrow> rec_run L y z \<Longrightarrow> rec_run L x z"
  unfolding rec_run_def by (rule rtranclp_trans)

lemma rec_run_step: "rec_change l x y \<Longrightarrow> l \<in> L \<Longrightarrow> rec_run L x y"
  unfolding rec_run_def by (blast intro: r_into_rtranclp)

lemma rec_run_mono: "rec_run L x y \<Longrightarrow> L \<subseteq> M \<Longrightarrow> rec_run M x y"
  unfolding rec_run_def by (erule rtranclp_mono[THEN predicate2D, rotated]) auto

lemma run_ok: "rec_run L x y \<Longrightarrow> data_ok x \<Longrightarrow> data_ok y"
  unfolding rec_run_def by (induction rule: rtranclp_induct) (auto dest: change_ok)

lemma run_origin: "rec_run L x y \<Longrightarrow> r' \<in> set (fst y) \<Longrightarrow> (\<exists>r \<in> set (fst x). row_evolves r r') \<or> LCreate (rec_id r') \<in> L"
  unfolding rec_run_def
proof (induction arbitrary: r' rule: rtranclp_induct)
  case base
  then show ?case using row_evolves_refl by blast
next
  case (step y z)
  from step.hyps(2) obtain l where l: "l \<in> L" "rec_change l y z" by blast
  from change_origin[OF l(2) step.prems] show ?case
  proof
    assume "\<exists>r \<in> set (fst y). row_evolves r r'"
    then obtain r1 where r1: "r1 \<in> set (fst y)" "row_evolves r1 r'" by blast
    have "rec_id r1 = rec_id r'" using r1(2) by (simp add: row_evolves_def same_recording_def)
    with step.IH[OF r1(1)] r1(2) show ?thesis by (auto intro: row_evolves_trans)
  qed (use l in simp)
qed

lemma run_keeps_held:
  assumes "rec_run L x y" "LDelete i \<notin> L" "LHold i False \<notin> L" "r \<in> set (fst x)" "rec_id r = i" "rec_legal_hold r"
  shows "\<exists>r' \<in> set (fst y). rec_id r' = i \<and> rec_legal_hold r'"
  using assms(1) unfolding rec_run_def
proof (induction rule: rtranclp_induct)
  case base
  then show ?case using assms by blast
next
  case (step y z)
  then obtain r1 where "r1 \<in> set (fst y)" "rec_id r1 = i" "rec_legal_hold r1" by blast
  moreover obtain l where "l \<in> L" "rec_change l y z" using step.hyps(2) by blast
  ultimately show ?case using change_keeps_held[of l y z i r1] assms(2,3) by blast
qed

section \<open>Statements\<close>

definition rec_data :: "recording_tables \<Rightarrow> rec_state" where
  "rec_data t = (rt_rows t, rt_artifacts t)"

definition runs :: "rec_label set \<Rightarrow> (recording_tables \<Rightarrow> recording_tables \<times> 'a result) \<Rightarrow> bool" where
  "runs L f \<longleftrightarrow> (\<forall>t. rec_run L (rec_data t) (rec_data (fst (f t))))"

named_theorems runs_intros

lemma next_answer_data [simp]: "rec_data (fst (next_answer t)) = rec_data t"
  by (simp add: next_answer_def rec_data_def split: list.split)

lemma next_answer_parts: "next_answer t = (t', e) \<Longrightarrow> rt_rows t' = rt_rows t \<and> rt_artifacts t' = rt_artifacts t"
  by (auto simp: next_answer_def split: list.splits)

lemma first_error_None:
  "first_error P f rs = None \<Longrightarrow> r \<in> set rs \<Longrightarrow> P r \<Longrightarrow> status_transition (rec_status r) (rec_status (f r)) \<and> recording_check (f r)"
  by (induction P f rs rule: first_error.induct) (auto simp: update_error_def split: if_splits option.splits)

lemma runs_query [runs_intros]: "runs L (rec_query msg f)"
  by (auto simp: runs_def rec_query_def rec_data_def split: prod.split option.split dest: next_answer_parts)

lemma runs_update:
  assumes "\<And>r. P r \<Longrightarrow> rec_id r = i" "LAdvance i \<in> L"
    "\<And>r. P r \<Longrightarrow> status_transition (rec_status r) (rec_status (f r)) \<Longrightarrow> recording_check (f r) \<Longrightarrow> row_step r (f r)"
  shows "runs L (update_recording msg P f)"
proof -
  have "rec_run L (rec_data t) (rec_data (fst (update_recording msg P f t)))" for t
  proof (cases "update_recording msg P f t")
    case (Pair t' r)
    consider "rec_data t' = rec_data t"
      | "first_error P f (rt_rows t) = None" "rec_data t' = (update_rows P f (rt_rows t), rt_artifacts t)"
      using Pair by (auto simp: update_recording_def rec_data_def split: prod.splits option.splits if_splits dest!: next_answer_parts)
    then show ?thesis
    proof cases
      case 2
      have "rec_change (LAdvance i) (rec_data t) (rec_data t')"
        unfolding 2(2) using assms(1,3) first_error_None[OF 2(1)] by (auto simp: rec_data_def intro!: rec_change.advance)
      then show ?thesis using Pair assms(2) by (auto intro: rec_run_step)
    qed (simp add: Pair)
  qed
  then show ?thesis by (simp add: runs_def)
qed

lemma runs_returning: "runs L (update_recording ''postgres: scan recording'' P f) \<Longrightarrow> runs L (update_returning P f)"
  by (auto simp: runs_def update_returning_def split: prod.split sum.split) (metis fst_conv)+

lemma runs_create [runs_intros]:
  assumes "LCreate (rec_id r) \<in> L" "rec_status r = RecordingRunning" "rec_attempts r = 0" "rec_stopped_at r = None"
  shows "runs L (pg_create_recording r)"
proof -
  have "rec_change (LCreate (rec_id r)) (rec_data t) (rt_rows t @ [r], rt_artifacts t)"
    if "recording_check r" "\<not> list_ex (\<lambda>x. rec_id x = rec_id r) (rt_rows t)" for t
    unfolding rec_data_def by (rule rec_change.create) (use assms that in \<open>auto simp: rec_row_ok_def list_ex_iff\<close>)
  then have "rec_run L (rec_data t) (rt_rows t @ [r], rt_artifacts t)"
    if "recording_check r" "\<not> list_ex (\<lambda>x. rec_id x = rec_id r) (rt_rows t)" for t
    using that assms(1) by (blast intro: rec_run_step)
  then show ?thesis
    by (auto simp: runs_def pg_create_recording_def rec_data_def split: prod.split option.split dest!: next_answer_parts)
qed

lemma runs_hold [runs_intros]:
  assumes "LHold i h \<in> L"
  shows "runs L (pg_set_legal_hold i h)"
proof -
  have "rec_run L (rec_data t) (update_rows (\<lambda>r. rec_id r = i) (\<lambda>r. r\<lparr>rec_legal_hold := h\<rparr>) (rt_rows t), rt_artifacts t)" for t
    unfolding rec_data_def by (rule rec_run_step[OF rec_change.hold assms])
  then show ?thesis
    by (auto simp: runs_def pg_set_legal_hold_def update_recording_def rec_data_def split: prod.split option.split dest!: next_answer_parts)
qed

lemma runs_delete [runs_intros]:
  assumes "LDelete i \<in> L"
  shows "runs L (pg_delete_recording i)"
proof -
  have "rec_run L (rec_data t) (filter (\<lambda>r. rec_id r \<noteq> i) (rt_rows t), filter (\<lambda>a. art_recording a \<noteq> i) (rt_artifacts t))" for t
    unfolding rec_data_def by (rule rec_run_step[OF rec_change.delete assms])
  then show ?thesis
    by (auto simp: runs_def pg_delete_recording_def rec_data_def split: prod.split option.split dest!: next_answer_parts)
qed

lemma runs_status [runs_intros]:
  assumes "LAdvance i \<in> L"
  shows "runs L (pg_mark_attempt i now)" "runs L (pg_mark_recording_failed i msg retry)" "runs L (pg_update_storage_tier i tier class now)"
    "runs L (pg_stop_recording i now)"
  unfolding pg_mark_attempt_def pg_mark_recording_failed_def pg_update_storage_tier_def pg_stop_recording_def
  by (intro runs_returning runs_update[where i = i] assms; auto simp: row_step_def same_recording_def recording_check_def fits_ready_def)+

lemma runs_set_ready [runs_intros]:
  assumes "LAdvance (rec_id x) \<in> L" "rec_path x \<noteq> []" "rec_file_size x = Some n" "0 < n"
  shows "runs L (pg_set_ready x now)"
  unfolding pg_set_ready_def
  by (rule runs_update[where i = "rec_id x"]) (use assms in \<open>auto simp: row_step_def same_recording_def recording_check_def fits_ready_def\<close>)

lemma runs_artifacts:
  assumes "LArtifacts \<in> L" "rt_rows t' = rt_rows t" "artifacts_ok (rt_rows t) (rt_artifacts t) \<Longrightarrow> artifacts_ok (rt_rows t) (rt_artifacts t')"
  shows "rec_run L (rec_data t) (rec_data t')"
  using assms rec_change.artifacts[of "rt_rows t" "rt_artifacts t" "rt_artifacts t'"] by (auto simp: rec_data_def intro: rec_run_step)

lemma artifacts_ok_insert:
  assumes "artifacts_ok (rt_rows t) (rt_artifacts t)" "artifact_error t a = None"
  shows "artifacts_ok (rt_rows t) (rt_artifacts t @ [a])"
proof -
  have "0 \<le> art_size a" "\<forall>x \<in> set (rt_artifacts t). art_id x \<noteq> art_id a \<and> art_path x \<noteq> art_path a"
      "\<exists>r \<in> set (rt_rows t). rec_id r = art_recording a"
    using assms(2) by (auto simp: artifact_error_def list_ex_iff split: if_splits)
  then show ?thesis using assms(1) by (force simp: artifacts_ok_def)
qed

lemma insert_artifacts_ok:
  "insert_artifacts as t = (t', r) \<Longrightarrow>
     rt_rows t' = rt_rows t \<and> (artifacts_ok (rt_rows t) (rt_artifacts t) \<longrightarrow> artifacts_ok (rt_rows t) (rt_artifacts t'))"
proof (induction as t arbitrary: t' r rule: insert_artifacts.induct)
  case (2 a as t)
  obtain t1 e where n: "next_answer t = (t1, e)" by (cases "next_answer t")
  note parts = next_answer_parts[OF n]
  show ?case
  proof (cases e)
    case None
    show ?thesis
    proof (cases "artifact_error t1 a")
      case err: None
      let ?t2 = "t1\<lparr>rt_artifacts := rt_artifacts t1 @ [a]\<rparr>"
      have "insert_artifacts as ?t2 = (t', r)" using 2(2) n None err by simp
      from 2(1)[OF n[symmetric] None err this] show ?thesis using parts artifacts_ok_insert[of t1 a] err by simp
    next
      case (Some x)
      with 2(2) n None parts show ?thesis by auto
    qed
  next
    case (Some x)
    with 2(2) n parts show ?thesis by auto
  qed
qed simp

lemma runs_replace_tx [runs_intros]:
  assumes "LArtifacts \<in> L"
  shows "runs L (replace_artifacts_tx i as)"
proof -
  have "rec_run L (rec_data t) (rec_data t')" if "replace_artifacts_tx i as t = (t', r)" for t t' r
    by (rule runs_artifacts[OF assms])
      (use that in \<open>auto simp: replace_artifacts_tx_def split: prod.splits option.splits dest!: next_answer_parts insert_artifacts_ok
        intro: artifacts_ok_filter\<close>)
  then show ?thesis by (simp add: runs_def) (metis prod.collapse)
qed

lemma runs_tx:
  assumes "runs L f"
  shows "runs L (tables_tx b c f)"
proof -
  have "rec_run L (rec_data t) (rec_data t')" if run: "tables_tx b c f t = (t', r)" for t t' r
  proof -
    obtain t1 e where n: "next_answer t = (t1, e)" by (cases "next_answer t")
    obtain t2 y where f: "f t1 = (t2, y)" by (cases "f t1")
    have "rec_data t1 = rec_data t" using next_answer_parts[OF n] by (simp add: rec_data_def)
    then have "rec_run L (rec_data t) (rec_data t2)" using assms f unfolding runs_def by (metis fst_conv)
    moreover have "rec_data t' \<in> {rec_data t, rec_data t2}"
      using run n f \<open>rec_data t1 = rec_data t\<close>
      by (auto simp: tables_tx_def rows_of_def rec_data_def split: option.splits sum.splits prod.splits dest!: next_answer_parts)
    ultimately show ?thesis by auto
  qed
  then show ?thesis unfolding runs_def by (metis prod.collapse)
qed

lemma runs_replace [runs_intros]: "LArtifacts \<in> L \<Longrightarrow> runs L (pg_replace_artifacts i as)"
  unfolding pg_replace_artifacts_def by (intro runs_tx runs_replace_tx)

lemma runs_artifact_tier [runs_intros]:
  assumes "LArtifacts \<in> L"
  shows "runs L (pg_update_artifact_tier i a tier class now)"
proof -
  have m: "artifacts_ok rs as \<Longrightarrow> artifacts_ok rs (update_rows P (\<lambda>x. x\<lparr>art_tier := tier, art_class := class, art_tier_updated := Some now\<rparr>) as)"
    for P rs as
    unfolding artifacts_ok_def by (subst (1 2) map_update_rows) (auto simp: update_rows_def)
  have "rec_run L (rec_data t) (rec_data t')" if "pg_update_artifact_tier i a tier class now t = (t', r)" for t t' r
    by (rule runs_artifacts[OF assms])
      (use that in \<open>auto simp: pg_update_artifact_tier_def Let_def split: prod.splits option.splits if_splits dest!: next_answer_parts intro: m\<close>)
  then show ?thesis by (simp add: runs_def) (metis prod.collapse)
qed

lemmas rec_query_defs = pg_get_recording_def pg_list_by_call_def pg_list_by_status_def pg_list_processable_def
  pg_list_expired_def pg_list_artifacts_def pg_get_artifact_def pg_storage_usage_def

lemma runs_queries [runs_intros]:
  "runs L (pg_get_recording i)" "runs L (pg_list_by_call i)" "runs L (pg_list_by_status st l q)" "runs L (pg_list_processable now l q)"
  "runs L (pg_list_expired now l q)" "runs L (pg_list_artifacts i)" "runs L (pg_get_artifact i a)" "runs L (pg_storage_usage i)"
  unfolding rec_query_defs by (rule runs_query)+

section \<open>Operations\<close>

text \<open>Worlds between which the tables changed as the labels say and no identifier was given back.\<close>

definition goes :: "rec_label set \<Rightarrow> rec_world \<Rightarrow> rec_world \<Rightarrow> bool" where
  "goes L w w' \<longleftrightarrow> rec_run L (rec_data (rw_recs w)) (rec_data (rw_recs w')) \<and> rw_next_id w \<le> rw_next_id w'"

definition moves :: "rec_label set \<Rightarrow> 'a rec_step \<Rightarrow> bool" where
  "moves L m \<longleftrightarrow> (\<forall>w. goes L w (fst (m w)))"

named_theorems moves_intros

lemma goes_refl [simp]: "goes L w w"
  by (simp add: goes_def)

lemma goes_trans [trans]: "goes L w w1 \<Longrightarrow> goes L w1 w2 \<Longrightarrow> goes L w w2"
  unfolding goes_def using rec_run_trans order_trans by blast

lemma movesD: "moves L m \<Longrightarrow> m w = (w', r) \<Longrightarrow> goes L w w'"
  by (metis moves_def fst_conv)

lemma movesI: "(\<And>w w' r. m w = (w', r) \<Longrightarrow> goes L w w') \<Longrightarrow> moves L m"
  unfolding moves_def by (metis prod.collapse)

lemma quiet_goes: "rw_recs w' = rw_recs w \<Longrightarrow> rw_next_id w' = rw_next_id w \<Longrightarrow> goes L w w'"
  by (simp add: goes_def)

lemma moves_and_then [moves_intros]: "moves L m \<Longrightarrow> (\<And>x. moves L (f x)) \<Longrightarrow> moves L (and_then m f)"
  by (rule movesI) (auto simp: and_then_def split: prod.splits sum.splits dest: movesD intro: goes_trans)

lemma moves_steps [moves_intros]:
  "moves L (return x)" "moves L (from_read f)" "moves L (guard b e)" "moves L (check g)" "moves L rec_clock" "moves L rec_new_id"
  "moves L (object_op h)" "moves L (capture_start i)" "moves L (capture_stop i)" "moves L (remove_spool s i)" "moves L (write_audit a)"
  "moves L (dispatch_ready s r)"
  by (auto intro!: movesI simp: return_def from_read_def guard_def fail_def check_def rec_clock_def rec_new_id_def object_op_def capture_start_def
      capture_stop_def remove_spool_def write_audit_def dispatch_ready_def Let_def goes_def split: if_splits prod.splits option.splits)

lemma moves_map_err [moves_intros]: "moves L m \<Longrightarrow> moves L (map_err g m)"
  by (rule movesI) (auto simp: map_err_def split: prod.splits sum.splits dest: movesD)

lemma moves_ignore_err [moves_intros]: "moves L m \<Longrightarrow> moves L (ignore_err m)"
  by (auto simp: moves_def ignore_err_def split: prod.splits)

lemma moves_if [moves_intros]: "moves L a \<Longrightarrow> moves L b \<Longrightarrow> moves L (if c then a else b)"
  by simp

lemma moves_tables [moves_intros]: "runs L f \<Longrightarrow> moves L (rec_tables f)"
  by (rule movesI) (auto simp: rec_tables_def runs_def goes_def split: prod.splits dest: spec[of _ "rw_recs _"], metis fst_conv)

lemma moves_at: "(\<And>v. moves L (rec_tables (f v))) \<Longrightarrow> moves L (\<lambda>x. rec_tables (f (rw_now x)) x)"
  by (simp add: moves_def)

lemma moves_retried [moves_intros]:
  assumes "moves L m"
  shows "moves L (retried s m)"
proof (rule movesI)
  fix w w' r
  assume "retried s m w = (w', r)"
  then have "case r of Ok v \<Rightarrow> \<exists>t. goes L w t \<and> m t = (w', Ok v) | Err e \<Rightarrow> goes L w w'"
    unfolding retried_def
    by (rule do_state_outcome[where I = "goes L w"]) (use movesD[OF assms] goes_trans in \<open>auto\<close>)
  then show "goes L w w'" using movesD[OF assms] by (auto split: sum.splits intro: goes_trans)
qed

lemma moves_tx [moves_intros]:
  assumes "moves L m"
  shows "moves L (rec_tx m)"
proof (rule movesI)
  fix w w' r
  assume run: "rec_tx m w = (w', r)"
  obtain t e where n: "next_answer (rw_recs w) = (t, e)" by (cases "next_answer (rw_recs w)")
  obtain w1 x where w1: "m (w\<lparr>rw_recs := t\<rparr>) = (w1, x)" by (cases "m (w\<lparr>rw_recs := t\<rparr>)")
  have 1: "goes L w (w\<lparr>rw_recs := t\<rparr>)" using next_answer_parts[OF n] by (simp add: goes_def rec_data_def)
  have 2: "goes L w w1" using goes_trans[OF 1 movesD[OF assms w1]] .
  have undone: "goes L w (rec_rolled_back w v)" if "rw_next_id w \<le> rw_next_id v" for v
    using that by (simp add: goes_def rec_rolled_back_def rows_of_def rec_data_def)
  have same: "goes L w (w1\<lparr>rw_recs := t1\<rparr>)" if "next_answer (rw_recs w1) = (t1, e1)" for t1 e1
    using 2 next_answer_parts[OF that] by (simp add: goes_def rec_data_def)
  have mono: "rw_next_id w \<le> rw_next_id w1" using 2 by (simp add: goes_def)
  show "goes L w w'"
  proof (cases e)
    case (Some y)
    then show ?thesis using run n 1 by (simp add: rec_tx_def)
  next
    case None
    note start = None
    show ?thesis
    proof (cases x)
      case (Inl y)
      then have "w' = rec_rolled_back w w1" using run n w1 start by (simp add: rec_tx_def)
      then show ?thesis using undone[OF mono] by simp
    next
      case (Inr y)
      obtain t1 e1 where n1: "next_answer (rw_recs w1) = (t1, e1)" by (cases "next_answer (rw_recs w1)")
      have "w' = rec_rolled_back w (w1\<lparr>rw_recs := t1\<rparr>) \<or> w' = w1\<lparr>rw_recs := t1\<rparr>"
        using run n w1 start Inr n1 by (cases e1) (simp_all add: rec_tx_def)
      then show ?thesis using undone[of "w1\<lparr>rw_recs := t1\<rparr>"] mono same[OF n1] by auto
    qed
  qed
qed

lemma moves_audit [moves_intros]: "moves L (create_audit_tx a b c d e f)" "moves L (log_audit s a b c d e f)"
  unfolding log_audit_def create_audit_tx_def by (intro moves_intros)+

lemma moves_quota [moves_intros]: "moves L (ensure_quota_available s x)" "moves L (ensure_quota_for s x as)"
  unfolding ensure_quota_available_def ensure_quota_for_def by (intro moves_intros runs_intros)+

lemma moves_fetch [moves_intros]: "moves L (fetch_recording x i)" "moves L (visible_recording s x i u)"
  unfolding visible_recording_def fetch_recording_def by (intro moves_intros runs_intros)+

lemma moves_store:
  assumes "LCreate (rec_id r) \<in> L" "rec_status r = RecordingRunning" "rec_attempts r = 0" "rec_stopped_at r = None"
  shows "moves L (store_recording s u r)"
proof (rule movesI)
  fix w w' x
  assume run: "store_recording s u r w = (w', x)"
  let ?m = "if re_tx s
    then rec_tx (and_then (rec_tables (pg_create_recording r)) (\<lambda>_. create_audit_tx (rec_workspace r) u ''recording.started'' ''recording''
      (re_uuid_text s (rec_id r)) (started_metadata s r)))
    else rec_tables (pg_create_recording r)"
  let ?log = "if re_tx s then return () else log_audit s (rec_workspace r) u ''recording.started'' ''recording'' (re_uuid_text s (rec_id r))
    (started_metadata s r)"
  have m: "moves L ?m" by (intro moves_intros runs_intros assms)
  obtain w1 y where w1: "?m w = (w1, y)" by (cases "?m w")
  have "moves L ?log" "moves L (capture_stop (rec_id r))" by (intro moves_intros)+
  then have after: "goes L w1 (fst (?log w1))" "goes L w1 (fst (capture_stop (rec_id r) w1))" unfolding moves_def by blast+
  have "w' = fst (?log w1) \<or> w' = fst (capture_stop (rec_id r) w1)"
    using run w1 unfolding store_recording_def Let_def by (cases y) auto
  then show "goes L w w'" using goes_trans[OF movesD[OF m w1]] after by blast
qed

text \<open>Identifiers that are given out between two worlds.\<close>

definition minted :: "rec_world \<Rightarrow> rec_world \<Rightarrow> rec_label set" where
  "minted w w' = {LCreate j | j. rw_next_id w \<le> j \<and> j < rw_next_id w'}"

definition mints :: "'a rec_step \<Rightarrow> bool" where
  "mints m \<longleftrightarrow> (\<forall>w. goes (minted w (fst (m w))) w (fst (m w)))"

lemma goes_mono: "goes L w w' \<Longrightarrow> L \<subseteq> M \<Longrightarrow> goes M w w'"
  unfolding goes_def using rec_run_mono by blast

lemma mints_quiet: "moves {} m \<Longrightarrow> mints m"
  unfolding mints_def moves_def using goes_mono by blast

lemma mints_and_then:
  assumes "moves {} m" "\<And>x. mints (f x)"
  shows "mints (and_then m f)"
proof -
  have "goes (minted w w') w w'" if "and_then m f w = (w', r)" for w w' r
  proof -
    obtain w1 x where w1: "m w = (w1, x)" by (cases "m w")
    have 1: "goes {} w w1" by (rule movesD[OF assms(1) w1])
    show ?thesis
    proof (cases x)
      case (Inl e)
      with that w1 1 show ?thesis using goes_mono by (auto simp: and_then_def)
    next
      case (Inr y)
      then have "f y w1 = (w', r)" using that w1 by (simp add: and_then_def)
      then have "goes (minted w1 w') w1 w'" using assms(2)[of y] unfolding mints_def by (metis fst_conv)
      moreover have "minted w1 w' \<subseteq> minted w w'" using 1 by (auto simp: minted_def goes_def)
      moreover have "goes (minted w w') w w1" using 1 goes_mono by blast
      ultimately show ?thesis by (blast intro: goes_trans goes_mono)
    qed
  qed
  then show ?thesis unfolding mints_def by (metis prod.collapse)
qed

lemma mints_new:
  assumes "\<And>j. moves {LCreate j} (f j)"
  shows "mints (and_then rec_new_id f)"
proof -
  have "goes (minted w w') w w'" if "and_then rec_new_id f w = (w', r)" for w w' r
  proof -
    let ?w1 = "w\<lparr>rw_next_id := rw_next_id w + 1\<rparr>"
    have "f (rw_next_id w) ?w1 = (w', r)" using that by (simp add: and_then_def rec_new_id_def)
    then have g: "goes {LCreate (rw_next_id w)} ?w1 w'" by (rule movesD[OF assms])
    then have "LCreate (rw_next_id w) \<in> minted w w'" by (simp add: goes_def minted_def)
    then have "goes (minted w w') ?w1 w'" using g by (intro goes_mono[OF g]) auto
    moreover have "goes (minted w w') w ?w1" by (simp add: goes_def)
    ultimately show ?thesis by (rule goes_trans[rotated])
  qed
  then show ?thesis unfolding mints_def by (metis prod.collapse)
qed

lemma mints_start: "mints (start_recording s x i u asked)"
  unfolding start_recording_def Let_def
  by ((rule mints_new | (rule mints_and_then, (intro moves_intros runs_intros; fail)[1])),
      (intro moves_intros runs_intros moves_store; simp add: new_recording_def)?)+

lemma moves_stop: "LAdvance i \<in> L \<Longrightarrow> moves L (stop_recording s x i u)"
  unfolding stop_recording_def Let_def by (intro moves_intros runs_intros)

lemma moves_auto_stop: "LAdvance i \<in> L \<Longrightarrow> moves L (auto_stop_on_room_close s i)"
proof (rule movesI)
  fix w w' r
  assume i: "LAdvance i \<in> L" and run: "auto_stop_on_room_close s i w = (w', r)"
  have q: "moves L (rec_tables (pg_get_recording i))" "moves L (capture_stop i)" by (intro moves_intros runs_intros)+
  have p: "moves L (rec_tables (pg_stop_recording i now))" for now using i by (intro moves_intros runs_intros)
  have g: "goes L v (fst (rec_tables (pg_stop_recording i now) v))" for v now using p by (simp add: moves_def)
  from run show "goes L w w'"
    by (auto simp: auto_stop_on_room_close_def split: if_splits prod.splits sum.splits dest!: movesD[OF q(1)] movesD[OF q(2)]
        intro: goes_trans g)
qed

lemma moves_set_hold: "LHold i h \<in> L \<Longrightarrow> moves L (set_legal_hold i h)"
  unfolding set_legal_hold_def by (intro moves_intros runs_intros)

lemma moves_reads [moves_intros]:
  "moves L (get_recording s x i u)" "moves L (list_recordings s x c u)" "moves L (list_artifacts s x i u)"
  "moves L (downloadable_artifact s x i a u)" "moves L (download_artifact s x i a u)"
  unfolding download_artifact_def downloadable_artifact_def get_recording_def list_recordings_def list_artifacts_def
  by (intro moves_intros runs_intros)+

lemma moves_presign: "moves L (presign_artifact_download s x i a u)"
proof -
  have "moves L (\<lambda>w. case f w of Err e \<Rightarrow> if b e then (w, Ok ([], None)) else (w, Err (g e)) | Ok url \<Rightarrow> k url w)"
    if "\<And>url. moves L (k url)" for f b g k
    using that by (auto simp: moves_def split: sum.split)
  note sign = this
  show ?thesis
    unfolding presign_artifact_download_def
    by (auto split: option.split intro!: moves_intros sign)
qed

section \<open>Workers\<close>

definition advancing :: "rec_label set" where
  "advancing = insert LArtifacts (range LAdvance)"

lemma advancing_simps [simp]: "LAdvance i \<in> advancing" "LArtifacts \<in> advancing" "LCreate i \<notin> advancing" "LDelete i \<notin> advancing" "LHold i h \<notin> advancing"
  by (auto simp: advancing_def)

lemma moves_delete_uploaded [moves_intros]: "moves L (delete_uploaded s as)"
proof -
  have "moves L (delete_uploaded_loop s seen as)" for seen
    by (induction s seen as rule: delete_uploaded_loop.induct) (simp_all add: moves_intros)
  then show ?thesis by (simp add: delete_uploaded_def)
qed

lemma goes_moves: "moves L m \<Longrightarrow> goes L w (fst (m w))"
  by (simp add: moves_def)

lemma goes_fail: "goes advancing w (fst (fail_attempt s r cause rep w))"
  unfolding fail_attempt_def handle_processing_failure_def by (simp, intro goes_moves moves_intros runs_intros) simp

lemma moves_finalize:
  assumes "rec_path r \<noteq> []" "rec_file_size r = Some n" "0 < n"
  shows "moves advancing (finalize_ready s r as)"
proof -
  have "moves advancing (\<lambda>w. if b then rec_tx (and_then (rec_tables (replace_artifacts_tx (rec_id r) as)) (\<lambda>_. rec_tables (pg_set_ready r (rw_now w)))) w
      else and_then (rec_tables (pg_replace_artifacts (rec_id r) as)) (\<lambda>_. rec_tables (pg_set_ready r (rw_now w))) w)" for b
  proof -
    have "moves advancing (rec_tx (and_then (rec_tables (replace_artifacts_tx (rec_id r) as)) (\<lambda>_. rec_tables (pg_set_ready r now))))"
      "moves advancing (and_then (rec_tables (pg_replace_artifacts (rec_id r) as)) (\<lambda>_. rec_tables (pg_set_ready r now)))" for now
      by (intro moves_intros runs_intros; use assms in simp)+
    then show ?thesis unfolding moves_def by simp
  qed
  then show ?thesis unfolding finalize_ready_def by (simp add: moves_def)
qed

lemma goes_publish:
  assumes "pr_path p \<noteq> []" "0 < pr_size p"
  shows "goes advancing w (fst (publish_processed s r p w))"
proof -
  let ?p = "apply_storage_tier s TierHot (rw_now w) p"
  let ?r = "ready_recording r ?p (rw_now w)"
  let ?f = "retried s (finalize_ready s ?r (pr_artifacts ?p))"
  obtain w1 x where w1: "?f w = (w1, x)" by (cases "?f w")
  have "moves advancing ?f"
    by (intro moves_intros moves_finalize[where n = "pr_size p"]) (use assms in \<open>simp_all add: ready_recording_def apply_storage_tier_def Let_def\<close>)
  then have 1: "goes advancing w w1" using w1 by (rule movesD)
  show ?thesis
  proof (cases x)
    case (Inl e)
    let ?w2 = "fst (delete_uploaded s (pr_artifacts ?p) w1)"
    let ?w3 = "if re_tx s then ?w2 else fst (retried s (rec_tables (pg_replace_artifacts (rec_id r) [])) ?w2)"
    have "goes advancing w1 ?w2" by (intro goes_moves moves_intros)
    then have a: "goes advancing w ?w2" by (rule goes_trans[OF 1])
    have b: "goes advancing ?w2 (fst (retried s (rec_tables (pg_replace_artifacts (rec_id r) [])) ?w2))"
      by (intro goes_moves moves_intros runs_intros) simp
    have 2: "goes advancing w ?w3" by (cases "re_tx s") (simp_all only: if_True if_False a goes_trans[OF a b])
    have "fst (publish_processed s r p w) = fst (fail_attempt s ?r e (Some e) ?w3)"
      unfolding publish_processed_def Let_def using w1 Inl by simp
    then show ?thesis using goes_trans[OF 2 goes_fail] by simp
  next
    case (Inr u)
    let ?w2 = "fst (dispatch_ready s ?r w1)"
    have "goes advancing w1 ?w2" "goes advancing ?w2 (fst (remove_spool s (rec_id r) ?w2))" by (intro goes_moves moves_intros)+
    moreover have "fst (publish_processed s r p w) = fst (remove_spool s (rec_id r) ?w2)"
      unfolding publish_processed_def Let_def using w1 Inr by simp
    ultimately show ?thesis using 1 goes_trans by metis
  qed
qed

lemma goes_attempt: "goes advancing w (fst (process_attempt s f r w))"
proof -
  obtain w1 x where w1: "run_processor f r w = (w1, x)" by (cases "run_processor f r w")
  have 1: "goes advancing w w1" using w1 by (auto simp: run_processor_def intro: quiet_goes split: prod.splits)
  consider (fail) c rep where "process_attempt s f r w = fail_attempt s r c rep w1"
    | (quota) p where "x = Ok (Some p)" "pr_path p \<noteq> []" "0 < pr_size p"
        "process_attempt s f r w = (case ensure_quota_for s (rec_workspace r) (pr_artifacts p) w1 of
          (w2, Err e) \<Rightarrow> fail_attempt s r e (Some e) (fst (delete_uploaded s (pr_artifacts p) w2))
        | (w2, Ok u) \<Rightarrow> publish_processed s r p w2)"
  proof (cases "\<exists>p. x = Ok (Some p) \<and> pr_path p \<noteq> [] \<and> 0 < pr_size p")
    case True
    then show ?thesis using quota w1 by (auto simp: process_attempt_def)
  next
    case False
    then show ?thesis
      using fail w1 by (cases x; cases "projr x") (auto simp: process_attempt_def split: option.splits if_splits sum.splits)
  qed
  then show ?thesis
  proof cases
    case fail
    then show ?thesis using goes_trans[OF 1 goes_fail] by simp
  next
    case (quota p)
    let ?q = "ensure_quota_for s (rec_workspace r) (pr_artifacts p)"
    obtain w2 y where w2: "?q w1 = (w2, y)" by (cases "?q w1")
    have q: "moves advancing ?q" by (intro moves_intros)
    have 2: "goes advancing w w2" using goes_trans[OF 1 movesD[OF q w2]] .
    show ?thesis
    proof (cases y)
      case (Inl e)
      have "goes advancing w2 (fst (delete_uploaded s (pr_artifacts p) w2))" by (intro goes_moves moves_intros)
      with 2 quota(4) w2 Inl show ?thesis using goes_trans goes_fail by (metis (no_types, lifting) case_prod_conv old.sum.simps(5))
    next
      case (Inr u)
      with 2 quota w2 show ?thesis using goes_trans[OF 2 goes_publish] by simp
    qed
  qed
qed

lemma goes_process_list: "goes advancing w (fst (process_recordings s f rs n first w))"
proof (induction rs arbitrary: n first w)
  case (Cons r rs)
  let ?m = "retried s (\<lambda>x. rec_tables (pg_mark_attempt (rec_id r) (rw_now x)) x)"
  obtain w1 x where w1: "?m w = (w1, x)" by (cases "?m w")
  have "moves advancing ?m" by (rule moves_retried, rule moves_at, intro moves_tables runs_intros) simp
  then have 1: "goes advancing w w1" using w1 by (rule movesD)
  have rest: "goes advancing w (fst (process_recordings s f rs k g v))" if "goes advancing w v" for k g v
    using goes_trans[OF that Cons.IH] .
  show ?case
  proof (cases x)
    case (Inl e)
    then show ?thesis using w1 rest[OF 1] by simp
  next
    case (Inr marked)
    obtain w2 y where w2: "process_attempt s f marked w1 = (w2, y)" by (cases "process_attempt s f marked w1")
    then have "goes advancing w1 w2" using goes_attempt[of w1 s f marked] by simp
    then show ?thesis using w1 w2 Inr rest[OF goes_trans[OF 1]] by (cases y) simp_all
  qed
qed simp

lemma goes_process: "goes advancing w (fst (process_pending_recordings s limit w))"
proof -
  let ?m = "retried s (\<lambda>x. rec_tables (pg_list_processable (rw_now x) (batch_limit limit) 0) x)"
  have m: "moves advancing ?m" by (rule moves_retried, rule moves_at, intro moves_tables runs_intros)
  obtain w1 x where w1: "?m w = (w1, x)" by (cases "?m w")
  have "goes advancing w (fst (process_recordings s f rs no_stats None w1))" for f rs
    using goes_trans[OF movesD[OF m w1] goes_process_list] .
  then show ?thesis
    using movesD[OF m w1] w1 by (cases x) (simp_all add: process_pending_recordings_def split: option.split)
qed

lemma moves_transition_objects [moves_intros]: "moves L (transition_objects s cls seen ks)"
  by (induction s cls seen ks rule: transition_objects.induct) (simp_all add: moves_intros)

lemma moves_artifact_tiers [moves_intros]: "LArtifacts \<in> L \<Longrightarrow> moves L (update_artifact_tiers i tier cls now as)"
proof (induction as)
  case (Cons a as)
  then show ?case unfolding update_artifact_tiers.simps by (intro moves_intros runs_intros)
qed (simp add: moves_steps)

lemma moves_transition [moves_intros]: "moves advancing (transition_recording_tier s classes r tier now)"
  unfolding transition_recording_tier_def by (intro moves_intros runs_intros) simp_all

lemma goes_transition_list: "goes advancing w (fst (transition_recordings s classes now rs n w))"
proof (induction s classes now rs n w rule: transition_recordings.induct)
  case (2 s classes now r rs n w)
  obtain w1 x where w1: "transition_recording_tier s classes r (target_tier s now r) now w = (w1, x)"
    by (cases "transition_recording_tier s classes r (target_tier s now r) now w")
  have 1: "goes advancing w w1" using w1 by (rule movesD[OF moves_transition])
  show ?case using 2 w1 goes_trans[OF 1] by (cases x) auto
qed simp

lemma goes_lifecycle: "goes advancing w (fst (transition_storage_lifecycle s now limit w))"
proof -
  let ?m = "retried s (rec_tables (pg_list_by_status RecordingReady (batch_limit limit) 0))"
  have m: "moves advancing ?m" by (intro moves_intros runs_intros)
  obtain w1 x where w1: "?m w = (w1, x)" by (cases "?m w")
  have "goes advancing w (fst (case transition_recordings s c now rs no_stats w1 of (w2, n) \<Rightarrow> (w2, n, None)))" for c rs
    using goes_trans[OF movesD[OF m w1] goes_transition_list[of w1 s c now rs no_stats]]
    by (cases "transition_recordings s c now rs no_stats w1") simp
  then show ?thesis
    using movesD[OF m w1] w1 by (auto simp: transition_storage_lifecycle_def split: option.split sum.split)
qed

end
