(* ===== verification/RecordingProps.thy ===== *)
theory RecordingProps
  imports RecordingSpec
begin

text \<open>
  Properties of recordings: what holds along every history of requests, room closings and worker runs, in which the
  statements of the cleanup are steps of their own, and what a legal hold protects.
\<close>

section \<open>Histories\<close>

datatype rec_op =
    RecStart uuid uuid uuid "recording_strategy option"
  | RecStop uuid uuid uuid
  | RecRoomClosed uuid
  | RecHold uuid bool
  | RecProcess int
  | RecTransition instant int
  | RecGet uuid uuid uuid
  | RecDownload uuid uuid uuid uuid
  | RecPresign uuid uuid uuid uuid

fun rec_do :: "recording_service \<Rightarrow> rec_op \<Rightarrow> rec_world \<Rightarrow> rec_world" where
  "rec_do s (RecStart x i u asked) w = fst (start_recording s x i u asked w)"
| "rec_do s (RecStop x i u) w = fst (stop_recording s x i u w)"
| "rec_do s (RecRoomClosed i) w = fst (auto_stop_on_room_close s i w)"
| "rec_do s (RecHold i h) w = fst (set_legal_hold i h w)"
| "rec_do s (RecProcess limit) w = fst (process_pending_recordings s limit w)"
| "rec_do s (RecTransition now limit) w = fst (transition_storage_lifecycle s now limit w)"
| "rec_do s (RecGet x i u) w = fst (get_recording s x i u w)"
| "rec_do s (RecDownload x i a u) w = fst (download_artifact s x i a u w)"
| "rec_do s (RecPresign x i a u) w = fst (presign_artifact_download s x i a u w)"

text \<open>
  The cleanup of expired recordings does not run at once: each of its statements is a step of a history, and other
  operations act between them. The rows on the pages it has read and not yet dealt with are in flight. A retried
  statement is one that is repeated.
\<close>

inductive cleanup_step :: "recording_service \<Rightarrow> rec_world \<times> recording list \<Rightarrow> rec_world \<times> recording list \<Rightarrow> bool" for s where
  page_read: "rec_tables (pg_list_expired now (batch_limit limit) 0) w = (w', Ok rs) \<Longrightarrow> cleanup_step s (w, P) (w', rs @ P)"
| page_failed: "rec_tables (pg_list_expired now (batch_limit limit) 0) w = (w', Err e) \<Longrightarrow> cleanup_step s (w, P) (w', P)"
| artifacts_read: "r \<in> set P \<Longrightarrow> rec_tables (pg_list_artifacts (rec_id r)) w = (w', x) \<Longrightarrow> cleanup_step s (w, P) (w', P)"
| object_deleted: "r \<in> set P \<Longrightarrow> object_op (delete_object k) w = (w', x) \<Longrightarrow> cleanup_step s (w, P) (w', P)"
| row_deleted: "r \<in> set P \<Longrightarrow> rec_tables (pg_delete_recording (rec_id r)) w = (w', x) \<Longrightarrow> cleanup_step s (w, P) (w', P)"
| spool_removed: "r \<in> set P \<Longrightarrow> cleanup_step s (w, P) (fst (remove_spool s (rec_id r) w), P)"
| page_left: "set Q \<subseteq> set P \<Longrightarrow> cleanup_step s (w, P) (w, Q)"

text \<open>Between two steps anything but the tables of recordings may change, and no identifier is given back.\<close>

inductive rec_history ::
  "recording_service \<Rightarrow> rec_world \<times> recording list \<Rightarrow> rec_op list \<Rightarrow> rec_world \<times> recording list \<Rightarrow> bool" for s st where
  start: "rec_history s st [] st"
| op: "rec_history s st ops (w1, P) \<Longrightarrow> rec_history s st (ops @ [a]) (rec_do s a w1, P)"
| cleanup: "rec_history s st ops (w1, P) \<Longrightarrow> cleanup_step s (w1, P) (w2, Q) \<Longrightarrow> rec_history s st ops (w2, Q)"
| other: "rec_history s st ops (w1, P) \<Longrightarrow> rec_data (rw_recs w2) = rec_data (rw_recs w1) \<Longrightarrow> rw_next_id w1 \<le> rw_next_id w2 \<Longrightarrow>
    rec_history s st ops (w2, P)"

definition well_formed :: "rec_world \<Rightarrow> bool" where
  "well_formed w \<longleftrightarrow> recordings_ok (rw_recs w) \<and> (\<forall>r \<in> set (rt_rows (rw_recs w)). rec_id r < rw_next_id w)"

lemma recordings_ok_data: "recordings_ok t = data_ok (rec_data t)"
  by (simp add: recordings_ok_def data_ok_def rec_data_def)

section \<open>A call that is recorded\<close>

definition rec_sample_processor :: "recording \<Rightarrow> rec_world \<Rightarrow> object_store \<times> processed_recording option result" where
  "rec_sample_processor r w =
     ((rw_objects w)\<lparr>os_keys := os_keys (rw_objects w) @ [''p'']\<rparr>,
      Ok (Some \<lparr>pr_format = FormatMP4, pr_path = ''p'', pr_tier = TierHot, pr_class = [], pr_size = 40, pr_duration = 9, pr_sha256 = ''h'',
        pr_downloadable = True, pr_metadata = [],
        pr_artifacts = [\<lparr>art_id = 77, art_recording = rec_id r, art_workspace = rec_workspace r, art_kind = KindComposite,
          art_source_user = None, art_track = [], art_stream = [], art_layer = [], art_codec = [], art_mime = ''video/mp4'',
          art_format = ''mp4'', art_path = ''p'', art_tier = TierHot, art_class = [], art_size = 40, art_sha256 = ''h'',
          art_packets = 5, art_duration = Some 9, art_downloadable = True, art_metadata = [], art_tier_updated = None,
          art_created_at = rw_now w\<rparr>]\<rparr>))"

definition rec_sample_service :: recording_service where
  "rec_sample_service =
     \<lparr>re_tx = True, re_audit = True, re_capture = True, re_rooms = True, re_workspaces = True, re_call_access = None,
      re_tiers = Some (\<lambda>t. case t of TierHot \<Rightarrow> ''hot'' | TierWarm \<Rightarrow> ''warm'' | TierArchive \<Rightarrow> ''cold''), re_sign = None, re_hook = None,
      re_processor = Some rec_sample_processor, re_saturated = (\<lambda>_. False), re_ctx_err = (\<lambda>_. None),
      re_ctx_done = (\<lambda>_ _. None), re_quota = 100, re_max_attempts = 2, re_retry_backoff = second, re_op_timeout = second,
      re_url_ttl = second, re_retention = 5 * second, re_warm_after = second, re_archive_after = 2 * second, re_spool_base = ''s'',
      re_uuid_text = (\<lambda>i. replicate i CHR ''x''), re_not_found = PlainError ''no object'', re_not_supported = PlainError ''no url''\<rparr>"

text \<open>User 3 hosts the call 2 of workspace 1.\<close>

definition rec_sample :: rec_world where
  "rec_sample =
     \<lparr>rw_db = empty_db,
      rw_calls = \<lparr>ct_calls = [\<lparr>ca_id = 2, ca_workspace = 1, ca_channel = None, ca_meeting_channel = None, ca_type = CallTypeMeeting,
          ca_access_mode = CallAccessModeLink, ca_status = CallStatusActive, ca_title = [], ca_created_by = 3,
          ca_settings = \<lparr>se_waiting_room = False, se_mute_on_join = False, se_recording = True, se_screen_sharing = True,
            se_chat = True, se_breakout_rooms = False, se_locked = False, se_max_participants = 0, se_e2ee = False,
            se_watermark = False\<rparr>, ca_started_at = Some 0, ca_ended_at = None, ca_created_at = 0\<rparr>],
        ct_participants = [\<lparr>pa_id = 4, pa_call = 2, pa_principal = PrincipalUser, pa_user = 3, pa_guest = None, pa_name = ''Ann'',
          pa_breakout = None, pa_role = CallRoleHost, pa_status = ParticipantConnected, pa_audio_muted = True,
          pa_video_muted = True, pa_screen_sharing = False, pa_joined_at = Some 0, pa_left_at = None\<rparr>],
        ct_breakouts = [], ct_fault = (\<lambda>_ _. None)\<rparr>,
      rw_recs = \<lparr>rt_rows = [], rt_artifacts = [], rt_steps = []\<rparr>, rw_audit = \<lparr>al_entries = [], al_fault = None\<rparr>,
      rw_objects = \<lparr>os_keys = [''q''], os_classes = [], os_steps = []\<rparr>, rw_capture = \<lparr>cp_sessions = [], cp_steps = []\<rparr>, rw_spools = [],
      rw_sfu = \<lparr>sf_max_rooms = 9, sf_rooms = [(''xx'', new_room ''xx'' \<lparr>ro_presenters = 2, ro_viewers = 3, ro_tracks = 1, ro_simulcast = True,
        ro_recording = True, ro_adaptive = zero_options\<rparr>)]\<rparr>,
      rw_hooks = [], rw_now = second, rw_next_id = 10\<rparr>"

text \<open>The recording 10 is started, stopped, processed and put under hold.\<close>

definition rec_sample_started :: rec_world where
  "rec_sample_started = rec_do rec_sample_service (RecStart 1 2 3 None) rec_sample"

definition rec_sample_stopped :: rec_world where
  "rec_sample_stopped = rec_do rec_sample_service (RecStop 1 10 3) rec_sample_started"

definition rec_sample_ready :: rec_world where
  "rec_sample_ready = rec_do rec_sample_service (RecProcess 5) rec_sample_stopped"

definition rec_sample_held :: rec_world where
  "rec_sample_held = rec_do rec_sample_service (RecHold 10 True) rec_sample_ready"

lemma rec_sample_facts:
  "let a = rt_rows (rw_recs rec_sample_started); b = rt_rows (rw_recs rec_sample_ready); c = rt_rows (rw_recs rec_sample_held) in
   a \<noteq> [] \<and> b \<noteq> [] \<and> c \<noteq> [] \<and> rec_id (hd b) = rec_id (hd a) \<and> rec_status (hd a) = RecordingRunning \<and> rec_attempts (hd b) = 1 \<and>
   map rec_status b = [RecordingReady] \<and> map art_path (rt_artifacts (rw_recs rec_sample_ready)) = [''p''] \<and> rec_legal_hold (hd c)"
  by code_simp

lemma rec_sample_histories:
  "rec_history rec_sample_service (rec_sample, []) [RecStart 1 2 3 None] (rec_sample_started, [])"
  "rec_history rec_sample_service (rec_sample_started, []) [RecStop 1 10 3, RecProcess 5] (rec_sample_ready, [])"
  "rec_history rec_sample_service (rec_sample, []) [RecStart 1 2 3 None, RecStop 1 10 3, RecProcess 5] (rec_sample_ready, [])"
  unfolding rec_sample_ready_def rec_sample_stopped_def rec_sample_started_def
  using rec_history.op[OF rec_history.start, of rec_sample_service rec_sample "[]" "RecStart 1 2 3 None"]
    rec_history.op[OF rec_history.op[OF rec_history.start], of rec_sample_service
      "rec_do rec_sample_service (RecStart 1 2 3 None) rec_sample" "[]" "RecStop 1 10 3" "RecProcess 5"]
    rec_history.op[OF rec_history.op[OF rec_history.op[OF rec_history.start]], of rec_sample_service rec_sample "[]"
      "RecStart 1 2 3 None" "RecStop 1 10 3" "RecProcess 5"]
  by simp_all

section \<open>Labels of the operations\<close>

lemma listed_in_rows: "set (rec_page l q (sort_key k rows)) \<subseteq> set rows"
  by (auto simp: rec_page_def dest!: in_set_takeD in_set_dropD)

lemma expired_listed:
  assumes "retried s (rec_tables (pg_list_expired now l 0)) w = (w', Ok rs)"
  shows "rec_data (rw_recs w') = rec_data (rw_recs w) \<and>
    rs = rec_page l 0 (sort_key (\<lambda>r. case rec_expires_at r of None \<Rightarrow> 0 | Some x \<Rightarrow> x) (filter (expired_recording now) (rt_rows (rw_recs w))))"
proof -
  let ?m = "rec_tables (pg_list_expired now l 0)"
  have q: "rec_data (rw_recs v') = rec_data (rw_recs v)" if "?m v = (v', x)" for v v' x
    using that by (auto simp: rec_tables_def pg_list_expired_def rec_query_def rec_data_def split: prod.splits option.splits dest!: next_answer_parts)
  have "case Ok rs :: recording list result of Ok v \<Rightarrow> \<exists>t. rec_data (rw_recs t) = rec_data (rw_recs w) \<and> ?m t = (w', Ok v)
      | Err e \<Rightarrow> rec_data (rw_recs w') = rec_data (rw_recs w)"
    using assms unfolding retried_def
    by (rule do_state_outcome[where I = "\<lambda>t. rec_data (rw_recs t) = rec_data (rw_recs w)"]) (auto dest: q)
  then obtain t where t: "rec_data (rw_recs t) = rec_data (rw_recs w)" "?m t = (w', Ok rs)" by auto
  then have "rs = rec_page l 0 (sort_key (\<lambda>r. case rec_expires_at r of None \<Rightarrow> 0 | Some x \<Rightarrow> x) (filter (expired_recording now) (rt_rows (rw_recs t))))"
    by (auto simp: rec_tables_def pg_list_expired_def rec_query_def split: prod.splits option.splits dest!: next_answer_parts)
  then show ?thesis using t q[OF t(2)] by (simp add: rec_data_def)
qed

text \<open>A run of the cleanup that nothing interrupts is a history of its statements.\<close>

lemma cleanup_history:
  "rec_history s st ops (w, P) \<Longrightarrow> cleanup_step s (w, P) (w', Q) \<Longrightarrow> rec_history s st ops (w', Q)"
  by (rule rec_history.cleanup)

lemma retried_history:
  assumes "retried s m w = (w', x)" "rec_history s st ops (w, P)"
    and "\<And>v v' y. m v = (v', y) \<Longrightarrow> cleanup_step s (v, P) (v', P)"
  shows "rec_history s st ops (w', P)"
proof -
  have step: "rec_history s st ops (v', P)" if "rec_history s st ops (v, P)" "m v = (v', y)" for v v' y
    by (rule rec_history.cleanup[OF that(1) assms(3)[OF that(2)]])
  have out: "case x of Ok v \<Rightarrow> \<exists>t. rec_history s st ops (t, P) \<and> m t = (w', Ok v) | Err e \<Rightarrow> rec_history s st ops (w', P)"
    using assms(1) unfolding retried_def
    by (rule do_state_outcome[where I = "\<lambda>t. rec_history s st ops (t, P)"]) (use assms(2) step in blast)+
  show ?thesis
  proof (cases x)
    case (Inr v)
    then obtain t where "rec_history s st ops (t, P)" "m t = (w', Ok v)" using out by auto
    then show ?thesis by (rule step)
  qed (use out in simp)
qed

lemma delete_objects_history:
  "delete_objects s ks w = (w', x) \<Longrightarrow> rec_history s st ops (w, P) \<Longrightarrow> r \<in> set P \<Longrightarrow> rec_history s st ops (w', P)"
proof (induction ks arbitrary: w)
  case (Cons k ks)
  obtain w1 y where w1: "retried s (object_op (delete_object k)) w = (w1, y)" by fastforce
  have "rec_history s st ops (w1, P)"
    using w1 Cons.prems(2) by (rule retried_history) (rule object_deleted[OF Cons.prems(3)])
  then show ?case using Cons w1 by (cases y) (auto simp: and_then_def)
qed (simp add: return_def)

lemma cleanup_recording_history:
  assumes "cleanup_recording s r w = (w', x)" "rec_history s st ops (w, P)" "r \<in> set P"
  shows "rec_history s st ops (w', P)"
proof -
  obtain w1 y1 where w1: "retried s (rec_tables (pg_list_artifacts (rec_id r))) w = (w1, y1)" by fastforce
  have h1: "rec_history s st ops (w1, P)" using w1 assms(2) by (rule retried_history) (rule artifacts_read[OF assms(3)])
  show ?thesis
  proof (cases y1)
    case (Inl e)
    then show ?thesis using assms(1) w1 h1 by (auto simp: cleanup_recording_def and_then_def map_err_def)
  next
    case (Inr as)
    obtain w2 y2 where w2: "delete_objects s (object_paths r as) w1 = (w2, y2)" by fastforce
    have h2: "rec_history s st ops (w2, P)" using w2 h1 assms(3) by (rule delete_objects_history)
    obtain w3 y3 where w3: "retried s (rec_tables (pg_delete_recording (rec_id r))) w2 = (w3, y3)" by fastforce
    have h3: "rec_history s st ops (w3, P)" using w3 h2 by (rule retried_history) (rule row_deleted[OF assms(3)])
    have "rec_history s st ops (fst (remove_spool s (rec_id r) w3), P)" by (rule cleanup_history[OF h3 spool_removed[OF assms(3)]])
    moreover have "w' \<in> {w2, w3, fst (remove_spool s (rec_id r) w3)}"
      using assms(1) w1 Inr w2 w3 by (cases y2; cases y3) (auto simp: cleanup_recording_def and_then_def map_err_def)
    ultimately show ?thesis using h2 h3 by auto
  qed
qed

lemma cleanup_recordings_history:
  "cleanup_recordings s rs n w = (w', m, e) \<Longrightarrow> rec_history s st ops (w, P) \<Longrightarrow> set rs \<subseteq> set P \<Longrightarrow> rec_history s st ops (w', P)"
proof (induction rs arbitrary: n w)
  case (Cons r rs)
  obtain w1 x where w1: "cleanup_recording s r w = (w1, x)" by fastforce
  have "rec_history s st ops (w1, P)" using w1 Cons.prems(2) by (rule cleanup_recording_history) (use Cons.prems(3) in simp)
  then show ?case using Cons w1 by (cases x) auto
qed simp

lemma cleanup_expired_history:
  assumes "cleanup_expired s now limit w = (w', n, e)" "rec_history s st ops (w, P)"
  shows "rec_history s st ops (w', P)"
proof -
  let ?m = "rec_tables (pg_list_expired now (batch_limit limit) 0)"
  obtain w1 x where w1: "retried s ?m w = (w1, x)" by fastforce
  have "case x of Ok v \<Rightarrow> \<exists>t. rec_history s st ops (t, P) \<and> ?m t = (w1, Ok v) | Err e \<Rightarrow> rec_history s st ops (w1, P)"
    using w1 unfolding retried_def
    by (rule do_state_outcome[where I = "\<lambda>t. rec_history s st ops (t, P)"]) (use assms(2) cleanup_history page_failed in blast)+
  note out = this
  show ?thesis
  proof (cases x)
    case (Inl y)
    then show ?thesis using assms(1) w1 out by (auto simp: cleanup_expired_def)
  next
    case (Inr rs)
    then obtain t where t: "rec_history s st ops (t, P)" "?m t = (w1, Ok rs)" using out by auto
    have h: "rec_history s st ops (w1, rs @ P)" by (rule cleanup_history[OF t(1) page_read[OF t(2)]])
    obtain w2 k e2 where w2: "cleanup_recordings s rs 0 w1 = (w2, k, e2)" by (metis prod_cases3)
    have "rec_history s st ops (w2, rs @ P)" using w2 h by (rule cleanup_recordings_history) simp
    then have "rec_history s st ops (w2, P)" by (rule cleanup_history) (rule page_left, simp)
    then show ?thesis using assms(1) w1 Inr w2 by (simp add: cleanup_expired_def)
  qed
qed

text \<open>The labels: a step of the cleanup deletes at most rows in flight.\<close>

lemma listed_rows:
  assumes "rec_tables (pg_list_expired now l 0) w = (w', Ok rs)"
  shows "set rs \<subseteq> {r \<in> set (rt_rows (rw_recs w)). expired_recording now r}"
proof -
  have "rs = rec_page l 0 (sort_key (\<lambda>r. case rec_expires_at r of None \<Rightarrow> 0 | Some x \<Rightarrow> x) (filter (expired_recording now) (rt_rows (rw_recs w))))"
    using assms by (auto simp: rec_tables_def pg_list_expired_def rec_query_def split: prod.splits option.splits dest!: next_answer_parts)
  then have "set rs \<subseteq> set (filter (expired_recording now) (rt_rows (rw_recs w)))" using listed_in_rows by metis
  then show ?thesis by auto
qed

lemma cleanup_step_goes:
  assumes "cleanup_step s (w, P) (w', Q)"
  shows "goes {LDelete (rec_id r) | r. r \<in> set P} w w'"
  using assms
proof cases
  case (page_read now limit rs)
  have "moves {LDelete (rec_id r) | r. r \<in> set P} (rec_tables (pg_list_expired now (batch_limit limit) 0))"
    by (intro moves_intros runs_intros)
  from movesD[OF this] page_read show ?thesis by simp
next
  case (page_failed now limit e)
  have "moves {LDelete (rec_id r) | r. r \<in> set P} (rec_tables (pg_list_expired now (batch_limit limit) 0))"
    by (intro moves_intros runs_intros)
  from movesD[OF this] page_failed show ?thesis by simp
next
  case (artifacts_read r x)
  have "moves {LDelete (rec_id r) | r. r \<in> set P} (rec_tables (pg_list_artifacts (rec_id r)))" by (intro moves_intros runs_intros)
  from movesD[OF this] artifacts_read show ?thesis by simp
next
  case (object_deleted r k x)
  have "moves {LDelete (rec_id r) | r. r \<in> set P} (object_op (delete_object k))" by (intro moves_intros)
  from movesD[OF this] object_deleted show ?thesis by simp
next
  case (row_deleted r x)
  then have "LDelete (rec_id r) \<in> {LDelete (rec_id r) | r. r \<in> set P}" by blast
  then have "moves {LDelete (rec_id r) | r. r \<in> set P} (rec_tables (pg_delete_recording (rec_id r)))" by (intro moves_intros runs_intros)
  from movesD[OF this] row_deleted show ?thesis by simp
next
  case (spool_removed r)
  then show ?thesis by (auto simp: remove_spool_def intro: quiet_goes)
qed simp

fun labels :: "rec_op \<Rightarrow> rec_world \<Rightarrow> rec_label set" where
  "labels (RecHold i h) w = {LHold i h}"
| "labels _ w = advancing"

lemma rec_do_goes: "goes (labels a w \<union> minted w (rec_do s a w)) w (rec_do s a w)"
proof (cases a)
  case (RecStart x i u asked)
  then show ?thesis using mints_start[of s x i u asked] by (auto simp: mints_def intro: goes_mono)
qed (auto intro!: goes_mono[of _ w, OF _ Un_upper1] goes_moves goes_process goes_lifecycle moves_stop moves_auto_stop
    moves_set_hold moves_reads moves_presign)

section \<open>Along histories\<close>

lemma labels_create: "LCreate i \<notin> labels a w"
  by (cases a) auto

lemma minted_simps [simp]: "LCreate j \<in> minted w w' \<longleftrightarrow> rw_next_id w \<le> j \<and> j < rw_next_id w'"
    "LDelete j \<notin> minted w w'" "LHold j h \<notin> minted w w'"
  by (auto simp: minted_def)

lemma goes_origin:
  assumes "goes (L \<union> minted w w') w w'" "\<And>i. LCreate i \<notin> L" "r' \<in> set (rt_rows (rw_recs w'))"
  shows "(\<exists>r \<in> set (rt_rows (rw_recs w)). row_evolves r r') \<or> rw_next_id w \<le> rec_id r' \<and> rec_id r' < rw_next_id w'"
proof -
  have "rec_run (L \<union> minted w w') (rec_data (rw_recs w)) (rec_data (rw_recs w'))" using assms(1) by (simp add: goes_def)
  from run_origin[OF this] assms(2,3) show ?thesis by (simp add: rec_data_def)
qed

lemma evolves_id: "row_evolves r r' \<Longrightarrow> rec_id r' = rec_id r"
  by (simp add: row_evolves_def same_recording_def)

lemma well_formed_op: "well_formed w \<Longrightarrow> well_formed (rec_do s a w)"
  unfolding well_formed_def
proof (intro conjI ballI)
  let ?w = "rec_do s a w"
  assume w: "recordings_ok (rw_recs w) \<and> (\<forall>r \<in> set (rt_rows (rw_recs w)). rec_id r < rw_next_id w)"
  have g: "goes (labels a w \<union> minted w ?w) w ?w" by (rule rec_do_goes)
  show "recordings_ok (rw_recs ?w)" using w g unfolding recordings_ok_data goes_def by (blast dest: run_ok)
  fix r' assume r': "r' \<in> set (rt_rows (rw_recs ?w))"
  have "rw_next_id w \<le> rw_next_id ?w" using g by (simp add: goes_def)
  then show "rec_id r' < rw_next_id ?w" using goes_origin[OF g labels_create r'] w evolves_id by fastforce
qed

lemma cleanup_step_run:
  "cleanup_step s (w, P) (w', Q) \<Longrightarrow> rec_run {LDelete (rec_id r) | r. r \<in> set P} (rec_data (rw_recs w)) (rec_data (rw_recs w')) \<and>
     rw_next_id w \<le> rw_next_id w'"
  using cleanup_step_goes by (simp add: goes_def)

lemma cleanup_step_origin:
  assumes "cleanup_step s (w, P) (w', Q)" "r' \<in> set (rt_rows (rw_recs w'))"
  shows "\<exists>r \<in> set (rt_rows (rw_recs w)). row_evolves r r'"
  using run_origin[OF cleanup_step_run[OF assms(1), THEN conjunct1]] assms(2) by (auto simp: rec_data_def)

lemma well_formed_cleanup:
  assumes "cleanup_step s (w, P) (w', Q)" "well_formed w"
  shows "well_formed w'"
  unfolding well_formed_def
proof (intro conjI ballI)
  note run = cleanup_step_run[OF assms(1)]
  have w: "data_ok (rec_data (rw_recs w))" "\<And>r. r \<in> set (rt_rows (rw_recs w)) \<Longrightarrow> rec_id r < rw_next_id w"
    using assms(2) by (simp_all add: well_formed_def recordings_ok_data)
  show "recordings_ok (rw_recs w')" unfolding recordings_ok_data by (rule run_ok[OF run[THEN conjunct1] w(1)])
  fix r' assume "r' \<in> set (rt_rows (rw_recs w'))"
  then obtain r where "r \<in> set (rt_rows (rw_recs w))" "row_evolves r r'" using cleanup_step_origin[OF assms(1)] by blast
  then show "rec_id r' < rw_next_id w'" using w(2)[of r] evolves_id[of r r'] run by simp
qed

lemma history_well_formed: "rec_history s st ops st' \<Longrightarrow> well_formed (fst st) \<Longrightarrow> well_formed (fst st') \<and> rw_next_id (fst st) \<le> rw_next_id (fst st')"
proof (induction rule: rec_history.induct)
  case (op ops w1 P a)
  have "rw_next_id w1 \<le> rw_next_id (rec_do s a w1)" using rec_do_goes[of a w1 s] by (simp add: goes_def)
  then show ?case using op well_formed_op by auto
next
  case (cleanup ops w1 P w2 Q)
  then show ?case using cleanup_step_run[OF cleanup.hyps(2)] well_formed_cleanup[OF cleanup.hyps(2)] by simp
next
  case (other ops w1 P w2)
  then show ?case by (fastforce simp: well_formed_def recordings_ok_data rec_data_def)
qed simp

lemma history_ids: "rec_history s st ops st' \<Longrightarrow> rw_next_id (fst st) \<le> rw_next_id (fst st')"
proof (induction rule: rec_history.induct)
  case (op ops w1 P a)
  then show ?case using rec_do_goes[of a w1 s] by (simp add: goes_def)
next
  case (cleanup ops w1 P w2 Q)
  then show ?case using cleanup_step_run[OF cleanup.hyps(2)] by simp
qed simp_all

lemma history_origin:
  "rec_history s st ops st' \<Longrightarrow> r' \<in> set (rt_rows (rw_recs (fst st'))) \<Longrightarrow>
     (\<exists>r \<in> set (rt_rows (rw_recs (fst st))). row_evolves r r') \<or> rw_next_id (fst st) \<le> rec_id r'"
proof (induction arbitrary: r' rule: rec_history.induct)
  case start
  then show ?case using row_evolves_refl by blast
next
  case (op ops w1 P a)
  have mono: "rw_next_id (fst st) \<le> rw_next_id w1" using history_ids[OF op.hyps] by simp
  have "r' \<in> set (rt_rows (rw_recs (rec_do s a w1)))" using op.prems by simp
  from goes_origin[OF rec_do_goes labels_create this] show ?case
  proof
    assume "\<exists>r \<in> set (rt_rows (rw_recs w1)). row_evolves r r'"
    then obtain r1 where "r1 \<in> set (rt_rows (rw_recs w1))" "row_evolves r1 r'" by blast
    then show ?thesis using op.IH[of r1] row_evolves_trans evolves_id by (metis fst_conv)
  qed (use mono in simp)
next
  case (cleanup ops w1 P w2 Q)
  then obtain r1 where "r1 \<in> set (rt_rows (rw_recs w1))" "row_evolves r1 r'"
    using cleanup_step_origin[OF cleanup.hyps(2), of r'] by auto
  then show ?case using cleanup.IH[of r1] row_evolves_trans evolves_id by (metis fst_conv)
next
  case (other ops w1 P w2)
  then show ?case by (simp add: rec_data_def)
qed

text \<open>C39: the tables of recordings along every history. Starting from empty tables, after any sequence of requests, room
  closings and worker runs, with the statements of the cleanup anywhere among them and with any statement, capture or object
  operation failing, identifiers are unique, every artifact belongs to a recording and has a storage path of its own, attempts never exceed their limit, a running recording
  has never been processed, and a ready one has a path, a positive size and no retry.\<close>

theorem recordings_well_formed:
  assumes "rec_history s (w, P) ops (w', P')" "rec_data (rw_recs w) = ([], [])"
  shows "recordings_ok (rw_recs w')"
proof -
  have "well_formed w" using assms(2) by (simp add: well_formed_def recordings_ok_def rec_data_def artifacts_ok_def)
  then show ?thesis using history_well_formed[OF assms(1)] by (simp add: well_formed_def)
qed

theorem recordings_well_formed_witness:
  "recordings_ok (rw_recs rec_sample_ready) \<and> map rec_status (rt_rows (rw_recs rec_sample_ready)) = [RecordingReady] \<and>
   map art_path (rt_artifacts (rw_recs rec_sample_ready)) = [''p'']"
proof (intro conjI)
  show "recordings_ok (rw_recs rec_sample_ready)"
    by (rule recordings_well_formed[OF rec_sample_histories(3)]) (simp add: rec_data_def rec_sample_def)
  show "map rec_status (rt_rows (rw_recs rec_sample_ready)) = [RecordingReady]"
    "map art_path (rt_artifacts (rw_recs rec_sample_ready)) = [''p'']" using rec_sample_facts by (simp_all add: Let_def)
qed

lemma recording_life:
  assumes "rec_history s (w, P) ops (w', P')" "well_formed w"
    "r \<in> set (rt_rows (rw_recs w))" "r' \<in> set (rt_rows (rw_recs w'))" "rec_id r' = rec_id r"
  shows "row_evolves r r'"
proof -
  have "rec_id r' < rw_next_id w" using assms by (auto simp: well_formed_def)
  then obtain r0 where r0: "r0 \<in> set (rt_rows (rw_recs w))" "row_evolves r0 r'" using history_origin[OF assms(1), of r'] assms(4) by auto
  have "distinct (map rec_id (rt_rows (rw_recs w)))" using assms(2) by (simp add: well_formed_def recordings_ok_def)
  then have "r0 = r" using r0 assms(3,5) evolves_id by (metis distinct_map inj_onD)
  then show ?thesis using r0 by simp
qed

text \<open>C40: the life of a recording. Whatever happens between two moments, a recording that is in the table at both has kept
  its call, workspace, owner, strategy, start, expiry and limit of attempts; it never starts running again, a ready one
  stays ready, and its count of attempts does not fall.\<close>

theorem recording_lifecycle:
  assumes "rec_history s (w, P) ops (w', P')" "well_formed w"
    "r \<in> set (rt_rows (rw_recs w))" "r' \<in> set (rt_rows (rw_recs w'))" "rec_id r' = rec_id r"
  shows "row_evolves r r'"
  using assms by (rule recording_life)

lemma rec_sample_started_ok: "well_formed rec_sample_started"
proof -
  have "well_formed rec_sample" by (simp add: well_formed_def recordings_ok_def artifacts_ok_def rec_sample_def)
  then show ?thesis using history_well_formed[OF rec_sample_histories(1)] by simp
qed

theorem recording_lifecycle_witness:
  "row_evolves (hd (rt_rows (rw_recs rec_sample_started))) (hd (rt_rows (rw_recs rec_sample_ready))) \<and>
   rec_status (hd (rt_rows (rw_recs rec_sample_started))) = RecordingRunning \<and>
   rec_attempts (hd (rt_rows (rw_recs rec_sample_ready))) = 1"
proof (intro conjI)
  have ne: "rt_rows (rw_recs rec_sample_started) \<noteq> []" "rt_rows (rw_recs rec_sample_ready) \<noteq> []"
    using rec_sample_facts by (simp_all add: Let_def)
  have "rec_id (hd (rt_rows (rw_recs rec_sample_ready))) = rec_id (hd (rt_rows (rw_recs rec_sample_started)))"
    using rec_sample_facts by (simp add: Let_def)
  then show "row_evolves (hd (rt_rows (rw_recs rec_sample_started))) (hd (rt_rows (rw_recs rec_sample_ready)))"
    by (rule recording_lifecycle[OF rec_sample_histories(2) rec_sample_started_ok hd_in_set[OF ne(1)] hd_in_set[OF ne(2)]])
  show "rec_status (hd (rt_rows (rw_recs rec_sample_started))) = RecordingRunning"
    "rec_attempts (hd (rt_rows (rw_recs rec_sample_ready))) = 1" using rec_sample_facts by (simp_all add: Let_def)
qed

lemma held_op:
  assumes "r \<in> set (rt_rows (rw_recs w))" "rec_id r = i" "rec_legal_hold r" "a \<noteq> RecHold i False"
  shows "\<exists>r' \<in> set (rt_rows (rw_recs (rec_do s a w))). rec_id r' = i \<and> rec_legal_hold r'"
proof -
  let ?w = "rec_do s a w"
  have "LDelete i \<notin> labels a w \<union> minted w ?w" "LHold i False \<notin> labels a w \<union> minted w ?w"
    using assms(4) by (cases a; auto)+
  moreover have "rec_run (labels a w \<union> minted w ?w) (rec_data (rw_recs w)) (rec_data (rw_recs ?w))"
    using rec_do_goes[of a w s] by (simp add: goes_def)
  ultimately show ?thesis using run_keeps_held[of _ "rec_data (rw_recs w)" "rec_data (rw_recs ?w)" i r] assms(1-3) by (simp add: rec_data_def)
qed

text \<open>A held recording that is not in flight does not get in flight, and is not deleted.\<close>

lemma held_cleanup:
  assumes "cleanup_step s (w, P) (w', Q)" "well_formed w" "r \<in> set (rt_rows (rw_recs w))" "rec_id r = i" "rec_legal_hold r"
    "i \<notin> rec_id ` set P"
  shows "(\<exists>r' \<in> set (rt_rows (rw_recs w')). rec_id r' = i \<and> rec_legal_hold r') \<and> i \<notin> rec_id ` set Q"
proof
  have "LDelete i \<notin> {LDelete (rec_id r) | r. r \<in> set P}" "LHold i False \<notin> {LDelete (rec_id r) | r. r \<in> set P}"
    using assms(6) by auto
  then show "\<exists>r' \<in> set (rt_rows (rw_recs w')). rec_id r' = i \<and> rec_legal_hold r'"
    using run_keeps_held[OF cleanup_step_run[OF assms(1), THEN conjunct1], of i r] assms(3-5) by (simp add: rec_data_def)
  have d: "distinct (map rec_id (rt_rows (rw_recs w)))" using assms(2) by (simp add: well_formed_def recordings_ok_def)
  have held: "\<not> expired_recording now x" if "x \<in> set (rt_rows (rw_recs w))" "rec_id x = i" for x now
  proof -
    have "x = r" using d that assms(3,4) by (metis distinct_map inj_onD)
    then show ?thesis using assms(5) by (simp add: expired_recording_def)
  qed
  show "i \<notin> rec_id ` set Q"
    using assms(1)
  proof cases
    case (page_read now limit rs)
    then show ?thesis using listed_rows[OF page_read(2)] held assms(6) by auto
  qed (use assms(6) in auto)
qed

text \<open>C35: what a legal hold protects. A recording under hold that is not on a page a cleanup has already read is still
  there and still under hold after any history that does not release the hold, however often it expires and whatever
  statements of cleanups run in between. (A recording that was put under hold after a cleanup had read its page is not
  protected: \<open>hold_ignored_after_listing\<close>.)\<close>

theorem legal_hold_protects:
  assumes "rec_history s (w, P) ops (w', P')" "well_formed w"
    "r \<in> set (rt_rows (rw_recs w))" "rec_legal_hold r" "rec_id r \<notin> rec_id ` set P" "RecHold (rec_id r) False \<notin> set ops"
  shows "\<exists>r' \<in> set (rt_rows (rw_recs w')). row_evolves r r' \<and> rec_legal_hold r'"
proof -
  define st st' where "st = (w, P)" "st' = (w', P')"
  have "(\<exists>r' \<in> set (rt_rows (rw_recs (fst st'))). rec_id r' = rec_id r \<and> rec_legal_hold r') \<and> rec_id r \<notin> rec_id ` set (snd st')"
    using assms(1,6) unfolding st_st'_def[symmetric]
  proof (induction rule: rec_history.induct)
    case start
    then show ?case using assms(3-5) by (auto simp: st_st'_def)
  next
    case (op ops w1 P1 a)
    then obtain r1 where "r1 \<in> set (rt_rows (rw_recs w1))" "rec_id r1 = rec_id r" "rec_legal_hold r1" by auto
    then show ?case using held_op[of r1 w1 "rec_id r" a s] op by auto
  next
    case (cleanup ops w1 P1 w2 Q)
    then obtain r1 where "r1 \<in> set (rt_rows (rw_recs w1))" "rec_id r1 = rec_id r" "rec_legal_hold r1" by auto
    moreover have "well_formed w1" using history_well_formed[OF cleanup.hyps(1)] assms(2) by (simp add: st_st'_def)
    ultimately show ?case using held_cleanup[OF cleanup.hyps(2), of r1 "rec_id r"] cleanup by auto
  next
    case (other ops w1 P1 w2)
    then show ?case by (simp add: rec_data_def)
  qed
  then show ?thesis using recording_life[OF assms(1-3)] by (auto simp: st_st'_def)
qed

lemma rec_sample_ready_ok: "well_formed rec_sample_ready"
  using history_well_formed[OF rec_sample_histories(2)] rec_sample_started_ok by simp

text \<open>A page is read while the recording is held; then it is cleaned up.\<close>

theorem legal_hold_protects_witness:
  "let w = fst (cleanup_expired rec_sample_service (100 * second) 5 rec_sample_held) in
   rt_rows (rw_recs w) \<noteq> [] \<and>
   (\<exists>r'. r' \<in> set (rt_rows (rw_recs w)) \<and> row_evolves (hd (rt_rows (rw_recs rec_sample_held))) r' \<and> rec_legal_hold r')"
proof -
  let ?run = "cleanup_expired rec_sample_service (100 * second) 5 rec_sample_held"
  have "?run = (fst ?run, fst (snd ?run), snd (snd ?run))" by simp
  then have h: "rec_history rec_sample_service (rec_sample_held, []) [] (fst ?run, [])"
    by (rule cleanup_expired_history) (rule rec_history.start)
  have ok: "well_formed rec_sample_held" unfolding rec_sample_held_def by (rule well_formed_op[OF rec_sample_ready_ok])
  have ne: "rt_rows (rw_recs rec_sample_held) \<noteq> []" and hold: "rec_legal_hold (hd (rt_rows (rw_recs rec_sample_held)))"
    using rec_sample_facts by (simp_all add: Let_def)
  have "\<exists>r' \<in> set (rt_rows (rw_recs (fst ?run))). row_evolves (hd (rt_rows (rw_recs rec_sample_held))) r' \<and> rec_legal_hold r'"
    by (rule legal_hold_protects[OF h ok hd_in_set[OF ne] hold]) simp_all
  then show ?thesis unfolding Let_def by force
qed

end
