(* ===== verification/RecordingEffects.thy ===== *)
theory RecordingEffects
  imports RecordingProps
begin

text \<open>
  What single operations of the recording service do, in closed form: a statement or an object operation that fails and
  is retried leaves the world as it was, so that a worker's run is the sum of its statements that went through.
\<close>

section \<open>Retries\<close>

text \<open>Worlds that differ at most in what the driver and the object store will answer.\<close>

definition calm :: "rec_world \<Rightarrow> rec_world \<Rightarrow> bool" where
  "calm w w' \<longleftrightarrow>
     (\<exists>a b. w' = w\<lparr>rw_recs := (rw_recs w)\<lparr>rt_steps := a\<rparr>, rw_objects := (rw_objects w)\<lparr>os_steps := b\<rparr>\<rparr>)"

lemma calm_refl [simp]: "calm w w"
proof -
  have "w = w\<lparr>rw_recs := (rw_recs w)\<lparr>rt_steps := rt_steps (rw_recs w)\<rparr>, rw_objects := (rw_objects w)\<lparr>os_steps := os_steps (rw_objects w)\<rparr>\<rparr>" by simp
  then show ?thesis unfolding calm_def by blast
qed

lemma calm_trans: "calm w w1 \<Longrightarrow> calm w1 w2 \<Longrightarrow> calm w w2"
  unfolding calm_def by (elim exE) (simp, metis)

lemma calm_parts:
  assumes "calm w w'"
  shows "rt_rows (rw_recs w') = rt_rows (rw_recs w)" "rt_artifacts (rw_recs w') = rt_artifacts (rw_recs w)"
    "os_keys (rw_objects w') = os_keys (rw_objects w)" "rw_now w' = rw_now w"
  using assms by (auto simp: calm_def)

lemma calm_recs:
  assumes "rt_rows t = rt_rows (rw_recs w)" "rt_artifacts t = rt_artifacts (rw_recs w)"
  shows "calm w (w\<lparr>rw_recs := t\<rparr>)"
proof -
  have "t = (rw_recs w)\<lparr>rt_steps := rt_steps t\<rparr>" using assms by (cases t; cases "rw_recs w") simp
  then have "w\<lparr>rw_recs := t\<rparr> = w\<lparr>rw_recs := (rw_recs w)\<lparr>rt_steps := rt_steps t\<rparr>, rw_objects := (rw_objects w)\<lparr>os_steps := os_steps (rw_objects w)\<rparr>\<rparr>" by simp
  then show ?thesis unfolding calm_def by blast
qed

lemma calm_objects:
  assumes "os_keys x = os_keys (rw_objects w)" "os_classes x = os_classes (rw_objects w)"
  shows "calm w (w\<lparr>rw_objects := x\<rparr>)"
proof -
  have "x = (rw_objects w)\<lparr>os_steps := os_steps x\<rparr>" using assms by (cases x; cases "rw_objects w") simp
  then have "w\<lparr>rw_objects := x\<rparr> = w\<lparr>rw_recs := (rw_recs w)\<lparr>rt_steps := rt_steps (rw_recs w)\<rparr>, rw_objects := (rw_objects w)\<lparr>os_steps := os_steps x\<rparr>\<rparr>" by simp
  then show ?thesis unfolding calm_def by blast
qed

definition honest_step :: "'a rec_step \<Rightarrow> bool" where
  "honest_step m \<longleftrightarrow> (\<forall>w w' e. m w = (w', Err e) \<longrightarrow> calm w w')"

lemma honest_tables:
  assumes "\<And>t t' e. f t = (t', Err e) \<Longrightarrow> rt_rows t' = rt_rows t \<and> rt_artifacts t' = rt_artifacts t"
  shows "honest_step (rec_tables f)"
  using assms by (auto simp: honest_step_def rec_tables_def split: prod.splits intro!: calm_recs)

lemma honest_recs:
  "honest_step (rec_tables (rec_query msg g))" "honest_step (rec_tables (pg_delete_recording i))"
  "honest_step (rec_tables (update_recording msg P f))"
  by (rule honest_tables; force simp: rec_query_def pg_delete_recording_def update_recording_def
      split: prod.splits option.splits if_splits dest: next_answer_parts)+

lemma object_answer_parts: "object_answer x = (x', e) \<Longrightarrow> os_keys x' = os_keys x \<and> os_classes x' = os_classes x"
  by (auto simp: object_answer_def split: list.splits)

lemma honest_delete_object: "honest_step (object_op (delete_object k))"
  by (auto simp: honest_step_def object_op_def delete_object_def split: prod.splits option.splits intro!: calm_objects dest!: object_answer_parts)

lemma retried_cases:
  assumes "honest_step m" "retried s m w = (w', r)"
  shows "case r of Ok v \<Rightarrow> \<exists>w1. calm w w1 \<and> m w1 = (w', Ok v) | Err e \<Rightarrow> calm w w'"
  using assms(2) unfolding retried_def
  by (rule do_state_outcome[where I = "calm w"]) (use assms(1) calm_trans in \<open>auto simp: honest_step_def\<close>)

lemma retried_Ok: "honest_step m \<Longrightarrow> retried s m w = (w', Ok v) \<Longrightarrow> \<exists>w1. calm w w1 \<and> m w1 = (w', Ok v)"
  using retried_cases[of m s w w' "Ok v"] by simp

lemma retried_Err: "honest_step m \<Longrightarrow> retried s m w = (w', Err e) \<Longrightarrow> calm w w'"
  using retried_cases[of m s w w' "Err e"] by simp

lemma rec_tables_Ok [run_simps]: "rec_tables f w = (w', Ok x) \<longleftrightarrow> (\<exists>t. f (rw_recs w) = (t, Ok x) \<and> w' = w\<lparr>rw_recs := t\<rparr>)"
  by (auto simp: rec_tables_def split: prod.splits)

section \<open>Deleting one recording\<close>

definition keys_of :: "recording_tables \<Rightarrow> recording \<Rightarrow> string set" where
  "keys_of t r = {k. k \<noteq> [] \<and> (k = rec_path r \<or> k \<in> art_path ` {a \<in> set (rt_artifacts t). art_recording a = rec_id r})}"

text \<open>The table without some recordings, and the artifacts that go with them.\<close>

definition without :: "recording set \<Rightarrow> rec_state \<Rightarrow> rec_state" where
  "without R x = (filter (\<lambda>r. rec_id r \<notin> rec_id ` R) (fst x), filter (\<lambda>a. art_recording a \<notin> rec_id ` R) (snd x))"

definition store_without :: "string set \<Rightarrow> rec_world \<Rightarrow> rec_world \<Rightarrow> bool" where
  "store_without D w w' \<longleftrightarrow> os_keys (rw_objects w') = filter (\<lambda>k. k \<notin> D) (os_keys (rw_objects w))"

text \<open>Nothing else has changed: beside the rows, the artifacts and the objects only the spools of the deleted recordings are
  gone.\<close>

definition spools_without :: "recording_service \<Rightarrow> recording set \<Rightarrow> uuid list \<Rightarrow> uuid list" where
  "spools_without s R is = (if trim_space (re_spool_base s) = [] then is else filter (\<lambda>i. i \<notin> rec_id ` R) is)"

definition rest_kept :: "recording_service \<Rightarrow> recording set \<Rightarrow> rec_world \<Rightarrow> rec_world \<Rightarrow> bool" where
  "rest_kept s R w w' \<longleftrightarrow>
     w' = w\<lparr>rw_recs := rw_recs w', rw_objects := rw_objects w', rw_spools := spools_without s R (rw_spools w)\<rparr> \<and>
     os_classes (rw_objects w') = os_classes (rw_objects w)"

lemma spools_without_none [simp]: "spools_without s {} is = is"
  by (simp add: spools_without_def)

lemma spools_without_without: "spools_without s R (spools_without s Q is) = spools_without s (Q \<union> R) is"
  by (auto simp: spools_without_def intro: filter_cong)

lemma rest_kept_calm: "calm w w' \<Longrightarrow> rest_kept s {} w w'"
  by (auto simp: rest_kept_def calm_def)

lemma rest_kept_trans:
  assumes "rest_kept s Q w w1" "rest_kept s R w1 w2"
  shows "rest_kept s (Q \<union> R) w w2"
  unfolding rest_kept_def
proof
  have 1: "w1 = w\<lparr>rw_recs := rw_recs w1, rw_objects := rw_objects w1, rw_spools := spools_without s Q (rw_spools w)\<rparr>"
    and 2: "w2 = w1\<lparr>rw_recs := rw_recs w2, rw_objects := rw_objects w2, rw_spools := spools_without s R (rw_spools w1)\<rparr>"
    using assms unfolding rest_kept_def by blast+
  have sp: "rw_spools w1 = spools_without s Q (rw_spools w)" by (subst 1) simp
  show "w2 = w\<lparr>rw_recs := rw_recs w2, rw_objects := rw_objects w2, rw_spools := spools_without s (Q \<union> R) (rw_spools w)\<rparr>"
    by (subst 2, subst 1) (simp add: sp spools_without_without)
  show "os_classes (rw_objects w2) = os_classes (rw_objects w)" using assms unfolding rest_kept_def by simp
qed

lemma without_none [simp]: "without {} x = x"
  by (simp add: without_def)

lemma without_without: "without R (without Q x) = without (Q \<union> R) x"
  by (auto simp: without_def intro: filter_cong)

lemma store_without_none [simp]: "calm w w' \<Longrightarrow> store_without {} w w'"
  by (simp add: store_without_def calm_parts)

lemma store_without_trans: "store_without D w w1 \<Longrightarrow> store_without E w1 w2 \<Longrightarrow> store_without (D \<union> E) w w2"
  by (auto simp: store_without_def intro: filter_cong)

lemma calm_data: "calm w w' \<Longrightarrow> rec_data (rw_recs w') = rec_data (rw_recs w)"
  by (simp add: calm_parts rec_data_def)

lemma delete_object_Ok:
  assumes "retried s (object_op (delete_object k)) w = (w', Ok u)"
  shows "store_without {k} w w' \<and> rec_data (rw_recs w') = rec_data (rw_recs w) \<and> rest_kept s {} w w'"
proof -
  obtain w1 where w1: "calm w w1" "object_op (delete_object k) w1 = (w', Ok u)"
    using retried_Ok[OF honest_delete_object assms] by blast
  have "rest_kept s {} w1 w'" using w1(2)
    by (auto simp: rest_kept_def object_op_def delete_object_def split: prod.splits option.splits dest!: object_answer_parts)
  then have "rest_kept s {} w w'" using rest_kept_trans[OF rest_kept_calm[OF w1(1)]] by simp
  moreover have "store_without {k} w w' \<and> rec_data (rw_recs w') = rec_data (rw_recs w)"
    using w1(2) calm_parts[OF w1(1)] calm_data[OF w1(1)]
    by (auto simp: store_without_def object_op_def delete_object_def split: prod.splits option.splits dest!: object_answer_parts intro: filter_cong)
  ultimately show ?thesis by blast
qed

lemma delete_objects_effect:
  "delete_objects s ks w = (w', x) \<Longrightarrow>
     (\<exists>D. D \<subseteq> set ks \<and> store_without D w w' \<and> (x = Ok () \<longrightarrow> D = set ks)) \<and> rec_data (rw_recs w') = rec_data (rw_recs w) \<and>
     rest_kept s {} w w'"
proof (induction ks arbitrary: w)
  case Nil
  then show ?case by (simp add: return_def rest_kept_calm)
next
  case (Cons k ks)
  obtain w1 y where w1: "retried s (object_op (delete_object k)) w = (w1, y)" by (cases "retried s (object_op (delete_object k)) w")
  show ?case
  proof (cases y)
    case (Inl e)
    then have "w' = w1" "x = Err e" using Cons.prems w1 by (simp_all add: and_then_def)
    moreover have "calm w w1" using retried_Err[OF honest_delete_object] w1 Inl by blast
    ultimately show ?thesis using calm_data rest_kept_calm by auto
  next
    case (Inr u)
    then have "delete_objects s ks w1 = (w', x)" using Cons.prems w1 by (simp add: and_then_def)
    from Cons.IH[OF this] obtain D where D: "D \<subseteq> set ks" "store_without D w1 w'" "x = Ok () \<longrightarrow> D = set ks"
      "rec_data (rw_recs w') = rec_data (rw_recs w1)" "rest_kept s {} w1 w'" by blast
    have k: "store_without {k} w w1" "rec_data (rw_recs w1) = rec_data (rw_recs w)" "rest_kept s {} w w1"
      using delete_object_Ok w1 Inr by blast+
    have "store_without ({k} \<union> D) w w'" by (rule store_without_trans[OF k(1) D(2)])
    moreover have "rest_kept s {} w w'" using rest_kept_trans[OF k(3) D(5)] by simp
    ultimately show ?thesis using D k(2) by (intro conjI exI[of _ "{k} \<union> D"]) auto
  qed
qed

lemma list_artifacts_retried:
  assumes "retried s (rec_tables (pg_list_artifacts i)) w = (w', x)"
  shows "calm w w' \<and> (case x of Err e \<Rightarrow> True | Ok as \<Rightarrow> set as = {a \<in> set (rt_artifacts (rw_recs w)). art_recording a = i})"
proof (cases x)
  case (Inl e)
  then show ?thesis using retried_Err assms honest_recs(1) unfolding pg_list_artifacts_def by fastforce
next
  case (Inr as)
  then obtain w1 where w1: "calm w w1" "rec_tables (pg_list_artifacts i) w1 = (w', Ok as)"
    using retried_Ok assms honest_recs(1) unfolding pg_list_artifacts_def by fastforce
  then obtain t where t: "pg_list_artifacts i (rw_recs w1) = (t, Ok as)" "w' = w1\<lparr>rw_recs := t\<rparr>" by (auto simp: rec_tables_Ok)
  then have p: "rt_rows t = rt_rows (rw_recs w1)" "rt_artifacts t = rt_artifacts (rw_recs w1)"
      "as = sort_key art_created_at (sort_key art_id (filter (\<lambda>a. art_recording a = i) (rt_artifacts t)))"
    by (auto simp: pg_list_artifacts_def rec_query_def split: prod.splits option.splits dest!: next_answer_parts)
  then have "calm w1 w'" using t(2) calm_recs by blast
  then show ?thesis using calm_trans[OF w1(1)] p calm_parts[OF w1(1)] Inr by simp
qed

lemma delete_recording_retried:
  assumes "retried s (rec_tables (pg_delete_recording (rec_id r))) w = (w', Ok u)"
  shows "rec_data (rw_recs w') = without {r} (rec_data (rw_recs w)) \<and> store_without {} w w' \<and> rest_kept s {} w w'"
proof -
  obtain w1 where w1: "calm w w1" "rec_tables (pg_delete_recording (rec_id r)) w1 = (w', Ok u)"
    using retried_Ok[OF honest_recs(2) assms] by blast
  have "rest_kept s {} w1 w'" using w1(2) by (auto simp: rec_tables_Ok rest_kept_def)
  then have "rest_kept s {} w w'" using rest_kept_trans[OF rest_kept_calm[OF w1(1)]] by simp
  moreover have "rec_data (rw_recs w') = without {r} (rec_data (rw_recs w)) \<and> store_without {} w w'"
    using w1(2) calm_parts[OF w1(1)]
    by (auto simp: rec_tables_Ok pg_delete_recording_def without_def rec_data_def store_without_def split: prod.splits option.splits if_splits
        dest!: next_answer_parts)
  ultimately show ?thesis by blast
qed

lemma remove_spool_effect:
  "w' = fst (remove_spool s (rec_id r) w) \<Longrightarrow>
     rec_data (rw_recs w') = rec_data (rw_recs w) \<and> store_without {} w w' \<and> rest_kept s {r} w w'"
  by (auto simp: remove_spool_def store_without_def rest_kept_def spools_without_def intro: filter_cong)

text \<open>What a cleanup of one recording that returns \<open>x\<close> has done, with \<open>D\<close> the objects it has deleted.\<close>

definition recording_cleaned :: "recording_service \<Rightarrow> recording \<Rightarrow> string set \<Rightarrow> rec_world \<Rightarrow> rec_world \<Rightarrow> unit result \<Rightarrow> bool" where
  "recording_cleaned s r D w w' x \<longleftrightarrow> D \<subseteq> keys_of (rw_recs w) r \<and> store_without D w w' \<and>
    (case x of Ok u \<Rightarrow> D = keys_of (rw_recs w) r \<and> rec_data (rw_recs w') = without {r} (rec_data (rw_recs w)) \<and> rest_kept s {r} w w'
     | Err e \<Rightarrow> rec_data (rw_recs w') = rec_data (rw_recs w) \<and> rest_kept s {} w w')"

lemma cleanup_recording_effect:
  assumes "cleanup_recording s r w = (w', x)"
  shows "\<exists>D. recording_cleaned s r D w w' x"
proof -
  let ?list = "retried s (rec_tables (pg_list_artifacts (rec_id r)))" and ?del = "retried s (rec_tables (pg_delete_recording (rec_id r)))"
  obtain w1 y1 where w1: "?list w = (w1, y1)" by (cases "?list w")
  note l = list_artifacts_retried[OF w1]
  have c1: "calm w w1" using l by blast
  show ?thesis
  proof (cases y1)
    case (Inl e)
    then have "w' = w1" "\<exists>e. x = Err e" using assms w1 by (auto simp: cleanup_recording_def and_then_def map_err_def)
    then have "recording_cleaned s r {} w w' x" using c1 calm_data rest_kept_calm by (auto simp: recording_cleaned_def)
    then show ?thesis ..
  next
    case (Inr as)
    let ?paths = "object_paths r as"
    have keys: "set ?paths = keys_of (rw_recs w) r" using l Inr by (auto simp: object_paths_def keys_of_def)
    obtain w2 y2 where w2: "delete_objects s ?paths w1 = (w2, y2)" by (cases "delete_objects s ?paths w1")
    from delete_objects_effect[OF w2] obtain D where D: "D \<subseteq> set ?paths" "store_without D w1 w2" "y2 = Ok () \<longrightarrow> D = set ?paths"
      "rec_data (rw_recs w2) = rec_data (rw_recs w1)" "rest_kept s {} w1 w2" by blast
    have wD: "store_without D w w2" using store_without_trans[OF store_without_none D(2), of w] c1 by simp
    have same: "rec_data (rw_recs w2) = rec_data (rw_recs w)" using D(4) c1 calm_data by metis
    have rest: "rest_kept s {} w w2" using rest_kept_trans[OF rest_kept_calm[OF c1] D(5)] by simp
    show ?thesis
    proof (cases y2)
      case (Inl e)
      then have "w' = w2" "\<exists>e. x = Err e" using assms w1 Inr w2 by (auto simp: cleanup_recording_def and_then_def map_err_def)
      then have "recording_cleaned s r D w w' x" using D(1) wD same keys rest by (auto simp: recording_cleaned_def)
      then show ?thesis ..
    next
      case ok: (Inr u)
      obtain w3 y3 where w3: "?del w2 = (w3, y3)" by (cases "?del w2")
      show ?thesis
      proof (cases y3)
        case (Inl e)
        then have x: "w' = w3" "\<exists>e. x = Err e" using assms w1 Inr w2 ok w3 by (auto simp: cleanup_recording_def and_then_def map_err_def)
        have c: "calm w2 w3" using retried_Err[OF honest_recs(2)] w3 Inl by blast
        have "store_without D w w3" "rest_kept s {} w w3"
          using store_without_trans[OF wD store_without_none[OF c]] rest_kept_trans[OF rest rest_kept_calm[OF c]] by simp_all
        then have "recording_cleaned s r D w w' x" using D(1) keys same calm_data[OF c] x by (auto simp: recording_cleaned_def)
        then show ?thesis ..
      next
        case gone: (Inr v)
        then have x: "w' = fst (remove_spool s (rec_id r) w3)" "x = Ok ()"
          using assms w1 Inr w2 ok w3 by (auto simp: cleanup_recording_def and_then_def map_err_def remove_spool_def)
        note d = delete_recording_retried[OF w3[unfolded gone]] and m = remove_spool_effect[OF x(1)]
        have "store_without D w w'" "rest_kept s {r} w w'"
          using store_without_trans[OF store_without_trans[OF wD, of "{}" w3], of "{}" w']
            rest_kept_trans[OF rest_kept_trans[OF rest, of "{}" w3], of "{r}" w'] d m by simp_all
        then have "recording_cleaned s r D w w' x" using D keys same ok x d m by (simp add: recording_cleaned_def)
        then show ?thesis ..
      qed
    qed
  qed
qed

section \<open>Deleting the expired recordings\<close>

lemma keys_of_without:
  assumes "rec_data t' = without {q} (rec_data t)" "rec_id r \<noteq> rec_id q"
  shows "keys_of t' r = keys_of t r"
proof -
  have "rt_artifacts t' = filter (\<lambda>a. art_recording a \<noteq> rec_id q) (rt_artifacts t)" using assms(1) by (simp add: rec_data_def without_def)
  then show ?thesis using assms(2) by (auto simp: keys_of_def)
qed

lemma keys_of_data: "rec_data t' = rec_data t \<Longrightarrow> keys_of t' r = keys_of t r"
  by (simp add: keys_of_def rec_data_def)

text \<open>The first \<open>k\<close> of the listed recordings are gone with their artifacts, objects and spools, and nothing else is, apart from
  objects of the recording that comes after them.\<close>

definition cleaned :: "recording_service \<Rightarrow> recording list \<Rightarrow> nat \<Rightarrow> rec_world \<Rightarrow> rec_world \<Rightarrow> bool" where
  "cleaned s rs k w w' \<longleftrightarrow>
     k \<le> length rs \<and> rec_data (rw_recs w') = without (set (take k rs)) (rec_data (rw_recs w)) \<and> rest_kept s (set (take k rs)) w w' \<and>
     (\<exists>D. store_without D w w' \<and> \<Union> (keys_of (rw_recs w) ` set (take k rs)) \<subseteq> D \<and> D \<subseteq> \<Union> (keys_of (rw_recs w) ` set (take (Suc k) rs)))"

lemma cleanup_list_effect:
  "cleanup_recordings s rs n w = (w', m, e) \<Longrightarrow> distinct (map rec_id rs) \<Longrightarrow>
     \<exists>k. m = n + k \<and> cleaned s rs k w w' \<and> (e = None \<longrightarrow> k = length rs)"
proof (induction rs arbitrary: n w)
  case Nil
  then show ?case by (auto simp: cleaned_def rest_kept_calm)
next
  case (Cons r rs)
  obtain w1 x where w1: "cleanup_recording s r w = (w1, x)" by (cases "cleanup_recording s r w")
  from cleanup_recording_effect[OF this] obtain D where D: "recording_cleaned s r D w w1 x" by blast
  show ?case
  proof (cases x)
    case (Inl y)
    then have "w' = w1" "m = n" "e = Some y" using Cons.prems(1) w1 by simp_all
    then show ?thesis using D Inl by (intro exI[of _ 0]) (auto simp: cleaned_def recording_cleaned_def)
  next
    case (Inr u)
    have run: "cleanup_recordings s rs (n + 1) w1 = (w', m, e)" using Cons.prems(1) w1 Inr by simp
    obtain k where k: "m = n + 1 + k" "cleaned s rs k w1 w'" "e = None \<longrightarrow> k = length rs"
      using Cons.IH[OF run] Cons.prems(2) by auto
    obtain E where E: "store_without E w1 w'" "\<Union> (keys_of (rw_recs w1) ` set (take k rs)) \<subseteq> E"
      "E \<subseteq> \<Union> (keys_of (rw_recs w1) ` set (take (Suc k) rs))"
      using k(2) unfolding cleaned_def by blast
    have gone: "rec_data (rw_recs w1) = without {r} (rec_data (rw_recs w))" "D = keys_of (rw_recs w) r"
      "store_without D w w1" "rest_kept s {r} w w1" using D unfolding recording_cleaned_def Inr sum.case by blast+
    have "keys_of (rw_recs w1) q = keys_of (rw_recs w) q" if "q \<in> set rs" for q
    proof -
      have "rec_id q \<noteq> rec_id r" using Cons.prems(2) imageI[OF that, of rec_id] by (metis distinct.simps(2) list.simps(9) list.set_map)
      then show ?thesis by (rule keys_of_without[OF gone(1)])
    qed
    then have keys: "keys_of (rw_recs w1) ` set (take j rs) = keys_of (rw_recs w) ` set (take j rs)" for j
      using in_set_takeD by (metis image_cong)
    have "store_without (D \<union> E) w w'" "\<Union> (keys_of (rw_recs w) ` set (take (Suc k) (r # rs))) \<subseteq> D \<union> E"
        "D \<union> E \<subseteq> \<Union> (keys_of (rw_recs w) ` set (take (Suc (Suc k)) (r # rs)))"
      using store_without_trans[OF gone(3) E(1)] E(2,3) gone(2) unfolding keys by auto
    moreover have "rec_data (rw_recs w') = without (set (take (Suc k) (r # rs))) (rec_data (rw_recs w))"
      using k(2) gone(1) by (simp add: cleaned_def without_without)
    moreover have "rest_kept s (set (take (Suc k) (r # rs))) w w'"
      using rest_kept_trans[OF gone(4), of "set (take k rs)" w'] k(2) by (simp add: cleaned_def)
    ultimately have "cleaned s (r # rs) (Suc k) w w'" using k(2) unfolding cleaned_def by auto
    then show ?thesis using k by (intro exI[of _ "Suc k"]) auto
  qed
qed

text \<open>The recordings that a run of the cleanup asks for.\<close>

definition expired_page :: "instant \<Rightarrow> int \<Rightarrow> rec_world \<Rightarrow> recording list" where
  "expired_page now limit w =
     rec_page (batch_limit limit) 0
       (sort_key (\<lambda>r. case rec_expires_at r of None \<Rightarrow> 0 | Some x \<Rightarrow> x) (filter (expired_recording now) (rt_rows (rw_recs w))))"

lemma expired_page_distinct: "recordings_ok (rw_recs w) \<Longrightarrow> distinct (map rec_id (expired_page now limit w))"
proof -
  assume "recordings_ok (rw_recs w)"
  then have "distinct (map rec_id (filter (expired_recording now) (rt_rows (rw_recs w))))" by (auto simp: recordings_ok_def)
  then have "distinct (filter (expired_recording now) (rt_rows (rw_recs w)))" "inj_on rec_id (set (filter (expired_recording now) (rt_rows (rw_recs w))))"
    by (simp_all add: distinct_map)
  then have "distinct (map rec_id (sort_key f (filter (expired_recording now) (rt_rows (rw_recs w)))))" for f :: "recording \<Rightarrow> int"
    by (simp add: distinct_map)
  then show ?thesis unfolding expired_page_def rec_page_def by (simp add: take_map[symmetric] drop_map[symmetric])
qed

lemma cleanup_effect:
  assumes "recordings_ok (rw_recs w)" "cleanup_expired s now limit w = (w', n, e)"
  shows "cleaned s (expired_page now limit w) (mn_deleted n) w w' \<and> (e = None \<longrightarrow> mn_deleted n = length (expired_page now limit w))"
proof -
  let ?m = "retried s (rec_tables (pg_list_expired now (batch_limit limit) 0))"
  obtain w1 x where w1: "?m w = (w1, x)" by (cases "?m w")
  have hon: "honest_step (rec_tables (pg_list_expired now (batch_limit limit) 0))" unfolding pg_list_expired_def by (rule honest_recs)
  show ?thesis
  proof (cases x)
    case (Inl y)
    then have "calm w w1" using retried_Err[OF hon] w1 by blast
    then have "cleaned s (expired_page now limit w) 0 w w1"
      using calm_data rest_kept_calm by (auto simp: cleaned_def intro!: exI[of _ "{}"])
    then show ?thesis using assms(2) w1 Inl by (auto simp: cleanup_expired_def no_stats_def)
  next
    case (Inr rs)
    have rs: "rec_data (rw_recs w1) = rec_data (rw_recs w)" "rs = expired_page now limit w"
      using expired_listed w1 Inr unfolding expired_page_def by blast+
    obtain v where v: "calm w v" "rec_tables (pg_list_expired now (batch_limit limit) 0) v = (w1, Ok rs)"
      using retried_Ok[OF hon] w1 Inr by blast
    have st: "store_without {} w w1" using v calm_parts[OF v(1)] by (auto simp: rec_tables_Ok store_without_def)
    have "rest_kept s {} v w1" using v(2) by (auto simp: rec_tables_Ok rest_kept_def)
    then have rest: "rest_kept s {} w w1" using rest_kept_trans[OF rest_kept_calm[OF v(1)]] by simp
    obtain w2 m e2 where w2: "cleanup_recordings s rs 0 w1 = (w2, m, e2)" by (cases "cleanup_recordings s rs 0 w1")
    have d: "distinct (map rec_id rs)" using expired_page_distinct[OF assms(1)] rs(2) by simp
    from cleanup_list_effect[OF w2 d] have c: "cleaned s rs m w1 w2" "e2 = None \<longrightarrow> m = length rs" by auto
    have "cleaned s rs m w w2"
    proof -
      have k: "keys_of (rw_recs w1) q = keys_of (rw_recs w) q" for q using keys_of_data rs(1) by metis
      obtain D where D: "store_without D w1 w2" "\<Union> (keys_of (rw_recs w) ` set (take m rs)) \<subseteq> D"
        "D \<subseteq> \<Union> (keys_of (rw_recs w) ` set (take (Suc m) rs))"
        using c(1) unfolding cleaned_def k by blast
      have "store_without D w w2" "rest_kept s (set (take m rs)) w w2"
        using store_without_trans[OF st D(1)] rest_kept_trans[OF rest, of "set (take m rs)" w2] c(1) unfolding cleaned_def by simp_all
      then show ?thesis using c(1) D(2,3) unfolding cleaned_def rs(1) by blast
    qed
    then show ?thesis using assms(2) w1 Inr w2 c(2) rs(2) by (auto simp: cleanup_expired_def)
  qed
qed


text \<open>The page of expired recordings is read before its rows are deleted, and \<open>Delete\<close> does not look at the hold again: a recording
  that is put under hold in between is deleted with its objects. \<open>TransitionStorageLifecycle\<close> reads a page of ready
  recordings whatever their tier: with a page of one, an archived recording keeps the next one hot for ever.\<close>

definition two_ready :: rec_world where
  "two_ready =
     (let r = hd (rt_rows (rw_recs rec_sample_ready)) in
      rec_sample_ready\<lparr>rw_recs := (rw_recs rec_sample_ready)\<lparr>
        rt_rows := [r\<lparr>rec_expires_at := None, rec_tier := TierArchive\<rparr>,
          r\<lparr>rec_id := 11, rec_expires_at := None, rec_stopped_at := Some (2 * second)\<rparr>]\<rparr>\<rparr>)"

lemma late_facts:
  "let run = cleanup_expired rec_sample_service (100 * second) 5 rec_sample_ready;
       page = expired_page (100 * second) 5 rec_sample_ready in
   mn_deleted (fst (snd run)) = 1 \<and> map rec_id page = [10] \<and> os_keys (rw_objects (fst run)) = [''q''] \<and>
   map rec_legal_hold (rt_rows (rw_recs rec_sample_held)) = [True] \<and>
   rt_rows (rw_recs (fst (cleanup_recordings rec_sample_service page 0 rec_sample_held))) = [] \<and>
   map rec_tier (rt_rows (rw_recs (fst (transition_storage_lifecycle rec_sample_service (100 * second) 1 two_ready)))) = [TierArchive, TierHot] \<and>
   map (target_tier rec_sample_service (100 * second)) (rt_rows (rw_recs two_ready)) = [TierArchive, TierArchive]"
  by code_simp


lemma hold_ignored_after_listing:
  "map rec_legal_hold (rt_rows (rw_recs rec_sample_held)) = [True] \<and>
   rt_rows (rw_recs (fst (cleanup_recordings rec_sample_service (expired_page (100 * second) 5 rec_sample_ready) 0 rec_sample_held))) = []"
  using late_facts by (simp add: Let_def)

lemma tier_starved:
  "map rec_tier (rt_rows (rw_recs (fst (transition_storage_lifecycle rec_sample_service (100 * second) 1 two_ready)))) = [TierArchive, TierHot] \<and>
   map (target_tier rec_sample_service (100 * second)) (rt_rows (rw_recs two_ready)) = [TierArchive, TierArchive]"
  using late_facts by (simp add: Let_def)

end
