(* ===== verification/RecordingAttempts.thy ===== *)
theory RecordingAttempts
  imports RecordingEffects
begin

text \<open>
  What starting a recording needs and does, what an attempt to process a recording leaves in the tables, and the bound
  that the quota puts on the storage of a workspace.
\<close>

section \<open>Starting\<close>

lemma run_nothing: "rec_run {} x y \<longleftrightarrow> y = x"
  unfolding rec_run_def by (auto elim: rtranclp_induct)

lemma moves_nothing: "moves {} m \<Longrightarrow> m w = (w', r) \<Longrightarrow> rec_data (rw_recs w') = rec_data (rw_recs w)"
  by (drule movesD, assumption) (simp add: goes_def run_nothing)

text \<open>An action that leaves the tables alone when it fails.\<close>

definition safe_fail :: "'a rec_step \<Rightarrow> bool" where
  "safe_fail m \<longleftrightarrow> (\<forall>w w' e. m w = (w', Err e) \<longrightarrow> rec_data (rw_recs w') = rec_data (rw_recs w))"

lemma safe_fail_and_then: "moves {} m \<Longrightarrow> (\<And>x. safe_fail (f x)) \<Longrightarrow> safe_fail (and_then m f)"
  unfolding safe_fail_def
proof (intro allI impI)
  fix w w' e
  assume m: "moves {} m" and f: "\<And>x. \<forall>w w' e. f x w = (w', Err e) \<longrightarrow> rec_data (rw_recs w') = rec_data (rw_recs w)"
    and run: "and_then m f w = (w', Err e)"
  obtain w1 y where w1: "m w = (w1, y)" by (cases "m w")
  have "rec_data (rw_recs w1) = rec_data (rw_recs w)" using moves_nothing[OF m w1] .
  then show "rec_data (rw_recs w') = rec_data (rw_recs w)" using run w1 by (cases y) (auto simp: and_then_def f[rule_format])
qed

lemma safe_fail_return: "safe_fail m \<Longrightarrow> safe_fail (and_then m (\<lambda>_. return r))"
  unfolding safe_fail_def by (auto simp: and_then_def return_def split: prod.splits sum.splits)

lemma rec_tx_Err: "rec_tx m w = (w', Err e) \<Longrightarrow> rec_data (rw_recs w') = rec_data (rw_recs w)"
  by (auto simp: rec_tx_def rec_rolled_back_def rows_of_def rec_data_def split: prod.splits option.splits sum.splits dest!: next_answer_parts)

lemma rec_tx_Ok:
  assumes "rec_tx m w = (w', Ok x)"
  shows "\<exists>t w1 t1. rec_data t = rec_data (rw_recs w) \<and> m (w\<lparr>rw_recs := t\<rparr>) = (w1, Ok x) \<and> rec_data t1 = rec_data (rw_recs w1) \<and>
    w' = w1\<lparr>rw_recs := t1\<rparr>"
  using assms by (auto simp: rec_tx_def rec_data_def split: prod.splits option.splits sum.splits dest!: next_answer_parts)

lemma create_recording_Ok:
  assumes "pg_create_recording r t = (t', Ok u)"
  shows "rec_data t' = (rt_rows t @ [r], rt_artifacts t)"
  using assms by (auto simp: pg_create_recording_def rec_data_def split: prod.splits option.splits if_splits dest!: next_answer_parts)

lemma create_recording_Err:
  assumes "pg_create_recording r t = (t', Err e)"
  shows "rec_data t' = rec_data t"
  using assms by (auto simp: pg_create_recording_def rec_data_def split: prod.splits option.splits if_splits dest!: next_answer_parts)

lemma audit_quiet:
  "create_audit_tx a b c d e f w = (w', x) \<Longrightarrow> rw_recs w' = rw_recs w \<and> rw_capture w' = rw_capture w"
  "log_audit s a b c d e f w = (w', x) \<Longrightarrow> rw_recs w' = rw_recs w \<and> rw_capture w' = rw_capture w"
  by (auto simp: log_audit_def create_audit_tx_def and_then_def ignore_err_def return_def rec_new_id_def rec_clock_def write_audit_def
      split: prod.splits sum.splits if_splits)

definition storing_row :: "recording_service \<Rightarrow> uuid \<Rightarrow> recording \<Rightarrow> unit rec_step" where
  "storing_row s u r =
     (if re_tx s
      then rec_tx (and_then (rec_tables (pg_create_recording r)) (\<lambda>_. create_audit_tx (rec_workspace r) u ''recording.started'' ''recording''
        (re_uuid_text s (rec_id r)) (started_metadata s r)))
      else rec_tables (pg_create_recording r))"

definition stored_log :: "recording_service \<Rightarrow> uuid \<Rightarrow> recording \<Rightarrow> unit rec_step" where
  "stored_log s u r =
     (if re_tx s then return () else log_audit s (rec_workspace r) u ''recording.started'' ''recording'' (re_uuid_text s (rec_id r))
      (started_metadata s r))"

lemma store_recording_parts:
  "store_recording s u r w =
     (case storing_row s u r w of
        (w', Err e) \<Rightarrow> (fst (capture_stop (rec_id r) w'), Err (internal_err ''failed to start recording'' e))
      | (w', Ok x) \<Rightarrow> stored_log s u r w')"
  unfolding store_recording_def storing_row_def stored_log_def Let_def by (rule refl)

lemma storing_Ok:
  assumes "storing_row s u r w = (w', Ok x)"
  shows "rec_data (rw_recs w') = (rt_rows (rw_recs w) @ [r], rt_artifacts (rw_recs w)) \<and> rw_capture w' = rw_capture w"
proof (cases "re_tx s")
  case True
  then obtain t w1 t1 where t: "rec_data t = rec_data (rw_recs w)"
      "and_then (rec_tables (pg_create_recording r)) (\<lambda>_. create_audit_tx (rec_workspace r) u ''recording.started'' ''recording''
        (re_uuid_text s (rec_id r)) (started_metadata s r)) (w\<lparr>rw_recs := t\<rparr>) = (w1, Ok x)"
      "rec_data t1 = rec_data (rw_recs w1)" "w' = w1\<lparr>rw_recs := t1\<rparr>"
    using assms rec_tx_Ok by (fastforce simp: storing_row_def)
  from t(2) obtain t2 y where t2: "pg_create_recording r t = (t2, Ok y)"
      "create_audit_tx (rec_workspace r) u ''recording.started'' ''recording'' (re_uuid_text s (rec_id r)) (started_metadata s r)
        (w\<lparr>rw_recs := t2\<rparr>) = (w1, Ok x)"
    by (auto simp: run_simps)
  then show ?thesis using t create_recording_Ok[OF t2(1)] audit_quiet(1)[OF t2(2)] by (simp add: rec_data_def)
next
  case False
  then show ?thesis using assms create_recording_Ok by (auto simp: storing_row_def run_simps)
qed

lemma storing_Err:
  assumes "storing_row s u r w = (w', Err e)"
  shows "rec_data (rw_recs w') = rec_data (rw_recs w)"
proof (cases "re_tx s")
  case True
  then show ?thesis using assms rec_tx_Err by (fastforce simp: storing_row_def)
next
  case False
  then show ?thesis using assms create_recording_Err by (auto simp: storing_row_def rec_tables_def split: prod.splits)
qed

lemma store_recording_Ok:
  assumes "store_recording s u r w = (w', Ok x)"
  shows "rec_data (rw_recs w') = (rt_rows (rw_recs w) @ [r], rt_artifacts (rw_recs w)) \<and> rw_capture w' = rw_capture w"
proof -
  obtain w1 y where w1: "storing_row s u r w = (w1, y)" by (cases "storing_row s u r w")
  then obtain z where z: "y = Ok z" "stored_log s u r w1 = (w', Ok x)" using assms by (cases y) (auto simp: store_recording_parts)
  have "rw_recs w' = rw_recs w1 \<and> rw_capture w' = rw_capture w1"
    using z(2) audit_quiet(2) by (auto simp: stored_log_def return_def split: if_splits)
  then show ?thesis using storing_Ok w1 z(1) by metis
qed

lemma safe_fail_store: "safe_fail (store_recording s u r)"
  unfolding safe_fail_def
proof (intro allI impI)
  fix w w' e
  assume run: "store_recording s u r w = (w', Err e)"
  obtain w1 y where w1: "storing_row s u r w = (w1, y)" by (cases "storing_row s u r w")
  have "moves {} (capture_stop (rec_id r))" by (intro moves_intros)
  then have stop: "rec_data (rw_recs (fst (capture_stop (rec_id r) w1))) = rec_data (rw_recs w1)" by (metis moves_nothing prod.collapse)
  show "rec_data (rw_recs w') = rec_data (rw_recs w)"
  proof (cases y)
    case (Inl x)
    then show ?thesis using run w1 stop storing_Err by (auto simp: store_recording_parts)
  next
    case (Inr x)
    have "snd (stored_log s u r w1) = Ok ()" by (auto simp: stored_log_def log_audit_def ignore_err_def return_def split: prod.split)
    then show ?thesis using run w1 Inr by (simp add: store_recording_parts)
  qed
qed

lemma safe_fail_start: "safe_fail (start_recording s x i u asked)"
  unfolding start_recording_def Let_def
  by ((rule safe_fail_return[OF safe_fail_store] | (rule safe_fail_and_then, (intro moves_intros runs_intros; fail)[1])))+

lemma rec_query_Ok: "rec_query msg f t = (t', Ok x) \<Longrightarrow> rec_data t' = rec_data t \<and> f t' = Ok x"
  by (auto simp: rec_query_def rec_data_def split: prod.splits option.splits dest!: next_answer_parts)

lemma quota_available_Ok:
  assumes "ensure_quota_available s x w = (w', Ok y)"
  shows "(\<exists>t. w' = w\<lparr>rw_recs := t\<rparr> \<and> rec_data t = rec_data (rw_recs w)) \<and> (0 < re_quota s \<longrightarrow> storage_usage x (rw_recs w) < re_quota s)"
proof (cases "re_quota s \<le> 0")
  case True
  then show ?thesis using assms by (auto simp: ensure_quota_available_def run_simps intro!: exI[of _ "rw_recs w"])
next
  case False
  then obtain t n where t: "pg_storage_usage x (rw_recs w) = (t, Ok n)" "w' = w\<lparr>rw_recs := t\<rparr>" "n < re_quota s"
    using assms by (auto simp: ensure_quota_available_def run_simps)
  then have "rec_data t = rec_data (rw_recs w)" "n = storage_usage x t" using rec_query_Ok[OF t(1)[unfolded pg_storage_usage_def]] by auto
  then show ?thesis using t by (auto simp: storage_usage_def rec_data_def)
qed

lemma capture_start_Ok:
  assumes "capture_start i w = (w', Ok x)"
  shows "rw_recs w' = rw_recs w \<and> i \<in> set (cp_sessions (rw_capture w'))"
  using assms by (auto simp: capture_start_def Let_def split: prod.splits option.splits if_splits)

lemma rec_host_None:
  assumes "rec_host a b c u w = None"
  shows "\<exists>p \<in> set (ct_participants (rw_calls w)). is_user c u p \<and> (pa_role p = CallRoleHost \<or> pa_role p = CallRoleCoHost)"
  using assms by (auto simp: rec_host_def pg_get_participant_def split: sum.splits if_splits dest!: query_row_member)

text \<open>What lets a user start a recording of a call.\<close>

definition may_record :: "recording_service \<Rightarrow> uuid \<Rightarrow> uuid \<Rightarrow> uuid \<Rightarrow> call \<Rightarrow> rec_world \<Rightarrow> bool" where
  "may_record s x i u c w \<longleftrightarrow>
     c \<in> set (ct_calls (rw_calls w)) \<and> ca_id c = i \<and> ca_workspace c = x \<and> ca_status c = CallStatusActive \<and> se_recording (ca_settings c) \<and>
     (0 < re_quota s \<longrightarrow> storage_usage x (rw_recs w) < re_quota s) \<and>
     (\<exists>p \<in> set (ct_participants (rw_calls w)). is_user i u p \<and> (pa_role p = CallRoleHost \<or> pa_role p = CallRoleCoHost)) \<and>
     (\<forall>r \<in> set (rt_rows (rw_recs w)). rec_call r = i \<longrightarrow> rec_status r \<noteq> RecordingRunning) \<and>
     get_room (re_uuid_text s i) (rw_sfu w) \<noteq> None"

lemma list_by_call_Ok:
  assumes "pg_list_by_call i t = (t', Ok rs)"
  shows "rec_data t' = rec_data t \<and> set rs = {r \<in> set (rt_rows t). rec_call r = i}"
proof -
  have "rec_data t' = rec_data t" "rs = sort_key rec_started_at (filter (\<lambda>r. rec_call r = i) (rt_rows t'))"
    using rec_query_Ok[OF assms[unfolded pg_list_by_call_def]] by auto
  then show ?thesis by (simp add: rec_data_def)
qed

lemma start_recording_Ok:
  assumes "start_recording s x i u asked w = (w', Ok r)"
  shows "\<exists>c strategy. may_record s x i u c w \<and> strategy \<in> {StrategyComposite, StrategyPerTrack, StrategyBoth} \<and>
    strategy = (case asked of None \<Rightarrow> StrategyBoth | Some y \<Rightarrow> y) \<and> r = new_recording s c u strategy (rw_next_id w) (rw_now w) \<and>
    rec_data (rw_recs w') = (rt_rows (rw_recs w) @ [r], rt_artifacts (rw_recs w)) \<and> rec_id r \<in> set (cp_sessions (rw_capture w'))"
proof -
  let ?st = "case asked of None \<Rightarrow> StrategyBoth | Some y \<Rightarrow> y"
  obtain c w1 t2 existing w3 where c: "rec_get_call i w = Ok c" "ca_workspace c = x" "ca_status c = CallStatusActive" "se_recording (ca_settings c)"
      and st: "?st \<in> {StrategyComposite, StrategyPerTrack, StrategyBoth}"
      and quota: "ensure_quota_available s x w = (w1, Ok ())"
      and host: "rec_host ''not a participant in this call'' ''only host or co-host can start recording'' i u w1 = None"
      and ex: "pg_list_by_call i (rw_recs w1) = (t2, Ok existing)" "\<not> list_ex (\<lambda>r. rec_status r = RecordingRunning) existing"
      and room: "get_room (re_uuid_text s i) (rw_sfu w1) \<noteq> None"
      and cap: "capture_start (rw_next_id w1) (w1\<lparr>rw_recs := t2, rw_next_id := rw_next_id w1 + 1\<rparr>) = (w3, Ok ())"
      and store: "store_recording s u (new_recording s c u ?st (rw_next_id w1) (rw_now w1)) w3 = (w', Ok ())"
      and r: "r = new_recording s c u ?st (rw_next_id w1) (rw_now w1)"
    using assms
    by (auto simp: start_recording_def run_simps Let_def rec_clock_def rec_new_id_def split: if_splits)
  obtain t1 where t1: "w1 = w\<lparr>rw_recs := t1\<rparr>" "rec_data t1 = rec_data (rw_recs w)" "0 < re_quota s \<longrightarrow> storage_usage x (rw_recs w) < re_quota s"
    using quota_available_Ok[OF quota] by auto
  have rows: "set existing = {r \<in> set (rt_rows (rw_recs w)). rec_call r = i}" "rec_data t2 = rec_data (rw_recs w)"
    using list_by_call_Ok[OF ex(1)] t1 by (auto simp: rec_data_def)
  have w3: "rec_data (rw_recs w3) = rec_data (rw_recs w)" "rw_next_id w1 \<in> set (cp_sessions (rw_capture w3))"
    using capture_start_Ok[OF cap] rows(2) by simp_all
  have call: "c \<in> set (ct_calls (rw_calls w))" "ca_id c = i"
    using c(1) by (auto simp: rec_get_call_def pg_get_call_def dest!: query_row_member)
  have "may_record s x i u c w"
    unfolding may_record_def using call c t1 rec_host_None[OF host] ex(2) rows(1) room by (auto simp: list_ex_iff)
  moreover have "rec_data (rw_recs w') = (rt_rows (rw_recs w) @ [r], rt_artifacts (rw_recs w))" "rw_capture w' = rw_capture w3"
    using store_recording_Ok[OF store] w3(1) r by (simp_all add: rec_data_def)
  ultimately show ?thesis using st r t1(1) w3(2) by (intro exI[of _ c] exI[of _ ?st]) (simp add: new_recording_def)
qed


section \<open>An attempt to process a recording\<close>

definition same_data :: "rec_world \<Rightarrow> rec_world \<Rightarrow> bool" where
  "same_data w w' \<longleftrightarrow> rec_data (rw_recs w') = rec_data (rw_recs w) \<and> rw_now w' = rw_now w"

lemma same_data_refl [simp]: "same_data w w"
  by (simp add: same_data_def)

lemma same_data_trans: "same_data w w1 \<Longrightarrow> same_data w1 w2 \<Longrightarrow> same_data w w2"
  by (simp add: same_data_def)

lemma retried_data:
  assumes "\<And>v v' e. m v = (v', Err e) \<Longrightarrow> same_data v v'" "retried s m w = (w', x)"
  shows "case x of Ok v \<Rightarrow> \<exists>t. same_data w t \<and> m t = (w', Ok v) | Err e \<Rightarrow> same_data w w'"
  using assms(2) unfolding retried_def
  by (rule do_state_outcome[where I = "same_data w"]) (simp, use assms(1) same_data_trans in blast)

lemma calm_same: "calm w w' \<Longrightarrow> same_data w w'"
  by (simp add: same_data_def calm_data calm_parts)

text \<open>What \<open>SetReady\<close> and \<open>MarkFailed\<close> make of the row.\<close>

definition made_ready :: "recording \<Rightarrow> instant \<Rightarrow> recording \<Rightarrow> recording" where
  "made_ready x now r =
     r\<lparr>rec_status := RecordingReady, rec_format := rec_format x, rec_duration := rec_duration x, rec_file_size := rec_file_size x,
       rec_path := rec_path x, rec_tier := rec_tier x, rec_class := rec_class x, rec_sha256 := rec_sha256 x,
       rec_downloadable := rec_downloadable x, rec_last_error := [], rec_metadata := rec_metadata x, rec_ready_at := Some now,
       rec_tier_updated := rec_tier_updated x, rec_next_retry := None\<rparr>"

definition failed_row :: "string \<Rightarrow> instant option \<Rightarrow> recording \<Rightarrow> recording" where
  "failed_row msg retry r = r\<lparr>rec_status := RecordingFailed, rec_last_error := msg, rec_next_retry := retry\<rparr>"

definition row_changed :: "uuid \<Rightarrow> (recording \<Rightarrow> recording) \<Rightarrow> rec_state \<Rightarrow> rec_state" where
  "row_changed i f x = (update_rows (\<lambda>r. rec_id r = i) f (fst x), snd x)"

lemma update_recording_row:
  assumes "update_recording msg (\<lambda>r. rec_id r = i) f t = (t', Ok u)"
  shows "rec_data t' = row_changed i f (rec_data t)"
  using assms by (auto simp: update_recording_def rec_data_def row_changed_def split: prod.splits option.splits if_splits dest!: next_answer_parts)

definition artifacts_replaced :: "uuid \<Rightarrow> recording_artifact list \<Rightarrow> rec_state \<Rightarrow> rec_state" where
  "artifacts_replaced i as x = (fst x, filter (\<lambda>a. art_recording a \<noteq> i) (snd x) @ as)"

lemma insert_artifacts_Ok: "insert_artifacts as t = (t', Ok u) \<Longrightarrow> rec_data t' = (rt_rows t, rt_artifacts t @ as)"
proof (induction as t arbitrary: t' rule: insert_artifacts.induct)
  case (2 a as t)
  obtain t1 where n: "next_answer t = (t1, None)" "artifact_error t1 a = None"
      "insert_artifacts as (t1\<lparr>rt_artifacts := rt_artifacts t1 @ [a]\<rparr>) = (t', Ok u)"
    using 2(2) by (auto split: prod.splits option.splits)
  show ?case using 2(1)[OF n(1)[symmetric] refl n(2) n(3)] next_answer_parts[OF n(1)] by simp
qed (simp add: rec_data_def)

lemma replace_artifacts_Ok:
  assumes "replace_artifacts_tx i as t = (t', Ok u)"
  shows "rec_data t' = artifacts_replaced i as (rec_data t)"
  using assms by (auto simp: replace_artifacts_tx_def rec_data_def artifacts_replaced_def split: prod.splits option.splits
      dest!: next_answer_parts insert_artifacts_Ok)

lemma finalize_Ok:
  assumes "re_tx s" "finalize_ready s x as w = (w', Ok u)"
  shows "rec_data (rw_recs w') = row_changed (rec_id x) (made_ready x (rw_now w)) (artifacts_replaced (rec_id x) as (rec_data (rw_recs w)))"
proof -
  let ?m = "and_then (rec_tables (replace_artifacts_tx (rec_id x) as)) (\<lambda>_. rec_tables (pg_set_ready x (rw_now w)))"
  have "rec_tx ?m w = (w', Ok u)" using assms by (simp add: finalize_ready_def)
  from rec_tx_Ok[OF this] obtain t w1 t1 where t: "rec_data t = rec_data (rw_recs w)" "?m (w\<lparr>rw_recs := t\<rparr>) = (w1, Ok u)"
      "rec_data t1 = rec_data (rw_recs w1)" "w' = w1\<lparr>rw_recs := t1\<rparr>" by blast
  from t(2) obtain t2 y t3 where t2: "replace_artifacts_tx (rec_id x) as t = (t2, Ok y)" "pg_set_ready x (rw_now w) t2 = (t3, Ok u)"
      "w1 = w\<lparr>rw_recs := t3\<rparr>" by (auto simp: run_simps)
  have "made_ready x (rw_now w) = (\<lambda>r. r\<lparr>rec_status := RecordingReady, rec_format := rec_format x, rec_duration := rec_duration x,
              rec_file_size := rec_file_size x, rec_path := rec_path x, rec_tier := rec_tier x, rec_class := rec_class x,
              rec_sha256 := rec_sha256 x, rec_downloadable := rec_downloadable x, rec_last_error := [],
              rec_metadata := rec_metadata x, rec_ready_at := Some (rw_now w), rec_tier_updated := rec_tier_updated x,
              rec_next_retry := None\<rparr>)" by (simp add: fun_eq_iff made_ready_def)
  then have "rec_data t3 = row_changed (rec_id x) (made_ready x (rw_now w)) (rec_data t2)"
    using update_recording_row t2(2) unfolding pg_set_ready_def by metis
  then show ?thesis using t t2 replace_artifacts_Ok[OF t2(1)] by simp
qed

lemma finalize_Err:
  assumes "re_tx s" "finalize_ready s x as w = (w', Err e)"
  shows "same_data w w'"
proof -
  have "rec_tx (and_then (rec_tables (replace_artifacts_tx (rec_id x) as)) (\<lambda>_. rec_tables (pg_set_ready x (rw_now w)))) w = (w', Err e)"
    using assms by (simp add: finalize_ready_def)
  moreover have "rw_now w' = rw_now w"
    using calculation by (auto simp: rec_tx_def rec_rolled_back_def and_then_def rec_tables_def split: prod.splits option.splits sum.splits)
  ultimately show ?thesis using rec_tx_Err by (simp add: same_data_def)
qed

lemma delete_uploaded_same: "same_data w (fst (delete_uploaded s as w))"
proof -
  have d: "same_data v v'" if "object_op (delete_object k) v = (v', x)" for v v' k x
    using that by (auto simp: object_op_def same_data_def split: prod.splits)
  have r: "same_data v (fst (retried s (object_op (delete_object k)) v))" for v k
  proof (cases "retried s (object_op (delete_object k)) v")
    case (Pair v' x)
    then have "case x of Ok y \<Rightarrow> \<exists>t. same_data v t \<and> object_op (delete_object k) t = (v', Ok y) | Err e \<Rightarrow> same_data v v'"
      by (rule retried_data[rotated]) (rule d)
    then show ?thesis using Pair d same_data_trans by (cases x) auto
  qed
  have "same_data v (fst (delete_uploaded_loop s seen as v))" for v seen
  proof (induction as arbitrary: v seen)
    case (Cons a as)
    have "same_data v (fst (delete_uploaded_loop s (art_path a # seen) as (fst (retried s (object_op (delete_object (art_path a))) v))))"
      using same_data_trans[OF r Cons.IH] .
    then show ?case using Cons.IH by (simp add: and_then_def ignore_err_def split: prod.split)
  qed (simp add: return_def)
  then show ?thesis by (simp add: delete_uploaded_def)
qed

lemma fail_attempt_effect:
  assumes "fail_attempt s r c rep w = (w', res)"
  shows "res = Some rep \<and> (rec_data (rw_recs w') = rec_data (rw_recs w) \<or>
    (\<exists>msg retry. rec_data (rw_recs w') = row_changed (rec_id r) (failed_row msg retry) (rec_data (rw_recs w))))"
proof -
  let ?msg = "error_text c" and ?retry = "next_processing_retry s r (rw_now w)"
  let ?m = "rec_tables (pg_mark_recording_failed (rec_id r) ?msg ?retry)"
  have w': "w' = fst (retried s ?m w)" "res = Some rep"
    using assms by (auto simp: fail_attempt_def handle_processing_failure_def and_then_def rec_clock_def ignore_err_def)
  have hon: "honest_step ?m" unfolding pg_mark_recording_failed_def by (rule honest_recs)
  obtain x where x: "retried s ?m w = (w', x)" using w'(1) by (metis prod.collapse)
  show ?thesis
  proof (cases x)
    case (Inl e)
    then show ?thesis using retried_Err[OF hon] x calm_data w'(2) by blast
  next
    case (Inr u)
    then obtain v where v: "calm w v" "?m v = (w', Ok u)" using retried_Ok[OF hon] x by blast
    then obtain t where t: "pg_mark_recording_failed (rec_id r) ?msg ?retry (rw_recs v) = (t, Ok u)" "w' = v\<lparr>rw_recs := t\<rparr>"
      by (auto simp: rec_tables_Ok)
    have "failed_row ?msg ?retry = (\<lambda>r. r\<lparr>rec_status := RecordingFailed, rec_last_error := ?msg, rec_next_retry := ?retry\<rparr>)"
      by (simp add: fun_eq_iff failed_row_def)
    then have "rec_data t = row_changed (rec_id r) (failed_row ?msg ?retry) (rec_data (rw_recs v))"
      using update_recording_row t(1) unfolding pg_mark_recording_failed_def by metis
    then show ?thesis using t(2) calm_data[OF v(1)] w'(2) by auto
  qed
qed

definition failed_or_same :: "uuid \<Rightarrow> rec_world \<Rightarrow> rec_world \<Rightarrow> bool" where
  "failed_or_same i w w' \<longleftrightarrow> rec_data (rw_recs w') = rec_data (rw_recs w) \<or>
     (\<exists>msg retry. rec_data (rw_recs w') = row_changed i (failed_row msg retry) (rec_data (rw_recs w)))"

lemma failed_or_same_cong: "same_data w w1 \<Longrightarrow> failed_or_same i w1 w' \<Longrightarrow> failed_or_same i w w'"
  by (simp add: failed_or_same_def same_data_def)

lemma fail_attempt_same:
  assumes "fail_attempt s r c rep w1 = (w', res)" "same_data w w1"
  shows "res = Some rep \<and> failed_or_same (rec_id r) w w'"
proof -
  have "res = Some rep" "failed_or_same (rec_id r) w1 w'" using fail_attempt_effect[OF assms(1)] by (simp_all add: failed_or_same_def)
  then show ?thesis using failed_or_same_cong[OF assms(2)] by blast
qed

text \<open>The recording \<open>r\<close> has become ready with what the processor returned.\<close>

definition made_available :: "recording_service \<Rightarrow> recording \<Rightarrow> processed_recording \<Rightarrow> instant \<Rightarrow> rec_state \<Rightarrow> rec_state" where
  "made_available s r p now x =
     (let q = apply_storage_tier s TierHot now p in
      row_changed (rec_id r) (made_ready (ready_recording r q now) now) (artifacts_replaced (rec_id r) (pr_artifacts q) x))"

lemma publish_effect:
  assumes "re_tx s" "publish_processed s r p w = (w', res)"
  shows "case res of None \<Rightarrow> rec_data (rw_recs w') = made_available s r p (rw_now w) (rec_data (rw_recs w))
    | Some e \<Rightarrow> failed_or_same (rec_id r) w w'"
proof -
  let ?q = "apply_storage_tier s TierHot (rw_now w) p"
  let ?r = "ready_recording r ?q (rw_now w)"
  let ?m = "finalize_ready s ?r (pr_artifacts ?q)"
  have i: "rec_id ?r = rec_id r" by (simp add: ready_recording_def)
  obtain w1 x where w1: "retried s ?m w = (w1, x)" by (cases "retried s ?m w")
  have c: "case x of Ok v \<Rightarrow> \<exists>t. same_data w t \<and> ?m t = (w1, Ok v) | Err e \<Rightarrow> same_data w w1"
    by (rule retried_data[OF finalize_Err[OF assms(1)] w1])
  show ?thesis
  proof (cases x)
    case (Inl e)
    let ?w2 = "fst (delete_uploaded s (pr_artifacts ?q) w1)"
    have "same_data w ?w2" using c Inl same_data_trans[OF _ delete_uploaded_same] by simp
    moreover have "fail_attempt s ?r e (Some e) ?w2 = (w', res)" using assms w1 Inl by (simp add: publish_processed_def Let_def)
    ultimately show ?thesis using fail_attempt_same i by fastforce
  next
    case (Inr u)
    then obtain t where t: "same_data w t" "?m t = (w1, Ok u)" using c by auto
    have "rec_data (rw_recs w1) = made_available s r p (rw_now w) (rec_data (rw_recs w))"
      using finalize_Ok[OF assms(1) t(2)] t(1) i by (simp add: same_data_def made_available_def Let_def)
    moreover have "w' = fst (remove_spool s (rec_id r) (fst (dispatch_ready s ?r w1)))" "res = None"
      using assms(2) w1 Inr by (simp_all add: publish_processed_def Let_def)
    moreover have "rw_recs (fst (remove_spool s (rec_id r) (fst (dispatch_ready s ?r w1)))) = rw_recs w1"
      by (simp add: remove_spool_def dispatch_ready_def Let_def split: option.split)
    ultimately show ?thesis by simp
  qed
qed

lemma quota_for_Ok:
  assumes "ensure_quota_for s x as w = (w', y)"
  shows "same_data w w' \<and> (\<forall>u. y = Ok u \<longrightarrow> 0 < re_quota s \<longrightarrow> wrap64 (storage_usage x (rw_recs w) + artifacts_size as 0) \<le> re_quota s)"
proof (cases "re_quota s \<le> 0")
  case True
  then show ?thesis using assms by (auto simp: ensure_quota_for_def return_def)
next
  case False
  obtain t z where t: "pg_storage_usage x (rw_recs w) = (t, z)" by (cases "pg_storage_usage x (rw_recs w)")
  have d: "rec_data t = rec_data (rw_recs w)" "\<And>n. z = Ok n \<Longrightarrow> n = storage_usage x t"
    using t by (auto simp: pg_storage_usage_def rec_query_def rec_data_def split: prod.splits option.splits dest!: next_answer_parts)
  have "storage_usage x t = storage_usage x (rw_recs w)" using d(1) by (simp add: storage_usage_def rec_data_def)
  then show ?thesis
    using assms t d False
    by (cases z) (auto simp: ensure_quota_for_def and_then_def map_err_def rec_tables_def guard_def fail_def return_def same_data_def split: if_splits)
qed

lemma attempt_effect:
  assumes "re_tx s" "process_attempt s f r w = (w', res)"
  shows "case res of
      None \<Rightarrow> \<exists>x p. f r w = (x, Ok (Some p)) \<and> pr_path p \<noteq> [] \<and> 0 < pr_size p \<and>
        (0 < re_quota s \<longrightarrow> wrap64 (storage_usage (rec_workspace r) (rw_recs w) + artifacts_size (pr_artifacts p) 0) \<le> re_quota s) \<and>
        rec_data (rw_recs w') = made_available s r p (rw_now w) (rec_data (rw_recs w))
    | Some e \<Rightarrow> failed_or_same (rec_id r) w w'"
proof -
  obtain x y where xy: "f r w = (x, y)" by (cases "f r w")
  let ?w1 = "w\<lparr>rw_objects := x\<rparr>"
  have run: "run_processor f r w = (?w1, y)" using xy by (simp add: run_processor_def)
  have s1: "same_data w ?w1" by (simp add: same_data_def)
  show ?thesis
  proof (cases "\<exists>p. y = Ok (Some p) \<and> pr_path p \<noteq> [] \<and> 0 < pr_size p")
    case False
    then obtain c rep where "fail_attempt s r c rep ?w1 = (w', res)"
      using assms(2) run by (cases y; cases "projr y") (auto simp: process_attempt_def split: option.splits if_splits sum.splits)
    then show ?thesis using fail_attempt_same[OF _ s1] by fastforce
  next
    case True
    then obtain p where p: "y = Ok (Some p)" "pr_path p \<noteq> []" "0 < pr_size p" by blast
    let ?q = "ensure_quota_for s (rec_workspace r) (pr_artifacts p)"
    obtain w2 z where w2: "?q ?w1 = (w2, z)" by (cases "?q ?w1")
    note q = quota_for_Ok[OF w2]
    have s2: "same_data w w2" using same_data_trans[OF s1] q by blast
    show ?thesis
    proof (cases z)
      case (Inl e)
      let ?w3 = "fst (delete_uploaded s (pr_artifacts p) w2)"
      have "fail_attempt s r e (Some e) ?w3 = (w', res)" using assms(2) run p w2 Inl by (simp add: process_attempt_def)
      then show ?thesis using fail_attempt_same[OF _ same_data_trans[OF s2 delete_uploaded_same]] by fastforce
    next
      case (Inr u)
      then have "publish_processed s r p w2 = (w', res)" using assms(2) run p w2 by (simp add: process_attempt_def)
      from publish_effect[OF assms(1) this] show ?thesis
        using xy p q Inr s2 failed_or_same_cong by (cases res) (auto simp: same_data_def storage_usage_def)
    qed
  qed
qed


text \<open>A recording whose last attempt was interrupted, and a capture that cannot be finalized.\<close>

definition rec_interrupted :: rec_world where
  "rec_interrupted = rec_sample_stopped\<lparr>rw_recs := (rw_recs rec_sample_stopped)\<lparr>
     rt_rows := map (\<lambda>r. r\<lparr>rec_attempts := 2\<rparr>) (rt_rows (rw_recs rec_sample_stopped))\<rparr>\<rparr>"

definition rec_capture_broken :: rec_world where
  "rec_capture_broken = rec_sample_started\<lparr>rw_capture := (rw_capture rec_sample_started)\<lparr>cp_steps := [Some (PlainError ''disk'')]\<rparr>\<rparr>"

lemma attempt_facts:
  "let w1 = fst (stop_recording rec_sample_service 1 10 3 rec_capture_broken);
       run = process_pending_recordings rec_sample_service 5 rec_interrupted in
   snd (process_attempt rec_sample_service rec_sample_processor (hd (rt_rows (rw_recs rec_sample_stopped))) rec_sample_stopped) = None \<and>
   rt_artifacts (rw_recs rec_sample_stopped) = [] \<and> storage_usage 1 (rw_recs rec_sample_ready) = 40 \<and>
   rt_rows (rw_recs (fst run)) = rt_rows (rw_recs rec_interrupted) \<and> mn_failed (fst (snd run)) = 1 \<and> snd (snd run) \<noteq> None \<and>
   snd (stop_recording rec_sample_service 1 10 3 rec_capture_broken) \<noteq> Ok () \<and> cp_sessions (rw_capture w1) = [] \<and>
   snd (stop_recording rec_sample_service 1 10 3 w1) = Ok () \<and>
   map rec_status (rt_rows (rw_recs (fst (stop_recording rec_sample_service 1 10 3 w1)))) = [RecordingProcessing]"
  by code_simp

lemma rec_sample_attempt:
  "process_attempt rec_sample_service rec_sample_processor (hd (rt_rows (rw_recs rec_sample_stopped))) rec_sample_stopped =
     (fst (process_attempt rec_sample_service rec_sample_processor (hd (rt_rows (rw_recs rec_sample_stopped))) rec_sample_stopped), None)"
proof -
  have "snd (process_attempt rec_sample_service rec_sample_processor (hd (rt_rows (rw_recs rec_sample_stopped))) rec_sample_stopped) = None"
    using attempt_facts by (simp add: Let_def)
  then show ?thesis by (metis prod.collapse)
qed


section \<open>The storage quota\<close>

text \<open>What the service relies on of the processor: the artifacts that it returns are those of the workspace of the recording,
  with sizes that do not add up beyond an \<open>int64\<close>.\<close>

definition honest_processor :: "(recording \<Rightarrow> rec_world \<Rightarrow> object_store \<times> processed_recording option result) \<Rightarrow> bool" where
  "honest_processor f \<longleftrightarrow>
     (\<forall>r w x p. f r w = (x, Ok (Some p)) \<longrightarrow>
        (\<forall>a \<in> set (pr_artifacts p). art_workspace a = rec_workspace r \<and> 0 \<le> art_size a) \<and> sum_list (map art_size (pr_artifacts p)) < 2 ^ 62)"

definition within_quota :: "recording_service \<Rightarrow> uuid \<Rightarrow> rec_world \<Rightarrow> bool" where
  "within_quota s x w \<longleftrightarrow> storage_usage x (rw_recs w) \<le> re_quota s \<and> (\<forall>a \<in> set (rt_artifacts (rw_recs w)). 0 \<le> art_size a)"

lemma within_quota_cong: "rt_artifacts (rw_recs w') = rt_artifacts (rw_recs w) \<Longrightarrow> within_quota s x w' = within_quota s x w"
  by (simp add: within_quota_def storage_usage_def)

lemma artifacts_size_sum:
  assumes "\<forall>a \<in> set as. 0 \<le> art_size a" "0 \<le> n" "n + sum_list (map art_size as) < 2 ^ 63"
  shows "artifacts_size as n = n + sum_list (map art_size as)"
  using assms
proof (induction as arbitrary: n)
  case (Cons a as)
  have "0 \<le> sum_list (map art_size as)" using Cons.prems(1) by (intro sum_list_nonneg) auto
  then have "wrap64 (n + art_size a) = n + art_size a" using Cons.prems by (intro wrap64_id) auto
  then show ?case using Cons by simp
qed simp

lemma usage_filter_le: "\<forall>a \<in> set as. 0 \<le> art_size a \<Longrightarrow> sum_list (map art_size (filter P (filter Q as))) \<le> sum_list (map art_size (filter P as))"
  by (induction as) auto

lemma available_artifacts:
  "snd (made_available s r p now x) = filter (\<lambda>a. art_recording a \<noteq> rec_id r) (snd x) @
     map (\<lambda>a. a\<lparr>art_tier := TierHot, art_class := default_storage_class s TierHot, art_tier_updated := Some now\<rparr>) (pr_artifacts p)"
  by (simp add: made_available_def Let_def row_changed_def artifacts_replaced_def apply_storage_tier_def)

lemma available_within:
  assumes "within_quota s x w" "0 < re_quota s" "re_quota s < 2 ^ 62"
    "\<forall>a \<in> set (pr_artifacts p). art_workspace a = rec_workspace r \<and> 0 \<le> art_size a" "sum_list (map art_size (pr_artifacts p)) < 2 ^ 62"
    "wrap64 (storage_usage (rec_workspace r) (rw_recs w) + artifacts_size (pr_artifacts p) 0) \<le> re_quota s"
    "rec_data (rw_recs w') = made_available s r p now (rec_data (rw_recs w))"
  shows "within_quota s x w'"
proof -
  let ?as = "rt_artifacts (rw_recs w)" and ?new = "pr_artifacts p" and ?total = "sum_list (map art_size (pr_artifacts p))"
  let ?old = "\<lambda>a. art_recording a \<noteq> rec_id r"
  have arts: "rt_artifacts (rw_recs w') = filter ?old ?as @
     map (\<lambda>a. a\<lparr>art_tier := TierHot, art_class := default_storage_class s TierHot, art_tier_updated := Some now\<rparr>) ?new"
    using available_artifacts[of s r p now "rec_data (rw_recs w)"] assms(7) by (simp add: rec_data_def prod_eq_iff)
  have nn: "\<forall>a \<in> set ?as. 0 \<le> art_size a" using assms(1) by (simp add: within_quota_def)
  have le: "sum_list (map art_size (filter (\<lambda>a. art_workspace a = x) (filter ?old ?as))) \<le> storage_usage x (rw_recs w)"
    unfolding storage_usage_def by (rule usage_filter_le[OF nn])
  have usage: "storage_usage x (rw_recs w') =
      sum_list (map art_size (filter (\<lambda>a. art_workspace a = x) (filter ?old ?as))) + (if x = rec_workspace r then ?total else 0)"
  proof -
    have "filter (\<lambda>a. art_workspace a = x) ?new = (if x = rec_workspace r then ?new else [])"
      using assms(4) by (auto simp: filter_empty_conv)
    then show ?thesis unfolding storage_usage_def arts by (simp add: filter_map comp_def)
  qed
  have "storage_usage x (rw_recs w') \<le> re_quota s"
  proof (cases "x = rec_workspace r")
    case True
    have t: "0 \<le> ?total" using assms(4) by (intro sum_list_nonneg) auto
    have u: "0 \<le> storage_usage x (rw_recs w)" unfolding storage_usage_def using nn by (intro sum_list_nonneg) auto
    have "artifacts_size ?new 0 = ?total" using artifacts_size_sum[of ?new 0] assms(4,5) by simp
    moreover have "wrap64 (storage_usage x (rw_recs w) + ?total) = storage_usage x (rw_recs w) + ?total"
      using t u assms(1,3,5) by (intro wrap64_id) (auto simp: within_quota_def)
    ultimately show ?thesis using assms(6) usage le True by simp
  next
    case False
    then show ?thesis using usage le assms(1) by (simp add: within_quota_def)
  qed
  moreover have "\<forall>a \<in> set (rt_artifacts (rw_recs w')). 0 \<le> art_size a" unfolding arts using nn assms(4) by auto
  ultimately show ?thesis by (simp add: within_quota_def)
qed

lemma failed_within: "failed_or_same i w w' \<Longrightarrow> within_quota s x w' = within_quota s x w"
  by (rule within_quota_cong) (auto simp: failed_or_same_def rec_data_def row_changed_def)

lemma attempt_within:
  assumes "re_tx s" "honest_processor f" "0 < re_quota s" "re_quota s < 2 ^ 62" "within_quota s x w" "process_attempt s f r w = (w', res)"
  shows "within_quota s x w'"
proof (cases res)
  case None
  then obtain y p where y: "f r w = (y, Ok (Some p))"
      "wrap64 (storage_usage (rec_workspace r) (rw_recs w) + artifacts_size (pr_artifacts p) 0) \<le> re_quota s"
      "rec_data (rw_recs w') = made_available s r p (rw_now w) (rec_data (rw_recs w))"
    using attempt_effect[OF assms(1,6)] assms(3) by auto
  have "\<forall>a \<in> set (pr_artifacts p). art_workspace a = rec_workspace r \<and> 0 \<le> art_size a" "sum_list (map art_size (pr_artifacts p)) < 2 ^ 62"
    using assms(2) y(1) unfolding honest_processor_def by blast+
  then show ?thesis by (rule available_within[OF assms(5,3,4) _ _ y(2,3)])
next
  case (Some e)
  then show ?thesis using attempt_effect[OF assms(1,6)] failed_within assms(5) by auto
qed

lemma mark_within:
  assumes "retried s (\<lambda>v. rec_tables (pg_mark_attempt i (rw_now v)) v) w = (w', y)"
  shows "within_quota s x w' = within_quota s x w"
proof -
  have q: "rt_artifacts (rw_recs v') = rt_artifacts (rw_recs v)" if "rec_tables (pg_mark_attempt i (rw_now v)) v = (v', z)" for v v' z
    using that by (auto simp: rec_tables_def pg_mark_attempt_def update_returning_def update_recording_def
        split: prod.splits sum.splits option.splits if_splits dest!: next_answer_parts)
  have "case y of Ok z \<Rightarrow> \<exists>t. rt_artifacts (rw_recs t) = rt_artifacts (rw_recs w) \<and> rec_tables (pg_mark_attempt i (rw_now t)) t = (w', Ok z)
      | Err e \<Rightarrow> rt_artifacts (rw_recs w') = rt_artifacts (rw_recs w)"
    using assms unfolding retried_def
    by (rule do_state_outcome[where I = "\<lambda>t. rt_artifacts (rw_recs t) = rt_artifacts (rw_recs w)"]) (simp, metis q)
  then show ?thesis using q by (intro within_quota_cong) (auto split: sum.splits)
qed

lemma process_list_within:
  assumes "re_tx s" "honest_processor f" "0 < re_quota s" "re_quota s < 2 ^ 62"
  shows "within_quota s x w \<Longrightarrow> within_quota s x (fst (process_recordings s f rs n first w))"
proof (induction rs arbitrary: n first w)
  case (Cons r rs)
  let ?m = "retried s (\<lambda>v. rec_tables (pg_mark_attempt (rec_id r) (rw_now v)) v)"
  obtain w1 y where w1: "?m w = (w1, y)" by (cases "?m w")
  have 1: "within_quota s x w1" using mark_within[OF w1] Cons.prems by simp
  show ?case
  proof (cases y)
    case (Inl e)
    then show ?thesis using w1 Cons.IH[OF 1] by simp
  next
    case (Inr marked)
    obtain w2 z where w2: "process_attempt s f marked w1 = (w2, z)" by (cases "process_attempt s f marked w1")
    then have "within_quota s x w2" by (rule attempt_within[OF assms 1])
    then show ?thesis using w1 w2 Inr Cons.IH by (cases z) simp_all
  qed
qed simp

text \<open>C38: the storage quota. A run of the processing worker never takes the artifacts of a workspace beyond its quota, whatever
  statements fail, when the service runs transactions and the processor returns artifacts of the workspace of the recording.\<close>

theorem storage_quota_kept:
  assumes "re_tx s" "re_processor s = Some f" "honest_processor f" "0 < re_quota s" "re_quota s < 2 ^ 62" "within_quota s x w"
  shows "within_quota s x (fst (process_pending_recordings s limit w))"
proof -
  let ?m = "retried s (\<lambda>v. rec_tables (pg_list_processable (rw_now v) (batch_limit limit) 0) v)"
  obtain w1 y where w1: "?m w = (w1, y)" by (cases "?m w")
  have "moves {} ?m" by (rule moves_retried, rule moves_at, intro moves_tables runs_intros)
  then have "rec_data (rw_recs w1) = rec_data (rw_recs w)" using w1 by (rule moves_nothing)
  then have 1: "within_quota s x w1" using within_quota_cong assms(6) by (metis rec_data_def snd_conv)
  then show ?thesis
    using w1 assms(2,6) process_list_within[OF assms(1,3,4,5) 1] by (cases y) (simp_all add: process_pending_recordings_def)
qed

lemma rec_sample_processor_honest: "honest_processor rec_sample_processor"
  by (simp add: honest_processor_def rec_sample_processor_def)

theorem storage_quota_kept_witness:
  "within_quota rec_sample_service 1 rec_sample_ready \<and> storage_usage 1 (rw_recs rec_sample_ready) = 40"
proof
  have q: "within_quota rec_sample_service 1 rec_sample_stopped" using attempt_facts by (simp add: within_quota_def storage_usage_def rec_sample_service_def Let_def)
  have s: "re_tx rec_sample_service" "re_processor rec_sample_service = Some rec_sample_processor" "0 < re_quota rec_sample_service"
      "re_quota rec_sample_service < 2 ^ 62"
    by (simp_all add: rec_sample_service_def)
  have "rec_sample_ready = fst (process_pending_recordings rec_sample_service 5 rec_sample_stopped)" by (simp add: rec_sample_ready_def)
  then show "within_quota rec_sample_service 1 rec_sample_ready"
    using storage_quota_kept[OF s(1,2) rec_sample_processor_honest s(3,4) q, of 5] by metis
  show "storage_usage 1 (rw_recs rec_sample_ready) = 40" using attempt_facts by (simp add: Let_def)
qed

section \<open>Recordings that get stuck\<close>

text \<open>A recording whose last attempt was interrupted stays in processing with all its attempts counted. It is listed again
  in every run, marking the attempt violates the check on the count, and nothing marks it failed.\<close>

lemma interrupted_recording_stuck:
  "let run = process_pending_recordings rec_sample_service 5 rec_interrupted in
   rt_rows (rw_recs (fst run)) = rt_rows (rw_recs rec_interrupted) \<and> mn_failed (fst (snd run)) = 1 \<and> snd (snd run) \<noteq> None"
  using attempt_facts by (simp add: Let_def)

text \<open>When the capture cannot be finalized, the stop fails and the session is forgotten; the next stop finds no session, succeeds,
  and hands a spool without its final state to the processor.\<close>

lemma second_stop_succeeds:
  "let w1 = fst (stop_recording rec_sample_service 1 10 3 rec_capture_broken) in
   snd (stop_recording rec_sample_service 1 10 3 rec_capture_broken) \<noteq> Ok () \<and> cp_sessions (rw_capture w1) = [] \<and>
   snd (stop_recording rec_sample_service 1 10 3 w1) = Ok () \<and>
   map rec_status (rt_rows (rw_recs (fst (stop_recording rec_sample_service 1 10 3 w1)))) = [RecordingProcessing]"
  using attempt_facts by (simp add: Let_def)

end
