(* ===== verification/Spec2Isabelle.thy ===== *)
theory Spec2Isabelle
  imports Access Relay WsHandler Collaboration Sfu CallEffects Cursors ChatEffects MeetingProps Guests RecordingAttempts
begin

text \<open>
  A model of the core of the Aloqa server, the Go program under \<open>src/\<close>: a multi-tenant workplace
  messenger with channels, calls, media rooms and realtime delivery. Every request goes through the
  same chain. The access policy decides from rows of PostgreSQL whether a user may touch a workspace, a
  channel or a call; a service changes tables inside a transaction and files an event in the outbox
  with it; a worker publishes the outbox through NATS; the websocket hub fans events out to connected
  clients and restores their subscriptions when they reconnect; calls own media rooms in which the SFU
  forwards tracks and adapts their quality.

  Shared ground.
    \<^item> \<open>Prelude\<close>: identifiers, instants, Go strings, maps and int64 arithmetic, and the lemma
      collections the other theories extend. \<open>Cerrors\<close>: \<open>internal/pkg/cerrors\<close>, error trees with
      \<open>errors.Is\<close> and \<open>errors.As\<close>. \<open>Cursors\<close>: \<open>internal/pkg/pagination\<close>, pages and base64 cursors, which
      read back as they were written. \<open>Steps\<close>: handlers as functions from a world to a world and a result,
      with early return and the transactions of \<open>internal/repository/postgres/tx.go\<close>.
    \<^item> \<open>Reliability\<close>: \<open>internal/platform/reliability\<close>, the retry loop, its bounds and its back-off.

  Access control.
    \<^item> \<open>Entities\<close> and \<open>Tables\<close>: \<open>internal/domain/entity\<close> and the repositories over workspaces, roles,
      channels, guest and collaboration grants and connections in \<open>internal/repository/postgres\<close>.
    \<^item> \<open>Rbac\<close>: \<open>internal/security/rbac\<close>; effective permissions are those of the base role and of the
      assigned definitions. \<open>Collaboration\<close>: \<open>internal/service/collaboration\<close>, connections between workspaces
      and what they allow. \<open>Access\<close>: the checkers of \<open>internal/security/guestaccess\<close>, \<open>collabaccess\<close> and
      \<open>accesspolicy\<close>, refined to a statement about rows, and the listing of channels.

  Realtime delivery.
    \<^item> \<open>Events\<close>: the envelope of \<open>internal/domain/event\<close>. \<open>Outbox\<close>: the table and statements of
      \<open>internal/repository/postgres/realtime.go\<close>. \<open>Relay\<close>: \<open>internal/service/realtime\<close>, publishing, the worker and
      its cursors, with the invariant of the table along every history and the properties of a batch.
    \<^item> \<open>Hub\<close>: \<open>internal/platform/ws\<close>, clients, rooms, broadcasts and the persisted subscriptions; its
      steps, taken in any order, keep it consistent. \<open>WsHandler\<close>: \<open>internal/handler/ws/handler.go\<close>, client
      messages and the restoration of a reconnecting client.

  Media.
    \<^item> \<open>Simulcast\<close>, \<open>Adaptive\<close>, \<open>Room\<close>, \<open>RoomSpec\<close>, \<open>Sfu\<close>: \<open>internal/media/sfu\<close>, the quality layers of a
      stream, the controller that chooses among them, the room with its peers, tracks and subscriptions, what
      its operations do in closed form with its invariant, and the registry of rooms of a node.

  Calls.
    \<^item> \<open>CallTables\<close>: calls, participants and breakout rooms with the statements of their repositories.
      \<open>CallService\<close>, \<open>Calls\<close>, \<open>Breakouts\<close>: \<open>internal/service/call\<close>, every handler from its guards to its
      events. \<open>CallRuns\<close> and \<open>CallLaws\<close>: what a run of the handlers does, and the contract that a predicate
      on the tables has to meet to survive all of them. \<open>CallSpec\<close>, \<open>CallProps\<close>, \<open>CallEffects\<close>: histories, and
      the properties of calls, hosts, joining, leaving, media state and signals.

  Messages and search.
    \<^item> \<open>MessageTables\<close>: messages, reactions, attachments and read states with the statements of
      \<open>internal/repository/postgres/message.go\<close> and \<open>channel_access_state.go\<close>.
    \<^item> \<open>SearchQueue\<close>: the queue, the worker, the index and its rebuilding in
      \<open>internal/repository/postgres/search.go\<close>. \<open>SearchProps\<close>: the invariant of queue and index along every
      history, what a batch applies, the equality of a rebuilt index with the searchable rows, and the two
      ways in which the queue loses work. \<open>SearchService\<close>: the query with its visibility conditions,
      \<open>internal/service/search\<close> with its audit entry, and what a search can reveal.
    \<^item> \<open>ChatService\<close>, \<open>Chat\<close>: \<open>internal/service/chat\<close>, access of users and of meeting guests, and every
      operation on channels, messages, reactions, pins, direct messages and read marks. \<open>ChatRuns\<close>,
      \<open>ChatSpec\<close>: what a run leaves alone, and the refinement of every operation to the one statement on the message
      tables that it may execute. \<open>ChatProps\<close>, \<open>ChatEffects\<close>: histories, authorship, guests, and the effect of
      sending, paging, opening direct messages and marking as read.

  Accounts and sessions.
    \<^item> \<open>Sessions\<close>: \<open>internal/service/auth/session.go\<close>, refresh tokens, sessions and their sets as Redis keys with
      expiry, pipelines that may stop half way, and the touch worker in its two steps. \<open>SessionSpec\<close>, \<open>SessionProps\<close>:
      the changes an operation may make to the keys, their invariant along every history, tokens that are used
      once, sessions that stay revoked, the limit on sessions, and the races that break these across requests.
    \<^item> \<open>AccountTables\<close>: users, workspaces and guest invites with the statements of their repositories. \<open>Auth\<close>:
      \<open>internal/service/auth/service.go\<close> and \<open>internal/middleware/auth.go\<close>. \<open>AuthProps\<close>: registration and login,
      the slugs of workspaces, and what an accepted request stands on. \<open>Guests\<close>: \<open>internal/service/guest\<close>,
      creating, redeeming, revoking and listing invites. \<open>Meetings\<close>: \<open>internal/service/meeting\<close> with
      \<open>internal/repository/postgres/meeting.go\<close>, invite links to calls and the guests that join by them.
      \<open>MeetingProps\<close>: who is admitted, links and their uses along every history, and what a guest token proves.

  Recordings.
    \<^item> \<open>RecordingTables\<close>: recordings and artifacts with the statements of
      \<open>internal/repository/postgres/recording.go\<close> and the constraints of \<open>migrations/025\<close>. \<open>Recordings\<close>,
      \<open>RecordingWorkers\<close>: \<open>internal/service/recording/service.go\<close> with the sessions of \<open>capture.go\<close>, from starting
      and stopping to downloads, and the workers that process, delete and move recordings. \<open>RecordingSpec\<close>: the
      changes a statement may make, and the changes every operation is made of, whatever fails and is retried.
      \<open>RecordingProps\<close>: the tables along every history, the life of a recording, and legal holds. \<open>RecordingEffects\<close>,
      \<open>RecordingAttempts\<close>: the cleanup, starting, an attempt to process, the storage quota, and how
      recordings get stuck.

  How the model stands to the code. A handler is one definition per Go method, with the branches in the
  order of the code; where a method is long its parts are definitions of their own. A repository method is a
  function on the list of rows of its table, with the WHERE clause as a filter, the unique indexes and the
  constraints the code tests for as failures, and \<open>ORDER BY\<close> as a sort. Errors are values: a
  \<open>result\<close> is an error tree or a value. Concurrency appears as the order of steps, at
  the granularity that the property needs: the critical sections of the hub and of a media room (also those between which
  one of its methods releases the lock) and the statements of the outbox and of the search queue can be taken in any
  order by any history. Sessions run as whole operations in the histories of \<open>refresh_token_used_once\<close> and
  \<open>session_limit\<close>, and with single commands, halves of flushes and reads in flight among them in those of
  \<open>revoked_session_stays_invalid\<close>. The statements of the cleanup of recordings interleave with every other operation.
  The handlers of calls, chats, meetings and recordings run one after the other; where two of them at once break what holds
  for one, a lemma shows the run or the manifest records it.

  Interfaces. A component that works through a Go interface is verified against a locale that states what it
  relies on: \<open>membership_reads\<close> (permission checks over the repositories), \<open>channel_pages\<close> (the paged
  listing), \<open>event_store\<close> (the worker over the outbox), \<open>subscription_store\<close> (restoration over Redis),
  \<open>call_law\<close> and \<open>full_call_law\<close> (call handlers over the tables). Each is interpreted on the model of the
  component that provides it, and the properties are stated for those.

  Parameters. What is not under \<open>src/\<close> is an argument: the text of a UUID and its parsing, the clock, the
  transport's answer, JSON payloads, the answers of a WebRTC connection (\<open>rtc\<close>), and the failures of the
  database and Redis (\<open>db_fault\<close>, \<open>ct_fault\<close>, \<open>ob_steps\<close>, \<open>rd_steps\<close>). They are arbitrary in the
  properties unless a hypothesis says that a statement succeeds. \<open>id.New()\<close> is a counter, so that identifiers are
  fresh. Redis may fail after any prefix of a pipeline (\<open>ky_steps\<close>); what the statements on
  recordings, the object store and the capture answer one after the other is \<open>rt_steps\<close>, \<open>os_steps\<close> and
  \<open>cp_steps\<close>. The processor that renders a recording is a parameter as well, with \<open>honest_processor\<close>
  where a bound needs it. bcrypt, SHA-256, JSON web tokens, random bytes
  and the Unicode classes of runes are fields of the services. What they promise are hypotheses: \<open>honest_bcrypt\<close> (a
  hash matches the password it was made of and no other, for at most 72 bytes without NUL), \<open>honest_sha256\<close> (digests have 32
  bytes), \<open>honest_jwt\<close> (an accepted token was signed under the key handed out, and its expiry, if it has one, has not
  passed), \<open>shared_tokens\<close> (a signed payload of plain values comes back until the second of its expiry, when both services
  have one secret), \<open>honest_random\<close> (draws and identifiers do not repeat), \<open>real_outcomes\<close> (no command fails with the
  error for a missing key) and \<open>honest_members\<close> (Redis lists the members of a set). \<open>float64\<close> in \<open>Adaptive\<close> is a rational.

  Termination. Loops over lists are structural. The paged listing of channels is a partial function that may
  not return, and is proved to return after one page; the retry loop is bounded by its number of
  attempts; no definition uses fuel.

  Not modelled. HTTP handlers, configuration and wiring, and the clients of NATS, Redis, S3 and PostgreSQL
  translate between the parts above and libraries. The goroutines that pump packets and websocket frames,
  and the telemetry of WebRTC, are input and output, and so are the packet files of a capture and the processor
  with ffmpeg. Media operations, administration, files, notifications and presence are services of their own that the
  modelled parts do not call; what they do is mostly to move rows and bytes between PostgreSQL, Redis, S3 and LiveKit
  clients, and they are left out.
\<close>

section \<open>From the outbox to the resume cursor\<close>

text \<open>The cursor that a reconnecting client is replayed from never advances: whatever an outbox
  holds, delivering the body of one of its rows to a client leaves the stored delivery state of that
  client as it was, since the body was encoded before the table gave the event its sequence.\<close>

lemma delivered_cursor_never_moves:
  assumes "outbox_reachable b" "r \<in> set (ob_rows b)"
  shows "record_delivery store room (Encoded (or_body r)) c st = st"
  using reachable_ok[OF assms(1)] assms(2) by (simp add: record_delivery_def split: option.split)

lemma delivered_cursor_never_moves_witness:
  "ob_rows sample_outbox \<noteq> [] \<and>
   (\<forall>store room c st. record_delivery store room (Encoded (or_body (hd (ob_rows sample_outbox)))) c st = st)"
proof -
  have ne: "ob_rows sample_outbox \<noteq> []" by code_simp
  show ?thesis by (intro conjI ne allI delivered_cursor_never_moves[OF sample_reachable hd_in_set[OF ne]])
qed

end
